(* ===== verification/Prelude.thy ===== *)
theory Prelude
  imports Main "HOL-Library.Sublist" "HOL-Library.AList" "HOL-Library.List_Lexorder"
    "HOL-Library.Char_ord"
begin

text \<open>
  What every component shares: the values the TypeScript code computes with (strings,
  optional strings, insertion-ordered maps and sets), the errors it throws, and the
  interfaces (locales) that several components provide.

  A JavaScript string is a list of code units. The model keeps the Latin-1 code units
  (0 to 255), which are the values of \<^typ>\<open>char\<close>, so that every accented letter of the role
  names and statuses is a character of its own. A value \<open>string | null | undefined\<close> is a
  \<^typ>\<open>string option\<close>.
\<close>

named_theorems js_simps "evaluation of the string and map operations of the source language"
named_theorems step_simps "transition tables and guards of the state machines"

section \<open>Errors\<close>

text \<open>
  \<open>HttpError\<close> of \<open>src/utils/httpError.ts\<close> carries a status and a stable code; a plain
  \<open>Error\<close> carries its message. The French text of an \<open>HttpError\<close> is for people and no
  code reads it, so it is left out.
\<close>

datatype failure = HttpError nat string | JsError string

type_synonym 'a result = "failure + 'a"

definition ensure :: "bool \<Rightarrow> failure \<Rightarrow> unit result" where
  "ensure b e = (if b then Inr () else Inl e)"

fun bind_result :: "'a result \<Rightarrow> ('a \<Rightarrow> 'b result) \<Rightarrow> 'b result" where
  "bind_result (Inl e) f = Inl e"
| "bind_result (Inr x) f = f x"

fun map_result :: "('a \<Rightarrow> 'b result) \<Rightarrow> 'a list \<Rightarrow> 'b list result" where
  "map_result f [] = Inr []"
| "map_result f (x # xs) =
     bind_result (f x) (\<lambda>y. bind_result (map_result f xs) (\<lambda>ys. Inr (y # ys)))"

definition is_ok :: "'a result \<Rightarrow> bool" where
  "is_ok r = (case r of Inl _ \<Rightarrow> False | Inr _ \<Rightarrow> True)"

lemma ensure_simps [simp]:
  "ensure True e = Inr ()" "ensure False e = Inl e"
  "ensure b e = Inr u \<longleftrightarrow> b" "ensure b e = Inl e' \<longleftrightarrow> \<not> b \<and> e = e'"
  by (auto simp: ensure_def)

lemma is_ok_simps [simp]: "is_ok (Inr x)" "\<not> is_ok (Inl e)"
  by (simp_all add: is_ok_def)

lemma is_ok_ensure [simp]: "is_ok (ensure b e) = b"
  by (simp add: is_ok_def ensure_def)

lemma bind_result_Inr_iff [simp]:
  "bind_result r f = Inr y \<longleftrightarrow> (\<exists>x. r = Inr x \<and> f x = Inr y)"
  by (cases r) auto

lemma bind_result_Inl_iff:
  "bind_result r f = Inl e \<longleftrightarrow> r = Inl e \<or> (\<exists>x. r = Inr x \<and> f x = Inl e)"
  by (cases r) auto

lemma map_result_length: "map_result f xs = Inr ys \<Longrightarrow> length ys = length xs"
  by (induction xs arbitrary: ys) auto

lemma map_result_nth:
  "map_result f xs = Inr ys \<Longrightarrow> i < length xs \<Longrightarrow> f (xs ! i) = Inr (ys ! i)"
  by (induction xs arbitrary: ys i) (auto simp: nth_Cons split: nat.splits)

lemma map_result_in:
  "map_result f xs = Inr ys \<Longrightarrow> y \<in> set ys \<Longrightarrow> \<exists>x \<in> set xs. f x = Inr y"
  by (induction xs arbitrary: ys) auto

section \<open>Strings\<close>

text \<open>White space as \<open>String.prototype.trim\<close> sees it, within Latin-1.\<close>

definition js_space :: "char \<Rightarrow> bool" where
  "js_space c \<longleftrightarrow> of_char c \<in> {9, 10, 11, 12, 13, 32, 160 :: nat}"

definition js_trim :: "string \<Rightarrow> string" where
  "js_trim s = rev (dropWhile js_space (rev (dropWhile js_space s)))"

text \<open>
  \<open>toLowerCase\<close> and \<open>toUpperCase\<close> on Latin-1. Upper case leaves the letters 181 and 255
  alone: their capitals are outside Latin-1, and no constant of the code contains them.
\<close>

definition lower_char :: "char \<Rightarrow> char" where
  "lower_char c =
     (let n = (of_char c :: nat)
      in if (65 \<le> n \<and> n \<le> 90) \<or> (192 \<le> n \<and> n \<le> 222 \<and> n \<noteq> 215) then char_of (n + 32) else c)"

definition upper_char :: "char \<Rightarrow> string" where
  "upper_char c =
     (let n = (of_char c :: nat)
      in if n = 223 then ''SS''
         else if (97 \<le> n \<and> n \<le> 122) \<or> (224 \<le> n \<and> n \<le> 254 \<and> n \<noteq> 247) then [char_of (n - 32)]
         else [c])"

definition js_lower :: "string \<Rightarrow> string" where
  "js_lower = map lower_char"

definition js_upper :: "string \<Rightarrow> string" where
  "js_upper s = concat (map upper_char s)"

primrec js_includes :: "string \<Rightarrow> string \<Rightarrow> bool" where
  "js_includes [] n = (n = [])"
| "js_includes (c # s) n = (prefix n (c # s) \<or> js_includes s n)"

fun js_split :: "char \<Rightarrow> string \<Rightarrow> string list" where
  "js_split d [] = [[]]"
| "js_split d (c # s) =
     (if c = d then [] # js_split d s
      else (case js_split d s of [] \<Rightarrow> [[c]] | h # t \<Rightarrow> (c # h) # t))"

fun js_join :: "string \<Rightarrow> string list \<Rightarrow> string" where
  "js_join sep [] = []"
| "js_join sep [x] = x"
| "js_join sep (x # y # ys) = x @ sep @ js_join sep (y # ys)"

text \<open>\<open>value ?? ""\<close>, and the truth value of an optional string.\<close>

definition or_empty :: "string option \<Rightarrow> string" where
  "or_empty v = (case v of None \<Rightarrow> [] | Some s \<Rightarrow> s)"

definition truthy :: "string option \<Rightarrow> bool" where
  "truthy v = (case v of None \<Rightarrow> False | Some s \<Rightarrow> s \<noteq> [])"

lemma or_empty_simps [simp]: "or_empty None = []" "or_empty (Some s) = s"
  by (simp_all add: or_empty_def)

lemma truthy_simps [simp]: "\<not> truthy None" "truthy (Some s) = (s \<noteq> [])"
  by (simp_all add: truthy_def)

lemma truthy_Some: "truthy v \<longleftrightarrow> (\<exists>s. v = Some s \<and> s \<noteq> [])"
  by (cases v) auto

lemma js_includes_sublist: "js_includes s n \<longleftrightarrow> sublist n s"
  by (induction s) (auto simp: sublist_Cons_right)

lemma js_lower_append [simp]: "js_lower (a @ b) = js_lower a @ js_lower b"
  by (simp add: js_lower_def)

lemma js_trim_Nil [simp]: "js_trim [] = []"
  by (simp add: js_trim_def)

lemma dropWhile_suffix: "\<exists>a. xs = a @ dropWhile P xs"
  by (rule exI [of _ "takeWhile P xs"]) simp

lemma js_trim_sublist: "sublist (js_trim s) s"
proof -
  obtain a where a: "s = a @ dropWhile js_space s"
    using dropWhile_suffix by blast
  obtain b where "rev (dropWhile js_space s) = b @ dropWhile js_space (rev (dropWhile js_space s))"
    using dropWhile_suffix by blast
  then have "dropWhile js_space s = js_trim s @ rev b"
    unfolding js_trim_def by (metis rev_append rev_rev_ident)
  with a have "s = a @ js_trim s @ rev b" by simp
  then show ?thesis unfolding sublist_def by blast
qed

text \<open>A string with no space at either end is unchanged by \<open>trim\<close>.\<close>

definition trimmed :: "string \<Rightarrow> bool" where
  "trimmed s \<longleftrightarrow> s = [] \<or> (\<not> js_space (hd s) \<and> \<not> js_space (last s))"

lemma dropWhile_hd: "xs \<noteq> [] \<Longrightarrow> \<not> P (hd xs) \<Longrightarrow> dropWhile P xs = xs"
  by (cases xs) auto

lemma js_trim_id [simp]: "trimmed s \<Longrightarrow> js_trim s = s"
  by (cases "s = []") (auto simp: trimmed_def js_trim_def dropWhile_hd hd_rev)

lemma js_trim_empty_iff: "js_trim s = [] \<longleftrightarrow> (\<forall>c \<in> set s. js_space c)"
proof
  assume "js_trim s = []"
  then have "\<forall>c \<in> set (dropWhile js_space s). js_space c"
    by (auto simp: js_trim_def dropWhile_eq_Nil_conv)
  then show "\<forall>c \<in> set s. js_space c"
    by (metis dropWhile_eq_Nil_conv hd_dropWhile list.set_sel(1))
next
  assume "\<forall>c \<in> set s. js_space c"
  then have d: "dropWhile js_space s = []" by simp
  show "js_trim s = []" unfolding js_trim_def d by simp
qed

lemma js_trim_prefix_space: "js_space c \<Longrightarrow> js_trim (c # s) = js_trim s"
  by (simp add: js_trim_def)

lemma js_trim_suffix_space: "js_space c \<Longrightarrow> js_trim (s @ [c]) = js_trim s"
proof (cases "\<forall>c \<in> set s. js_space c")
  case True
  moreover assume "js_space c"
  ultimately have "js_trim s = []" "js_trim (s @ [c]) = []"
    by (simp_all add: js_trim_empty_iff)
  then show ?thesis by simp
qed (auto simp: js_trim_def dropWhile_append)

text \<open>Trimming loses no occurrence of a word that has no space at its ends.\<close>

lemma trim_keeps_word:
  assumes "n \<noteq> []" "trimmed n" "sublist n s"
  shows "sublist n (js_trim s)"
proof -
  have h: "\<not> js_space (hd n)" and l: "\<not> js_space (last n)"
    using assms by (auto simp: trimmed_def)
  from assms obtain a b where s: "s = a @ n @ b" by (auto simp: sublist_def)
  have "\<exists>a'. dropWhile js_space s = a' @ n @ b"
  proof (cases "\<forall>c \<in> set a. js_space c")
    case True
    then show ?thesis using s h assms(1)
      by (intro exI [of _ "[]"]) (simp add: dropWhile_append2 dropWhile_hd)
  next
    case False
    then show ?thesis using s by (auto simp: dropWhile_append1)
  qed
  then obtain a' where d: "dropWhile js_space s = a' @ n @ b" by blast
  have "\<exists>b'. dropWhile js_space (rev b @ rev n @ rev a') = b' @ rev n @ rev a'"
  proof (cases "\<forall>c \<in> set (rev b). js_space c")
    case True
    have "hd (rev n @ rev a') = last n" using assms(1) by (simp add: hd_append hd_rev)
    with l assms(1) have "dropWhile js_space (rev n @ rev a') = rev n @ rev a'"
      by (intro dropWhile_hd) auto
    moreover have "dropWhile js_space (rev b @ rev n @ rev a') = dropWhile js_space (rev n @ rev a')"
      using True by (intro dropWhile_append2) auto
    ultimately show ?thesis by (intro exI [of _ "[]"]) (simp only: append_Nil)
  next
    case False
    then show ?thesis by (auto simp: dropWhile_append1)
  qed
  then obtain b' where "dropWhile js_space (rev (dropWhile js_space s)) = b' @ rev n @ rev a'"
    by (auto simp: d)
  then have "js_trim s = a' @ n @ rev b'" by (simp add: js_trim_def)
  then show ?thesis by (auto simp: sublist_def)
qed

lemma js_space_lower [simp]: "js_space (lower_char c) = js_space c"
  by (auto simp: js_space_def lower_char_def Let_def)

lemma js_lower_trim: "js_lower (js_trim s) = js_trim (js_lower s)"
  by (simp add: js_lower_def js_trim_def dropWhile_map rev_map comp_def)

text \<open>Splitting at a separator, and putting the parts back together.\<close>

lemma js_split_nonempty [simp]: "js_split d s \<noteq> []"
  by (induction s) (auto split: list.splits)

lemma js_split_no_sep: "d \<notin> set s \<Longrightarrow> js_split d s = [s]"
  by (induction s) auto

lemma js_split_append_sep:
  "d \<notin> set a \<Longrightarrow> js_split d (a @ d # b) = a # js_split d b"
  by (induction a) auto

lemma js_split_parts: "p \<in> set (js_split d s) \<Longrightarrow> d \<notin> set p"
  by (induction s arbitrary: p) (auto split: if_splits list.splits)

lemma js_join_split: "js_join [d] (js_split d s) = s"
proof (induction s)
  case (Cons c s)
  then show ?case by (cases "js_split d s"; cases "tl (js_split d s)") auto
qed simp

section \<open>Decimal digits\<close>

definition is_digit :: "char \<Rightarrow> bool" where
  "is_digit c \<longleftrightarrow> c \<in> set ''0123456789''"

definition digit_char :: "nat \<Rightarrow> char" where
  "digit_char d = char_of (48 + d)"

definition digit_val :: "char \<Rightarrow> nat" where
  "digit_val c = of_char c - 48"

text \<open>\<open>BigInt.prototype.toString\<close> of a non-negative value, and \<open>BigInt(digits)\<close>.\<close>

fun show_nat :: "nat \<Rightarrow> string" where
  "show_nat n = (if n < 10 then [digit_char n] else show_nat (n div 10) @ [digit_char (n mod 10)])"

declare show_nat.simps [simp del]

definition read_nat :: "string \<Rightarrow> nat" where
  "read_nat s = foldl (\<lambda>acc c. 10 * acc + digit_val c) 0 s"

lemma digit_val_char [simp]: "d < 10 \<Longrightarrow> digit_val (digit_char d) = d"
  by (simp add: digit_val_def digit_char_def)

lemma digit_chars [js_simps]:
  "digit_char 0 = CHR ''0''" "digit_char 1 = CHR ''1''" "digit_char (Suc 0) = CHR ''1''"
  "digit_char 2 = CHR ''2''" "digit_char 3 = CHR ''3''" "digit_char 4 = CHR ''4''"
  "digit_char 5 = CHR ''5''" "digit_char 6 = CHR ''6''" "digit_char 7 = CHR ''7''"
  "digit_char 8 = CHR ''8''" "digit_char 9 = CHR ''9''"
  by code_simp+

lemma is_digit_char [simp]: "d < 10 \<Longrightarrow> is_digit (digit_char d)"
proof -
  have "\<forall>d < 10. is_digit (digit_char d)" by code_simp
  then show "d < 10 \<Longrightarrow> is_digit (digit_char d)" by blast
qed

lemma is_digit_val: "is_digit c \<Longrightarrow> digit_val c < 10 \<and> digit_char (digit_val c) = c"
proof -
  have "list_all (\<lambda>c. digit_val c < 10 \<and> digit_char (digit_val c) = c) ''0123456789''"
    by code_simp
  then show "is_digit c \<Longrightarrow> digit_val c < 10 \<and> digit_char (digit_val c) = c"
    by (auto simp: is_digit_def list_all_iff)
qed

lemma show_nat_nonempty [simp]: "show_nat n \<noteq> []"
  by (subst show_nat.simps) simp

lemma show_nat_digits: "c \<in> set (show_nat n) \<Longrightarrow> is_digit c"
proof (induction n arbitrary: c rule: show_nat.induct)
  case (1 n)
  then show ?case by (subst (asm) show_nat.simps) (auto split: if_splits)
qed

lemma read_nat_snoc: "read_nat (s @ [c]) = 10 * read_nat s + digit_val c"
  by (simp add: read_nat_def)

lemma read_show_nat [simp]: "read_nat (show_nat n) = n"
proof (induction n rule: show_nat.induct)
  case (1 n)
  then show ?case
  proof (cases "n < 10")
    case True
    then show ?thesis by (subst show_nat.simps) (simp add: read_nat_def)
  next
    case False
    with "1.IH" have "read_nat (show_nat (n div 10)) = n div 10" by simp
    with False show ?thesis
      by (subst show_nat.simps) (simp add: read_nat_snoc)
  qed
qed

lemma show_nat_inj: "show_nat m = show_nat n \<Longrightarrow> m = n"
  by (metis read_show_nat)

definition show_int :: "int \<Rightarrow> string" where
  "show_int e = (if e < 0 then CHR ''-'' # show_nat (nat (- e)) else show_nat (nat e))"

lemma show_int_chars: "c \<in> set (show_int e) \<Longrightarrow> is_digit c \<or> c = CHR ''-''"
  using show_nat_digits by (auto simp: show_int_def split: if_splits)

lemma show_int_inj: "show_int x = show_int y \<Longrightarrow> x = y"
proof -
  assume e: "show_int x = show_int y"
  have "CHR ''-'' \<notin> set (show_nat n)" for n using show_nat_digits [of "CHR ''-''" n] by (auto simp: is_digit_def)
  then have "show_nat n \<noteq> CHR ''-'' # s" for n s by (metis list.set_intros(1))
  then show ?thesis using e by (auto simp: show_int_def dest!: show_nat_inj split: if_splits) (metis)+
qed

lemma foldl_digits:
  "foldl (\<lambda>acc c. 10 * acc + digit_val c) a s = a * 10 ^ length s + read_nat s"
proof (induction s rule: rev_induct)
  case (snoc c s)
  then show ?case by (simp add: read_nat_snoc algebra_simps)
qed (simp add: read_nat_def)

lemma read_nat_append: "read_nat (a @ b) = read_nat a * 10 ^ length b + read_nat b"
  using foldl_digits [of "read_nat a" b] by (simp add: read_nat_def)

lemma read_nat_zeros [simp]: "read_nat (replicate k (CHR ''0'')) = 0"
  by (induction k) (simp_all add: read_nat_def digit_val_def)

lemma read_nat_bound: "list_all is_digit s \<Longrightarrow> read_nat s < 10 ^ length s"
proof (induction s rule: rev_induct)
  case (snoc c s)
  then have "digit_val c < 10" "read_nat s < 10 ^ length s"
    using is_digit_val by auto
  then show ?case by (simp add: read_nat_snoc)
qed (simp add: read_nat_def)

lemma show_nat_hd: "0 < n \<Longrightarrow> hd (show_nat n) \<noteq> CHR ''0''"
proof (induction n rule: show_nat.induct)
  case (1 n)
  show ?case
  proof (cases "n < 10")
    case True
    then have "digit_char n \<noteq> CHR ''0''"
      using "1.prems" digit_val_char [of n] by (auto simp: digit_val_def)
    with True show ?thesis by (subst show_nat.simps) simp
  next
    case False
    with "1.IH" have "hd (show_nat (n div 10)) \<noteq> CHR ''0''" by simp
    with False show ?thesis by (subst show_nat.simps) simp
  qed
qed

lemma show_nat_length: "n < 10 ^ k \<Longrightarrow> 0 < k \<Longrightarrow> length (show_nat n) \<le> k"
proof (induction n arbitrary: k rule: show_nat.induct)
  case (1 n)
  show ?case
  proof (cases "n < 10")
    case True
    with "1.prems" show ?thesis by (subst show_nat.simps) simp
  next
    case False
    with "1.prems" obtain j where k: "k = Suc j" "0 < j"
      by (cases k; cases "k - 1") auto
    then have "n div 10 < 10 ^ j" using "1.prems" by (simp add: less_mult_imp_div_less)
    with False "1.IH" k have "length (show_nat (n div 10)) \<le> j" by simp
    with False k show ?thesis by (subst show_nat.simps) simp
  qed
qed

section \<open>Insertion-ordered maps and sets\<close>

text \<open>
  A JavaScript \<open>Map\<close> enumerates its keys in the order of their first insertion, and
  storing an existing key keeps its place: that is \<open>AList.update\<close> of the library. A
  \<open>Set\<close> is the list of its elements in the order of insertion.
\<close>

definition set_add :: "'a \<Rightarrow> 'a list \<Rightarrow> 'a list" where
  "set_add x xs = (if x \<in> set xs then xs else xs @ [x])"

lemma set_set_add [simp]: "set (set_add x xs) = insert x (set xs)"
  by (auto simp: set_add_def)

lemma distinct_set_add [simp]: "distinct (set_add x xs) = distinct xs"
  by (auto simp: set_add_def)

text \<open>The \<open>Set\<close> of an array, and \<open>Array.from(new Set(xs))\<close>.\<close>

definition set_of_list :: "'a list \<Rightarrow> 'a list" where
  "set_of_list xs = foldl (\<lambda>s x. set_add x s) [] xs"

lemma foldl_set_add:
  "set (foldl (\<lambda>s x. set_add x s) a xs) = set a \<union> set xs"
  "distinct (foldl (\<lambda>s x. set_add x s) a xs) = distinct a"
  by (induction xs arbitrary: a) auto

lemma set_of_list_simps [simp]: "set (set_of_list xs) = set xs" "distinct (set_of_list xs)"
  by (simp_all add: set_of_list_def foldl_set_add)

end
