(* ===== verification/Interfaces.thy ===== *)
theory Interfaces
  imports Prelude
begin

text \<open>
  The contracts several components provide: a status machine given by its table of
  transitions, a policy that decides capabilities from the text of a role, and a codec
  between values and names. Each is a locale; the components interpret it on their own
  definitions and their properties rest on the facts proved here once.
\<close>

section \<open>Status machines\<close>

inductive reaches :: "('s \<Rightarrow> 's list) \<Rightarrow> 's \<Rightarrow> 's \<Rightarrow> bool" for nxt :: "'s \<Rightarrow> 's list" where
  here: "reaches nxt s s"
| move: "reaches nxt s t \<Longrightarrow> u \<in> set (nxt t) \<Longrightarrow> reaches nxt s u"

fun route :: "('s \<Rightarrow> 's list) \<Rightarrow> 's \<Rightarrow> 's list \<Rightarrow> bool" where
  "route nxt s [] = True"
| "route nxt s (t # ts) = (t \<in> set (nxt s) \<and> route nxt t ts)"

text \<open>A sequence of requests, each checked by the code before the status is replaced;
  a refused request leaves no result.\<close>

fun run_checked :: "('s \<Rightarrow> 's \<Rightarrow> bool) \<Rightarrow> 's \<Rightarrow> 's list \<Rightarrow> 's option" where
  "run_checked chk s [] = Some s"
| "run_checked chk s (t # ts) = (if chk s t then run_checked chk t ts else None)"

lemma reaches_closed:
  assumes "reaches nxt s t" "s \<in> A" "\<And>x y. x \<in> A \<Longrightarrow> y \<in> set (nxt x) \<Longrightarrow> y \<in> A"
  shows "t \<in> A"
  using assms(1,2) by induction (auto intro: assms(3))

lemma reaches_trans: "reaches nxt t u \<Longrightarrow> reaches nxt s t \<Longrightarrow> reaches nxt s u"
  by (induction rule: reaches.induct) (auto intro: reaches.intros)

lemma reaches_first: "t \<in> set (nxt s) \<Longrightarrow> reaches nxt t u \<Longrightarrow> reaches nxt s u"
  by (blast intro: reaches_trans reaches.intros)

lemma reaches_cases_first: "reaches nxt s u \<Longrightarrow> u = s \<or> (\<exists>t \<in> set (nxt s). reaches nxt t u)"
  by (induction rule: reaches.induct) (auto intro: reaches.intros)

lemma route_reaches: "route nxt s ts \<Longrightarrow> reaches nxt s (last (s # ts))"
  by (induction ts arbitrary: s) (auto intro: reaches.here reaches_first)

locale status_machine =
  fixes targets :: "'s \<Rightarrow> 's list" and terminal :: "'s \<Rightarrow> bool"
  assumes terminal_iff: "terminal s \<longleftrightarrow> targets s = []"
    and no_self_loop: "s \<notin> set (targets s)"
begin

lemma terminal_absorbing: "terminal s \<Longrightarrow> reaches targets s t \<Longrightarrow> t = s"
  using reaches_cases_first [of targets s t] by (auto simp: terminal_iff)

lemma terminal_route: "terminal s \<Longrightarrow> route targets s ts \<longleftrightarrow> ts = []"
  by (cases ts) (auto simp: terminal_iff)

lemma terminal_only_last:
  "route targets s (ts @ u # us) \<Longrightarrow> us \<noteq> [] \<Longrightarrow> \<not> terminal u"
  by (induction ts arbitrary: s) (fastforce simp: terminal_iff neq_Nil_conv)+

end

text \<open>
  A machine together with the code's check of one transition. Some checks also accept the
  status it already has (\<open>idem\<close>).
\<close>

locale guarded_machine = status_machine targets terminal
  for targets :: "'s \<Rightarrow> 's list" and terminal :: "'s \<Rightarrow> bool" +
  fixes check :: "'s \<Rightarrow> 's \<Rightarrow> bool" and idem :: bool
  assumes check_iff: "check s t \<longleftrightarrow> (idem \<and> s = t) \<or> t \<in> set (targets s)"
begin

lemma run_reaches: "run_checked check s ts = Some u \<Longrightarrow> reaches targets s u"
proof (induction ts arbitrary: s)
  case (Cons t ts)
  then have "check s t" and "reaches targets t u" by (auto split: if_splits)
  then show ?case by (auto simp: check_iff intro: reaches_first)
qed (auto intro: reaches.here)

lemma run_snoc:
  "run_checked check s ts = Some t \<Longrightarrow> u \<in> set (targets t) \<Longrightarrow>
   run_checked check s (ts @ [u]) = Some u"
  by (induction ts arbitrary: s) (auto simp: check_iff split: if_splits)

lemma run_complete: "reaches targets s u \<Longrightarrow> \<exists>ts. run_checked check s ts = Some u"
proof (induction rule: reaches.induct)
  case (here s)
  show ?case by (rule exI [of _ "[]"]) simp
next
  case (move s t u)
  then show ?case using run_snoc by blast
qed

lemma run_iff: "(\<exists>ts. run_checked check s ts = Some u) \<longleftrightarrow> reaches targets s u"
  using run_reaches run_complete by blast

lemma terminal_run: "terminal s \<Longrightarrow> run_checked check s ts = Some u \<Longrightarrow> u = s"
  using run_reaches terminal_absorbing by blast

lemma run_closed:
  assumes "run_checked check s ts = Some u" "s \<in> A"
    and "\<And>x y. x \<in> A \<Longrightarrow> y \<in> set (targets x) \<Longrightarrow> y \<in> A"
  shows "u \<in> A"
  using reaches_closed [OF run_reaches [OF assms(1)] assms(2)] assms(3) by blast

end

text \<open>A machine whose statuses only move down a rank: its histories are bounded.\<close>

locale ranked_machine = status_machine targets terminal
  for targets :: "'s \<Rightarrow> 's list" and terminal :: "'s \<Rightarrow> bool" +
  fixes rank :: "'s \<Rightarrow> nat"
  assumes rank_decreases: "t \<in> set (targets s) \<Longrightarrow> rank t < rank s"
begin

lemma route_bound: "route targets s ts \<Longrightarrow> length ts \<le> rank s"
proof (induction ts arbitrary: s)
  case (Cons t ts)
  then have "length ts \<le> rank t" "rank t < rank s" by (auto intro: rank_decreases)
  then show ?case by simp
qed simp

lemma route_ranks: "route targets s ts \<Longrightarrow> t \<in> set ts \<Longrightarrow> rank t < rank s"
proof (induction ts arbitrary: s)
  case (Cons u ts)
  then have u: "rank u < rank s" by (auto intro: rank_decreases)
  show ?case
  proof (cases "t = u")
    case False
    with Cons have "rank t < rank u" by auto
    with u show ?thesis by simp
  qed (use u in simp)
qed simp

lemma route_distinct: "route targets s ts \<Longrightarrow> distinct (s # ts)"
proof (induction ts arbitrary: s)
  case (Cons t ts)
  then have "distinct (t # ts)" by (simp only: route.simps)
  moreover have "s \<notin> set (t # ts)"
    using route_ranks [OF Cons.prems, of s] by blast
  ultimately show ?case by simp
qed simp

end

section \<open>Capability policies\<close>

text \<open>
  A policy decides a capability from the account's ambient module grant and the text of
  its role. The laws are the ones every policy of the code keeps: a granted account passes,
  a blank role is refused, and naming more roles never takes a capability away.
\<close>

locale capability_policy =
  fixes has :: "bool \<Rightarrow> string option \<Rightarrow> 'c \<Rightarrow> bool"
  assumes granted_has: "has True r c"
    and blank_denied: "js_trim (or_empty r) = [] \<Longrightarrow> \<not> has False r c"
    and widening: "has False (Some w) c \<Longrightarrow> w \<in> set rs \<Longrightarrow> has False (Some (js_join '' | '' rs)) c"
begin

lemma absent_role_denied: "\<not> has False None c"
  by (rule blank_denied) simp

lemma no_roles_denied: "\<not> has False (Some (js_join '' | '' [])) c"
  by (rule blank_denied) simp

lemma any_role_suffices: "\<exists>r \<in> set rs. has False (Some r) c \<Longrightarrow> has g (Some (js_join '' | '' rs)) c"
  by (cases g) (auto intro: granted_has widening)

lemma denied_all: "\<not> has False (Some (js_join '' | '' rs)) c \<Longrightarrow> \<forall>r \<in> set rs. \<not> has False (Some r) c"
  using widening by blast

end

text \<open>
  The policies of the workshop modules look for a word of a list inside the trimmed,
  lower-cased role (\<open>normalized.includes(needle)\<close>).
\<close>

definition needle_match :: "string list \<Rightarrow> string option \<Rightarrow> bool" where
  "needle_match needles role =
     (let normalized = js_lower (js_trim (or_empty role))
      in normalized \<noteq> [] \<and> (\<exists>n \<in> set needles. js_includes normalized n))"

definition needles_ok :: "string list \<Rightarrow> bool" where
  "needles_ok ns \<longleftrightarrow> (\<forall>n \<in> set ns. n \<noteq> [] \<and> trimmed n)"

lemma sublist_join: "r \<in> set rs \<Longrightarrow> sublist r (js_join sep rs)"
proof (induction sep rs rule: js_join.induct)
  case (3 sep x y ys)
  show ?case
  proof (cases "r = x")
    case False
    with 3 have "sublist r (js_join sep (y # ys))" by auto
    then obtain a b where "js_join sep (y # ys) = a @ r @ b" by (auto simp: sublist_def)
    then have "js_join sep (x # y # ys) = (x @ sep @ a) @ r @ b" by simp
    then show ?thesis unfolding sublist_def by blast
  qed (simp add: sublist_append_rightI)
qed auto

lemma needle_match_blank: "js_trim (or_empty r) = [] \<Longrightarrow> \<not> needle_match ns r"
  by (simp add: needle_match_def js_lower_def)

lemma needle_match_iff:
  assumes "needles_ok ns"
  shows "needle_match ns r \<longleftrightarrow> (\<exists>n \<in> set ns. sublist n (js_lower (or_empty r)))"
proof -
  have "sublist n (js_lower (js_trim (or_empty r))) \<longleftrightarrow> sublist n (js_lower (or_empty r))"
    if "n \<in> set ns" for n
    unfolding js_lower_trim
    using assms that trim_keeps_word js_trim_sublist sublist_order.order.trans
    unfolding needles_ok_def by meson
  moreover have "js_lower (js_trim (or_empty r)) \<noteq> []"
    if "n \<in> set ns" "sublist n (js_lower (js_trim (or_empty r)))" for n
    using assms that by (auto simp: needles_ok_def)
  ultimately show ?thesis
    by (auto simp: needle_match_def Let_def js_includes_sublist)
qed

lemma sublist_map: "sublist a b \<Longrightarrow> sublist (map f a) (map f b)"
  unfolding sublist_def by (metis map_append)

lemma needle_match_widen:
  assumes "needles_ok ns" "needle_match ns (Some r)" "r \<in> set rs"
  shows "needle_match ns (Some (js_join sep rs))"
proof -
  from assms obtain n where n: "n \<in> set ns" "sublist n (js_lower r)"
    by (auto simp: needle_match_iff)
  have "sublist (js_lower r) (js_lower (js_join sep rs))"
    unfolding js_lower_def by (intro sublist_map sublist_join assms(3))
  with n have "sublist n (js_lower (js_join sep rs))"
    by (meson sublist_order.order.trans)
  with n assms(1) show ?thesis by (auto simp: needle_match_iff)
qed

section \<open>Codecs\<close>

text \<open>Values written as names and read back.\<close>

locale name_codec =
  fixes enc :: "'a \<Rightarrow> string" and dec :: "string \<Rightarrow> 'a option" and ok :: "'a \<Rightarrow> bool"
  assumes dec_enc: "ok x \<Longrightarrow> dec (enc x) = Some x"
begin

lemma enc_inj: "ok x \<Longrightarrow> ok y \<Longrightarrow> enc x = enc y \<longleftrightarrow> x = y"
  using dec_enc by (metis option.inject)

lemma distinct_names: "\<forall>x \<in> set xs. ok x \<Longrightarrow> distinct (map enc xs) = distinct xs"
  by (induction xs) (auto simp: enc_inj)

lemma dec_all: "\<forall>x \<in> set xs. ok x \<Longrightarrow> map dec (map enc xs) = map Some xs"
  by (induction xs) (auto simp: dec_enc)

end

text \<open>A codec whose every decoded value is canonical: the names it accepts are its own.\<close>

locale strict_codec = name_codec +
  assumes dec_sound: "dec s = Some x \<Longrightarrow> ok x \<and> enc x = s"
begin

lemma dec_iff: "dec s = Some x \<longleftrightarrow> ok x \<and> enc x = s"
  using dec_enc dec_sound by blast

lemma dec_inj: "dec s = Some x \<Longrightarrow> dec t = Some x \<Longrightarrow> s = t"
  using dec_sound by blast

end

section \<open>Versioned stores\<close>

text \<open>
  A store whose version never goes back and keeps track of what a reader can see of it: the
  contract that lets a reader keep what it has read for as long as the version stays.
\<close>

locale versioned_store =
  fixes change :: "'s \<Rightarrow> 's \<Rightarrow> bool" and version :: "'s \<Rightarrow> int option" and view :: "'s \<Rightarrow> 'v"
  assumes version_mono: "change s t \<Longrightarrow> version s = Some e \<Longrightarrow> \<exists>e'. version t = Some e' \<and> e \<le> e'"
    and version_tracks: "change s t \<Longrightarrow> version s = Some e \<Longrightarrow> version t = Some e \<Longrightarrow> view t = view s"
begin

lemma mono_star:
  assumes "change\<^sup>*\<^sup>* s t" "version s = Some e"
  shows "\<exists>e'. version t = Some e' \<and> e \<le> e'"
  using assms
proof (induction rule: rtranclp_induct)
  case (step t u)
  then obtain e1 where "version t = Some e1" "e \<le> e1" by blast
  moreover from this obtain e2 where "version u = Some e2" "e1 \<le> e2"
    using version_mono step.hyps(2) by blast
  ultimately show ?case by auto
qed simp

lemma tracks_star:
  assumes "change\<^sup>*\<^sup>* s t" "version s = Some e" "version t = Some e"
  shows "view t = view s"
  using assms
proof (induction rule: rtranclp_induct)
  case (step t u)
  from mono_star [OF step.hyps(1) step.prems(1)] obtain e1 where e1: "version t = Some e1" "e \<le> e1" by blast
  from version_mono [OF step.hyps(2) e1(1)] step.prems(2) have "e1 \<le> e" by simp
  with e1 have t: "version t = Some e" by simp
  with step show ?case using version_tracks [OF step.hyps(2) t step.prems(2)] by simp
qed simp

text \<open>
  A value read between two readings of the same version is the value of every state in
  between: the reader may keep it for as long as the version stays.
\<close>

lemma stable_read:
  assumes "change\<^sup>*\<^sup>* s t" "change\<^sup>*\<^sup>* t w" "version s = Some e" "version w = Some e"
  shows "version t = Some e \<and> view w = view t \<and> view t = view s"
proof -
  obtain e1 where e1: "version t = Some e1" "e \<le> e1" using mono_star assms(1,3) by blast
  obtain e2 where "version w = Some e2" "e1 \<le> e2" using mono_star assms(2) e1(1) by blast
  with e1 assms(4) have t: "version t = Some e" by auto
  show ?thesis using t tracks_star [OF assms(1,3) t] tracks_star [OF assms(2) t assms(4)] by simp
qed

end

end
