(* ===== verification/Auth_Roles.thy ===== *)
theory Auth_Roles
  imports Interfaces
begin

text \<open>
  Role names and the ambient module grant: \<open>src/module/auth/domain/roles.ts\<close> and
  \<open>src/module/access-control/context/account-module-access.context.ts\<close>.

  A role name is a Latin-1 string. \<open>AUTHORIZATION_ALIASES[role]\<close> is looked up in the
  table's own keys; the keys a JavaScript object inherits (\<open>constructor\<close> and its kin) are
  not role names and are left out.
\<close>

section \<open>The ambient grant\<close>

record account_module_access =
  am_userId :: "int option"
  am_moduleKey :: "string option"
  am_granted :: bool
  am_elevated :: bool

text \<open>
  The asynchronous store of a request: absent outside a request, reset at the entry of the
  router, and filled in place by the gate.
\<close>

type_synonym access_store = "account_module_access option"

definition run_with_scope :: "access_store \<Rightarrow> access_store" where
  "run_with_scope st = Some \<lparr>am_userId = None, am_moduleKey = None, am_granted = False, am_elevated = False\<rparr>"

definition run_with_access ::
  "int option \<Rightarrow> string option \<Rightarrow> bool option \<Rightarrow> access_store \<Rightarrow> access_store" where
  "run_with_access user module_key elevated st =
     (let elevated = (case elevated of None \<Rightarrow> True | Some b \<Rightarrow> b)
      in case st of
           Some existing \<Rightarrow> Some (existing\<lparr>am_userId := user, am_moduleKey := module_key,
              am_granted := True, am_elevated := elevated\<rparr>)
         | None \<Rightarrow> Some \<lparr>am_userId = user, am_moduleKey = module_key,
              am_granted = True, am_elevated = elevated\<rparr>)"

definition request_has_granted :: "access_store \<Rightarrow> bool" where
  "request_has_granted req = (case req of None \<Rightarrow> False | Some c \<Rightarrow> am_granted c)"

definition request_has_elevated :: "access_store \<Rightarrow> bool" where
  "request_has_elevated req = (case req of None \<Rightarrow> False | Some c \<Rightarrow> am_granted c \<and> am_elevated c)"

definition has_granted_account_module_access :: "access_store \<Rightarrow> bool" where
  "has_granted_account_module_access st = (case st of None \<Rightarrow> False | Some c \<Rightarrow> am_granted c)"

lemmas access_defs = run_with_scope_def run_with_access_def request_has_granted_def
  request_has_elevated_def has_granted_account_module_access_def

section \<open>Roles\<close>

abbreviation e_acute :: char where "e_acute \<equiv> CHR 0xE9"
abbreviation e_grave :: char where "e_grave \<equiv> CHR 0xE8"
abbreviation E_acute :: char where "E_acute \<equiv> CHR 0xC9"
abbreviation o_circ :: char where "o_circ \<equiv> CHR 0xF4"

definition PRIMARY_USER_ROLES :: "string list" where
  "PRIMARY_USER_ROLES =
     [''Directeur'', ''Employee'', ''Administrateur Systeme et Reseau'',
      ''Responsable Qualit'' @ [e_acute], ''Secretaire'', ''Responsable Programmation'',
      ''Responsable RH'']"

definition ORGANIZATION_USER_ROLES :: "string list" where
  "ORGANIZATION_USER_ROLES =
     [''G'' @ e_acute # ''rant'', ''Commerce'', ''Achats'', ''RH-Financier'',
      ''Directeur Technique'', ''Responsable Atelier-Production'', ''Planning'',
      ''Planification'', ''Pr'' @ e_acute # ''parateur commandes'', ''Assistante polyvalente'',
      ''Assistante RH'', ''Maintenance'', ''Responsable Agencement'', ''Qualit'' @ [e_acute],
      E_acute # ''tudes-M'' @ e_acute # ''thodes'', ''Programmation'', ''Fraisage'',
      ''Livraison'', ''Pr'' @ e_acute # ''paration mati'' @ e_grave # ''re'', ''Finitions'',
      ''Gestion mati'' @ e_grave # ''re'', ''Responsable CAO'',
      ''Responsable fabrication fraisage'', ''Tournage'', ''Responsable tournage'',
      ''Op'' @ e_acute # ''rateur atelier'']"

definition ASSIGNABLE_USER_ROLES :: "string list" where
  "ASSIGNABLE_USER_ROLES = PRIMARY_USER_ROLES @ ORGANIZATION_USER_ROLES"

definition AUTHORIZATION_ALIASES :: "(string \<times> string list) list" where
  "AUTHORIZATION_ALIASES =
     [(''Directeur'', [''Directeur'']),
      (''Employee'', [''Employee'']),
      (''Administrateur Systeme et Reseau'', [''Administrateur Systeme et Reseau'']),
      (''Responsable Qualit'' @ [e_acute], [''Responsable Qualit'' @ [e_acute]]),
      (''Secretaire'', [''Secretaire'']),
      (''Responsable Programmation'', [''Responsable Programmation'']),
      (''Responsable RH'', [''Responsable RH'']),
      (''G'' @ e_acute # ''rant'', [''Directeur'']),
      (''Commerce'', [''Commercial'']),
      (''Achats'', [''Achat'']),
      (''RH-Financier'', [''Responsable RH'', ''Comptabilite'']),
      (''Directeur Technique'', [''Production'', ''Atelier'', ''Method'']),
      (''Responsable Atelier-Production'', [''Production'', ''Atelier'']),
      (''Planning'', [''Planification'']),
      (''Planification'', [''Planification'']),
      (''Pr'' @ e_acute # ''parateur commandes'', [''Logistique'']),
      (''Assistante polyvalente'', [''Secretaire'']),
      (''Assistante RH'', [''Responsable RH'']),
      (''Maintenance'', [''Maintenance'', ''Atelier'']),
      (''Responsable Agencement'', [''Production'', ''Atelier'']),
      (''Qualit'' @ [e_acute], [''Responsable Qualit'' @ [e_acute]]),
      (E_acute # ''tudes-M'' @ e_acute # ''thodes'', [''Method'', ''Responsable Programmation'']),
      (''Programmation'', [''Responsable Programmation'']),
      (''Fraisage'', [''Op'' @ e_acute # ''rateur atelier'']),
      (''Livraison'', [''Logistique'']),
      (''Pr'' @ e_acute # ''paration mati'' @ e_grave # ''re'', [''Stock'', ''Atelier'']),
      (''Finitions'', [''Op'' @ e_acute # ''rateur atelier'']),
      (''Gestion mati'' @ e_grave # ''re'', [''Stock'', ''Magasin'']),
      (''Responsable CAO'', [''Method'']),
      (''Responsable fabrication fraisage'', [''Production'', ''Atelier'']),
      (''Tournage'', [''Op'' @ e_acute # ''rateur atelier'']),
      (''Responsable tournage'', [''Production'', ''Atelier'']),
      (''Op'' @ e_acute # ''rateur atelier'', [''Op'' @ e_acute # ''rateur atelier''])]"

definition role_aliases :: "string \<Rightarrow> string list" where
  "role_aliases r = (case map_of AUTHORIZATION_ALIASES r of None \<Rightarrow> [] | Some as \<Rightarrow> as)"

definition normalize_assigned_roles :: "string option \<Rightarrow> string list option \<Rightarrow> string list" where
  "normalize_assigned_roles primaryRole roles =
     snd (foldl (\<lambda>(seen, normalized) role.
            let v = js_trim (or_empty role)
            in if v = [] \<or> v \<in> set seen then (seen, normalized)
               else (set_add v seen, normalized @ [v]))
          ([], []) (primaryRole # map Some (case roles of None \<Rightarrow> [] | Some rs \<Rightarrow> rs)))"

definition authorization_role :: "string option \<Rightarrow> string list option \<Rightarrow> string" where
  "authorization_role primaryRole roles =
     (let aliases = concat (map role_aliases (normalize_assigned_roles primaryRole roles))
      in js_join '' | '' (set_of_list aliases))"

definition effective_role_parts :: "string option \<Rightarrow> string list" where
  "effective_role_parts role = filter (\<lambda>p. p \<noteq> []) (map js_trim (js_split (CHR ''|'') (or_empty role)))"

definition effective_role_has_any :: "string option \<Rightarrow> string list \<Rightarrow> bool" where
  "effective_role_has_any role allowedRoles =
     (\<exists>part \<in> set (effective_role_parts role). part \<in> set allowedRoles)"

definition has_any_assigned_role ::
  "string option \<Rightarrow> string list option \<Rightarrow> string list \<Rightarrow> bool" where
  "has_any_assigned_role primaryRole assignedRoles allowedRoles =
     (\<exists>role \<in> set (normalize_assigned_roles primaryRole assignedRoles). role \<in> set allowedRoles)"

section \<open>Normalisation\<close>

definition nonblank :: "string option list \<Rightarrow> string set" where
  "nonblank rs = {v. v \<noteq> [] \<and> (\<exists>r \<in> set rs. v = js_trim (or_empty r))}"

lemma nonblank_Cons:
  "nonblank (r # rs) = (if js_trim (or_empty r) = [] then {} else {js_trim (or_empty r)}) \<union> nonblank rs"
  unfolding nonblank_def by auto

lemma normalize_fold:
  fixes rs :: "string option list"
  defines "step \<equiv> \<lambda>(seen, normalized) role.
            let v = js_trim (or_empty role)
            in if v = [] \<or> v \<in> set seen then (seen, normalized)
               else (set_add v seen, normalized @ [v])"
  shows "set seen = set normalized \<Longrightarrow> distinct normalized \<Longrightarrow>
    distinct (snd (foldl step (seen, normalized) rs)) \<and>
    set (snd (foldl step (seen, normalized) rs)) = set normalized \<union> nonblank rs"
proof (induction rs arbitrary: seen normalized)
  case Nil
  then show ?case by (simp add: nonblank_def)
next
  case (Cons r rs)
  define v where "v = js_trim (or_empty r)"
  show ?case
  proof (cases "v = [] \<or> v \<in> set seen")
    case True
    then have "step (seen, normalized) r = (seen, normalized)" by (simp add: step_def v_def)
    with Cons.IH [OF Cons.prems] True Cons.prems show ?thesis
      by (auto simp: nonblank_Cons v_def)
  next
    case False
    then have st: "step (seen, normalized) r = (set_add v seen, normalized @ [v])"
      by (simp add: step_def v_def Let_def)
    have "set (set_add v seen) = set (normalized @ [v])" "distinct (normalized @ [v])"
      using Cons.prems False by simp_all
    note ih = Cons.IH [OF this]
    have "nonblank (r # rs) = insert v (nonblank rs)"
      using False by (simp add: nonblank_Cons v_def)
    with ih st show ?thesis by simp
  qed
qed

definition given_roles :: "string option \<Rightarrow> string list option \<Rightarrow> string set" where
  "given_roles p rs = {v. v \<noteq> [] \<and> (v = js_trim (or_empty p)
      \<or> (\<exists>r \<in> set (case rs of None \<Rightarrow> [] | Some l \<Rightarrow> l). v = js_trim r))}"

lemma normalize_assigned_roles_set:
  "distinct (normalize_assigned_roles p rs)"
  "set (normalize_assigned_roles p rs) = given_roles p rs"
proof -
  note n = normalize_fold [of "[]" "[]" "p # map Some (case rs of None \<Rightarrow> [] | Some l \<Rightarrow> l)"]
  show "distinct (normalize_assigned_roles p rs)"
    using n unfolding normalize_assigned_roles_def by simp
  have "given_roles p rs = nonblank (p # map Some (case rs of None \<Rightarrow> [] | Some l \<Rightarrow> l))"
    unfolding given_roles_def nonblank_def by (cases rs) auto
  then show "set (normalize_assigned_roles p rs) = given_roles p rs"
    using n unfolding normalize_assigned_roles_def by simp
qed

section \<open>The joined role and its parts\<close>

definition raw_parts :: "string \<Rightarrow> string list" where
  "raw_parts s = filter (\<lambda>p. p \<noteq> []) (map js_trim (js_split (CHR ''|'') s))"

lemma effective_role_parts_Some [simp]: "effective_role_parts (Some s) = raw_parts s"
  by (simp add: effective_role_parts_def raw_parts_def)

lemma effective_role_parts_None [simp]: "effective_role_parts None = []"
  by (simp add: effective_role_parts_def)

lemma space_blank [simp]: "js_space (CHR '' '')"
  by (simp add: js_space_def)

lemma js_split_append:
  "js_split d (a @ d # b) = js_split d a @ js_split d b"
  by (induction a) (auto split: list.splits)

lemma map_trim_split_prefix:
  "map js_trim (js_split (CHR ''|'') (CHR '' '' # s)) = map js_trim (js_split (CHR ''|'') s)"
  by (cases "js_split (CHR ''|'') s") (auto simp: js_trim_prefix_space)

lemma map_trim_split_suffix:
  "map js_trim (js_split (CHR ''|'') (s @ '' '')) = map js_trim (js_split (CHR ''|'') s)"
proof (induction s)
  case (Cons c s)
  show ?case
  proof (cases "c = CHR ''|''")
    case False
    obtain h t where s: "js_split (CHR ''|'') s = h # t"
      by (metis js_split_nonempty neq_Nil_conv)
    obtain h' t' where s': "js_split (CHR ''|'') (s @ '' '') = h' # t'"
      by (metis js_split_nonempty neq_Nil_conv)
    have "\<exists>e. h' = h @ e \<and> (e = [] \<or> e = '' '')"
      using s s' by (induction s arbitrary: h t h' t') (auto split: if_splits list.splits)
    then have "js_trim (c # h') = js_trim (c # h)"
      using js_trim_suffix_space [OF space_blank, of "c # h"] by auto
    with False s s' Cons show ?thesis by simp
  qed (use Cons in simp)
qed (simp add: js_trim_prefix_space)

lemma raw_parts_bar: "raw_parts (a @ '' | '' @ b) = raw_parts a @ raw_parts b"
proof -
  have "js_split (CHR ''|'') (a @ '' | '' @ b) =
      js_split (CHR ''|'') (a @ '' '') @ js_split (CHR ''|'') (CHR '' '' # b)"
    using js_split_append [of "CHR ''|''" "a @ '' ''" "CHR '' '' # b"] by simp
  then show ?thesis
    by (simp only: raw_parts_def map_append map_trim_split_prefix map_trim_split_suffix filter_append)
qed

lemma raw_parts_join: "raw_parts (js_join '' | '' rs) = concat (map raw_parts rs)"
proof (induction "'' | ''" rs rule: js_join.induct)
  case (3 x y ys)
  then show ?case using raw_parts_bar by simp
qed (simp_all add: raw_parts_def)

lemma has_any_blank: "js_trim (or_empty r) = [] \<Longrightarrow> \<not> effective_role_has_any r allowed"
proof (cases r)
  case (Some s)
  assume "js_trim (or_empty r) = []"
  then have sp: "\<forall>c \<in> set s. js_space c" using Some by (simp add: js_trim_empty_iff)
  then have "CHR ''|'' \<notin> set s" by (auto simp: js_space_def)
  then have "raw_parts s = []" using sp by (simp add: raw_parts_def js_split_no_sep js_trim_empty_iff)
  with Some show ?thesis by (simp add: effective_role_has_any_def)
qed (simp add: effective_role_has_any_def)

lemma has_any_widen:
  "effective_role_has_any (Some r) allowed \<Longrightarrow> r \<in> set rs \<Longrightarrow>
   effective_role_has_any (Some (js_join '' | '' rs)) allowed"
  by (auto simp: effective_role_has_any_def raw_parts_join)

text \<open>Every alias is a plain name: the parts of the joined role are the aliases themselves.\<close>

definition plain_name :: "string \<Rightarrow> bool" where
  "plain_name s \<longleftrightarrow> s \<noteq> [] \<and> trimmed s \<and> CHR ''|'' \<notin> set s"

lemma raw_parts_plain: "plain_name s \<Longrightarrow> raw_parts s = [s]"
  by (simp add: plain_name_def raw_parts_def js_split_no_sep)

lemma distinct_titles: "distinct (map fst AUTHORIZATION_ALIASES)"
  by code_simp

lemma role_aliases_iff:
  "a \<in> set (role_aliases r) \<longleftrightarrow> (\<exists>as. (r, as) \<in> set AUTHORIZATION_ALIASES \<and> a \<in> set as)"
proof (cases "map_of AUTHORIZATION_ALIASES r")
  case None
  then have "r \<notin> fst ` set AUTHORIZATION_ALIASES" by (simp only: map_of_eq_None_iff) simp
  then have "(r, as) \<notin> set AUTHORIZATION_ALIASES" for as by (metis fst_conv image_eqI)
  with None show ?thesis by (simp add: role_aliases_def)
next
  case (Some as)
  have "(r, as') \<in> set AUTHORIZATION_ALIASES \<longleftrightarrow> as' = as" for as'
    using Some unfolding map_of_eq_Some_iff [OF distinct_titles, symmetric] by (metis option.inject)
  with Some show ?thesis by (simp add: role_aliases_def)
qed

lemma aliases_plain: "a \<in> set (role_aliases r) \<Longrightarrow> plain_name a"
proof -
  have "list_all (\<lambda>(k, as). list_all plain_name as) AUTHORIZATION_ALIASES" by code_simp
  then have p: "list_all plain_name as" if "(k, as) \<in> set AUTHORIZATION_ALIASES" for k as
    using that unfolding list_all_iff by blast
  show "a \<in> set (role_aliases r) \<Longrightarrow> plain_name a"
    using p unfolding role_aliases_iff list_all_iff by blast
qed

lemma authorization_role_parts:
  "set (effective_role_parts (Some (authorization_role p rs))) =
     (\<Union>r \<in> given_roles p rs. set (role_aliases r))"
proof -
  have "raw_parts a = [a]" if "a \<in> set (role_aliases r)" for a r
    using that aliases_plain raw_parts_plain by blast
  then show ?thesis
    by (auto simp: authorization_role_def raw_parts_join Let_def normalize_assigned_roles_set(2))
qed

lemma authorization_has_any:
  "effective_role_has_any (Some (authorization_role p rs)) allowed \<longleftrightarrow>
     (\<exists>r \<in> given_roles p rs. \<exists>a \<in> set (role_aliases r). a \<in> set allowed)"
  using authorization_role_parts [of p rs] by (auto simp: effective_role_has_any_def)

text \<open>Which titles hold an alias: a search of the table.\<close>

definition titles_with :: "string \<Rightarrow> string list" where
  "titles_with a = map fst (filter (\<lambda>(k, as). a \<in> set as) AUTHORIZATION_ALIASES)"

lemma titles_with_iff: "a \<in> set (role_aliases r) \<longleftrightarrow> r \<in> set (titles_with a)"
  by (auto simp: role_aliases_iff titles_with_def image_iff)

end
