(* ===== verification/Decimal_Money.thy ===== *)
theory Decimal_Money
  imports Interfaces
begin

text \<open>
  \<open>src/module/facturation/domain/decimal-money.ts\<close>: decimal amounts as scaled big
  integers. \<open>bigint\<close> is \<^typ>\<open>int\<close>; \<open>/\<close> and \<open>%\<close> of the code are only applied to
  non-negative values, where they agree with \<^const>\<open>divide\<close> and \<^const>\<open>modulo\<close>.
\<close>

named_theorems money_defs "definitions of the decimal amounts"

section \<open>Parsing and printing\<close>

definition pow10 :: "nat \<Rightarrow> int" where
  "pow10 scale = 10 ^ scale"

text \<open>\<open>DECIMAL_PATTERN\<close>: an optional sign, an integer without leading zero, an optional
  fraction of at least one digit.\<close>

definition integer_part :: "string \<Rightarrow> bool" where
  "integer_part w \<longleftrightarrow>
     w = ''0'' \<or> (w \<noteq> [] \<and> list_all is_digit w \<and> hd w \<noteq> CHR ''0'')"

definition strip_sign :: "string \<Rightarrow> bool \<times> string" where
  "strip_sign s = (case s of c # r \<Rightarrow> if c = CHR ''-'' then (True, r) else (False, s) | [] \<Rightarrow> (False, []))"

definition decimal_pattern :: "string \<Rightarrow> bool" where
  "decimal_pattern s =
     (case js_split (CHR ''.'') (snd (strip_sign s)) of
        [w] \<Rightarrow> integer_part w
      | [w, f] \<Rightarrow> integer_part w \<and> f \<noteq> [] \<and> list_all is_digit f
      | _ \<Rightarrow> False)"

definition parse_decimal :: "string \<Rightarrow> nat \<Rightarrow> int result" where
  "parse_decimal value scale =
     (let normalized = js_trim value
      in if \<not> decimal_pattern normalized then Inl (HttpError 422 ''DECIMAL_INVALID'')
         else
           let (negative, unsigned) = strip_sign normalized;
               parts = js_split (CHR ''.'') unsigned;
               whole = hd parts;
               fraction = (case tl parts of [] \<Rightarrow> [] | f # _ \<Rightarrow> f)
           in if length fraction > scale then Inl (HttpError 422 ''DECIMAL_PRECISION_EXCEEDED'')
              else
                let digits = take scale (fraction @ replicate scale (CHR ''0''));
                    units = int (read_nat whole) * pow10 scale
                      + int (read_nat (if digits = [] then ''0'' else digits))
                in Inr (if negative then - units else units))"

definition pad_start :: "nat \<Rightarrow> char \<Rightarrow> string \<Rightarrow> string" where
  "pad_start n c s = replicate (n - length s) c @ s"

definition format_decimal :: "int \<Rightarrow> nat \<Rightarrow> string" where
  "format_decimal value scale =
     (let negative = value < 0;
          absolute = nat \<bar>value\<bar>;
          divisor = nat (pow10 scale);
          whole = absolute div divisor;
          fraction = pad_start scale (CHR ''0'') (show_nat (absolute mod divisor))
      in (if negative then ''-'' else []) @ show_nat whole
         @ (if scale \<noteq> 0 then ''.'' @ fraction else []))"

text \<open>The facts about one printed amount that the round trip needs.\<close>

lemma digit_not_mark:
  "is_digit c \<Longrightarrow> c \<noteq> CHR ''.'' \<and> c \<noteq> CHR ''-'' \<and> \<not> js_space c"
  by (auto simp: is_digit_def js_space_def)

lemma show_nat_integer_part: "integer_part (show_nat n)"
proof (cases "n = 0")
  case True
  have "show_nat 0 = ''0''" by code_simp
  with True show ?thesis by (simp add: integer_part_def)
next
  case False
  then show ?thesis
    by (auto simp: integer_part_def list_all_iff show_nat_digits show_nat_hd)
qed

lemma show_nat_mark: "CHR ''.'' \<notin> set (show_nat n)"
  using show_nat_digits digit_not_mark by blast

lemma show_nat_hd_digit: "is_digit (hd (show_nat n))"
  using show_nat_digits [of "hd (show_nat n)" n] by simp

lemma strip_sign_digit: "s \<noteq> [] \<Longrightarrow> is_digit (hd s) \<Longrightarrow> strip_sign s = (False, s)"
  using digit_not_mark by (cases s) (auto simp: strip_sign_def)

lemma pad_start_digits: "list_all is_digit s \<Longrightarrow> list_all is_digit (pad_start n (CHR ''0'') s)"
  using is_digit_def [of "CHR ''0''"] by (auto simp: pad_start_def list_all_iff)

lemma read_pad_start [simp]: "read_nat (pad_start n (CHR ''0'') s) = read_nat s"
  by (simp add: pad_start_def read_nat_append)

lemma length_pad_start: "length s \<le> n \<Longrightarrow> length (pad_start n c s) = n"
  by (simp add: pad_start_def)

lemma nat_pow10: "nat (pow10 scale) = 10 ^ scale"
  by (simp add: pow10_def nat_power_eq)

definition fraction_text :: "nat \<Rightarrow> nat \<Rightarrow> string" where
  "fraction_text n scale = pad_start scale (CHR ''0'') (show_nat (n mod 10 ^ scale))"

lemma fraction_text_facts:
  assumes "0 < scale"
  shows "length (fraction_text n scale) = scale" "list_all is_digit (fraction_text n scale)"
    "read_nat (fraction_text n scale) = n mod 10 ^ scale" "fraction_text n scale \<noteq> []"
proof -
  have "length (show_nat (n mod 10 ^ scale)) \<le> scale"
    using assms by (intro show_nat_length) simp_all
  then show l: "length (fraction_text n scale) = scale"
    by (simp add: fraction_text_def length_pad_start)
  show "list_all is_digit (fraction_text n scale)"
    unfolding fraction_text_def
    by (rule pad_start_digits) (simp add: list_all_iff show_nat_digits)
  show "read_nat (fraction_text n scale) = n mod 10 ^ scale"
    by (simp add: fraction_text_def)
  show "fraction_text n scale \<noteq> []" using l assms by auto
qed

text \<open>The unsigned text of an amount: its pattern, its parts.\<close>

definition unsigned_text :: "nat \<Rightarrow> nat \<Rightarrow> string" where
  "unsigned_text n scale = show_nat (n div 10 ^ scale) @
     (if scale \<noteq> 0 then ''.'' @ fraction_text n scale else [])"

lemma format_decimal_text:
  "format_decimal v scale = (if v < 0 then ''-'' else []) @ unsigned_text (nat \<bar>v\<bar>) scale"
  by (simp add: format_decimal_def unsigned_text_def fraction_text_def nat_pow10 Let_def)

lemma unsigned_text_chars:
  "c \<in> set (unsigned_text n scale) \<Longrightarrow> is_digit c \<or> c = CHR ''.''"
  using show_nat_digits fraction_text_facts(2) [of scale n]
  by (cases "scale = 0") (auto simp: unsigned_text_def list_all_iff)

lemma unsigned_text_nonempty [simp]: "unsigned_text n scale \<noteq> []"
  by (simp add: unsigned_text_def)

lemma unsigned_text_split:
  "js_split (CHR ''.'') (unsigned_text n scale) =
     show_nat (n div 10 ^ scale) # (if scale = 0 then [] else [fraction_text n scale])"
proof (cases "scale = 0")
  case True
  then show ?thesis by (simp add: unsigned_text_def js_split_no_sep show_nat_mark)
next
  case False
  then have "CHR ''.'' \<notin> set (fraction_text n scale)"
    using fraction_text_facts(2) [of scale n] digit_not_mark by (auto simp: list_all_iff)
  with False show ?thesis
    by (simp add: unsigned_text_def js_split_append_sep js_split_no_sep show_nat_mark)
qed

lemma strip_sign_unsigned: "strip_sign (unsigned_text n scale) = (False, unsigned_text n scale)"
  by (rule strip_sign_digit) (simp_all add: unsigned_text_def show_nat_hd_digit)

lemma strip_sign_format:
  "strip_sign (format_decimal v scale) = (v < 0, unsigned_text (nat \<bar>v\<bar>) scale)"
  by (cases "v < 0") (simp_all add: format_decimal_text strip_sign_unsigned, simp add: strip_sign_def)

lemma format_pattern: "decimal_pattern (format_decimal v scale)"
  using fraction_text_facts(2,4) [of scale "nat \<bar>v\<bar>"]
  by (simp add: decimal_pattern_def strip_sign_format unsigned_text_split show_nat_integer_part)

lemma format_trimmed: "js_trim (format_decimal v scale) = format_decimal v scale"
proof (rule js_trim_id)
  have m: "\<not> js_space (CHR ''.'')" "\<not> js_space (CHR ''-'')" by (simp_all add: js_space_def)
  then have "\<not> js_space c" if "c \<in> set (unsigned_text n scale)" for c n
    using that unsigned_text_chars digit_not_mark by blast
  with m have "\<not> js_space c" if "c \<in> set (format_decimal v scale)" for c
    using that by (auto simp: format_decimal_text split: if_splits)
  then show "trimmed (format_decimal v scale)"
    by (auto simp: trimmed_def format_decimal_text)
qed

lemma parse_format: "parse_decimal (format_decimal v scale) scale = Inr v"
proof (cases "scale = 0")
  case True
  then show ?thesis
    by (simp add: parse_decimal_def format_trimmed format_pattern strip_sign_format
        unsigned_text_split pow10_def read_nat_def [of "''0''"] digit_val_def Let_def)
next
  case False
  then have f: "length (fraction_text n scale) = scale" "fraction_text n scale \<noteq> []"
    "read_nat (fraction_text n scale) = n mod 10 ^ scale" for n
    using fraction_text_facts by auto
  have "int (n div 10 ^ scale) * pow10 scale + int (n mod 10 ^ scale) = int n" for n
    by (metis pow10_def div_mult_mod_eq of_nat_add of_nat_mult of_nat_numeral of_nat_power)
  with False f show ?thesis
    by (simp add: parse_decimal_def format_trimmed format_pattern strip_sign_format
        unsigned_text_split Let_def)
qed

text \<open>The printer and the parser at one scale form a codec.\<close>

interpretation money_text: name_codec "\<lambda>v. format_decimal v scale"
    "\<lambda>s. case parse_decimal s scale of Inl _ \<Rightarrow> None | Inr v \<Rightarrow> Some v" "\<lambda>_. True"
  for scale
  by unfold_locales (simp add: parse_format)


section \<open>Rounding\<close>

definition divide_half_up :: "int \<Rightarrow> int \<Rightarrow> int result" where
  "divide_half_up numerator denominator =
     (if denominator \<le> 0 then Inl (JsError ''denominator must be positive'')
      else
        let negative = numerator < 0;
            absolute = \<bar>numerator\<bar>;
            quotient = absolute div denominator;
            remainder = absolute mod denominator;
            rounded = (if remainder * 2 \<ge> denominator then quotient + 1 else quotient)
        in Inr (if negative then - rounded else rounded))"

definition round_scale :: "int \<Rightarrow> nat \<Rightarrow> nat \<Rightarrow> int result" where
  "round_scale value from_scale to_scale =
     (if from_scale = to_scale then Inr value
      else if from_scale < to_scale then Inr (value * pow10 (to_scale - from_scale))
      else divide_half_up value (pow10 (from_scale - to_scale)))"

text \<open>The rounded quotient as a number, for a positive denominator.\<close>

definition half_up :: "int \<Rightarrow> int \<Rightarrow> int" where
  "half_up n d = (if n < 0 then - ((2 * \<bar>n\<bar> + d) div (2 * d)) else (2 * n + d) div (2 * d))"

lemma half_up_nat:
  fixes n d :: int
  assumes "0 \<le> n" "0 < d"
  shows "(2 * n + d) div (2 * d) = (if n mod d * 2 \<ge> d then n div d + 1 else n div d)"
proof -
  define q r where "q = n div d" and "r = n mod d"
  have n: "n = q * d + r" and r: "0 \<le> r" "r < d"
    using assms by (simp_all add: q_def r_def)
  have "2 * n + d = (2 * r + d) + (2 * d) * q" by (simp add: n algebra_simps)
  then have "(2 * n + d) div (2 * d) = q + (2 * r + d) div (2 * d)"
    using assms(2) by (simp only: div_mult_self2)
  also have "(2 * r + d) div (2 * d) = (if r * 2 \<ge> d then 1 else 0)"
  proof (cases "r * 2 \<ge> d")
    case True
    have "(2 * r + d) div (2 * d) = 1"
      by (rule int_div_pos_eq [where r = "2 * r - d"]) (use True r assms(2) in auto)
    with True show ?thesis by simp
  next
    case False
    then show ?thesis using r assms(2) by (simp add: div_pos_pos_trivial)
  qed
  finally show ?thesis by (simp add: q_def r_def)
qed

lemma divide_half_up_pos [simp]: "0 < d \<Longrightarrow> divide_half_up n d = Inr (half_up n d)"
  using half_up_nat [of "\<bar>n\<bar>" d] by (auto simp: divide_half_up_def half_up_def Let_def)

lemma half_up_neg: "half_up (- n) d = - half_up n d"
  by (auto simp: half_up_def)

lemma half_up_bounds_nonneg:
  assumes "0 \<le> n" "0 < d"
  shows "2 * n - d < 2 * d * half_up n d" "2 * d * half_up n d \<le> 2 * n + d"
proof -
  have e: "2 * d * ((2 * n + d) div (2 * d)) + (2 * n + d) mod (2 * d) = 2 * n + d"
    by (rule mult_div_mod_eq)
  have m: "0 \<le> (2 * n + d) mod (2 * d)" "(2 * n + d) mod (2 * d) < 2 * d"
    using assms by simp_all
  have "half_up n d = (2 * n + d) div (2 * d)"
    using assms by (simp add: half_up_def)
  with e have e': "2 * d * half_up n d + (2 * n + d) mod (2 * d) = 2 * n + d" by (simp only:)
  from e' m(2) show "2 * n - d < 2 * d * half_up n d" by linarith
  from e' m(1) show "2 * d * half_up n d \<le> 2 * n + d" by linarith
qed

text \<open>The error is at most half a unit.\<close>

lemma twice_abs_le: "2 * \<bar>a :: int\<bar> \<le> b \<longleftrightarrow> 2 * a \<le> b \<and> - (2 * a) \<le> b"
  by (auto simp: abs_if)

lemma half_up_error: "0 < d \<Longrightarrow> 2 * \<bar>d * half_up n d - n\<bar> \<le> d"
proof (cases "0 \<le> n")
  case True
  moreover assume "0 < d"
  ultimately show ?thesis using half_up_bounds_nonneg [of n d] by (simp add: abs_if)
next
  case False
  moreover assume "0 < d"
  ultimately show ?thesis
    using half_up_bounds_nonneg [of "- n" d] by (simp add: half_up_neg abs_if)
qed

lemma half_up_nonneg: "0 \<le> n \<Longrightarrow> 0 < d \<Longrightarrow> 0 \<le> half_up n d"
  by (simp add: half_up_def pos_imp_zdiv_nonneg_iff)

lemma half_up_mono_nonneg: "0 \<le> m \<Longrightarrow> m \<le> n \<Longrightarrow> 0 < d \<Longrightarrow> half_up m d \<le> half_up n d"
  by (auto simp: half_up_def intro!: zdiv_mono1)

lemma half_up_multiple: "0 < d \<Longrightarrow> half_up (d * k) d = k"
proof -
  have "(2 * (d * j) + d) div (2 * d) = j" if "0 < d" for j
  proof -
    have "2 * (d * j) + d = d + (2 * d) * j" by simp
    then show ?thesis using that by (simp only: div_mult_self2) (simp add: div_pos_pos_trivial)
  qed
  from this [of k] this [of "- k"] show "0 < d \<Longrightarrow> half_up (d * k) d = k"
    by (auto simp: half_up_def abs_mult mult_less_0_iff)
qed

lemma half_up_le_scaled: "0 \<le> a \<Longrightarrow> 0 \<le> t \<Longrightarrow> t \<le> d \<Longrightarrow> 0 < d \<Longrightarrow> half_up (a * t) d \<le> a"
  using half_up_mono_nonneg [of "a * t" "d * a" d] half_up_multiple [of d a]
  by (simp add: mult_left_mono mult.commute)

section \<open>Lines and documents\<close>

record exact_line_input =
  quantity :: string
  unitPriceExTax :: string
  discountPercent :: string
  taxRatePercent :: string

record exact_line_totals =
  totalExTax :: string
  taxAmount :: string
  totalInclTax :: string

record exact_document_totals =
  doc_subtotalExTax :: string
  doc_discountPercent :: string
  doc_discountAmount :: string
  doc_totalExTax :: string
  doc_totalTax :: string
  doc_totalInclTax :: string

definition QUANTITY_SCALE :: nat where "QUANTITY_SCALE = 3"
definition PRICE_SCALE :: nat where "PRICE_SCALE = 4"
definition PERCENT_SCALE :: nat where "PERCENT_SCALE = 4"
definition MONEY_SCALE :: nat where "MONEY_SCALE = 2"
definition PERCENT_DENOMINATOR :: int where "PERCENT_DENOMINATOR = 100 * pow10 PERCENT_SCALE"

lemmas scale_defs = QUANTITY_SCALE_def PRICE_SCALE_def PERCENT_SCALE_def MONEY_SCALE_def
  PERCENT_DENOMINATOR_def pow10_def

definition assert_percent :: "int \<Rightarrow> unit result" where
  "assert_percent value =
     ensure (\<not> (value < 0 \<or> value > PERCENT_DENOMINATOR)) (HttpError 422 ''PERCENT_OUT_OF_RANGE'')"

text \<open>The amounts of a line in cents, before they are printed.\<close>

definition line_amounts :: "int \<Rightarrow> int \<Rightarrow> int \<Rightarrow> int \<Rightarrow> (int \<times> int) result" where
  "line_amounts q price discount taxRate =
     bind_result (divide_half_up (q * price * (PERCENT_DENOMINATOR - discount)) PERCENT_DENOMINATOR) (\<lambda>rawExTax.
     bind_result (round_scale rawExTax (QUANTITY_SCALE + PRICE_SCALE) MONEY_SCALE) (\<lambda>totalExTaxCents.
     bind_result (divide_half_up (totalExTaxCents * taxRate) PERCENT_DENOMINATOR) (\<lambda>taxCents.
     Inr (totalExTaxCents, taxCents))))"

definition compute_exact_line_totals :: "exact_line_input \<Rightarrow> exact_line_totals result" where
  "compute_exact_line_totals line =
     bind_result (parse_decimal (quantity line) QUANTITY_SCALE) (\<lambda>q.
     bind_result (parse_decimal (unitPriceExTax line) PRICE_SCALE) (\<lambda>price.
     bind_result (parse_decimal (discountPercent line) PERCENT_SCALE) (\<lambda>discount.
     bind_result (parse_decimal (taxRatePercent line) PERCENT_SCALE) (\<lambda>taxRate.
     bind_result (ensure (\<not> q \<le> 0) (HttpError 422 ''QUANTITY_INVALID'')) (\<lambda>_.
     bind_result (ensure (\<not> price < 0) (HttpError 422 ''PRICE_INVALID'')) (\<lambda>_.
     bind_result (assert_percent discount) (\<lambda>_.
     bind_result (assert_percent taxRate) (\<lambda>_.
     bind_result (line_amounts q price discount taxRate) (\<lambda>(totalExTaxCents, taxCents).
     Inr \<lparr>totalExTax = format_decimal totalExTaxCents MONEY_SCALE,
          taxAmount = format_decimal taxCents MONEY_SCALE,
          totalInclTax = format_decimal (totalExTaxCents + taxCents) MONEY_SCALE\<rparr>)))))))))"

fun sum_parsed :: "('l \<Rightarrow> string) \<Rightarrow> int \<Rightarrow> 'l list \<Rightarrow> int result" where
  "sum_parsed f acc [] = Inr acc"
| "sum_parsed f acc (l # ls) =
     bind_result (parse_decimal (f l) MONEY_SCALE) (\<lambda>v. sum_parsed f (acc + v) ls)"

definition compute_exact_document_totals ::
  "exact_line_input list \<Rightarrow> string \<Rightarrow> exact_document_totals result" where
  "compute_exact_document_totals lines globalDiscountPercent =
     bind_result (parse_decimal globalDiscountPercent PERCENT_SCALE) (\<lambda>discount.
     bind_result (assert_percent discount) (\<lambda>_.
     bind_result (map_result compute_exact_line_totals lines) (\<lambda>lineTotals.
     bind_result (sum_parsed totalExTax 0 lineTotals) (\<lambda>subtotalCents.
     bind_result (sum_parsed taxAmount 0 lineTotals) (\<lambda>taxBeforeDiscountCents.
     bind_result (divide_half_up (subtotalCents * (PERCENT_DENOMINATOR - discount)) PERCENT_DENOMINATOR) (\<lambda>totalExTaxCents.
     bind_result (divide_half_up (taxBeforeDiscountCents * (PERCENT_DENOMINATOR - discount)) PERCENT_DENOMINATOR) (\<lambda>totalTaxCents.
     Inr \<lparr>doc_subtotalExTax = format_decimal subtotalCents MONEY_SCALE,
          doc_discountPercent = format_decimal discount PERCENT_SCALE,
          doc_discountAmount = format_decimal (subtotalCents - totalExTaxCents) MONEY_SCALE,
          doc_totalExTax = format_decimal totalExTaxCents MONEY_SCALE,
          doc_totalTax = format_decimal totalTaxCents MONEY_SCALE,
          doc_totalInclTax = format_decimal (totalExTaxCents + totalTaxCents) MONEY_SCALE\<rparr>)))))))"

definition money_to_cents :: "string \<Rightarrow> int result" where
  "money_to_cents value = parse_decimal value MONEY_SCALE"

text \<open>What the parser accepts.\<close>

lemma parse_ok_iff:
  "is_ok (parse_decimal s scale) \<longleftrightarrow>
     decimal_pattern (js_trim s) \<and>
     (case js_split (CHR ''.'') (snd (strip_sign (js_trim s))) of _ # f # _ \<Rightarrow> length f \<le> scale | _ \<Rightarrow> True)"
  by (auto simp: parse_decimal_def Let_def split: prod.splits list.splits)

lemma PERCENT_DENOMINATOR_pos [simp]: "0 < PERCENT_DENOMINATOR"
  by (simp add: scale_defs)

text \<open>The net amount of a line, with its two roundings.\<close>

definition net_cents :: "int \<Rightarrow> int \<Rightarrow> int \<Rightarrow> int" where
  "net_cents q price discount =
     half_up (half_up (q * price * (PERCENT_DENOMINATOR - discount)) PERCENT_DENOMINATOR) 100000"

lemma line_amounts_eq:
  "line_amounts q price discount taxRate =
     Inr (net_cents q price discount,
          half_up (net_cents q price discount * taxRate) PERCENT_DENOMINATOR)"
  by (simp add: line_amounts_def net_cents_def round_scale_def scale_defs)

lemma assert_percent_ok [simp]:
  "assert_percent v = Inr u \<longleftrightarrow> 0 \<le> v \<and> v \<le> PERCENT_DENOMINATOR"
  by (auto simp: assert_percent_def)

text \<open>What a computed line is made of.\<close>

lemma line_totals_parts:
  assumes "compute_exact_line_totals l = Inr t"
  obtains q p d r where
    "parse_decimal (quantity l) QUANTITY_SCALE = Inr q" "0 < q"
    "parse_decimal (unitPriceExTax l) PRICE_SCALE = Inr p" "0 \<le> p"
    "parse_decimal (discountPercent l) PERCENT_SCALE = Inr d" "0 \<le> d" "d \<le> PERCENT_DENOMINATOR"
    "parse_decimal (taxRatePercent l) PERCENT_SCALE = Inr r" "0 \<le> r" "r \<le> PERCENT_DENOMINATOR"
    "t = \<lparr>totalExTax = format_decimal (net_cents q p d) MONEY_SCALE,
          taxAmount = format_decimal (half_up (net_cents q p d * r) PERCENT_DENOMINATOR) MONEY_SCALE,
          totalInclTax = format_decimal (net_cents q p d
            + half_up (net_cents q p d * r) PERCENT_DENOMINATOR) MONEY_SCALE\<rparr>"
  using assms by (auto simp: compute_exact_line_totals_def line_amounts_eq)

lemma net_cents_nonneg:
  assumes "0 \<le> q" "0 \<le> p" "d \<le> PERCENT_DENOMINATOR"
  shows "0 \<le> net_cents q p d"
  unfolding net_cents_def using assms by (intro half_up_nonneg) auto

text \<open>
  The distance of the net amount from the exact product: half a cent for the rounding to
  cents and half of the seventh decimal for the rounding before it.
\<close>

lemma net_cents_error:
  "2 * \<bar>100000 * PERCENT_DENOMINATOR * net_cents q p d
        - q * p * (PERCENT_DENOMINATOR - d)\<bar> \<le> 100001 * PERCENT_DENOMINATOR"
proof -
  define x where "x = q * p * (PERCENT_DENOMINATOR - d)"
  define raw where "raw = half_up x PERCENT_DENOMINATOR"
  have a: "2 * \<bar>PERCENT_DENOMINATOR * raw - x\<bar> \<le> PERCENT_DENOMINATOR"
    unfolding raw_def by (rule half_up_error) simp
  have b: "2 * \<bar>100000 * half_up raw 100000 - raw\<bar> \<le> 100000"
    by (rule half_up_error) simp
  have "PERCENT_DENOMINATOR = 1000000" by (simp add: scale_defs)
  then have e: "2 * \<bar>1000000 * raw - x\<bar> \<le> 1000000" using a by simp
  have "2 * \<bar>100000 * 1000000 * half_up raw 100000 - x\<bar> \<le> 100001 * 1000000"
    using e b unfolding twice_abs_le by (elim conjE, intro conjI) simp_all
  then show ?thesis
    unfolding net_cents_def x_def [symmetric] raw_def [symmetric]
    using \<open>PERCENT_DENOMINATOR = 1000000\<close> by simp
qed

text \<open>Reading back the printed amounts of computed lines never fails.\<close>

lemma sum_parsed_format:
  assumes "\<forall>l \<in> set ls. f l = format_decimal (g l) MONEY_SCALE"
  shows "sum_parsed f acc ls = Inr (acc + sum_list (map g ls))"
  using assms by (induction ls arbitrary: acc) (auto simp: parse_format)

definition cents_of :: "string \<Rightarrow> int" where
  "cents_of s = (case money_to_cents s of Inl _ \<Rightarrow> 0 | Inr v \<Rightarrow> v)"

lemma cents_of_format [simp]: "cents_of (format_decimal v MONEY_SCALE) = v"
  by (simp add: cents_of_def money_to_cents_def parse_format)

lemma line_totals_printed:
  assumes "compute_exact_line_totals l = Inr t"
  shows "totalExTax t = format_decimal (cents_of (totalExTax t)) MONEY_SCALE"
    "taxAmount t = format_decimal (cents_of (taxAmount t)) MONEY_SCALE"
    "cents_of (totalInclTax t) = cents_of (totalExTax t) + cents_of (taxAmount t)"
    "0 \<le> cents_of (taxAmount t)" "cents_of (taxAmount t) \<le> cents_of (totalExTax t)"
    "0 \<le> cents_of (totalExTax t)"
proof -
  obtain q p d r where h: "0 < q" "0 \<le> p" "0 \<le> d" "d \<le> PERCENT_DENOMINATOR" "0 \<le> r"
    "r \<le> PERCENT_DENOMINATOR"
    and t: "t = \<lparr>totalExTax = format_decimal (net_cents q p d) MONEY_SCALE,
          taxAmount = format_decimal (half_up (net_cents q p d * r) PERCENT_DENOMINATOR) MONEY_SCALE,
          totalInclTax = format_decimal (net_cents q p d
            + half_up (net_cents q p d * r) PERCENT_DENOMINATOR) MONEY_SCALE\<rparr>"
    using assms by (rule line_totals_parts)
  from t show "totalExTax t = format_decimal (cents_of (totalExTax t)) MONEY_SCALE"
    "taxAmount t = format_decimal (cents_of (taxAmount t)) MONEY_SCALE"
    "cents_of (totalInclTax t) = cents_of (totalExTax t) + cents_of (taxAmount t)"
    by simp_all
  have n: "0 \<le> net_cents q p d" using h by (simp add: net_cents_nonneg)
  with t show "0 \<le> cents_of (totalExTax t)" by simp
  show "0 \<le> cents_of (taxAmount t)" using n h t by (simp add: half_up_nonneg)
  show "cents_of (taxAmount t) \<le> cents_of (totalExTax t)"
    using n h t by (simp add: half_up_le_scaled)
qed

text \<open>A document's totals from its lines: the computation has no error of its own.\<close>

definition lines_net :: "exact_line_totals list \<Rightarrow> int" where
  "lines_net ts = sum_list (map (\<lambda>t. cents_of (totalExTax t)) ts)"

definition lines_tax :: "exact_line_totals list \<Rightarrow> int" where
  "lines_tax ts = sum_list (map (\<lambda>t. cents_of (taxAmount t)) ts)"

lemma document_totals_eq:
  assumes ts: "map_result compute_exact_line_totals ls = Inr ts"
    and d: "parse_decimal g PERCENT_SCALE = Inr d" "0 \<le> d" "d \<le> PERCENT_DENOMINATOR"
  defines "net \<equiv> half_up (lines_net ts * (PERCENT_DENOMINATOR - d)) PERCENT_DENOMINATOR"
    and "tax \<equiv> half_up (lines_tax ts * (PERCENT_DENOMINATOR - d)) PERCENT_DENOMINATOR"
  shows "compute_exact_document_totals ls g = Inr
     \<lparr>doc_subtotalExTax = format_decimal (lines_net ts) MONEY_SCALE,
      doc_discountPercent = format_decimal d PERCENT_SCALE,
      doc_discountAmount = format_decimal (lines_net ts - net) MONEY_SCALE,
      doc_totalExTax = format_decimal net MONEY_SCALE,
      doc_totalTax = format_decimal tax MONEY_SCALE,
      doc_totalInclTax = format_decimal (net + tax) MONEY_SCALE\<rparr>"
proof -
  have p: "\<forall>t \<in> set ts. totalExTax t = format_decimal (cents_of (totalExTax t)) MONEY_SCALE"
    "\<forall>t \<in> set ts. taxAmount t = format_decimal (cents_of (taxAmount t)) MONEY_SCALE"
    using map_result_in [OF ts] line_totals_printed(1,2) by blast+
  have "assert_percent d = Inr ()" using d by simp
  then show ?thesis
    using ts d(1) sum_parsed_format [OF p(1), of 0] sum_parsed_format [OF p(2), of 0]
    by (simp add: compute_exact_document_totals_def lines_net_def lines_tax_def
        net_def tax_def)
qed

lemma lines_net_nonneg:
  assumes "map_result compute_exact_line_totals ls = Inr ts"
  shows "0 \<le> lines_net ts" "0 \<le> lines_tax ts" "lines_tax ts \<le> lines_net ts"
proof -
  have b: "\<forall>t \<in> set ts. 0 \<le> cents_of (totalExTax t) \<and> 0 \<le> cents_of (taxAmount t)
      \<and> cents_of (taxAmount t) \<le> cents_of (totalExTax t)"
    using map_result_in [OF assms] line_totals_printed(4,5,6) by blast
  then show "0 \<le> lines_net ts" "0 \<le> lines_tax ts"
    unfolding lines_net_def lines_tax_def by (auto intro!: sum_list_nonneg)
  show "lines_tax ts \<le> lines_net ts"
    unfolding lines_net_def lines_tax_def using b by (intro sum_list_mono) auto
qed

section \<open>Properties\<close>

text \<open>printing an amount and reading it back at the same scale gives the amount, and two
  amounts with the same text are equal.\<close>

theorem decimal_text_codec:
  "parse_decimal (format_decimal v scale) scale = Inr v \<and>
   (format_decimal v scale = format_decimal w scale \<longleftrightarrow> v = w)"
  using money_text.enc_inj by (simp add: parse_format)

text \<open>the amounts of a computed line. The net amount is the exact product (quantity in
  thousandths, price in ten-thousandths, discount in millionths of the whole) to within
  half a cent plus half a unit of the seventh decimal, the tax is the net amount times the rate to within half a
  cent, the total is their sum, and the tax is between zero and the net amount.\<close>

theorem line_totals_correct:
  assumes "compute_exact_line_totals l = Inr t"
  shows "\<exists>q p d r. parse_decimal (quantity l) 3 = Inr q \<and> parse_decimal (unitPriceExTax l) 4 = Inr p \<and>
      parse_decimal (discountPercent l) 4 = Inr d \<and> parse_decimal (taxRatePercent l) 4 = Inr r \<and>
      2 * \<bar>100000 * 1000000 * cents_of (totalExTax t) - q * p * (1000000 - d)\<bar> \<le> 100001 * 1000000 \<and>
      2 * \<bar>1000000 * cents_of (taxAmount t) - cents_of (totalExTax t) * r\<bar> \<le> 1000000 \<and>
      cents_of (totalInclTax t) = cents_of (totalExTax t) + cents_of (taxAmount t) \<and>
      0 \<le> cents_of (taxAmount t) \<and> cents_of (taxAmount t) \<le> cents_of (totalExTax t)"
proof -
  have P: "PERCENT_DENOMINATOR = 1000000" by (simp add: scale_defs)
  obtain q p d r where h: "parse_decimal (quantity l) QUANTITY_SCALE = Inr q"
    "parse_decimal (unitPriceExTax l) PRICE_SCALE = Inr p"
    "parse_decimal (discountPercent l) PERCENT_SCALE = Inr d"
    "parse_decimal (taxRatePercent l) PERCENT_SCALE = Inr r"
    and t: "t = \<lparr>totalExTax = format_decimal (net_cents q p d) MONEY_SCALE,
          taxAmount = format_decimal (half_up (net_cents q p d * r) PERCENT_DENOMINATOR) MONEY_SCALE,
          totalInclTax = format_decimal (net_cents q p d
            + half_up (net_cents q p d * r) PERCENT_DENOMINATOR) MONEY_SCALE\<rparr>"
    using assms by (rule line_totals_parts)
  have "2 * \<bar>100000 * 1000000 * cents_of (totalExTax t) - q * p * (1000000 - d)\<bar> \<le> 100001 * 1000000"
    using net_cents_error [of q p d] t by (simp add: P)
  moreover have "2 * \<bar>1000000 * cents_of (taxAmount t) - cents_of (totalExTax t) * r\<bar> \<le> 1000000"
    using half_up_error [of 1000000 "net_cents q p d * r"] t by (simp add: P)
  ultimately show ?thesis
    using h line_totals_printed(3-5) [OF assms] by (auto simp: scale_defs)
qed

lemmas print_simps = format_decimal_def show_nat.simps pad_start_def pow10_def digit_chars
definition sample_line :: exact_line_input where
  "sample_line = \<lparr>quantity = ''2.5'', unitPriceExTax = ''19.99'', discountPercent = ''10'',
     taxRatePercent = ''20''\<rparr>"

lemma sample_parsed:
  "parse_decimal ''2.5'' 3 = Inr 2500" "parse_decimal ''19.99'' 4 = Inr 199900"
  "parse_decimal ''10'' 4 = Inr 100000" "parse_decimal ''20'' 4 = Inr 200000"
  "parse_decimal ''5'' 4 = Inr 50000"
   by code_simp+


lemma sample_printed:
  "format_decimal 4498 2 = ''44.98''" "format_decimal 900 2 = ''9.00''" "format_decimal 5398 2 = ''53.98''"
  "format_decimal 50000 4 = ''5.0000''" "format_decimal 225 2 = ''2.25''" "format_decimal 4273 2 = ''42.73''"
  "format_decimal 855 2 = ''8.55''" "format_decimal 5128 2 = ''51.28''"
  by (simp_all add: print_simps) (simp_all add: numeral_eq_Suc)

lemma sample_read: "parse_decimal ''44.98'' 2 = Inr 4498" "parse_decimal ''9.00'' 2 = Inr 900"
  by code_simp+

lemma sample_line_totals:
  "compute_exact_line_totals sample_line =
     Inr \<lparr>totalExTax = ''44.98'', taxAmount = ''9.00'', totalInclTax = ''53.98''\<rparr>"
  by (simp add: compute_exact_line_totals_def sample_line_def line_amounts_eq net_cents_def half_up_def scale_defs
   sample_parsed sample_printed assert_percent_def)
theorem line_totals_correct_witness:
  "cents_of ''53.98'' = cents_of ''44.98'' + cents_of ''9.00''"
  using line_totals_correct [OF sample_line_totals] by auto

text \<open>a line is accepted exactly when its four texts are decimals of at most three or four
  places with a positive quantity, a price that is not negative and two percentages from 0 to 100.\<close>

theorem line_accepted_iff:
  "is_ok (compute_exact_line_totals l) \<longleftrightarrow>
     (\<exists>q p d r. parse_decimal (quantity l) 3 = Inr q \<and> 0 < q \<and>
        parse_decimal (unitPriceExTax l) 4 = Inr p \<and> 0 \<le> p \<and>
        parse_decimal (discountPercent l) 4 = Inr d \<and> 0 \<le> d \<and> d \<le> 1000000 \<and>
        parse_decimal (taxRatePercent l) 4 = Inr r \<and> 0 \<le> r \<and> r \<le> 1000000)"
  (is "_ \<longleftrightarrow> ?R")
proof
  assume "is_ok (compute_exact_line_totals l)"
  then obtain t where "compute_exact_line_totals l = Inr t"
    by (auto simp: is_ok_def split: sum.splits)
  then show ?R by (rule line_totals_parts) (auto simp: scale_defs)
next
  assume ?R
  then show "is_ok (compute_exact_line_totals l)"
    by (auto simp: compute_exact_line_totals_def line_amounts_eq assert_percent_def scale_defs)
qed

text \<open>C1: a document's printed totals balance to the cent: the subtotal is the sum of the printed
  lines, the discount and the net total make up the subtotal, the total including tax is net plus
  tax, and no discount turns an amount negative.\<close>

theorem document_totals_balance:
  assumes "compute_exact_document_totals ls g = Inr D"
  shows "\<exists>ts. map_result compute_exact_line_totals ls = Inr ts \<and>
      cents_of (doc_subtotalExTax D) = sum_list (map (\<lambda>t. cents_of (totalExTax t)) ts) \<and>
      cents_of (doc_subtotalExTax D) = cents_of (doc_totalExTax D) + cents_of (doc_discountAmount D) \<and>
      cents_of (doc_totalInclTax D) = cents_of (doc_totalExTax D) + cents_of (doc_totalTax D) \<and>
      0 \<le> cents_of (doc_totalTax D) \<and> cents_of (doc_totalTax D) \<le> cents_of (doc_totalExTax D) \<and>
      0 \<le> cents_of (doc_discountAmount D)"
proof -
  obtain d ts where d: "parse_decimal g PERCENT_SCALE = Inr d" "0 \<le> d" "d \<le> PERCENT_DENOMINATOR"
    and ts: "map_result compute_exact_line_totals ls = Inr ts"
    using assms by (auto simp: compute_exact_document_totals_def)
  define f where "f x = half_up (x * (PERCENT_DENOMINATOR - d)) PERCENT_DENOMINATOR" for x
  note n = lines_net_nonneg [OF ts]
  have "0 \<le> f (lines_tax ts)" unfolding f_def using n d by (intro half_up_nonneg) auto
  moreover have "f (lines_tax ts) \<le> f (lines_net ts)"
    unfolding f_def using n d by (intro half_up_mono_nonneg) (auto intro: mult_right_mono)
  moreover have "f (lines_net ts) \<le> lines_net ts"
    unfolding f_def using n d by (intro half_up_le_scaled) auto
  ultimately show ?thesis
    using assms document_totals_eq [OF ts d] ts
    by (auto simp: f_def lines_net_def [symmetric])
qed

theorem document_totals_balance_witness:
  "\<exists>ts. map_result compute_exact_line_totals [sample_line] = Inr ts"
proof -
  have "compute_exact_document_totals [sample_line] ''5'' = Inr
     \<lparr>doc_subtotalExTax = ''44.98'', doc_discountPercent = ''5.0000'', doc_discountAmount = ''2.25'',
      doc_totalExTax = ''42.73'', doc_totalTax = ''8.55'', doc_totalInclTax = ''51.28''\<rparr>"
    by (simp add: compute_exact_document_totals_def sample_line_totals half_up_def scale_defs
        sample_parsed sample_printed sample_read assert_percent_def)
  from document_totals_balance [OF this] show ?thesis by blast
qed

end
