(* ===== verification/Finance_Policy.thy ===== *)
theory Finance_Policy
  imports Auth_Roles Decimal_Money
begin

text \<open>
  \<open>src/module/facturation/domain/finance-policy.ts\<close>: the workflow of invoices and credit
  notes, who may do what, separation of duties, idempotency receipts, and the settlement
  status of an invoice or a payment. The canonical JSON and its hash (lines 255-282) are
  not modelled here.
\<close>

section \<open>Statuses\<close>

datatype facture_status = F_DRAFT | F_PENDING_VALIDATION | F_APPROVED | F_ISSUED
  | F_PARTIALLY_PAID | F_PAID | F_CANCELLED

datatype facture_settlement = S_UNPAID | S_PARTIALLY_PAID | S_PAID

datatype avoir_status = A_DRAFT | A_PENDING_VALIDATION | A_APPROVED | A_ISSUED | A_CANCELLED

datatype payment_status = P_UNALLOCATED | P_PARTIALLY_ALLOCATED | P_ALLOCATED | P_REJECTED | P_REVERSED

definition FACTURE_LEGACY_ISSUED_STATUSES :: "string list" where
  "FACTURE_LEGACY_ISSUED_STATUSES = [''emis'', ''emise'', ''envoyee'', ''partielle'', ''payee'']"

definition is_invoice_issued_for_settlement :: "string option \<Rightarrow> string option \<Rightarrow> bool" where
  "is_invoice_issued_for_settlement documentStatus legacyStatus =
     (if documentStatus = Some ''ISSUED'' then True
      else js_trim (or_empty legacyStatus) \<in> set FACTURE_LEGACY_ISSUED_STATUSES)"

fun facture_transitions :: "facture_status \<Rightarrow> facture_status list" where
  "facture_transitions F_DRAFT = [F_PENDING_VALIDATION, F_CANCELLED]"
| "facture_transitions F_PENDING_VALIDATION = [F_DRAFT, F_APPROVED]"
| "facture_transitions F_APPROVED = [F_DRAFT, F_ISSUED]"
| "facture_transitions F_ISSUED = [F_PARTIALLY_PAID, F_PAID]"
| "facture_transitions F_PARTIALLY_PAID = [F_ISSUED, F_PAID]"
| "facture_transitions F_PAID = [F_PARTIALLY_PAID]"
| "facture_transitions F_CANCELLED = []"

fun avoir_transitions :: "avoir_status \<Rightarrow> avoir_status list" where
  "avoir_transitions A_DRAFT = [A_PENDING_VALIDATION, A_CANCELLED]"
| "avoir_transitions A_PENDING_VALIDATION = [A_DRAFT, A_APPROVED]"
| "avoir_transitions A_APPROVED = [A_DRAFT, A_ISSUED]"
| "avoir_transitions A_ISSUED = []"
| "avoir_transitions A_CANCELLED = []"

definition assert_facture_transition :: "facture_status \<Rightarrow> facture_status \<Rightarrow> unit result" where
  "assert_facture_transition current target =
     ensure (target \<in> set (facture_transitions current)) (HttpError 409 ''FACTURE_TRANSITION_FORBIDDEN'')"

definition assert_avoir_transition :: "avoir_status \<Rightarrow> avoir_status \<Rightarrow> unit result" where
  "assert_avoir_transition current target =
     ensure (target \<in> set (avoir_transitions current)) (HttpError 409 ''AVOIR_TRANSITION_FORBIDDEN'')"

definition assert_finance_separation_of_duties :: "int option \<Rightarrow> int \<Rightarrow> unit result" where
  "assert_finance_separation_of_duties creatorUserId validatorUserId =
     (if creatorUserId \<noteq> None \<and> creatorUserId = Some validatorUserId
      then Inl (HttpError 403 ''FINANCE_SEPARATION_OF_DUTIES'') else Inr ())"

section \<open>Capabilities\<close>

datatype finance_capability =
    FC_read | FC_draft_write | FC_request_validation | FC_validate | FC_issue | FC_credit_write
  | FC_credit_issue | FC_payment_register | FC_payment_allocate | FC_documents_read | FC_audit_read
  | FC_reporting_read | FC_reporting_financial | FC_reporting_client_detail | FC_reporting_export
  | FC_reminder_read | FC_reminder_policy_manage | FC_reminder_approve | FC_reminder_send
  | FC_reminder_retry | FC_reminder_job_run | FC_reminder_opt_out_manage | FC_einvoice_read
  | FC_einvoice_submit | FC_einvoice_reconcile | FC_einvoice_admin | FC_accounting_export_read
  | FC_accounting_export_execute | FC_accounting_export_admin | FC_settings_manage

fun finance_capability_name :: "finance_capability \<Rightarrow> string" where
  "finance_capability_name FC_read = ''read''"
| "finance_capability_name FC_draft_write = ''draft_write''"
| "finance_capability_name FC_request_validation = ''request_validation''"
| "finance_capability_name FC_validate = ''validate''"
| "finance_capability_name FC_issue = ''issue''"
| "finance_capability_name FC_credit_write = ''credit_write''"
| "finance_capability_name FC_credit_issue = ''credit_issue''"
| "finance_capability_name FC_payment_register = ''payment_register''"
| "finance_capability_name FC_payment_allocate = ''payment_allocate''"
| "finance_capability_name FC_documents_read = ''documents_read''"
| "finance_capability_name FC_audit_read = ''audit_read''"
| "finance_capability_name FC_reporting_read = ''reporting_read''"
| "finance_capability_name FC_reporting_financial = ''reporting_financial''"
| "finance_capability_name FC_reporting_client_detail = ''reporting_client_detail''"
| "finance_capability_name FC_reporting_export = ''reporting_export''"
| "finance_capability_name FC_reminder_read = ''reminder_read''"
| "finance_capability_name FC_reminder_policy_manage = ''reminder_policy_manage''"
| "finance_capability_name FC_reminder_approve = ''reminder_approve''"
| "finance_capability_name FC_reminder_send = ''reminder_send''"
| "finance_capability_name FC_reminder_retry = ''reminder_retry''"
| "finance_capability_name FC_reminder_job_run = ''reminder_job_run''"
| "finance_capability_name FC_reminder_opt_out_manage = ''reminder_opt_out_manage''"
| "finance_capability_name FC_einvoice_read = ''einvoice_read''"
| "finance_capability_name FC_einvoice_submit = ''einvoice_submit''"
| "finance_capability_name FC_einvoice_reconcile = ''einvoice_reconcile''"
| "finance_capability_name FC_einvoice_admin = ''einvoice_admin''"
| "finance_capability_name FC_accounting_export_read = ''accounting_export_read''"
| "finance_capability_name FC_accounting_export_execute = ''accounting_export_execute''"
| "finance_capability_name FC_accounting_export_admin = ''accounting_export_admin''"
| "finance_capability_name FC_settings_manage = ''settings_manage''"

definition role_director :: string where "role_director = ''Directeur''"
definition role_administrator :: string where "role_administrator = ''Administrateur Systeme et Reseau''"
definition role_secretary :: string where "role_secretary = ''Secretaire''"
definition role_accounting :: string where "role_accounting = ''Comptabilite''"
definition role_accountant :: string where "role_accountant = ''Comptable''"

lemmas finance_roles = role_director_def role_administrator_def role_secretary_def
  role_accounting_def role_accountant_def

definition finance_roles_all :: "string list" where
  "finance_roles_all = [role_director, role_administrator, role_secretary, role_accounting, role_accountant]"

definition writers :: "string list" where
  "writers = [role_secretary, role_accounting, role_accountant, role_director]"

definition deciders :: "string list" where
  "deciders = [role_accounting, role_accountant, role_director]"

definition deciders_and_admin :: "string list" where
  "deciders_and_admin = [role_accounting, role_accountant, role_director, role_administrator]"

definition managers :: "string list" where
  "managers = [role_director, role_administrator]"

fun capability_roles :: "finance_capability \<Rightarrow> string list" where
  "capability_roles FC_read = finance_roles_all"
| "capability_roles FC_draft_write = writers"
| "capability_roles FC_request_validation = writers"
| "capability_roles FC_validate = deciders"
| "capability_roles FC_issue = deciders"
| "capability_roles FC_credit_write = writers"
| "capability_roles FC_credit_issue = deciders"
| "capability_roles FC_payment_register = writers"
| "capability_roles FC_payment_allocate = deciders"
| "capability_roles FC_documents_read = finance_roles_all"
| "capability_roles FC_audit_read = deciders_and_admin"
| "capability_roles FC_reporting_read = writers"
| "capability_roles FC_reporting_financial = deciders"
| "capability_roles FC_reporting_client_detail = deciders"
| "capability_roles FC_reporting_export = deciders"
| "capability_roles FC_reminder_read = writers @ [role_administrator]"
| "capability_roles FC_reminder_policy_manage = managers"
| "capability_roles FC_reminder_approve = deciders"
| "capability_roles FC_reminder_send = deciders"
| "capability_roles FC_reminder_retry = deciders"
| "capability_roles FC_reminder_job_run = managers"
| "capability_roles FC_reminder_opt_out_manage = writers"
| "capability_roles FC_einvoice_read = deciders_and_admin"
| "capability_roles FC_einvoice_submit = deciders"
| "capability_roles FC_einvoice_reconcile = deciders"
| "capability_roles FC_einvoice_admin = managers"
| "capability_roles FC_accounting_export_read = deciders_and_admin"
| "capability_roles FC_accounting_export_execute = deciders"
| "capability_roles FC_accounting_export_admin = managers"
| "capability_roles FC_settings_manage = managers"

definition role_has_finance_capability :: "bool \<Rightarrow> string option \<Rightarrow> finance_capability \<Rightarrow> bool" where
  "role_has_finance_capability granted role capability =
     (if granted then True
      else if effective_role_has_any role [role_administrator]
        \<and> \<not> prefix ''reminder_'' (finance_capability_name capability)
        \<and> \<not> prefix ''einvoice_'' (finance_capability_name capability) then True
      else effective_role_has_any role (capability_roles capability))"

section \<open>Idempotency\<close>

definition normalize_idempotency_key :: "string option \<Rightarrow> string result" where
  "normalize_idempotency_key value =
     (let normalized = js_trim (or_empty value)
      in if length normalized < 8 \<or> length normalized > 200
         then Inl (HttpError 400 ''IDEMPOTENCY_KEY_INVALID'')
         else Inr normalized)"

datatype receipt_decision = RECEIPT_NEW | RECEIPT_REPLAY | RECEIPT_CONFLICT

definition decide_receipt :: "string option \<Rightarrow> string \<Rightarrow> receipt_decision" where
  "decide_receipt existingHash incomingHash =
     (if \<not> truthy existingHash then RECEIPT_NEW
      else if existingHash = Some incomingHash then RECEIPT_REPLAY else RECEIPT_CONFLICT)"

section \<open>Settlement\<close>

definition invoice_settlement_status_from_balance :: "int \<Rightarrow> int \<Rightarrow> facture_settlement" where
  "invoice_settlement_status_from_balance totalCents settledCents =
     (if settledCents \<le> 0 then S_UNPAID
      else if settledCents < totalCents then S_PARTIALLY_PAID
      else S_PAID)"

definition invoice_status_from_balance :: "int \<Rightarrow> int \<Rightarrow> facture_status" where
  "invoice_status_from_balance totalCents settledCents =
     (case invoice_settlement_status_from_balance totalCents settledCents of
        S_UNPAID \<Rightarrow> F_ISSUED
      | S_PARTIALLY_PAID \<Rightarrow> F_PARTIALLY_PAID
      | S_PAID \<Rightarrow> F_PAID)"

definition payment_status_from_allocation :: "int \<Rightarrow> int \<Rightarrow> payment_status" where
  "payment_status_from_allocation paymentCents allocatedCents =
     (if allocatedCents \<le> 0 then P_UNALLOCATED
      else if allocatedCents < paymentCents then P_PARTIALLY_ALLOCATED
      else P_ALLOCATED)"

lemmas settlement_defs = invoice_status_from_balance_def invoice_settlement_status_from_balance_def
  payment_status_from_allocation_def

section \<open>The contracts\<close>

interpretation facture: guarded_machine facture_transitions "\<lambda>s. s = F_CANCELLED"
    "\<lambda>s t. is_ok (assert_facture_transition s t)" False
proof unfold_locales
  fix s t
  show "(s = F_CANCELLED) = (facture_transitions s = [])" by (cases s) simp_all
  show "s \<notin> set (facture_transitions s)" by (cases s) simp_all
  show "is_ok (assert_facture_transition s t) = (False \<and> s = t \<or> t \<in> set (facture_transitions s))"
    by (simp add: assert_facture_transition_def)
qed

interpretation avoir: guarded_machine avoir_transitions "\<lambda>s. s = A_ISSUED \<or> s = A_CANCELLED"
    "\<lambda>s t. is_ok (assert_avoir_transition s t)" False
proof unfold_locales
  fix s t
  show "(s = A_ISSUED \<or> s = A_CANCELLED) = (avoir_transitions s = [])" by (cases s) simp_all
  show "s \<notin> set (avoir_transitions s)" by (cases s) simp_all
  show "is_ok (assert_avoir_transition s t) = (False \<and> s = t \<or> t \<in> set (avoir_transitions s))"
    by (simp add: assert_avoir_transition_def)
qed

interpretation finance: capability_policy role_has_finance_capability
proof unfold_locales
  fix r :: "string option" and w :: string and rs c
  show "role_has_finance_capability True r c" by (simp add: role_has_finance_capability_def)
  show "js_trim (or_empty r) = [] \<Longrightarrow> \<not> role_has_finance_capability False r c"
    by (simp add: role_has_finance_capability_def has_any_blank)
  show "role_has_finance_capability False (Some w) c \<Longrightarrow> w \<in> set rs \<Longrightarrow>
      role_has_finance_capability False (Some (js_join '' | '' rs)) c"
    unfolding role_has_finance_capability_def by (metis has_any_widen)
qed

text \<open>After issue an invoice only moves between the three settlement statuses.\<close>

definition settled_statuses :: "facture_status set" where
  "settled_statuses = {F_ISSUED, F_PARTIALLY_PAID, F_PAID}"

lemma issued_closed:
  "x \<in> settled_statuses \<Longrightarrow> y \<in> set (facture_transitions x) \<Longrightarrow> y \<in> settled_statuses"
  by (cases x) (auto simp: settled_statuses_def)

lemma settlement_hub:
  "x \<in> settled_statuses \<Longrightarrow> reaches facture_transitions x F_PARTIALLY_PAID"
  "x \<in> settled_statuses \<Longrightarrow> reaches facture_transitions F_PARTIALLY_PAID x"
  by (cases x; simp add: settled_statuses_def reaches.here reaches_first [OF _ reaches.here])+

lemma settlement_reaches:
  "x \<in> settled_statuses \<Longrightarrow> y \<in> settled_statuses \<Longrightarrow> reaches facture_transitions x y"
  by (rule reaches_trans [OF settlement_hub(2) settlement_hub(1)])

section \<open>Properties\<close>

text \<open>The capability an account with assigned roles has, in terms of the roles it was given.\<close>

lemma assigned_finance_capability:
  "role_has_finance_capability False (Some (authorization_role p rs)) c \<longleftrightarrow>
     (\<exists>r \<in> given_roles p rs. \<exists>a \<in> set (role_aliases r).
        a \<in> set (capability_roles c)
        \<or> a = role_administrator \<and> \<not> prefix ''reminder_'' (finance_capability_name c)
          \<and> \<not> prefix ''einvoice_'' (finance_capability_name c))"
  by (auto simp: role_has_finance_capability_def authorization_has_any)

text \<open>assigning more roles to an account never takes a finance capability away, and the
  assignment's order, blanks and duplicates do not matter.\<close>

theorem finance_roles_monotone:
  assumes "given_roles p rs \<subseteq> given_roles p' rs'"
    and "role_has_finance_capability g (Some (authorization_role p rs)) c"
  shows "role_has_finance_capability g (Some (authorization_role p' rs')) c"
proof (cases g)
  case True
  then show ?thesis by (simp add: finance.granted_has)
next
  case False
  then have "role_has_finance_capability False (Some (authorization_role p rs)) c" using assms(2) by simp
  with assms(1) have "role_has_finance_capability False (Some (authorization_role p' rs')) c"
    unfolding assigned_finance_capability by blast
  with False show ?thesis by simp
qed

theorem finance_roles_monotone_witness:
  "role_has_finance_capability False
     (Some (authorization_role (Some ''Planning'') (Some ['' RH-Financier '', ''Achats'']))) FC_issue"
  by (rule finance_roles_monotone [of "Some ''RH-Financier''" None]) (auto simp: given_roles_def, code_simp+)

text \<open>without a module grant, only the directors, the managers of the company and the
  finance officer may approve or send payment reminders or submit an electronic invoice; the
  administrator, who has every other finance capability, may not.\<close>

theorem reminder_send_titles:
  assumes "c \<in> {FC_reminder_approve, FC_reminder_send, FC_reminder_retry, FC_einvoice_submit, FC_einvoice_reconcile}"
  shows "role_has_finance_capability False (Some (authorization_role p rs)) c \<longleftrightarrow>
      (\<exists>r \<in> given_roles p rs. r \<in> {''Directeur'', ''G'' @ CHR 0xE9 # ''rant'', ''RH-Financier''})"
proof -
  have no_admin: "prefix ''reminder_'' (finance_capability_name c) \<or> prefix ''einvoice_'' (finance_capability_name c)"
    and roles: "capability_roles c = deciders"
    using assms by auto
  have t: "titles_with role_accounting = [''RH-Financier'']" "titles_with role_accountant = []"
    "titles_with role_director = [''Directeur'', ''G'' @ CHR 0xE9 # ''rant'']"
    by code_simp+
  have "(\<exists>a \<in> set (role_aliases r). a \<in> set deciders) \<longleftrightarrow>
      r \<in> {''Directeur'', ''G'' @ CHR 0xE9 # ''rant'', ''RH-Financier''}" for r
  proof -
    have "(\<exists>a \<in> set (role_aliases r). a \<in> set deciders) \<longleftrightarrow>
        r \<in> set (titles_with role_accounting @ titles_with role_accountant @ titles_with role_director)"
      by (auto simp: deciders_def titles_with_iff)
    then show ?thesis unfolding t by auto
  qed
  with no_admin show ?thesis unfolding assigned_finance_capability roles by metis
qed

theorem reminder_send_titles_witness:
  "\<not> role_has_finance_capability False
     (Some (authorization_role (Some ''Administrateur Systeme et Reseau'') None)) FC_reminder_send"
  by (subst reminder_send_titles) (auto simp: given_roles_def, code_simp+)

text \<open>the settlement of an issued invoice. Whatever payments are recorded, the status
  computed from the balance is one the workflow can reach from the current one, it is paid
  exactly when the positive settled amount covers the total, and no sequence of requests ever
  takes an issued invoice out of the settlement statuses.\<close>

theorem invoice_settlement_workflow:
  assumes "s \<in> {F_ISSUED, F_PARTIALLY_PAID, F_PAID}"
  shows "reaches facture_transitions s (invoice_status_from_balance totalCents settledCents) \<and>
    (run_checked (\<lambda>s t. is_ok (assert_facture_transition s t)) s ts = Some u \<longrightarrow>
       u \<in> {F_ISSUED, F_PARTIALLY_PAID, F_PAID}) \<and>
    (invoice_status_from_balance totalCents settledCents = F_PAID \<longleftrightarrow> 0 < settledCents \<and> totalCents \<le> settledCents)"
proof -
  have s: "s \<in> settled_statuses" using assms by (simp add: settled_statuses_def)
  have "invoice_status_from_balance totalCents settledCents \<in> settled_statuses"
    by (simp add: invoice_status_from_balance_def invoice_settlement_status_from_balance_def
        settled_statuses_def)
  then have "reaches facture_transitions s (invoice_status_from_balance totalCents settledCents)"
    using s settlement_reaches by blast
  moreover have "u \<in> settled_statuses"
    if "run_checked (\<lambda>s t. is_ok (assert_facture_transition s t)) s ts = Some u"
    by (rule facture.run_closed [OF that s issued_closed])
  moreover have "invoice_status_from_balance totalCents settledCents = F_PAID \<longleftrightarrow> 0 < settledCents \<and> totalCents \<le> settledCents"
    by (auto simp: invoice_status_from_balance_def invoice_settlement_status_from_balance_def)
  ultimately show ?thesis unfolding settled_statuses_def by blast
qed

theorem invoice_settlement_workflow_witness:
  "reaches facture_transitions F_PAID (invoice_status_from_balance 12000 0)"
  using invoice_settlement_workflow [of F_PAID 12000 0] by simp

end
