(* ===== verification/Order_Lifecycles.thy ===== *)
theory Order_Lifecycles
  imports Interfaces
begin

text \<open>
  The status machines of the orders: works orders and their operations
  (\<open>src/module/production/domain/of-status.ts\<close>), purchase orders
  (\<open>src/module/commande-fournisseur/domain/commande-fournisseur-transitions.ts\<close>) and
  cases (\<open>src/module/affaire/domain/affaire-transitions.ts\<close>). Every table is interpreted
  as a status machine. The French labels are presentation and are left out.
\<close>

section \<open>Works orders\<close>

datatype of_statut = OF_BROUILLON | OF_PLANIFIE | OF_EN_COURS | OF_EN_PAUSE | OF_TERMINE
  | OF_CLOTURE | OF_ANNULE

definition OF_STATUTS :: "of_statut list" where
  "OF_STATUTS = [OF_BROUILLON, OF_PLANIFIE, OF_EN_COURS, OF_EN_PAUSE, OF_TERMINE, OF_CLOTURE, OF_ANNULE]"

fun of_statut_transitions :: "of_statut \<Rightarrow> of_statut list" where
  "of_statut_transitions OF_BROUILLON = [OF_PLANIFIE, OF_EN_COURS, OF_ANNULE]"
| "of_statut_transitions OF_PLANIFIE = [OF_BROUILLON, OF_EN_COURS, OF_ANNULE]"
| "of_statut_transitions OF_EN_COURS = [OF_EN_PAUSE, OF_TERMINE, OF_ANNULE]"
| "of_statut_transitions OF_EN_PAUSE = [OF_EN_COURS, OF_ANNULE]"
| "of_statut_transitions OF_TERMINE = [OF_EN_COURS, OF_CLOTURE]"
| "of_statut_transitions OF_CLOTURE = []"
| "of_statut_transitions OF_ANNULE = []"

definition can_transition_of_statut :: "of_statut \<Rightarrow> of_statut \<Rightarrow> bool" where
  "can_transition_of_statut f t = (if f = t then True else t \<in> set (of_statut_transitions f))"

definition OF_PRELAUNCH_STATUTS :: "of_statut list" where
  "OF_PRELAUNCH_STATUTS = [OF_BROUILLON, OF_PLANIFIE]"

definition is_of_prelaunch :: "of_statut \<Rightarrow> bool" where
  "is_of_prelaunch s = (s \<in> set OF_PRELAUNCH_STATUTS)"

definition OF_STATUTS_ALLOWING_EXECUTION :: "of_statut list" where
  "OF_STATUTS_ALLOWING_EXECUTION = [OF_BROUILLON, OF_PLANIFIE, OF_EN_COURS, OF_EN_PAUSE]"

definition of_statut_allows_execution :: "of_statut \<Rightarrow> bool" where
  "of_statut_allows_execution s = (s \<in> set OF_STATUTS_ALLOWING_EXECUTION)"

definition OF_STATUTS_ALLOWING_RECEIPT :: "of_statut list" where
  "OF_STATUTS_ALLOWING_RECEIPT = [OF_EN_COURS, OF_EN_PAUSE, OF_TERMINE]"

definition of_statut_allows_receipt :: "of_statut \<Rightarrow> bool" where
  "of_statut_allows_receipt s = (s \<in> set OF_STATUTS_ALLOWING_RECEIPT)"

section \<open>Operations of a works order\<close>

datatype of_operation_status = OP_TODO | OP_READY | OP_RUNNING | OP_DONE | OP_BLOCKED

definition OF_OPERATION_STATUSES :: "of_operation_status list" where
  "OF_OPERATION_STATUSES = [OP_TODO, OP_READY, OP_RUNNING, OP_DONE, OP_BLOCKED]"

fun of_operation_status_transitions :: "of_operation_status \<Rightarrow> of_operation_status list" where
  "of_operation_status_transitions OP_TODO = [OP_READY, OP_RUNNING, OP_BLOCKED]"
| "of_operation_status_transitions OP_READY = [OP_TODO, OP_RUNNING, OP_BLOCKED]"
| "of_operation_status_transitions OP_RUNNING = [OP_READY, OP_DONE, OP_BLOCKED]"
| "of_operation_status_transitions OP_DONE = [OP_READY]"
| "of_operation_status_transitions OP_BLOCKED = [OP_TODO, OP_READY]"

definition can_transition_of_operation_status :: "of_operation_status \<Rightarrow> of_operation_status \<Rightarrow> bool" where
  "can_transition_of_operation_status f t =
     (if f = t then True else t \<in> set (of_operation_status_transitions f))"

definition OF_OPERATION_REORDERABLE_STATUSES :: "string list" where
  "OF_OPERATION_REORDERABLE_STATUSES = [''TODO'', ''READY'']"

definition of_operations_allow_reorder :: "string list \<Rightarrow> bool" where
  "of_operations_allow_reorder statuses =
     list_all (\<lambda>s. s \<in> set OF_OPERATION_REORDERABLE_STATUSES) statuses"

fun of_operation_status_name :: "of_operation_status \<Rightarrow> string" where
  "of_operation_status_name OP_TODO = ''TODO''"
| "of_operation_status_name OP_READY = ''READY''"
| "of_operation_status_name OP_RUNNING = ''RUNNING''"
| "of_operation_status_name OP_DONE = ''DONE''"
| "of_operation_status_name OP_BLOCKED = ''BLOCKED''"

fun of_statut_name :: "of_statut \<Rightarrow> string" where
  "of_statut_name OF_BROUILLON = ''BROUILLON''"
| "of_statut_name OF_PLANIFIE = ''PLANIFIE''"
| "of_statut_name OF_EN_COURS = ''EN_COURS''"
| "of_statut_name OF_EN_PAUSE = ''EN_PAUSE''"
| "of_statut_name OF_TERMINE = ''TERMINE''"
| "of_statut_name OF_CLOTURE = ''CLOTURE''"
| "of_statut_name OF_ANNULE = ''ANNULE''"

lemmas of_status_defs [step_simps] = can_transition_of_statut_def OF_PRELAUNCH_STATUTS_def
  is_of_prelaunch_def OF_STATUTS_ALLOWING_EXECUTION_def of_statut_allows_execution_def
  OF_STATUTS_ALLOWING_RECEIPT_def of_statut_allows_receipt_def
  can_transition_of_operation_status_def

interpretation works_order: guarded_machine of_statut_transitions
    "\<lambda>s. s = OF_CLOTURE \<or> s = OF_ANNULE" can_transition_of_statut True
proof unfold_locales
  fix s t
  show "(s = OF_CLOTURE \<or> s = OF_ANNULE) = (of_statut_transitions s = [])" by (cases s) simp_all
  show "s \<notin> set (of_statut_transitions s)" by (cases s) simp_all
  show "can_transition_of_statut s t = (True \<and> s = t \<or> t \<in> set (of_statut_transitions s))"
    by (auto simp: can_transition_of_statut_def)
qed

interpretation operation: guarded_machine of_operation_status_transitions "\<lambda>_. False"
    can_transition_of_operation_status True
proof unfold_locales
  fix s t
  show "False = (of_operation_status_transitions s = [])" by (cases s) simp_all
  show "s \<notin> set (of_operation_status_transitions s)" by (cases s) simp_all
  show "can_transition_of_operation_status s t =
      (True \<and> s = t \<or> t \<in> set (of_operation_status_transitions s))"
    by (auto simp: can_transition_of_operation_status_def)
qed

text \<open>Once launched, a works order never returns to a status that may be edited freely.\<close>

lemma launched_stays_launched:
  assumes "\<not> is_of_prelaunch s" "run_checked can_transition_of_statut s ts = Some u"
  shows "\<not> is_of_prelaunch u"
proof -
  have "u \<in> {x. \<not> is_of_prelaunch x}"
  proof (rule works_order.run_closed [OF assms(2)])
    fix x y
    assume "x \<in> {x. \<not> is_of_prelaunch x}" "y \<in> set (of_statut_transitions x)"
    then show "y \<in> {x. \<not> is_of_prelaunch x}" by (cases x) (auto simp: step_simps)
  qed (use assms(1) in simp)
  then show ?thesis by simp
qed

section \<open>Purchase orders\<close>

datatype cf_statut = CF_BROUILLON | CF_A_VALIDER | CF_APPROUVEE | CF_ENVOYEE | CF_ACCUSE_RECU
  | CF_PARTIELLEMENT_RECUE | CF_RECUE | CF_CLOTUREE | CF_ANNULEE

fun commande_fournisseur_transitions :: "cf_statut \<Rightarrow> cf_statut list" where
  "commande_fournisseur_transitions CF_BROUILLON = [CF_A_VALIDER, CF_ANNULEE]"
| "commande_fournisseur_transitions CF_A_VALIDER = [CF_APPROUVEE, CF_BROUILLON, CF_ANNULEE]"
| "commande_fournisseur_transitions CF_APPROUVEE = [CF_ENVOYEE, CF_BROUILLON, CF_ANNULEE]"
| "commande_fournisseur_transitions CF_ENVOYEE =
     [CF_ACCUSE_RECU, CF_PARTIELLEMENT_RECUE, CF_RECUE, CF_ANNULEE]"
| "commande_fournisseur_transitions CF_ACCUSE_RECU = [CF_PARTIELLEMENT_RECUE, CF_RECUE, CF_ANNULEE]"
| "commande_fournisseur_transitions CF_PARTIELLEMENT_RECUE = [CF_RECUE, CF_CLOTUREE]"
| "commande_fournisseur_transitions CF_RECUE = [CF_CLOTUREE]"
| "commande_fournisseur_transitions CF_CLOTUREE = []"
| "commande_fournisseur_transitions CF_ANNULEE = []"

definition COMMANDE_FOURNISSEUR_TERMINAL_STATUTS :: "cf_statut list" where
  "COMMANDE_FOURNISSEUR_TERMINAL_STATUTS = [CF_CLOTUREE, CF_ANNULEE]"

definition cf_is_terminal_statut :: "cf_statut \<Rightarrow> bool" where
  "cf_is_terminal_statut s = (s \<in> set COMMANDE_FOURNISSEUR_TERMINAL_STATUTS)"

definition cf_is_allowed_transition :: "cf_statut \<Rightarrow> cf_statut \<Rightarrow> bool" where
  "cf_is_allowed_transition f t =
     (if f = t then False else t \<in> set (commande_fournisseur_transitions f))"

definition cf_allowed_targets_from :: "cf_statut \<Rightarrow> cf_statut list" where
  "cf_allowed_targets_from f = commande_fournisseur_transitions f"

definition cf_is_reception_derived_statut :: "cf_statut \<Rightarrow> bool" where
  "cf_is_reception_derived_statut s = (s = CF_PARTIELLEMENT_RECUE \<or> s = CF_RECUE)"

datatype cf_transition_kind = CF_submit | CF_reject | CF_reopen_draft | CF_approve | CF_send
  | CF_acknowledge | CF_receive_partial | CF_receive_full | CF_close | CF_cancel

definition cf_classify_transition :: "cf_statut \<Rightarrow> cf_statut \<Rightarrow> cf_transition_kind" where
  "cf_classify_transition f t =
     (if t = CF_ANNULEE then CF_cancel
      else if t = CF_CLOTUREE then CF_close
      else if t = CF_A_VALIDER then CF_submit
      else if t = CF_APPROUVEE then CF_approve
      else if t = CF_ENVOYEE then CF_send
      else if t = CF_ACCUSE_RECU then CF_acknowledge
      else if t = CF_PARTIELLEMENT_RECUE then CF_receive_partial
      else if t = CF_RECUE then CF_receive_full
      else if t = CF_BROUILLON \<and> f = CF_A_VALIDER then CF_reject
      else CF_reopen_draft)"

definition cf_transition_requires_motif :: "cf_transition_kind \<Rightarrow> bool" where
  "cf_transition_requires_motif k =
     (k = CF_cancel \<or> k = CF_reject \<or> k = CF_reopen_draft \<or> k = CF_close)"

lemmas cf_defs [step_simps] = COMMANDE_FOURNISSEUR_TERMINAL_STATUTS_def cf_is_terminal_statut_def
  cf_is_allowed_transition_def cf_allowed_targets_from_def cf_is_reception_derived_statut_def
  cf_classify_transition_def cf_transition_requires_motif_def

interpretation purchase_order: guarded_machine commande_fournisseur_transitions
    cf_is_terminal_statut cf_is_allowed_transition False
proof unfold_locales
  fix s t
  show "cf_is_terminal_statut s = (commande_fournisseur_transitions s = [])"
    by (cases s) (simp_all add: step_simps)
  show n: "s \<notin> set (commande_fournisseur_transitions s)" for s by (cases s) simp_all
  show "cf_is_allowed_transition s t =
      (False \<and> s = t \<or> t \<in> set (commande_fournisseur_transitions s))"
    using n by (auto simp: cf_is_allowed_transition_def)
qed

section \<open>Cases\<close>

datatype affaire_statut = AF_OUVERTE | AF_EN_COURS | AF_SUSPENDUE | AF_CLOTUREE | AF_ANNULEE

fun affaire_transitions :: "affaire_statut \<Rightarrow> affaire_statut list" where
  "affaire_transitions AF_OUVERTE = [AF_EN_COURS, AF_SUSPENDUE, AF_CLOTUREE, AF_ANNULEE]"
| "affaire_transitions AF_EN_COURS = [AF_SUSPENDUE, AF_CLOTUREE, AF_ANNULEE]"
| "affaire_transitions AF_SUSPENDUE = [AF_OUVERTE, AF_EN_COURS, AF_CLOTUREE, AF_ANNULEE]"
| "affaire_transitions AF_CLOTUREE = [AF_OUVERTE, AF_EN_COURS]"
| "affaire_transitions AF_ANNULEE = []"

definition AFFAIRE_TERMINAL_STATUSES :: "affaire_statut list" where
  "AFFAIRE_TERMINAL_STATUSES = [AF_CLOTUREE, AF_ANNULEE]"

definition affaire_is_terminal_status :: "affaire_statut \<Rightarrow> bool" where
  "affaire_is_terminal_status s = (s \<in> set AFFAIRE_TERMINAL_STATUSES)"

definition affaire_is_allowed_transition :: "affaire_statut \<Rightarrow> affaire_statut \<Rightarrow> bool" where
  "affaire_is_allowed_transition f t = (if f = t then False else t \<in> set (affaire_transitions f))"

definition affaire_allowed_targets_from :: "affaire_statut \<Rightarrow> affaire_statut list" where
  "affaire_allowed_targets_from f = affaire_transitions f"

datatype affaire_transition_kind = AF_start | AF_suspend | AF_resume | AF_close | AF_reopen | AF_cancel

definition affaire_classify_transition :: "affaire_statut \<Rightarrow> affaire_statut \<Rightarrow> affaire_transition_kind" where
  "affaire_classify_transition f t =
     (if t = AF_ANNULEE then AF_cancel
      else if t = AF_CLOTUREE then AF_close
      else if f = AF_CLOTUREE then AF_reopen
      else if t = AF_SUSPENDUE then AF_suspend
      else if f = AF_SUSPENDUE \<and> (t = AF_OUVERTE \<or> t = AF_EN_COURS) then AF_resume
      else AF_start)"

interpretation affaire: guarded_machine affaire_transitions "\<lambda>s. s = AF_ANNULEE"
    affaire_is_allowed_transition False
proof unfold_locales
  fix s t
  show "(s = AF_ANNULEE) = (affaire_transitions s = [])" by (cases s) simp_all
  show n: "s \<notin> set (affaire_transitions s)" for s by (cases s) simp_all
  show "affaire_is_allowed_transition s t = (False \<and> s = t \<or> t \<in> set (affaire_transitions s))"
    using n by (auto simp: affaire_is_allowed_transition_def)
qed

section \<open>Properties\<close>

text \<open>whatever sequence of statuses is requested, a works order that has been launched never
  returns to a status in which it may be edited freely, and a closed or cancelled one never
  changes.\<close>

theorem works_order_history:
  assumes "run_checked can_transition_of_statut s ts = Some u"
  shows "(is_of_prelaunch u \<longrightarrow> is_of_prelaunch s) \<and>
    (s = OF_CLOTURE \<or> s = OF_ANNULE \<longrightarrow> u = s) \<and>
    (u = OF_CLOTURE \<longrightarrow> s = OF_CLOTURE \<or> OF_TERMINE \<in> set (s # ts))"
proof -
  have "u = OF_CLOTURE \<Longrightarrow> s = OF_CLOTURE \<or> OF_TERMINE \<in> set (s # ts)"
    using assms
  proof (induction ts arbitrary: s)
    case (Cons t ts)
    then have c: "can_transition_of_statut s t" and i: "t = OF_CLOTURE \<or> OF_TERMINE \<in> set (t # ts)"
      by (auto split: if_splits)
    from i c show ?case by (cases s) (auto simp: can_transition_of_statut_def split: if_splits)
  qed simp
  then show ?thesis
    using launched_stays_launched [OF _ assms] works_order.terminal_run [OF _ assms] by blast
qed

theorem works_order_history_witness:
  "OF_TERMINE \<in> set [OF_BROUILLON, OF_PLANIFIE, OF_EN_COURS, OF_EN_PAUSE, OF_EN_COURS, OF_TERMINE, OF_CLOTURE]"
proof -
  have "run_checked can_transition_of_statut OF_BROUILLON
      [OF_PLANIFIE, OF_EN_COURS, OF_EN_PAUSE, OF_EN_COURS, OF_TERMINE, OF_CLOTURE] = Some OF_CLOTURE"
    by (simp add: step_simps)
  from works_order_history [OF this] show ?thesis by (metis of_statut.distinct(9))
qed

text \<open>the moves of a purchase order. A move back to the draft or out of the procurement flow
  always asks for a reason; statuses derived from receptions are entered only from a sent,
  acknowledged or partly received order; after a reception the order can no longer be
  cancelled, and the terminal statuses admit no move.\<close>

theorem purchase_order_moves:
  "(cf_is_allowed_transition f t \<longrightarrow>
     cf_transition_requires_motif (cf_classify_transition f t) =
       (t \<in> {CF_BROUILLON, CF_ANNULEE, CF_CLOTUREE})) \<and>
   (cf_is_allowed_transition f t \<and> cf_is_reception_derived_statut t \<longrightarrow>
     f \<in> {CF_ENVOYEE, CF_ACCUSE_RECU, CF_PARTIELLEMENT_RECUE}) \<and>
   (cf_is_reception_derived_statut f \<longrightarrow> \<not> reaches commande_fournisseur_transitions f CF_ANNULEE) \<and>
   (cf_is_terminal_statut f \<longrightarrow> \<not> cf_is_allowed_transition f t)"
proof -
  have "t \<noteq> CF_ANNULEE" if "reaches commande_fournisseur_transitions f t"
    "cf_is_reception_derived_statut f" for t
  proof -
    have "t \<in> {CF_PARTIELLEMENT_RECUE, CF_RECUE, CF_CLOTUREE}"
      using that(1) by (rule reaches_closed) (use that(2) in \<open>auto simp: step_simps\<close>)
    then show ?thesis by auto
  qed
  moreover have "cf_is_allowed_transition f t \<longrightarrow>
     cf_transition_requires_motif (cf_classify_transition f t) =
       (t \<in> {CF_BROUILLON, CF_ANNULEE, CF_CLOTUREE})"
    by (cases f; cases t; simp add: step_simps)
  moreover have "cf_is_allowed_transition f t \<and> cf_is_reception_derived_statut t \<longrightarrow>
     f \<in> {CF_ENVOYEE, CF_ACCUSE_RECU, CF_PARTIELLEMENT_RECUE}"
    by (cases f; cases t; simp add: step_simps)
  moreover have "cf_is_terminal_statut f \<longrightarrow> \<not> cf_is_allowed_transition f t"
    using purchase_order.terminal_iff by (auto simp: cf_is_allowed_transition_def)
  ultimately show ?thesis by blast
qed

theorem purchase_order_moves_witness:
  "cf_transition_requires_motif (cf_classify_transition CF_A_VALIDER CF_BROUILLON) \<and>
   \<not> reaches commande_fournisseur_transitions CF_RECUE CF_ANNULEE"
  using purchase_order_moves [of CF_A_VALIDER CF_BROUILLON] purchase_order_moves [of CF_RECUE CF_RECUE]
  by (simp add: step_simps)

end
