(* ===== verification/Canonical_Json.thy ===== *)
theory Canonical_Json
  imports Prelude
begin

text \<open>
  The canonical text of a payload: \<open>stableStringify\<close> of
  \<open>src/module/production/domain/production-execution.ts\<close>, whose SHA-256 is the fingerprint of
  an idempotent request.

  A payload is what \<open>typeof\<close> and \<open>Object.entries\<close> show of a value. A finite number is carried
  as the decimal text \<open>JSON.stringify\<close> gives it, so that no rounding of the model's own is
  involved; a number that is not finite is a constructor of its own. The members of an object
  are a list in any order; a JavaScript object has no key twice (\<open>wf_json\<close>).
\<close>

datatype json = JUndefined | JNull | JBool bool | JNum string | JNotFinite | JStr string
  | JArr "json list" | JObj "(string \<times> json) list"

section \<open>String literals\<close>

text \<open>The escapes of \<open>JSON.stringify\<close> within Latin-1.\<close>

abbreviation quote_char :: char where "quote_char \<equiv> CHR 0x22"
abbreviation backslash :: char where "backslash \<equiv> CHR 0x5C"

definition json_escapes :: "(char \<times> string) list" where
  "json_escapes =
     [(quote_char, [backslash, quote_char]), (backslash, [backslash, backslash]), (CHR 0x00, backslash # ''u0000''),
      (CHR 0x01, backslash # ''u0001''), (CHR 0x02, backslash # ''u0002''), (CHR 0x03, backslash # ''u0003''),
      (CHR 0x04, backslash # ''u0004''), (CHR 0x05, backslash # ''u0005''), (CHR 0x06, backslash # ''u0006''),
      (CHR 0x07, backslash # ''u0007''), (CHR 0x08, backslash # ''b''), (CHR 0x09, backslash # ''t''),
      (CHR 0x0A, backslash # ''n''), (CHR 0x0B, backslash # ''u000b''), (CHR 0x0C, backslash # ''f''),
      (CHR 0x0D, backslash # ''r''), (CHR 0x0E, backslash # ''u000e''), (CHR 0x0F, backslash # ''u000f''),
      (CHR 0x10, backslash # ''u0010''), (CHR 0x11, backslash # ''u0011''), (CHR 0x12, backslash # ''u0012''),
      (CHR 0x13, backslash # ''u0013''), (CHR 0x14, backslash # ''u0014''), (CHR 0x15, backslash # ''u0015''),
      (CHR 0x16, backslash # ''u0016''), (CHR 0x17, backslash # ''u0017''), (CHR 0x18, backslash # ''u0018''),
      (CHR 0x19, backslash # ''u0019''), (CHR 0x1A, backslash # ''u001a''), (CHR 0x1B, backslash # ''u001b''),
      (CHR 0x1C, backslash # ''u001c''), (CHR 0x1D, backslash # ''u001d''), (CHR 0x1E, backslash # ''u001e''),
      (CHR 0x1F, backslash # ''u001f'')]"

definition json_char :: "char \<Rightarrow> string" where
  "json_char c = (case map_of json_escapes c of Some e \<Rightarrow> e | None \<Rightarrow> [c])"

definition json_quote :: "string \<Rightarrow> string" where
  "json_quote s = quote_char # concat (map json_char s) @ [quote_char]"

section \<open>The canonical text\<close>

fun defined_member :: "string \<times> json \<Rightarrow> bool" where
  "defined_member (k, v) = (v \<noteq> JUndefined)"

lemma json_list_size [termination_simp]: "v \<in> set xs \<Longrightarrow> size v < Suc (size_list size xs)"
  by (simp add: size_list_estimation' less_Suc_eq_le)

lemma json_member_size [termination_simp]:
  "(k, v) \<in> set es \<Longrightarrow> size v < Suc (size_list (size_prod (\<lambda>_. 0) size) es)"
  using size_list_estimation [of "(k, v)" es "size v" "size_prod (\<lambda>_. 0) size"] by simp

fun stable_stringify :: "json \<Rightarrow> string" where
  "stable_stringify JUndefined = ''null''"
| "stable_stringify JNull = ''null''"
| "stable_stringify (JBool b) = (if b then ''true'' else ''false'')"
| "stable_stringify (JNum t) = t"
| "stable_stringify JNotFinite = ''null''"
| "stable_stringify (JStr s) = json_quote s"
| "stable_stringify (JArr xs) = ''['' @ js_join '','' (map stable_stringify xs) @ '']''"
| "stable_stringify (JObj es) =
     ''{'' @ js_join '','' (map (\<lambda>(k, v). json_quote k @ '':'' @ stable_stringify v)
              (sort_key fst (filter defined_member es))) @ ''}''"

text \<open>
  What the text keeps of a payload: members that are \<open>undefined\<close> are absent, the order of
  members does not matter, and \<open>undefined\<close> or a number that is not finite reads as \<open>null\<close>.
\<close>

fun normal :: "json \<Rightarrow> json" where
  "normal JUndefined = JNull"
| "normal JNotFinite = JNull"
| "normal (JArr xs) = JArr (map normal xs)"
| "normal (JObj es) = JObj (map (\<lambda>(k, v). (k, normal v)) (sort_key fst (filter defined_member es)))"
| "normal v = v"

definition number_char :: "char \<Rightarrow> bool" where
  "number_char c \<longleftrightarrow> c \<in> set ''0123456789+-.e''"

definition number_text :: "string \<Rightarrow> bool" where
  "number_text t \<longleftrightarrow> t \<noteq> [] \<and> list_all number_char t"

fun wf_json :: "json \<Rightarrow> bool" where
  "wf_json (JNum t) = number_text t"
| "wf_json (JArr xs) = list_all wf_json xs"
| "wf_json (JObj es) = (distinct (map fst es) \<and> list_all (\<lambda>(k, v). wf_json v) es)"
| "wf_json v = True"

section \<open>Reading a text back\<close>

text \<open>The length of an escape is determined by the letter that follows the backslash.\<close>

definition code_length :: "string \<Rightarrow> nat" where
  "code_length s = (if hd s \<noteq> backslash then 1 else if hd (tl s) = CHR ''u'' then 6 else 2)"

lemma json_escape_facts:
  assumes "map_of json_escapes c = Some e"
  shows "e \<noteq> []" "hd e = backslash" "length e = code_length e" "2 \<le> length e"
proof -
  have "list_all (\<lambda>(k, e). e \<noteq> [] \<and> hd e = backslash \<and> length e = code_length e \<and> 2 \<le> length e) json_escapes"
    by code_simp
  moreover have "(c, e) \<in> set json_escapes" using assms by (rule map_of_SomeD)
  ultimately show "e \<noteq> []" "hd e = backslash" "length e = code_length e" "2 \<le> length e"
    unfolding list_all_iff by auto
qed

lemma json_escape_inj:
  assumes "map_of json_escapes c = Some e" "map_of json_escapes d = Some e"
  shows "c = d"
proof -
  have "distinct (map snd json_escapes)" by code_simp
  then have "inj_on snd (set json_escapes)" by (simp add: distinct_map)
  from inj_onD [OF this _ map_of_SomeD [OF assms(1)] map_of_SomeD [OF assms(2)]]
  show ?thesis by simp
qed

lemma json_escape_marks:
  "map_of json_escapes quote_char \<noteq> None" "map_of json_escapes backslash \<noteq> None"
  by (simp_all add: json_escapes_def)

lemma json_char_facts: "json_char c \<noteq> []" "hd (json_char c) \<noteq> quote_char"
  using json_escape_marks(1) json_escape_facts(1,2) [of c]
  by (auto simp: json_char_def split: option.splits)

lemma code_length_append:
  "map_of json_escapes c = Some e \<Longrightarrow> code_length (e @ x) = length e"
  using json_escape_facts [of c e]
  by (cases e; cases "tl e") (auto simp: code_length_def)

lemma json_char_prefix_free:
  assumes "json_char c @ x = json_char d @ y"
  shows "c = d \<and> x = y"
proof (cases "map_of json_escapes c")
  case None
  then have "c \<noteq> backslash" using json_escape_marks(2) by auto
  moreover have "c # x = json_char d @ y" using assms None by (simp add: json_char_def)
  ultimately have "map_of json_escapes d = None"
    using json_escape_facts(1,2) [of d]
    by (auto simp: json_char_def hd_append dest: arg_cong [of _ _ hd] split: option.splits)
  with None assms show ?thesis by (simp add: json_char_def)
next
  case (Some e)
  have "map_of json_escapes d \<noteq> None"
  proof
    assume n: "map_of json_escapes d = None"
    then have "e @ x = d # y" using assms Some by (simp add: json_char_def)
    then have "d = backslash" using json_escape_facts(1,2) [OF Some] by (cases e) auto
    with n json_escape_marks(2) show False by simp
  qed
  then obtain f where f: "map_of json_escapes d = Some f" by auto
  have eq: "e @ x = f @ y" using assms Some f by (simp add: json_char_def)
  then have "length e = length f"
    using code_length_append [OF Some, of x] code_length_append [OF f, of y] by simp
  with eq have "e = f" "x = y" by auto
  then show ?thesis using json_escape_inj Some f by blast
qed

lemma json_char_quote: "json_char c @ x \<noteq> quote_char # y"
  using json_char_facts [of c] by (cases "json_char c") auto

lemma json_body_unique:
  "concat (map json_char s) @ quote_char # x = concat (map json_char t) @ quote_char # y \<Longrightarrow>
   s = t \<and> x = y"
proof (induction s arbitrary: t)
  case Nil
  then show ?case using json_char_quote by (cases t) (auto, metis)
next
  case (Cons c s)
  show ?case
  proof (cases t)
    case Nil
    then show ?thesis using Cons.prems json_char_quote by auto
  next
    case (Cons d u)
    then have "json_char c @ (concat (map json_char s) @ quote_char # x)
        = json_char d @ (concat (map json_char u) @ quote_char # y)"
      using Cons.prems by simp
    from json_char_prefix_free [OF this] Cons.IH Cons show ?thesis by blast
  qed
qed

lemma json_quote_unique:
  assumes "json_quote s @ x = json_quote t @ y"
  shows "s = t \<and> x = y"
proof -
  have "concat (map json_char s) @ quote_char # x = concat (map json_char t) @ quote_char # y"
    using assms by (simp add: json_quote_def)
  then show ?thesis by (rule json_body_unique)
qed

text \<open>A list between a bracket and its closing bracket \<open>c\<close>, with commas between the items.\<close>

definition stop :: "string \<Rightarrow> bool" where
  "stop x \<longleftrightarrow> x = [] \<or> hd x \<in> {CHR '','', CHR '']'', CHR ''}''}"

lemma stop_Cons [simp]: "stop (c # x) \<longleftrightarrow> c \<in> {CHR '','', CHR '']'', CHR ''}''}"
  by (simp add: stop_def)

lemma js_join_Cons: "js_join sep (a # as) = a @ (if as = [] then [] else sep @ js_join sep as)"
  by (cases as) simp_all

lemma items_unique:
  assumes "c \<in> {CHR '']'', CHR ''}''}"
    and "\<And>a. a \<in> set as \<Longrightarrow> f a \<noteq> [] \<and> hd (f a) \<noteq> c"
    and "\<And>b. b \<in> set bs \<Longrightarrow> f b \<noteq> [] \<and> hd (f b) \<noteq> c"
    and "\<And>a b x y. a \<in> set as \<Longrightarrow> b \<in> set bs \<Longrightarrow> stop x \<Longrightarrow> stop y \<Longrightarrow> f a @ x = f b @ y \<Longrightarrow> a = b \<and> x = y"
    and "js_join '','' (map f as) @ c # x = js_join '','' (map f bs) @ c # y"
  shows "as = bs \<and> x = y"
  using assms(2-5)
proof (induction as arbitrary: bs)
  case Nil
  show ?case
  proof (cases bs)
    case (Cons b bs')
    have "f b \<noteq> []" "hd (f b) \<noteq> c" using Nil.prems(2) [of b] Cons by simp_all
    with Nil.prems(4) Cons show ?thesis by (cases "f b") (auto simp: js_join_Cons)
  qed (use Nil.prems(4) in simp)
next
  case (Cons a as)
  show ?case
  proof (cases bs)
    case Nil
    have "f a \<noteq> []" "hd (f a) \<noteq> c" using Cons.prems(1) [of a] by simp_all
    with Cons.prems(4) Nil show ?thesis by (cases "f a") (auto simp: js_join_Cons)
  next
    case (Cons b bs')
    define rest where "rest z l = (if l = [] then c # z else '','' @ js_join '','' (map f l) @ c # z)" for z l
    have st: "stop (rest z l)" for z l using assms(1) by (auto simp: rest_def)
    have "f a @ rest x as = f b @ rest y bs'"
      using Cons.prems(4) Cons by (auto simp: rest_def js_join_Cons split: if_splits)
    then have ab: "a = b" "rest x as = rest y bs'"
      using Cons.prems(3) [of a b "rest x as" "rest y bs'"] st Cons by auto
    show ?thesis
    proof (cases "as = [] \<or> bs' = []")
      case True
      then show ?thesis using ab Cons assms(1) by (auto simp: rest_def split: if_splits)
    next
      case False
      then have "js_join '','' (map f as) @ c # x = js_join '','' (map f bs') @ c # y"
        using ab(2) by (simp add: rest_def)
      moreover have "f a' \<noteq> [] \<and> hd (f a') \<noteq> c" if "a' \<in> set as" for a' using Cons.prems(1) that by simp
      moreover have "f b' \<noteq> [] \<and> hd (f b') \<noteq> c" if "b' \<in> set bs'" for b' using Cons.prems(2) that Cons by simp
      moreover have "a' = b' \<and> x = y" if "a' \<in> set as" "b' \<in> set bs'" "stop x" "stop y" "f a' @ x = f b' @ y"
        for a' b' x y using Cons.prems(3) [of a' b' x y] that Cons by simp
      ultimately have "as = bs' \<and> x = y" using Cons.IH [of bs'] by blast
      with ab Cons show ?thesis by simp
    qed
  qed
qed

section \<open>The text determines the payload\<close>

text \<open>The text of a value in normal form, with neither filtering nor sorting.\<close>

fun put :: "json \<Rightarrow> string" where
  "put (JBool b) = (if b then ''true'' else ''false'')"
| "put (JNum t) = t"
| "put (JStr s) = json_quote s"
| "put (JArr xs) = ''['' @ js_join '','' (map put xs) @ '']''"
| "put (JObj es) = ''{'' @ js_join '','' (map (\<lambda>(k, v). json_quote k @ '':'' @ put v) es) @ ''}''"
| "put _ = ''null''"

fun clean :: "json \<Rightarrow> bool" where
  "clean JUndefined = False"
| "clean JNotFinite = False"
| "clean (JNum t) = number_text t"
| "clean (JArr xs) = list_all clean xs"
| "clean (JObj es) = list_all (\<lambda>(k, v). clean v) es"
| "clean _ = True"

lemma stable_stringify_put: "stable_stringify v = put (normal v)"
proof (induction v rule: stable_stringify.induct)
  case (7 xs)
  then show ?case by (simp add: comp_def cong: map_cong)
next
  case (8 es)
  have "map (\<lambda>(k, v). json_quote k @ '':'' @ stable_stringify v) (sort_key fst (filter defined_member es))
      = map (\<lambda>(k, v). json_quote k @ '':'' @ put (normal v)) (sort_key fst (filter defined_member es))"
    using 8 by (intro map_cong) auto
  then show ?case
    by (simp only: stable_stringify.simps normal.simps put.simps map_map comp_def case_prod_unfold
        fst_conv snd_conv)
qed auto

lemma clean_normal: "wf_json v \<Longrightarrow> clean (normal v)"
proof (induction v rule: normal.induct)
  case (3 xs)
  then show ?case by (auto simp: list_all_iff)
next
  case (4 es)
  then show ?case by (fastforce simp: list_all_iff)
qed auto

lemma number_head: "number_text t \<Longrightarrow> \<exists>c r. t = c # r \<and> number_char c"
  by (cases t) (auto simp: number_text_def)

lemma number_char_not:
  "number_char c \<Longrightarrow> c \<noteq> CHR '','' \<and> c \<noteq> CHR '']'' \<and> c \<noteq> CHR ''}'' \<and> c \<noteq> CHR ''['' \<and> c \<noteq> CHR ''{''
     \<and> c \<noteq> quote_char \<and> c \<noteq> CHR ''n'' \<and> c \<noteq> CHR ''t'' \<and> c \<noteq> CHR ''f''"
  by (auto simp: number_char_def)

text \<open>The first character tells the kind of a value.\<close>

fun kind_head :: "json \<Rightarrow> char \<Rightarrow> bool" where
  "kind_head (JBool b) c = (c = (if b then CHR ''t'' else CHR ''f''))"
| "kind_head (JNum t) c = number_char c"
| "kind_head (JStr s) c = (c = quote_char)"
| "kind_head (JArr xs) c = (c = CHR ''['')"
| "kind_head (JObj es) c = (c = CHR ''{'')"
| "kind_head _ c = (c = CHR ''n'')"

lemma put_kind_head: "clean v \<Longrightarrow> \<exists>c r. put v = c # r \<and> kind_head v c"
  using number_head by (cases v) (simp_all add: json_quote_def)

lemma kind_head_stop: "kind_head v c \<Longrightarrow> c \<noteq> CHR '','' \<and> c \<noteq> CHR '']'' \<and> c \<noteq> CHR ''}''"
  using number_char_not [of c] by (cases v) (simp_all split: if_splits)

lemma put_head: "clean v \<Longrightarrow> put v \<noteq> [] \<and> hd (put v) \<notin> {CHR '','', CHR '']'', CHR ''}''}"
  using put_kind_head kind_head_stop by fastforce

lemma number_unique:
  assumes "number_text t" "number_text u" "stop x" "stop y" "t @ x = u @ y"
  shows "t = u \<and> x = y"
proof -
  have "takeWhile number_char (t @ x) = t" if "number_text t" "stop x" for t x
    using that number_char_not by (cases x) (auto simp: number_text_def list_all_iff takeWhile_append)
  then have "t = u" using assms by metis
  with assms(5) show ?thesis by simp
qed

fun same_kind :: "json \<Rightarrow> json \<Rightarrow> bool" where
  "same_kind JNull w = (w = JNull)"
| "same_kind (JBool b) w = (w = JBool b)"
| "same_kind (JNum t) w = (\<exists>u. w = JNum u)"
| "same_kind (JStr s) w = (\<exists>u. w = JStr u)"
| "same_kind (JArr xs) w = (\<exists>u. w = JArr u)"
| "same_kind (JObj es) w = (\<exists>u. w = JObj u)"
| "same_kind _ _ = False"

lemma kind_head_same: "kind_head v c \<Longrightarrow> kind_head w c \<Longrightarrow> clean v \<Longrightarrow> clean w \<Longrightarrow> same_kind v w"
  using number_char_not [of c] by (cases v; cases w; simp split: if_splits)

lemma put_kind:
  assumes "clean v" "clean w" "put v @ x = put w @ y"
  shows "same_kind v w"
proof -
  obtain c r d u where "put v = c # r" "kind_head v c" "put w = d # u" "kind_head w d"
    using put_kind_head assms(1,2) by meson
  with assms kind_head_same show ?thesis by simp
qed

lemma put_unique:
  "clean v \<Longrightarrow> clean w \<Longrightarrow> stop x \<Longrightarrow> stop y \<Longrightarrow> put v @ x = put w @ y \<Longrightarrow> v = w \<and> x = y"
proof (induction v arbitrary: w x y rule: put.induct)
  case (1 b)
  then show ?case using put_kind [OF 1(1,2,5)] by auto
next
  case (2 t)
  obtain u where w: "w = JNum u" using put_kind [OF 2(1,2,5)] by auto
  have "t = u \<and> x = y" by (rule number_unique) (use 2 w in simp_all)
  with w show ?case by simp
next
  case (3 s)
  obtain u where w: "w = JStr u" using put_kind [OF 3(1,2,5)] by auto
  have "s = u \<and> x = y" by (rule json_quote_unique) (use 3(5) w in simp)
  with w show ?case by simp
next
  case (4 xs)
  obtain ys where w: "w = JArr ys" using put_kind [OF 4(2,3,6)] by auto
  have "xs = ys \<and> x = y"
  proof (rule items_unique [where c = "CHR '']''" and f = put])
    show "js_join '','' (map put xs) @ CHR '']'' # x = js_join '','' (map put ys) @ CHR '']'' # y"
      using 4 w by simp
    show "put a \<noteq> [] \<and> hd (put a) \<noteq> CHR '']''" if "a \<in> set xs" for a
      using put_head [of a] 4(2) that by (auto simp: list_all_iff)
    show "put b \<noteq> [] \<and> hd (put b) \<noteq> CHR '']''" if "b \<in> set ys" for b
      using put_head [of b] 4(3) w that by (auto simp: list_all_iff)
    show "a = b \<and> x = y" if "a \<in> set xs" "b \<in> set ys" "stop x" "stop y" "put a @ x = put b @ y" for a b x y
    proof -
      have "clean a" "clean b" using 4(2,3) w that(1,2) by (simp_all add: list_all_iff)
      from 4(1) [OF that(1) this that(3-5)] show ?thesis .
    qed
  qed simp
  with w show ?case by simp
next
  case (5 es)
  obtain fs where w: "w = JObj fs" using put_kind [OF 5(2,3,6)] by auto
  let ?f = "\<lambda>(k, v). json_quote k @ '':'' @ put v"
  have "es = fs \<and> x = y"
  proof (rule items_unique [where c = "CHR ''}''" and f = ?f])
    show "js_join '','' (map ?f es) @ CHR ''}'' # x = js_join '','' (map ?f fs) @ CHR ''}'' # y"
      using 5 w by simp
    show "a = b \<and> x = y" if "a \<in> set es" "b \<in> set fs" "stop x" "stop y" "?f a @ x = ?f b @ y" for a b x y
    proof -
      obtain k v l u where ab: "a = (k, v)" "b = (l, u)" by fastforce
      have "json_quote k @ '':'' @ put v @ x = json_quote l @ '':'' @ put u @ y" using that(5) ab by simp
      from json_quote_unique [OF this] have k: "k = l" "put v @ x = put u @ y" by auto
      have "clean v" "clean u" using 5(2,3) w that(1,2) ab by (fastforce simp: list_all_iff)+
      from 5(1) [OF that(1) ab(1) [symmetric] this that(3,4) k(2)] k ab show ?thesis by simp
    qed
  qed (auto simp: json_quote_def split: prod.splits)
  with w show ?case by simp
next
  case "6_1"
  then show ?case by simp
next
  case "6_2"
  then show ?case using put_kind [OF "6_2"(1,2,5)] by simp
next
  case "6_3"
  then show ?case by simp
qed

lemma stable_stringify_eq_iff:
  assumes "wf_json v" "wf_json w"
  shows "stable_stringify v = stable_stringify w \<longleftrightarrow> normal v = normal w"
  using put_unique [OF clean_normal [OF assms(1)] clean_normal [OF assms(2)], of "[]" "[]"]
  by (auto simp: stable_stringify_put stop_def)

text \<open>Two listings of the same members have the same normal form.\<close>

lemma normal_member_order:
  assumes "distinct (map fst es)" "set es = set fs" "distinct (map fst fs)"
  shows "normal (JObj es) = normal (JObj fs)"
proof -
  let ?e = "filter defined_member es" and ?f = "filter defined_member fs"
  have d: "distinct (map fst ?e)" "distinct (map fst ?f)"
    using assms by (simp_all add: distinct_map_filter)
  have s: "set ?e = set ?f" using assms(2) by simp
  have "sort_key fst ?e = sort_key fst ?f"
  proof (rule sym, rule map_sorted_distinct_set_unique [of fst])
    show "inj_on fst (set (sort_key fst ?f) \<union> set (sort_key fst ?e))"
      using d s by (simp add: distinct_map)
  qed (use d s in \<open>auto simp: distinct_map intro: inj_on_subset\<close>)
  then show ?thesis by simp
qed

end
