(* ===== verification/Js_Number.thy ===== *)
theory Js_Number
  imports Complex_Main
begin

text \<open>
  The numbers of the source language as the modelled code uses them: a finite value, the two
  infinities and \<open>NaN\<close>. Finite values are exact rationals: the rounding of the 64-bit format
  is not modelled, and minus zero is zero. Comparisons with \<open>NaN\<close> are false, as in the code.
\<close>

datatype jsnum = Fin rat | PInf | NInf | NaN

fun num_finite :: "jsnum \<Rightarrow> bool" where
  "num_finite (Fin _) = True"
| "num_finite _ = False"

fun num_le :: "jsnum \<Rightarrow> jsnum \<Rightarrow> bool" where
  "num_le NaN _ = False"
| "num_le _ NaN = False"
| "num_le NInf _ = True"
| "num_le _ PInf = True"
| "num_le (Fin a) (Fin b) = (a \<le> b)"
| "num_le (Fin _) NInf = False"
| "num_le PInf _ = False"

definition num_lt :: "jsnum \<Rightarrow> jsnum \<Rightarrow> bool" where
  "num_lt a b = (a \<noteq> NaN \<and> b \<noteq> NaN \<and> \<not> num_le b a)"

fun num_add :: "jsnum \<Rightarrow> jsnum \<Rightarrow> jsnum" where
  "num_add NaN _ = NaN"
| "num_add _ NaN = NaN"
| "num_add (Fin a) (Fin b) = Fin (a + b)"
| "num_add PInf NInf = NaN"
| "num_add NInf PInf = NaN"
| "num_add PInf _ = PInf"
| "num_add _ PInf = PInf"
| "num_add NInf _ = NInf"
| "num_add _ NInf = NInf"

fun num_neg :: "jsnum \<Rightarrow> jsnum" where
  "num_neg NaN = NaN"
| "num_neg (Fin a) = Fin (- a)"
| "num_neg PInf = NInf"
| "num_neg NInf = PInf"

definition num_sub :: "jsnum \<Rightarrow> jsnum \<Rightarrow> jsnum" where
  "num_sub a b = num_add a (num_neg b)"

text \<open>\<open>===\<close> on numbers: \<open>NaN\<close> is not equal to itself.\<close>

definition num_eq :: "jsnum \<Rightarrow> jsnum \<Rightarrow> bool" where
  "num_eq a b = (a = b \<and> a \<noteq> NaN)"

text \<open>\<open>Number.isInteger\<close>.\<close>

fun num_integer :: "jsnum \<Rightarrow> bool" where
  "num_integer (Fin a) = (of_int \<lfloor>a\<rfloor> = a)"
| "num_integer _ = False"

definition num_max :: "jsnum \<Rightarrow> jsnum \<Rightarrow> jsnum" where
  "num_max a b = (if a = NaN \<or> b = NaN then NaN else if num_le a b then b else a)"

definition num_min :: "jsnum \<Rightarrow> jsnum \<Rightarrow> jsnum" where
  "num_min a b = (if a = NaN \<or> b = NaN then NaN else if num_le a b then a else b)"

abbreviation num :: "int \<Rightarrow> jsnum" where "num n \<equiv> Fin (of_int n)"

lemma num_sub_Fin [simp]: "num_sub (Fin a) (Fin b) = Fin (a - b)"
  by (simp add: num_sub_def)

lemma num_max_Fin [simp]: "num_max (Fin a) (Fin b) = Fin (max a b)"
  by (simp add: num_max_def max_def)

lemma num_min_Fin [simp]: "num_min (Fin a) (Fin b) = Fin (min a b)"
  by (simp add: num_min_def min_def)

lemma num_lt_Fin [simp]: "num_lt (Fin a) (Fin b) = (a < b)"
  by (auto simp: num_lt_def)

lemma num_lt_NaN [simp]: "\<not> num_lt NaN b" "\<not> num_lt a NaN"
  by (simp_all add: num_lt_def)

lemma num_le_NaN [simp]: "\<not> num_le a NaN"
  by (cases a) simp_all

lemma num_eq_Fin [simp]: "num_eq (Fin a) (Fin b) = (a = b)"
  by (simp add: num_eq_def)

lemma num_finite_Fin: "num_finite x \<longleftrightarrow> (\<exists>a. x = Fin a)"
  by (cases x) simp_all

lemma num_not_le: "num_finite a \<Longrightarrow> num_finite b \<Longrightarrow> \<not> num_le a b \<longleftrightarrow> num_lt b a"
  by (auto simp: num_finite_Fin)

lemma num_add_finite: "num_finite (num_add a b) \<longleftrightarrow> num_finite a \<and> num_finite b"
  by (cases a; cases b) simp_all

end
