(* ===== verification/Station.thy ===== *)
theory Station
  imports Auth_Roles Js_Number
begin

text \<open>
  The operator's tablet, \<open>src/module/production/domain/station.ts\<close>: capabilities, the life
  cycle of devices and sessions, identification, the choice of a machine, handovers and the
  real-time rooms. The work list and the file shown to the operator are in
  \<open>Station_Worklist\<close>.

  A \<open>Date\<close> is its number of milliseconds. The keyed digest of the library is the parameter
  \<open>hmac\<close>.
\<close>

section \<open>Capabilities\<close>

datatype station_capability = SC_read_own_station | SC_open_session | SC_select_machine
  | SC_read_dossier | SC_handover_shift | SC_acknowledge_handover | SC_supervise_stations
  | SC_administer_devices | SC_administer_credentials | SC_audit_stations | SC_view_costs

definition STATION_CAPABILITIES :: "station_capability list" where
  "STATION_CAPABILITIES = [SC_read_own_station, SC_open_session, SC_select_machine,
     SC_read_dossier, SC_handover_shift, SC_acknowledge_handover, SC_supervise_stations,
     SC_administer_devices, SC_administer_credentials, SC_audit_stations, SC_view_costs]"

definition OPERATOR_NEEDLES :: "string list" where
  "OPERATOR_NEEDLES = [''operateur'', ''op'' @ e_acute # ''rateur'', ''usineur'', ''regleur'',
     ''r'' @ e_acute # ''gleur'', ''atelier'', ''production'']"

definition SUPERVISOR_NEEDLES :: "string list" where
  "SUPERVISOR_NEEDLES = [''admin'', ''administrateur'', ''directeur'', ''chef'', ''method'']"

fun station_needles :: "station_capability \<Rightarrow> string list" where
  "station_needles SC_read_own_station =
     OPERATOR_NEEDLES @ SUPERVISOR_NEEDLES @ [''qualit'', ''quality'', ''qse'', ''planif'']"
| "station_needles SC_open_session = OPERATOR_NEEDLES @ SUPERVISOR_NEEDLES"
| "station_needles SC_select_machine = OPERATOR_NEEDLES @ SUPERVISOR_NEEDLES"
| "station_needles SC_read_dossier =
     OPERATOR_NEEDLES @ SUPERVISOR_NEEDLES @ [''qualit'', ''quality'', ''qse'', ''method'']"
| "station_needles SC_handover_shift = OPERATOR_NEEDLES @ SUPERVISOR_NEEDLES"
| "station_needles SC_acknowledge_handover = OPERATOR_NEEDLES @ SUPERVISOR_NEEDLES"
| "station_needles SC_supervise_stations = SUPERVISOR_NEEDLES @ [''planif'', ''qualit'', ''quality'', ''qse'']"
| "station_needles SC_administer_devices = [''admin'', ''administrateur'', ''directeur'', ''method'']"
| "station_needles SC_administer_credentials = [''admin'', ''administrateur'', ''directeur'']"
| "station_needles SC_audit_stations = [''admin'', ''administrateur'', ''directeur'', ''qualit'', ''quality'', ''qse'']"
| "station_needles SC_view_costs = [''admin'', ''administrateur'', ''directeur'', ''compta'', ''controle'',
     ''contr'' @ o_circ # ''le'']"

definition role_has_station_capability :: "bool \<Rightarrow> string option \<Rightarrow> station_capability \<Rightarrow> bool" where
  "role_has_station_capability granted role capability =
     (if granted then True else needle_match (station_needles capability) role)"

definition list_station_capabilities :: "bool \<Rightarrow> string option \<Rightarrow> station_capability list" where
  "list_station_capabilities granted role =
     filter (role_has_station_capability granted role) STATION_CAPABILITIES"

definition assert_station_capability :: "bool \<Rightarrow> string option \<Rightarrow> station_capability \<Rightarrow> unit result" where
  "assert_station_capability granted role capability =
     ensure (role_has_station_capability granted role capability)
       (HttpError 403 ''STATION_CAPABILITY_REQUIRED'')"

lemma station_needles_ok: "needles_ok (station_needles c)"
proof -
  have "list_all (\<lambda>c. needles_ok (station_needles c)) STATION_CAPABILITIES"
    by code_simp
  then show ?thesis by (cases c) (simp_all add: STATION_CAPABILITIES_def)
qed

interpretation station: capability_policy role_has_station_capability
  by unfold_locales
    (simp_all add: role_has_station_capability_def needle_match_blank
      needle_match_widen [OF station_needles_ok])

section \<open>Devices\<close>

datatype device_status = DEV_ACTIVE | DEV_DISABLED | DEV_REVOKED

datatype device_assignment_mode = MODE_FIXED | MODE_MOBILE

fun device_transitions :: "device_status \<Rightarrow> device_status list" where
  "device_transitions DEV_ACTIVE = [DEV_DISABLED, DEV_REVOKED]"
| "device_transitions DEV_DISABLED = [DEV_ACTIVE, DEV_REVOKED]"
| "device_transitions DEV_REVOKED = []"

definition assert_device_transition :: "device_status \<Rightarrow> device_status \<Rightarrow> unit result" where
  "assert_device_transition f t =
     (if f = t then Inr ()
      else ensure (t \<in> set (device_transitions f)) (HttpError 409 ''STATION_DEVICE_TRANSITION_FORBIDDEN''))"

record device_state =
  dev_id :: string
  dev_public_code :: string
  dev_status :: device_status
  dev_assignment_mode :: device_assignment_mode
  dev_machine_id :: "string option"
  dev_auto_lock_seconds :: int
  dev_session_max_seconds :: int

definition assert_device_usable :: "device_state option \<Rightarrow> unit result" where
  "assert_device_usable device =
     (case device of
        None \<Rightarrow> Inl (HttpError 404 ''STATION_DEVICE_UNKNOWN'')
      | Some d \<Rightarrow>
          if dev_status d = DEV_REVOKED then Inl (HttpError 403 ''STATION_DEVICE_REVOKED'')
          else if dev_status d = DEV_DISABLED then Inl (HttpError 403 ''STATION_DEVICE_DISABLED'')
          else Inr ())"

interpretation device: guarded_machine device_transitions "\<lambda>s. s = DEV_REVOKED"
    "\<lambda>s t. is_ok (assert_device_transition s t)" True
proof unfold_locales
  fix s t
  show "(s = DEV_REVOKED) = (device_transitions s = [])" by (cases s) simp_all
  show "s \<notin> set (device_transitions s)" by (cases s) simp_all
  show "is_ok (assert_device_transition s t) = (True \<and> s = t \<or> t \<in> set (device_transitions s))"
    by (simp add: assert_device_transition_def)
qed

section \<open>Sessions\<close>

datatype session_state = SES_ACTIVE | SES_LOCKED | SES_CLOSED | SES_EXPIRED | SES_REVOKED

fun session_transitions :: "session_state \<Rightarrow> session_state list" where
  "session_transitions SES_ACTIVE = [SES_LOCKED, SES_CLOSED, SES_EXPIRED, SES_REVOKED]"
| "session_transitions SES_LOCKED = [SES_ACTIVE, SES_CLOSED, SES_EXPIRED, SES_REVOKED]"
| "session_transitions SES_CLOSED = []"
| "session_transitions SES_EXPIRED = []"
| "session_transitions SES_REVOKED = []"

definition assert_session_transition :: "session_state \<Rightarrow> session_state \<Rightarrow> unit result" where
  "assert_session_transition f t =
     ensure (t \<in> set (session_transitions f)) (HttpError 409 ''STATION_SESSION_TRANSITION_FORBIDDEN'')"

record station_session =
  ss_id :: string
  ss_device_id :: string
  ss_user_id :: int
  ss_machine_id :: "string option"
  ss_state :: session_state
  ss_expires_at :: int
  ss_last_activity_at :: int

datatype session_evaluation = USABLE | NOT_EXPIRED | NOT_IDLE_LOCK | NOT_LOCKED | NOT_CLOSED

text \<open>\<open>{ usable: true }\<close> is \<open>USABLE\<close>; the others are the reasons of a refusal.\<close>

definition evaluate_session :: "station_session \<Rightarrow> int \<Rightarrow> int \<Rightarrow> session_evaluation" where
  "evaluate_session session autoLockSeconds now =
     (if ss_state session = SES_CLOSED \<or> ss_state session = SES_EXPIRED \<or> ss_state session = SES_REVOKED
      then NOT_CLOSED
      else if ss_expires_at session \<le> now then NOT_EXPIRED
      else if ss_state session = SES_LOCKED then NOT_LOCKED
      else
        let idleMs = now - ss_last_activity_at session
        in if idleMs \<ge> autoLockSeconds * 1000 then NOT_IDLE_LOCK else USABLE)"

datatype operator_switch_decision = SWITCH_HANDOVER | SWITCH_PAUSE | SWITCH_SUPERVISOR_OVERRIDE

definition assert_operator_switch_decided ::
  "bool \<Rightarrow> bool \<Rightarrow> operator_switch_decision option \<Rightarrow> string option \<Rightarrow> unit result" where
  "assert_operator_switch_decided granted hasActiveExecution decision actorRole =
     (if \<not> hasActiveExecution then Inr ()
      else if decision = None then Inl (HttpError 409 ''STATION_ACTIVE_EXECUTION_REQUIRES_DECISION'')
      else if decision = Some SWITCH_SUPERVISOR_OVERRIDE
        \<and> \<not> role_has_station_capability granted actorRole SC_supervise_stations
      then Inl (HttpError 403 ''STATION_SUPERVISOR_REQUIRED'')
      else Inr ())"

interpretation session: guarded_machine session_transitions
    "\<lambda>s. s = SES_CLOSED \<or> s = SES_EXPIRED \<or> s = SES_REVOKED"
    "\<lambda>s t. is_ok (assert_session_transition s t)" False
proof unfold_locales
  fix s t
  show "(s = SES_CLOSED \<or> s = SES_EXPIRED \<or> s = SES_REVOKED) = (session_transitions s = [])"
    by (cases s) simp_all
  show "s \<notin> set (session_transitions s)" by (cases s) simp_all
  show "is_ok (assert_session_transition s t) = (False \<and> s = t \<or> t \<in> set (session_transitions s))"
    by (simp add: assert_session_transition_def)
qed

section \<open>Identification\<close>

definition fingerprint_credential ::
  "(string \<Rightarrow> string \<Rightarrow> string) \<Rightarrow> string \<Rightarrow> string \<Rightarrow> string result" where
  "fingerprint_credential hmac rawCredential pepper =
     (let value = js_trim rawCredential
      in if value = [] then Inl (HttpError 400 ''STATION_CREDENTIAL_EMPTY'')
         else if pepper = [] \<or> length pepper < 16
         then Inl (HttpError 500 ''STATION_BADGE_PEPPER_MISSING'')
         else Inr (hmac pepper value))"

text \<open>
  \<open>Buffer.from(text, "hex")\<close> decodes pairs of hexadecimal digits and stops before the first pair
  that is not one; \<open>timingSafeEqual\<close> throws on buffers of different lengths.
\<close>

definition hex_val :: "char \<Rightarrow> nat option" where
  "hex_val c =
     (let n = (of_char c :: nat)
      in if 48 \<le> n \<and> n \<le> 57 then Some (n - 48)
         else if 97 \<le> n \<and> n \<le> 102 then Some (n - 87)
         else if 65 \<le> n \<and> n \<le> 70 then Some (n - 55) else None)"

fun hex_bytes :: "string \<Rightarrow> nat list" where
  "hex_bytes (c # d # s) =
     (case (hex_val c, hex_val d) of (Some h, Some l) \<Rightarrow> (16 * h + l) # hex_bytes s | _ \<Rightarrow> [])"
| "hex_bytes _ = []"

definition timing_safe_equal :: "nat list \<Rightarrow> nat list \<Rightarrow> bool result" where
  "timing_safe_equal a b =
     (if length a \<noteq> length b then Inl (JsError ''RangeError'') else Inr (a = b))"

definition safe_equal_hex :: "string \<Rightarrow> string \<Rightarrow> bool" where
  "safe_equal_hex a b =
     (if length a \<noteq> length b then False
      else case timing_safe_equal (hex_bytes a) (hex_bytes b) of Inl _ \<Rightarrow> False | Inr r \<Rightarrow> r)"

definition BADGE_MAX_FAILED_ATTEMPTS :: int where "BADGE_MAX_FAILED_ATTEMPTS = 5"
definition BADGE_LOCK_SECONDS :: int where "BADGE_LOCK_SECONDS = 300"
definition QR_NONCE_WINDOW_SECONDS :: int where "QR_NONCE_WINDOW_SECONDS = 60"

definition assert_credential_not_locked :: "int option \<Rightarrow> int \<Rightarrow> unit result" where
  "assert_credential_not_locked locked_until now =
     ensure (\<not> (\<exists>t \<in> set_option locked_until. t > now)) (HttpError 429 ''STATION_CREDENTIAL_LOCKED'')"

text \<open>The age in seconds is a quotient by 1000; the bounds are compared in milliseconds.\<close>

definition assert_nonce_fresh :: "int \<Rightarrow> int \<Rightarrow> bool \<Rightarrow> unit result" where
  "assert_nonce_fresh issuedAt now seenBefore =
     (if seenBefore then Inl (HttpError 409 ''STATION_CREDENTIAL_REPLAYED'')
      else
        let ageMs = now - issuedAt
        in if ageMs < - 5 * 1000 \<or> ageMs > QR_NONCE_WINDOW_SECONDS * 1000
           then Inl (HttpError 409 ''STATION_CREDENTIAL_EXPIRED'') else Inr ())"

section \<open>Machines\<close>

record machine_candidate =
  mc_id :: string
  mc_code :: string
  mc_name :: string
  mc_status :: "string option"
  mc_is_available :: bool
  mc_workshop_zone :: "string option"
  mc_archived_at :: "int option"
  mc_active_operator_user_id :: "int option"
  mc_active_of_numero :: "string option"

datatype machine_reason = MR_OK | MR_ARCHIVED | MR_INACTIVE | MR_UNAVAILABLE | MR_BUSY | MR_OUT_OF_ZONE

record machine_selectability =
  ms_machine_id :: string
  ms_selectable :: bool
  ms_reason_code :: machine_reason
  ms_busy_by_other :: bool

definition evaluate_machine_selectability ::
  "machine_candidate \<Rightarrow> int \<Rightarrow> string option \<Rightarrow> bool \<Rightarrow> machine_selectability" where
  "evaluate_machine_selectability machine actorUserId deviceZone enforceZone =
     (let refuse = (\<lambda>code. \<lparr>ms_machine_id = mc_id machine, ms_selectable = False,
            ms_reason_code = code, ms_busy_by_other = False\<rparr>)
      in if mc_archived_at machine \<noteq> None then refuse MR_ARCHIVED
         else if js_upper (or_empty (mc_status machine)) \<noteq> ''ACTIVE'' then refuse MR_INACTIVE
         else if \<not> mc_is_available machine then refuse MR_UNAVAILABLE
         else if enforceZone \<and> truthy deviceZone \<and> truthy (mc_workshop_zone machine)
           \<and> mc_workshop_zone machine \<noteq> deviceZone then refuse MR_OUT_OF_ZONE
         else if mc_active_operator_user_id machine \<noteq> None
           \<and> mc_active_operator_user_id machine \<noteq> Some actorUserId
         then \<lparr>ms_machine_id = mc_id machine, ms_selectable = False,
               ms_reason_code = MR_BUSY, ms_busy_by_other = True\<rparr>
         else \<lparr>ms_machine_id = mc_id machine, ms_selectable = True,
               ms_reason_code = MR_OK, ms_busy_by_other = False\<rparr>)"

section \<open>Handover and ownership\<close>

datatype handover_machine_state = HM_RUNNING | HM_STOPPED | HM_SETUP | HM_FAULT | HM_MAINTENANCE | HM_UNKNOWN

definition assert_handover_parties :: "int \<Rightarrow> int \<Rightarrow> unit result" where
  "assert_handover_parties outgoingUserId incomingUserId =
     ensure (outgoingUserId \<noteq> incomingUserId) (HttpError 400 ''STATION_HANDOVER_SAME_USER'')"

definition assert_handover_acknowledgeable ::
  "bool \<Rightarrow> int \<Rightarrow> int \<Rightarrow> string option \<Rightarrow> int option \<Rightarrow> unit result" where
  "assert_handover_acknowledgeable granted incomingUserId actorUserId actorRole alreadyAcknowledgedAt =
     (if alreadyAcknowledgedAt \<noteq> None then Inl (HttpError 409 ''STATION_HANDOVER_ALREADY_ACKNOWLEDGED'')
      else if actorUserId = incomingUserId then Inr ()
      else if role_has_station_capability granted actorRole SC_supervise_stations then Inr ()
      else Inl (HttpError 403 ''STATION_HANDOVER_NOT_ADDRESSEE''))"

definition assert_own_session_or_supervision :: "bool \<Rightarrow> int \<Rightarrow> string option \<Rightarrow> int \<Rightarrow> unit result" where
  "assert_own_session_or_supervision granted actorUserId actorRole sessionUserId =
     (if actorUserId = sessionUserId then Inr ()
      else if role_has_station_capability granted actorRole SC_supervise_stations then Inr ()
      else Inl (HttpError 403 ''STATION_FOREIGN_SESSION''))"

section \<open>Rooms\<close>

text \<open>
  The number of a room is read exactly; the code's \<open>Number\<close> agrees up to \<open>2 ^ 53\<close>, far above
  the identifiers the database issues.
\<close>

datatype station_room = RoomUser nat | RoomMachine string | RoomOf nat | RoomStation string

definition strip_prefix :: "string \<Rightarrow> string \<Rightarrow> string option" where
  "strip_prefix p s = (if take (length p) s = p then Some (drop (length p) s) else None)"

definition all_digits :: "string \<Rightarrow> bool" where
  "all_digits s \<longleftrightarrow> s \<noteq> [] \<and> list_all is_digit s"

definition uuid_like :: "string \<Rightarrow> bool" where
  "uuid_like s \<longleftrightarrow> length s = 36 \<and> list_all (\<lambda>c. hex_val c \<noteq> None \<or> c = CHR ''-'') s"

text \<open>One entry of \<open>ROOM_PATTERNS\<close>: a prefix, the shape of the rest and the room it builds.\<close>

definition match_room ::
  "string \<Rightarrow> (string \<Rightarrow> bool) \<Rightarrow> (string \<Rightarrow> station_room) \<Rightarrow> string \<Rightarrow> station_room option" where
  "match_room p shape build room =
     (case strip_prefix p room of Some r \<Rightarrow> if shape r then Some (build r) else None | None \<Rightarrow> None)"

definition ROOM_PATTERNS :: "(string \<Rightarrow> station_room option) list" where
  "ROOM_PATTERNS =
     [match_room ''USER:'' all_digits (\<lambda>r. RoomUser (read_nat r)),
      match_room ''MACHINE:'' uuid_like RoomMachine,
      match_room ''OF:'' all_digits (\<lambda>r. RoomOf (read_nat r)),
      match_room ''STATION:'' uuid_like RoomStation]"

fun first_some :: "('a \<Rightarrow> 'b option) list \<Rightarrow> 'a \<Rightarrow> 'b option" where
  "first_some [] x = None"
| "first_some (f # fs) x = (case f x of None \<Rightarrow> first_some fs x | Some y \<Rightarrow> Some y)"

definition parse_station_room :: "string \<Rightarrow> station_room option" where
  "parse_station_room room = first_some ROOM_PATTERNS room"

definition can_subscribe_station_room ::
  "bool \<Rightarrow> station_room \<Rightarrow> nat \<Rightarrow> string option \<Rightarrow> string list \<Rightarrow> nat list \<Rightarrow> string list \<Rightarrow> bool" where
  "can_subscribe_station_room granted room actorUserId actorRole ownMachineIds ownOfIds ownDeviceIds =
     (case room of
        RoomUser userId \<Rightarrow> userId = actorUserId
      | RoomMachine machineId \<Rightarrow>
          if \<not> role_has_station_capability granted actorRole SC_read_own_station then False
          else if machineId \<in> set ownMachineIds then True
          else role_has_station_capability granted actorRole SC_supervise_stations
      | RoomOf ofId \<Rightarrow>
          if \<not> role_has_station_capability granted actorRole SC_read_own_station then False
          else if ofId \<in> set ownOfIds then True
          else role_has_station_capability granted actorRole SC_supervise_stations
      | RoomStation deviceId \<Rightarrow>
          if deviceId \<in> set ownDeviceIds then True
          else role_has_station_capability granted actorRole SC_supervise_stations)"

text \<open>The name the server gives a room.\<close>

fun station_room_name :: "station_room \<Rightarrow> string" where
  "station_room_name (RoomUser n) = ''USER:'' @ show_nat n"
| "station_room_name (RoomMachine m) = ''MACHINE:'' @ m"
| "station_room_name (RoomOf n) = ''OF:'' @ show_nat n"
| "station_room_name (RoomStation d) = ''STATION:'' @ d"

fun room_ok :: "station_room \<Rightarrow> bool" where
  "room_ok (RoomMachine m) = uuid_like m"
| "room_ok (RoomStation d) = uuid_like d"
| "room_ok _ = True"

lemma all_digits_show_nat [simp]: "all_digits (show_nat n)"
  using show_nat_digits by (auto simp: all_digits_def list_all_iff)

interpretation station_rooms: name_codec station_room_name parse_station_room room_ok
proof unfold_locales
  fix r
  show "room_ok r \<Longrightarrow> parse_station_room (station_room_name r) = Some r"
    by (cases r) (simp_all add: parse_station_room_def ROOM_PATTERNS_def match_room_def strip_prefix_def)
qed

section \<open>Properties\<close>

text \<open>a session is usable exactly while it is active, not past its expiry and not idle for the
  locking delay, by the server's clock; without activity it never becomes usable again, and no
  sequence of checked transitions revives a closed, expired or revoked session.\<close>

theorem session_usable_window:
  "(evaluate_session s k now = USABLE \<longleftrightarrow>
      ss_state s = SES_ACTIVE \<and> now < ss_expires_at s \<and> now < ss_last_activity_at s + k * 1000) \<and>
   (evaluate_session s k now \<noteq> USABLE \<and> now \<le> later \<longrightarrow> evaluate_session s k later \<noteq> USABLE) \<and>
   (evaluate_session s k now = NOT_CLOSED \<and>
      run_checked (\<lambda>s t. is_ok (assert_session_transition s t)) (ss_state s) ts = Some u \<longrightarrow> u = ss_state s)"
proof -
  have iff: "evaluate_session s k n = USABLE \<longleftrightarrow>
      ss_state s = SES_ACTIVE \<and> n < ss_expires_at s \<and> n < ss_last_activity_at s + k * 1000" for n
    by (cases "ss_state s") (auto simp: evaluate_session_def Let_def)
  have "ss_state s = SES_CLOSED \<or> ss_state s = SES_EXPIRED \<or> ss_state s = SES_REVOKED"
    if "evaluate_session s k now = NOT_CLOSED"
    using that by (auto simp: evaluate_session_def Let_def split: if_splits)
  then show ?thesis using iff session.terminal_run by fastforce
qed

definition sample_session :: station_session where
  "sample_session = \<lparr>ss_id = ''s'', ss_device_id = ''d'', ss_user_id = 7, ss_machine_id = None,
     ss_state = SES_ACTIVE, ss_expires_at = 28800000, ss_last_activity_at = 0\<rparr>"

theorem session_usable_window_witness:
  "evaluate_session sample_session 300 299999 = USABLE \<and> evaluate_session sample_session 300 400000 \<noteq> USABLE"
  using session_usable_window [of sample_session 300 300000 400000]
    session_usable_window [of sample_session 300 299999]
  by (simp add: sample_session_def)

text \<open>on digests (lower-case hexadecimal texts of even length) the constant-time comparison is
  equality.\<close>

definition lower_hex :: "string \<Rightarrow> bool" where
  "lower_hex s \<longleftrightarrow> list_all (\<lambda>c. c \<in> set ''0123456789abcdef'') s"

lemma hex_val_digit:
  assumes "c \<in> set ''0123456789abcdef''"
  shows "\<exists>v < 16. hex_val c = Some v \<and> ''0123456789abcdef'' ! v = c"
proof -
  have "list_all (\<lambda>c. case hex_val c of Some v \<Rightarrow> v < 16 \<and> ''0123456789abcdef'' ! v = c | None \<Rightarrow> False)
      ''0123456789abcdef''" by code_simp
  then show ?thesis using assms unfolding list_all_iff by (fastforce split: option.splits)
qed

lemma hex_bytes_inj:
  "lower_hex a \<Longrightarrow> lower_hex b \<Longrightarrow> length a = length b \<Longrightarrow> even (length a) \<Longrightarrow>
   hex_bytes a = hex_bytes b \<longleftrightarrow> a = b"
proof (induction a arbitrary: b rule: hex_bytes.induct)
  case (1 c d s)
  then obtain e f t where b: "b = e # f # t" by (metis Suc_length_conv length_Cons)
  have hs: "c \<in> set ''0123456789abcdef''" "d \<in> set ''0123456789abcdef''"
    "e \<in> set ''0123456789abcdef''" "f \<in> set ''0123456789abcdef''"
    using 1(2,3) b by (auto simp: lower_hex_def)
  note hv = hs [THEN hex_val_digit]
  obtain h where v1: "h < 16" "hex_val c = Some h" "''0123456789abcdef'' ! h = c"
    using hv(1) by (elim exE conjE)
  obtain l where v2: "l < 16" "hex_val d = Some l" "''0123456789abcdef'' ! l = d"
    using hv(2) by (elim exE conjE)
  obtain h' where v3: "h' < 16" "hex_val e = Some h'" "''0123456789abcdef'' ! h' = e"
    using hv(3) by (elim exE conjE)
  obtain l' where v4: "l' < 16" "hex_val f = Some l'" "''0123456789abcdef'' ! l' = f"
    using hv(4) by (elim exE conjE)
  note v = v1(1,2) v2(1,2) v3(1,2) v4(1,2)
  have "16 * h + l = 16 * h' + l' \<longleftrightarrow> h = h' \<and> l = l'"
  proof
    assume e: "16 * h + l = 16 * h' + l'"
    have "(16 * h + l) div 16 = h" "(16 * h' + l') div 16 = h'" using v2(1) v4(1) by simp_all
    with e show "h = h' \<and> l = l'" by simp
  qed simp
  moreover have "hex_bytes s = hex_bytes t \<longleftrightarrow> s = t"
    using 1 b v by (simp add: lower_hex_def)
  moreover have "h = h' \<longleftrightarrow> c = e" using v1(2,3) v3(2,3) by (metis option.inject)
  moreover have "l = l' \<longleftrightarrow> d = f" using v2(2,3) v4(2,3) by (metis option.inject)
  ultimately show ?case using b v by simp
qed auto

lemma hex_bytes_length: "lower_hex a \<Longrightarrow> 2 * length (hex_bytes a) = length a - length a mod 2"
proof (induction a rule: hex_bytes.induct)
  case (1 c d s)
  have "c \<in> set ''0123456789abcdef''" "d \<in> set ''0123456789abcdef''"
    using 1(2) by (auto simp: lower_hex_def)
  then obtain h l where "hex_val c = Some h" "hex_val d = Some l"
    using hex_val_digit by meson
  with 1 show ?case by (simp add: lower_hex_def)
qed simp_all

theorem safe_equal_hex_digests:
  assumes "lower_hex a" "lower_hex b" "even (length a)"
  shows "safe_equal_hex a b \<longleftrightarrow> a = b"
proof (cases "length a = length b")
  case True
  then have "length (hex_bytes a) = length (hex_bytes b)"
    using hex_bytes_length [OF assms(1)] hex_bytes_length [OF assms(2)] by simp
  then show ?thesis
    using hex_bytes_inj [OF assms(1,2) True assms(3)] True
    by (simp add: safe_equal_hex_def timing_safe_equal_def)
qed (auto simp: safe_equal_hex_def)

theorem safe_equal_hex_digests_witness: "\<not> safe_equal_hex ''00ff'' ''00fe''"
  by (subst safe_equal_hex_digests) (simp_all add: lower_hex_def)

text \<open>Two texts of the same length that are not hexadecimal are taken for equal.\<close>

lemma safe_equal_hex_not_hex: "safe_equal_hex ''zz'' ''yy''"
  by code_simp

text \<open>the rooms of the server's own names are recognised and told apart, and the room of a user is
  open to that user only, whatever the grants; the rooms of machines and works orders are open
  to their current operators who may read a station and to supervisors.\<close>

lemma supervise_reads:
  "role_has_station_capability g r SC_supervise_stations \<Longrightarrow>
   role_has_station_capability g r SC_read_own_station"
proof -
  have "set (station_needles SC_supervise_stations) \<subseteq> set (station_needles SC_read_own_station)" by auto
  then show "role_has_station_capability g r SC_supervise_stations \<Longrightarrow> ?thesis"
    unfolding role_has_station_capability_def needle_match_def Let_def by (metis subsetD)
qed

theorem station_room_access:
  assumes "room_ok room"
  shows "parse_station_room (station_room_name room) = Some room \<and>
    (can_subscribe_station_room g room user r machines ofs devices \<longleftrightarrow>
      (case room of
         RoomUser u \<Rightarrow> u = user
       | RoomMachine m \<Rightarrow> m \<in> set machines \<and> role_has_station_capability g r SC_read_own_station
           \<or> role_has_station_capability g r SC_supervise_stations
       | RoomOf n \<Rightarrow> n \<in> set ofs \<and> role_has_station_capability g r SC_read_own_station
           \<or> role_has_station_capability g r SC_supervise_stations
       | RoomStation d \<Rightarrow> d \<in> set devices \<or> role_has_station_capability g r SC_supervise_stations))"
  using station_rooms.dec_enc [OF assms] supervise_reads [of g r]
  by (cases room) (auto simp: can_subscribe_station_room_def)

theorem station_room_access_witness:
  "parse_station_room ''USER:42'' = Some (RoomUser 42) \<and>
   \<not> can_subscribe_station_room True (RoomUser 42) 41 (Some ''Directeur'') [] [] []"
proof -
  have "station_room_name (RoomUser 42) = ''USER:42''" by (simp add: show_nat.simps digit_chars)
  with station_room_access [of "RoomUser 42" True 41 "Some ''Directeur''" "[]" "[]" "[]"]
  show ?thesis by simp
qed

text \<open>a machine may be chosen exactly when it is not archived, active, available, in the zone
  where zones are enforced and not in use by someone else; it is reported as busy only when all
  other conditions hold.\<close>

theorem machine_selectable_iff:
  "(ms_selectable (evaluate_machine_selectability m user zone enforce) \<longleftrightarrow>
      mc_archived_at m = None \<and> js_upper (or_empty (mc_status m)) = ''ACTIVE'' \<and> mc_is_available m \<and>
      (enforce \<and> truthy zone \<and> truthy (mc_workshop_zone m) \<longrightarrow> mc_workshop_zone m = zone) \<and>
      (mc_active_operator_user_id m = None \<or> mc_active_operator_user_id m = Some user)) \<and>
   (ms_busy_by_other (evaluate_machine_selectability m user zone enforce) \<longleftrightarrow>
      \<not> ms_selectable (evaluate_machine_selectability m user zone enforce) \<and>
      ms_selectable (evaluate_machine_selectability (m\<lparr>mc_active_operator_user_id := None\<rparr>) user zone enforce))"
  by (auto simp: evaluate_machine_selectability_def Let_def)

definition sample_machine :: machine_candidate where
  "sample_machine = \<lparr>mc_id = ''m'', mc_code = ''F1'', mc_name = ''Fraiseuse'', mc_status = Some ''active'',
     mc_is_available = True, mc_workshop_zone = Some ''A'', mc_archived_at = None,
     mc_active_operator_user_id = Some 7, mc_active_of_numero = None\<rparr>"

theorem machine_selectable_iff_witness:
  "ms_busy_by_other (evaluate_machine_selectability sample_machine 8 (Some ''A'') True)"
proof -
  have "js_upper ''active'' = ''ACTIVE''" by code_simp
  with machine_selectable_iff [of sample_machine 8 "Some ''A''" True]
    machine_selectable_iff [of "sample_machine\<lparr>mc_active_operator_user_id := None\<rparr>" 8 "Some ''A''" True]
  show ?thesis by (simp add: sample_machine_def)
qed

end
