(* ===== verification/Station_Worklist.thy ===== *)
theory Station_Worklist
  imports Station Canonical_Json Order_Lifecycles "HOL-Library.Product_Lexorder"
begin

text \<open>
  The work list of the operator's tablet and the file it shows,
  \<open>src/module/production/domain/station.ts\<close>: why an operation is proposed, the order of the
  list, the plan of the frozen revision, and the fields that are never shown or logged.
  The French labels are presentation; a reason is its code and its severity.
\<close>

section \<open>Readiness of an operation\<close>

datatype readiness_level = LV_READY | LV_INCOMPLETE | LV_AWAITING_CONTROL | LV_BLOCKED

fun readiness_rank :: "readiness_level \<Rightarrow> nat" where
  "readiness_rank LV_READY = 0"
| "readiness_rank LV_INCOMPLETE = 1"
| "readiness_rank LV_AWAITING_CONTROL = 2"
| "readiness_rank LV_BLOCKED = 3"

lemma readiness_rank_inj: "readiness_rank a = readiness_rank b \<longleftrightarrow> a = b"
  by (cases a; cases b) simp_all

instantiation readiness_level :: linorder
begin

definition less_eq_readiness_level :: "readiness_level \<Rightarrow> readiness_level \<Rightarrow> bool" where
  "less_eq_readiness_level a b = (readiness_rank a \<le> readiness_rank b)"

definition less_readiness_level :: "readiness_level \<Rightarrow> readiness_level \<Rightarrow> bool" where
  "less_readiness_level a b = (readiness_rank a < readiness_rank b)"

instance
  by standard (auto simp: less_eq_readiness_level_def less_readiness_level_def readiness_rank_inj)

end

record worklist_signals =
  ws_of_statut :: "string option"
  ws_operation_status :: "string option"
  ws_has_pending_predecessor :: bool
  ws_has_active_execution_by_other :: bool
  ws_machine_matches :: bool
  ws_machine_available :: bool
  ws_has_technical_snapshot :: bool
  ws_has_plan_document :: bool
  ws_first_article_pending :: bool
  ws_qty_pending_control :: jsnum
  ws_remaining_quantity :: jsnum

datatype reason_severity = SEV_BLOCKING | SEV_WARNING | SEV_INFO

datatype readiness_reason = RR_OF_NOT_LAUNCHED | RR_OPERATION_CLOSED | RR_ALREADY_RUNNING
  | RR_MACHINE_UNAVAILABLE | RR_NO_TECHNICAL_SNAPSHOT | RR_FIRST_ARTICLE_REQUIRED
  | RR_PREDECESSOR_PENDING | RR_NO_PLAN_DOCUMENT | RR_MACHINE_MISMATCH | RR_QTY_AWAITING_CONTROL
  | RR_NOTHING_REMAINING

record readiness_assessment =
  ra_level :: readiness_level
  ra_reasons :: "(readiness_reason \<times> reason_severity) list"
  ra_headline :: "readiness_reason option"

definition OF_BLOCKING_STATUSES :: "string list" where
  "OF_BLOCKING_STATUSES = [''ANNULE'', ''ANNUL'' @ [E_acute], ''TERMINE'', ''TERMIN'' @ [E_acute],
     ''SUSPENDU'', ''BROUILLON'']"

definition readiness_reasons :: "worklist_signals \<Rightarrow> (readiness_reason \<times> reason_severity) list" where
  "readiness_reasons signals =
     (let statut = js_upper (or_empty (ws_of_statut signals));
          opStatus = js_upper (or_empty (ws_operation_status signals))
      in (if statut \<in> set OF_BLOCKING_STATUSES then [(RR_OF_NOT_LAUNCHED, SEV_BLOCKING)] else [])
       @ (if opStatus = ''DONE'' \<or> opStatus = ''CANCELLED'' then [(RR_OPERATION_CLOSED, SEV_BLOCKING)] else [])
       @ (if ws_has_active_execution_by_other signals then [(RR_ALREADY_RUNNING, SEV_BLOCKING)] else [])
       @ (if \<not> ws_machine_available signals then [(RR_MACHINE_UNAVAILABLE, SEV_BLOCKING)] else [])
       @ (if \<not> ws_has_technical_snapshot signals then [(RR_NO_TECHNICAL_SNAPSHOT, SEV_BLOCKING)] else [])
       @ (if ws_first_article_pending signals then [(RR_FIRST_ARTICLE_REQUIRED, SEV_BLOCKING)] else [])
       @ (if ws_has_pending_predecessor signals then [(RR_PREDECESSOR_PENDING, SEV_WARNING)] else [])
       @ (if \<not> ws_has_plan_document signals then [(RR_NO_PLAN_DOCUMENT, SEV_WARNING)] else [])
       @ (if \<not> ws_machine_matches signals then [(RR_MACHINE_MISMATCH, SEV_WARNING)] else [])
       @ (if num_lt (num 0) (ws_qty_pending_control signals) then [(RR_QTY_AWAITING_CONTROL, SEV_INFO)] else [])
       @ (if num_le (ws_remaining_quantity signals) (num 0) then [(RR_NOTHING_REMAINING, SEV_WARNING)] else []))"

text \<open>\<open>reasons.find(...)?.label\<close>; \<open>None\<close> stands for the sentence of an operation that is ready.\<close>

definition first_of_severity ::
  "reason_severity \<Rightarrow> (readiness_reason \<times> reason_severity) list \<Rightarrow> readiness_reason option" where
  "first_of_severity sev reasons = map_option fst (find (\<lambda>r. snd r = sev) reasons)"

definition assess_operation_readiness :: "worklist_signals \<Rightarrow> readiness_assessment" where
  "assess_operation_readiness signals =
     (let reasons = readiness_reasons signals;
          hasBlocking = (\<exists>r \<in> set reasons. snd r = SEV_BLOCKING);
          hasWarning = (\<exists>r \<in> set reasons. snd r = SEV_WARNING);
          level =
            (if hasBlocking then
               (if ws_first_article_pending signals
                   \<and> list_all (\<lambda>r. fst r = RR_FIRST_ARTICLE_REQUIRED) reasons
                then LV_AWAITING_CONTROL else LV_BLOCKED)
             else if hasWarning then LV_INCOMPLETE
             else LV_READY);
          headline = (case first_of_severity SEV_BLOCKING reasons of
              Some c \<Rightarrow> Some c | None \<Rightarrow> first_of_severity SEV_WARNING reasons)
      in \<lparr>ra_level = level, ra_reasons = reasons, ra_headline = headline\<rparr>)"

section \<open>The order of the list\<close>

record worklist_entry =
  we_readiness :: readiness_level
  we_due_date :: "string option"
  we_phase :: int
  we_mine :: bool
  we_pending_entry :: bool

definition queue_rank :: "worklist_entry \<Rightarrow> int" where
  "queue_rank item =
     (if we_mine item then 0
      else if we_readiness item = LV_READY then 1
      else if we_pending_entry item then 2
      else 3)"

definition due_time :: "(string \<Rightarrow> int option) \<Rightarrow> worklist_entry \<Rightarrow> jsnum" where
  "due_time parse_date item =
     (if truthy (we_due_date item)
      then (case parse_date (or_empty (we_due_date item)) of None \<Rightarrow> NaN | Some ms \<Rightarrow> num ms)
      else PInf)"

definition compare_worklist_entries ::
  "(string \<Rightarrow> int option) \<Rightarrow> worklist_entry \<Rightarrow> worklist_entry \<Rightarrow> jsnum" where
  "compare_worklist_entries parse_date a b =
     (let byQueue = queue_rank a - queue_rank b
      in if byQueue \<noteq> 0 then num byQueue
         else
           let byReadiness = int (readiness_rank (we_readiness a)) - int (readiness_rank (we_readiness b))
           in if byReadiness \<noteq> 0 then num byReadiness
              else
                let aDue = due_time parse_date a; bDue = due_time parse_date b
                in if \<not> num_eq aDue bDue then num_sub aDue bDue
                   else num (we_phase a - we_phase b))"

definition build_station_operation_scan_value :: "string \<Rightarrow> nat \<Rightarrow> string" where
  "build_station_operation_scan_value ofNumero phase = ofNumero @ ''/'' @ show_nat phase"

section \<open>Fields that are not shown\<close>

definition NEVER_EXPOSED_FIELDS :: "string list" where
  "NEVER_EXPOSED_FIELDS = [''storage_path'', ''stored_name'', ''password'', ''session_token_hash'',
     ''credential_hash'', ''enrollment_secret_hash'', ''badge_uid'', ''badge_uid_hash'']"

definition COST_FIELDS :: "string list" where
  "COST_FIELDS = [''hourly_rate'', ''hourly_rate_applied'', ''cout_mo'', ''taux_horaire'', ''prix'',
     ''prix_unitaire'', ''marge'']"

definition strip_cost_fields :: "(string \<times> json) list \<Rightarrow> bool \<Rightarrow> (string \<times> json) list" where
  "strip_cost_fields row canViewCosts =
     (if canViewCosts then row
      else foldl (\<lambda>copy f. if f \<in> set (map fst copy) then AList.delete f copy else copy) row COST_FIELDS)"

definition looks_sensitive :: "string \<Rightarrow> bool" where
  "looks_sensitive key =
     (let lower = js_lower key
      in (\<exists>f \<in> set NEVER_EXPOSED_FIELDS. js_includes lower f)
       \<or> js_includes lower ''token'' \<or> js_includes lower ''secret'' \<or> js_includes lower ''password''
       \<or> js_includes lower ''badge_uid'' \<or> js_includes lower ''pepper'')"

text \<open>The ellipsis appended to a shortened text lies outside Latin-1: it is a parameter.\<close>

fun shorten_value :: "string \<Rightarrow> json \<Rightarrow> json" where
  "shorten_value ellipsis (JStr s) = (if length s > 512 then JStr (take 512 s @ ellipsis) else JStr s)"
| "shorten_value ellipsis v = v"

definition sanitize_audit_detail :: "string \<Rightarrow> (string \<times> json) list \<Rightarrow> (string \<times> json) list" where
  "sanitize_audit_detail ellipsis detail =
     foldl (\<lambda>out (key, value). if looks_sensitive key then out
              else AList.update key (shorten_value ellipsis value) out) [] detail"

section \<open>The plan of the frozen revision\<close>

record technical_snapshot_ref =
  ts_piece_technique_version_id :: "string option"
  ts_snapshot_sha256 :: "string option"
  ts_snapshot_at :: "int option"

record plan_document_ref =
  pd_id :: string
  pd_label :: "string option"
  pd_original_name :: string
  pd_mime_type :: string
  pd_size_bytes :: int
  pd_sha256 :: "string option"
  pd_piece_technique_id :: string

datatype plan_warning = PW_NO_SNAPSHOT | PW_NO_DOCUMENT | PW_SUPERSEDED string string

record plan_resolution =
  pr_document :: "plan_document_ref option"
  pr_matches_snapshot :: bool
  pr_warning :: "plan_warning option"

definition resolve_plan_for_snapshot ::
  "technical_snapshot_ref \<Rightarrow> plan_document_ref list \<Rightarrow> string option \<Rightarrow> string option \<Rightarrow> plan_resolution" where
  "resolve_plan_for_snapshot snapshot documentsForSnapshotVersion latestVersionIndice snapshotIndice =
     (if \<not> truthy (ts_piece_technique_version_id snapshot)
      then \<lparr>pr_document = None, pr_matches_snapshot = False, pr_warning = Some PW_NO_SNAPSHOT\<rparr>
      else case documentsForSnapshotVersion of
             [] \<Rightarrow> \<lparr>pr_document = None, pr_matches_snapshot = False, pr_warning = Some PW_NO_DOCUMENT\<rparr>
           | document # _ \<Rightarrow>
               \<lparr>pr_document = Some document, pr_matches_snapshot = True,
                pr_warning = (if truthy latestVersionIndice \<and> truthy snapshotIndice
                    \<and> latestVersionIndice \<noteq> snapshotIndice
                  then Some (PW_SUPERSEDED (or_empty latestVersionIndice) (or_empty snapshotIndice))
                  else None)\<rparr>)"

section \<open>Properties\<close>

text \<open>the level of an operation, in terms of the facts: ready when nothing blocks and nothing
  warns, awaiting control when the pending first article is the only fact there is to report,
  blocked when anything else blocks; the headline names a blocking fact when there is one.\<close>

definition other_block :: "worklist_signals \<Rightarrow> bool" where
  "other_block s \<longleftrightarrow> js_upper (or_empty (ws_of_statut s)) \<in> set OF_BLOCKING_STATUSES
     \<or> js_upper (or_empty (ws_operation_status s)) \<in> {''DONE'', ''CANCELLED''}
     \<or> ws_has_active_execution_by_other s \<or> \<not> ws_machine_available s \<or> \<not> ws_has_technical_snapshot s"

definition any_warning :: "worklist_signals \<Rightarrow> bool" where
  "any_warning s \<longleftrightarrow> ws_has_pending_predecessor s \<or> \<not> ws_has_plan_document s
     \<or> \<not> ws_machine_matches s \<or> num_le (ws_remaining_quantity s) (num 0)"

lemma reasons_blocking:
  "(\<exists>r \<in> set (readiness_reasons s). snd r = SEV_BLOCKING) \<longleftrightarrow> other_block s \<or> ws_first_article_pending s"
  unfolding readiness_reasons_def other_block_def Let_def by (simp add: bex_Un) blast

lemma reasons_warning:
  "(\<exists>r \<in> set (readiness_reasons s). snd r = SEV_WARNING) \<longleftrightarrow> any_warning s"
  unfolding readiness_reasons_def any_warning_def Let_def by (simp add: bex_Un)

lemma reasons_only_first_article:
  "list_all (\<lambda>r. fst r = RR_FIRST_ARTICLE_REQUIRED) (readiness_reasons s) \<longleftrightarrow>
     \<not> other_block s \<and> \<not> any_warning s \<and> \<not> num_lt (num 0) (ws_qty_pending_control s)"
  unfolding readiness_reasons_def other_block_def any_warning_def Let_def list_all_append
  by (simp add: if_distrib [of "list_all _"])

theorem readiness_level_facts:
  "(ra_level (assess_operation_readiness s) = LV_READY \<longleftrightarrow>
      \<not> other_block s \<and> \<not> ws_first_article_pending s \<and> \<not> any_warning s) \<and>
   (ra_level (assess_operation_readiness s) = LV_AWAITING_CONTROL \<longleftrightarrow>
      ws_first_article_pending s \<and> \<not> other_block s \<and> \<not> any_warning s \<and>
      \<not> num_lt (num 0) (ws_qty_pending_control s)) \<and>
   (ra_level (assess_operation_readiness s) = LV_INCOMPLETE \<longleftrightarrow>
      \<not> other_block s \<and> \<not> ws_first_article_pending s \<and> any_warning s)"
  unfolding assess_operation_readiness_def Let_def
  by (simp add: reasons_blocking reasons_warning reasons_only_first_article)

text \<open>the list of blocking statuses and the machine of works orders disagree: an operation of a
  closed works order, on which no execution is allowed, can be assessed as ready, and one of a
  draft, on which execution is allowed, never is.\<close>

definition ready_signals :: "string \<Rightarrow> worklist_signals" where
  "ready_signals statut = \<lparr>ws_of_statut = Some statut, ws_operation_status = Some ''READY'',
     ws_has_pending_predecessor = False, ws_has_active_execution_by_other = False,
     ws_machine_matches = True, ws_machine_available = True, ws_has_technical_snapshot = True,
     ws_has_plan_document = True, ws_first_article_pending = False,
     ws_qty_pending_control = num 0, ws_remaining_quantity = num 10\<rparr>"

lemma upper_names: "js_upper (of_statut_name s) = of_statut_name s" "js_upper ''READY'' = ''READY''"
proof -
  have "list_all (\<lambda>s. js_upper (of_statut_name s) = of_statut_name s) OF_STATUTS" by code_simp
  then show "js_upper (of_statut_name s) = of_statut_name s"
    by (cases s) (simp_all add: OF_STATUTS_def)
  show "js_upper ''READY'' = ''READY''" by code_simp
qed

theorem readiness_ignores_closure:
  "ra_level (assess_operation_readiness (ready_signals (of_statut_name OF_CLOTURE))) = LV_READY \<and>
   \<not> of_statut_allows_execution OF_CLOTURE \<and>
   ra_level (assess_operation_readiness (ready_signals (of_statut_name OF_BROUILLON))) = LV_BLOCKED \<and>
   of_statut_allows_execution OF_BROUILLON"
  unfolding assess_operation_readiness_def Let_def
  by (simp add: reasons_blocking reasons_warning reasons_only_first_article other_block_def
      any_warning_def ready_signals_def upper_names OF_BLOCKING_STATUSES_def step_simps
      del: of_statut_name.simps) (simp add: OF_BLOCKING_STATUSES_def)

text \<open>as long as every due date is a date, the comparison of the work list is the one of a key:
  the operator's own work, then ready operations, then pending entries, then the level of
  readiness, the due date with undated operations last, and the phase. It is therefore a total
  order on the keys, and sorting by it is well defined.\<close>

definition dated :: "(string \<Rightarrow> int option) \<Rightarrow> worklist_entry \<Rightarrow> bool" where
  "dated pd e \<longleftrightarrow> due_time pd e \<noteq> NaN"

definition due_key :: "(string \<Rightarrow> int option) \<Rightarrow> worklist_entry \<Rightarrow> bool \<times> int" where
  "due_key pd e = (if truthy (we_due_date e)
     then (False, (case pd (or_empty (we_due_date e)) of Some ms \<Rightarrow> ms | None \<Rightarrow> 0)) else (True, 0))"

definition worklist_key ::
  "(string \<Rightarrow> int option) \<Rightarrow> worklist_entry \<Rightarrow> int \<times> readiness_level \<times> (bool \<times> int) \<times> int" where
  "worklist_key pd e = (queue_rank e, we_readiness e, due_key pd e, we_phase e)"

lemma due_compare:
  assumes "dated pd a" "dated pd b"
  shows "num_eq (due_time pd a) (due_time pd b) \<longleftrightarrow> due_key pd a = due_key pd b"
    and "due_key pd a \<noteq> due_key pd b \<Longrightarrow>
      (num_lt (num_sub (due_time pd a) (due_time pd b)) (num 0) \<longleftrightarrow> due_key pd a < due_key pd b)"
    and "due_key pd a \<noteq> due_key pd b \<Longrightarrow> \<not> num_eq (num_sub (due_time pd a) (due_time pd b)) (num 0)"
  using assms
  by (auto simp: dated_def due_time_def due_key_def num_eq_def num_sub_def num_lt_def
      split: option.splits if_splits)

theorem worklist_order:
  assumes "dated pd a" "dated pd b"
  shows "(num_lt (compare_worklist_entries pd a b) (num 0) \<longleftrightarrow> worklist_key pd a < worklist_key pd b) \<and>
    (num_eq (compare_worklist_entries pd a b) (num 0) \<longleftrightarrow> worklist_key pd a = worklist_key pd b) \<and>
    (num_lt (num 0) (compare_worklist_entries pd a b) \<longleftrightarrow> worklist_key pd b < worklist_key pd a)"
proof -
  have r: "we_readiness a < we_readiness b \<longleftrightarrow> readiness_rank (we_readiness a) < readiness_rank (we_readiness b)"
    for a b :: worklist_entry by (simp add: less_readiness_level_def)
  have 1: "num_lt (compare_worklist_entries pd a b) (num 0) \<longleftrightarrow> worklist_key pd a < worklist_key pd b"
    using due_compare [OF assms] readiness_rank_inj [of "we_readiness a" "we_readiness b"]
    by (auto simp: compare_worklist_entries_def worklist_key_def Let_def r less_eq_readiness_level_def)
  have 2: "num_eq (compare_worklist_entries pd a b) (num 0) \<longleftrightarrow> worklist_key pd a = worklist_key pd b"
    using due_compare [OF assms] readiness_rank_inj [of "we_readiness a" "we_readiness b"]
    by (auto simp: compare_worklist_entries_def worklist_key_def Let_def)
  have "compare_worklist_entries pd a b \<noteq> NaN"
    using due_compare (1) [OF assms] assms
    by (auto simp: compare_worklist_entries_def Let_def dated_def due_time_def num_sub_def num_eq_def
        split: option.splits if_splits)
  then have "num_lt (num 0) (compare_worklist_entries pd a b) \<longleftrightarrow>
      \<not> num_lt (compare_worklist_entries pd a b) (num 0) \<and> \<not> num_eq (compare_worklist_entries pd a b) (num 0)"
    by (cases "compare_worklist_entries pd a b") (auto simp: num_lt_def num_eq_def)
  with 1 2 show ?thesis by auto
qed

theorem worklist_order_witness:
  "num_lt (compare_worklist_entries (\<lambda>s. if s = ''2026-10-01'' then Some 5 else None)
     \<lparr>we_readiness = LV_READY, we_due_date = Some ''2026-10-01'', we_phase = 20, we_mine = False, we_pending_entry = False\<rparr>
     \<lparr>we_readiness = LV_READY, we_due_date = None, we_phase = 10, we_mine = False, we_pending_entry = False\<rparr>) (num 0)"
  by (subst conjunct1 [OF worklist_order])
    (simp_all add: dated_def due_time_def worklist_key_def queue_rank_def due_key_def)

text \<open>A due date that is not a date compares as equal to its neighbours: the order is no longer
  transitive.\<close>

lemma worklist_order_undated_cycle:
  defines "e d \<equiv> \<lparr>we_readiness = LV_READY, we_due_date = Some d, we_phase = 0, we_mine = False, we_pending_entry = False\<rparr>"
    and "pd \<equiv> \<lambda>s. if s = ''1'' then Some 1 else if s = ''2'' then Some 2 else None"
  shows "\<not> num_lt (num 0) (compare_worklist_entries pd (e ''2'') (e ''x''))
    \<and> \<not> num_lt (num 0) (compare_worklist_entries pd (e ''x'') (e ''1''))
    \<and> num_lt (num 0) (compare_worklist_entries pd (e ''2'') (e ''1''))"
  by (simp add: e_def pd_def compare_worklist_entries_def queue_rank_def due_time_def num_eq_def num_sub_def)

text \<open>what the tablet shows and logs. Without the right to see costs a row loses exactly its cost
  fields; the audit detail loses exactly the keys that look sensitive, keeps every other value, and
  no text in it is longer than 512 characters and the ellipsis.\<close>

lemma strip_cost_lookup:
  "map_of (foldl (\<lambda>copy f. if f \<in> set (map fst copy) then AList.delete f copy else copy) row fs) k =
     (if k \<in> set fs then None else map_of row k)"
proof (induction fs arbitrary: row)
  case (Cons f fs)
  have "map_of (if f \<in> set (map fst row) then AList.delete f row else row) k = (if k = f then None else map_of row k)"
    by (auto simp: delete_conv' map_of_eq_None_iff [THEN iffD2] image_iff)
  then show ?case by (simp only: foldl.simps Cons.IH) simp
qed simp

lemma sanitize_lookup_acc:
  assumes "distinct (map fst detail)"
  shows "map_of (foldl (\<lambda>out (key, value). if looks_sensitive key then out
              else AList.update key (shorten_value ell value) out) acc detail) k =
     (case map_of detail k of
        Some v \<Rightarrow> if looks_sensitive k then map_of acc k else Some (shorten_value ell v)
      | None \<Rightarrow> map_of acc k)"
  using assms
proof (induction detail arbitrary: acc)
  case (Cons e detail)
  obtain key v where e: "e = (key, v)" by fastforce
  with Cons.prems have "map_of detail key = None" by (simp add: map_of_eq_None_iff)
  with Cons e show ?case by (auto simp: update_conv' split: option.splits)
qed simp

theorem hidden_fields:
  assumes "distinct (map fst detail)"
  shows "map_of (strip_cost_fields row False) k = (if k \<in> set COST_FIELDS then None else map_of row k) \<and>
    map_of (sanitize_audit_detail ell detail) k =
      (if looks_sensitive k then None else map_option (shorten_value ell) (map_of detail k)) \<and>
    (map_of (sanitize_audit_detail ell detail) k = Some (JStr t) \<longrightarrow> length t \<le> 512 + length ell)"
proof -
  have s: "map_of (sanitize_audit_detail ell detail) k =
      (if looks_sensitive k then None else map_option (shorten_value ell) (map_of detail k))"
    using sanitize_lookup_acc [OF assms, of ell "[]" k]
    by (auto simp: sanitize_audit_detail_def split: option.splits)
  have "length t \<le> 512 + length ell" if "shorten_value ell v = JStr t" for v
    using that by (cases v) (auto split: if_splits)
  then show ?thesis
    using s strip_cost_lookup [of row COST_FIELDS k] by (auto simp: strip_cost_fields_def split: if_splits)
qed

theorem hidden_fields_witness:
  "map_of (sanitize_audit_detail ''...'' [(''sessionToken'', JStr ''abc''), (''machine'', JStr ''F1'')]) ''sessionToken'' = None"
proof -
  have "looks_sensitive ''sessionToken''" by code_simp
  then show ?thesis
    using hidden_fields [of "[(''sessionToken'', JStr ''abc''), (''machine'', JStr ''F1'')]" "[]" "''sessionToken''" "''...''" "[]"]
    by simp
qed

text \<open>the plan shown is always one of the documents of the revision frozen at launch: none is
  shown without a frozen revision, none is substituted, and a newer revision only adds a warning.\<close>

theorem plan_is_frozen_revision:
  "(pr_document (resolve_plan_for_snapshot snap docs latest frozen) = Some d \<longrightarrow>
      d \<in> set docs \<and> truthy (ts_piece_technique_version_id snap)) \<and>
   (pr_matches_snapshot (resolve_plan_for_snapshot snap docs latest frozen) \<longleftrightarrow>
      truthy (ts_piece_technique_version_id snap) \<and> docs \<noteq> []) \<and>
   pr_document (resolve_plan_for_snapshot snap docs latest frozen) =
     pr_document (resolve_plan_for_snapshot snap docs latest' frozen') \<and>
   (pr_document (resolve_plan_for_snapshot snap docs latest frozen) = None \<longrightarrow>
      pr_warning (resolve_plan_for_snapshot snap docs latest frozen) \<noteq> None)"
  by (cases docs) (auto simp: resolve_plan_for_snapshot_def)

theorem plan_is_frozen_revision_witness:
  "pr_warning (resolve_plan_for_snapshot
     \<lparr>ts_piece_technique_version_id = None, ts_snapshot_sha256 = None, ts_snapshot_at = None\<rparr>
     [] (Some ''C'') (Some ''B'')) \<noteq> None"
  using plan_is_frozen_revision [of "\<lparr>ts_piece_technique_version_id = None, ts_snapshot_sha256 = None, ts_snapshot_at = None\<rparr>"
    "[]" "Some ''C''" "Some ''B''"]
  by (simp add: resolve_plan_for_snapshot_def)

end
