(* ===== verification/Trace_Model.thy ===== *)
theory Trace_Model
  imports Interfaces
begin

text \<open>
  The vocabulary of the genealogy, \<open>src/module/traceability/domain/traceability-model.ts\<close>:
  node types, relations, the key of a node, the shape of its identifier and the route of the
  screen that owns it. A type or a relation is its string, as in the code, whose type tests
  look it up in the lists below.
\<close>

section \<open>Node types and relations\<close>

definition TRACEABILITY_NODE_TYPES :: "string list" where
  "TRACEABILITY_NODE_TYPES =
    [''fournisseur'', ''commande_fournisseur'', ''commande_fournisseur_ligne'',
     ''reception_fournisseur'', ''reception_ligne'', ''reception_inspection'', ''article'',
     ''piece_technique'', ''piece_version'', ''lot'', ''stock_movement'',
     ''stock_movement_line'', ''reservation'', ''of'', ''of_operation'', ''pointage'',
     ''machine'', ''poste'', ''of_receipt'', ''material_consumption'', ''quality_control'',
     ''quality_measurement'', ''non_conformity'', ''quality_action'', ''derogation'',
     ''release_decision'', ''metrology_equipment'', ''metrology_certificate'', ''devis'',
     ''commande'', ''commande_ligne'', ''affaire'', ''bon_livraison'', ''bon_livraison_ligne'',
     ''delivery_proof'', ''client'', ''document'', ''asbuilt_pack'']"

definition is_traceability_node_type :: "string \<Rightarrow> bool" where
  "is_traceability_node_type value = (value \<in> set TRACEABILITY_NODE_TYPES)"

definition LEGACY_TRACEABILITY_NODE_TYPES :: "string list" where
  "LEGACY_TRACEABILITY_NODE_TYPES =
    [''devis'', ''commande'', ''affaire'', ''of'', ''lot'', ''bon_livraison'',
     ''non_conformity'']"

definition NODE_TYPE_LABELS :: "(string \<times> string) list" where
  "NODE_TYPE_LABELS =
    [(''fournisseur'', ''Fournisseur''), (''commande_fournisseur'', ''Commande fournisseur''),
     (''commande_fournisseur_ligne'', ''Ligne de commande fournisseur''),
     (''reception_fournisseur'', (''R'' @ [CHR 0xE9] @ ''ception fournisseur'')),
     (''reception_ligne'', (''Ligne de r'' @ [CHR 0xE9] @ ''ception'')),
     (''reception_inspection'', ''Inspection entrante''), (''article'', ''Article''),
     (''piece_technique'', (''Pi'' @ [CHR 0xE8] @ ''ce technique'')),
     (''piece_version'', ''Version technique''), (''lot'', ''Lot''),
     (''stock_movement'', ''Mouvement de stock''),
     (''stock_movement_line'', ''Ligne de mouvement''),
     (''reservation'', (''R'' @ [CHR 0xE9] @ ''servation'')),
     (''of'', ''Ordre de fabrication''), (''of_operation'', (''Op'' @ [CHR 0xE9] @ ''ration'')),
     (''pointage'', ''Pointage''), (''machine'', ''Machine''), (''poste'', ''Poste''),
     (''of_receipt'', (''R'' @ [CHR 0xE9] @ ''ception de production'')),
     (''material_consumption'', (''Consommation mati'' @ [CHR 0xE8] @ ''re'')),
     (''quality_control'', (''Contr'' @ [CHR 0xF4] @ ''le qualit'' @ [CHR 0xE9])),
     (''quality_measurement'', ''Mesure''),
     (''non_conformity'', (''Non-conformit'' @ [CHR 0xE9])),
     (''quality_action'', ''Action / CAPA''),
     (''derogation'', (''D'' @ [CHR 0xE9] @ ''rogation'')),
     (''release_decision'', (''D'' @ [CHR 0xE9] @ ''cision de lib'' @ [CHR 0xE9] @ ''ration'')),
     (''metrology_equipment'', ''Instrument de mesure''),
     (''metrology_certificate'', (''Certificat m'' @ [CHR 0xE9] @ ''trologique'')),
     (''devis'', ''Devis''), (''commande'', ''Commande client''),
     (''commande_ligne'', ''Ligne de commande client''), (''affaire'', ''Affaire''),
     (''bon_livraison'', ''Bon de livraison''),
     (''bon_livraison_ligne'', ''Ligne de bon de livraison''),
     (''delivery_proof'', ''Preuve de livraison''), (''client'', ''Client''),
     (''document'', ''Document''), (''asbuilt_pack'', ''Dossier as-built'')]"

definition NODE_TYPE_FAMILIES :: "string list" where
  "NODE_TYPE_FAMILIES =
    [''achat'', ''technique'', ''stock'', ''production'', ''qualite'', ''commerce'',
     ''livraison'', ''preuve'']"

definition NODE_TYPE_FAMILY :: "(string \<times> string) list" where
  "NODE_TYPE_FAMILY =
    [(''fournisseur'', ''achat''), (''commande_fournisseur'', ''achat''),
     (''commande_fournisseur_ligne'', ''achat''), (''reception_fournisseur'', ''achat''),
     (''reception_ligne'', ''achat''), (''reception_inspection'', ''qualite''),
     (''article'', ''technique''), (''piece_technique'', ''technique''),
     (''piece_version'', ''technique''), (''lot'', ''stock''), (''stock_movement'', ''stock''),
     (''stock_movement_line'', ''stock''), (''reservation'', ''stock''),
     (''of'', ''production''), (''of_operation'', ''production''),
     (''pointage'', ''production''), (''machine'', ''production''), (''poste'', ''production''),
     (''of_receipt'', ''production''), (''material_consumption'', ''production''),
     (''quality_control'', ''qualite''), (''quality_measurement'', ''qualite''),
     (''non_conformity'', ''qualite''), (''quality_action'', ''qualite''),
     (''derogation'', ''qualite''), (''release_decision'', ''qualite''),
     (''metrology_equipment'', ''qualite''), (''metrology_certificate'', ''qualite''),
     (''devis'', ''commerce''), (''commande'', ''commerce''),
     (''commande_ligne'', ''commerce''), (''affaire'', ''commerce''),
     (''bon_livraison'', ''livraison''), (''bon_livraison_ligne'', ''livraison''),
     (''delivery_proof'', ''livraison''), (''client'', ''commerce''),
     (''document'', ''preuve''), (''asbuilt_pack'', ''preuve'')]"

definition TRACEABILITY_RELATION_TYPES :: "string list" where
  "TRACEABILITY_RELATION_TYPES =
    [''ORDERED_FROM'', ''RECEIVED_IN'', ''RECEPTION_LINE_OF'', ''CREATED_LOT'', ''ISSUED_FROM'',
     ''INSPECTED_BY'', ''CONSUMED_BY'', ''MATERIAL_INPUT_OF'', ''PRODUCED_BY'', ''CHILD_OF'',
     ''USES_VERSION'', ''OF_OPERATION_OF'', ''EXECUTED_ON'', ''CLOCKED_IN'', ''CONTROLLED_BY'',
     ''MEASURED_IN'', ''MEASURED_WITH'', ''CERTIFIED_BY'', ''AFFECTED_BY_NC'', ''CORRECTED_BY'',
     ''COVERED_BY_DEROGATION'', ''RELEASED_BY'', ''BLOCKED_BY'', ''MOVED_BY'',
     ''MOVEMENT_LINE_OF'', ''RESERVED_FOR'', ''ALLOCATED_TO'', ''DELIVERY_LINE_OF'',
     ''DELIVERED_IN'', ''DELIVERED_TO'', ''PROVEN_BY'', ''DOCUMENTED_BY'', ''SPLIT_FROM'',
     ''MERGED_FROM'', ''TRANSFORMED_FROM'', ''COMPENSATES'', ''SUPERSEDES'', ''ORDER_LINE_OF'',
     ''BELONGS_TO_AFFAIRE'', ''QUOTED_BY'', ''ORDERED_BY'', ''ARTICLE_OF'', ''LEGACY_LINK'']"

definition is_traceability_relation_type :: "string \<Rightarrow> bool" where
  "is_traceability_relation_type value = (value \<in> set TRACEABILITY_RELATION_TYPES)"

definition RELATION_LABELS :: "(string \<times> string \<times> string) list" where
  "RELATION_LABELS =
    [
     (''ORDERED_FROM'', (''a re'' @ [CHR 0xE7] @ ''u la commande''), (''command'' @ [CHR 0xE9] @ '' aupr'' @ [CHR 0xE8] @ ''s de'')),
     (''RECEIVED_IN'', (''r'' @ [CHR 0xE9] @ ''ceptionn'' @ [CHR 0xE9] @ '' par''), (''re'' @ [CHR 0xE7] @ ''u dans'')),
     (''RECEPTION_LINE_OF'', ''contient la ligne'', (''ligne de r'' @ [CHR 0xE9] @ ''ception de'')),
     (''CREATED_LOT'', (''a cr'' @ [CHR 0xE9] @ [CHR 0xE9] @ '' le lot''), ''issu de''),
     (''ISSUED_FROM'', ''a produit'', ''issu de''),
     (''INSPECTED_BY'', (''inspect'' @ [CHR 0xE9] @ '' par''), ''inspection de''),
     (''CONSUMED_BY'', (''consomm'' @ [CHR 0xE9] @ '' par''), (''a consomm'' @ [CHR 0xE9])),
     (''MATERIAL_INPUT_OF'', (''entr'' @ [CHR 0xE9] @ ''e mati'' @ [CHR 0xE8] @ ''re de''), (''aliment'' @ [CHR 0xE9] @ '' par'')),
     (''PRODUCED_BY'', ''a produit'', ''produit par''),
     (''CHILD_OF'', ''a pour enfant'', ''OF enfant de''),
     (''USES_VERSION'', ''utilise la version'', (''version utilis'' @ [CHR 0xE9] @ ''e par'')),
     (''OF_OPERATION_OF'', (''comporte l'op'' @ [CHR 0xE9] @ ''ration''), (''op'' @ [CHR 0xE9] @ ''ration de'')),
     (''EXECUTED_ON'', (''ex'' @ [CHR 0xE9] @ ''cut'' @ [CHR 0xE9] @ '' sur''), (''a ex'' @ [CHR 0xE9] @ ''cut'' @ [CHR 0xE9])),
     (''CLOCKED_IN'', (''point'' @ [CHR 0xE9] @ '' dans''), (''a re'' @ [CHR 0xE7] @ ''u le pointage'')),
     (''CONTROLLED_BY'', (''contr'' @ [CHR 0xF4] @ ''l'' @ [CHR 0xE9] @ '' par''), (''contr'' @ [CHR 0xF4] @ ''le de'')),
     (''MEASURED_IN'', (''mesur'' @ [CHR 0xE9] @ '' dans''), ''comporte la mesure''),
     (''MEASURED_WITH'', (''mesur'' @ [CHR 0xE9] @ '' avec''), (''a servi '' @ [CHR 0xE0] @ '' mesurer'')),
     (''CERTIFIED_BY'', (''certifi'' @ [CHR 0xE9] @ '' par''), ''certificat de''),
     (''AFFECTED_BY_NC'', (''concern'' @ [CHR 0xE9] @ '' par une NC''), ''concerne''),
     (''CORRECTED_BY'', (''trait'' @ [CHR 0xE9] @ '' par''), ''action de''),
     (''COVERED_BY_DEROGATION'', (''couvert par la d'' @ [CHR 0xE9] @ ''rogation''), ''couvre''),
     (''RELEASED_BY'', (''lib'' @ [CHR 0xE9] @ ''r'' @ [CHR 0xE9] @ '' par''), (''a lib'' @ [CHR 0xE9] @ ''r'' @ [CHR 0xE9])),
     (''BLOCKED_BY'', (''bloqu'' @ [CHR 0xE9] @ '' par''), (''a bloqu'' @ [CHR 0xE9])),
     (''MOVED_BY'', (''d'' @ [CHR 0xE9] @ ''plac'' @ [CHR 0xE9] @ '' par''), (''a d'' @ [CHR 0xE9] @ ''plac'' @ [CHR 0xE9])),
     (''MOVEMENT_LINE_OF'', ''comporte la ligne'', ''ligne du mouvement''),
     (''RESERVED_FOR'', (''r'' @ [CHR 0xE9] @ ''serv'' @ [CHR 0xE9] @ '' pour''), (''a r'' @ [CHR 0xE9] @ ''serv'' @ [CHR 0xE9])),
     (''ALLOCATED_TO'', (''allou'' @ [CHR 0xE9] @ '' '' @ [CHR 0xE0]), (''a re'' @ [CHR 0xE7] @ ''u l'allocation'')),
     (''DELIVERY_LINE_OF'', ''comporte la ligne'', ''ligne du bon de livraison''),
     (''DELIVERED_IN'', (''livr'' @ [CHR 0xE9] @ '' dans''), (''a livr'' @ [CHR 0xE9])),
     (''DELIVERED_TO'', (''livr'' @ [CHR 0xE9] @ '' au client''), (''a re'' @ [CHR 0xE7] @ ''u la livraison'')),
     (''PROVEN_BY'', (''prouv'' @ [CHR 0xE9] @ '' par''), ''preuve de''),
     (''DOCUMENTED_BY'', (''document'' @ [CHR 0xE9] @ '' par''), ''document de''),
     (''SPLIT_FROM'', (''fractionn'' @ [CHR 0xE9] @ '' en''), (''fractionn'' @ [CHR 0xE9] @ '' depuis'')),
     (''MERGED_FROM'', (''fusionn'' @ [CHR 0xE9] @ '' dans''), (''fusionn'' @ [CHR 0xE9] @ '' depuis'')),
     (''TRANSFORMED_FROM'', (''transform'' @ [CHR 0xE9] @ '' en''), (''transform'' @ [CHR 0xE9] @ '' depuis'')),
     (''COMPENSATES'', (''compens'' @ [CHR 0xE9] @ '' par''), ''compense''),
     (''SUPERSEDES'', (''remplac'' @ [CHR 0xE9] @ '' par''), ''remplace''),
     (''ORDER_LINE_OF'', ''comporte la ligne'', ''ligne de commande de''),
     (''BELONGS_TO_AFFAIRE'', (''rattach'' @ [CHR 0xE9] @ '' '' @ [CHR 0xE0] @ '' l'affaire''), ''regroupe''),
     (''QUOTED_BY'', (''chiffr'' @ [CHR 0xE9] @ '' par''), (''a chiffr'' @ [CHR 0xE9])),
     (''ORDERED_BY'', (''command'' @ [CHR 0xE9] @ '' par''), (''a command'' @ [CHR 0xE9])),
     (''ARTICLE_OF'', ''article de'', ''porte l'article''),
     (''LEGACY_LINK'', ''lien historique'', ''lien historique'')]"

definition relation_label :: "string \<Rightarrow> string" where
  "relation_label relation =
     (case map_of RELATION_LABELS relation of Some (l, _) \<Rightarrow> l | None \<Rightarrow> relation)"

definition relation_inverse_label :: "string \<Rightarrow> string" where
  "relation_inverse_label relation =
     (case map_of RELATION_LABELS relation of Some (_, i) \<Rightarrow> i | None \<Rightarrow> relation)"

datatype proof_level = PROVEN | DECLARED | UNKNOWN_PROOF

datatype edge_direction = UPSTREAM | DOWNSTREAM | LATERAL

fun direction_name :: "edge_direction \<Rightarrow> string" where
  "direction_name UPSTREAM = ''upstream''"
| "direction_name DOWNSTREAM = ''downstream''"
| "direction_name LATERAL = ''lateral''"

section \<open>Node references\<close>

record node_ref =
  nr_type :: string
  nr_id :: string

definition node_key :: "node_ref \<Rightarrow> string" where
  "node_key ref = nr_type ref @ '':'' @ nr_id ref"

text \<open>\<open>indexOf\<close>: \<open>None\<close> is -1.\<close>

fun index_of :: "char \<Rightarrow> string \<Rightarrow> nat option" where
  "index_of c [] = None"
| "index_of c (d # s) = (if d = c then Some 0 else map_option Suc (index_of c s))"

definition parse_node_key :: "string \<Rightarrow> node_ref option" where
  "parse_node_key key =
     (case index_of (CHR '':'') key of
        None \<Rightarrow> None
      | Some idx \<Rightarrow>
          if idx = 0 then None
          else
            let kind = take idx key; ident = drop (idx + 1) key
            in if \<not> is_traceability_node_type kind \<or> ident = [] then None
               else Some \<lparr>nr_type = kind, nr_id = ident\<rparr>)"

definition hex_digit :: "char \<Rightarrow> bool" where
  "hex_digit c \<longleftrightarrow> c \<in> set ''0123456789abcdefABCDEF''"

definition is_uuid :: "string \<Rightarrow> bool" where
  "is_uuid value =
     (let s = js_trim value
      in length s = 36 \<and>
         list_all (\<lambda>(i, c). if i \<in> {8, 13, 18, 23} then c = CHR ''-'' else hex_digit c) (enumerate 0 s))"

definition is_bigint_id :: "string \<Rightarrow> bool" where
  "is_bigint_id value =
     (let s = js_trim value in s \<noteq> [] \<and> length s \<le> 18 \<and> list_all is_digit s)"

definition UUID_KEYED :: "string list" where
  "UUID_KEYED =
    [''fournisseur'', ''commande_fournisseur'', ''commande_fournisseur_ligne'',
     ''reception_fournisseur'', ''reception_ligne'', ''reception_inspection'', ''article'',
     ''piece_technique'', ''piece_version'', ''lot'', ''stock_movement'',
     ''stock_movement_line'', ''reservation'', ''of_operation'', ''pointage'', ''machine'',
     ''poste'', ''of_receipt'', ''material_consumption'', ''quality_control'',
     ''quality_measurement'', ''non_conformity'', ''quality_action'', ''derogation'',
     ''release_decision'', ''metrology_equipment'', ''metrology_certificate'',
     ''bon_livraison'', ''bon_livraison_ligne'', ''delivery_proof'', ''document'',
     ''asbuilt_pack'']"

definition BIGINT_KEYED :: "string list" where
  "BIGINT_KEYED =
    [''of'', ''devis'', ''commande'', ''commande_ligne'', ''affaire'']"

definition node_id_shape_is_valid :: "node_ref \<Rightarrow> bool" where
  "node_id_shape_is_valid ref =
     (let ident = js_trim (nr_id ref)
      in if ident = [] then False
         else if nr_type ref \<in> set UUID_KEYED then is_uuid ident
         else if nr_type ref \<in> set BIGINT_KEYED then is_bigint_id ident
         else if nr_type ref = ''client'' then length ident \<le> 32
         else True)"

section \<open>Routes\<close>

text \<open>\<open>encodeURIComponent\<close> on Latin-1: a character that is not unreserved is written as the
  percent-encoded bytes of its UTF-8 form.\<close>

definition upper_hex :: "nat \<Rightarrow> char" where
  "upper_hex d = (if d < 10 then char_of (48 + d) else char_of (55 + d))"

definition percent_byte :: "nat \<Rightarrow> string" where
  "percent_byte b = [CHR 0x25, upper_hex (b div 16), upper_hex (b mod 16)]"

definition uri_unreserved :: "char \<Rightarrow> bool" where
  "uri_unreserved c =
     (let n = (of_char c :: nat)
      in (48 \<le> n \<and> n \<le> 57) \<or> (65 \<le> n \<and> n \<le> 90) \<or> (97 \<le> n \<and> n \<le> 122) \<or> c \<in> set ''-_.!~*()'' \<or> n = 39)"

definition encode_uri_char :: "char \<Rightarrow> string" where
  "encode_uri_char c =
     (let n = (of_char c :: nat)
      in if uri_unreserved c then [c]
         else if n < 128 then percent_byte n
         else percent_byte (192 + n div 64) @ percent_byte (128 + n mod 64))"

definition encode_uri_component :: "string \<Rightarrow> string" where
  "encode_uri_component s = concat (map encode_uri_char s)"

definition AUTHORITATIVE_ROUTES :: "(string \<times> string) list" where
  "AUTHORITATIVE_ROUTES =
    [(''fournisseur'', ''/fournisseurs/''),
     (''commande_fournisseur'', ''/commandes-fournisseurs/''),
     (''reception_fournisseur'', ''/receptions/''), (''article'', ''/articles/''),
     (''piece_technique'', ''/pieces-techniques/''), (''of'', ''/production/of/''),
     (''machine'', ''/machines/''), (''quality_control'', ''/qualite/controles/''),
     (''non_conformity'', ''/qualite/non-conformites/''),
     (''derogation'', ''/qualite/derogations/''),
     (''metrology_equipment'', ''/metrologie/equipements/''), (''devis'', ''/devis/''),
     (''commande'', ''/commandes/''), (''affaire'', ''/affaires/''),
     (''bon_livraison'', ''/livraisons/''), (''client'', ''/clients/''),
     (''lot'', ''/stock/lots/''), (''stock_movement'', ''/stock/mouvements/'')]"

definition authoritative_route :: "node_ref \<Rightarrow> string option" where
  "authoritative_route ref =
     (case map_of AUTHORITATIVE_ROUTES (nr_type ref) of
        Some path \<Rightarrow> Some (path @ encode_uri_component (nr_id ref))
      | None \<Rightarrow> None)"

section \<open>The tables are complete\<close>

lemma tables_complete:
  "map fst NODE_TYPE_LABELS = TRACEABILITY_NODE_TYPES"
  "map fst NODE_TYPE_FAMILY = TRACEABILITY_NODE_TYPES"
  "map fst RELATION_LABELS = TRACEABILITY_RELATION_TYPES"
  "list_all (\<lambda>f. f \<in> set NODE_TYPE_FAMILIES) (map snd NODE_TYPE_FAMILY)"
  "list_all (\<lambda>t. t \<in> set UUID_KEYED \<or> t \<in> set BIGINT_KEYED \<or> t = ''client'') TRACEABILITY_NODE_TYPES"
  by code_simp+

lemma node_types_distinct: "distinct TRACEABILITY_NODE_TYPES"
  by code_simp

section \<open>Keys\<close>

text \<open>The names of types have no mark that keys and edge identifiers use.\<close>

definition marks :: string where
  "marks = '':|=#@''"

lemma node_type_marks: "is_traceability_node_type t \<Longrightarrow> set t \<inter> set marks = {} \<and> t \<noteq> []"
proof -
  have "list_all (\<lambda>t. list_all (\<lambda>c. c \<notin> set marks) t \<and> t \<noteq> []) TRACEABILITY_NODE_TYPES"
    by code_simp
  then show "is_traceability_node_type t \<Longrightarrow> set t \<inter> set marks = {} \<and> t \<noteq> []"
    unfolding is_traceability_node_type_def list_all_iff by blast
qed

lemma index_of_append: "c \<notin> set a \<Longrightarrow> index_of c (a @ c # b) = Some (length a)"
  by (induction a) auto

lemma index_of_Some:
  "index_of c s = Some i \<Longrightarrow> i < length s \<and> s ! i = c \<and> c \<notin> set (take i s)"
  by (induction s arbitrary: i) (auto split: if_splits simp: map_option_case split: option.splits)

definition ref_ok :: "node_ref \<Rightarrow> bool" where
  "ref_ok r \<longleftrightarrow> is_traceability_node_type (nr_type r) \<and> nr_id r \<noteq> []"

lemma parse_node_key_key: "ref_ok r \<Longrightarrow> parse_node_key (node_key r) = Some r"
proof -
  assume ok: "ref_ok r"
  then have "CHR '':'' \<notin> set (nr_type r)" "nr_type r \<noteq> []"
    using node_type_marks [of "nr_type r"] by (auto simp: ref_ok_def marks_def)
  then show ?thesis
    using ok by (simp add: parse_node_key_def node_key_def index_of_append ref_ok_def)
qed

lemma parse_node_key_sound: "parse_node_key s = Some r \<Longrightarrow> ref_ok r \<and> node_key r = s"
proof -
  assume a: "parse_node_key s = Some r"
  then obtain i where i: "index_of (CHR '':'') s = Some i"
    by (auto simp: parse_node_key_def split: option.splits)
  from a i have r: "is_traceability_node_type (take i s)" "drop (i + 1) s \<noteq> []"
    "r = \<lparr>nr_type = take i s, nr_id = drop (i + 1) s\<rparr>"
    by (auto simp: parse_node_key_def Let_def split: if_splits)
  have "s = take i s @ s ! i # drop (i + 1) s"
    using index_of_Some [OF i] id_take_nth_drop [of i s] by simp
  with r index_of_Some [OF i] show ?thesis by (auto simp: ref_ok_def node_key_def)
qed

interpretation node_names: strict_codec node_key parse_node_key ref_ok
  by unfold_locales (fact parse_node_key_key, fact parse_node_key_sound)

section \<open>Properties\<close>

text \<open>a text is read as a node exactly when it is the key of a node with a known type and an
  identifier, so keys identify nodes; and every known type falls under one of the three rules
  for the shape of identifiers, so that no type is accepted unchecked.\<close>

theorem node_key_codec:
  "(parse_node_key s = Some r \<longleftrightarrow> ref_ok r \<and> node_key r = s) \<and>
   (is_traceability_node_type (nr_type r) \<longrightarrow>
      node_id_shape_is_valid r =
        (if nr_type r \<in> set UUID_KEYED then is_uuid (js_trim (nr_id r))
         else if nr_type r \<in> set BIGINT_KEYED then is_bigint_id (js_trim (nr_id r))
         else nr_type r = ''client'' \<and> js_trim (nr_id r) \<noteq> [] \<and> length (js_trim (nr_id r)) \<le> 32))"
proof -
  have "nr_type r \<in> set UUID_KEYED \<or> nr_type r \<in> set BIGINT_KEYED \<or> nr_type r = ''client''"
    if "is_traceability_node_type (nr_type r)"
    using tables_complete(5) that unfolding list_all_iff is_traceability_node_type_def by blast
  moreover have "\<not> is_uuid []" "\<not> is_bigint_id []" by (simp_all add: is_uuid_def is_bigint_id_def)
  ultimately show ?thesis
    using node_names.dec_iff [of s r] by (auto simp: node_id_shape_is_valid_def Let_def)
qed

theorem node_key_codec_witness: "parse_node_key ''lot:7:a'' = Some \<lparr>nr_type = ''lot'', nr_id = ''7:a''\<rparr>"
  by (subst conjunct1 [OF node_key_codec])
    (simp add: ref_ok_def node_key_def is_traceability_node_type_def TRACEABILITY_NODE_TYPES_def)

end
