(* ===== verification/Trace_Graph.thy ===== *)
theory Trace_Graph
  imports Trace_Model Canonical_Json Js_Number
begin

text \<open>
  The graph engine of the genealogy, \<open>src/module/traceability/domain/traceability-graph.ts\<close>:
  a breadth-first expansion, level by level, bounded by a depth, a number of nodes, a number
  of edges and a number of neighbours per branch.

  The repository that answers for a whole frontier is the parameter \<open>fetch\<close>; a frontier is
  never presented twice, so a function of its arguments is general enough. \<open>isVisible\<close> is the
  permission test. \<open>Date.parse\<close> is \<open>parse_date\<close>. The messages of the issues are presentation.
\<close>

section \<open>Edges\<close>

record neighbor_edge =
  ne_direction :: edge_direction
  ne_relation :: string
  ne_from :: node_ref
  ne_to :: node_ref
  ne_proof_level :: proof_level
  ne_proof_source :: string
  ne_effective_at :: "string option"
  ne_qty :: "jsnum option"
  ne_unit :: "string option"
  ne_correlation_id :: "string option"
  ne_evidence_ref :: "string option"
  ne_historical_status :: "string option"
  ne_meta :: "json option"

record graph_edge = neighbor_edge +
  ge_edge_id :: string
  ge_source :: string
  ge_target :: string
  ge_depth :: nat

definition anchor_of :: "'a neighbor_edge_scheme \<Rightarrow> node_ref" where
  "anchor_of edge = (if ne_direction edge = UPSTREAM then ne_to edge else ne_from edge)"

definition neighbor_of :: "'a neighbor_edge_scheme \<Rightarrow> node_ref" where
  "neighbor_of edge = (if ne_direction edge = UPSTREAM then ne_from edge else ne_to edge)"

definition make_edge_id :: "'a neighbor_edge_scheme \<Rightarrow> string" where
  "make_edge_id edge =
     (let src = node_key (ne_from edge);
          tgt = node_key (ne_to edge);
          ev = (if truthy (ne_evidence_ref edge) then ''@'' @ or_empty (ne_evidence_ref edge) else [])
      in src @ ''=>'' @ tgt @ ''#'' @ ne_relation edge @ ev)"

type_synonym fetch_neighbors = "node_ref list \<Rightarrow> edge_direction \<Rightarrow> neighbor_edge list"

record expand_options =
  eo_seeds :: "node_ref list"
  eo_directions :: "edge_direction list"
  eo_max_depth :: nat
  eo_max_nodes :: nat
  eo_max_edges :: nat
  eo_max_neighbors_per_node :: nat
  eo_fetch_neighbors :: fetch_neighbors
  eo_is_visible :: "string \<Rightarrow> bool"
  eo_node_type_filter :: "string list option"
  eo_relation_filter :: "string list option"
  eo_period_from :: "string option"
  eo_period_to :: "string option"

datatype truncation_reason = NEIGHBOR_CAP | NODE_BUDGET | EDGE_BUDGET | DEPTH_CUT

record branch_truncation =
  bt_node_id :: string
  bt_direction :: string
  bt_reason :: truncation_reason
  bt_dropped :: nat

record data_quality_issue =
  di_code :: string
  di_level :: string
  di_node_id :: "string option"
  di_details :: "(string \<times> json) list"

section \<open>The state of an expansion\<close>

text \<open>The local variables of \<open>expandGraph\<close>; the last three are those of a level and of a group.\<close>

record trace_state =
  tr_visited :: "string list"
  tr_nodes :: "node_ref list"
  tr_depth_by_node :: "(string \<times> nat) list"
  tr_parent_edge :: "(string \<times> string) list"
  tr_parent_node :: "(string \<times> string) list"
  tr_edges :: "graph_edge list"
  tr_edge_ids :: "string list"
  tr_branches :: "branch_truncation list"
  tr_issues :: "data_quality_issue list"
  tr_hidden_by_permission :: nat
  tr_filtered_out :: nat
  tr_node_budget_reached :: bool
  tr_edge_budget_reached :: bool
  tr_depth_reached :: bool
  tr_expanded_nodes :: nat
  tr_cycle_reported :: bool
  tr_next_frontier :: "node_ref list"
  tr_dropped_for_node_budget :: nat
  tr_dropped_for_edge_budget :: nat

definition initial_trace_state :: trace_state where
  "initial_trace_state = \<lparr>tr_visited = [], tr_nodes = [], tr_depth_by_node = [], tr_parent_edge = [],
     tr_parent_node = [], tr_edges = [], tr_edge_ids = [], tr_branches = [], tr_issues = [],
     tr_hidden_by_permission = 0, tr_filtered_out = 0, tr_node_budget_reached = False,
     tr_edge_budget_reached = False, tr_depth_reached = False, tr_expanded_nodes = 0,
     tr_cycle_reported = False, tr_next_frontier = [], tr_dropped_for_node_budget = 0,
     tr_dropped_for_edge_budget = 0\<rparr>"

record expand_result =
  er_nodes :: "node_ref list"
  er_edges :: "graph_edge list"
  er_paths :: "(string \<times> string list) list"
  er_depth_by_node :: "(string \<times> nat) list"
  er_depth_reached :: bool
  er_node_budget_reached :: bool
  er_edge_budget_reached :: bool
  er_branches :: "branch_truncation list"
  er_visited_nodes :: nat
  er_expanded_nodes :: nat
  er_frontier_pending :: nat
  er_hidden_by_permission :: nat
  er_filtered_out :: nat
  er_issues :: "data_quality_issue list"

section \<open>Filters\<close>

definition edge_within_period ::
  "(string \<Rightarrow> int option) \<Rightarrow> 'a neighbor_edge_scheme \<Rightarrow> string option \<Rightarrow> string option \<Rightarrow> bool" where
  "edge_within_period parse_date edge period_from period_to =
     (if \<not> truthy period_from \<and> \<not> truthy period_to then True
      else if \<not> truthy (ne_effective_at edge) then True
      else case parse_date (or_empty (ne_effective_at edge)) of
             None \<Rightarrow> True
           | Some t \<Rightarrow>
               if truthy period_from \<and> (\<exists>f \<in> set_option (parse_date (or_empty period_from)). t < f) then False
               else if truthy period_to \<and> (\<exists>e \<in> set_option (parse_date (or_empty period_to)). t > e) then False
               else True)"

text \<open>What the user asked to see, and then what the user may see.\<close>

definition edge_wanted :: "(string \<Rightarrow> int option) \<Rightarrow> expand_options \<Rightarrow> 'a neighbor_edge_scheme \<Rightarrow> bool" where
  "edge_wanted parse_date opts edge =
     (if (\<exists>f \<in> set_option (eo_relation_filter opts). ne_relation edge \<notin> set f) then False
      else if (\<exists>f \<in> set_option (eo_node_type_filter opts). nr_type (neighbor_of edge) \<notin> set f) then False
      else if \<not> edge_within_period parse_date edge (eo_period_from opts) (eo_period_to opts) then False
      else True)"

fun filter_group ::
  "(string \<Rightarrow> int option) \<Rightarrow> expand_options \<Rightarrow> neighbor_edge list \<Rightarrow> neighbor_edge list \<Rightarrow> trace_state
    \<Rightarrow> neighbor_edge list \<times> trace_state" where
  "filter_group pd opts kept [] st = (kept, st)"
| "filter_group pd opts kept (edge # es) st =
     (if \<not> edge_wanted pd opts edge
      then filter_group pd opts kept es (st\<lparr>tr_filtered_out := tr_filtered_out st + 1\<rparr>)
      else if \<not> eo_is_visible opts (nr_type (neighbor_of edge))
      then filter_group pd opts kept es (st\<lparr>tr_hidden_by_permission := tr_hidden_by_permission st + 1\<rparr>)
      else filter_group pd opts (kept @ [edge]) es st)"

section \<open>One edge\<close>

text \<open>The loop of \<open>isAncestor\<close>, with its guard of 64 steps.\<close>

fun ancestor_loop :: "nat \<Rightarrow> (string \<times> string) list \<Rightarrow> string option \<Rightarrow> string \<Rightarrow> bool" where
  "ancestor_loop 0 parentNode cursor candidate = False"
| "ancestor_loop (Suc n) parentNode cursor candidate =
     (if \<not> truthy cursor then False
      else if cursor = Some candidate then True
      else ancestor_loop n parentNode (map_of parentNode (or_empty cursor)) candidate)"

definition is_ancestor :: "(string \<times> string) list \<Rightarrow> string \<Rightarrow> string \<Rightarrow> bool" where
  "is_ancestor parentNode fromKey candidateAncestor =
     ancestor_loop 64 parentNode (Some fromKey) candidateAncestor"

definition graph_edge_of :: "nat \<Rightarrow> neighbor_edge \<Rightarrow> graph_edge" where
  "graph_edge_of depth edge = neighbor_edge.extend edge
     (graph_edge.fields (make_edge_id edge) (node_key (ne_from edge)) (node_key (ne_to edge)) depth)"

definition push_edge :: "nat \<Rightarrow> neighbor_edge \<Rightarrow> trace_state \<Rightarrow> trace_state" where
  "push_edge depth edge st =
     (let edgeId = make_edge_id edge
      in if edgeId \<notin> set (tr_edge_ids st)
         then st\<lparr>tr_edge_ids := set_add edgeId (tr_edge_ids st),
                 tr_edges := tr_edges st @ [graph_edge_of (depth + 1) edge]\<rparr>
         else st)"

definition push_node :: "nat \<Rightarrow> string \<Rightarrow> neighbor_edge \<Rightarrow> trace_state \<Rightarrow> trace_state" where
  "push_node depth anchorKey edge st =
     (let neighbor = neighbor_of edge; neighborKey = node_key neighbor
      in st\<lparr>tr_visited := set_add neighborKey (tr_visited st),
            tr_nodes := tr_nodes st @ [neighbor],
            tr_depth_by_node := AList.update neighborKey (depth + 1) (tr_depth_by_node st),
            tr_parent_edge := AList.update neighborKey (make_edge_id edge) (tr_parent_edge st),
            tr_parent_node := AList.update neighborKey anchorKey (tr_parent_node st),
            tr_next_frontier := tr_next_frontier st @ [neighbor]\<rparr>)"

definition report_cycle :: "string \<Rightarrow> neighbor_edge \<Rightarrow> trace_state \<Rightarrow> trace_state" where
  "report_cycle anchorKey edge st =
     (let neighborKey = node_key (neighbor_of edge)
      in if \<not> tr_cycle_reported st \<and> is_ancestor (tr_parent_node st) anchorKey neighborKey
         then st\<lparr>tr_cycle_reported := True,
                 tr_issues := tr_issues st @ [\<lparr>di_code = ''CYCLE_DETECTED'', di_level = ''warning'',
                   di_node_id = Some neighborKey, di_details = [(''via_edge'', JStr (make_edge_id edge))]\<rparr>]\<rparr>
         else st)"

definition visit_edge :: "expand_options \<Rightarrow> nat \<Rightarrow> string \<Rightarrow> neighbor_edge \<Rightarrow> trace_state \<Rightarrow> trace_state" where
  "visit_edge opts depth anchorKey edge st =
     (if length (tr_edges st) \<ge> eo_max_edges opts
      then st\<lparr>tr_edge_budget_reached := True,
              tr_dropped_for_edge_budget := tr_dropped_for_edge_budget st + 1\<rparr>
      else
        let isNewNode = (node_key (neighbor_of edge) \<notin> set (tr_visited st))
        in if isNewNode \<and> length (tr_nodes st) \<ge> eo_max_nodes opts
           then st\<lparr>tr_node_budget_reached := True,
                   tr_dropped_for_node_budget := tr_dropped_for_node_budget st + 1\<rparr>
           else if isNewNode then push_node depth anchorKey edge (push_edge depth edge st)
           else report_cycle anchorKey edge (push_edge depth edge st))"

section \<open>One group, one level\<close>

definition add_branch :: "string \<Rightarrow> string \<Rightarrow> truncation_reason \<Rightarrow> nat \<Rightarrow> trace_state \<Rightarrow> trace_state" where
  "add_branch node dir reason dropped st =
     st\<lparr>tr_branches := tr_branches st @ [\<lparr>bt_node_id = node, bt_direction = dir, bt_reason = reason,
        bt_dropped = dropped\<rparr>]\<rparr>"

text \<open>\<open>gk.split("|")\<close>, of which the code takes the first two parts.\<close>

definition group_parts :: "string \<Rightarrow> string \<times> string" where
  "group_parts gk = (let parts = js_split (CHR ''|'') gk
     in (hd parts, (case tl parts of [] \<Rightarrow> ''undefined'' | d # _ \<Rightarrow> d)))"

definition visit_group ::
  "(string \<Rightarrow> int option) \<Rightarrow> expand_options \<Rightarrow> nat \<Rightarrow> string \<times> neighbor_edge list \<Rightarrow> trace_state \<Rightarrow> trace_state" where
  "visit_group pd opts depth grp st =
     (let (anchorKey, anchorDirection) = group_parts (fst grp);
          st1 = st\<lparr>tr_expanded_nodes := tr_expanded_nodes st + 1\<rparr>;
          (kept, st2) = filter_group pd opts [] (snd grp) st1;
          cap = eo_max_neighbors_per_node opts;
          slice = (if length kept > cap then take cap kept else kept);
          st3 = (if length kept > cap
                 then add_branch anchorKey anchorDirection NEIGHBOR_CAP (length kept - cap) st2 else st2);
          st4 = fold (visit_edge opts depth anchorKey) slice
                  (st3\<lparr>tr_dropped_for_node_budget := 0, tr_dropped_for_edge_budget := 0\<rparr>);
          st5 = (if tr_dropped_for_node_budget st4 > 0
                 then add_branch anchorKey anchorDirection NODE_BUDGET (tr_dropped_for_node_budget st4) st4 else st4)
      in if tr_dropped_for_edge_budget st5 > 0
         then add_branch anchorKey anchorDirection EDGE_BUDGET (tr_dropped_for_edge_budget st5) st5 else st5)"

definition group_key :: "neighbor_edge \<Rightarrow> string" where
  "group_key edge = node_key (anchor_of edge) @ ''|'' @ direction_name (ne_direction edge)"

definition group_edges :: "neighbor_edge list \<Rightarrow> (string \<times> neighbor_edge list) list" where
  "group_edges raw =
     foldl (\<lambda>grouped edge.
        case map_of grouped (group_key edge) of
          Some arr \<Rightarrow> AList.update (group_key edge) (arr @ [edge]) grouped
        | None \<Rightarrow> AList.update (group_key edge) [edge] grouped) [] raw"

definition visit_level ::
  "(string \<Rightarrow> int option) \<Rightarrow> expand_options \<Rightarrow> nat \<Rightarrow> node_ref list \<Rightarrow> trace_state \<Rightarrow> trace_state" where
  "visit_level pd opts depth frontier st =
     (let raw = concat (map (eo_fetch_neighbors opts frontier) (eo_directions opts))
      in fold (visit_group pd opts depth) (group_edges raw) (st\<lparr>tr_next_frontier := []\<rparr>))"

section \<open>The expansion\<close>

fun enter_seeds :: "expand_options \<Rightarrow> node_ref list \<Rightarrow> trace_state \<times> node_ref list \<Rightarrow> trace_state \<times> node_ref list" where
  "enter_seeds opts [] (st, start) = (st, start)"
| "enter_seeds opts (seed # seeds) (st, start) =
     (let key = node_key seed
      in if key \<in> set (tr_visited st) then enter_seeds opts seeds (st, start)
         else if \<not> eo_is_visible opts (nr_type seed)
         then enter_seeds opts seeds (st\<lparr>tr_hidden_by_permission := tr_hidden_by_permission st + 1\<rparr>, start)
         else enter_seeds opts seeds
           (st\<lparr>tr_visited := set_add key (tr_visited st), tr_nodes := tr_nodes st @ [seed],
               tr_depth_by_node := AList.update key 0 (tr_depth_by_node st)\<rparr>, start @ [seed]))"

text \<open>The loop over the levels: \<open>n\<close> levels remain of \<open>maxDepth\<close>.\<close>

fun level_loop ::
  "(string \<Rightarrow> int option) \<Rightarrow> expand_options \<Rightarrow> nat \<Rightarrow> nat \<Rightarrow> node_ref list \<times> trace_state \<Rightarrow> node_ref list \<times> trace_state" where
  "level_loop pd opts 0 depth (frontier, st) = (frontier, st)"
| "level_loop pd opts (Suc n) depth (frontier, st) =
     (if frontier = [] then (frontier, st)
      else if tr_node_budget_reached st \<or> tr_edge_budget_reached st
      then (frontier, st\<lparr>tr_depth_reached := True\<rparr>)
      else
        let st' = visit_level pd opts depth frontier st;
            frontier' = tr_next_frontier st';
            st'' = (if frontier' \<noteq> [] \<and> depth + 1 \<ge> eo_max_depth opts
                    then st'\<lparr>tr_depth_reached := True\<rparr> else st')
        in level_loop pd opts n (depth + 1) (frontier', st''))"

fun path_loop :: "nat \<Rightarrow> (string \<times> string) list \<Rightarrow> (string \<times> string) list \<Rightarrow> string option \<Rightarrow> string list \<Rightarrow> string list" where
  "path_loop 0 parentEdge parentNode cursor path = path"
| "path_loop (Suc n) parentEdge parentNode cursor path =
     (if \<not> truthy cursor then path
      else if \<not> truthy (map_of parentEdge (or_empty cursor)) then path
      else path_loop n parentEdge parentNode (map_of parentNode (or_empty cursor))
             (or_empty (map_of parentEdge (or_empty cursor)) # path))"

definition build_paths ::
  "node_ref list \<Rightarrow> (string \<times> string) list \<Rightarrow> (string \<times> string) list \<Rightarrow> (string \<times> string list) list" where
  "build_paths nodes parentEdge parentNode =
     foldl (\<lambda>out node. AList.update (node_key node)
        (path_loop 64 parentEdge parentNode (Some (node_key node)) []) out) [] nodes"

definition count_json :: "nat \<Rightarrow> json" where
  "count_json n = JNum (show_nat n)"

definition closing_issues :: "trace_state \<Rightarrow> data_quality_issue list" where
  "closing_issues st =
     (if tr_depth_reached st \<or> tr_node_budget_reached st \<or> tr_edge_budget_reached st
        \<or> length (tr_branches st) > 0
      then [\<lparr>di_code = ''TRUNCATED_BY_LIMITS'', di_level = ''info'', di_node_id = None,
             di_details = [(''depth_reached'', JBool (tr_depth_reached st)),
               (''node_budget_reached'', JBool (tr_node_budget_reached st)),
               (''edge_budget_reached'', JBool (tr_edge_budget_reached st)),
               (''branches'', count_json (length (tr_branches st)))]\<rparr>] else [])
     @ (if tr_hidden_by_permission st > 0
        then [\<lparr>di_code = ''TRUNCATED_BY_PERMISSIONS'', di_level = ''info'', di_node_id = None,
               di_details = [(''hidden'', count_json (tr_hidden_by_permission st))]\<rparr>] else [])"

definition expand_graph :: "(string \<Rightarrow> int option) \<Rightarrow> expand_options \<Rightarrow> expand_result" where
  "expand_graph pd opts =
     (let (st0, start) = enter_seeds opts (eo_seeds opts) (initial_trace_state, []);
          (frontier, st1) = level_loop pd opts (eo_max_depth opts) 0 (start, st0);
          st = (if frontier \<noteq> [] then st1\<lparr>tr_depth_reached := True\<rparr> else st1)
      in \<lparr>er_nodes = tr_nodes st, er_edges = tr_edges st,
          er_paths = build_paths (tr_nodes st) (tr_parent_edge st) (tr_parent_node st),
          er_depth_by_node = tr_depth_by_node st, er_depth_reached = tr_depth_reached st,
          er_node_budget_reached = tr_node_budget_reached st,
          er_edge_budget_reached = tr_edge_budget_reached st, er_branches = tr_branches st,
          er_visited_nodes = length (tr_nodes st), er_expanded_nodes = tr_expanded_nodes st,
          er_frontier_pending = length frontier,
          er_hidden_by_permission = tr_hidden_by_permission st,
          er_filtered_out = tr_filtered_out st,
          er_issues = tr_issues st @ closing_issues st\<rparr>)"

section \<open>Summaries\<close>

text \<open>\<open>localeCompare\<close> is the order of the collation keys \<open>ckey\<close> of the two texts.\<close>

definition summarize_by_type :: "(string \<Rightarrow> string) \<Rightarrow> node_ref list \<Rightarrow> (string \<times> nat) list" where
  "summarize_by_type ckey nodes =
     (let counts = foldl (\<lambda>m n. AList.update (nr_type n)
            ((case map_of m (nr_type n) of None \<Rightarrow> 0 | Some c \<Rightarrow> c) + 1) m) [] nodes
      in sort_key (\<lambda>(t, c). - int c) (sort_key (\<lambda>(t, c). ckey t) counts))"

definition summarize_proof :: "graph_edge list \<Rightarrow> nat \<times> nat \<times> nat" where
  "summarize_proof edges =
     foldl (\<lambda>(p, d, u) e. case ne_proof_level e of
         PROVEN \<Rightarrow> (p + 1, d, u) | DECLARED \<Rightarrow> (p, d + 1, u) | UNKNOWN_PROOF \<Rightarrow> (p, d, u + 1)) (0, 0, 0) edges"

end
