(* ===== verification/Trace_Invariants.thy ===== *)
theory Trace_Invariants
  imports Trace_Graph
begin

text \<open>
  What the graph engine of the genealogy guarantees: the invariants kept by every edge, group
  and level of an expansion, and the properties of its result.

  The contract of the repository is \<open>fetch_ok\<close>: an edge it returns is anchored at a node of the
  frontier it was asked about, and its two keys hold none of the marks of edge and group
  identifiers. The keys of nodes identified by a UUID or a number are of that kind
  (\<open>plain_shape\<close>).
\<close>

section \<open>The contract of the repository\<close>

definition plain_ref :: "node_ref \<Rightarrow> bool" where
  "plain_ref r \<longleftrightarrow> set (node_key r) \<inter> {CHR ''|'', CHR ''='', CHR ''#''} = {}"

definition fetch_ok :: "expand_options \<Rightarrow> bool" where
  "fetch_ok opts \<longleftrightarrow> (\<forall>refs d. \<forall>e \<in> set (eo_fetch_neighbors opts refs d).
     anchor_of e \<in> set refs \<and> plain_ref (ne_from e) \<and> plain_ref (ne_to e))"

lemma trim_blank_chars: "c \<in> set s \<Longrightarrow> c \<in> set (js_trim s) \<or> js_space c"
proof -
  have d: "c \<in> set xs \<Longrightarrow> c \<in> set (dropWhile js_space xs) \<or> js_space c" for xs
    by (induction xs) auto
  show "c \<in> set s \<Longrightarrow> ?thesis"
    using d [of s] d [of "rev (dropWhile js_space s)"] by (auto simp: js_trim_def)
qed

lemma plain_shape:
  assumes "is_traceability_node_type (nr_type r)" "node_id_shape_is_valid r" "nr_type r \<noteq> ''client''"
  shows "plain_ref r"
proof -
  let ?bad = "{CHR ''|'', CHR ''='', CHR ''#''}"
  have "nr_type r \<in> set UUID_KEYED \<or> nr_type r \<in> set BIGINT_KEYED"
    using tables_complete(5) assms(1,3) unfolding list_all_iff is_traceability_node_type_def by blast
  then have v: "is_uuid (js_trim (nr_id r)) \<or> is_bigint_id (js_trim (nr_id r))"
    using assms(2) by (auto simp: node_id_shape_is_valid_def Let_def split: if_splits)
  have hex: "c \<notin> ?bad" if "hex_digit c \<or> c = CHR ''-'' \<or> is_digit c \<or> js_space c" for c
    using that by (auto simp: hex_digit_def is_digit_def js_space_def)
  have e: "\<forall>(i, c) \<in> set (enumerate n s). P c \<Longrightarrow> \<forall>c \<in> set s. P c" for n s and P :: "char \<Rightarrow> bool"
    by (induction s arbitrary: n) auto
  have "hex_digit c \<or> c = CHR ''-'' \<or> is_digit c \<or> js_space c" if "c \<in> set (nr_id r)" for c
  proof -
    let ?s = "js_trim (js_trim (nr_id r))"
    have "\<forall>c \<in> set ?s. hex_digit c \<or> c = CHR ''-'' \<or> is_digit c"
    proof (cases "is_bigint_id (js_trim (nr_id r))")
      case True
      then show ?thesis by (simp add: is_bigint_id_def Let_def list_all_iff)
    next
      case False
      with v have "\<forall>(i, c) \<in> set (enumerate 0 ?s). hex_digit c \<or> c = CHR ''-'' \<or> is_digit c"
        by (auto simp: is_uuid_def Let_def list_all_iff split: if_splits)
      then show ?thesis by (rule e)
    qed
    then show ?thesis using trim_blank_chars [OF that] trim_blank_chars [of c "js_trim (nr_id r)"] by blast
  qed
  then have "set (nr_id r) \<inter> ?bad = {}" using hex by blast
  moreover have "set (nr_type r) \<inter> ?bad = {}"
    using node_type_marks [OF assms(1)] by (auto simp: marks_def)
  ultimately show ?thesis by (auto simp: plain_ref_def node_key_def)
qed

text \<open>An edge's identifier determines its two ends.\<close>

lemma split_at_mark: "c \<notin> set a \<Longrightarrow> c \<notin> set b \<Longrightarrow> a @ c # x = b @ c # y \<longleftrightarrow> a = b \<and> x = y"
  by (induction a arbitrary: b; case_tac b) auto

lemma edge_id_ends:
  assumes "plain_ref (ne_from e)" "plain_ref (ne_to e)" "plain_ref (ne_from f)" "plain_ref (ne_to f)"
    and "make_edge_id e = make_edge_id f"
  shows "node_key (ne_from e) = node_key (ne_from f)" "node_key (ne_to e) = node_key (ne_to f)"
proof -
  have id: "make_edge_id g = node_key (ne_from g) @ CHR ''='' # (CHR ''>'' # node_key (ne_to g) @
      CHR ''#'' # (ne_relation g @ (if truthy (ne_evidence_ref g) then ''@'' @ or_empty (ne_evidence_ref g) else [])))"
    for g :: "'c neighbor_edge_scheme" by (simp add: make_edge_id_def Let_def)
  from assms show "node_key (ne_from e) = node_key (ne_from f)" "node_key (ne_to e) = node_key (ne_to f)"
    unfolding id plain_ref_def by (auto simp: split_at_mark)
qed

section \<open>Edges inside the graph\<close>

lemma graph_edge_of_base [simp]:
  "ne_direction (graph_edge_of d e) = ne_direction e" "ne_relation (graph_edge_of d e) = ne_relation e"
  "ne_from (graph_edge_of d e) = ne_from e" "ne_to (graph_edge_of d e) = ne_to e"
  "ne_effective_at (graph_edge_of d e) = ne_effective_at e"
  "ne_evidence_ref (graph_edge_of d e) = ne_evidence_ref e"
  by (simp_all add: graph_edge_of_def neighbor_edge.defs graph_edge.defs)

lemma graph_edge_of_sel [simp]:
  "ge_edge_id (graph_edge_of d e) = make_edge_id e" "ge_depth (graph_edge_of d e) = d"
  "ge_source (graph_edge_of d e) = node_key (ne_from e)"
  "ge_target (graph_edge_of d e) = node_key (ne_to e)"
  by (simp_all add: graph_edge_of_def neighbor_edge.defs graph_edge.defs)

lemma graph_edge_of_derived [simp]:
  "make_edge_id (graph_edge_of d e) = make_edge_id e"
  "anchor_of (graph_edge_of d e) = anchor_of e" "neighbor_of (graph_edge_of d e) = neighbor_of e"
  by (simp_all add: make_edge_id_def anchor_of_def neighbor_of_def)

lemma graph_edge_of_wanted [simp]: "edge_wanted pd opts (graph_edge_of d e) = edge_wanted pd opts e"
  unfolding edge_wanted_def edge_within_period_def graph_edge_of_base graph_edge_of_derived ..

lemma anchor_neighbor_ends:
  "{node_key (anchor_of e), node_key (neighbor_of e)} = {node_key (ne_from e), node_key (ne_to e)}"
  by (auto simp: anchor_of_def neighbor_of_def)

section \<open>The invariant\<close>

definition nodes_ok :: "expand_options \<Rightarrow> trace_state \<Rightarrow> bool" where
  "nodes_ok opts st \<longleftrightarrow> distinct (map node_key (tr_nodes st)) \<and>
     set (tr_visited st) = node_key ` set (tr_nodes st) \<and>
     (\<forall>n \<in> set (tr_nodes st). eo_is_visible opts (nr_type n)) \<and>
     length (tr_nodes st) \<le> max (length (eo_seeds opts)) (eo_max_nodes opts)"

definition edges_ok :: "(string \<Rightarrow> int option) \<Rightarrow> expand_options \<Rightarrow> trace_state \<Rightarrow> bool" where
  "edges_ok pd opts st \<longleftrightarrow> tr_edge_ids st = map ge_edge_id (tr_edges st) \<and> distinct (tr_edge_ids st) \<and>
     length (tr_edges st) \<le> eo_max_edges opts \<and>
     (\<forall>e \<in> set (tr_edges st). ge_edge_id e = make_edge_id e \<and> plain_ref (ne_from e) \<and> plain_ref (ne_to e) \<and>
        ge_source e = node_key (ne_from e) \<and> ge_target e = node_key (ne_to e) \<and>
        node_key (ne_from e) \<in> set (tr_visited st) \<and> node_key (ne_to e) \<in> set (tr_visited st) \<and>
        edge_wanted pd opts e \<and> eo_is_visible opts (nr_type (neighbor_of e)))"

text \<open>The parent of a visited node that is not a seed: an edge of the graph from one level up.\<close>

definition has_parent :: "trace_state \<Rightarrow> string \<Rightarrow> nat \<Rightarrow> bool" where
  "has_parent st k m \<longleftrightarrow> (\<exists>e \<in> set (tr_edges st). node_key (neighbor_of e) = k \<and>
     map_of (tr_parent_edge st) k = Some (ge_edge_id e) \<and>
     map_of (tr_parent_node st) k = Some (node_key (anchor_of e)) \<and>
     map_of (tr_depth_by_node st) (node_key (anchor_of e)) = Some m)"

definition depths_ok :: "nat \<Rightarrow> trace_state \<Rightarrow> bool" where
  "depths_ok D st \<longleftrightarrow> dom (map_of (tr_depth_by_node st)) = set (tr_visited st) \<and>
     dom (map_of (tr_parent_edge st)) \<subseteq> set (tr_visited st) \<and>
     (\<forall>k d. map_of (tr_depth_by_node st) k = Some d \<longrightarrow> d \<le> D \<and>
        (case d of 0 \<Rightarrow> map_of (tr_parent_edge st) k = None | Suc m \<Rightarrow> has_parent st k m))"

definition frontier_ok :: "nat \<Rightarrow> node_ref list \<Rightarrow> trace_state \<Rightarrow> bool" where
  "frontier_ok D fs st \<longleftrightarrow> (\<forall>n \<in> set fs. map_of (tr_depth_by_node st) (node_key n) = Some D)"

text \<open>Only seeds are at depth zero.\<close>

definition roots_ok :: "expand_options \<Rightarrow> trace_state \<Rightarrow> bool" where
  "roots_ok opts st \<longleftrightarrow> (\<forall>k. map_of (tr_depth_by_node st) k = Some 0 \<longrightarrow> k \<in> node_key ` set (eo_seeds opts))"

lemmas trace_inv_defs = roots_ok_def nodes_ok_def edges_ok_def depths_ok_def frontier_ok_def has_parent_def

text \<open>The parts of the state the invariant reads.\<close>

definition same_graph :: "trace_state \<Rightarrow> trace_state \<Rightarrow> bool" where
  "same_graph s t \<longleftrightarrow> tr_visited s = tr_visited t \<and> tr_nodes s = tr_nodes t \<and>
     tr_depth_by_node s = tr_depth_by_node t \<and> tr_parent_edge s = tr_parent_edge t \<and>
     tr_parent_node s = tr_parent_node t \<and> tr_edges s = tr_edges t \<and> tr_edge_ids s = tr_edge_ids t"

definition graph_inv :: "(string \<Rightarrow> int option) \<Rightarrow> expand_options \<Rightarrow> nat \<Rightarrow> trace_state \<Rightarrow> bool" where
  "graph_inv pd opts D st \<longleftrightarrow>
     nodes_ok opts st \<and> edges_ok pd opts st \<and> depths_ok D st \<and> roots_ok opts st"

lemma same_graph_inv: "same_graph s t \<Longrightarrow> graph_inv pd opts D s = graph_inv pd opts D t"
  by (simp add: graph_inv_def trace_inv_defs same_graph_def cong: nat.case_cong)

lemma same_graph_frontier: "same_graph s t \<Longrightarrow> frontier_ok D fs s = frontier_ok D fs t"
  by (simp add: frontier_ok_def same_graph_def)

section \<open>One edge keeps the invariant\<close>

definition known_anchor :: "nat \<Rightarrow> string \<Rightarrow> neighbor_edge \<Rightarrow> trace_state \<Rightarrow> bool" where
  "known_anchor D a e st \<longleftrightarrow> a = node_key (anchor_of e) \<and> map_of (tr_depth_by_node st) a = Some D \<and>
     plain_ref (ne_from e) \<and> plain_ref (ne_to e)"

definition edge_accepted :: "(string \<Rightarrow> int option) \<Rightarrow> expand_options \<Rightarrow> neighbor_edge \<Rightarrow> bool" where
  "edge_accepted pd opts e \<longleftrightarrow> edge_wanted pd opts e \<and> eo_is_visible opts (nr_type (neighbor_of e))"

text \<open>An edge whose neighbour has been visited: only the edge list may grow.\<close>

lemma push_edge_known:
  assumes inv: "graph_inv pd opts D st" and acc: "edge_accepted pd opts e"
    and room: "length (tr_edges st) < eo_max_edges opts" and "known_anchor d a e st"
    and old: "node_key (neighbor_of e) \<in> set (tr_visited st)"
  shows "graph_inv pd opts D (push_edge d e st)"
proof -
  have a: "node_key (anchor_of e) \<in> set (tr_visited st)" and p: "plain_ref (ne_from e)" "plain_ref (ne_to e)"
    using assms(4) inv by (auto simp: known_anchor_def graph_inv_def depths_ok_def)
  then have ends: "node_key (ne_from e) \<in> set (tr_visited st)" "node_key (ne_to e) \<in> set (tr_visited st)"
    using old by (auto simp: anchor_of_def neighbor_of_def split: if_splits)
  have "nodes_ok opts (push_edge d e st)"
    using inv by (auto simp: graph_inv_def nodes_ok_def push_edge_def Let_def)
  moreover have "edges_ok pd opts (push_edge d e st)"
    using inv room acc p ends
    by (auto simp: graph_inv_def edges_ok_def push_edge_def Let_def set_add_def edge_accepted_def)
  moreover have "depths_ok D (push_edge d e st)"
    using inv by (fastforce simp: graph_inv_def depths_ok_def has_parent_def push_edge_def Let_def split: nat.splits)
  moreover have "roots_ok opts (push_edge d e st)"
    using inv by (simp add: graph_inv_def roots_ok_def push_edge_def Let_def)
  ultimately show ?thesis by (simp add: graph_inv_def)
qed

text \<open>An edge to a new node: its identifier is new as well.\<close>

lemma new_edge_id:
  assumes inv: "graph_inv pd opts D st" and "known_anchor d a e st"
    and new: "node_key (neighbor_of e) \<notin> set (tr_visited st)"
  shows "make_edge_id e \<notin> set (tr_edge_ids st)"
proof
  assume "make_edge_id e \<in> set (tr_edge_ids st)"
  then obtain f where f: "f \<in> set (tr_edges st)" "make_edge_id f = make_edge_id e"
    "plain_ref (ne_from f)" "plain_ref (ne_to f)"
    "node_key (ne_from f) \<in> set (tr_visited st)" "node_key (ne_to f) \<in> set (tr_visited st)"
    using inv by (auto simp: graph_inv_def edges_ok_def)
  have "plain_ref (ne_from e)" "plain_ref (ne_to e)" using assms(2) by (simp_all add: known_anchor_def)
  with f have "node_key (ne_from f) = node_key (ne_from e)" "node_key (ne_to f) = node_key (ne_to e)"
    using edge_id_ends [of f e] by blast+
  with f(5,6) new anchor_neighbor_ends [of e] show False by (auto simp: neighbor_of_def split: if_splits)
qed

lemma push_new_node:
  assumes inv: "graph_inv pd opts (Suc D) st" and acc: "edge_accepted pd opts e"
    and room: "length (tr_edges st) < eo_max_edges opts" "length (tr_nodes st) < eo_max_nodes opts"
    and k: "known_anchor D a e st"
    and new: "node_key (neighbor_of e) \<notin> set (tr_visited st)"
  shows "graph_inv pd opts (Suc D) (push_node D a e (push_edge D e st))"
proof -
  let ?n = "node_key (neighbor_of e)" and ?s = "push_node D a e (push_edge D e st)"
  note id = new_edge_id [OF inv k new]
  have a: "a = node_key (anchor_of e)" "map_of (tr_depth_by_node st) a = Some D"
    and p: "plain_ref (ne_from e)" "plain_ref (ne_to e)"
    using k unfolding known_anchor_def by blast+
  have av: "a \<in> set (tr_visited st)" using a inv by (auto simp: graph_inv_def depths_ok_def)
  have ends: "node_key (ne_from e) \<in> insert ?n (set (tr_visited st))"
    "node_key (ne_to e) \<in> insert ?n (set (tr_visited st))"
    using a(1) av by (auto simp: anchor_of_def neighbor_of_def split: if_splits)
  have "nodes_ok opts ?s"
    using inv acc room new id
    by (auto simp: graph_inv_def nodes_ok_def push_node_def push_edge_def Let_def edge_accepted_def)
  moreover have "edges_ok pd opts ?s"
    using inv acc room p id ends
    by (auto simp: graph_inv_def edges_ok_def push_node_def push_edge_def Let_def set_add_def edge_accepted_def)
  moreover have "depths_ok (Suc D) ?s"
  proof -
    have dom: "dom (map_of (tr_depth_by_node st)) = set (tr_visited st)"
      "dom (map_of (tr_parent_edge st)) \<subseteq> set (tr_visited st)"
      using inv by (auto simp: graph_inv_def depths_ok_def)
    have hp: "has_parent ?s k m" if par: "has_parent st k m" "k \<in> set (tr_visited st)" for k m
    proof -
      obtain f where f: "f \<in> set (tr_edges st)" "node_key (neighbor_of f) = k"
        "map_of (tr_parent_edge st) k = Some (ge_edge_id f)"
        "map_of (tr_parent_node st) k = Some (node_key (anchor_of f))"
        "map_of (tr_depth_by_node st) (node_key (anchor_of f)) = Some m"
        using par(1) unfolding has_parent_def by blast
      then have "node_key (anchor_of f) \<noteq> ?n" using new dom(1) by auto
      with f par(2) new show ?thesis
        by (auto simp: has_parent_def push_node_def push_edge_def Let_def update_conv' intro!: bexI [of _ f])
    qed
    have hn: "has_parent ?s ?n D"
      using id a new dom av
      by (auto simp: has_parent_def push_node_def push_edge_def Let_def update_conv'
          intro!: bexI [of _ "graph_edge_of (Suc D) e"])
    have "d \<le> Suc D \<and> (case d of 0 \<Rightarrow> map_of (tr_parent_edge ?s) k = None | Suc m \<Rightarrow> has_parent ?s k m)"
      if "map_of (tr_depth_by_node ?s) k = Some d" for k d
    proof (cases "k = ?n")
      case True
      with that have "d = Suc D" by (simp add: push_node_def push_edge_def Let_def update_conv')
      with hn True show ?thesis by simp
    next
      case False
      with that have o: "map_of (tr_depth_by_node st) k = Some d"
        by (auto simp: push_node_def push_edge_def Let_def update_conv' split: if_splits)
      then have kv: "k \<in> set (tr_visited st)" using dom by auto
      from o inv have "d \<le> Suc D \<and> (case d of 0 \<Rightarrow> map_of (tr_parent_edge st) k = None | Suc m \<Rightarrow> has_parent st k m)"
        by (simp add: graph_inv_def depths_ok_def)
      moreover have "map_of (tr_parent_edge ?s) k = map_of (tr_parent_edge st) k"
        using False by (simp add: push_node_def push_edge_def Let_def update_conv')
      ultimately show ?thesis using hp [OF _ kv] by (auto split: nat.splits)
    qed
    moreover have "dom (map_of (tr_depth_by_node ?s)) = set (tr_visited ?s)"
      "dom (map_of (tr_parent_edge ?s)) \<subseteq> set (tr_visited ?s)"
      using dom by (auto simp: push_node_def push_edge_def Let_def update_conv' split: if_splits)
    ultimately show ?thesis unfolding depths_ok_def by blast
  qed
  moreover have "roots_ok opts ?s"
    using inv by (simp add: graph_inv_def roots_ok_def push_node_def push_edge_def Let_def update_conv')
  ultimately show ?thesis by (simp add: graph_inv_def)
qed


text \<open>Where the loops only count: the graph is the same.\<close>

lemma same_graph_refl [simp]: "same_graph s s"
  by (simp add: same_graph_def)

lemma same_graph_trans: "same_graph r s \<Longrightarrow> same_graph s t \<Longrightarrow> same_graph r t"
  by (simp add: same_graph_def)

lemma same_graph_updates [simp]:
  "same_graph (s\<lparr>tr_filtered_out := n\<rparr>) t = same_graph s t"
  "same_graph (s\<lparr>tr_hidden_by_permission := n\<rparr>) t = same_graph s t"
  "same_graph (s\<lparr>tr_expanded_nodes := n\<rparr>) t = same_graph s t"
  "same_graph (s\<lparr>tr_next_frontier := fs\<rparr>) t = same_graph s t"
  "same_graph (s\<lparr>tr_depth_reached := b\<rparr>) t = same_graph s t"
  "same_graph (s\<lparr>tr_dropped_for_node_budget := n\<rparr>) t = same_graph s t"
  "same_graph (s\<lparr>tr_dropped_for_edge_budget := n\<rparr>) t = same_graph s t"
  "same_graph (s\<lparr>tr_node_budget_reached := b\<rparr>) t = same_graph s t"
  "same_graph (s\<lparr>tr_edge_budget_reached := b\<rparr>) t = same_graph s t"
  "same_graph (add_branch x y z n s) t = same_graph s t"
  "same_graph (report_cycle a e s) t = same_graph s t"
  by (simp_all add: same_graph_def add_branch_def report_cycle_def Let_def)

lemma filter_group_spec:
  "filter_group pd opts kept es st = (kept', st') \<Longrightarrow>
     kept' = kept @ filter (edge_accepted pd opts) es \<and> same_graph st' st \<and>
     tr_next_frontier st' = tr_next_frontier st \<and> tr_branches st' = tr_branches st \<and>
     tr_node_budget_reached st' = tr_node_budget_reached st \<and>
     tr_edge_budget_reached st' = tr_edge_budget_reached st \<and> tr_depth_reached st' = tr_depth_reached st"
proof (induction es arbitrary: kept st)
  case (Cons e es)
  consider "\<not> edge_wanted pd opts e" | "edge_wanted pd opts e" "\<not> eo_is_visible opts (nr_type (neighbor_of e))"
    | "edge_accepted pd opts e" by (auto simp: edge_accepted_def)
  then show ?case
  proof cases
    case 1
    then have "filter_group pd opts kept es (st\<lparr>tr_filtered_out := tr_filtered_out st + 1\<rparr>) = (kept', st')"
      using Cons.prems by simp
    from Cons.IH [OF this] 1 show ?thesis by (simp add: edge_accepted_def same_graph_def)
  next
    case 2
    then have "filter_group pd opts kept es
        (st\<lparr>tr_hidden_by_permission := tr_hidden_by_permission st + 1\<rparr>) = (kept', st')"
      using Cons.prems by simp
    from Cons.IH [OF this] 2 show ?thesis by (simp add: edge_accepted_def same_graph_def)
  next
    case 3
    then have "filter_group pd opts (kept @ [e]) es st = (kept', st')"
      using Cons.prems by (simp add: edge_accepted_def)
    from Cons.IH [OF this] 3 show ?thesis by simp
  qed
qed auto

section \<open>A group and a level keep the invariant\<close>

text \<open>The invariant inside level \<open>D\<close>: the next frontier is one level down.\<close>

definition level_inv :: "(string \<Rightarrow> int option) \<Rightarrow> expand_options \<Rightarrow> nat \<Rightarrow> trace_state \<Rightarrow> bool" where
  "level_inv pd opts D st \<longleftrightarrow> graph_inv pd opts (Suc D) st \<and> frontier_ok (Suc D) (tr_next_frontier st) st"

lemma level_inv_cong:
  "same_graph s t \<Longrightarrow> tr_next_frontier s = tr_next_frontier t \<Longrightarrow> level_inv pd opts D s = level_inv pd opts D t"
  by (simp add: level_inv_def same_graph_inv [of s t] same_graph_frontier [of s t])

text \<open>Depths, once set, do not change.\<close>

definition depth_extends :: "trace_state \<Rightarrow> trace_state \<Rightarrow> bool" where
  "depth_extends s t \<longleftrightarrow> map_of (tr_depth_by_node s) \<subseteq>\<^sub>m map_of (tr_depth_by_node t)"

lemma depth_extends_refl [simp]: "depth_extends s s"
  by (simp add: depth_extends_def)

lemma depth_extends_trans: "depth_extends r s \<Longrightarrow> depth_extends s t \<Longrightarrow> depth_extends r t"
  by (auto simp: depth_extends_def intro: map_le_trans)

lemma depth_extends_same: "same_graph s t \<Longrightarrow> depth_extends s t"
  by (simp add: depth_extends_def same_graph_def)

lemma known_anchor_extends: "known_anchor D a e s \<Longrightarrow> depth_extends s t \<Longrightarrow> known_anchor D a e t"
  unfolding known_anchor_def depth_extends_def map_le_def by (metis domI)

lemma frontier_ok_extends: "frontier_ok D fs s \<Longrightarrow> depth_extends s t \<Longrightarrow> frontier_ok D fs t"
  unfolding frontier_ok_def depth_extends_def map_le_def by (metis domI)

lemma visit_edge_inv:
  assumes inv: "level_inv pd opts D st" and acc: "edge_accepted pd opts e" and k: "known_anchor D a e st"
  shows "level_inv pd opts D (visit_edge opts D a e st)" "depth_extends st (visit_edge opts D a e st)"
proof -
  let ?n = "node_key (neighbor_of e)" and ?t = "visit_edge opts D a e st"
  have g: "graph_inv pd opts (Suc D) st" using inv by (simp add: level_inv_def)
  consider (budget) "same_graph ?t st" "tr_next_frontier ?t = tr_next_frontier st"
    | (new) "?t = push_node D a e (push_edge D e st)" "length (tr_edges st) < eo_max_edges opts"
        "length (tr_nodes st) < eo_max_nodes opts" "?n \<notin> set (tr_visited st)"
    | (old) "?t = report_cycle a e (push_edge D e st)" "length (tr_edges st) < eo_max_edges opts"
        "?n \<in> set (tr_visited st)"
  proof (cases "length (tr_edges st) < eo_max_edges opts \<and>
      (?n \<in> set (tr_visited st) \<or> length (tr_nodes st) < eo_max_nodes opts)")
    case True
    then show thesis
      by (cases "?n \<in> set (tr_visited st)") (rule old new; simp add: visit_edge_def Let_def)+
  next
    case False
    then have "same_graph ?t st \<and> tr_next_frontier ?t = tr_next_frontier st"
      by (auto simp: visit_edge_def Let_def not_less)
    then show thesis using budget by blast
  qed
  then have "level_inv pd opts D ?t \<and> depth_extends st ?t"
  proof cases
    case budget
    have "level_inv pd opts D ?t" using inv level_inv_cong [OF budget] by blast
    moreover have "depth_extends st ?t" using budget(1) by (simp add: depth_extends_def same_graph_def)
    ultimately show ?thesis ..
  next
    case new
    have "map_of (tr_depth_by_node st) ?n = None"
      using g new(4) by (auto simp: graph_inv_def depths_ok_def)
    then have "depth_extends st ?t"
      unfolding new(1) by (auto simp: depth_extends_def push_node_def push_edge_def Let_def update_conv' map_le_def)
    moreover have "graph_inv pd opts (Suc D) ?t"
      unfolding new(1) by (rule push_new_node [OF g acc new(2,3) k new(4)])
    moreover have "tr_next_frontier ?t = tr_next_frontier st @ [neighbor_of e]"
      "map_of (tr_depth_by_node ?t) ?n = Some (Suc D)"
      unfolding new(1) by (simp_all add: push_node_def push_edge_def Let_def update_conv')
    ultimately show ?thesis
      using inv frontier_ok_extends [of "Suc D" "tr_next_frontier st" st ?t]
      by (simp add: level_inv_def) (simp add: frontier_ok_def)
  next
    case old
    have p: "graph_inv pd opts (Suc D) (push_edge D e st)"
      by (rule push_edge_known [OF g acc old(2) k old(3)])
    have s: "same_graph ?t (push_edge D e st)" unfolding old(1) by simp
    have f: "tr_next_frontier ?t = tr_next_frontier st"
      "tr_depth_by_node ?t = tr_depth_by_node st"
      unfolding old(1) by (simp_all add: report_cycle_def push_edge_def Let_def)
    have "graph_inv pd opts (Suc D) ?t" using p same_graph_inv [OF s] by simp
    with f inv show ?thesis by (simp add: level_inv_def frontier_ok_def depth_extends_def)
  qed
  then show "level_inv pd opts D ?t" "depth_extends st ?t" by simp_all
qed

lemma visit_edges_inv:
  assumes "level_inv pd opts D st" "\<And>e. e \<in> set es \<Longrightarrow> edge_accepted pd opts e \<and> known_anchor D a e st"
  shows "level_inv pd opts D (fold (visit_edge opts D a) es st) \<and>
    depth_extends st (fold (visit_edge opts D a) es st)"
  using assms
proof (induction es arbitrary: st)
  case (Cons e es)
  let ?t = "visit_edge opts D a e st"
  have t: "level_inv pd opts D ?t" "depth_extends st ?t"
    using visit_edge_inv [OF Cons.prems(1)] Cons.prems(2) by auto
  have "edge_accepted pd opts f \<and> known_anchor D a f ?t" if "f \<in> set es" for f
    using Cons.prems(2) [of f] that known_anchor_extends [OF _ t(2)] by auto
  from Cons.IH [OF t(1) this] t(2) show ?case by (auto intro: depth_extends_trans)
qed simp

text \<open>No branch has been cut so far.\<close>

definition no_cut :: "trace_state \<Rightarrow> bool" where
  "no_cut st \<longleftrightarrow> \<not> tr_node_budget_reached st \<and> \<not> tr_edge_budget_reached st \<and> tr_branches st = []"

lemma visit_edge_branches: "tr_branches (visit_edge opts D a e st) = tr_branches st"
  by (simp add: visit_edge_def push_node_def push_edge_def report_cycle_def Let_def)

lemma visit_edges_branches: "tr_branches (fold (visit_edge opts D a) es st) = tr_branches st"
  by (induction es arbitrary: st) (simp_all add: visit_edge_branches)

lemma visit_edge_no_cut:
  assumes "no_cut (visit_edge opts D a e st)"
  shows "no_cut st" "make_edge_id e \<in> set (tr_edge_ids (visit_edge opts D a e st))"
proof -
  have c: "length (tr_edges st) < eo_max_edges opts"
    "node_key (neighbor_of e) \<in> set (tr_visited st) \<or> length (tr_nodes st) < eo_max_nodes opts"
    using assms by (auto simp: visit_edge_def no_cut_def Let_def not_le split: if_splits)
  then have v: "visit_edge opts D a e st = (if node_key (neighbor_of e) \<notin> set (tr_visited st)
      then push_node D a e (push_edge D e st) else report_cycle a e (push_edge D e st))"
    by (auto simp: visit_edge_def Let_def)
  show "no_cut st" "make_edge_id e \<in> set (tr_edge_ids (visit_edge opts D a e st))"
    using assms unfolding v
    by (auto simp: no_cut_def push_node_def push_edge_def report_cycle_def Let_def split: if_splits)
qed

lemma visit_edge_grows:
  "set (tr_edge_ids st) \<subseteq> set (tr_edge_ids (visit_edge opts D a e st))"
  "set (tr_nodes (visit_edge opts D a e st)) \<union> set (tr_next_frontier st) =
   set (tr_nodes st) \<union> set (tr_next_frontier (visit_edge opts D a e st))"
  by (auto simp: visit_edge_def push_node_def push_edge_def report_cycle_def Let_def)

lemma visit_edges_no_cut:
  "no_cut (fold (visit_edge opts D a) es st) \<Longrightarrow> no_cut st \<and>
     (\<forall>e \<in> set es. make_edge_id e \<in> set (tr_edge_ids (fold (visit_edge opts D a) es st)))"
  "set (tr_edge_ids st) \<subseteq> set (tr_edge_ids (fold (visit_edge opts D a) es st))"
  "set (tr_next_frontier st) \<subseteq> set (tr_next_frontier (fold (visit_edge opts D a) es st)) \<and>
   set (tr_nodes (fold (visit_edge opts D a) es st)) \<subseteq>
     set (tr_nodes st) \<union> set (tr_next_frontier (fold (visit_edge opts D a) es st))"
proof (induction es arbitrary: st)
  case (Cons e es)
  { case (1 st)
    let ?t = "visit_edge opts D a e st"
    have f: "no_cut (fold (visit_edge opts D a) es ?t)" using 1 by simp
    note t = Cons.IH(1) [OF f]
    note e = visit_edge_no_cut [OF conjunct1 [OF t]]
    show ?case using t e(1) subsetD [OF Cons.IH(2) [of ?t] e(2)] by simp }
  { case (2 st)
    show ?case using Cons.IH(2) [of "visit_edge opts D a e st"] visit_edge_grows(1) [of st] by fastforce }
  { case (3 st)
    let ?t = "visit_edge opts D a e st"
    have "set (tr_next_frontier st) \<subseteq> set (tr_next_frontier ?t)"
      by (auto simp: visit_edge_def push_node_def push_edge_def report_cycle_def Let_def)
    then show ?case using Cons.IH(3) [of ?t] visit_edge_grows(2) [where st = st and e = e and D = D and a = a and opts = opts]
      by fastforce }
qed auto

text \<open>The stages of a group.\<close>

lemma visit_group_stages:
  obtains st2 slice where
    "same_graph st2 st" "tr_next_frontier st2 = tr_next_frontier st"
    "set slice \<subseteq> set (filter (edge_accepted pd opts) (snd grp))"
    "same_graph (visit_group pd opts D grp st) (fold (visit_edge opts D (fst (group_parts (fst grp)))) slice st2)"
    "tr_next_frontier (visit_group pd opts D grp st) =
       tr_next_frontier (fold (visit_edge opts D (fst (group_parts (fst grp)))) slice st2)"
    "no_cut (visit_group pd opts D grp st) \<longrightarrow>
       no_cut (fold (visit_edge opts D (fst (group_parts (fst grp)))) slice st2) \<and>
       slice = filter (edge_accepted pd opts) (snd grp)"
    "no_cut st2 \<longrightarrow> no_cut st"
proof -
  let ?a = "fst (group_parts (fst grp))" and ?d = "snd (group_parts (fst grp))"
  let ?st1 = "st\<lparr>tr_expanded_nodes := tr_expanded_nodes st + 1\<rparr>"
  let ?cap = "eo_max_neighbors_per_node opts"
  obtain kept st2 where f: "filter_group pd opts [] (snd grp) ?st1 = (kept, st2)" by fastforce
  define st3 where "st3 = (if length kept > ?cap
      then add_branch ?a ?d NEIGHBOR_CAP (length kept - ?cap) st2 else st2)"
  define slice where "slice = (if length kept > ?cap then take ?cap kept else kept)"
  define st3' where "st3' = st3\<lparr>tr_dropped_for_node_budget := 0, tr_dropped_for_edge_budget := 0\<rparr>"
  define st4 where "st4 = fold (visit_edge opts D ?a) slice st3'"
  define st5 where "st5 = (if tr_dropped_for_node_budget st4 > 0
      then add_branch ?a ?d NODE_BUDGET (tr_dropped_for_node_budget st4) st4 else st4)"
  have v: "visit_group pd opts D grp st = (if tr_dropped_for_edge_budget st5 > 0
      then add_branch ?a ?d EDGE_BUDGET (tr_dropped_for_edge_budget st5) st5 else st5)"
    by (simp only: visit_group_def Let_def case_prod_unfold f fst_conv snd_conv st3_def slice_def
        st3'_def st4_def st5_def)
  note spec = filter_group_spec [OF f]
  show thesis
  proof (rule that [of st3' slice])
    show "same_graph st3' st" "tr_next_frontier st3' = tr_next_frontier st"
      using spec by (auto simp: st3'_def st3_def add_branch_def same_graph_def)
    show "set slice \<subseteq> set (filter (edge_accepted pd opts) (snd grp))"
      using spec by (auto simp: slice_def dest: in_set_takeD)
    show "same_graph (visit_group pd opts D grp st) (fold (visit_edge opts D ?a) slice st3')"
      by (simp add: v st4_def [symmetric] st5_def)
    show "tr_next_frontier (visit_group pd opts D grp st) =
       tr_next_frontier (fold (visit_edge opts D ?a) slice st3')"
      by (simp add: v st4_def [symmetric] st5_def add_branch_def)
    have "tr_branches st4 = tr_branches st3'" unfolding st4_def by (rule visit_edges_branches)
    then show "no_cut (visit_group pd opts D grp st) \<longrightarrow>
        no_cut (fold (visit_edge opts D ?a) slice st3') \<and> slice = filter (edge_accepted pd opts) (snd grp)"
      using spec unfolding v st4_def [symmetric]
      by (auto simp: no_cut_def st5_def add_branch_def slice_def st3'_def st3_def split: if_splits)
    show "no_cut st3' \<longrightarrow> no_cut st"
      using spec by (auto simp: no_cut_def st3'_def st3_def add_branch_def split: if_splits)
  qed
qed

definition group_ok :: "nat \<Rightarrow> string \<times> neighbor_edge list \<Rightarrow> trace_state \<Rightarrow> bool" where
  "group_ok D grp st \<longleftrightarrow> (\<forall>e \<in> set (snd grp). known_anchor D (fst (group_parts (fst grp))) e st)"

lemma visit_group_inv:
  assumes "level_inv pd opts D st" "group_ok D grp st"
  shows "level_inv pd opts D (visit_group pd opts D grp st) \<and> depth_extends st (visit_group pd opts D grp st)"
proof -
  obtain st2 slice where s: "same_graph st2 st" "tr_next_frontier st2 = tr_next_frontier st"
    "set slice \<subseteq> set (filter (edge_accepted pd opts) (snd grp))"
    and v: "same_graph (visit_group pd opts D grp st) (fold (visit_edge opts D (fst (group_parts (fst grp)))) slice st2)"
    "tr_next_frontier (visit_group pd opts D grp st) =
       tr_next_frontier (fold (visit_edge opts D (fst (group_parts (fst grp)))) slice st2)"
    by (rule visit_group_stages)
  have "level_inv pd opts D st2" using assms(1) level_inv_cong [OF s(1,2)] by simp
  moreover have e: "depth_extends st st2" using s(1) by (simp add: depth_extends_def same_graph_def)
  have "edge_accepted pd opts f \<and> known_anchor D (fst (group_parts (fst grp))) f st2" if "f \<in> set slice" for f
    using assms(2) s(3) that known_anchor_extends [OF _ e] by (auto simp: group_ok_def)
  ultimately have "level_inv pd opts D (fold (visit_edge opts D (fst (group_parts (fst grp)))) slice st2) \<and>
      depth_extends st2 (fold (visit_edge opts D (fst (group_parts (fst grp)))) slice st2)"
    by (rule visit_edges_inv)
  then show ?thesis
    using level_inv_cong [OF v] depth_extends_trans [OF e] v(1) by (auto simp: depth_extends_def same_graph_def)
qed

lemma visit_groups_inv:
  assumes "level_inv pd opts D st" "\<And>g. g \<in> set gs \<Longrightarrow> group_ok D g st"
  shows "level_inv pd opts D (fold (visit_group pd opts D) gs st) \<and>
    depth_extends st (fold (visit_group pd opts D) gs st)"
  using assms
proof (induction gs arbitrary: st)
  case (Cons g gs)
  let ?t = "visit_group pd opts D g st"
  have t: "level_inv pd opts D ?t" "depth_extends st ?t"
    using visit_group_inv [OF Cons.prems(1)] Cons.prems(2) by auto
  have "group_ok D h ?t" if "h \<in> set gs" for h
    using Cons.prems(2) [of h] that known_anchor_extends [OF _ t(2)] by (auto simp: group_ok_def)
  from Cons.IH [OF t(1) this] t(2) show ?case by (auto intro: depth_extends_trans)
qed simp

text \<open>The groups of a batch: each edge is filed under its own key.\<close>

lemma group_edges_spec:
  "(gk, es) \<in> set (group_edges raw) \<Longrightarrow> set es \<subseteq> set raw \<and> (\<forall>e \<in> set es. group_key e = gk)"
proof -
  let ?f = "\<lambda>grouped edge. case map_of grouped (group_key edge) of
          Some arr \<Rightarrow> AList.update (group_key edge) (arr @ [edge]) grouped
        | None \<Rightarrow> AList.update (group_key edge) [edge] grouped"
  have u: "(k, v) \<in> set (AList.update k' v' al) \<Longrightarrow> (k, v) \<in> set al \<or> k = k' \<and> v = v'"
    for k v k' v' and al :: "(string \<times> neighbor_edge list) list"
    by (induction al) (auto split: if_splits)
  have "\<forall>(k, v) \<in> set (foldl ?f acc raw'). set v \<subseteq> A \<union> set raw' \<and> (\<forall>e \<in> set v. group_key e = k)"
    if "\<forall>(k, v) \<in> set acc. set v \<subseteq> A \<and> (\<forall>e \<in> set v. group_key e = k)" for raw' acc A
    using that
  proof (induction raw' arbitrary: acc A)
    case (Cons e raw')
    have "\<forall>(k, v) \<in> set (?f acc e). set v \<subseteq> insert e A \<and> (\<forall>e \<in> set v. group_key e = k)"
      using Cons.prems by (fastforce dest!: u map_of_SomeD split: option.splits)
    from Cons.IH [OF this] show ?case by auto
  qed auto
  from this [of "[]" "{}" raw] show "(gk, es) \<in> set (group_edges raw) \<Longrightarrow> ?thesis"
    unfolding group_edges_def by fastforce
qed

lemma group_parts_key:
  assumes "plain_ref (anchor_of e)"
  shows "fst (group_parts (group_key e)) = node_key (anchor_of e)"
proof -
  have "CHR ''|'' \<notin> set (node_key (anchor_of e))" using assms by (auto simp: plain_ref_def)
  then have "js_split (CHR ''|'') (group_key e) =
      node_key (anchor_of e) # js_split (CHR ''|'') (direction_name (ne_direction e))"
    unfolding group_key_def using js_split_append_sep by simp
  then show ?thesis by (simp add: group_parts_def Let_def)
qed

lemma visit_level_inv:
  assumes fetch: "fetch_ok opts" and inv: "graph_inv pd opts D st" and fr: "frontier_ok D frontier st"
  shows "level_inv pd opts D (visit_level pd opts D frontier st)"
proof -
  let ?raw = "concat (map (eo_fetch_neighbors opts frontier) (eo_directions opts))"
  let ?st = "st\<lparr>tr_next_frontier := []\<rparr>"
  have "graph_inv pd opts (Suc D) st"
    using inv by (fastforce simp: graph_inv_def depths_ok_def)
  then have i: "level_inv pd opts D ?st"
    using same_graph_inv [of ?st st] by (simp add: level_inv_def frontier_ok_def)
  have "group_ok D g ?st" if g: "g \<in> set (group_edges ?raw)" for g
  proof -
    have e: "known_anchor D (fst (group_parts (fst g))) e ?st" if "e \<in> set (snd g)" for e
    proof -
      have r: "e \<in> set ?raw" "group_key e = fst g"
        using group_edges_spec [of "fst g" "snd g" ?raw] g that by auto
      then have "anchor_of e \<in> set frontier" "plain_ref (ne_from e)" "plain_ref (ne_to e)"
        using fetch by (auto simp: fetch_ok_def)
      moreover from this have "plain_ref (anchor_of e)" by (simp add: anchor_of_def)
      ultimately show ?thesis
        using group_parts_key [of e] r(2) fr by (simp add: known_anchor_def frontier_ok_def)
    qed
    then show ?thesis by (simp add: group_ok_def)
  qed
  with i show ?thesis
    unfolding visit_level_def Let_def using visit_groups_inv by blast
qed

section \<open>The whole expansion\<close>

lemma enter_seeds_inv:
  assumes "graph_inv pd opts 0 st" "frontier_ok 0 start st" "tr_edges st = []" "tr_parent_edge st = []"
    and "length (tr_nodes st) + length seeds \<le> length (eo_seeds opts)"
    and "enter_seeds opts seeds (st, start) = (st', start')"
    and "set seeds \<subseteq> set (eo_seeds opts)"
  shows "graph_inv pd opts 0 st' \<and> frontier_ok 0 start' st'"
  using assms
proof (induction seeds arbitrary: st start)
  case (Cons seed seeds)
  let ?k = "node_key seed"
  consider (known) "?k \<in> set (tr_visited st)" | (hidden) "?k \<notin> set (tr_visited st)" "\<not> eo_is_visible opts (nr_type seed)"
    | (enter) "?k \<notin> set (tr_visited st)" "eo_is_visible opts (nr_type seed)" by blast
  then show ?case
  proof cases
    case known
    then show ?thesis using Cons by simp
  next
    case hidden
    let ?t = "st\<lparr>tr_hidden_by_permission := tr_hidden_by_permission st + 1\<rparr>"
    have "same_graph ?t st" by simp
    then have "graph_inv pd opts 0 ?t" "frontier_ok 0 start ?t"
      using Cons.prems same_graph_inv same_graph_frontier by blast+
    then show ?thesis using Cons hidden by simp
  next
    case enter
    let ?t = "st\<lparr>tr_visited := set_add ?k (tr_visited st), tr_nodes := tr_nodes st @ [seed],
               tr_depth_by_node := AList.update ?k 0 (tr_depth_by_node st)\<rparr>"
    have g: "nodes_ok opts st" "edges_ok pd opts st" "depths_ok 0 st" "roots_ok opts st"
      using Cons.prems(1) by (simp_all add: graph_inv_def)
    have "nodes_ok opts ?t"
      using g(1) Cons.prems(5) enter by (auto simp: nodes_ok_def)
    moreover have "edges_ok pd opts ?t" using g(2) Cons.prems(3) by (simp add: edges_ok_def)
    moreover have "depths_ok 0 ?t"
      using g(3) Cons.prems(4) by (auto simp: depths_ok_def update_conv' split: if_splits nat.splits)
    moreover have "roots_ok opts ?t"
      using g(4) Cons.prems(7) by (auto simp: roots_ok_def update_conv')
    ultimately have "graph_inv pd opts 0 ?t" by (simp add: graph_inv_def)
    moreover have "frontier_ok 0 (start @ [seed]) ?t"
      using Cons.prems(2) by (auto simp: frontier_ok_def update_conv')
    moreover have "enter_seeds opts seeds (?t, start @ [seed]) = (st', start')"
      using Cons.prems(6) enter by (simp add: Let_def)
    moreover have "tr_edges ?t = []" "tr_parent_edge ?t = []"
      "length (tr_nodes ?t) + length seeds \<le> length (eo_seeds opts)" "set seeds \<subseteq> set (eo_seeds opts)"
      using Cons.prems(3-5,7) by simp_all
    ultimately show ?thesis using Cons.IH [of ?t "start @ [seed]"] by blast
  qed
qed auto

lemma level_loop_inv:
  assumes "fetch_ok opts" "graph_inv pd opts D st" "frontier_ok D frontier st"
    and "level_loop pd opts n D (frontier, st) = (frontier', st')"
  shows "\<exists>D' \<le> D + n. graph_inv pd opts D' st'"
  using assms
proof (induction n arbitrary: D frontier st)
  case (Suc n)
  show ?case
  proof (cases "frontier = [] \<or> tr_node_budget_reached st \<or> tr_edge_budget_reached st")
    case True
    then have "same_graph st' st" using Suc.prems(4) by (auto split: if_splits)
    then have "graph_inv pd opts D st'" using Suc.prems(2) same_graph_inv by blast
    then show ?thesis by (meson le_add1)
  next
    case False
    let ?v = "visit_level pd opts D frontier st"
    let ?w = "if tr_next_frontier ?v \<noteq> [] \<and> D + 1 \<ge> eo_max_depth opts then ?v\<lparr>tr_depth_reached := True\<rparr> else ?v"
    have l: "level_inv pd opts D ?v" by (rule visit_level_inv [OF Suc.prems(1-3)])
    have "same_graph ?w ?v" by simp
    then have "graph_inv pd opts (Suc D) ?w" "frontier_ok (Suc D) (tr_next_frontier ?v) ?w"
      using l same_graph_inv same_graph_frontier unfolding level_inv_def by blast+
    moreover have "level_loop pd opts n (Suc D) (tr_next_frontier ?v, ?w) = (frontier', st')"
      using Suc.prems(4) False by (simp add: Let_def)
    ultimately have "\<exists>D' \<le> Suc D + n. graph_inv pd opts D' st'" using Suc.IH [OF Suc.prems(1)] by blast
    then show ?thesis by simp
  qed
qed auto

lemma initial_inv: "graph_inv pd opts 0 initial_trace_state"
  by (simp add: graph_inv_def trace_inv_defs initial_trace_state_def)

text \<open>The final state of an expansion.\<close>

definition final_state :: "(string \<Rightarrow> int option) \<Rightarrow> expand_options \<Rightarrow> trace_state" where
  "final_state pd opts = snd (let (st0, start) = enter_seeds opts (eo_seeds opts) (initial_trace_state, [])
     in level_loop pd opts (eo_max_depth opts) 0 (start, st0))"

lemma expand_graph_final:
  "er_nodes (expand_graph pd opts) = tr_nodes (final_state pd opts)"
  "er_edges (expand_graph pd opts) = tr_edges (final_state pd opts)"
  "er_depth_by_node (expand_graph pd opts) = tr_depth_by_node (final_state pd opts)"
  "er_paths (expand_graph pd opts) = build_paths (tr_nodes (final_state pd opts))
     (tr_parent_edge (final_state pd opts)) (tr_parent_node (final_state pd opts))"
  by (simp_all add: expand_graph_def final_state_def Let_def case_prod_unfold)

lemma final_inv:
  assumes "fetch_ok opts"
  obtains D where "D \<le> eo_max_depth opts" "graph_inv pd opts D (final_state pd opts)"
proof -
  obtain st0 start where s: "enter_seeds opts (eo_seeds opts) (initial_trace_state, []) = (st0, start)"
    by fastforce
  have i: "graph_inv pd opts 0 st0" "frontier_ok 0 start st0"
    using enter_seeds_inv [OF initial_inv _ _ _ _ s, of pd]
    by (simp_all add: frontier_ok_def initial_trace_state_def)
  obtain f st' where l: "level_loop pd opts (eo_max_depth opts) 0 (start, st0) = (f, st')" by fastforce
  have "final_state pd opts = st'" by (simp add: final_state_def s l)
  with level_loop_inv [OF assms i l] that show thesis by auto
qed


section \<open>Nothing is lost without a sign\<close>

text \<open>Every accepted edge of a node is in the graph.\<close>

definition node_done :: "(string \<Rightarrow> int option) \<Rightarrow> expand_options \<Rightarrow> trace_state \<Rightarrow> node_ref \<Rightarrow> bool" where
  "node_done pd opts st n \<longleftrightarrow> (\<forall>d \<in> set (eo_directions opts). \<forall>e \<in> set (eo_fetch_neighbors opts [n] d).
     edge_accepted pd opts e \<longrightarrow> make_edge_id e \<in> set (tr_edge_ids st))"

definition fetch_local :: "expand_options \<Rightarrow> bool" where
  "fetch_local opts \<longleftrightarrow> (\<forall>refs d. set (eo_fetch_neighbors opts refs d) =
     (\<Union>r \<in> set refs. set (eo_fetch_neighbors opts [r] d)))"

lemma visit_group_no_cut:
  assumes "no_cut (visit_group pd opts D grp st)"
  shows "no_cut st" "\<forall>e \<in> set (snd grp). edge_accepted pd opts e \<longrightarrow>
      make_edge_id e \<in> set (tr_edge_ids (visit_group pd opts D grp st))"
proof -
  obtain st2 slice where s: "same_graph st2 st" "tr_next_frontier st2 = tr_next_frontier st"
    "set slice \<subseteq> set (filter (edge_accepted pd opts) (snd grp))"
    "same_graph (visit_group pd opts D grp st) (fold (visit_edge opts D (fst (group_parts (fst grp)))) slice st2)"
    "tr_next_frontier (visit_group pd opts D grp st) =
       tr_next_frontier (fold (visit_edge opts D (fst (group_parts (fst grp)))) slice st2)"
    and n: "no_cut (visit_group pd opts D grp st) \<longrightarrow>
       no_cut (fold (visit_edge opts D (fst (group_parts (fst grp)))) slice st2) \<and>
       slice = filter (edge_accepted pd opts) (snd grp)" "no_cut st2 \<longrightarrow> no_cut st"
    by (rule visit_group_stages [of st pd opts grp D])
  note f = mp [OF n(1) assms]
  note e = visit_edges_no_cut(1) [OF conjunct1 [OF f]]
  show "no_cut st" using e n(2) by blast
  show "\<forall>e \<in> set (snd grp). edge_accepted pd opts e \<longrightarrow>
      make_edge_id e \<in> set (tr_edge_ids (visit_group pd opts D grp st))"
    using e f s(4) by (auto simp: same_graph_def)
qed

lemma visit_group_grows:
  "set (tr_edge_ids st) \<subseteq> set (tr_edge_ids (visit_group pd opts D grp st))"
  "set (tr_next_frontier st) \<subseteq> set (tr_next_frontier (visit_group pd opts D grp st)) \<and>
   set (tr_nodes (visit_group pd opts D grp st)) \<subseteq>
     set (tr_nodes st) \<union> set (tr_next_frontier (visit_group pd opts D grp st))"
proof -
  obtain st2 slice where s: "same_graph st2 st" "tr_next_frontier st2 = tr_next_frontier st"
    "same_graph (visit_group pd opts D grp st) (fold (visit_edge opts D (fst (group_parts (fst grp)))) slice st2)"
    "tr_next_frontier (visit_group pd opts D grp st) =
       tr_next_frontier (fold (visit_edge opts D (fst (group_parts (fst grp)))) slice st2)"
    by (rule visit_group_stages [of st pd opts grp D])
  note e = visit_edges_no_cut(2,3) [of st2 opts D "fst (group_parts (fst grp))" slice]
  show "set (tr_edge_ids st) \<subseteq> set (tr_edge_ids (visit_group pd opts D grp st))"
    "set (tr_next_frontier st) \<subseteq> set (tr_next_frontier (visit_group pd opts D grp st)) \<and>
     set (tr_nodes (visit_group pd opts D grp st)) \<subseteq>
       set (tr_nodes st) \<union> set (tr_next_frontier (visit_group pd opts D grp st))"
    using e s by (simp_all add: same_graph_def)
qed

lemma visit_groups_no_cut:
  "no_cut (fold (visit_group pd opts D) gs st) \<Longrightarrow> no_cut st \<and>
     (\<forall>g \<in> set gs. \<forall>e \<in> set (snd g). edge_accepted pd opts e \<longrightarrow>
        make_edge_id e \<in> set (tr_edge_ids (fold (visit_group pd opts D) gs st)))"
  "set (tr_edge_ids st) \<subseteq> set (tr_edge_ids (fold (visit_group pd opts D) gs st))"
  "set (tr_next_frontier st) \<subseteq> set (tr_next_frontier (fold (visit_group pd opts D) gs st)) \<and>
   set (tr_nodes (fold (visit_group pd opts D) gs st)) \<subseteq>
     set (tr_nodes st) \<union> set (tr_next_frontier (fold (visit_group pd opts D) gs st))"
proof (induction gs arbitrary: st)
  case (Cons g gs)
  { case (1 st)
    let ?t = "visit_group pd opts D g st"
    have f: "no_cut (fold (visit_group pd opts D) gs ?t)" using 1 by simp
    note t = Cons.IH(1) [OF f]
    note e = visit_group_no_cut [OF conjunct1 [OF t]]
    have "set (tr_edge_ids ?t) \<subseteq> set (tr_edge_ids (fold (visit_group pd opts D) gs ?t))" by (rule Cons.IH(2))
    then show ?case using t e by auto }
  { case (2 st)
    show ?case using Cons.IH(2) [of "visit_group pd opts D g st"] visit_group_grows(1) [of st] by fastforce }
  { case (3 st)
    show ?case using Cons.IH(3) [of "visit_group pd opts D g st"] visit_group_grows(2) [of st pd opts D g] by fastforce }
qed auto

lemma group_edges_cover:
  "e \<in> set raw \<Longrightarrow> \<exists>g \<in> set (group_edges raw). e \<in> set (snd g)"
proof -
  let ?f = "\<lambda>grouped edge. case map_of grouped (group_key edge) of
          Some arr \<Rightarrow> AList.update (group_key edge) (arr @ [edge]) grouped
        | None \<Rightarrow> AList.update (group_key edge) [edge] grouped"
  let ?has = "\<lambda>al e. \<exists>v. map_of al (group_key e) = Some v \<and> e \<in> set v"
  have "?has (foldl ?f acc raw') e" if "?has acc e \<or> e \<in> set raw'" for raw' acc
    using that
  proof (induction raw' arbitrary: acc)
    case (Cons x raw')
    have "?has (?f acc x) e" if "?has acc e \<or> e = x"
      using that by (auto simp: update_conv' split: option.splits)
    then show ?case using Cons.IH [of "?f acc x"] Cons.prems by auto
  qed simp
  note h = this [of "[]" raw]
  assume "e \<in> set raw"
  with h obtain v where "map_of (group_edges raw) (group_key e) = Some v" "e \<in> set v"
    unfolding group_edges_def by blast
  then show ?thesis by (force dest: map_of_SomeD)
qed

lemma visit_level_no_cut:
  assumes "fetch_local opts" "no_cut (visit_level pd opts D frontier st)"
  shows "no_cut st" "\<forall>n \<in> set frontier. node_done pd opts (visit_level pd opts D frontier st) n"
proof -
  let ?raw = "concat (map (eo_fetch_neighbors opts frontier) (eo_directions opts))"
  let ?st = "st\<lparr>tr_next_frontier := []\<rparr>"
  have v: "visit_level pd opts D frontier st = fold (visit_group pd opts D) (group_edges ?raw) ?st"
    by (simp add: visit_level_def Let_def)
  note n = visit_groups_no_cut(1) [OF assms(2) [unfolded v]]
  show "no_cut st" using n by (simp add: no_cut_def)
  show "\<forall>n \<in> set frontier. node_done pd opts (visit_level pd opts D frontier st) n"
    unfolding node_done_def
  proof (intro ballI impI)
    fix m d e
    assume a: "m \<in> set frontier" "d \<in> set (eo_directions opts)" "e \<in> set (eo_fetch_neighbors opts [m] d)"
      "edge_accepted pd opts e"
    have "set (eo_fetch_neighbors opts frontier d) =
        (\<Union>r \<in> set frontier. set (eo_fetch_neighbors opts [r] d))"
      using assms(1) unfolding fetch_local_def by blast
    with a(1,3) have "e \<in> set (eo_fetch_neighbors opts frontier d)" by blast
    with a(2) have "e \<in> set ?raw" by auto
    with a(4) show "make_edge_id e \<in> set (tr_edge_ids (visit_level pd opts D frontier st))"
      using n group_edges_cover unfolding v by blast
  qed
qed

lemma visit_level_grows:
  "set (tr_edge_ids st) \<subseteq> set (tr_edge_ids (visit_level pd opts D frontier st))"
  "set (tr_nodes (visit_level pd opts D frontier st)) \<subseteq>
     set (tr_nodes st) \<union> set (tr_next_frontier (visit_level pd opts D frontier st))"
  unfolding visit_level_def Let_def
  using visit_groups_no_cut(2,3) [of "st\<lparr>tr_next_frontier := []\<rparr>" pd opts D] by fastforce+

definition closed_but :: "(string \<Rightarrow> int option) \<Rightarrow> expand_options \<Rightarrow> node_ref list \<Rightarrow> trace_state \<Rightarrow> bool" where
  "closed_but pd opts frontier st \<longleftrightarrow> (\<forall>n \<in> set (tr_nodes st). n \<in> set frontier \<or> node_done pd opts st n)"

lemma level_loop_no_cut:
  assumes "fetch_local opts"
  shows "level_loop pd opts n D (frontier, st) = (frontier', st') \<Longrightarrow> no_cut st' \<Longrightarrow> no_cut st"
proof (induction n arbitrary: D frontier st)
  case (Suc n)
  show ?case
  proof (cases "frontier = [] \<or> tr_node_budget_reached st \<or> tr_edge_budget_reached st")
    case True
    then show ?thesis using Suc.prems by (auto simp: no_cut_def split: if_splits)
  next
    case False
    let ?v = "visit_level pd opts D frontier st"
    let ?w = "if tr_next_frontier ?v \<noteq> [] \<and> D + 1 \<ge> eo_max_depth opts then ?v\<lparr>tr_depth_reached := True\<rparr> else ?v"
    have "level_loop pd opts n (Suc D) (tr_next_frontier ?v, ?w) = (frontier', st')"
      using Suc.prems(1) False by (simp add: Let_def)
    then have "no_cut ?w" using Suc.IH Suc.prems(2) by blast
    then have "no_cut ?v" by (simp add: no_cut_def split: if_splits)
    then show ?thesis by (rule visit_level_no_cut(1) [OF assms])
  qed
qed simp

lemma level_loop_closed:
  assumes "fetch_local opts" "closed_but pd opts frontier st"
    and "level_loop pd opts n D (frontier, st) = (frontier', st')"
  shows "no_cut st' \<and> \<not> tr_depth_reached st' \<longrightarrow> no_cut st \<and> closed_but pd opts frontier' st'"
  using assms
proof (induction n arbitrary: D frontier st)
  case (Suc n)
  show ?case
  proof (cases "frontier = [] \<or> tr_node_budget_reached st \<or> tr_edge_budget_reached st")
    case True
    then show ?thesis using Suc.prems(2,3) by (auto split: if_splits)
  next
    case False
    let ?v = "visit_level pd opts D frontier st"
    let ?w = "if tr_next_frontier ?v \<noteq> [] \<and> D + 1 \<ge> eo_max_depth opts then ?v\<lparr>tr_depth_reached := True\<rparr> else ?v"
    have l: "level_loop pd opts n (Suc D) (tr_next_frontier ?v, ?w) = (frontier', st')"
      using Suc.prems(3) False by (simp add: Let_def)
    have w: "tr_nodes ?w = tr_nodes ?v" "tr_edge_ids ?w = tr_edge_ids ?v" "no_cut ?w = no_cut ?v"
      by (simp_all add: no_cut_def)
    show ?thesis
    proof
      assume a: "no_cut st' \<and> \<not> tr_depth_reached st'"
      then have "no_cut ?w" using level_loop_no_cut [OF Suc.prems(1) l] by blast
      then have True: "no_cut ?v" by (simp only: w)
      note nc = visit_level_no_cut [OF Suc.prems(1) True]
      have g: "node_done pd opts ?v m" if "node_done pd opts st m" for m
        using that visit_level_grows(1) [of st pd opts D frontier] by (auto simp: node_done_def)
      have "node_done pd opts ?w m = node_done pd opts ?v m" for m by (simp only: node_done_def w)
      then have "closed_but pd opts (tr_next_frontier ?v) ?w"
        using Suc.prems(2) nc(2) g visit_level_grows(2) [of pd opts D frontier st]
        unfolding closed_but_def w(1) by blast
      from Suc.IH [OF Suc.prems(1) this l] a nc(1)
      show "no_cut st \<and> closed_but pd opts frontier' st'" by blast
    qed
  qed
qed auto

lemma enter_seeds_nodes:
  "enter_seeds opts seeds (st, start) = (st', start') \<Longrightarrow> set (tr_nodes st) \<subseteq> set start \<Longrightarrow>
   set (tr_nodes st') \<subseteq> set start'"
proof (induction seeds arbitrary: st start)
  case (Cons seed seeds)
  then show ?case by (fastforce simp: Let_def split: if_splits)
qed auto


text \<open>The list of identifiers is always that of the edges, whatever the repository answers.\<close>

definition ids_ok :: "trace_state \<Rightarrow> bool" where
  "ids_ok st \<longleftrightarrow> tr_edge_ids st = map make_edge_id (tr_edges st)"

lemma same_graph_ids: "same_graph s t \<Longrightarrow> ids_ok s = ids_ok t"
  by (simp add: ids_ok_def same_graph_def)

lemma visit_edge_ids: "ids_ok st \<Longrightarrow> ids_ok (visit_edge opts D a e st)"
  by (simp add: ids_ok_def visit_edge_def push_node_def push_edge_def report_cycle_def Let_def set_add_def)

lemma visit_group_ids: "ids_ok st \<Longrightarrow> ids_ok (visit_group pd opts D grp st)"
proof -
  have f: "ids_ok s \<Longrightarrow> ids_ok (fold (visit_edge opts D a) es s)" for s a es
    by (induction es arbitrary: s) (simp_all add: visit_edge_ids)
  assume "ids_ok st"
  then show ?thesis using f same_graph_ids by (metis visit_group_stages)
qed

lemma visit_level_ids: "ids_ok st \<Longrightarrow> ids_ok (visit_level pd opts D frontier st)"
proof -
  have f: "ids_ok s \<Longrightarrow> ids_ok (fold (visit_group pd opts D) gs s)" for s gs
    by (induction gs arbitrary: s) (simp_all add: visit_group_ids)
  assume "ids_ok st"
  then have "ids_ok (st\<lparr>tr_next_frontier := []\<rparr>)" by (simp add: ids_ok_def)
  then show ?thesis by (simp add: visit_level_def Let_def f)
qed

lemma level_loop_ids:
  "level_loop pd opts n D (frontier, st) = (frontier', st') \<Longrightarrow> ids_ok st \<Longrightarrow> ids_ok st'"
proof (induction n arbitrary: D frontier st)
  case (Suc n)
  then show ?case using visit_level_ids [of st pd opts D frontier]
    by (auto simp: Let_def ids_ok_def split: if_splits)
qed auto

lemma enter_seeds_ids:
  "enter_seeds opts seeds (st, start) = (st', start') \<Longrightarrow> ids_ok st \<Longrightarrow> ids_ok st'"
  by (induction seeds arbitrary: st start) (auto simp: Let_def ids_ok_def split: if_splits)

section \<open>Paths\<close>

text \<open>A path of evidence: edge identifiers that lead from one node to another through edges of
  the graph, each taken from its anchor to its neighbour.\<close>

fun proof_path :: "graph_edge list \<Rightarrow> string \<Rightarrow> string list \<Rightarrow> string \<Rightarrow> bool" where
  "proof_path es s [] t = (s = t)"
| "proof_path es s (i # is) t = (\<exists>e \<in> set es. ge_edge_id e = i \<and> node_key (anchor_of e) = s \<and>
     proof_path es (node_key (neighbor_of e)) is t)"

lemma proof_path_snoc:
  "proof_path es s is (node_key (anchor_of e)) \<Longrightarrow> e \<in> set es \<Longrightarrow>
   proof_path es s (is @ [ge_edge_id e]) (node_key (neighbor_of e))"
  by (induction "is" arbitrary: s) auto

lemma key_nonempty: "node_key r \<noteq> []" "make_edge_id e \<noteq> []"
  by (simp_all add: node_key_def make_edge_id_def)

lemma path_loop_spec:
  assumes inv: "graph_inv pd opts D st"
  shows "map_of (tr_depth_by_node st) (node_key n) = Some d \<Longrightarrow> d \<le> k \<Longrightarrow>
    \<exists>is root. path_loop k (tr_parent_edge st) (tr_parent_node st) (Some (node_key n)) acc = is @ acc \<and>
      length is = d \<and> root \<in> set (eo_seeds opts) \<and>
      proof_path (tr_edges st) (node_key root) is (node_key n)"
proof (induction k arbitrary: n d acc)
  case 0
  then have "node_key n \<in> node_key ` set (eo_seeds opts)"
    using inv by (simp add: graph_inv_def roots_ok_def)
  with 0 show ?case by auto
next
  case (Suc k)
  have step: "case d of 0 \<Rightarrow> map_of (tr_parent_edge st) (node_key n) = None
      | Suc m \<Rightarrow> has_parent st (node_key n) m"
    using inv Suc.prems(1) by (simp add: graph_inv_def depths_ok_def)
  show ?case
  proof (cases d)
    case 0
    then have "node_key n \<in> node_key ` set (eo_seeds opts)"
      using inv Suc.prems(1) by (simp add: graph_inv_def roots_ok_def)
    with step 0 show ?thesis by (auto simp: key_nonempty)
  next
    case (Suc m)
    then obtain e where e: "e \<in> set (tr_edges st)" "node_key (neighbor_of e) = node_key n"
      "map_of (tr_parent_edge st) (node_key n) = Some (ge_edge_id e)"
      "map_of (tr_parent_node st) (node_key n) = Some (node_key (anchor_of e))"
      "map_of (tr_depth_by_node st) (node_key (anchor_of e)) = Some m"
      using step by (auto simp: has_parent_def)
    have "ge_edge_id e \<noteq> []"
      using e(1) inv by (auto simp: graph_inv_def edges_ok_def key_nonempty)
    moreover obtain "is" root where i: "path_loop k (tr_parent_edge st) (tr_parent_node st)
        (Some (node_key (anchor_of e))) (ge_edge_id e # acc) = is @ ge_edge_id e # acc"
      "length is = m" "root \<in> set (eo_seeds opts)"
      "proof_path (tr_edges st) (node_key root) is (node_key (anchor_of e))"
      using Suc.IH [OF e(5), of "ge_edge_id e # acc"] Suc Suc.prems(2) by auto
    ultimately show ?thesis
      using e proof_path_snoc [OF i(4) e(1)] Suc
      by (intro exI [of _ "is @ [ge_edge_id e]"] exI [of _ root]) (simp add: key_nonempty)
  qed
qed

lemma build_paths_lookup:
  "map_of (build_paths ns pe pn) k =
     (if k \<in> node_key ` set ns then Some (path_loop 64 pe pn (Some k) []) else None)"
proof -
  have "map_of (foldl (\<lambda>out node. AList.update (node_key node)
        (path_loop 64 pe pn (Some (node_key node)) []) out) acc ns) k =
     (if k \<in> node_key ` set ns then Some (path_loop 64 pe pn (Some k) []) else map_of acc k)" for acc
    by (induction ns arbitrary: acc) (auto simp: update_conv')
  then show ?thesis by (simp add: build_paths_def)
qed

section \<open>Properties\<close>

text \<open>C5: an expansion stays within its bounds and within the caller's rights, and leaves no edge
  dangling. Nodes are distinct and of a visible type, at most the node budget (or the seeds, when
  there are more); edges are at most the edge budget, have distinct identifiers, satisfy the
  filters, lead to a visible type, and both their ends are nodes of the result.\<close>

theorem expansion_sound:
  assumes "fetch_ok opts"
  shows "distinct (map node_key (er_nodes (expand_graph pd opts))) \<and>
    (\<forall>n \<in> set (er_nodes (expand_graph pd opts)). eo_is_visible opts (nr_type n)) \<and>
    length (er_nodes (expand_graph pd opts)) \<le> max (length (eo_seeds opts)) (eo_max_nodes opts) \<and>
    length (er_edges (expand_graph pd opts)) \<le> eo_max_edges opts \<and>
    distinct (map ge_edge_id (er_edges (expand_graph pd opts))) \<and>
    (\<forall>e \<in> set (er_edges (expand_graph pd opts)).
       {ge_source e, ge_target e} \<subseteq> node_key ` set (er_nodes (expand_graph pd opts)) \<and>
       edge_wanted pd opts e \<and> eo_is_visible opts (nr_type (neighbor_of e)))"
proof -
  obtain D where "graph_inv pd opts D (final_state pd opts)" using final_inv [OF assms, of pd] by blast
  then show ?thesis
    by (auto simp: expand_graph_final graph_inv_def nodes_ok_def edges_ok_def)
qed

text \<open>with at most 64 levels, every node of the result has a path of evidence: as many edges as its
  depth, all of them edges of the result, leading to it from one of the seeds.\<close>

theorem expansion_paths:
  assumes "fetch_ok opts" "eo_max_depth opts \<le> 64" "n \<in> set (er_nodes (expand_graph pd opts))"
  shows "\<exists>p d root. map_of (er_paths (expand_graph pd opts)) (node_key n) = Some p \<and>
    map_of (er_depth_by_node (expand_graph pd opts)) (node_key n) = Some d \<and> d \<le> eo_max_depth opts \<and>
    length p = d \<and> root \<in> set (eo_seeds opts) \<and>
    proof_path (er_edges (expand_graph pd opts)) (node_key root) p (node_key n)"
proof -
  obtain D where D: "D \<le> eo_max_depth opts" and inv: "graph_inv pd opts D (final_state pd opts)"
    using final_inv [OF assms(1), of pd] by blast
  let ?st = "final_state pd opts"
  have n: "n \<in> set (tr_nodes ?st)" using assms(3) by (simp add: expand_graph_final)
  then have "node_key n \<in> dom (map_of (tr_depth_by_node ?st))"
    using inv by (auto simp: graph_inv_def nodes_ok_def depths_ok_def)
  then obtain d where d: "map_of (tr_depth_by_node ?st) (node_key n) = Some d" by blast
  then have "d \<le> D" using inv by (auto simp: graph_inv_def depths_ok_def)
  with path_loop_spec [OF inv d, of 64 "[]"] D assms(2) show ?thesis
    using n d by (auto simp: expand_graph_final build_paths_lookup)
qed


text \<open>A small genealogy: a lot consumed by a works order that produced another lot.\<close>

definition ref_of :: "string \<Rightarrow> string \<Rightarrow> node_ref" where
  "ref_of t i = \<lparr>nr_type = t, nr_id = i\<rparr>"

definition sample_edge :: "node_ref \<Rightarrow> node_ref \<Rightarrow> string \<Rightarrow> neighbor_edge" where
  "sample_edge a b rel = \<lparr>ne_direction = DOWNSTREAM, ne_relation = rel, ne_from = a, ne_to = b,
     ne_proof_level = PROVEN, ne_proof_source = ''stock'', ne_effective_at = None, ne_qty = None,
     ne_unit = None, ne_correlation_id = None, ne_evidence_ref = None, ne_historical_status = None,
     ne_meta = None\<rparr>"

definition sample_edges :: "neighbor_edge list" where
  "sample_edges = [sample_edge (ref_of ''lot'' ''1'') (ref_of ''of'' ''2'') ''CONSUMED_BY'',
     sample_edge (ref_of ''of'' ''2'') (ref_of ''lot'' ''3'') ''PRODUCED_BY'']"

definition sample_options :: expand_options where
  "sample_options = \<lparr>eo_seeds = [ref_of ''lot'' ''1''], eo_directions = [DOWNSTREAM], eo_max_depth = 5,
     eo_max_nodes = 10, eo_max_edges = 10, eo_max_neighbors_per_node = 5,
     eo_fetch_neighbors = (\<lambda>refs d. filter (\<lambda>e. ne_from e \<in> set refs \<and> ne_direction e = d) sample_edges),
     eo_is_visible = (\<lambda>t. t \<noteq> ''client''), eo_node_type_filter = None, eo_relation_filter = None,
     eo_period_from = None, eo_period_to = None\<rparr>"

lemma sample_fetch_ok: "fetch_ok sample_options" "fetch_local sample_options"
proof -
  have e: "\<forall>e \<in> set sample_edges. anchor_of e = ne_from e \<and> plain_ref (ne_from e) \<and> plain_ref (ne_to e)"
    by (simp add: sample_edges_def sample_edge_def anchor_of_def plain_ref_def node_key_def ref_of_def)
  then show "fetch_ok sample_options" by (auto simp: fetch_ok_def sample_options_def)
  show "fetch_local sample_options" by (auto simp: fetch_local_def sample_options_def)
qed

lemma sample_result:
  "er_nodes (expand_graph (\<lambda>_. None) sample_options) =
     [ref_of ''lot'' ''1'', ref_of ''of'' ''2'', ref_of ''lot'' ''3'']"
  "\<not> er_depth_reached (expand_graph (\<lambda>_. None) sample_options)"
  "\<not> er_node_budget_reached (expand_graph (\<lambda>_. None) sample_options)"
  "\<not> er_edge_budget_reached (expand_graph (\<lambda>_. None) sample_options)"
  "er_branches (expand_graph (\<lambda>_. None) sample_options) = []"
  by code_simp+

theorem expansion_sound_witness:
  "length (er_edges (expand_graph (\<lambda>_. None) sample_options)) \<le> 10"
  using expansion_sound [OF sample_fetch_ok(1), of "\<lambda>_. None"] by (simp add: sample_options_def)

theorem expansion_paths_witness:
  "\<exists>p. map_of (er_paths (expand_graph (\<lambda>_. None) sample_options)) ''lot:3'' = Some p"
proof -
  have "ref_of ''lot'' ''3'' \<in> set (er_nodes (expand_graph (\<lambda>_. None) sample_options))"
    unfolding sample_result by simp
  from expansion_paths [OF sample_fetch_ok(1) _ this] show ?thesis
    by (auto simp: node_key_def ref_of_def sample_options_def)
qed


end
