(* ===== verification/Quality_Release.thy ===== *)
theory Quality_Release
  imports Prelude Js_Number
begin

text \<open>
  \<open>src/module/qualite/domain/quality-release.ts\<close>: the ledger of the quantities of a control,
  the decision to release, hold or reject, the instruments used, the consumption of a
  derogation, and whether a quantity may be reserved, shipped or invoiced.

  A date is its number of milliseconds; \<open>new Date(text).getTime()\<close> is the parameter
  \<open>parse_date\<close>, with \<open>None\<close> for an invalid date. The French messages are presentation.
\<close>

definition EPS :: rat where "EPS = 1 / 1000000000"

lemma EPS_pos [simp]: "0 < EPS"
  by (simp add: EPS_def)

section \<open>The source of a control\<close>

definition QUALITY_SOURCE_TYPES :: "string list" where
  "QUALITY_SOURCE_TYPES = [''RECEPTION_LINE'', ''OF'', ''OF_OPERATION'', ''LOT'', ''STOCK_LEVEL'',
     ''ARTICLE'', ''PIECE_TECHNIQUE'', ''FOURNISSEUR'', ''DELIVERY_LINE'']"

record quality_source_ref =
  qs_source_type :: string
  qs_source_id :: string

definition assert_source_ref :: "(string option \<times> string option) option \<Rightarrow> quality_source_ref result" where
  "assert_source_ref ref =
     (let kind = (case ref of None \<Rightarrow> None | Some (t, _) \<Rightarrow> t);
          ident = js_trim (or_empty (case ref of None \<Rightarrow> None | Some (_, i) \<Rightarrow> i))
      in if \<not> truthy kind \<or> or_empty kind \<notin> set QUALITY_SOURCE_TYPES
         then Inl (HttpError 422 ''QUALITY_SOURCE_TYPE_REQUIRED'')
         else if ident = [] then Inl (HttpError 422 ''QUALITY_SOURCE_ID_REQUIRED'')
         else Inr \<lparr>qs_source_type = or_empty kind, qs_source_id = ident\<rparr>)"

section \<open>The ledger\<close>

record quantity_ledger =
  ql_population :: jsnum
  ql_controlled :: jsnum
  ql_conforming :: jsnum
  ql_released :: jsnum
  ql_held :: jsnum
  ql_scrapped :: jsnum
  ql_reworked :: jsnum
  ql_sorted :: jsnum
  ql_returned :: jsnum
  ql_consumed :: jsnum

definition EMPTY_LEDGER :: quantity_ledger where
  "EMPTY_LEDGER = \<lparr>ql_population = num 0, ql_controlled = num 0, ql_conforming = num 0,
     ql_released = num 0, ql_held = num 0, ql_scrapped = num 0, ql_reworked = num 0,
     ql_sorted = num 0, ql_returned = num 0, ql_consumed = num 0\<rparr>"

definition ledger_entries :: "quantity_ledger \<Rightarrow> (string \<times> jsnum) list" where
  "ledger_entries l = [(''population'', ql_population l), (''controlled'', ql_controlled l),
     (''conforming'', ql_conforming l), (''released'', ql_released l), (''held'', ql_held l),
     (''scrapped'', ql_scrapped l), (''reworked'', ql_reworked l), (''sorted'', ql_sorted l),
     (''returned'', ql_returned l), (''consumed'', ql_consumed l)]"

definition ledger_disposed_fields :: "quantity_ledger \<Rightarrow> jsnum list" where
  "ledger_disposed_fields l =
     [ql_released l, ql_held l, ql_scrapped l, ql_reworked l, ql_sorted l, ql_returned l]"

definition disposed_qty :: "quantity_ledger \<Rightarrow> jsnum" where
  "disposed_qty l = foldl num_add (num 0) (ledger_disposed_fields l)"

datatype quantity_problem = NOT_FINITE string | NEGATIVE string

definition ledger_problems :: "quantity_ledger \<Rightarrow> quantity_problem list" where
  "ledger_problems l = concat (map (\<lambda>(field, value).
     if \<not> num_finite value then [NOT_FINITE field]
     else if num_lt value (Fin (- EPS)) then [NEGATIVE field] else []) (ledger_entries l))"

definition plus_eps :: "jsnum \<Rightarrow> jsnum" where
  "plus_eps x = num_add x (Fin EPS)"

definition assert_quantity_ledger :: "quantity_ledger \<Rightarrow> unit result" where
  "assert_quantity_ledger l =
     (if length (ledger_problems l) > 0 then Inl (HttpError 422 ''QUALITY_QUANTITY_INVALID'')
      else if num_le (ql_population l) (Fin EPS) then Inl (HttpError 422 ''QUALITY_POPULATION_REQUIRED'')
      else if num_lt (plus_eps (ql_population l)) (ql_controlled l)
      then Inl (HttpError 422 ''QUALITY_CONTROLLED_EXCEEDS_POPULATION'')
      else if num_lt (plus_eps (ql_controlled l)) (ql_conforming l)
      then Inl (HttpError 422 ''QUALITY_CONFORMING_EXCEEDS_CONTROLLED'')
      else if num_lt (plus_eps (ql_conforming l)) (ql_released l)
      then Inl (HttpError 422 ''QUALITY_RELEASED_EXCEEDS_CONFORMING'')
      else if num_lt (plus_eps (ql_population l)) (disposed_qty l)
      then Inl (HttpError 422 ''QUALITY_DISPOSITIONS_EXCEED_POPULATION'')
      else if num_lt (plus_eps (ql_released l)) (ql_consumed l)
      then Inl (HttpError 422 ''QUALITY_CONSUMED_EXCEEDS_RELEASED'')
      else Inr ())"

definition remaining_undisposed_qty :: "quantity_ledger \<Rightarrow> jsnum" where
  "remaining_undisposed_qty l = num_max (num 0) (num_sub (ql_population l) (disposed_qty l))"

definition releasable_qty :: "quantity_ledger \<Rightarrow> jsnum" where
  "releasable_qty l = num_max (num 0)
     (num_min (num_sub (ql_conforming l) (ql_released l)) (remaining_undisposed_qty l))"

section \<open>The decision\<close>

datatype quality_release_decision = FULL | PARTIAL | HOLD | REJECT

datatype quality_verdict = V_CONFORME | V_NON_CONFORME | V_PARTIEL | V_EN_ATTENTE

record release_request =
  rr_decision :: quality_release_decision
  rr_qty :: jsnum
  rr_unit :: "string option"
  rr_ledger :: quantity_ledger
  rr_verdict :: quality_verdict
  rr_has_derogation :: bool
  rr_evidence_count :: jsnum

record release_outcome =
  ro_decision :: quality_release_decision
  ro_qty_released :: jsnum
  ro_qty_held :: jsnum
  ro_ledger :: quantity_ledger

definition hold_outcome :: "release_request \<Rightarrow> release_outcome result" where
  "hold_outcome request =
     (let ledger = rr_ledger request;
          held = num_min (remaining_undisposed_qty ledger)
            (if num_lt (Fin EPS) (rr_qty request) then rr_qty request else remaining_undisposed_qty ledger)
      in if num_le held (Fin EPS) then Inl (HttpError 422 ''QUALITY_NOTHING_TO_HOLD'')
         else Inr \<lparr>ro_decision = HOLD, ro_qty_released = num 0, ro_qty_held = held,
                ro_ledger = ledger\<lparr>ql_held := num_add (ql_held ledger) held\<rparr>\<rparr>)"

definition release_outcome_of :: "release_request \<Rightarrow> release_outcome result" where
  "release_outcome_of request =
     (if rr_verdict request = V_NON_CONFORME \<and> \<not> rr_has_derogation request
      then Inl (HttpError 422 ''QUALITY_RELEASE_REQUIRES_DEROGATION'')
      else if rr_verdict request = V_PARTIEL \<and> rr_decision request = FULL
      then Inl (HttpError 422 ''QUALITY_RELEASE_PARTIAL_ONLY'')
      else
        let maximum = releasable_qty (rr_ledger request)
        in if num_lt (plus_eps maximum) (rr_qty request)
           then Inl (HttpError 422 ''QUALITY_RELEASE_QTY_EXCEEDS_ALLOWED'')
           else if rr_decision request = FULL \<and> num_lt (plus_eps (rr_qty request)) maximum
           then Inl (HttpError 422 ''QUALITY_RELEASE_FULL_MISMATCH'')
           else if num_lt (rr_evidence_count request) (num 0)
           then Inl (HttpError 422 ''QUALITY_EVIDENCE_INVALID'')
           else
             let nextLedger = (rr_ledger request)\<lparr>ql_released :=
                   num_add (ql_released (rr_ledger request)) (rr_qty request)\<rparr>;
                 held = num_max (num 0) (remaining_undisposed_qty nextLedger)
             in Inr \<lparr>ro_decision = rr_decision request, ro_qty_released = rr_qty request,
                  ro_qty_held = (if rr_decision request = PARTIAL then held else num 0),
                  ro_ledger = nextLedger\<rparr>)"

definition evaluate_release_request :: "release_request \<Rightarrow> release_outcome result" where
  "evaluate_release_request request =
     bind_result (assert_quantity_ledger (rr_ledger request)) (\<lambda>_.
       if \<not> num_finite (rr_qty request) then Inl (HttpError 422 ''QUALITY_RELEASE_QTY_INVALID'')
       else if rr_decision request \<noteq> HOLD \<and> num_le (rr_qty request) (Fin EPS)
       then Inl (HttpError 422 ''QUALITY_RELEASE_QTY_REQUIRED'')
       else if \<not> truthy (rr_unit request) \<or> js_trim (or_empty (rr_unit request)) = []
       then Inl (HttpError 422 ''QUALITY_RELEASE_UNIT_REQUIRED'')
       else if rr_verdict request = V_EN_ATTENTE then Inl (HttpError 422 ''QUALITY_VERDICT_INCOMPLETE'')
       else if rr_decision request = HOLD then hold_outcome request
       else if rr_decision request = REJECT
       then Inr \<lparr>ro_decision = REJECT, ro_qty_released = num 0, ro_qty_held = num 0,
              ro_ledger = rr_ledger request\<rparr>
       else release_outcome_of request)"

section \<open>Instruments\<close>

record instrument_state =
  in_id :: string
  in_code :: "string option"
  in_designation :: "string option"
  in_statut :: "string option"
  in_criticite :: "string option"
  in_categorie :: "string option"
  in_next_due_date :: "string option"
  in_deleted :: bool

text \<open>The fields of a characteristic that the evaluation reads.\<close>

record instrument_requirement =
  ir_key :: string
  ir_requires_instrument :: bool
  ir_instrument_category :: "string option"

datatype usage_severity = USAGE_OK | USAGE_WARNING | USAGE_BLOCKING

datatype usage_code = UC_OK | UC_INSTRUMENT_REQUIRED | UC_INSTRUMENT_UNKNOWN | UC_INSTRUMENT_DELETED
  | UC_INSTRUMENT_INACTIVE | UC_INSTRUMENT_OUT_OF_SCOPE | UC_INSTRUMENT_OVERDUE_CRITICAL
  | UC_INSTRUMENT_OVERDUE

record instrument_usage_evaluation =
  iu_allowed :: bool
  iu_severity :: usage_severity
  iu_code :: usage_code

definition is_instrument_overdue :: "(string \<Rightarrow> int option) \<Rightarrow> instrument_state \<Rightarrow> int \<Rightarrow> bool" where
  "is_instrument_overdue parse_date i now =
     (if \<not> truthy (in_next_due_date i) then False
      else case parse_date (or_empty (in_next_due_date i)) of None \<Rightarrow> False | Some due \<Rightarrow> due < now)"

definition evaluate_instrument_usage ::
  "(string \<Rightarrow> int option) \<Rightarrow> instrument_requirement \<Rightarrow> instrument_state option \<Rightarrow> int \<Rightarrow> bool
    \<Rightarrow> instrument_usage_evaluation" where
  "evaluate_instrument_usage parse_date characteristic inst now block_on_overdue_critical =
     (let block = (\<lambda>code. \<lparr>iu_allowed = False, iu_severity = USAGE_BLOCKING, iu_code = code\<rparr>);
          fine = \<lparr>iu_allowed = True, iu_severity = USAGE_OK, iu_code = UC_OK\<rparr>
      in if \<not> ir_requires_instrument characteristic then fine
         else case inst of
           None \<Rightarrow> block UC_INSTRUMENT_REQUIRED
         | Some i \<Rightarrow>
             if in_deleted i then block UC_INSTRUMENT_DELETED
             else if js_upper (or_empty (in_statut i)) \<noteq> ''ACTIF'' then block UC_INSTRUMENT_INACTIVE
             else if truthy (ir_instrument_category characteristic)
               \<and> js_lower (js_trim (or_empty (in_categorie i)))
                 \<noteq> js_lower (js_trim (or_empty (ir_instrument_category characteristic)))
             then block UC_INSTRUMENT_OUT_OF_SCOPE
             else if \<not> is_instrument_overdue parse_date i now then fine
             else
               let critical = (js_upper (or_empty (in_criticite i)) = ''CRITIQUE'')
               in if critical \<and> block_on_overdue_critical then block UC_INSTRUMENT_OVERDUE_CRITICAL
                  else \<lparr>iu_allowed = True, iu_severity = USAGE_WARNING,
                    iu_code = (if critical then UC_INSTRUMENT_OVERDUE_CRITICAL else UC_INSTRUMENT_OVERDUE)\<rparr>)"

section \<open>Derogations\<close>

text \<open>The seven axes of a scope, of a derogation or of the context of its use.\<close>

record derogation_scope =
  ax_article_id :: "string option"
  ax_piece_technique_id :: "string option"
  ax_piece_version_id :: "string option"
  ax_lot_id :: "string option"
  ax_of_id :: "string option"
  ax_commande_id :: "string option"
  ax_bon_livraison_id :: "string option"

record derogation_state = derogation_scope +
  dg_id :: string
  dg_code :: string
  dg_status :: "string option"
  dg_max_qty :: "jsnum option"
  dg_unit :: "string option"
  dg_consumed_qty :: jsnum
  dg_valid_from :: "string option"
  dg_valid_to :: "string option"

record derogation_usage_context = derogation_scope +
  du_unit :: "string option"

datatype derogation_code = DC_OK | DC_NOT_APPROVED | DC_EXPIRED | DC_NOT_YET_VALID | DC_REVOKED
  | DC_OUT_OF_SCOPE | DC_UNIT_MISMATCH | DC_QTY_EXCEEDED

record derogation_usage_evaluation =
  de_allowed :: bool
  de_code :: derogation_code
  de_remaining_qty :: "jsnum option"

definition scope_axes :: "'a derogation_scope_scheme \<Rightarrow> string option list" where
  "scope_axes d = [ax_article_id d, ax_piece_technique_id d, ax_piece_version_id d, ax_lot_id d,
     ax_of_id d, ax_commande_id d, ax_bon_livraison_id d]"

definition derogation_remaining :: "derogation_state \<Rightarrow> jsnum option" where
  "derogation_remaining d =
     map_option (\<lambda>m. num_max (num 0) (num_sub m (dg_consumed_qty d))) (dg_max_qty d)"

definition evaluate_derogation_usage ::
  "(string \<Rightarrow> int option) \<Rightarrow> derogation_state \<Rightarrow> derogation_usage_context \<Rightarrow> jsnum \<Rightarrow> int
    \<Rightarrow> derogation_usage_evaluation" where
  "evaluate_derogation_usage parse_date derogation ctxt qty now =
     (let remaining = derogation_remaining derogation;
          deny = (\<lambda>code. \<lparr>de_allowed = False, de_code = code, de_remaining_qty = remaining\<rparr>);
          status = js_upper (or_empty (dg_status derogation));
          date = (\<lambda>v. if truthy v then parse_date (or_empty v) else None)
      in if status = ''REVOKED'' then deny DC_REVOKED
         else if status = ''EXPIRED'' then deny DC_EXPIRED
         else if status \<noteq> ''APPROVED'' \<and> status \<noteq> ''CONSUMED'' then deny DC_NOT_APPROVED
         else if (\<exists>f \<in> set_option (date (dg_valid_from derogation)). now < f) then deny DC_NOT_YET_VALID
         else if (\<exists>t \<in> set_option (date (dg_valid_to derogation)). now > t) then deny DC_EXPIRED
         else if (\<exists>(expected, actual) \<in> set (zip (scope_axes derogation) (scope_axes ctxt)).
             truthy expected \<and> actual \<noteq> expected) then deny DC_OUT_OF_SCOPE
         else if \<not> (\<exists>a \<in> set (scope_axes derogation). truthy a) then deny DC_OUT_OF_SCOPE
         else if truthy (dg_unit derogation) \<and> truthy (du_unit ctxt)
           \<and> js_trim (or_empty (dg_unit derogation)) \<noteq> js_trim (or_empty (du_unit ctxt))
         then deny DC_UNIT_MISMATCH
         else if \<not> num_finite qty \<or> num_le qty (Fin EPS) then deny DC_QTY_EXCEEDED
         else if (\<exists>r \<in> set_option remaining. num_lt (plus_eps r) qty) then deny DC_QTY_EXCEEDED
         else \<lparr>de_allowed = True, de_code = DC_OK, de_remaining_qty = remaining\<rparr>)"

datatype derogation_status = DG_APPROVED | DG_CONSUMED

definition derogation_status_after_consumption :: "jsnum option \<Rightarrow> jsnum \<Rightarrow> derogation_status" where
  "derogation_status_after_consumption max_qty consumed_qty =
     (case max_qty of
        None \<Rightarrow> DG_APPROVED
      | Some m \<Rightarrow> if num_le m (plus_eps consumed_qty) then DG_CONSUMED else DG_APPROVED)"

section \<open>Eligibility\<close>

datatype eligibility_purpose = RESERVE | SHIP | INVOICE

datatype lot_status = LOT_LIBERE | LOT_EN_ATTENTE | LOT_QUARANTAINE | LOT_BLOQUE

record eligibility_target =
  et_object_type :: string
  et_object_id :: string
  et_label :: "string option"
  et_qty_requested :: jsnum
  et_lot_status :: "lot_status option"
  et_qty_released :: jsnum
  et_qty_held :: jsnum
  et_qty_consumed :: jsnum
  et_open_nc_without_disposition :: jsnum
  et_pending_mandatory_controls :: jsnum
  et_derogation :: "(string \<times> string option) option"

datatype eligibility_block_code = EB_LOT_NOT_RELEASED | EB_LOT_QUARANTINE | EB_QTY_NOT_RELEASED
  | EB_OPEN_NON_CONFORMITY | EB_MANDATORY_CONTROL_PENDING | EB_DEROGATION_EXPIRED

record eligibility_block =
  eb_code :: eligibility_block_code
  eb_object_type :: string
  eb_object_id :: string

record eligibility_verdict =
  ev_allowed :: bool
  ev_qty_allowed :: jsnum
  ev_blocks :: "eligibility_block list"

definition derogation_lapsed :: "(string \<Rightarrow> int option) \<Rightarrow> string \<times> string option \<Rightarrow> int \<Rightarrow> bool" where
  "derogation_lapsed parse_date d now =
     (let status = js_upper (fst d)
      in status = ''EXPIRED'' \<or> status = ''REVOKED''
         \<or> (if truthy (snd d)
            then (case parse_date (or_empty (snd d)) of None \<Rightarrow> False | Some t \<Rightarrow> t < now) else False))"

definition available_released :: "eligibility_target \<Rightarrow> jsnum" where
  "available_released target = num_max (num 0) (num_sub (et_qty_released target) (et_qty_consumed target))"

definition requested_qty :: "eligibility_target \<Rightarrow> jsnum" where
  "requested_qty target =
     (if num_finite (et_qty_requested target) then num_max (num 0) (et_qty_requested target) else num 0)"

definition eligibility_codes ::
  "(string \<Rightarrow> int option) \<Rightarrow> eligibility_target \<Rightarrow> int \<Rightarrow> eligibility_block_code list" where
  "eligibility_codes parse_date target now =
     (if et_lot_status target = Some LOT_BLOQUE then [EB_LOT_NOT_RELEASED] else [])
   @ (if et_lot_status target = Some LOT_QUARANTAINE \<or> et_lot_status target = Some LOT_EN_ATTENTE
      then [EB_LOT_QUARANTINE] else [])
   @ (if num_lt (num 0) (et_pending_mandatory_controls target) then [EB_MANDATORY_CONTROL_PENDING] else [])
   @ (if num_lt (num 0) (et_open_nc_without_disposition target) then [EB_OPEN_NON_CONFORMITY] else [])
   @ (if (\<exists>d \<in> set_option (et_derogation target). derogation_lapsed parse_date d now)
      then [EB_DEROGATION_EXPIRED] else [])
   @ (if num_lt (plus_eps (available_released target)) (requested_qty target) then [EB_QTY_NOT_RELEASED] else [])"

definition evaluate_quality_eligibility ::
  "(string \<Rightarrow> int option) \<Rightarrow> eligibility_target \<Rightarrow> eligibility_purpose \<Rightarrow> int \<Rightarrow> eligibility_verdict" where
  "evaluate_quality_eligibility parse_date target purpose now =
     (let codes = eligibility_codes parse_date target now
      in \<lparr>ev_allowed = (length codes = 0),
          ev_qty_allowed = (if \<exists>c \<in> set codes. c \<noteq> EB_QTY_NOT_RELEASED then num 0
             else num_min (requested_qty target) (available_released target)),
          ev_blocks = map (\<lambda>c. \<lparr>eb_code = c, eb_object_type = et_object_type target,
             eb_object_id = et_object_id target\<rparr>) codes\<rparr>)"

definition assert_quality_eligibility ::
  "(string \<Rightarrow> int option) \<Rightarrow> eligibility_target \<Rightarrow> eligibility_purpose \<Rightarrow> int \<Rightarrow> unit result" where
  "assert_quality_eligibility parse_date target purpose now =
     ensure (ev_allowed (evaluate_quality_eligibility parse_date target purpose now))
       (HttpError 409 ''QUALITY_NOT_ELIGIBLE'')"

section \<open>Ledgers that pass the guard\<close>

definition ledger_of :: "rat \<Rightarrow> rat \<Rightarrow> rat \<Rightarrow> rat \<Rightarrow> rat \<Rightarrow> rat \<Rightarrow> rat \<Rightarrow> rat \<Rightarrow> rat \<Rightarrow> rat \<Rightarrow> quantity_ledger" where
  "ledger_of p c f r h s w k t u = \<lparr>ql_population = Fin p, ql_controlled = Fin c, ql_conforming = Fin f,
     ql_released = Fin r, ql_held = Fin h, ql_scrapped = Fin s, ql_reworked = Fin w, ql_sorted = Fin k,
     ql_returned = Fin t, ql_consumed = Fin u\<rparr>"

definition ledger_ok :: "rat \<Rightarrow> rat \<Rightarrow> rat \<Rightarrow> rat \<Rightarrow> rat \<Rightarrow> rat \<Rightarrow> rat \<Rightarrow> rat \<Rightarrow> rat \<Rightarrow> rat \<Rightarrow> bool" where
  "ledger_ok p c f r h s w k t u \<longleftrightarrow> (\<forall>x \<in> {p, c, f, r, h, s, w, k, t, u}. - EPS \<le> x) \<and> EPS < p \<and>
     c \<le> p + EPS \<and> f \<le> c + EPS \<and> r \<le> f + EPS \<and> r + h + s + w + k + t \<le> p + EPS \<and> u \<le> r + EPS"

lemma disposed_ledger_of [simp]: "disposed_qty (ledger_of p c f r h s w k t u) = Fin (r + h + s + w + k + t)"
  by (simp add: disposed_qty_def ledger_disposed_fields_def ledger_of_def)

lemma remaining_ledger_of [simp]:
  "remaining_undisposed_qty (ledger_of p c f r h s w k t u) = Fin (max 0 (p - (r + h + s + w + k + t)))"
  by (simp add: remaining_undisposed_qty_def) (simp add: ledger_of_def)

lemma releasable_ledger_of [simp]:
  "releasable_qty (ledger_of p c f r h s w k t u) =
     Fin (max 0 (min (f - r) (max 0 (p - (r + h + s + w + k + t)))))"
  by (simp add: releasable_qty_def) (simp add: ledger_of_def)

lemma ledger_problems_none:
  "ledger_problems l = [] \<longleftrightarrow>
     (\<forall>x \<in> set (map snd (ledger_entries l)). \<exists>q. x = Fin q \<and> - EPS \<le> q)"
  by (fastforce simp: ledger_problems_def num_finite_Fin split: if_splits)

lemma assert_quantity_ledger_iff:
  "assert_quantity_ledger l = Inr () \<longleftrightarrow>
     (\<exists>p c f r h s w k t u. l = ledger_of p c f r h s w k t u \<and> ledger_ok p c f r h s w k t u)"
proof
  assume a: "assert_quantity_ledger l = Inr ()"
  then have "ledger_problems l = []" by (simp add: assert_quantity_ledger_def split: if_splits)
  then obtain p c f r h s w k t u where q: "ql_population l = Fin p" "ql_controlled l = Fin c"
    "ql_conforming l = Fin f" "ql_released l = Fin r" "ql_held l = Fin h" "ql_scrapped l = Fin s"
    "ql_reworked l = Fin w" "ql_sorted l = Fin k" "ql_returned l = Fin t" "ql_consumed l = Fin u"
    and nn: "\<forall>x \<in> {p, c, f, r, h, s, w, k, t, u}. - EPS \<le> x"
    unfolding ledger_problems_none ledger_entries_def by auto
  have l: "l = ledger_of p c f r h s w k t u" using q by (cases l) (simp add: ledger_of_def)
  have "ledger_ok p c f r h s w k t u"
    using a nn unfolding l ledger_ok_def
    by (simp add: assert_quantity_ledger_def plus_eps_def not_less not_le split: if_splits)
       (simp add: ledger_of_def)
  with l show "\<exists>p c f r h s w k t u. l = ledger_of p c f r h s w k t u \<and> ledger_ok p c f r h s w k t u"
    by blast
next
  assume "\<exists>p c f r h s w k t u. l = ledger_of p c f r h s w k t u \<and> ledger_ok p c f r h s w k t u"
  then obtain p c f r h s w k t u where l: "l = ledger_of p c f r h s w k t u"
    and ok: "ledger_ok p c f r h s w k t u" by blast
  have "ledger_problems l = []"
    unfolding ledger_problems_none using ok by (auto simp: l ledger_ok_def ledger_entries_def ledger_of_def)
  moreover have "disposed_qty l = Fin (r + h + s + w + k + t)" by (simp add: l)
  ultimately show "assert_quantity_ledger l = Inr ()"
    using ok unfolding assert_quantity_ledger_def
    by (simp add: plus_eps_def ledger_ok_def not_less) (simp add: l ledger_of_def)
qed

section \<open>Successive decisions on one ledger\<close>

text \<open>
  Each decision is taken on the ledger that the one before it left, as the register of a
  control is: the first refusal ends the sequence.
\<close>

fun decide_all :: "quantity_ledger \<Rightarrow> release_request list \<Rightarrow> quantity_ledger result" where
  "decide_all l [] = Inr l"
| "decide_all l (r # rs) =
     bind_result (evaluate_release_request (r\<lparr>rr_ledger := l\<rparr>)) (\<lambda>out. decide_all (ro_ledger out) rs)"

definition ledger_le :: "quantity_ledger \<Rightarrow> quantity_ledger \<Rightarrow> bool" where
  "ledger_le l m \<longleftrightarrow> num_le (ql_released l) (ql_released m) \<and> num_le (ql_held l) (ql_held m)
     \<and> m\<lparr>ql_released := ql_released l, ql_held := ql_held l\<rparr> = l"

lemma ledger_of_sel [simp]:
  "ql_population (ledger_of p c f r h s w k t u) = Fin p"
  "ql_controlled (ledger_of p c f r h s w k t u) = Fin c"
  "ql_conforming (ledger_of p c f r h s w k t u) = Fin f"
  "ql_released (ledger_of p c f r h s w k t u) = Fin r"
  "ql_held (ledger_of p c f r h s w k t u) = Fin h"
  "ql_consumed (ledger_of p c f r h s w k t u) = Fin u"
  by (simp_all add: ledger_of_def)

lemma ledger_of_upd [simp]:
  "(ledger_of p c f r h s w k t u)\<lparr>ql_released := Fin x\<rparr> = ledger_of p c f x h s w k t u"
  "(ledger_of p c f r h s w k t u)\<lparr>ql_held := Fin x\<rparr> = ledger_of p c f r x s w k t u"
  by (simp_all add: ledger_of_def)

lemma ledger_le_of [simp]:
  "ledger_le (ledger_of p c f r h s w k t u) (ledger_of p c f r' h' s w k t u) \<longleftrightarrow> r \<le> r' \<and> h \<le> h'"
  by (auto simp: ledger_le_def)

lemma num_le_trans: "num_le a b \<Longrightarrow> num_le b c \<Longrightarrow> num_le a c"
  by (cases a; cases b; cases c) simp_all

lemma ledger_le_trans: "ledger_le a b \<Longrightarrow> ledger_le b c \<Longrightarrow> ledger_le a c"
  unfolding ledger_le_def
  by (cases a; cases b; cases c) (auto dest: num_le_trans)

lemma accepted_on_valid:
  "evaluate_release_request r = Inr out \<Longrightarrow> assert_quantity_ledger (rr_ledger r) = Inr ()"
  by (auto simp: evaluate_release_request_def)

lemma hold_keeps_ledger:
  assumes "hold_outcome r = Inr out" "rr_ledger r = ledger_of p c f q h s w k t u" "ledger_ok p c f q h s w k t u"
  shows "\<exists>h'. ro_ledger out = ledger_of p c f q h' s w k t u \<and> h \<le> h' \<and> ledger_ok p c f q h' s w k t u"
proof -
  let ?m = "max 0 (p - (q + h + s + w + k + t))"
  obtain x where x: "ro_ledger out = ledger_of p c f q (h + x) s w k t u" "EPS < x" "x \<le> ?m"
    using assms(1,2)
    by (cases "rr_qty r") (auto simp: hold_outcome_def Let_def num_lt_def num_min_def split: if_splits)
  have "0 < x" using x(2) EPS_pos by (rule less_trans [rotated])
  with x(3) have "x \<le> p - (q + h + s + w + k + t)" by (simp add: max_def split: if_splits)
  with assms(3) \<open>0 < x\<close> EPS_pos have "ledger_ok p c f q (h + x) s w k t u" by (auto simp: ledger_ok_def simp del: EPS_pos)
  with x \<open>0 < x\<close> show ?thesis by (intro exI [of _ "h + x"]) auto
qed

lemma release_keeps_ledger:
  assumes "release_outcome_of r = Inr out" "rr_ledger r = ledger_of p c f q h s w k t u"
    "ledger_ok p c f q h s w k t u" "rr_qty r = Fin x" "EPS < x"
  shows "ro_ledger out = ledger_of p c f (q + x) h s w k t u \<and> ledger_ok p c f (q + x) h s w k t u"
proof -
  have "x \<le> max 0 (min (f - q) (max 0 (p - (q + h + s + w + k + t)))) + EPS"
    and l: "ro_ledger out = ledger_of p c f (q + x) h s w k t u"
    using assms(1,2,4)
    by (auto simp: release_outcome_of_def Let_def plus_eps_def not_less split: if_splits)
  with \<open>EPS < x\<close> have "x \<le> (f - q) + EPS" "x \<le> (p - (q + h + s + w + k + t)) + EPS"
    by (auto simp: max_def min_def split: if_splits)
  moreover have "0 < x" using assms(5) EPS_pos by (rule less_trans [rotated])
  ultimately have "ledger_ok p c f (q + x) h s w k t u" using assms(3) by (auto simp: ledger_ok_def)
  with l show ?thesis by simp
qed

lemma decision_keeps_ledger:
  assumes "evaluate_release_request r = Inr out"
  shows "assert_quantity_ledger (ro_ledger out) = Inr () \<and> ledger_le (rr_ledger r) (ro_ledger out)"
proof -
  obtain p c f q h s w k t u where l: "rr_ledger r = ledger_of p c f q h s w k t u"
    and ok: "ledger_ok p c f q h s w k t u"
    using accepted_on_valid [OF assms] unfolding assert_quantity_ledger_iff by blast
  have av: "assert_quantity_ledger (ledger_of p c f q h s w k t u) = Inr ()"
    using accepted_on_valid [OF assms] by (simp add: l)
  consider (hold) "hold_outcome r = Inr out" | (reject) "ro_ledger out = rr_ledger r"
    | (release) x where "release_outcome_of r = Inr out" "rr_qty r = Fin x" "EPS < x"
    using assms by (auto simp: evaluate_release_request_def num_finite_Fin split: if_splits)
  then show ?thesis
  proof cases
    case hold
    from hold_keeps_ledger [OF hold l ok] show ?thesis
      unfolding assert_quantity_ledger_iff using l by fastforce
  next
    case reject
    with l av show ?thesis by simp
  next
    case release
    from release_keeps_ledger [OF release(1) l ok release(2,3)]
    have "ro_ledger out = ledger_of p c f (q + x) h s w k t u" "ledger_ok p c f (q + x) h s w k t u" by simp_all
    moreover have "0 < x" using release(3) EPS_pos by (rule less_trans [rotated])
    ultimately show ?thesis
      unfolding assert_quantity_ledger_iff using l by fastforce
  qed
qed

lemma decide_all_keeps_ledger:
  "assert_quantity_ledger l = Inr () \<Longrightarrow> decide_all l rs = Inr l' \<Longrightarrow>
     assert_quantity_ledger l' = Inr () \<and> ledger_le l l'"
proof (induction rs arbitrary: l)
  case Nil
  then show ?case unfolding assert_quantity_ledger_iff by auto
next
  case (Cons r rs)
  then obtain out where o: "evaluate_release_request (r\<lparr>rr_ledger := l\<rparr>) = Inr out"
    "decide_all (ro_ledger out) rs = Inr l'" by auto
  from decision_keeps_ledger [OF o(1)] have 1: "assert_quantity_ledger (ro_ledger out) = Inr ()"
    "ledger_le l (ro_ledger out)" by simp_all
  from Cons.IH [OF 1(1) o(2)] 1(2) show ?case by (blast intro: ledger_le_trans)
qed


lemma ledger_ok_bounds:
  assumes "assert_quantity_ledger m = Inr ()"
  shows "num_le (ql_released m) (plus_eps (ql_conforming m)) \<and> num_le (disposed_qty m) (plus_eps (ql_population m))"
  using assms unfolding assert_quantity_ledger_iff by (auto simp: ledger_ok_def plus_eps_def)

text \<open>C6: Starting from a ledger that passes the guard, any sequence of accepted decisions,
  each taken on the ledger left by the one before, ends on a ledger that passes the guard: no
  more than the conforming quantity is released and no more than the population is disposed
  of, to within the tolerance. Only the released and held counters move, and they never
  decrease.\<close>

theorem release_sequence_keeps_ledger:
  assumes "assert_quantity_ledger l = Inr ()" "decide_all l rs = Inr l'"
  shows "assert_quantity_ledger l' = Inr () \<and> ledger_le l l'
    \<and> num_le (ql_released l') (plus_eps (ql_conforming l))
    \<and> num_le (disposed_qty l') (plus_eps (ql_population l))"
proof -
  have a: "assert_quantity_ledger l' = Inr ()" and le: "ledger_le l l'"
    using decide_all_keeps_ledger [OF assms] by simp_all
  have "ql_conforming l = ql_conforming (l'\<lparr>ql_released := ql_released l, ql_held := ql_held l\<rparr>)"
    "ql_population l = ql_population (l'\<lparr>ql_released := ql_released l, ql_held := ql_held l\<rparr>)"
    using le by (simp_all add: ledger_le_def)
  then have "ql_conforming l = ql_conforming l'" "ql_population l = ql_population l'" by simp_all
  with a le ledger_ok_bounds [OF a] show ?thesis by simp
qed

definition sample_ledger :: quantity_ledger where
  "sample_ledger = ledger_of 10 10 8 0 0 0 0 0 0 0"

definition sample_request :: "quality_release_decision \<Rightarrow> rat \<Rightarrow> release_request" where
  "sample_request d x = \<lparr>rr_decision = d, rr_qty = Fin x, rr_unit = Some ''pcs'', rr_ledger = sample_ledger,
     rr_verdict = V_CONFORME, rr_has_derogation = False, rr_evidence_count = num 1\<rparr>"

lemma sample_ledger_ok: "assert_quantity_ledger sample_ledger = Inr ()"
  unfolding sample_ledger_def assert_quantity_ledger_iff
  by (intro exI conjI, rule refl) (simp add: ledger_ok_def EPS_def)

lemma sample_decisions:
  "decide_all sample_ledger [sample_request PARTIAL 5, sample_request HOLD 2] =
     Inr (ledger_of 10 10 8 5 2 0 0 0 0 0)"
proof -
  have t: "js_trim ''pcs'' = ''pcs''" by code_simp
  have 1: "assert_quantity_ledger (ledger_of 10 10 8 0 0 0 0 0 0 0) = Inr ()"
    "assert_quantity_ledger (ledger_of 10 10 8 5 0 0 0 0 0 0) = Inr ()"
    unfolding assert_quantity_ledger_iff
    by (intro exI conjI, rule refl, simp add: ledger_ok_def EPS_def)+
  show ?thesis
    by (simp add: sample_request_def sample_ledger_def evaluate_release_request_def 1 t
        release_outcome_of_def hold_outcome_def plus_eps_def Let_def)
      (simp add: EPS_def)
qed

theorem release_sequence_keeps_ledger_witness:
  "assert_quantity_ledger (ledger_of 10 10 8 5 2 0 0 0 0 0) = Inr ()
     \<and> ledger_le sample_ledger (ledger_of 10 10 8 5 2 0 0 0 0 0)"
  using release_sequence_keeps_ledger [OF sample_ledger_ok sample_decisions] by simp

text \<open>Exactly when a release is accepted: the quantity is above the tolerance and within
  what is releasable, all of it for a full release, a unit is given, the verdict is known, a
  non-conforming verdict has a derogation, and a partial verdict is released partially
  only.\<close>

theorem release_accepted_iff:
  assumes "assert_quantity_ledger (rr_ledger r) = Inr ()" "releasable_qty (rr_ledger r) = Fin m"
    "rr_qty r = Fin x" "rr_decision r \<noteq> HOLD" "rr_decision r \<noteq> REJECT"
  shows "is_ok (evaluate_release_request r) \<longleftrightarrow>
     EPS < x \<and> x \<le> m + EPS \<and> (rr_decision r = FULL \<longrightarrow> m \<le> x + EPS)
     \<and> js_trim (or_empty (rr_unit r)) \<noteq> [] \<and> rr_verdict r \<noteq> V_EN_ATTENTE
     \<and> (rr_verdict r = V_NON_CONFORME \<longrightarrow> rr_has_derogation r)
     \<and> (rr_verdict r = V_PARTIEL \<longrightarrow> rr_decision r = PARTIAL)
     \<and> \<not> num_lt (rr_evidence_count r) (num 0)"
proof -
  have d: "rr_decision r = FULL \<or> rr_decision r = PARTIAL" using assms(4,5) by (cases "rr_decision r") auto
  have u: "\<not> truthy (rr_unit r) \<or> js_trim (or_empty (rr_unit r)) = [] \<longleftrightarrow> js_trim (or_empty (rr_unit r)) = []"
    by (cases "rr_unit r") auto
  have "is_ok (release_outcome_of r) \<longleftrightarrow> x \<le> m + EPS \<and> (rr_decision r = FULL \<longrightarrow> m \<le> x + EPS)
     \<and> (rr_verdict r = V_NON_CONFORME \<longrightarrow> rr_has_derogation r)
     \<and> (rr_verdict r = V_PARTIEL \<longrightarrow> rr_decision r = PARTIAL)
     \<and> \<not> num_lt (rr_evidence_count r) (num 0)"
    using d by (auto simp: release_outcome_of_def Let_def assms(2,3) plus_eps_def not_less)
  with d show ?thesis
    unfolding evaluate_release_request_def assms(1) bind_result.simps u assms(3)
    by (auto simp: not_le)
qed

theorem release_accepted_iff_witness:
  "is_ok (evaluate_release_request (sample_request FULL 8))
   \<and> \<not> is_ok (evaluate_release_request (sample_request FULL 5))"
proof -
  have t: "js_trim ''pcs'' = ''pcs''" by code_simp
  have r: "releasable_qty sample_ledger = Fin 8" by (simp add: sample_ledger_def)
  show ?thesis
    using release_accepted_iff [of "sample_request FULL 8" 8 8] release_accepted_iff [of "sample_request FULL 5" 8 5]
    by (simp add: sample_request_def sample_ledger_ok r t EPS_def)
qed

section \<open>What an allowed use and an allowed movement imply\<close>

text \<open>A derogation is used only when it is approved or consumed, when it names at least
  one object, when every object it names is the one of the use, and when what it has already
  covered plus the new quantity stays within its maximum, to within the tolerance.\<close>

theorem derogation_use_is_covered:
  assumes "de_allowed (evaluate_derogation_usage parse_date d c qty now)"
  shows "js_upper (or_empty (dg_status d)) \<in> {''APPROVED'', ''CONSUMED''}
    \<and> (\<exists>a \<in> set (scope_axes d). truthy a)
    \<and> list_all2 (\<lambda>expected actual. truthy expected \<longrightarrow> actual = expected) (scope_axes d) (scope_axes c)
    \<and> (\<exists>x. qty = Fin x \<and> EPS < x
        \<and> (\<forall>m u. dg_max_qty d = Some (Fin m) \<longrightarrow> dg_consumed_qty d = Fin u \<longrightarrow> u + x \<le> m + EPS))"
proof -
  have a: "js_upper (or_empty (dg_status d)) \<in> {''APPROVED'', ''CONSUMED''}"
      "\<exists>a \<in> set (scope_axes d). truthy a"
      "\<not> (\<exists>(expected, actual) \<in> set (zip (scope_axes d) (scope_axes c)). truthy expected \<and> actual \<noteq> expected)"
      "num_finite qty" "\<not> num_le qty (Fin EPS)"
      "\<not> (\<exists>r \<in> set_option (derogation_remaining d). num_lt (plus_eps r) qty)"
    using assms unfolding evaluate_derogation_usage_def Let_def by (simp_all split: if_splits)
  obtain x where x: "qty = Fin x" "EPS < x" using a(4,5) by (auto simp: num_finite_Fin not_le)
  have "u + x \<le> m + EPS" if "dg_max_qty d = Some (Fin m)" "dg_consumed_qty d = Fin u" for m u
    using a(6) x that by (auto simp: derogation_remaining_def plus_eps_def not_less max_def split: if_splits)
  moreover have "list_all2 (\<lambda>expected actual. truthy expected \<longrightarrow> actual = expected) (scope_axes d) (scope_axes c)"
    using a(3) by (auto simp: list_all2_iff scope_axes_def)
  ultimately show ?thesis using a(1,2) x by blast
qed

definition sample_derogation :: derogation_state where
  "sample_derogation = \<lparr>ax_article_id = Some ''A1'', ax_piece_technique_id = None, ax_piece_version_id = None,
     ax_lot_id = Some ''L7'', ax_of_id = None, ax_commande_id = None, ax_bon_livraison_id = None,
     dg_id = ''d'', dg_code = ''DER-1'', dg_status = Some ''approved'', dg_max_qty = Some (num 10),
     dg_unit = None, dg_consumed_qty = num 4, dg_valid_from = None, dg_valid_to = None\<rparr>"

definition sample_use :: derogation_usage_context where
  "sample_use = \<lparr>ax_article_id = Some ''A1'', ax_piece_technique_id = Some ''P'', ax_piece_version_id = None,
     ax_lot_id = Some ''L7'', ax_of_id = None, ax_commande_id = None, ax_bon_livraison_id = None,
     du_unit = Some ''pcs''\<rparr>"

theorem derogation_use_is_covered_witness:
  "de_allowed (evaluate_derogation_usage (\<lambda>_. None) sample_derogation sample_use (num 6) 0)
   \<and> list_all2 (\<lambda>expected actual. \<not> truthy expected \<or> actual = expected)
        (scope_axes sample_derogation) (scope_axes sample_use) \<and> (4 :: rat) + 6 \<le> 10 + EPS"
proof -
  have u: "js_upper ''approved'' = ''APPROVED''" by code_simp
  have a: "de_allowed (evaluate_derogation_usage (\<lambda>_. None) sample_derogation sample_use (num 6) 0)"
    by (simp add: evaluate_derogation_usage_def sample_derogation_def sample_use_def Let_def u
        scope_axes_def derogation_remaining_def plus_eps_def) (simp add: EPS_def)
  from derogation_use_is_covered [OF a]
  have l: "list_all2 (\<lambda>expected actual. truthy expected \<longrightarrow> actual = expected) (scope_axes sample_derogation) (scope_axes sample_use)"
    by (elim conjE)
  from derogation_use_is_covered [OF a]
  have "\<forall>m u. dg_max_qty sample_derogation = Some (Fin m) \<longrightarrow> dg_consumed_qty sample_derogation = Fin u \<longrightarrow> u + 6 \<le> m + EPS"
    by (elim conjE exE) (simp only: jsnum.inject of_int_numeral)
  then have "(4 :: rat) + 6 \<le> 10 + EPS" by (elim allE [of _ 10] allE [of _ 4]) (simp add: sample_derogation_def)
  with a l show ?thesis by (simp only: imp_conv_disj simp_thms)
qed

lemma eligible_iff:
  assumes "et_qty_requested t = Fin q" "et_qty_released t = Fin r" "et_qty_consumed t = Fin u"
  shows "is_ok (assert_quality_eligibility parse_date t purpose now) \<longleftrightarrow>
     et_lot_status t \<in> {None, Some LOT_LIBERE}
     \<and> \<not> num_lt (num 0) (et_pending_mandatory_controls t) \<and> \<not> num_lt (num 0) (et_open_nc_without_disposition t)
     \<and> \<not> (\<exists>d \<in> set_option (et_derogation t). derogation_lapsed parse_date d now)
     \<and> max 0 q \<le> max 0 (r - u) + EPS"
proof -
  have s: "et_lot_status t \<in> {None, Some LOT_LIBERE} \<longleftrightarrow>
      et_lot_status t \<noteq> Some LOT_BLOQUE \<and> et_lot_status t \<noteq> Some LOT_QUARANTAINE
      \<and> et_lot_status t \<noteq> Some LOT_EN_ATTENTE"
    by (cases "et_lot_status t"; cases "the (et_lot_status t)") auto
  have q: "num_lt (plus_eps (available_released t)) (requested_qty t) \<longleftrightarrow> \<not> max 0 q \<le> max 0 (r - u) + EPS"
    unfolding available_released_def requested_qty_def plus_eps_def assms
    by (simp only: num_finite.simps if_True num_sub_Fin num_max_Fin num_add.simps num_lt_Fin not_le of_int_0)
  have "is_ok (assert_quality_eligibility parse_date t purpose now) \<longleftrightarrow> eligibility_codes parse_date t now = []"
    by (simp add: assert_quality_eligibility_def evaluate_quality_eligibility_def Let_def)
  then show ?thesis unfolding s eligibility_codes_def append_is_Nil_conv q by (auto simp del: max.bounded_iff)
qed

text \<open>What is allowed is bounded by what is released and not yet consumed.\<close>

lemma eligibility_qty_bounds:
  assumes "et_qty_requested t = Fin q" "et_qty_released t = Fin r" "et_qty_consumed t = Fin u"
    "ev_qty_allowed (evaluate_quality_eligibility parse_date t purpose now) = Fin a"
  shows "0 \<le> a \<and> a \<le> max 0 (r - u) \<and> a \<le> max 0 q"
proof -
  have "a = 0 \<or> Fin a = num_min (requested_qty t) (available_released t)"
    using assms(4) by (simp add: evaluate_quality_eligibility_def Let_def split: if_splits)
  moreover have "num_min (requested_qty t) (available_released t) = Fin (min (max 0 q) (max 0 (r - u)))"
    by (simp add: requested_qty_def available_released_def assms(1-3))
  ultimately show ?thesis by auto
qed

lemma instrument_required_blocks:
  assumes "ir_requires_instrument c" "iu_allowed (evaluate_instrument_usage parse_date c inst now block)"
  shows "\<exists>i. inst = Some i \<and> \<not> in_deleted i \<and> js_upper (or_empty (in_statut i)) = ''ACTIF''"
  using assms by (auto simp: evaluate_instrument_usage_def Let_def split: option.splits if_splits)

end
