(* ===== verification/Module_Catalog.thy ===== *)
theory Module_Catalog
  imports Prelude
begin

text \<open>
  \<open>src/module/access-control/domain/module-catalog.ts\<close>: the catalogue of the modules whose
  access is filtered, and the resolution of the path of a request to the key of a module. The
  labels, descriptions and categories are presentation and left out.
\<close>

section \<open>The catalogue\<close>

record module_catalog_entry =
  mc_module_key :: string
  mc_api_prefixes :: "string list"
  mc_nav_page_keys :: "string list"
  mc_is_protected :: bool
  mc_sort_order :: nat

abbreviation mce :: "string \<Rightarrow> string list \<Rightarrow> string list \<Rightarrow> bool \<Rightarrow> nat \<Rightarrow> module_catalog_entry" where
  "mce key prefs pages prot order \<equiv> \<lparr>mc_module_key = key, mc_api_prefixes = prefs,
     mc_nav_page_keys = pages, mc_is_protected = prot, mc_sort_order = order\<rparr>"

definition MODULE_CATALOG :: "module_catalog_entry list" where
  "MODULE_CATALOG = [
     mce ''clients'' [''/clients'', ''/payment-modes'', ''/billers'', ''/banking-info'']
       [''clients''] False 10,
     mce ''devis'' [''/devis'', ''/conditions-paiement'', ''/compte-vente'']
       [''devis''] False 20,
     mce ''commandes-clients'' [''/commandes'']
       [''commandes''] False 30,
     mce ''livraisons'' [''/livraisons'']
       [''livraisons''] False 40,
     mce ''affaires'' [''/affaires'']
       [''affaires''] False 50,
     mce ''facturation'' [''/factures'', ''/avoirs'', ''/paiements'', ''/tarification'',
       ''/adv-reminders'']
       [''factures'', ''relances''] False 60,
     mce ''reporting-commercial'' [''/reporting'', ''/margins'']
       [''reporting-commercial''] False 70,
     mce ''fournisseurs'' [''/fournisseurs'']
       [''fournisseurs''] False 80,
     mce ''commandes-fournisseurs'' [''/commandes-fournisseurs'', ''/replenishment-proposals'']
       [''commandes-fournisseurs''] False 90,
     mce ''pieces-techniques'' [''/pieces-techniques'', ''/piece-technique-versions'',
       ''/gammes'', ''/dossiers'']
       [''pieces-techniques''] False 100,
     mce ''finitions'' [''/finitions'']
       [''finitions''] False 101,
     mce ''methodes-centres-frais'' [''/methodes/centres-frais'', ''/centre-frais'']
       [''methodes-centres-frais''] False 102,
     mce ''methodes-parc-machines'' [''/methodes/machines'', ''/methodes/familles-machine'']
       [''methodes-parc-machines''] False 103,
     mce ''production'' [''/production'', ''/planning'', ''/programmations'']
       [''production-dashboard'', ''machines-postes'', ''production-planning'',
       ''production-calendars'', ''production-readiness'', ''production-execution'',
       ''atelier-station'', ''production-pointages'', ''ordres-fabrication''] False 110,
     mce ''qualite'' [''/qualite'', ''/receptions'']
       [''qualite-center'', ''qualite-controls'', ''qualite-non-conformities'', ''receptions'']
       False 120,
     mce ''metrologie'' [''/metrologie'']
       [''metrologie''] False 130,
     mce ''tracabilite'' [''/traceability'', ''/asbuilt'']
       [''traceabilite''] False 140,
     mce ''stock'' [''/stock'']
       [''stock-dashboard'', ''stock-articles'', ''stock-mouvements'', ''stock-base-old'',
       ''stock-base-new'', ''stock-inventaires''] False 150,
     mce ''outillage'' [''/outils'']
       [''outils'', ''outils-new'', ''outils-retirer''] False 160,
     mce ''temps-deplacements'' [''/time-clock'']
       [''td-*''] False 170,
     mce ''pilotage-projet'' [''/project-office'']
       [''po-*''] False 180,
     mce ''import-clipper'' [''/import-assistant'']
       [''import-assistant''] False 190,
     mce ''ged'' [''/ged'']
       [''ged''] False 195,
     mce ''administration'' [''/admin'', ''/audit-logs'']
       [''administration'', ''erp-settings'', ''reference-data'', ''acces''] True 200]"

definition MODULE_KEYS :: "string list" where
  "MODULE_KEYS = map mc_module_key MODULE_CATALOG"

definition PROTECTED_MODULE_KEYS :: "string list" where
  "PROTECTED_MODULE_KEYS = map mc_module_key (filter mc_is_protected MODULE_CATALOG)"

definition get_module_catalog_entry :: "string \<Rightarrow> module_catalog_entry option" where
  "get_module_catalog_entry key = List.find (\<lambda>e. mc_module_key e = key) MODULE_CATALOG"

definition is_protected_module_key :: "string \<Rightarrow> bool" where
  "is_protected_module_key key \<longleftrightarrow> key \<in> set PROTECTED_MODULE_KEYS"

section \<open>From a path to a module\<close>

text \<open>
  Every prefix with its module, the longest first; the sort is stable.
\<close>

definition all_prefixes :: "(string \<times> string) list" where
  "all_prefixes = concat (map (\<lambda>e. map (\<lambda>p. (p, mc_module_key e)) (mc_api_prefixes e)) MODULE_CATALOG)"

definition PREFIX_INDEX :: "(string \<times> string) list" where
  "PREFIX_INDEX = sort_key (\<lambda>(p, _). - int (length p)) all_prefixes"

definition API_ROOT :: string where "API_ROOT = ''/api/v1''"

definition strip_trailing_slashes :: "string \<Rightarrow> string" where
  "strip_trailing_slashes s = rev (dropWhile (\<lambda>c. c = CHR ''/'') (rev s))"

definition normalize_path :: "string \<Rightarrow> string" where
  "normalize_path path =
     (let without_query = hd (js_split (CHR ''#'') (hd (js_split (CHR ''?'') path)));
          without_root = (if prefix API_ROOT without_query then drop (length API_ROOT) without_query
            else without_query);
          prefixed = (if prefix ''/'' without_root then without_root else ''/'' @ without_root)
      in if length prefixed > 1 then strip_trailing_slashes prefixed else prefixed)"

definition on_segment :: "string \<Rightarrow> string \<Rightarrow> bool" where
  "on_segment normalized p \<longleftrightarrow> normalized = p \<or> prefix (p @ ''/'') normalized"

definition resolve_module_key_for_path :: "string option \<Rightarrow> string option" where
  "resolve_module_key_for_path path =
     (case path of
        None \<Rightarrow> None
      | Some s \<Rightarrow>
          if s = [] then None
          else map_option snd (List.find (\<lambda>(p, _). on_segment (normalize_path s) p) PREFIX_INDEX))"

section \<open>The catalogue is well formed\<close>

lemma module_keys_distinct: "distinct MODULE_KEYS"
  by code_simp

lemma prefixes_distinct: "distinct (map fst all_prefixes)"
  by code_simp

lemma find_key:
  "List.find P xs = Some x \<Longrightarrow> \<exists>as bs. xs = as @ x # bs \<and> P x \<and> (\<forall>a \<in> set as. \<not> P a)"
proof (induction xs)
  case (Cons y ys)
  show ?case
  proof (cases "P y")
    case True
    with Cons.prems show ?thesis by (intro exI [of _ "[]"] exI [of _ ys]) auto
  next
    case False
    with Cons obtain as bs where "ys = as @ x # bs" "P x" "\<forall>a \<in> set as. \<not> P a" by auto
    with False show ?thesis by (intro exI [of _ "y # as"] exI [of _ bs]) auto
  qed
qed simp

lemma find_none: "List.find P xs = None \<longleftrightarrow> (\<forall>x \<in> set xs. \<not> P x)"
  by (induction xs) auto

lemma catalog_entry_iff:
  "(\<exists>e. get_module_catalog_entry k = Some e) \<longleftrightarrow> k \<in> set MODULE_KEYS"
  unfolding get_module_catalog_entry_def MODULE_KEYS_def not_None_eq [symmetric] find_none by auto

lemma PREFIX_INDEX_set: "set PREFIX_INDEX = set all_prefixes"
  by (simp add: PREFIX_INDEX_def)

lemma PREFIX_INDEX_order:
  assumes "PREFIX_INDEX = as @ x # bs" "y \<in> set bs"
  shows "length (fst y) \<le> length (fst x)"
proof -
  have "sorted (map (\<lambda>(p, _). - int (length p)) PREFIX_INDEX)"
    unfolding PREFIX_INDEX_def by (rule sorted_sort_key)
  then have "sorted (map (\<lambda>e. - int (length (fst e))) (x # bs))"
    unfolding assms(1) case_prod_beta map_append sorted_append by blast
  then have "- int (length (fst x)) \<le> - int (length (fst y))" using assms(2) by simp
  then show ?thesis by simp
qed

lemma on_segment_length: "on_segment s p \<Longrightarrow> on_segment s q \<Longrightarrow> length p = length q \<Longrightarrow> p = q"
  unfolding on_segment_def prefix_def by auto

text \<open>A path is given the module of a prefix of the catalogue that ends on a segment of it,
  and no prefix of the catalogue with that property is longer; it is given none exactly when no
  prefix has that property.\<close>

theorem module_resolution:
  assumes "s \<noteq> []"
  shows "(resolve_module_key_for_path (Some s) = Some k \<longleftrightarrow>
      (\<exists>p. (p, k) \<in> set all_prefixes \<and> on_segment (normalize_path s) p
         \<and> (\<forall>(q, _) \<in> set all_prefixes. on_segment (normalize_path s) q \<longrightarrow> length q \<le> length p)))
    \<and> (resolve_module_key_for_path (Some s) = None \<longleftrightarrow>
      (\<forall>(q, _) \<in> set all_prefixes. \<not> on_segment (normalize_path s) q))"
proof -
  let ?P = "\<lambda>(p, _ :: string). on_segment (normalize_path s) p"
  have r: "resolve_module_key_for_path (Some s) = map_option snd (List.find ?P PREFIX_INDEX)"
    using assms by (simp add: resolve_module_key_for_path_def)
  have longest: "length (fst y) \<le> length (fst x)"
    if f: "List.find ?P PREFIX_INDEX = Some x" and y: "y \<in> set all_prefixes" "?P y" for x y
  proof -
    obtain as bs where d: "PREFIX_INDEX = as @ x # bs" and n: "\<forall>a \<in> set as. \<not> ?P a"
      using find_key [OF f] by blast
    have "y \<in> set PREFIX_INDEX" using y(1) by (simp add: PREFIX_INDEX_set)
    then have "y = x \<or> y \<in> set bs" using n y(2) unfolding d by auto
    then show ?thesis using PREFIX_INDEX_order [OF d] by blast
  qed
  have found: "x \<in> set all_prefixes \<and> ?P x" if f: "List.find ?P PREFIX_INDEX = Some x" for x
  proof -
    obtain as bs where d: "PREFIX_INDEX = as @ x # bs" and p: "?P x" using find_key [OF f] by blast
    have "x \<in> set PREFIX_INDEX" unfolding d by simp
    with p show ?thesis by (simp only: PREFIX_INDEX_set simp_thms)
  qed
  show ?thesis
  proof (intro conjI iffI)
    assume "resolve_module_key_for_path (Some s) = Some k"
    then obtain p where f: "List.find ?P PREFIX_INDEX = Some (p, k)" by (auto simp: r)
    then show "\<exists>p. (p, k) \<in> set all_prefixes \<and> on_segment (normalize_path s) p
         \<and> (\<forall>(q, _) \<in> set all_prefixes. on_segment (normalize_path s) q \<longrightarrow> length q \<le> length p)"
      using found [OF f] longest [OF f] by (intro exI [of _ p]) auto
  next
    assume "\<exists>p. (p, k) \<in> set all_prefixes \<and> on_segment (normalize_path s) p
         \<and> (\<forall>(q, _) \<in> set all_prefixes. on_segment (normalize_path s) q \<longrightarrow> length q \<le> length p)"
    then obtain p where p: "(p, k) \<in> set all_prefixes" "on_segment (normalize_path s) p"
      and m: "\<forall>(q, _) \<in> set all_prefixes. on_segment (normalize_path s) q \<longrightarrow> length q \<le> length p" by blast
    have "(p, k) \<in> set PREFIX_INDEX" using p(1) by (simp add: PREFIX_INDEX_set)
    then obtain q j where f: "List.find ?P PREFIX_INDEX = Some (q, j)"
      using p(2) find_none [of ?P PREFIX_INDEX] by (cases "List.find ?P PREFIX_INDEX") auto
    from found [OF f] have q: "(q, j) \<in> set all_prefixes" "on_segment (normalize_path s) q" by auto
    have "length q = length p" using longest [OF f p(1)] m q p(2) by fastforce
    then have "q = p" using on_segment_length q(2) p(2) by blast
    then have "j = k" using q(1) p(1) prefixes_distinct by (metis eq_key_imp_eq_value)
    then show "resolve_module_key_for_path (Some s) = Some k" by (simp add: r f)
  next
    assume "resolve_module_key_for_path (Some s) = None"
    then show "\<forall>(q, _) \<in> set all_prefixes. \<not> on_segment (normalize_path s) q"
      by (simp add: r find_none PREFIX_INDEX_set case_prod_beta)
  next
    assume "\<forall>(q, _) \<in> set all_prefixes. \<not> on_segment (normalize_path s) q"
    then show "resolve_module_key_for_path (Some s) = None"
      by (simp add: r find_none PREFIX_INDEX_set case_prod_beta)
  qed
qed

lemma resolve_examples:
  "resolve_module_key_for_path (Some ''/api/v1/commandes-fournisseurs/12?x=1'') = Some ''commandes-fournisseurs''"
  "resolve_module_key_for_path (Some ''/commandes/'') = Some ''commandes-clients''"
  "resolve_module_key_for_path (Some ''/auth/login'') = None"
  by code_simp+

theorem module_resolution_witness:
  "\<exists>p. (p, ''commandes-fournisseurs'') \<in> set all_prefixes
     \<and> on_segment (normalize_path ''/api/v1/commandes-fournisseurs/12?x=1'') p"
  using module_resolution [of "''/api/v1/commandes-fournisseurs/12?x=1''" "''commandes-fournisseurs''"]
    resolve_examples(1) by blast

lemma resolved_is_a_module:
  assumes "resolve_module_key_for_path path = Some k"
  shows "k \<in> set MODULE_KEYS"
proof -
  obtain s where s: "path = Some s" "s \<noteq> []"
    using assms by (cases path) (auto simp: resolve_module_key_for_path_def split: if_splits)
  with assms obtain p where "(p, k) \<in> set all_prefixes"
    using module_resolution [OF s(2)] by blast
  then show ?thesis by (auto simp: all_prefixes_def MODULE_KEYS_def)
qed

end
