(* ===== verification/Access_Tower.thy ===== *)
theory Access_Tower
  imports Interfaces Auth_Roles Module_Catalog "HOL-Library.AList"
begin

text \<open>
  The access tower: which modules an account may use. Sources:
  \<open>src/module/access-control/services/access-control.service.ts\<close>, its repository and its types.

  The tables are a record: the accounts, the catalogue of modules in the order of the queries
  (\<open>sort_order, module_key\<close>), the nominal overrides with at most one row for each account and
  module, the journal of access events, the audit log, and the shared authorization epoch
  (\<open>None\<close> when its row does not exist). A service operation runs in one transaction: it yields
  the tables it commits, or an error and no change.
\<close>

section \<open>The tables\<close>

datatype module_override = A_GRANTED | A_DENIED

datatype module_decision = D_GRANTED | D_DENIED | D_INHERIT

datatype access_source = SRC_SUPERADMIN | SRC_OVERRIDE | SRC_DEFAULT

datatype access_event_type = EV_GRANTED | EV_DENIED | EV_INHERITED | EV_DEFAULT_CHANGED | EV_UNLOCK_ALL

record access_user =
  au_username :: string
  au_status :: "string option"
  au_is_superadmin :: bool

record catalog_module =
  cm_module_key :: string
  cm_label :: string
  cm_nav_page_keys :: "string list"
  cm_enabled_by_default :: bool
  cm_is_protected :: bool
  cm_is_active :: bool

record access_event =
  ae_user_id :: "int option"
  ae_module_key :: string
  ae_event_type :: access_event_type
  ae_previous_state :: "string option"
  ae_next_state :: "string option"
  ae_actor_user_id :: int

datatype audit_details =
    DefaultSet string bool bool
  | UserModuleSet int string string "module_override option" module_decision
  | UserBulkSet int string "(string \<times> module_override option \<times> module_decision) list"
  | UnlockAll nat nat "string list"

record audit_entry =
  ad_action :: string
  ad_entity_id :: string
  ad_user_id :: int
  ad_details :: audit_details

record access_db =
  db_has_tables :: bool
  db_users :: "(int \<times> access_user) list"
  db_modules :: "catalog_module list"
  db_access :: "((int \<times> string) \<times> module_override) list"
  db_events :: "access_event list"
  db_audit :: "audit_entry list"
  db_epoch :: "int option"

section \<open>The repository\<close>

definition repo_authorization_epoch :: "access_db \<Rightarrow> int option" where
  "repo_authorization_epoch db = db_epoch db"

definition bump_authorization_epoch :: "access_db \<Rightarrow> access_db result" where
  "bump_authorization_epoch db =
     (case db_epoch db of
        None \<Rightarrow> Inl (JsError ''REALTIME_AUTHORIZATION_EPOCH_MISSING'')
      | Some e \<Rightarrow> Inr (db\<lparr>db_epoch := Some (e + 1)\<rparr>))"

text \<open>One row of the profile query: the account, and a module of the catalogue if there is one.\<close>

record profile_row =
  pr_is_superadmin :: bool
  pr_module :: "catalog_module option"
  pr_access :: "module_override option"

definition repo_resolve_access_profile :: "access_db \<Rightarrow> int \<Rightarrow> profile_row list option" where
  "repo_resolve_access_profile db user =
     (if \<not> db_has_tables db then None
      else Some (case map_of (db_users db) user of
          None \<Rightarrow> []
        | Some u \<Rightarrow>
            if db_modules db = []
            then [\<lparr>pr_is_superadmin = au_is_superadmin u, pr_module = None, pr_access = None\<rparr>]
            else map (\<lambda>m. \<lparr>pr_is_superadmin = au_is_superadmin u, pr_module = Some m,
                pr_access = map_of (db_access db) (user, cm_module_key m)\<rparr>) (db_modules db)))"

definition repo_is_superadmin :: "access_db \<Rightarrow> int \<Rightarrow> bool" where
  "repo_is_superadmin db user =
     (case map_of (db_users db) user of
        None \<Rightarrow> False
      | Some u \<Rightarrow> au_status u = Some ''Active'' \<and> au_is_superadmin u)"

definition repo_get_catalog_module :: "access_db \<Rightarrow> string \<Rightarrow> catalog_module option" where
  "repo_get_catalog_module db key = List.find (\<lambda>m. cm_module_key m = key) (db_modules db)"

definition repo_get_user_module_access :: "access_db \<Rightarrow> int \<Rightarrow> string \<Rightarrow> module_override option" where
  "repo_get_user_module_access db user key = map_of (db_access db) (user, key)"

definition repo_set_module_default :: "string \<Rightarrow> bool \<Rightarrow> access_db \<Rightarrow> access_db result" where
  "repo_set_module_default key enabled db =
     (let changed = (\<exists>m \<in> set (db_modules db). cm_module_key m = key);
          db' = db\<lparr>db_modules := map (\<lambda>m. if cm_module_key m = key
            then m\<lparr>cm_enabled_by_default := enabled\<rparr> else m) (db_modules db)\<rparr>
      in if changed then bump_authorization_epoch db' else Inr db')"

definition repo_upsert_user_module_access ::
  "int \<Rightarrow> string \<Rightarrow> module_override \<Rightarrow> access_db \<Rightarrow> access_db result" where
  "repo_upsert_user_module_access user key access db =
     bump_authorization_epoch (db\<lparr>db_access := AList.update (user, key) access (db_access db)\<rparr>)"

definition repo_delete_user_module_access :: "int \<Rightarrow> string \<Rightarrow> access_db \<Rightarrow> access_db result" where
  "repo_delete_user_module_access user key db =
     (let changed = (map_of (db_access db) (user, key) \<noteq> None);
          db' = db\<lparr>db_access := AList.delete (user, key) (db_access db)\<rparr>
      in if changed then bump_authorization_epoch db' else Inr db')"

definition repo_delete_all_denials :: "access_db \<Rightarrow> (access_db \<times> (int \<times> string) list) result" where
  "repo_delete_all_denials db =
     (let rows = map fst (filter (\<lambda>(_, a). a = A_DENIED) (db_access db));
          db' = db\<lparr>db_access := filter (\<lambda>(_, a). a \<noteq> A_DENIED) (db_access db)\<rparr>
      in bind_result (if length rows > 0 then bump_authorization_epoch db' else Inr db')
           (\<lambda>db''. Inr (db'', rows)))"

definition repo_restore_all_defaults :: "access_db \<Rightarrow> (access_db \<times> string list) result" where
  "repo_restore_all_defaults db =
     (let rows = map cm_module_key (filter (\<lambda>m. \<not> cm_enabled_by_default m) (db_modules db));
          db' = db\<lparr>db_modules := map (\<lambda>m. m\<lparr>cm_enabled_by_default := True\<rparr>) (db_modules db)\<rparr>
      in bind_result (if length rows > 0 then bump_authorization_epoch db' else Inr db')
           (\<lambda>db''. Inr (db'', rows)))"

definition repo_insert_access_event ::
  "int option \<Rightarrow> string \<Rightarrow> access_event_type \<Rightarrow> string \<Rightarrow> string \<Rightarrow> int \<Rightarrow> access_db \<Rightarrow> access_db" where
  "repo_insert_access_event user key event_type previous next_state actor db =
     db\<lparr>db_events := db_events db @ [\<lparr>ae_user_id = user, ae_module_key = key, ae_event_type = event_type,
        ae_previous_state = Some previous, ae_next_state = Some next_state, ae_actor_user_id = actor\<rparr>]\<rparr>"

definition write_audit_log :: "int \<Rightarrow> string \<Rightarrow> string \<Rightarrow> audit_details \<Rightarrow> access_db \<Rightarrow> access_db" where
  "write_audit_log actor action entity_id details db =
     db\<lparr>db_audit := db_audit db @ [\<lparr>ad_action = action, ad_entity_id = entity_id, ad_user_id = actor,
        ad_details = details\<rparr>]\<rparr>"

section \<open>The decision and the profile\<close>

record access_verdict =
  av_allowed :: bool
  av_source :: access_source

definition decide_access :: "bool \<Rightarrow> bool \<Rightarrow> bool \<Rightarrow> module_override option \<Rightarrow> access_verdict" where
  "decide_access is_superadmin is_active is_protected override =
     (if is_superadmin then \<lparr>av_allowed = True, av_source = SRC_SUPERADMIN\<rparr>
      else if is_protected then \<lparr>av_allowed = True, av_source = SRC_DEFAULT\<rparr>
      else if \<not> is_active then \<lparr>av_allowed = False, av_source = SRC_DEFAULT\<rparr>
      else if override = Some A_DENIED then \<lparr>av_allowed = False, av_source = SRC_OVERRIDE\<rparr>
      else \<lparr>av_allowed = True,
             av_source = (if override = Some A_GRANTED then SRC_OVERRIDE else SRC_DEFAULT)\<rparr>)"

record resolved_module_access = access_verdict +
  ra_module_key :: string
  ra_label :: string
  ra_nav_page_keys :: "string list"

record access_profile =
  ap_is_superadmin :: bool
  ap_modules :: "resolved_module_access list"

definition resolve_row :: "bool \<Rightarrow> profile_row \<Rightarrow> resolved_module_access list" where
  "resolve_row is_superadmin row =
     (case pr_module row of
        None \<Rightarrow> []
      | Some m \<Rightarrow>
          if cm_module_key m = [] then []
          else let v = decide_access is_superadmin (cm_is_active m) (cm_is_protected m) (pr_access row)
               in [\<lparr>av_allowed = av_allowed v, av_source = av_source v, ra_module_key = cm_module_key m,
                    ra_label = cm_label m, ra_nav_page_keys = cm_nav_page_keys m\<rparr>])"

definition profile_of_rows :: "profile_row list \<Rightarrow> access_profile" where
  "profile_of_rows rows =
     (let is_superadmin = (case rows of [] \<Rightarrow> False | r # _ \<Rightarrow> pr_is_superadmin r)
      in \<lparr>ap_is_superadmin = is_superadmin, ap_modules = concat (map (resolve_row is_superadmin) rows)\<rparr>)"

text \<open>The profile of an account in given tables, read at once.\<close>

definition profile_of :: "access_db \<Rightarrow> int \<Rightarrow> access_profile option" where
  "profile_of db user = map_option profile_of_rows (repo_resolve_access_profile db user)"

definition profile_allows :: "access_profile \<Rightarrow> string \<Rightarrow> bool" where
  "profile_allows p key \<longleftrightarrow> ap_is_superadmin p \<or> (\<exists>m \<in> set (ap_modules p). ra_module_key m = key \<and> av_allowed m)"

section \<open>The overview\<close>

record overview_module =
  om_module_key :: string
  om_enabled_by_default :: bool
  om_is_protected :: bool
  om_denied_count :: nat
  om_granted_count :: nat

record overview_user =
  ou_id :: int
  ou_username :: string
  ou_is_superadmin :: bool
  ou_denied_count :: nat
  ou_allowed_count :: nat

record matrix_cell =
  mx_user_id :: int
  mx_module_key :: string
  mx_access :: "module_override option"
  mx_effective :: bool
  mx_source :: access_source

record overview_summary =
  os_users_total :: nat
  os_superadmins :: nat
  os_modules_total :: nat
  os_modules_restricted_by_default :: nat
  os_active_restrictions :: nat

record access_overview =
  ov_modules :: "overview_module list"
  ov_users :: "overview_user list"
  ov_matrix :: "matrix_cell list"
  ov_summary :: overview_summary

definition matrix_row :: "access_db \<Rightarrow> int \<times> access_user \<Rightarrow> matrix_cell list" where
  "matrix_row db user =
     map (\<lambda>m. let override = map_of (db_access db) (fst user, cm_module_key m);
                  v = decide_access (au_is_superadmin (snd user)) (cm_is_active m) (cm_is_protected m) override
              in \<lparr>mx_user_id = fst user, mx_module_key = cm_module_key m, mx_access = override,
                   mx_effective = av_allowed v, mx_source = av_source v\<rparr>)
       (filter cm_is_active (db_modules db))"

definition count_overrides :: "access_db \<Rightarrow> string \<Rightarrow> bool \<Rightarrow> nat" where
  "count_overrides db key denied =
     length (filter (\<lambda>((_, k), a). k = key \<and> (a = A_DENIED) = denied) (db_access db))"

definition build_overview :: "access_db \<Rightarrow> access_overview" where
  "build_overview db =
     \<lparr>ov_modules = map (\<lambda>m. \<lparr>om_module_key = cm_module_key m, om_enabled_by_default = cm_enabled_by_default m,
         om_is_protected = cm_is_protected m, om_denied_count = count_overrides db (cm_module_key m) True,
         om_granted_count = count_overrides db (cm_module_key m) False\<rparr>) (db_modules db),
      ov_users = map (\<lambda>u. \<lparr>ou_id = fst u, ou_username = au_username (snd u),
         ou_is_superadmin = au_is_superadmin (snd u),
         ou_denied_count = length (filter (\<lambda>c. mx_access c = Some A_DENIED) (matrix_row db u)),
         ou_allowed_count = length (filter mx_effective (matrix_row db u))\<rparr>) (db_users db),
      ov_matrix = concat (map (matrix_row db) (db_users db)),
      ov_summary = \<lparr>os_users_total = length (db_users db),
         os_superadmins = length (filter (\<lambda>u. au_is_superadmin (snd u)) (db_users db)),
         os_modules_total = length (db_modules db),
         os_modules_restricted_by_default = length (filter (\<lambda>m. \<not> cm_enabled_by_default m) (db_modules db)),
         os_active_restrictions = length (filter (\<lambda>(_, a). a = A_DENIED) (db_access db))\<rparr>\<rparr>"

section \<open>The operations\<close>

fun decision_name :: "module_decision \<Rightarrow> string" where
  "decision_name D_GRANTED = ''GRANTED''"
| "decision_name D_DENIED = ''DENIED''"
| "decision_name D_INHERIT = ''INHERIT''"

fun override_name :: "module_override option \<Rightarrow> string" where
  "override_name None = ''INHERIT''"
| "override_name (Some A_GRANTED) = ''GRANTED''"
| "override_name (Some A_DENIED) = ''DENIED''"

fun decision_event :: "module_decision \<Rightarrow> access_event_type" where
  "decision_event D_GRANTED = EV_GRANTED"
| "decision_event D_DENIED = EV_DENIED"
| "decision_event D_INHERIT = EV_INHERITED"

definition enabled_name :: "bool \<Rightarrow> string" where
  "enabled_name b = (if b then ''ENABLED'' else ''DISABLED'')"

definition load_module_or_throw :: "access_db \<Rightarrow> string \<Rightarrow> catalog_module result" where
  "load_module_or_throw db key =
     (case repo_get_catalog_module db key of
        None \<Rightarrow> Inl (HttpError 404 ''MODULE_NOT_FOUND'') | Some m \<Rightarrow> Inr m)"

definition load_target_user :: "access_db \<Rightarrow> int \<Rightarrow> access_user result" where
  "load_target_user db user =
     (case map_of (db_users db) user of
        None \<Rightarrow> Inl (HttpError 404 ''USER_NOT_FOUND'') | Some u \<Rightarrow> Inr u)"

definition with_overview :: "access_db \<Rightarrow> (access_db \<times> access_overview) result" where
  "with_overview db = Inr (db, build_overview db)"

definition set_module_default ::
  "string \<Rightarrow> bool \<Rightarrow> int \<Rightarrow> access_db \<Rightarrow> (access_db \<times> access_overview) result" where
  "set_module_default key enabled actor db =
     (if \<not> enabled then Inl (HttpError 409 ''ACCOUNT_ONLY_ACCESS_POLICY'')
      else bind_result (load_module_or_throw db key) (\<lambda>m.
        if cm_is_protected m \<and> \<not> enabled then Inl (HttpError 409 ''MODULE_PROTECTED'')
        else bind_result
          (if cm_enabled_by_default m \<noteq> enabled
           then bind_result (repo_set_module_default (cm_module_key m) enabled db) (\<lambda>db1.
             Inr (write_audit_log actor ''ACCESS_MODULE_DEFAULT_SET'' (cm_module_key m)
               (DefaultSet (cm_module_key m) (cm_enabled_by_default m) enabled)
               (repo_insert_access_event None (cm_module_key m) EV_DEFAULT_CHANGED
                 (enabled_name (cm_enabled_by_default m)) (enabled_name enabled) actor db1)))
           else Inr db) with_overview))"

text \<open>One decision: the new tables and, when something changed, what it was and what it is.\<close>

definition apply_user_module_decision ::
  "int \<Rightarrow> catalog_module \<Rightarrow> module_decision \<Rightarrow> int \<Rightarrow> bool \<Rightarrow> access_db
    \<Rightarrow> (access_db \<times> (module_override option \<times> module_decision) option) result" where
  "apply_user_module_decision user m requested actor target_is_superadmin db =
     (let decision = (if requested = D_GRANTED then D_INHERIT else requested)
      in if decision = D_DENIED \<and> cm_is_protected m then Inl (HttpError 409 ''MODULE_PROTECTED'')
         else if decision = D_DENIED \<and> target_is_superadmin then Inl (HttpError 409 ''SUPERADMIN_IMMUTABLE'')
         else
           let previous = repo_get_user_module_access db user (cm_module_key m);
               record_event = (\<lambda>db1. Inr (repo_insert_access_event (Some user) (cm_module_key m)
                 (decision_event decision) (override_name previous) (decision_name decision) actor db1,
                 Some (previous, decision)))
           in if decision = D_INHERIT
              then (if previous = None then Inr (db, None)
                    else bind_result (repo_delete_user_module_access user (cm_module_key m) db) record_event)
              else (if previous = Some A_DENIED then Inr (db, None)
                    else bind_result (repo_upsert_user_module_access user (cm_module_key m) A_DENIED db)
                      record_event))"

definition show_id :: "int \<Rightarrow> string" where
  "show_id n = (if n < 0 then ''-'' @ show_nat (nat (- n)) else show_nat (nat n))"

definition set_user_module_access ::
  "int \<Rightarrow> string \<Rightarrow> module_decision \<Rightarrow> int \<Rightarrow> access_db \<Rightarrow> (access_db \<times> access_overview) result" where
  "set_user_module_access user key decision actor db =
     bind_result (load_target_user db user) (\<lambda>u.
     bind_result (load_module_or_throw db key) (\<lambda>m.
     bind_result (apply_user_module_decision user m decision actor (au_is_superadmin u) db) (\<lambda>(db1, change).
       with_overview (case change of
           None \<Rightarrow> db1
         | Some (previous, new) \<Rightarrow>
             write_audit_log actor ''ACCESS_USER_MODULE_SET'' (show_id user @ '':'' @ cm_module_key m)
               (UserModuleSet user (au_username u) (cm_module_key m) previous new) db1))))"

fun apply_entries ::
  "int \<Rightarrow> bool \<Rightarrow> int \<Rightarrow> (string \<times> module_decision) list \<Rightarrow> access_db
    \<Rightarrow> (access_db \<times> (string \<times> module_override option \<times> module_decision) list) result" where
  "apply_entries user is_superadmin actor [] db = Inr (db, [])"
| "apply_entries user is_superadmin actor ((key, decision) # entries) db =
     bind_result (load_module_or_throw db key) (\<lambda>m.
     bind_result (apply_user_module_decision user m decision actor is_superadmin db) (\<lambda>(db1, change).
     bind_result (apply_entries user is_superadmin actor entries db1) (\<lambda>(db2, applied).
       Inr (db2, (case change of None \<Rightarrow> applied
         | Some (previous, new) \<Rightarrow> (cm_module_key m, previous, new) # applied)))))"

definition set_user_modules_bulk ::
  "int \<Rightarrow> (string \<times> module_decision) list \<Rightarrow> int \<Rightarrow> access_db \<Rightarrow> (access_db \<times> access_overview) result" where
  "set_user_modules_bulk user entries actor db =
     bind_result (load_target_user db user) (\<lambda>u.
     bind_result (apply_entries user (au_is_superadmin u) actor entries db) (\<lambda>(db1, applied).
       with_overview (if length applied > 0
         then write_audit_log actor ''ACCESS_USER_BULK_SET'' (show_id user)
           (UserBulkSet user (au_username u) applied) db1
         else db1)))"

definition UNLOCK_ALL_CONFIRMATION :: string where
  "UNLOCK_ALL_CONFIRMATION = ''DEBLOQUER TOUT''"

definition unlock_all :: "string \<Rightarrow> int \<Rightarrow> access_db \<Rightarrow> (access_db \<times> access_overview) result" where
  "unlock_all confirm actor db =
     (if confirm \<noteq> UNLOCK_ALL_CONFIRMATION then Inl (HttpError 400 ''CONFIRMATION_REQUIRED'')
      else
        bind_result (repo_delete_all_denials db) (\<lambda>(db1, removed).
        bind_result (repo_restore_all_defaults db1) (\<lambda>(db2, restored).
          let db3 = fold (\<lambda>(user, key). repo_insert_access_event (Some user) key EV_UNLOCK_ALL
                ''DENIED'' ''INHERIT'' actor) removed db2;
              db4 = fold (\<lambda>key. repo_insert_access_event None key EV_UNLOCK_ALL
                ''DISABLED'' ''ENABLED'' actor) restored db3
          in with_overview (write_audit_log actor ''ACCESS_UNLOCK_ALL'' ''*''
               (UnlockAll (length removed) (length restored) restored) db4))))"

section \<open>Reading a profile through the cache of the process\<close>

text \<open>
  \<open>resolveAccessProfile\<close> waits for up to three reads in an attempt. A call is the read it waits
  for, with the local variables that are live then; \<open>call_step\<close> performs that read on the
  tables of the moment and runs the code up to the next wait.
\<close>

definition ACCESS_CACHE_TTL_MS :: int where "ACCESS_CACHE_TTL_MS = 10000"

record cache_entry =
  ce_expires_at :: int
  ce_epoch :: int
  ce_profile :: access_profile

type_synonym access_cache = "int \<rightharpoonup> cache_entry"

definition invalidate_access_cache :: "int option \<Rightarrow> access_cache \<Rightarrow> access_cache" where
  "invalidate_access_cache user cache =
     (case user of Some u \<Rightarrow> cache(u := None) | None \<Rightarrow> (\<lambda>_. None))"

datatype profile_call =
    Await_epoch nat
  | Await_rows nat "int option"
  | Await_epoch_again nat int access_profile
  | Await_last_rows
  | Returned "access_profile option"

definition cached_profile :: "access_cache \<Rightarrow> int \<Rightarrow> int option \<Rightarrow> int \<Rightarrow> access_profile option" where
  "cached_profile cache user epoch now =
     (case (epoch, cache user) of
        (Some e, Some c) \<Rightarrow> if ce_epoch c = e \<and> ce_expires_at c > now then Some (ce_profile c) else None
      | _ \<Rightarrow> None)"

fun call_step ::
  "access_db \<Rightarrow> int \<Rightarrow> int \<Rightarrow> access_cache \<Rightarrow> profile_call \<Rightarrow> profile_call \<times> access_cache" where
  "call_step db now user cache (Await_epoch attempt) =
     (case cached_profile cache user (repo_authorization_epoch db) now of
        Some p \<Rightarrow> (Returned (Some p), cache)
      | None \<Rightarrow> (Await_rows attempt (repo_authorization_epoch db), cache))"
| "call_step db now user cache (Await_rows attempt epoch_before) =
     (case repo_resolve_access_profile db user of
        None \<Rightarrow> (Returned None, cache)
      | Some rows \<Rightarrow>
          (case epoch_before of
             None \<Rightarrow> (Returned (Some (profile_of_rows rows)), cache)
           | Some e \<Rightarrow> (Await_epoch_again attempt e (profile_of_rows rows), cache)))"
| "call_step db now user cache (Await_epoch_again attempt epoch_before profile) =
     (if repo_authorization_epoch db = Some epoch_before
      then (Returned (Some profile), cache(user \<mapsto> \<lparr>ce_expires_at = now + ACCESS_CACHE_TTL_MS,
             ce_epoch = epoch_before, ce_profile = profile\<rparr>))
      else if attempt + 1 < 3 then (Await_epoch (attempt + 1), cache)
      else (Await_last_rows, cache))"
| "call_step db now user cache Await_last_rows =
     (Returned (map_option profile_of_rows (repo_resolve_access_profile db user)), cache)"
| "call_step db now user cache (Returned p) = (Returned p, cache)"

section \<open>The gate of the router\<close>

text \<open>\<open>src/module/access-control/middlewares/module-access-gate.ts\<close>.\<close>

datatype user_id_value = NumberId int bool | TextId string | OtherId

text \<open>\<open>NumberId n safe\<close> is a number with its integral value and whether it is a safe integer.\<close>

definition MAX_SAFE_INTEGER :: nat where "MAX_SAFE_INTEGER = 9007199254740991"

definition normalize_user_id :: "user_id_value \<Rightarrow> int option" where
  "normalize_user_id v =
     (case v of
        NumberId n safe \<Rightarrow> if safe \<and> n > 0 then Some n else None
      | TextId s \<Rightarrow>
          (let t = js_trim s
           in if t \<noteq> [] \<and> list_all is_digit t \<and> read_nat t \<le> MAX_SAFE_INTEGER \<and> read_nat t > 0
              then Some (int (read_nat t)) else None)
      | OtherId \<Rightarrow> None)"

text \<open>The request's own grant and the one of the asynchronous scope.\<close>

record request_grants =
  rg_request :: access_store
  rg_scope :: access_store

definition grant_to_request :: "int \<Rightarrow> string \<Rightarrow> bool \<Rightarrow> request_grants \<Rightarrow> request_grants" where
  "grant_to_request user key elevated g =
     g\<lparr>rg_request := Some \<lparr>am_userId = Some user, am_moduleKey = Some key, am_granted = True,
         am_elevated = elevated\<rparr>,
       rg_scope := run_with_access (Some user) (Some key) (Some elevated) (rg_scope g)\<rparr>"

datatype gate_outcome = Next request_grants | Next_error failure | Forbidden

definition module_access_gate ::
  "bool \<Rightarrow> (int \<Rightarrow> access_profile option result) \<Rightarrow> user_id_value \<Rightarrow> string option \<Rightarrow> string option
    \<Rightarrow> request_grants \<Rightarrow> gate_outcome" where
  "module_access_gate gate_disabled resolve user_value original_url path g =
     (case normalize_user_id user_value of
        None \<Rightarrow> Next g
      | Some user \<Rightarrow>
          (let module_key = (case resolve_module_key_for_path original_url of
                 Some k \<Rightarrow> Some k | None \<Rightarrow> resolve_module_key_for_path path)
           in case module_key of
                None \<Rightarrow> Next (grant_to_request user ''shared'' True g)
              | Some key \<Rightarrow>
                  if gate_disabled then Next (grant_to_request user key True g)
                  else
                    (case resolve user of
                       Inl e \<Rightarrow> Next_error e
                     | Inr None \<Rightarrow> Next g
                     | Inr (Some profile) \<Rightarrow>
                         if ap_is_superadmin profile then Next (grant_to_request user key True g)
                         else
                           (case List.find (\<lambda>m. ra_module_key m = key) (ap_modules profile) of
                              None \<Rightarrow> Next g
                            | Some decision \<Rightarrow>
                                if av_allowed decision
                                then Next (grant_to_request user key
                                  (av_source decision = SRC_OVERRIDE \<or> av_source decision = SRC_SUPERADMIN) g)
                                else Forbidden))))"

text \<open>\<open>requireSuperadmin\<close>: any failure of the reading refuses.\<close>

datatype superadmin_outcome = SA_Next | SA_Unauthenticated | SA_Forbidden

definition require_superadmin :: "(int \<Rightarrow> bool result) \<Rightarrow> int option \<Rightarrow> superadmin_outcome" where
  "require_superadmin is_superadmin user =
     (case user of
        None \<Rightarrow> SA_Unauthenticated
      | Some u \<Rightarrow> (case is_superadmin u of Inr True \<Rightarrow> SA_Next | _ \<Rightarrow> SA_Forbidden))"

end
