(* ===== verification/Access_Cache.thy ===== *)
theory Access_Cache
  imports Access_Tower
begin

text \<open>
  The cache of \<open>resolveAccessProfile\<close> is sound: every writer of the tables raises the shared
  epoch, the tables are therefore a versioned store, and a call that runs among other calls,
  writers, invalidations and clock changes returns a profile the tables really gave while it
  ran. A call also returns after a bounded number of reads.
\<close>

section \<open>What the operations keep\<close>

text \<open>The part of the tables no operation of the service writes.\<close>

definition same_frame :: "access_db \<Rightarrow> access_db \<Rightarrow> bool" where
  "same_frame d d' \<longleftrightarrow> db_users d' = db_users d \<and> db_has_tables d' = db_has_tables d
     \<and> map (cm_enabled_by_default_update (\<lambda>_. True)) (db_modules d')
       = map (cm_enabled_by_default_update (\<lambda>_. True)) (db_modules d)"

definition same_view :: "access_db \<Rightarrow> access_db \<Rightarrow> bool" where
  "same_view d d' \<longleftrightarrow> db_modules d' = db_modules d \<and> db_access d' = db_access d"

text \<open>The epoch never goes back, and tables with the same epoch hold the same decisions.\<close>

definition epoch_tracks :: "access_db \<Rightarrow> access_db \<Rightarrow> bool" where
  "epoch_tracks d d' \<longleftrightarrow>
     (case (db_epoch d, db_epoch d') of
        (Some e, Some e') \<Rightarrow> e \<le> e' \<and> (e = e' \<longrightarrow> same_view d d')
      | (None, None) \<Rightarrow> same_view d d'
      | _ \<Rightarrow> False)"

definition tracked :: "access_db \<Rightarrow> access_db \<Rightarrow> bool" where
  "tracked d d' \<longleftrightarrow> same_frame d d' \<and> epoch_tracks d d'"

lemma tracked_refl [simp]: "tracked d d"
  by (simp add: tracked_def same_frame_def epoch_tracks_def same_view_def split: option.splits)

lemma tracked_trans: "tracked a b \<Longrightarrow> tracked b c \<Longrightarrow> tracked a c"
  unfolding tracked_def same_frame_def epoch_tracks_def same_view_def
  by (cases "db_epoch a"; cases "db_epoch b"; cases "db_epoch c") auto

lemma tracked_log [simp]:
  "tracked d (repo_insert_access_event u k t p n a d') = tracked d d'"
  "tracked d (write_audit_log a act i x d') = tracked d d'"
  by (simp_all add: tracked_def same_frame_def epoch_tracks_def same_view_def
      repo_insert_access_event_def write_audit_log_def split: option.splits)

lemma tracked_bump:
  assumes "bump_authorization_epoch d1 = Inr d'" "same_frame d d1" "db_epoch d1 = db_epoch d"
  shows "tracked d d'"
  using assms
  by (auto simp: bump_authorization_epoch_def tracked_def same_frame_def epoch_tracks_def split: option.splits)

lemma set_default_frame: "same_frame d (d\<lparr>db_modules := map (\<lambda>m. if P m
    then m\<lparr>cm_enabled_by_default := b\<rparr> else m) (db_modules d)\<rparr>)"
  by (simp add: same_frame_def)

lemma repo_set_module_default_tracked:
  assumes "repo_set_module_default key b d = Inr d'"
  shows "tracked d d'"
proof (cases "\<exists>m \<in> set (db_modules d). cm_module_key m = key")
  case True
  then have "bump_authorization_epoch (d\<lparr>db_modules := map (\<lambda>m. if cm_module_key m = key
      then m\<lparr>cm_enabled_by_default := b\<rparr> else m) (db_modules d)\<rparr>) = Inr d'"
    using assms by (simp add: repo_set_module_default_def Let_def)
  then show ?thesis using set_default_frame by (rule tracked_bump) simp
next
  case False
  then have "map (\<lambda>m. if cm_module_key m = key then m\<lparr>cm_enabled_by_default := b\<rparr> else m)
      (db_modules d) = db_modules d" by (intro map_idI) auto
  then show ?thesis using assms False by (simp add: repo_set_module_default_def Let_def)
qed

lemma repo_upsert_tracked: "repo_upsert_user_module_access u k a d = Inr d' \<Longrightarrow> tracked d d'"
  unfolding repo_upsert_user_module_access_def
  by (erule tracked_bump) (simp_all add: same_frame_def)

lemma repo_delete_tracked:
  assumes "repo_delete_user_module_access u k d = Inr d'"
  shows "tracked d d'"
proof (cases "map_of (db_access d) (u, k) = None")
  case True
  then have "AList.delete (u, k) (db_access d) = db_access d"
    by (simp add: map_of_eq_None_iff delete_idem)
  then show ?thesis using assms True by (simp add: repo_delete_user_module_access_def)
next
  case False
  then have "bump_authorization_epoch (d\<lparr>db_access := AList.delete (u, k) (db_access d)\<rparr>) = Inr d'"
    using assms by (simp add: repo_delete_user_module_access_def)
  then show ?thesis by (rule tracked_bump) (simp_all add: same_frame_def)
qed

lemma repo_delete_all_tracked:
  assumes "repo_delete_all_denials d = Inr (d', rows)"
  shows "tracked d d'"
proof (cases "filter (\<lambda>(_, a). a = A_DENIED) (db_access d) = []")
  case True
  then have "filter (\<lambda>(_, a). a \<noteq> A_DENIED) (db_access d) = db_access d"
    by (auto simp: filter_id_conv filter_empty_conv)
  then show ?thesis using assms True by (simp add: repo_delete_all_denials_def Let_def)
next
  case False
  then have "bump_authorization_epoch (d\<lparr>db_access := filter (\<lambda>(_, a). a \<noteq> A_DENIED) (db_access d)\<rparr>) = Inr d'"
    using assms by (auto simp: repo_delete_all_denials_def Let_def)
  then show ?thesis by (rule tracked_bump) (simp_all add: same_frame_def)
qed

lemma repo_restore_tracked:
  assumes "repo_restore_all_defaults d = Inr (d', rows)"
  shows "tracked d d'"
proof (cases "filter (\<lambda>m. \<not> cm_enabled_by_default m) (db_modules d) = []")
  case True
  then have "map (\<lambda>m. m\<lparr>cm_enabled_by_default := True\<rparr>) (db_modules d) = db_modules d"
    by (intro map_idI) (auto simp: filter_empty_conv)
  then show ?thesis using assms True by (simp add: repo_restore_all_defaults_def Let_def)
next
  case False
  then have "bump_authorization_epoch (d\<lparr>db_modules :=
      map (\<lambda>m. m\<lparr>cm_enabled_by_default := True\<rparr>) (db_modules d)\<rparr>) = Inr d'"
    using assms by (auto simp: repo_restore_all_defaults_def Let_def)
  then show ?thesis by (rule tracked_bump) (simp_all add: same_frame_def)
qed

lemma set_module_default_tracked:
  "set_module_default key b actor d = Inr (d', ov) \<Longrightarrow> tracked d d'"
  by (auto simp: set_module_default_def with_overview_def split: if_splits
      dest: repo_set_module_default_tracked)

lemma apply_decision_tracked:
  "apply_user_module_decision u m r actor su d = Inr (d', c) \<Longrightarrow> tracked d d'"
  by (auto simp: apply_user_module_decision_def Let_def split: if_splits
      dest: repo_delete_tracked repo_upsert_tracked)

lemma set_user_module_access_parts:
  assumes "set_user_module_access u k r actor d = Inr (d', ov)"
  obtains account m d1 change where "map_of (db_users d) u = Some account"
    "repo_get_catalog_module d k = Some m"
    "apply_user_module_decision u m r actor (au_is_superadmin account) d = Inr (d1, change)"
    "d' = (case change of None \<Rightarrow> d1 | Some (previous, new) \<Rightarrow>
       write_audit_log actor ''ACCESS_USER_MODULE_SET'' (show_id u @ '':'' @ cm_module_key m)
         (UserModuleSet u (au_username account) (cm_module_key m) previous new) d1)"
    "ov = build_overview d'"
  using assms
  by (auto simp: set_user_module_access_def with_overview_def load_target_user_def load_module_or_throw_def
      split: option.splits)

lemma set_user_module_access_tracked:
  assumes "set_user_module_access u k r actor d = Inr (d', ov)"
  shows "tracked d d'"
  using assms
proof (rule set_user_module_access_parts)
  fix account m d1 change
  assume "apply_user_module_decision u m r actor (au_is_superadmin account) d = Inr (d1, change)"
  then have "tracked d d1" by (rule apply_decision_tracked)
  moreover assume "d' = (case change of None \<Rightarrow> d1 | Some (previous, new) \<Rightarrow>
       write_audit_log actor ''ACCESS_USER_MODULE_SET'' (show_id u @ '':'' @ cm_module_key m)
         (UserModuleSet u (au_username account) (cm_module_key m) previous new) d1)"
  ultimately show "tracked d d'" by (simp split: option.split prod.split)
qed

lemma apply_entries_tracked:
  "apply_entries u su actor es d = Inr (d', applied) \<Longrightarrow> tracked d d'"
proof (induction u su actor es d arbitrary: d' applied rule: apply_entries.induct)
  case (2 u su actor k r es d)
  then obtain m d1 c applied1 where
    "apply_user_module_decision u m r actor su d = Inr (d1, c)" "apply_entries u su actor es d1 = Inr (d', applied1)"
    and ih: "\<And>a b. apply_entries u su actor es d1 = Inr (a, b) \<Longrightarrow> tracked d1 a"
    by (fastforce split: prod.splits)
  then show ?case by (blast intro: tracked_trans apply_decision_tracked)
qed simp

lemma set_user_modules_bulk_parts:
  assumes "set_user_modules_bulk u es actor d = Inr (d', ov)"
  obtains account d1 applied where "map_of (db_users d) u = Some account"
    "apply_entries u (au_is_superadmin account) actor es d = Inr (d1, applied)"
    "d' = (if applied = [] then d1 else write_audit_log actor ''ACCESS_USER_BULK_SET'' (show_id u)
       (UserBulkSet u (au_username account) applied) d1)"
  using assms
  by (auto simp: set_user_modules_bulk_def with_overview_def load_target_user_def split: option.splits if_splits)

lemma set_user_modules_bulk_tracked:
  assumes "set_user_modules_bulk u es actor d = Inr (d', ov)"
  shows "tracked d d'"
  using assms
proof (rule set_user_modules_bulk_parts)
  fix account d1 applied
  assume "apply_entries u (au_is_superadmin account) actor es d = Inr (d1, applied)"
  then have "tracked d d1" by (rule apply_entries_tracked)
  moreover assume "d' = (if applied = [] then d1 else write_audit_log actor ''ACCESS_USER_BULK_SET'' (show_id u)
       (UserBulkSet u (au_username account) applied) d1)"
  ultimately show "tracked d d'" by simp
qed

lemma tracked_log_denials [simp]:
  "tracked d (fold (\<lambda>(u, k). repo_insert_access_event (Some u) k t p n a) rows d') = tracked d d'"
  by (induction rows arbitrary: d') (simp_all add: case_prod_beta)

lemma tracked_log_defaults [simp]:
  "tracked d (fold (\<lambda>k. repo_insert_access_event None k t p n a) keys d') = tracked d d'"
  by (induction keys arbitrary: d') simp_all

lemma unlock_all_parts:
  assumes "unlock_all confirm actor d = Inr (d', ov)"
  obtains d1 removed d2 restored where "confirm = UNLOCK_ALL_CONFIRMATION"
    "repo_delete_all_denials d = Inr (d1, removed)" "repo_restore_all_defaults d1 = Inr (d2, restored)"
    "d' = write_audit_log actor ''ACCESS_UNLOCK_ALL'' ''*'' (UnlockAll (length removed) (length restored) restored)
      (fold (\<lambda>key. repo_insert_access_event None key EV_UNLOCK_ALL ''DISABLED'' ''ENABLED'' actor) restored
        (fold (\<lambda>(user, key). repo_insert_access_event (Some user) key EV_UNLOCK_ALL ''DENIED'' ''INHERIT'' actor)
          removed d2))"
  using assms by (auto simp: unlock_all_def with_overview_def Let_def split: if_splits)

lemma unlock_all_tracked:
  assumes "unlock_all confirm actor d = Inr (d', ov)"
  shows "tracked d d'"
  using assms
proof (rule unlock_all_parts)
  fix d1 removed d2 restored
  assume "repo_delete_all_denials d = Inr (d1, removed)" "repo_restore_all_defaults d1 = Inr (d2, restored)"
  then have "tracked d d2" by (blast intro: tracked_trans repo_delete_all_tracked repo_restore_tracked)
  moreover assume "d' = write_audit_log actor ''ACCESS_UNLOCK_ALL'' ''*''
      (UnlockAll (length removed) (length restored) restored)
      (fold (\<lambda>key. repo_insert_access_event None key EV_UNLOCK_ALL ''DISABLED'' ''ENABLED'' actor) restored
        (fold (\<lambda>(user, key). repo_insert_access_event (Some user) key EV_UNLOCK_ALL ''DENIED'' ''INHERIT'' actor)
          removed d2))"
  ultimately show "tracked d d'" by simp
qed

section \<open>The tables as a versioned store\<close>

datatype access_operation =
    Set_default string bool
  | Set_user_module int string module_decision
  | Set_user_bulk int "(string \<times> module_decision) list"
  | Unlock_everything string

fun run_access_operation ::
  "int \<Rightarrow> access_operation \<Rightarrow> access_db \<Rightarrow> (access_db \<times> access_overview) result" where
  "run_access_operation actor (Set_default key enabled) db = set_module_default key enabled actor db"
| "run_access_operation actor (Set_user_module user key decision) db =
     set_user_module_access user key decision actor db"
| "run_access_operation actor (Set_user_bulk user entries) db = set_user_modules_bulk user entries actor db"
| "run_access_operation actor (Unlock_everything confirm) db = unlock_all confirm actor db"

lemma operation_tracked: "run_access_operation actor op d = Inr (d', ov) \<Longrightarrow> tracked d d'"
  by (cases op) (auto dest: set_module_default_tracked set_user_module_access_tracked
      set_user_modules_bulk_tracked unlock_all_tracked)

text \<open>
  The tables change by an operation of the service, or by another writer of the database,
  whose changes to accounts, modules and overrides its triggers number
  (\<open>db/privileged/20260804_realtime_control_plane_triggers.sql\<close>).
\<close>

inductive access_change :: "access_db \<Rightarrow> access_db \<Rightarrow> bool" where
  by_service: "run_access_operation actor op d = Inr (d', ov) \<Longrightarrow> access_change d d'"
| by_other: "db_epoch d = Some e \<Longrightarrow> db_epoch d' = Some e' \<Longrightarrow> e < e' \<Longrightarrow> access_change d d'"

lemma same_profile:
  assumes "same_frame d d'" "same_view d d'"
  shows "profile_of d' = profile_of d"
proof
  have "db_users d' = db_users d" "db_has_tables d' = db_has_tables d" "db_modules d' = db_modules d"
    "db_access d' = db_access d"
    using assms by (simp_all add: same_frame_def same_view_def)
  then show "profile_of d' u = profile_of d u" for u
    by (simp only: profile_of_def repo_resolve_access_profile_def)
qed

interpretation tower: versioned_store access_change db_epoch profile_of
proof
  fix d d' e
  assume "access_change d d'" "db_epoch d = Some e"
  then show "\<exists>e'. db_epoch d' = Some e' \<and> e \<le> e'"
    by cases (auto dest!: operation_tracked simp: tracked_def epoch_tracks_def split: option.splits)
next
  fix d d' e
  assume c: "access_change d d'" and e: "db_epoch d = Some e" "db_epoch d' = Some e"
  from c show "profile_of d' = profile_of d"
  proof cases
    case by_service
    from operation_tracked [OF this] e show ?thesis
      by (intro same_profile) (simp_all add: tracked_def epoch_tracks_def)
  qed (use e in simp)
qed

section \<open>Calls that run at the same time\<close>

text \<open>
  A call in flight with the tables it has lived through: those of the moment it started and
  every later version until it returns.
\<close>

record in_flight =
  fl_user :: int
  fl_call :: profile_call
  fl_seen :: "access_db set"

record cache_system =
  cs_db :: access_db
  cs_now :: int
  cs_cache :: access_cache
  cs_calls :: "nat \<Rightarrow> in_flight option"

fun has_returned :: "profile_call \<Rightarrow> bool" where
  "has_returned (Returned _) = True"
| "has_returned _ = False"

definition observe :: "access_db \<Rightarrow> in_flight \<Rightarrow> in_flight" where
  "observe d c = (if has_returned (fl_call c) then c else c\<lparr>fl_seen := insert d (fl_seen c)\<rparr>)"

inductive cache_step :: "cache_system \<Rightarrow> cache_system \<Rightarrow> bool" where
  database: "access_change (cs_db s) d \<Longrightarrow>
     cache_step s (s\<lparr>cs_db := d, cs_calls := (\<lambda>i. map_option (observe d) (cs_calls s i))\<rparr>)"
| clock: "cache_step s (s\<lparr>cs_now := t\<rparr>)"
| invalidate: "cache_step s (s\<lparr>cs_cache := invalidate_access_cache u (cs_cache s)\<rparr>)"
| start: "cs_calls s i = None \<Longrightarrow> cache_step s (s\<lparr>cs_calls := (cs_calls s)(i \<mapsto>
     \<lparr>fl_user = user, fl_call = Await_epoch 0, fl_seen = {cs_db s}\<rparr>)\<rparr>)"
| advance: "cs_calls s i = Some c \<Longrightarrow>
     call_step (cs_db s) (cs_now s) (fl_user c) (cs_cache s) (fl_call c) = (call', cache') \<Longrightarrow>
     cache_step s (s\<lparr>cs_cache := cache', cs_calls := (cs_calls s)(i \<mapsto> c\<lparr>fl_call := call'\<rparr>)\<rparr>)"

inductive cache_reachable :: "cache_system \<Rightarrow> bool" where
  initial: "cache_reachable \<lparr>cs_db = d, cs_now = t, cs_cache = (\<lambda>_. None), cs_calls = (\<lambda>_. None)\<rparr>"
| later: "cache_reachable s \<Longrightarrow> cache_step s s' \<Longrightarrow> cache_reachable s'"

definition entry_valid :: "access_db \<Rightarrow> int \<Rightarrow> int \<Rightarrow> access_profile \<Rightarrow> bool" where
  "entry_valid d user e p \<longleftrightarrow>
     (\<exists>e'. db_epoch d = Some e' \<and> e \<le> e' \<and> (e = e' \<longrightarrow> profile_of d user = Some p))"

lemma entry_valid_change: "entry_valid d u e p \<Longrightarrow> access_change d d' \<Longrightarrow> entry_valid d' u e p"
proof -
  assume v: "entry_valid d u e p" and c: "access_change d d'"
  then obtain e1 where e1: "db_epoch d = Some e1" "e \<le> e1" "e = e1 \<longrightarrow> profile_of d u = Some p"
    by (auto simp: entry_valid_def)
  obtain e2 where e2: "db_epoch d' = Some e2" "e1 \<le> e2" using tower.version_mono [OF c e1(1)] by blast
  have "profile_of d' u = Some p" if "e = e2"
    using that e1 e2 tower.version_tracks [OF c e1(1)] by auto
  with e1 e2 show ?thesis by (auto simp: entry_valid_def)
qed

lemma entry_valid_current: "entry_valid d u e p \<Longrightarrow> db_epoch d = Some e \<Longrightarrow> profile_of d u = Some p"
  by (auto simp: entry_valid_def)

definition call_valid :: "access_db \<Rightarrow> in_flight \<Rightarrow> bool" where
  "call_valid d c \<longleftrightarrow>
     (\<not> has_returned (fl_call c) \<longrightarrow> d \<in> fl_seen c)
     \<and> (\<forall>n e. fl_call c = Await_rows n (Some e) \<longrightarrow> (\<exists>e'. db_epoch d = Some e' \<and> e \<le> e'))
     \<and> (\<forall>n e p. fl_call c = Await_epoch_again n e p \<longrightarrow>
          entry_valid d (fl_user c) e p \<and> (\<exists>x \<in> fl_seen c. profile_of x (fl_user c) = Some p))
     \<and> (\<forall>p. fl_call c = Returned p \<longrightarrow> (\<exists>x \<in> fl_seen c. profile_of x (fl_user c) = p))"

definition cache_valid :: "access_db \<Rightarrow> access_cache \<Rightarrow> bool" where
  "cache_valid d cache \<longleftrightarrow> (\<forall>u c. cache u = Some c \<longrightarrow> entry_valid d u (ce_epoch c) (ce_profile c))"

lemma call_valid_change:
  assumes "call_valid d c" "access_change d d'"
  shows "call_valid d' (observe d' c)"
proof (cases "fl_call c")
  case (Await_rows n e)
  then show ?thesis using assms tower.version_mono [OF assms(2)]
    by (fastforce simp: call_valid_def observe_def)
next
  case (Await_epoch_again n e p)
  then show ?thesis using assms entry_valid_change [OF _ assms(2)]
    by (auto simp: call_valid_def observe_def)
qed (use assms in \<open>auto simp: call_valid_def observe_def\<close>)

lemma call_step_valid:
  assumes c: "call_valid d c" and v: "cache_valid d cache"
    and s: "call_step d now (fl_user c) cache (fl_call c) = (call', cache')"
  shows "call_valid d (c\<lparr>fl_call := call'\<rparr>) \<and> cache_valid d cache'"
proof (cases "fl_call c")
  case (Await_epoch n)
  have seen: "d \<in> fl_seen c" using c Await_epoch by (simp add: call_valid_def)
  show ?thesis
  proof (cases "cached_profile cache (fl_user c) (db_epoch d) now")
    case None
    with s Await_epoch seen v show ?thesis by (auto simp: call_valid_def repo_authorization_epoch_def)
  next
    case (Some p)
    then obtain e x where "db_epoch d = Some e" "cache (fl_user c) = Some x" "ce_epoch x = e" "ce_profile x = p"
      by (auto simp: cached_profile_def split: option.splits if_splits)
    then have "profile_of d (fl_user c) = Some p"
      using v entry_valid_current unfolding cache_valid_def by blast
    with Some s Await_epoch seen v show ?thesis by (auto simp: call_valid_def repo_authorization_epoch_def)
  qed
next
  case (Await_rows n e)
  have seen: "d \<in> fl_seen c" using c Await_rows by (simp add: call_valid_def)
  show ?thesis
  proof (cases "repo_resolve_access_profile d (fl_user c)")
    case None
    then have "profile_of d (fl_user c) = None" by (simp add: profile_of_def)
    with None s Await_rows seen v show ?thesis by (auto simp: call_valid_def)
  next
    case (Some rows)
    then have p: "profile_of d (fl_user c) = Some (profile_of_rows rows)" by (simp add: profile_of_def)
    show ?thesis
    proof (cases e)
      case None
      with Some p s Await_rows seen v show ?thesis by (auto simp: call_valid_def)
    next
      case e: (Some e0)
      then obtain e' where "db_epoch d = Some e'" "e0 \<le> e'"
        using c Await_rows by (auto simp: call_valid_def)
      then have "entry_valid d (fl_user c) e0 (profile_of_rows rows)" using p by (simp add: entry_valid_def)
      with e Some p s Await_rows seen v show ?thesis by (auto simp: call_valid_def)
    qed
  qed
next
  case (Await_epoch_again n e p)
  have seen: "d \<in> fl_seen c" and ev: "entry_valid d (fl_user c) e p"
    and x: "\<exists>x \<in> fl_seen c. profile_of x (fl_user c) = Some p"
    using c Await_epoch_again by (simp_all add: call_valid_def)
  show ?thesis
  proof (cases "db_epoch d = Some e")
    case True
    then have new: "call' = Returned (Some p)" "cache' = cache(fl_user c \<mapsto>
        \<lparr>ce_expires_at = now + ACCESS_CACHE_TTL_MS, ce_epoch = e, ce_profile = p\<rparr>)"
      using s Await_epoch_again by (auto simp: repo_authorization_epoch_def)
    have "cache_valid d cache'" using v ev by (simp add: cache_valid_def new)
    then show ?thesis using x by (simp add: call_valid_def new)
  next
    case False
    then show ?thesis using s Await_epoch_again seen v
      by (auto simp: call_valid_def repo_authorization_epoch_def split: if_splits)
  qed
next
  case Await_last_rows
  then show ?thesis using s c v by (auto simp: call_valid_def profile_of_def)
next
  case (Returned p)
  then show ?thesis using s c v by auto
qed

definition system_valid :: "cache_system \<Rightarrow> bool" where
  "system_valid s \<longleftrightarrow> cache_valid (cs_db s) (cs_cache s)
     \<and> (\<forall>i c. cs_calls s i = Some c \<longrightarrow> call_valid (cs_db s) c)"

lemma cache_step_valid: "cache_step s s' \<Longrightarrow> system_valid s \<Longrightarrow> system_valid s'"
proof (induction rule: cache_step.induct)
  case (database s d)
  then show ?case
    using entry_valid_change [OF _ database(1)] call_valid_change [OF _ database(1)]
    by (auto simp: system_valid_def cache_valid_def)
next
  case (advance s i c call' cache')
  then have "call_valid (cs_db s) c" "cache_valid (cs_db s) (cs_cache s)" by (auto simp: system_valid_def)
  from call_step_valid [OF this advance(2)] advance(3) show ?case by (auto simp: system_valid_def)
next
  case (invalidate s u)
  then show ?case
    by (auto simp: system_valid_def cache_valid_def invalidate_access_cache_def split: option.splits if_splits)
next
  case (start s i user)
  then show ?case by (auto simp: system_valid_def call_valid_def)
qed (simp add: system_valid_def)

lemma cache_reachable_valid: "cache_reachable s \<Longrightarrow> system_valid s"
proof (induction rule: cache_reachable.induct)
  case (initial d t)
  show ?case by (simp add: system_valid_def cache_valid_def)
next
  case (later s s')
  then show ?case using cache_step_valid by blast
qed


section \<open>The properties of the reading\<close>

text \<open>C7: Whatever operations, other writers of the database, clock changes, invalidations and
  other calls happen meanwhile, the profile a call returns, from the cache or not, is the one
  that the tables gave at some moment between the start of the call and its return.\<close>

theorem profile_read_is_current:
  assumes "cache_reachable s" "cs_calls s i = Some c" "fl_call c = Returned p"
  shows "\<exists>d \<in> fl_seen c. profile_of d (fl_user c) = p"
  using cache_reachable_valid [OF assms(1)] assms(2,3) by (simp add: system_valid_def call_valid_def)

definition sample_tables :: access_db where
  "sample_tables = \<lparr>db_has_tables = True,
     db_users = [(7, \<lparr>au_username = ''lea'', au_status = Some ''Active'', au_is_superadmin = False\<rparr>)],
     db_modules = [\<lparr>cm_module_key = ''stock'', cm_label = ''Stock'', cm_nav_page_keys = [],
       cm_enabled_by_default = True, cm_is_protected = False, cm_is_active = True\<rparr>],
     db_access = [((7, ''stock''), A_DENIED)], db_events = [], db_audit = [], db_epoch = Some 3\<rparr>"

definition sample_profile :: access_profile where
  "sample_profile = \<lparr>ap_is_superadmin = False, ap_modules = [\<lparr>av_allowed = False, av_source = SRC_OVERRIDE,
     ra_module_key = ''stock'', ra_label = ''Stock'', ra_nav_page_keys = []\<rparr>]\<rparr>"

lemma sample_rows: "profile_of sample_tables 7 = Some sample_profile"
  by (simp add: profile_of_def repo_resolve_access_profile_def sample_tables_def profile_of_rows_def
      resolve_row_def decide_access_def sample_profile_def)

definition sample_system :: "(nat \<Rightarrow> in_flight option) \<Rightarrow> access_cache \<Rightarrow> cache_system" where
  "sample_system calls cache = \<lparr>cs_db = sample_tables, cs_now = 0, cs_cache = cache, cs_calls = calls\<rparr>"

definition sample_call :: "profile_call \<Rightarrow> in_flight" where
  "sample_call pc = \<lparr>fl_user = 7, fl_call = pc, fl_seen = {sample_tables}\<rparr>"

lemma sample_advance:
  assumes "cache_reachable (sample_system ((\<lambda>_. None)(0 \<mapsto> sample_call pc)) cache)"
    "call_step sample_tables 0 7 cache pc = (pc', cache')"
  shows "cache_reachable (sample_system ((\<lambda>_. None)(0 \<mapsto> sample_call pc')) cache')"
  using cache_reachable.later [OF assms(1) cache_step.advance [where i = 0 and c = "sample_call pc"]] assms(2)
  by (simp add: sample_system_def sample_call_def)

lemma sample_returns:
  "\<exists>cache. cache_reachable (sample_system ((\<lambda>_. None)(0 \<mapsto> sample_call (Returned (Some sample_profile)))) cache)"
proof -
  have r: "map_option profile_of_rows (repo_resolve_access_profile sample_tables 7) = Some sample_profile"
    using sample_rows by (simp add: profile_of_def)
  then obtain rows where rows: "repo_resolve_access_profile sample_tables 7 = Some rows"
    "profile_of_rows rows = sample_profile" by (cases "repo_resolve_access_profile sample_tables 7") auto
  have e: "db_epoch sample_tables = Some 3" by (simp add: sample_tables_def)
  have "cache_reachable (sample_system (\<lambda>_. None) (\<lambda>_. None))"
    unfolding sample_system_def by (rule cache_reachable.initial)
  from cache_reachable.later [OF this cache_step.start [where i = 0 and user = 7]]
  have "cache_reachable (sample_system ((\<lambda>_. None)(0 \<mapsto> sample_call (Await_epoch 0))) (\<lambda>_. None))"
    by (simp add: sample_system_def sample_call_def)
  from sample_advance [OF this, of "Await_rows 0 (Some 3)" "\<lambda>_. None"]
  have "cache_reachable (sample_system ((\<lambda>_. None)(0 \<mapsto> sample_call (Await_rows 0 (Some 3)))) (\<lambda>_. None))"
    by (simp add: e repo_authorization_epoch_def cached_profile_def)
  from sample_advance [OF this, of "Await_epoch_again 0 3 sample_profile" "\<lambda>_. None"]
  have "cache_reachable (sample_system ((\<lambda>_. None)(0 \<mapsto> sample_call (Await_epoch_again 0 3 sample_profile))) (\<lambda>_. None))"
    by (simp add: rows)
  from sample_advance [OF this] show ?thesis by (auto simp: e repo_authorization_epoch_def)
qed

theorem profile_read_is_current_witness:
  "\<exists>cache. cache_reachable (sample_system ((\<lambda>_. None)(0 \<mapsto> sample_call (Returned (Some sample_profile)))) cache)
     \<and> (\<exists>d \<in> {sample_tables}. profile_of d 7 = Some sample_profile)"
proof -
  obtain cache where r: "cache_reachable
      (sample_system ((\<lambda>_. None)(0 \<mapsto> sample_call (Returned (Some sample_profile)))) cache)"
    using sample_returns by blast
  from profile_read_is_current [OF r, of 0 "sample_call (Returned (Some sample_profile))"] r
  show ?thesis by (auto simp: sample_system_def sample_call_def)
qed

text \<open>
  The reads of one call, each on the tables, clock and cache of its own moment.
\<close>

fun run_call :: "int \<Rightarrow> (access_db \<times> int \<times> access_cache) list \<Rightarrow> profile_call \<Rightarrow> profile_call" where
  "run_call user [] pc = pc"
| "run_call user ((d, now, cache) # moments) pc = run_call user moments (fst (call_step d now user cache pc))"

text \<open>How many reads a call can still make.\<close>

fun reads_left :: "profile_call \<Rightarrow> nat" where
  "reads_left (Await_epoch n) = 3 * (2 - n) + 4"
| "reads_left (Await_rows n e) = 3 * (2 - n) + 3"
| "reads_left (Await_epoch_again n e p) = 3 * (2 - n) + 2"
| "reads_left Await_last_rows = 1"
| "reads_left (Returned p) = 0"

lemma call_step_reads: "\<not> has_returned pc \<Longrightarrow> reads_left (fst (call_step d now user cache pc)) < reads_left pc"
  by (cases pc) (auto split: option.split)

lemma run_call_returned: "run_call user moments (Returned p) = Returned p"
  by (induction moments) auto

text \<open>C8: A call returns after at most ten reads, whatever the tables, the clock and the cache
  become between one read and the next.\<close>

theorem profile_read_returns:
  assumes "length moments \<ge> 10"
  shows "\<exists>p. run_call user moments (Await_epoch 0) = Returned p"
proof -
  have "\<exists>p. run_call user moments pc = Returned p" if "reads_left pc \<le> length moments" for pc
    using that
  proof (induction moments arbitrary: pc)
    case Nil
    then show ?case by (cases pc) auto
  next
    case (Cons m moments)
    obtain d now cache where m: "m = (d, now, cache)" by (cases m)
    show ?case
    proof (cases "has_returned pc")
      case True
      then show ?thesis by (cases pc) (simp_all add: m run_call_returned)
    next
      case False
      with call_step_reads [OF False, of d now user cache] Cons.prems
      have "reads_left (fst (call_step d now user cache pc)) \<le> length moments" by simp
      from Cons.IH [OF this] show ?thesis by (simp add: m)
    qed
  qed
  then show ?thesis using assms by simp
qed

theorem profile_read_returns_witness:
  "\<exists>p. run_call 7 (replicate 10 (sample_tables, 0, \<lambda>_. None)) (Await_epoch 0) = Returned p"
  by (rule profile_read_returns) simp

end
