(* ===== verification/Access_Rules.thy ===== *)
theory Access_Rules
  imports Access_Cache
begin

text \<open>
  What the operations of the access tower change and what they can never do, and the
  requests that the gate of the router refuses, in terms of the tables.
\<close>

section \<open>What a decision changes\<close>

definition stored_decision :: "module_decision \<Rightarrow> module_override option" where
  "stored_decision r = (if r = D_DENIED then Some A_DENIED else None)"

lemma bump_access [simp]: "bump_authorization_epoch d = Inr d' \<Longrightarrow> db_access d' = db_access d"
  by (auto simp: bump_authorization_epoch_def split: option.splits)

lemma log_access [simp]:
  "db_access (repo_insert_access_event u k t p n a d) = db_access d"
  "db_access (write_audit_log a act i x d) = db_access d"
  by (simp_all add: repo_insert_access_event_def write_audit_log_def)

lemma repo_upsert_access:
  "repo_upsert_user_module_access u k a d = Inr d' \<Longrightarrow> db_access d' = AList.update (u, k) a (db_access d)"
  by (auto simp: repo_upsert_user_module_access_def)

lemma repo_delete_access:
  "repo_delete_user_module_access u k d = Inr d' \<Longrightarrow> db_access d' = AList.delete (u, k) (db_access d)"
  by (auto simp: repo_delete_user_module_access_def Let_def split: if_splits)

lemma apply_decision_cases:
  assumes "apply_user_module_decision u m r actor su d = Inr (d', c)"
  shows "(map_of (db_access d) (u, cm_module_key m) = stored_decision r \<and> d' = d)
    \<or> (stored_decision r = None \<and> db_access d' = AList.delete (u, cm_module_key m) (db_access d))
    \<or> (stored_decision r = Some A_DENIED \<and> db_access d' = AList.update (u, cm_module_key m) A_DENIED (db_access d))"
  using assms
  by (cases r) (auto simp: apply_user_module_decision_def Let_def repo_get_user_module_access_def
      stored_decision_def split: if_splits dest: repo_upsert_access repo_delete_access)

lemma apply_decision_access:
  assumes "apply_user_module_decision u m r actor su d = Inr (d', c)"
  shows "map_of (db_access d') = (map_of (db_access d))((u, cm_module_key m) := stored_decision r)"
  using apply_decision_cases [OF assms] by (auto simp: delete_conv' update_conv')

lemma apply_decision_distinct:
  assumes "apply_user_module_decision u m r actor su d = Inr (d', c)" "distinct (map fst (db_access d))"
  shows "distinct (map fst (db_access d'))"
  using apply_decision_cases [OF assms(1)] assms(2) by (auto simp: distinct_update distinct_delete)

lemma apply_decision_guard:
  assumes "apply_user_module_decision u m r actor su d = Inr (d', c)" "stored_decision r = Some A_DENIED"
  shows "\<not> cm_is_protected m \<and> \<not> su"
  using assms by (auto simp: apply_user_module_decision_def stored_decision_def Let_def split: if_splits)

section \<open>Protected modules and superadmins are never restricted\<close>

definition may_restrict :: "access_db \<Rightarrow> int \<Rightarrow> string \<Rightarrow> bool" where
  "may_restrict d u k \<longleftrightarrow> (\<forall>m \<in> set (db_modules d). cm_module_key m = k \<longrightarrow> \<not> cm_is_protected m)
     \<and> (\<forall>a. map_of (db_users d) u = Some a \<longrightarrow> \<not> au_is_superadmin a)"

definition restrictions_legal :: "access_db \<Rightarrow> bool" where
  "restrictions_legal d \<longleftrightarrow> distinct (map cm_module_key (db_modules d)) \<and> distinct (map fst (db_access d))
     \<and> (\<forall>u k. map_of (db_access d) (u, k) = Some A_DENIED \<longrightarrow> may_restrict d u k)"

lemma frame_map:
  assumes "same_frame d d'" "\<And>m. f (m\<lparr>cm_enabled_by_default := True\<rparr>) = f m"
  shows "map f (db_modules d') = map f (db_modules d)"
proof -
  have "map f xs = map f (map (cm_enabled_by_default_update (\<lambda>_. True)) xs)" for xs
    using assms(2) by simp
  then show ?thesis using assms(1) unfolding same_frame_def by metis
qed

lemma unprotected_keys:
  "(\<forall>m \<in> set ms. cm_module_key m = k \<longrightarrow> \<not> cm_is_protected m) \<longleftrightarrow>
     (k, True) \<notin> set (map (\<lambda>m. (cm_module_key m, cm_is_protected m)) ms)"
  by force

lemma may_restrict_frame:
  assumes "same_frame d d'"
  shows "may_restrict d' u k = may_restrict d u k"
proof -
  have e: "map (\<lambda>m. (cm_module_key m, cm_is_protected m)) (db_modules d') =
    map (\<lambda>m. (cm_module_key m, cm_is_protected m)) (db_modules d)" using assms by (rule frame_map) simp
  have u: "db_users d' = db_users d" using assms by (simp add: same_frame_def)
  show ?thesis unfolding may_restrict_def unprotected_keys e u by (rule refl)
qed

lemma legal_frame:
  assumes "restrictions_legal d" "same_frame d d'" "distinct (map fst (db_access d'))"
    "\<And>u k. map_of (db_access d') (u, k) = Some A_DENIED \<Longrightarrow> \<not> may_restrict d u k \<Longrightarrow> map_of (db_access d) (u, k) = Some A_DENIED"
  shows "restrictions_legal d'"
  unfolding restrictions_legal_def
proof (intro conjI allI impI)
  have "map cm_module_key (db_modules d') = map cm_module_key (db_modules d)"
    using assms(2) by (rule frame_map) simp
  then show "distinct (map cm_module_key (db_modules d'))"
    using assms(1) by (simp only: restrictions_legal_def)
  show "may_restrict d' u k" if "map_of (db_access d') (u, k) = Some A_DENIED" for u k
    unfolding may_restrict_frame [OF assms(2)]
    using assms(4) [OF that] assms(1) unfolding restrictions_legal_def by blast
qed (rule assms(3))

lemma catalog_module_found:
  assumes "repo_get_catalog_module d k = Some m"
  shows "m \<in> set (db_modules d) \<and> cm_module_key m = k"
  using find_key [OF assms [unfolded repo_get_catalog_module_def]] by auto

lemma catalog_module_unique:
  assumes "repo_get_catalog_module d k = Some m" "distinct (map cm_module_key (db_modules d))"
    "m' \<in> set (db_modules d)" "cm_module_key m' = k"
  shows "m' = m"
  using catalog_module_found [OF assms(1)] assms(2-4) by (metis distinct_map inj_on_eq_iff)

lemma apply_decision_legal:
  assumes l: "restrictions_legal d" and m: "repo_get_catalog_module d k = Some m"
    and a: "apply_user_module_decision u m r actor su d = Inr (d', c)"
    and u: "map_of (db_users d) u = Some account" "su = au_is_superadmin account"
  shows "restrictions_legal d'"
proof (rule legal_frame [OF l])
  show "same_frame d d'" using apply_decision_tracked [OF a] by (simp add: tracked_def)
  show "distinct (map fst (db_access d'))"
    using apply_decision_distinct [OF a] l by (simp add: restrictions_legal_def)
next
  fix v j
  assume d: "map_of (db_access d') (v, j) = Some A_DENIED" and n: "\<not> may_restrict d v j"
  show "map_of (db_access d) (v, j) = Some A_DENIED"
  proof (cases "v = u \<and> j = k")
    case True
    with d have "stored_decision r = Some A_DENIED"
      using apply_decision_access [OF a] catalog_module_found [OF m] by simp
    from apply_decision_guard [OF a this] have "\<not> cm_is_protected m" "\<not> su" by simp_all
    then have "may_restrict d u k"
      using catalog_module_unique [OF m] l u by (auto simp: may_restrict_def restrictions_legal_def)
    with n True show ?thesis by simp
  next
    case False
    with d show ?thesis using apply_decision_access [OF a] catalog_module_found [OF m] by auto
  qed
qed

lemma log_legal [simp]:
  "restrictions_legal (repo_insert_access_event u k t p n a d) = restrictions_legal d"
  "restrictions_legal (write_audit_log a act i x d) = restrictions_legal d"
  by (simp_all add: restrictions_legal_def may_restrict_def repo_insert_access_event_def write_audit_log_def)

lemma log_legal_fold [simp]:
  "restrictions_legal (fold (\<lambda>k. repo_insert_access_event None k t p n a) keys d) = restrictions_legal d"
  by (induction keys arbitrary: d) simp_all

lemma log_legal_denials [simp]:
  "restrictions_legal (fold (\<lambda>(u, k). repo_insert_access_event (Some u) k t p n a) rows d) = restrictions_legal d"
  by (induction rows arbitrary: d) (simp_all add: case_prod_beta)

lemma apply_entries_legal:
  assumes "apply_entries u su actor es d = Inr (d', applied)" "restrictions_legal d"
    "map_of (db_users d) u = Some account" "su = au_is_superadmin account"
  shows "restrictions_legal d'"
  using assms
proof (induction u su actor es d arbitrary: d' applied rule: apply_entries.induct)
  case (2 u su actor k r es d)
  from "2.prems"(1) obtain m d1 c applied1 where m: "repo_get_catalog_module d k = Some m"
    and a: "apply_user_module_decision u m r actor su d = Inr (d1, c)"
    and r: "apply_entries u su actor es d1 = Inr (d', applied1)"
    by (auto simp: load_module_or_throw_def split: option.splits)
  have l: "restrictions_legal d1" using apply_decision_legal [OF "2.prems"(2) m a "2.prems"(3,4)] .
  have us: "map_of (db_users d1) u = Some account"
    using apply_decision_tracked [OF a] "2.prems"(3) by (simp add: tracked_def same_frame_def)
  from "2.IH" [OF r l us "2.prems"(4)] show ?case .
qed simp

lemma operation_legal:
  assumes "run_access_operation actor op d = Inr (d', ov)" "restrictions_legal d"
  shows "restrictions_legal d'"
proof (cases op)
  case (Set_default key b)
  have "tracked d d'" using operation_tracked [OF assms(1)] .
  moreover have "db_access d' = db_access d"
    using assms(1) Set_default
    by (auto simp: set_module_default_def with_overview_def repo_set_module_default_def Let_def split: if_splits)
  ultimately show ?thesis
    by (intro legal_frame [OF assms(2)]) (use assms(2) in \<open>simp_all add: tracked_def restrictions_legal_def\<close>)
next
  case (Set_user_module u k r)
  with assms(1) have "set_user_module_access u k r actor d = Inr (d', ov)" by simp
  then show ?thesis
    by (rule set_user_module_access_parts)
      (auto split: option.splits dest: apply_decision_legal [OF assms(2)])
next
  case (Set_user_bulk u es)
  with assms(1) have "set_user_modules_bulk u es actor d = Inr (d', ov)" by simp
  then show ?thesis
    by (rule set_user_modules_bulk_parts) (auto dest: apply_entries_legal [OF _ assms(2)])
next
  case (Unlock_everything confirm)
  with assms(1) have u: "unlock_all confirm actor d = Inr (d', ov)" by simp
  then show ?thesis
  proof (rule unlock_all_parts)
    fix d1 removed d2 restored
    assume r1: "repo_delete_all_denials d = Inr (d1, removed)" and r2: "repo_restore_all_defaults d1 = Inr (d2, restored)"
    then have "db_access d2 = filter (\<lambda>(_, a). a \<noteq> A_DENIED) (db_access d)"
      by (auto simp: repo_delete_all_denials_def repo_restore_all_defaults_def Let_def split: if_splits)
    moreover have "tracked d d2" using repo_delete_all_tracked [OF r1] repo_restore_tracked [OF r2] by (rule tracked_trans)
    ultimately have "restrictions_legal d2"
      by (intro legal_frame [OF assms(2)])
        (use assms(2) in \<open>auto simp: tracked_def restrictions_legal_def distinct_map_filter dest!: map_of_SomeD\<close>)
    moreover assume "d' = write_audit_log actor ''ACCESS_UNLOCK_ALL'' ''*''
        (UnlockAll (length removed) (length restored) restored)
      (fold (\<lambda>key. repo_insert_access_event None key EV_UNLOCK_ALL ''DISABLED'' ''ENABLED'' actor) restored
        (fold (\<lambda>(user, key). repo_insert_access_event (Some user) key EV_UNLOCK_ALL ''DENIED'' ''INHERIT'' actor)
          removed d2))"
    ultimately show ?thesis by simp
  qed
qed


fun run_access_operations :: "(int \<times> access_operation) list \<Rightarrow> access_db \<Rightarrow> access_db" where
  "run_access_operations [] d = d"
| "run_access_operations ((actor, op) # ops) d =
     run_access_operations ops (case run_access_operation actor op d of Inl _ \<Rightarrow> d | Inr (d', _) \<Rightarrow> d')"

text \<open>C9: From tables where no protected module and no superadmin is restricted, no sequence of
  operations of the tower, refused ones included, leads to a restriction of a protected module
  or of a superadmin, or to two overrides of one account for one module; and every operation
  that changes an override or a default has raised the epoch.\<close>

theorem restrictions_stay_legal:
  assumes "restrictions_legal d"
  shows "restrictions_legal (run_access_operations ops d) \<and> epoch_tracks d (run_access_operations ops d)"
proof -
  have "restrictions_legal (run_access_operations ops d) \<and> tracked d (run_access_operations ops d)"
    using assms
  proof (induction ops d rule: run_access_operations.induct)
    case (2 actor op ops d)
    show ?case
    proof (cases "run_access_operation actor op d")
      case (Inl e)
      with 2 show ?thesis by simp
    next
      case (Inr r)
      obtain d1 ov where r: "r = (d1, ov)" by (cases r)
      from operation_legal [OF Inr [unfolded r] "2.prems"] have "restrictions_legal d1" .
      with "2.IH" Inr r have "restrictions_legal (run_access_operations ops d1) \<and> tracked d1 (run_access_operations ops d1)"
        by simp
      with operation_tracked [OF Inr [unfolded r]] show ?thesis
        by (auto simp: Inr r intro: tracked_trans)
    qed
  qed simp
  then show ?thesis by (simp add: tracked_def)
qed

lemma sample_tables_legal: "restrictions_legal sample_tables"
  by (auto simp: restrictions_legal_def sample_tables_def may_restrict_def split: if_splits)

theorem restrictions_stay_legal_witness:
  "restrictions_legal (run_access_operations [(1, Set_user_module 7 ''stock'' D_INHERIT)] sample_tables)"
  by (rule conjunct1 [OF restrictions_stay_legal [OF sample_tables_legal]])

section \<open>From the tables to the gate\<close>

lemma repo_write_modules:
  "bump_authorization_epoch d = Inr d' \<Longrightarrow> db_modules d' = db_modules d"
  "repo_upsert_user_module_access u k a d = Inr d' \<Longrightarrow> db_modules d' = db_modules d"
  "repo_delete_user_module_access u k d = Inr d' \<Longrightarrow> db_modules d' = db_modules d"
  "db_modules (repo_insert_access_event v k t q n b d) = db_modules d"
proof -
  have bump: "db_modules e' = db_modules e" if "bump_authorization_epoch e = Inr e'" for e e'
    using that by (auto simp: bump_authorization_epoch_def split: option.splits)
  show "bump_authorization_epoch d = Inr d' \<Longrightarrow> db_modules d' = db_modules d" by (rule bump)
  show "repo_upsert_user_module_access u k a d = Inr d' \<Longrightarrow> db_modules d' = db_modules d"
    by (auto simp: repo_upsert_user_module_access_def dest: bump)
  show "repo_delete_user_module_access u k d = Inr d' \<Longrightarrow> db_modules d' = db_modules d"
    by (auto simp: repo_delete_user_module_access_def Let_def split: if_splits dest: bump)
qed (simp add: repo_insert_access_event_def)

lemma apply_decision_modules:
  assumes "apply_user_module_decision u m r actor su d = Inr (d', c)"
  shows "db_modules d' = db_modules d"
  using assms
  by (cases r) (auto simp: apply_user_module_decision_def Let_def repo_write_modules(4)
      split: if_splits dest: repo_write_modules(2,3))

lemma profile_of_account:
  assumes "map_of (db_users d) u = Some a" "db_modules d \<noteq> []" "profile_of d u = Some p"
  shows "ap_is_superadmin p = au_is_superadmin a"
    and "ap_modules p = concat (map (\<lambda>m. resolve_row (au_is_superadmin a)
      \<lparr>pr_is_superadmin = au_is_superadmin a, pr_module = Some m, pr_access = map_of (db_access d) (u, cm_module_key m)\<rparr>)
      (db_modules d))"
proof -
  have t: "db_has_tables d" using assms(3) by (auto simp: profile_of_def repo_resolve_access_profile_def split: if_splits)
  obtain x xs where m: "db_modules d = x # xs" using assms(2) by (cases "db_modules d") auto
  show "ap_is_superadmin p = au_is_superadmin a"
    using assms(1,3) t by (auto simp: profile_of_def repo_resolve_access_profile_def profile_of_rows_def m Let_def)
  show "ap_modules p = concat (map (\<lambda>m. resolve_row (au_is_superadmin a)
      \<lparr>pr_is_superadmin = au_is_superadmin a, pr_module = Some m, pr_access = map_of (db_access d) (u, cm_module_key m)\<rparr>)
      (db_modules d))"
    using assms(1,3) t by (auto simp: profile_of_def repo_resolve_access_profile_def profile_of_rows_def m comp_def Let_def)
qed

definition table_verdict :: "access_db \<Rightarrow> int \<Rightarrow> access_user \<Rightarrow> catalog_module \<Rightarrow> access_verdict" where
  "table_verdict d u a m = decide_access (au_is_superadmin a) (cm_is_active m) (cm_is_protected m)
     (map_of (db_access d) (u, cm_module_key m))"

lemma profile_entry:
  assumes "map_of (db_users d) u = Some a" "profile_of d u = Some p" "k \<noteq> []"
    "distinct (map cm_module_key (db_modules d))"
  shows "(x \<in> set (ap_modules p) \<and> ra_module_key x = k) \<longleftrightarrow>
    (\<exists>m. repo_get_catalog_module d k = Some m \<and> x = \<lparr>av_allowed = av_allowed (table_verdict d u a m),
       av_source = av_source (table_verdict d u a m), ra_module_key = k, ra_label = cm_label m,
       ra_nav_page_keys = cm_nav_page_keys m\<rparr>)"
proof (cases "db_modules d = []")
  case True
  have t: "db_has_tables d" using assms(2) by (auto simp: profile_of_def repo_resolve_access_profile_def split: if_splits)
  have "ap_modules p = []"
    using assms(1,2) t True
    by (auto simp: profile_of_def repo_resolve_access_profile_def profile_of_rows_def resolve_row_def)
  with True show ?thesis by (simp add: repo_get_catalog_module_def)
next
  case False
  have find: "repo_get_catalog_module d k = Some m \<longleftrightarrow> m \<in> set (db_modules d) \<and> cm_module_key m = k" for m
  proof
    assume "m \<in> set (db_modules d) \<and> cm_module_key m = k"
    moreover then obtain m' where "repo_get_catalog_module d k = Some m'"
      using find_none [of "\<lambda>m. cm_module_key m = k" "db_modules d"]
      by (cases "repo_get_catalog_module d k") (auto simp: repo_get_catalog_module_def)
    ultimately show "repo_get_catalog_module d k = Some m"
      using catalog_module_unique [OF _ assms(4)] by metis
  qed (rule catalog_module_found)
  show ?thesis
    unfolding profile_of_account(2) [OF assms(1) False assms(2)] find
    using assms(3) by (auto simp: resolve_row_def table_verdict_def Let_def split: if_splits)
qed

text \<open>A decision of the tower takes effect exactly for its account and its module: the
  override stored is a denial or none, every other override is as before, the profile of the
  account then allows the module unless it is denied or inactive, with superadmins and
  protected modules always allowed, and the overview returned is the one of the tables
  committed.\<close>

theorem user_module_access_set:
  assumes "set_user_module_access u k r actor d = Inr (d', ov)" "profile_of d' u = Some p" "k \<noteq> []"
    "distinct (map cm_module_key (db_modules d))"
  shows "map_of (db_access d') = (map_of (db_access d))((u, k) := stored_decision r) \<and> ov = build_overview d'
    \<and> (\<exists>a m. map_of (db_users d) u = Some a \<and> repo_get_catalog_module d k = Some m
        \<and> (profile_allows p k \<longleftrightarrow> au_is_superadmin a \<or> cm_is_protected m \<or> (cm_is_active m \<and> r \<noteq> D_DENIED)))"
  using assms(1)
proof (rule set_user_module_access_parts)
  fix a m d1 change
  assume a: "map_of (db_users d) u = Some a" and m: "repo_get_catalog_module d k = Some m"
    and ap: "apply_user_module_decision u m r actor (au_is_superadmin a) d = Inr (d1, change)"
    and d': "d' = (case change of None \<Rightarrow> d1 | Some (previous, new) \<Rightarrow>
       write_audit_log actor ''ACCESS_USER_MODULE_SET'' (show_id u @ '':'' @ cm_module_key m)
         (UserModuleSet u (au_username a) (cm_module_key m) previous new) d1)"
    and ov: "ov = build_overview d'"
  have k: "cm_module_key m = k" and mem: "m \<in> set (db_modules d)" using catalog_module_found [OF m] by simp_all
  have acc: "map_of (db_access d') = (map_of (db_access d))((u, k) := stored_decision r)"
    using apply_decision_access [OF ap] by (simp add: d' k split: option.split prod.split)
  have mods: "db_modules d' = db_modules d"
    using apply_decision_modules [OF ap] by (simp add: d' write_audit_log_def split: option.split prod.split)
  have us: "db_users d' = db_users d"
    using set_user_module_access_tracked [OF assms(1)] by (simp add: tracked_def same_frame_def)
  have m': "repo_get_catalog_module d' k = Some m" using m by (simp add: repo_get_catalog_module_def mods)
  have ent: "(x \<in> set (ap_modules p) \<and> ra_module_key x = k) \<longleftrightarrow>
      x = \<lparr>av_allowed = av_allowed (table_verdict d' u a m), av_source = av_source (table_verdict d' u a m),
        ra_module_key = k, ra_label = cm_label m, ra_nav_page_keys = cm_nav_page_keys m\<rparr>" for x
    using profile_entry [of d' u a p k x] a assms(2-4) m' by (simp add: us mods)
  have "ap_is_superadmin p = au_is_superadmin a"
    using a mem by (intro profile_of_account(1) [OF _ _ assms(2)]) (auto simp: us mods)
  moreover have "(\<exists>x \<in> set (ap_modules p). ra_module_key x = k \<and> av_allowed x) \<longleftrightarrow> av_allowed (table_verdict d' u a m)"
    using ent by (metis access_verdict.select_convs(1))
  ultimately have "profile_allows p k \<longleftrightarrow> au_is_superadmin a \<or> cm_is_protected m \<or> (cm_is_active m \<and> r \<noteq> D_DENIED)"
    by (auto simp: profile_allows_def table_verdict_def decide_access_def acc k stored_decision_def)
  with acc ov a m show ?thesis by blast
qed

definition sample_unlocked :: access_db where
  "sample_unlocked = sample_tables\<lparr>db_access := [], db_epoch := Some 4,
     db_events := [\<lparr>ae_user_id = Some 7, ae_module_key = ''stock'', ae_event_type = EV_INHERITED,
       ae_previous_state = Some ''DENIED'', ae_next_state = Some ''INHERIT'', ae_actor_user_id = 1\<rparr>],
     db_audit := [\<lparr>ad_action = ''ACCESS_USER_MODULE_SET'', ad_entity_id = ''7:stock'', ad_user_id = 1,
       ad_details = UserModuleSet 7 ''lea'' ''stock'' (Some A_DENIED) D_INHERIT\<rparr>]\<rparr>"

lemma sample_unlock:
  "set_user_module_access 7 ''stock'' D_INHERIT 1 sample_tables = Inr (sample_unlocked, build_overview sample_unlocked)"
proof -
  have n: "show_nat 7 = ''7''" by (simp add: show_nat.simps digit_chars)
  show ?thesis
    by (simp add: set_user_module_access_def load_target_user_def load_module_or_throw_def
        repo_get_catalog_module_def apply_user_module_decision_def repo_get_user_module_access_def
        repo_delete_user_module_access_def bump_authorization_epoch_def repo_insert_access_event_def
        write_audit_log_def with_overview_def Let_def sample_tables_def sample_unlocked_def show_id_def n)
qed

theorem user_module_access_set_witness:
  "\<exists>p. profile_of sample_unlocked 7 = Some p \<and> profile_allows p ''stock''"
proof -
  obtain p where p: "profile_of sample_unlocked 7 = Some p"
    by (simp add: profile_of_def repo_resolve_access_profile_def sample_unlocked_def sample_tables_def)
  have "distinct (map cm_module_key (db_modules sample_tables))" by (simp add: sample_tables_def)
  from user_module_access_set [OF sample_unlock p _ this]
  have "profile_allows p ''stock''"
    by (auto simp: repo_get_catalog_module_def sample_tables_def)
  with p show ?thesis by blast
qed

text \<open>With the gate on and the profile read from the tables, a request is refused exactly
  when its path belongs to a module of the catalogue, unprotected, that the tables deny to its
  account or keep inactive, and the account is not a superadmin.\<close>

theorem gate_refuses_iff:
  assumes "distinct (map cm_module_key (db_modules d))" "db_has_tables d"
  shows "module_access_gate False (\<lambda>u. Inr (profile_of d u)) uv url path g = Forbidden \<longleftrightarrow>
    (\<exists>u a k m. normalize_user_id uv = Some u \<and> map_of (db_users d) u = Some a \<and> \<not> au_is_superadmin a
       \<and> (resolve_module_key_for_path url = Some k
          \<or> (resolve_module_key_for_path url = None \<and> resolve_module_key_for_path path = Some k))
       \<and> repo_get_catalog_module d k = Some m \<and> \<not> cm_is_protected m
       \<and> (\<not> cm_is_active m \<or> map_of (db_access d) (u, k) = Some A_DENIED))"
proof (cases "normalize_user_id uv")
  case None
  then show ?thesis by (simp add: module_access_gate_def)
next
  case u: (Some u)
  obtain key where key: "(case resolve_module_key_for_path url of
      Some k \<Rightarrow> Some k | None \<Rightarrow> resolve_module_key_for_path path) = key" by blast
  have key_iff: "key = Some k \<longleftrightarrow> resolve_module_key_for_path url = Some k
      \<or> (resolve_module_key_for_path url = None \<and> resolve_module_key_for_path path = Some k)" for k
    using key by (auto split: option.splits)
  obtain p where p: "profile_of d u = Some p"
    using assms(2) by (simp add: profile_of_def repo_resolve_access_profile_def)
  show ?thesis
  proof (cases key)
    case None
    then have "resolve_module_key_for_path url = None" "resolve_module_key_for_path path = None"
      using key by (auto split: option.splits)
    then show ?thesis by (simp add: module_access_gate_def u)
  next
    case k: (Some k)
    then have kc: "k \<noteq> []"
    proof -
      have "k \<in> set MODULE_KEYS" using k key_iff resolved_is_a_module by blast
      moreover have "[] \<notin> set MODULE_KEYS" by code_simp
      ultimately show ?thesis by blast
    qed
    show ?thesis
    proof (cases "map_of (db_users d) u")
      case None
      then have "p = \<lparr>ap_is_superadmin = False, ap_modules = []\<rparr>"
        using p assms(2) by (simp add: profile_of_def repo_resolve_access_profile_def profile_of_rows_def Let_def)
      with None show ?thesis unfolding key_iff [symmetric] module_access_gate_def u key k by (simp add: p)
    next
      case a: (Some a)
      have ent: "(x \<in> set (ap_modules p) \<and> ra_module_key x = k) \<longleftrightarrow>
          (\<exists>m. repo_get_catalog_module d k = Some m \<and> x = \<lparr>av_allowed = av_allowed (table_verdict d u a m),
             av_source = av_source (table_verdict d u a m), ra_module_key = k, ra_label = cm_label m,
             ra_nav_page_keys = cm_nav_page_keys m\<rparr>)" for x
        by (rule profile_entry [OF a p kc assms(1)])
      have sa: "ap_is_superadmin p = au_is_superadmin a" if "repo_get_catalog_module d k = Some m" for m
        using catalog_module_found [OF that] by (intro profile_of_account(1) [OF a _ p]) auto
      show ?thesis
      proof (cases "repo_get_catalog_module d k")
        case None
        have "List.find (\<lambda>m. ra_module_key m = k) (ap_modules p) = None"
          unfolding find_none using ent None by auto
        then show ?thesis
          unfolding key_iff [symmetric] module_access_gate_def u key k by (simp add: p None)
      next
        case m: (Some m)
        have mk: "cm_module_key m = k" using catalog_module_found [OF m] by simp
        have "List.find (\<lambda>m. ra_module_key m = k) (ap_modules p) \<noteq> None"
          unfolding find_none using ent m by blast
        then obtain x where x: "List.find (\<lambda>m. ra_module_key m = k) (ap_modules p) = Some x" by blast
        then have "x \<in> set (ap_modules p) \<and> ra_module_key x = k" using find_key [OF x] by auto
        then have "av_allowed x = av_allowed (table_verdict d u a m)" using ent m by auto
        then show ?thesis
          unfolding key_iff [symmetric] module_access_gate_def u key k
          by (simp add: p x sa [OF m] a m table_verdict_def decide_access_def mk)
      qed
    qed
  qed
qed

theorem gate_refuses_iff_witness:
  "module_access_gate False (\<lambda>u. Inr (profile_of sample_tables u)) (NumberId 7 True)
     (Some ''/api/v1/stock/lots'') None \<lparr>rg_request = None, rg_scope = None\<rparr> = Forbidden"
proof -
  have r: "resolve_module_key_for_path (Some ''/api/v1/stock/lots'') = Some ''stock''" by code_simp
  have d: "distinct (map cm_module_key (db_modules sample_tables))" "db_has_tables sample_tables"
    by (simp_all add: sample_tables_def)
  have c: "repo_get_catalog_module sample_tables ''stock'' = Some (hd (db_modules sample_tables))"
    by (simp add: repo_get_catalog_module_def sample_tables_def)
  show ?thesis
    unfolding gate_refuses_iff [OF d] r c
    by (simp add: normalize_user_id_def) (simp add: sample_tables_def repo_get_catalog_module_def)
qed

text \<open>The default of the catalogue takes no part in any decision.\<close>

lemma defaults_change_no_profile:
  "profile_of (d\<lparr>db_modules := map (\<lambda>m. m\<lparr>cm_enabled_by_default := b\<rparr>) (db_modules d)\<rparr>) u = profile_of d u"
  by (cases "map_of (db_users d) u"; cases "db_modules d")
    (simp_all add: profile_of_def repo_resolve_access_profile_def profile_of_rows_def resolve_row_def Let_def
      comp_def cong: if_cong)

end
