(* ===== verification/Realtime_Rooms.thy ===== *)
theory Realtime_Rooms
  imports Canonical_Json Station Access_Tower
begin

text \<open>
  \<open>src/shared/realtime/realtime-room-policy.ts\<close>: the subscriptions a client may ask for, the
  canonical form of a subscription that crosses the control plane, the names of the rooms and
  their parser, and the module decision shared with the HTTP locks.

  A request is any JSON value: what the code sees of \<open>unknown\<close>. A number is the text
  \<open>JSON.stringify\<close> gives it, so an integer is its decimal digits.
\<close>

section \<open>Subscriptions\<close>

datatype realtime_capability = CHAT_PRESENCE | AUDIT_READ

fun realtime_capability_name :: "realtime_capability \<Rightarrow> string" where
  "realtime_capability_name CHAT_PRESENCE = ''chat:presence''"
| "realtime_capability_name AUDIT_READ = ''audit:read''"

datatype station_kind = K_STATION | K_MACHINE | K_OF

fun station_kind_name :: "station_kind \<Rightarrow> string" where
  "station_kind_name K_STATION = ''STATION''"
| "station_kind_name K_MACHINE = ''MACHINE''"
| "station_kind_name K_OF = ''OF''"

datatype realtime_subscription =
    SubModule string
  | SubEntity string string
  | SubStation station_kind string
  | SubUser nat
  | SubCapability realtime_capability

fun is_client_subscription :: "realtime_subscription \<Rightarrow> bool" where
  "is_client_subscription (SubUser _) = False"
| "is_client_subscription (SubCapability _) = False"
| "is_client_subscription _ = True"

definition MODULE_ALIASES :: "(string \<times> string) list" where
  "MODULE_ALIASES = [(''commandes'', ''commandes-clients''), (''planning'', ''production''),
     (''receptions'', ''qualite'')]"

definition ENTITY_MODULES :: "(string \<times> string) list" where
  "ENTITY_MODULES =
     [(''BON_LIVRAISON'', ''livraisons''), (''CAPA'', ''qualite''), (''COMMANDE_CLIENT'', ''commandes-clients''),
      (''METROLOGIE_EQUIPEMENT'', ''metrologie''), (''NCR'', ''qualite''), (''OF'', ''production''),
      (''OUTIL'', ''outillage''), (''OUTIL_FABRICANT'', ''outillage''), (''OUTIL_FOURNISSEUR'', ''outillage''),
      (''OUTIL_REVETEMENT'', ''outillage''), (''PIECE_TECHNIQUE'', ''pieces-techniques''),
      (''PLANNING_EVENTS'', ''production''), (''PROGRAMMATION'', ''production''), (''RECEPTION'', ''qualite'')]"

section \<open>Normalisation\<close>

definition upper_letter :: "char \<Rightarrow> bool" where
  "upper_letter c \<longleftrightarrow> c \<in> set ''ABCDEFGHIJKLMNOPQRSTUVWXYZ''"

definition lower_letter :: "char \<Rightarrow> bool" where
  "lower_letter c \<longleftrightarrow> c \<in> set ''abcdefghijklmnopqrstuvwxyz''"

text \<open>The three shapes: \<open>[A-Z][A-Z0-9_]{0,63}\<close>, \<open>[a-zA-Z0-9_-]{1,128}\<close>,
  \<open>[a-z0-9][a-z0-9-]{0,63}\<close>.\<close>

definition entity_type_shape :: "string \<Rightarrow> bool" where
  "entity_type_shape s \<longleftrightarrow> s \<noteq> [] \<and> length s \<le> 64 \<and> upper_letter (hd s)
     \<and> list_all (\<lambda>c. upper_letter c \<or> is_digit c \<or> c = CHR ''_'') (tl s)"

definition opaque_id_shape :: "string \<Rightarrow> bool" where
  "opaque_id_shape s \<longleftrightarrow> s \<noteq> [] \<and> length s \<le> 128
     \<and> list_all (\<lambda>c. lower_letter c \<or> upper_letter c \<or> is_digit c \<or> c = CHR ''_'' \<or> c = CHR ''-'') s"

definition module_key_shape :: "string \<Rightarrow> bool" where
  "module_key_shape s \<longleftrightarrow> s \<noteq> [] \<and> length s \<le> 64 \<and> (lower_letter (hd s) \<or> is_digit (hd s))
     \<and> list_all (\<lambda>c. lower_letter c \<or> is_digit c \<or> c = CHR ''-'') (tl s)"

definition member :: "(string \<times> json) list \<Rightarrow> string \<Rightarrow> json" where
  "member obj key = (case map_of obj key of None \<Rightarrow> JUndefined | Some v \<Rightarrow> v)"

definition has_only_keys :: "(string \<times> json) list \<Rightarrow> string list \<Rightarrow> bool" where
  "has_only_keys obj allowed \<longleftrightarrow> list_all (\<lambda>(k, _). k \<in> set allowed) obj"

fun normalize_entity_type :: "json \<Rightarrow> string option" where
  "normalize_entity_type (JStr s) =
     (let n = js_upper (js_trim s) in if entity_type_shape n then Some n else None)"
| "normalize_entity_type _ = None"

fun normalize_opaque_id :: "json \<Rightarrow> string option" where
  "normalize_opaque_id (JStr s) = (let n = js_trim s in if opaque_id_shape n then Some n else None)"
| "normalize_opaque_id _ = None"

fun normalize_realtime_module_key :: "json \<Rightarrow> string option" where
  "normalize_realtime_module_key (JStr s) =
     (let n = js_lower (js_trim s)
      in if \<not> module_key_shape n then None
         else let canonical = (case map_of MODULE_ALIASES n of None \<Rightarrow> n | Some c \<Rightarrow> c)
              in if get_module_catalog_entry canonical \<noteq> None then Some canonical else None)"
| "normalize_realtime_module_key _ = None"

definition module_for_realtime_entity :: "json \<Rightarrow> string option" where
  "module_for_realtime_entity entity_type =
     (case normalize_entity_type entity_type of None \<Rightarrow> None | Some n \<Rightarrow> map_of ENTITY_MODULES n)"

definition realtime_access_profile_allows_module :: "access_profile option \<Rightarrow> string \<Rightarrow> bool" where
  "realtime_access_profile_allows_module profile key =
     (case profile of
        None \<Rightarrow> False
      | Some p \<Rightarrow> ap_is_superadmin p \<or> (\<exists>m \<in> set (ap_modules p). ra_module_key m = key \<and> av_allowed m))"

definition station_kind_of :: "json \<Rightarrow> station_kind option" where
  "station_kind_of v =
     (if v = JStr ''STATION'' then Some K_STATION
      else if v = JStr ''MACHINE'' then Some K_MACHINE
      else if v = JStr ''OF'' then Some K_OF else None)"

fun normalize_client_realtime_subscription :: "json \<Rightarrow> realtime_subscription option" where
  "normalize_client_realtime_subscription (JObj obj) =
     (if member obj ''scope'' = JStr ''module'' then
        if \<not> has_only_keys obj [''scope'', ''moduleKey''] then None
        else map_option SubModule (normalize_realtime_module_key (member obj ''moduleKey''))
      else if member obj ''scope'' = JStr ''entity'' then
        if \<not> has_only_keys obj [''scope'', ''entityType'', ''entityId''] then None
        else
          (case (normalize_entity_type (member obj ''entityType''), normalize_opaque_id (member obj ''entityId'')) of
             (Some entity_type, Some entity_id) \<Rightarrow>
               if module_for_realtime_entity (JStr entity_type) = None then None
               else Some (SubEntity entity_type entity_id)
           | _ \<Rightarrow> None)
      else if member obj ''scope'' = JStr ''station'' then
        if \<not> has_only_keys obj [''scope'', ''kind'', ''id''] then None
        else
          (case (station_kind_of (member obj ''kind''), normalize_opaque_id (member obj ''id'')) of
             (Some kind, Some ident) \<Rightarrow> Some (SubStation kind ident)
           | _ \<Rightarrow> None)
      else None)"
| "normalize_client_realtime_subscription _ = None"

text \<open>\<open>Number.isSafeInteger(userId) && userId > 0\<close> on the text of a number.\<close>

fun safe_positive :: "json \<Rightarrow> nat option" where
  "safe_positive (JNum t) =
     (if all_digits t \<and> hd t \<noteq> CHR ''0'' \<and> read_nat t \<le> MAX_SAFE_INTEGER then Some (read_nat t) else None)"
| "safe_positive _ = None"

fun normalize_realtime_subscription :: "json \<Rightarrow> realtime_subscription option" where
  "normalize_realtime_subscription (JObj obj) =
     (if member obj ''scope'' = JStr ''user'' then
        if \<not> has_only_keys obj [''scope'', ''userId''] then None
        else map_option SubUser (safe_positive (member obj ''userId''))
      else if member obj ''scope'' = JStr ''capability'' then
        if \<not> has_only_keys obj [''scope'', ''capability''] then None
        else if member obj ''capability'' = JStr ''audit:read'' then Some (SubCapability AUDIT_READ)
        else if member obj ''capability'' = JStr ''chat:presence'' then Some (SubCapability CHAT_PRESENCE)
        else None
      else normalize_client_realtime_subscription (JObj obj))"
| "normalize_realtime_subscription _ = None"

section \<open>Room names\<close>

fun realtime_room_name :: "realtime_subscription \<Rightarrow> string" where
  "realtime_room_name (SubModule k) = ''rt:module:'' @ k"
| "realtime_room_name (SubEntity t i) = ''rt:entity:'' @ t @ '':'' @ i"
| "realtime_room_name (SubStation k i) = ''rt:station:'' @ station_kind_name k @ '':'' @ i"
| "realtime_room_name (SubUser n) = ''rt:user:'' @ show_nat n"
| "realtime_room_name (SubCapability c) = ''rt:capability:'' @ realtime_capability_name c"

text \<open>\<open>const [a, b, ...extra] = text.split(":")\<close>, refused when there is an extra part.\<close>

definition two_parts :: "string \<Rightarrow> (json \<times> json) option" where
  "two_parts text =
     (case js_split (CHR '':'') text of
        [a] \<Rightarrow> Some (JStr a, JUndefined)
      | [a, b] \<Rightarrow> Some (JStr a, JStr b)
      | _ \<Rightarrow> None)"

definition parse_user_room :: "string \<Rightarrow> realtime_subscription option" where
  "parse_user_room raw =
     (if all_digits raw \<and> read_nat raw \<le> MAX_SAFE_INTEGER \<and> read_nat raw > 0
      then Some (SubUser (read_nat raw)) else None)"

definition parse_realtime_room_name :: "string \<Rightarrow> realtime_subscription option" where
  "parse_realtime_room_name room =
     (case strip_prefix ''rt:module:'' room of
        Some k \<Rightarrow> map_option SubModule (normalize_realtime_module_key (JStr k))
      | None \<Rightarrow>
     (case strip_prefix ''rt:entity:'' room of
        Some r \<Rightarrow>
          (case two_parts r of
             None \<Rightarrow> None
           | Some (t, i) \<Rightarrow> normalize_client_realtime_subscription
               (JObj [(''scope'', JStr ''entity''), (''entityType'', t), (''entityId'', i)]))
      | None \<Rightarrow>
     (case strip_prefix ''rt:station:'' room of
        Some r \<Rightarrow>
          (case two_parts r of
             None \<Rightarrow> None
           | Some (k, i) \<Rightarrow> normalize_client_realtime_subscription
               (JObj [(''scope'', JStr ''station''), (''kind'', k), (''id'', i)]))
      | None \<Rightarrow>
     (case strip_prefix ''rt:user:'' room of
        Some r \<Rightarrow> parse_user_room r
      | None \<Rightarrow>
          if room = ''rt:capability:audit:read'' then Some (SubCapability AUDIT_READ)
          else if room = ''rt:capability:chat:presence'' then Some (SubCapability CHAT_PRESENCE)
          else None))))"

definition entity_realtime_subscription :: "string \<Rightarrow> string \<Rightarrow> realtime_subscription option" where
  "entity_realtime_subscription entity_type entity_id =
     normalize_client_realtime_subscription
       (JObj [(''scope'', JStr ''entity''), (''entityType'', JStr entity_type), (''entityId'', JStr entity_id)])"

definition module_realtime_subscription :: "string \<Rightarrow> realtime_subscription option" where
  "module_realtime_subscription key =
     normalize_client_realtime_subscription (JObj [(''scope'', JStr ''module''), (''moduleKey'', JStr key)])"

definition station_legacy_room :: "station_kind \<Rightarrow> string \<Rightarrow> string" where
  "station_legacy_room kind ident = station_kind_name kind @ '':'' @ ident"

section \<open>Producers\<close>

text \<open>\<open>src/shared/realtime/realtime.service.ts\<close>: the rooms an event is sent to.\<close>

definition entity_changed_targets :: "string \<Rightarrow> string \<Rightarrow> string \<Rightarrow> realtime_subscription list" where
  "entity_changed_targets module_key entity_type entity_id =
     (case (module_realtime_subscription module_key, entity_realtime_subscription entity_type entity_id) of
        (Some (SubModule k), Some e) \<Rightarrow>
          if module_for_realtime_entity (JStr entity_type) = Some k then [SubModule k, e] else []
      | _ \<Rightarrow> [])"

definition lock_updated_targets :: "string \<Rightarrow> string \<Rightarrow> realtime_subscription list" where
  "lock_updated_targets entity_type entity_id =
     (case entity_realtime_subscription entity_type entity_id of None \<Rightarrow> [] | Some e \<Rightarrow> [e])"

section \<open>The type of a subscription\<close>

fun subscription_ok :: "realtime_subscription \<Rightarrow> bool" where
  "subscription_ok (SubModule k) = (k \<in> set MODULE_KEYS)"
| "subscription_ok (SubEntity t i) = (t \<in> set (map fst ENTITY_MODULES) \<and> opaque_id_shape i)"
| "subscription_ok (SubStation k i) = opaque_id_shape i"
| "subscription_ok (SubUser n) = (0 < n \<and> n \<le> MAX_SAFE_INTEGER)"
| "subscription_ok (SubCapability c) = True"

lemma module_key_sound: "normalize_realtime_module_key v = Some k \<Longrightarrow> k \<in> set MODULE_KEYS"
  using catalog_entry_iff [of k]
  by (cases v) (auto simp: Let_def split: if_splits)

lemma entity_type_sound:
  "normalize_entity_type v = Some t \<Longrightarrow> entity_type_shape t"
  by (cases v) (auto simp: Let_def split: if_splits)

lemma opaque_id_sound: "normalize_opaque_id v = Some i \<Longrightarrow> opaque_id_shape i"
  by (cases v) (auto simp: Let_def split: if_splits)

lemma upper_table: "list_all (\<lambda>c. upper_char c = [c] \<and> \<not> js_space c \<and> c \<noteq> CHR '':'')
    ''ABCDEFGHIJKLMNOPQRSTUVWXYZ0123456789_''"
  by code_simp

lemma opaque_table: "list_all (\<lambda>c. \<not> js_space c \<and> c \<noteq> CHR '':'')
    ''abcdefghijklmnopqrstuvwxyzABCDEFGHIJKLMNOPQRSTUVWXYZ0123456789_-''"
  by code_simp

lemma entity_char:
  assumes "upper_letter c \<or> is_digit c \<or> c = CHR ''_''"
  shows "upper_char c = [c]" "\<not> js_space c" "c \<noteq> CHR '':''"
proof -
  have "c \<in> set ''ABCDEFGHIJKLMNOPQRSTUVWXYZ0123456789_''"
    using assms unfolding upper_letter_def is_digit_def by auto
  then show "upper_char c = [c]" "\<not> js_space c" "c \<noteq> CHR '':''"
    using upper_table unfolding list_all_iff by blast+
qed

lemma opaque_char:
  assumes "lower_letter c \<or> upper_letter c \<or> is_digit c \<or> c = CHR ''_'' \<or> c = CHR ''-''"
  shows "\<not> js_space c" "c \<noteq> CHR '':''"
proof -
  have "c \<in> set ''abcdefghijklmnopqrstuvwxyzABCDEFGHIJKLMNOPQRSTUVWXYZ0123456789_-''"
    using assms unfolding upper_letter_def lower_letter_def is_digit_def by auto
  then show "\<not> js_space c" "c \<noteq> CHR '':''" using opaque_table unfolding list_all_iff by blast+
qed

lemma no_space_trimmed: "\<forall>c \<in> set s. \<not> js_space c \<Longrightarrow> js_trim s = s"
  by (rule js_trim_id) (auto simp: trimmed_def)

lemma entity_type_chars:
  assumes "entity_type_shape t" "c \<in> set t"
  shows "upper_letter c \<or> is_digit c \<or> c = CHR ''_''"
  using assms by (cases t) (auto simp: entity_type_shape_def list_all_iff)

lemma normalize_entity_type_id: "entity_type_shape t \<Longrightarrow> normalize_entity_type (JStr t) = Some t"
proof -
  assume t: "entity_type_shape t"
  have "js_upper t = concat (map (\<lambda>c. [c]) t)"
    unfolding js_upper_def
    by (intro arg_cong [where f = concat] map_cong refl entity_char(1) entity_type_chars [OF t])
  then have "js_upper t = t" by simp
  moreover have "js_trim t = t" using entity_char(2) entity_type_chars [OF t] by (intro no_space_trimmed) blast
  ultimately show ?thesis using t by simp
qed

lemma opaque_id_chars: "opaque_id_shape i \<Longrightarrow> c \<in> set i \<Longrightarrow> \<not> js_space c \<and> c \<noteq> CHR '':''"
  using opaque_char by (auto simp: opaque_id_shape_def list_all_iff)

lemma normalize_opaque_id_id: "opaque_id_shape i \<Longrightarrow> normalize_opaque_id (JStr i) = Some i"
  using opaque_id_chars no_space_trimmed [of i] by simp

lemma entity_modules_shape: "t \<in> set (map fst ENTITY_MODULES) \<Longrightarrow> entity_type_shape t"
proof -
  have "list_all entity_type_shape (map fst ENTITY_MODULES)" by code_simp
  then show "t \<in> set (map fst ENTITY_MODULES) \<Longrightarrow> entity_type_shape t" by (auto simp: list_all_iff)
qed

lemma module_for_entity_iff:
  assumes "entity_type_shape t"
  shows "module_for_realtime_entity (JStr t) \<noteq> None \<longleftrightarrow> t \<in> set (map fst ENTITY_MODULES)"
  unfolding module_for_realtime_entity_def normalize_entity_type_id [OF assms] option.case
  by (auto simp: map_of_eq_None_iff)

lemma module_keys_normal: "k \<in> set MODULE_KEYS \<Longrightarrow> normalize_realtime_module_key (JStr k) = Some k"
proof -
  have "list_all (\<lambda>k. normalize_realtime_module_key (JStr k) = Some k) MODULE_KEYS" by code_simp
  then show "k \<in> set MODULE_KEYS \<Longrightarrow> normalize_realtime_module_key (JStr k) = Some k"
    unfolding list_all_iff by blast
qed

lemma client_subscription_ok:
  assumes "normalize_client_realtime_subscription v = Some s"
  shows "subscription_ok s \<and> is_client_subscription s"
proof -
  obtain obj where v: "v = JObj obj" using assms by (cases v) simp_all
  consider (module_room) k where "normalize_realtime_module_key (member obj ''moduleKey'') = Some k" "s = SubModule k"
    | (entity_room) t i where "normalize_entity_type (member obj ''entityType'') = Some t"
        "normalize_opaque_id (member obj ''entityId'') = Some i" "module_for_realtime_entity (JStr t) \<noteq> None"
        "s = SubEntity t i"
    | (station_room) k i where "normalize_opaque_id (member obj ''id'') = Some i" "s = SubStation k i"
    using assms unfolding v normalize_client_realtime_subscription.simps
    by (auto split: if_splits option.splits)
  then show ?thesis
  proof cases
    case module_room
    then show ?thesis using module_key_sound by simp
  next
    case entity_room
    then show ?thesis
      using module_for_entity_iff [OF entity_type_sound [OF entity_room(1)]] opaque_id_sound by simp
  next
    case station_room
    then show ?thesis using opaque_id_sound by simp
  qed
qed

lemma safe_positive_ok: "safe_positive v = Some n \<Longrightarrow> 0 < n \<and> n \<le> MAX_SAFE_INTEGER"
proof -
  assume a: "safe_positive v = Some n"
  then obtain t where t: "all_digits t" "hd t \<noteq> CHR ''0''" "n = read_nat t" "n \<le> MAX_SAFE_INTEGER"
    by (cases v) (auto split: if_splits)
  obtain c r where c: "t = c # r" using t(1) by (cases t) (auto simp: all_digits_def)
  have "digit_val c > 0"
  proof -
    have "list_all (\<lambda>c. c = CHR ''0'' \<or> digit_val c > 0) ''0123456789''" by code_simp
    moreover have "c \<in> set ''0123456789''" using t(1) by (simp add: c all_digits_def is_digit_def)
    ultimately show ?thesis using t(2) unfolding list_all_iff c list.sel by blast
  qed
  then have "0 < read_nat (c # r)" using read_nat_append [of "[c]" r] by (simp add: read_nat_def)
  then show ?thesis using t c by simp
qed

lemma subscription_normalized_ok: "normalize_realtime_subscription v = Some s \<Longrightarrow> subscription_ok s"
proof (cases v)
  case (JObj obj)
  assume a: "normalize_realtime_subscription v = Some s"
  consider (user_room) n where "safe_positive (member obj ''userId'') = Some n" "s = SubUser n"
    | (capability_room) c where "s = SubCapability c"
    | (client) "normalize_client_realtime_subscription v = Some s"
    using a unfolding JObj normalize_realtime_subscription.simps
    by (auto simp del: normalize_client_realtime_subscription.simps split: if_splits)
  then show ?thesis using safe_positive_ok client_subscription_ok by cases auto
qed simp_all

lemma parsed_room_ok: "parse_realtime_room_name r = Some s \<Longrightarrow> subscription_ok s"
  unfolding parse_realtime_room_name_def
  by (auto simp del: normalize_client_realtime_subscription.simps normalize_realtime_module_key.simps
      simp: parse_user_room_def split: option.splits if_splits
      dest: module_key_sound client_subscription_ok)

section \<open>Names identify rooms\<close>

lemma two_parts_pair: "CHR '':'' \<notin> set a \<Longrightarrow> CHR '':'' \<notin> set b \<Longrightarrow> two_parts (a @ '':'' @ b) = Some (JStr a, JStr b)"
  by (simp add: two_parts_def js_split_append_sep js_split_no_sep)

lemma strip_own_prefix [simp]: "strip_prefix p (p @ r) = Some r"
  by (simp add: strip_prefix_def)

lemma parse_own_name:
  assumes "subscription_ok s"
  shows "parse_realtime_room_name (realtime_room_name s) = Some s"
proof (cases s)
  case (SubModule k)
  then show ?thesis
    using assms module_keys_normal [of k] by (simp add: parse_realtime_room_name_def strip_prefix_def)
next
  case (SubEntity t i)
  then have t: "t \<in> set (map fst ENTITY_MODULES)" and i: "opaque_id_shape i" using assms by simp_all
  have sh: "entity_type_shape t" using entity_modules_shape [OF t] .
  have p: "two_parts (t @ '':'' @ i) = Some (JStr t, JStr i)"
    using entity_char(3) entity_type_chars [OF sh] opaque_id_chars [OF i] by (intro two_parts_pair) blast+
  have "normalize_client_realtime_subscription
      (JObj [(''scope'', JStr ''entity''), (''entityType'', JStr t), (''entityId'', JStr i)]) = Some s"
    using module_for_entity_iff [OF sh] t normalize_entity_type_id [OF sh] normalize_opaque_id_id [OF i] SubEntity
    by (simp add: member_def has_only_keys_def del: normalize_entity_type.simps normalize_opaque_id.simps)
  with p SubEntity show ?thesis by (simp add: parse_realtime_room_name_def strip_prefix_def)
next
  case (SubStation k i)
  then have i: "opaque_id_shape i" using assms by simp
  have "CHR '':'' \<notin> set (station_kind_name k)" by (cases k) simp_all
  then have p: "two_parts (station_kind_name k @ '':'' @ i) = Some (JStr (station_kind_name k), JStr i)"
    using opaque_id_chars [OF i] by (intro two_parts_pair) blast+
  have "station_kind_of (JStr (station_kind_name k)) = Some k" by (cases k) (simp_all add: station_kind_of_def)
  then have "normalize_client_realtime_subscription
      (JObj [(''scope'', JStr ''station''), (''kind'', JStr (station_kind_name k)), (''id'', JStr i)]) = Some s"
    using normalize_opaque_id_id [OF i] SubStation
    by (simp add: member_def has_only_keys_def del: normalize_opaque_id.simps)
  with p SubStation show ?thesis by (simp add: parse_realtime_room_name_def strip_prefix_def)
next
  case (SubUser n)
  then show ?thesis using assms by (simp add: parse_realtime_room_name_def strip_prefix_def parse_user_room_def)
next
  case (SubCapability c)
  then show ?thesis by (cases c) (simp_all add: parse_realtime_room_name_def strip_prefix_def)
qed

interpretation realtime_rooms: name_codec realtime_room_name parse_realtime_room_name subscription_ok
  by unfold_locales (rule parse_own_name)

text \<open>The canonical JSON form of a subscription.\<close>

fun subscription_json :: "realtime_subscription \<Rightarrow> json" where
  "subscription_json (SubModule k) = JObj [(''scope'', JStr ''module''), (''moduleKey'', JStr k)]"
| "subscription_json (SubEntity t i) =
     JObj [(''scope'', JStr ''entity''), (''entityType'', JStr t), (''entityId'', JStr i)]"
| "subscription_json (SubStation k i) =
     JObj [(''scope'', JStr ''station''), (''kind'', JStr (station_kind_name k)), (''id'', JStr i)]"
| "subscription_json (SubUser n) = JObj [(''scope'', JStr ''user''), (''userId'', JNum (show_nat n))]"
| "subscription_json (SubCapability c) =
     JObj [(''scope'', JStr ''capability''), (''capability'', JStr (realtime_capability_name c))]"

lemma json_form_normal:
  assumes "subscription_ok s"
  shows "normalize_realtime_subscription (subscription_json s) = Some s"
proof (cases s)
  case (SubModule k)
  then show ?thesis using assms module_keys_normal [of k]
    by (simp add: member_def has_only_keys_def del: normalize_realtime_module_key.simps)
next
  case (SubEntity t i)
  then have t: "t \<in> set (map fst ENTITY_MODULES)" and i: "opaque_id_shape i" using assms by simp_all
  have sh: "entity_type_shape t" using entity_modules_shape [OF t] .
  show ?thesis
    using module_for_entity_iff [OF sh] t normalize_entity_type_id [OF sh] normalize_opaque_id_id [OF i] SubEntity
    by (simp add: member_def has_only_keys_def del: normalize_entity_type.simps normalize_opaque_id.simps)
next
  case (SubStation k i)
  then have "opaque_id_shape i" using assms by simp
  moreover have "station_kind_of (JStr (station_kind_name k)) = Some k" by (cases k) (simp_all add: station_kind_of_def)
  ultimately show ?thesis using normalize_opaque_id_id SubStation
    by (simp add: member_def has_only_keys_def del: normalize_opaque_id.simps)
next
  case (SubUser n)
  then show ?thesis using assms show_nat_hd [of n] by (simp add: member_def has_only_keys_def)
next
  case (SubCapability c)
  then show ?thesis by (cases c) (simp_all add: member_def has_only_keys_def)
qed

section \<open>Properties\<close>

text \<open>C10: Whatever JSON value or room name is received, the subscription the code makes of it is
  well formed: a module of the catalogue, a known type of entity or a station with an opaque
  identifier, a positive safe user number, a known capability; and what a client asks for is
  never a user's or a capability's room.\<close>

theorem subscriptions_well_formed:
  assumes "normalize_realtime_subscription v = Some s \<or> normalize_client_realtime_subscription v = Some s
    \<or> parse_realtime_room_name r = Some s"
  shows "subscription_ok s \<and> (normalize_client_realtime_subscription v = Some s \<longrightarrow> is_client_subscription s)"
  using assms subscription_normalized_ok client_subscription_ok parsed_room_ok by blast

theorem subscriptions_well_formed_witness: "subscription_ok (SubModule ''commandes-clients'')"
proof -
  have "normalize_client_realtime_subscription
      (JObj [(''scope'', JStr ''module''), (''moduleKey'', JStr '' Commandes'')]) = Some (SubModule ''commandes-clients'')"
    by code_simp
  then show ?thesis using subscriptions_well_formed [of _ "SubModule ''commandes-clients''" "[]"] by blast
qed

text \<open>A well-formed subscription is read back from the name of its room and from its
  canonical JSON form, and two of them have the same room exactly when they are equal.\<close>

theorem room_names_roundtrip:
  assumes "subscription_ok s" "subscription_ok t"
  shows "parse_realtime_room_name (realtime_room_name s) = Some s
    \<and> normalize_realtime_subscription (subscription_json s) = Some s
    \<and> (realtime_room_name s = realtime_room_name t \<longleftrightarrow> s = t)"
  using realtime_rooms.dec_enc [OF assms(1)] json_form_normal [OF assms(1)] realtime_rooms.enc_inj [OF assms]
  by simp

theorem room_names_roundtrip_witness:
  "parse_realtime_room_name (realtime_room_name (SubEntity ''OF'' ''42'')) = Some (SubEntity ''OF'' ''42'')
   \<and> realtime_room_name (SubEntity ''OF'' ''42'') \<noteq> realtime_room_name (SubStation K_OF ''42'')"
proof -
  have "subscription_ok (SubEntity ''OF'' ''42'')" "subscription_ok (SubStation K_OF ''42'')" by code_simp+
  from room_names_roundtrip [OF this] show ?thesis by blast
qed

text \<open>An event about an entity only goes to the room of the entity and of the module it belongs to.\<close>

lemma entity_targets_agree:
  "r \<in> set (entity_changed_targets m t i) \<Longrightarrow>
     (\<exists>k. module_for_realtime_entity (JStr t) = Some k \<and> r = SubModule k)
     \<or> entity_realtime_subscription t i = Some r"
  by (auto simp: entity_changed_targets_def split: option.splits realtime_subscription.splits if_splits)

text \<open>The two names of a station: the older one is read by the station's own parser.\<close>

lemma station_legacy_room_read:
  "uuid_like i \<Longrightarrow> parse_station_room (station_legacy_room K_STATION i) = Some (RoomStation i)"
  using station_rooms.dec_enc [of "RoomStation i"] by (simp add: station_legacy_room_def)

end
