(* ===== verification/Realtime_Contract.thy ===== *)
theory Realtime_Contract
  imports Realtime_Rooms
begin

text \<open>
  \<open>src/shared/realtime/realtime-control-plane.ts\<close>, the contract of an event: the exact shape of
  the payload of each kind of event and the rooms it may be sent to. \<open>Date.parse\<close> is the
  parameter \<open>date_ok\<close>: whether a text is a date. A payload is a JSON value; its size is the
  number of bytes of its text in UTF-8.
\<close>

definition MAX_PAYLOAD_BYTES :: nat where "MAX_PAYLOAD_BYTES = 256 * 1024"
definition MAX_TARGET_COUNT :: nat where "MAX_TARGET_COUNT = 16"

section \<open>Shapes of values\<close>

fun json_record :: "json \<Rightarrow> (string \<times> json) list option" where
  "json_record (JObj obj) = Some obj"
| "json_record _ = None"

definition has_exact_keys :: "(string \<times> json) list \<Rightarrow> string list \<Rightarrow> bool" where
  "has_exact_keys obj keys \<longleftrightarrow> length obj = length keys \<and> list_all (\<lambda>(k, _). k \<in> set keys) obj
     \<and> list_all (\<lambda>k. k \<in> set (map fst obj)) keys"

fun bounded_string :: "json \<Rightarrow> nat \<Rightarrow> bool \<Rightarrow> bool" where
  "bounded_string (JStr s) max_length allow_empty = (length s \<le> max_length \<and> (allow_empty \<or> js_trim s \<noteq> []))"
| "bounded_string _ _ _ = False"

definition nullable_bounded_string :: "json \<Rightarrow> nat \<Rightarrow> bool" where
  "nullable_bounded_string v max_length \<longleftrightarrow> v = JNull \<or> bounded_string v max_length True"

fun iso_timestamp :: "(string \<Rightarrow> bool) \<Rightarrow> json \<Rightarrow> bool" where
  "iso_timestamp date_ok (JStr s) = (bounded_string (JStr s) 64 False \<and> date_ok s)"
| "iso_timestamp date_ok _ = False"

definition positive_safe_integer :: "json \<Rightarrow> bool" where
  "positive_safe_integer v \<longleftrightarrow> safe_positive v \<noteq> None"

text \<open>\<open>String(value)\<close>.\<close>

fun js_string :: "json \<Rightarrow> string" where
  "js_string (JStr s) = s"
| "js_string (JNum t) = t"
| "js_string (JBool b) = (if b then ''true'' else ''false'')"
| "js_string JNull = ''null''"
| "js_string JUndefined = ''undefined''"
| "js_string JNotFinite = ''NaN''"
| "js_string (JObj _) = ''[object Object]''"
| "js_string (JArr xs) =
     js_join '','' (map (\<lambda>x. if x = JNull \<or> x = JUndefined then [] else js_string x) xs)"

fun utf8_length :: "string \<Rightarrow> nat" where
  "utf8_length [] = 0"
| "utf8_length (c # s) = (if of_char c < (128 :: nat) then 1 else 2) + utf8_length s"

text \<open>The order of the members does not change the length of a text.\<close>

definition json_byte_length :: "json \<Rightarrow> nat option" where
  "json_byte_length v = (if v = JUndefined then None else Some (utf8_length (stable_stringify v)))"

section \<open>Targets\<close>

fun normalize_targets :: "string list \<Rightarrow> json list \<Rightarrow> realtime_subscription list option" where
  "normalize_targets seen [] = Some []"
| "normalize_targets seen (v # vs) =
     (case normalize_realtime_subscription v of
        None \<Rightarrow> None
      | Some t \<Rightarrow>
          if realtime_room_name t \<in> set seen then None
          else map_option ((#) t) (normalize_targets (realtime_room_name t # seen) vs))"

fun normalize_stored_targets :: "json \<Rightarrow> realtime_subscription list option" where
  "normalize_stored_targets (JArr vs) =
     (if vs = [] \<or> length vs > MAX_TARGET_COUNT then None else normalize_targets [] vs)"
| "normalize_stored_targets _ = None"

section \<open>The payloads\<close>

fun text_of :: "json \<Rightarrow> string" where
  "text_of (JStr s) = s"
| "text_of _ = []"

definition validate_entity_changed ::
  "(string \<Rightarrow> bool) \<Rightarrow> (string \<times> json) list \<Rightarrow> realtime_subscription list \<Rightarrow> bool" where
  "validate_entity_changed date_ok p targets \<longleftrightarrow>
     has_exact_keys p [''entityType'', ''entityId'', ''action'', ''module'', ''at'', ''invalidateKeys'']
     \<and> bounded_string (member p ''entityType'') 64 False \<and> entity_type_shape (text_of (member p ''entityType''))
     \<and> bounded_string (member p ''entityId'') 128 False \<and> opaque_id_shape (text_of (member p ''entityId''))
     \<and> bounded_string (member p ''module'') 64 False
     \<and> normalize_realtime_module_key (member p ''module'') = Some (text_of (member p ''module''))
     \<and> module_for_realtime_entity (member p ''entityType'') = Some (text_of (member p ''module''))
     \<and> js_string (member p ''action'') \<in> set [''created'', ''updated'', ''deleted'', ''status_changed'']
     \<and> iso_timestamp date_ok (member p ''at'')
     \<and> (case member p ''invalidateKeys'' of
          JArr ks \<Rightarrow> ks \<noteq> [] \<and> length ks \<le> 32 \<and> list_all (\<lambda>k. bounded_string k 128 False) ks
        | _ \<Rightarrow> False)
     \<and> length targets = 2
     \<and> filter (\<lambda>t. case t of SubModule _ \<Rightarrow> True | _ \<Rightarrow> False) targets = [SubModule (text_of (member p ''module''))]
     \<and> filter (\<lambda>t. case t of SubEntity _ _ \<Rightarrow> True | _ \<Rightarrow> False) targets =
         [SubEntity (text_of (member p ''entityType'')) (text_of (member p ''entityId''))]"

definition validate_audit_new :: "(string \<times> json) list \<Rightarrow> realtime_subscription list \<Rightarrow> bool" where
  "validate_audit_new p targets \<longleftrightarrow> has_exact_keys p [''auditId''] \<and> bounded_string (member p ''auditId'') 128 False
     \<and> targets = [SubCapability AUDIT_READ]"

definition validate_lock_ref :: "(string \<Rightarrow> bool) \<Rightarrow> json \<Rightarrow> bool" where
  "validate_lock_ref date_ok v \<longleftrightarrow>
     (case json_record v of
        None \<Rightarrow> False
      | Some r \<Rightarrow>
          has_exact_keys r [''id'', ''entityType'', ''entityId'', ''lockedBy'', ''lockedAt'', ''expiresAt'']
          \<and> bounded_string (member r ''id'') 128 False \<and> bounded_string (member r ''entityType'') 64 False
          \<and> bounded_string (member r ''entityId'') 128 False
          \<and> iso_timestamp date_ok (member r ''lockedAt'') \<and> iso_timestamp date_ok (member r ''expiresAt'')
          \<and> (case json_record (member r ''lockedBy'') of
               None \<Rightarrow> False
             | Some b \<Rightarrow> has_exact_keys b [''id'', ''name''] \<and> positive_safe_integer (member b ''id'')
                 \<and> bounded_string (member b ''name'') 256 True))"

definition validate_lock_updated ::
  "(string \<Rightarrow> bool) \<Rightarrow> (string \<times> json) list \<Rightarrow> realtime_subscription list \<Rightarrow> bool" where
  "validate_lock_updated date_ok p targets \<longleftrightarrow>
     has_exact_keys p [''entityType'', ''entityId'', ''locked'', ''lock'']
     \<and> bounded_string (member p ''entityType'') 64 False \<and> bounded_string (member p ''entityId'') 128 False
     \<and> (\<exists>b \<in> {True, False}. member p ''locked'' = JBool b \<and> b = (member p ''lock'' \<noteq> JNull))
     \<and> (member p ''lock'' = JNull \<or> validate_lock_ref date_ok (member p ''lock''))
     \<and> (case json_record (member p ''lock'') of
          None \<Rightarrow> True
        | Some r \<Rightarrow> member r ''entityType'' = member p ''entityType'' \<and> member r ''entityId'' = member p ''entityId'')
     \<and> targets = [SubEntity (text_of (member p ''entityType'')) (text_of (member p ''entityId''))]"

definition validate_notification ::
  "(string \<Rightarrow> bool) \<Rightarrow> (string \<times> json) list \<Rightarrow> realtime_subscription list \<Rightarrow> bool" where
  "validate_notification date_ok p targets \<longleftrightarrow>
     has_exact_keys p [''id'', ''user_id'', ''kind'', ''title'', ''message'', ''severity'', ''action_url'',
       ''action_label'', ''payload'', ''created_at'', ''read_at'']
     \<and> bounded_string (member p ''id'') 128 False \<and> positive_safe_integer (member p ''user_id'')
     \<and> bounded_string (member p ''kind'') 128 False \<and> bounded_string (member p ''title'') 512 False
     \<and> bounded_string (member p ''message'') 8192 True
     \<and> js_string (member p ''severity'') \<in> set [''info'', ''success'', ''warning'', ''error'']
     \<and> nullable_bounded_string (member p ''action_url'') 2048
     \<and> nullable_bounded_string (member p ''action_label'') 256
     \<and> json_record (member p ''payload'') \<noteq> None \<and> iso_timestamp date_ok (member p ''created_at'')
     \<and> (member p ''read_at'' = JNull \<or> iso_timestamp date_ok (member p ''read_at''))
     \<and> (\<exists>u \<in> set_option (safe_positive (member p ''user_id'')). targets = [SubUser u])"

definition validate_chat_sender :: "json \<Rightarrow> bool" where
  "validate_chat_sender v \<longleftrightarrow>
     (case json_record v of
        None \<Rightarrow> False
      | Some r \<Rightarrow> has_exact_keys r [''id'', ''username'', ''name'', ''surname'']
          \<and> positive_safe_integer (member r ''id'') \<and> bounded_string (member r ''username'') 256 False
          \<and> nullable_bounded_string (member r ''name'') 256 \<and> nullable_bounded_string (member r ''surname'') 256)"

definition one_user :: "realtime_subscription list \<Rightarrow> bool" where
  "one_user targets = (case targets of [SubUser _] \<Rightarrow> True | _ \<Rightarrow> False)"

definition validate_chat_message ::
  "(string \<Rightarrow> bool) \<Rightarrow> (string \<times> json) list \<Rightarrow> realtime_subscription list \<Rightarrow> bool" where
  "validate_chat_message date_ok p targets \<longleftrightarrow>
     has_exact_keys p [''conversation_id'', ''message'', ''sender'']
     \<and> bounded_string (member p ''conversation_id'') 128 False
     \<and> (case json_record (member p ''message'') of
          None \<Rightarrow> False
        | Some m \<Rightarrow>
            has_exact_keys m [''id'', ''conversation_id'', ''sender_user_id'', ''message_type'', ''content'', ''created_at'']
            \<and> bounded_string (member m ''id'') 128 False
            \<and> member m ''conversation_id'' = member p ''conversation_id''
            \<and> positive_safe_integer (member m ''sender_user_id'')
            \<and> member m ''message_type'' = JStr ''text'' \<and> bounded_string (member m ''content'') 32768 True
            \<and> iso_timestamp date_ok (member m ''created_at''))
     \<and> validate_chat_sender (member p ''sender'') \<and> one_user targets"

definition validate_chat_read ::
  "(string \<Rightarrow> bool) \<Rightarrow> (string \<times> json) list \<Rightarrow> realtime_subscription list \<Rightarrow> bool" where
  "validate_chat_read date_ok p targets \<longleftrightarrow>
     has_exact_keys p [''conversation_id'', ''read_at'']
     \<and> bounded_string (member p ''conversation_id'') 128 False \<and> iso_timestamp date_ok (member p ''read_at'')
     \<and> one_user targets"

definition validate_chat_upsert :: "(string \<times> json) list \<Rightarrow> realtime_subscription list \<Rightarrow> bool" where
  "validate_chat_upsert p targets \<longleftrightarrow>
     has_exact_keys p [''conversation_id'', ''type'', ''group_name'']
     \<and> bounded_string (member p ''conversation_id'') 128 False
     \<and> (member p ''type'' = JStr ''direct'' \<or> member p ''type'' = JStr ''group'')
     \<and> nullable_bounded_string (member p ''group_name'') 512
     \<and> (member p ''type'' = JStr ''group'' \<or> member p ''group_name'' = JNull) \<and> one_user targets"

definition validate_realtime_event_contract ::
  "(string \<Rightarrow> bool) \<Rightarrow> string \<Rightarrow> json \<Rightarrow> realtime_subscription list \<Rightarrow> bool" where
  "validate_realtime_event_contract date_ok event payload targets \<longleftrightarrow>
     (case (json_byte_length payload, json_record payload) of
        (Some n, Some p) \<Rightarrow>
          n \<le> MAX_PAYLOAD_BYTES \<and>
          (if event = ''entity:changed'' then validate_entity_changed date_ok p targets
           else if event = ''audit:new'' then validate_audit_new p targets
           else if event = ''lock:updated'' then validate_lock_updated date_ok p targets
           else if event = ''app-notification:created'' then validate_notification date_ok p targets
           else if event = ''chat:message:created'' then validate_chat_message date_ok p targets
           else if event = ''chat:conversation:read'' then validate_chat_read date_ok p targets
           else if event = ''chat:conversation:upsert'' then validate_chat_upsert p targets
           else False)
      | _ \<Rightarrow> False)"

section \<open>The input of a publication\<close>

record publish_input =
  pi_event :: string
  pi_payload :: json
  pi_targets :: "realtime_subscription list"
  pi_stream_id :: string
  pi_key :: "string option"

definition event_name_shape :: "string \<Rightarrow> bool" where
  "event_name_shape s \<longleftrightarrow> s \<noteq> [] \<and> length s \<le> 128 \<and> (lower_letter (hd s) \<or> upper_letter (hd s))
     \<and> list_all (\<lambda>c. lower_letter c \<or> upper_letter c \<or> is_digit c \<or> c \<in> set '':_-'') (tl s)"

text \<open>The deduplication key of the value: absent, or a string, or refused.\<close>

fun input_key :: "json \<Rightarrow> string option option" where
  "input_key JUndefined = Some None"
| "input_key (JStr k) = (if bounded_string (JStr k) 256 False \<and> js_trim k = k then Some (Some k) else None)"
| "input_key _ = None"

fun parse_publish_input :: "(string \<Rightarrow> bool) \<Rightarrow> json \<Rightarrow> publish_input option" where
  "parse_publish_input date_ok (JObj v) =
     (case (member v ''event'', member v ''streamId'', normalize_stored_targets (member v ''targets''),
         input_key (member v ''deduplicationKey'')) of
        (JStr event, JStr stream, Some targets, Some key) \<Rightarrow>
          if event_name_shape event \<and> stream \<noteq> [] \<and> length stream \<le> 256
            \<and> validate_realtime_event_contract date_ok event (member v ''payload'') targets
          then Some \<lparr>pi_event = event, pi_payload = member v ''payload'', pi_targets = targets,
                 pi_stream_id = stream, pi_key = key\<rparr>
          else None
      | _ \<Rightarrow> None)"
| "parse_publish_input date_ok _ = None"

text \<open>\<open>[0-9a-f]{8}-[0-9a-f]{4}-[1-5][0-9a-f]{3}-[89ab][0-9a-f]{3}-[0-9a-f]{12}\<close>, either case.\<close>

definition uuid_shape :: "string \<Rightarrow> bool" where
  "uuid_shape s \<longleftrightarrow> length s = 36
     \<and> list_all (\<lambda>(i, c). if i \<in> {8, 13, 18, 23} then c = CHR ''-''
         else if i = 14 then c \<in> set ''12345''
         else if i = 19 then c \<in> set ''89abAB''
         else hex_val c \<noteq> None) (enumerate 0 s)"

record event_record =
  er_sequence :: int
  er_event_id :: string
  er_stream_id :: string
  er_event :: string
  er_payload :: json
  er_targets :: "realtime_subscription list"

text \<open>A row of the event log, as the queries return it.\<close>

record stored_row =
  sr_sequence :: int
  sr_event_id :: string
  sr_stream_id :: string
  sr_event_name :: string
  sr_payload :: json
  sr_targets :: json
  sr_key :: string
  sr_expires_at :: int

definition parse_stored_event :: "(string \<Rightarrow> bool) \<Rightarrow> stored_row \<Rightarrow> event_record option" where
  "parse_stored_event date_ok row =
     (case normalize_stored_targets (sr_targets row) of
        None \<Rightarrow> None
      | Some targets \<Rightarrow>
          if sr_sequence row \<le> 0 \<or> \<not> uuid_shape (sr_event_id row) \<or> js_trim (sr_stream_id row) = []
            \<or> length (sr_stream_id row) > 256 \<or> \<not> event_name_shape (sr_event_name row)
            \<or> \<not> validate_realtime_event_contract date_ok (sr_event_name row) (sr_payload row) targets
          then None
          else Some \<lparr>er_sequence = sr_sequence row, er_event_id = sr_event_id row,
                 er_stream_id = sr_stream_id row, er_event = sr_event_name row, er_payload = sr_payload row,
                 er_targets = targets\<rparr>)"

text \<open>The envelope of an outbox row: schema version, event identifier and input.\<close>

fun parse_outbox_envelope :: "(string \<Rightarrow> bool) \<Rightarrow> json \<Rightarrow> (string \<times> publish_input) option" where
  "parse_outbox_envelope date_ok (JObj v) =
     (case (member v ''schemaVersion'', member v ''eventId'', json_record (member v ''input'')) of
        (JNum n, JStr event_id, Some obj) \<Rightarrow>
          if n \<noteq> ''1'' then None
          else
            (case parse_publish_input date_ok (JObj obj) of
               None \<Rightarrow> None
             | Some inp \<Rightarrow> if uuid_shape event_id then Some (event_id, inp) else None)
      | _ \<Rightarrow> None)"
| "parse_outbox_envelope date_ok _ = None"

section \<open>Targets\<close>

lemma normalize_targets_ok:
  "normalize_targets seen vs = Some ts \<Longrightarrow>
     length ts = length vs \<and> (\<forall>t \<in> set ts. subscription_ok t \<and> realtime_room_name t \<notin> set seen)
     \<and> distinct (map realtime_room_name ts)"
proof (induction seen vs arbitrary: ts rule: normalize_targets.induct)
  case (2 seen v vs)
  then obtain t us where t: "normalize_realtime_subscription v = Some t" "realtime_room_name t \<notin> set seen"
    and us: "normalize_targets (realtime_room_name t # seen) vs = Some us" "ts = t # us"
    by (auto split: option.splits if_splits)
  from "2.IH" [OF t us(1)] subscription_normalized_ok [OF t(1)] t(2) us(2) show ?case by auto
qed simp

lemma stored_targets_ok:
  assumes "normalize_stored_targets v = Some ts"
  shows "ts \<noteq> [] \<and> length ts \<le> MAX_TARGET_COUNT \<and> (\<forall>t \<in> set ts. subscription_ok t)
    \<and> distinct (map realtime_room_name ts)"
proof -
  obtain vs where vs: "v = JArr vs" "vs \<noteq> []" "length vs \<le> MAX_TARGET_COUNT" "normalize_targets [] vs = Some ts"
    using assms by (cases v) (auto split: if_splits)
  from normalize_targets_ok [OF vs(4)] vs(2,3) show ?thesis by auto
qed

lemma normalize_targets_json:
  "\<forall>t \<in> set ts. subscription_ok t \<and> realtime_room_name t \<notin> set seen \<Longrightarrow> distinct (map realtime_room_name ts) \<Longrightarrow>
     normalize_targets seen (map subscription_json ts) = Some ts"
proof (induction ts arbitrary: seen)
  case (Cons t ts)
  then have "normalize_targets (realtime_room_name t # seen) (map subscription_json ts) = Some ts"
    by (intro Cons.IH) (auto simp: image_iff)
  with Cons.prems show ?case by (simp add: json_form_normal del: normalize_realtime_subscription.simps)
qed simp

lemma stored_targets_json:
  assumes "ts \<noteq> []" "length ts \<le> MAX_TARGET_COUNT" "\<forall>t \<in> set ts. subscription_ok t"
    "distinct (map realtime_room_name ts)"
  shows "normalize_stored_targets (JArr (map subscription_json ts)) = Some ts"
  using assms normalize_targets_json [of ts "[]"] by simp

lemma publish_input_parts:
  assumes "parse_publish_input date_ok v = Some inp"
  obtains obj where "v = JObj obj" "normalize_stored_targets (member obj ''targets'') = Some (pi_targets inp)"
    "event_name_shape (pi_event inp)" "pi_stream_id inp \<noteq> []" "length (pi_stream_id inp) \<le> 256"
    "validate_realtime_event_contract date_ok (pi_event inp) (pi_payload inp) (pi_targets inp)"
proof (cases v)
  case (JObj obj)
  then show ?thesis
    using assms that by (auto split: json.splits option.splits if_splits)
qed (use assms in simp_all)

text \<open>What was accepted is read back from the row it is stored in.\<close>

lemma stored_row_read_back:
  assumes "parse_publish_input date_ok v = Some inp" "0 < sr_sequence row" "uuid_shape (sr_event_id row)"
    "js_trim (pi_stream_id inp) \<noteq> []" "sr_stream_id row = pi_stream_id inp" "sr_event_name row = pi_event inp"
    "sr_payload row = pi_payload inp" "sr_targets row = JArr (map subscription_json (pi_targets inp))"
  shows "parse_stored_event date_ok row = Some \<lparr>er_sequence = sr_sequence row, er_event_id = sr_event_id row,
     er_stream_id = pi_stream_id inp, er_event = pi_event inp, er_payload = pi_payload inp,
     er_targets = pi_targets inp\<rparr>"
proof -
  obtain obj where p: "normalize_stored_targets (member obj ''targets'') = Some (pi_targets inp)"
    "event_name_shape (pi_event inp)" "length (pi_stream_id inp) \<le> 256"
    "validate_realtime_event_contract date_ok (pi_event inp) (pi_payload inp) (pi_targets inp)"
    using assms(1) by (rule publish_input_parts)
  have "normalize_stored_targets (JArr (map subscription_json (pi_targets inp))) = Some (pi_targets inp)"
    using stored_targets_ok [OF p(1)] by (intro stored_targets_json) auto
  with p assms(2-8) show ?thesis
    by (simp add: parse_stored_event_def del: normalize_stored_targets.simps)
qed

section \<open>Who receives an event\<close>

lemma two_targets:
  assumes "length ts = 2" "filter (\<lambda>t. case t of SubModule _ \<Rightarrow> True | _ \<Rightarrow> False) ts = [SubModule m]"
    "filter (\<lambda>t. case t of SubEntity _ _ \<Rightarrow> True | _ \<Rightarrow> False) ts = [SubEntity k i]"
  shows "set ts = {SubModule m, SubEntity k i}"
proof -
  have "SubModule m \<in> set (filter (\<lambda>t. case t of SubModule _ \<Rightarrow> True | _ \<Rightarrow> False) ts)"
    "SubEntity k i \<in> set (filter (\<lambda>t. case t of SubEntity _ _ \<Rightarrow> True | _ \<Rightarrow> False) ts)"
    unfolding assms(2,3) by simp_all
  then have "{SubModule m, SubEntity k i} \<subseteq> set ts" by auto
  moreover have "card (set ts) \<le> 2" using card_length [of ts] assms(1) by simp
  moreover have "card {SubModule m, SubEntity k i} = 2" by simp
  ultimately show ?thesis using card_seteq [of "set ts"] by (metis List.finite_set)
qed

text \<open>An event that the control plane accepts is of one of seven kinds and has one audience:
  between one and sixteen distinct well-formed rooms, namely the entity's room and the room of
  the entity's own module for a change, the entity's room alone for a lock, the audit readers
  for an audit entry, and the room of a single user, the one the notification names, for the
  others.\<close>

theorem event_audience:
  assumes "parse_publish_input date_ok v = Some inp"
  shows "pi_targets inp \<noteq> [] \<and> length (pi_targets inp) \<le> 16 \<and> distinct (map realtime_room_name (pi_targets inp))
    \<and> (\<forall>t \<in> set (pi_targets inp). subscription_ok t)
    \<and> ((pi_event inp = ''entity:changed'' \<and> (\<exists>m t i. set (pi_targets inp) = {SubModule m, SubEntity t i}
          \<and> map_of ENTITY_MODULES t = Some m))
      \<or> (pi_event inp = ''lock:updated'' \<and> (\<exists>t i. pi_targets inp = [SubEntity t i]))
      \<or> (pi_event inp = ''audit:new'' \<and> pi_targets inp = [SubCapability AUDIT_READ])
      \<or> (pi_event inp = ''app-notification:created'' \<and> (\<exists>p u. pi_payload inp = JObj p
          \<and> safe_positive (member p ''user_id'') = Some u \<and> pi_targets inp = [SubUser u]))
      \<or> (pi_event inp \<in> {''chat:message:created'', ''chat:conversation:read'', ''chat:conversation:upsert''}
          \<and> (\<exists>u. pi_targets inp = [SubUser u])))"
proof -
  obtain obj where t: "normalize_stored_targets (member obj ''targets'') = Some (pi_targets inp)"
    and c: "validate_realtime_event_contract date_ok (pi_event inp) (pi_payload inp) (pi_targets inp)"
    using assms by (rule publish_input_parts)
  obtain p where p: "pi_payload inp = JObj p"
    using c by (cases "pi_payload inp") (auto simp: validate_realtime_event_contract_def split: option.splits)
  have one: "one_user ts \<Longrightarrow> \<exists>u. ts = [SubUser u]" for ts
    by (auto simp: one_user_def split: list.splits realtime_subscription.splits)
  have d: "(pi_event inp = ''entity:changed'' \<and> validate_entity_changed date_ok p (pi_targets inp))
      \<or> (pi_event inp = ''audit:new'' \<and> validate_audit_new p (pi_targets inp))
      \<or> (pi_event inp = ''lock:updated'' \<and> validate_lock_updated date_ok p (pi_targets inp))
      \<or> (pi_event inp = ''app-notification:created'' \<and> validate_notification date_ok p (pi_targets inp))
      \<or> (pi_event inp = ''chat:message:created'' \<and> validate_chat_message date_ok p (pi_targets inp))
      \<or> (pi_event inp = ''chat:conversation:read'' \<and> validate_chat_read date_ok p (pi_targets inp))
      \<or> (pi_event inp = ''chat:conversation:upsert'' \<and> validate_chat_upsert p (pi_targets inp))"
    using c unfolding validate_realtime_event_contract_def p
    by (simp split: option.splits if_split_asm)
  have e: "\<exists>m t i. set (pi_targets inp) = {SubModule m, SubEntity t i} \<and> map_of ENTITY_MODULES t = Some m"
    if "validate_entity_changed date_ok p (pi_targets inp)"
  proof -
    have "bounded_string (member p ''entityType'') 64 False" using that by (simp only: validate_entity_changed_def)
    then obtain t where et: "member p ''entityType'' = JStr t" by (cases "member p ''entityType''") simp_all
    have s: "entity_type_shape t" and m: "module_for_realtime_entity (JStr t) = Some (text_of (member p ''module''))"
      using that by (simp_all add: validate_entity_changed_def et)
    have "set (pi_targets inp) = {SubModule (text_of (member p ''module'')), SubEntity t (text_of (member p ''entityId''))}"
      using that by (intro two_targets) (simp_all add: validate_entity_changed_def et)
    moreover have "map_of ENTITY_MODULES t = Some (text_of (member p ''module''))"
      using m unfolding module_for_realtime_entity_def normalize_entity_type_id [OF s] by simp
    ultimately show ?thesis by blast
  qed
  have n: "\<exists>u. safe_positive (member p ''user_id'') = Some u \<and> pi_targets inp = [SubUser u]"
    if "validate_notification date_ok p (pi_targets inp)"
    using that by (auto simp: validate_notification_def)
  have l: "\<exists>t i. pi_targets inp = [SubEntity t i]" if "validate_lock_updated date_ok p (pi_targets inp)"
    using that by (auto simp: validate_lock_updated_def)
  have a: "pi_targets inp = [SubCapability AUDIT_READ]" if "validate_audit_new p (pi_targets inp)"
    using that by (simp add: validate_audit_new_def)
  have ch: "\<exists>u. pi_targets inp = [SubUser u]"
    if "validate_chat_message date_ok p (pi_targets inp) \<or> validate_chat_read date_ok p (pi_targets inp)
      \<or> validate_chat_upsert p (pi_targets inp)"
    using that one by (auto simp: validate_chat_message_def validate_chat_read_def validate_chat_upsert_def)
  have "(pi_event inp = ''entity:changed'' \<and> (\<exists>m t i. set (pi_targets inp) = {SubModule m, SubEntity t i}
          \<and> map_of ENTITY_MODULES t = Some m))
      \<or> (pi_event inp = ''lock:updated'' \<and> (\<exists>t i. pi_targets inp = [SubEntity t i]))
      \<or> (pi_event inp = ''audit:new'' \<and> pi_targets inp = [SubCapability AUDIT_READ])
      \<or> (pi_event inp = ''app-notification:created'' \<and> (\<exists>p u. pi_payload inp = JObj p
          \<and> safe_positive (member p ''user_id'') = Some u \<and> pi_targets inp = [SubUser u]))
      \<or> (pi_event inp \<in> {''chat:message:created'', ''chat:conversation:read'', ''chat:conversation:upsert''}
          \<and> (\<exists>u. pi_targets inp = [SubUser u]))"
    (is "?E \<or> ?L \<or> ?A \<or> ?N \<or> ?C")
    using d
  proof (elim disjE conjE)
    assume "pi_event inp = ''entity:changed''" "validate_entity_changed date_ok p (pi_targets inp)"
    then have ?E using e by (intro conjI)
    then show ?thesis by (rule disjI1)
  next
    assume "pi_event inp = ''audit:new''" "validate_audit_new p (pi_targets inp)"
    then have ?A using a by (intro conjI)
    then show ?thesis by (rule disjI1 [THEN disjI2, THEN disjI2])
  next
    assume "pi_event inp = ''lock:updated''" "validate_lock_updated date_ok p (pi_targets inp)"
    then have ?L using l by (intro conjI)
    then show ?thesis by (rule disjI1 [THEN disjI2])
  next
    assume v: "pi_event inp = ''app-notification:created''" "validate_notification date_ok p (pi_targets inp)"
    obtain u where "safe_positive (member p ''user_id'') = Some u" "pi_targets inp = [SubUser u]"
      using n [OF v(2)] by (elim exE conjE)
    with v(1) p have ?N by (intro conjI exI)
    then show ?thesis by (rule disjI1 [THEN disjI2, THEN disjI2, THEN disjI2])
  next
    assume v: "pi_event inp = ''chat:message:created''" "validate_chat_message date_ok p (pi_targets inp)"
    have ?C unfolding v(1) using ch v(2) by simp
    then show ?thesis by (rule disjI2 [THEN disjI2, THEN disjI2, THEN disjI2])
  next
    assume v: "pi_event inp = ''chat:conversation:read''" "validate_chat_read date_ok p (pi_targets inp)"
    have ?C unfolding v(1) using ch v(2) by simp
    then show ?thesis by (rule disjI2 [THEN disjI2, THEN disjI2, THEN disjI2])
  next
    assume v: "pi_event inp = ''chat:conversation:upsert''" "validate_chat_upsert p (pi_targets inp)"
    have ?C unfolding v(1) using ch v(2) by simp
    then show ?thesis by (rule disjI2 [THEN disjI2, THEN disjI2, THEN disjI2])
  qed
  with stored_targets_ok [OF t, unfolded MAX_TARGET_COUNT_def] show ?thesis by (intro conjI) (elim conjE, assumption)+
qed

definition sample_audit_input :: json where
  "sample_audit_input = JObj [(''event'', JStr ''audit:new''), (''payload'', JObj [(''auditId'', JStr ''17'')]),
     (''targets'', JArr [JObj [(''scope'', JStr ''capability''), (''capability'', JStr ''audit:read'')]]),
     (''streamId'', JStr ''rt:capability:audit:read''), (''deduplicationKey'', JStr ''audit:new:17'')]"

lemma sample_audit_accepted:
  "parse_publish_input (\<lambda>_. True) sample_audit_input = Some \<lparr>pi_event = ''audit:new'',
     pi_payload = JObj [(''auditId'', JStr ''17'')], pi_targets = [SubCapability AUDIT_READ],
     pi_stream_id = ''rt:capability:audit:read'', pi_key = Some ''audit:new:17''\<rparr>"
proof -
  have 1: "event_name_shape ''audit:new''" by code_simp
  have 2: "js_trim ''audit:new:17'' = ''audit:new:17''" by code_simp
  have 3: "json_byte_length (JObj [(''auditId'', JStr ''17'')]) = Some 16" by code_simp
  have 4: "js_trim ''17'' = ''17''" by code_simp
  have 5: "normalize_stored_targets (JArr [JObj [(''scope'', JStr ''capability''), (''capability'', JStr ''audit:read'')]])
      = Some [SubCapability AUDIT_READ]"
    using stored_targets_json [of "[SubCapability AUDIT_READ]"] by (simp add: MAX_TARGET_COUNT_def)
  show ?thesis
    by (simp add: sample_audit_input_def member_def 1 2 3 4 5 validate_realtime_event_contract_def
        validate_audit_new_def has_exact_keys_def MAX_PAYLOAD_BYTES_def del: normalize_stored_targets.simps)
qed

theorem event_audience_witness:
  "pi_targets (the (parse_publish_input (\<lambda>_. True) sample_audit_input)) = [SubCapability AUDIT_READ]"
  using event_audience [OF sample_audit_accepted] sample_audit_accepted by simp

end
