(* ===== verification/Realtime_Log.thy ===== *)
theory Realtime_Log
  imports Realtime_Contract "HOL-Library.Product_Lexorder"
begin

text \<open>
  \<open>src/shared/realtime/realtime-control-plane.ts\<close>, the durable event log: one row per event, numbered
  without gaps by the row \<open>realtime_event_sequence_state\<close>, which every writer locks until its
  transaction ends. A function below is one transaction, or one statement for \<open>readAfter\<close>, and
  takes the time its \<open>now()\<close> returns. Signals are those sent with \<open>pg_notify\<close> at commit. The hash
  of a quarantined content is the parameter \<open>hash\<close> (a SHA-256 of the text of the value). The
  primary key and the two unique keys of the log are the database's; the columns \<open>occurred_at\<close> and
  the metrics are left out.
\<close>

section \<open>State\<close>

definition MAX_READ_BATCH :: nat where "MAX_READ_BATCH = 500"
definition MAX_REPLAY_BATCH :: int where "MAX_REPLAY_BATCH = 2000"
definition DEFAULT_RETENTION_HOURS :: nat where "DEFAULT_RETENTION_HOURS = 24"
definition MAX_QUARANTINE_ROWS :: nat where "MAX_QUARANTINE_ROWS = 1000"

abbreviation HOUR :: int where "HOUR \<equiv> 3600000"

datatype rt_error = RtKeyCollision | RtInvalidRow | RtUniqueViolation | RtStateCorrupt | RtInvalidInput
  | RtCursorTooOld int | RtInvalidStored | RtTransport string

datatype control_signal = SigEvent | SigSession nat | SigAuthorization | SigPresence nat bool | SigFullResync

datatype quarantine_source = FromEventLog | FromOutbox

record quarantine_row =
  qn_id :: nat
  qn_source :: quarantine_source
  qn_source_id :: string
  qn_sequence :: "int option"
  qn_reason :: string
  qn_hash :: string
  qn_at :: int
  qn_expires_at :: int

record control_plane =
  cp_last :: int
  cp_pruned :: int
  cp_log :: "stored_row list"
  cp_quarantine :: "quarantine_row list"
  cp_next_quarantine :: nat
  cp_signals :: "control_signal list"

record retention =
  rt_latest :: int
  rt_earliest :: "int option"
  rt_pruned :: int

text \<open>\<open>positiveIntEnv\<close>: the digits at the head of the value, after spaces and a sign.\<close>

definition positive_int_env :: "string option \<Rightarrow> nat \<Rightarrow> nat" where
  "positive_int_env v fallback =
     (let t = dropWhile js_space (or_empty v);
          d = takeWhile is_digit (if t \<noteq> [] \<and> hd t = CHR ''+'' then tl t else t);
          n = read_nat d
      in if d \<noteq> [] \<and> 0 < n \<and> n \<le> MAX_SAFE_INTEGER then n else fallback)"

section \<open>Insertion\<close>

text \<open>A JSON column holds the value its text denotes; the order of members is not significant.\<close>

definition same_content :: "publish_input \<Rightarrow> stored_row \<Rightarrow> bool" where
  "same_content inp r \<longleftrightarrow> sr_event_name r = pi_event inp \<and> sr_stream_id r = pi_stream_id inp
     \<and> normal (sr_payload r) = normal (pi_payload inp)
     \<and> normal (sr_targets r) = normal (JArr (map subscription_json (pi_targets inp)))"

definition find_stored_event ::
  "(string \<Rightarrow> bool) \<Rightarrow> string \<Rightarrow> publish_input \<Rightarrow> stored_row list \<Rightarrow> rt_error + event_record option" where
  "find_stored_event date_ok key inp rows =
     (case find (\<lambda>r. sr_key r = key) rows of
        None \<Rightarrow> Inr None
      | Some r \<Rightarrow> if same_content inp r then Inr (parse_stored_event date_ok r) else Inl RtKeyCollision)"

definition new_row :: "publish_input \<Rightarrow> string \<Rightarrow> string \<Rightarrow> int \<Rightarrow> int \<Rightarrow> stored_row" where
  "new_row inp event_id key sequence expires_at =
     \<lparr>sr_sequence = sequence, sr_event_id = event_id, sr_stream_id = pi_stream_id inp,
      sr_event_name = pi_event inp, sr_payload = normal (pi_payload inp),
      sr_targets = JArr (map subscription_json (pi_targets inp)), sr_key = key, sr_expires_at = expires_at\<rparr>"

definition insert_event ::
  "(string \<Rightarrow> bool) \<Rightarrow> nat \<Rightarrow> int \<Rightarrow> publish_input \<Rightarrow> string \<Rightarrow> string \<Rightarrow> control_plane
     \<Rightarrow> rt_error + event_record \<times> bool \<times> control_plane" where
  "insert_event date_ok hours now inp event_id key s =
     (case find_stored_event date_ok key inp (cp_log s) of
        Inl e \<Rightarrow> Inl e
      | Inr (Some r) \<Rightarrow> Inr (r, False, s)
      | Inr None \<Rightarrow>
          (let row = new_row inp event_id key (cp_last s + 1) (now + int hours * HOUR)
           in if list_ex (\<lambda>r. sr_key r = key \<or> sr_event_id r = event_id \<or> sr_sequence r = cp_last s + 1) (cp_log s)
              then Inl RtUniqueViolation
              else (case parse_stored_event date_ok row of
                  None \<Rightarrow> Inl RtInvalidRow
                | Some r \<Rightarrow> Inr (r, True, s\<lparr>cp_last := cp_last s + 1, cp_log := cp_log s @ [row]\<rparr>))))"

text \<open>What happens to an attempt: nothing, a statement fails and the transaction is rolled back, or
  the acknowledgement of the \<open>COMMIT\<close> is lost, the transaction being durable or not.\<close>

datatype attempt_fault = NoFault | StatementFails string | AckLost bool string

definition publish_once ::
  "(string \<Rightarrow> bool) \<Rightarrow> nat \<Rightarrow> publish_input \<Rightarrow> string \<Rightarrow> string \<Rightarrow> int \<times> attempt_fault \<Rightarrow> control_plane
     \<Rightarrow> (rt_error + event_record) \<times> control_plane" where
  "publish_once date_ok hours inp event_id key attempt s =
     (case insert_event date_ok hours (fst attempt) inp event_id key s of
        Inl e \<Rightarrow> (Inl (case snd attempt of StatementFails code \<Rightarrow> RtTransport code | _ \<Rightarrow> e), s)
      | Inr (r, inserted, s1) \<Rightarrow>
          (let s2 = (if inserted then s1\<lparr>cp_signals := cp_signals s1 @ [SigEvent]\<rparr> else s1)
           in case snd attempt of
                NoFault \<Rightarrow> (Inr r, s2)
              | StatementFails code \<Rightarrow> (Inl (RtTransport code), s)
              | AckLost durable code \<Rightarrow> (Inl (RtTransport code), if durable then s2 else s)))"

fun retryable_publish_error :: "rt_error \<Rightarrow> bool" where
  "retryable_publish_error (RtTransport code) =
     (take 2 code = ''08''
      \<or> code \<in> set [''40001'', ''40P01'', ''55P03'', ''57P01'', ''ECONNRESET'', ''ETIMEDOUT''])"
| "retryable_publish_error _ = False"

fun publish_loop ::
  "(string \<Rightarrow> bool) \<Rightarrow> nat \<Rightarrow> publish_input \<Rightarrow> string \<Rightarrow> string \<Rightarrow> int \<times> attempt_fault
     \<Rightarrow> (int \<times> attempt_fault) list \<Rightarrow> control_plane \<Rightarrow> (rt_error + event_record) \<times> control_plane" where
  "publish_loop date_ok hours inp event_id key a rest s =
     (case publish_once date_ok hours inp event_id key a s of
        (Inr r, s1) \<Rightarrow> (Inr r, s1)
      | (Inl e, s1) \<Rightarrow>
          (case rest of
             [] \<Rightarrow> (Inl e, s1)
           | b # bs \<Rightarrow>
               if retryable_publish_error e then publish_loop date_ok hours inp event_id key b bs s1
               else (Inl e, s1)))"

definition deduplication_key :: "publish_input \<Rightarrow> string \<Rightarrow> string" where
  "deduplication_key inp event_id =
     (let k = js_trim (or_empty (pi_key inp)) in if k = [] then event_id else k)"

text \<open>\<open>MAX_PUBLISH_ATTEMPTS\<close> is three.\<close>

definition publish ::
  "(string \<Rightarrow> bool) \<Rightarrow> nat \<Rightarrow> string \<Rightarrow> json \<Rightarrow> int \<times> attempt_fault \<Rightarrow> int \<times> attempt_fault
     \<Rightarrow> int \<times> attempt_fault \<Rightarrow> control_plane \<Rightarrow> (rt_error + event_record) \<times> control_plane" where
  "publish date_ok hours event_id v a1 a2 a3 s =
     (case parse_publish_input date_ok v of
        None \<Rightarrow> (Inl RtInvalidInput, s)
      | Some inp \<Rightarrow>
          publish_loop date_ok hours inp event_id (deduplication_key inp event_id) a1 [a2, a3] s)"

section \<open>Retention\<close>

definition max_of :: "int \<Rightarrow> int list \<Rightarrow> int" where
  "max_of a xs = foldr max xs a"

definition expired_rows :: "int \<Rightarrow> control_plane \<Rightarrow> stored_row list" where
  "expired_rows now s = filter (\<lambda>r. sr_expires_at r \<le> now) (cp_log s)"

definition read_retention_state :: "int \<Rightarrow> control_plane \<Rightarrow> rt_error + retention" where
  "read_retention_state now s =
     (let pruned = max (cp_pruned s) (max_of 0 (map sr_sequence (expired_rows now s)));
          max_event = max_of 0 (map sr_sequence (cp_log s));
          live = map sr_sequence (filter (\<lambda>r. now < sr_expires_at r) (cp_log s))
      in if cp_last s < 0 \<or> pruned < 0 \<or> cp_last s < pruned \<or> cp_last s < max_event then Inl RtStateCorrupt
         else Inr \<lparr>rt_latest = cp_last s,
                rt_earliest = (case live of [] \<Rightarrow> None | x # xs \<Rightarrow> Some (foldr min xs x)), rt_pruned = pruned\<rparr>)"

definition force_full_resync_barrier :: "control_plane \<Rightarrow> int \<times> control_plane" where
  "force_full_resync_barrier s =
     (cp_last s + 1, s\<lparr>cp_last := cp_last s + 1, cp_pruned := cp_last s + 1,
        cp_signals := cp_signals s @ [SigFullResync]\<rparr>)"

definition WEEK :: int where "WEEK = 7 * 24 * HOUR"

definition record_quarantine ::
  "(json \<Rightarrow> string) \<Rightarrow> int \<Rightarrow> quarantine_source \<Rightarrow> string \<Rightarrow> int option \<Rightarrow> string \<Rightarrow> json
     \<Rightarrow> control_plane \<Rightarrow> control_plane" where
  "record_quarantine hash now source source_id sequence reason content s =
     (let same = (\<lambda>q. qn_source q = source \<and> qn_source_id q = source_id \<and> qn_reason q = reason);
          upserted =
            (if list_ex same (cp_quarantine s)
             then map (\<lambda>q. if same q then q\<lparr>qn_at := now, qn_expires_at := now + WEEK, qn_hash := hash content\<rparr>
                    else q) (cp_quarantine s)
             else cp_quarantine s @
               [\<lparr>qn_id = cp_next_quarantine s, qn_source = source, qn_source_id = source_id,
                 qn_sequence = sequence, qn_reason = reason, qn_hash = hash content, qn_at = now,
                 qn_expires_at = now + WEEK\<rparr>]);
          live = filter (\<lambda>q. now < qn_expires_at q) upserted
      in s\<lparr>cp_quarantine := take MAX_QUARANTINE_ROWS (rev (sort_key (\<lambda>q. (qn_at q, qn_id q)) live)),
           cp_next_quarantine := cp_next_quarantine s + 1\<rparr>)"

section \<open>Validation\<close>

datatype log_defect = LogGap int "int option" | LogInvalid stored_row

text \<open>\<open>ORDER BY sequence ASC LIMIT n\<close>.\<close>

definition read_rows :: "(stored_row \<Rightarrow> bool) \<Rightarrow> nat \<Rightarrow> stored_row list \<Rightarrow> stored_row list" where
  "read_rows P n rows = take n (sort_key sr_sequence (filter P rows))"

fun check_rows :: "(string \<Rightarrow> bool) \<Rightarrow> int \<Rightarrow> stored_row list \<Rightarrow> log_defect + int" where
  "check_rows date_ok cursor [] = Inr cursor"
| "check_rows date_ok cursor (r # rs) =
     (if sr_sequence r \<noteq> cursor + 1 then Inl (LogGap (cursor + 1) (Some (sr_sequence r)))
      else if parse_stored_event date_ok r = None then Inl (LogInvalid r)
      else check_rows date_ok (cursor + 1) rs)"

lemma check_rows_cursor: "check_rows date_ok cursor rs = Inr c \<Longrightarrow> c = cursor + int (length rs)"
proof (induction rs arbitrary: cursor)
  case (Cons r rs)
  then have "check_rows date_ok (cursor + 1) rs = Inr c" by (simp split: if_splits)
  from Cons.IH [OF this] show ?case by simp
qed simp

function scan_log :: "(string \<Rightarrow> bool) \<Rightarrow> stored_row list \<Rightarrow> int \<Rightarrow> int \<Rightarrow> log_defect + int" where
  "scan_log date_ok rows latest cursor =
     (if cursor < latest then
        (case read_rows (\<lambda>r. cursor < sr_sequence r \<and> sr_sequence r \<le> latest) MAX_READ_BATCH rows of
           [] \<Rightarrow> Inl (LogGap (cursor + 1) None)
         | r # rs \<Rightarrow>
             (case check_rows date_ok cursor (r # rs) of
                Inl d \<Rightarrow> Inl d
              | Inr c \<Rightarrow> scan_log date_ok rows latest c))
      else Inr cursor)"
  by pat_completeness auto
termination
  by (relation "measure (\<lambda>(date_ok, rows, latest, cursor). nat (latest - cursor))")
    (auto dest: check_rows_cursor simp del: check_rows.simps)

declare scan_log.simps [simp del]

text \<open>The values the quarantine keeps a hash of.\<close>

definition row_json :: "stored_row \<Rightarrow> json" where
  "row_json r = JObj [(''sequence'', JStr (show_nat (nat (sr_sequence r)))), (''event_id'', JStr (sr_event_id r)),
     (''stream_id'', JStr (sr_stream_id r)), (''event_name'', JStr (sr_event_name r)),
     (''payload'', sr_payload r), (''targets'', sr_targets r)]"

fun quarantine_defect :: "(json \<Rightarrow> string) \<Rightarrow> int \<Rightarrow> int \<Rightarrow> log_defect \<Rightarrow> control_plane \<Rightarrow> control_plane" where
  "quarantine_defect hash now latest (LogGap expected None) s =
     record_quarantine hash now FromEventLog (''gap:'' @ show_nat (nat expected)) (Some expected) ''SEQUENCE_GAP''
       (JObj [(''expected'', JStr (show_nat (nat expected))), (''latest'', JStr (show_nat (nat latest)))]) s"
| "quarantine_defect hash now latest (LogGap expected (Some actual)) s =
     record_quarantine hash now FromEventLog (''gap:'' @ show_nat (nat expected)) (Some expected) ''SEQUENCE_GAP''
       (JObj [(''expected'', JStr (show_nat (nat expected))), (''actual'', JStr (show_nat (nat actual)))]) s"
| "quarantine_defect hash now latest (LogInvalid r) s =
     (record_quarantine hash now FromEventLog
        (if sr_event_id r = [] then ''sequence:'' @ show_nat (nat (sr_sequence r)) else sr_event_id r)
        (Some (sr_sequence r)) ''INVALID_STORED_EVENT'' (row_json r) s)
       \<lparr>cp_log := filter (\<lambda>x. sr_sequence x \<noteq> sr_sequence r) (cp_log s)\<rparr>"

definition validated_latest_sequence ::
  "(string \<Rightarrow> bool) \<Rightarrow> (json \<Rightarrow> string) \<Rightarrow> int \<Rightarrow> control_plane \<Rightarrow> (rt_error + int) \<times> control_plane" where
  "validated_latest_sequence date_ok hash now s =
     (case read_retention_state now s of
        Inl e \<Rightarrow> (Inl e, s)
      | Inr ret \<Rightarrow>
          (case scan_log date_ok (cp_log s) (rt_latest ret) (rt_pruned ret) of
             Inr _ \<Rightarrow> (Inr (rt_latest ret), s)
           | Inl d \<Rightarrow>
               (case force_full_resync_barrier (quarantine_defect hash now (rt_latest ret) d s) of
                  (barrier, s1) \<Rightarrow> (Inr barrier, s1))))"

section \<open>Reading\<close>

fun parse_rows :: "(string \<Rightarrow> bool) \<Rightarrow> stored_row list \<Rightarrow> rt_error + event_record list" where
  "parse_rows date_ok [] = Inr []"
| "parse_rows date_ok (r # rs) =
     (case parse_stored_event date_ok r of
        None \<Rightarrow> Inl RtInvalidStored
      | Some e \<Rightarrow>
          (case parse_rows date_ok rs of Inl x \<Rightarrow> Inl x | Inr es \<Rightarrow> Inr (e # es)))"

text \<open>The second transaction of \<open>replayWindow\<close>: it reads one snapshot.\<close>

definition replay_read ::
  "(string \<Rightarrow> bool) \<Rightarrow> int \<Rightarrow> int \<Rightarrow> int \<Rightarrow> control_plane \<Rightarrow> rt_error + retention \<times> event_record list" where
  "replay_read date_ok now sequence limit s =
     (case read_retention_state now s of
        Inl e \<Rightarrow> Inl e
      | Inr ret \<Rightarrow>
          if sequence < rt_pruned ret then Inr (ret, [])
          else
            (case parse_rows date_ok
                 (read_rows (\<lambda>r. sequence < sr_sequence r \<and> sr_sequence r \<le> rt_latest ret \<and> now < sr_expires_at r)
                   (nat (max 1 (min limit MAX_REPLAY_BATCH))) (cp_log s)) of
               Inl e \<Rightarrow> Inl e
             | Inr es \<Rightarrow> Inr (ret, es)))"

text \<open>\<open>replayWindow\<close>: the validation at time \<open>t1\<close>, then the read at \<open>t2\<close> of the state that
  \<open>between\<close>, the other transactions, has made of the validated one.\<close>

definition replay_window ::
  "(string \<Rightarrow> bool) \<Rightarrow> (json \<Rightarrow> string) \<Rightarrow> int \<Rightarrow> int \<Rightarrow> (control_plane \<Rightarrow> control_plane) \<Rightarrow> int \<Rightarrow> int
     \<Rightarrow> control_plane \<Rightarrow> (rt_error + retention \<times> event_record list) \<times> control_plane" where
  "replay_window date_ok hash t1 t2 between sequence limit s =
     (case validated_latest_sequence date_ok hash t1 s of
        (Inl e, s1) \<Rightarrow> (Inl e, s1)
      | (Inr _, s1) \<Rightarrow> (replay_read date_ok t2 sequence limit (between s1), between s1))"

text \<open>\<open>readAfter\<close>: the validation, the floor and the rows are read by three separate statements.\<close>

definition read_after_rows ::
  "(string \<Rightarrow> bool) \<Rightarrow> int \<Rightarrow> int \<Rightarrow> int \<Rightarrow> control_plane \<Rightarrow> rt_error + event_record list" where
  "read_after_rows date_ok now sequence limit s =
     parse_rows date_ok
       (read_rows (\<lambda>r. sequence < sr_sequence r \<and> now < sr_expires_at r)
         (nat (max 1 (min limit (int MAX_READ_BATCH)))) (cp_log s))"

definition read_after ::
  "(string \<Rightarrow> bool) \<Rightarrow> (json \<Rightarrow> string) \<Rightarrow> int \<Rightarrow> int \<Rightarrow> int \<Rightarrow> (control_plane \<Rightarrow> control_plane)
     \<Rightarrow> (control_plane \<Rightarrow> control_plane) \<Rightarrow> int \<Rightarrow> int \<Rightarrow> control_plane
     \<Rightarrow> (rt_error + event_record list) \<times> control_plane" where
  "read_after date_ok hash t1 t2 t3 between between' sequence limit s =
     (case validated_latest_sequence date_ok hash t1 s of
        (Inl e, s1) \<Rightarrow> (Inl e, s1)
      | (Inr _, s1) \<Rightarrow>
          (case read_retention_state t2 (between s1) of
             Inl e \<Rightarrow> (Inl e, between s1)
           | Inr ret \<Rightarrow>
               if sequence < rt_pruned ret then (Inl (RtCursorTooOld (rt_pruned ret)), between s1)
               else (read_after_rows date_ok t3 sequence limit (between' (between s1)), between' (between s1))))"

text \<open>\<open>pruneExpired\<close>: at most a thousand expired rows, without those another transaction holds.\<close>

definition prune_expired :: "int \<Rightarrow> int list \<Rightarrow> control_plane \<Rightarrow> nat \<times> control_plane" where
  "prune_expired now locked s =
     (let gone = map sr_sequence
            (read_rows (\<lambda>r. sr_expires_at r \<le> now \<and> sr_sequence r \<notin> set locked) 1000 (cp_log s))
      in (length gone,
          s\<lparr>cp_log := filter (\<lambda>r. sr_sequence r \<notin> set gone) (cp_log s),
            cp_pruned := max_of (cp_pruned s) gone\<rparr>))"

end
