(* ===== verification/Realtime_Replay.thy ===== *)
theory Realtime_Replay
  imports Realtime_Log
begin

text \<open>
  What the event log promises. A validated log has every event above its floor, at one number
  each and well formed, and keeps it so through every operation; a replay therefore returns
  the events after a cursor without a hole, or says that the cursor is too old. Publishing
  twice stores an event once, and pruning changes no answer.
\<close>

section \<open>Maxima\<close>

lemma max_of_simps [simp]: "max_of a [] = a" "max_of a (x # xs) = max x (max_of a xs)"
  by (simp_all add: max_of_def)

lemma max_of_ge: "a \<le> max_of a xs" "x \<in> set xs \<Longrightarrow> x \<le> max_of a xs"
  by (induction xs) (auto simp: le_max_iff_disj)

lemma max_of_in: "max_of a xs \<in> insert a (set xs)"
  by (induction xs) (auto simp: max_def)

lemma max_of_le: "max_of a xs \<le> b \<longleftrightarrow> a \<le> b \<and> (\<forall>x \<in> set xs. x \<le> b)"
  by (induction xs) auto

section \<open>The values of a column\<close>

lemma normal_defined [simp]: "normal v \<noteq> JUndefined"
  by (cases v) simp_all

lemma normal_idem: "normal (normal v) = normal v"
proof (induction v rule: normal.induct)
  case (4 es)
  let ?n = "map (\<lambda>(k, v). (k, normal v)) (sort_key fst (filter defined_member es))"
  have f: "filter defined_member ?n = ?n" by (intro filter_True) auto
  have "sorted (map fst ?n)" by (simp add: comp_def case_prod_beta)
  then have s: "sort_key fst ?n = ?n" by (rule sort_key_id_if_sorted)
  have "map (\<lambda>(k, v). (k, normal v)) ?n = ?n"
  proof (rule map_idI)
    fix x assume "x \<in> set ?n"
    then obtain k v where x: "x = (k, normal v)" "(k, v) \<in> set es" "v \<noteq> JUndefined" by auto
    with 4 have "normal (normal v) = normal v" by fastforce
    then show "(case x of (k, v) \<Rightarrow> (k, normal v)) = x" by (simp add: x)
  qed
  then show ?case by (simp add: f s del: sort_key_simps)
qed simp_all

section \<open>Invariants\<close>

text \<open>The bounds of the sequence row and the keys of the table.\<close>

definition plane_base :: "control_plane \<Rightarrow> bool" where
  "plane_base s \<longleftrightarrow> 0 \<le> cp_pruned s \<and> cp_pruned s \<le> cp_last s
     \<and> (\<forall>r \<in> set (cp_log s). sr_sequence r \<le> cp_last s) \<and> distinct (map sr_sequence (cp_log s))
     \<and> distinct (map sr_key (cp_log s)) \<and> distinct (map sr_event_id (cp_log s))"

definition floor_at :: "int \<Rightarrow> control_plane \<Rightarrow> int" where
  "floor_at now s = max (cp_pruned s) (max_of 0 (map sr_sequence (expired_rows now s)))"

text \<open>Every number above \<open>f\<close> has an event that can be read.\<close>

definition complete_from :: "(string \<Rightarrow> bool) \<Rightarrow> int \<Rightarrow> control_plane \<Rightarrow> bool" where
  "complete_from date_ok f s \<longleftrightarrow>
     (\<forall>k. f < k \<and> k \<le> cp_last s \<longrightarrow> (\<exists>r \<in> set (cp_log s). sr_sequence r = k \<and> parse_stored_event date_ok r \<noteq> None))"

definition log_sound :: "(string \<Rightarrow> bool) \<Rightarrow> int \<Rightarrow> control_plane \<Rightarrow> bool" where
  "log_sound date_ok now s \<longleftrightarrow> plane_base s \<and> complete_from date_ok (floor_at now s) s"

lemma floor_bounds:
  assumes "plane_base s"
  shows "cp_pruned s \<le> floor_at now s" "floor_at now s \<le> cp_last s" "0 \<le> floor_at now s"
proof -
  have "max_of 0 (map sr_sequence (expired_rows now s)) \<le> cp_last s"
    using assms by (auto simp: max_of_le plane_base_def expired_rows_def)
  then show "cp_pruned s \<le> floor_at now s" "floor_at now s \<le> cp_last s" "0 \<le> floor_at now s"
    using assms by (auto simp: floor_at_def plane_base_def)
qed

lemma floor_live: "r \<in> set (cp_log s) \<Longrightarrow> floor_at now s < sr_sequence r \<Longrightarrow> now < sr_expires_at r"
  using max_of_ge(2) [of "sr_sequence r" "map sr_sequence (expired_rows now s)" 0]
  by (fastforce simp: floor_at_def expired_rows_def not_le [symmetric])

lemma floor_time_mono: "t \<le> t' \<Longrightarrow> floor_at t s \<le> floor_at t' s"
proof -
  assume t: "t \<le> t'"
  have "max_of 0 (map sr_sequence (expired_rows t s)) \<le> max_of 0 (map sr_sequence (expired_rows t' s))"
    unfolding max_of_le using t by (auto simp: expired_rows_def intro!: max_of_ge)
  then show ?thesis unfolding floor_at_def by (rule max.mono [OF order_refl])
qed

lemma complete_mono: "complete_from date_ok f s \<Longrightarrow> f \<le> g \<Longrightarrow> complete_from date_ok g s"
  by (auto simp: complete_from_def)

lemma retention_read:
  assumes "plane_base s"
  obtains ret where "read_retention_state now s = Inr ret" "rt_latest ret = cp_last s" "rt_pruned ret = floor_at now s"
proof -
  have "max_of 0 (map sr_sequence (cp_log s)) \<le> cp_last s"
    using assms by (auto simp: max_of_le plane_base_def)
  then show ?thesis
    using that floor_bounds [OF assms, of now] assms
    by (simp add: read_retention_state_def floor_at_def [symmetric] Let_def plane_base_def)
qed

section \<open>Reading rows in order\<close>

lemma read_rows_in: "r \<in> set (read_rows P n rows) \<Longrightarrow> r \<in> set rows \<and> P r"
  by (auto simp: read_rows_def dest: in_set_takeD)

text \<open>When every number of an interval has a row, the rows are read one by one.\<close>

lemma read_rows_interval:
  assumes "distinct (map sr_sequence rows)"
    and "{sr_sequence r | r. r \<in> set rows \<and> P r} = {c + 1..u}"
  shows "map sr_sequence (read_rows P n rows) = take n [c + 1..u]"
proof -
  let ?l = "sort_key sr_sequence (filter P rows)"
  have "distinct (map sr_sequence ?l)"
    using assms(1) by (simp add: distinct_map inj_on_def)
  moreover have "set (map sr_sequence ?l) = set [c + 1..u]"
    unfolding set_upto assms(2) [symmetric] by auto
  ultimately have "map sr_sequence ?l = [c + 1..u]"
    by (intro sorted_distinct_set_unique) simp_all
  then show ?thesis by (simp add: read_rows_def flip: take_map)
qed

lemma check_rows_iff:
  "map sr_sequence rs = [cursor + 1..u] \<Longrightarrow> list_all (\<lambda>r. parse_stored_event date_ok r \<noteq> None) rs \<Longrightarrow>
     cursor \<le> u \<Longrightarrow> check_rows date_ok cursor rs = Inr u"
proof (induction rs arbitrary: cursor)
  case Nil
  then show ?case by simp
next
  case (Cons r rs)
  have "[cursor + 1..u] \<noteq> []" using Cons.prems(1) by (metis list.discI list.simps(9))
  then have u: "cursor + 1 \<le> u" by simp
  then have "[cursor + 1..u] = (cursor + 1) # [(cursor + 1) + 1..u]" by (rule upto_rec1)
  with Cons.prems(1,2) have r: "sr_sequence r = cursor + 1" "parse_stored_event date_ok r \<noteq> None"
    "map sr_sequence rs = [cursor + 1 + 1..u]" "list_all (\<lambda>r. parse_stored_event date_ok r \<noteq> None) rs" by simp_all
  from Cons.IH [OF r(3,4) u] r(1,2) show ?case by simp
qed

lemma check_rows_ok:
  "check_rows date_ok cursor rs = Inr c \<Longrightarrow> cursor < k \<Longrightarrow> k \<le> c \<Longrightarrow>
     \<exists>r \<in> set rs. sr_sequence r = k \<and> parse_stored_event date_ok r \<noteq> None"
proof (induction rs arbitrary: cursor)
  case (Cons r rs)
  then have r: "sr_sequence r = cursor + 1" "parse_stored_event date_ok r \<noteq> None"
    "check_rows date_ok (cursor + 1) rs = Inr c" by (simp_all split: if_splits)
  show ?case
  proof (cases "k = cursor + 1")
    case False
    with Cons.prems(2) have "cursor + 1 < k" by simp
    from Cons.IH [OF r(3) this Cons.prems(3)] show ?thesis by auto
  qed (use r in auto)
qed simp

lemma scan_log_ok:
  "scan_log date_ok rows latest cursor = Inr c \<Longrightarrow> cursor < k \<Longrightarrow> k \<le> latest \<Longrightarrow>
     \<exists>r \<in> set rows. sr_sequence r = k \<and> parse_stored_event date_ok r \<noteq> None"
proof (induction date_ok rows latest cursor rule: scan_log.induct)
  case (1 date_ok rows latest cursor)
  let ?b = "read_rows (\<lambda>r. cursor < sr_sequence r \<and> sr_sequence r \<le> latest) MAX_READ_BATCH rows"
  from "1.prems"(2,3) have l: "cursor < latest" by simp
  with "1.prems"(1) obtain r rs c1 where b: "?b = r # rs" "check_rows date_ok cursor (r # rs) = Inr c1"
    "scan_log date_ok rows latest c1 = Inr c"
    by (auto simp: scan_log.simps [of date_ok rows latest cursor] simp del: check_rows.simps
        split: list.splits sum.splits)
  show ?case
  proof (cases "k \<le> c1")
    case True
    from check_rows_ok [OF b(2) "1.prems"(2) True] read_rows_in b(1) show ?thesis by metis
  next
    case False
    then have "c1 < k" by simp
    from "1.IH" [OF l b(1,2,3) this "1.prems"(3)] show ?thesis .
  qed
qed

section \<open>Insertion\<close>

lemma positive_int_env_pos: "0 < fallback \<Longrightarrow> 0 < positive_int_env v fallback"
  by (simp add: positive_int_env_def Let_def)

lemma find_stored_parts:
  assumes "find_stored_event date_ok key inp rows = Inr (Some r)"
  obtains row where "row \<in> set rows" "sr_key row = key" "same_content inp row" "parse_stored_event date_ok row = Some r"
  using assms by (auto simp: find_stored_event_def find_Some_iff split: option.splits if_splits) (metis nth_mem)

lemma insert_event_parts:
  assumes "insert_event date_ok hours now inp event_id key s = Inr (r, inserted, s1)"
  obtains (old) row where "\<not> inserted" "s1 = s" "row \<in> set (cp_log s)" "sr_key row = key" "same_content inp row"
      "parse_stored_event date_ok row = Some r"
    | (new) row where "inserted" "row = new_row inp event_id key (cp_last s + 1) (now + int hours * HOUR)"
      "key \<notin> sr_key ` set (cp_log s)" "event_id \<notin> sr_event_id ` set (cp_log s)"
      "cp_last s + 1 \<notin> sr_sequence ` set (cp_log s)" "parse_stored_event date_ok row = Some r"
      "s1 = s\<lparr>cp_last := cp_last s + 1, cp_log := cp_log s @ [row]\<rparr>"
proof (cases "find_stored_event date_ok key inp (cp_log s)")
  case (Inl e)
  then show ?thesis using assms by (simp add: insert_event_def)
next
  case (Inr found)
  show ?thesis
  proof (cases found)
    case (Some r')
    then have "r' = r" "\<not> inserted" "s1 = s" using assms Inr by (simp_all add: insert_event_def)
    with Inr Some find_stored_parts old show ?thesis by metis
  next
    case None
    let ?row = "new_row inp event_id key (cp_last s + 1) (now + int hours * HOUR)"
    have c: "\<not> list_ex (\<lambda>r. sr_key r = key \<or> sr_event_id r = event_id \<or> sr_sequence r = cp_last s + 1) (cp_log s)"
      "parse_stored_event date_ok ?row = Some r" "inserted"
      "s1 = s\<lparr>cp_last := cp_last s + 1, cp_log := cp_log s @ [?row]\<rparr>"
      using assms Inr None by (auto simp: insert_event_def Let_def split: option.splits if_splits)
    from c(1) have "key \<notin> sr_key ` set (cp_log s)" "event_id \<notin> sr_event_id ` set (cp_log s)"
      "cp_last s + 1 \<notin> sr_sequence ` set (cp_log s)" by (auto simp: list_ex_iff)
    with c(2-4) new show ?thesis by blast
  qed
qed

lemma new_row_content: "same_content inp (new_row inp event_id key n t)"
  by (simp add: same_content_def new_row_def normal_idem del: normal.simps)

lemma insert_event_sound:
  assumes "log_sound date_ok now s" "0 < hours" "insert_event date_ok hours now inp event_id key s = Inr (r, b, s1)"
  shows "log_sound date_ok now s1"
  using assms(3)
proof (cases rule: insert_event_parts)
  case (new row)
  have b: "plane_base s" "complete_from date_ok (floor_at now s) s"
    using assms(1) by (simp_all add: log_sound_def)
  have "plane_base s1"
    using b(1) new(3-5) by (force simp: new(7) new(2) plane_base_def new_row_def image_iff)
  moreover have f: "floor_at now s1 = floor_at now s"
    using assms(2) by (simp add: new(7) new(2) floor_at_def expired_rows_def new_row_def)
  moreover have "complete_from date_ok (floor_at now s) s1"
    unfolding complete_from_def
  proof (intro allI impI)
    fix k assume k: "floor_at now s < k \<and> k \<le> cp_last s1"
    show "\<exists>r \<in> set (cp_log s1). sr_sequence r = k \<and> parse_stored_event date_ok r \<noteq> None"
    proof (cases "k = cp_last s + 1")
      case True
      then have "sr_sequence row = k" by (simp add: new(2) new_row_def)
      then show ?thesis using new(6) by (auto simp: new(7))
    next
      case False
      with k have "floor_at now s < k \<and> k \<le> cp_last s" by (simp add: new(7))
      with b(2) show ?thesis by (auto simp: complete_from_def new(7))
    qed
  qed
  ultimately show ?thesis by (simp add: log_sound_def)
qed (use assms(1) in simp)

text \<open>Signals and the quarantine do not bear on the log.\<close>

lemma log_sound_frame [simp]:
  "log_sound date_ok now (s\<lparr>cp_signals := x\<rparr>) = log_sound date_ok now s"
  by (simp add: log_sound_def plane_base_def complete_from_def floor_at_def expired_rows_def)

lemma publish_once_states:
  assumes "publish_once date_ok hours inp event_id key a s = (res, s')"
  shows "s' = s \<or> (\<exists>r b s1. insert_event date_ok hours (fst a) inp event_id key s = Inr (r, b, s1)
    \<and> s' = (if b then s1\<lparr>cp_signals := cp_signals s1 @ [SigEvent]\<rparr> else s1))"
  using assms by (auto simp: publish_once_def Let_def split: sum.splits attempt_fault.splits prod.splits if_splits)

lemma publish_once_sound:
  assumes "log_sound date_ok (fst a) s" "0 < hours" "publish_once date_ok hours inp event_id key a s = (res, s')"
  shows "log_sound date_ok (fst a) s'"
  using publish_once_states [OF assms(3)] insert_event_sound [OF assms(1,2)] assms(1) by auto

section \<open>Pruning\<close>

definition pruned_numbers :: "int \<Rightarrow> int list \<Rightarrow> control_plane \<Rightarrow> int list" where
  "pruned_numbers now locked s = map sr_sequence
     (read_rows (\<lambda>r. sr_expires_at r \<le> now \<and> sr_sequence r \<notin> set locked) 1000 (cp_log s))"

lemma prune_expired_state:
  "prune_expired now locked s = (length (pruned_numbers now locked s),
     s\<lparr>cp_log := filter (\<lambda>r. sr_sequence r \<notin> set (pruned_numbers now locked s)) (cp_log s),
       cp_pruned := max_of (cp_pruned s) (pruned_numbers now locked s)\<rparr>)"
  by (simp add: prune_expired_def pruned_numbers_def Let_def)

lemma pruned_numbers_expired:
  "n \<in> set (pruned_numbers now locked s) \<Longrightarrow> n \<in> set (map sr_sequence (expired_rows now s))"
  by (auto simp: pruned_numbers_def expired_rows_def dest: read_rows_in)

lemma prune_floor: "floor_at now (snd (prune_expired now locked s)) = floor_at now s" (is "?l = ?r")
proof (rule antisym)
  let ?g = "pruned_numbers now locked s" and ?e = "map sr_sequence (expired_rows now s)"
  have "max_of (cp_pruned s) ?g \<le> ?r"
    unfolding max_of_le floor_at_def
    using max_of_ge(2) pruned_numbers_expired by (meson max.cobounded1 max.coboundedI2)
  moreover have "max_of 0 (map sr_sequence (expired_rows now (snd (prune_expired now locked s)))) \<le> ?r"
    by (auto simp: max_of_le floor_at_def prune_expired_state expired_rows_def le_max_iff_disj max_of_ge)
  ultimately show "?l \<le> ?r" by (simp add: floor_at_def prune_expired_state)
  have "n \<le> ?l" if "n \<in> set ?e" for n
  proof (cases "n \<in> set ?g")
    case True
    then show ?thesis by (simp add: floor_at_def prune_expired_state max_of_ge le_max_iff_disj)
  next
    case False
    with that have "n \<in> set (map sr_sequence (expired_rows now (snd (prune_expired now locked s))))"
      by (auto simp: expired_rows_def prune_expired_state)
    then show ?thesis by (simp add: floor_at_def max_of_ge le_max_iff_disj)
  qed
  moreover have "0 \<le> ?l" "cp_pruned s \<le> ?l"
    by (simp_all add: floor_at_def prune_expired_state max_of_ge le_max_iff_disj)
  ultimately show "?r \<le> ?l" by (simp add: floor_at_def [of now s] max_of_le)
qed

lemma prune_live:
  assumes "distinct (map sr_sequence (cp_log s))" "\<And>r. P r \<Longrightarrow> now < sr_expires_at r"
  shows "filter P (cp_log (snd (prune_expired now locked s))) = filter P (cp_log s)"
proof -
  have "sr_sequence r \<notin> set (pruned_numbers now locked s)" if r: "r \<in> set (cp_log s)" "P r" for r
  proof
    assume "sr_sequence r \<in> set (pruned_numbers now locked s)"
    then obtain e where e: "e \<in> set (cp_log s)" "sr_expires_at e \<le> now" "sr_sequence e = sr_sequence r"
      using pruned_numbers_expired by (fastforce simp: expired_rows_def)
    with assms(1) r(1) have "e = r" by (auto simp: distinct_map dest: inj_onD)
    with e(2) assms(2) [OF r(2)] show False by simp
  qed
  then show ?thesis by (auto simp: prune_expired_state intro!: filter_cong)
qed

lemma prune_base:
  assumes "plane_base s"
  shows "plane_base (snd (prune_expired now locked s))"
proof -
  have "max_of (cp_pruned s) (pruned_numbers now locked s) \<le> cp_last s"
    using assms pruned_numbers_expired by (fastforce simp: max_of_le plane_base_def expired_rows_def)
  moreover have "0 \<le> max_of (cp_pruned s) (pruned_numbers now locked s)"
    using assms max_of_ge(1) by (force simp: plane_base_def intro: order_trans)
  ultimately show ?thesis
    using assms by (auto simp: plane_base_def prune_expired_state distinct_map intro: inj_on_subset)
qed

lemma prune_sound:
  assumes "log_sound date_ok now s"
  shows "log_sound date_ok now (snd (prune_expired now locked s))"
proof -
  have b: "plane_base s" "complete_from date_ok (floor_at now s) s"
    using assms by (simp_all add: log_sound_def)
  let ?s = "snd (prune_expired now locked s)"
  have "\<exists>r \<in> set (cp_log ?s). sr_sequence r = k \<and> parse_stored_event date_ok r \<noteq> None"
    if k: "floor_at now s < k" "k \<le> cp_last s" for k
  proof -
    obtain r where r: "r \<in> set (cp_log s)" "sr_sequence r = k" "parse_stored_event date_ok r \<noteq> None"
      using b(2) k by (auto simp: complete_from_def)
    have "now < sr_expires_at r" using floor_live r(1,2) k(1) by blast
    then have "r \<in> set (filter (\<lambda>r. now < sr_expires_at r) (cp_log s))" using r(1) by simp
    also have "\<dots> = set (filter (\<lambda>r. now < sr_expires_at r) (cp_log ?s))"
      using b(1) by (subst prune_live) (simp_all add: plane_base_def)
    finally show ?thesis using r(2,3) by auto
  qed
  then show ?thesis
    unfolding log_sound_def complete_from_def prune_floor
    using prune_base [OF b(1)] by (simp add: prune_expired_state)
qed

section \<open>Validation\<close>

lemma record_quarantine_log [simp]:
  "cp_log (record_quarantine hash now src i n reason c s) = cp_log s"
  "cp_last (record_quarantine hash now src i n reason c s) = cp_last s"
  "cp_pruned (record_quarantine hash now src i n reason c s) = cp_pruned s"
  by (simp_all add: record_quarantine_def Let_def)

lemma quarantine_defect_log:
  "\<exists>P. cp_log (quarantine_defect hash now latest d s) = filter P (cp_log s)"
  "cp_last (quarantine_defect hash now latest d s) = cp_last s"
  by (cases "(hash, now, latest, d, s)" rule: quarantine_defect.cases; force intro: exI [of _ "\<lambda>_. True"])+

lemma barrier_sound:
  assumes "plane_base s" "cp_log s1 = filter P (cp_log s)" "cp_last s1 = cp_last s"
  shows "log_sound date_ok now (snd (force_full_resync_barrier s1))"
proof -
  have "plane_base (snd (force_full_resync_barrier s1))"
    using assms by (force simp: plane_base_def force_full_resync_barrier_def distinct_map intro: inj_on_subset)
  moreover have "complete_from date_ok (floor_at now (snd (force_full_resync_barrier s1))) (snd (force_full_resync_barrier s1))"
    by (auto simp: complete_from_def floor_at_def force_full_resync_barrier_def)
  ultimately show ?thesis by (simp add: log_sound_def)
qed

lemma validated_sound:
  assumes "plane_base s"
  obtains n s1 where "validated_latest_sequence date_ok hash now s = (Inr n, s1)" "n = cp_last s1"
    "log_sound date_ok now s1"
proof -
  obtain ret where ret: "read_retention_state now s = Inr ret" "rt_latest ret = cp_last s" "rt_pruned ret = floor_at now s"
    using retention_read [OF assms] .
  show ?thesis
  proof (cases "scan_log date_ok (cp_log s) (cp_last s) (floor_at now s)")
    case (Inr c)
    have "complete_from date_ok (floor_at now s) s"
      using scan_log_ok [OF Inr] by (simp add: complete_from_def)
    with assms have "log_sound date_ok now s" by (simp add: log_sound_def)
    then show ?thesis using that ret Inr by (simp add: validated_latest_sequence_def)
  next
    case (Inl d)
    let ?q = "quarantine_defect hash now (cp_last s) d s"
    obtain P where P: "cp_log ?q = filter P (cp_log s)" using quarantine_defect_log(1) by blast
    obtain n s1 where f: "force_full_resync_barrier ?q = (n, s1)" by fastforce
    then have "n = cp_last s1" by (auto simp: force_full_resync_barrier_def)
    moreover have "log_sound date_ok now s1"
      using barrier_sound [OF assms P quarantine_defect_log(2)] f by simp
    ultimately show ?thesis using that ret Inl f by (simp add: validated_latest_sequence_def)
  qed
qed

section \<open>The transactions on the log\<close>

inductive plane_step ::
  "(string \<Rightarrow> bool) \<Rightarrow> (json \<Rightarrow> string) \<Rightarrow> int \<times> control_plane \<Rightarrow> int \<times> control_plane \<Rightarrow> bool" for date_ok hash where
  tick: "t \<le> t' \<Longrightarrow> plane_step date_ok hash (t, s) (t', s)"
| publication: "plane_step date_ok hash (t, s)
    (t, snd (publish_once date_ok (positive_int_env v DEFAULT_RETENTION_HOURS) inp event_id key (t, fault) s))"
| validation: "plane_step date_ok hash (t, s) (t, snd (validated_latest_sequence date_ok hash t s))"
| pruning: "plane_step date_ok hash (t, s) (t, snd (prune_expired t locked s))"

lemma log_sound_later: "log_sound date_ok t s \<Longrightarrow> t \<le> t' \<Longrightarrow> log_sound date_ok t' s"
  using complete_mono floor_time_mono by (auto simp: log_sound_def)

lemma plane_step_sound:
  assumes "plane_step date_ok hash (t, s) (t', s')" "log_sound date_ok t s"
  shows "log_sound date_ok t' s'"
  using assms(1)
proof (cases rule: plane_step.cases)
  case (publication v inp event_id key fault)
  let ?h = "positive_int_env v DEFAULT_RETENTION_HOURS"
  obtain res s1 where p: "publish_once date_ok ?h inp event_id key (t, fault) s = (res, s1)" by fastforce
  have "0 < ?h" by (rule positive_int_env_pos) (simp add: DEFAULT_RETENTION_HOURS_def)
  from publish_once_sound [OF _ this p] assms(2) show ?thesis by (simp add: publication p)
next
  case validation
  have "plane_base s" using assms(2) by (simp add: log_sound_def)
  then obtain n s1 where "validated_latest_sequence date_ok hash t s = (Inr n, s1)" "log_sound date_ok t s1"
    by (rule validated_sound)
  then show ?thesis by (simp add: validation)
qed (use assms(2) log_sound_later prune_sound in auto)

lemma plane_steps_sound:
  assumes "(plane_step date_ok hash)\<^sup>*\<^sup>* p q" "log_sound date_ok (fst p) (snd p)"
  shows "log_sound date_ok (fst q) (snd q)"
  using assms by (induction rule: rtranclp_induct) (auto intro: plane_step_sound)

section \<open>Replay\<close>

lemma parse_stored_sequence: "parse_stored_event date_ok r = Some e \<Longrightarrow> er_sequence e = sr_sequence r"
  by (auto simp: parse_stored_event_def split: option.splits if_splits)

lemma parse_rows_all:
  "(\<And>r. r \<in> set rs \<Longrightarrow> parse_stored_event date_ok r \<noteq> None) \<Longrightarrow>
     parse_rows date_ok rs = Inr (map (\<lambda>r. the (parse_stored_event date_ok r)) rs)"
  by (induction rs) fastforce+

text \<open>The events after a cursor at or above the floor, in order and without a hole.\<close>

definition events_after :: "(string \<Rightarrow> bool) \<Rightarrow> int \<Rightarrow> int \<Rightarrow> control_plane \<Rightarrow> event_record list \<Rightarrow> bool" where
  "events_after date_ok c limit s es \<longleftrightarrow> map er_sequence es = take (nat limit) [c + 1..cp_last s]
     \<and> (\<forall>e \<in> set es. \<exists>r \<in> set (cp_log s). parse_stored_event date_ok r = Some e)"

lemma sound_interval:
  assumes "log_sound date_ok now s" "floor_at now s \<le> c"
  shows "map sr_sequence (read_rows (\<lambda>r. c < sr_sequence r \<and> sr_sequence r \<le> cp_last s \<and> now < sr_expires_at r) n (cp_log s))
      = take n [c + 1..cp_last s]"
    and "r \<in> set (cp_log s) \<Longrightarrow> c < sr_sequence r \<Longrightarrow> parse_stored_event date_ok r \<noteq> None"
proof -
  have b: "plane_base s" "complete_from date_ok (floor_at now s) s"
    using assms(1) by (simp_all add: log_sound_def)
  let ?P = "\<lambda>r. c < sr_sequence r \<and> sr_sequence r \<le> cp_last s \<and> now < sr_expires_at r"
  have "k \<in> {sr_sequence r | r. r \<in> set (cp_log s) \<and> ?P r}" if k: "k \<in> {c + 1..cp_last s}" for k
  proof -
    have f: "floor_at now s < k" "k \<le> cp_last s" using k assms(2) by auto
    then obtain r where r: "r \<in> set (cp_log s)" "sr_sequence r = k" using b(2) by (auto simp: complete_from_def)
    moreover have "now < sr_expires_at r" using floor_live [OF r(1)] r(2) f(1) by simp
    moreover have "c < k" using k by simp
    ultimately show ?thesis using f(2) by blast
  qed
  then have "{sr_sequence r | r. r \<in> set (cp_log s) \<and> ?P r} = {c + 1..cp_last s}" by auto
  with b(1) show "map sr_sequence (read_rows ?P n (cp_log s)) = take n [c + 1..cp_last s]"
    by (intro read_rows_interval) (simp_all add: plane_base_def)
  assume r: "r \<in> set (cp_log s)" "c < sr_sequence r"
  with b(1) assms(2) have "floor_at now s < sr_sequence r" "sr_sequence r \<le> cp_last s" by (auto simp: plane_base_def)
  with b(2) obtain x where x: "x \<in> set (cp_log s)" "sr_sequence x = sr_sequence r" "parse_stored_event date_ok x \<noteq> None"
    by (auto simp: complete_from_def)
  with r(1) b(1) have "x = r" by (auto simp: plane_base_def distinct_map dest: inj_onD)
  with x(3) show "parse_stored_event date_ok r \<noteq> None" by simp
qed

lemma replay_read_complete:
  assumes "log_sound date_ok now s"
  obtains ret es where "replay_read date_ok now c limit s = Inr (ret, es)" "rt_latest ret = cp_last s"
    "rt_pruned ret = floor_at now s"
    "if c < floor_at now s then es = [] else events_after date_ok c (max 1 (min limit MAX_REPLAY_BATCH)) s es"
proof -
  have b: "plane_base s" using assms by (simp add: log_sound_def)
  obtain ret where ret: "read_retention_state now s = Inr ret" "rt_latest ret = cp_last s" "rt_pruned ret = floor_at now s"
    using retention_read [OF b] .
  show ?thesis
  proof (cases "c < floor_at now s")
    case True
    then show ?thesis using that ret by (simp add: replay_read_def)
  next
    case False
    then have f: "floor_at now s \<le> c" by simp
    let ?n = "nat (max 1 (min limit MAX_REPLAY_BATCH))"
    let ?rs = "read_rows (\<lambda>r. c < sr_sequence r \<and> sr_sequence r \<le> cp_last s \<and> now < sr_expires_at r) ?n (cp_log s)"
    let ?es = "map (\<lambda>r. the (parse_stored_event date_ok r)) ?rs"
    have ok: "parse_stored_event date_ok r \<noteq> None" "r \<in> set (cp_log s)" if "r \<in> set ?rs" for r
      using read_rows_in [OF that] sound_interval(2) [OF assms f] by auto
    then have p: "parse_rows date_ok ?rs = Inr ?es" by (intro parse_rows_all) blast
    have "map er_sequence ?es = map sr_sequence ?rs"
      using ok(1) parse_stored_sequence by (fastforce simp: comp_def)
    moreover have "\<exists>r \<in> set (cp_log s). parse_stored_event date_ok r = Some e" if "e \<in> set ?es" for e
      using that ok by fastforce
    ultimately have "events_after date_ok c (max 1 (min limit MAX_REPLAY_BATCH)) s ?es"
      using sound_interval(1) [OF assms f] by (simp add: events_after_def)
    with False that ret p show ?thesis by (simp add: replay_read_def)
  qed
qed

section \<open>A sound log is left alone\<close>

lemma take_upto: "take n [a..b] = [a..min b (a + int n - 1)]"
proof (induction n arbitrary: a)
  case (Suc n)
  show ?case
  proof (cases "a \<le> b")
    case True
    then have "take (Suc n) [a..b] = a # take n [a + 1..b]" by (simp add: upto_rec1)
    also have "\<dots> = a # [a + 1..min b (a + 1 + int n - 1)]" unfolding Suc.IH ..
    also have "\<dots> = [a..min b (a + int (Suc n) - 1)]" using True by (subst (2) upto_rec1) (simp_all add: algebra_simps)
    finally show ?thesis .
  qed simp
qed simp

lemma scan_log_complete:
  "distinct (map sr_sequence rows) \<Longrightarrow> cursor \<le> latest \<Longrightarrow>
     (\<And>k. cursor < k \<Longrightarrow> k \<le> latest \<Longrightarrow> \<exists>r \<in> set rows. sr_sequence r = k \<and> parse_stored_event date_ok r \<noteq> None) \<Longrightarrow>
     scan_log date_ok rows latest cursor = Inr latest"
proof (induction date_ok rows latest cursor rule: scan_log.induct)
  case (1 date_ok rows latest cursor)
  show ?case
  proof (cases "cursor < latest")
    case True
    let ?P = "\<lambda>r. cursor < sr_sequence r \<and> sr_sequence r \<le> latest"
    let ?b = "read_rows ?P MAX_READ_BATCH rows" and ?u = "min latest (cursor + int MAX_READ_BATCH)"
    have "k \<in> {sr_sequence r | r. r \<in> set rows \<and> ?P r}" if "k \<in> {cursor + 1..latest}" for k
      using that "1.prems"(3) [of k] by force
    then have "{sr_sequence r | r. r \<in> set rows \<and> ?P r} = {cursor + 1..latest}" by auto
    then have b: "map sr_sequence ?b = [cursor + 1..?u]"
      using read_rows_interval [OF "1.prems"(1), of ?P cursor latest MAX_READ_BATCH]
      by (simp add: take_upto algebra_simps)
    have u: "cursor < ?u" using True by (simp add: MAX_READ_BATCH_def)
    then have "[cursor + 1..?u] \<noteq> []" by (simp add: not_le del: min_less_iff_conj)
    with b obtain r rs where rs: "?b = r # rs" by (metis list.exhaust list.map_disc_iff)
    have "parse_stored_event date_ok x \<noteq> None" if x: "x \<in> set ?b" for x
    proof -
      from read_rows_in [OF x] have x': "x \<in> set rows" "?P x" by simp_all
      then obtain y where "y \<in> set rows" "sr_sequence y = sr_sequence x" "parse_stored_event date_ok y \<noteq> None"
        using "1.prems"(3) by blast
      with x'(1) "1.prems"(1) show ?thesis by (auto simp: distinct_map dest: inj_onD)
    qed
    then have c: "check_rows date_ok cursor (r # rs) = Inr ?u"
      using b u by (intro check_rows_iff) (simp_all add: rs list_all_iff del: min_less_iff_conj)
    have "scan_log date_ok rows latest ?u = Inr latest"
      using "1.IH" [OF True rs c "1.prems"(1)] "1.prems"(3) u by simp
    then show ?thesis using True rs c by (subst scan_log.simps) (simp del: check_rows.simps)
  next
    case False
    with "1.prems"(2) show ?thesis by (subst scan_log.simps) simp
  qed
qed

lemma validated_sound_idle:
  assumes "log_sound date_ok now s"
  shows "validated_latest_sequence date_ok hash now s = (Inr (cp_last s), s)"
proof -
  have b: "plane_base s" "complete_from date_ok (floor_at now s) s"
    using assms by (simp_all add: log_sound_def)
  obtain ret where ret: "read_retention_state now s = Inr ret" "rt_latest ret = cp_last s" "rt_pruned ret = floor_at now s"
    using retention_read [OF b(1)] .
  have "scan_log date_ok (cp_log s) (cp_last s) (floor_at now s) = Inr (cp_last s)"
    using b floor_bounds(2) [OF b(1)] by (intro scan_log_complete) (auto simp: plane_base_def complete_from_def)
  with ret show ?thesis by (simp add: validated_latest_sequence_def)
qed

section \<open>Publishing\<close>

definition published :: "string \<Rightarrow> publish_input \<Rightarrow> control_plane \<Rightarrow> control_plane \<Rightarrow> bool" where
  "published key inp s s' \<longleftrightarrow> cp_log s' = cp_log s
     \<or> (\<exists>row. cp_log s' = cp_log s @ [row] \<and> sr_key row = key \<and> same_content inp row \<and> key \<notin> sr_key ` set (cp_log s))"

lemma published_trans: "published key inp s t \<Longrightarrow> published key inp t u \<Longrightarrow> published key inp s u"
  by (fastforce simp: published_def)

lemma publish_once_published:
  assumes "publish_once date_ok hours inp event_id key a s = (res, s')"
  shows "published key inp s s'"
    and "res = Inr r \<Longrightarrow> \<exists>row \<in> set (cp_log s'). sr_key row = key \<and> same_content inp row \<and> parse_stored_event date_ok row = Some r"
proof -
  have i: "published key inp s s1 \<and> (\<exists>row \<in> set (cp_log s1). sr_key row = key \<and> same_content inp row
      \<and> parse_stored_event date_ok row = Some r)"
    if "insert_event date_ok hours (fst a) inp event_id key s = Inr (r, b, s1)" for r b s1
    using that
  proof (cases rule: insert_event_parts)
    case (new row)
    have "sr_key row = key" "same_content inp row" using new_row_content by (simp_all add: new(2)) (simp add: new_row_def)
    with new(3,6,7) show ?thesis by (auto simp: published_def)
  qed (auto simp: published_def)
  have f: "published key inp s (t\<lparr>cp_signals := x\<rparr>) = published key inp s t" for t x by (simp add: published_def)
  show "published key inp s s'"
    using publish_once_states [OF assms] i by (auto simp: f) (simp add: published_def)
  assume "res = Inr r"
  then obtain b s1 where "insert_event date_ok hours (fst a) inp event_id key s = Inr (r, b, s1)" "cp_log s' = cp_log s1"
    using assms by (auto simp: publish_once_def Let_def split: sum.splits attempt_fault.splits prod.splits if_splits)
  with i show "\<exists>row \<in> set (cp_log s'). sr_key row = key \<and> same_content inp row \<and> parse_stored_event date_ok row = Some r"
    by metis
qed

lemma publish_loop_published:
  "publish_loop date_ok hours inp event_id key a rest s = (res, s') \<Longrightarrow> published key inp s s'
     \<and> (\<forall>r. res = Inr r \<longrightarrow> (\<exists>row \<in> set (cp_log s'). sr_key row = key \<and> same_content inp row
          \<and> parse_stored_event date_ok row = Some r))"
proof (induction rest arbitrary: a s)
  case Nil
  then have "publish_once date_ok hours inp event_id key a s = (res, s')" by (auto split: prod.splits sum.splits)
  then show ?case using publish_once_published by blast
next
  case (Cons b rest)
  obtain r1 s1 where o: "publish_once date_ok hours inp event_id key a s = (r1, s1)" by fastforce
  show ?case
  proof (cases "\<exists>e. r1 = Inl e \<and> retryable_publish_error e")
    case True
    then have "publish_loop date_ok hours inp event_id key b rest s1 = (res, s')" using Cons.prems o by auto
    from Cons.IH [OF this] publish_once_published(1) [OF o] published_trans show ?thesis by blast
  next
    case False
    then have "(r1, s1) = (res, s')" using Cons.prems o by (auto split: sum.splits if_splits)
    then have "publish_once date_ok hours inp event_id key a s = (res, s')" using o by simp
    then show ?thesis using publish_once_published by blast
  qed
qed

text \<open>C11: A replay never skips an event. Start from any log whose sequence row is in bounds, however
  many rows it has lost or spoilt; validate it, then let publications, prunings, validations
  and time pass; the read of the window succeeds, and it either tells a cursor below the
  floor that it is too old or returns exactly the next events after the cursor, one for each
  number, in order, up to the limit, each read from the log.\<close>

theorem replay_is_complete:
  assumes "plane_base s"
    and "(plane_step date_ok hash)\<^sup>*\<^sup>* (t1, snd (validated_latest_sequence date_ok hash t1 s)) (t2, s2)"
    and "between (snd (validated_latest_sequence date_ok hash t1 s)) = s2"
  shows "\<exists>ret es. replay_window date_ok hash t1 t2 between c limit s = (Inr (ret, es), s2)
    \<and> rt_latest ret = cp_last s2
    \<and> (if c < rt_pruned ret then es = []
       else map er_sequence es = take (nat (max 1 (min limit 2000))) [c + 1..cp_last s2]
         \<and> (\<forall>e \<in> set es. \<exists>r \<in> set (cp_log s2). parse_stored_event date_ok r = Some e))"
proof -
  obtain n s1 where v: "validated_latest_sequence date_ok hash t1 s = (Inr n, s1)" "log_sound date_ok t1 s1"
    using validated_sound [OF assms(1)] by metis
  with plane_steps_sound [OF assms(2)] have "log_sound date_ok t2 s2" by simp
  then obtain ret es where r: "replay_read date_ok t2 c limit s2 = Inr (ret, es)" "rt_latest ret = cp_last s2"
    "rt_pruned ret = floor_at t2 s2"
    "if c < floor_at t2 s2 then es = [] else events_after date_ok c (max 1 (min limit MAX_REPLAY_BATCH)) s2 es"
    by (rule replay_read_complete)
  from v(1) assms(3) r(1) have "replay_window date_ok hash t1 t2 between c limit s = (Inr (ret, es), s2)"
    by (simp add: replay_window_def)
  with r(2-4) show ?thesis
    unfolding events_after_def MAX_REPLAY_BATCH_def by (intro exI [of _ ret] exI [of _ es]) simp
qed

text \<open>Publishing stores an event at most once. Whatever happens to the three attempts, statements
  that fail, acknowledgements of a commit that are lost with the transaction durable or not,
  the log is unchanged or has one new row, which carries the deduplication key and the content
  of the input, and whose key was not in the log; and an event that is returned is one that
  the log holds under that key with that content.\<close>

theorem publish_at_most_once:
  assumes "parse_publish_input date_ok v = Some inp" "publish date_ok hours event_id v a1 a2 a3 s = (res, s')"
  defines "key \<equiv> deduplication_key inp event_id"
  shows "(cp_log s' = cp_log s \<or> (\<exists>row. cp_log s' = cp_log s @ [row] \<and> sr_key row = key \<and> same_content inp row
        \<and> key \<notin> sr_key ` set (cp_log s)))
    \<and> (\<forall>r. res = Inr r \<longrightarrow> (\<exists>row \<in> set (cp_log s'). sr_key row = key \<and> same_content inp row
        \<and> parse_stored_event date_ok row = Some r))"
proof -
  have "publish_loop date_ok hours inp event_id key a1 [a2, a3] s = (res, s')"
    using assms(1,2) unfolding publish_def key_def by (simp del: publish_loop.simps)
  from publish_loop_published [OF this] show ?thesis by (simp add: published_def)
qed

text \<open>Pruning is invisible: at the time it runs, and whichever rows other transactions hold, a
  replay answers after it what it answered before.\<close>

theorem pruning_is_invisible:
  assumes "plane_base s"
  shows "replay_read date_ok now c limit (snd (prune_expired now locked s)) = replay_read date_ok now c limit s"
proof -
  let ?s = "snd (prune_expired now locked s)"
  have d: "distinct (map sr_sequence (cp_log s))" using assms by (simp add: plane_base_def)
  have l: "filter (\<lambda>r. now < sr_expires_at r) (cp_log ?s) = filter (\<lambda>r. now < sr_expires_at r) (cp_log s)"
    by (rule prune_live [OF d])
  have p: "filter (\<lambda>r. c < sr_sequence r \<and> sr_sequence r \<le> n \<and> now < sr_expires_at r) (cp_log ?s)
      = filter (\<lambda>r. c < sr_sequence r \<and> sr_sequence r \<le> n \<and> now < sr_expires_at r) (cp_log s)" for n
    by (rule prune_live [OF d]) simp
  have "read_retention_state now ?s = read_retention_state now s"
  proof -
    have e: "cp_last ?s = cp_last s" by (simp add: prune_expired_state)
    have "max_of 0 (map sr_sequence (cp_log x)) \<le> cp_last x" if "plane_base x" for x
      using that by (auto simp: max_of_le plane_base_def)
    from this [OF assms] this [OF prune_base [OF assms, of now locked]] show ?thesis
      unfolding read_retention_state_def Let_def floor_at_def [symmetric] prune_floor l e
      by (simp add: not_less)
  qed
  then show ?thesis
    by (cases "read_retention_state now s") (simp_all add: replay_read_def read_rows_def p)
qed

section \<open>Two runs\<close>

definition sample_plane :: control_plane where
  "sample_plane = \<lparr>cp_last = 0, cp_pruned = 0, cp_log = [], cp_quarantine = [], cp_next_quarantine = 1,
     cp_signals = []\<rparr>"

definition sample_uuid :: string where "sample_uuid = ''6f1c2a34-5b6d-4e7f-8a90-b1c2d3e4f506''"

definition sample_input :: publish_input where
  "sample_input = \<lparr>pi_event = ''audit:new'', pi_payload = JObj [(''auditId'', JStr ''17'')],
     pi_targets = [SubCapability AUDIT_READ], pi_stream_id = ''rt:capability:audit:read'',
     pi_key = Some ''audit:new:17''\<rparr>"

lemma sample_facts:
  "uuid_shape sample_uuid" "js_trim (pi_stream_id sample_input) \<noteq> []"
  "deduplication_key sample_input sample_uuid = ''audit:new:17''"
  by code_simp+

lemma sample_row_parses:
  assumes "0 < n"
  shows "parse_stored_event (\<lambda>_. True) (new_row sample_input sample_uuid key n t) = Some \<lparr>er_sequence = n,
     er_event_id = sample_uuid, er_stream_id = pi_stream_id sample_input, er_event = pi_event sample_input,
     er_payload = pi_payload sample_input, er_targets = pi_targets sample_input\<rparr>"
proof -
  have "normal (pi_payload sample_input) = pi_payload sample_input" by (simp add: sample_input_def)
  then show ?thesis
    using assms sample_facts(1,2)
      stored_row_read_back [OF sample_audit_accepted [folded sample_input_def], of "new_row sample_input sample_uuid key n t"]
    by (simp add: new_row_def)
qed

lemma sample_insert:
  "insert_event (\<lambda>_. True) hours t sample_input sample_uuid ''audit:new:17'' sample_plane
     = Inr (\<lparr>er_sequence = 1, er_event_id = sample_uuid, er_stream_id = pi_stream_id sample_input,
         er_event = pi_event sample_input, er_payload = pi_payload sample_input,
         er_targets = pi_targets sample_input\<rparr>, True,
       sample_plane\<lparr>cp_last := 1, cp_log :=
         [new_row sample_input sample_uuid ''audit:new:17'' 1 (t + int hours * HOUR)]\<rparr>)"
  by (simp add: insert_event_def find_stored_event_def sample_plane_def sample_row_parses)

definition sample_between :: "control_plane \<Rightarrow> control_plane" where
  "sample_between s = snd (publish_once (\<lambda>_. True) (positive_int_env None DEFAULT_RETENTION_HOURS) sample_input
     sample_uuid ''audit:new:17'' (0, NoFault) s)"

lemma sample_plane_base: "plane_base sample_plane"
  by (simp add: plane_base_def sample_plane_def)

lemma sample_validated: "validated_latest_sequence (\<lambda>_. True) (\<lambda>_. []) 0 sample_plane = (Inr 0, sample_plane)"
  using validated_sound_idle [of "\<lambda>_. True" 0 sample_plane "\<lambda>_. []"] sample_plane_base
  by (simp add: log_sound_def complete_from_def floor_at_def sample_plane_def)

lemma sample_between_state:
  "cp_last (sample_between sample_plane) = 1" "cp_pruned (sample_between sample_plane) = 0"
  "floor_at 0 (sample_between sample_plane) = 0"
  by (simp_all add: sample_between_def publish_once_def sample_insert floor_at_def expired_rows_def new_row_def
      positive_int_env_def DEFAULT_RETENTION_HOURS_def) (simp_all add: sample_plane_def)

theorem replay_is_complete_witness:
  "\<exists>ret es. replay_window (\<lambda>_. True) (\<lambda>_. []) 0 0 sample_between 0 10 sample_plane
      = (Inr (ret, es), sample_between sample_plane) \<and> map er_sequence es = [1]"
proof -
  have "plane_step (\<lambda>_. True) (\<lambda>_. []) (0, sample_plane) (0, sample_between sample_plane)"
    unfolding sample_between_def by (rule plane_step.publication)
  then have s: "(plane_step (\<lambda>_. True) (\<lambda>_. []))\<^sup>*\<^sup>*
      (0, snd (validated_latest_sequence (\<lambda>_. True) (\<lambda>_. []) 0 sample_plane)) (0, sample_between sample_plane)"
    by (simp add: sample_validated)
  obtain ret es where r: "replay_window (\<lambda>_. True) (\<lambda>_. []) 0 0 sample_between 0 10 sample_plane
      = (Inr (ret, es), sample_between sample_plane)"
    "if 0 < rt_pruned ret then es = []
     else map er_sequence es = take (nat (max 1 (min 10 2000))) [0 + 1..cp_last (sample_between sample_plane)]"
    using replay_is_complete [OF sample_plane_base s, of sample_between 0 10]
    by (auto simp: sample_validated split: if_splits)
  have b: "plane_base (sample_between sample_plane)"
    by (simp add: sample_between_def publish_once_def sample_insert plane_base_def new_row_def)
      (simp add: sample_plane_def)
  have "rt_pruned ret = 0"
    using r(1) retention_read [OF b, of 0]
    by (auto simp: replay_window_def sample_validated replay_read_def sample_between_state split: if_splits sum.splits)
  with r show ?thesis by (simp add: sample_between_state)
qed

theorem publish_at_most_once_witness:
  "length (cp_log (snd (publish (\<lambda>_. True) 24 sample_uuid sample_audit_input (0, AckLost True ''40001'')
     (25, NoFault) (75, NoFault) sample_plane))) = 1"
proof -
  let ?p = "publish (\<lambda>_. True) 24 sample_uuid sample_audit_input (0, AckLost True ''40001'') (25, NoFault) (75, NoFault) sample_plane"
  have i: "parse_publish_input (\<lambda>_. True) sample_audit_input = Some sample_input"
    using sample_audit_accepted by (simp add: sample_input_def)
  obtain res s' where p: "?p = (res, s')" by fastforce
  have "cp_log s' = [] \<or> (\<exists>row. cp_log s' = [row])"
    using publish_at_most_once [OF i p] by (auto simp: sample_plane_def)
  moreover have "cp_log s' \<noteq> []"
  proof -
    obtain x s1 where o: "publish_once (\<lambda>_. True) 24 sample_input sample_uuid ''audit:new:17''
        (0, AckLost True ''40001'') sample_plane = (x, s1)" by fastforce
    then have s1: "x = Inl (RtTransport ''40001'')" "cp_log s1 \<noteq> []"
      by (auto simp: publish_once_def sample_insert)
    have "publish_loop (\<lambda>_. True) 24 sample_input sample_uuid ''audit:new:17'' (25, NoFault) [(75, NoFault)] s1 = (res, s')"
      using p o s1(1) i by (simp add: publish_def sample_facts(3))
    from publish_loop_published [OF this] s1(2) show ?thesis by (auto simp: published_def)
  qed
  ultimately show ?thesis using p by auto
qed

theorem pruning_is_invisible_witness:
  "replay_read (\<lambda>_. True) 5 0 10 (snd (prune_expired 5 [] sample_plane)) = replay_read (\<lambda>_. True) 5 0 10 sample_plane"
  using pruning_is_invisible [OF sample_plane_base] by simp

text \<open>\<open>readAfter\<close> has no such guarantee: it reads the floor and the rows in two statements, and an
  event that expires between the two is skipped in silence.\<close>

definition expiring_plane :: control_plane where
  "expiring_plane = sample_plane\<lparr>cp_last := 2, cp_log :=
     [new_row sample_input sample_uuid ''a'' 1 10, new_row sample_input sample_uuid ''b'' 2 20]\<rparr>"

lemma read_after_skips:
  "map_sum id (map er_sequence) (fst (read_after (\<lambda>_. True) (\<lambda>_. []) 5 5 15 id id 0 10 expiring_plane)) = Inr [2]"
proof -
  have r: "sr_sequence (new_row inp e k n t) = n" "sr_expires_at (new_row inp e k n t) = t" for inp e k n t
    by (simp_all add: new_row_def)
  have k: "k = 1 \<or> k = 2" if "0 < k" "k \<le> 2" for k :: int using that by auto
  have "scan_log (\<lambda>_. True) (cp_log expiring_plane) 2 0 = Inr 2"
    by (rule scan_log_complete) (auto simp: expiring_plane_def r sample_row_parses dest!: k)
  then show ?thesis
    by (simp add: read_after_def validated_latest_sequence_def read_retention_state_def expired_rows_def r
        expiring_plane_def sample_plane_def read_after_rows_def read_rows_def sample_row_parses MAX_READ_BATCH_def)
qed

end
