(* ===== verification/Realtime_Outbox.thy ===== *)
theory Realtime_Outbox
  imports Realtime_Replay
begin

text \<open>
  The transactional outbox of \<open>src/shared/realtime/realtime-control-plane.ts\<close> and the producers of
  \<open>realtime-outbox.service.ts\<close>: an event is queued by the transaction of the business change,
  with the next ordinal of its stream, and a worker moves one row at a time into the event
  log. The state holds the rows of \<open>erp_outbox_events\<close> of type \<open>REALTIME.DISPATCH\<close> and the table of
  the streams' next ordinals; the columns \<open>published_at\<close> and \<open>last_error\<close> are left out. Identifiers
  drawn at random are arguments.
\<close>

section \<open>The queue\<close>

datatype outbox_status = ObPending | ObFailed | ObPublished

record outbox_row =
  ox_id :: string
  ox_event_key :: string
  ox_payload :: json
  ox_correlation :: string
  ox_status :: outbox_status
  ox_created_at :: int
  ox_available_at :: "int option"
  ox_stream :: "string option"
  ox_ordinal :: "int option"
  ox_attempts :: nat

record outbox =
  ob_rows :: "outbox_row list"
  ob_next :: "string \<Rightarrow> int"

datatype enqueue_error = EnqTypeError | EnqKeyRequired | EnqInvalidInput | EnqKeyCollision
  | EnqInvalidTarget string

definition realtime_outbox_event_key :: "string \<Rightarrow> string" where
  "realtime_outbox_event_key key = ''realtime:'' @ key"

definition input_json :: "publish_input \<Rightarrow> json" where
  "input_json inp = JObj ([(''event'', JStr (pi_event inp)), (''payload'', pi_payload inp),
     (''targets'', JArr (map subscription_json (pi_targets inp))), (''streamId'', JStr (pi_stream_id inp))]
     @ (case pi_key inp of None \<Rightarrow> [] | Some k \<Rightarrow> [(''deduplicationKey'', JStr k)]))"

definition envelope_json :: "string \<Rightarrow> publish_input \<Rightarrow> json" where
  "envelope_json event_id inp =
     JObj [(''schemaVersion'', JNum ''1''), (''eventId'', JStr event_id), (''input'', input_json inp)]"

text \<open>\<open>payload -> 'input'\<close>.\<close>

fun payload_input :: "json \<Rightarrow> json" where
  "payload_input (JObj es) = member es ''input''"
| "payload_input _ = JUndefined"

definition same_input :: "publish_input \<Rightarrow> outbox_row \<Rightarrow> bool" where
  "same_input inp r \<longleftrightarrow> payload_input (ox_payload r) \<noteq> JUndefined
     \<and> normal (payload_input (ox_payload r)) = normal (input_json inp)"

definition with_key :: "(string \<times> json) list \<Rightarrow> string \<Rightarrow> (string \<times> json) list" where
  "with_key obj k = (''deduplicationKey'', JStr k) # filter (\<lambda>(n, _). n \<noteq> ''deduplicationKey'') obj"

definition enqueue_realtime_event ::
  "(string \<Rightarrow> bool) \<Rightarrow> int \<Rightarrow> string \<Rightarrow> string \<Rightarrow> (string \<times> json) list \<Rightarrow> outbox
     \<Rightarrow> enqueue_error + string \<times> outbox" where
  "enqueue_realtime_event date_ok now row_id event_id obj ob =
     (case member obj ''deduplicationKey'' of
        JStr k \<Rightarrow>
          (let key = js_trim k in
           if key = [] then Inl EnqKeyRequired
           else
             (case parse_publish_input date_ok (JObj (with_key obj key)) of
                None \<Rightarrow> Inl EnqInvalidInput
              | Some inp \<Rightarrow>
                  (case find (\<lambda>r. ox_event_key r = realtime_outbox_event_key key) (ob_rows ob) of
                     Some r \<Rightarrow> if same_input inp r then Inr (ox_correlation r, ob) else Inl EnqKeyCollision
                   | None \<Rightarrow>
                       (let stream = pi_stream_id inp;
                            row = \<lparr>ox_id = row_id, ox_event_key = realtime_outbox_event_key key,
                              ox_payload = normal (envelope_json event_id inp), ox_correlation = event_id,
                              ox_status = ObPending, ox_created_at = now, ox_available_at = Some now,
                              ox_stream = Some stream, ox_ordinal = Some (ob_next ob stream), ox_attempts = 0\<rparr>
                        in Inr (event_id, ob\<lparr>ob_rows := ob_rows ob @ [row],
                             ob_next := (ob_next ob)(stream := ob_next ob stream + 1)\<rparr>)))))
      | _ \<Rightarrow> Inl EnqTypeError)"

section \<open>The producers\<close>

definition is_entity_target :: "realtime_subscription \<Rightarrow> bool" where
  "is_entity_target t = (case t of SubEntity _ _ \<Rightarrow> True | _ \<Rightarrow> False)"

definition stream_for :: "realtime_subscription list \<Rightarrow> string option \<Rightarrow> string option" where
  "stream_for targets requested =
     (if truthy requested then requested
      else (case find is_entity_target targets of
              Some (SubEntity t i) \<Rightarrow> Some (''entity:'' @ t @ '':'' @ i)
            | _ \<Rightarrow> (case targets of [] \<Rightarrow> None | t # _ \<Rightarrow> Some (realtime_room_name t))))"

definition dispatch_input ::
  "string \<Rightarrow> json \<Rightarrow> realtime_subscription list \<Rightarrow> string \<Rightarrow> json \<Rightarrow> (string \<times> json) list" where
  "dispatch_input event payload targets stream key =
     [(''event'', JStr event), (''payload'', payload), (''targets'', JArr (map subscription_json targets)),
      (''streamId'', JStr stream), (''deduplicationKey'', key)]"

definition enqueue_dispatch ::
  "(string \<Rightarrow> bool) \<Rightarrow> int \<Rightarrow> string \<Rightarrow> string \<Rightarrow> string \<Rightarrow> json \<Rightarrow> realtime_subscription list \<Rightarrow> string option
     \<Rightarrow> json \<Rightarrow> outbox \<Rightarrow> enqueue_error + string \<times> outbox" where
  "enqueue_dispatch date_ok now row_id event_id event payload targets requested key ob =
     (if targets = [] then Inl (EnqInvalidTarget event)
      else (case stream_for targets requested of
              None \<Rightarrow> Inl (EnqInvalidTarget event)
            | Some stream \<Rightarrow>
                enqueue_realtime_event date_ok now row_id event_id (dispatch_input event payload targets stream key) ob))"

definition put_member :: "string \<Rightarrow> json \<Rightarrow> (string \<times> json) list \<Rightarrow> (string \<times> json) list" where
  "put_member k v obj = (if k \<in> fst ` set obj then map (\<lambda>(n, x). if n = k then (n, v) else (n, x)) obj
     else obj @ [(k, v)])"

definition enqueue_entity_changed ::
  "(string \<Rightarrow> bool) \<Rightarrow> int \<Rightarrow> string \<Rightarrow> string \<Rightarrow> (string \<times> json) list \<Rightarrow> string option \<Rightarrow> json \<Rightarrow> outbox
     \<Rightarrow> enqueue_error + string \<times> outbox" where
  "enqueue_entity_changed date_ok now row_id event_id p requested key ob =
     (case (module_realtime_subscription (text_of (member p ''module'')),
         entity_realtime_subscription (text_of (member p ''entityType'')) (text_of (member p ''entityId''))) of
        (Some (SubModule m), Some (SubEntity t i)) \<Rightarrow>
          if module_for_realtime_entity (member p ''entityType'') = Some m
          then enqueue_dispatch date_ok now row_id event_id ''entity:changed''
            (JObj (put_member ''entityType'' (JStr t) (put_member ''module'' (JStr m) p)))
            [SubModule m, SubEntity t i] requested key ob
          else Inl (EnqInvalidTarget ''entity:changed'')
      | _ \<Rightarrow> Inl (EnqInvalidTarget ''entity:changed''))"

definition enqueue_audit_new ::
  "(string \<Rightarrow> bool) \<Rightarrow> int \<Rightarrow> string \<Rightarrow> string \<Rightarrow> string \<Rightarrow> outbox \<Rightarrow> enqueue_error + string \<times> outbox" where
  "enqueue_audit_new date_ok now row_id event_id audit_id ob =
     enqueue_dispatch date_ok now row_id event_id ''audit:new'' (JObj [(''auditId'', JStr audit_id)])
       [SubCapability AUDIT_READ] None (JStr (''audit:new:'' @ audit_id)) ob"

definition enqueue_lock_updated ::
  "(string \<Rightarrow> bool) \<Rightarrow> int \<Rightarrow> string \<Rightarrow> string \<Rightarrow> (string \<times> json) list \<Rightarrow> string option \<Rightarrow> json \<Rightarrow> outbox
     \<Rightarrow> enqueue_error + string \<times> outbox" where
  "enqueue_lock_updated date_ok now row_id event_id p requested key ob =
     (case entity_realtime_subscription (text_of (member p ''entityType'')) (text_of (member p ''entityId'')) of
        None \<Rightarrow> Inl (EnqInvalidTarget ''lock:updated'')
      | Some t \<Rightarrow> enqueue_dispatch date_ok now row_id event_id ''lock:updated'' (JObj p) [t] requested key ob)"

text \<open>Notifications and chat: one user, and for a notification only the eleven fields of the contract.\<close>

definition NOTIFICATION_FIELDS :: "string list" where
  "NOTIFICATION_FIELDS = [''id'', ''user_id'', ''kind'', ''title'', ''message'', ''severity'', ''action_url'',
     ''action_label'', ''payload'', ''created_at'', ''read_at'']"

definition enqueue_app_notification ::
  "(string \<Rightarrow> bool) \<Rightarrow> int \<Rightarrow> string \<Rightarrow> string \<Rightarrow> nat \<Rightarrow> (string \<times> json) list \<Rightarrow> string option \<Rightarrow> json \<Rightarrow> outbox
     \<Rightarrow> enqueue_error + string \<times> outbox" where
  "enqueue_app_notification date_ok now row_id event_id user_id p requested key ob =
     enqueue_dispatch date_ok now row_id event_id ''app-notification:created''
       (JObj (map (\<lambda>k. (k, member p k)) NOTIFICATION_FIELDS)) [SubUser user_id] requested key ob"

definition enqueue_chat ::
  "(string \<Rightarrow> bool) \<Rightarrow> int \<Rightarrow> string \<Rightarrow> string \<Rightarrow> string \<Rightarrow> nat \<Rightarrow> (string \<times> json) list \<Rightarrow> string option \<Rightarrow> json
     \<Rightarrow> outbox \<Rightarrow> enqueue_error + string \<times> outbox" where
  "enqueue_chat date_ok now row_id event_id event user_id p requested key ob =
     enqueue_dispatch date_ok now row_id event_id event (JObj p) [SubUser user_id] requested key ob"

definition enqueue_module_event ::
  "(string \<Rightarrow> bool) \<Rightarrow> int \<Rightarrow> string \<Rightarrow> string \<Rightarrow> string \<Rightarrow> string \<Rightarrow> json \<Rightarrow> string option \<Rightarrow> json \<Rightarrow> outbox
     \<Rightarrow> enqueue_error + string \<times> outbox" where
  "enqueue_module_event date_ok now row_id event_id module_key event payload requested key ob =
     (case normalize_realtime_module_key (JStr module_key) of
        None \<Rightarrow> Inl (EnqInvalidTarget event)
      | Some k \<Rightarrow>
          (case module_realtime_subscription k of
             None \<Rightarrow> Inl (EnqInvalidTarget event)
           | Some t \<Rightarrow> enqueue_dispatch date_ok now row_id event_id event payload [t] requested key ob))"

section \<open>The worker\<close>

text \<open>The row the query picks: due, not held by another worker (\<open>locked\<close>), and with every earlier
  row of its stream published.\<close>

definition unpublished_predecessor :: "outbox_row list \<Rightarrow> outbox_row \<Rightarrow> bool" where
  "unpublished_predecessor rows c \<longleftrightarrow>
     (case (ox_stream c, ox_ordinal c) of
        (Some st, Some n) \<Rightarrow>
          list_ex (\<lambda>p. ox_stream p = Some st \<and> (case ox_ordinal p of None \<Rightarrow> False | Some m \<Rightarrow> m < n)
            \<and> ox_status p \<noteq> ObPublished) rows
      | _ \<Rightarrow> False)"

definition flush_candidates :: "int \<Rightarrow> string list \<Rightarrow> outbox_row list \<Rightarrow> outbox_row list" where
  "flush_candidates now locked rows =
     sort_key (\<lambda>r. (ox_created_at r, ox_id r))
       (filter (\<lambda>c. ox_status c \<noteq> ObPublished \<and> (case ox_available_at c of None \<Rightarrow> False | Some t \<Rightarrow> t \<le> now)
         \<and> \<not> unpublished_predecessor rows c \<and> ox_id c \<notin> set locked) rows)"

definition update_row :: "string \<Rightarrow> (outbox_row \<Rightarrow> outbox_row) \<Rightarrow> outbox \<Rightarrow> outbox" where
  "update_row i f ob = ob\<lparr>ob_rows := map (\<lambda>r. if ox_id r = i then f r else r) (ob_rows ob)\<rparr>"

definition mark_published :: "outbox_row \<Rightarrow> outbox_row" where
  "mark_published r = r\<lparr>ox_status := ObPublished, ox_attempts := ox_attempts r + 1\<rparr>"

definition quarantine_outbox ::
  "(json \<Rightarrow> string) \<Rightarrow> int \<Rightarrow> outbox_row \<Rightarrow> string \<Rightarrow> control_plane \<times> outbox \<Rightarrow> control_plane \<times> outbox" where
  "quarantine_outbox hash now row reason s =
     (snd (force_full_resync_barrier
        (record_quarantine hash now FromOutbox (ox_id row) None reason (ox_payload row) (fst s))),
      update_row (ox_id row)
        (\<lambda>r. (mark_published r)\<lparr>ox_available_at := None\<rparr>) (snd s))"

text \<open>After an error the row is marked by a statement of its own, unless it is already published.\<close>

definition mark_failed :: "int \<Rightarrow> string \<Rightarrow> outbox \<Rightarrow> outbox" where
  "mark_failed now i ob = update_row i
     (\<lambda>r. if ox_status r = ObPublished then r
        else r\<lparr>ox_status := ObFailed, ox_attempts := ox_attempts r + 1, ox_available_at := Some (now + 5000)\<rparr>) ob"

datatype flush_result = FlushIdle | FlushQuarantined | FlushPublished event_record | FlushFailed rt_error

definition commit_or_fail ::
  "int \<Rightarrow> string \<Rightarrow> attempt_fault \<Rightarrow> bool \<Rightarrow> flush_result \<Rightarrow> control_plane \<times> outbox \<Rightarrow> control_plane \<times> outbox
     \<Rightarrow> flush_result \<times> control_plane \<times> outbox" where
  "commit_or_fail now i fault marked res old new =
     (let failed = (\<lambda>code (p, ob). (FlushFailed (RtTransport code), p, if marked then mark_failed now i ob else ob))
      in case fault of
           NoFault \<Rightarrow> (res, new)
         | StatementFails code \<Rightarrow> failed code old
         | AckLost durable code \<Rightarrow> failed code (if durable then new else old))"

text \<open>One round of the loop of \<open>flushOutbox\<close>: \<open>fault\<close> is what happens to its transaction, \<open>marked\<close>
  whether the statement that marks a failure succeeds.\<close>

definition flush_one ::
  "(string \<Rightarrow> bool) \<Rightarrow> (json \<Rightarrow> string) \<Rightarrow> nat \<Rightarrow> int \<Rightarrow> string list \<Rightarrow> attempt_fault \<Rightarrow> bool
     \<Rightarrow> control_plane \<times> outbox \<Rightarrow> flush_result \<times> control_plane \<times> outbox" where
  "flush_one date_ok hash hours now locked fault marked s =
     (case flush_candidates now locked (ob_rows (snd s)) of
        [] \<Rightarrow> (FlushIdle, s)
      | row # _ \<Rightarrow>
          (case parse_outbox_envelope date_ok (ox_payload row) of
             None \<Rightarrow> commit_or_fail now (ox_id row) fault marked FlushQuarantined s
                 (quarantine_outbox hash now row ''INVALID_REALTIME_ENVELOPE'' s)
           | Some (event_id, inp) \<Rightarrow>
               if ox_stream row = Some (pi_stream_id inp)
                 \<and> (case ox_ordinal row of None \<Rightarrow> False | Some n \<Rightarrow> 0 < n)
               then (case insert_event date_ok hours now inp event_id (deduplication_key inp event_id) (fst s) of
                       Inl e \<Rightarrow> (FlushFailed e, fst s,
                         if marked then mark_failed now (ox_id row) (snd s) else snd s)
                     | Inr (r, inserted, p) \<Rightarrow>
                         commit_or_fail now (ox_id row) fault marked (FlushPublished r) s
                           (if inserted then p\<lparr>cp_signals := cp_signals p @ [SigEvent]\<rparr> else p,
                            update_row (ox_id row) mark_published (snd s)))
               else commit_or_fail now (ox_id row) fault marked FlushQuarantined s
                   (quarantine_outbox hash now row ''REALTIME_OUTBOX_STREAM_MISMATCH'' s)))"

text \<open>\<open>flushOutbox\<close>: at most \<open>limit\<close> rounds; the count of published rows, or the error.\<close>

fun flush_rounds ::
  "(string \<Rightarrow> bool) \<Rightarrow> (json \<Rightarrow> string) \<Rightarrow> nat \<Rightarrow> string list \<Rightarrow> (int \<times> attempt_fault \<times> bool) list \<Rightarrow> nat
     \<Rightarrow> control_plane \<times> outbox \<Rightarrow> (rt_error + nat) \<times> control_plane \<times> outbox" where
  "flush_rounds date_ok hash hours locked [] n s = (Inr n, s)"
| "flush_rounds date_ok hash hours locked ((now, fault, marked) # rounds) n s =
     (case flush_one date_ok hash hours now locked fault marked s of
        (FlushIdle, s1) \<Rightarrow> (Inr n, s1)
      | (FlushQuarantined, s1) \<Rightarrow> flush_rounds date_ok hash hours locked rounds n s1
      | (FlushPublished _, s1) \<Rightarrow> flush_rounds date_ok hash hours locked rounds (n + 1) s1
      | (FlushFailed e, s1) \<Rightarrow> (Inl e, s1))"

definition flush_outbox ::
  "(string \<Rightarrow> bool) \<Rightarrow> (json \<Rightarrow> string) \<Rightarrow> nat \<Rightarrow> string list \<Rightarrow> (nat \<Rightarrow> int \<times> attempt_fault \<times> bool) \<Rightarrow> int
     \<Rightarrow> control_plane \<times> outbox \<Rightarrow> (rt_error + nat) \<times> control_plane \<times> outbox" where
  "flush_outbox date_ok hash hours locked env limit s =
     flush_rounds date_ok hash hours locked (map env [0..<nat (max 1 (min limit (int MAX_READ_BATCH)))]) 0 s"

end
