(* ===== verification/Realtime_Delivery.thy ===== *)
theory Realtime_Delivery
  imports Realtime_Outbox
begin

text \<open>
  The outbox delivers in order: whatever the workers, their failures and the commits whose
  acknowledgement is lost, a row is published only after the earlier rows of its stream, and
  the events of a stream have, in the log, sequence numbers in the order in which they were
  queued. The lemmas on the enqueue side are shared with the producers of the application.
\<close>

section \<open>Members of a stored object\<close>

lemma map_of_normal:
  assumes "distinct (map fst es)"
  shows "map_of (map (\<lambda>(k, v). (k, normal v)) (sort_key fst (filter defined_member es))) k
    = (case map_of es k of None \<Rightarrow> None | Some v \<Rightarrow> if v = JUndefined then None else Some (normal v))"
    (is "map_of ?n k = _")
proof -
  have d: "distinct (map fst ?n)"
    using assms by (auto simp: comp_def case_prod_beta distinct_map intro: inj_on_subset)
  have s: "set ?n = {(k, normal v) | k v. (k, v) \<in> set es \<and> v \<noteq> JUndefined}" by force
  show ?thesis
  proof (cases "map_of es k")
    case None
    then have "k \<notin> fst ` set ?n" unfolding s by (force simp: map_of_eq_None_iff)
    then have "map_of ?n k = None" unfolding map_of_eq_None_iff .
    with None show ?thesis by simp
  next
    case (Some v)
    then have v: "(k, v) \<in> set es" by (rule map_of_SomeD)
    show ?thesis
    proof (cases "v = JUndefined")
      case True
      have "k \<notin> fst ` set ?n"
      proof
        assume "k \<in> fst ` set ?n"
        then obtain w where "(k, w) \<in> set es" "w \<noteq> JUndefined" unfolding s by auto
        with v True assms show False by (metis Pair_inject eq_key_imp_eq_value)
      qed
      then have "map_of ?n k = None" unfolding map_of_eq_None_iff .
      with Some True show ?thesis by simp
    next
      case False
      then have "(k, normal v) \<in> set ?n" using v unfolding s by blast
      then have "map_of ?n k = Some (normal v)" using d by simp
      with Some False show ?thesis by simp
    qed
  qed
qed

lemma member_normal:
  assumes "distinct (map fst es)" "normal (JObj es) = JObj es'"
  shows "member es' k = (if member es k = JUndefined then JUndefined else normal (member es k))"
proof -
  have "es' = map (\<lambda>(k, v). (k, normal v)) (sort_key fst (filter defined_member es))" using assms(2) by simp
  then show ?thesis
    using map_of_normal [OF assms(1), of k] by (simp add: member_def split: option.splits)
qed

lemma input_json_members:
  assumes "input_json inp = JObj es"
  shows "distinct (map fst es)" "member es ''event'' = JStr (pi_event inp)" "member es ''payload'' = pi_payload inp"
    "member es ''streamId'' = JStr (pi_stream_id inp)"
    "member es ''targets'' = JArr (map subscription_json (pi_targets inp))"
    "member es ''deduplicationKey'' = (case pi_key inp of None \<Rightarrow> JUndefined | Some k \<Rightarrow> JStr k)"
  using assms by (auto simp: input_json_def member_def split: option.splits)

text \<open>What the worker reads back of an envelope it accepts.\<close>

lemma envelope_read_back:
  assumes "parse_outbox_envelope date_ok (normal (envelope_json e inp)) = Some (e', inp')"
  shows "e' = e" "pi_key inp' = pi_key inp" "pi_stream_id inp' = pi_stream_id inp"
    "pi_event inp' = pi_event inp" "pi_payload inp' = normal (pi_payload inp) \<or> pi_payload inp = JUndefined"
proof -
  let ?env = "[(''schemaVersion'', JNum ''1''), (''eventId'', JStr e), (''input'', input_json inp)]"
  obtain es where es: "input_json inp = JObj es" by (simp add: input_json_def)
  obtain env where env: "normal (JObj ?env) = JObj env" by simp
  obtain es' where es': "normal (JObj es) = JObj es'" by simp
  have d: "distinct (map fst ?env)" by simp
  have "member ?env ''eventId'' = JStr e" "member ?env ''input'' = JObj es" by (simp_all add: member_def es)
  then have m: "member env ''eventId'' = JStr e" "member env ''input'' = JObj es'"
    using es' by (simp_all add: member_normal [OF d env] del: normal.simps(4))
  have mi: "member es' ''event'' = JStr (pi_event inp)" "member es' ''streamId'' = JStr (pi_stream_id inp)"
    "member es' ''payload'' = (if pi_payload inp = JUndefined then JUndefined else normal (pi_payload inp))"
    "member es' ''deduplicationKey'' = (case pi_key inp of None \<Rightarrow> JUndefined | Some k \<Rightarrow> JStr k)"
    by (simp_all add: member_normal [OF input_json_members(1) [OF es] es'] input_json_members(2-6) [OF es]
        split: option.splits)
  have p: "e' = e" "parse_publish_input date_ok (JObj es') = Some inp'"
    using assms by (auto simp: envelope_json_def env m simp del: normal.simps parse_publish_input.simps
        split: json.splits option.splits if_splits)
  then show "e' = e" "pi_stream_id inp' = pi_stream_id inp" "pi_event inp' = pi_event inp"
    "pi_payload inp' = normal (pi_payload inp) \<or> pi_payload inp = JUndefined"
    by (auto simp: mi simp del: normalize_stored_targets.simps input_key.simps split: option.splits if_splits)
  show "pi_key inp' = pi_key inp"
    using p(2) by (auto simp: mi simp del: normalize_stored_targets.simps split: option.splits if_splits)
qed

section \<open>Queueing\<close>

lemma enqueue_parts:
  assumes "enqueue_realtime_event date_ok now row_id event_id obj ob = Inr (e, ob')"
  obtains (old) k r where "ob' = ob" "r \<in> set (ob_rows ob)" "e = ox_correlation r"
      "member obj ''deduplicationKey'' = JStr k" "ox_event_key r = realtime_outbox_event_key (js_trim k)"
    | (new) k key inp row where "key \<noteq> []" "js_trim key = key" "pi_key inp = Some key"
      "parse_publish_input date_ok (JObj (with_key obj key)) = Some inp"
      "member obj ''deduplicationKey'' = JStr k" "key = js_trim k"
      "realtime_outbox_event_key key \<notin> ox_event_key ` set (ob_rows ob)"
      "row = \<lparr>ox_id = row_id, ox_event_key = realtime_outbox_event_key key,
         ox_payload = normal (envelope_json event_id inp), ox_correlation = event_id, ox_status = ObPending,
         ox_created_at = now, ox_available_at = Some now, ox_stream = Some (pi_stream_id inp),
         ox_ordinal = Some (ob_next ob (pi_stream_id inp)), ox_attempts = 0\<rparr>"
      "ob' = ob\<lparr>ob_rows := ob_rows ob @ [row],
         ob_next := (ob_next ob)(pi_stream_id inp := ob_next ob (pi_stream_id inp) + 1)\<rparr>"
proof -
  obtain k where k: "member obj ''deduplicationKey'' = JStr k" "js_trim k \<noteq> []"
    using assms by (auto simp: enqueue_realtime_event_def Let_def split: json.splits if_splits)
  let ?key = "js_trim k"
  obtain inp where inp: "parse_publish_input date_ok (JObj (with_key obj ?key)) = Some inp"
    using assms k by (auto simp: enqueue_realtime_event_def Let_def simp del: parse_publish_input.simps
        split: option.splits)
  have m: "member (with_key obj ?key) ''deduplicationKey'' = JStr ?key" by (simp add: with_key_def member_def)
  have pk: "pi_key inp = Some ?key" "js_trim ?key = ?key"
    using inp by (auto simp: m simp del: normalize_stored_targets.simps split: json.splits option.splits if_splits)
  show ?thesis
  proof (cases "find (\<lambda>r. ox_event_key r = realtime_outbox_event_key ?key) (ob_rows ob)")
    case (Some r)
    then have "r \<in> set (ob_rows ob)" "ox_event_key r = realtime_outbox_event_key ?key" by (auto simp: find_Some_iff)
    then show ?thesis
      using old assms k inp Some
      by (simp add: enqueue_realtime_event_def Let_def del: parse_publish_input.simps split: if_splits)
  next
    case None
    then have "realtime_outbox_event_key ?key \<notin> ox_event_key ` set (ob_rows ob)"
      by (auto simp: find_None_iff)
    moreover have "ob' = ob\<lparr>ob_rows := ob_rows ob @
        [\<lparr>ox_id = row_id, ox_event_key = realtime_outbox_event_key ?key,
         ox_payload = normal (envelope_json event_id inp), ox_correlation = event_id, ox_status = ObPending,
         ox_created_at = now, ox_available_at = Some now, ox_stream = Some (pi_stream_id inp),
         ox_ordinal = Some (ob_next ob (pi_stream_id inp)), ox_attempts = 0\<rparr>],
       ob_next := (ob_next ob)(pi_stream_id inp := ob_next ob (pi_stream_id inp) + 1)\<rparr>"
      using assms k inp None by (auto simp: enqueue_realtime_event_def Let_def simp del: parse_publish_input.simps)
    ultimately show ?thesis
      by (rule new [OF k(2) pk(2,1) inp k(1) refl, OF _ refl])
  qed
qed

lemma queued_key:
  assumes "pi_key inp = Some key" "js_trim key = key" "key \<noteq> []"
    "parse_outbox_envelope date_ok (normal (envelope_json event_id inp)) = Some (e', inp')"
  shows "deduplication_key inp' e' = key"
  using envelope_read_back(2) [OF assms(4)] assms(1-3) by (simp add: deduplication_key_def)

section \<open>The invariant\<close>

text \<open>\<open>before q r\<close>: the row \<open>q\<close> was queued before \<open>r\<close> on the same stream. A row of the log belongs to
  the row of the outbox with its key.\<close>

definition before :: "outbox_row \<Rightarrow> outbox_row \<Rightarrow> bool" where
  "before q r \<longleftrightarrow> ox_stream q = ox_stream r \<and> ox_stream r \<noteq> None \<and> ox_ordinal q \<noteq> None \<and> ox_ordinal r \<noteq> None
     \<and> the (ox_ordinal q) < the (ox_ordinal r)"

definition logged_as :: "stored_row \<Rightarrow> outbox_row \<Rightarrow> bool" where
  "logged_as l r \<longleftrightarrow> ox_event_key r = realtime_outbox_event_key (sr_key l)"

definition rows_ok :: "(string \<Rightarrow> bool) \<Rightarrow> outbox \<Rightarrow> bool" where
  "rows_ok date_ok ob \<longleftrightarrow> distinct (map ox_id (ob_rows ob)) \<and> distinct (map ox_event_key (ob_rows ob))
     \<and> (\<forall>r \<in> set (ob_rows ob).
          (\<exists>st n. ox_stream r = Some st \<and> ox_ordinal r = Some n \<and> 1 \<le> n \<and> n < ob_next ob st)
          \<and> (\<forall>e inp. parse_outbox_envelope date_ok (ox_payload r) = Some (e, inp) \<longrightarrow>
               ox_event_key r = realtime_outbox_event_key (deduplication_key inp e)))
     \<and> (\<forall>st. 1 \<le> ob_next ob st)"

definition fifo :: "outbox \<Rightarrow> bool" where
  "fifo ob \<longleftrightarrow> (\<forall>q \<in> set (ob_rows ob). \<forall>r \<in> set (ob_rows ob). before q r \<longrightarrow> ox_status r = ObPublished \<longrightarrow>
     ox_status q = ObPublished)"

definition logged_in_order :: "control_plane \<times> outbox \<Rightarrow> bool" where
  "logged_in_order s \<longleftrightarrow>
     (\<forall>l \<in> set (cp_log (fst s)). sr_sequence l \<le> cp_last (fst s)
        \<and> (\<exists>r \<in> set (ob_rows (snd s)). logged_as l r \<and> ox_status r = ObPublished))
     \<and> (\<forall>l \<in> set (cp_log (fst s)). \<forall>l' \<in> set (cp_log (fst s)). \<forall>q \<in> set (ob_rows (snd s)). \<forall>r \<in> set (ob_rows (snd s)).
          logged_as l q \<longrightarrow> logged_as l' r \<longrightarrow> before q r \<longrightarrow> sr_sequence l < sr_sequence l')"

definition delivery_ok :: "(string \<Rightarrow> bool) \<Rightarrow> control_plane \<times> outbox \<Rightarrow> bool" where
  "delivery_ok date_ok s \<longleftrightarrow> rows_ok date_ok (snd s) \<and> fifo (snd s) \<and> logged_in_order s"

lemma logged_in_orderD:
  assumes "logged_in_order (p, ob)" "l \<in> set (cp_log p)"
  shows "sr_sequence l \<le> cp_last p"
    and "\<exists>r \<in> set (ob_rows ob). logged_as l r \<and> ox_status r = ObPublished"
    and "l' \<in> set (cp_log p) \<Longrightarrow> q \<in> set (ob_rows ob) \<Longrightarrow> r \<in> set (ob_rows ob) \<Longrightarrow> logged_as l q \<Longrightarrow>
      logged_as l' r \<Longrightarrow> before q r \<Longrightarrow> sr_sequence l < sr_sequence l'"
  using assms by (auto simp: logged_in_order_def)

lemma event_key_inj [simp]: "realtime_outbox_event_key k = realtime_outbox_event_key k' \<longleftrightarrow> k = k'"
  by (simp add: realtime_outbox_event_key_def)

section \<open>Rows change their status only\<close>

definition same_slot :: "outbox_row \<Rightarrow> outbox_row \<Rightarrow> bool" where
  "same_slot r r' \<longleftrightarrow> ox_id r' = ox_id r \<and> ox_event_key r' = ox_event_key r \<and> ox_payload r' = ox_payload r
     \<and> ox_stream r' = ox_stream r \<and> ox_ordinal r' = ox_ordinal r"

lemma same_slot_before: "same_slot q q' \<Longrightarrow> same_slot r r' \<Longrightarrow> before q' r' = before q r"
  by (simp add: same_slot_def before_def)

lemma same_slot_logged: "same_slot r r' \<Longrightarrow> logged_as l r' = logged_as l r"
  by (simp add: same_slot_def logged_as_def)

lemma rows_ok_map:
  assumes "rows_ok date_ok ob" "\<And>r. same_slot r (g r)" "ob_rows ob' = map g (ob_rows ob)" "ob_next ob' = ob_next ob"
  shows "rows_ok date_ok ob'"
proof -
  have "map ox_id (ob_rows ob') = map ox_id (ob_rows ob)" "map ox_event_key (ob_rows ob') = map ox_event_key (ob_rows ob)"
    using assms(2) by (simp_all add: assms(3) same_slot_def)
  with assms(1,2) show ?thesis
    unfolding rows_ok_def assms(3,4) by (simp add: same_slot_def del: map_map)
qed

text \<open>Publishing one row, whose predecessors are published, or none.\<close>

lemma fifo_map:
  assumes "fifo ob" "\<And>r. same_slot r (g r)" "ob_rows ob' = map g (ob_rows ob)"
    and "\<And>r. r \<in> set (ob_rows ob) \<Longrightarrow> ox_status r = ObPublished \<Longrightarrow> ox_status (g r) = ObPublished"
    and "\<And>r q. r \<in> set (ob_rows ob) \<Longrightarrow> ox_status r \<noteq> ObPublished \<Longrightarrow> ox_status (g r) = ObPublished \<Longrightarrow>
      q \<in> set (ob_rows ob) \<Longrightarrow> before q r \<Longrightarrow> ox_status q = ObPublished"
  shows "fifo ob'"
  unfolding fifo_def
proof (intro ballI impI)
  fix q' r' assume h: "q' \<in> set (ob_rows ob')" "r' \<in> set (ob_rows ob')" "before q' r'" "ox_status r' = ObPublished"
  from h(1,2) obtain q r where qr: "q \<in> set (ob_rows ob)" "r \<in> set (ob_rows ob)" "q' = g q" "r' = g r"
    by (auto simp: assms(3))
  have b: "before q r" using h(3) same_slot_before [OF assms(2,2)] by (simp add: qr)
  have "ox_status q = ObPublished"
  proof (cases "ox_status r = ObPublished")
    case True
    with assms(1) qr b show ?thesis by (auto simp: fifo_def)
  next
    case False
    with assms(5) qr b h(4) show ?thesis by blast
  qed
  with assms(4) qr show "ox_status q' = ObPublished" by blast
qed

lemma logged_in_order_map:
  assumes "logged_in_order (p, ob)" "\<And>r. same_slot r (g r)" "ob_rows ob' = map g (ob_rows ob)"
    and "\<And>r. r \<in> set (ob_rows ob) \<Longrightarrow> ox_status r = ObPublished \<Longrightarrow> ox_status (g r) = ObPublished"
    and "set (cp_log p') \<subseteq> set (cp_log p)" "cp_last p \<le> cp_last p'"
  shows "logged_in_order (p', ob')"
  unfolding logged_in_order_def fst_conv snd_conv
proof (intro conjI ballI impI)
  fix l assume l: "l \<in> set (cp_log p')"
  then have l': "l \<in> set (cp_log p)" using assms(5) by blast
  from logged_in_orderD(1) [OF assms(1) l'] assms(6) show "sr_sequence l \<le> cp_last p'" by simp
  from logged_in_orderD(2) [OF assms(1) l'] obtain r
    where r: "r \<in> set (ob_rows ob)" "logged_as l r" "ox_status r = ObPublished" by blast
  have "g r \<in> set (ob_rows ob')" using r(1) by (simp add: assms(3))
  moreover have "logged_as l (g r)" using r(2) same_slot_logged [OF assms(2)] by simp
  ultimately show "\<exists>r \<in> set (ob_rows ob'). logged_as l r \<and> ox_status r = ObPublished"
    using assms(4) [OF r(1,3)] by blast
next
  fix l l' q' r' assume l: "l \<in> set (cp_log p')" "l' \<in> set (cp_log p')"
    and h: "q' \<in> set (ob_rows ob')" "r' \<in> set (ob_rows ob')" "logged_as l q'" "logged_as l' r'" "before q' r'"
  from h(1,2) obtain q r where qr: "q \<in> set (ob_rows ob)" "r \<in> set (ob_rows ob)" "q' = g q" "r' = g r"
    by (auto simp: assms(3))
  have "l \<in> set (cp_log p)" "l' \<in> set (cp_log p)" using l assms(5) by blast+
  moreover have "logged_as l q" "logged_as l' r" "before q r"
    using h(3-5) same_slot_logged [OF assms(2)] same_slot_before [OF assms(2,2)] by (simp_all add: qr)
  ultimately show "sr_sequence l < sr_sequence l'" using logged_in_orderD(3) [OF assms(1)] qr(1,2) by blast
qed

lemma delivery_ok_map:
  assumes "delivery_ok date_ok (p, ob)" "\<And>r. same_slot r (g r)" "ob_rows ob' = map g (ob_rows ob)"
    and "ob_next ob' = ob_next ob"
    and "\<And>r. r \<in> set (ob_rows ob) \<Longrightarrow> ox_status r = ObPublished \<Longrightarrow> ox_status (g r) = ObPublished"
    and "\<And>r q. r \<in> set (ob_rows ob) \<Longrightarrow> ox_status r \<noteq> ObPublished \<Longrightarrow> ox_status (g r) = ObPublished \<Longrightarrow>
      q \<in> set (ob_rows ob) \<Longrightarrow> before q r \<Longrightarrow> ox_status q = ObPublished"
    and "set (cp_log p') \<subseteq> set (cp_log p)" "cp_last p \<le> cp_last p'"
  shows "delivery_ok date_ok (p', ob')"
proof -
  have ok: "rows_ok date_ok ob" "fifo ob" "logged_in_order (p, ob)"
    using assms(1) by (simp_all add: delivery_ok_def)
  show ?thesis
    unfolding delivery_ok_def snd_conv
    by (intro conjI rows_ok_map [OF ok(1) assms(2-4)] fifo_map [OF ok(2) assms(2,3,5,6)]
        logged_in_order_map [OF ok(3) assms(2,3,5,7,8)])
qed

section \<open>Every step keeps it\<close>

lemma row_by_key:
  assumes "rows_ok date_ok ob" "q \<in> set (ob_rows ob)" "r \<in> set (ob_rows ob)" "ox_event_key q = ox_event_key r"
  shows "q = r"
  using assms by (auto simp: rows_ok_def distinct_map dest: inj_onD)

lemma row_by_id:
  assumes "rows_ok date_ok ob" "q \<in> set (ob_rows ob)" "r \<in> set (ob_rows ob)" "ox_id q = ox_id r"
  shows "q = r"
  using assms by (auto simp: rows_ok_def distinct_map dest: inj_onD)

lemma row_ordinal:
  assumes "rows_ok date_ok ob" "r \<in> set (ob_rows ob)"
  obtains st n where "ox_stream r = Some st" "ox_ordinal r = Some n" "1 \<le> n" "n < ob_next ob st"
  using assms unfolding rows_ok_def by blast

lemma enqueue_ok:
  assumes "delivery_ok date_ok (p, ob)" "enqueue_realtime_event date_ok now row_id event_id obj ob = Inr (e, ob')"
    "row_id \<notin> ox_id ` set (ob_rows ob)"
  shows "delivery_ok date_ok (p, ob')"
  using assms(2)
proof (cases rule: enqueue_parts)
  case (new k key inp row)
  have ok: "rows_ok date_ok ob" "fifo ob" "logged_in_order (p, ob)"
    using assms(1) by (simp_all add: delivery_ok_def)
  have rows: "ob_rows ob' = ob_rows ob @ [row]" by (simp add: new(9))
  have row: "ox_id row = row_id" "ox_event_key row = realtime_outbox_event_key key"
    "ox_payload row = normal (envelope_json event_id inp)" "ox_status row = ObPending"
    "ox_stream row = Some (pi_stream_id inp)" "ox_ordinal row = Some (ob_next ob (pi_stream_id inp))"
    by (simp_all add: new(8))
  have later: "\<not> before row r" if r: "r \<in> set (ob_rows ob)" for r
  proof -
    obtain st n where "ox_stream r = Some st" "ox_ordinal r = Some n" "n < ob_next ob st"
      using row_ordinal [OF ok(1) r] .
    then show ?thesis by (auto simp: before_def row)
  qed
  have unlogged: "\<not> logged_as l row" if l: "l \<in> set (cp_log p)" for l
    using logged_in_orderD(2) [OF ok(3) l] new(7) by (auto simp: logged_as_def row image_iff)
  have "rows_ok date_ok ob'"
    unfolding rows_ok_def rows
  proof (intro conjI ballI)
    show "distinct (map ox_id (ob_rows ob @ [row]))" "distinct (map ox_event_key (ob_rows ob @ [row]))"
      using ok(1) assms(3) new(7) by (simp_all add: rows_ok_def row)
    have le: "ob_next ob st \<le> ob_next ob' st" for st by (simp add: new(9))
    fix r assume "r \<in> set (ob_rows ob @ [row])"
    then have "r \<in> set (ob_rows ob) \<or> r = row" by auto
    then consider "r \<in> set (ob_rows ob)" | "r = row" by blast
    then show "\<exists>st n. ox_stream r = Some st \<and> ox_ordinal r = Some n \<and> 1 \<le> n \<and> n < ob_next ob' st"
    proof cases
      case 1
      from ok(1) this obtain st n where "ox_stream r = Some st" "ox_ordinal r = Some n" "1 \<le> n" "n < ob_next ob st"
        by (rule row_ordinal)
      with le [of st] show ?thesis by auto
    next
      case 2
      have "1 \<le> ob_next ob (pi_stream_id inp)" using ok(1) unfolding rows_ok_def by blast
      then show ?thesis by (simp add: 2 row new(9))
    qed
    show "\<forall>e inp. parse_outbox_envelope date_ok (ox_payload r) = Some (e, inp) \<longrightarrow>
        ox_event_key r = realtime_outbox_event_key (deduplication_key inp e)"
    proof (intro allI impI)
      fix e' inp' assume p: "parse_outbox_envelope date_ok (ox_payload r) = Some (e', inp')"
      show "ox_event_key r = realtime_outbox_event_key (deduplication_key inp' e')"
        using \<open>r \<in> set (ob_rows ob) \<or> r = row\<close>
      proof
        assume "r \<in> set (ob_rows ob)"
        with ok(1) p show ?thesis by (simp add: rows_ok_def)
      next
        assume "r = row"
        with p have "parse_outbox_envelope date_ok (normal (envelope_json event_id inp)) = Some (e', inp')"
          by (simp only: row)
        from queued_key [OF new(3,2,1) this] \<open>r = row\<close> show ?thesis by (simp add: row)
      qed
    qed
  next
    have n: "1 \<le> ob_next ob st" for st using ok(1) by (simp add: rows_ok_def)
    show "\<forall>st. 1 \<le> ob_next ob' st" using n order_trans [OF zero_le_one n] by (simp add: new(9))
  qed
  moreover have "fifo ob'"
    using ok(2) later row(4) by (auto simp: fifo_def rows)
  moreover have "logged_in_order (p, ob')"
    using ok(3) unlogged unfolding logged_in_order_def fst_conv snd_conv rows by auto
  ultimately show ?thesis by (simp add: delivery_ok_def)
qed (use assms(1) in simp)

lemma mark_failed_ok:
  assumes "delivery_ok date_ok (p, ob)"
  shows "delivery_ok date_ok (p, mark_failed now i ob)"
proof (rule delivery_ok_map [OF assms])
  let ?f = "\<lambda>r. if ox_status r = ObPublished then r else r\<lparr>ox_status := ObFailed, ox_attempts := ox_attempts r + 1,
      ox_available_at := Some (now + 5000)\<rparr>"
  show "ob_rows (mark_failed now i ob) = map (\<lambda>r. if ox_id r = i then ?f r else r) (ob_rows ob)"
    by (simp add: mark_failed_def update_row_def)
qed (auto simp: mark_failed_def update_row_def same_slot_def split: if_splits)

lemma commit_or_fail_ok:
  assumes "delivery_ok date_ok old" "delivery_ok date_ok new"
  shows "delivery_ok date_ok (snd (commit_or_fail now i fault marked res old new))"
  using assms mark_failed_ok by (cases old; cases new) (simp add: commit_or_fail_def Let_def split: attempt_fault.splits)

lemma candidate_facts:
  assumes "flush_candidates now locked rows = row # others"
  shows "row \<in> set rows" "ox_status row \<noteq> ObPublished"
    "q \<in> set rows \<Longrightarrow> before q row \<Longrightarrow> ox_status q = ObPublished"
proof -
  have "row \<in> set (flush_candidates now locked rows)" by (simp add: assms)
  then have r: "row \<in> set rows" "ox_status row \<noteq> ObPublished" "\<not> unpublished_predecessor rows row"
    by (simp_all add: flush_candidates_def)
  then show "row \<in> set rows" "ox_status row \<noteq> ObPublished" by simp_all
  assume q: "q \<in> set rows" "before q row"
  then show "ox_status q = ObPublished"
    using r(3) by (auto simp: unpublished_predecessor_def before_def list_ex_iff split: option.splits)
qed

text \<open>Publishing the candidate, with a log that has not grown.\<close>

lemma publish_row_ok:
  assumes "delivery_ok date_ok (p, ob)" "flush_candidates now locked (ob_rows ob) = row # others"
    and "\<And>r. same_slot r (f r)" "set (cp_log p') \<subseteq> set (cp_log p)" "cp_last p \<le> cp_last p'"
    and "\<And>r. ox_status (f r) = ObPublished"
  shows "delivery_ok date_ok (p', update_row (ox_id row) f ob)"
proof (rule delivery_ok_map [OF assms(1) _ _ _ _ _ assms(4,5)])
  let ?g = "\<lambda>r. if ox_id r = ox_id row then f r else r"
  have ok: "rows_ok date_ok ob" using assms(1) by (simp add: delivery_ok_def)
  show "same_slot r (?g r)" for r using assms(3) by (simp add: same_slot_def)
  show "ob_rows (update_row (ox_id row) f ob) = map ?g (ob_rows ob)"
    "ob_next (update_row (ox_id row) f ob) = ob_next ob" by (simp_all add: update_row_def)
  show "ox_status (?g r) = ObPublished" if "ox_status r = ObPublished" for r using that assms(6) by simp
  fix r q assume r: "r \<in> set (ob_rows ob)" "ox_status r \<noteq> ObPublished" "ox_status (?g r) = ObPublished"
    "q \<in> set (ob_rows ob)" "before q r"
  then have "r = row" using row_by_id [OF ok] candidate_facts(1) [OF assms(2)] by (auto split: if_splits)
  with r(4,5) candidate_facts(3) [OF assms(2)] show "ox_status q = ObPublished" by blast
qed

lemma signals_ok [simp]: "delivery_ok date_ok (p\<lparr>cp_signals := x\<rparr>, ob) = delivery_ok date_ok (p, ob)"
  by (simp add: delivery_ok_def logged_in_order_def)

lemma same_slot_published: "same_slot r (mark_published r)" "ox_status (mark_published r) = ObPublished"
  by (simp_all add: same_slot_def mark_published_def)

text \<open>Publishing the candidate with its event.\<close>

lemma insert_row_ok:
  assumes d: "delivery_ok date_ok (p, ob)" and c: "flush_candidates now locked (ob_rows ob) = row # others"
    and e: "parse_outbox_envelope date_ok (ox_payload row) = Some (event_id, inp)"
    and i: "insert_event date_ok hours now inp event_id (deduplication_key inp event_id) p = Inr (r, inserted, p1)"
  shows "delivery_ok date_ok (p1, update_row (ox_id row) mark_published ob)"
  using i
proof (cases rule: insert_event_parts)
  case (old l)
  with publish_row_ok [OF d c same_slot_published(1) subset_refl order_refl same_slot_published(2)] show ?thesis by simp
next
  case (new l)
  let ?ob = "update_row (ox_id row) mark_published ob"
  let ?g = "\<lambda>r. if ox_id r = ox_id row then mark_published r else r"
  have ok: "rows_ok date_ok ob" "fifo ob" "logged_in_order (p, ob)"
    using d by (simp_all add: delivery_ok_def)
  have d': "delivery_ok date_ok (p, ?ob)"
    by (rule publish_row_ok [OF d c same_slot_published(1) subset_refl order_refl same_slot_published(2)])
  then have ok': "rows_ok date_ok ?ob" "fifo ?ob" "logged_in_order (p, ?ob)" by (simp_all add: delivery_ok_def)
  have row: "row \<in> set (ob_rows ob)" "ox_status row \<noteq> ObPublished" using candidate_facts [OF c] by simp_all
  have rows: "ob_rows ?ob = map ?g (ob_rows ob)" by (simp add: update_row_def)
  have slot: "same_slot r (?g r)" for r using same_slot_published(1) by (simp add: same_slot_def)
  have key: "ox_event_key row = realtime_outbox_event_key (sr_key l)"
    using ok(1) row(1) e by (simp add: rows_ok_def new(2) new_row_def)
  have l: "logged_as l x \<longleftrightarrow> x = row" if "x \<in> set (ob_rows ob)" for x
    using row_by_key [OF ok(1) that row(1)] key by (auto simp: logged_as_def)
  have seq: "sr_sequence l = cp_last p + 1" by (simp add: new(2) new_row_def)
  have log: "set (cp_log p1) = insert l (set (cp_log p))" "cp_last p1 = cp_last p + 1" by (simp_all add: new(7))
  have below: "sr_sequence x \<le> cp_last p" if "x \<in> set (cp_log p)" for x
    using logged_in_orderD(1) [OF ok(3) that] .
  have "logged_in_order (p1, ?ob)"
    unfolding logged_in_order_def fst_conv snd_conv
  proof (intro conjI ballI impI)
    fix x assume x: "x \<in> set (cp_log p1)"
    show "sr_sequence x \<le> cp_last p1" using x below seq by (fastforce simp: log)
    show "\<exists>r \<in> set (ob_rows ?ob). logged_as x r \<and> ox_status r = ObPublished"
    proof (cases "x = l")
      case True
      have "?g row \<in> set (ob_rows ?ob)" "logged_as x (?g row)" "ox_status (?g row) = ObPublished"
        using row(1) l [OF row(1)] same_slot_logged [OF slot, of x row] same_slot_published(2) True
        by (simp_all add: rows image_eqI [of _ ?g row] del: image_iff)
      then show ?thesis by blast
    next
      case False
      with x have "x \<in> set (cp_log p)" by (simp add: log)
      from logged_in_orderD(2) [OF ok'(3) this] show ?thesis .
    qed
  next
    fix x y q' r' assume h: "x \<in> set (cp_log p1)" "y \<in> set (cp_log p1)" "q' \<in> set (ob_rows ?ob)" "r' \<in> set (ob_rows ?ob)"
      "logged_as x q'" "logged_as y r'" "before q' r'"
    from h(3,4) obtain q r where qr: "q \<in> set (ob_rows ob)" "r \<in> set (ob_rows ob)" "q' = ?g q" "r' = ?g r"
      by (auto simp: rows)
    have h': "logged_as x q" "logged_as y r" "before q r"
      using h(5-7) same_slot_logged [OF slot] same_slot_before [OF slot slot] unfolding qr(3,4) by blast+
    show "sr_sequence x < sr_sequence y"
    proof (cases "y = l")
      case True
      then have "x \<noteq> l" using h' l [OF qr(1)] l [OF qr(2)] by (auto simp: before_def)
      then have "x \<in> set (cp_log p)" using h(1) by (simp add: log)
      from below [OF this] seq True show ?thesis by simp
    next
      case False
      then have y: "y \<in> set (cp_log p)" using h(2) by (simp add: log)
      show ?thesis
      proof (cases "x = l")
        case True
        then have "q = row" using h'(1) l [OF qr(1)] by simp
        obtain r0 where r0: "r0 \<in> set (ob_rows ob)" "logged_as y r0" "ox_status r0 = ObPublished"
          using logged_in_orderD(2) [OF ok(3) y] by blast
        with h'(2) qr(2) have "r = r0" using row_by_key [OF ok(1)] by (simp add: logged_as_def)
        with r0(3) h'(3) qr(1,2) ok(2) have "ox_status q = ObPublished" unfolding fifo_def by blast
        with \<open>q = row\<close> row(2) show ?thesis by simp
      next
        case False
        then have "x \<in> set (cp_log p)" using h(1) by (simp add: log)
        from logged_in_orderD(3) [OF ok(3) this y qr(1,2) h'] show ?thesis .
      qed
    qed
  qed
  with ok'(1,2) show ?thesis by (simp add: delivery_ok_def)
qed

lemma quarantine_ok:
  assumes "delivery_ok date_ok (p, ob)" "flush_candidates now locked (ob_rows ob) = row # others"
  shows "delivery_ok date_ok (quarantine_outbox hash now' row reason (p, ob))"
  unfolding quarantine_outbox_def fst_conv snd_conv
  by (rule publish_row_ok [OF assms])
    (simp_all add: same_slot_def mark_published_def force_full_resync_barrier_def)

lemma flush_one_ok:
  assumes d: "delivery_ok date_ok s" and f: "flush_one date_ok hash hours now locked fault marked s = (res, s')"
  shows "delivery_ok date_ok s'"
proof (cases "flush_candidates now locked (ob_rows (snd s))")
  case Nil
  then show ?thesis using assms by (simp add: flush_one_def)
next
  case (Cons row others)
  obtain p ob where s: "s = (p, ob)" by fastforce
  have c: "flush_candidates now locked (ob_rows ob) = row # others" using Cons by (simp add: s)
  have d': "delivery_ok date_ok (p, ob)" using d by (simp add: s)
  have q: "delivery_ok date_ok (snd (commit_or_fail now i fault marked res' s (quarantine_outbox hash now row reason s)))"
    for i res' reason using commit_or_fail_ok [OF d quarantine_ok [OF d' c, folded s]] .
  have e: "s' = snd (flush_one date_ok hash hours now locked fault marked s)" by (simp add: f)
  show ?thesis
  proof (cases "parse_outbox_envelope date_ok (ox_payload row)")
    case None
    then show ?thesis unfolding e flush_one_def Cons using q by simp
  next
    case (Some env)
    obtain event_id inp where env: "env = (event_id, inp)" by fastforce
    show ?thesis
    proof (cases "insert_event date_ok hours now inp event_id (deduplication_key inp event_id) p")
      case (Inl err)
      then show ?thesis unfolding e flush_one_def Cons using q d d' mark_failed_ok
        by (simp add: Some env s)
    next
      case (Inr y)
      obtain r inserted p1 where y: "y = (r, inserted, p1)" by (cases y) auto
      have "delivery_ok date_ok (p1, update_row (ox_id row) mark_published ob)"
        using insert_row_ok [OF d' c] Some Inr by (simp add: env y)
      then have "delivery_ok date_ok (if inserted then p1\<lparr>cp_signals := cp_signals p1 @ [SigEvent]\<rparr> else p1,
          update_row (ox_id row) mark_published ob)" by simp
      from commit_or_fail_ok [OF d this] q show ?thesis
        unfolding e flush_one_def Cons using Inr by (simp add: Some env s y)
    qed
  qed
qed

section \<open>Workers, producers, pruning\<close>

inductive delivery_step ::
  "(string \<Rightarrow> bool) \<Rightarrow> (json \<Rightarrow> string) \<Rightarrow> control_plane \<times> outbox \<Rightarrow> control_plane \<times> outbox \<Rightarrow> bool" for date_ok hash where
  queue: "enqueue_realtime_event date_ok now row_id event_id obj ob = Inr (e, ob') \<Longrightarrow>
    row_id \<notin> ox_id ` set (ob_rows ob) \<Longrightarrow> delivery_step date_ok hash (p, ob) (p, ob')"
| work: "flush_one date_ok hash hours now locked fault marked s = (res, s') \<Longrightarrow> delivery_step date_ok hash s s'"
| prune: "delivery_step date_ok hash (p, ob) (snd (prune_expired now held p), ob)"
| validate: "delivery_step date_ok hash (p, ob) (snd (validated_latest_sequence date_ok hash now p), ob)"

lemma log_subset_ok:
  assumes "delivery_ok date_ok (p, ob)" "set (cp_log p') \<subseteq> set (cp_log p)" "cp_last p \<le> cp_last p'"
  shows "delivery_ok date_ok (p', ob)"
  by (rule delivery_ok_map [OF assms(1) _ _ _ _ _ assms(2,3), of "\<lambda>r. r"]) (simp_all add: same_slot_def)

lemma validated_log:
  "set (cp_log (snd (validated_latest_sequence date_ok hash now p))) \<subseteq> set (cp_log p)"
  "cp_last p \<le> cp_last (snd (validated_latest_sequence date_ok hash now p))"
proof -
  have q: "set (cp_log (quarantine_defect hash now n d p)) \<subseteq> set (cp_log p)" for n d
    using quarantine_defect_log(1) [of hash now n d p] by (metis filter_is_subset)
  show "set (cp_log (snd (validated_latest_sequence date_ok hash now p))) \<subseteq> set (cp_log p)"
    "cp_last p \<le> cp_last (snd (validated_latest_sequence date_ok hash now p))"
    using q by (auto simp: validated_latest_sequence_def force_full_resync_barrier_def quarantine_defect_log(2)
        split: sum.splits)
qed

lemma delivery_step_ok:
  assumes "delivery_step date_ok hash s s'" "delivery_ok date_ok s"
  shows "delivery_ok date_ok s'"
  using assms
proof (cases rule: delivery_step.cases)
  case (prune p ob now held)
  with assms(2) show ?thesis by (auto simp: prune_expired_state intro: log_subset_ok)
next
  case (validate p ob now)
  with assms(2) have "delivery_ok date_ok (p, ob)" by simp
  from log_subset_ok [OF this validated_log] show ?thesis by (simp add: validate)
qed (use assms(2) enqueue_ok flush_one_ok in blast)+

lemma delivery_steps_ok:
  "(delivery_step date_ok hash)\<^sup>*\<^sup>* s s' \<Longrightarrow> delivery_ok date_ok s \<Longrightarrow> delivery_ok date_ok s'"
  by (induction rule: rtranclp_induct) (auto intro: delivery_step_ok)

definition empty_outbox :: outbox where
  "empty_outbox = \<lparr>ob_rows = [], ob_next = (\<lambda>_. 1)\<rparr>"

text \<open>C12: Events of a stream are delivered in the order in which they were queued. Let any number of
  producers queue events and any number of workers flush them, with statements that fail,
  acknowledgements that are lost, rows held by other workers, quarantined rows, prunings and
  validations: of two rows of one stream the later is published only if the earlier is, and
  when both have an event in the log, the earlier event has the smaller sequence number; every
  event of the log belongs to a published row.\<close>

theorem outbox_delivers_in_order:
  assumes "(delivery_step date_ok hash)\<^sup>*\<^sup>* (p0, empty_outbox) (p, ob)" "cp_log p0 = []"
    and "q \<in> set (ob_rows ob)" "r \<in> set (ob_rows ob)" "ox_stream q = Some st" "ox_stream r = Some st"
    and "ox_ordinal q = Some m" "ox_ordinal r = Some n" "m < n"
  shows "(ox_status r = ObPublished \<longrightarrow> ox_status q = ObPublished)
    \<and> (\<forall>l \<in> set (cp_log p). \<forall>l' \<in> set (cp_log p). ox_event_key q = realtime_outbox_event_key (sr_key l)
         \<longrightarrow> ox_event_key r = realtime_outbox_event_key (sr_key l') \<longrightarrow> sr_sequence l < sr_sequence l')
    \<and> (\<forall>l \<in> set (cp_log p). \<exists>x \<in> set (ob_rows ob). ox_event_key x = realtime_outbox_event_key (sr_key l)
         \<and> ox_status x = ObPublished)"
proof -
  have "delivery_ok date_ok (p0, empty_outbox)"
    using assms(2) by (simp add: delivery_ok_def rows_ok_def fifo_def logged_in_order_def empty_outbox_def)
  with delivery_steps_ok [OF assms(1)] have ok: "fifo ob" "logged_in_order (p, ob)" by (simp_all add: delivery_ok_def)
  have b: "before q r" using assms(5-9) by (simp add: before_def)
  show ?thesis
    using ok(1) b assms(3,4) logged_in_orderD(2,3) [OF ok(2)] unfolding fifo_def logged_as_def by blast
qed

section \<open>A run\<close>

definition audit_obj :: "string \<Rightarrow> (string \<times> json) list" where
  "audit_obj i = dispatch_input ''audit:new'' (JObj [(''auditId'', JStr i)]) [SubCapability AUDIT_READ]
     ''rt:capability:audit:read'' (JStr (''audit:new:'' @ i))"

lemma audit_enqueue: "enqueue_audit_new date_ok now row_id event_id i = enqueue_realtime_event date_ok now row_id event_id (audit_obj i)"
proof -
  have "stream_for [SubCapability AUDIT_READ] None = Some ''rt:capability:audit:read''" by code_simp
  then show ?thesis by (simp add: fun_eq_iff enqueue_audit_new_def enqueue_dispatch_def audit_obj_def)
qed

lemma audit_accepted:
  assumes "js_trim (''audit:new:'' @ i) = ''audit:new:'' @ i" "js_trim i \<noteq> []" "length i \<le> 128"
    "json_byte_length (JObj [(''auditId'', JStr i)]) = Some n" "n \<le> 1000"
  shows "parse_publish_input (\<lambda>_. True) (JObj (with_key (audit_obj i) (''audit:new:'' @ i))) = Some \<lparr>pi_event = ''audit:new'',
     pi_payload = JObj [(''auditId'', JStr i)], pi_targets = [SubCapability AUDIT_READ],
     pi_stream_id = ''rt:capability:audit:read'', pi_key = Some (''audit:new:'' @ i)\<rparr>"
proof -
  have 1: "event_name_shape ''audit:new''" by code_simp
  have 2: "normalize_stored_targets (JArr [subscription_json (SubCapability AUDIT_READ)]) = Some [SubCapability AUDIT_READ]"
    using stored_targets_json [of "[SubCapability AUDIT_READ]"] by (simp add: MAX_TARGET_COUNT_def)
  have 3: "n \<le> 262144" "length i \<le> 246" using assms(3,5) by simp_all
  define k where "k = ''audit:new:'' @ i"
  have "length k \<le> 256" "js_trim k = k" "k \<noteq> []" using assms(1) 3(2) by (simp_all add: k_def)
  then have 4: "input_key (JStr k) = Some (Some k)" by simp
  have 5: "validate_realtime_event_contract (\<lambda>_. True) ''audit:new'' (JObj [(''auditId'', JStr i)]) [SubCapability AUDIT_READ]"
    using assms(2-4) 3 by (simp add: validate_realtime_event_contract_def validate_audit_new_def has_exact_keys_def
        member_def MAX_PAYLOAD_BYTES_def)
  have m: "member (with_key (audit_obj i) k) ''deduplicationKey'' = JStr k"
    "member (with_key (audit_obj i) k) ''event'' = JStr ''audit:new''"
    "member (with_key (audit_obj i) k) ''streamId'' = JStr ''rt:capability:audit:read''"
    "member (with_key (audit_obj i) k) ''payload'' = JObj [(''auditId'', JStr i)]"
    "member (with_key (audit_obj i) k) ''targets'' = JArr [subscription_json (SubCapability AUDIT_READ)]"
    by (simp_all add: with_key_def member_def audit_obj_def dispatch_input_def)
  show ?thesis
    unfolding k_def [symmetric]
    by (simp add: m 1 2 4 5 del: normalize_stored_targets.simps input_key.simps subscription_json.simps)
qed

lemma audit_queued:
  assumes "js_trim (''audit:new:'' @ i) = ''audit:new:'' @ i" "js_trim i \<noteq> []" "length i \<le> 128"
    "json_byte_length (JObj [(''auditId'', JStr i)]) = Some n" "n \<le> 1000"
    "realtime_outbox_event_key (''audit:new:'' @ i) \<notin> ox_event_key ` set (ob_rows ob)"
  shows "\<exists>row. enqueue_realtime_event (\<lambda>_. True) now row_id event_id (audit_obj i) ob = Inr (event_id,
      ob\<lparr>ob_rows := ob_rows ob @ [row],
        ob_next := (ob_next ob)(''rt:capability:audit:read'' := ob_next ob ''rt:capability:audit:read'' + 1)\<rparr>)
    \<and> ox_id row = row_id \<and> ox_event_key row = realtime_outbox_event_key (''audit:new:'' @ i)
    \<and> ox_stream row = Some ''rt:capability:audit:read'' \<and> ox_ordinal row = Some (ob_next ob ''rt:capability:audit:read'')"
proof -
  have "member (audit_obj i) ''deduplicationKey'' = JStr (''audit:new:'' @ i)"
    by (simp add: audit_obj_def dispatch_input_def member_def)
  moreover have "find (\<lambda>r. ox_event_key r = realtime_outbox_event_key (''audit:new:'' @ i)) (ob_rows ob) = None"
    using assms(6) by (auto simp: find_None_iff image_iff)
  moreover note audit_accepted [OF assms(1-5)]
  ultimately show ?thesis
    using assms(1)
    by (intro exI [of _ "\<lparr>ox_id = row_id, ox_event_key = realtime_outbox_event_key (''audit:new:'' @ i),
      ox_payload = normal (envelope_json event_id \<lparr>pi_event = ''audit:new'', pi_payload = JObj [(''auditId'', JStr i)],
        pi_targets = [SubCapability AUDIT_READ], pi_stream_id = ''rt:capability:audit:read'',
        pi_key = Some (''audit:new:'' @ i)\<rparr>), ox_correlation = event_id, ox_status = ObPending,
      ox_created_at = now, ox_available_at = Some now, ox_stream = Some ''rt:capability:audit:read'',
      ox_ordinal = Some (ob_next ob ''rt:capability:audit:read''), ox_attempts = 0\<rparr>"])
      (simp add: enqueue_realtime_event_def Let_def del: parse_publish_input.simps normal.simps)
qed

theorem outbox_delivers_in_order_witness:
  "\<exists>ob q r. (delivery_step (\<lambda>_. True) (\<lambda>_. []))\<^sup>*\<^sup>* (sample_plane, empty_outbox) (sample_plane, ob) \<and> ob_rows ob = [q, r]
    \<and> (ox_status r = ObPublished \<longrightarrow> ox_status q = ObPublished)"
proof -
  have f: "js_trim ''audit:new:17'' = ''audit:new:17''" "js_trim ''17'' \<noteq> []" "length ''17'' \<le> 128"
    "json_byte_length (JObj [(''auditId'', JStr ''17'')]) = Some 16"
    "js_trim ''audit:new:18'' = ''audit:new:18''" "js_trim ''18'' \<noteq> []" "length ''18'' \<le> 128"
    "json_byte_length (JObj [(''auditId'', JStr ''18'')]) = Some 16" by code_simp+
  let ?st = "''rt:capability:audit:read''"
  obtain q where q: "enqueue_realtime_event (\<lambda>_. True) 0 ''a'' sample_uuid (audit_obj ''17'') empty_outbox
      = Inr (sample_uuid, empty_outbox\<lparr>ob_rows := [q], ob_next := (ob_next empty_outbox)(?st := 2)\<rparr>)" "ox_id q = ''a''"
    "ox_event_key q = ''realtime:audit:new:17''" "ox_stream q = Some ?st" "ox_ordinal q = Some 1"
    using audit_queued [of "''17''" 16 empty_outbox 0 "''a''" sample_uuid] f(1-4)
    by (auto simp: empty_outbox_def realtime_outbox_event_key_def)
  let ?ob1 = "empty_outbox\<lparr>ob_rows := [q], ob_next := (ob_next empty_outbox)(?st := 2)\<rparr>"
  obtain r where r: "enqueue_realtime_event (\<lambda>_. True) 0 ''b'' sample_uuid (audit_obj ''18'') ?ob1
      = Inr (sample_uuid, ?ob1\<lparr>ob_rows := [q, r], ob_next := (ob_next ?ob1)(?st := 3)\<rparr>)"
    "ox_stream r = Some ?st" "ox_ordinal r = Some 2"
    using audit_queued [of "''18''" 16 ?ob1 0 "''b''" sample_uuid] f(5-8)
    by (auto simp: q(3) realtime_outbox_event_key_def)
  let ?ob2 = "?ob1\<lparr>ob_rows := [q, r], ob_next := (ob_next ?ob1)(?st := 3)\<rparr>"
  have "delivery_step (\<lambda>_. True) (\<lambda>_. []) (sample_plane, empty_outbox) (sample_plane, ?ob1)"
    by (rule delivery_step.queue [OF q(1)]) (simp add: empty_outbox_def)
  moreover have "delivery_step (\<lambda>_. True) (\<lambda>_. []) (sample_plane, ?ob1) (sample_plane, ?ob2)"
    by (rule delivery_step.queue [OF r(1)]) (simp add: q(2))
  ultimately have s: "(delivery_step (\<lambda>_. True) (\<lambda>_. []))\<^sup>*\<^sup>* (sample_plane, empty_outbox) (sample_plane, ?ob2)"
    by (meson converse_rtranclp_into_rtranclp r_into_rtranclp)
  have "cp_log sample_plane = []" by (simp add: sample_plane_def)
  from outbox_delivers_in_order [OF s this, of q r ?st 1 2] q(4,5) r(2,3) s show ?thesis by auto
qed

section \<open>Events for a module alone\<close>

text \<open>No kind of event is addressed to a module alone, so \<open>enqueueModuleRealtimeEvent\<close> always throws.\<close>

lemma enqueue_parsed:
  assumes "enqueue_realtime_event date_ok now row_id event_id obj ob = Inr x"
  obtains k inp where "parse_publish_input date_ok (JObj (with_key obj k)) = Some inp"
  using assms by (auto simp: enqueue_realtime_event_def Let_def simp del: parse_publish_input.simps
      split: json.splits option.splits if_splits)

lemma module_target: "module_realtime_subscription k = Some t \<Longrightarrow> \<exists>m. t = SubModule m \<and> subscription_ok t"
  using module_key_sound by (auto simp: module_realtime_subscription_def member_def has_only_keys_def
      simp del: normalize_realtime_module_key.simps)

lemma module_event_refused: "\<exists>e. enqueue_module_event date_ok now row_id event_id mk ev payload requested key ob = Inl e"
proof (rule ccontr)
  assume "\<not> ?thesis"
  then obtain x where x: "enqueue_module_event date_ok now row_id event_id mk ev payload requested key ob = Inr x"
    by (cases "enqueue_module_event date_ok now row_id event_id mk ev payload requested key ob") auto
  then obtain k t where t: "module_realtime_subscription k = Some t"
    "enqueue_dispatch date_ok now row_id event_id ev payload [t] requested key ob = Inr x"
    by (auto simp: enqueue_module_event_def simp del: normalize_realtime_module_key.simps split: option.splits)
  obtain m where m: "t = SubModule m" "subscription_ok t" using module_target [OF t(1)] by blast
  obtain st where "enqueue_realtime_event date_ok now row_id event_id (dispatch_input ev payload [t] st key) ob = Inr x"
    using t(2) by (auto simp: enqueue_dispatch_def split: option.splits)
  then obtain k' inp where inp: "parse_publish_input date_ok (JObj (with_key (dispatch_input ev payload [t] st key) k')) = Some inp"
    by (rule enqueue_parsed)
  obtain obj where obj: "JObj (with_key (dispatch_input ev payload [t] st key) k') = JObj obj"
    "normalize_stored_targets (member obj ''targets'') = Some (pi_targets inp)"
    "validate_realtime_event_contract date_ok (pi_event inp) (pi_payload inp) (pi_targets inp)"
    using inp by (rule publish_input_parts)
  have "member obj ''targets'' = JArr (map subscription_json [t])"
    using obj(1) by (auto simp: with_key_def dispatch_input_def member_def)
  then have "pi_targets inp = [t]"
    using obj(2) stored_targets_json [of "[t]"] m(2) by (simp add: MAX_TARGET_COUNT_def)
  then show False
    using obj(3) m(1)
    by (auto simp: validate_realtime_event_contract_def validate_entity_changed_def validate_audit_new_def
        validate_lock_updated_def validate_notification_def validate_chat_message_def validate_chat_read_def
        validate_chat_upsert_def one_user_def split: option.splits if_split_asm)
qed

end
