(* ===== verification/Realtime_Transaction.thy ===== *)
theory Realtime_Transaction
  imports Realtime_Delivery
begin

text \<open>
  \<open>src/shared/realtime/realtime-outbox-transaction.ts\<close>: the owner of \<open>BEGIN\<close>, \<open>COMMIT\<close> and of the
  connection around a business change. When the acknowledgement of \<open>COMMIT\<close> is lost, a second
  connection looks for the outbox rows the transaction inserted and decides what to tell the
  caller. The work is a function on the connection; what fails is an argument.
\<close>

section \<open>The connection\<close>

type_synonym evidence = "string \<times> string"

record 's connection =
  cn_context :: "(nat \<times> evidence list) option"
  cn_state :: 's

text \<open>\<open>Map.set\<close>.\<close>

definition map_set :: "string \<Rightarrow> string \<Rightarrow> evidence list \<Rightarrow> evidence list" where
  "map_set k v m = (if k \<in> fst ` set m then map (\<lambda>(a, b). if a = k then (a, v) else (a, b)) m else m @ [(k, v)])"

definition track_inserted :: "evidence \<Rightarrow> 's connection \<Rightarrow> 's connection" where
  "track_inserted ev c =
     (case cn_context c of
        None \<Rightarrow> c
      | Some (d, m) \<Rightarrow> c\<lparr>cn_context := Some (d, map_set (fst ev) (snd ev) m)\<rparr>)"

datatype reconciliation = Committed | NotCommitted | Unknown

datatype 'e tx_error = TxWork 'e | TxNestedForbidden | TxNestedOptionsInvalid | TxJoinWithoutOwner
  | TxStartFailed | TxCommitError | TxUncertain

text \<open>The options of the call.\<close>

record ('s, 'a) tx_options =
  to_already_started :: bool
  to_join :: bool
  to_reconcile :: "('s \<Rightarrow> 'a \<Rightarrow> reconciliation option) option"

text \<open>What the environment does: whether \<open>BEGIN\<close> and \<open>ROLLBACK\<close> succeed, whether the commit is
  acknowledged and, when it is not, whether it is durable; the state the verifier reads, if it can
  connect, and whether its query throws.\<close>

datatype commit_fault = CommitAcked | CommitLost bool

record 's tx_faults =
  tf_begin :: bool
  tf_rollback :: bool
  tf_commit :: commit_fault
  tf_verifier :: "'s option"
  tf_query_throws :: bool

record ('s, 'a, 'e) tx_report =
  tr_outcome :: "'e tx_error + 'a"
  tr_committed :: 's
  tr_releases :: "bool list"
  tr_connection :: "'s connection"

section \<open>Evidence\<close>

definition visible_inserted_events :: "('s \<Rightarrow> evidence \<Rightarrow> bool) \<Rightarrow> 's \<Rightarrow> evidence list \<Rightarrow> string list" where
  "visible_inserted_events has v expected = map fst (filter (has v) expected)"

definition inserted_evidence :: "('s \<Rightarrow> evidence \<Rightarrow> bool) \<Rightarrow> 's \<Rightarrow> evidence list \<Rightarrow> reconciliation list" where
  "inserted_evidence has v expected =
     (if expected = [] then []
      else let visible = visible_inserted_events has v expected
           in [if list_all (\<lambda>ev. fst ev \<in> set visible) expected then Committed
               else if visible = [] then NotCommitted else Unknown])"

text \<open>\<open>None\<close>: a query threw.\<close>

definition gather_evidence ::
  "('s \<Rightarrow> evidence \<Rightarrow> bool) \<Rightarrow> ('s \<Rightarrow> 'a \<Rightarrow> reconciliation option) option \<Rightarrow> bool \<Rightarrow> 's \<Rightarrow> evidence list \<Rightarrow> 'a
     \<Rightarrow> reconciliation list option" where
  "gather_evidence has rec throws v expected result =
     (if throws \<and> expected \<noteq> [] then None
      else (case rec of
              None \<Rightarrow> Some (inserted_evidence has v expected)
            | Some f \<Rightarrow> map_option (\<lambda>x. inserted_evidence has v expected @ [x]) (f v result)))"

definition resolve_commit :: "reconciliation list option \<Rightarrow> 'a \<Rightarrow> 'e tx_error + 'a" where
  "resolve_commit evidence result =
     (case evidence of
        None \<Rightarrow> Inl TxUncertain
      | Some es \<Rightarrow>
          if es \<noteq> [] \<and> list_all (\<lambda>e. e = Committed) es then Inr result
          else if es \<noteq> [] \<and> list_all (\<lambda>e. e = NotCommitted) es then Inl TxCommitError
          else Inl TxUncertain)"

section \<open>The transaction\<close>

type_synonym ('s, 'a, 'e) tx_work = "'s connection \<Rightarrow> ('e tx_error + 'a) \<times> 's connection"

text \<open>A call on a connection that a transaction owns: it joins, or it is refused.\<close>

definition join_transaction ::
  "('s, 'a) tx_options \<Rightarrow> ('s, 'a, 'e) tx_work \<Rightarrow> nat \<Rightarrow> evidence list \<Rightarrow> 's connection
     \<Rightarrow> ('e tx_error + 'a) \<times> 's connection" where
  "join_transaction opts work depth m c =
     (if \<not> to_join opts then (Inl TxNestedForbidden, c)
      else if to_already_started opts \<or> to_reconcile opts \<noteq> None then (Inl TxNestedOptionsInvalid, c)
      else (case work (c\<lparr>cn_context := Some (depth + 1, m)\<rparr>) of
              (r, c1) \<Rightarrow> (r, c1\<lparr>cn_context := map_option (\<lambda>(d, m). (d - 1, m)) (cn_context c1)\<rparr>)))"

definition tracked_events :: "'s connection \<Rightarrow> evidence list" where
  "tracked_events c = (case cn_context c of None \<Rightarrow> [] | Some (_, m) \<Rightarrow> m)"

definition finish :: "('e tx_error + 'a) \<Rightarrow> 's \<Rightarrow> bool list \<Rightarrow> 's connection \<Rightarrow> ('s, 'a, 'e) tx_report" where
  "finish outcome committed releases c = \<lparr>tr_outcome = outcome, tr_committed = committed, tr_releases = releases,
     tr_connection = c\<lparr>cn_context := None\<rparr>\<rparr>"

definition own_transaction ::
  "('s \<Rightarrow> evidence \<Rightarrow> bool) \<Rightarrow> ('s, 'a) tx_options \<Rightarrow> 's tx_faults \<Rightarrow> ('s, 'a, 'e) tx_work \<Rightarrow> 's connection
     \<Rightarrow> ('s, 'a, 'e) tx_report" where
  "own_transaction has opts faults work c =
     (let s = cn_state c in
      if \<not> to_already_started opts \<and> \<not> tf_begin faults then finish (Inl TxStartFailed) s [True] c
      else (case work (c\<lparr>cn_context := Some (1, [])\<rparr>) of
              (Inl e, c1) \<Rightarrow>
                if tf_rollback faults then finish (Inl e) s [False] c1 else finish (Inl TxUncertain) s [True] c1
            | (Inr result, c1) \<Rightarrow>
                (case tf_commit faults of
                   CommitAcked \<Rightarrow> finish (Inr result) (cn_state c1) [False] c1
                 | CommitLost durable \<Rightarrow>
                     finish
                       (case tf_verifier faults of
                          None \<Rightarrow> Inl TxUncertain
                        | Some v \<Rightarrow>
                            resolve_commit
                              (gather_evidence has (to_reconcile opts) (tf_query_throws faults) v (tracked_events c1) result)
                              result)
                       (if durable then cn_state c1 else s) [True] c1)))"

text \<open>\<open>withRealtimeOutboxTransaction\<close>.\<close>

definition with_transaction ::
  "('s \<Rightarrow> evidence \<Rightarrow> bool) \<Rightarrow> ('s, 'a) tx_options \<Rightarrow> 's tx_faults \<Rightarrow> ('s, 'a, 'e) tx_work \<Rightarrow> 's connection
     \<Rightarrow> ('s, 'a, 'e) tx_report" where
  "with_transaction has opts faults work c =
     (case cn_context c of
        Some (d, m) \<Rightarrow>
          (case join_transaction opts work d m c of
             (r, c1) \<Rightarrow> \<lparr>tr_outcome = r, tr_committed = cn_state c1, tr_releases = [], tr_connection = c1\<rparr>)
      | None \<Rightarrow>
          if to_join opts
          then \<lparr>tr_outcome = Inl TxJoinWithoutOwner, tr_committed = cn_state c, tr_releases = [], tr_connection = c\<rparr>
          else own_transaction has opts faults work c)"

section \<open>What the caller is told is true\<close>

lemma evidence_committed:
  assumes "expected \<noteq> []" "\<And>ev. ev \<in> set expected \<Longrightarrow> has v ev"
  shows "inserted_evidence has v expected = [Committed]"
  using assms by (auto simp: inserted_evidence_def visible_inserted_events_def list_all_iff)

lemma evidence_not_committed:
  assumes "expected \<noteq> []" "\<And>ev. ev \<in> set expected \<Longrightarrow> \<not> has v ev"
  shows "inserted_evidence has v expected = [NotCommitted]"
proof -
  have "filter (has v) expected = []" using assms(2) by (simp add: filter_empty_conv)
  with assms(1) show ?thesis by (cases expected) (simp_all add: inserted_evidence_def visible_inserted_events_def)
qed

lemma gathered_head:
  assumes "gather_evidence has rec throws v expected result = Some es" "expected \<noteq> []"
  shows "\<exists>more. es = inserted_evidence has v expected @ more"
  using assms by (auto simp: gather_evidence_def split: if_splits option.splits)

lemma resolve_truthful:
  assumes "expected \<noteq> []" "durable \<Longrightarrow> \<forall>ev \<in> set expected. has v ev" "\<not> durable \<Longrightarrow> \<forall>ev \<in> set expected. \<not> has v ev"
  shows "resolve_commit (gather_evidence has rec throws v expected result) result = Inr r \<Longrightarrow> r = result \<and> durable"
    and "resolve_commit (gather_evidence has rec throws v expected result) result = Inl e \<Longrightarrow> e \<noteq> TxUncertain \<Longrightarrow> \<not> durable"
  using assms gathered_head [of has rec throws v expected result] evidence_committed [OF assms(1), of has v]
    evidence_not_committed [OF assms(1), of has v]
  by (cases durable; force simp: resolve_commit_def split: option.splits if_splits)+

section \<open>On the outbox\<close>

text \<open>The evidence is a row with the key and the identifier; no later step of the outbox removes it.\<close>

locale commit_evidence =
  fixes step :: "'s \<Rightarrow> 's \<Rightarrow> bool" and has :: "'s \<Rightarrow> evidence \<Rightarrow> bool"
  assumes kept: "step s t \<Longrightarrow> has s ev \<Longrightarrow> has t ev"
begin

lemma kept_star: "step\<^sup>*\<^sup>* s t \<Longrightarrow> has s ev \<Longrightarrow> has t ev"
  by (induction rule: rtranclp_induct) (auto intro: kept)

lemma truthful_commit:
  assumes "expected \<noteq> []" "\<And>ev. ev \<in> set expected \<Longrightarrow> has s1 ev" "durable \<Longrightarrow> step\<^sup>*\<^sup>* s1 v"
    "\<not> durable \<Longrightarrow> \<forall>ev \<in> set expected. \<not> has v ev"
  shows "resolve_commit (gather_evidence has rec throws v expected result) result = Inr r \<Longrightarrow> r = result \<and> durable"
    and "resolve_commit (gather_evidence has rec throws v expected result) result = Inl e \<Longrightarrow> e \<noteq> TxUncertain \<Longrightarrow> \<not> durable"
proof -
  have h: "\<forall>ev \<in> set expected. has v ev" if durable
    using that assms(2) kept_star [OF assms(3)] by blast
  show "r = result \<and> durable"
    if "resolve_commit (gather_evidence has rec throws v expected result) result = Inr r"
    by (rule resolve_truthful(1) [OF assms(1) _ _ that]) (use h assms(4) in blast)+
  show "e \<noteq> TxUncertain \<Longrightarrow> \<not> durable"
    if "resolve_commit (gather_evidence has rec throws v expected result) result = Inl e"
    by (rule resolve_truthful(2) [OF assms(1) _ _ that]) (use h assms(4) in blast)+
qed

end

definition outbox_has :: "control_plane \<times> outbox \<Rightarrow> evidence \<Rightarrow> bool" where
  "outbox_has s ev \<longleftrightarrow> list_ex (\<lambda>r. ox_event_key r = fst ev \<and> ox_correlation r = snd ev) (ob_rows (snd s))"

definition evidence_slots :: "outbox \<Rightarrow> evidence list" where
  "evidence_slots ob = map (\<lambda>r. (ox_event_key r, ox_correlation r)) (ob_rows ob)"

lemma outbox_has_slots: "outbox_has s ev \<longleftrightarrow> ev \<in> set (evidence_slots (snd s))"
  by (cases ev) (auto simp: outbox_has_def evidence_slots_def list_ex_iff)

lemma update_row_slots:
  "(\<And>r. ox_event_key (f r) = ox_event_key r \<and> ox_correlation (f r) = ox_correlation r) \<Longrightarrow>
     evidence_slots (update_row i f ob) = evidence_slots ob"
  by (simp add: evidence_slots_def update_row_def)

lemma flush_slots:
  "evidence_slots (mark_failed now i ob) = evidence_slots ob"
  "evidence_slots (update_row i mark_published ob) = evidence_slots ob"
  "evidence_slots (snd (quarantine_outbox hash now row reason s)) = evidence_slots (snd s)"
  by (simp_all add: mark_failed_def quarantine_outbox_def update_row_slots mark_published_def)

lemma commit_or_fail_slots:
  "evidence_slots (snd new) = evidence_slots (snd old) \<Longrightarrow>
     evidence_slots (snd (snd (commit_or_fail now i fault marked res old new))) = evidence_slots (snd old)"
  by (cases old; cases new) (simp add: commit_or_fail_def Let_def flush_slots split: attempt_fault.splits)

lemma flush_one_slots:
  assumes "flush_one date_ok hash hours now locked fault marked s = (res, s')"
  shows "evidence_slots (snd s') = evidence_slots (snd s)"
proof -
  have e: "s' = snd (flush_one date_ok hash hours now locked fault marked s)" by (simp add: assms)
  have q: "evidence_slots (snd (snd (commit_or_fail now i fault marked res' s (quarantine_outbox hash now row reason s))))
      = evidence_slots (snd s)" for i res' row reason
    by (intro commit_or_fail_slots flush_slots)
  have u: "evidence_slots (snd (snd (commit_or_fail now i fault marked res' s (p, update_row j mark_published (snd s)))))
      = evidence_slots (snd s)" for i res' j p
    by (intro commit_or_fail_slots) (simp add: flush_slots)
  show ?thesis
  proof (cases "flush_candidates now locked (ob_rows (snd s))")
    case Nil
    then show ?thesis by (simp add: e flush_one_def)
  next
    case (Cons row others)
    show ?thesis
    proof (cases "parse_outbox_envelope date_ok (ox_payload row)")
      case None
      then show ?thesis unfolding e flush_one_def Cons using q by simp
    next
      case (Some env)
      obtain event_id inp where env: "env = (event_id, inp)" by fastforce
      show ?thesis
      proof (cases "insert_event date_ok hours now inp event_id (deduplication_key inp event_id) (fst s)")
        case (Inl err)
        then show ?thesis unfolding e flush_one_def Cons using q by (simp add: Some env flush_slots)
      next
        case (Inr y)
        obtain r inserted p1 where "y = (r, inserted, p1)" by (cases y) auto
        with Inr show ?thesis unfolding e flush_one_def Cons using q u by (simp add: Some env)
      qed
    qed
  qed
qed

interpretation outbox_evidence: commit_evidence "delivery_step date_ok hash" outbox_has for date_ok hash
proof
  fix s t ev assume "delivery_step date_ok hash s t" "outbox_has s ev"
  then show "outbox_has t ev"
  proof (cases rule: delivery_step.cases)
    case (queue now row_id event_id obj ob e ob' p)
    have "set (evidence_slots ob) \<subseteq> set (evidence_slots ob')"
      using queue(3) by (cases rule: enqueue_parts) (auto simp: evidence_slots_def)
    with queue(1,2) \<open>outbox_has s ev\<close> show ?thesis by (auto simp: outbox_has_slots)
  next
    case (work hours now locked fault marked res)
    with \<open>outbox_has s ev\<close> show ?thesis by (simp add: outbox_has_slots flush_one_slots)
  qed (auto simp: outbox_has_slots)
qed

text \<open>C13: What a transaction tells its caller is true. The connection is released exactly once and its
  context cleared; the database is left as it was or as the work made it, never in between. If the
  acknowledgement of the commit is lost, a result is returned only if the work is durable and an
  error other than "uncertain" only if it is not, as long as the work queued at least one event,
  the verifier reads a later state of the outbox and the identifiers the work drew are its own.\<close>

theorem transaction_truthful:
  fixes work :: "(control_plane \<times> outbox, 'a, 'e) tx_work"
  assumes "cn_context c = None" "\<not> to_join opts" "work (c\<lparr>cn_context := Some (1, [])\<rparr>) = (r, c1)"
    and "\<And>a. r = Inr a \<Longrightarrow> tracked_events c1 \<noteq> [] \<and> (\<forall>ev \<in> set (tracked_events c1). outbox_has (cn_state c1) ev)"
    and "\<And>v. tf_commit faults = CommitLost True \<Longrightarrow> tf_verifier faults = Some v \<Longrightarrow>
      (delivery_step date_ok hash)\<^sup>*\<^sup>* (cn_state c1) v"
    and "\<And>v. tf_commit faults = CommitLost False \<Longrightarrow> tf_verifier faults = Some v \<Longrightarrow>
      \<forall>ev \<in> set (tracked_events c1). \<not> outbox_has v ev"
  defines "report \<equiv> with_transaction outbox_has opts faults work c"
  shows "length (tr_releases report) = 1 \<and> cn_context (tr_connection report) = None
    \<and> tr_committed report \<in> {cn_state c, cn_state c1}
    \<and> (case tr_outcome report of
         Inr a \<Rightarrow> r = Inr a \<and> tr_committed report = cn_state c1
       | Inl e \<Rightarrow> e = TxUncertain \<or> tr_committed report = cn_state c)"
proof -
  have own: "report = own_transaction outbox_has opts faults work c"
    using assms(1,2) by (simp add: report_def with_transaction_def)
  show ?thesis
  proof (cases "\<not> to_already_started opts \<and> \<not> tf_begin faults")
    case True
    then show ?thesis by (simp add: own own_transaction_def finish_def Let_def)
  next
    case begun: False
    show ?thesis
    proof (cases r)
      case (Inl e)
      with begun assms(3) show ?thesis by (simp add: own own_transaction_def finish_def Let_def)
    next
      case (Inr a)
      show ?thesis
      proof (cases "tf_commit faults")
        case CommitAcked
        with begun assms(3) Inr show ?thesis by (auto simp: own own_transaction_def finish_def Let_def)
      next
        case (CommitLost durable)
        let ?res = "\<lambda>v. resolve_commit (gather_evidence outbox_has (to_reconcile opts) (tf_query_throws faults) v
            (tracked_events c1) a) a :: 'e tx_error + 'a"
        have rep: "report = finish (case tf_verifier faults of None \<Rightarrow> Inl TxUncertain | Some v \<Rightarrow> ?res v)
            (if durable then cn_state c1 else cn_state c) [True] c1"
          using begun assms(3) Inr CommitLost unfolding own own_transaction_def by (auto simp: Let_def)
        have v: "(?res v = Inr x \<longrightarrow> x = a \<and> durable) \<and> (?res v = Inl e \<longrightarrow> e \<noteq> TxUncertain \<longrightarrow> \<not> durable)"
          if "tf_verifier faults = Some v" for v x e
        proof -
          have "durable \<Longrightarrow> (delivery_step date_ok hash)\<^sup>*\<^sup>* (cn_state c1) v"
            "\<not> durable \<Longrightarrow> \<forall>ev \<in> set (tracked_events c1). \<not> outbox_has v ev"
            using assms(5,6) CommitLost that by auto
          with outbox_evidence.truthful_commit [of "tracked_events c1" "cn_state c1" durable date_ok hash v
              "to_reconcile opts" "tf_query_throws faults" a] assms(4) [OF Inr]
          show ?thesis by blast
        qed
        show ?thesis
        proof (cases "tf_verifier faults")
          case None
          then show ?thesis by (simp add: rep finish_def)
        next
          case (Some w)
          with v [OF Some] Inr show ?thesis by (cases "?res w") (auto simp: rep finish_def)
        qed
      qed
    qed
  qed
qed

section \<open>A run\<close>

definition audit_work :: "(control_plane \<times> outbox, string, enqueue_error) tx_work" where
  "audit_work c =
     (case enqueue_realtime_event (\<lambda>_. True) 0 ''a'' sample_uuid (audit_obj ''17'') (snd (cn_state c)) of
        Inl e \<Rightarrow> (Inl (TxWork e), c)
      | Inr (i, ob) \<Rightarrow>
          (Inr i, track_inserted (''realtime:audit:new:17'', i) (c\<lparr>cn_state := (fst (cn_state c), ob)\<rparr>)))"

definition lost_commit :: "control_plane \<times> outbox \<Rightarrow> (control_plane \<times> outbox) tx_faults" where
  "lost_commit v = \<lparr>tf_begin = True, tf_rollback = True, tf_commit = CommitLost True, tf_verifier = Some v,
     tf_query_throws = False\<rparr>"

definition plain_options :: "(control_plane \<times> outbox, string) tx_options" where
  "plain_options = \<lparr>to_already_started = False, to_join = False, to_reconcile = None\<rparr>"

theorem transaction_truthful_witness:
  "\<exists>v. tr_outcome (with_transaction outbox_has plain_options (lost_commit v) audit_work
         \<lparr>cn_context = None, cn_state = (sample_plane, empty_outbox)\<rparr>) \<noteq> Inl TxCommitError
     \<and> tr_releases (with_transaction outbox_has plain_options (lost_commit v) audit_work
         \<lparr>cn_context = None, cn_state = (sample_plane, empty_outbox)\<rparr>) \<noteq> []"
proof -
  let ?c = "\<lparr>cn_context = None, cn_state = (sample_plane, empty_outbox)\<rparr> :: (control_plane \<times> outbox) connection"
  have f: "js_trim ''audit:new:17'' = ''audit:new:17''" "js_trim ''17'' \<noteq> []" "length ''17'' \<le> 128"
    "json_byte_length (JObj [(''auditId'', JStr ''17'')]) = Some 16" by code_simp+
  obtain ob row where q: "enqueue_realtime_event (\<lambda>_. True) 0 ''a'' sample_uuid (audit_obj ''17'') empty_outbox
      = Inr (sample_uuid, ob)" "ob_rows ob = [row]" "ox_event_key row = ''realtime:audit:new:17''"
    using audit_queued [of "''17''" 16 empty_outbox 0 "''a''" sample_uuid] f
    by (auto simp: empty_outbox_def realtime_outbox_event_key_def)
  have corr: "ox_correlation row = sample_uuid"
    using q(1)
  proof (cases rule: enqueue_parts)
    case (new k key inp r)
    with q(2) show ?thesis by (auto simp: empty_outbox_def)
  qed (simp add: empty_outbox_def)
  let ?c1 = "\<lparr>cn_context = Some (1, [(''realtime:audit:new:17'', sample_uuid)]), cn_state = (sample_plane, ob)\<rparr>"
  have w: "audit_work (?c\<lparr>cn_context := Some (1, [])\<rparr>) = (Inr sample_uuid, ?c1)"
    by (simp add: audit_work_def q(1) track_inserted_def map_set_def)
  have t: "tracked_events ?c1 \<noteq> [] \<and> (\<forall>ev \<in> set (tracked_events ?c1). outbox_has (cn_state ?c1) ev)"
    by (simp add: tracked_events_def outbox_has_def q(2,3) corr)
  let ?f = "lost_commit (cn_state ?c1)"
  let ?rep = "with_transaction outbox_has plain_options ?f audit_work ?c"
  have o: "cn_context ?c = None" "\<not> to_join plain_options" "tf_commit ?f = CommitLost True"
    "tf_verifier ?f = Some (cn_state ?c1)" by (simp_all add: plain_options_def lost_commit_def)
  have s: "(delivery_step (\<lambda>_. True) (\<lambda>_. []))\<^sup>*\<^sup>* (cn_state ?c1) v" if "tf_verifier ?f = Some v" for v
    using that o(4) by simp
  have n: "\<forall>ev \<in> set (tracked_events ?c1). \<not> outbox_has v ev" if "tf_commit ?f = CommitLost False" for v
    using that o(3) by simp
  note t = transaction_truthful [where work = audit_work and c = ?c and opts = plain_options and faults = ?f
      and r = "Inr sample_uuid" and ?c1.0 = ?c1, OF o(1,2) w t s n]
  have "tr_committed ?rep = cn_state ?c1"
    using w by (simp add: with_transaction_def own_transaction_def plain_options_def lost_commit_def finish_def)
  moreover have "cn_state ?c \<noteq> cn_state ?c1" using q(2) by (auto simp: empty_outbox_def)
  ultimately have "tr_outcome ?rep \<noteq> Inl TxCommitError" using t by (auto split: sum.splits)
  moreover have "tr_releases ?rep \<noteq> []" using t by auto
  ultimately show ?thesis by blast
qed

end
