(* ===== verification/Entity_Locks.thy ===== *)
theory Entity_Locks
  imports Realtime_Delivery
begin

text \<open>
  \<open>src/module/locks\<close>: pessimistic locks on a customer order, a works order or a technical part.
  The repository keeps at most one row for an entity, valid until it expires; each change queues an
  event \<open>lock:updated\<close> in the same transaction. The service checks the entity and the module of the
  caller first. Timestamps are numbers and \<open>show_time\<close> is their text; user names, the
  identifiers drawn at random and the rows held by another sweep are arguments.
\<close>

section \<open>The table\<close>

datatype lockable = LockCommande | LockOf | LockPiece

fun lockable_name :: "lockable \<Rightarrow> string" where
  "lockable_name LockCommande = ''COMMANDE_CLIENT''"
| "lockable_name LockOf = ''OF''"
| "lockable_name LockPiece = ''PIECE_TECHNIQUE''"

record lock_row =
  lk_id :: string
  lk_type :: lockable
  lk_entity :: string
  lk_by :: nat
  lk_locked_at :: int
  lk_expires_at :: int
  lk_reason :: "string option"

record lock_db =
  ld_locks :: "lock_row list"
  ld_entities :: "(lockable \<times> string) list"
  ld_outbox :: outbox

record lock_env =
  le_date_ok :: "string \<Rightarrow> bool"
  le_show_time :: "int \<Rightarrow> string"
  le_user_name :: "nat \<Rightarrow> string"

definition LOCK_TTL :: int where "LOCK_TTL = 600000"

definition to_entity_lock :: "lock_env \<Rightarrow> lock_row \<Rightarrow> json" where
  "to_entity_lock env r = JObj [(''id'', JStr (lk_id r)), (''entityType'', JStr (lockable_name (lk_type r))),
     (''entityId'', JStr (lk_entity r)),
     (''lockedBy'', JObj [(''id'', JNum (show_nat (lk_by r))), (''name'', JStr (le_user_name env (lk_by r)))]),
     (''lockedAt'', JStr (le_show_time env (lk_locked_at r))), (''expiresAt'', JStr (le_show_time env (lk_expires_at r)))]"

definition lock_payload :: "lockable \<Rightarrow> string \<Rightarrow> bool \<Rightarrow> json \<Rightarrow> (string \<times> json) list" where
  "lock_payload t i locked lock = [(''entityType'', JStr (lockable_name t)), (''entityId'', JStr i),
     (''locked'', JBool locked), (''lock'', lock)]"

definition on_entity :: "lockable \<Rightarrow> string \<Rightarrow> lock_row \<Rightarrow> bool" where
  "on_entity t i r \<longleftrightarrow> lk_type r = t \<and> lk_entity r = i"

definition repo_get_active_lock :: "int \<Rightarrow> lockable \<Rightarrow> string \<Rightarrow> lock_db \<Rightarrow> lock_row option" where
  "repo_get_active_lock now t i db = find (\<lambda>r. on_entity t i r \<and> now < lk_expires_at r) (ld_locks db)"

section \<open>Operations\<close>

text \<open>The event of a change, in the outbox of the same transaction.\<close>

definition announce ::
  "lock_env \<Rightarrow> int \<Rightarrow> string \<times> string \<Rightarrow> lockable \<Rightarrow> string \<Rightarrow> bool \<Rightarrow> json \<Rightarrow> string \<Rightarrow> lock_db
     \<Rightarrow> enqueue_error + lock_db" where
  "announce env now ids t i locked lock key db =
     (case enqueue_lock_updated (le_date_ok env) now (fst ids) (snd ids) (lock_payload t i locked lock) None
         (JStr key) (ld_outbox db) of
        Inl e \<Rightarrow> Inl e
      | Inr (_, ob) \<Rightarrow> Inr (db\<lparr>ld_outbox := ob\<rparr>))"

definition held_key :: "lock_env \<Rightarrow> lock_row \<Rightarrow> string" where
  "held_key env r = ''lock:'' @ lk_id r @ '':held:'' @ le_show_time env (lk_expires_at r)"

definition released_key :: "lock_row \<Rightarrow> string" where
  "released_key r = ''lock:'' @ lk_id r @ '':released''"

definition expired_key :: "lock_env \<Rightarrow> lock_row \<Rightarrow> string" where
  "expired_key env r = ''lock:'' @ lk_id r @ '':expired:'' @ le_show_time env (lk_expires_at r)"

text \<open>\<open>INSERT ... ON CONFLICT DO UPDATE ... WHERE\<close>: the row after the statement, if it changed one.\<close>

definition upsert_lock ::
  "int \<Rightarrow> string \<Rightarrow> lockable \<Rightarrow> string \<Rightarrow> nat \<Rightarrow> string option \<Rightarrow> lock_row list \<Rightarrow> (lock_row \<times> lock_row list) option" where
  "upsert_lock now fresh t i user reason rows =
     (case find (on_entity t i) rows of
        None \<Rightarrow>
          (let r = \<lparr>lk_id = fresh, lk_type = t, lk_entity = i, lk_by = user, lk_locked_at = now,
                lk_expires_at = now + LOCK_TTL, lk_reason = reason\<rparr>
           in Some (r, rows @ [r]))
      | Some old \<Rightarrow>
          if lk_expires_at old \<le> now \<or> lk_by old = user
          then (let r = old\<lparr>lk_by := user, lk_locked_at := now, lk_expires_at := now + LOCK_TTL, lk_reason := reason\<rparr>
                in Some (r, map (\<lambda>x. if on_entity t i x then r else x) rows))
          else None)"

record acquire_result =
  aq_entity_exists :: bool
  aq_acquired :: bool
  aq_lock :: "lock_row option"

definition repo_acquire_lock ::
  "lock_env \<Rightarrow> int \<Rightarrow> string \<Rightarrow> string \<times> string \<Rightarrow> lockable \<Rightarrow> string \<Rightarrow> nat \<Rightarrow> string option \<Rightarrow> lock_db
     \<Rightarrow> enqueue_error + acquire_result \<times> lock_db" where
  "repo_acquire_lock env now fresh ids t i user reason db =
     (if (t, i) \<notin> set (ld_entities db)
      then Inr (\<lparr>aq_entity_exists = False, aq_acquired = False, aq_lock = None\<rparr>, db)
      else
        (case upsert_lock now fresh t i user reason (ld_locks db) of
           Some (r, rows) \<Rightarrow>
             (case announce env now ids t i True (to_entity_lock env r) (held_key env r) (db\<lparr>ld_locks := rows\<rparr>) of
                Inl e \<Rightarrow> Inl e
              | Inr db1 \<Rightarrow> Inr (\<lparr>aq_entity_exists = True, aq_acquired = True, aq_lock = Some r\<rparr>, db1))
         | None \<Rightarrow>
             Inr (\<lparr>aq_entity_exists = True, aq_acquired = False, aq_lock = repo_get_active_lock now t i db\<rparr>, db)))"

definition repo_release_lock ::
  "lock_env \<Rightarrow> int \<Rightarrow> string \<times> string \<Rightarrow> lockable \<Rightarrow> string \<Rightarrow> nat \<Rightarrow> lock_db
     \<Rightarrow> enqueue_error + (bool \<times> bool) \<times> lock_db" where
  "repo_release_lock env now ids t i user db =
     (if (t, i) \<notin> set (ld_entities db) then Inr ((False, False), db)
      else
        (case find (\<lambda>r. on_entity t i r \<and> lk_by r = user) (ld_locks db) of
           None \<Rightarrow> Inr ((True, False), db)
         | Some r \<Rightarrow>
             (case announce env now ids t i False JNull (released_key r)
                 (db\<lparr>ld_locks := filter (\<lambda>x. \<not> (on_entity t i x \<and> lk_by x = user)) (ld_locks db)\<rparr>) of
                Inl e \<Rightarrow> Inl e
              | Inr db1 \<Rightarrow> Inr ((True, True), db1))))"

text \<open>The sweep: at most \<open>limit\<close> expired rows, oldest first, without those another sweep holds.\<close>

fun announce_expired ::
  "lock_env \<Rightarrow> int \<Rightarrow> (lock_row \<times> string \<times> string) list \<Rightarrow> lock_db \<Rightarrow> enqueue_error + lock_db" where
  "announce_expired env now [] db = Inr db"
| "announce_expired env now ((r, ids) # rs) db =
     (case announce env now ids (lk_type r) (lk_entity r) False JNull (expired_key env r) db of
        Inl e \<Rightarrow> Inl e
      | Inr db1 \<Rightarrow> announce_expired env now rs db1)"

definition claimed_rows :: "int \<Rightarrow> string list \<Rightarrow> int \<Rightarrow> lock_row list \<Rightarrow> lock_row list" where
  "claimed_rows now held limit rows =
     take (nat (max 1 (min limit 1000)))
       (sort_key (\<lambda>r. (lk_expires_at r, lk_id r))
         (filter (\<lambda>r. lk_expires_at r \<le> now \<and> lk_id r \<notin> set held) rows))"

definition repo_expire_locks ::
  "lock_env \<Rightarrow> int \<Rightarrow> (nat \<Rightarrow> string \<times> string) \<Rightarrow> string list \<Rightarrow> int \<Rightarrow> lock_db \<Rightarrow> enqueue_error + nat \<times> lock_db" where
  "repo_expire_locks env now ids held limit db =
     (let claimed = claimed_rows now held limit (ld_locks db) in
      case announce_expired env now (zip claimed (map ids [0..<length claimed]))
          (db\<lparr>ld_locks := filter (\<lambda>r. lk_id r \<notin> lk_id ` set claimed) (ld_locks db)\<rparr>) of
        Inl e \<Rightarrow> Inl e
      | Inr db1 \<Rightarrow> Inr (length claimed, db1))"

section \<open>The service\<close>

datatype lock_error = InvalidLockEntity | LockAuthorizationUnavailable | LockForbidden | LockEntityNotFound
  | LockEnqueue enqueue_error | LockAcquireFailed

definition MAX_BIGINT_ID :: nat where "MAX_BIGINT_ID = 9223372036854775807"

definition normalize_lock_entity :: "string \<Rightarrow> string \<Rightarrow> (lockable \<times> string) option" where
  "normalize_lock_entity entity_type entity_id =
     (case entity_realtime_subscription entity_type entity_id of
        Some (SubEntity t i) \<Rightarrow>
          if t = ''PIECE_TECHNIQUE'' then (if uuid_shape i then Some (LockPiece, js_lower i) else None)
          else if t = ''COMMANDE_CLIENT'' \<or> t = ''OF'' then
            if i = [] \<or> 19 < length i \<or> \<not> list_all is_digit i then None
            else if read_nat i < 1 \<or> MAX_BIGINT_ID < read_nat i then None
            else Some (if t = ''OF'' then LockOf else LockCommande, show_nat (read_nat i))
          else None
      | _ \<Rightarrow> None)"

text \<open>\<open>profile\<close> is the answer of \<open>resolveAccessProfile\<close>, \<open>None\<close> if it throws.\<close>

definition authorize_lock_entity ::
  "access_profile option option \<Rightarrow> string \<Rightarrow> string \<Rightarrow> lock_error + lockable \<times> string" where
  "authorize_lock_entity profile entity_type entity_id =
     (case normalize_lock_entity entity_type entity_id of
        None \<Rightarrow> Inl InvalidLockEntity
      | Some e \<Rightarrow>
          (case module_for_realtime_entity (JStr (lockable_name (fst e))) of
             None \<Rightarrow> Inl InvalidLockEntity
           | Some m \<Rightarrow>
               (case profile of
                  None \<Rightarrow> Inl LockAuthorizationUnavailable
                | Some None \<Rightarrow> Inl LockAuthorizationUnavailable
                | Some (Some p) \<Rightarrow>
                    if realtime_access_profile_allows_module (Some p) m then Inr e else Inl LockForbidden)))"

text \<open>\<open>svcAcquireLock\<close>: a first attempt; if it found neither the lock nor a holder, the holder is read
  again, and if there is none still, one more attempt. \<open>between\<close> is what other transactions do in
  the meantime.\<close>

definition svc_acquire_lock ::
  "lock_env \<Rightarrow> access_profile option option \<Rightarrow> int \<times> int \<times> int \<Rightarrow> (string \<times> string \<times> string) \<times> string \<times> string \<times> string
     \<Rightarrow> (lock_db \<Rightarrow> lock_db) \<Rightarrow> string \<Rightarrow> string \<Rightarrow> nat \<Rightarrow> string option \<Rightarrow> lock_db
     \<Rightarrow> (lock_error + bool \<times> lock_row) \<times> lock_db" where
  "svc_acquire_lock env profile ts ids between entity_type entity_id user reason db =
     (case (ts, ids) of ((t1, t2, t3), ((f1, ids1), (f2, ids2))) \<Rightarrow>
       (case authorize_lock_entity profile entity_type entity_id of
          Inl e \<Rightarrow> (Inl e, db)
        | Inr (t, i) \<Rightarrow>
            (case repo_acquire_lock env t1 f1 ids1 t i user reason db of
               Inl e \<Rightarrow> (Inl (LockEnqueue e), db)
             | Inr (r, db1) \<Rightarrow>
                 if \<not> aq_entity_exists r then (Inl LockEntityNotFound, db1)
                 else
                   (case (aq_acquired r, aq_lock r) of
                      (True, Some l) \<Rightarrow> (Inr (True, l), db1)
                    | (_, first) \<Rightarrow>
                        (let db2 = between db1 in
                         case (case first of Some l \<Rightarrow> Some l | None \<Rightarrow> repo_get_active_lock t2 t i db2) of
                           Some l \<Rightarrow> (Inr (lk_by l = user, l), db2)
                         | None \<Rightarrow>
                             (case repo_acquire_lock env t3 f2 ids2 t i user reason db2 of
                                Inl e \<Rightarrow> (Inl (LockEnqueue e), db2)
                              | Inr (r2, db3) \<Rightarrow>
                                  if \<not> aq_entity_exists r2 then (Inl LockEntityNotFound, db3)
                                  else (case aq_lock r2 of
                                          Some l \<Rightarrow> (Inr (aq_acquired r2, l), db3)
                                        | None \<Rightarrow> (Inl LockAcquireFailed, db3))))))))"

definition svc_heartbeat_lock ::
  "lock_env \<Rightarrow> access_profile option option \<Rightarrow> int \<times> int \<times> int \<Rightarrow> (string \<times> string \<times> string) \<times> string \<times> string \<times> string
     \<Rightarrow> (lock_db \<Rightarrow> lock_db) \<Rightarrow> string \<Rightarrow> string \<Rightarrow> nat \<Rightarrow> lock_db \<Rightarrow> (lock_error + bool \<times> lock_row) \<times> lock_db" where
  "svc_heartbeat_lock env profile ts ids between entity_type entity_id user db =
     svc_acquire_lock env profile ts ids between entity_type entity_id user None db"

definition svc_release_lock ::
  "lock_env \<Rightarrow> access_profile option option \<Rightarrow> int \<times> int \<Rightarrow> string \<times> string \<Rightarrow> (lock_db \<Rightarrow> lock_db)
     \<Rightarrow> string \<Rightarrow> string \<Rightarrow> nat \<Rightarrow> lock_db \<Rightarrow> (lock_error + lock_row option) \<times> lock_db" where
  "svc_release_lock env profile ts ids between entity_type entity_id user db =
     (case authorize_lock_entity profile entity_type entity_id of
        Inl e \<Rightarrow> (Inl e, db)
      | Inr (t, i) \<Rightarrow>
          (case repo_release_lock env (fst ts) ids t i user db of
             Inl e \<Rightarrow> (Inl (LockEnqueue e), db)
           | Inr ((exists, released), db1) \<Rightarrow>
               if \<not> exists then (Inl LockEntityNotFound, db1)
               else if released then (Inr None, db1)
               else (case repo_get_active_lock (snd ts) t i (between db1) of
                       None \<Rightarrow> (Inr None, between db1)
                     | Some l \<Rightarrow> (Inr (if lk_by l = user then None else Some l), between db1))))"

section \<open>The maintenance sweep\<close>

definition EXPIRED_LOCK_SWEEP_BATCH :: nat where "EXPIRED_LOCK_SWEEP_BATCH = 500"

lemma announce_locks: "announce env now ids t i locked lock key db = Inr db1 \<Longrightarrow> ld_locks db1 = ld_locks db \<and> ld_entities db1 = ld_entities db"
  by (auto simp: announce_def split: sum.splits)

lemma announce_expired_locks: "announce_expired env now rs db = Inr db1 \<Longrightarrow> ld_locks db1 = ld_locks db \<and> ld_entities db1 = ld_entities db"
proof (induction rs arbitrary: db)
  case (Cons p rs)
  obtain r ids where p: "p = (r, ids)" by (rule prod.exhaust)
  then obtain db2 where d: "announce env now ids (lk_type r) (lk_entity r) False JNull (expired_key env r) db = Inr db2"
    "announce_expired env now rs db2 = Inr db1" using Cons.prems by (auto split: sum.splits)
  from Cons.IH [OF d(2)] announce_locks [OF d(1)] show ?case by simp
qed simp

lemma claimed_rows_in: "r \<in> set (claimed_rows now held limit rows) \<Longrightarrow> r \<in> set rows \<and> lk_expires_at r \<le> now \<and> lk_id r \<notin> set held"
  by (auto simp: claimed_rows_def dest: in_set_takeD)

lemma repo_expire_state:
  assumes "repo_expire_locks env now ids held limit db = Inr (n, db1)"
  shows "n = length (claimed_rows now held limit (ld_locks db))" "ld_entities db1 = ld_entities db"
    "ld_locks db1 = filter (\<lambda>r. lk_id r \<notin> lk_id ` set (claimed_rows now held limit (ld_locks db))) (ld_locks db)"
  using assms announce_expired_locks by (fastforce simp: repo_expire_locks_def Let_def split: sum.splits)+

lemma repo_expire_shrinks:
  assumes "repo_expire_locks env now ids held limit db = Inr (n, db1)" "0 < n"
  shows "length (ld_locks db1) < length (ld_locks db)"
proof -
  let ?c = "claimed_rows now held limit (ld_locks db)"
  obtain r where r: "r \<in> set ?c" using repo_expire_state(1) [OF assms(1)] assms(2) by (cases ?c) auto
  then have "r \<in> set (ld_locks db)" by (auto dest: claimed_rows_in)
  then show ?thesis
    unfolding repo_expire_state(3) [OF assms(1)] using r by (intro length_filter_less [of r]) auto
qed

text \<open>One run of the timer: batches are expired until one is not full. An error ends the run.\<close>

function sweep_locks ::
  "lock_env \<Rightarrow> int \<Rightarrow> (nat \<Rightarrow> nat \<Rightarrow> string \<times> string) \<Rightarrow> string list \<Rightarrow> nat \<Rightarrow> lock_db \<Rightarrow> bool \<times> lock_db" where
  "sweep_locks env now ids held k db =
     (case repo_expire_locks env now (ids k) held (int EXPIRED_LOCK_SWEEP_BATCH) db of
        Inl e \<Rightarrow> (False, db)
      | Inr (n, db1) \<Rightarrow> if n = EXPIRED_LOCK_SWEEP_BATCH then sweep_locks env now ids held (k + 1) db1 else (True, db1))"
  by pat_completeness auto
termination
  by (relation "measure (\<lambda>(env, now, ids, held, k, db). length (ld_locks db))")
    (auto simp: EXPIRED_LOCK_SWEEP_BATCH_def dest: repo_expire_shrinks)

declare sweep_locks.simps [simp del]

end
