(* ===== verification/Lock_Events.thy ===== *)
theory Lock_Events
  imports Entity_Locks
begin

text \<open>
  What the locks promise. A lock is exclusive until it expires; the events queued in the outbox tell
  a client exactly the locks of the table, whoever acquires, renews, takes over, releases or
  sweeps them; a sweep clears every expired lock.
\<close>

section \<open>Keys\<close>

definition env_ok :: "lock_env \<Rightarrow> bool" where
  "env_ok env \<longleftrightarrow> inj (le_show_time env) \<and> (\<forall>e. le_show_time env e \<noteq> [] \<and> \<not> js_space (last (le_show_time env e)))"

lemma key_split:
  assumes "CHR '':'' \<notin> set j" "CHR '':'' \<notin> set j'" "j @ CHR '':'' # x = j' @ CHR '':'' # y"
  shows "j = j' \<and> x = y"
proof -
  have t: "takeWhile (\<lambda>c. c \<noteq> CHR '':'') (k @ CHR '':'' # z) = k" if "CHR '':'' \<notin> set k" for k z
    using that by (subst takeWhile_append2) auto
  from t [OF assms(1)] t [OF assms(2)] assms(3) have "j = j'" by metis
  with assms(3) show ?thesis by simp
qed

lemma js_space_r: "\<not> js_space (CHR ''d'')" "\<not> js_space (CHR ''l'')"
  by code_simp+

lemma keys_trimmed:
  assumes "env_ok env"
  shows "js_trim (held_key env r) = held_key env r" "js_trim (released_key r) = released_key r"
    "js_trim (expired_key env r) = expired_key env r"
  using assms js_space_r by (simp_all add: env_ok_def held_key_def released_key_def expired_key_def trimmed_def)

section \<open>What a client sees\<close>

text \<open>The lock in a \<open>lock:updated\<close> event of the outbox, with its entity.\<close>

definition lock_event :: "outbox_row \<Rightarrow> (string \<times> string \<times> json) option" where
  "lock_event r =
     (case payload_input (ox_payload r) of
        JObj es \<Rightarrow>
          if member es ''event'' = JStr ''lock:updated'' then
            (case member es ''payload'' of
               JObj p \<Rightarrow> Some (text_of (member p ''entityType''), text_of (member p ''entityId''), member p ''lock'')
             | _ \<Rightarrow> None)
          else None
      | _ \<Rightarrow> None)"

text \<open>A client that applies the events in the order of the queue; \<open>JNull\<close> is "not locked".\<close>

definition apply_event :: "string \<Rightarrow> string \<Rightarrow> json \<Rightarrow> outbox_row \<Rightarrow> json" where
  "apply_event t i seen r =
     (case lock_event r of
        Some (t', i', l) \<Rightarrow> if t' = t \<and> i' = i then l else seen
      | None \<Rightarrow> seen)"

definition client_view :: "outbox \<Rightarrow> lockable \<Rightarrow> string \<Rightarrow> json" where
  "client_view ob t i = foldl (apply_event (lockable_name t) i) JNull (ob_rows ob)"

definition table_view :: "lock_env \<Rightarrow> lock_row list \<Rightarrow> lockable \<Rightarrow> string \<Rightarrow> json" where
  "table_view env rows t i =
     (case find (on_entity t i) rows of None \<Rightarrow> JNull | Some r \<Rightarrow> normal (to_entity_lock env r))"

lemma lockable_name_inj: "lockable_name t = lockable_name u \<longleftrightarrow> t = u"
  by (cases t; cases u) simp_all

section \<open>Announcing\<close>

lemma queued_lock_event:
  assumes "pi_event inp = ''lock:updated''" "pi_payload inp = JObj (lock_payload t i locked lock)" "lock \<noteq> JUndefined"
    "ox_payload r = normal (envelope_json event_id inp)"
  shows "lock_event r = Some (lockable_name t, i, normal lock)"
proof -
  let ?env = "[(''schemaVersion'', JNum ''1''), (''eventId'', JStr event_id), (''input'', input_json inp)]"
  obtain es where es: "input_json inp = JObj es" by (simp add: input_json_def)
  obtain env where env: "normal (JObj ?env) = JObj env" by simp
  obtain es' where es': "normal (JObj es) = JObj es'" by simp
  obtain p' where p': "normal (JObj (lock_payload t i locked lock)) = JObj p'" by simp
  have d: "distinct (map fst ?env)" "distinct (map fst (lock_payload t i locked lock))"
    by (simp_all add: lock_payload_def)
  have "member ?env ''input'' = JObj es" by (simp add: member_def es)
  then have 1: "member env ''input'' = JObj es'"
    using es' by (simp add: member_normal [OF d(1) env] del: normal.simps(4))
  have 2: "member es' ''event'' = JStr ''lock:updated''" "member es' ''payload'' = JObj p'"
    using p' by (simp_all add: member_normal [OF input_json_members(1) [OF es] es'] input_json_members(2,3) [OF es]
        assms(1,2) del: normal.simps(4))
  have "member (lock_payload t i locked lock) ''entityType'' = JStr (lockable_name t)"
    "member (lock_payload t i locked lock) ''entityId'' = JStr i" "member (lock_payload t i locked lock) ''lock'' = lock"
    by (simp_all add: lock_payload_def member_def)
  then have 3: "member p' ''entityType'' = JStr (lockable_name t)" "member p' ''entityId'' = JStr i"
    "member p' ''lock'' = normal lock"
    using assms(3) by (simp_all add: member_normal [OF d(2) p'])
  have "payload_input (ox_payload r) = JObj es'"
    using env 1 by (simp add: assms(4) envelope_json_def del: normal.simps)
  then show ?thesis by (simp add: lock_event_def 2 3)
qed

definition outbox_keys :: "outbox \<Rightarrow> string set" where
  "outbox_keys ob = ox_event_key ` set (ob_rows ob)"

lemma announce_parts:
  assumes "announce env now ids t i locked lock key db = Inr db1" "js_trim key = key" "lock \<noteq> JUndefined"
  obtains (old) "db1 = db" "realtime_outbox_event_key key \<in> outbox_keys (ld_outbox db)"
    | (new) row ob where "realtime_outbox_event_key key \<notin> outbox_keys (ld_outbox db)" "db1 = db\<lparr>ld_outbox := ob\<rparr>"
      "ob_rows ob = ob_rows (ld_outbox db) @ [row]" "ox_event_key row = realtime_outbox_event_key key"
      "lock_event row = Some (lockable_name t, i, normal lock)"
proof -
  obtain e ob where ob: "enqueue_lock_updated (le_date_ok env) now (fst ids) (snd ids) (lock_payload t i locked lock) None
      (JStr key) (ld_outbox db) = Inr (e, ob)" "db1 = db\<lparr>ld_outbox := ob\<rparr>"
    using assms(1) by (auto simp: announce_def split: sum.splits)
  then obtain s st where q: "enqueue_realtime_event (le_date_ok env) now (fst ids) (snd ids)
      (dispatch_input ''lock:updated'' (JObj (lock_payload t i locked lock)) [s] st (JStr key)) (ld_outbox db) = Inr (e, ob)"
    by (auto simp: enqueue_lock_updated_def enqueue_dispatch_def split: option.splits)
  let ?obj = "dispatch_input ''lock:updated'' (JObj (lock_payload t i locked lock)) [s] st (JStr key)"
  have k: "member ?obj ''deduplicationKey'' = JStr key" by (simp add: dispatch_input_def member_def)
  show ?thesis
    using q
  proof (cases rule: enqueue_parts)
    case (old k' r)
    have "ox_event_key r \<in> outbox_keys (ld_outbox db)" using old(2) by (simp add: outbox_keys_def)
    with k assms(2) old(4,5) have "realtime_outbox_event_key key \<in> outbox_keys (ld_outbox db)" by simp
    with old(1) ob(2) that(1) show ?thesis by simp
  next
    case (new k' key' inp row)
    with k assms(2) have key: "key' = key" by simp
    have m: "member (with_key ?obj key') ''event'' = JStr ''lock:updated''"
      "member (with_key ?obj key') ''payload'' = JObj (lock_payload t i locked lock)"
      by (simp_all add: with_key_def dispatch_input_def member_def)
    have inp: "pi_event inp = ''lock:updated''" "pi_payload inp = JObj (lock_payload t i locked lock)"
      using new(4) by (auto simp: m simp del: normalize_stored_targets.simps input_key.simps
          split: json.splits option.splits if_splits)
    have row: "ox_payload row = normal (envelope_json (snd ids) inp)" "ox_event_key row = realtime_outbox_event_key key"
      using key by (simp_all add: new(8))
    have "realtime_outbox_event_key key \<notin> outbox_keys (ld_outbox db)"
      using new(7) key by (simp add: outbox_keys_def)
    from that(2) [OF this ob(2) _ row(2) queued_lock_event [OF inp assms(3) row(1)]] new(9) show ?thesis by simp
  qed
qed

lemma client_view_append:
  assumes "ob_rows ob = ob_rows ob0 @ [row]" "lock_event row = Some (lockable_name t, i, l)"
  shows "client_view ob u j = (if u = t \<and> j = i then l else client_view ob0 u j)"
  using assms lockable_name_inj by (auto simp: client_view_def apply_event_def)

section \<open>The invariant\<close>

abbreviation entity_of :: "lock_row \<Rightarrow> lockable \<times> string" where "entity_of r \<equiv> (lk_type r, lk_entity r)"

definition key_of :: "string \<Rightarrow> string \<Rightarrow> string" where
  "key_of j x = realtime_outbox_event_key (''lock:'' @ j @ CHR '':'' # x)"

text \<open>Of the keys of the outbox those with the identifier of the row are \<open>held\<close> keys, up to its expiry.\<close>

definition row_ok :: "lock_env \<Rightarrow> string set \<Rightarrow> int \<Rightarrow> outbox \<Rightarrow> lock_row \<Rightarrow> bool" where
  "row_ok env used now ob r \<longleftrightarrow> lk_id r \<in> used \<and> CHR '':'' \<notin> set (lk_id r)
     \<and> lk_expires_at r = lk_locked_at r + LOCK_TTL \<and> lk_locked_at r \<le> now
     \<and> (\<forall>x. key_of (lk_id r) x \<in> outbox_keys ob \<longrightarrow> (\<exists>e \<le> lk_expires_at r. x = ''held:'' @ le_show_time env e))"

lemma row_ok_held:
  "row_ok env used now ob r \<Longrightarrow> key_of (lk_id r) x \<in> outbox_keys ob \<Longrightarrow>
     \<exists>e \<le> lk_expires_at r. x = ''held:'' @ le_show_time env e"
  unfolding row_ok_def by blast

definition keys_used :: "string set \<Rightarrow> outbox \<Rightarrow> bool" where
  "keys_used used ob \<longleftrightarrow> (\<forall>j x. CHR '':'' \<notin> set j \<longrightarrow> key_of j x \<in> outbox_keys ob \<longrightarrow> j \<in> used)"

text \<open>\<open>gone\<close>: rows deleted whose event is still to be queued.\<close>

definition lock_inv :: "lock_env \<Rightarrow> string set \<Rightarrow> int \<Rightarrow> lock_row list \<Rightarrow> lock_row list \<Rightarrow> outbox \<Rightarrow> bool" where
  "lock_inv env used now rows gone ob \<longleftrightarrow>
     (\<forall>r \<in> set (rows @ gone). row_ok env used now ob r) \<and> keys_used used ob
     \<and> distinct (map lk_id (rows @ gone)) \<and> distinct (map entity_of (rows @ gone))
     \<and> (\<forall>t i. (\<exists>r \<in> set gone. on_entity t i r) \<or> client_view ob t i = table_view env rows t i)"

lemma lock_inv_view:
  "lock_inv env used now rows gone ob \<Longrightarrow> (\<exists>r \<in> set gone. on_entity t i r) \<or> client_view ob t i = table_view env rows t i"
  unfolding lock_inv_def by blast

lemma key_of_eq: "CHR '':'' \<notin> set j \<Longrightarrow> CHR '':'' \<notin> set j' \<Longrightarrow> key_of j x = key_of j' y \<longleftrightarrow> j = j' \<and> x = y"
  using key_split [of j j' x y] by (auto simp: key_of_def)

lemma row_unique: "distinct (map f rows) \<Longrightarrow> x \<in> set rows \<Longrightarrow> y \<in> set rows \<Longrightarrow> f x = f y \<Longrightarrow> x = y"
  by (simp add: distinct_map inj_on_def)

lemma lock_keys:
  "realtime_outbox_event_key (held_key env r) = key_of (lk_id r) (''held:'' @ le_show_time env (lk_expires_at r))"
  "realtime_outbox_event_key (released_key r) = key_of (lk_id r) ''released''"
  "realtime_outbox_event_key (expired_key env r) = key_of (lk_id r) (''expired:'' @ le_show_time env (lk_expires_at r))"
  by (simp_all add: held_key_def released_key_def expired_key_def key_of_def)

text \<open>Queueing an event of one row does not concern the others.\<close>

lemma row_ok_append:
  assumes "row_ok env used now ob r" "ob_rows ob' = ob_rows ob @ [row]" "ox_event_key row = key_of j x"
    "CHR '':'' \<notin> set j" "lk_id r \<noteq> j \<or> (\<exists>e \<le> lk_expires_at r. x = ''held:'' @ le_show_time env e)"
  shows "row_ok env used now ob' r"
proof -
  have k: "outbox_keys ob' = insert (key_of j x) (outbox_keys ob)" by (simp add: outbox_keys_def assms(2,3))
  have "CHR '':'' \<notin> set (lk_id r)" using assms(1) by (simp add: row_ok_def)
  from key_of_eq [OF this assms(4)] assms(1,5) show ?thesis unfolding row_ok_def k by auto
qed

lemma keys_used_append:
  assumes "keys_used used ob" "ob_rows ob' = ob_rows ob @ [row]" "ox_event_key row = key_of j x"
    "CHR '':'' \<notin> set j" "j \<in> used'" "used \<subseteq> used'"
  shows "keys_used used' ob'"
proof -
  have k: "outbox_keys ob' = insert (key_of j x) (outbox_keys ob)" by (simp add: outbox_keys_def assms(2,3))
  show ?thesis
    using assms(1,5,6) key_of_eq [OF _ assms(4)] unfolding keys_used_def k by blast
qed

lemma row_ok_mono: "row_ok env used now ob r \<Longrightarrow> used \<subseteq> used' \<Longrightarrow> now \<le> now' \<Longrightarrow> row_ok env used' now' ob r"
  by (auto simp: row_ok_def)

lemma table_view_none: "entity_of r \<notin> entity_of ` set rows \<Longrightarrow> table_view env rows (lk_type r) (lk_entity r) = JNull"
proof -
  assume "entity_of r \<notin> entity_of ` set rows"
  then have "\<not> (\<exists>x. x \<in> set rows \<and> on_entity (lk_type r) (lk_entity r) x)"
    by (metis (no_types, lifting) image_eqI on_entity_def)
  then have "find (on_entity (lk_type r) (lk_entity r)) rows = None" unfolding find_None_iff .
  then show ?thesis by (simp add: table_view_def)
qed

text \<open>Deleted rows wait for their events.\<close>

lemma lock_inv_delete:
  assumes "lock_inv env used now rows [] ob" "set gone \<subseteq> set rows" "distinct gone"
    "rows' = filter (\<lambda>r. r \<notin> set gone) rows"
  shows "lock_inv env used now rows' gone ob"
proof -
  have d: "distinct (map lk_id rows)" "distinct (map entity_of rows)" using assms(1) by (simp_all add: lock_inv_def)
  have inj: "inj_on lk_id (set rows)" "inj_on entity_of (set rows)" "distinct rows" using d by (simp_all add: distinct_map)
  have s: "set (rows' @ gone) \<subseteq> set rows" "distinct (rows' @ gone)" using assms(2,3,4) inj(3) by auto
  have "distinct (map lk_id (rows' @ gone))" "distinct (map entity_of (rows' @ gone))"
    unfolding distinct_map using s inj_on_subset [OF inj(1) s(1)] inj_on_subset [OF inj(2) s(1)] by simp_all
  moreover have "(\<exists>r \<in> set gone. on_entity t i r) \<or> client_view ob t i = table_view env rows' t i" for t i
  proof (cases "\<exists>r \<in> set gone. on_entity t i r")
    case False
    have "find (on_entity t i) rows' = find (on_entity t i) rows"
      unfolding assms(4) using False by (induction rows) auto
    with assms(1) show ?thesis by (simp add: lock_inv_def table_view_def)
  qed simp
  moreover have "\<forall>r \<in> set (rows' @ gone). row_ok env used now ob r" using assms(1) s(1) by (auto simp: lock_inv_def)
  ultimately show ?thesis using assms(1) unfolding lock_inv_def by blast
qed

text \<open>The event of a deleted row.\<close>

lemma lock_inv_announced:
  assumes "lock_inv env used now rows (r # gone) (ld_outbox db)" "js_trim key = key"
    "announce env now' ids (lk_type r) (lk_entity r) False JNull key db = Inr db1"
    "realtime_outbox_event_key key = key_of (lk_id r) x" "\<And>e. x \<noteq> ''held:'' @ le_show_time env e"
  shows "lock_inv env used now rows gone (ld_outbox db1)"
proof -
  have r: "row_ok env used now (ld_outbox db) r" using assms(1) by (simp add: lock_inv_def)
  then have c: "CHR '':'' \<notin> set (lk_id r)" "lk_id r \<in> used" by (simp_all add: row_ok_def)
  have "JNull \<noteq> JUndefined" by simp
  with assms(3,2) show ?thesis
  proof (cases rule: announce_parts)
    case old
    then have "key_of (lk_id r) x \<in> outbox_keys (ld_outbox db)" using assms(4) by simp
    from row_ok_held [OF r this] obtain e where "x = ''held:'' @ le_show_time env e" by blast
    with assms(5) show ?thesis by blast
  next
    case (new row ob)
    have ob: "ld_outbox db1 = ob" by (simp add: new(2))
    have k: "ox_event_key row = key_of (lk_id r) x" by (simp add: new(4) assms(4))
    have "distinct (map lk_id (rows @ r # gone)) \<and> distinct (map entity_of (rows @ r # gone))"
      using assms(1) unfolding lock_inv_def by (elim conjE) (intro conjI)
    then have notin: "lk_id r \<notin> lk_id ` set (rows @ gone)" "entity_of r \<notin> entity_of ` set (rows @ gone)"
      by auto
    have other: "lk_id r' \<noteq> lk_id r" if "r' \<in> set (rows @ gone)" for r'
      using notin(1) imageI [OF that, of lk_id] by metis
    have "row_ok env used now ob r'" if "r' \<in> set (rows @ gone)" for r'
      using row_ok_append [OF _ new(3) k c(1)] other [OF that] assms(1) that by (auto simp: lock_inv_def)
    moreover have "keys_used used ob"
      using assms(1) by (intro keys_used_append [OF _ new(3) k c(1,2)]) (auto simp: lock_inv_def)
    moreover have "(\<exists>r \<in> set gone. on_entity t i r) \<or> client_view ob t i = table_view env rows t i" for t i
    proof (cases "t = lk_type r \<and> i = lk_entity r")
      case True
      have "entity_of r \<notin> entity_of ` set rows" using notin(2) by auto
      then show ?thesis using True client_view_append [OF new(3,5)] by (simp add: table_view_none)
    next
      case False
      then have "\<not> on_entity t i r" by (auto simp: on_entity_def)
      with lock_inv_view [OF assms(1), of t i]
      have "(\<exists>r \<in> set gone. on_entity t i r) \<or> client_view (ld_outbox db) t i = table_view env rows t i"
        by simp
      then show ?thesis using False client_view_append [OF new(3,5)] by auto
    qed
    ultimately show ?thesis using assms(1) by (simp add: lock_inv_def ob)
  qed
qed

section \<open>Every operation keeps it\<close>

lemma lock_inv_mono: "lock_inv env used now rows gone ob \<Longrightarrow> used \<subseteq> used' \<Longrightarrow> now \<le> now' \<Longrightarrow> lock_inv env used' now' rows gone ob"
  using row_ok_mono unfolding lock_inv_def keys_used_def by blast

lemma announce_expired_inv:
  assumes "env_ok env"
  shows "announce_expired env now' rs db = Inr db1 \<Longrightarrow> lock_inv env used now rows (map fst rs) (ld_outbox db) \<Longrightarrow>
    lock_inv env used now rows [] (ld_outbox db1)"
proof (induction rs arbitrary: db)
  case (Cons p rs)
  obtain r ids where p: "p = (r, ids)" by (rule prod.exhaust)
  obtain db2 where d: "announce env now' ids (lk_type r) (lk_entity r) False JNull (expired_key env r) db = Inr db2"
    "announce_expired env now' rs db2 = Inr db1" using Cons.prems(1) by (auto simp: p split: sum.splits)
  have "lock_inv env used now rows (r # map fst rs) (ld_outbox db)" using Cons.prems(2) by (simp add: p)
  from lock_inv_announced [OF this keys_trimmed(3) [OF assms] d(1) lock_keys(3)]
  have "lock_inv env used now rows (map fst rs) (ld_outbox db2)" by simp
  from Cons.IH [OF d(2) this] show ?case .
qed simp

lemma claimed_distinct: "distinct (map lk_id rows) \<Longrightarrow> distinct (claimed_rows now held limit rows)"
  by (simp add: claimed_rows_def distinct_take distinct_map)

lemma expire_inv:
  assumes "env_ok env" "lock_inv env used now (ld_locks db) [] (ld_outbox db)"
    "repo_expire_locks env now ids held limit db = Inr (n, db1)"
  shows "lock_inv env used now (ld_locks db1) [] (ld_outbox db1)"
proof -
  let ?c = "claimed_rows now held limit (ld_locks db)"
  let ?db = "db\<lparr>ld_locks := filter (\<lambda>r. lk_id r \<notin> lk_id ` set ?c) (ld_locks db)\<rparr>"
  have a: "announce_expired env now (zip ?c (map ids [0..<length ?c])) ?db = Inr db1"
    using assms(3) by (auto simp: repo_expire_locks_def Let_def split: sum.splits)
  have d: "distinct (map lk_id (ld_locks db))" using assms(2) by (simp add: lock_inv_def)
  have c: "set ?c \<subseteq> set (ld_locks db)" using claimed_rows_in by blast
  have "r \<in> set ?c" if r: "r \<in> set (ld_locks db)" "lk_id r \<in> lk_id ` set ?c" for r
  proof -
    obtain x where "x \<in> set ?c" "lk_id x = lk_id r" using r(2) by auto
    with row_unique [OF d r(1), of x] c show ?thesis by auto
  qed
  then have "filter (\<lambda>r. lk_id r \<notin> lk_id ` set ?c) (ld_locks db) = filter (\<lambda>r. r \<notin> set ?c) (ld_locks db)"
    by (intro filter_cong) auto
  with lock_inv_delete [OF assms(2) c claimed_distinct [OF d]]
  have "lock_inv env used now (ld_locks ?db) (map fst (zip ?c (map ids [0..<length ?c]))) (ld_outbox ?db)" by simp
  from announce_expired_inv [OF assms(1) a this] announce_expired_locks [OF a] show ?thesis by simp
qed

lemma release_inv:
  assumes "env_ok env" "lock_inv env used now (ld_locks db) [] (ld_outbox db)"
    "repo_release_lock env now ids t i user db = Inr (res, db1)"
  shows "lock_inv env used now (ld_locks db1) [] (ld_outbox db1)"
proof (cases "\<exists>r. (t, i) \<in> set (ld_entities db) \<and> find (\<lambda>r. on_entity t i r \<and> lk_by r = user) (ld_locks db) = Some r")
  case False
  then have "db1 = db" using assms(3) by (auto simp: repo_release_lock_def split: if_splits option.splits)
  with assms(2) show ?thesis by simp
next
  case True
  then obtain r where f: "find (\<lambda>r. on_entity t i r \<and> lk_by r = user) (ld_locks db) = Some r" "(t, i) \<in> set (ld_entities db)"
    by blast
  then have r: "r \<in> set (ld_locks db)" "on_entity t i r" "lk_by r = user" by (auto simp: find_Some_iff)
  let ?P = "\<lambda>x. \<not> (on_entity t i x \<and> lk_by x = user)"
  let ?db = "db\<lparr>ld_locks := filter ?P (ld_locks db)\<rparr>"
  have a: "announce env now ids (lk_type r) (lk_entity r) False JNull (released_key r) ?db = Inr db1"
    using assms(3) f r(2) by (auto simp: repo_release_lock_def on_entity_def split: sum.splits)
  have d: "distinct (map entity_of (ld_locks db))" using assms(2) by (simp add: lock_inv_def)
  have u: "x = r" if "x \<in> set (ld_locks db)" "\<not> ?P x" for x
    using row_unique [OF d that(1) r(1)] that(2) r(2) by (simp add: on_entity_def)
  have "?P x \<longleftrightarrow> x \<notin> set [r]" if "x \<in> set (ld_locks db)" for x
  proof (cases "?P x")
    case True
    then have "x \<noteq> r" using r(2,3) by blast
    with True show ?thesis by simp
  next
    case False
    with u [OF that False] show ?thesis by simp
  qed
  then have "filter ?P (ld_locks db) = filter (\<lambda>x. x \<notin> set [r]) (ld_locks db)" by (intro filter_cong refl)
  with lock_inv_delete [OF assms(2), of "[r]"] r(1) have "lock_inv env used now (ld_locks ?db) [r] (ld_outbox ?db)" by simp
  from lock_inv_announced [OF this keys_trimmed(2) [OF assms(1)] a lock_keys(2)] announce_locks [OF a]
  show ?thesis by simp
qed

lemma table_view_row:
  assumes "distinct (map entity_of rows)" "r \<in> set rows"
  shows "table_view env rows (lk_type r) (lk_entity r) = normal (to_entity_lock env r)"
proof (cases "find (on_entity (lk_type r) (lk_entity r)) rows")
  case None
  then show ?thesis using assms(2) by (auto simp: find_None_iff on_entity_def)
next
  case (Some x)
  then have "x \<in> set rows" "entity_of x = entity_of r" by (auto simp: find_Some_iff on_entity_def)
  then have "x = r" using row_unique [OF assms(1) _ assms(2)] by blast
  with Some show ?thesis by (simp add: table_view_def)
qed

text \<open>The event of a lock that is taken, renewed or taken over.\<close>

lemma held_announced:
  assumes "env_ok env"
    and "announce env now' ids (lk_type r) (lk_entity r) True (to_entity_lock env r) (held_key env r) db = Inr db1"
    and "\<And>x. x \<in> set rows \<Longrightarrow> row_ok env used now (ld_outbox db) x" "keys_used used (ld_outbox db)"
    and "distinct (map lk_id rows)" "distinct (map entity_of rows)" "r \<in> set rows"
    and "\<And>t i. \<not> on_entity t i r \<Longrightarrow> client_view (ld_outbox db) t i = table_view env rows t i"
    and "realtime_outbox_event_key (held_key env r) \<in> outbox_keys (ld_outbox db) \<Longrightarrow>
      client_view (ld_outbox db) (lk_type r) (lk_entity r) = normal (to_entity_lock env r)"
  shows "lock_inv env used now rows [] (ld_outbox db1)"
proof -
  have v: "table_view env rows (lk_type r) (lk_entity r) = normal (to_entity_lock env r)"
    using table_view_row [OF assms(6,7)] .
  have c: "CHR '':'' \<notin> set (lk_id r)" "lk_id r \<in> used" using assms(3) [OF assms(7)] by (simp_all add: row_ok_def)
  have "to_entity_lock env r \<noteq> JUndefined" by (simp add: to_entity_lock_def)
  with assms(2) keys_trimmed(1) [OF assms(1)] show ?thesis
  proof (cases rule: announce_parts)
    case old
    have "client_view (ld_outbox db) t i = table_view env rows t i" for t i
      using assms(8) [of t i] assms(9) [OF old(2)] v by (cases "on_entity t i r") (auto simp: on_entity_def)
    then show ?thesis using assms(3-6) by (simp add: lock_inv_def old(1))
  next
    case (new row ob)
    have k: "ox_event_key row = key_of (lk_id r) (''held:'' @ le_show_time env (lk_expires_at r))"
      by (simp only: new(4) lock_keys)
    have "row_ok env used now ob x" if x: "x \<in> set rows" for x
    proof (rule row_ok_append [OF assms(3) [OF x] new(3) k c(1)])
      show "lk_id x \<noteq> lk_id r \<or> (\<exists>e \<le> lk_expires_at x. ''held:'' @ le_show_time env (lk_expires_at r) = ''held:'' @ le_show_time env e)"
        using row_unique [OF assms(5) x assms(7)] by auto
    qed
    moreover have "keys_used used ob" by (rule keys_used_append [OF assms(4) new(3) k c subset_refl])
    moreover have "client_view ob t i = table_view env rows t i" for t i
      using client_view_append [OF new(3,5), of t i] assms(8) [of t i] v by (auto simp: on_entity_def)
    ultimately show ?thesis using assms(5,6) by (simp add: lock_inv_def new(2))
  qed
qed

lemma find_skip: "\<not> P r \<Longrightarrow> find P (xs @ [r]) = find P xs"
  by (induction xs) auto

lemma find_replace:
  "(\<And>x. P x \<Longrightarrow> \<not> Q x) \<Longrightarrow> \<not> Q r \<Longrightarrow> find Q (map (\<lambda>x. if P x then r else x) xs) = find Q xs"
  by (induction xs) auto

lemma acquire_inv:
  assumes e: "env_ok env" and inv: "lock_inv env used now (ld_locks db) [] (ld_outbox db)"
    and fresh: "fresh \<notin> used" "CHR '':'' \<notin> set fresh"
    and a: "repo_acquire_lock env now fresh ids t i user reason db = Inr (res, db1)"
  shows "lock_inv env (insert fresh used) now (ld_locks db1) [] (ld_outbox db1)"
proof (cases "(t, i) \<in> set (ld_entities db) \<and> upsert_lock now fresh t i user reason (ld_locks db) \<noteq> None")
  case False
  then have "db1 = db" using a by (auto simp: repo_acquire_lock_def split: if_splits option.splits)
  with lock_inv_mono [OF inv, of "insert fresh used" now] show ?thesis by auto
next
  case True
  then obtain r rows where up: "upsert_lock now fresh t i user reason (ld_locks db) = Some (r, rows)" by auto
  let ?u = "insert fresh used" and ?db = "db\<lparr>ld_locks := rows\<rparr>" and ?l = "ld_locks db"
  have r: "lk_type r = t" "lk_entity r = i"
    using up by (auto simp: upsert_lock_def Let_def find_Some_iff on_entity_def split: option.splits if_splits)
  have an: "announce env now ids (lk_type r) (lk_entity r) True (to_entity_lock env r) (held_key env r) ?db = Inr db1"
    using a True up by (auto simp: repo_acquire_lock_def r split: sum.splits)
  have ok: "row_ok env ?u now (ld_outbox ?db) x" if "x \<in> set ?l" for x
    using inv that row_ok_mono [of env used now _ x ?u now] by (auto simp: lock_inv_def)
  have ku: "keys_used used (ld_outbox ?db)" "keys_used ?u (ld_outbox ?db)" using inv by (auto simp: lock_inv_def keys_used_def)
  have d: "distinct (map lk_id ?l)" "distinct (map entity_of ?l)" using inv by (simp_all add: lock_inv_def)
  have view: "client_view (ld_outbox ?db) u j = table_view env ?l u j" for u j
    using lock_inv_view [OF inv, of u j] by simp
  have "lock_inv env ?u now rows [] (ld_outbox db1)"
  proof (cases "find (on_entity t i) ?l")
    case None
    then have new: "r = \<lparr>lk_id = fresh, lk_type = t, lk_entity = i, lk_by = user, lk_locked_at = now,
        lk_expires_at = now + LOCK_TTL, lk_reason = reason\<rparr>" "rows = ?l @ [r]"
      using up by (auto simp: upsert_lock_def Let_def)
    have no: "\<not> on_entity t i x" if "x \<in> set ?l" for x using None that by (auto simp: find_None_iff)
    have unused: "key_of fresh x \<notin> outbox_keys (ld_outbox ?db)" for x using ku(1) fresh by (auto simp: keys_used_def)
    have "lk_id x \<noteq> fresh" if "x \<in> set ?l" for x using inv that fresh(1) by (auto simp: lock_inv_def row_ok_def)
    then have di: "distinct (map lk_id rows)" using d(1) by (auto simp: new)
    have de: "distinct (map entity_of rows)" using d(2) no by (auto simp: new on_entity_def)
    show ?thesis
    proof (rule held_announced [OF e an _ ku(2) di de])
      show "row_ok env ?u now (ld_outbox ?db) x" if "x \<in> set rows" for x
        using that ok unused fresh(2) by (auto simp: new row_ok_def)
      show "r \<in> set rows" by (simp add: new(2))
      show "client_view (ld_outbox ?db) u j = table_view env rows u j" if "\<not> on_entity u j r" for u j
        using view [of u j] find_skip [where P = "on_entity u j", OF that] by (simp add: table_view_def new(2))
      assume "realtime_outbox_event_key (held_key env r) \<in> outbox_keys (ld_outbox ?db)"
      then show "client_view (ld_outbox ?db) (lk_type r) (lk_entity r) = normal (to_entity_lock env r)"
        using unused unfolding lock_keys by (simp add: new(1))
    qed
  next
    case (Some old)
    then have old: "old \<in> set ?l" "on_entity t i old" by (auto simp: find_Some_iff)
    have new: "r = old\<lparr>lk_by := user, lk_locked_at := now, lk_expires_at := now + LOCK_TTL, lk_reason := reason\<rparr>"
      "rows = map (\<lambda>x. if on_entity t i x then r else x) ?l" "lk_expires_at old \<le> now \<or> lk_by old = user"
      using up Some by (auto simp: upsert_lock_def Let_def split: if_splits)
    have same: "lk_id r = lk_id old" "entity_of r = entity_of old" by (simp_all add: new(1))
    have only: "x = old" if "x \<in> set ?l" "on_entity t i x" for x
      using row_unique [OF d(2) that(1) old(1)] that(2) old(2) by (simp add: on_entity_def)
    have "map lk_id rows = map lk_id ?l" "map entity_of rows = map entity_of ?l"
      unfolding new(2) map_map comp_def using only same by (intro map_cong refl; metis)+
    then have di: "distinct (map lk_id rows)" "distinct (map entity_of rows)" using d by simp_all
    have o: "row_ok env ?u now (ld_outbox ?db) old" by (rule ok [OF old(1)])
    then have t: "lk_expires_at old = lk_locked_at old + LOCK_TTL" "lk_locked_at old \<le> now" by (simp_all add: row_ok_def)
    have held: "\<exists>e \<le> lk_expires_at old. x = ''held:'' @ le_show_time env e"
      if "key_of (lk_id r) x \<in> outbox_keys (ld_outbox ?db)" for x
      using row_ok_held [OF o] that by (simp add: same)
    show ?thesis
    proof (rule held_announced [OF e an _ ku(2) di])
      have "row_ok env ?u now (ld_outbox ?db) r"
        using o t held unfolding row_ok_def same(1) by (simp add: new(1)) (meson add_right_mono order_trans)
      then show "row_ok env ?u now (ld_outbox ?db) x" if "x \<in> set rows" for x using that ok by (auto simp: new(2))
      show "r \<in> set rows" using old by (auto simp: new(2))
      show "client_view (ld_outbox ?db) u j = table_view env rows u j" if n: "\<not> on_entity u j r" for u j
      proof -
        have "\<not> on_entity u j x" if "on_entity t i x" for x using n that r by (auto simp: on_entity_def)
        then have "find (on_entity u j) rows = find (on_entity u j) ?l"
          unfolding new(2) using find_replace [where P = "on_entity t i" and Q = "on_entity u j", OF _ n] by blast
        then show ?thesis using view [of u j] by (simp add: table_view_def)
      qed
      assume "realtime_outbox_event_key (held_key env r) \<in> outbox_keys (ld_outbox ?db)"
      then have "key_of (lk_id r) (''held:'' @ le_show_time env (lk_expires_at r)) \<in> outbox_keys (ld_outbox ?db)"
        unfolding lock_keys .
      from held [OF this] obtain x where x: "x \<le> lk_expires_at old" "le_show_time env (lk_expires_at r) = le_show_time env x"
        by auto
      have "x = now + LOCK_TTL" using x(2) e by (auto simp: env_ok_def new(1) dest: injD)
      with x(1) t have "lk_locked_at old = now" by simp
      moreover from this t new(3) have "lk_by old = user" by (simp add: LOCK_TTL_def)
      ultimately have "to_entity_lock env r = to_entity_lock env old" using t by (simp add: to_entity_lock_def new(1))
      moreover have "client_view (ld_outbox ?db) (lk_type old) (lk_entity old) = normal (to_entity_lock env old)"
        unfolding view by (rule table_view_row [OF d(2) old(1)])
      ultimately show "client_view (ld_outbox ?db) (lk_type r) (lk_entity r) = normal (to_entity_lock env r)"
        using same(2) by simp
    qed
  qed
  then show ?thesis using announce_locks [OF an] by simp
qed

section \<open>Sequences of operations\<close>

datatype lock_action = Tick | Acquire nat lockable string | Release nat lockable string | Sweep

type_synonym lock_state = "int \<times> string set \<times> lock_db"

text \<open>One action, with the clock and the identifiers drawn so far. An operation whose transaction
  fails is rolled back and is no step.\<close>

inductive lock_step :: "lock_env \<Rightarrow> lock_action \<Rightarrow> lock_state \<Rightarrow> lock_state \<Rightarrow> bool" for env where
  tick: "t \<le> t' \<Longrightarrow> lock_step env Tick (t, used, db) (t', used, db)"
| acquire: "repo_acquire_lock env t fresh ids ty i user reason db = Inr (res, db') \<Longrightarrow> fresh \<notin> used \<Longrightarrow>
    CHR '':'' \<notin> set fresh \<Longrightarrow> lock_step env (Acquire user ty i) (t, used, db) (t, insert fresh used, db')"
| release: "repo_release_lock env t ids ty i user db = Inr (res, db') \<Longrightarrow>
    lock_step env (Release user ty i) (t, used, db) (t, used, db')"
| sweep: "repo_expire_locks env t ids held limit db = Inr (n, db') \<Longrightarrow>
    lock_step env Sweep (t, used, db) (t, used, db')"

inductive lock_run :: "lock_env \<Rightarrow> lock_state \<Rightarrow> lock_action list \<Rightarrow> lock_state \<Rightarrow> bool" for env where
  nothing: "lock_run env s [] s"
| action: "lock_run env s acts s1 \<Longrightarrow> lock_step env a s1 s2 \<Longrightarrow> lock_run env s (acts @ [a]) s2"

definition lock_start :: "(lockable \<times> string) list \<Rightarrow> lock_db" where
  "lock_start entities = \<lparr>ld_locks = [], ld_entities = entities, ld_outbox = empty_outbox\<rparr>"

fun state_inv :: "lock_env \<Rightarrow> lock_state \<Rightarrow> bool" where
  "state_inv env (t, used, db) = lock_inv env used t (ld_locks db) [] (ld_outbox db)"

lemma lock_step_inv: "lock_step env a s s' \<Longrightarrow> env_ok env \<Longrightarrow> state_inv env s \<Longrightarrow> state_inv env s'"
proof (induction rule: lock_step.induct)
  case (tick t t' used db)
  then show ?case using lock_inv_mono by fastforce
next
  case (acquire t fresh ids ty i user reason db res db' used)
  then show ?case using acquire_inv by simp
next
  case (release t ids ty i user db res db' used)
  then show ?case using release_inv by simp
next
  case (sweep t ids held limit db n db' used)
  then show ?case using expire_inv by simp
qed

lemma lock_run_inv: "lock_run env s acts s' \<Longrightarrow> env_ok env \<Longrightarrow> state_inv env s \<Longrightarrow> state_inv env s'"
  by (induction rule: lock_run.induct) (auto intro: lock_step_inv)

lemma lock_start_inv: "state_inv env (t, {}, lock_start entities)"
  by (simp add: lock_start_def lock_inv_def keys_used_def outbox_keys_def empty_outbox_def client_view_def table_view_def)

section \<open>A lock is exclusive\<close>

lemma other_acquire_refused:
  assumes "state_inv env (t, used, db)" "r \<in> set (ld_locks db)" "t < lk_expires_at r" "user \<noteq> lk_by r"
  shows "upsert_lock t fresh (lk_type r) (lk_entity r) user reason (ld_locks db) = None"
    and "repo_get_active_lock t (lk_type r) (lk_entity r) db = Some r"
proof -
  have d: "distinct (map entity_of (ld_locks db))" using assms(1) by (simp add: lock_inv_def)
  have u: "x = r" if "x \<in> set (ld_locks db)" "on_entity (lk_type r) (lk_entity r) x" for x
    using row_unique [OF d that(1) assms(2)] that(2) by (simp add: on_entity_def)
  have one: "find (\<lambda>x. on_entity (lk_type r) (lk_entity r) x \<and> Q x) (ld_locks db) = Some r" if "Q r" for Q
  proof (cases "find (\<lambda>x. on_entity (lk_type r) (lk_entity r) x \<and> Q x) (ld_locks db)")
    case None
    then show ?thesis using assms(2) that by (auto simp: find_None_iff on_entity_def)
  next
    case (Some x)
    then have "x \<in> set (ld_locks db)" "on_entity (lk_type r) (lk_entity r) x" by (auto simp: find_Some_iff)
    with u Some show ?thesis by blast
  qed
  show "upsert_lock t fresh (lk_type r) (lk_entity r) user reason (ld_locks db) = None"
    using one [of "\<lambda>_. True"] assms(3,4) by (simp add: upsert_lock_def)
  show "repo_get_active_lock t (lk_type r) (lk_entity r) db = Some r"
    using one [of "\<lambda>x. t < lk_expires_at x"] assms(3) by (simp add: repo_get_active_lock_def)
qed

lemma lock_step_keeps:
  assumes "lock_step env a (t, used, db) (t', used', db')" "state_inv env (t, used, db)" "r \<in> set (ld_locks db)"
    "t' < lk_expires_at r" "a \<noteq> Acquire (lk_by r) (lk_type r) (lk_entity r)"
    "a \<noteq> Release (lk_by r) (lk_type r) (lk_entity r)"
  shows "r \<in> set (ld_locks db') \<and> t \<le> t'"
  using assms(1)
proof (cases rule: lock_step.cases)
  case tick
  with assms(3) show ?thesis by simp
next
  case (acquire fresh ids ty i user reason res)
  show ?thesis
  proof (cases "on_entity ty i r")
    case True
    then have ty: "ty = lk_type r" "i = lk_entity r" by (simp_all add: on_entity_def)
    then have "user \<noteq> lk_by r" using assms(5) acquire(1) by auto
    from other_acquire_refused(1) [OF assms(2,3) _ this, of fresh reason] assms(4) acquire(2)
    have "upsert_lock t fresh ty i user reason (ld_locks db) = None" by (simp add: ty)
    then have "db' = db" using acquire(4) by (auto simp: repo_acquire_lock_def split: if_splits)
    with assms(3) acquire(2) show ?thesis by simp
  next
    case False
    have "r \<in> set rows" if "upsert_lock t fresh ty i user reason (ld_locks db) = Some (x, rows)" for x rows
      using that assms(3) False by (force simp: upsert_lock_def Let_def split: option.splits if_splits)
    with assms(3) acquire(2,4) show ?thesis
      by (auto simp: repo_acquire_lock_def dest!: announce_locks split: if_splits option.splits sum.splits)
  qed
next
  case (release ids ty i user res)
  have "\<not> (on_entity ty i r \<and> lk_by r = user)" using assms(6) release(1) by (auto simp: on_entity_def)
  with assms(3) release(2,4) show ?thesis
    by (auto simp: repo_release_lock_def dest!: announce_locks split: if_splits option.splits sum.splits)
next
  case (sweep ids held limit n)
  let ?c = "claimed_rows t held limit (ld_locks db)"
  have d: "distinct (map lk_id (ld_locks db))" using assms(2) by (simp add: lock_inv_def)
  have "lk_id r \<notin> lk_id ` set ?c"
  proof
    assume "lk_id r \<in> lk_id ` set ?c"
    then obtain x where x: "x \<in> set ?c" "lk_id r = lk_id x" by auto
    from claimed_rows_in [OF x(1)] row_unique [OF d assms(3) _ x(2)] have "lk_expires_at r \<le> t" by blast
    with assms(4) sweep(2) show False by simp
  qed
  with assms(3) sweep(2) repo_expire_state(3) [OF sweep(4)] show ?thesis by simp
qed

lemma lock_run_keeps:
  assumes "lock_run env s acts s'" "env_ok env" "state_inv env s" "r \<in> set (ld_locks (snd (snd s)))"
    "fst s' < lk_expires_at r" "\<forall>a \<in> set acts. a \<noteq> Acquire (lk_by r) (lk_type r) (lk_entity r)
      \<and> a \<noteq> Release (lk_by r) (lk_type r) (lk_entity r)"
  shows "r \<in> set (ld_locks (snd (snd s')))"
  using assms
proof (induction rule: lock_run.induct)
  case (action s acts s1 a s2)
  obtain t used db where s1: "s1 = (t, used, db)" by (rule prod_cases3)
  obtain t' used' db' where s2: "s2 = (t', used', db')" by (rule prod_cases3)
  have i: "state_inv env (t, used, db)" using lock_run_inv [OF action.hyps(1) action.prems(1,2)] by (simp add: s1)
  have "t \<le> t'" using action.hyps(2) by (cases rule: lock_step.cases) (auto simp: s1 s2)
  with action.prems(4) have "fst s1 < lk_expires_at r" by (simp add: s1 s2)
  with action.IH action.prems have "r \<in> set (ld_locks db)" by (simp add: s1)
  with lock_step_keeps [OF action.hyps(2) [unfolded s1 s2] i] action.prems(4,5) show ?case by (simp add: s2)
qed simp

text \<open>C14: A lock is exclusive until it expires. Whatever other users acquire, renew or release and
  whatever the sweeps of all servers do, the row of a lock stays as it is until its expiry, unless
  its holder acts on the entity; in the meantime another user who asks for the entity is refused
  and shown that lock, and cannot release it.\<close>

theorem lock_is_exclusive:
  assumes "env_ok env" "lock_run env (t0, {}, lock_start entities) past (t1, used1, db1)" "r \<in> set (ld_locks db1)"
    and "lock_run env (t1, used1, db1) acts (t2, used2, db2)" "t2 < lk_expires_at r"
    and "Acquire (lk_by r) (lk_type r) (lk_entity r) \<notin> set acts" "Release (lk_by r) (lk_type r) (lk_entity r) \<notin> set acts"
    and "user \<noteq> lk_by r" "(lk_type r, lk_entity r) \<in> set (ld_entities db2)"
  shows "r \<in> set (ld_locks db2)
    \<and> repo_acquire_lock env t2 fresh ids (lk_type r) (lk_entity r) user reason db2
        = Inr (\<lparr>aq_entity_exists = True, aq_acquired = False, aq_lock = Some r\<rparr>, db2)
    \<and> repo_release_lock env t2 ids (lk_type r) (lk_entity r) user db2 = Inr ((True, False), db2)"
proof -
  have i1: "state_inv env (t1, used1, db1)" using lock_run_inv [OF assms(2,1) lock_start_inv] .
  have i2: "state_inv env (t2, used2, db2)" using lock_run_inv [OF assms(4,1) i1] .
  have r: "r \<in> set (ld_locks db2)"
    using lock_run_keeps [OF assms(4,1) i1, of r] assms(3,5-7) by auto
  have d: "distinct (map entity_of (ld_locks db2))" using i2 by (simp add: lock_inv_def)
  have "\<not> (on_entity (lk_type r) (lk_entity r) x \<and> lk_by x = user)" if "x \<in> set (ld_locks db2)" for x
    using row_unique [OF d that r] assms(8) by (auto simp: on_entity_def)
  then have "find (\<lambda>x. on_entity (lk_type r) (lk_entity r) x \<and> lk_by x = user) (ld_locks db2) = None"
    by (auto simp: find_None_iff)
  with r other_acquire_refused [OF i2 r assms(5,8)] assms(9) show ?thesis
    by (simp add: repo_acquire_lock_def repo_release_lock_def)
qed

text \<open>C15: The events tell the locks. After any sequence of acquisitions, renewals, take-overs, releases,
  sweeps and pauses, a client that applies the \<open>lock:updated\<close> events of an entity in the order in
  which they were queued sees exactly the lock row of the table, or none, and the table has at
  most one row for the entity.\<close>

theorem lock_events_tell_the_table:
  assumes "env_ok env" "lock_run env (t0, {}, lock_start entities) acts (t, used, db)"
  shows "client_view (ld_outbox db) ty i = table_view env (ld_locks db) ty i
    \<and> length (filter (on_entity ty i) (ld_locks db)) \<le> 1"
proof -
  have inv: "lock_inv env used t (ld_locks db) [] (ld_outbox db)"
    using lock_run_inv [OF assms(2,1) lock_start_inv] by simp
  have d: "distinct (map entity_of (ld_locks db))" using inv by (simp add: lock_inv_def)
  have "length (filter (on_entity ty i) rows) \<le> 1" if "distinct (map entity_of rows)" for rows
    using that
  proof (induction rows)
    case (Cons x rows)
    then show ?case
    proof (cases "on_entity ty i x")
      case True
      then have "filter (on_entity ty i) rows = []" using Cons.prems by (force simp: filter_empty_conv on_entity_def image_iff)
      then show ?thesis by simp
    qed simp
  qed simp
  with d lock_inv_view [OF inv, of ty i] show ?thesis by simp
qed

section \<open>The sweep clears the expired locks\<close>

lemma unclaimed:
  assumes "distinct (map lk_id rows)"
  shows "filter (\<lambda>r. now < lk_expires_at r) (filter (\<lambda>r. lk_id r \<notin> lk_id ` set (claimed_rows now held limit rows)) rows)
      = filter (\<lambda>r. now < lk_expires_at r) rows"
    and "length (claimed_rows now [] 500 rows) \<noteq> 500 \<Longrightarrow>
      filter (\<lambda>r. lk_id r \<notin> lk_id ` set (claimed_rows now [] 500 rows)) rows = filter (\<lambda>r. now < lk_expires_at r) rows"
proof -
  have in_c: "lk_id r \<in> lk_id ` set (claimed_rows now h l rows) \<longleftrightarrow> r \<in> set (claimed_rows now h l rows)" if r: "r \<in> set rows" for r h l
  proof
    assume "lk_id r \<in> lk_id ` set (claimed_rows now h l rows)"
    then obtain x where x: "x \<in> set (claimed_rows now h l rows)" "lk_id r = lk_id x" by auto
    from row_unique [OF assms r _ x(2)] claimed_rows_in [OF x(1)] x(1) show "r \<in> set (claimed_rows now h l rows)" by simp
  qed simp
  have "lk_id r \<notin> lk_id ` set (claimed_rows now held limit rows)" if "r \<in> set rows" "now < lk_expires_at r" for r
    unfolding in_c [OF that(1)] using claimed_rows_in [of r] that(2) by force
  then show "filter (\<lambda>r. now < lk_expires_at r) (filter (\<lambda>r. lk_id r \<notin> lk_id ` set (claimed_rows now held limit rows)) rows)
      = filter (\<lambda>r. now < lk_expires_at r) rows"
    unfolding filter_filter by (intro filter_cong) auto
  assume n: "length (claimed_rows now [] 500 rows) \<noteq> 500"
  then have "r \<in> set (claimed_rows now [] 500 rows) \<longleftrightarrow> lk_expires_at r \<le> now" if "r \<in> set rows" for r
    using that by (simp add: claimed_rows_def min_def split: if_splits)
  then have "lk_id r \<notin> lk_id ` set (claimed_rows now [] 500 rows) \<longleftrightarrow> now < lk_expires_at r" if "r \<in> set rows" for r
    unfolding in_c [OF that] using that by auto
  then show "filter (\<lambda>r. lk_id r \<notin> lk_id ` set (claimed_rows now [] 500 rows)) rows = filter (\<lambda>r. now < lk_expires_at r) rows"
    by (intro filter_cong refl)
qed

lemma sweep_inv:
  "env_ok env \<Longrightarrow> state_inv env (now, used, db) \<Longrightarrow> sweep_locks env now ids [] k db = (ok, db') \<Longrightarrow>
    state_inv env (now, used, db')
    \<and> filter (\<lambda>r. now < lk_expires_at r) (ld_locks db') = filter (\<lambda>r. now < lk_expires_at r) (ld_locks db)
    \<and> (ok \<longrightarrow> ld_locks db' = filter (\<lambda>r. now < lk_expires_at r) (ld_locks db))"
proof (induction env now ids "[] :: string list" k db rule: sweep_locks.induct)
  case (1 env now ids k db)
  show ?case
  proof (cases "repo_expire_locks env now (ids k) [] (int EXPIRED_LOCK_SWEEP_BATCH) db")
    case (Inl e)
    then have "db' = db" "\<not> ok" using "1.prems"(3) by (simp_all add: sweep_locks.simps [of env now ids "[]" k db])
    with "1.prems"(2) show ?thesis by simp
  next
    case (Inr p)
    obtain n db1 where p: "p = (n, db1)" by (rule prod.exhaust)
    note q = Inr [unfolded p]
    have d: "distinct (map lk_id (ld_locks db))" using "1.prems"(2) by (simp add: lock_inv_def)
    have i: "state_inv env (now, used, db1)" using expire_inv [OF "1.prems"(1) _ q] "1.prems"(2) by simp
    note c = repo_expire_state [OF q]
    have f: "filter (\<lambda>r. now < lk_expires_at r) (ld_locks db1) = filter (\<lambda>r. now < lk_expires_at r) (ld_locks db)"
      unfolding c(3) by (rule unclaimed(1) [OF d])
    show ?thesis
    proof (cases "n = EXPIRED_LOCK_SWEEP_BATCH")
      case True
      have "sweep_locks env now ids [] (k + 1) db1 = (ok, db')"
        using "1.prems"(3) q True by (simp add: sweep_locks.simps [of env now ids "[]" k db])
      from "1.hyps" [OF q refl True "1.prems"(1) i this] f show ?thesis by simp
    next
      case False
      then have "db' = db1" using "1.prems"(3) q by (simp add: sweep_locks.simps [of env now ids "[]" k db])
      moreover have "ld_locks db1 = filter (\<lambda>r. now < lk_expires_at r) (ld_locks db)"
        unfolding c(3) using unclaimed(2) [OF d, of now] False c(1) by (simp add: EXPIRED_LOCK_SWEEP_BATCH_def)
      ultimately show ?thesis using i f by simp
    qed
  qed
qed


section \<open>An example\<close>


definition sample_env :: lock_env where
  "sample_env = \<lparr>le_date_ok = \<lambda>_. True, le_show_time = show_int, le_user_name = \<lambda>_. ''op''\<rparr>"

definition sample_lock :: lock_row where
  "sample_lock = \<lparr>lk_id = ''a'', lk_type = LockOf, lk_entity = ''7'', lk_by = 1, lk_locked_at = 0,
     lk_expires_at = 600000, lk_reason = None\<rparr>"

definition sample_payload :: "(string \<times> json) list" where
  "sample_payload = [(''entityType'', JStr ''OF''), (''entityId'', JStr ''7''), (''locked'', JBool True),
     (''lock'', JObj [(''id'', JStr ''a''), (''entityType'', JStr ''OF''), (''entityId'', JStr ''7''),
     (''lockedBy'', JObj [(''id'', JNum ''1''), (''name'', JStr ''op'')]),
     (''lockedAt'', JStr ''0''), (''expiresAt'', JStr ''600000'')])]"

lemma sample_env_ok: "env_ok sample_env"
proof -
  have "\<not> list_ex js_space ''0123456789''" by code_simp
  then have s: "\<not> js_space c" if "is_digit c" for c using that by (auto simp: is_digit_def list_ex_iff)
  have l: "\<not> js_space (last (show_nat n))" for n using s show_nat_digits [of "last (show_nat n)" n] by simp
  have m: "show_nat n \<noteq> CHR ''-'' # x" for n x
  proof
    assume "show_nat n = CHR ''-'' # x"
    then have "is_digit (CHR ''-'')" using show_nat_digits [of "CHR ''-''" n] by simp
    then show False by (simp add: is_digit_def)
  qed
  have "x = y" if "show_int x = show_int y" for x y
    using that m [of "nat x" "show_nat (nat (- y))"] m [of "nat y" "show_nat (nat (- x))"]
    by (auto simp: show_int_def dest!: show_nat_inj split: if_splits)
  then have "inj show_int" by (rule injI)
  with l show ?thesis by (simp add: env_ok_def sample_env_def show_int_def)
qed

text \<open>An event of the works order 7 that passes the checks of the contract is queued.\<close>

lemma lock_queued:
  assumes "validate_lock_updated (\<lambda>_. True) p [SubEntity ''OF'' ''7'']" "json_byte_length (JObj p) = Some n" "n \<le> 1000"
    "member p ''entityType'' = JStr ''OF''" "member p ''entityId'' = JStr ''7''" "json_record (JObj p) = Some p"
    "js_trim k = k" "k \<noteq> []" "length k \<le> 256"
    "realtime_outbox_event_key k \<notin> outbox_keys ob"
  shows "\<exists>e ob'. enqueue_lock_updated (\<lambda>_. True) now row_id event_id p None (JStr k) ob = Inr (e, ob')
    \<and> outbox_keys ob' = insert (realtime_outbox_event_key k) (outbox_keys ob)"
proof -
  have t: "stream_for [SubEntity ''OF'' ''7''] None = Some ''entity:OF:7''"
    "entity_realtime_subscription ''OF'' ''7'' = Some (SubEntity ''OF'' ''7'')" "event_name_shape ''lock:updated''"
    "subscription_ok (SubEntity ''OF'' ''7'')" by code_simp+
  let ?obj = "dispatch_input ''lock:updated'' (JObj p) [SubEntity ''OF'' ''7''] ''entity:OF:7'' (JStr k)"
  have 2: "normalize_stored_targets (JArr [subscription_json (SubEntity ''OF'' ''7'')]) = Some [SubEntity ''OF'' ''7'']"
    using stored_targets_json [of "[SubEntity ''OF'' ''7'']"] t(4) by (simp add: MAX_TARGET_COUNT_def)
  have 4: "input_key (JStr k) = Some (Some k)" using assms(7-9) by simp
  have "n \<le> 262144" using assms(3) by simp
  then have 5: "validate_realtime_event_contract (\<lambda>_. True) ''lock:updated'' (JObj p) [SubEntity ''OF'' ''7'']"
    using assms(1,2,6) by (simp add: validate_realtime_event_contract_def MAX_PAYLOAD_BYTES_def del: json_record.simps)
  have m: "member (with_key ?obj k) ''deduplicationKey'' = JStr k" "member (with_key ?obj k) ''event'' = JStr ''lock:updated''"
    "member (with_key ?obj k) ''streamId'' = JStr ''entity:OF:7''" "member (with_key ?obj k) ''payload'' = JObj p"
    "member (with_key ?obj k) ''targets'' = JArr [subscription_json (SubEntity ''OF'' ''7'')]"
    "member ?obj ''deduplicationKey'' = JStr k"
    by (simp_all add: with_key_def member_def dispatch_input_def)
  obtain inp where inp: "parse_publish_input (\<lambda>_. True) (JObj (with_key ?obj k)) = Some inp"
    by (simp add: m 2 4 5 t(3) del: normalize_stored_targets.simps input_key.simps subscription_json.simps)
  have "find (\<lambda>r. ox_event_key r = realtime_outbox_event_key k) (ob_rows ob) = None"
    using assms(10) by (auto simp: find_None_iff outbox_keys_def image_iff)
  then show ?thesis
    using assms(7,8) inp m(6) t(1,2)
    by (auto simp: enqueue_lock_updated_def enqueue_dispatch_def enqueue_realtime_event_def Let_def assms(4,5) outbox_keys_def
        simp del: parse_publish_input.simps normal.simps)
qed

lemma sample_payload_is: "lock_payload LockOf ''7'' True (to_entity_lock sample_env sample_lock) = sample_payload"
proof -
  have "show_nat 600000 = ''600000''" "show_nat 0 = ''0''" "show_nat 1 = ''1''" "show_nat (Suc 0) = ''1''"
    by (simp_all add: show_nat.simps digit_chars)
  then show ?thesis
    by (simp add: lock_payload_def to_entity_lock_def sample_env_def sample_lock_def sample_payload_def show_int_def)
qed

lemma sample_texts: "js_trim ''OF'' = ''OF''" "js_trim ''7'' = ''7''" "js_trim ''a'' = ''a''" "js_trim ''op'' = ''op''"
  "js_trim ''0'' = ''0''" "js_trim ''600000'' = ''600000''"
  by code_simp+

lemma sample_payload_ok: "validate_lock_updated (\<lambda>_. True) sample_payload [SubEntity ''OF'' ''7'']"
proof -
  have "safe_positive (JNum ''1'') = Some 1"
    by (simp add: all_digits_def is_digit_def read_nat_def digit_val_def MAX_SAFE_INTEGER_def)
  with sample_texts show ?thesis
    by (simp add: validate_lock_updated_def sample_payload_def validate_lock_ref_def has_exact_keys_def member_def
        positive_safe_integer_def)
qed

lemma sample_unlocked_ok: "validate_lock_updated (\<lambda>_. True) (lock_payload LockOf ''7'' False JNull) [SubEntity ''OF'' ''7'']"
  using sample_texts by (auto simp: validate_lock_updated_def lock_payload_def has_exact_keys_def member_def)

lemma sample_acquired:
  "\<exists>res db. repo_acquire_lock sample_env 0 ''a'' (''o'', ''e'') LockOf ''7'' 1 None (lock_start [(LockOf, ''7'')]) = Inr (res, db)
    \<and> ld_locks db = [sample_lock] \<and> ld_entities db = [(LockOf, ''7'')]
    \<and> outbox_keys (ld_outbox db) = {realtime_outbox_event_key (held_key sample_env sample_lock)}"
proof -
  let ?k = "held_key sample_env sample_lock"
  have k: "?k = ''lock:a:held:600000''"
    by (simp add: held_key_def sample_env_def sample_lock_def show_int_def show_nat.simps digit_chars)
  have p: "json_byte_length (JObj sample_payload) = Some 167" by code_simp
  have m: "member sample_payload ''entityType'' = JStr ''OF''" "member sample_payload ''entityId'' = JStr ''7''"
    by (simp_all add: sample_payload_def member_def)
  have "length ?k \<le> 256" "?k \<noteq> []" by (simp_all add: k)
  from lock_queued [OF sample_payload_ok p _ m _ keys_trimmed(1) [OF sample_env_ok] this(2,1), of empty_outbox 0 "''o''" "''e''"]
  obtain e ob where ob: "enqueue_lock_updated (\<lambda>_. True) 0 ''o'' ''e'' sample_payload None (JStr ?k) empty_outbox = Inr (e, ob)"
    "outbox_keys ob = {realtime_outbox_event_key ?k}"
    by (auto simp: outbox_keys_def empty_outbox_def)
  have up: "upsert_lock 0 ''a'' LockOf ''7'' (Suc 0) None [] = Some (sample_lock, [sample_lock])"
    by (simp add: upsert_lock_def sample_lock_def LOCK_TTL_def Let_def)
  have env: "le_date_ok sample_env = (\<lambda>_. True)" by (simp add: sample_env_def)
  show ?thesis
    using ob by (simp add: repo_acquire_lock_def lock_start_def up announce_def sample_payload_is env)
qed

lemma sample_run:
  assumes "repo_acquire_lock sample_env 0 ''a'' (''o'', ''e'') LockOf ''7'' 1 None (lock_start [(LockOf, ''7'')]) = Inr (res, db)"
  shows "lock_run sample_env (0, {}, lock_start [(LockOf, ''7'')]) [Acquire 1 LockOf ''7''] (0, {''a''}, db)"
    and "0 \<le> t \<Longrightarrow> lock_run sample_env (0, {''a''}, db) [Tick] (t, {''a''}, db)"
proof -
  have "lock_step sample_env (Acquire 1 LockOf ''7'') (0, {}, lock_start [(LockOf, ''7'')]) (0, insert ''a'' {}, db)"
    by (rule lock_step.acquire [OF assms]) simp_all
  from lock_run.action [OF lock_run.nothing this]
  show "lock_run sample_env (0, {}, lock_start [(LockOf, ''7'')]) [Acquire 1 LockOf ''7''] (0, {''a''}, db)" by simp
  show "lock_run sample_env (0, {''a''}, db) [Tick] (t, {''a''}, db)" if "0 \<le> t"
    using lock_run.action [OF lock_run.nothing lock_step.tick [OF that]] by simp
qed

theorem lock_is_exclusive_witness:
  "\<exists>db. lock_run sample_env (0, {''a''}, db) [Tick] (5, {''a''}, db) \<and> ld_locks db = [sample_lock]
    \<and> repo_acquire_lock sample_env 5 ''b'' (''o2'', ''e2'') LockOf ''7'' 2 None db
        = Inr (\<lparr>aq_entity_exists = True, aq_acquired = False, aq_lock = Some sample_lock\<rparr>, db)"
proof -
  obtain res db where db: "repo_acquire_lock sample_env 0 ''a'' (''o'', ''e'') LockOf ''7'' 1 None (lock_start [(LockOf, ''7'')])
      = Inr (res, db)" "ld_locks db = [sample_lock]" "ld_entities db = [(LockOf, ''7'')]"
    using sample_acquired by blast
  have s: "lk_expires_at sample_lock = 600000" "lk_by sample_lock = 1" "lk_type sample_lock = LockOf" "lk_entity sample_lock = ''7''"
    by (simp_all add: sample_lock_def)
  have r: "lock_run sample_env (0, {''a''}, db) [Tick] (5, {''a''}, db)" using sample_run(2) [OF db(1), of 5] by simp
  from lock_is_exclusive [OF sample_env_ok sample_run(1) [OF db(1)] _ r, of sample_lock 2 "''b''" "(''o2'', ''e2'')" None]
  show ?thesis using r by (intro exI [of _ db]) (simp add: s db)
qed

theorem lock_events_tell_the_table_witness:
  "\<exists>db. lock_run sample_env (0, {}, lock_start [(LockOf, ''7'')]) [Acquire 1 LockOf ''7''] (0, {''a''}, db)
    \<and> client_view (ld_outbox db) LockOf ''7'' = normal (to_entity_lock sample_env sample_lock)"
proof -
  obtain res db where db: "repo_acquire_lock sample_env 0 ''a'' (''o'', ''e'') LockOf ''7'' 1 None (lock_start [(LockOf, ''7'')])
      = Inr (res, db)" "ld_locks db = [sample_lock]"
    using sample_acquired by blast
  have "table_view sample_env [sample_lock] LockOf ''7'' = normal (to_entity_lock sample_env sample_lock)"
    by (simp add: table_view_def on_entity_def sample_lock_def)
  with lock_events_tell_the_table [OF sample_env_ok sample_run(1) [OF db(1)], of LockOf "''7''"] sample_run(1) [OF db(1)] db(2)
  show ?thesis by auto
qed


end
