(* ===== verification/Margin_Engine.thy ===== *)
theory Margin_Engine
  imports Canonical_Json Decimal_Money
begin

text \<open>
  \<open>src/module/margin-engine/domain/margin-engine.ts\<close>: costs, revenue and margin of a quote, a case
  or a works order, in big integers of six decimals. A missing cost is never taken for zero.
  The labels and messages are left out; a reason of reliability is a constructor; the SHA-256 of
  the text of a calculation is an argument.
\<close>

section \<open>Fixed-point numbers\<close>

definition SCALE_DIGITS :: nat where "SCALE_DIGITS = 6"
definition SCALE :: int where "SCALE = 1000000"

text \<open>The sign and the rest of \<open>/^([+-]?)...\<close>.\<close>

definition read_sign :: "string \<Rightarrow> int \<times> string" where
  "read_sign s = (case s of
      [] \<Rightarrow> (1, [])
    | c # r \<Rightarrow> if c = CHR ''-'' then (- 1, r) else if c = CHR ''+'' then (1, r) else (1, s))"

definition digits :: "string \<Rightarrow> bool" where
  "digits w \<longleftrightarrow> w \<noteq> [] \<and> list_all is_digit w"

definition scaled_units :: "string \<Rightarrow> string \<Rightarrow> int" where
  "scaled_units whole fraction =
     (let kept = take SCALE_DIGITS (take SCALE_DIGITS fraction @ replicate SCALE_DIGITS (CHR ''0''));
          scaled = int (read_nat whole) * SCALE + int (read_nat kept)
      in if SCALE_DIGITS < length fraction \<and> 5 \<le> digit_val (fraction ! SCALE_DIGITS) then scaled + 1 else scaled)"

text \<open>\<open>None\<close>: the text is not a decimal and the code throws.\<close>

definition margin_decimal :: "string \<Rightarrow> int option" where
  "margin_decimal value =
     (let (sign, rest) = read_sign (js_trim value) in
      case js_split (CHR ''.'') rest of
        [w] \<Rightarrow> if digits w then Some (sign * scaled_units w []) else None
      | [w, f] \<Rightarrow> if digits w \<and> digits f then Some (sign * scaled_units w f) else None
      | _ \<Rightarrow> None)"

text \<open>For a denominator that is not zero.\<close>

definition round_div :: "int \<Rightarrow> int \<Rightarrow> int" where
  "round_div numerator denominator =
     (let negative = ((numerator < 0) \<noteq> (denominator < 0));
          a = \<bar>numerator\<bar>; b = \<bar>denominator\<bar>;
          quotient = a div b; remainder = a mod b;
          rounded = (if remainder * 2 \<ge> b then quotient + 1 else quotient)
      in if negative then - rounded else rounded)"

definition margin_multiply :: "int \<Rightarrow> int \<Rightarrow> int" where
  "margin_multiply left right = round_div (left * right) SCALE"

definition margin_format :: "int \<Rightarrow> nat \<Rightarrow> string" where
  "margin_format value digits_wanted =
     (let rounded = round_div value (pow10 (SCALE_DIGITS - digits_wanted));
          absolute = nat \<bar>rounded\<bar>; unit = 10 ^ digits_wanted;
          fraction = pad_start digits_wanted (CHR ''0'') (show_nat (absolute mod unit))
      in (if rounded < 0 then ''-'' else []) @ show_nat (absolute div unit)
         @ (if digits_wanted > 0 then ''.'' @ fraction else []))"

definition margin_money :: "int \<Rightarrow> string" where
  "margin_money value = margin_format value 2"

definition percentage :: "int \<Rightarrow> int \<Rightarrow> string option" where
  "percentage numerator denominator =
     (if denominator = 0 then None
      else Some (margin_format (round_div (numerator * 100 * SCALE) denominator) 2))"

section \<open>Inputs\<close>

datatype margin_cost_category = MATERIAL | PURCHASE | SUBCONTRACTING | MACHINE | OPERATOR | CONTROL
  | TOOLING | PACKAGING | TRANSPORT | SCRAP | REWORK | OVERHEAD

definition MARGIN_COST_CATEGORIES :: "margin_cost_category list" where
  "MARGIN_COST_CATEGORIES = [MATERIAL, PURCHASE, SUBCONTRACTING, MACHINE, OPERATOR, CONTROL, TOOLING,
     PACKAGING, TRANSPORT, SCRAP, REWORK, OVERHEAD]"

datatype margin_basis = QUOTED | STANDARD | UPDATED | ACTUAL
datatype margin_reliability = RelEstimated | RelPartial | RelActual
datatype margin_source_reliability = SrcEstimated | SrcDeclared | SrcVerified | SrcUnknown
datatype margin_scope_type = DevisLine | Devis | AffaireScope | OfScope
datatype margin_input_availability = PROVIDED | NOT_APPLICABLE
datatype margin_rate_unit = EurPerHour | EurPerUnit | PercentOfDirectCost

record margin_evidence =
  me_definition :: string
  me_unit :: string
  me_period_start :: string
  me_period_end :: string
  me_freshness_at :: "string option"
  me_source_reliability :: margin_source_reliability
  me_source_type :: string
  me_source_ref :: "string option"
  me_observed_at :: "string option"
  me_assumption :: "string option"
  me_assumption_date :: "string option"
  me_rate_version_id :: "string option"
  me_rate_id :: "string option"
  me_rate_effective_at :: "string option"
  me_rate_scope_type :: "string option"
  me_rate_scope_ref :: "string option"
  me_source_document_type :: "string option"
  me_source_document_ref :: "string option"

record margin_cost_input =
  mc_key :: string
  mc_category :: margin_cost_category
  mc_availability :: margin_input_availability
  mc_amount_ht :: "string option"
  mc_quantity :: "string option"
  mc_rate :: "string option"
  mc_rate_unit :: "margin_rate_unit option"
  mc_currency :: string
  mc_evidence :: margin_evidence

record margin_revenue_input =
  mr_availability :: margin_input_availability
  mr_amount_ht :: "string option"
  mr_currency :: string
  mr_evidence :: margin_evidence

record margin_calculation_input =
  mi_scope_type :: margin_scope_type
  mi_scope_ref :: string
  mi_label :: string
  mi_basis :: margin_basis
  mi_as_of :: string
  mi_revenue :: "margin_revenue_input option"
  mi_costs :: "margin_cost_input list"
  mi_required_categories :: "margin_cost_category list option"
  mi_measurements :: "(string \<times> json) list option"

record resolved_input =
  rs_amount :: "int option"
  rs_input :: margin_cost_input
  rs_resolved_amount_ht :: "string option"

definition or_map2 :: "('a \<Rightarrow> 'b \<Rightarrow> 'c) \<Rightarrow> 'a option \<Rightarrow> 'b option \<Rightarrow> 'c option" where
  "or_map2 f a b = (case (a, b) of (Some x, Some y) \<Rightarrow> Some (f x y) | _ \<Rightarrow> None)"

definition resolve_amount :: "margin_cost_input \<Rightarrow> int \<Rightarrow> int option" where
  "resolve_amount inp direct_subtotal =
     (if mc_availability inp = NOT_APPLICABLE then None
      else (case (mc_amount_ht inp, mc_rate inp, mc_rate_unit inp) of
              (Some amount, _, _) \<Rightarrow> margin_decimal amount
            | (None, Some rate, Some PercentOfDirectCost) \<Rightarrow>
                map_option (\<lambda>r. round_div (direct_subtotal * r) (100 * SCALE)) (margin_decimal rate)
            | (None, Some rate, Some _) \<Rightarrow>
                (case mc_quantity inp of
                   None \<Rightarrow> None
                 | Some q \<Rightarrow> or_map2 margin_multiply (margin_decimal q) (margin_decimal rate))
            | _ \<Rightarrow> None))"

definition resolve_input :: "margin_cost_input \<Rightarrow> int \<Rightarrow> resolved_input" where
  "resolve_input inp direct_subtotal =
     (let amount = resolve_amount inp direct_subtotal
      in \<lparr>rs_amount = amount, rs_input = inp, rs_resolved_amount_ht = map_option margin_money amount\<rparr>)"

section \<open>The calculation\<close>

datatype margin_availability = COMPLETE | PARTIAL | UNAVAILABLE
datatype component_status = CompProvided | CompNotApplicable | CompMissing
datatype missing_input = RevenueMissing | CostMissing margin_cost_category bool
datatype reliability_reason = DataMissing | AllVerified | SomeDeclared | Forecast
datatype waterfall_code = WfPrice | WfMaterial | WfTime | WfSubcontracting | WfScrapRework | WfOther | WfMargin

record margin_component =
  cp_category :: margin_cost_category
  cp_status :: component_status
  cp_amount_ht :: "string option"
  cp_inputs :: "resolved_input list"

record waterfall_row =
  wf_code :: waterfall_code
  wf_amount_ht :: "string option"
  wf_running_total_ht :: "string option"
  wf_available :: bool
  wf_source_categories :: "margin_cost_category list"

record margin_calculation =
  mg_scope :: "margin_scope_type \<times> string \<times> string"
  mg_basis :: margin_basis
  mg_as_of :: string
  mg_currency :: string
  mg_availability :: margin_availability
  mg_reliability :: margin_reliability
  mg_reliability_reasons :: "reliability_reason list"
  mg_freshness_at :: "string option"
  mg_revenue_ht :: "string option"
  mg_revenue_evidence :: "margin_evidence option"
  mg_cost_total_ht :: "string option"
  mg_partial_cost_total_ht :: string
  mg_gross_margin_ht :: "string option"
  mg_margin_rate_pct :: "string option"
  mg_mark_rate_pct :: "string option"
  mg_components :: "margin_component list"
  mg_missing_inputs :: "missing_input list"
  mg_measurements :: "(string \<times> json) list"
  mg_waterfall :: "waterfall_row list"

definition limiting_freshness :: "margin_evidence list \<Rightarrow> string option" where
  "limiting_freshness evidence =
     (case sort (filter (\<lambda>v. v \<noteq> []) (concat (map (\<lambda>e. case me_freshness_at e of None \<Rightarrow> [] | Some v \<Rightarrow> [v]) evidence))) of
        [] \<Rightarrow> None
      | v # _ \<Rightarrow> Some v)"

text \<open>\<open>None\<close>: the text of an amount is refused by \<open>decimal\<close> and the code throws.\<close>

fun sum_amounts :: "int \<Rightarrow> margin_component list \<Rightarrow> int option" where
  "sum_amounts acc [] = Some acc"
| "sum_amounts acc (c # cs) =
     (case cp_amount_ht c of
        None \<Rightarrow> sum_amounts acc cs
      | Some t \<Rightarrow> (case margin_decimal t of None \<Rightarrow> None | Some v \<Rightarrow> sum_amounts (acc + v) cs))"

definition sum_categories ::
  "margin_component list \<Rightarrow> margin_cost_category list \<Rightarrow> (int option \<times> bool) option" where
  "sum_categories components categories =
     (let selected = filter (\<lambda>c. cp_category c \<in> set categories) components in
      if list_ex (\<lambda>c. cp_status c = CompMissing) selected then Some (None, False)
      else map_option (\<lambda>s. (Some s, True)) (sum_amounts 0 selected))"

definition WATERFALL_GROUPS :: "(waterfall_code \<times> margin_cost_category list) list" where
  "WATERFALL_GROUPS = [(WfMaterial, [MATERIAL, PURCHASE]), (WfTime, [MACHINE, OPERATOR, CONTROL]),
     (WfSubcontracting, [SUBCONTRACTING]), (WfScrapRework, [SCRAP, REWORK]),
     (WfOther, [TOOLING, PACKAGING, TRANSPORT, OVERHEAD])]"

fun waterfall_steps ::
  "margin_component list \<Rightarrow> int option \<Rightarrow> (waterfall_code \<times> margin_cost_category list) list \<Rightarrow> waterfall_row list option" where
  "waterfall_steps components running [] = Some []"
| "waterfall_steps components running ((code, categories) # groups) =
     (case sum_categories components categories of
        None \<Rightarrow> None
      | Some (amount, available) \<Rightarrow>
          (let running' = or_map2 (-) running amount;
               row = \<lparr>wf_code = code, wf_amount_ht = map_option (\<lambda>a. margin_money (- a)) amount,
                 wf_running_total_ht = map_option margin_money running', wf_available = available,
                 wf_source_categories = categories\<rparr>
           in map_option ((#) row) (waterfall_steps components running' groups)))"

definition build_waterfall :: "int option \<Rightarrow> margin_component list \<Rightarrow> int option \<Rightarrow> waterfall_row list option" where
  "build_waterfall revenue components gross_margin =
     map_option (\<lambda>rows.
         \<lparr>wf_code = WfPrice, wf_amount_ht = map_option margin_money revenue,
           wf_running_total_ht = map_option margin_money revenue, wf_available = (revenue \<noteq> None),
           wf_source_categories = []\<rparr> # rows
         @ [\<lparr>wf_code = WfMargin, wf_amount_ht = map_option margin_money gross_margin,
           wf_running_total_ht = map_option margin_money gross_margin, wf_available = (gross_margin \<noteq> None),
           wf_source_categories = []\<rparr>])
       (waterfall_steps components revenue WATERFALL_GROUPS)"

definition amount_or_zero :: "resolved_input \<Rightarrow> int" where
  "amount_or_zero r = (case rs_amount r of None \<Rightarrow> 0 | Some a \<Rightarrow> a)"

definition resolve_costs :: "margin_cost_input list \<Rightarrow> resolved_input list" where
  "resolve_costs costs =
     (let first_pass = map (\<lambda>i. resolve_input i 0) (filter (\<lambda>i. mc_category i \<noteq> OVERHEAD) costs);
          direct_subtotal = foldl (\<lambda>s r. s + amount_or_zero r) 0 first_pass
      in first_pass @ map (\<lambda>i. resolve_input i direct_subtotal) (filter (\<lambda>i. mc_category i = OVERHEAD) costs))"

definition is_provided :: "resolved_input \<Rightarrow> bool" where
  "is_provided r \<longleftrightarrow> mc_availability (rs_input r) = PROVIDED"

definition component_of :: "resolved_input list \<Rightarrow> margin_cost_category \<Rightarrow> margin_component \<times> bool" where
  "component_of resolved category =
     (let rows = filter (\<lambda>r. mc_category (rs_input r) = category) resolved;
          provided = filter (\<lambda>r. is_provided r \<and> rs_amount r \<noteq> None) rows;
          explicit_na = list_ex (\<lambda>r. mc_availability (rs_input r) = NOT_APPLICABLE) rows;
          invalid = list_ex (\<lambda>r. is_provided r \<and> rs_amount r = None) rows;
          status = (if invalid then CompMissing else if provided \<noteq> [] then CompProvided
            else if explicit_na then CompNotApplicable else CompMissing);
          amount = foldl (\<lambda>s r. s + amount_or_zero r) 0 provided
      in (\<lparr>cp_category = category, cp_status = status,
            cp_amount_ht = (if status = CompProvided then Some (margin_money amount) else None),
            cp_inputs = rows\<rparr>, invalid))"

definition read_revenue :: "margin_revenue_input option \<Rightarrow> int option" where
  "read_revenue given =
     (case given of
        None \<Rightarrow> None
      | Some r \<Rightarrow> if mr_availability r = PROVIDED
          then (case mr_amount_ht r of None \<Rightarrow> None | Some t \<Rightarrow> margin_decimal t) else None)"

definition provided_evidence :: "margin_calculation_input \<Rightarrow> resolved_input list \<Rightarrow> margin_evidence list" where
  "provided_evidence inp resolved =
     map (\<lambda>r. mc_evidence (rs_input r)) (filter is_provided resolved)
     @ (case mi_revenue inp of
          Some r \<Rightarrow> if mr_availability r = PROVIDED then [mr_evidence r] else []
        | None \<Rightarrow> [])"

definition reliability_of ::
  "bool \<Rightarrow> margin_basis \<Rightarrow> margin_evidence list \<Rightarrow> margin_reliability \<times> reliability_reason list" where
  "reliability_of complete basis evidence =
     (if \<not> complete then (RelPartial, [DataMissing])
      else if basis = ACTUAL \<and> list_all (\<lambda>e. me_source_reliability e = SrcVerified) evidence
        then (RelActual, [AllVerified])
      else (RelEstimated, [if basis = ACTUAL then SomeDeclared else Forecast]))"

text \<open>\<open>None\<close>: the code throws.\<close>

definition calculate_margin :: "margin_calculation_input \<Rightarrow> margin_calculation option" where
  "calculate_margin inp =
     (let required = (case mi_required_categories inp of None \<Rightarrow> MARGIN_COST_CATEGORIES | Some cs \<Rightarrow> cs);
          revenue = read_revenue (mi_revenue inp);
          resolved = resolve_costs (mi_costs inp);
          rows = map (component_of resolved) MARGIN_COST_CATEGORIES;
          components = map fst rows;
          missing_costs = map (\<lambda>(c, invalid). CostMissing (cp_category c) invalid)
            (filter (\<lambda>(c, _). cp_category c \<in> set required \<and> cp_status c = CompMissing) rows);
          partial_cost = foldl (\<lambda>s r. s + amount_or_zero r) 0 resolved;
          cost_missing = (missing_costs \<noteq> []);
          complete = (revenue \<noteq> None \<and> \<not> cost_missing);
          cost_total = (if cost_missing then None else Some partial_cost);
          gross_margin = (if complete then or_map2 (-) revenue cost_total else None);
          evidence = provided_evidence inp resolved;
          reliability = reliability_of complete (mi_basis inp) evidence
      in map_option (\<lambda>waterfall.
        \<lparr>mg_scope = (mi_scope_type inp, mi_scope_ref inp, mi_label inp), mg_basis = mi_basis inp, mg_as_of = mi_as_of inp,
          mg_currency = (case mi_revenue inp of None \<Rightarrow> ''EUR'' | Some r \<Rightarrow> mr_currency r),
          mg_availability = (if complete then COMPLETE
            else if revenue = None \<and> partial_cost = 0 then UNAVAILABLE else PARTIAL),
          mg_reliability = fst reliability, mg_reliability_reasons = snd reliability,
          mg_freshness_at = limiting_freshness evidence,
          mg_revenue_ht = map_option margin_money revenue,
          mg_revenue_evidence = map_option mr_evidence (mi_revenue inp),
          mg_cost_total_ht = map_option margin_money cost_total,
          mg_partial_cost_total_ht = margin_money partial_cost,
          mg_gross_margin_ht = map_option margin_money gross_margin,
          mg_margin_rate_pct = (case (gross_margin, cost_total) of (Some g, Some c) \<Rightarrow> percentage g c | _ \<Rightarrow> None),
          mg_mark_rate_pct = (case (gross_margin, revenue) of (Some g, Some r) \<Rightarrow> percentage g r | _ \<Rightarrow> None),
          mg_components = components,
          mg_missing_inputs = (if revenue = None then [RevenueMissing] else []) @ missing_costs,
          mg_measurements = (case mi_measurements inp of None \<Rightarrow> [] | Some m \<Rightarrow> m),
          mg_waterfall = waterfall\<rparr>)
        (build_waterfall revenue components gross_margin))"

text \<open>The record returned carries the digest of the text of the rest.\<close>

definition signed_calculation ::
  "(margin_calculation \<Rightarrow> string) \<Rightarrow> margin_calculation_input \<Rightarrow> (margin_calculation \<times> string) option" where
  "signed_calculation digest inp = map_option (\<lambda>m. (m, digest m)) (calculate_margin inp)"

section \<open>Comparison\<close>

record margin_variance =
  mv_available :: bool
  mv_cost_ht :: "string option"
  mv_gross_margin_ht :: "string option"

definition margin_variance_of :: "margin_calculation \<Rightarrow> margin_calculation \<Rightarrow> margin_variance option" where
  "margin_variance_of left right =
     (case (mg_cost_total_ht left, mg_cost_total_ht right, mg_gross_margin_ht left, mg_gross_margin_ht right) of
        (Some lc, Some rc, Some lg, Some rg) \<Rightarrow>
          (case (or_map2 (-) (margin_decimal rc) (margin_decimal lc), or_map2 (-) (margin_decimal rg) (margin_decimal lg)) of
             (Some c, Some g) \<Rightarrow>
               Some \<lparr>mv_available = True, mv_cost_ht = Some (margin_money c), mv_gross_margin_ht = Some (margin_money g)\<rparr>
           | _ \<Rightarrow> None)
      | _ \<Rightarrow> Some \<lparr>mv_available = False, mv_cost_ht = None, mv_gross_margin_ht = None\<rparr>)"

record margin_comparison =
  mm_actual_vs_standard :: margin_variance
  mm_updated_vs_quoted :: margin_variance

definition compare_margins ::
  "margin_calculation \<Rightarrow> margin_calculation \<Rightarrow> margin_calculation \<Rightarrow> margin_calculation \<Rightarrow> margin_comparison option" where
  "compare_margins quoted standard updated actual =
     or_map2 margin_comparison.make (margin_variance_of standard actual) (margin_variance_of quoted updated)"

end
