(* ===== verification/Margin_Rules.thy ===== *)
theory Margin_Rules
  imports Margin_Engine
begin

text \<open>
  What the margin engine promises: a calculation always ends with a result, a margin is published
  exactly when every required cost is known, and the waterfall leads from the price to the margin
  up to the cents lost by rounding each category.
\<close>

section \<open>Reading back a printed amount\<close>

lemma round_div_pos: "0 < d \<Longrightarrow> round_div n d = half_up n d"
  using half_up_nat [of "\<bar>n\<bar>" d] by (auto simp: round_div_def half_up_def Let_def)

lemma margin_money_text: "margin_money v = format_decimal (half_up v 10000) 2"
  by (simp add: margin_money_def margin_format_def format_decimal_def round_div_pos SCALE_DIGITS_def pow10_def Let_def)

lemma digits_show_nat: "digits (show_nat n)"
  by (auto simp: digits_def list_all_iff show_nat_digits)

lemma read_sign_format: "read_sign (format_decimal v 2) = (if v < 0 then - 1 else 1, unsigned_text (nat \<bar>v\<bar>) 2)"
proof -
  have "is_digit (hd (unsigned_text (nat \<bar>v\<bar>) 2))" by (simp add: unsigned_text_def show_nat_hd_digit)
  then have "hd (unsigned_text (nat \<bar>v\<bar>) 2) \<noteq> CHR ''-''" "hd (unsigned_text (nat \<bar>v\<bar>) 2) \<noteq> CHR ''+''"
    by (auto simp: is_digit_def)
  then show ?thesis
    by (cases "unsigned_text (nat \<bar>v\<bar>) 2") (simp_all add: read_sign_def format_decimal_text)
qed

lemma scaled_units_cents: "scaled_units (show_nat (n div 100)) (fraction_text n 2) = int n * 10000"
proof -
  let ?f = "fraction_text n 2"
  have f: "length ?f = 2" "read_nat ?f = n mod 100" using fraction_text_facts [of 2 n] by simp_all
  have "take SCALE_DIGITS (take SCALE_DIGITS ?f @ replicate SCALE_DIGITS (CHR ''0'')) = ?f @ replicate 4 (CHR ''0'')"
    using f(1) by (simp add: SCALE_DIGITS_def)
  moreover have "read_nat (?f @ replicate 4 (CHR ''0'')) = n mod 100 * 10000"
    using f(2) by (simp add: read_nat_append read_nat_zeros)
  moreover have "int (n div 100) * 1000000 + int (n mod 100 * 10000) = int n * 10000"
  proof -
    define q r where "q = int n div 100" and "r = int n mod 100"
    have "100 * q + r = int n" unfolding q_def r_def by (rule mult_div_mod_eq)
    then show ?thesis by (simp add: zdiv_int zmod_int q_def [symmetric] r_def [symmetric])
  qed
  ultimately show ?thesis using f(1) by (simp add: scaled_units_def SCALE_DIGITS_def SCALE_def)
qed

lemma margin_decimal_format: "margin_decimal (format_decimal v 2) = Some (v * 10000)"
proof -
  have "digits (fraction_text (nat \<bar>v\<bar>) 2)"
    using fraction_text_facts(2,4) [of 2 "nat \<bar>v\<bar>"] by (simp add: digits_def)
  then show ?thesis
    by (simp add: margin_decimal_def format_trimmed read_sign_format unsigned_text_split digits_show_nat
        scaled_units_cents split: prod.splits)
qed

lemma margin_decimal_money: "margin_decimal (margin_money v) = Some (half_up v 10000 * 10000)"
  by (simp add: margin_money_text margin_decimal_format)

definition to_cents :: "int \<Rightarrow> int" where
  "to_cents v = half_up v 10000 * 10000"

lemma cents_error: "\<bar>to_cents v - v\<bar> \<le> 5000"
  using half_up_error [of 10000 v] by (simp add: to_cents_def mult.commute)

section \<open>The calculation never throws\<close>

lemma sum_amounts_sum:
  "list_all (\<lambda>c. cp_amount_ht c = map_option margin_money (f c)) cs \<Longrightarrow>
    sum_amounts acc cs = Some (acc + (\<Sum>c\<leftarrow>cs. case f c of None \<Rightarrow> 0 | Some v \<Rightarrow> to_cents v))"
  by (induction cs arbitrary: acc) (auto simp: margin_decimal_money to_cents_def split: option.splits)


definition rows_of :: "margin_cost_category \<Rightarrow> resolved_input list \<Rightarrow> resolved_input list" where
  "rows_of c resolved = filter (\<lambda>r. mc_category (rs_input r) = c) resolved"

definition category_total :: "resolved_input list \<Rightarrow> margin_cost_category \<Rightarrow> int" where
  "category_total resolved c = (\<Sum>r\<leftarrow>rows_of c resolved. amount_or_zero r)"

definition component_amount :: "resolved_input list \<Rightarrow> margin_cost_category \<Rightarrow> int option" where
  "component_amount resolved c =
     (if cp_status (fst (component_of resolved c)) = CompProvided then Some (category_total resolved c) else None)"

lemma foldl_amounts: "foldl (\<lambda>s r. s + amount_or_zero r) acc rs = acc + (\<Sum>r\<leftarrow>rs. amount_or_zero r)"
  by (induction rs arbitrary: acc) simp_all

text \<open>Rows that are not applicable have no amount.\<close>

definition resolved_ok :: "resolved_input list \<Rightarrow> bool" where
  "resolved_ok rs \<longleftrightarrow> (\<forall>r \<in> set rs. \<not> is_provided r \<longrightarrow> rs_amount r = None)"

lemma resolve_costs_ok: "resolved_ok (resolve_costs costs)"
  by (auto simp: resolved_ok_def resolve_costs_def resolve_input_def resolve_amount_def is_provided_def Let_def)
    (metis margin_input_availability.exhaust)+

lemma total_provided:
  "resolved_ok rs \<Longrightarrow> (\<Sum>r\<leftarrow>filter (\<lambda>r. is_provided r \<and> rs_amount r \<noteq> None) (rows_of c rs). amount_or_zero r) = category_total rs c"
proof (induction rs)
  case (Cons r rs)
  then have "resolved_ok rs" "\<not> is_provided r \<longrightarrow> rs_amount r = None" by (simp_all add: resolved_ok_def)
  with Cons.IH show ?case by (auto simp: category_total_def rows_of_def amount_or_zero_def)
qed (simp add: category_total_def rows_of_def)

lemma component_parts:
  "cp_category (fst (component_of rs c)) = c"
  "cp_status (fst (component_of rs c)) = CompMissing \<longleftrightarrow>
     rows_of c rs = [] \<or> (\<exists>r \<in> set (rows_of c rs). is_provided r \<and> rs_amount r = None)"
proof -
  have na: "mc_availability (rs_input r) = NOT_APPLICABLE \<longleftrightarrow> \<not> is_provided r" for r
    by (cases "mc_availability (rs_input r)") (simp_all add: is_provided_def)
  show "cp_category (fst (component_of rs c)) = c" by (simp add: component_of_def Let_def)
  show "cp_status (fst (component_of rs c)) = CompMissing \<longleftrightarrow>
     rows_of c rs = [] \<or> (\<exists>r \<in> set (rows_of c rs). is_provided r \<and> rs_amount r = None)"
    unfolding component_of_def Let_def rows_of_def [symmetric] na
    by (cases "rows_of c rs") (auto simp: list_ex_iff filter_empty_conv)
qed

lemma component_amount_text:
  assumes "resolved_ok rs"
  shows "cp_amount_ht (fst (component_of rs c)) = map_option margin_money (component_amount rs c)"
  unfolding component_amount_def component_of_def Let_def rows_of_def [symmetric] foldl_amounts
  using total_provided [OF assms, of c] by simp

lemma component_amount_none:
  assumes "resolved_ok rs" "cp_status (fst (component_of rs c)) \<noteq> CompMissing" "component_amount rs c = None"
  shows "category_total rs c = 0"
proof -
  have n: "filter (\<lambda>r. is_provided r \<and> rs_amount r \<noteq> None) (rows_of c rs) = []"
    using assms(2,3) by (auto simp: component_amount_def component_of_def Let_def rows_of_def split: if_splits)
  show ?thesis using total_provided [OF assms(1), of c] unfolding n by simp
qed

abbreviation components_of :: "resolved_input list \<Rightarrow> margin_component list" where
  "components_of rs \<equiv> map (\<lambda>c. fst (component_of rs c)) MARGIN_COST_CATEGORIES"

lemma sum_components:
  assumes "resolved_ok rs"
  shows "sum_amounts acc (map (\<lambda>c. fst (component_of rs c)) cs)
    = Some (acc + (\<Sum>c\<leftarrow>cs. case component_amount rs c of None \<Rightarrow> 0 | Some v \<Rightarrow> to_cents v))"
  by (induction cs arbitrary: acc)
    (auto simp: component_amount_text [OF assms] margin_decimal_money to_cents_def split: option.splits)

lemma selected_components:
  "filter (\<lambda>x. cp_category x \<in> set cs) (components_of rs) = map (\<lambda>c. fst (component_of rs c)) (filter (\<lambda>c. c \<in> set cs) MARGIN_COST_CATEGORIES)"
  by (simp add: filter_map comp_def component_parts(1))

lemma sum_categories_returns: "resolved_ok rs \<Longrightarrow> \<exists>x. sum_categories (components_of rs) cs = Some x"
  unfolding sum_categories_def Let_def selected_components by (auto simp: sum_components)

lemma waterfall_steps_return: "resolved_ok rs \<Longrightarrow> \<exists>rows. waterfall_steps (components_of rs) running groups = Some rows"
proof (induction groups arbitrary: running)
  case (Cons g groups)
  obtain code cs where g: "g = (code, cs)" by (rule prod.exhaust)
  obtain a b where s: "sum_categories (components_of rs) cs = Some (a, b)"
    using sum_categories_returns [OF Cons.prems, of cs] by force
  obtain rows where "waterfall_steps (components_of rs) (or_map2 (-) running a) groups = Some rows"
    using Cons.IH [OF Cons.prems] by blast
  then show ?case by (simp add: g s Let_def)
qed simp

lemma calculate_margin_returns: "\<exists>m. calculate_margin inp = Some m"
proof -
  have c: "map fst (map (component_of rs) MARGIN_COST_CATEGORIES) = components_of rs" for rs
    by (simp add: comp_def)
  obtain rows where "waterfall_steps (components_of (resolve_costs (mi_costs inp))) (read_revenue (mi_revenue inp)) WATERFALL_GROUPS
    = Some rows" using waterfall_steps_return [OF resolve_costs_ok] by blast
  then show ?thesis unfolding calculate_margin_def Let_def build_waterfall_def c by simp
qed


section \<open>When a margin is published\<close>

lemma resolve_amount_known: "resolve_amount i s = None \<longleftrightarrow> resolve_amount i 0 = None"
  by (auto simp: resolve_amount_def or_map2_def split: option.splits margin_rate_unit.splits)

lemma rows_of_costs:
  "\<exists>f. rows_of c (resolve_costs costs) = map (\<lambda>i. resolve_input i (f i)) (filter (\<lambda>i. mc_category i = c) costs)"
proof -
  define s where "s = foldl (\<lambda>s r. s + amount_or_zero r) 0 (map (\<lambda>i. resolve_input i 0) (filter (\<lambda>i. mc_category i \<noteq> OVERHEAD) costs))"
  have c: "mc_category (rs_input (resolve_input i x)) = mc_category i" for i x
    by (simp add: resolve_input_def Let_def)
  have r: "rows_of c (resolve_costs costs)
    = map (\<lambda>i. resolve_input i 0) (filter (\<lambda>i. mc_category i \<noteq> OVERHEAD \<and> mc_category i = c) costs)
      @ map (\<lambda>i. resolve_input i s) (filter (\<lambda>i. mc_category i = OVERHEAD \<and> mc_category i = c) costs)"
    by (simp add: rows_of_def resolve_costs_def Let_def s_def filter_map comp_def c conj_commute)
  show ?thesis
  proof (cases "c = OVERHEAD")
    case True
    then have "filter (\<lambda>i. mc_category i \<noteq> OVERHEAD \<and> mc_category i = c) costs = []"
      "filter (\<lambda>i. mc_category i = OVERHEAD \<and> mc_category i = c) costs = filter (\<lambda>i. mc_category i = c) costs"
      by (auto simp: filter_empty_conv intro!: filter_cong)
    then show ?thesis unfolding r by (intro exI [of _ "\<lambda>_. s"]) simp
  next
    case False
    then have "filter (\<lambda>i. mc_category i = OVERHEAD \<and> mc_category i = c) costs = []"
      "filter (\<lambda>i. mc_category i \<noteq> OVERHEAD \<and> mc_category i = c) costs = filter (\<lambda>i. mc_category i = c) costs"
      by (auto simp: filter_empty_conv intro!: filter_cong)
    then show ?thesis unfolding r by (intro exI [of _ "\<lambda>_. 0"]) simp
  qed
qed

text \<open>A category of cost is known: some row names it, and every row that is not excluded has an amount.\<close>

definition cost_known :: "margin_cost_input list \<Rightarrow> margin_cost_category \<Rightarrow> bool" where
  "cost_known costs c \<longleftrightarrow> (\<exists>i \<in> set costs. mc_category i = c)
     \<and> (\<forall>i \<in> set costs. mc_category i = c \<and> mc_availability i = PROVIDED \<longrightarrow> resolve_amount i 0 \<noteq> None)"

lemma component_missing_iff: "cp_status (fst (component_of (resolve_costs costs) c)) = CompMissing \<longleftrightarrow> \<not> cost_known costs c"
proof -
  obtain f where f: "rows_of c (resolve_costs costs) = map (\<lambda>i. resolve_input i (f i)) (filter (\<lambda>i. mc_category i = c) costs)"
    using rows_of_costs by blast
  have i: "is_provided (resolve_input i x) \<longleftrightarrow> mc_availability i = PROVIDED" "rs_amount (resolve_input i x) = None \<longleftrightarrow> resolve_amount i 0 = None" for i x
    by (simp_all add: is_provided_def resolve_input_def Let_def resolve_amount_known [of i x])
  show ?thesis
    unfolding component_parts(2) f cost_known_def by (auto simp: i filter_empty_conv)
qed

definition required_of :: "margin_calculation_input \<Rightarrow> margin_cost_category list" where
  "required_of inp = (case mi_required_categories inp of None \<Rightarrow> MARGIN_COST_CATEGORIES | Some cs \<Rightarrow> cs)"

definition exact_cost :: "margin_calculation_input \<Rightarrow> int" where
  "exact_cost inp = (\<Sum>r\<leftarrow>resolve_costs (mi_costs inp). amount_or_zero r)"

lemma all_categories: "c \<in> set MARGIN_COST_CATEGORIES"
  by (cases c) (simp_all add: MARGIN_COST_CATEGORIES_def)

lemma calculation_fields:
  assumes "calculate_margin inp = Some m"
  defines "known \<equiv> \<forall>c \<in> set (required_of inp). cost_known (mi_costs inp) c"
  defines "income \<equiv> read_revenue (mi_revenue inp)"
  shows "mg_revenue_ht m = map_option margin_money income"
    "mg_cost_total_ht m = (if known then Some (margin_money (exact_cost inp)) else None)"
    "mg_gross_margin_ht m = (if known then map_option (\<lambda>r. margin_money (r - exact_cost inp)) income else None)"
    "mg_availability m = COMPLETE \<longleftrightarrow> known \<and> income \<noteq> None"
    "mg_reliability m = RelActual \<longleftrightarrow> known \<and> income \<noteq> None \<and> mi_basis inp = ACTUAL
      \<and> (\<forall>e \<in> set (provided_evidence inp (resolve_costs (mi_costs inp))). me_source_reliability e = SrcVerified)"
    "build_waterfall income (components_of (resolve_costs (mi_costs inp)))
      (if known then map_option (\<lambda>r. r - exact_cost inp) income else None) = Some (mg_waterfall m)"
proof -
  let ?rs = "resolve_costs (mi_costs inp)"
  have c: "map fst (map (component_of rs) MARGIN_COST_CATEGORIES) = components_of rs" for rs by (simp add: comp_def)
  have k: "map (\<lambda>(c, invalid). CostMissing (cp_category c) invalid)
      (filter (\<lambda>(c, _). cp_category c \<in> set (required_of inp) \<and> cp_status c = CompMissing)
        (map (component_of ?rs) MARGIN_COST_CATEGORIES)) = [] \<longleftrightarrow> known"
    using component_missing_iff [of "mi_costs inp"] all_categories
    by (auto simp: filter_empty_conv known_def case_prod_beta component_parts(1))
  have e: "foldl (\<lambda>s r. s + amount_or_zero r) 0 ?rs = exact_cost inp" by (simp add: foldl_amounts exact_cost_def)
  note def = assms(1) [unfolded calculate_margin_def Let_def c e required_of_def [symmetric] income_def [symmetric], unfolded k]
  have w: "(if (income \<noteq> None \<and> \<not> \<not> known) then or_map2 (-) income (if \<not> known then None else Some (exact_cost inp)) else None)
      = (if known then map_option (\<lambda>r. r - exact_cost inp) income else None)"
    by (cases income) (simp_all add: or_map2_def)
  note d = def [unfolded w map_option_eq_Some]
  from d obtain wf where wf: "build_waterfall income (components_of ?rs) (if known then map_option (\<lambda>r. r - exact_cost inp) income else None) = Some wf"
    and m: "mg_waterfall m = wf" "mg_revenue_ht m = map_option margin_money income"
      "mg_cost_total_ht m = map_option margin_money (if \<not> known then None else Some (exact_cost inp))"
      "mg_gross_margin_ht m = map_option margin_money (if known then map_option (\<lambda>r. r - exact_cost inp) income else None)"
      "mg_availability m = (if income \<noteq> None \<and> \<not> \<not> known then COMPLETE else if income = None \<and> exact_cost inp = 0 then UNAVAILABLE else PARTIAL)"
      "mg_reliability m = fst (reliability_of (income \<noteq> None \<and> \<not> \<not> known) (mi_basis inp) (provided_evidence inp ?rs))"
    by auto
  show "mg_revenue_ht m = map_option margin_money income" by (rule m(2))
  show "mg_cost_total_ht m = (if known then Some (margin_money (exact_cost inp)) else None)" by (simp add: m(3))
  show "mg_gross_margin_ht m = (if known then map_option (\<lambda>r. margin_money (r - exact_cost inp)) income else None)"
    by (cases income) (simp_all add: m(4))
  show "mg_availability m = COMPLETE \<longleftrightarrow> known \<and> income \<noteq> None" by (auto simp: m(5))
  show "mg_reliability m = RelActual \<longleftrightarrow> known \<and> income \<noteq> None \<and> mi_basis inp = ACTUAL
      \<and> (\<forall>e \<in> set (provided_evidence inp ?rs). me_source_reliability e = SrcVerified)"
    unfolding m(6) by (auto simp: reliability_of_def list_all_iff)
  show "build_waterfall income (components_of ?rs) (if known then map_option (\<lambda>r. r - exact_cost inp) income else None) = Some (mg_waterfall m)"
    using wf m(1) by simp
qed


text \<open>C17: The calculation always gives a result, and it publishes a margin exactly when the price can be
  read and every required category of cost is known: a cost that is missing, or that carries no
  amount or rate that can be read, is never taken for zero. The margin published is the exact
  revenue minus the exact costs, rounded once.\<close>

theorem margin_published_iff:
  "\<exists>m. calculate_margin inp = Some m
    \<and> (mg_gross_margin_ht m \<noteq> None \<longleftrightarrow>
        read_revenue (mi_revenue inp) \<noteq> None \<and> (\<forall>c \<in> set (required_of inp). cost_known (mi_costs inp) c))
    \<and> (\<forall>t \<in> set_option (mg_gross_margin_ht m). \<exists>r. read_revenue (mi_revenue inp) = Some r \<and> t = margin_money (r - exact_cost inp)
        \<and> mg_cost_total_ht m = Some (margin_money (exact_cost inp)))"
proof -
  obtain m where m: "calculate_margin inp = Some m" using calculate_margin_returns by blast
  note f = calculation_fields [OF m]
  show ?thesis
    using f(2,3) by (intro exI [of _ m] conjI m) (cases "read_revenue (mi_revenue inp)"; auto split: if_splits)+
qed

section \<open>The waterfall\<close>

lemma waterfall_running:
  assumes ok: "resolved_ok rs" and known: "\<forall>c. cp_status (fst (component_of rs c)) \<noteq> CompMissing"
  shows "waterfall_steps (components_of rs) (Some w) groups = Some rows \<Longrightarrow> groups \<noteq> [] \<Longrightarrow>
    length rows = length groups \<and> wf_running_total_ht (last rows) = Some (margin_money
      (w - (\<Sum>g\<leftarrow>groups. \<Sum>c\<leftarrow>filter (\<lambda>c. c \<in> set (snd g)) MARGIN_COST_CATEGORIES. to_cents (category_total rs c))))"
proof (induction groups arbitrary: w rows)
  case (Cons g groups)
  obtain code cs where g: "g = (code, cs)" by (rule prod.exhaust)
  let ?sel = "filter (\<lambda>c. c \<in> set cs) MARGIN_COST_CATEGORIES"
  let ?s = "\<Sum>c\<leftarrow>?sel. to_cents (category_total rs c)"
  have z: "(case component_amount rs c of None \<Rightarrow> 0 | Some v \<Rightarrow> to_cents v) = to_cents (category_total rs c)" for c
  proof (cases "component_amount rs c")
    case None
    then have "category_total rs c = 0" using component_amount_none [OF ok] known by blast
    with None show ?thesis by (simp add: to_cents_def half_up_def)
  next
    case (Some v)
    then show ?thesis by (simp add: component_amount_def split: if_splits)
  qed
  have s: "sum_categories (components_of rs) cs = Some (Some ?s, True)"
    unfolding sum_categories_def Let_def selected_components
    using known by (simp add: sum_components [OF ok] z list_ex_iff)
  obtain rest where rest: "waterfall_steps (components_of rs) (Some (w - ?s)) groups = Some rest"
    "rows = \<lparr>wf_code = code, wf_amount_ht = Some (margin_money (- ?s)), wf_running_total_ht = Some (margin_money (w - ?s)),
       wf_available = True, wf_source_categories = cs\<rparr> # rest"
    using Cons.prems(1) by (auto simp: g s or_map2_def Let_def)
  show ?case
  proof (cases "groups = []")
    case True
    then show ?thesis using rest by (simp add: g)
  next
    case False
    from Cons.IH [OF rest(1) this] have l: "length rest = length groups"
      "wf_running_total_ht (last rest) = Some (margin_money (w - ?s
        - (\<Sum>g\<leftarrow>groups. \<Sum>c\<leftarrow>filter (\<lambda>c. c \<in> set (snd g)) MARGIN_COST_CATEGORIES. to_cents (category_total rs c))))" by blast+
    then have "rest \<noteq> []" using False by auto
    with l show ?thesis unfolding rest(2) g by (simp add: algebra_simps)
  qed
qed simp

lemma cost_by_category: "exact_cost inp = (\<Sum>c\<leftarrow>MARGIN_COST_CATEGORIES. category_total (resolve_costs (mi_costs inp)) c)"
proof -
  have "(\<Sum>r\<leftarrow>rs. amount_or_zero r) = (\<Sum>c\<leftarrow>MARGIN_COST_CATEGORIES. category_total rs c)" for rs
  proof (induction rs)
    case Nil
    show ?case by (simp add: category_total_def rows_of_def MARGIN_COST_CATEGORIES_def)
  next
    case (Cons r rs)
    then show ?case
      by (cases "mc_category (rs_input r)") (simp_all add: category_total_def rows_of_def MARGIN_COST_CATEGORIES_def)
  qed
  then show ?thesis by (simp add: exact_cost_def)
qed

lemma waterfall_rows:
  assumes "calculate_margin inp = Some m" "mg_availability m = COMPLETE" "mi_required_categories inp = None"
  obtains r where "read_revenue (mi_revenue inp) = Some r" "length (mg_waterfall m) = 7"
    "wf_running_total_ht (mg_waterfall m ! 0) = Some (margin_money r)"
    "wf_running_total_ht (mg_waterfall m ! 5) = Some (margin_money
      (r - (\<Sum>c\<leftarrow>MARGIN_COST_CATEGORIES. to_cents (category_total (resolve_costs (mi_costs inp)) c))))"
    "wf_running_total_ht (mg_waterfall m ! 6) = Some (margin_money (r - exact_cost inp))"
proof -
  let ?rs = "resolve_costs (mi_costs inp)"
  note f = calculation_fields [OF assms(1)]
  have req: "required_of inp = MARGIN_COST_CATEGORIES" by (simp add: required_of_def assms(3))
  obtain r where r: "read_revenue (mi_revenue inp) = Some r" and known: "\<forall>c \<in> set (required_of inp). cost_known (mi_costs inp) c"
    using f(4) assms(2) by auto
  have k: "\<forall>c. cp_status (fst (component_of ?rs c)) \<noteq> CompMissing"
    using known all_categories unfolding req component_missing_iff by blast
  have b: "build_waterfall (Some r) (components_of ?rs) (Some (r - exact_cost inp)) = Some (mg_waterfall m)"
    using f(6) known by (simp add: r)
  then obtain rows where rows: "waterfall_steps (components_of ?rs) (Some r) WATERFALL_GROUPS = Some rows"
    and wf: "mg_waterfall m = \<lparr>wf_code = WfPrice, wf_amount_ht = Some (margin_money r), wf_running_total_ht = Some (margin_money r),
      wf_available = True, wf_source_categories = []\<rparr> # rows @ [\<lparr>wf_code = WfMargin,
      wf_amount_ht = Some (margin_money (r - exact_cost inp)), wf_running_total_ht = Some (margin_money (r - exact_cost inp)),
      wf_available = True, wf_source_categories = []\<rparr>]"
    by (auto simp: build_waterfall_def)
  have n: "WATERFALL_GROUPS \<noteq> []" by (simp add: WATERFALL_GROUPS_def)
  have s: "(\<Sum>g\<leftarrow>WATERFALL_GROUPS. \<Sum>c\<leftarrow>filter (\<lambda>c. c \<in> set (snd g)) MARGIN_COST_CATEGORIES. h c)
      = (\<Sum>c\<leftarrow>MARGIN_COST_CATEGORIES. h c)" for h :: "margin_cost_category \<Rightarrow> int"
    by (simp add: WATERFALL_GROUPS_def MARGIN_COST_CATEGORIES_def)
  from waterfall_running [OF resolve_costs_ok k rows n, unfolded s]
  have l: "length rows = 5" "wf_running_total_ht (last rows) = Some (margin_money
      (r - (\<Sum>c\<leftarrow>MARGIN_COST_CATEGORIES. to_cents (category_total ?rs c))))"
    by (simp_all add: WATERFALL_GROUPS_def)
  then obtain a b c d e where five: "rows = [a, b, c, d, e]" by (auto simp: length_Suc_conv numeral_eq_Suc)
  show ?thesis using l(2) by (intro that [OF r]) (simp_all add: wf five numeral_eq_Suc)
qed

text \<open>The waterfall of a complete calculation starts at the price, has one step for each group of
  costs and ends with the margin. Its last running total is the printed difference between the
  price and costs rounded one category at a time: it is within 6 cents of the margin, half a cent
  for each of the twelve categories.\<close>

theorem waterfall_closes:
  assumes "calculate_margin inp = Some m" "mg_availability m = COMPLETE" "mi_required_categories inp = None"
  shows "\<exists>r w. read_revenue (mi_revenue inp) = Some r \<and> length (mg_waterfall m) = 7
    \<and> wf_running_total_ht (mg_waterfall m ! 0) = Some (margin_money r)
    \<and> wf_running_total_ht (mg_waterfall m ! 5) = Some (margin_money w)
    \<and> wf_running_total_ht (mg_waterfall m ! 6) = Some (margin_money (r - exact_cost inp))
    \<and> \<bar>w - (r - exact_cost inp)\<bar> \<le> 60000"
proof -
  let ?t = "category_total (resolve_costs (mi_costs inp))"
  obtain r where r: "read_revenue (mi_revenue inp) = Some r" "length (mg_waterfall m) = 7"
    "wf_running_total_ht (mg_waterfall m ! 0) = Some (margin_money r)"
    "wf_running_total_ht (mg_waterfall m ! 5) = Some (margin_money (r - (\<Sum>c\<leftarrow>MARGIN_COST_CATEGORIES. to_cents (?t c))))"
    "wf_running_total_ht (mg_waterfall m ! 6) = Some (margin_money (r - exact_cost inp))"
    by (rule waterfall_rows [OF assms])
  have "\<bar>(\<Sum>c\<leftarrow>cs. ?t c) - (\<Sum>c\<leftarrow>cs. to_cents (?t c))\<bar> \<le> int (length cs) * 5000" for cs
  proof (induction cs)
    case (Cons c cs)
    then show ?case using cents_error [of "?t c"] by simp
  qed simp
  from this [of MARGIN_COST_CATEGORIES]
  have "\<bar>exact_cost inp - (\<Sum>c\<leftarrow>MARGIN_COST_CATEGORIES. to_cents (?t c))\<bar> \<le> int (length MARGIN_COST_CATEGORIES) * 5000"
    unfolding cost_by_category .
  moreover have "int (length MARGIN_COST_CATEGORIES) * 5000 = 60000" by (simp add: MARGIN_COST_CATEGORIES_def)
  ultimately have "\<bar>(r - (\<Sum>c\<leftarrow>MARGIN_COST_CATEGORIES. to_cents (?t c))) - (r - exact_cost inp)\<bar> \<le> 60000" by linarith
  with r show ?thesis by blast
qed

section \<open>An example\<close>

definition sample_evidence :: margin_evidence where
  "sample_evidence = \<lparr>me_definition = [], me_unit = ''EUR'', me_period_start = [], me_period_end = [], me_freshness_at = None,
     me_source_reliability = SrcVerified, me_source_type = [], me_source_ref = None, me_observed_at = None,
     me_assumption = None, me_assumption_date = None, me_rate_version_id = None, me_rate_id = None, me_rate_effective_at = None,
     me_rate_scope_type = None, me_rate_scope_ref = None, me_source_document_type = None, me_source_document_ref = None\<rparr>"

definition cost_row :: "margin_cost_category \<Rightarrow> string option \<Rightarrow> margin_cost_input" where
  "cost_row c amount = \<lparr>mc_key = [], mc_category = c,
     mc_availability = (if amount = None then NOT_APPLICABLE else PROVIDED), mc_amount_ht = amount, mc_quantity = None,
     mc_rate = None, mc_rate_unit = None, mc_currency = ''EUR'', mc_evidence = sample_evidence\<rparr>"

definition small_costs :: "margin_cost_category \<Rightarrow> string option" where
  "small_costs c = (if c = MATERIAL \<or> c = MACHINE then Some ''0.004'' else None)"

definition sample_margin :: margin_calculation_input where
  "sample_margin = \<lparr>mi_scope_type = OfScope, mi_scope_ref = ''1'', mi_label = [], mi_basis = ACTUAL, mi_as_of = [],
     mi_revenue = Some \<lparr>mr_availability = PROVIDED, mr_amount_ht = Some ''100.00'', mr_currency = ''EUR'', mr_evidence = sample_evidence\<rparr>,
     mi_costs = map (\<lambda>c. cost_row c (small_costs c)) MARGIN_COST_CATEGORIES,
     mi_required_categories = None, mi_measurements = None\<rparr>"

lemma sample_decimals: "margin_decimal ''0.004'' = Some 4000" "margin_decimal ''100.00'' = Some 100000000"
proof -
  have t: "js_trim ''0.004'' = ''0.004''" "js_trim ''100.00'' = ''100.00''" by code_simp+
  have p: "js_split (CHR ''.'') ''0.004'' = [''0'', ''004'']" "js_split (CHR ''.'') ''100.00'' = [''100'', ''00'']" by code_simp+
  show "margin_decimal ''0.004'' = Some 4000" "margin_decimal ''100.00'' = Some 100000000"
    by (simp_all add: margin_decimal_def t p read_sign_def digits_def is_digit_def scaled_units_def SCALE_DIGITS_def SCALE_def
        read_nat_def digit_val_def numeral_eq_Suc Let_def)
qed

lemma sample_revenue: "read_revenue (mi_revenue sample_margin) = Some 100000000"
  by (simp add: read_revenue_def sample_margin_def sample_decimals)

lemma sample_known: "\<forall>c \<in> set (required_of sample_margin). cost_known (mi_costs sample_margin) c"
  using all_categories
  by (auto simp: cost_known_def required_of_def sample_margin_def cost_row_def small_costs_def resolve_amount_def sample_decimals)

lemma sample_resolved:
  "resolve_costs (mi_costs sample_margin) = map (\<lambda>c. resolve_input (cost_row c (small_costs c)) 8000) MARGIN_COST_CATEGORIES"
  by (simp add: resolve_costs_def sample_margin_def MARGIN_COST_CATEGORIES_def small_costs_def cost_row_def resolve_input_def
      resolve_amount_def sample_decimals amount_or_zero_def Let_def)

lemma sample_cost: "exact_cost sample_margin = 8000"
  by (simp add: exact_cost_def sample_resolved MARGIN_COST_CATEGORIES_def small_costs_def cost_row_def resolve_input_def
      resolve_amount_def sample_decimals amount_or_zero_def Let_def)

theorem margin_published_iff_witness:
  "\<exists>m. calculate_margin sample_margin = Some m \<and> mg_gross_margin_ht m = Some (margin_money 99992000)"
  using margin_published_iff [of sample_margin] sample_revenue sample_known sample_cost by fastforce

theorem waterfall_closes_witness:
  "\<exists>m w. calculate_margin sample_margin = Some m \<and> wf_running_total_ht (mg_waterfall m ! 5) = Some (margin_money w)
    \<and> wf_running_total_ht (mg_waterfall m ! 6) = Some (margin_money 99992000) \<and> \<bar>w - 99992000\<bar> \<le> 60000"
proof -
  obtain m where m: "calculate_margin sample_margin = Some m" using calculate_margin_returns by blast
  have "mg_availability m = COMPLETE" using calculation_fields(4) [OF m] sample_known sample_revenue by simp
  moreover have "mi_required_categories sample_margin = None" by (simp add: sample_margin_def)
  ultimately show ?thesis using waterfall_closes [OF m] m sample_revenue sample_cost by fastforce
qed

text \<open>The cents lost category by category do show: with two costs of 0.004 the last running total of the
  waterfall is printed 100.00, the margin below it 99.99.\<close>

lemma waterfall_drifts:
  "\<exists>m. calculate_margin sample_margin = Some m \<and> mg_availability m = COMPLETE
    \<and> wf_running_total_ht (mg_waterfall m ! 5) = Some ''100.00'' \<and> wf_running_total_ht (mg_waterfall m ! 6) = Some ''99.99''"
proof -
  let ?rs = "resolve_costs (mi_costs sample_margin)"
  obtain m where m: "calculate_margin sample_margin = Some m" using calculate_margin_returns by blast
  have c: "mg_availability m = COMPLETE" using calculation_fields(4) [OF m] sample_known sample_revenue by simp
  have z: "to_cents (category_total ?rs c) = 0" for c
    by (cases c) (simp_all add: to_cents_def half_up_def category_total_def rows_of_def sample_resolved MARGIN_COST_CATEGORIES_def
        small_costs_def cost_row_def resolve_input_def resolve_amount_def sample_decimals amount_or_zero_def Let_def)
  have q: "mi_required_categories sample_margin = None" by (simp add: sample_margin_def)
  have w: "wf_running_total_ht (mg_waterfall m ! 5) = Some (margin_money 100000000)"
    "wf_running_total_ht (mg_waterfall m ! 6) = Some (margin_money 99992000)"
    by (rule waterfall_rows [OF m c q]; simp add: sample_revenue sample_cost z)+
  have "margin_money 100000000 = ''100.00''" "margin_money 99992000 = ''99.99''"
    by (simp_all add: margin_money_text half_up_def print_simps)
  with m c w show ?thesis by auto
qed

end
