(* ===== verification/Business_Codes.thy ===== *)
theory Business_Codes
  imports Decimal_Money
begin

text \<open>
  \<open>src/shared/codes/code-generator.service.ts\<close>, \<open>code-validator.ts\<close> and the function
  \<open>fn_next_issued_code_value\<close> of \<open>db/patches/20260728_surface_finish_library_210.sql\<close>: the business codes
  of clients, quotes, orders, works orders, articles and others. All of them draw their number
  from one sequence, which never goes back. The sequences are the state.
\<close>

section \<open>Segments\<close>

definition alnum :: "char \<Rightarrow> bool" where
  "alnum c \<longleftrightarrow> c \<in> set ''ABCDEFGHIJKLMNOPQRSTUVWXYZ'' \<or> is_digit c"

text \<open>\<open>normalize("NFD").replace(/\p{Diacritic}/gu, "")\<close> on Latin-1: the base letter, and no sign of its own.\<close>

definition strip_diacritic :: "char \<Rightarrow> string" where
  "strip_diacritic c =
     (let n = (of_char c :: nat) in
      if n \<in> {94, 96, 168, 175, 180, 183, 184} then []
      else if 192 \<le> n \<and> n \<le> 197 then ''A'' else if n = 199 then ''C''
      else if 200 \<le> n \<and> n \<le> 203 then ''E'' else if 204 \<le> n \<and> n \<le> 207 then ''I''
      else if n = 209 then ''N'' else if 210 \<le> n \<and> n \<le> 214 then ''O''
      else if 217 \<le> n \<and> n \<le> 220 then ''U'' else if n = 221 then ''Y''
      else if 224 \<le> n \<and> n \<le> 229 then ''a'' else if n = 231 then ''c''
      else if 232 \<le> n \<and> n \<le> 235 then ''e'' else if 236 \<le> n \<and> n \<le> 239 then ''i''
      else if n = 241 then ''n'' else if 242 \<le> n \<and> n \<le> 246 then ''o''
      else if 249 \<le> n \<and> n \<le> 252 then ''u'' else if n = 253 \<or> n = 255 then ''y'' else [c])"

definition strip_diacritics :: "string \<Rightarrow> string" where
  "strip_diacritics s = concat (map strip_diacritic s)"

definition normalize_segment :: "string \<Rightarrow> string result" where
  "normalize_segment v =
     (let normalized = filter alnum (js_upper (strip_diacritics v))
      in if normalized = [] then Inl (HttpError 400 ''INVALID_CODE_SEGMENT'') else Inr normalized)"

text \<open>\<open>replace(/[^A-Z0-9]+/g, "-")\<close> and \<open>replace(/^-+|-+$/g, "")\<close>.\<close>

function dash_runs :: "string \<Rightarrow> string" where
  "dash_runs [] = []"
| "dash_runs (c # s) = (if alnum c then c # dash_runs s else CHR ''-'' # dash_runs (dropWhile (\<lambda>x. \<not> alnum x) s))"
  by pat_completeness auto
termination
  by (relation "measure length") (auto simp: le_imp_less_Suc length_dropWhile_le)

definition strip_dashes :: "string \<Rightarrow> string" where
  "strip_dashes s = rev (dropWhile (\<lambda>c. c = CHR ''-'') (rev (dropWhile (\<lambda>c. c = CHR ''-'') s)))"

definition normalize_plan_reference :: "string \<Rightarrow> string result" where
  "normalize_plan_reference v =
     (let normalized = strip_dashes (dash_runs (js_upper (strip_diacritics v)))
      in if normalized = [] then Inl (HttpError 400 ''INVALID_CODE_SEGMENT'') else Inr normalized)"

definition normalize_client_segment :: "string \<Rightarrow> string result" where
  "normalize_client_segment v =
     bind_result (normalize_segment v) (\<lambda>s.
     let normalized = (if prefix ''CLI'' s then drop 3 s else s)
     in if normalized = [] then Inl (HttpError 400 ''INVALID_CLIENT_CODE'')
        else Inr (if list_all is_digit normalized then pad_start 3 (CHR ''0'') normalized else normalized))"

section \<open>Numbers\<close>

record code_state =
  cs_issued :: nat
  cs_bon_livraison :: nat
  cs_reception :: nat

definition pad :: "nat \<Rightarrow> nat \<Rightarrow> string" where
  "pad n width = pad_start width (CHR ''0'') (show_nat n)"

definition YEARLY_SCOPES :: "string list" where
  "YEARLY_SCOPES = [''DEV'', ''CMD'', ''AFF'', ''OF'', ''LOT'', ''MVT'', ''CQ'', ''NC'', ''CAPA'', ''BL'', ''FACT'', ''BCF'',
     ''PC'', ''DER'', ''MEX'', ''MIA'']"

definition scope_allowed :: "string \<Rightarrow> bool" where
  "scope_allowed s \<longleftrightarrow>
     (case js_split (CHR '':'') s of
        [k] \<Rightarrow> k \<in> set [''CLI'', ''FOU'', ''MCH'', ''MET'', ''FIN'']
      | [k, v] \<Rightarrow> (k = ''ART'' \<and> v \<noteq> [] \<and> length v \<le> 48 \<and> list_all alnum v)
          \<or> (k \<in> set YEARLY_SCOPES \<and> length v = 4 \<and> list_all is_digit v)
      | _ \<Rightarrow> False)"

text \<open>\<open>nextval\<close> of the one sequence; an unknown scope raises.\<close>

definition next_code_value :: "string \<Rightarrow> code_state \<Rightarrow> (nat \<times> code_state) result" where
  "next_code_value scope st =
     (if \<not> scope_allowed scope then Inl (JsError ''Unsupported business-code sequence scope'')
      else Inr (cs_issued st + 1, st\<lparr>cs_issued := cs_issued st + 1\<rparr>))"

definition year_from_date :: "int \<Rightarrow> nat result" where
  "year_from_date y = (if y < 1970 then Inl (JsError ''Invalid date for code generation'') else Inr (nat y))"

section \<open>Codes\<close>

datatype code_prefix = P_DEV | P_CMD | P_AFF | P_OF | P_LOT | P_MVT | P_CQ | P_NC | P_CAPA | P_BL | P_FACT | P_BCF
  | P_PC | P_DER | P_MEX | P_MIA

fun prefix_name :: "code_prefix \<Rightarrow> string" where
  "prefix_name P_DEV = ''DEV''" | "prefix_name P_CMD = ''CMD''" | "prefix_name P_AFF = ''AFF''"
| "prefix_name P_OF = ''OF''" | "prefix_name P_LOT = ''LOT''" | "prefix_name P_MVT = ''MVT''"
| "prefix_name P_CQ = ''CQ''" | "prefix_name P_NC = ''NC''" | "prefix_name P_CAPA = ''CAPA''"
| "prefix_name P_BL = ''BL''" | "prefix_name P_FACT = ''FACT''" | "prefix_name P_BCF = ''BCF''"
| "prefix_name P_PC = ''PC''" | "prefix_name P_DER = ''DER''" | "prefix_name P_MEX = ''MEX''"
| "prefix_name P_MIA = ''MIA''"

definition default_width :: "code_prefix \<Rightarrow> nat" where
  "default_width p = (if p \<in> set [P_DEV, P_CMD, P_AFF, P_BCF] then 4 else 6)"

definition generate_transactional_business_code ::
  "code_prefix \<Rightarrow> int \<Rightarrow> nat option \<Rightarrow> code_state \<Rightarrow> (string \<times> code_state) result" where
  "generate_transactional_business_code p date_year width st =
     bind_result (year_from_date date_year) (\<lambda>year.
     let w = (case width of None \<Rightarrow> default_width p | Some w \<Rightarrow> w) in
     bind_result (next_code_value (prefix_name p @ '':'' @ show_nat year) st) (\<lambda>(seq, st').
     Inr (prefix_name p @ ''-'' @ show_nat year @ ''-'' @ pad seq w, st')))"

definition generate_simple_code :: "string \<Rightarrow> nat \<Rightarrow> code_state \<Rightarrow> (string \<times> code_state) result" where
  "generate_simple_code key width st =
     bind_result (next_code_value key st) (\<lambda>(seq, st'). Inr (key @ ''-'' @ pad seq width, st'))"

definition generate_client_code :: "code_state \<Rightarrow> (string \<times> code_state) result" where
  "generate_client_code = generate_simple_code ''CLI'' 3"

definition generate_fournisseur_code :: "code_state \<Rightarrow> (string \<times> code_state) result" where
  "generate_fournisseur_code = generate_simple_code ''FOU'' 3"

definition generate_machine_code :: "code_state \<Rightarrow> (string \<times> code_state) result" where
  "generate_machine_code = generate_simple_code ''MCH'' 6"

definition generate_metrologie_equipement_code :: "code_state \<Rightarrow> (string \<times> code_state) result" where
  "generate_metrologie_equipement_code = generate_simple_code ''MET'' 6"

definition generate_surface_finish_code :: "code_state \<Rightarrow> (string \<times> code_state) result" where
  "generate_surface_finish_code = generate_simple_code ''FIN'' 6"

definition generate_devis_code :: "int \<Rightarrow> code_state \<Rightarrow> (string \<times> code_state) result" where
  "generate_devis_code y = generate_transactional_business_code P_DEV y None"

definition generate_commande_code :: "int \<Rightarrow> code_state \<Rightarrow> (string \<times> code_state) result" where
  "generate_commande_code y = generate_transactional_business_code P_CMD y None"

definition generate_affaire_code :: "int \<Rightarrow> code_state \<Rightarrow> (string \<times> code_state) result" where
  "generate_affaire_code y = generate_transactional_business_code P_AFF y None"

definition generate_of_code :: "int \<Rightarrow> code_state \<Rightarrow> (string \<times> code_state) result" where
  "generate_of_code y = generate_transactional_business_code P_OF y None"

definition generate_commande_fournisseur_code :: "int \<Rightarrow> code_state \<Rightarrow> (string \<times> code_state) result" where
  "generate_commande_fournisseur_code y = generate_transactional_business_code P_BCF y None"

definition generate_metrologie_execution_code :: "int \<Rightarrow> code_state \<Rightarrow> (string \<times> code_state) result" where
  "generate_metrologie_execution_code y = generate_transactional_business_code P_MEX y (Some 6)"

definition generate_metrologie_impact_code :: "int \<Rightarrow> code_state \<Rightarrow> (string \<times> code_state) result" where
  "generate_metrologie_impact_code y = generate_transactional_business_code P_MIA y (Some 5)"

definition preview_article_code :: "string \<Rightarrow> string result" where
  "preview_article_code family_code =
     bind_result (normalize_segment family_code) (\<lambda>family. Inr (''ART-'' @ family @ ''-000000''))"

definition generate_article_business_code :: "string \<Rightarrow> code_state \<Rightarrow> (string \<times> code_state) result" where
  "generate_article_business_code family_code st =
     bind_result (normalize_segment family_code) (\<lambda>family.
     bind_result (next_code_value (''ART:'' @ family) st) (\<lambda>(seq, st').
     Inr (''ART-'' @ family @ ''-'' @ pad seq 6, st')))"

definition generate_bl_code :: "code_state \<Rightarrow> string \<times> code_state" where
  "generate_bl_code st = (let n = cs_bon_livraison st + 1
     in (take 30 (''BL-'' @ pad n 8), st\<lparr>cs_bon_livraison := n\<rparr>))"

definition generate_reception_code :: "code_state \<Rightarrow> string \<times> code_state" where
  "generate_reception_code st = (let n = cs_reception st + 1 in (''RF-'' @ pad n 8, st\<lparr>cs_reception := n\<rparr>))"

definition preview_piece_technique_code :: "string \<Rightarrow> string \<Rightarrow> string \<Rightarrow> string result" where
  "preview_piece_technique_code client_code plan_reference indice =
     bind_result (normalize_client_segment client_code) (\<lambda>c.
     bind_result (normalize_plan_reference plan_reference) (\<lambda>p.
     bind_result (normalize_segment indice) (\<lambda>i. Inr (js_join ''-'' [c, p, i]))))"

text \<open>The row read for the code of a fabricated article: client code, plan, index and internal version.\<close>

record fabricated_source =
  fs_client_code :: "string option"
  fs_plan_reference :: "string option"
  fs_indice :: "string option"
  fs_version_interne :: "int option"

definition require_text :: "string option \<Rightarrow> string \<Rightarrow> string result" where
  "require_text v code =
     (case v of Some t \<Rightarrow> if js_trim t = [] then Inl (HttpError 400 code) else Inr t | None \<Rightarrow> Inl (HttpError 400 code))"

definition generate_fabricated_article_code :: "fabricated_source option \<Rightarrow> string result" where
  "generate_fabricated_article_code source =
     (case source of
        None \<Rightarrow> Inl (HttpError 400 ''INVALID_PIECE_TECHNIQUE'')
      | Some s \<Rightarrow>
          bind_result (require_text (fs_client_code s) ''CLIENT_CODE_REQUIRED'') (\<lambda>client.
          bind_result (require_text (fs_plan_reference s) ''PLAN_REFERENCE_REQUIRED'') (\<lambda>plan.
          bind_result (require_text (fs_indice s) ''INDEX_REQUIRED'') (\<lambda>indice.
          bind_result (normalize_client_segment client) (\<lambda>c.
          bind_result (normalize_plan_reference plan) (\<lambda>p.
          bind_result (normalize_segment indice) (\<lambda>i.
          Inr (js_join ''-'' ([''ART'', ''FAB'', c, p, i]
            @ (case fs_version_interne s of Some v \<Rightarrow> if 1 < v then [''V'' @ show_nat (nat v)] else [] | None \<Rightarrow> []))))))))))"

section \<open>Formats\<close>

datatype code_format = FmtClient | FmtDevis | FmtCommande | FmtAffaire | FmtPieceTechnique | FmtOf | FmtBonLivraison
  | FmtReception | FmtFournisseur | FmtCommandeFournisseur | FmtArticle | FmtSurfaceFinish | FmtNonConformity | FmtCapa
  | FmtControlPlan | FmtDerogation

definition digits_of :: "nat \<Rightarrow> string \<Rightarrow> bool" where
  "digits_of n s \<longleftrightarrow> length s = n \<and> list_all is_digit s"

definition some_digits :: "string \<Rightarrow> bool" where
  "some_digits s \<longleftrightarrow> s \<noteq> [] \<and> list_all is_digit s"

definition some_alnum :: "string \<Rightarrow> bool" where
  "some_alnum s \<longleftrightarrow> s \<noteq> [] \<and> list_all alnum s"

definition version_mark :: "string \<Rightarrow> bool" where
  "version_mark s \<longleftrightarrow> (case s of [] \<Rightarrow> False | c # r \<Rightarrow> c = CHR ''V'' \<and> some_digits r)"

text \<open>The regular expressions, on the text cut at its dashes.\<close>

fun format_parts :: "code_format \<Rightarrow> string list \<Rightarrow> bool" where
  "format_parts FmtClient ps = (case ps of [k, n] \<Rightarrow> k = ''CLI'' \<and> digits_of 3 n | _ \<Rightarrow> False)"
| "format_parts FmtDevis ps = (case ps of
      [k, y, n] \<Rightarrow> k = ''DEV'' \<and> digits_of 4 y \<and> digits_of 4 n
    | [k, y, n, v] \<Rightarrow> k = ''DEV'' \<and> digits_of 4 y \<and> digits_of 4 n \<and> version_mark v
    | [k, n] \<Rightarrow> k = ''DV'' \<and> some_digits n | _ \<Rightarrow> False)"
| "format_parts FmtCommande ps = (case ps of
      [k, y, n] \<Rightarrow> k = ''CMD'' \<and> digits_of 4 y \<and> digits_of 4 n
    | [k, n] \<Rightarrow> k = ''CC'' \<and> some_digits n | _ \<Rightarrow> False)"
| "format_parts FmtAffaire ps = (case ps of
      [k, y, n] \<Rightarrow> k = ''AFF'' \<and> digits_of 4 y \<and> digits_of 4 n
    | [k, l, c, cn, y, n] \<Rightarrow> k = ''AFF'' \<and> l = ''LIV'' \<and> c = ''CLI'' \<and> digits_of 3 cn \<and> digits_of 4 y \<and> digits_of 4 n
    | [k, n] \<Rightarrow> k = ''AFF'' \<and> some_digits n | _ \<Rightarrow> False)"
| "format_parts FmtPieceTechnique ps = ((3 \<le> length ps \<and> list_all some_alnum ps)
    \<or> (case ps of [k, n] \<Rightarrow> k = ''P'' \<and> 3 \<le> length n \<and> list_all is_digit n | _ \<Rightarrow> False))"
| "format_parts FmtOf ps = (case ps of
      [k, y, n] \<Rightarrow> k = ''OF'' \<and> digits_of 4 y \<and> (digits_of 6 n \<or> digits_of 5 n)
    | [k, n] \<Rightarrow> k = ''OF'' \<and> some_digits n | _ \<Rightarrow> False)"
| "format_parts FmtBonLivraison ps = (case ps of [k, n] \<Rightarrow> k = ''BL'' \<and> digits_of 8 n | _ \<Rightarrow> False)"
| "format_parts FmtReception ps = (case ps of [k, n] \<Rightarrow> k = ''RF'' \<and> digits_of 8 n | _ \<Rightarrow> False)"
| "format_parts FmtFournisseur ps = (case ps of [k, n] \<Rightarrow> k = ''FOU'' \<and> digits_of 3 n | _ \<Rightarrow> False)"
| "format_parts FmtCommandeFournisseur ps = (case ps of [k, y, n] \<Rightarrow> k = ''BCF'' \<and> digits_of 4 y \<and> digits_of 4 n | _ \<Rightarrow> False)"
| "format_parts FmtArticle ps =
     ((case ps of [k, f, n] \<Rightarrow> k = ''ART'' \<and> some_alnum f \<and> digits_of 6 n | [k, n] \<Rightarrow> k = ''ART'' \<and> digits_of 4 n | _ \<Rightarrow> False)
      \<or> (case ps of k # f # rest \<Rightarrow> k = ''ART'' \<and> f = ''FAB'' \<and> 3 \<le> length rest \<and> list_all some_alnum rest \<and> last rest \<noteq> ''V1''
           | _ \<Rightarrow> False))"
| "format_parts FmtSurfaceFinish ps = (case ps of [k, n] \<Rightarrow> k = ''FIN'' \<and> digits_of 6 n | _ \<Rightarrow> False)"
| "format_parts FmtNonConformity ps = (case ps of [k, y, n] \<Rightarrow> k = ''NC'' \<and> digits_of 4 y \<and> digits_of 5 n | _ \<Rightarrow> False)"
| "format_parts FmtCapa ps = (case ps of
      [k, y, n] \<Rightarrow> k \<in> set [''CAPA'', ''CAP''] \<and> digits_of 4 y \<and> (digits_of 5 n \<or> digits_of 6 n) | _ \<Rightarrow> False)"
| "format_parts FmtControlPlan ps = (case ps of [k, y, n] \<Rightarrow> k = ''PC'' \<and> digits_of 4 y \<and> digits_of 6 n | _ \<Rightarrow> False)"
| "format_parts FmtDerogation ps = (case ps of [k, y, n] \<Rightarrow> k = ''DER'' \<and> digits_of 4 y \<and> digits_of 6 n | _ \<Rightarrow> False)"

definition is_valid_code :: "code_format \<Rightarrow> string \<Rightarrow> bool" where
  "is_valid_code fmt value = (let v = js_trim value in v \<noteq> [] \<and> format_parts fmt (js_split (CHR ''-'') v))"

end
