(* ===== verification/Code_Rules.thy ===== *)
theory Code_Rules
  imports Business_Codes
begin

text \<open>
  What the codes promise: a number is never issued twice, the format of a code holds up to a bound
  on the number, and the code of a technical piece always has its format.
\<close>

section \<open>The number in a code\<close>

lemma pad_digits: "list_all is_digit (pad n w)" "pad n w \<noteq> []"
  unfolding pad_def by (rule pad_start_digits) (simp_all add: list_all_iff show_nat_digits pad_start_def)

lemma pad_no_dash: "CHR ''-'' \<notin> set (pad n w)"
proof
  assume "CHR ''-'' \<in> set (pad n w)"
  then have "is_digit (CHR ''-'')" using pad_digits(1) [of n w] by (simp add: list_all_iff)
  then show False by (simp add: is_digit_def)
qed

lemma read_pad: "read_nat (pad n w) = n"
  by (simp add: pad_def)

lemma last_split: "d \<notin> set b \<Longrightarrow> \<exists>x xs. js_split d (a @ d # b) = x # xs @ [b]"
proof (induction a)
  case Nil
  then show ?case by (simp add: js_split_no_sep)
next
  case (Cons c a)
  then obtain x xs where "js_split d (a @ d # b) = x # xs @ [b]" by blast
  then show ?case by (cases "c = d") (force intro: exI [of _ "x # xs"])+
qed

text \<open>What follows the last dash, as a number.\<close>

definition code_number :: "string \<Rightarrow> nat" where
  "code_number s = read_nat (last (js_split (CHR ''-'') s))"

lemma code_number_pad: "code_number (k @ CHR ''-'' # pad n w) = n"
  using last_split [OF pad_no_dash, of k n w] by (auto simp: code_number_def read_pad)

section \<open>Sequences of allocations\<close>

datatype code_request = ReqYearly code_prefix int "nat option" | ReqClient | ReqFournisseur | ReqMachine | ReqEquipement
  | ReqFinish | ReqArticle string

fun issue :: "code_request \<Rightarrow> code_state \<Rightarrow> (string \<times> code_state) result" where
  "issue (ReqYearly p y w) st = generate_transactional_business_code p y w st"
| "issue ReqClient st = generate_client_code st"
| "issue ReqFournisseur st = generate_fournisseur_code st"
| "issue ReqMachine st = generate_machine_code st"
| "issue ReqEquipement st = generate_metrologie_equipement_code st"
| "issue ReqFinish st = generate_surface_finish_code st"
| "issue (ReqArticle f) st = generate_article_business_code f st"

lemma next_code_value_Inr: "next_code_value scope st = Inr (n, st') \<longleftrightarrow> scope_allowed scope \<and> n = cs_issued st + 1 \<and> st' = st\<lparr>cs_issued := n\<rparr>"
  by (auto simp: next_code_value_def)

lemma simple_number: "generate_simple_code k w st = Inr (c, st') \<Longrightarrow> code_number c = cs_issued st + 1 \<and> cs_issued st' = cs_issued st + 1"
  by (auto simp: generate_simple_code_def next_code_value_Inr code_number_pad)

lemma issue_number: "issue q st = Inr (c, st') \<Longrightarrow> code_number c = cs_issued st + 1 \<and> cs_issued st' = cs_issued st + 1"
proof (cases q)
  case (ReqYearly p y w)
  let ?k = "prefix_name p @ ''-'' @ show_nat (nat y)"
  assume "issue q st = Inr (c, st')"
  then have g: "generate_transactional_business_code p y w st = Inr (c, st')" by (simp add: ReqYearly)
  obtain u where "c = prefix_name p @ ''-'' @ show_nat (nat y) @ ''-'' @ pad (cs_issued st + 1) u" "cs_issued st' = cs_issued st + 1"
    using g unfolding generate_transactional_business_code_def Let_def year_from_date_def
    by (auto simp: next_code_value_Inr simp del: append_Cons append_Nil split: if_splits)
  then have "c = ?k @ CHR ''-'' # pad (cs_issued st + 1) u" "cs_issued st' = cs_issued st + 1" by simp_all
  then show ?thesis by (simp only: code_number_pad)
next
  case (ReqArticle f)
  assume "issue q st = Inr (c, st')"
  then have r: "generate_article_business_code f st = Inr (c, st')" by (simp add: ReqArticle)
  obtain g where "c = ''ART-'' @ g @ ''-'' @ pad (cs_issued st + 1) 6" "cs_issued st' = cs_issued st + 1"
    using r unfolding generate_article_business_code_def
    by (auto simp: next_code_value_Inr simp del: append_Cons append_Nil)
  then have "c = (''ART-'' @ g) @ CHR ''-'' # pad (cs_issued st + 1) 6" "cs_issued st' = cs_issued st + 1" by simp_all
  then show ?thesis by (simp only: code_number_pad)
qed (auto simp: generate_client_code_def generate_fournisseur_code_def generate_machine_code_def
  generate_metrologie_equipement_code_def generate_surface_finish_code_def dest: simple_number)

text \<open>The codes a sequence of requests obtains. A request that is refused before its number is drawn
  leaves no trace; one that fails after wastes its number (\<open>lost\<close>).\<close>

fun issue_all :: "(code_request \<times> bool) list \<Rightarrow> code_state \<Rightarrow> string list \<times> code_state" where
  "issue_all [] st = ([], st)"
| "issue_all ((q, lost) # qs) st =
     (case issue q st of
        Inl _ \<Rightarrow> issue_all qs st
      | Inr (c, st') \<Rightarrow> (let (cs, st'') = issue_all qs st' in (if lost then cs else c # cs, st'')))"

lemma issued_numbers:
  "issue_all qs st = (cs, st') \<Longrightarrow> cs_issued st \<le> cs_issued st' \<and> sorted_wrt (<) (map code_number cs)
    \<and> (\<forall>c \<in> set cs. cs_issued st < code_number c \<and> code_number c \<le> cs_issued st')"
proof (induction qs arbitrary: st cs st')
  case (Cons q qs)
  obtain r lost where q: "q = (r, lost)" by (rule prod.exhaust)
  show ?case
  proof (cases "issue r st")
    case (Inl e)
    then show ?thesis using Cons by (simp add: q)
  next
    case (Inr p)
    obtain c st1 where p: "p = (c, st1)" by (rule prod.exhaust)
    note n = issue_number [OF Inr [unfolded p]]
    obtain cs1 st2 where r: "issue_all qs st1 = (cs1, st2)" by (rule prod.exhaust)
    have "cs = (if lost then cs1 else c # cs1)" "st' = st2" using Cons.prems by (simp_all add: q Inr p r)
    with Cons.IH [OF r] n show ?thesis by auto
  qed
qed simp



section \<open>Formats\<close>

lemma pad_length: "0 < w \<Longrightarrow> length (pad n w) = w \<longleftrightarrow> n < 10 ^ w"
proof -
  assume w: "0 < w"
  have l: "length (pad n w) = max w (length (show_nat n))" by (simp add: pad_def pad_start_def)
  have "n < 10 ^ w" if "length (show_nat n) \<le> w"
  proof -
    have "list_all is_digit (show_nat n)" by (simp add: list_all_iff show_nat_digits)
    from read_nat_bound [OF this] have "n < 10 ^ length (show_nat n)" by simp
    also have "(10 :: nat) ^ length (show_nat n) \<le> 10 ^ w" using that by (intro power_increasing) simp_all
    finally show ?thesis .
  qed
  then show ?thesis using l show_nat_length [OF _ w, of n] by auto
qed

lemma pad_long: "w < length (pad n (Suc w))"
  by (simp add: pad_def pad_start_def)

lemma alnum_facts: "alnum c \<Longrightarrow> c \<noteq> CHR ''-'' \<and> c \<noteq> CHR '':'' \<and> \<not> js_space c"
proof -
  have l: "list_all (\<lambda>c. c \<noteq> CHR ''-'' \<and> c \<noteq> CHR '':'' \<and> \<not> js_space c) (''ABCDEFGHIJKLMNOPQRSTUVWXYZ'' @ ''0123456789'')"
    by code_simp
  assume "alnum c"
  then have "c \<in> set (''ABCDEFGHIJKLMNOPQRSTUVWXYZ'' @ ''0123456789'')" unfolding alnum_def is_digit_def set_append by blast
  with l show ?thesis unfolding list_all_iff by (rule bspec)
qed

lemma digit_alnum: "is_digit c \<Longrightarrow> alnum c"
  by (simp add: alnum_def)

lemma prefix_letters: "alnum (CHR ''A'')" "alnum (CHR ''C'')" "alnum (CHR ''F'')" "alnum (CHR ''I'')" "alnum (CHR ''L'')"
  "alnum (CHR ''N'')" "alnum (CHR ''O'')" "alnum (CHR ''R'')" "alnum (CHR ''T'')" "alnum (CHR ''U'')" "alnum (CHR ''V'')"
  by (simp_all add: alnum_def)

lemma code_trimmed: "list_all (\<lambda>c. alnum c \<or> c = CHR ''-'') s \<Longrightarrow> js_trim s = s"
proof (rule js_trim_id)
  assume a: "list_all (\<lambda>c. alnum c \<or> c = CHR ''-'') s"
  have "\<not> js_space (CHR ''-'')" by code_simp
  with a alnum_facts have "\<not> js_space c" if "c \<in> set s" for c using that by (auto simp: list_all_iff)
  then show "trimmed s" by (cases s) (auto simp: trimmed_def)
qed

lemma prefix_alnum: "list_all alnum (prefix_name p)"
  by (cases p) (simp_all add: alnum_def)

lemma show_nat_alnum: "list_all alnum (show_nat n)" "list_all alnum (pad n w)"
  using pad_digits(1) [of n w] show_nat_digits digit_alnum by (auto simp: list_all_iff)

lemma no_dash: "list_all alnum s \<Longrightarrow> CHR ''-'' \<notin> set s"
  using alnum_facts by (auto simp: list_all_iff)

lemma yearly_parts:
  assumes "generate_transactional_business_code p y w st = Inr (c, st')"
  obtains year where "digits_of 4 year"
    "c = prefix_name p @ CHR ''-'' # year @ CHR ''-'' # pad (cs_issued st + 1) (case w of None \<Rightarrow> default_width p | Some w \<Rightarrow> w)"
    "js_trim c = c" "js_split (CHR ''-'') c = [prefix_name p, year, pad (cs_issued st + 1) (case w of None \<Rightarrow> default_width p | Some w \<Rightarrow> w)]"
proof -
  let ?y = "show_nat (nat y)" and ?n = "pad (cs_issued st + 1) (case w of None \<Rightarrow> default_width p | Some w \<Rightarrow> w)"
  have c: "c = prefix_name p @ CHR ''-'' # ?y @ CHR ''-'' # ?n" and s: "scope_allowed (prefix_name p @ CHR '':'' # ?y)"
    using assms unfolding generate_transactional_business_code_def Let_def year_from_date_def
    by (auto simp: next_code_value_Inr split: if_splits)
  have "CHR '':'' \<notin> set (prefix_name p)" "CHR '':'' \<notin> set ?y"
    using prefix_alnum [of p] show_nat_alnum(1) [of "nat y"] alnum_facts unfolding list_all_iff by blast+
  then have "js_split (CHR '':'') (prefix_name p @ CHR '':'' # ?y) = [prefix_name p, ?y]"
    by (simp add: js_split_append_sep js_split_no_sep)
  then have "digits_of 4 ?y" using s by (cases p) (auto simp: scope_allowed_def digits_of_def)
  moreover have "js_trim c = c"
    unfolding c using prefix_alnum [of p] show_nat_alnum by (intro code_trimmed) (auto simp: list_all_iff)
  moreover have "js_split (CHR ''-'') c = [prefix_name p, ?y, ?n]"
    unfolding c using no_dash [OF prefix_alnum] no_dash [OF show_nat_alnum(1)] no_dash [OF show_nat_alnum(2)]
    by (simp add: js_split_append_sep js_split_no_sep)
  ultimately show ?thesis using that c by blast
qed

text \<open>The format a code should have, and the digits it leaves for the number.\<close>

fun format_of :: "code_request \<Rightarrow> (code_format \<times> nat) option" where
  "format_of (ReqYearly P_DEV y None) = Some (FmtDevis, 4)"
| "format_of (ReqYearly P_CMD y None) = Some (FmtCommande, 4)"
| "format_of (ReqYearly P_AFF y None) = Some (FmtAffaire, 4)"
| "format_of (ReqYearly P_BCF y None) = Some (FmtCommandeFournisseur, 4)"
| "format_of (ReqYearly P_OF y None) = Some (FmtOf, 6)"
| "format_of (ReqYearly P_CAPA y None) = Some (FmtCapa, 6)"
| "format_of (ReqYearly P_PC y None) = Some (FmtControlPlan, 6)"
| "format_of (ReqYearly P_DER y None) = Some (FmtDerogation, 6)"
| "format_of ReqClient = Some (FmtClient, 3)"
| "format_of ReqFournisseur = Some (FmtFournisseur, 3)"
| "format_of ReqFinish = Some (FmtSurfaceFinish, 6)"
| "format_of (ReqArticle f) = Some (FmtArticle, 6)"
| "format_of _ = None"

lemma digits_of_pad: "0 < w \<Longrightarrow> digits_of w (pad n w) \<longleftrightarrow> n < 10 ^ w"
  using pad_length [of w n] pad_digits(1) [of n w] by (simp add: digits_of_def)

lemma short_pad: "\<not> digits_of 5 (pad n 6)"
  using pad_long [of 5 n] by (simp add: digits_of_def)

text \<open>A code that was issued has the format of its kind exactly as long as its number fits in the
  digits of the format: 3 for clients and suppliers, 4 for quotes, customer orders, cases and
  purchase orders, 6 for the others. The number comes from the sequence that all kinds share.\<close>

theorem issued_code_valid_iff:
  assumes "issue q st = Inr (c, st')" "format_of q = Some (fmt, w)"
  shows "is_valid_code fmt c \<longleftrightarrow> cs_issued st + 1 < 10 ^ w"
proof (cases q)
  case (ReqYearly p y v)
  have v: "v = None" using assms(2) ReqYearly by (cases v; cases p) auto
  have "generate_transactional_business_code p y None st = Inr (c, st')" using assms(1) by (simp add: ReqYearly v)
  then obtain year where year: "digits_of 4 year" "js_trim c = c" "c = prefix_name p @ CHR ''-'' # year @ CHR ''-'' # pad (cs_issued st + 1) (default_width p)"
    "js_split (CHR ''-'') c = [prefix_name p, year, pad (cs_issued st + 1) (default_width p)]"
    by (rule yearly_parts) (simp add: option.case)
  have "c \<noteq> []" by (simp add: year(3))
  then show ?thesis using year assms(2) short_pad digits_of_pad
    by (cases p) (auto simp: is_valid_code_def ReqYearly v default_width_def)
next
  case (ReqArticle f)
  obtain g where g: "normalize_segment f = Inr g" "c = ''ART-'' @ g @ ''-'' @ pad (cs_issued st + 1) 6"
    using assms(1) by (auto simp: ReqArticle generate_article_business_code_def next_code_value_Inr)
  then have a: "some_alnum g" by (auto simp: normalize_segment_def Let_def some_alnum_def list_all_iff split: if_splits)
  have "js_split (CHR ''-'') c = [''ART'', g, pad (cs_issued st + 1) 6]"
    using no_dash [of g] no_dash [OF show_nat_alnum(2)] a by (simp add: g(2) some_alnum_def js_split_append_sep js_split_no_sep)
  moreover have "js_trim c = c"
    using a show_nat_alnum(2) by (intro code_trimmed) (auto simp: g(2) some_alnum_def list_all_iff prefix_letters)
  ultimately show ?thesis using assms(2) a digits_of_pad by (simp add: is_valid_code_def ReqArticle g(2))
qed (use assms no_dash [OF show_nat_alnum(2)] show_nat_alnum(2) digits_of_pad in
  \<open>auto simp: generate_client_code_def generate_fournisseur_code_def generate_surface_finish_code_def generate_simple_code_def
    next_code_value_Inr is_valid_code_def js_split_no_sep code_trimmed prefix_letters list_all_iff\<close>)


theorem issued_code_valid_iff_witness:
  "\<exists>c d st'. issue ReqClient \<lparr>cs_issued = 998, cs_bon_livraison = 0, cs_reception = 0\<rparr> = Inr (c, st') \<and> is_valid_code FmtClient c
    \<and> issue ReqClient \<lparr>cs_issued = 999, cs_bon_livraison = 0, cs_reception = 0\<rparr> = Inr (d, st'\<lparr>cs_issued := 1000\<rparr>)
    \<and> \<not> is_valid_code FmtClient d"
proof -
  let ?a = "\<lparr>cs_issued = 998, cs_bon_livraison = 0, cs_reception = 0\<rparr>" and ?b = "\<lparr>cs_issued = 999, cs_bon_livraison = 0, cs_reception = 0\<rparr>"
  have "scope_allowed ''CLI''" by code_simp
  then have i: "issue ReqClient st = Inr (''CLI'' @ ''-'' @ pad (cs_issued st + 1) 3, st\<lparr>cs_issued := cs_issued st + 1\<rparr>)" for st
    by (simp add: generate_client_code_def generate_simple_code_def next_code_value_def)
  have "is_valid_code FmtClient (''CLI'' @ ''-'' @ pad (cs_issued ?a + 1) 3)"
    "\<not> is_valid_code FmtClient (''CLI'' @ ''-'' @ pad (cs_issued ?b + 1) 3)"
    using issued_code_valid_iff [OF i [of ?a], of FmtClient 3] issued_code_valid_iff [OF i [of ?b], of FmtClient 3] by simp_all
  then show ?thesis using i [of ?a] i [of ?b] by (intro exI conjI) (simp_all only: code_state.simps, simp)
qed

section \<open>Codes of technical pieces\<close>

text \<open>A text whose dashes stand between letters and digits.\<close>

definition no_double_dash :: "string \<Rightarrow> bool" where
  "no_double_dash s \<longleftrightarrow> successively (\<lambda>a b. \<not> (a = CHR ''-'' \<and> b = CHR ''-'')) s"

definition code_chars :: "string \<Rightarrow> bool" where
  "code_chars s \<longleftrightarrow> list_all (\<lambda>c. alnum c \<or> c = CHR ''-'') s"

lemma dash_alnum: "\<not> alnum (CHR ''-'')"
  using alnum_facts by blast

lemma dash_runs_shape: "code_chars (dash_runs s) \<and> no_double_dash (dash_runs s)
    \<and> (dash_runs s \<noteq> [] \<longrightarrow> hd (dash_runs s) = CHR ''-'' \<longrightarrow> \<not> alnum (hd s))"
proof (induction s rule: dash_runs.induct)
  case (2 c s)
  show ?case
  proof (cases "alnum c")
    case True
    then show ?thesis using 2(1) alnum_facts [of c] by (auto simp: code_chars_def no_double_dash_def successively_Cons)
  next
    case False
    let ?r = "dropWhile (\<lambda>x. \<not> alnum x) s"
    have "?r \<noteq> [] \<Longrightarrow> alnum (hd ?r)" using hd_dropWhile [of "\<lambda>x. \<not> alnum x" s] by simp
    then have "dash_runs ?r \<noteq> [] \<Longrightarrow> hd (dash_runs ?r) \<noteq> CHR ''-''" using 2(2) [OF False] by (cases ?r) auto
    then show ?thesis using 2(2) [OF False] False by (auto simp: code_chars_def no_double_dash_def successively_Cons)
  qed
qed (simp add: code_chars_def no_double_dash_def)

lemma dash_free_parts:
  "code_chars s \<Longrightarrow> no_double_dash s \<Longrightarrow> s \<noteq> [] \<Longrightarrow> hd s \<noteq> CHR ''-'' \<Longrightarrow> last s \<noteq> CHR ''-'' \<Longrightarrow>
    list_all some_alnum (js_split (CHR ''-'') s)"
proof (induction s rule: induct_list012)
  case (3 c d s)
  then have c: "alnum c" "c \<noteq> CHR ''-''" by (auto simp: code_chars_def)
  show ?case
  proof (cases "d = CHR ''-''")
    case True
    then have "s \<noteq> []" using "3.prems"(5) by auto
    moreover from this True "3.prems" have "hd s \<noteq> CHR ''-''" "last s \<noteq> CHR ''-''" "code_chars s" "no_double_dash s"
      by (auto simp: code_chars_def no_double_dash_def successively_Cons)
    ultimately have s: "s \<noteq> []" "hd s \<noteq> CHR ''-''" "last s \<noteq> CHR ''-''" "code_chars s" "no_double_dash s" by blast+
    with "3.IH"(1) [OF s(4,5,1-3)] c True show ?thesis by (simp add: some_alnum_def)
  next
    case False
    with "3.prems" have "code_chars (d # s)" "no_double_dash (d # s)" "last (d # s) \<noteq> CHR ''-''"
      by (auto simp: code_chars_def no_double_dash_def)
    with "3.IH"(2) False have "list_all some_alnum (js_split (CHR ''-'') (d # s))" by simp
    with c show ?thesis by (cases "js_split (CHR ''-'') (d # s)") (auto simp: some_alnum_def [abs_def] simp del: js_split.simps(2)
      simp: js_split.simps(2) [of _ c])
  qed
qed (auto simp: code_chars_def some_alnum_def)

lemma strip_dashes_facts:
  assumes "code_chars s" "no_double_dash s" "strip_dashes s \<noteq> []"
  shows "code_chars (strip_dashes s)" "list_all some_alnum (js_split (CHR ''-'') (strip_dashes s))"
proof -
  let ?P = "\<lambda>c. c = CHR ''-''"
  define m where "m = dropWhile ?P s"
  obtain a where a: "s = a @ m" using dropWhile_suffix unfolding m_def by blast
  obtain b where b: "rev m = b @ dropWhile ?P (rev m)" using dropWhile_suffix by blast
  then have mb: "m = strip_dashes s @ rev b" unfolding strip_dashes_def m_def [symmetric] by (metis rev_append rev_rev_ident)
  have sm: "s = a @ strip_dashes s @ rev b" using a mb by simp
  have c: "code_chars (strip_dashes s)" "no_double_dash (strip_dashes s)"
    using assms(1,2) unfolding code_chars_def no_double_dash_def
    by (subst (asm) (1 2) sm, simp add: successively_append_iff)+
  have "m \<noteq> []" "hd m = hd (strip_dashes s)" using mb assms(3) by auto
  then have h: "hd (strip_dashes s) \<noteq> CHR ''-''" using hd_dropWhile [of ?P s] by (simp add: m_def)
  have "dropWhile ?P (rev m) \<noteq> []" using assms(3) by (simp add: strip_dashes_def m_def)
  from hd_dropWhile [OF this] have "last (strip_dashes s) \<noteq> CHR ''-''"
    by (simp add: strip_dashes_def m_def last_rev)
  with dash_free_parts [OF c assms(3) h] show "list_all some_alnum (js_split (CHR ''-'') (strip_dashes s))" by blast
  show "code_chars (strip_dashes s)" by (rule c(1))
qed

lemma plan_reference_shape:
  assumes "normalize_plan_reference v = Inr p"
  shows "code_chars p" "list_all some_alnum (js_split (CHR ''-'') p)"
proof -
  obtain u where u: "p = strip_dashes (dash_runs u)" "p \<noteq> []"
    using assms by (auto simp: normalize_plan_reference_def Let_def split: if_splits)
  then have n: "strip_dashes (dash_runs u) \<noteq> []" by simp
  from strip_dashes_facts [OF _ _ n] dash_runs_shape [of u]
  show "code_chars p" "list_all some_alnum (js_split (CHR ''-'') p)" unfolding u(1) by blast+
qed

lemma segment_shape: "normalize_segment v = Inr s \<Longrightarrow> some_alnum s"
  by (auto simp: normalize_segment_def Let_def some_alnum_def list_all_iff split: if_splits)

lemma client_shape: "normalize_client_segment v = Inr s \<Longrightarrow> some_alnum s"
proof -
  assume "normalize_client_segment v = Inr s"
  then obtain r where r: "normalize_segment v = Inr r" and s: "let n = (if prefix ''CLI'' r then drop 3 r else r) in
    n \<noteq> [] \<and> s = (if list_all is_digit n then pad_start 3 (CHR ''0'') n else n)"
    by (auto simp: normalize_client_segment_def Let_def split: if_splits)
  define n where "n = (if prefix ''CLI'' r then drop 3 r else r)"
  have "list_all alnum n" using segment_shape [OF r] by (auto simp: n_def some_alnum_def list_all_iff dest: in_set_dropD)
  moreover have "list_all is_digit (pad_start 3 (CHR ''0'') n)" if "list_all is_digit n"
    using pad_start_digits [OF that] .
  moreover have "n \<noteq> []" "s = (if list_all is_digit n then pad_start 3 (CHR ''0'') n else n)"
    using s by (simp_all add: n_def [symmetric] Let_def)
  ultimately show ?thesis using digit_alnum by (auto simp: some_alnum_def list_all_iff pad_start_def split: if_splits)
qed

text \<open>The code built for a technical piece always has the format of such codes: at least three
  segments of capitals and digits, whatever the texts it is built from, accents included.\<close>

theorem piece_code_well_formed:
  assumes "preview_piece_technique_code client plan indice = Inr code"
  shows "is_valid_code FmtPieceTechnique code"
proof -
  obtain c p i where parts: "normalize_client_segment client = Inr c" "normalize_plan_reference plan = Inr p"
    "normalize_segment indice = Inr i" and code: "code = c @ CHR ''-'' # p @ CHR ''-'' # i"
    using assms by (auto simp: preview_piece_technique_code_def)
  note c = client_shape [OF parts(1)] and p = plan_reference_shape [OF parts(2)] and i = segment_shape [OF parts(3)]
  have d: "CHR ''-'' \<notin> set c" "CHR ''-'' \<notin> set i" using c i no_dash by (auto simp: some_alnum_def)
  have sp: "js_split (CHR ''-'') (q @ CHR ''-'' # i) = js_split (CHR ''-'') q @ [i]" for q
    using d(2) by (induction q) (auto simp: js_split_no_sep split: list.splits)
  have "js_split (CHR ''-'') code = c # js_split (CHR ''-'') p @ [i]"
    using d(1) by (simp add: code js_split_append_sep sp)
  moreover have "js_trim code = code"
    using c p(1) i by (intro code_trimmed) (auto simp: code some_alnum_def code_chars_def list_all_iff)
  moreover have "js_split (CHR ''-'') p \<noteq> []" by simp
  ultimately show ?thesis using c p(2) i
    by (cases "js_split (CHR ''-'') p") (simp_all add: is_valid_code_def code)
qed

theorem piece_code_well_formed_witness:
  "preview_piece_technique_code ''cli-7'' ''170 25464/001'' ''c'' = Inr ''007-170-25464-001-C''
    \<and> is_valid_code FmtPieceTechnique ''007-170-25464-001-C''"
proof -
  have "preview_piece_technique_code ''cli-7'' ''170 25464/001'' ''c'' = Inr ''007-170-25464-001-C''" by code_simp
  with piece_code_well_formed [OF this] show ?thesis by simp
qed

end
