(* ===== verification/Of_Generation.thy ===== *)
theory Of_Generation
  imports Complex_Main Business_Codes Canonical_Json "HOL-Library.Product_Lexorder"
begin

text \<open>
  \<open>src/module/production/domain/of-generation.ts\<close>: the bill of materials of a technical piece is
  unfolded into a tree, and one works order is created for each occurrence of a manufactured
  piece, with its operations, its frozen technical data and its purchase needs. The tables are a
  record of lists and SQL is read as operations on them; numeric values are exact rationals. The
  query that builds the technical snapshot, the hashes, \<open>Number\<close> of a value in the snapshot and the
  identifier of the batch are arguments.
\<close>

section \<open>Tables\<close>

record technical_piece =
  tp_id :: string
  tp_article_id :: "string option"
  tp_code :: string
  tp_designation :: string
  tp_version_number :: int
  tp_deleted :: bool

record bom_line =
  bl_id :: string
  bl_parent :: string
  bl_parent_version :: "string option"
  bl_child :: string
  bl_rang :: int
  bl_quantite :: rat

record piece_version =
  pv_id :: string
  pv_piece :: string
  pv_statut :: string
  pv_date_effet :: "int option"
  pv_version_interne :: "int option"
  pv_created_at :: int

record gamme =
  ga_id :: string
  ga_version :: string
  ga_current :: bool

record gamme_operation =
  go_id :: string
  go_piece :: string
  go_gamme :: "string option"
  go_phase :: int
  go_designation :: string
  go_designation_2 :: "string option"
  go_cf_id :: "string option"
  go_cf_rate_id :: "string option"
  go_machine_id :: "string option"
  go_machine_family_code :: "string option"
  go_numero_programme :: "string option"
  go_taux_horaire :: "rat option"
  go_tp :: "rat option"
  go_tf_unit :: "rat option"
  go_qte :: "rat option"
  go_coef :: "rat option"

record of_operation =
  oo_of_id :: nat
  oo_revision_rank :: nat
  oo_phase :: int
  oo_designation :: string
  oo_cf_id :: "string option"
  oo_cf_code :: "string option"
  oo_cf_rate_id :: "string option"
  oo_machine_id :: "string option"
  oo_machine_family_code :: "string option"
  oo_numero_programme :: "string option"
  oo_hourly_rate :: rat
  oo_tp :: rat
  oo_tf_unit :: rat
  oo_qte :: rat
  oo_coef :: rat
  oo_temps_fabrication :: rat
  oo_temps_total :: rat
  oo_status :: string
  oo_notes :: "string option"
  oo_source :: string

record of_revision =
  rv_of_id :: nat
  rv_rank :: nat
  rv_statut :: string

record works_order =
  wo_id :: nat
  wo_numero :: string
  wo_affaire_id :: "nat option"
  wo_commande_id :: "nat option"
  wo_commande_ligne_id :: "nat option"
  wo_article_id :: "string option"
  wo_client_id :: "string option"
  wo_piece :: string
  wo_version :: string
  wo_snapshot :: json
  wo_sha256 :: string
  wo_parent :: "nat option"
  wo_root :: nat
  wo_batch :: string
  wo_level :: nat
  wo_bom_line :: "string option"
  wo_structure_path :: string
  wo_quantity_per_parent :: rat
  wo_quantity_cumulative :: rat
  wo_quantite_lancee :: rat
  wo_statut :: string
  wo_notes :: string

record structure_row =
  ss_batch :: string
  ss_root :: nat
  ss_parent :: "nat option"
  ss_of_id :: nat
  ss_level :: nat
  ss_path :: string
  ss_piece :: string
  ss_piece_version_number :: int
  ss_quantite_lancee :: rat

record purchase_requirement =
  pr_of_id :: nat
  pr_structure_path :: string
  pr_piece :: string
  pr_achat_id :: "string option"
  pr_article_id :: "string option"
  pr_fournisseur_id :: "string option"
  pr_nom :: "string option"
  pr_designation :: "string option"
  pr_type_achat :: "string option"
  pr_qty_per_piece :: rat
  pr_qty_required :: rat

record generation_batch =
  gb_id :: string
  gb_source_type :: string
  gb_root_piece :: string
  gb_requested_qty :: rat
  gb_idempotency_key :: "string option"
  gb_request_hash :: "string option"
  gb_source_hash :: string
  gb_root_of_id :: "nat option"
  gb_result :: "(nat list \<times> purchase_requirement list) option"

record generation_db =
  gd_pieces :: "technical_piece list"
  gd_bom :: "bom_line list"
  gd_versions :: "piece_version list"
  gd_gammes :: "gamme list"
  gd_gamme_operations :: "gamme_operation list"
  gd_cost_centres :: "(string \<times> string) list"
  gd_last_of_id :: nat
  gd_codes :: code_state
  gd_orders :: "works_order list"
  gd_revisions :: "of_revision list"
  gd_of_operations :: "of_operation list"
  gd_technical_snapshots :: "(nat \<times> string \<times> json \<times> string) list"
  gd_structure :: "structure_row list"
  gd_batches :: "generation_batch list"

record technical_snapshot =
  ts_version_id :: string
  ts_gamme_id :: "string option"
  ts_version_interne :: "int option"
  ts_snapshot :: json
  ts_sha256 :: string

record generation_node =
  gn_key :: string
  gn_parent_key :: "string option"
  gn_bom_line_id :: "string option"
  gn_parent_piece :: "string option"
  gn_piece :: string
  gn_article_id :: "string option"
  gn_code_piece :: string
  gn_designation :: string
  gn_version_number :: int
  gn_level :: nat
  gn_ordre :: int
  gn_quantite_par_parent :: rat
  gn_quantite_cumulee :: rat

record source_entry =
  se_key :: string
  se_piece :: string
  se_version_id :: "string option"
  se_sha256 :: "string option"
  se_quantite_par_parent :: rat
  se_quantite_cumulee :: rat

record generation_env =
  ge_today :: int
  ge_year :: int
  ge_batch_id :: string
  ge_read_snapshot :: "string \<Rightarrow> string \<Rightarrow> string option \<Rightarrow> json option"
  ge_hash :: "json \<Rightarrow> string"
  ge_source_hash :: "source_entry list \<Rightarrow> string"
  ge_number :: "json \<Rightarrow> rat option"

section \<open>The tree\<close>

definition HARD_MAX_GENERATION_DEPTH :: int where "HARD_MAX_GENERATION_DEPTH = 50"

definition find_piece :: "generation_db \<Rightarrow> string \<Rightarrow> technical_piece option" where
  "find_piece db p = find (\<lambda>x. tp_id x = p \<and> \<not> tp_deleted x) (gd_pieces db)"

text \<open>\<open>ORDER BY date_effet DESC NULLS LAST, version_interne DESC NULLS LAST, created_at DESC LIMIT 1\<close>.\<close>

definition desc_nulls_last :: "int option \<Rightarrow> int \<times> int" where
  "desc_nulls_last v = (case v of None \<Rightarrow> (1, 0) | Some x \<Rightarrow> (0, - x))"

definition applicable_version :: "generation_env \<Rightarrow> generation_db \<Rightarrow> string \<Rightarrow> piece_version option" where
  "applicable_version env db p =
     (case sort_key (\<lambda>v. (desc_nulls_last (pv_date_effet v), desc_nulls_last (pv_version_interne v), - pv_created_at v))
         (filter (\<lambda>v. pv_piece v = p \<and> pv_statut v = ''APPLICABLE''
            \<and> (case pv_date_effet v of None \<Rightarrow> True | Some d \<Rightarrow> d \<le> ge_today env)) (gd_versions db)) of
        [] \<Rightarrow> None
      | v # _ \<Rightarrow> Some v)"

text \<open>A row of the recursive query; the last piece of its path is \<open>gt_piece\<close>.\<close>

record tree_row =
  gt_bom_line_id :: "string option"
  gt_parent_piece :: "string option"
  gt_piece :: technical_piece
  gt_level :: nat
  gt_path :: "string list"
  gt_orders :: "int list"
  gt_ordre :: int
  gt_par_parent :: rat
  gt_cumulee :: rat
  gt_is_cycle :: bool

definition root_row :: "technical_piece \<Rightarrow> tree_row" where
  "root_row p = \<lparr>gt_bom_line_id = None, gt_parent_piece = None, gt_piece = p, gt_level = 0, gt_path = [tp_id p],
     gt_orders = [0], gt_ordre = 0, gt_par_parent = 1, gt_cumulee = 1, gt_is_cycle = False\<rparr>"

definition line_applies :: "generation_env \<Rightarrow> generation_db \<Rightarrow> string \<Rightarrow> bom_line \<Rightarrow> bool" where
  "line_applies env db p n \<longleftrightarrow> bl_parent n = p
     \<and> (case bl_parent_version n of None \<Rightarrow> True | Some v \<Rightarrow> Some v = map_option pv_id (applicable_version env db p))"

definition child_row :: "tree_row \<Rightarrow> bom_line \<Rightarrow> technical_piece \<Rightarrow> tree_row" where
  "child_row r n child = \<lparr>gt_bom_line_id = Some (bl_id n), gt_parent_piece = Some (bl_parent n), gt_piece = child,
     gt_level = gt_level r + 1, gt_path = gt_path r @ [tp_id child], gt_orders = gt_orders r @ [bl_rang n],
     gt_ordre = bl_rang n, gt_par_parent = bl_quantite n, gt_cumulee = gt_cumulee r * bl_quantite n,
     gt_is_cycle = (tp_id child \<in> set (gt_path r))\<rparr>"

definition child_rows :: "generation_env \<Rightarrow> generation_db \<Rightarrow> nat \<Rightarrow> tree_row \<Rightarrow> tree_row list" where
  "child_rows env db limit r =
     (if gt_level r < limit \<and> \<not> gt_is_cycle r
      then concat (map (\<lambda>n. case find_piece db (bl_child n) of None \<Rightarrow> [] | Some c \<Rightarrow> [child_row r n c])
             (filter (line_applies env db (tp_id (gt_piece r))) (gd_bom db)))
      else [])"

text \<open>One recursion of the query for each level; after \<open>limit\<close> levels \<open>tree.level < limit\<close> leaves nothing.\<close>

fun tree_levels :: "generation_env \<Rightarrow> generation_db \<Rightarrow> nat \<Rightarrow> nat \<Rightarrow> tree_row list \<Rightarrow> tree_row list" where
  "tree_levels env db limit 0 rows = rows"
| "tree_levels env db limit (Suc k) rows = rows @ tree_levels env db limit k (concat (map (child_rows env db limit) rows))"

definition tree_query :: "generation_env \<Rightarrow> generation_db \<Rightarrow> nat \<Rightarrow> string \<Rightarrow> tree_row list" where
  "tree_query env db limit p =
     (case find_piece db p of
        None \<Rightarrow> []
      | Some p0 \<Rightarrow> sort_key (\<lambda>r. (gt_orders r, tp_id (gt_piece r))) (tree_levels env db limit limit [root_row p0]))"

definition node_of_row :: "tree_row \<Rightarrow> generation_node" where
  "node_of_row r = \<lparr>gn_key = js_join ''/'' (gt_path r),
     gn_parent_key = (if 1 < length (gt_path r) then Some (js_join ''/'' (butlast (gt_path r))) else None),
     gn_bom_line_id = gt_bom_line_id r, gn_parent_piece = gt_parent_piece r, gn_piece = tp_id (gt_piece r),
     gn_article_id = tp_article_id (gt_piece r), gn_code_piece = tp_code (gt_piece r),
     gn_designation = tp_designation (gt_piece r), gn_version_number = tp_version_number (gt_piece r),
     gn_level = gt_level r, gn_ordre = gt_ordre r, gn_quantite_par_parent = gt_par_parent r,
     gn_quantite_cumulee = gt_cumulee r\<rparr>"

definition load_fabrication_generation_tree ::
  "generation_env \<Rightarrow> generation_db \<Rightarrow> string \<Rightarrow> int \<Rightarrow> generation_node list result" where
  "load_fabrication_generation_tree env db p max_depth =
     (let depth = nat (max 1 (min HARD_MAX_GENERATION_DEPTH max_depth));
          rows = tree_query env db (depth + 1) p
      in if list_ex gt_is_cycle rows then Inl (HttpError 422 ''BOM_CYCLE_DETECTED'')
         else if list_ex (\<lambda>r. depth < gt_level r) rows then Inl (HttpError 422 ''OF_MAX_DEPTH_EXCEEDED'')
         else Inr (map node_of_row (filter (\<lambda>r. \<not> gt_is_cycle r \<and> gt_level r \<le> depth) rows)))"

section \<open>Technical data and operations\<close>

definition load_applicable_technical_snapshot ::
  "generation_env \<Rightarrow> generation_db \<Rightarrow> string \<Rightarrow> string option \<Rightarrow> technical_snapshot result" where
  "load_applicable_technical_snapshot env db p pinned =
     (case applicable_version env db p of
        None \<Rightarrow> Inl (HttpError 422 ''VERSION_NOT_APPLICABLE'')
      | Some v \<Rightarrow>
          if truthy pinned \<and> pinned \<noteq> Some (pv_id v) then Inl (HttpError 409 ''OF_VERSION_CONFLICT'')
          else
            (let g = map_option ga_id (find (\<lambda>g. ga_version g = pv_id v \<and> ga_current g) (gd_gammes db)) in
             case ge_read_snapshot env p (pv_id v) g of
               None \<Rightarrow> Inl (HttpError 422 ''TECHNICAL_DATA_INCOMPLETE'')
             | Some snapshot \<Rightarrow>
                 Inr \<lparr>ts_version_id = pv_id v, ts_gamme_id = g, ts_version_interne = pv_version_interne v,
                   ts_snapshot = snapshot, ts_sha256 = ge_hash env snapshot\<rparr>))"

text \<open>\<open>ROUND(x, k)\<close> of \<open>numeric\<close>: half away from zero.\<close>

definition round_numeric :: "rat \<Rightarrow> nat \<Rightarrow> rat" where
  "round_numeric x k =
     (let s = 10 ^ k in if x < 0 then - (of_int \<lfloor>- x * s + 1 / 2\<rfloor> / s) else of_int \<lfloor>x * s + 1 / 2\<rfloor> / s)"

definition or_rat :: "rat option \<Rightarrow> rat \<Rightarrow> rat" where
  "or_rat v d = (case v of None \<Rightarrow> d | Some x \<Rightarrow> x)"

definition copied_operation :: "generation_db \<Rightarrow> nat \<Rightarrow> nat \<Rightarrow> gamme_operation \<Rightarrow> of_operation" where
  "copied_operation db of_id rank x =
     (let fabrication = round_numeric (or_rat (go_tf_unit x) 0 * or_rat (go_qte x) 1 * or_rat (go_coef x) 1) 4
      in \<lparr>oo_of_id = of_id, oo_revision_rank = rank, oo_phase = go_phase x, oo_designation = go_designation x,
        oo_cf_id = go_cf_id x, oo_cf_code = (case go_cf_id x of None \<Rightarrow> None | Some c \<Rightarrow> map_of (gd_cost_centres db) c),
        oo_cf_rate_id = go_cf_rate_id x, oo_machine_id = go_machine_id x, oo_machine_family_code = go_machine_family_code x,
        oo_numero_programme = go_numero_programme x, oo_hourly_rate = round_numeric (or_rat (go_taux_horaire x) 0) 2,
        oo_tp = round_numeric (or_rat (go_tp x) 0) 3, oo_tf_unit = round_numeric (or_rat (go_tf_unit x) 0) 3,
        oo_qte = round_numeric (or_rat (go_qte x) 1) 3, oo_coef = round_numeric (or_rat (go_coef x) 1) 3,
        oo_temps_fabrication = fabrication, oo_temps_total = round_numeric (or_rat (go_tp x) 0 + fabrication) 3,
        oo_status = ''TODO'', oo_notes = go_designation_2 x, oo_source = go_id x\<rparr>)"

text \<open>The revision R00 is created unless the order has a revision; then the operations of the routing
  are copied under the active revision. The result counts them.\<close>

definition copy_piece_operations_to_of ::
  "nat \<Rightarrow> string \<Rightarrow> string option \<Rightarrow> generation_db \<Rightarrow> (nat \<times> generation_db) result" where
  "copy_piece_operations_to_of of_id p g db =
     (let revisions = (if list_ex (\<lambda>r. rv_of_id r = of_id) (gd_revisions db) then gd_revisions db
            else gd_revisions db @ [\<lparr>rv_of_id = of_id, rv_rank = 0, rv_statut = ''ACTIVE''\<rparr>]);
          chosen = sort_key (\<lambda>x. (go_phase x, go_id x)) (filter (\<lambda>x. go_piece x = p \<and> go_gamme x = g) (gd_gamme_operations db))
      in case find (\<lambda>r. rv_of_id r = of_id \<and> rv_statut r = ''ACTIVE'') revisions of
           None \<Rightarrow> if chosen = [] then Inr (0, db\<lparr>gd_revisions := revisions\<rparr>)
                   else Inl (JsError ''null value in column revision_id'')
         | Some r \<Rightarrow> Inr (length chosen, db\<lparr>gd_revisions := revisions,
             gd_of_operations := gd_of_operations db @ map (copied_operation db of_id (rv_rank r)) chosen\<rparr>))"

section \<open>Purchase needs\<close>

text \<open>\<open>Number(x.toFixed(3))\<close>: the nearest thousandth, the larger one of two in absolute value.\<close>

definition to_fixed_3 :: "rat \<Rightarrow> rat" where
  "to_fixed_3 x = round_numeric x 3"

definition text_member :: "json \<Rightarrow> string \<Rightarrow> string option" where
  "text_member v k = (case v of JObj es \<Rightarrow> (case map_of es k of Some (JStr s) \<Rightarrow> Some s | _ \<Rightarrow> None) | _ \<Rightarrow> None)"

definition snapshot_purchases :: "json \<Rightarrow> json list" where
  "snapshot_purchases snapshot =
     (case snapshot of JObj es \<Rightarrow> (case map_of es ''achats'' of Some (JArr xs) \<Rightarrow> xs | _ \<Rightarrow> []) | _ \<Rightarrow> [])"

definition purchase_quantity :: "generation_env \<Rightarrow> json \<Rightarrow> rat" where
  "purchase_quantity env achat =
     (case achat of
        JObj es \<Rightarrow> (case map_of es ''quantite'' of
            None \<Rightarrow> 0
          | Some JNull \<Rightarrow> 0
          | Some q \<Rightarrow> or_rat (ge_number env q) 0)
      | _ \<Rightarrow> 0)"

definition extract_purchase_requirements ::
  "generation_env \<Rightarrow> nat \<Rightarrow> string \<Rightarrow> string \<Rightarrow> rat \<Rightarrow> json \<Rightarrow> purchase_requirement list" where
  "extract_purchase_requirements env of_id path p qty_lancee snapshot =
     map (\<lambda>a. \<lparr>pr_of_id = of_id, pr_structure_path = path, pr_piece = p, pr_achat_id = text_member a ''id'',
         pr_article_id = text_member a ''article_id'', pr_fournisseur_id = text_member a ''fournisseur_id'',
         pr_nom = text_member a ''nom'', pr_designation = text_member a ''designation'',
         pr_type_achat = text_member a ''type_achat'', pr_qty_per_piece = purchase_quantity env a,
         pr_qty_required = to_fixed_3 (purchase_quantity env a * qty_lancee)\<rparr>)
       (snapshot_purchases snapshot)"

section \<open>Generation\<close>

record generation_params =
  gp_source_type :: string
  gp_commande_id :: "nat option"
  gp_commande_numero :: "string option"
  gp_commande_ligne_id :: "nat option"
  gp_livraison_affaire_id :: "nat option"
  gp_client_id :: "string option"
  gp_root_article_id :: "string option"
  gp_root_piece :: string
  gp_root_pinned_version_id :: "string option"
  gp_qty_to_produce :: rat
  gp_idempotency_key :: "string option"
  gp_request_hash :: "string option"

record generated_of =
  gf_id :: nat
  gf_root_of_id :: nat
  gf_parent_of_id :: "nat option"
  gf_level :: nat
  gf_commande_ligne_id :: "nat option"

record generation_result =
  gr_batch_id :: string
  gr_root_of_id :: nat
  gr_ofs :: "generated_of list"
  gr_source_hash :: string
  gr_purchase_requirements :: "purchase_requirement list"

text \<open>\<open>technicalByPiece\<close> is read and filled; \<open>technicalByKey\<close> is filled. Both are association lists.\<close>

fun resolve_technical ::
  "generation_env \<Rightarrow> generation_db \<Rightarrow> string option \<Rightarrow> generation_node list \<Rightarrow> (string \<times> technical_snapshot) list
     \<Rightarrow> (string \<times> technical_snapshot) list \<Rightarrow> (string \<times> technical_snapshot) list result" where
  "resolve_technical env db root_pinned [] by_piece by_key = Inr by_key"
| "resolve_technical env db root_pinned (n # ns) by_piece by_key =
     (let pinned = (if gn_level n = 0 then root_pinned else None);
          cache_key = gn_piece n @ '':'' @ or_empty pinned
      in case map_of by_piece cache_key of
           Some t \<Rightarrow> resolve_technical env db root_pinned ns by_piece ((gn_key n, t) # by_key)
         | None \<Rightarrow>
             bind_result (load_applicable_technical_snapshot env db (gn_piece n) pinned) (\<lambda>t.
             resolve_technical env db root_pinned ns ((cache_key, t) # by_piece) ((gn_key n, t) # by_key)))"

definition source_entry_of :: "(string \<times> technical_snapshot) list \<Rightarrow> generation_node \<Rightarrow> source_entry" where
  "source_entry_of by_key n =
     (let t = map_of by_key (gn_key n)
      in \<lparr>se_key = gn_key n, se_piece = gn_piece n, se_version_id = map_option ts_version_id t,
        se_sha256 = map_option ts_sha256 t, se_quantite_par_parent = gn_quantite_par_parent n,
        se_quantite_cumulee = gn_quantite_cumulee n\<rparr>)"

definition compute_of_source_hash :: "generation_env \<Rightarrow> generation_node list \<Rightarrow> (string \<times> technical_snapshot) list \<Rightarrow> string" where
  "compute_of_source_hash env tree by_key = ge_source_hash env (map (source_entry_of by_key) tree)"

text \<open>\<open>nextval\<close> for each node; a later node with the same key replaces the identifier of an earlier one.\<close>

fun allocate_of_ids :: "generation_node list \<Rightarrow> nat \<Rightarrow> (string \<times> nat) list \<Rightarrow> (string \<times> nat) list \<times> nat" where
  "allocate_of_ids [] last_id ids = (ids, last_id)"
| "allocate_of_ids (n # ns) last_id ids = allocate_of_ids ns (last_id + 1) ((gn_key n, last_id + 1) # ids)"

definition note_source :: "generation_params \<Rightarrow> string" where
  "note_source p =
     (if gp_source_type p = ''COMMANDE_CLIENT'' \<and> truthy (gp_commande_numero p)
      then ''Generated from commande '' @ or_empty (gp_commande_numero p) @ '' line ''
        @ (case gp_commande_ligne_id p of None \<Rightarrow> ''?'' | Some l \<Rightarrow> show_nat l)
      else if gp_source_type p = ''AFFAIRE''
      then ''Generated from affaire '' @ (case gp_livraison_affaire_id p of None \<Rightarrow> ''?'' | Some a \<Rightarrow> show_nat a)
      else ''Generated manually'')"

definition order_of_node ::
  "generation_env \<Rightarrow> generation_params \<Rightarrow> generation_node \<Rightarrow> technical_snapshot \<Rightarrow> nat \<Rightarrow> nat option \<Rightarrow> nat \<Rightarrow> string \<Rightarrow> works_order" where
  "order_of_node env p n t of_id parent root_id numero =
     \<lparr>wo_id = of_id, wo_numero = numero, wo_affaire_id = gp_livraison_affaire_id p, wo_commande_id = gp_commande_id p,
       wo_commande_ligne_id = gp_commande_ligne_id p,
       wo_article_id = (case gn_article_id n of Some a \<Rightarrow> Some a
         | None \<Rightarrow> if gn_level n = 0 then gp_root_article_id p else None),
       wo_client_id = gp_client_id p, wo_piece = gn_piece n, wo_version = ts_version_id t, wo_snapshot = ts_snapshot t,
       wo_sha256 = ts_sha256 t, wo_parent = parent, wo_root = root_id, wo_batch = ge_batch_id env, wo_level = gn_level n,
       wo_bom_line = gn_bom_line_id n, wo_structure_path = gn_key n, wo_quantity_per_parent = gn_quantite_par_parent n,
       wo_quantity_cumulative = gn_quantite_cumulee n,
       wo_quantite_lancee = to_fixed_3 (gp_qty_to_produce p * gn_quantite_cumulee n), wo_statut = ''BROUILLON'',
       wo_notes = note_source p @ '' ('' @ (if gn_level n = 0 then ''piece mere'' else ''sous-piece'') @ '' '' @ gn_code_piece n @ '')''\<rparr>"

definition parent_of_node :: "(string \<times> nat) list \<Rightarrow> generation_node \<Rightarrow> nat option result" where
  "parent_of_node ids n =
     (case gn_parent_key n of
        None \<Rightarrow> Inr None
      | Some k \<Rightarrow> if k = [] then Inr None
          else (case map_of ids k of
                  Some i \<Rightarrow> if i = 0 then Inl (JsError ''Missing parent OF id'') else Inr (Some i)
                | None \<Rightarrow> Inl (JsError ''Missing parent OF id'')))"

text \<open>One node: the order, its operations, its frozen data, its place in the structure, its purchases.
  The primary key of the orders refuses an identifier that is in use.\<close>

definition generate_node ::
  "generation_env \<Rightarrow> generation_params \<Rightarrow> (string \<times> technical_snapshot) list \<Rightarrow> (string \<times> nat) list \<Rightarrow> nat
     \<Rightarrow> generation_node \<Rightarrow> generation_db \<Rightarrow> ((generated_of \<times> purchase_requirement list) \<times> generation_db) result" where
  "generate_node env p by_key ids root_id n db =
     (case map_of ids (gn_key n) of
        None \<Rightarrow> Inl (JsError ''Missing OF id'')
      | Some of_id \<Rightarrow>
          bind_result (ensure (of_id \<noteq> 0) (JsError ''Missing OF id'')) (\<lambda>_.
          bind_result (parent_of_node ids n) (\<lambda>parent.
          (case map_of by_key (gn_key n) of
             None \<Rightarrow> Inl (JsError ''Missing technical snapshot'')
           | Some t \<Rightarrow>
               bind_result (generate_transactional_business_code P_OF (ge_year env) None (gd_codes db)) (\<lambda>(numero, codes).
               let order = order_of_node env p n t of_id parent root_id numero in
               bind_result (ensure (\<not> list_ex (\<lambda>w. wo_id w = of_id) (gd_orders db)) (JsError ''duplicate key value'')) (\<lambda>_.
               bind_result (copy_piece_operations_to_of of_id (gn_piece n) (ts_gamme_id t)
                   (db\<lparr>gd_codes := codes, gd_orders := gd_orders db @ [order]\<rparr>)) (\<lambda>(count, db1).
               bind_result (ensure (count \<noteq> 0) (HttpError 409 ''PIECE_TECHNIQUE_OPERATION_REQUIRED'')) (\<lambda>_.
               Inr ((\<lparr>gf_id = of_id, gf_root_of_id = root_id, gf_parent_of_id = parent, gf_level = gn_level n,
                      gf_commande_ligne_id = gp_commande_ligne_id p\<rparr>,
                   extract_purchase_requirements env of_id (gn_key n) (gn_piece n) (wo_quantite_lancee order) (ts_snapshot t)),
                 db1\<lparr>gd_technical_snapshots := gd_technical_snapshots db1 @ [(of_id, ts_version_id t, ts_snapshot t, ts_sha256 t)],
                   gd_structure := gd_structure db1 @ [\<lparr>ss_batch = ge_batch_id env, ss_root = root_id, ss_parent = parent,
                     ss_of_id = of_id, ss_level = gn_level n, ss_path = gn_key n, ss_piece = gn_piece n,
                     ss_piece_version_number = (case ts_version_interne t of Some v \<Rightarrow> v | None \<Rightarrow> gn_version_number n),
                     ss_quantite_lancee = wo_quantite_lancee order\<rparr>]\<rparr>)))))))))"

fun generate_nodes ::
  "generation_env \<Rightarrow> generation_params \<Rightarrow> (string \<times> technical_snapshot) list \<Rightarrow> (string \<times> nat) list \<Rightarrow> nat
     \<Rightarrow> generation_node list \<Rightarrow> generation_db \<Rightarrow> ((generated_of \<times> purchase_requirement list) list \<times> generation_db) result" where
  "generate_nodes env p by_key ids root_id [] db = Inr ([], db)"
| "generate_nodes env p by_key ids root_id (n # ns) db =
     bind_result (generate_node env p by_key ids root_id n db) (\<lambda>(r, db1).
     bind_result (generate_nodes env p by_key ids root_id ns db1) (\<lambda>(rs, db2). Inr (r # rs, db2)))"

definition create_recursive_ordres_fabrication ::
  "generation_env \<Rightarrow> generation_params \<Rightarrow> generation_db \<Rightarrow> (generation_result \<times> generation_db) result" where
  "create_recursive_ordres_fabrication env p db =
     bind_result (load_fabrication_generation_tree env db (gp_root_piece p) HARD_MAX_GENERATION_DEPTH) (\<lambda>tree.
     bind_result (ensure (tree \<noteq> []) (HttpError 422 ''PIECE_TECHNIQUE_NOT_FOUND'')) (\<lambda>_.
     bind_result (resolve_technical env db (gp_root_pinned_version_id p) tree [] []) (\<lambda>by_key.
     let source_hash = compute_of_source_hash env tree by_key;
         (ids, last_id) = allocate_of_ids tree (gd_last_of_id db) []
     in case map_of ids (gn_key (hd tree)) of
          None \<Rightarrow> Inl (JsError ''Failed to allocate root OF id'')
        | Some root_id \<Rightarrow>
            bind_result (ensure (root_id \<noteq> 0) (JsError ''Failed to allocate root OF id'')) (\<lambda>_.
            let batch = \<lparr>gb_id = ge_batch_id env, gb_source_type = gp_source_type p, gb_root_piece = gp_root_piece p,
                  gb_requested_qty = gp_qty_to_produce p, gb_idempotency_key = gp_idempotency_key p,
                  gb_request_hash = gp_request_hash p, gb_source_hash = source_hash, gb_root_of_id = None, gb_result = None\<rparr>
            in bind_result (generate_nodes env p by_key ids root_id tree (db\<lparr>gd_last_of_id := last_id, gd_batches := gd_batches db @ [batch]\<rparr>))
              (\<lambda>(rs, db1).
              let ofs = map fst rs; purchases = concat (map snd rs)
              in Inr (\<lparr>gr_batch_id = ge_batch_id env, gr_root_of_id = root_id, gr_ofs = ofs, gr_source_hash = source_hash,
                    gr_purchase_requirements = purchases\<rparr>,
                  db1\<lparr>gd_batches := map (\<lambda>b. if gb_id b = ge_batch_id env
                    then b\<lparr>gb_root_of_id := Some root_id, gb_result := Some (map gf_id ofs, purchases)\<rparr> else b) (gd_batches db1)\<rparr>))))))"

end
