(* ===== verification/Of_Structure.thy ===== *)
theory Of_Structure
  imports Of_Generation
begin

text \<open>
  What the generation of works orders promises: the tree is the whole bill of materials or the
  generation is refused, and each occurrence of a piece in it gets one order, below the order of
  its parent, with the quantities multiplied along the way.
\<close>

section \<open>Chains of the bill of materials\<close>

type_synonym bom_route = "(bom_line \<times> technical_piece) list"

text \<open>A way down from the piece \<open>p\<close>: lines that apply, each from the piece the last one led to.\<close>

fun bom_chain :: "generation_env \<Rightarrow> generation_db \<Rightarrow> string \<Rightarrow> bom_route \<Rightarrow> bool" where
  "bom_chain env db p [] \<longleftrightarrow> True"
| "bom_chain env db p ((n, c) # cs) \<longleftrightarrow> n \<in> set (gd_bom db) \<and> line_applies env db p n
     \<and> find_piece db (bl_child n) = Some c \<and> bom_chain env db (tp_id c) cs"

definition chain_path :: "string \<Rightarrow> bom_route \<Rightarrow> string list" where
  "chain_path p cs = p # map (tp_id \<circ> snd) cs"

definition chain_quantity :: "bom_route \<Rightarrow> rat" where
  "chain_quantity cs = prod_list (map (bl_quantite \<circ> fst) cs)"

fun follow :: "tree_row \<Rightarrow> bom_route \<Rightarrow> tree_row" where
  "follow r [] = r"
| "follow r ((n, c) # cs) = follow (child_row r n c) cs"

fun grows :: "generation_env \<Rightarrow> generation_db \<Rightarrow> nat \<Rightarrow> tree_row \<Rightarrow> bom_route \<Rightarrow> bool" where
  "grows env db limit r [] \<longleftrightarrow> True"
| "grows env db limit r ((n, c) # cs) \<longleftrightarrow> gt_level r < limit \<and> \<not> gt_is_cycle r \<and> n \<in> set (gd_bom db)
     \<and> line_applies env db (tp_id (gt_piece r)) n \<and> find_piece db (bl_child n) = Some c \<and> grows env db limit (child_row r n c) cs"

lemma child_row_sel [simp]:
  "gt_piece (child_row r n c) = c" "gt_level (child_row r n c) = gt_level r + 1" "gt_path (child_row r n c) = gt_path r @ [tp_id c]"
  "gt_cumulee (child_row r n c) = gt_cumulee r * bl_quantite n" "gt_is_cycle (child_row r n c) \<longleftrightarrow> tp_id c \<in> set (gt_path r)"
  by (simp_all add: child_row_def)

lemma child_rows_set:
  "set (child_rows env db limit r) = {child_row r n c | n c. gt_level r < limit \<and> \<not> gt_is_cycle r \<and> n \<in> set (gd_bom db)
     \<and> line_applies env db (tp_id (gt_piece r)) n \<and> find_piece db (bl_child n) = Some c}"
proof -
  have "x \<in> set (case find_piece db (bl_child n) of None \<Rightarrow> [] | Some c \<Rightarrow> [child_row r n c])
      \<longleftrightarrow> (\<exists>c. find_piece db (bl_child n) = Some c \<and> x = child_row r n c)" for x n
    by (cases "find_piece db (bl_child n)") auto
  then show ?thesis by (auto simp: child_rows_def)
qed

lemma tree_levels_set:
  "x \<in> set (tree_levels env db limit k rows) \<longleftrightarrow> (\<exists>r \<in> set rows. \<exists>cs. grows env db limit r cs \<and> length cs \<le> k \<and> x = follow r cs)"
proof (induction k arbitrary: rows)
  case (Suc k)
  have "(\<exists>r' \<in> set (child_rows env db limit r). \<exists>cs. grows env db limit r' cs \<and> length cs \<le> k \<and> x = follow r' cs)
      \<longleftrightarrow> (\<exists>cs. cs \<noteq> [] \<and> grows env db limit r cs \<and> length cs \<le> Suc k \<and> x = follow r cs)" for r
  proof
    assume "\<exists>r' \<in> set (child_rows env db limit r). \<exists>cs. grows env db limit r' cs \<and> length cs \<le> k \<and> x = follow r' cs"
    then obtain n c cs where "grows env db limit r ((n, c) # cs)" "length cs \<le> k" "x = follow r ((n, c) # cs)"
      by (auto simp: child_rows_set)
    then show "\<exists>cs. cs \<noteq> [] \<and> grows env db limit r cs \<and> length cs \<le> Suc k \<and> x = follow r cs"
      by (intro exI [of _ "(n, c) # cs"]) auto
  next
    assume "\<exists>cs. cs \<noteq> [] \<and> grows env db limit r cs \<and> length cs \<le> Suc k \<and> x = follow r cs"
    then obtain n c cs where "grows env db limit r ((n, c) # cs)" "length cs \<le> k" "x = follow r ((n, c) # cs)"
      by (metis Suc_le_mono length_Cons list.exhaust surj_pair)
    then show "\<exists>r' \<in> set (child_rows env db limit r). \<exists>cs. grows env db limit r' cs \<and> length cs \<le> k \<and> x = follow r' cs"
      by (intro bexI [of _ "child_row r n c"]) (auto simp: child_rows_set)
  qed
  then have "x \<in> set (tree_levels env db limit (Suc k) rows) \<longleftrightarrow> x \<in> set rows
      \<or> (\<exists>r \<in> set rows. \<exists>cs. cs \<noteq> [] \<and> grows env db limit r cs \<and> length cs \<le> Suc k \<and> x = follow r cs)"
    by (simp add: Suc.IH)
  also have "\<dots> \<longleftrightarrow> (\<exists>r \<in> set rows. \<exists>cs. grows env db limit r cs \<and> length cs \<le> Suc k \<and> x = follow r cs)"
    by (metis follow.simps(1) grows.simps(1) le0 list.size(3))
  finally show ?case .
qed (auto intro: exI [of _ "[]"])

lemma follow_facts:
  "gt_level (follow r cs) = gt_level r + length cs"
  "gt_path (follow r cs) = gt_path r @ map (tp_id \<circ> snd) cs"
  "gt_cumulee (follow r cs) = gt_cumulee r * chain_quantity cs"
  by (induction r cs rule: follow.induct) (simp_all add: chain_quantity_def mult.assoc)

lemma follow_snoc: "follow r (cs @ [(n, c)]) = child_row (follow r cs) n c"
  by (induction r cs rule: follow.induct) simp_all

lemma grows_chain: "grows env db limit r cs \<Longrightarrow> bom_chain env db (tp_id (gt_piece r)) cs"
  by (induction env db limit r cs rule: grows.induct) auto

lemma chain_grows:
  "bom_chain env db (tp_id (gt_piece r)) cs \<Longrightarrow> \<not> gt_is_cycle r \<Longrightarrow> gt_level r + length cs \<le> limit \<Longrightarrow>
    distinct (gt_path r @ map (tp_id \<circ> snd) (butlast cs)) \<Longrightarrow> grows env db limit r cs"
proof (induction cs arbitrary: r)
  case (Cons x cs)
  obtain n c where x: "x = (n, c)" by (rule prod.exhaust)
  show ?case
  proof (cases "cs = []")
    case True
    with Cons.prems show ?thesis by (simp add: x)
  next
    case False
    with Cons.prems(4) have "tp_id c \<notin> set (gt_path r)" by (auto simp: x)
    moreover have "distinct (gt_path (child_row r n c) @ map (tp_id \<circ> snd) (butlast cs))"
      using Cons.prems(4) False by (auto simp: x comp_def)
    ultimately show ?thesis using Cons.IH [of "child_row r n c"] Cons.prems(1-3) by (simp add: x comp_def)
  qed
qed simp

lemma chain_append: "bom_chain env db p (cs @ ds) \<longleftrightarrow> bom_chain env db p cs \<and> bom_chain env db (last (chain_path p cs)) ds"
  by (induction env db p cs rule: bom_chain.induct) (auto simp: chain_path_def)

lemma find_piece_id: "find_piece db p = Some q \<Longrightarrow> tp_id q = p"
  by (auto simp: find_piece_def find_Some_iff)

section \<open>The tree is the whole bill of materials\<close>

definition generation_depth :: "int \<Rightarrow> nat" where
  "generation_depth max_depth = nat (max 1 (min HARD_MAX_GENERATION_DEPTH max_depth))"

definition bom_sound :: "generation_env \<Rightarrow> generation_db \<Rightarrow> string \<Rightarrow> nat \<Rightarrow> bool" where
  "bom_sound env db p depth \<longleftrightarrow> (\<forall>cs. bom_chain env db p cs \<longrightarrow> distinct (chain_path p cs) \<and> length cs \<le> depth)"

definition chain_node :: "technical_piece \<Rightarrow> bom_route \<Rightarrow> generation_node" where
  "chain_node p0 cs = node_of_row (follow (root_row p0) cs)"

lemma root_row_sel [simp]: "gt_piece (root_row p) = p" "gt_level (root_row p) = 0" "gt_path (root_row p) = [tp_id p]"
  "gt_cumulee (root_row p) = 1" "\<not> gt_is_cycle (root_row p)"
  by (simp_all add: root_row_def)

lemma tree_rows:
  assumes "find_piece db p = Some p0"
  shows "x \<in> set (tree_query env db limit p) \<longleftrightarrow> (\<exists>cs. grows env db limit (root_row p0) cs \<and> length cs \<le> limit \<and> x = follow (root_row p0) cs)"
  by (simp add: tree_query_def assms tree_levels_set)

lemma cycle_snoc: "gt_is_cycle (follow (root_row p0) (cs @ [(n, c)])) \<longleftrightarrow> tp_id c \<in> set (chain_path (tp_id p0) cs)"
  by (auto simp: follow_snoc follow_facts(2) chain_path_def)

lemma sound_no_cycle:
  assumes "bom_sound env db (tp_id p0) depth" "bom_chain env db (tp_id p0) cs"
  shows "\<not> gt_is_cycle (follow (root_row p0) cs)"
proof (cases cs rule: rev_cases)
  case (snoc ds x)
  obtain n c where x: "x = (n, c)" by (rule prod.exhaust)
  have "distinct (chain_path (tp_id p0) cs)" using assms by (simp add: bom_sound_def)
  then show ?thesis using cycle_snoc [of p0 ds n c] by (auto simp: snoc x chain_path_def)
qed simp

lemma accepted_sound:
  assumes p: "find_piece db p = Some p0" and no: "\<not> list_ex gt_is_cycle (tree_query env db (depth + 1) p)"
    "\<not> list_ex (\<lambda>r. depth < gt_level r) (tree_query env db (depth + 1) p)"
  shows "bom_sound env db p depth"
proof -
  have i: "tp_id p0 = p" by (rule find_piece_id [OF p])
  have "distinct (chain_path p cs) \<and> length cs \<le> depth" if "bom_chain env db p cs" for cs
    using that
  proof (induction cs rule: rev_induct)
    case (snoc x cs)
    obtain n c where x: "x = (n, c)" by (rule prod.exhaust)
    let ?cs = "cs @ [(n, c)]"
    have "bom_chain env db p cs" using snoc.prems by (simp add: chain_append)
    then have IH: "distinct (chain_path p cs)" "length cs \<le> depth" using snoc.IH by simp_all
    have "grows env db (depth + 1) (root_row p0) ?cs"
      by (rule chain_grows) (use snoc.prems IH in \<open>simp_all add: i x chain_path_def\<close>)
    then have "follow (root_row p0) ?cs \<in> set (tree_query env db (depth + 1) p)"
      using IH(2) by (subst tree_rows [OF p]) (intro exI [of _ ?cs], simp)
    with no have n: "\<not> gt_is_cycle (follow (root_row p0) ?cs)" "gt_level (follow (root_row p0) ?cs) \<le> depth"
      by (auto simp: list_ex_iff not_less)
    then show ?case using IH(1) cycle_snoc [of p0 cs n c] by (auto simp: x i follow_facts(1) chain_path_def)
  qed (simp add: chain_path_def)
  then show ?thesis by (simp add: bom_sound_def)
qed

lemma sound_rows:
  assumes p: "find_piece db p = Some p0" and s: "bom_sound env db p depth"
  shows "set (tree_query env db (depth + 1) p) = {follow (root_row p0) cs | cs. bom_chain env db p cs}"
proof -
  have i: "tp_id p0 = p" by (rule find_piece_id [OF p])
  have g: "grows env db (depth + 1) (root_row p0) cs \<and> length cs \<le> depth + 1 \<longleftrightarrow> bom_chain env db p cs" for cs
  proof
    assume "grows env db (depth + 1) (root_row p0) cs \<and> length cs \<le> depth + 1"
    then show "bom_chain env db p cs" using grows_chain [of env db "depth + 1" "root_row p0" cs] by (simp add: i)
  next
    assume c: "bom_chain env db p cs"
    with s have d: "distinct (chain_path p cs)" "length cs \<le> depth" by (simp_all add: bom_sound_def)
    have "map (tp_id \<circ> snd) (butlast cs) = butlast (map (tp_id \<circ> snd) cs)" by (simp add: map_butlast)
    then have "distinct (p # map (tp_id \<circ> snd) (butlast cs))"
      using d(1) by (auto simp: chain_path_def distinct_butlast dest: in_set_butlastD)
    then have "grows env db (depth + 1) (root_row p0) cs"
      using c d(2) by (intro chain_grows) (simp_all add: i)
    with d(2) show "grows env db (depth + 1) (root_row p0) cs \<and> length cs \<le> depth + 1" by simp
  qed
  show ?thesis by (rule set_eqI, subst tree_rows [OF p], use g in blast)
qed

lemma load_tree_cases:
  assumes p: "find_piece db p = Some p0"
  shows "(\<exists>nodes. load_fabrication_generation_tree env db p max_depth = Inr nodes) \<longleftrightarrow> bom_sound env db p (generation_depth max_depth)"
    and "load_fabrication_generation_tree env db p max_depth = Inr nodes \<Longrightarrow>
      nodes = map node_of_row (tree_query env db (generation_depth max_depth + 1) p)
      \<and> set nodes = chain_node p0 ` {cs. bom_chain env db p cs}"
proof -
  let ?d = "generation_depth max_depth" and ?rows = "tree_query env db (generation_depth max_depth + 1) p"
  have load: "load_fabrication_generation_tree env db p max_depth =
      (if list_ex gt_is_cycle ?rows then Inl (HttpError 422 ''BOM_CYCLE_DETECTED'')
       else if list_ex (\<lambda>r. ?d < gt_level r) ?rows then Inl (HttpError 422 ''OF_MAX_DEPTH_EXCEEDED'')
       else Inr (map node_of_row (filter (\<lambda>r. \<not> gt_is_cycle r \<and> gt_level r \<le> ?d) ?rows)))"
    by (simp add: load_fabrication_generation_tree_def generation_depth_def Let_def)
  have i: "tp_id p0 = p" by (rule find_piece_id [OF p])
  have no: "\<not> list_ex gt_is_cycle ?rows \<and> \<not> list_ex (\<lambda>r. ?d < gt_level r) ?rows" if s: "bom_sound env db p ?d"
  proof -
    have "\<not> gt_is_cycle (follow (root_row p0) cs) \<and> gt_level (follow (root_row p0) cs) \<le> ?d" if "bom_chain env db p cs" for cs
      using sound_no_cycle [of env db p0 ?d cs] s that by (simp add: i follow_facts(1) bom_sound_def)
    then show ?thesis unfolding list_ex_iff sound_rows [OF p s] by fastforce
  qed
  show "(\<exists>nodes. load_fabrication_generation_tree env db p max_depth = Inr nodes) \<longleftrightarrow> bom_sound env db p ?d"
  proof
    assume "\<exists>nodes. load_fabrication_generation_tree env db p max_depth = Inr nodes"
    then show "bom_sound env db p ?d" using accepted_sound [OF p, of env ?d] unfolding load by (auto split: if_splits)
  next
    assume "bom_sound env db p ?d"
    from no [OF this] show "\<exists>nodes. load_fabrication_generation_tree env db p max_depth = Inr nodes" unfolding load by simp
  qed
  assume n: "load_fabrication_generation_tree env db p max_depth = Inr nodes"
  then have nc: "\<not> list_ex gt_is_cycle ?rows" "\<not> list_ex (\<lambda>r. ?d < gt_level r) ?rows" unfolding load by (auto split: if_splits)
  then have "filter (\<lambda>r. \<not> gt_is_cycle r \<and> gt_level r \<le> ?d) ?rows = ?rows" by (auto simp: list_ex_iff not_less intro!: filter_True)
  with n nc have nodes: "nodes = map node_of_row ?rows" unfolding load by simp
  moreover have "set nodes = chain_node p0 ` {cs. bom_chain env db p cs}"
    unfolding nodes set_map sound_rows [OF p accepted_sound [OF p nc]] by (auto simp: chain_node_def)
  ultimately show "nodes = map node_of_row ?rows \<and> set nodes = chain_node p0 ` {cs. bom_chain env db p cs}" by simp
qed

lemma chain_node_sel:
  "gn_key (chain_node p0 cs) = js_join ''/'' (chain_path (tp_id p0) cs)" "gn_level (chain_node p0 cs) = length cs"
  "gn_quantite_cumulee (chain_node p0 cs) = chain_quantity cs"
  "gn_parent_key (chain_node p0 cs) = (if cs = [] then None else Some (js_join ''/'' (chain_path (tp_id p0) (butlast cs))))"
proof -
  show "gn_key (chain_node p0 cs) = js_join ''/'' (chain_path (tp_id p0) cs)" "gn_level (chain_node p0 cs) = length cs"
    "gn_quantite_cumulee (chain_node p0 cs) = chain_quantity cs"
    by (simp_all add: chain_node_def node_of_row_def follow_facts chain_path_def)
  show "gn_parent_key (chain_node p0 cs) = (if cs = [] then None else Some (js_join ''/'' (chain_path (tp_id p0) (butlast cs))))"
    by (simp add: chain_node_def node_of_row_def follow_facts chain_path_def map_butlast)
qed

lemma chain_node_piece: "gn_piece (chain_node p0 cs) = last (chain_path (tp_id p0) cs)"
proof (cases cs rule: rev_cases)
  case (snoc ds x)
  then show ?thesis by (cases x) (simp add: chain_node_def node_of_row_def follow_snoc chain_path_def)
qed (simp add: chain_node_def node_of_row_def chain_path_def)

lemma chain_node_line: "gn_bom_line_id (chain_node p0 (cs @ [(n, c)])) = Some (bl_id n)"
  by (simp add: chain_node_def node_of_row_def follow_snoc) (simp add: child_row_def)

text \<open>C19: The bill of materials is unfolded completely or refused. A tree is returned exactly when no way
  down from the piece meets a piece twice and none is longer than the depth allowed (at most 50
  levels); it then has a node for every way down, and no other, with its level and the product of
  the quantities along it.\<close>

theorem bom_tree_complete:
  assumes "find_piece db p = Some p0"
  shows "case load_fabrication_generation_tree env db p max_depth of
      Inl e \<Rightarrow> \<not> bom_sound env db p (generation_depth max_depth)
    | Inr nodes \<Rightarrow> bom_sound env db p (generation_depth max_depth)
      \<and> (\<forall>n. n \<in> set nodes \<longleftrightarrow> (\<exists>cs. bom_chain env db p cs \<and> n = chain_node p0 cs))
      \<and> (\<forall>cs. gn_key (chain_node p0 cs) = js_join ''/'' (chain_path p cs) \<and> gn_level (chain_node p0 cs) = length cs
          \<and> gn_quantite_cumulee (chain_node p0 cs) = chain_quantity cs)"
  using load_tree_cases [OF assms, of env max_depth] chain_node_sel(1-3) [of p0] find_piece_id [OF assms]
  by (cases "load_fabrication_generation_tree env db p max_depth") auto

section \<open>One order for each occurrence\<close>

definition bom_ok :: "generation_db \<Rightarrow> bool" where
  "bom_ok db \<longleftrightarrow> distinct (map bl_id (gd_bom db)) \<and> (\<forall>x \<in> set (gd_pieces db). tp_id x \<noteq> [] \<and> CHR ''/'' \<notin> set (tp_id x))"

definition created ::
  "generation_env \<Rightarrow> generation_params \<Rightarrow> (string \<times> nat) list \<Rightarrow> nat \<Rightarrow> generation_node \<Rightarrow> works_order \<Rightarrow> bool" where
  "created env p ids root_id n w \<longleftrightarrow> map_of ids (gn_key n) = Some (wo_id w)
     \<and> (\<exists>t parent numero. parent_of_node ids n = Inr parent \<and> w = order_of_node env p n t (wo_id w) parent root_id numero)"

definition has_operation :: "generation_db \<Rightarrow> nat \<Rightarrow> bool" where
  "has_operation db i \<longleftrightarrow> (\<exists>x \<in> set (gd_of_operations db). oo_of_id x = i)"

lemma copy_operations:
  assumes "copy_piece_operations_to_of i pc g db = Inr (count, db1)"
  shows "gd_orders db1 = gd_orders db" "\<And>j. has_operation db j \<Longrightarrow> has_operation db1 j" "count \<noteq> 0 \<Longrightarrow> has_operation db1 i"
proof -
  define xs where "xs = sort_key (\<lambda>x. (go_phase x, go_id x)) (filter (\<lambda>x. go_piece x = pc \<and> go_gamme x = g) (gd_gamme_operations db))"
  consider "count = 0" "gd_orders db1 = gd_orders db" "gd_of_operations db1 = gd_of_operations db"
    | r where "count = length xs" "gd_orders db1 = gd_orders db"
      "gd_of_operations db1 = gd_of_operations db @ map (copied_operation db i r) xs"
    using assms unfolding copy_piece_operations_to_of_def Let_def xs_def [symmetric]
    by (auto simp del: map_eq_conv split: option.splits if_splits)
  note c = this
  from c show "gd_orders db1 = gd_orders db" by cases
  from c show "has_operation db1 j" if "has_operation db j" for j
    using that by cases (auto simp: has_operation_def)
  have i: "oo_of_id (copied_operation db i r x) = i" for r x by (simp add: copied_operation_def Let_def)
  from c show "has_operation db1 i" if "count \<noteq> 0"
  proof cases
    case (2 r)
    with that have "hd xs \<in> set xs" by auto
    then have "copied_operation db i r (hd xs) \<in> set (gd_of_operations db1)" by (simp add: 2(3))
    with i show ?thesis unfolding has_operation_def by blast
  qed (use that in simp)
qed

lemma generate_node_Inr:
  assumes "generate_node env p by_key ids root_id n db = Inr (r, db1)"
  shows "\<exists>w. gd_orders db1 = gd_orders db @ [w] \<and> created env p ids root_id n w \<and> wo_id w \<notin> wo_id ` set (gd_orders db)
    \<and> has_operation db1 (wo_id w) \<and> (\<forall>j. has_operation db j \<longrightarrow> has_operation db1 j)"
proof -
  obtain of_id where of_id: "map_of ids (gn_key n) = Some of_id"
    using assms by (cases "map_of ids (gn_key n)") (simp_all add: generate_node_def)
  obtain t where t: "map_of by_key (gn_key n) = Some t"
    using assms by (cases "map_of by_key (gn_key n)") (auto simp: generate_node_def of_id)
  obtain parent numero codes count db2 where
    a: "parent_of_node ids n = Inr parent" "\<not> list_ex (\<lambda>w. wo_id w = of_id) (gd_orders db)" "count \<noteq> 0"
    and c: "copy_piece_operations_to_of of_id (gn_piece n) (ts_gamme_id t)
        (db\<lparr>gd_codes := codes, gd_orders := gd_orders db @ [order_of_node env p n t of_id parent root_id numero]\<rparr>) = Inr (count, db2)"
    and d: "gd_orders db1 = gd_orders db2" "gd_of_operations db1 = gd_of_operations db2"
    using assms by (auto simp: generate_node_def of_id t Let_def)
  let ?w = "order_of_node env p n t of_id parent root_id numero"
  have i: "wo_id ?w = of_id" by (simp add: order_of_node_def)
  have "has_operation db1 j = has_operation db2 j" for j by (simp add: has_operation_def d)
  with copy_operations [OF c] a of_id d(1) i show ?thesis
    by (intro exI [of _ ?w]) (auto simp: created_def list_ex_iff has_operation_def)
qed

lemma generate_nodes_Inr:
  "generate_nodes env p by_key ids root_id ns db = Inr (rs, db1) \<Longrightarrow>
    \<exists>news. gd_orders db1 = gd_orders db @ news \<and> list_all2 (created env p ids root_id) ns news \<and> distinct (map wo_id news)
      \<and> (\<forall>w \<in> set news. wo_id w \<notin> wo_id ` set (gd_orders db) \<and> has_operation db1 (wo_id w))
      \<and> (\<forall>j. has_operation db j \<longrightarrow> has_operation db1 j)"
proof (induction ns arbitrary: db rs)
  case (Cons n ns)
  obtain r db2 rs' where s: "generate_node env p by_key ids root_id n db = Inr (r, db2)"
    "generate_nodes env p by_key ids root_id ns db2 = Inr (rs', db1)"
    using Cons.prems by auto
  obtain w where w: "gd_orders db2 = gd_orders db @ [w]" "created env p ids root_id n w" "wo_id w \<notin> wo_id ` set (gd_orders db)"
    "has_operation db2 (wo_id w)" "\<forall>j. has_operation db j \<longrightarrow> has_operation db2 j"
    using generate_node_Inr [OF s(1)] by blast
  obtain news where news: "gd_orders db1 = gd_orders db2 @ news" "list_all2 (created env p ids root_id) ns news" "distinct (map wo_id news)"
    "\<forall>w \<in> set news. wo_id w \<notin> wo_id ` set (gd_orders db2) \<and> has_operation db1 (wo_id w)"
    "\<forall>j. has_operation db2 j \<longrightarrow> has_operation db1 j"
    using Cons.IH [OF s(2)] by blast
  then show ?case using w by (intro exI [of _ "w # news"]) auto
qed simp

lemma split_join: "xs \<noteq> [] \<Longrightarrow> \<forall>x \<in> set xs. d \<notin> set x \<Longrightarrow> js_split d (js_join [d] xs) = xs"
proof (induction "[d]" xs rule: js_join.induct)
  case (3 x y ys)
  then show ?case by (simp add: js_split_append_sep)
qed (simp_all add: js_split_no_sep)

lemma join_inj:
  assumes "js_join ''/'' xs = js_join ''/'' ys" "xs \<noteq> []" "ys \<noteq> []" "\<forall>x \<in> set xs \<union> set ys. CHR ''/'' \<notin> set x"
  shows "xs = ys"
proof -
  have "js_split (CHR ''/'') (js_join ''/'' xs) = xs" "js_split (CHR ''/'') (js_join ''/'' ys) = ys"
    using assms(2-4) by (intro split_join; simp)+
  then show ?thesis unfolding assms(1) by (rule subst)
qed

lemma chain_ids_ok:
  assumes "bom_ok db" "find_piece db p = Some p0" "bom_chain env db p cs" "x \<in> set (chain_path p cs)"
  shows "x \<noteq> [] \<and> CHR ''/'' \<notin> set x"
proof -
  have f: "tp_id q \<noteq> [] \<and> CHR ''/'' \<notin> set (tp_id q)" if "find_piece db r = Some q" for r q
    using assms(1) that by (auto simp: bom_ok_def find_piece_def find_Some_iff)
  have e: "\<exists>r q. x = tp_id q \<and> find_piece db r = Some q"
    using assms(3,4,2)
  proof (induction env db p cs arbitrary: p0 rule: bom_chain.induct)
    case (1 env db p)
    then show ?case using find_piece_id [OF 1(3)] by (auto simp: chain_path_def)
  next
    case (2 env db p n c cs)
    show ?case
    proof (cases "x = p")
      case True
      then show ?thesis using 2(4) find_piece_id [OF 2(4)] by blast
    next
      case False
      have c: "find_piece db (bl_child n) = Some c" using 2(2) by simp
      then have "find_piece db (tp_id c) = Some c" using find_piece_id [OF c] by simp
      moreover have "x \<in> set (chain_path (tp_id c) cs)" using 2(3) False by (simp add: chain_path_def)
      ultimately show ?thesis using 2(1) [of c] 2(2) by simp
    qed
  qed
  then obtain r q where "x = tp_id q" "find_piece db r = Some q" by blast
  with f show ?thesis by simp
qed

lemma path_join_inj:
  assumes "bom_ok db" "find_piece db p = Some p0" "bom_chain env db p cs" "bom_chain env db p ds"
    "js_join ''/'' (chain_path p cs) = js_join ''/'' (chain_path p ds)"
  shows "chain_path p cs = chain_path p ds"
  using chain_ids_ok [OF assms(1-3)] chain_ids_ok [OF assms(1,2,4)]
  by (intro join_inj [OF assms(5)]) (auto simp: chain_path_def)

lemma chain_key_inj:
  assumes ok: "bom_ok db" and p: "find_piece db p = Some p0" and d: "distinct (map gn_key nodes)"
    and nodes: "set nodes = chain_node p0 ` {cs. bom_chain env db p cs}"
  shows "bom_chain env db p cs \<Longrightarrow> bom_chain env db p ds \<Longrightarrow> chain_path p cs = chain_path p ds \<Longrightarrow> cs = ds"
proof (induction cs arbitrary: ds rule: rev_induct)
  case Nil
  then show ?case by (simp add: chain_path_def)
next
  case (snoc x cs)
  have i: "tp_id p0 = p" by (rule find_piece_id [OF p])
  obtain n c where x: "x = (n, c)" by (rule prod.exhaust)
  have "length ds = Suc (length cs)" using snoc.prems(3) by (auto simp: chain_path_def dest: arg_cong [of _ _ length])
  then obtain es y where ds: "ds = es @ [y]" by (cases ds rule: rev_cases) auto
  obtain m e where y: "y = (m, e)" by (rule prod.exhaust)
  have "chain_path p cs = chain_path p es" "tp_id c = tp_id e" using snoc.prems(3) by (simp_all add: ds x y chain_path_def)
  then have es: "es = cs" using snoc.IH [of es] snoc.prems(1,2) by (simp add: ds chain_append)
  have l: "n \<in> set (gd_bom db)" "m \<in> set (gd_bom db)" "find_piece db (bl_child n) = Some c" "find_piece db (bl_child m) = Some e"
    using snoc.prems(1,2) by (simp_all add: ds x y chain_append)
  have "gn_key (chain_node p0 (cs @ [x])) = gn_key (chain_node p0 ds)" using snoc.prems(3) by (simp add: chain_node_sel(1) i)
  moreover have "chain_node p0 (cs @ [x]) \<in> set nodes" "chain_node p0 ds \<in> set nodes" using snoc.prems nodes by auto
  ultimately have "chain_node p0 (cs @ [x]) = chain_node p0 ds" using d by (auto simp: distinct_map inj_on_def)
  then have "bl_id n = bl_id m" using chain_node_line [of p0 cs n c] chain_node_line [of p0 es m e] by (simp add: ds x y)
  then have "n = m" using ok l(1,2) by (auto simp: bom_ok_def distinct_map inj_on_def)
  with l show ?case by (simp add: ds es x y)
qed

lemma follow_orders: "gt_orders (follow r cs) = gt_orders r @ map (bl_rang \<circ> fst) cs"
  by (induction r cs rule: follow.induct) (simp_all add: child_row_def)

text \<open>The root comes first: its order path is a proper prefix of all others.\<close>

lemma tree_first:
  assumes "find_piece db p = Some p0"
  shows "tree_query env db limit p \<noteq> [] \<and> hd (tree_query env db limit p) = root_row p0"
proof -
  let ?k = "\<lambda>r. (gt_orders r, tp_id (gt_piece r))" and ?L = "tree_levels env db limit limit [root_row p0]"
  have rows: "tree_query env db limit p = sort_key ?k ?L" by (simp add: tree_query_def assms)
  have root: "root_row p0 \<in> set ?L" unfolding tree_levels_set by (intro bexI [of _ "root_row p0"] exI [of _ "[]"]) simp_all
  have less: "?k (root_row p0) < ?k x" if x: "x \<in> set ?L" "x \<noteq> root_row p0" for x
  proof -
    obtain cs where cs: "x = follow (root_row p0) cs" using x(1) unfolding tree_levels_set by auto
    with x(2) have "cs \<noteq> []" by auto
    then have "gt_orders x = 0 # bl_rang (fst (hd cs)) # map (bl_rang \<circ> fst) (tl cs)"
      by (cases cs) (simp_all add: cs follow_orders root_row_def)
    then have "gt_orders (root_row p0) < gt_orders x" by (simp add: root_row_def)
    then show ?thesis by simp
  qed
  obtain y ys where y: "sort_key ?k ?L = y # ys" using root by (cases "sort_key ?k ?L") (metis empty_iff list.set(1) set_sort, simp)
  then have "sorted (map ?k (y # ys))" by (metis sorted_sort_key)
  then have le: "?k y \<le> ?k z" if "z \<in> set (y # ys)" for z using that by auto
  have "root_row p0 \<in> set (y # ys)" using root by (metis y set_sort)
  from le [OF this] have "\<not> ?k (root_row p0) < ?k y" by (simp only: not_less)
  moreover have "y \<in> set ?L" by (metis y set_sort list.set_intros(1))
  ultimately have "y = root_row p0" using less by blast
  then show ?thesis by (simp add: rows y)
qed

lemma order_of_node_sel:
  "wo_structure_path (order_of_node env p n t i parent r num) = gn_key n" "wo_piece (order_of_node env p n t i parent r num) = gn_piece n"
  "wo_root (order_of_node env p n t i parent r num) = r" "wo_statut (order_of_node env p n t i parent r num) = ''BROUILLON''"
  "wo_quantite_lancee (order_of_node env p n t i parent r num) = to_fixed_3 (gp_qty_to_produce p * gn_quantite_cumulee n)"
  "wo_parent (order_of_node env p n t i parent r num) = parent"
  by (simp_all add: order_of_node_def)

lemma created_fields:
  assumes "created env p ids root_id n w"
  shows "wo_structure_path w = gn_key n" "wo_piece w = gn_piece n" "wo_root w = root_id" "wo_statut w = ''BROUILLON''"
    "wo_quantite_lancee w = to_fixed_3 (gp_qty_to_produce p * gn_quantite_cumulee n)"
    "parent_of_node ids n = Inr (wo_parent w)" "map_of ids (gn_key n) = Some (wo_id w)"
proof -
  obtain t parent numero where a: "map_of ids (gn_key n) = Some (wo_id w)" "parent_of_node ids n = Inr parent"
    and w: "w = order_of_node env p n t (wo_id w) parent root_id numero"
    using assms unfolding created_def by blast
  note e = order_of_node_sel [of env p n t "wo_id w" parent root_id numero, folded w]
  show "wo_structure_path w = gn_key n" "wo_piece w = gn_piece n" "wo_root w = root_id" "wo_statut w = ''BROUILLON''"
    "wo_quantite_lancee w = to_fixed_3 (gp_qty_to_produce p * gn_quantite_cumulee n)"
    "parent_of_node ids n = Inr (wo_parent w)" "map_of ids (gn_key n) = Some (wo_id w)"
    by (rule e(1), rule e(2), rule e(3), rule e(4), rule e(5), simp only: a(2) e(6), rule a(1))
qed

lemma create_parts:
  assumes "create_recursive_ordres_fabrication env p db = Inr (res, db')"
  obtains nodes ids root_id news where
    "load_fabrication_generation_tree env db (gp_root_piece p) HARD_MAX_GENERATION_DEPTH = Inr nodes" "nodes \<noteq> []"
    "map_of ids (gn_key (hd nodes)) = Some root_id" "gd_orders db' = gd_orders db @ news"
    "list_all2 (created env p ids root_id) nodes news" "distinct (map wo_id news)"
    "\<forall>w \<in> set news. wo_id w \<notin> wo_id ` set (gd_orders db) \<and> has_operation db' (wo_id w)"
proof -
  obtain nodes by_key where n: "load_fabrication_generation_tree env db (gp_root_piece p) HARD_MAX_GENERATION_DEPTH = Inr nodes"
    "nodes \<noteq> []" "resolve_technical env db (gp_root_pinned_version_id p) nodes [] [] = Inr by_key"
    using assms by (auto simp: create_recursive_ordres_fabrication_def)
  obtain ids last_id where a: "allocate_of_ids nodes (gd_last_of_id db) [] = (ids, last_id)" by (rule prod.exhaust)
  obtain root_id where r: "map_of ids (gn_key (hd nodes)) = Some root_id"
    using assms n by (cases "map_of ids (gn_key (hd nodes))") (auto simp: create_recursive_ordres_fabrication_def a)
  obtain batch rs db1 where g: "generate_nodes env p by_key ids root_id nodes
      (db\<lparr>gd_last_of_id := last_id, gd_batches := gd_batches db @ [batch]\<rparr>) = Inr (rs, db1)"
    and d: "gd_orders db' = gd_orders db1" "gd_of_operations db' = gd_of_operations db1"
    using assms n by (auto simp: create_recursive_ordres_fabrication_def a r Let_def)
  have h: "has_operation db' = has_operation db1" by (simp add: has_operation_def d fun_eq_iff)
  from generate_nodes_Inr [OF g] obtain news where news: "gd_orders db1 = gd_orders db @ news"
    "list_all2 (created env p ids root_id) nodes news" "distinct (map wo_id news)"
    "\<forall>w \<in> set news. wo_id w \<notin> wo_id ` set (gd_orders db) \<and> has_operation db1 (wo_id w)" by auto
  show ?thesis using that [OF n(1,2) r _ news(2,3)] news(1,4) by (simp add: d h)
qed

lemma parent_found: "parent_of_node ids n = Inr par \<Longrightarrow> gn_parent_key n = Some k \<Longrightarrow> k \<noteq> [] \<Longrightarrow> \<exists>i. par = Some i \<and> map_of ids k = Some i"
  by (cases "map_of ids k") (simp_all add: parent_of_node_def split: if_splits)

lemma list_all2_left: "list_all2 P xs ys \<Longrightarrow> x \<in> set xs \<Longrightarrow> \<exists>y \<in> set ys. P x y"
  by (induction rule: list_all2_induct) auto

lemma list_all2_right: "list_all2 P xs ys \<Longrightarrow> y \<in> set ys \<Longrightarrow> \<exists>x \<in> set xs. P x y"
  by (induction rule: list_all2_induct) auto

text \<open>C20: A generation that succeeds creates exactly one order for each occurrence of a piece in the bill of
  materials, under fresh identifiers. The order of an occurrence makes that piece, in the quantity
  asked for times the quantities along the way to it, rounded to the thousandth; its parent is the
  order of the occurrence above it, its root the order of the piece asked for; it is a draft and
  has at least one operation.\<close>

theorem one_order_per_occurrence:
  assumes ok: "bom_ok db" and p: "find_piece db (gp_root_piece par) = Some p0"
    and c: "create_recursive_ordres_fabrication env par db = Inr (res, db')"
  shows "\<exists>news f. gd_orders db' = gd_orders db @ news \<and> distinct (map wo_id news)
    \<and> bij_betw f {cs. bom_chain env db (gp_root_piece par) cs} (set news)
    \<and> (\<forall>cs. bom_chain env db (gp_root_piece par) cs \<longrightarrow>
        wo_piece (f cs) = last (chain_path (gp_root_piece par) cs)
      \<and> wo_quantite_lancee (f cs) = to_fixed_3 (gp_qty_to_produce par * chain_quantity cs)
      \<and> wo_parent (f cs) = (if cs = [] then None else Some (wo_id (f (butlast cs))))
      \<and> wo_root (f cs) = wo_id (f []) \<and> wo_statut (f cs) = ''BROUILLON''
      \<and> wo_id (f cs) \<notin> wo_id ` set (gd_orders db) \<and> has_operation db' (wo_id (f cs)))"
proof -
  let ?p = "gp_root_piece par" and ?C = "{cs. bom_chain env db (gp_root_piece par) cs}"
  have i: "tp_id p0 = ?p" by (rule find_piece_id [OF p])
  obtain nodes ids root_id news where
    n: "load_fabrication_generation_tree env db ?p HARD_MAX_GENERATION_DEPTH = Inr nodes"
    and r: "map_of ids (gn_key (hd nodes)) = Some root_id" and o: "gd_orders db' = gd_orders db @ news"
    and l: "list_all2 (created env par ids root_id) nodes news" and d: "distinct (map wo_id news)"
    and fresh: "\<forall>w \<in> set news. wo_id w \<notin> wo_id ` set (gd_orders db) \<and> has_operation db' (wo_id w)"
    by (rule create_parts [OF c])
  note t = load_tree_cases(2) [OF p n]
  have nodes: "set nodes = chain_node p0 ` ?C" using t by blast
  have "map wo_id news = map (\<lambda>k. the (map_of ids k)) (map gn_key nodes)"
    using l by (induction rule: list_all2_induct) (simp_all add: created_fields(7))
  then have keys: "distinct (map gn_key nodes)" using d distinct_map by metis
  have "\<exists>w. w \<in> set news \<and> created env par ids root_id (chain_node p0 cs) w" if "cs \<in> ?C" for cs
    using list_all2_left [OF l, of "chain_node p0 cs"] that unfolding nodes by blast
  then obtain f where f: "\<And>cs. cs \<in> ?C \<Longrightarrow> f cs \<in> set news \<and> created env par ids root_id (chain_node p0 cs) (f cs)" by metis
  have inj: "cs = ds" if "cs \<in> ?C" "ds \<in> ?C" "f cs = f ds" for cs ds
  proof -
    have "gn_key (chain_node p0 cs) = gn_key (chain_node p0 ds)"
      using created_fields(1) [OF conjunct2 [OF f [OF that(1)]]] created_fields(1) [OF conjunct2 [OF f [OF that(2)]]] that(3) by simp
    then have "chain_path ?p cs = chain_path ?p ds"
      using that by (intro path_join_inj [OF ok p]) (simp_all add: chain_node_sel(1) i)
    then show ?thesis using that by (intro chain_key_inj [OF ok p keys nodes]) simp_all
  qed
  have surj: "w \<in> f ` ?C" if w: "w \<in> set news" for w
  proof -
    obtain m where m: "m \<in> set nodes" "created env par ids root_id m w"
      using list_all2_right [OF l w] by blast
    obtain cs where n: "m = chain_node p0 cs" "cs \<in> ?C" using m(1) unfolding nodes by (rule imageE)
    have cs: "cs \<in> ?C" "created env par ids root_id (chain_node p0 cs) w" by (rule n(2), use m(2) in \<open>simp only: n(1)\<close>)
    have "wo_id (f cs) = wo_id w" using created_fields(7) [OF cs(2)] created_fields(7) [OF conjunct2 [OF f [OF cs(1)]]] by simp
    moreover have "inj_on wo_id (set news)" using d by (simp add: distinct_map)
    ultimately have "f cs = w" using w conjunct1 [OF f [OF cs(1)]] by (simp only: inj_onD)
    then show ?thesis using cs(1) by blast
  qed
  have bij: "bij_betw f ?C (set news)" unfolding bij_betw_def inj_on_def using inj surj f by blast
  have "hd nodes = chain_node p0 []"
    using t tree_first [OF p] by (simp add: chain_node_def hd_map)
  then have root: "wo_id (f []) = root_id" using r created_fields(7) [OF conjunct2 [OF f [of "[]"]]] by simp
  have par: "wo_parent (f cs) = (if cs = [] then None else Some (wo_id (f (butlast cs))))" if cs: "cs \<in> ?C" for cs
  proof (cases "cs = []")
    case True
    have "parent_of_node ids (chain_node p0 []) = Inr (wo_parent (f []))" using created_fields(6) [OF conjunct2 [OF f [OF cs]]] by (simp only: True)
    then show ?thesis by (simp add: True parent_of_node_def chain_node_sel(4))
  next
    case False
    let ?k = "js_join ''/'' (chain_path ?p (butlast cs))"
    have b: "butlast cs \<in> ?C" using cs False chain_append [of env db ?p "butlast cs" "[last cs]"] by simp
    have "tp_id p0 \<noteq> []" using chain_ids_ok [OF ok p, of env "[]"] by (simp add: chain_path_def i)
    then have "?k \<noteq> []" by (cases "butlast cs") (simp_all add: chain_path_def i)
    moreover have "parent_of_node ids (chain_node p0 cs) = Inr (wo_parent (f cs))" by (rule created_fields(6) [OF conjunct2 [OF f [OF cs]]])
    moreover have "gn_parent_key (chain_node p0 cs) = Some ?k" using False by (simp add: chain_node_sel(4) i)
    ultimately obtain j where j: "wo_parent (f cs) = Some j" "map_of ids ?k = Some j" using parent_found by blast
    moreover have "map_of ids ?k = Some (wo_id (f (butlast cs)))"
      using created_fields(7) [OF conjunct2 [OF f [OF b]]] by (simp only: chain_node_sel(1) i)
    ultimately show ?thesis using False by simp
  qed
  have props: "wo_piece (f cs) = last (chain_path ?p cs) \<and> wo_quantite_lancee (f cs) = to_fixed_3 (gp_qty_to_produce par * chain_quantity cs)
      \<and> wo_parent (f cs) = (if cs = [] then None else Some (wo_id (f (butlast cs)))) \<and> wo_root (f cs) = wo_id (f [])
      \<and> wo_statut (f cs) = ''BROUILLON'' \<and> wo_id (f cs) \<notin> wo_id ` set (gd_orders db) \<and> has_operation db' (wo_id (f cs))"
    if cs: "bom_chain env db ?p cs" for cs
  proof -
    have m: "f cs \<in> set news" "created env par ids root_id (chain_node p0 cs) (f cs)" using f [of cs] cs by simp_all
    note e = created_fields(2-5) [OF m(2)]
    show ?thesis using e m(1) fresh par [of cs] cs root by (simp add: chain_node_sel(3) chain_node_piece i)
  qed
  show ?thesis using o d bij props by blast
qed

text \<open>A piece that stands twice under the same parent cannot be launched: both occurrences have the same
  key, so they get the same identifier, and the second insertion is refused.\<close>

lemma same_child_twice_fails:
  assumes "bom_ok db" "find_piece db (gp_root_piece par) = Some p0"
    and "bom_chain env db (gp_root_piece par) (cs @ [(n, c)])" "bom_chain env db (gp_root_piece par) (cs @ [(m, c)])" "n \<noteq> m"
  shows "\<nexists>r. create_recursive_ordres_fabrication env par db = Inr r"
proof
  assume "\<exists>r. create_recursive_ordres_fabrication env par db = Inr r"
  then obtain res db' where c: "create_recursive_ordres_fabrication env par db = Inr (res, db')" by force
  obtain nodes ids root_id news where
    n: "load_fabrication_generation_tree env db (gp_root_piece par) HARD_MAX_GENERATION_DEPTH = Inr nodes"
    and l: "list_all2 (created env par ids root_id) nodes news" and d: "distinct (map wo_id news)"
    by (rule create_parts [OF c])
  have "map wo_id news = map (\<lambda>k. the (map_of ids k)) (map gn_key nodes)"
    using l by (induction rule: list_all2_induct) (simp_all add: created_fields(7))
  then have keys: "distinct (map gn_key nodes)" using d distinct_map by metis
  from load_tree_cases(2) [OF assms(2) n] have "set nodes = chain_node p0 ` {cs. bom_chain env db (gp_root_piece par) cs}" by blast
  from chain_key_inj [OF assms(1,2) keys this assms(3,4)] have "cs @ [(n, c)] = cs @ [(m, c)]" by (simp add: chain_path_def)
  then show False using assms(5) by simp
qed

section \<open>A small bill of materials\<close>

text \<open>The piece A is made of two of B; both have one routing operation.\<close>

definition sample_generation_env :: generation_env where
  "sample_generation_env = \<lparr>ge_today = 20000, ge_year = 2026, ge_batch_id = ''batch'', ge_read_snapshot = (\<lambda>p v g. Some (JObj [])),
     ge_hash = (\<lambda>j. ''h''), ge_source_hash = (\<lambda>es. ''s''), ge_number = (\<lambda>j. None)\<rparr>"

definition sample_piece :: "string \<Rightarrow> technical_piece" where
  "sample_piece i = \<lparr>tp_id = i, tp_article_id = None, tp_code = i, tp_designation = i, tp_version_number = 1, tp_deleted = False\<rparr>"

definition sample_bom_line :: bom_line where
  "sample_bom_line = \<lparr>bl_id = ''l'', bl_parent = ''A'', bl_parent_version = None, bl_child = ''B'', bl_rang = 1, bl_quantite = 2\<rparr>"

definition sample_version :: "string \<Rightarrow> string \<Rightarrow> piece_version" where
  "sample_version i p = \<lparr>pv_id = i, pv_piece = p, pv_statut = ''APPLICABLE'', pv_date_effet = None, pv_version_interne = Some 1,
     pv_created_at = 0\<rparr>"

definition sample_operation :: "string \<Rightarrow> string \<Rightarrow> gamme_operation" where
  "sample_operation i p = \<lparr>go_id = i, go_piece = p, go_gamme = None, go_phase = 10, go_designation = i, go_designation_2 = None,
     go_cf_id = None, go_cf_rate_id = None, go_machine_id = None, go_machine_family_code = None, go_numero_programme = None,
     go_taux_horaire = None, go_tp = None, go_tf_unit = None, go_qte = None, go_coef = None\<rparr>"

definition sample_db :: generation_db where
  "sample_db = \<lparr>gd_pieces = [sample_piece ''A'', sample_piece ''B''], gd_bom = [sample_bom_line],
     gd_versions = [sample_version ''VA'' ''A'', sample_version ''VB'' ''B''], gd_gammes = [],
     gd_gamme_operations = [sample_operation ''oa'' ''A'', sample_operation ''ob'' ''B''], gd_cost_centres = [], gd_last_of_id = 0,
     gd_codes = \<lparr>cs_issued = 0, cs_bon_livraison = 0, cs_reception = 0\<rparr>, gd_orders = [], gd_revisions = [],
     gd_of_operations = [], gd_technical_snapshots = [], gd_structure = [], gd_batches = []\<rparr>"

definition sample_params :: generation_params where
  "sample_params = \<lparr>gp_source_type = ''MANUAL'', gp_commande_id = None, gp_commande_numero = None, gp_commande_ligne_id = None,
     gp_livraison_affaire_id = None, gp_client_id = None, gp_root_article_id = None, gp_root_piece = ''A'',
     gp_root_pinned_version_id = None, gp_qty_to_produce = 10, gp_idempotency_key = None, gp_request_hash = None\<rparr>"

lemma tree_levels_step:
  "tree_levels env db limit k [] = []"
  "0 < k \<Longrightarrow> tree_levels env db limit k (r # rs) = (r # rs) @ tree_levels env db limit (k - 1) (concat (map (child_rows env db limit) (r # rs)))"
proof -
  show "tree_levels env db limit k [] = []" by (induction k) simp_all
  show "0 < k \<Longrightarrow> tree_levels env db limit k (r # rs) = (r # rs) @ tree_levels env db limit (k - 1) (concat (map (child_rows env db limit) (r # rs)))"
    by (cases k) simp_all
qed

lemma sample_pieces: "find_piece sample_db ''A'' = Some (sample_piece ''A'')" "find_piece sample_db ''B'' = Some (sample_piece ''B'')"
  by (simp_all add: find_piece_def sample_db_def sample_piece_def)

lemma sample_applies: "line_applies sample_generation_env sample_db p sample_bom_line \<longleftrightarrow> p = ''A''"
  by (auto simp: line_applies_def sample_bom_line_def)

definition sample_rows :: "tree_row list" where
  "sample_rows = [root_row (sample_piece ''A''), child_row (root_row (sample_piece ''A'')) sample_bom_line (sample_piece ''B'')]"

lemma sample_tree: "load_fabrication_generation_tree sample_generation_env sample_db ''A'' 50 = Inr (map node_of_row sample_rows)"
proof -
  have i: "tp_id (sample_piece x) = x" for x by (simp add: sample_piece_def)
  have bom: "gd_bom sample_db = [sample_bom_line]" by (simp add: sample_db_def)
  have B: "bl_child sample_bom_line = ''B''" by (simp add: sample_bom_line_def)
  have levels: "tree_levels sample_generation_env sample_db 51 51 [root_row (sample_piece ''A'')] = sample_rows"
    by (simp add: tree_levels_step child_rows_def bom sample_applies i B sample_pieces sample_rows_def)
  have "tree_query sample_generation_env sample_db 51 ''A'' = sample_rows"
    unfolding tree_query_def sample_pieces option.case levels
    by (simp add: sample_rows_def i) (simp add: root_row_def child_row_def sample_bom_line_def)
  then show ?thesis
    by (simp add: load_fabrication_generation_tree_def HARD_MAX_GENERATION_DEPTH_def Let_def) (simp add: sample_rows_def i)
qed

lemma sample_code: "\<exists>c. generate_transactional_business_code P_OF 2026 None st = Inr (c, st\<lparr>cs_issued := cs_issued st + 1\<rparr>)"
proof -
  have y: "show_nat 2026 = ''2026''" by (simp add: show_nat.simps digit_chars)
  have "scope_allowed ''OF:2026''" by code_simp
  then show ?thesis by (simp add: generate_transactional_business_code_def year_from_date_def y next_code_value_def)
qed

lemma sample_created: "\<exists>res db'. create_recursive_ordres_fabrication sample_generation_env sample_params sample_db = Inr (res, db')"
proof -
  define A where "A = node_of_row (root_row (sample_piece ''A''))"
  define B where "B = node_of_row (child_row (root_row (sample_piece ''A'')) sample_bom_line (sample_piece ''B''))"
  have a: "gn_key A = ''A''" "gn_parent_key A = None" "gn_piece A = ''A''" "gn_level A = 0"
    and b: "gn_key B = ''A/B''" "gn_parent_key B = Some ''A''" "gn_piece B = ''B''" "gn_level B = 1"
    by (simp_all add: A_def B_def node_of_row_def sample_piece_def)
  have "load_fabrication_generation_tree sample_generation_env sample_db ''A'' HARD_MAX_GENERATION_DEPTH = Inr [A, B]"
    unfolding HARD_MAX_GENERATION_DEPTH_def sample_tree by (simp add: sample_rows_def A_def B_def)
  note tree = this
  obtain tA tB where t: "load_applicable_technical_snapshot sample_generation_env sample_db ''A'' None = Inr tA" "ts_gamme_id tA = None"
    "load_applicable_technical_snapshot sample_generation_env sample_db ''B'' None = Inr tB" "ts_gamme_id tB = None"
    by (simp add: load_applicable_technical_snapshot_def applicable_version_def sample_db_def sample_version_def sample_generation_env_def)
  obtain code where code: "\<And>st. generate_transactional_business_code P_OF 2026 None st = Inr (code st, st\<lparr>cs_issued := cs_issued st + 1\<rparr>)"
    using sample_code by metis
  have ops: "gd_gamme_operations sample_db = [sample_operation ''oa'' ''A'', sample_operation ''ob'' ''B'']" "gd_revisions sample_db = []"
    "gd_orders sample_db = []" "gd_last_of_id sample_db = 0" by (simp_all add: sample_db_def)
  have op: "go_piece (sample_operation i q) = q" "go_gamme (sample_operation i q) = None" for i q by (simp_all add: sample_operation_def)
  have par: "gp_root_piece sample_params = ''A''" "gp_root_pinned_version_id sample_params = None" by (simp_all add: sample_params_def)
  have y: "ge_year sample_generation_env = 2026" by (simp add: sample_generation_env_def)
  have w: "wo_id (order_of_node sample_generation_env sample_params n t i parent r num) = i" for n t i parent r num by (simp add: order_of_node_def)
  show ?thesis
    by (simp add: create_recursive_ordres_fabrication_def par tree a b t code ops op y w generate_node_def parent_of_node_def
      copy_piece_operations_to_of_def Let_def)
qed

text \<open>Ten of A need twenty of B, and the order of B stands below the one of A.\<close>

theorem one_order_per_occurrence_witness:
  "\<exists>res db' news f. create_recursive_ordres_fabrication sample_generation_env sample_params sample_db = Inr (res, db')
    \<and> gd_orders db' = gd_orders sample_db @ news \<and> wo_quantite_lancee ((f :: bom_route \<Rightarrow> works_order) [(sample_bom_line, sample_piece ''B'')]) = 20
    \<and> wo_parent (f [(sample_bom_line, sample_piece ''B'')]) = Some (wo_id (f []))"
proof -
  obtain res db' where c: "create_recursive_ordres_fabrication sample_generation_env sample_params sample_db = Inr (res, db')"
    using sample_created by blast
  have ok: "bom_ok sample_db" by (simp add: bom_ok_def sample_db_def sample_piece_def)
  have p: "gp_root_piece sample_params = ''A''" "gp_qty_to_produce sample_params = 10" by (simp_all add: sample_params_def)
  have f: "find_piece sample_db (gp_root_piece sample_params) = Some (sample_piece ''A'')" by (simp add: p sample_pieces)
  let ?cs = "[(sample_bom_line, sample_piece ''B'')]"
  have n: "gd_bom sample_db = [sample_bom_line]" "bl_child sample_bom_line = ''B''" by (simp_all add: sample_db_def sample_bom_line_def)
  have b: "bom_chain sample_generation_env sample_db (gp_root_piece sample_params) ?cs"
    by (simp add: p sample_applies sample_pieces n)
  have q: "chain_quantity ?cs = 2" "to_fixed_3 (10 * 2) = 20" 
    by (simp_all add: chain_quantity_def sample_bom_line_def to_fixed_3_def round_numeric_def floor_unique)
  from one_order_per_occurrence [OF ok f c] show ?thesis
  proof (elim exE conjE)
    fix news and g :: "bom_route \<Rightarrow> works_order"
    assume o: "gd_orders db' = gd_orders sample_db @ news"
      and g: "\<forall>cs. bom_chain sample_generation_env sample_db (gp_root_piece sample_params) cs \<longrightarrow>
        wo_piece (g cs) = last (chain_path (gp_root_piece sample_params) cs)
      \<and> wo_quantite_lancee (g cs) = to_fixed_3 (gp_qty_to_produce sample_params * chain_quantity cs)
      \<and> wo_parent (g cs) = (if cs = [] then None else Some (wo_id (g (butlast cs))))
      \<and> wo_root (g cs) = wo_id (g []) \<and> wo_statut (g cs) = ''BROUILLON''
      \<and> wo_id (g cs) \<notin> wo_id ` set (gd_orders sample_db) \<and> has_operation db' (wo_id (g cs))"
    have "wo_quantite_lancee (g ?cs) = 20" "wo_parent (g ?cs) = Some (wo_id (g []))"
      using g [rule_format, OF b] q by (simp_all add: p)
    with c o show ?thesis by blast
  qed
qed

theorem bom_tree_complete_witness:
  "\<exists>nodes. load_fabrication_generation_tree sample_generation_env sample_db ''A'' 50 = Inr nodes \<and> length nodes = 2
    \<and> bom_sound sample_generation_env sample_db ''A'' (generation_depth 50)"
  using bom_tree_complete [OF sample_pieces(1), of sample_generation_env 50] by (simp add: sample_tree sample_rows_def)

end
