(* ===== verification/Delivery_Gate.thy ===== *)
theory Delivery_Gate
  imports Quality_Release Canonical_Json
begin

text \<open>
  \<open>src/module/livraisons/domain/quality-release-gate.ts\<close>: whether a delivery may be packed and shipped.
  A signed policy says what is required; each allocation of the delivery is judged with the
  eligibility and derogation rules of \<open>Quality_Release\<close>. The SHA-256 of a canonical text, the
  collation of \<open>localeCompare\<close> and the reading of dates are arguments.
\<close>

section \<open>Data\<close>

datatype delivery_state = DRS_READY | DRS_BLOCKED | DRS_DEROGATED | DRS_UNKNOWN

datatype gate_code = G_SCHEMA_UNAVAILABLE | G_POLICY_MISSING | G_POLICY_AMBIGUOUS | G_POLICY_INVALID
  | G_POLICY_INTEGRITY_FAILED | G_SCOPE_EMPTY | G_DATE_INVALID | G_PLAN_REQUIRED | G_CONTROL_REQUIRED
  | G_DECISION_REQUIRED | G_ELIGIBILITY eligibility_block_code | G_DEROGATION_FORBIDDEN | G_AUDIT_INCOMPLETE
  | G_DEROGATION derogation_code | G_EVIDENCE_MISSING

record gate_reason =
  gr_code :: gate_code
  gr_object_type :: string
  gr_object_id :: string

record quality_evidence =
  qv_id :: string
  qv_entity_type :: string
  qv_entity_id :: string
  qv_document_type :: string
  qv_sha256 :: string
  qv_target_keys :: "string list"

record delivery_policy =
  dp_id :: string
  dp_code :: string
  dp_version :: int
  dp_rules_sha256 :: string
  dp_signature_reference :: string
  dp_signed_at :: string
  dp_rules :: json

datatype derogation_mode = DM_FORBIDDEN | DM_APPROVED_LINKED_RELEASE_ONLY

datatype document_scope = PER_DELIVERY | PER_TARGET

record required_document =
  rq_document_type :: string
  rq_scope :: document_scope
  rq_min_count :: nat

record policy_rules =
  ru_version_2 :: bool
  ru_derogation_mode :: derogation_mode
  ru_lot_release_required :: bool
  ru_require_independent_decider :: bool
  ru_required_documents :: "required_document list"

record delivery_derogation =
  dd_release_decision_id :: string
  dd_release_decision_justification :: "string option"
  dd_consumption_id :: "string option"
  dd_consumption_bon_livraison_id :: "string option"
  dd_consumption_qty :: "jsnum option"
  dd_state :: derogation_state
  dd_context :: derogation_usage_context
  dd_requested_by :: int
  dd_requested_at :: string
  dd_approved_by :: "int option"
  dd_approved_at :: "string option"
  dd_requirement :: string
  dd_deviation :: string

record target_observation =
  tg_key :: string
  tg_target :: eligibility_target
  tg_allocation_id :: string
  tg_delivery_line_id :: string
  tg_article_id :: "string option"
  tg_lot_id :: "string option"
  tg_unite :: "string option"
  tg_plan :: "(string \<times> string \<times> int) option"
  tg_control_count :: nat
  tg_latest_decision :: "(string \<times> quality_release_decision \<times> jsnum) option"
  tg_derogation :: "delivery_derogation option"

record delivery_input =
  di_bon_livraison_id :: string
  di_evaluated_at :: string
  di_policy_candidates :: "delivery_policy list"
  di_targets :: "target_observation list"
  di_evidence :: "quality_evidence list"
  di_unavailable_reason :: "string option"

text \<open>A printed target: what was observed and what the gate made of it.\<close>

record gate_target =
  gt_observation :: target_observation
  gt_qty_allowed :: jsnum
  gt_derogation_id :: "string option"
  gt_release_decision_id :: "string option"

record delivery_release =
  dr_state :: delivery_state
  dr_policy :: "delivery_policy option"
  dr_reasons :: "gate_reason list"
  dr_targets :: "gate_target list"
  dr_required_evidence :: "quality_evidence list"
  dr_derogation_ids :: "string list"

record gate_env =
  qe_parse_date :: "string \<Rightarrow> int option"
  qe_collation :: "string \<Rightarrow> string"
  qe_sha :: "json \<Rightarrow> string"
  qe_preview_sha :: "string \<Rightarrow> delivery_release \<Rightarrow> string"

section \<open>The rules of a policy\<close>

definition has_rule_keys :: "(string \<times> json) list \<Rightarrow> string list \<Rightarrow> bool" where
  "has_rule_keys es keys \<longleftrightarrow> sort (map fst es) = sort keys"

definition min_count_of :: "json option \<Rightarrow> nat option" where
  "min_count_of v =
     (case v of
        Some (JNum t) \<Rightarrow>
          if t \<noteq> [] \<and> list_all is_digit t \<and> hd t \<noteq> CHR ''0'' \<and> read_nat t \<le> 100 then Some (read_nat t) else None
      | _ \<Rightarrow> None)"

fun parse_required_document :: "json \<Rightarrow> required_document option" where
  "parse_required_document (JObj es) =
     (if \<not> has_rule_keys es [''document_type'', ''scope'', ''min_count''] then None
      else case (map_of es ''document_type'', map_of es ''scope'', min_count_of (map_of es ''min_count'')) of
        (Some (JStr t), Some (JStr s), Some n) \<Rightarrow>
          if js_trim t = [] then None
          else if s = ''PER_DELIVERY'' then Some \<lparr>rq_document_type = js_trim t, rq_scope = PER_DELIVERY, rq_min_count = n\<rparr>
          else if s = ''PER_TARGET'' then Some \<lparr>rq_document_type = js_trim t, rq_scope = PER_TARGET, rq_min_count = n\<rparr>
          else None
      | _ \<Rightarrow> None)"
| "parse_required_document _ = None"

fun parse_all_documents :: "json list \<Rightarrow> required_document list option" where
  "parse_all_documents [] = Some []"
| "parse_all_documents (v # vs) =
     (case parse_required_document v of
        None \<Rightarrow> None
      | Some d \<Rightarrow> map_option (\<lambda>ds. d # ds) (parse_all_documents vs))"

definition RULE_KEYS_V1 :: "string list" where
  "RULE_KEYS_V1 = [''schema'', ''engine'', ''aggregate_scope'', ''derogation_mode'', ''required_documents'']"

definition RULE_KEYS_V2 :: "string list" where
  "RULE_KEYS_V2 = [''schema'', ''engine'', ''aggregate_scope'', ''derogation_mode'', ''required_control_triggers'',
     ''require_independent_decider'', ''required_documents'']"

definition derogation_mode_of :: "json option \<Rightarrow> derogation_mode option" where
  "derogation_mode_of v =
     (if v = Some (JStr ''FORBIDDEN'') then Some DM_FORBIDDEN
      else if v = Some (JStr ''APPROVED_LINKED_RELEASE_ONLY'') then Some DM_APPROVED_LINKED_RELEASE_ONLY else None)"

definition independent_decider :: "(string \<times> json) list \<Rightarrow> bool option" where
  "independent_decider es =
     (case (map_of es ''required_control_triggers'', map_of es ''require_independent_decider'') of
        (Some (JArr [v]), Some (JBool b)) \<Rightarrow> if v = JStr ''LOT_RELEASE'' then Some b else None
      | _ \<Rightarrow> None)"

fun parse_delivery_quality_policy_rules :: "json \<Rightarrow> policy_rules option" where
  "parse_delivery_quality_policy_rules (JObj es) =
     (let v1 = (map_of es ''schema'' = Some (JStr ''cerp.quality.delivery-release-policy.v1''));
          v2 = (map_of es ''schema'' = Some (JStr ''cerp.quality.delivery-release-policy.v2''))
      in if \<not> v1 \<and> \<not> v2 then None
         else if \<not> has_rule_keys es (if v1 then RULE_KEYS_V1 else RULE_KEYS_V2) then None
         else if map_of es ''engine'' \<noteq> Some (JStr ''CERP_QUALITY_ELIGIBILITY_V1'') then None
         else if map_of es ''aggregate_scope'' \<noteq> Some (JStr ''ALL_DELIVERY_ALLOCATIONS'') then None
         else (case (derogation_mode_of (map_of es ''derogation_mode''), map_of es ''required_documents'',
                 if v2 then independent_decider es else Some True) of
             (Some m, Some (JArr ds), Some decider) \<Rightarrow>
               map_option (\<lambda>docs. \<lparr>ru_version_2 = v2, ru_derogation_mode = m, ru_lot_release_required = v2,
                   ru_require_independent_decider = decider, ru_required_documents = docs\<rparr>) (parse_all_documents ds)
           | _ \<Rightarrow> None))"
| "parse_delivery_quality_policy_rules _ = None"

section \<open>One target\<close>

definition reason_at :: "gate_code \<Rightarrow> eligibility_target \<Rightarrow> gate_reason" where
  "reason_at code t = \<lparr>gr_code = code, gr_object_type = et_object_type t, gr_object_id = et_object_id t\<rparr>"

definition control_reasons :: "policy_rules \<Rightarrow> target_observation \<Rightarrow> gate_reason list" where
  "control_reasons rules ob =
     (if \<not> ru_lot_release_required rules then []
      else if tg_plan ob = None then [reason_at G_PLAN_REQUIRED (tg_target ob)]
      else if tg_control_count ob = 0 then [reason_at G_CONTROL_REQUIRED (tg_target ob)]
      else if tg_latest_decision ob = None then [reason_at G_DECISION_REQUIRED (tg_target ob)]
      else [])"

definition audit_complete :: "string \<Rightarrow> delivery_derogation \<Rightarrow> bool" where
  "audit_complete bon d \<longleftrightarrow> 0 < dd_requested_by d \<and> dd_requested_at d \<noteq> [] \<and> dd_approved_by d \<noteq> None
     \<and> truthy (dd_approved_at d) \<and> dd_approved_by d \<noteq> Some (dd_requested_by d)
     \<and> 3 \<le> length (js_trim (dd_requirement d)) \<and> 3 \<le> length (js_trim (dd_deviation d))
     \<and> js_trim (or_empty (dd_release_decision_justification d)) \<noteq> [] \<and> dd_consumption_id d \<noteq> None
     \<and> dd_consumption_bon_livraison_id d = Some bon
     \<and> (case dd_consumption_qty d of None \<Rightarrow> False | Some q \<Rightarrow> num_lt (num 0) q)"

text \<open>The balance before this very consumption, which is already part of the total.\<close>

definition before_consumption :: "delivery_derogation \<Rightarrow> derogation_state" where
  "before_consumption d = (dd_state d)\<lparr>dg_consumed_qty := num_max (num 0)
     (num_sub (dg_consumed_qty (dd_state d)) (case dd_consumption_qty d of None \<Rightarrow> num 0 | Some q \<Rightarrow> q))\<rparr>"

definition usage_of :: "gate_env \<Rightarrow> int \<Rightarrow> target_observation \<Rightarrow> delivery_derogation \<Rightarrow> derogation_usage_evaluation" where
  "usage_of env now ob d = evaluate_derogation_usage (qe_parse_date env) (before_consumption d) (dd_context d)
     (case dd_consumption_qty d of None \<Rightarrow> et_qty_requested (tg_target ob) | Some q \<Rightarrow> q) now"

text \<open>The reason against a derogation, or None when it is accepted.\<close>

definition derogation_reason ::
  "gate_env \<Rightarrow> policy_rules \<Rightarrow> string \<Rightarrow> int \<Rightarrow> target_observation \<Rightarrow> delivery_derogation \<Rightarrow> gate_code option" where
  "derogation_reason env rules bon now ob d =
     (if ru_derogation_mode rules = DM_FORBIDDEN then Some G_DEROGATION_FORBIDDEN
      else if \<not> audit_complete bon d then Some G_AUDIT_INCOMPLETE
      else if \<not> de_allowed (usage_of env now ob d) then Some (G_DEROGATION (de_code (usage_of env now ob d)))
      else None)"

definition accepted_derogation ::
  "gate_env \<Rightarrow> policy_rules \<Rightarrow> string \<Rightarrow> int \<Rightarrow> target_observation \<Rightarrow> delivery_derogation option" where
  "accepted_derogation env rules bon now ob =
     (case tg_derogation ob of
        None \<Rightarrow> None
      | Some d \<Rightarrow> if derogation_reason env rules bon now ob d = None then Some d else None)"

definition target_reasons ::
  "gate_env \<Rightarrow> policy_rules \<Rightarrow> string \<Rightarrow> int \<Rightarrow> target_observation \<Rightarrow> gate_reason list" where
  "target_reasons env rules bon now ob =
     control_reasons rules ob
     @ map (\<lambda>b. \<lparr>gr_code = G_ELIGIBILITY (eb_code b), gr_object_type = eb_object_type b, gr_object_id = eb_object_id b\<rparr>)
         (ev_blocks (evaluate_quality_eligibility (qe_parse_date env) (tg_target ob) SHIP now))
     @ (case tg_derogation ob of
          None \<Rightarrow> []
        | Some d \<Rightarrow>
            (case derogation_reason env rules bon now ob d of None \<Rightarrow> [] | Some code \<Rightarrow> [reason_at code (tg_target ob)]))"

definition target_snapshot :: "target_observation \<Rightarrow> jsnum \<Rightarrow> string option \<Rightarrow> string option \<Rightarrow> gate_target" where
  "target_snapshot ob allowed derogation release =
     \<lparr>gt_observation = ob, gt_qty_allowed = allowed, gt_derogation_id = derogation, gt_release_decision_id = release\<rparr>"

definition judged_target :: "gate_env \<Rightarrow> policy_rules \<Rightarrow> string \<Rightarrow> int \<Rightarrow> target_observation \<Rightarrow> gate_target" where
  "judged_target env rules bon now ob =
     (let d = accepted_derogation env rules bon now ob
      in target_snapshot ob (ev_qty_allowed (evaluate_quality_eligibility (qe_parse_date env) (tg_target ob) SHIP now))
           (map_option (dg_id \<circ> dd_state) d)
           (case tg_latest_decision ob of Some (i, _) \<Rightarrow> Some i | None \<Rightarrow> map_option dd_release_decision_id d))"

definition by_key :: "gate_env \<Rightarrow> target_observation list \<Rightarrow> target_observation list" where
  "by_key env obs = sort_key (\<lambda>t. qe_collation env (tg_key t)) obs"

definition visible_targets :: "gate_env \<Rightarrow> delivery_input \<Rightarrow> gate_target list" where
  "visible_targets env inp = map (\<lambda>ob. target_snapshot ob (num 0) None None) (by_key env (di_targets inp))"

section \<open>Evidence\<close>

definition sha256_text :: "string \<Rightarrow> bool" where
  "sha256_text s \<longleftrightarrow> length s = 64 \<and> list_all (\<lambda>c. c \<in> set ''0123456789abcdefABCDEF'') s"

definition customer_evidence :: "gate_env \<Rightarrow> quality_evidence list \<Rightarrow> quality_evidence list" where
  "customer_evidence env docs = sort_key (\<lambda>d. qe_collation env (qv_id d)) (filter (sha256_text \<circ> qv_sha256) docs)"

text \<open>What one requirement asks for, where, and the documents that match.\<close>

definition requirement_checks ::
  "string \<Rightarrow> quality_evidence list \<Rightarrow> target_observation list \<Rightarrow> required_document
     \<Rightarrow> ((string \<times> string) \<times> quality_evidence list) list" where
  "requirement_checks bon docs obs r =
     (let typed = filter (\<lambda>d. qv_document_type d = rq_document_type r) docs
      in case rq_scope r of
           PER_DELIVERY \<Rightarrow> [((''BON_LIVRAISON'', bon), typed)]
         | PER_TARGET \<Rightarrow> map (\<lambda>ob. ((et_object_type (tg_target ob), et_object_id (tg_target ob)),
             filter (\<lambda>d. tg_key ob \<in> set (qv_target_keys d)) typed)) obs)"

definition evidence_reasons ::
  "string \<Rightarrow> quality_evidence list \<Rightarrow> target_observation list \<Rightarrow> required_document list \<Rightarrow> gate_reason list" where
  "evidence_reasons bon docs obs rs =
     concat (map (\<lambda>r. concat (map (\<lambda>((ty, i), matches). if length matches < rq_min_count r
         then [\<lparr>gr_code = G_EVIDENCE_MISSING, gr_object_type = ty, gr_object_id = i\<rparr>] else [])
       (requirement_checks bon docs obs r))) rs)"

definition put_document :: "quality_evidence \<Rightarrow> quality_evidence list \<Rightarrow> quality_evidence list" where
  "put_document d ds = (if d \<in> set ds \<or> list_ex (\<lambda>x. qv_id x = qv_id d) ds
     then map (\<lambda>x. if qv_id x = qv_id d then d else x) ds else ds @ [d])"

definition required_evidence ::
  "gate_env \<Rightarrow> string \<Rightarrow> quality_evidence list \<Rightarrow> target_observation list \<Rightarrow> required_document list \<Rightarrow> quality_evidence list" where
  "required_evidence env bon docs obs rs = sort_key (\<lambda>d. qe_collation env (qv_id d))
     (fold put_document (concat (map (\<lambda>r. concat (map snd (requirement_checks bon docs obs r))) rs)) [])"

section \<open>The decision\<close>

definition build_result :: "gate_env \<Rightarrow> delivery_input \<Rightarrow> delivery_release \<Rightarrow> string \<times> delivery_release" where
  "build_result env inp rel = (qe_preview_sha env (di_bon_livraison_id inp) rel, rel)"

definition unknown_result ::
  "gate_env \<Rightarrow> delivery_input \<Rightarrow> delivery_policy option \<Rightarrow> gate_code \<Rightarrow> string \<Rightarrow> string \<Rightarrow> string \<times> delivery_release" where
  "unknown_result env inp policy code ty i = build_result env inp \<lparr>dr_state = DRS_UNKNOWN, dr_policy = policy,
     dr_reasons = [\<lparr>gr_code = code, gr_object_type = ty, gr_object_id = i\<rparr>], dr_targets = visible_targets env inp,
     dr_required_evidence = [], dr_derogation_ids = []\<rparr>"

definition judge_delivery :: "gate_env \<Rightarrow> delivery_input \<Rightarrow> delivery_policy \<Rightarrow> policy_rules \<Rightarrow> int \<Rightarrow> delivery_release" where
  "judge_delivery env inp policy rules now =
     (let bon = di_bon_livraison_id inp;
          obs = by_key env (di_targets inp);
          docs = customer_evidence env (di_evidence inp);
          reasons = concat (map (target_reasons env rules bon now) obs)
            @ evidence_reasons bon docs obs (ru_required_documents rules);
          derogations = sort (set_of_list (concat (map (\<lambda>ob. case accepted_derogation env rules bon now ob of
              None \<Rightarrow> [] | Some d \<Rightarrow> [dg_id (dd_state d)]) obs)))
      in \<lparr>dr_state = (if reasons \<noteq> [] then DRS_BLOCKED else if derogations \<noteq> [] then DRS_DEROGATED else DRS_READY),
           dr_policy = Some policy, dr_reasons = reasons, dr_targets = map (judged_target env rules bon now) obs,
           dr_required_evidence = required_evidence env bon docs obs (ru_required_documents rules),
           dr_derogation_ids = derogations\<rparr>)"

definition evaluate_delivery_quality_release :: "gate_env \<Rightarrow> delivery_input \<Rightarrow> string \<times> delivery_release" where
  "evaluate_delivery_quality_release env inp =
     (let bon = di_bon_livraison_id inp in
      if truthy (di_unavailable_reason inp) then unknown_result env inp None G_SCHEMA_UNAVAILABLE ''BON_LIVRAISON'' bon
      else case di_policy_candidates inp of
        [] \<Rightarrow> unknown_result env inp None G_POLICY_MISSING ''BON_LIVRAISON'' bon
      | _ # _ # _ \<Rightarrow> unknown_result env inp None G_POLICY_AMBIGUOUS ''BON_LIVRAISON'' bon
      | [policy] \<Rightarrow>
          (let intact = (qe_sha env (dp_rules policy) = js_lower (dp_rules_sha256 policy)) in
           case parse_delivery_quality_policy_rules (dp_rules policy) of
             None \<Rightarrow> unknown_result env inp (Some policy) (if intact then G_POLICY_INVALID else G_POLICY_INTEGRITY_FAILED)
               ''QUALITY_POLICY'' (dp_id policy)
           | Some rules \<Rightarrow>
               if \<not> intact \<or> js_trim (dp_signature_reference policy) = [] \<or> dp_signed_at policy = []
               then unknown_result env inp (Some policy) (if intact then G_POLICY_INVALID else G_POLICY_INTEGRITY_FAILED)
                 ''QUALITY_POLICY'' (dp_id policy)
               else if di_targets inp = [] then unknown_result env inp (Some policy) G_SCOPE_EMPTY ''BON_LIVRAISON'' bon
               else case qe_parse_date env (di_evaluated_at inp) of
                 None \<Rightarrow> unknown_result env inp (Some policy) G_DATE_INVALID ''BON_LIVRAISON'' bon
               | Some now \<Rightarrow> build_result env inp (judge_delivery env inp policy rules now)))"

section \<open>What a release means\<close>

definition target_cleared :: "gate_env \<Rightarrow> policy_rules \<Rightarrow> string \<Rightarrow> int \<Rightarrow> target_observation \<Rightarrow> bool" where
  "target_cleared env rules bon now ob \<longleftrightarrow>
     (ru_lot_release_required rules \<longrightarrow> tg_plan ob \<noteq> None \<and> tg_control_count ob \<noteq> 0 \<and> tg_latest_decision ob \<noteq> None)
     \<and> ev_allowed (evaluate_quality_eligibility (qe_parse_date env) (tg_target ob) SHIP now)
     \<and> (\<forall>d. tg_derogation ob = Some d \<longrightarrow> ru_derogation_mode rules \<noteq> DM_FORBIDDEN \<and> audit_complete bon d
          \<and> de_allowed (usage_of env now ob d))"

definition valid_evidence :: "quality_evidence list \<Rightarrow> string \<Rightarrow> quality_evidence list" where
  "valid_evidence docs ty = filter (\<lambda>d. sha256_text (qv_sha256 d) \<and> qv_document_type d = ty) docs"

definition evidence_complete :: "delivery_input \<Rightarrow> required_document \<Rightarrow> bool" where
  "evidence_complete inp r \<longleftrightarrow>
     (case rq_scope r of
        PER_DELIVERY \<Rightarrow> rq_min_count r \<le> length (valid_evidence (di_evidence inp) (rq_document_type r))
      | PER_TARGET \<Rightarrow> (\<forall>ob \<in> set (di_targets inp).
          rq_min_count r \<le> length (filter (\<lambda>d. tg_key ob \<in> set (qv_target_keys d)) (valid_evidence (di_evidence inp) (rq_document_type r)))))"

definition releasable :: "gate_env \<Rightarrow> delivery_input \<Rightarrow> bool" where
  "releasable env inp \<longleftrightarrow> \<not> truthy (di_unavailable_reason inp) \<and> di_targets inp \<noteq> []
     \<and> (\<exists>policy rules now. di_policy_candidates inp = [policy]
        \<and> parse_delivery_quality_policy_rules (dp_rules policy) = Some rules
        \<and> qe_sha env (dp_rules policy) = js_lower (dp_rules_sha256 policy)
        \<and> js_trim (dp_signature_reference policy) \<noteq> [] \<and> dp_signed_at policy \<noteq> []
        \<and> qe_parse_date env (di_evaluated_at inp) = Some now
        \<and> (\<forall>ob \<in> set (di_targets inp). target_cleared env rules (di_bon_livraison_id inp) now ob)
        \<and> (\<forall>r \<in> set (ru_required_documents rules). evidence_complete inp r))"

lemma by_key_set [simp]: "set (by_key env obs) = set obs"
  by (simp add: by_key_def)

lemma target_reasons_empty: "target_reasons env rules bon now ob = [] \<longleftrightarrow> target_cleared env rules bon now ob"
proof -
  have c: "control_reasons rules ob = [] \<longleftrightarrow>
      (ru_lot_release_required rules \<longrightarrow> tg_plan ob \<noteq> None \<and> tg_control_count ob \<noteq> 0 \<and> tg_latest_decision ob \<noteq> None)"
    by (simp add: control_reasons_def)
  have e: "ev_blocks (evaluate_quality_eligibility p t purpose now) = []
      \<longleftrightarrow> ev_allowed (evaluate_quality_eligibility p t purpose now)" for p t purpose now
    by (simp add: evaluate_quality_eligibility_def Let_def)
  have r: "derogation_reason env rules bon now ob d = None \<longleftrightarrow>
      ru_derogation_mode rules \<noteq> DM_FORBIDDEN \<and> audit_complete bon d \<and> de_allowed (usage_of env now ob d)" for d
    by (simp add: derogation_reason_def)
  show ?thesis
  proof (cases "tg_derogation ob")
    case None
    then show ?thesis by (simp add: target_reasons_def target_cleared_def c e)
  next
    case (Some d)
    then show ?thesis
      using r [of d] by (cases "derogation_reason env rules bon now ob d") (simp_all add: target_reasons_def target_cleared_def c e)
  qed
qed

lemma customer_evidence_count:
  "length (filter P (filter (\<lambda>d. qv_document_type d = ty) (customer_evidence env docs))) = length (filter P (valid_evidence docs ty))"
  "length (filter (\<lambda>d. qv_document_type d = ty) (customer_evidence env docs)) = length (valid_evidence docs ty)"
  by (simp_all add: customer_evidence_def valid_evidence_def filter_sort conj_ac)

lemma concat_if_Nil: "concat (map (\<lambda>x. if P x then [f x] else []) xs) = [] \<longleftrightarrow> (\<forall>x \<in> set xs. \<not> P x)"
  by (induction xs) auto

lemma evidence_reasons_empty:
  "evidence_reasons bon (customer_evidence env (di_evidence inp)) (by_key env (di_targets inp)) rs = []
    \<longleftrightarrow> (\<forall>r \<in> set rs. evidence_complete inp r)"
proof -
  let ?check = "\<lambda>r ((ty, i), matches). if length matches < rq_min_count r
         then [\<lparr>gr_code = G_EVIDENCE_MISSING, gr_object_type = ty, gr_object_id = i\<rparr>] else []"
  let ?checks = "\<lambda>r. requirement_checks bon (customer_evidence env (di_evidence inp)) (by_key env (di_targets inp)) r"
  have c: "concat (map (?check r) (?checks r)) = [] \<longleftrightarrow> evidence_complete inp r" for r
  proof (cases "rq_scope r")
    case PER_DELIVERY
    then show ?thesis by (simp add: requirement_checks_def evidence_complete_def customer_evidence_count not_less)
  next
    case PER_TARGET
    then have e: "concat (map (?check r) (?checks r)) = concat (map (\<lambda>ob.
        if length (filter (\<lambda>d. tg_key ob \<in> set (qv_target_keys d)) (valid_evidence (di_evidence inp) (rq_document_type r))) < rq_min_count r
        then [\<lparr>gr_code = G_EVIDENCE_MISSING, gr_object_type = et_object_type (tg_target ob), gr_object_id = et_object_id (tg_target ob)\<rparr>]
        else []) (by_key env (di_targets inp)))"
      by (simp only: requirement_checks_def Let_def document_scope.case map_map comp_def prod.case customer_evidence_count)
    show ?thesis unfolding e concat_if_Nil by (simp add: evidence_complete_def PER_TARGET not_less)
  qed
  show ?thesis
  proof (induction rs)
    case (Cons r rs)
    have e: "evidence_reasons bon (customer_evidence env (di_evidence inp)) (by_key env (di_targets inp)) (r # rs)
        = concat (map (?check r) (?checks r))
          @ evidence_reasons bon (customer_evidence env (di_evidence inp)) (by_key env (di_targets inp)) rs"
      by (simp only: evidence_reasons_def list.map concat.simps)
    show ?case unfolding e append_is_Nil_conv c Cons.IH by simp
  qed (simp add: evidence_reasons_def)
qed

lemma derogations_empty:
  assumes "\<forall>ob \<in> set obs. target_cleared env rules bon now ob"
  shows "(concat (map (\<lambda>ob. case accepted_derogation env rules bon now ob of None \<Rightarrow> [] | Some d \<Rightarrow> [dg_id (dd_state d)]) obs) = [])
    \<longleftrightarrow> (\<forall>ob \<in> set obs. tg_derogation ob = None)"
  using assms
proof (induction obs)
  case (Cons ob obs)
  have "accepted_derogation env rules bon now ob = tg_derogation ob"
    using Cons.prems by (cases "tg_derogation ob") (auto simp: accepted_derogation_def target_cleared_def derogation_reason_def)
  then show ?case using Cons by (cases "tg_derogation ob") auto
qed simp

lemma delivery_state:
  "(dr_state (snd (evaluate_delivery_quality_release env inp)) \<in> {DRS_READY, DRS_DEROGATED} \<longleftrightarrow> releasable env inp)
    \<and> (dr_state (snd (evaluate_delivery_quality_release env inp)) = DRS_READY
        \<longleftrightarrow> releasable env inp \<and> list_all (\<lambda>ob. tg_derogation ob = None) (di_targets inp))"
proof -
  have unk: "dr_state (snd (unknown_result env inp p c ty i)) = DRS_UNKNOWN" for p c ty i
    by (simp add: unknown_result_def build_result_def)
  show ?thesis
  proof (cases "\<not> truthy (di_unavailable_reason inp) \<and> di_targets inp \<noteq> []
      \<and> (\<exists>policy rules now. di_policy_candidates inp = [policy] \<and> parse_delivery_quality_policy_rules (dp_rules policy) = Some rules
        \<and> qe_sha env (dp_rules policy) = js_lower (dp_rules_sha256 policy) \<and> js_trim (dp_signature_reference policy) \<noteq> []
        \<and> dp_signed_at policy \<noteq> [] \<and> qe_parse_date env (di_evaluated_at inp) = Some now)")
    case True
    then obtain policy rules now where p: "di_policy_candidates inp = [policy]" "parse_delivery_quality_policy_rules (dp_rules policy) = Some rules"
      "qe_parse_date env (di_evaluated_at inp) = Some now"
      and q: "\<not> truthy (di_unavailable_reason inp)" "di_targets inp \<noteq> []" "qe_sha env (dp_rules policy) = js_lower (dp_rules_sha256 policy)"
        "js_trim (dp_signature_reference policy) \<noteq> []" "dp_signed_at policy \<noteq> []"
      by (elim conjE exE) (rule that)
    let ?bon = "di_bon_livraison_id inp" and ?obs = "by_key env (di_targets inp)"
    have s: "dr_state (snd (evaluate_delivery_quality_release env inp)) = dr_state (judge_delivery env inp policy rules now)"
      by (simp add: evaluate_delivery_quality_release_def Let_def p q build_result_def)
    let ?R = "concat (map (target_reasons env rules ?bon now) ?obs)
            @ evidence_reasons ?bon (customer_evidence env (di_evidence inp)) ?obs (ru_required_documents rules)"
    let ?D = "concat (map (\<lambda>ob. case accepted_derogation env rules ?bon now ob of None \<Rightarrow> [] | Some d \<Rightarrow> [dg_id (dd_state d)]) ?obs)"
    have "sort (set_of_list xs) = [] \<longleftrightarrow> xs = []" for xs :: "string list"
      by (metis set_empty set_of_list_simps(1) set_sort)
    then have j: "dr_state (judge_delivery env inp policy rules now)
        = (if ?R \<noteq> [] then DRS_BLOCKED else if ?D \<noteq> [] then DRS_DEROGATED else DRS_READY)"
      by (simp add: judge_delivery_def Let_def)
    have r: "?R = [] \<longleftrightarrow> (\<forall>ob \<in> set (di_targets inp). target_cleared env rules ?bon now ob)
        \<and> (\<forall>r \<in> set (ru_required_documents rules). evidence_complete inp r)"
      unfolding append_is_Nil_conv evidence_reasons_empty concat_eq_Nil_conv
      by (simp only: set_map ball_simps target_reasons_empty by_key_set)
    have ok: "releasable env inp \<longleftrightarrow> ?R = []" unfolding r releasable_def using p q by simp
    have d: "?D = [] \<longleftrightarrow> (\<forall>ob \<in> set (di_targets inp). tg_derogation ob = None)" if "?R = []"
    proof -
      have "\<forall>ob \<in> set ?obs. target_cleared env rules ?bon now ob" using that unfolding r by_key_set by blast
      from derogations_empty [OF this] show ?thesis unfolding by_key_set .
    qed
    show ?thesis unfolding s j ok list_all_iff using d by auto
  next
    case False
    then have n: "\<not> releasable env inp" unfolding releasable_def by blast
    have "dr_state (snd (evaluate_delivery_quality_release env inp)) = DRS_UNKNOWN"
    proof (cases "\<exists>policy. di_policy_candidates inp = [policy]")
      case True
      then obtain policy where "di_policy_candidates inp = [policy]" by blast
      with False show ?thesis
        by (auto simp: evaluate_delivery_quality_release_def Let_def unk split: option.splits)
    next
      case no: False
      then show ?thesis
        by (auto simp: evaluate_delivery_quality_release_def Let_def unk split: list.splits)
    qed
    with n show ?thesis by simp
  qed
qed

text \<open>C21: A delivery is released exactly when the schema answered, one signed policy applies and its rules are
  valid and unaltered, there are targets and a date, every target is eligible for shipping, was
  controlled and decided on where the policy asks for it, has no derogation but a permitted, fully
  documented one that covers this very use, and all required evidence is there. It is released
  without derogation exactly when, besides, no target has one. The order of targets, of documents and
  the collation play no part.\<close>

theorem delivery_released_iff:
  "(dr_state (snd (evaluate_delivery_quality_release env inp)) \<in> {DRS_READY, DRS_DEROGATED} \<longleftrightarrow> releasable env inp)
    \<and> (dr_state (snd (evaluate_delivery_quality_release env inp)) = DRS_READY
        \<longleftrightarrow> releasable env inp \<and> list_all (\<lambda>ob. tg_derogation ob = None) (di_targets inp))"
  by (rule delivery_state)

text \<open>A target of a released delivery, when its quantities are numbers, is in no blocked, waiting or
  quarantined lot, has no open non-conformity and no pending control, and its quantity stays within
  what was released for it and not yet consumed, up to the tolerance.\<close>

theorem released_quantities:
  assumes "dr_state (snd (evaluate_delivery_quality_release env inp)) \<in> {DRS_READY, DRS_DEROGATED}"
    and "ob \<in> set (di_targets inp)"
    and "et_qty_requested (tg_target ob) = Fin q" "et_qty_released (tg_target ob) = Fin r" "et_qty_consumed (tg_target ob) = Fin u"
  shows "et_lot_status (tg_target ob) \<in> {None, Some LOT_LIBERE} \<and> \<not> num_lt (num 0) (et_pending_mandatory_controls (tg_target ob))
    \<and> \<not> num_lt (num 0) (et_open_nc_without_disposition (tg_target ob)) \<and> max 0 q \<le> max 0 (r - u) + EPS"
proof -
  have "releasable env inp" using assms(1) delivery_state by blast
  then obtain rules now where "target_cleared env rules (di_bon_livraison_id inp) now ob"
    using assms(2) unfolding releasable_def by blast
  then have "ev_allowed (evaluate_quality_eligibility (qe_parse_date env) (tg_target ob) SHIP now)"
    by (simp add: target_cleared_def)
  then have "is_ok (assert_quality_eligibility (qe_parse_date env) (tg_target ob) SHIP now)"
    by (simp add: assert_quality_eligibility_def)
  then show ?thesis unfolding eligible_iff [OF assms(3-5)] by blast
qed

section \<open>A delivery that is released\<close>

definition sample_gate :: gate_env where
  "sample_gate = \<lparr>qe_parse_date = (\<lambda>_. Some 0), qe_collation = id, qe_sha = (\<lambda>_. ''ab''), qe_preview_sha = (\<lambda>_ _. ''p'')\<rparr>"

definition sample_policy :: delivery_policy where
  "sample_policy = \<lparr>dp_id = ''p'', dp_code = ''POL'', dp_version = 1, dp_rules_sha256 = ''AB'', dp_signature_reference = ''S'',
     dp_signed_at = ''2026'', dp_rules = JObj [(''schema'', JStr ''cerp.quality.delivery-release-policy.v2''),
       (''engine'', JStr ''CERP_QUALITY_ELIGIBILITY_V1''), (''aggregate_scope'', JStr ''ALL_DELIVERY_ALLOCATIONS''),
       (''derogation_mode'', JStr ''FORBIDDEN''), (''required_control_triggers'', JArr [JStr ''LOT_RELEASE'']),
       (''require_independent_decider'', JBool True), (''required_documents'', JArr [])]\<rparr>"

definition sample_target :: target_observation where
  "sample_target = \<lparr>tg_key = ''k'', tg_target = \<lparr>et_object_type = ''LOT'', et_object_id = ''l'', et_label = None,
       et_qty_requested = num 4, et_lot_status = Some LOT_LIBERE, et_qty_released = num 10, et_qty_held = num 0,
       et_qty_consumed = num 5, et_open_nc_without_disposition = num 0, et_pending_mandatory_controls = num 0, et_derogation = None\<rparr>,
     tg_allocation_id = ''a'', tg_delivery_line_id = ''b'', tg_article_id = None, tg_lot_id = Some ''l'', tg_unite = None,
     tg_plan = Some (''pl'', ''PC'', 1), tg_control_count = 1, tg_latest_decision = Some (''d'', FULL, num 10), tg_derogation = None\<rparr>"

definition sample_delivery :: delivery_input where
  "sample_delivery = \<lparr>di_bon_livraison_id = ''bl'', di_evaluated_at = ''now'', di_policy_candidates = [sample_policy],
     di_targets = [sample_target], di_evidence = [], di_unavailable_reason = None\<rparr>"

lemma sample_releasable: "releasable sample_gate sample_delivery"
proof -
  have r: "parse_delivery_quality_policy_rules (dp_rules sample_policy) = Some \<lparr>ru_version_2 = True, ru_derogation_mode = DM_FORBIDDEN,
      ru_lot_release_required = True, ru_require_independent_decider = True, ru_required_documents = []\<rparr>"
    unfolding sample_policy_def by code_simp
  have h: "js_lower ''AB'' = ''ab''" "js_trim ''S'' = ''S''" by code_simp+
  have e: "target_cleared sample_gate rules ''bl'' 0 sample_target" for rules
    by (simp add: target_cleared_def sample_target_def evaluate_quality_eligibility_def eligibility_codes_def Let_def
      available_released_def requested_qty_def plus_eps_def) (simp add: EPS_def)
  show ?thesis
    using r e by (auto simp: releasable_def sample_delivery_def sample_gate_def sample_policy_def h)
qed

theorem delivery_released_iff_witness:
  "dr_state (snd (evaluate_delivery_quality_release sample_gate sample_delivery)) = DRS_READY"
  using delivery_released_iff [of sample_gate sample_delivery] sample_releasable by (simp add: sample_delivery_def sample_target_def)

theorem released_quantities_witness:
  "dr_state (snd (evaluate_delivery_quality_release sample_gate sample_delivery)) \<in> {DRS_READY, DRS_DEROGATED}
    \<and> max 0 4 \<le> max 0 (10 - 5 :: rat) + EPS"
proof -
  have s: "dr_state (snd (evaluate_delivery_quality_release sample_gate sample_delivery)) \<in> {DRS_READY, DRS_DEROGATED}"
    using delivery_state [of sample_gate sample_delivery] sample_releasable by blast
  from released_quantities [OF s, of sample_target 4 10 5] show ?thesis
    using s by (simp add: sample_delivery_def sample_target_def)
qed

end
