(* ===== verification/Presence.thy ===== *)
theory Presence
  imports Realtime_Rooms "HOL-Library.List_Lexorder" "HOL-Library.Char_ord"
begin

text \<open>
  \<open>src/shared/realtime/chat-presence.registry.ts\<close>: who is online. The registry in PostgreSQL keeps one row
  for each connection of a process, the one in memory a set of connections for each user. A method
  of the first is one transaction, serialised for each user by an advisory lock; the readings of
  the clock are arguments.
\<close>

section \<open>The registry in PostgreSQL\<close>

record presence_row =
  ps_node :: string
  ps_connection :: string
  ps_user :: nat
  ps_expires_at :: int

type_synonym presence_delta = "nat \<times> bool"

text \<open>The number read from the environment, when there is one.\<close>

definition ttl_seconds :: "int option \<Rightarrow> int" where
  "ttl_seconds v = (case v of Some n \<Rightarrow> if 10 \<le> n \<and> n \<le> 3600 then n else 45 | None \<Rightarrow> 45)"

definition expired_of :: "int \<Rightarrow> nat \<Rightarrow> presence_row \<Rightarrow> bool" where
  "expired_of now u r \<longleftrightarrow> ps_expires_at r \<le> now \<and> ps_user r = u"

definition drop_expired :: "int \<Rightarrow> nat \<Rightarrow> presence_row list \<Rightarrow> presence_row list" where
  "drop_expired now u rows = filter (\<lambda>r. \<not> expired_of now u r) rows"

definition count_of :: "nat \<Rightarrow> presence_row list \<Rightarrow> nat" where
  "count_of u rows = length (filter (\<lambda>r. ps_user r = u) rows)"

definition at_connection :: "string \<Rightarrow> string \<Rightarrow> presence_row \<Rightarrow> bool" where
  "at_connection node conn r \<longleftrightarrow> ps_node r = node \<and> ps_connection r = conn"

definition upsert_presence :: "string \<Rightarrow> string \<Rightarrow> nat \<Rightarrow> int \<Rightarrow> presence_row list \<Rightarrow> presence_row list" where
  "upsert_presence node conn u expires rows =
     (if list_ex (at_connection node conn) rows
      then map (\<lambda>r. if at_connection node conn r then r\<lparr>ps_user := u, ps_expires_at := expires\<rparr> else r) rows
      else rows @ [\<lparr>ps_node = node, ps_connection = conn, ps_user = u, ps_expires_at = expires\<rparr>])"

text \<open>The clock is read when the expired rows are deleted and when the row is written.\<close>

definition connect_presence ::
  "int option \<Rightarrow> string \<Rightarrow> int \<Rightarrow> int \<Rightarrow> nat \<Rightarrow> string \<Rightarrow> presence_row list \<Rightarrow> presence_delta option \<times> presence_row list" where
  "connect_presence ttl node deleted_at written_at u conn rows =
     (let kept = drop_expired deleted_at u rows;
          online = (count_of u kept = 0)
      in (if online then Some (u, True) else None,
          upsert_presence node conn u (written_at + ttl_seconds ttl) kept))"

definition heartbeat_presence ::
  "int option \<Rightarrow> string \<Rightarrow> int \<Rightarrow> int \<Rightarrow> nat \<Rightarrow> string \<Rightarrow> presence_row list \<Rightarrow> presence_delta option \<times> presence_row list" where
  "heartbeat_presence ttl node deleted_at written_at u conn rows =
     (let kept = drop_expired deleted_at u rows;
          recovered_online = (count_of u kept = 0)
      in (if recovered_online then Some (u, True) else None,
          upsert_presence node conn u (written_at + ttl_seconds ttl) kept))"

definition disconnect_presence ::
  "string \<Rightarrow> int \<Rightarrow> nat \<Rightarrow> string \<Rightarrow> presence_row list \<Rightarrow> presence_delta option \<times> presence_row list" where
  "disconnect_presence node now u conn rows =
     (let mine = (\<lambda>r. at_connection node conn r \<and> ps_user r = u)
      in if \<not> list_ex mine rows then (None, rows)
         else (let kept = drop_expired now u (filter (\<lambda>r. \<not> mine r) rows)
               in (if count_of u kept = 0 then Some (u, False) else None, kept)))"

definition expired_users :: "int \<Rightarrow> presence_row list \<Rightarrow> nat list" where
  "expired_users now rows =
     sort (filter (\<lambda>u. 0 < u \<and> u \<le> MAX_SAFE_INTEGER) (set_of_list (map ps_user (filter (\<lambda>r. ps_expires_at r \<le> now) rows))))"

fun sweep_users :: "(nat \<Rightarrow> int) \<Rightarrow> nat list \<Rightarrow> presence_row list \<Rightarrow> presence_delta list \<times> presence_row list" where
  "sweep_users clock [] rows = ([], rows)"
| "sweep_users clock (u # us) rows =
     (if \<not> list_ex (expired_of (clock u) u) rows then sweep_users clock us rows
      else (let kept = drop_expired (clock u) u rows;
                (ds, rows') = sweep_users clock us kept
            in (if count_of u kept = 0 then (u, False) # ds else ds, rows')))"

text \<open>\<open>clock u\<close> is the time at which the rows of the user \<open>u\<close> are deleted.\<close>

definition sweep_expired :: "int \<Rightarrow> (nat \<Rightarrow> int) \<Rightarrow> presence_row list \<Rightarrow> presence_delta list \<times> presence_row list" where
  "sweep_expired selected_at clock rows = sweep_users clock (expired_users selected_at rows) rows"

text \<open>\<open>ORDER BY user_id\<close> sorts the text of the identifiers.\<close>

definition presence_snapshot :: "int \<Rightarrow> presence_row list \<Rightarrow> nat list" where
  "presence_snapshot now rows = filter (\<lambda>u. 0 < u \<and> u \<le> MAX_SAFE_INTEGER)
     (sort_key show_nat (set_of_list (map ps_user (filter (\<lambda>r. now < ps_expires_at r) rows))))"

section \<open>The registry in memory\<close>

type_synonym memory_presence = "(nat \<times> string list) list"

definition memory_connect :: "nat \<Rightarrow> string \<Rightarrow> memory_presence \<Rightarrow> presence_delta option \<times> memory_presence" where
  "memory_connect u conn m =
     (let old = (case map_of m u of None \<Rightarrow> [] | Some s \<Rightarrow> s)
      in (if old = [] then Some (u, True) else None, AList.update u (set_add conn old) m))"

definition memory_disconnect :: "nat \<Rightarrow> string \<Rightarrow> memory_presence \<Rightarrow> presence_delta option \<times> memory_presence" where
  "memory_disconnect u conn m =
     (case map_of m u of
        None \<Rightarrow> (None, m)
      | Some old \<Rightarrow>
          (let s = removeAll conn old
           in if s \<noteq> [] then (None, AList.update u s m) else (Some (u, False), AList.delete u m)))"

definition memory_snapshot :: "memory_presence \<Rightarrow> nat list" where
  "memory_snapshot m = sort (map fst m)"

section \<open>What a reader knows\<close>

text \<open>A reader who applies the announcements one after the other; who goes offline must be known to be online.\<close>

fun replay :: "presence_delta list \<Rightarrow> nat set \<Rightarrow> nat set option" where
  "replay [] A = Some A"
| "replay ((u, b) # ds) A = (if \<not> b \<and> u \<notin> A then None else replay ds (if b then insert u A else A - {u}))"

lemma replay_append: "replay ds A = Some B \<Longrightarrow> replay (ds @ es) A = replay es B"
  by (induction ds A rule: replay.induct) (auto split: if_splits)

fun run_actions :: "('o \<Rightarrow> 's \<Rightarrow> presence_delta list \<times> 's) \<Rightarrow> 'o list \<Rightarrow> 's \<Rightarrow> presence_delta list \<times> 's" where
  "run_actions act [] s = ([], s)"
| "run_actions act (a # as) s = (let (ds, s1) = act a s; (es, s2) = run_actions act as s1 in (ds @ es, s2))"

locale presence_registry =
  fixes ok :: "'s \<Rightarrow> bool" and online :: "'s \<Rightarrow> nat set" and allowed :: "'o \<Rightarrow> bool"
    and act :: "'o \<Rightarrow> 's \<Rightarrow> presence_delta list \<times> 's"
  assumes exact: "ok s \<Longrightarrow> allowed a \<Longrightarrow> act a s = (ds, s') \<Longrightarrow> ok s' \<and> replay ds (online s) = Some (online s')"
begin

lemma run_exact:
  "ok s \<Longrightarrow> list_all allowed as \<Longrightarrow> run_actions act as s = (ds, s') \<Longrightarrow> ok s' \<and> replay ds (online s) = Some (online s')"
proof (induction as arbitrary: s ds s')
  case (Cons a as)
  obtain es s1 where a: "act a s = (es, s1)" by (rule prod.exhaust)
  obtain fs s2 where r: "run_actions act as s1 = (fs, s2)" by (rule prod.exhaust)
  have "ok s1 \<and> replay es (online s) = Some (online s1)" using exact [OF Cons.prems(1) _ a] Cons.prems(2) by simp
  with Cons.IH [OF _ _ r] Cons.prems a r show ?case by (auto simp: replay_append)
qed simp

end

definition to_list :: "presence_delta option \<times> 's \<Rightarrow> presence_delta list \<times> 's" where
  "to_list p = (case fst p of None \<Rightarrow> [] | Some d \<Rightarrow> [d], snd p)"

datatype presence_action = PConnect int int nat string string | PHeartbeat int int nat string string
  | PDisconnect int nat string string | PSweep int "nat \<Rightarrow> int"

fun presence_step :: "int option \<Rightarrow> presence_action \<Rightarrow> presence_row list \<Rightarrow> presence_delta list \<times> presence_row list" where
  "presence_step ttl (PConnect t t' u node conn) rows = to_list (connect_presence ttl node t t' u conn rows)"
| "presence_step ttl (PHeartbeat t t' u node conn) rows = to_list (heartbeat_presence ttl node t t' u conn rows)"
| "presence_step ttl (PDisconnect t u node conn) rows = to_list (disconnect_presence node t u conn rows)"
| "presence_step ttl (PSweep t clock) rows = sweep_expired t clock rows"

text \<open>A connection belongs to one user for its whole life.\<close>

fun owned :: "(string \<Rightarrow> string \<Rightarrow> nat) \<Rightarrow> presence_action \<Rightarrow> bool" where
  "owned owner (PConnect t t' u node conn) \<longleftrightarrow> owner node conn = u"
| "owned owner (PHeartbeat t t' u node conn) \<longleftrightarrow> owner node conn = u"
| "owned owner (PDisconnect t u node conn) \<longleftrightarrow> owner node conn = u"
| "owned owner (PSweep t clock) \<longleftrightarrow> True"

definition rows_owned :: "(string \<Rightarrow> string \<Rightarrow> nat) \<Rightarrow> presence_row list \<Rightarrow> bool" where
  "rows_owned owner rows \<longleftrightarrow> (\<forall>r \<in> set rows. owner (ps_node r) (ps_connection r) = ps_user r)"

definition users_of :: "presence_row list \<Rightarrow> nat set" where
  "users_of rows = ps_user ` set rows"

lemma count_of_0: "count_of u rows = 0 \<longleftrightarrow> u \<notin> users_of rows"
  by (auto simp: count_of_def users_of_def filter_empty_conv)

lemma users_drop: "users_of (drop_expired now u rows) \<union> {u} = users_of rows \<union> {u}"
  by (auto simp: users_of_def drop_expired_def expired_of_def)

lemma owned_drop: "rows_owned owner rows \<Longrightarrow> rows_owned owner (drop_expired now u rows)"
  by (simp add: rows_owned_def drop_expired_def)

lemma upsert_presence_facts:
  assumes "rows_owned owner rows" "owner node conn = u"
  shows "rows_owned owner (upsert_presence node conn u e rows)" "users_of (upsert_presence node conn u e rows) = insert u (users_of rows)"
proof -
  have m: "(if at_connection node conn r then r\<lparr>ps_user := u, ps_expires_at := e\<rparr> else r) = r\<lparr>ps_expires_at := if at_connection node conn r then e else ps_expires_at r\<rparr>"
    if "r \<in> set rows" for r
    using assms that by (cases r) (auto simp: rows_owned_def at_connection_def)
  show "rows_owned owner (upsert_presence node conn u e rows)"
    using assms by (auto simp: rows_owned_def upsert_presence_def at_connection_def list_ex_iff)
  show "users_of (upsert_presence node conn u e rows) = insert u (users_of rows)"
  proof (cases "list_ex (at_connection node conn) rows")
    case True
    then have "upsert_presence node conn u e rows = map (\<lambda>r. r\<lparr>ps_expires_at := if at_connection node conn r then e else ps_expires_at r\<rparr>) rows"
      using m by (simp add: upsert_presence_def)
    moreover obtain r where "r \<in> set rows" "at_connection node conn r" using True by (auto simp: list_ex_iff)
    then have "u \<in> users_of rows" using assms by (auto simp: rows_owned_def at_connection_def users_of_def)
    ultimately show ?thesis by (auto simp: users_of_def image_image)
  qed (auto simp: upsert_presence_def users_of_def)
qed

lemma connect_exact:
  assumes "rows_owned owner rows" "owner node conn = u"
  shows "rows_owned owner (snd (connect_presence ttl node t t' u conn rows))"
    "replay (fst (to_list (connect_presence ttl node t t' u conn rows))) (users_of rows)
      = Some (users_of (snd (connect_presence ttl node t t' u conn rows)))"
proof -
  let ?kept = "drop_expired t u rows"
  note f = upsert_presence_facts [OF owned_drop [OF assms(1), where now = t and u = u] assms(2), where e = "t' + ttl_seconds ttl"]
  show "rows_owned owner (snd (connect_presence ttl node t t' u conn rows))"
    using f(1) by (simp add: connect_presence_def Let_def)
  have "users_of (snd (connect_presence ttl node t t' u conn rows)) = insert u (users_of rows)"
    using f(2) users_drop [of t u rows] by (auto simp: connect_presence_def Let_def)
  moreover have "u \<in> users_of ?kept \<Longrightarrow> u \<in> users_of rows" by (auto simp: users_of_def drop_expired_def)
  ultimately show "replay (fst (to_list (connect_presence ttl node t t' u conn rows))) (users_of rows)
      = Some (users_of (snd (connect_presence ttl node t t' u conn rows)))"
    by (auto simp: connect_presence_def to_list_def Let_def count_of_0)
qed

lemma disconnect_exact:
  assumes "rows_owned owner rows"
  shows "rows_owned owner (snd (disconnect_presence node t u conn rows))"
    "replay (fst (to_list (disconnect_presence node t u conn rows))) (users_of rows)
      = Some (users_of (snd (disconnect_presence node t u conn rows)))"
proof -
  define mine where "mine = (\<lambda>r. at_connection node conn r \<and> ps_user r = u)"
  define kept where "kept = drop_expired t u (filter (\<lambda>r. \<not> mine r) rows)"
  have d: "disconnect_presence node t u conn rows = (if \<not> list_ex mine rows then (None, rows)
      else (if u \<notin> users_of kept then Some (u, False) else None, kept))"
    by (simp add: disconnect_presence_def Let_def mine_def kept_def count_of_0)
  show "rows_owned owner (snd (disconnect_presence node t u conn rows))"
    using assms by (simp add: d kept_def rows_owned_def drop_expired_def)
  have k: "users_of kept \<union> {u} = users_of rows \<union> {u}"
    by (auto simp: kept_def users_of_def drop_expired_def expired_of_def mine_def)
  moreover have "u \<in> users_of rows" if "list_ex mine rows" using that by (auto simp: list_ex_iff mine_def users_of_def)
  ultimately show "replay (fst (to_list (disconnect_presence node t u conn rows))) (users_of rows)
      = Some (users_of (snd (disconnect_presence node t u conn rows)))"
    by (auto simp: d to_list_def)
qed

lemma sweep_users_exact:
  "rows_owned owner rows \<Longrightarrow> rows_owned owner (snd (sweep_users clock us rows))
    \<and> replay (fst (sweep_users clock us rows)) (users_of rows) = Some (users_of (snd (sweep_users clock us rows)))"
proof (induction clock us rows rule: sweep_users.induct)
  case (2 clock u us rows)
  let ?kept = "drop_expired (clock u) u rows"
  obtain ds rows' where r: "sweep_users clock us ?kept = (ds, rows')" by (rule prod.exhaust)
  show ?case
  proof (cases "list_ex (expired_of (clock u) u) rows")
    case True
    then have "u \<in> users_of rows" by (auto simp: list_ex_iff expired_of_def users_of_def)
    then have "users_of ?kept = (if u \<in> users_of ?kept then users_of rows else users_of rows - {u})"
      using users_drop [of "clock u" u rows] by auto
    then show ?thesis
      using 2(2) [OF _ refl] True 2(3) r owned_drop [OF 2(3)] \<open>u \<in> users_of rows\<close> by (auto simp: count_of_0 Let_def split: if_splits)
  qed (use 2 in simp)
qed simp

lemma to_list_parts: "to_list p = (ds, s) \<Longrightarrow> ds = fst (to_list p) \<and> s = snd p"
  by (auto simp: to_list_def)

lemma heartbeat_is_connect: "heartbeat_presence = connect_presence"
  by (intro ext) (simp add: heartbeat_presence_def connect_presence_def)

interpretation postgres_presence: presence_registry "rows_owned owner" users_of "owned owner" "presence_step ttl"
  for owner :: "string \<Rightarrow> string \<Rightarrow> nat" and ttl
proof
  fix rows a ds rows'
  assume o: "rows_owned owner rows" "owned owner a" and s: "presence_step ttl a rows = (ds, rows')"
  show "rows_owned owner rows' \<and> replay ds (users_of rows) = Some (users_of rows')"
  proof (cases a)
    case (PConnect t t' u node conn)
    with o s connect_exact [of owner rows node conn u ttl t t'] to_list_parts show ?thesis by fastforce
  next
    case (PHeartbeat t t' u node conn)
    with o s connect_exact [of owner rows node conn u ttl t t'] to_list_parts show ?thesis by (fastforce simp: heartbeat_is_connect)
  next
    case (PDisconnect t u node conn)
    with o s disconnect_exact [of owner rows node t u conn] to_list_parts show ?thesis by fastforce
  next
    case (PSweep t clock)
    with s have "sweep_users clock (expired_users t rows) rows = (ds, rows')" by (simp add: sweep_expired_def)
    with sweep_users_exact [OF o(1), of clock "expired_users t rows"] show ?thesis by simp
  qed
qed

section \<open>The registry in memory\<close>

datatype memory_action = MConnect nat string | MDisconnect nat string

fun memory_step :: "memory_action \<Rightarrow> memory_presence \<Rightarrow> presence_delta list \<times> memory_presence" where
  "memory_step (MConnect u conn) m = to_list (memory_connect u conn m)"
| "memory_step (MDisconnect u conn) m = to_list (memory_disconnect u conn m)"

definition memory_ok :: "memory_presence \<Rightarrow> bool" where
  "memory_ok m \<longleftrightarrow> distinct (map fst m) \<and> list_all (\<lambda>(u, s). s \<noteq> []) m"

definition known_users :: "memory_presence \<Rightarrow> nat set" where
  "known_users m = fst ` set m"

lemma update_elem: "x \<in> set (AList.update k v m) \<Longrightarrow> x = (k, v) \<or> x \<in> set m"
  by (induction m) (auto split: if_splits)

lemma memory_known: "memory_ok m \<Longrightarrow> map_of m u = Some s \<Longrightarrow> s \<noteq> [] \<and> u \<in> known_users m"
  by (force simp: memory_ok_def known_users_def list_all_iff dest: map_of_SomeD)

interpretation memory_registry: presence_registry memory_ok known_users "\<lambda>_. True" memory_step
proof
  fix m a ds m'
  assume m: "memory_ok m" and s: "memory_step a m = (ds, m')"
  have set_add: "set_add c xs \<noteq> []" for c :: string and xs by (metis insert_not_empty set_empty set_set_add)
  have upd: "memory_ok (AList.update u xs m)" if "xs \<noteq> []" for u xs
    using m that by (auto simp: memory_ok_def list_all_iff distinct_update dest!: update_elem)
  show "memory_ok m' \<and> replay ds (known_users m) = Some (known_users m')"
  proof (cases a)
    case (MConnect u conn)
    have k: "known_users (AList.update u xs m) = insert u (known_users m)" for xs by (simp add: known_users_def dom_map_of_conv_image_fst [symmetric] update_conv')
    show ?thesis
    proof (cases "map_of m u")
      case None
      then show ?thesis using s upd [OF set_add] k by (auto simp: MConnect memory_connect_def to_list_def Let_def)
    next
      case (Some xs)
      then show ?thesis using s upd [OF set_add] k insert_absorb [OF conjunct2 [OF memory_known [OF m Some]]] memory_known [OF m Some]
        by (auto simp: MConnect memory_connect_def to_list_def Let_def)
    qed
  next
    case (MDisconnect u conn)
    show ?thesis
    proof (cases "map_of m u")
      case None
      then show ?thesis using s m by (simp add: MDisconnect memory_disconnect_def to_list_def)
    next
      case (Some xs)
      note n = memory_known [OF m Some]
      have k: "known_users (AList.update u ys m) = known_users m" for ys
        using n by (auto simp: known_users_def dom_map_of_conv_image_fst [symmetric] update_conv')
      have d: "memory_ok (AList.delete u m)" "known_users (AList.delete u m) = known_users m - {u}"
        using m by (auto simp: memory_ok_def known_users_def list_all_iff AList.delete_eq intro!: distinct_map_filter)
      show ?thesis
        using s upd k d n by (cases "removeAll conn xs = []") (auto simp: MDisconnect memory_disconnect_def to_list_def Let_def Some)
    qed
  qed
qed

section \<open>Who is online\<close>

lemma sweep_users_clears:
  "r \<in> set (snd (sweep_users clock us rows)) \<Longrightarrow> r \<in> set rows \<and> (ps_user r \<in> set us \<longrightarrow> clock (ps_user r) < ps_expires_at r)"
proof (induction clock us rows rule: sweep_users.induct)
  case (2 clock u us rows)
  show ?case
  proof (cases "list_ex (expired_of (clock u) u) rows")
    case True
    obtain ds rows' where s: "sweep_users clock us (drop_expired (clock u) u rows) = (ds, rows')" by (rule prod.exhaust)
    then have "r \<in> set (drop_expired (clock u) u rows) \<and> (ps_user r \<in> set us \<longrightarrow> clock (ps_user r) < ps_expires_at r)"
      using 2(2) [OF _ refl] 2(3) True by (simp add: Let_def)
    then show ?thesis by (auto simp: drop_expired_def expired_of_def)
  next
    case False
    with 2(1) 2(3) have "r \<in> set rows \<and> (ps_user r \<in> set us \<longrightarrow> clock (ps_user r) < ps_expires_at r)" by simp
    with False show ?thesis by (auto simp: list_ex_iff expired_of_def)
  qed
qed simp

text \<open>C22: Whoever applies the announcements in their order, from nobody online, never hears that someone
  leaves who was not there, and knows exactly the users with a connection in the table, whatever the
  order of connections, heartbeats, disconnections and sweeps. Right after a sweep the announced
  users are those of a snapshot. A connection is taken to belong to one user, with a valid number.\<close>

theorem presence_announced:
  assumes o: "list_all (owned owner) as" and n: "\<And>node conn. 0 < owner node conn \<and> owner node conn \<le> MAX_SAFE_INTEGER"
    and c: "\<And>u. t \<le> clock u" and r: "run_actions (presence_step ttl) (as @ [PSweep t clock]) [] = (ds, rows)"
  shows "replay ds {} = Some (users_of rows) \<and> set (presence_snapshot t rows) = users_of rows"
proof -
  have a: "rows_owned owner rows \<and> replay ds (users_of []) = Some (users_of rows)"
    using o by (intro postgres_presence.run_exact [OF _ _ r]) (simp_all add: rows_owned_def)
  obtain es mid where m: "run_actions (presence_step ttl) as [] = (es, mid)" by (rule prod.exhaust)
  have app: "run_actions act (as @ [b]) s = (let (ds, s1) = run_actions act as s; (es, s2) = act b s1 in (ds @ es, s2))" for act b s and as :: "presence_action list"
    by (induction as arbitrary: s) (auto simp: Let_def split: prod.splits)
  have rows: "rows = snd (sweep_users clock (expired_users t mid) mid)"
    using r unfolding app m by (auto simp: sweep_expired_def split: prod.splits)
  have mid: "rows_owned owner mid"
    using o postgres_presence.run_exact [OF _ _ m, of owner] by (simp add: rows_owned_def)
  have live: "t < ps_expires_at x" if x: "x \<in> set rows" for x
  proof -
    note y = sweep_users_clears [OF x [unfolded rows]]
    have "0 < ps_user x \<and> ps_user x \<le> MAX_SAFE_INTEGER" using mid y n unfolding rows_owned_def by metis
    then have "ps_user x \<in> set (expired_users t mid)" if "ps_expires_at x \<le> t"
      using y that by (auto simp: expired_users_def)
    then show ?thesis using y c [of "ps_user x"] by force
  qed
  have "0 < u \<and> u \<le> MAX_SAFE_INTEGER" if "u \<in> users_of rows" for u
    using a n that unfolding rows_owned_def users_of_def by (metis imageE)
  then have "set (presence_snapshot t rows) = users_of rows"
    using live by (auto simp: presence_snapshot_def users_of_def)
  with a show ?thesis by (simp add: users_of_def)
qed

theorem presence_announced_witness:
  "run_actions (presence_step None) ([PConnect 0 0 7 ''n'' ''a'', PConnect 40 41 8 ''n'' ''b'', PDisconnect 42 7 ''n'' ''z''] @ [PSweep 50 (\<lambda>_. 50)]) []
      = ([(7, True), (8, True), (7, False)], [\<lparr>ps_node = ''n'', ps_connection = ''b'', ps_user = 8, ps_expires_at = 86\<rparr>])
    \<and> replay [(7, True), (8, True), (7, False)] {} = Some {8}
    \<and> set (presence_snapshot 50 [\<lparr>ps_node = ''n'', ps_connection = ''b'', ps_user = 8, ps_expires_at = 86\<rparr>]) = {8}"
proof -
  have r: "run_actions (presence_step None) ([PConnect 0 0 7 ''n'' ''a'', PConnect 40 41 8 ''n'' ''b'', PDisconnect 42 7 ''n'' ''z''] @ [PSweep 50 (\<lambda>_. 50)]) []
      = ([(7, True), (8, True), (7, False)], [\<lparr>ps_node = ''n'', ps_connection = ''b'', ps_user = 8, ps_expires_at = 86\<rparr>])"
    by (simp add: connect_presence_def disconnect_presence_def sweep_expired_def to_list_def Let_def drop_expired_def expired_of_def
      count_of_def upsert_presence_def at_connection_def ttl_seconds_def expired_users_def set_of_list_def set_add_def MAX_SAFE_INTEGER_def)
  show ?thesis
    using r presence_announced [OF _ _ _ r, of "\<lambda>_ c. if c = ''b'' then 8 else 7"]
    by (simp add: users_of_def MAX_SAFE_INTEGER_def)
qed

end
