(* ===== verification/Order_Workflow.thy ===== *)
theory Order_Workflow
  imports Interfaces
begin

text \<open>
  \<open>src/module/commande-client/workflow/commande-client-workflow.definition.ts\<close>: the statuses of a customer
  order, the rules by which one follows another, and how the repository moves an order
  (\<open>repoEnsureCommandeWorkflowStatus\<close>, blocking and resuming a checkpoint). Labels are left out.
\<close>

section \<open>Statuses and rules\<close>

datatype commande_status = WF_BROUILLON | WF_EN_ANALYSE | WF_ATTENTE_TECHNIQUE | WF_ATTENTE_STOCK | WF_ATTENTE_OF
  | WF_ATTENTE_PLANNING | WF_PLANNING_VALIDE | WF_AR_PRET | WF_AR_ENVOYE | WF_EN_PRODUCTION | WF_PRODUCTION_TERMINEE
  | WF_CONTROLE_QUALITE | WF_PRET_LIVRAISON | WF_LIVRE | WF_FACTURE | WF_ARCHIVE | WF_BLOQUE | WF_ANNULE

definition COMMANDE_WORKFLOW_STATUSES :: "commande_status list" where
  "COMMANDE_WORKFLOW_STATUSES = [WF_BROUILLON, WF_EN_ANALYSE, WF_ATTENTE_TECHNIQUE, WF_ATTENTE_STOCK, WF_ATTENTE_OF,
     WF_ATTENTE_PLANNING, WF_PLANNING_VALIDE, WF_AR_PRET, WF_AR_ENVOYE, WF_EN_PRODUCTION, WF_PRODUCTION_TERMINEE,
     WF_CONTROLE_QUALITE, WF_PRET_LIVRAISON, WF_LIVRE, WF_FACTURE, WF_ARCHIVE, WF_BLOQUE, WF_ANNULE]"

fun status_order :: "commande_status \<Rightarrow> nat" where
  "status_order WF_BROUILLON = 0" | "status_order WF_EN_ANALYSE = 1" | "status_order WF_ATTENTE_TECHNIQUE = 2"
| "status_order WF_ATTENTE_STOCK = 3" | "status_order WF_ATTENTE_OF = 4" | "status_order WF_ATTENTE_PLANNING = 5"
| "status_order WF_PLANNING_VALIDE = 6" | "status_order WF_AR_PRET = 7" | "status_order WF_AR_ENVOYE = 8"
| "status_order WF_EN_PRODUCTION = 9" | "status_order WF_PRODUCTION_TERMINEE = 10" | "status_order WF_CONTROLE_QUALITE = 11"
| "status_order WF_PRET_LIVRAISON = 12" | "status_order WF_LIVRE = 13" | "status_order WF_FACTURE = 14"
| "status_order WF_ARCHIVE = 15" | "status_order WF_BLOQUE = 99" | "status_order WF_ANNULE = 100"

fun status_name :: "commande_status \<Rightarrow> string" where
  "status_name WF_BROUILLON = ''BROUILLON''" | "status_name WF_EN_ANALYSE = ''EN_ANALYSE''"
| "status_name WF_ATTENTE_TECHNIQUE = ''ATTENTE_TECHNIQUE''" | "status_name WF_ATTENTE_STOCK = ''ATTENTE_STOCK''"
| "status_name WF_ATTENTE_OF = ''ATTENTE_OF''" | "status_name WF_ATTENTE_PLANNING = ''ATTENTE_PLANNING''"
| "status_name WF_PLANNING_VALIDE = ''PLANNING_VALIDE''" | "status_name WF_AR_PRET = ''AR_PRET''"
| "status_name WF_AR_ENVOYE = ''AR_ENVOYE''" | "status_name WF_EN_PRODUCTION = ''EN_PRODUCTION''"
| "status_name WF_PRODUCTION_TERMINEE = ''PRODUCTION_TERMINEE''" | "status_name WF_CONTROLE_QUALITE = ''CONTROLE_QUALITE''"
| "status_name WF_PRET_LIVRAISON = ''PRET_LIVRAISON''" | "status_name WF_LIVRE = ''LIVRE''"
| "status_name WF_FACTURE = ''FACTURE''" | "status_name WF_ARCHIVE = ''ARCHIVE''" | "status_name WF_BLOQUE = ''BLOQUE''"
| "status_name WF_ANNULE = ''ANNULE''"

definition LEGACY_STATUS_ALIASES :: "(string \<times> commande_status) list" where
  "LEGACY_STATUS_ALIASES = [(''ENREGISTREE'', WF_EN_ANALYSE), (''PLANIFIEE'', WF_PLANNING_VALIDE),
     (''AR_ENVOYEE'', WF_AR_ENVOYE), (''LIVREE'', WF_LIVRE)]"

datatype transition_cause = By_checkpoint | By_customer_order_launch | By_internal_order_launch
  | By_internal_planning_validation | By_internal_production_launch | By_internal_archive | By_planning_sync | By_ar_send
  | By_shipment_sync | By_invoice_sync | By_block | By_resume | By_cancel

type_synonym transition_rule = "commande_status \<times> commande_status \<times> transition_cause"

definition CHECKPOINT_TRANSITIONS :: "transition_rule list" where
  "CHECKPOINT_TRANSITIONS = map (\<lambda>(f, t). (f, t, By_checkpoint))
     [(WF_BROUILLON, WF_EN_ANALYSE), (WF_EN_ANALYSE, WF_ATTENTE_TECHNIQUE), (WF_ATTENTE_TECHNIQUE, WF_ATTENTE_STOCK),
      (WF_ATTENTE_STOCK, WF_ATTENTE_OF), (WF_ATTENTE_PLANNING, WF_PLANNING_VALIDE), (WF_PLANNING_VALIDE, WF_AR_PRET),
      (WF_AR_ENVOYE, WF_EN_PRODUCTION), (WF_EN_PRODUCTION, WF_PRODUCTION_TERMINEE), (WF_PRODUCTION_TERMINEE, WF_PRET_LIVRAISON),
      (WF_CONTROLE_QUALITE, WF_PRET_LIVRAISON), (WF_PRET_LIVRAISON, WF_LIVRE), (WF_LIVRE, WF_FACTURE), (WF_FACTURE, WF_ARCHIVE)]"

definition cancellable :: "commande_status \<Rightarrow> bool" where
  "cancellable s \<longleftrightarrow> s \<notin> set [WF_LIVRE, WF_FACTURE, WF_ARCHIVE, WF_ANNULE]"

definition CANCELLATION_TRANSITIONS :: "transition_rule list" where
  "CANCELLATION_TRANSITIONS = map (\<lambda>f. (f, WF_ANNULE, By_cancel)) (filter cancellable COMMANDE_WORKFLOW_STATUSES)"

definition BLOCKABLE_STATUSES :: "commande_status list" where
  "BLOCKABLE_STATUSES = filter (\<lambda>s. s \<noteq> WF_ARCHIVE \<and> s \<noteq> WF_BLOQUE \<and> s \<noteq> WF_ANNULE) COMMANDE_WORKFLOW_STATUSES"

definition COMMANDE_WORKFLOW_TRANSITIONS :: "transition_rule list" where
  "COMMANDE_WORKFLOW_TRANSITIONS = CHECKPOINT_TRANSITIONS @ CANCELLATION_TRANSITIONS @
     [(WF_ATTENTE_OF, WF_ATTENTE_PLANNING, By_customer_order_launch), (WF_ATTENTE_OF, WF_PRET_LIVRAISON, By_customer_order_launch),
      (WF_ATTENTE_PLANNING, WF_PRET_LIVRAISON, By_customer_order_launch),
      (WF_ATTENTE_TECHNIQUE, WF_ATTENTE_PLANNING, By_internal_order_launch),
      (WF_ATTENTE_STOCK, WF_ATTENTE_PLANNING, By_internal_order_launch),
      (WF_ATTENTE_OF, WF_ATTENTE_PLANNING, By_internal_order_launch),
      (WF_ATTENTE_PLANNING, WF_PLANNING_VALIDE, By_internal_planning_validation),
      (WF_PLANNING_VALIDE, WF_EN_PRODUCTION, By_internal_production_launch), (WF_LIVRE, WF_ARCHIVE, By_internal_archive),
      (WF_ATTENTE_PLANNING, WF_PLANNING_VALIDE, By_planning_sync), (WF_AR_PRET, WF_AR_ENVOYE, By_ar_send),
      (WF_PRET_LIVRAISON, WF_LIVRE, By_shipment_sync), (WF_LIVRE, WF_FACTURE, By_invoice_sync)]"

definition can_commande_workflow_transition ::
  "commande_status \<Rightarrow> commande_status \<Rightarrow> transition_cause \<Rightarrow> commande_status option \<Rightarrow> bool" where
  "can_commande_workflow_transition from_status to_status cause resume_status =
     (if from_status = to_status then True
      else if cause = By_block then to_status = WF_BLOQUE \<and> from_status \<in> set BLOCKABLE_STATUSES
      else if cause = By_resume then from_status = WF_BLOQUE \<and> resume_status = Some to_status
      else if cause = By_cancel then to_status = WF_ANNULE \<and> cancellable from_status
      else (from_status, to_status, cause) \<in> set COMMANDE_WORKFLOW_TRANSITIONS)"

definition allowed_checkpoint_transitions :: "commande_status \<Rightarrow> commande_status list" where
  "allowed_checkpoint_transitions s =
     set_of_list (map (\<lambda>(f, t, c). t) (filter (\<lambda>(f, t, c). f = s \<and> c = By_checkpoint) COMMANDE_WORKFLOW_TRANSITIONS))"

definition normalize_commande_workflow_status :: "string option \<Rightarrow> commande_status option" where
  "normalize_commande_workflow_status v =
     (case v of
        None \<Rightarrow> None
      | Some t \<Rightarrow>
          (let normalized = js_upper (js_trim t)
           in case find (\<lambda>s. status_name s = normalized) COMMANDE_WORKFLOW_STATUSES of
                Some s \<Rightarrow> Some s
              | None \<Rightarrow> map_of LEGACY_STATUS_ALIASES normalized))"

section \<open>Checkpoints\<close>

record workflow_checkpoint =
  wc_code :: string
  wc_sort_order :: nat
  wc_status_when_done :: commande_status
  wc_action_key :: string

definition checkpoint :: "string \<Rightarrow> nat \<Rightarrow> commande_status \<Rightarrow> string \<Rightarrow> workflow_checkpoint" where
  "checkpoint c n s a = \<lparr>wc_code = c, wc_sort_order = n, wc_status_when_done = s, wc_action_key = a\<rparr>"

definition COMMANDE_WORKFLOW_CHECKPOINTS :: "workflow_checkpoint list" where
  "COMMANDE_WORKFLOW_CHECKPOINTS =
     [checkpoint ''order_intake'' 10 WF_EN_ANALYSE ''start_analysis'',
      checkpoint ''commercial_review'' 20 WF_ATTENTE_TECHNIQUE ''request_technical_analysis'',
      checkpoint ''technical_analysis'' 30 WF_ATTENTE_STOCK ''complete_technical_analysis'',
      checkpoint ''stock_check'' 40 WF_ATTENTE_OF ''check_stock'',
      checkpoint ''of_generation'' 50 WF_ATTENTE_PLANNING ''mark_of_ready'',
      checkpoint ''planning_validation'' 60 WF_PLANNING_VALIDE ''validate_planning'',
      checkpoint ''ar_preparation'' 70 WF_AR_PRET ''prepare_ar'',
      checkpoint ''ar_sent'' 80 WF_AR_ENVOYE ''mark_ar_sent'',
      checkpoint ''production_launch'' 90 WF_EN_PRODUCTION ''start_production'',
      checkpoint ''production_completion'' 100 WF_PRODUCTION_TERMINEE ''complete_production'',
      checkpoint ''quality_control'' 110 WF_PRET_LIVRAISON ''validate_quality'',
      checkpoint ''delivery'' 120 WF_LIVRE ''mark_delivered'',
      checkpoint ''invoicing'' 130 WF_FACTURE ''mark_invoiced'',
      checkpoint ''archive'' 140 WF_ARCHIVE ''archive'']"

record workflow_action =
  wa_key :: string
  wa_checkpoint_code :: string
  wa_target_status :: commande_status
  wa_next_checkpoint_code :: "string option"

fun workflow_actions :: "workflow_checkpoint list \<Rightarrow> workflow_action list" where
  "workflow_actions [] = []"
| "workflow_actions (c # cs) = \<lparr>wa_key = wc_action_key c, wa_checkpoint_code = wc_code c, wa_target_status = wc_status_when_done c,
     wa_next_checkpoint_code = (case cs of [] \<Rightarrow> None | d # _ \<Rightarrow> Some (wc_code d))\<rparr> # workflow_actions cs"

definition workflow_checkpoint_definition :: "string \<Rightarrow> workflow_checkpoint option" where
  "workflow_checkpoint_definition code = find (\<lambda>c. wc_code c = js_trim code) COMMANDE_WORKFLOW_CHECKPOINTS"

definition workflow_action_of :: "string \<Rightarrow> workflow_action option" where
  "workflow_action_of key = find (\<lambda>a. wa_key a = js_trim key) (workflow_actions COMMANDE_WORKFLOW_CHECKPOINTS)"

section \<open>Moving an order\<close>

text \<open>The history is append-only and its last status is the current one; \<open>co_previous\<close> is what the blocked
  checkpoint remembers.\<close>

record customer_order =
  co_internal :: bool
  co_history :: "string list"
  co_previous :: "commande_status option"
  co_planning_validated :: bool
  co_ar_sent :: bool

definition current_status :: "customer_order \<Rightarrow> commande_status result" where
  "current_status ord =
     (if co_history ord = [] then Inr WF_BROUILLON
      else case normalize_commande_workflow_status (Some (last (co_history ord))) of
        Some s \<Rightarrow> Inr s
      | None \<Rightarrow> Inl (HttpError 409 ''COMMAND_STATUS_HISTORY_INVALID''))"

definition internal_cause :: "transition_cause \<Rightarrow> bool" where
  "internal_cause c \<longleftrightarrow> c \<in> set [By_internal_order_launch, By_internal_planning_validation, By_internal_production_launch, By_internal_archive]"

definition downstream_replay :: "transition_cause \<Rightarrow> commande_status \<Rightarrow> bool" where
  "downstream_replay cause current \<longleftrightarrow>
     (cause = By_shipment_sync \<and> current \<in> set [WF_FACTURE, WF_ARCHIVE])
   \<or> (cause = By_invoice_sync \<and> current = WF_ARCHIVE)
   \<or> (cause = By_planning_sync \<and> current \<in> set [WF_AR_PRET, WF_AR_ENVOYE, WF_EN_PRODUCTION, WF_PRODUCTION_TERMINEE,
        WF_CONTROLE_QUALITE, WF_PRET_LIVRAISON, WF_LIVRE, WF_FACTURE, WF_ARCHIVE])"

definition ensure_commande_workflow_status ::
  "commande_status \<Rightarrow> transition_cause \<Rightarrow> commande_status option \<Rightarrow> customer_order \<Rightarrow> (bool \<times> customer_order) result" where
  "ensure_commande_workflow_status next_status cause resume_status ord =
     bind_result (ensure (\<not> (internal_cause cause \<and> \<not> co_internal ord)) (HttpError 409 ''INTERNAL_COMMAND_TRANSITION_REQUIRED'')) (\<lambda>_.
     bind_result (current_status ord) (\<lambda>current.
     if downstream_replay cause current then Inr (False, ord)
     else if current = next_status then Inr (False, ord)
     else if \<not> can_commande_workflow_transition current next_status cause resume_status
     then Inl (HttpError 409 ''ILLEGAL_COMMAND_STATUS_TRANSITION'')
     else Inr (True, ord\<lparr>co_history := co_history ord @ [status_name next_status],
       co_planning_validated := co_planning_validated ord \<or> next_status \<in> set [WF_PLANNING_VALIDE, WF_AR_PRET, WF_AR_ENVOYE],
       co_ar_sent := co_ar_sent ord \<or> next_status = WF_AR_ENVOYE\<rparr>)))"

text \<open>The active checkpoint is blocked, the blocked one resumed.\<close>

definition block_checkpoint :: "customer_order \<Rightarrow> customer_order result" where
  "block_checkpoint ord =
     bind_result (current_status ord) (\<lambda>current.
     bind_result (ensure (current \<noteq> WF_BLOQUE) (HttpError 409 ''COMMAND_ALREADY_BLOCKED'')) (\<lambda>_.
     bind_result (ensure_commande_workflow_status WF_BLOQUE By_block None (ord\<lparr>co_previous := Some current\<rparr>)) (\<lambda>(_, ord').
     Inr ord')))"

definition resume_checkpoint :: "customer_order \<Rightarrow> customer_order result" where
  "resume_checkpoint ord =
     bind_result (current_status ord) (\<lambda>current.
     bind_result (ensure (current = WF_BLOQUE) (HttpError 409 ''COMMAND_NOT_BLOCKED'')) (\<lambda>_.
     (case co_previous ord of
        None \<Rightarrow> Inl (HttpError 409 ''BLOCK_RESUME_STATUS_MISSING'')
      | Some previous \<Rightarrow>
          bind_result (ensure (previous \<noteq> WF_BLOQUE \<and> previous \<noteq> WF_ARCHIVE) (HttpError 409 ''BLOCK_RESUME_STATUS_MISSING'')) (\<lambda>_.
          bind_result (ensure_commande_workflow_status previous By_resume (Some previous) (ord\<lparr>co_previous := None\<rparr>)) (\<lambda>(_, ord').
          Inr ord')))))"

section \<open>Histories\<close>

datatype order_request = Advance commande_status transition_cause | Block | Resume

fun attempt :: "order_request \<Rightarrow> customer_order \<Rightarrow> customer_order result" where
  "attempt (Advance s c) ord = bind_result (ensure_commande_workflow_status s c None ord) (\<lambda>(_, ord'). Inr ord')"
| "attempt Block ord = block_checkpoint ord"
| "attempt Resume ord = resume_checkpoint ord"

text \<open>A refused request leaves the order as it was.\<close>

definition request_step :: "customer_order \<Rightarrow> order_request \<Rightarrow> customer_order" where
  "request_step ord r = (case attempt r ord of Inr ord' \<Rightarrow> ord' | Inl _ \<Rightarrow> ord)"

definition requests :: "order_request list \<Rightarrow> customer_order \<Rightarrow> customer_order" where
  "requests rs ord = foldl request_step ord rs"

text \<open>Blocking and resuming have requests of their own.\<close>

fun proper :: "order_request \<Rightarrow> bool" where
  "proper (Advance s c) \<longleftrightarrow> c \<noteq> By_block \<and> c \<noteq> By_resume"
| "proper _ \<longleftrightarrow> True"

definition new_order :: "bool \<Rightarrow> customer_order" where
  "new_order internal = \<lparr>co_internal = internal, co_history = [], co_previous = None, co_planning_validated = False, co_ar_sent = False\<rparr>"

text \<open>The status an order is at, and where it stands when a block is looked through.\<close>

definition status_of :: "customer_order \<Rightarrow> commande_status" where
  "status_of ord = (case current_status ord of Inr s \<Rightarrow> s | Inl _ \<Rightarrow> WF_BROUILLON)"

definition stage_of :: "customer_order \<Rightarrow> commande_status" where
  "stage_of ord = (if status_of ord = WF_BLOQUE then case co_previous ord of Some p \<Rightarrow> p | None \<Rightarrow> WF_BROUILLON else status_of ord)"

definition order_ok :: "customer_order \<Rightarrow> bool" where
  "order_ok ord \<longleftrightarrow> current_status ord = Inr (status_of ord)
     \<and> (status_of ord = WF_BLOQUE \<longrightarrow> (\<exists>p. co_previous ord = Some p \<and> p \<in> set BLOCKABLE_STATUSES))"

lemma all_statuses: "s \<in> set COMMANDE_WORKFLOW_STATUSES"
  by (cases s) (simp_all add: COMMANDE_WORKFLOW_STATUSES_def)

lemma normalize_name [simp]: "normalize_commande_workflow_status (Some (status_name s)) = Some s"
proof -
  have "js_upper (js_trim (status_name s)) = status_name s" by (cases s; hypsubst; code_simp)
  moreover have "find (\<lambda>x. status_name x = status_name s) COMMANDE_WORKFLOW_STATUSES = Some s"
    by (cases s) (simp_all add: COMMANDE_WORKFLOW_STATUSES_def)
  ultimately show ?thesis by (simp add: normalize_commande_workflow_status_def)
qed

lemma current_last: "co_history ord = h @ [status_name s] \<Longrightarrow> current_status ord = Inr s"
  by (simp add: current_status_def)

lemma current_previous [simp]: "current_status (ord\<lparr>co_previous := p\<rparr>) = current_status ord"
  by (simp add: current_status_def)

definition climbs :: "transition_rule \<Rightarrow> bool" where
  "climbs r = (case r of (f, t, c) \<Rightarrow> c = By_cancel \<or> (status_order f < status_order t \<and> t \<noteq> WF_BLOQUE \<and> t \<noteq> WF_ANNULE
     \<and> f \<noteq> WF_ARCHIVE \<and> f \<noteq> WF_BLOQUE \<and> f \<noteq> WF_ANNULE))"

lemma blockable: "s \<in> set BLOCKABLE_STATUSES \<longleftrightarrow> s \<noteq> WF_ARCHIVE \<and> s \<noteq> WF_BLOQUE \<and> s \<noteq> WF_ANNULE"
  using all_statuses [of s] by (simp add: BLOCKABLE_STATUSES_def)

lemma rules_climb:
  assumes "(f, t, c) \<in> set COMMANDE_WORKFLOW_TRANSITIONS" "c \<noteq> By_cancel"
  shows "status_order f < status_order t" "t \<noteq> WF_BLOQUE" "t \<noteq> WF_ANNULE" "f \<in> set BLOCKABLE_STATUSES"
proof -
  have "list_all climbs CHECKPOINT_TRANSITIONS" by (simp add: CHECKPOINT_TRANSITIONS_def climbs_def)
  moreover have "list_all climbs CANCELLATION_TRANSITIONS" by (auto simp: CANCELLATION_TRANSITIONS_def climbs_def list_all_iff)
  ultimately have "list_all climbs COMMANDE_WORKFLOW_TRANSITIONS"
    by (simp add: COMMANDE_WORKFLOW_TRANSITIONS_def climbs_def)
  then have "\<forall>x \<in> set COMMANDE_WORKFLOW_TRANSITIONS. climbs x" unfolding list_all_iff .
  from bspec [OF this assms(1)] assms(2)
  have c: "status_order f < status_order t \<and> t \<noteq> WF_BLOQUE \<and> t \<noteq> WF_ANNULE \<and> f \<noteq> WF_ARCHIVE \<and> f \<noteq> WF_BLOQUE \<and> f \<noteq> WF_ANNULE"
    unfolding climbs_def prod.case by blast
  show "status_order f < status_order t" "t \<noteq> WF_BLOQUE" "t \<noteq> WF_ANNULE" "f \<in> set BLOCKABLE_STATUSES"
    unfolding blockable using c by blast+
qed

text \<open>What one accepted request does.\<close>

lemma ensure_moves:
  assumes "current_status ord = Inr s" "\<not> internal_cause c" "\<not> downstream_replay c s" "s \<noteq> n" "can_commande_workflow_transition s n c r"
  shows "\<exists>ord'. ensure_commande_workflow_status n c r ord = Inr (True, ord') \<and> current_status ord' = Inr n \<and> co_previous ord' = co_previous ord"
proof -
  let ?o = "ord\<lparr>co_history := co_history ord @ [status_name n],
       co_planning_validated := co_planning_validated ord \<or> n \<in> set [WF_PLANNING_VALIDE, WF_AR_PRET, WF_AR_ENVOYE],
       co_ar_sent := co_ar_sent ord \<or> n = WF_AR_ENVOYE\<rparr>"
  have "ensure_commande_workflow_status n c r ord = Inr (True, ?o)"
    using assms unfolding ensure_commande_workflow_status_def by simp
  moreover have "current_status ?o = Inr n" by (rule current_last [of _ "co_history ord"]) simp
  ultimately show ?thesis by (intro exI [of _ ?o]) simp
qed

lemma ensure_cases:
  assumes "ensure_commande_workflow_status n c r ord = Inr (b, ord')" "order_ok ord"
  obtains (same) "ord' = ord" "downstream_replay c (status_of ord) \<or> n = status_of ord"
    | (moved) "n \<noteq> status_of ord" "can_commande_workflow_transition (status_of ord) n c r" "status_of ord' = n" "current_status ord' = Inr n"
        "co_previous ord' = co_previous ord"
proof -
  have cs: "current_status ord = Inr (status_of ord)" using assms(2) by (simp add: order_ok_def)
  show ?thesis
  proof (cases "downstream_replay c (status_of ord) \<or> n = status_of ord")
    case True
    then have "ord' = ord" using assms(1) cs by (auto simp: ensure_commande_workflow_status_def split: if_splits)
    with True show ?thesis by (rule same [rotated])
  next
    case False
    then have h: "co_history ord' = co_history ord @ [status_name n]" "can_commande_workflow_transition (status_of ord) n c r"
      "co_previous ord' = co_previous ord"
      using assms(1) cs by (auto simp: ensure_commande_workflow_status_def split: if_splits)
    then have "current_status ord' = Inr n" by (intro current_last)
    then show ?thesis using False h(2,3) by (intro moved) (simp_all add: status_of_def)
  qed
qed

lemma no_replay [simp]: "\<not> downstream_replay By_block s" "\<not> downstream_replay By_resume s" "\<not> downstream_replay By_cancel s"
  "\<not> internal_cause By_block" "\<not> internal_cause By_resume" "\<not> internal_cause By_cancel"
  by (simp_all add: downstream_replay_def internal_cause_def)

definition final :: "commande_status \<Rightarrow> bool" where
  "final s \<longleftrightarrow> s = WF_ARCHIVE \<or> s = WF_ANNULE"

text \<open>One request: the order stays well formed, a final one does not move, and the stage never goes back
  unless the order is cancelled.\<close>

definition advances :: "customer_order \<Rightarrow> customer_order \<Rightarrow> bool" where
  "advances a b \<longleftrightarrow> order_ok b \<and> (final (status_of a) \<longrightarrow> status_of b = status_of a)
     \<and> (status_of b \<noteq> WF_ANNULE \<longrightarrow> status_order (stage_of a) \<le> status_order (stage_of b))"

lemma advances_refl: "order_ok a \<Longrightarrow> advances a a"
  by (simp add: advances_def)

lemma advances_trans: "advances a b \<Longrightarrow> advances b c \<Longrightarrow> advances a c"
  unfolding advances_def final_def by (metis le_trans)

lemma final_stuck:
  assumes "final f" "f \<noteq> t" "c \<noteq> By_resume"
  shows "\<not> can_commande_workflow_transition f t c r"
proof -
  have "f \<notin> set BLOCKABLE_STATUSES" "\<not> cancellable f" using assms(1) by (auto simp: final_def blockable cancellable_def)
  moreover have "(f, t, c) \<notin> set COMMANDE_WORKFLOW_TRANSITIONS" if "c \<noteq> By_cancel"
    using rules_climb(4) [OF _ that] calculation(1) by blast
  ultimately show ?thesis using assms by (auto simp: can_commande_workflow_transition_def)
qed

lemma advance_step:
  assumes ok: "order_ok ord" and r: "ensure_commande_workflow_status n c r ord = Inr (b, ord')" and c: "c \<noteq> By_block" "c \<noteq> By_resume"
  shows "advances ord ord'"
  using r ok
proof (cases rule: ensure_cases)
  case same
  then show ?thesis using ok by (simp add: advances_refl)
next
  case moved
  have "\<not> final (status_of ord)" using final_stuck [OF _ _ c(2)] moved(1,2) by metis
  consider "c = By_cancel" "n = WF_ANNULE" | "c \<noteq> By_cancel" "(status_of ord, n, c) \<in> set COMMANDE_WORKFLOW_TRANSITIONS"
    using moved(1,2) c by (auto simp: can_commande_workflow_transition_def split: if_splits)
  then show ?thesis
  proof cases
    case 1
    then show ?thesis using moved \<open>\<not> final (status_of ord)\<close> by (simp add: advances_def order_ok_def)
  next
    case 2
    note k = rules_climb [OF 2(2,1)]
    then have "stage_of ord = status_of ord" "stage_of ord' = n" using moved by (auto simp: stage_of_def blockable)
    then show ?thesis using moved k \<open>\<not> final (status_of ord)\<close> by (simp add: advances_def order_ok_def)
  qed
qed

lemma block_step:
  assumes ok: "order_ok ord" and r: "block_checkpoint ord = Inr ord'"
  shows "advances ord ord' \<and> status_of ord' = WF_BLOQUE \<and> stage_of ord' = status_of ord"
proof -
  let ?o = "ord\<lparr>co_previous := Some (status_of ord)\<rparr>"
  have s: "current_status ord = Inr (status_of ord)" "status_of ?o = status_of ord" using ok by (simp_all add: order_ok_def status_of_def)
  obtain b where e: "status_of ord \<noteq> WF_BLOQUE" "ensure_commande_workflow_status WF_BLOQUE By_block None ?o = Inr (b, ord')"
    using r s(1) by (auto simp: block_checkpoint_def)
  have "order_ok ?o" using s e(1) by (simp add: order_ok_def)
  with e(2) show ?thesis
  proof (cases rule: ensure_cases)
    case same
    then show ?thesis using e(1) s(2) by simp
  next
    case moved
    have b: "status_of ord \<in> set BLOCKABLE_STATUSES"
      using moved(1,2) s(2) by (simp add: can_commande_workflow_transition_def)
    then have "\<not> final (status_of ord)" by (auto simp: final_def blockable)
    moreover have "stage_of ord = status_of ord" "stage_of ord' = status_of ord" using e(1) moved s(2) by (simp_all add: stage_of_def)
    ultimately show ?thesis using moved b by (simp add: advances_def order_ok_def)
  qed
qed

lemma resume_step:
  assumes ok: "order_ok ord" and r: "resume_checkpoint ord = Inr ord'"
  shows "advances ord ord' \<and> status_of ord = WF_BLOQUE \<and> status_of ord' = stage_of ord"
proof -
  let ?o = "ord\<lparr>co_previous := None\<rparr>"
  have s: "current_status ord = Inr (status_of ord)" "status_of ?o = status_of ord" using ok by (simp_all add: order_ok_def status_of_def)
  obtain p b where p: "status_of ord = WF_BLOQUE" "co_previous ord = Some p" "p \<noteq> WF_BLOQUE"
    and e: "ensure_commande_workflow_status p By_resume (Some p) ?o = Inr (b, ord')"
    using r s(1) by (auto simp: resume_checkpoint_def split: option.splits)
  have pb: "p \<in> set BLOCKABLE_STATUSES" using ok p by (simp add: order_ok_def)
  have "can_commande_workflow_transition WF_BLOQUE p By_resume (Some p)" using p(3) by (simp add: can_commande_workflow_transition_def)
  then obtain o2 where "ensure_commande_workflow_status p By_resume (Some p) ?o = Inr (True, o2)" "current_status o2 = Inr p"
    using ensure_moves [of ?o WF_BLOQUE By_resume p "Some p"] s(1) p(1,3) by auto
  then have o': "current_status ord' = Inr p" "status_of ord' = p" using e by (simp_all add: status_of_def)
  then show ?thesis using p pb by (auto simp: advances_def order_ok_def stage_of_def final_def)
qed

lemma request_advances: "order_ok ord \<Longrightarrow> proper r \<Longrightarrow> advances ord (request_step ord r)"
proof (cases "attempt r ord")
  case (Inr ord')
  assume "order_ok ord" "proper r"
  then show ?thesis using Inr block_step [of ord ord'] resume_step [of ord ord']
    by (cases r) (auto simp: request_step_def intro: advance_step)
qed (simp add: request_step_def advances_refl)

lemma requests_advance: "order_ok ord \<Longrightarrow> list_all proper rs \<Longrightarrow> advances ord (requests rs ord)"
proof (induction rs arbitrary: ord)
  case (Cons r rs)
  have a: "advances ord (request_step ord r)" using request_advances Cons.prems by simp
  moreover have "advances (request_step ord r) (requests rs (request_step ord r))"
    using Cons.IH [of "request_step ord r"] Cons.prems a by (simp add: advances_def)
  ultimately show ?case by (simp add: requests_def) (rule advances_trans)
qed (simp add: requests_def advances_refl)

text \<open>C23: Whatever is asked of a new order, in whatever sequence, its history stays readable, an archived or
  cancelled order never moves again, and as long as it is not cancelled its stage never goes back:
  a block suspends the order and resuming returns it to the very status it had. A blocked order
  remembers a status that can be resumed.\<close>

theorem order_never_goes_back:
  assumes "list_all proper (rs @ ss)"
  shows "let a = requests rs (new_order internal); b = requests ss a
    in current_status b = Inr (status_of b) \<and> (final (status_of a) \<longrightarrow> status_of b = status_of a)
      \<and> (status_of b \<noteq> WF_ANNULE \<longrightarrow> status_order (stage_of a) \<le> status_order (stage_of b))
      \<and> (status_of b = WF_BLOQUE \<longrightarrow> is_ok (resume_checkpoint b) \<and> status_of (request_step b Resume) = stage_of b)"
proof -
  let ?a = "requests rs (new_order internal)" and ?b = "requests ss (requests rs (new_order internal))"
  have "order_ok (new_order internal)" by (simp add: order_ok_def new_order_def current_status_def status_of_def)
  then have a: "order_ok ?a" using requests_advance [of "new_order internal" rs] assms by (simp add: advances_def)
  then have b: "advances ?a ?b" using requests_advance [of ?a ss] assms by simp
  then have ok: "order_ok ?b" by (simp add: advances_def)
  have "is_ok (resume_checkpoint ?b) \<and> status_of (request_step ?b Resume) = stage_of ?b" if s: "status_of ?b = WF_BLOQUE"
  proof -
    obtain p where p: "co_previous ?b = Some p" "p \<in> set BLOCKABLE_STATUSES" using ok s by (auto simp: order_ok_def)
    have c: "current_status ?b = Inr WF_BLOQUE" using ok s by (simp add: order_ok_def)
    have "can_commande_workflow_transition WF_BLOQUE p By_resume (Some p)" using p by (simp add: can_commande_workflow_transition_def blockable)
    then obtain ord' where "ensure_commande_workflow_status p By_resume (Some p) (?b\<lparr>co_previous := None\<rparr>) = Inr (True, ord')"
      using ensure_moves [of "?b\<lparr>co_previous := None\<rparr>" WF_BLOQUE By_resume p "Some p"] c p(2) by (auto simp: blockable)
    then have "resume_checkpoint ?b = Inr ord'" using p c by (simp add: resume_checkpoint_def blockable)
    then show ?thesis using resume_step [OF ok, of ord'] by (simp add: request_step_def)
  qed
  with b ok show ?thesis by (simp add: Let_def advances_def order_ok_def)
qed

theorem order_never_goes_back_witness:
  "let a = requests [Advance WF_EN_ANALYSE By_checkpoint, Block] (new_order False); b = requests [Advance WF_LIVRE By_shipment_sync] a
    in status_of a = WF_BLOQUE \<and> stage_of a = WF_EN_ANALYSE \<and> status_of (request_step b Resume) = WF_EN_ANALYSE"
proof -
  have v: "status_of (requests [Advance WF_EN_ANALYSE By_checkpoint, Block] (new_order False)) = WF_BLOQUE"
    "stage_of (requests [Advance WF_EN_ANALYSE By_checkpoint, Block] (new_order False)) = WF_EN_ANALYSE"
    "stage_of (requests [Advance WF_LIVRE By_shipment_sync] (requests [Advance WF_EN_ANALYSE By_checkpoint, Block] (new_order False))) = WF_EN_ANALYSE"
    "status_of (requests [Advance WF_LIVRE By_shipment_sync] (requests [Advance WF_EN_ANALYSE By_checkpoint, Block] (new_order False))) = WF_BLOQUE"
    by code_simp+
  show ?thesis
    using order_never_goes_back [of "[Advance WF_EN_ANALYSE By_checkpoint, Block]" "[Advance WF_LIVRE By_shipment_sync]" False]
    by (simp add: Let_def v)
qed

text \<open>An order that is delivered cannot be cancelled, but it can be blocked, and a blocked one can.\<close>

lemma delivered_order_cancelled_through_block:
  "status_of ord = WF_LIVRE \<Longrightarrow> order_ok ord \<Longrightarrow> \<not> is_ok (attempt (Advance WF_ANNULE By_cancel) ord)
    \<and> status_of (requests [Block, Advance WF_ANNULE By_cancel] ord) = WF_ANNULE"
proof -
  assume s: "status_of ord = WF_LIVRE" and ok: "order_ok ord"
  have c: "current_status ord = Inr WF_LIVRE" using s ok by (simp add: order_ok_def)
  have n: "\<not> is_ok (attempt (Advance WF_ANNULE By_cancel) ord)"
    using c by (simp add: ensure_commande_workflow_status_def downstream_replay_def internal_cause_def can_commande_workflow_transition_def cancellable_def)
  obtain o1 where b: "ensure_commande_workflow_status WF_BLOQUE By_block None (ord\<lparr>co_previous := Some WF_LIVRE\<rparr>) = Inr (True, o1)"
    "current_status o1 = Inr WF_BLOQUE"
    using ensure_moves [of "ord\<lparr>co_previous := Some WF_LIVRE\<rparr>" WF_LIVRE By_block WF_BLOQUE None] c
    by (auto simp: can_commande_workflow_transition_def blockable)
  obtain o2 where a: "ensure_commande_workflow_status WF_ANNULE By_cancel None o1 = Inr (True, o2)" "current_status o2 = Inr WF_ANNULE"
    using ensure_moves [of o1 WF_BLOQUE By_cancel WF_ANNULE None] b(2) by (auto simp: can_commande_workflow_transition_def cancellable_def)
  have "block_checkpoint ord = Inr o1" using b(1) c by (simp add: block_checkpoint_def)
  then have "status_of (requests [Block, Advance WF_ANNULE By_cancel] ord) = WF_ANNULE"
    using a by (simp add: requests_def request_step_def status_of_def)
  with n show ?thesis by simp
qed

end
