(* ===== verification/Replenishment.thy ===== *)
theory Replenishment
  imports Complex_Main Prelude "HOL-Library.List_Lexorder" "HOL-Library.Char_ord"
begin

text \<open>
  \<open>src/module/commande-fournisseur/domain/replenishment-calculation.ts\<close> and
  \<open>src/module/stock/domain/stock-availability.ts\<close>: what is available of a stock, what has to be bought and how
  a purchase is spread over the stock levels it covers. Numbers are finite and exact.
\<close>

section \<open>Rounding\<close>

definition EPSILON :: rat where "EPSILON = 1 / 2 ^ 52"

definition QTY_EPS :: rat where "QTY_EPS = 1 / 1000000000"

definition math_round :: "rat \<Rightarrow> int" where "math_round x = \<lfloor>x + 1 / 2\<rfloor>"

definition round_qty :: "rat \<Rightarrow> rat" where
  "round_qty v = of_int (math_round ((v + EPSILON) * 1000)) / 1000"

definition round_money :: "rat \<Rightarrow> rat" where
  "round_money v = of_int (math_round ((v + EPSILON) * 100)) / 100"

definition non_negative :: "rat option \<Rightarrow> rat" where
  "non_negative v = (case v of None \<Rightarrow> 0 | Some x \<Rightarrow> max 0 x)"

section \<open>Availability\<close>

datatype lot_quality = LQ_LIBERE | LQ_EN_ATTENTE | LQ_QUARANTAINE | LQ_BLOQUE

record stock_input =
  si_on_hand :: rat
  si_reserved :: rat
  si_depreciated :: rat
  si_lot_status :: "lot_quality option"

record stock_availability =
  sa_on_hand :: rat
  sa_reserved :: rat
  sa_depreciated :: rat
  sa_quarantine :: rat
  sa_blocked :: rat
  sa_available :: rat

definition calculate_stock_availability :: "stock_input \<Rightarrow> stock_availability" where
  "calculate_stock_availability i =
     (let on_hand = max (si_on_hand i) 0;
          reserved = max (si_reserved i) 0;
          depreciated = max (si_depreciated i) 0;
          physical = max (on_hand - depreciated) 0;
          quarantine = (si_lot_status i = Some LQ_EN_ATTENTE \<or> si_lot_status i = Some LQ_QUARANTAINE);
          blocked = (si_lot_status i = Some LQ_BLOQUE);
          released = (si_lot_status i = None \<or> si_lot_status i = Some LQ_LIBERE)
      in \<lparr>sa_on_hand = on_hand, sa_reserved = reserved, sa_depreciated = depreciated,
           sa_quarantine = (if quarantine then physical else 0), sa_blocked = (if blocked then physical else 0),
           sa_available = (if released then max (on_hand - reserved - depreciated) 0 else 0)\<rparr>)"

datatype override_code = OV_ALLOWED | OV_INVALID_LIMIT | OV_LOT_NOT_RELEASED | OV_RESERVED_STOCK_PRESENT
  | OV_DEPRECIATED_STOCK_PRESENT | OV_LIMIT_EXCEEDED

text \<open>The verdict and the quantity on hand after the consumption.\<close>

definition evaluate_negative_stock_override :: "stock_input \<Rightarrow> rat \<Rightarrow> rat \<Rightarrow> override_code \<times> rat" where
  "evaluate_negative_stock_override i consumed maximum_negative =
     (let projected = si_on_hand i - \<bar>consumed\<bar>
      in (if maximum_negative \<le> 0 then OV_INVALID_LIMIT
          else if si_lot_status i \<noteq> None \<and> si_lot_status i \<noteq> Some LQ_LIBERE then OV_LOT_NOT_RELEASED
          else if QTY_EPS < si_reserved i then OV_RESERVED_STOCK_PRESENT
          else if QTY_EPS < si_depreciated i then OV_DEPRECIATED_STOCK_PRESENT
          else if projected < - maximum_negative - QTY_EPS then OV_LIMIT_EXCEEDED
          else OV_ALLOWED, projected))"

section \<open>Units and open orders\<close>

definition normalize_unit :: "string option \<Rightarrow> string option" where
  "normalize_unit v =
     (let unit = js_lower (js_trim (or_empty v))
      in if unit = [] then None
         else if unit \<in> set [''pce'', ''pcs'', ''pc'', ''piece'', ''pi'' @ [CHR 0xE8] @ ''ce''] then Some ''u''
         else Some unit)"

record open_order_input =
  oi_ordered :: rat
  oi_cancelled :: rat
  oi_received :: rat
  oi_purchase_unit :: "string option"
  oi_stock_unit :: "string option"
  oi_coefficient :: "rat option"

record open_order_remainder =
  or_purchase :: rat
  or_stock :: rat
  or_coefficient :: "rat option"
  or_conversion_missing :: bool

definition positive_coefficient :: "rat option \<Rightarrow> rat option" where
  "positive_coefficient c = (case c of None \<Rightarrow> None | Some x \<Rightarrow> if 0 < x then Some x else None)"

definition convert_open_order_remainder :: "open_order_input \<Rightarrow> open_order_remainder" where
  "convert_open_order_remainder i =
     (let remaining = round_qty (max 0 (max 0 (oi_ordered i) - max 0 (oi_cancelled i) - max 0 (oi_received i)))
      in if remaining \<le> QTY_EPS
         then \<lparr>or_purchase = 0, or_stock = 0, or_coefficient = None, or_conversion_missing = False\<rparr>
         else (let pu = normalize_unit (oi_purchase_unit i); su = normalize_unit (oi_stock_unit i);
                   c = (if pu \<noteq> None \<and> su \<noteq> None \<and> pu = su then Some 1 else positive_coefficient (oi_coefficient i))
               in \<lparr>or_purchase = remaining, or_stock = (case c of Some x \<Rightarrow> round_qty (remaining * x) | None \<Rightarrow> 0),
                    or_coefficient = c, or_conversion_missing = (c = None)\<rparr>))"

section \<open>Coverage\<close>

text \<open>Whole thousandths are dealt out to the levels; the first ones get the rest.\<close>

definition allocate_coverage :: "rat \<Rightarrow> string list \<Rightarrow> (string \<times> rat) list" where
  "allocate_coverage total_qty levels =
     (let milliunits = nat (max 0 (math_round (total_qty * 1000)))
      in if milliunits = 0 \<or> levels = [] then []
         else (let links = min milliunits (length levels);
                   base = milliunits div links;
                   extra = milliunits mod links
               in map (\<lambda>(index, level). (level, of_nat (base + (if index < extra then 1 else 0)) / 1000))
                    (List.enumerate 0 (take links levels))))"

section \<open>The proposal\<close>

record replenishment_input =
  ri_available :: rat
  ri_open_orders :: rat
  ri_open_order_conversion_missing :: bool
  ri_minimum :: "rat option"
  ri_safety :: "rat option"
  ri_target :: "rat option"
  ri_reorder :: "rat option"
  ri_stock_unit :: "string option"
  ri_purchase_unit :: "string option"
  ri_coefficient :: "rat option"
  ri_moq :: "rat option"
  ri_lot :: "rat option"
  ri_unit_price :: "rat option"

datatype replenishment_reason = RR_RUPTURE | RR_SOUS_MINIMUM | RR_COUVERT | RR_SEUIL_MANQUANT

record replenishment =
  rp_reason :: replenishment_reason
  rp_target :: rat
  rp_gross :: rat
  rp_net :: rat
  rp_purchase :: "rat option"
  rp_stock :: "rat option"
  rp_coefficient :: "rat option"
  rp_estimated_total :: "rat option"
  rp_missing :: "string list"
  rp_warnings :: "string list"

definition ceil_to_lot :: "rat \<Rightarrow> rat option \<Rightarrow> rat" where
  "ceil_to_lot v lot =
     (case lot of
        None \<Rightarrow> round_qty v
      | Some l \<Rightarrow> if l \<le> 0 then round_qty v else round_qty (of_int \<lceil>(v - QTY_EPS) / l\<rceil> * l))"

definition replenishment_target :: "replenishment_input \<Rightarrow> rat" where
  "replenishment_target i =
     (case ri_target i of Some t \<Rightarrow> max 0 t | None \<Rightarrow> non_negative (ri_minimum i) + non_negative (ri_safety i))"

definition net_requirement :: "replenishment_input \<Rightarrow> rat" where
  "net_requirement i = round_qty (max 0 (replenishment_target i - max 0 (ri_available i) - max 0 (ri_open_orders i)))"

definition purchase_coefficient :: "replenishment_input \<Rightarrow> rat option" where
  "purchase_coefficient i =
     (let su = normalize_unit (ri_stock_unit i); pu = normalize_unit (ri_purchase_unit i)
      in if pu = None then None else if su = pu then Some 1 else positive_coefficient (ri_coefficient i))"

definition missing_data :: "replenishment_input \<Rightarrow> string list" where
  "missing_data i = sort
     ((if non_negative (ri_minimum i) \<le> 0 then [''MINIMUM_STOCK''] else [])
      @ (if ri_open_order_conversion_missing i then [''OPEN_ORDER_UNIT_CONVERSION''] else [])
      @ (if normalize_unit (ri_stock_unit i) = None then [''STOCK_UNIT''] else [])
      @ (if normalize_unit (ri_purchase_unit i) = None then [''PURCHASE_UNIT'']
         else if purchase_coefficient i = None then [''UNIT_CONVERSION''] else []))"

text \<open>The need in purchase units, before and after the minimum of the supplier, and the quantity proposed.\<close>

definition raw_purchase :: "replenishment_input \<Rightarrow> rat \<Rightarrow> rat" where
  "raw_purchase i c = max (net_requirement i) (non_negative (ri_reorder i)) / c"

definition moq_applied :: "replenishment_input \<Rightarrow> rat \<Rightarrow> rat" where
  "moq_applied i c = max (raw_purchase i c) (non_negative (ri_moq i))"

definition proposed_purchase :: "replenishment_input \<Rightarrow> rat \<Rightarrow> rat" where
  "proposed_purchase i c = ceil_to_lot (moq_applied i c) (ri_lot i)"

definition truthy_number :: "rat option \<Rightarrow> bool" where
  "truthy_number v \<longleftrightarrow> (case v of None \<Rightarrow> False | Some x \<Rightarrow> x \<noteq> 0)"

definition replenishment_warnings :: "replenishment_input \<Rightarrow> (rat \<times> rat) option \<Rightarrow> string list" where
  "replenishment_warnings i proposal = sort
     ((if ri_safety i = None then [''SAFETY_STOCK_MISSING''] else [])
      @ (case proposal of
           None \<Rightarrow> []
         | Some (c, q) \<Rightarrow>
             (if truthy_number (ri_moq i) \<and> raw_purchase i c + QTY_EPS < q then [''MOQ_APPLIED''] else [])
           @ (if truthy_number (ri_lot i) \<and> moq_applied i c + QTY_EPS < q then [''PURCHASE_LOT_ROUNDED''] else [])
           @ (if net_requirement i + QTY_EPS < round_qty (q * c) then [''OVERAGE_AFTER_ROUNDING''] else []))
      @ (if ri_unit_price i = None then [''PRICE_MISSING''] else []))"

definition calculate_replenishment :: "replenishment_input \<Rightarrow> replenishment" where
  "calculate_replenishment i =
     (let available = max 0 (ri_available i);
          target = replenishment_target i;
          net = net_requirement i;
          c = purchase_coefficient i;
          proposal = (if QTY_EPS < net then map_option (\<lambda>x. (x, proposed_purchase i x)) c else None)
      in \<lparr>rp_reason = (if non_negative (ri_minimum i) \<le> 0 then RR_SEUIL_MANQUANT else if net \<le> QTY_EPS then RR_COUVERT
            else if available \<le> QTY_EPS then RR_RUPTURE else RR_SOUS_MINIMUM),
          rp_target = round_qty target, rp_gross = round_qty (max 0 (target - available)), rp_net = net,
          rp_purchase = map_option snd proposal, rp_stock = map_option (\<lambda>(x, q). round_qty (q * x)) proposal,
          rp_coefficient = c,
          rp_estimated_total = (case (proposal, ri_unit_price i) of
              (Some (_, q), Some p) \<Rightarrow> Some (round_money (q * max 0 p)) | _ \<Rightarrow> None),
          rp_missing = missing_data i, rp_warnings = replenishment_warnings i proposal\<rparr>)"

section \<open>What is allocated\<close>

lemma sum_list_enumerate:
  "extra \<le> length xs \<Longrightarrow> sum_list (map snd (map (\<lambda>(index, level). (level, (of_nat (b + (if index < extra then 1 else 0)) / 1000 :: rat)))
      (List.enumerate 0 xs))) = of_nat (length xs * b + extra) / 1000"
proof -
  have g: "k \<le> extra \<Longrightarrow> extra - k \<le> length xs \<Longrightarrow> sum_list (map snd (map (\<lambda>(index, level). (level, (of_nat (b + (if index < extra then 1 else 0)) / 1000 :: rat)))
      (List.enumerate k xs))) = of_nat (length xs * b + (extra - k)) / 1000" for k
  proof (induction xs arbitrary: k)
    case (Cons x xs)
    show ?case
    proof (cases "k < extra")
      case True
      then have "extra - k = Suc (extra - Suc k)" by simp
      then show ?thesis using Cons.IH [of "Suc k"] Cons.prems True by (simp add: field_simps)
    next
      case False
      have "sum_list (map snd (map (\<lambda>(index, level). (level, (of_nat (b + (if index < extra then 1 else 0)) / 1000 :: rat)))
          (List.enumerate j ys))) = of_nat (length ys * b) / 1000" if "extra \<le> j" for j and ys :: "'a list"
        using that by (induction ys arbitrary: j) (simp_all add: field_simps)
      then show ?thesis using False Cons.prems by (simp add: field_simps)
    qed
  qed simp
  assume "extra \<le> length xs"
  with g [of 0] show ?thesis by simp
qed

lemma coverage_shape:
  assumes "levels \<noteq> []" "0 < math_round (q * 1000)"
  shows "\<exists>links base extra. allocate_coverage q levels = map (\<lambda>(index, level). (level, of_nat (base + (if index < extra then 1 else 0)) / 1000))
        (List.enumerate 0 (take links levels)) \<and> extra \<le> length (take links levels) \<and> 0 < base
      \<and> length (take links levels) * base + extra = nat (math_round (q * 1000))"
proof -
  define m where "m = nat (math_round (q * 1000))"
  define links where "links = min m (length levels)"
  have m: "0 < m" using assms(2) by (simp add: m_def)
  have l: "0 < links" "links \<le> m" "length (take links levels) = links" using m assms(1) by (simp_all add: links_def)
  have "allocate_coverage q levels = map (\<lambda>(index, level). (level, of_nat (m div links + (if index < m mod links then 1 else 0)) / 1000))
      (List.enumerate 0 (take links levels))"
    using assms m by (simp add: allocate_coverage_def Let_def m_def links_def)
  moreover have "m mod links \<le> length (take links levels)" using l mod_less_divisor [of links m] by simp
  moreover have "0 < m div links" using l by (simp add: div_greater_zero_iff)
  moreover have "length (take links levels) * (m div links) + m mod links = m" unfolding l(3) by (simp add: mult.commute)
  ultimately show ?thesis unfolding m_def [symmetric] by blast
qed

text \<open>A covered quantity is spread over stock levels without loss: in whole thousandths its parts sum up
  to it, each is positive, they go to the first levels, and no two differ by more than a thousandth.\<close>

theorem coverage_exact:
  assumes "levels \<noteq> []" "0 < math_round (q * 1000)"
  shows "sum_list (map snd (allocate_coverage q levels)) = of_int (math_round (q * 1000)) / 1000
    \<and> list_all (\<lambda>(l, x). 0 < x) (allocate_coverage q levels)
    \<and> (\<exists>n. map fst (allocate_coverage q levels) = take n levels)
    \<and> list_all (\<lambda>(l, x). list_all (\<lambda>(m, y). x - y \<le> 1 / 1000) (allocate_coverage q levels)) (allocate_coverage q levels)"
proof -
  obtain links b e where a: "allocate_coverage q levels = map (\<lambda>(index, level). (level, of_nat (b + (if index < e then 1 else 0)) / 1000))
        (List.enumerate 0 (take links levels))" and e: "e \<le> length (take links levels)" "0 < b"
      "length (take links levels) * b + e = nat (math_round (q * 1000))"
    using coverage_shape [OF assms] by blast
  have "sum_list (map snd (allocate_coverage q levels)) = of_nat (nat (math_round (q * 1000))) / 1000"
    unfolding a sum_list_enumerate [OF e(1)] e(3) ..
  moreover have "map fst (allocate_coverage q levels) = take links levels"
    unfolding a map_map comp_def by (simp add: case_prod_beta' enumerate_eq_zip)
  moreover have "list_all (\<lambda>(l, x). list_all (\<lambda>(m, y). x - y \<le> 1 / 1000) (allocate_coverage q levels)) (allocate_coverage q levels)"
    unfolding a by (auto simp: list_all_iff field_simps)
  moreover have "list_all (\<lambda>(l, x). 0 < x) (allocate_coverage q levels)" unfolding a using e(2) by (auto simp: list_all_iff)
  ultimately show ?thesis using assms(2) by auto
qed

theorem coverage_exact_witness:
  "sum_list (map snd (allocate_coverage (1 / 100) [''a'', ''b'', ''c''])) = of_int (math_round (1 / 100 * 1000)) / 1000
    \<and> (of_int (math_round (1 / 100 * 1000)) / 1000 :: rat) = 1 / 100"
proof -
  have r: "math_round (1 / 100 * 1000) = 10" by (simp add: math_round_def floor_unique)
  have p: "0 < math_round (1 / 100 * 1000)" unfolding r by simp
  from coverage_exact [OF _ p, of "[''a'', ''b'', ''c'']"]
  have "sum_list (map snd (allocate_coverage (1 / 100) [''a'', ''b'', ''c''])) = of_int (math_round (1 / 100 * 1000)) / 1000" by blast
  then show ?thesis unfolding r by simp
qed

section \<open>What is proposed\<close>

lemma round_qty_bounds: "v - 1 / 2000 < round_qty v" "round_qty v \<le> v + EPSILON + 1 / 2000"
proof -
  have f: "of_int \<lfloor>x\<rfloor> \<le> x" "x < of_int \<lfloor>x\<rfloor> + 1" for x :: rat using floor_correct [of x] by simp_all
  have "0 < EPSILON" by (simp add: EPSILON_def)
  then show "v - 1 / 2000 < round_qty v" "round_qty v \<le> v + EPSILON + 1 / 2000"
    using f [of "(v + EPSILON) * 1000 + 1 / 2"] by (simp_all add: round_qty_def math_round_def field_simps)
qed

lemma round_qty_exact: "round_qty (of_int k / 1000) = of_int k / 1000"
proof -
  have "math_round ((of_int k / 1000 + EPSILON) * 1000) = k"
    unfolding math_round_def by (rule floor_unique) (simp_all add: EPSILON_def field_simps)
  then show ?thesis by (simp add: round_qty_def)
qed

lemma ceil_to_lot_bounds:
  shows "v - QTY_EPS - 1 / 2000 < ceil_to_lot v lot"
    and "lot = Some l \<Longrightarrow> 0 < l \<Longrightarrow> ceil_to_lot v lot < v + l + EPSILON + 1 / 2000"
proof -
  have c: "(v - QTY_EPS) / l \<le> of_int \<lceil>(v - QTY_EPS) / l\<rceil>" "of_int \<lceil>(v - QTY_EPS) / l\<rceil> < (v - QTY_EPS) / l + 1" for l
    using ceiling_correct [of "(v - QTY_EPS) / l"] by linarith+
  have q: "0 < QTY_EPS" by (simp add: QTY_EPS_def)
  show "v - QTY_EPS - 1 / 2000 < ceil_to_lot v lot"
  proof (cases lot)
    case None
    then show ?thesis using round_qty_bounds(1) [of v] q by (simp add: ceil_to_lot_def)
  next
    case (Some l)
    have "v - QTY_EPS \<le> of_int \<lceil>(v - QTY_EPS) / l\<rceil> * l" if "0 < l"
      using mult_right_mono [OF c(1) [of l], of l] that by simp
    then show ?thesis using round_qty_bounds(1) [of v] round_qty_bounds(1) [of "of_int \<lceil>(v - QTY_EPS) / l\<rceil> * l"] q
      by (auto simp: Some ceil_to_lot_def not_le)
  qed
  show "ceil_to_lot v lot < v + l + EPSILON + 1 / 2000" if l: "lot = Some l" "0 < l"
  proof -
    have "of_int \<lceil>(v - QTY_EPS) / l\<rceil> * l < v - QTY_EPS + l"
      using mult_strict_right_mono [OF c(2) [of l] l(2)] l(2) by (simp add: distrib_right)
    then show ?thesis using round_qty_bounds(2) [of "of_int \<lceil>(v - QTY_EPS) / l\<rceil> * l"] q l by (simp add: ceil_to_lot_def)
  qed
qed

lemma coefficient_positive: "purchase_coefficient i = Some c \<Longrightarrow> 0 < c"
  by (auto simp: purchase_coefficient_def positive_coefficient_def Let_def split: if_splits option.splits)

text \<open>A purchase is proposed exactly when something is needed and the units can be converted. It reaches
  the need and the supplier's minimum but for the rounding to the thousandth of a purchase unit, it
  is a whole number of lots when the lot is given in thousandths, and it exceeds what is needed by
  less than one lot.\<close>

theorem replenishment_covers:
  "case rp_purchase (calculate_replenishment i) of
     None \<Rightarrow> net_requirement i \<le> QTY_EPS \<or> rp_coefficient (calculate_replenishment i) = None
   | Some q \<Rightarrow> QTY_EPS < net_requirement i \<and> (\<exists>c. rp_coefficient (calculate_replenishment i) = Some c \<and> 0 < c
       \<and> net_requirement i / c < q + QTY_EPS + 1 / 2000 \<and> non_negative (ri_reorder i) / c < q + QTY_EPS + 1 / 2000
       \<and> non_negative (ri_moq i) < q + QTY_EPS + 1 / 2000
       \<and> (case ri_lot i of None \<Rightarrow> True | Some l \<Rightarrow> if l \<le> 0 then True else
            q < moq_applied i c + l + EPSILON + 1 / 2000 \<and> (if l * 1000 \<in> \<int> then \<exists>k :: int. q = of_int k * l else True)))"
proof (cases "QTY_EPS < net_requirement i \<and> purchase_coefficient i \<noteq> None")
  case False
  then show ?thesis by (auto simp: calculate_replenishment_def Let_def)
next
  case True
  then obtain c where c: "purchase_coefficient i = Some c" by blast
  let ?q = "proposed_purchase i c"
  have q: "rp_purchase (calculate_replenishment i) = Some ?q" "rp_coefficient (calculate_replenishment i) = Some c"
    using True c by (simp_all add: calculate_replenishment_def Let_def)
  note p = coefficient_positive [OF c]
  have lo: "moq_applied i c < ?q + QTY_EPS + 1 / 2000"
    using ceil_to_lot_bounds(1) [of "moq_applied i c" "ri_lot i"] by (simp add: proposed_purchase_def)
  have "net_requirement i / c \<le> raw_purchase i c" "non_negative (ri_reorder i) / c \<le> raw_purchase i c"
    using p by (simp_all add: raw_purchase_def divide_right_mono)
  moreover have "raw_purchase i c \<le> moq_applied i c" "non_negative (ri_moq i) \<le> moq_applied i c" by (simp_all add: moq_applied_def)
  ultimately have n: "net_requirement i / c < ?q + QTY_EPS + 1 / 2000" "non_negative (ri_reorder i) / c < ?q + QTY_EPS + 1 / 2000"
    "non_negative (ri_moq i) < ?q + QTY_EPS + 1 / 2000" using lo by linarith+
  have l: "case ri_lot i of None \<Rightarrow> True | Some l \<Rightarrow> if l \<le> 0 then True else
      ?q < moq_applied i c + l + EPSILON + 1 / 2000 \<and> (if l * 1000 \<in> \<int> then \<exists>k :: int. ?q = of_int k * l else True)"
  proof (cases "ri_lot i")
    case (Some l)
    have "\<exists>k :: int. ?q = of_int k * l" if pos: "0 < l" and z: "l * 1000 \<in> \<int>"
    proof -
      obtain m where m: "l * 1000 = of_int m" using z by (rule Ints_cases)
      let ?k = "\<lceil>(moq_applied i c - QTY_EPS) / l\<rceil>"
      have e: "of_int ?k * l = of_int (?k * m) / 1000" using m by (simp add: field_simps)
      have "?q = round_qty (of_int ?k * l)" using pos by (simp add: proposed_purchase_def ceil_to_lot_def Some)
      then have "?q = of_int ?k * l" unfolding e round_qty_exact .
      then show ?thesis by blast
    qed
    then show ?thesis using ceil_to_lot_bounds(2) [OF Some, of "moq_applied i c"] by (simp add: Some proposed_purchase_def)
  qed simp
  show ?thesis using True p n l by (simp add: q)
qed

text \<open>Rounding to the thousandth of a purchase unit can leave a need uncovered.\<close>

lemma proposal_falls_short:
  "let i = \<lparr>ri_available = 0, ri_open_orders = 0, ri_open_order_conversion_missing = False, ri_minimum = Some 1, ri_safety = None,
      ri_target = None, ri_reorder = None, ri_stock_unit = Some ''kg'', ri_purchase_unit = Some ''bar'', ri_coefficient = Some 3,
      ri_moq = None, ri_lot = None, ri_unit_price = None\<rparr>
    in net_requirement i = 1 \<and> rp_stock (calculate_replenishment i) = Some (999 / 1000)"
proof -
  have u: "normalize_unit (Some ''kg'') = Some ''kg''" "normalize_unit (Some ''bar'') = Some ''bar''" by code_simp+
  have r: "round_qty 1 = 1" "round_qty (999 / 1000) = 999 / 1000" using round_qty_exact [of 1000] round_qty_exact [of 999] by simp_all
  have t: "round_qty (1 / 3) = 333 / 1000"
    by (simp add: round_qty_def math_round_def) (rule floor_unique; simp add: EPSILON_def)
  show ?thesis
    by (simp add: Let_def calculate_replenishment_def net_requirement_def replenishment_target_def non_negative_def purchase_coefficient_def u
      positive_coefficient_def proposed_purchase_def moq_applied_def raw_purchase_def ceil_to_lot_def r t QTY_EPS_def)
      (rule exI [of _ "333 / 1000"], simp add: r)
qed

end
