(* ===== verification/Of_Revision.thy ===== *)
theory Of_Revision
  imports Complex_Main Decimal_Money "HOL-Library.AList"
begin

text \<open>
  \<open>src/module/production/domain/of-revision.ts\<close>: the revisions of a works order, their codes, their times,
  what a revision changes against the one before and when it may be created. The numbers of a
  revision are finite; the fingerprint of a canonical text is an argument.
\<close>

section \<open>Families\<close>

record machine_family =
  mf_code :: string
  mf_libelle :: string
  mf_programme_requis :: bool
  mf_ordre_affichage :: int
  mf_actif :: bool

definition OF_PHASE_FAMILY_FALLBACK_LABELS :: "(string \<times> string) list" where
  "OF_PHASE_FAMILY_FALLBACK_LABELS = [(''T'', ''Tournage CN''), (''F'', ''Fraisage CN''), (''TTRAD'', ''Tour conventionnel''),
     (''FTRAD'', ''Fraisage conventionnel''), (''DECOUPE'', ''D'' @ [CHR 0xE9] @ ''coupe'')]"

definition family_char :: "char \<Rightarrow> bool" where
  "family_char c \<longleftrightarrow> c \<in> set ''ABCDEFGHIJKLMNOPQRSTUVWXYZ0123456789_''"

definition is_of_phase_family :: "string \<Rightarrow> bool" where
  "is_of_phase_family s \<longleftrightarrow> s \<noteq> [] \<and> length s \<le> 24 \<and> list_all family_char s"

definition family_label :: "string option \<Rightarrow> machine_family list option \<Rightarrow> string option" where
  "family_label code referential =
     (if \<not> truthy code then None
      else case (case referential of None \<Rightarrow> None | Some fs \<Rightarrow> find (\<lambda>f. mf_code f = or_empty code) fs) of
        Some f \<Rightarrow> Some (mf_libelle f)
      | None \<Rightarrow> (case map_of OF_PHASE_FAMILY_FALLBACK_LABELS (or_empty code) of Some l \<Rightarrow> Some l | None \<Rightarrow> code))"

definition assert_known_family :: "string option \<Rightarrow> machine_family list \<Rightarrow> string option result" where
  "assert_known_family code referential =
     (if \<not> truthy code then Inr None
      else if \<not> is_of_phase_family (or_empty code) then Inl (JsError ''Code de famille machine invalide'')
      else if \<not> list_ex (\<lambda>f. mf_code f = or_empty code) referential then Inl (JsError ''Famille machine inconnue'')
      else Inr code)"

datatype of_revision_statut = BROUILLON | ACTIVE | OBSOLETE

section \<open>Codes\<close>

definition format_revision_code :: "int \<Rightarrow> string result" where
  "format_revision_code rank =
     (if rank < 0 then Inl (JsError ''Rang de revision invalide'') else Inr (CHR ''R'' # pad_start 2 (CHR ''0'') (show_nat (nat rank))))"

definition parse_revision_code :: "string \<Rightarrow> nat option" where
  "parse_revision_code code =
     (case js_trim code of
        c # ds \<Rightarrow> if c = CHR ''R'' \<and> 2 \<le> length ds \<and> list_all is_digit ds then Some (read_nat ds) else None
      | [] \<Rightarrow> None)"

definition next_revision_rank :: "nat option \<Rightarrow> nat" where
  "next_revision_rank r = (case r of None \<Rightarrow> 0 | Some n \<Rightarrow> n + 1)"

section \<open>Contents\<close>

record revision_operation =
  ro_phase :: int
  ro_designation :: string
  ro_family :: "string option"
  ro_machine_id :: "string option"
  ro_machine_label :: "string option"
  ro_programme :: "string option"
  ro_temps_unitaire :: rat
  ro_preparation :: rat
  ro_quantite_base :: rat
  ro_coefficient :: rat
  ro_cf_code :: "string option"
  ro_cf_rate_id :: "string option"
  ro_taux_horaire :: "rat option"
  ro_taux_horaire_source :: "string option"
  ro_taux_horaire_effective_at :: "string option"

record revision_matiere =
  rm_reference :: "string option"
  rm_designation :: "string option"
  rm_nuance :: "string option"
  rm_longueur_brut_mm :: "rat option"
  rm_nombre_bruts :: "rat option"
  rm_pieces_par_brut :: "rat option"
  rm_masse_totale_kg :: "rat option"

record revision_snapshot =
  rs_of_id :: nat
  rs_of_numero :: string
  rs_piece_reference :: "string option"
  rs_piece_designation :: "string option"
  rs_piece_indice :: "string option"
  rs_gamme_id :: "string option"
  rs_gamme_code :: "string option"
  rs_gamme_version :: "string option"
  rs_quantite_lancee :: rat
  rs_matiere :: "revision_matiere option"
  rs_operations :: "revision_operation list"

definition build_revision_snapshot :: "revision_snapshot \<Rightarrow> revision_snapshot" where
  "build_revision_snapshot s = s\<lparr>rs_operations := sort_key ro_phase (rs_operations s)\<rparr>"

definition phase_fabrication_time :: "revision_operation \<Rightarrow> rat" where
  "phase_fabrication_time x = ro_temps_unitaire x * ro_quantite_base x * ro_coefficient x"

definition phase_final_time :: "revision_operation \<Rightarrow> rat" where
  "phase_final_time x = ro_preparation x + phase_fabrication_time x"

definition snapshot_total_time :: "revision_snapshot \<Rightarrow> rat" where
  "snapshot_total_time s = foldl (\<lambda>t x. t + phase_final_time x) 0 (rs_operations s)"

section \<open>Differences\<close>

text \<open>The value of a field, \<open>undefined\<close> read as \<open>null\<close>.\<close>

datatype field_value = VNull | VText string | VNum rat

definition text_value :: "string option \<Rightarrow> field_value" where
  "text_value v = (case v of None \<Rightarrow> VNull | Some s \<Rightarrow> VText s)"

definition num_value :: "rat option \<Rightarrow> field_value" where
  "num_value v = (case v of None \<Rightarrow> VNull | Some x \<Rightarrow> VNum x)"

fun same_value :: "field_value \<Rightarrow> field_value \<Rightarrow> bool" where
  "same_value (VNum a) (VNum b) \<longleftrightarrow> \<bar>a - b\<bar> < 1 / 1000000000"
| "same_value a b \<longleftrightarrow> a = b"

type_synonym field_change = "string \<times> field_value \<times> field_value"

definition field_changes :: "(string \<times> field_value) list \<Rightarrow> (string \<times> field_value) list \<Rightarrow> field_change list" where
  "field_changes before after =
     map (\<lambda>((f, b), (_, a)). (f, b, a)) (filter (\<lambda>((_, b), (_, a)). \<not> same_value b a) (zip before after))"

definition header_fields :: "revision_snapshot \<Rightarrow> (string \<times> field_value) list" where
  "header_fields s = [(''ofNumero'', VText (rs_of_numero s)), (''pieceReference'', text_value (rs_piece_reference s)),
     (''pieceDesignation'', text_value (rs_piece_designation s)), (''pieceIndice'', text_value (rs_piece_indice s)),
     (''gammeId'', text_value (rs_gamme_id s)), (''gammeCode'', text_value (rs_gamme_code s)),
     (''gammeVersion'', text_value (rs_gamme_version s)), (''quantiteLancee'', VNum (rs_quantite_lancee s))]"

definition matiere_fields :: "revision_matiere option \<Rightarrow> (string \<times> field_value) list" where
  "matiere_fields m =
     [(''reference'', text_value (Option.bind m rm_reference)), (''designation'', text_value (Option.bind m rm_designation)),
      (''nuance'', text_value (Option.bind m rm_nuance)), (''longueurBrutMm'', num_value (Option.bind m rm_longueur_brut_mm)),
      (''nombreBruts'', num_value (Option.bind m rm_nombre_bruts)), (''piecesParBrut'', num_value (Option.bind m rm_pieces_par_brut)),
      (''masseTotaleKg'', num_value (Option.bind m rm_masse_totale_kg))]"

definition phase_fields :: "revision_operation \<Rightarrow> (string \<times> field_value) list" where
  "phase_fields x =
     [(''designation'', VText (ro_designation x)), (''family'', text_value (ro_family x)), (''machineId'', text_value (ro_machine_id x)),
      (''machineLabel'', text_value (ro_machine_label x)), (''programme'', text_value (ro_programme x)),
      (''tempsUnitaire'', VNum (ro_temps_unitaire x)), (''preparation'', VNum (ro_preparation x)),
      (''quantiteBase'', VNum (ro_quantite_base x)), (''coefficient'', VNum (ro_coefficient x)), (''cfCode'', text_value (ro_cf_code x)),
      (''cfRateId'', text_value (ro_cf_rate_id x)), (''tauxHoraire'', num_value (ro_taux_horaire x)),
      (''tauxHoraireSource'', text_value (ro_taux_horaire_source x)),
      (''tauxHoraireEffectiveAt'', text_value (ro_taux_horaire_effective_at x))]"

text \<open>\<open>new Map(xs.map(x => [key(x), x]))\<close>: the last element of a key, at the place of the first.\<close>

definition keyed :: "('a \<Rightarrow> 'k) \<Rightarrow> 'a list \<Rightarrow> ('k \<times> 'a) list" where
  "keyed key xs = fold (\<lambda>x. AList.update (key x) x) xs []"

datatype change_kind = AJOUTEE | RETIREE | MODIFIEE

text \<open>The comparison of two such maps: an element added, two elements of one key, an element removed.\<close>

definition keyed_merge :: "('k \<Rightarrow> 'a \<Rightarrow> 'x) \<Rightarrow> ('k \<Rightarrow> 'a \<Rightarrow> 'a \<Rightarrow> 'x option) \<Rightarrow> ('k \<Rightarrow> 'a \<Rightarrow> 'x) \<Rightarrow> ('k \<times> 'a) list \<Rightarrow> ('k \<times> 'a) list \<Rightarrow> 'x list" where
  "keyed_merge added changed removed before after =
     List.map_filter (\<lambda>(k, a). case map_of before k of None \<Rightarrow> Some (added k a) | Some b \<Rightarrow> changed k b a) after
     @ List.map_filter (\<lambda>(k, b). if map_of after k = None then Some (removed k b) else None) before"

type_synonym phase_change = "int \<times> change_kind \<times> field_change list"

definition phase_changes :: "('a \<Rightarrow> 'a \<Rightarrow> field_change list) \<Rightarrow> (int \<times> 'a) list \<Rightarrow> (int \<times> 'a) list \<Rightarrow> phase_change list" where
  "phase_changes changes before after = sort_key fst
     (keyed_merge (\<lambda>k _. (k, AJOUTEE, [])) (\<lambda>k b a. if changes b a \<noteq> [] then Some (k, MODIFIEE, changes b a) else None)
       (\<lambda>k _. (k, RETIREE, [])) before after)"

definition round4 :: "rat \<Rightarrow> rat" where
  "round4 x = of_int \<lfloor>x * 10000 + 1 / 2\<rfloor> / 10000"

record revision_diff =
  rd_identical :: bool
  rd_header :: "field_change list"
  rd_matiere :: "field_change list"
  rd_phases :: "phase_change list"
  rd_ajoutees :: nat
  rd_retirees :: nat
  rd_modifiees :: nat
  rd_delta_temps_total :: rat

definition count_kind :: "change_kind \<Rightarrow> ('k \<times> change_kind \<times> 'c) list \<Rightarrow> nat" where
  "count_kind k ds = length (filter (\<lambda>d. fst (snd d) = k) ds)"

definition operation_changes :: "revision_operation \<Rightarrow> revision_operation \<Rightarrow> field_change list" where
  "operation_changes b a = field_changes (phase_fields b) (phase_fields a)"

definition diff_revision_snapshots ::
  "(revision_snapshot \<Rightarrow> string) \<Rightarrow> revision_snapshot option \<Rightarrow> revision_snapshot \<Rightarrow> revision_diff" where
  "diff_revision_snapshots hash before after =
     (case before of
        None \<Rightarrow> \<lparr>rd_identical = False, rd_header = [], rd_matiere = [],
          rd_phases = sort_key fst (map (\<lambda>x. (ro_phase x, AJOUTEE, [])) (rs_operations after)),
          rd_ajoutees = length (rs_operations after), rd_retirees = 0, rd_modifiees = 0,
          rd_delta_temps_total = round4 (snapshot_total_time after)\<rparr>
      | Some b \<Rightarrow>
          (let phases = phase_changes operation_changes (keyed ro_phase (rs_operations b)) (keyed ro_phase (rs_operations after))
           in \<lparr>rd_identical = (hash b = hash after), rd_header = field_changes (header_fields b) (header_fields after),
             rd_matiere = field_changes (matiere_fields (rs_matiere b)) (matiere_fields (rs_matiere after)), rd_phases = phases,
             rd_ajoutees = count_kind AJOUTEE phases, rd_retirees = count_kind RETIREE phases,
             rd_modifiees = count_kind MODIFIEE phases,
             rd_delta_temps_total = round4 (snapshot_total_time after - snapshot_total_time b)\<rparr>))"

definition check_revision_creation :: "nat \<Rightarrow> string option \<Rightarrow> revision_diff \<Rightarrow> unit result" where
  "check_revision_creation next_rank motif d =
     (if 0 < next_rank \<and> js_trim (or_empty motif) = [] then Inl (JsError ''MOTIF_REQUIS'')
      else if rd_identical d then Inl (JsError ''REVISION_IDENTIQUE'') else Inr ())"

section \<open>The last operation of a phase\<close>

definition last_of :: "('a \<Rightarrow> 'k) \<Rightarrow> 'a list \<Rightarrow> 'k \<Rightarrow> 'a option" where
  "last_of key xs k = find (\<lambda>x. key x = k) (rev xs)"

lemma keyed_map_of: "map_of (keyed key xs) k = last_of key xs k"
proof (induction xs rule: rev_induct)
  case (snoc x xs)
  then show ?case by (simp add: keyed_def update_conv' last_of_def)
qed (simp add: keyed_def last_of_def)

lemma keyed_distinct: "distinct (map fst (keyed key xs))"
proof (induction xs rule: rev_induct)
  case (snoc x xs)
  then show ?case by (simp add: keyed_def distinct_update)
qed (simp add: keyed_def)

lemma map_filter_set: "x \<in> set (List.map_filter f xs) \<longleftrightarrow> (\<exists>y \<in> set xs. f y = Some x)"
  by (force simp: List.map_filter_def)

lemma map_filter_distinct:
  assumes "distinct (map fst xs)" "\<And>x y. x \<in> set xs \<Longrightarrow> f x = Some y \<Longrightarrow> g y = fst x"
  shows "distinct (map g (List.map_filter f xs))"
  using assms
proof (induction xs)
  case (Cons x xs)
  have IH: "distinct (map g (List.map_filter f xs))" using Cons by simp
  show ?case
  proof (cases "f x")
    case (Some y)
    have "g z \<noteq> g y" if z: "z \<in> set (List.map_filter f xs)" for z
    proof -
      obtain w where "w \<in> set xs" "f w = Some z" using z by (auto simp: map_filter_set)
      then have w: "g z = fst w" "g y = fst x" "fst w \<in> fst ` set xs" using Cons.prems(2) Some by auto
      have "fst x \<notin> fst ` set xs" using Cons.prems(1) by simp
      then show ?thesis using w by metis
    qed
    then have "g y \<notin> set (map g (List.map_filter f xs))" by (metis imageE set_map)
    then show ?thesis using IH Some by (simp add: List.map_filter_simps)
  qed (use IH in \<open>simp add: List.map_filter_simps\<close>)
qed (simp add: List.map_filter_simps)

lemma keyed_merge_set:
  assumes "distinct (map fst before)" "distinct (map fst after)"
  shows "x \<in> set (keyed_merge ad ch rm before after) \<longleftrightarrow>
      (\<exists>k a. map_of after k = Some a \<and> map_of before k = None \<and> x = ad k a)
    \<or> (\<exists>k a b. map_of after k = Some a \<and> map_of before k = Some b \<and> ch k b a = Some x)
    \<or> (\<exists>k b. map_of before k = Some b \<and> map_of after k = None \<and> x = rm k b)" (is "_ \<longleftrightarrow> ?A \<or> ?C \<or> ?R")
proof -
  have m: "map_of after k = Some a \<longleftrightarrow> (k, a) \<in> set after" "map_of before k = Some b \<longleftrightarrow> (k, b) \<in> set before" for k a b
    using assms by simp_all
  have "x \<in> set (List.map_filter (\<lambda>(k, a). case map_of before k of None \<Rightarrow> Some (ad k a) | Some b \<Rightarrow> ch k b a) after)
      \<longleftrightarrow> (\<exists>k a. map_of after k = Some a \<and> (case map_of before k of None \<Rightarrow> x = ad k a | Some b \<Rightarrow> ch k b a = Some x))"
    unfolding map_filter_set m(1) Bex_def split_paired_Ex prod.case
    by (intro ex_cong1 conj_cong refl) (auto split: option.splits)
  moreover have "\<dots> \<longleftrightarrow> ?A \<or> ?C"
  proof -
    have "(case map_of before k of None \<Rightarrow> x = ad k a | Some b \<Rightarrow> ch k b a = Some x) \<longleftrightarrow>
        (map_of before k = None \<and> x = ad k a) \<or> (\<exists>b. map_of before k = Some b \<and> ch k b a = Some x)" for k a
      by (cases "map_of before k") auto
    then show ?thesis by (simp only:) blast
  qed
  moreover have "x \<in> set (List.map_filter (\<lambda>(k, b). if map_of after k = None then Some (rm k b) else None) before) \<longleftrightarrow> ?R"
    unfolding map_filter_set m(2) Bex_def split_paired_Ex prod.case by (auto split: if_splits)
  ultimately show ?thesis unfolding keyed_merge_def set_append Un_iff by blast
qed

lemma keyed_merge_distinct:
  assumes "distinct (map fst before)" "distinct (map fst after)"
    and "\<And>k a. g (ad k a) = k" "\<And>k b a y. ch k b a = Some y \<Longrightarrow> g y = k" "\<And>k b. g (rm k b) = k"
  shows "distinct (map g (keyed_merge ad ch rm before after))"
proof -
  let ?l = "List.map_filter (\<lambda>(k, a). case map_of before k of None \<Rightarrow> Some (ad k a) | Some b \<Rightarrow> ch k b a) after"
  let ?r = "List.map_filter (\<lambda>(k, b). if map_of after k = None then Some (rm k b) else None) before"
  have l: "g y = fst x" if "(case x of (k, a) \<Rightarrow> case map_of before k of None \<Rightarrow> Some (ad k a) | Some b \<Rightarrow> ch k b a) = Some y" for x y
    using that assms(3,4) by (auto split: option.splits prod.splits)
  have r: "g y = fst x \<and> map_of after (fst x) = None" if "(case x of (k, b) \<Rightarrow> if map_of after k = None then Some (rm k b) else None) = Some y" for x y
    using that assms(5) by (auto split: prod.splits if_splits)
  have "distinct (map g ?l)" by (rule map_filter_distinct [OF assms(2)]) (rule l)
  moreover have "distinct (map g ?r)" by (rule map_filter_distinct [OF assms(1)]) (use r in blast)
  moreover have "set (map g ?l) \<subseteq> fst ` set after"
  proof
    fix k assume "k \<in> set (map g ?l)"
    then obtain y where y: "y \<in> set ?l" "k = g y" by auto
    then obtain x where x: "x \<in> set after" "(case x of (k, a) \<Rightarrow> case map_of before k of None \<Rightarrow> Some (ad k a) | Some b \<Rightarrow> ch k b a) = Some y"
      unfolding map_filter_set by blast
    show "k \<in> fst ` set after" using l [OF x(2)] x(1) y(2) by simp
  qed
  moreover have "set (map g ?r) \<inter> fst ` set after = {}"
  proof -
    have "g y \<notin> fst ` set after" if y: "y \<in> set ?r" for y
    proof -
      obtain x where x: "(case x of (k, b) \<Rightarrow> if map_of after k = None then Some (rm k b) else None) = Some y"
        using y unfolding map_filter_set by blast
      show ?thesis using r [OF x] by (simp add: map_of_eq_None_iff)
    qed
    then show ?thesis by auto
  qed
  ultimately show ?thesis unfolding keyed_merge_def map_append distinct_append by blast
qed

lemma phase_changes_set:
  assumes "distinct (map fst before)" "distinct (map fst after)"
  shows "(k, kind, cs) \<in> set (phase_changes changes before after) \<longleftrightarrow>
    (case (map_of before k, map_of after k) of
       (None, None) \<Rightarrow> False
     | (None, Some _) \<Rightarrow> kind = AJOUTEE \<and> cs = []
     | (Some _, None) \<Rightarrow> kind = RETIREE \<and> cs = []
     | (Some b, Some a) \<Rightarrow> kind = MODIFIEE \<and> cs = changes b a \<and> cs \<noteq> [])"
  unfolding phase_changes_def set_sort keyed_merge_set [OF assms]
  by (cases "map_of before k"; cases "map_of after k") auto

lemma phase_changes_order:
  assumes "distinct (map fst before)" "distinct (map fst after)"
  shows "sorted (map fst (phase_changes changes before after))" "distinct (map fst (phase_changes changes before after))"
proof -
  show "sorted (map fst (phase_changes changes before after))" unfolding phase_changes_def by (rule sorted_sort_key)
  have "distinct (map fst (keyed_merge (\<lambda>k _. (k, AJOUTEE, [])) (\<lambda>k b a. if changes b a \<noteq> [] then Some (k, MODIFIEE, changes b a) else None)
      (\<lambda>k _. (k, RETIREE, [])) before after))" by (rule keyed_merge_distinct [OF assms]) (auto split: if_splits)
  then show "distinct (map fst (phase_changes changes before after))"
    unfolding phase_changes_def by (simp add: distinct_map)
qed

section \<open>What the differences say\<close>

lemma same_value_refl [simp]: "same_value v v"
  by (cases v) simp_all

lemma field_changes_self [simp]: "field_changes fs fs = []"
  by (induction fs) (auto simp: field_changes_def)

lemma phase_changes_self: "distinct (map fst m) \<Longrightarrow> (\<And>x. changes x x = []) \<Longrightarrow> phase_changes changes m m = []"
proof -
  assume d: "distinct (map fst m)" and c: "\<And>x. changes x x = []"
  have "(k, kind, cs) \<notin> set (phase_changes changes m m)" for k kind cs
    unfolding phase_changes_set [OF d d] using c by (cases "map_of m k") simp_all
  then show ?thesis by (metis last_in_set prod_cases3)
qed

lemma count_kinds: "count_kind AJOUTEE ds + count_kind RETIREE ds + count_kind MODIFIEE ds = length ds"
proof (induction ds)
  case (Cons d ds)
  then show ?case by (cases "fst (snd d)") (simp_all add: count_kind_def)
qed (simp add: count_kind_def)

text \<open>A revision that changes nothing shows no difference and is refused.\<close>

lemma unchanged_revision_refused:
  "rd_phases (diff_revision_snapshots hash (Some s) s) = [] \<and> rd_header (diff_revision_snapshots hash (Some s) s) = []
   \<and> rd_matiere (diff_revision_snapshots hash (Some s) s) = []
   \<and> check_revision_creation n motif (diff_revision_snapshots hash (Some s) s) \<noteq> Inr ()"
  using phase_changes_self [of "keyed ro_phase (rs_operations s)" operation_changes, OF keyed_distinct]
  by (simp add: diff_revision_snapshots_def check_revision_creation_def operation_changes_def)

lemma revision_code_codec: "case format_revision_code (int n) of Inl _ \<Rightarrow> False | Inr c \<Rightarrow> parse_revision_code c = Some n"
proof -
  let ?p = "pad_start 2 (CHR ''0'') (show_nat n)"
  have d: "list_all is_digit ?p" by (rule pad_start_digits) (simp add: list_all_iff show_nat_digits)
  have l: "2 \<le> length ?p" by (simp add: pad_start_def)
  have "\<not> js_space c" if "is_digit c \<or> c = CHR ''R''" for c
    using that by (auto simp: js_space_def is_digit_def)
  then have "\<not> js_space (hd (CHR ''R'' # ?p))" "\<not> js_space (last (CHR ''R'' # ?p))"
    using d l last_in_set [of ?p] by (auto simp: list_all_iff)
  then have "js_trim (CHR ''R'' # ?p) = CHR ''R'' # ?p" by (intro js_trim_id) (simp add: trimmed_def)
  then show ?thesis using d l by (simp add: format_revision_code_def parse_revision_code_def)
qed


end
