(* ===== verification/Planning_Versions.thy ===== *)
theory Planning_Versions
  imports Complex_Main Of_Revision Interfaces "HOL-Library.List_Lexorder" "HOL-Library.Char_ord"
begin

text \<open>
  \<open>src/module/production/domain/of-planning-version.ts\<close> and \<open>ar-recalage.ts\<close>: the versions of the plan of a
  works order, the comparison of a draft with the active plan, and the files opened to renew the
  acknowledgement of a customer when the comparison touches an engagement. The reading of a date in
  milliseconds and the collation of \<open>localeCompare\<close> are arguments.
\<close>

section \<open>Statuses\<close>

datatype planning_statut = PL_ACTIF | PL_BROUILLON | PL_SOUMIS | PL_VALIDE | PL_REFUSE | PL_SUPERSEDE

fun planning_transitions :: "planning_statut \<Rightarrow> planning_statut list" where
  "planning_transitions PL_ACTIF = [PL_SUPERSEDE]"
| "planning_transitions PL_BROUILLON = [PL_SOUMIS, PL_REFUSE]"
| "planning_transitions PL_SOUMIS = [PL_VALIDE, PL_REFUSE, PL_BROUILLON]"
| "planning_transitions PL_VALIDE = [PL_ACTIF]"
| "planning_transitions PL_REFUSE = []"
| "planning_transitions PL_SUPERSEDE = []"

definition can_transition_planning_statut :: "planning_statut \<Rightarrow> planning_statut \<Rightarrow> bool" where
  "can_transition_planning_statut s t \<longleftrightarrow> s = t \<or> t \<in> set (planning_transitions s)"

definition check_planning_transition :: "planning_statut \<Rightarrow> planning_statut \<Rightarrow> unit result" where
  "check_planning_transition s t =
     (if can_transition_planning_statut s t then Inr () else Inl (HttpError 422 ''TRANSITION_INTERDITE''))"

datatype ar_statut = AR_A_TRAITER | AR_EN_COURS | AR_RECALE | AR_ABANDONNE

fun ar_recalage_transitions :: "ar_statut \<Rightarrow> ar_statut list" where
  "ar_recalage_transitions AR_A_TRAITER = [AR_EN_COURS, AR_ABANDONNE]"
| "ar_recalage_transitions AR_EN_COURS = [AR_RECALE, AR_ABANDONNE, AR_A_TRAITER]"
| "ar_recalage_transitions AR_RECALE = []"
| "ar_recalage_transitions AR_ABANDONNE = []"

definition can_transition_ar_statut :: "ar_statut \<Rightarrow> ar_statut \<Rightarrow> bool" where
  "can_transition_ar_statut s t \<longleftrightarrow> s = t \<or> t \<in> set (ar_recalage_transitions s)"

interpretation plan: guarded_machine planning_transitions "\<lambda>s. s = PL_REFUSE \<or> s = PL_SUPERSEDE" can_transition_planning_statut True
proof unfold_locales
  fix s t
  show "(s = PL_REFUSE \<or> s = PL_SUPERSEDE) = (planning_transitions s = [])" by (cases s) simp_all
  show "s \<notin> set (planning_transitions s)" by (cases s) simp_all
  show "can_transition_planning_statut s t = (True \<and> s = t \<or> t \<in> set (planning_transitions s))"
    by (auto simp: can_transition_planning_statut_def)
qed

interpretation ar_file: guarded_machine ar_recalage_transitions "\<lambda>s. s = AR_RECALE \<or> s = AR_ABANDONNE" can_transition_ar_statut True
proof unfold_locales
  fix s t
  show "(s = AR_RECALE \<or> s = AR_ABANDONNE) = (ar_recalage_transitions s = [])" by (cases s) simp_all
  show "s \<notin> set (ar_recalage_transitions s)" by (cases s) simp_all
  show "can_transition_ar_statut s t = (True \<and> s = t \<or> t \<in> set (ar_recalage_transitions s))"
    by (auto simp: can_transition_ar_statut_def)
qed

section \<open>Plans\<close>

record planned_operation =
  po_phase :: int
  po_designation :: string
  po_family :: "string option"
  po_machine_id :: "string option"
  po_machine_label :: "string option"
  po_debut :: "string option"
  po_fin :: "string option"
  po_duree_h :: rat
  po_quantite :: rat

record cadence_echeance =
  ce_date :: string
  ce_quantite :: rat
  ce_affaire_id :: "int option"

record delivery_engagement =
  de_affaire_id :: int
  de_affaire_numero :: "string option"
  de_commande_id :: "int option"
  de_commande_numero :: "string option"
  de_client_id :: "string option"
  de_delai_client :: "string option"
  de_quantite :: rat

record planning_payload =
  pp_of_id :: nat
  pp_of_numero :: string
  pp_revision_code :: "string option"
  pp_quantite :: rat
  pp_date_debut :: "string option"
  pp_date_fin :: "string option"
  pp_charge_totale_h :: rat
  pp_operations :: "planned_operation list"
  pp_cadence :: "cadence_echeance list"
  pp_engagements :: "delivery_engagement list"

record planning_env =
  pe_parse_date :: "string \<Rightarrow> int option"
  pe_collation :: "string \<Rightarrow> string"
  pe_canonical :: "planning_payload \<Rightarrow> string"

definition build_planning_payload :: "planning_env \<Rightarrow> planning_payload \<Rightarrow> planning_payload" where
  "build_planning_payload env p =
     p\<lparr>pp_operations := sort_key po_phase (pp_operations p),
       pp_cadence := sort_key (\<lambda>c. pe_collation env (ce_date c)) (pp_cadence p),
       pp_engagements := sort_key de_affaire_id (pp_engagements p)\<rparr>"

definition planning_payloads_identical :: "planning_env \<Rightarrow> planning_payload \<Rightarrow> planning_payload \<Rightarrow> bool" where
  "planning_payloads_identical env a b \<longleftrightarrow> pe_canonical env a = pe_canonical env b"

section \<open>Comparison\<close>

datatype client_impact = AUCUN | DELAI | CADENCE | DELAI_ET_CADENCE

definition plan_header_fields :: "planning_payload \<Rightarrow> (string \<times> field_value) list" where
  "plan_header_fields p = [(''quantite'', VNum (pp_quantite p)), (''dateDebut'', text_value (pp_date_debut p)),
     (''dateFin'', text_value (pp_date_fin p)), (''chargeTotaleH'', VNum (pp_charge_totale_h p))]"

definition planned_fields :: "planned_operation \<Rightarrow> (string \<times> field_value) list" where
  "planned_fields x = [(''designation'', VText (po_designation x)), (''family'', text_value (po_family x)),
     (''machineId'', text_value (po_machine_id x)), (''machineLabel'', text_value (po_machine_label x)),
     (''debut'', text_value (po_debut x)), (''fin'', text_value (po_fin x)),
     (''dureeH'', VNum (po_duree_h x)), (''quantite'', VNum (po_quantite x))]"

text \<open>Whole days between two dates; a bare day is read at midnight UTC.\<close>

definition day_instant :: "planning_env \<Rightarrow> string \<Rightarrow> int option" where
  "day_instant env d = pe_parse_date env (if length d \<le> 10 then d @ ''T00:00:00Z'' else d)"

definition MS_PER_DAY :: int where
  "MS_PER_DAY = 86400000"

definition diff_days :: "planning_env \<Rightarrow> string option \<Rightarrow> string option \<Rightarrow> int option" where
  "diff_days env from to =
     (if \<not> truthy from \<or> \<not> truthy to then None
      else case (day_instant env (or_empty from), day_instant env (or_empty to)) of
        (Some a, Some b) \<Rightarrow> Some \<lfloor>of_int (b - a) / of_int MS_PER_DAY + (1 / 2 :: rat)\<rfloor>
      | _ \<Rightarrow> None)"

record cadence_change =
  cc_date :: string
  cc_affaire_id :: "int option"
  cc_kind :: change_kind
  cc_avant :: "rat option"
  cc_apres :: "rat option"

record engagement_check =
  ec_affaire_id :: int
  ec_affaire_numero :: "string option"
  ec_commande_id :: "int option"
  ec_client_id :: "string option"
  ec_delai_client :: "string option"
  ec_nouvelle_date :: "string option"
  ec_depasse :: bool
  ec_retard_jours :: int

record planning_comparison =
  pc_identical :: bool
  pc_header :: "field_change list"
  pc_operations :: "phase_change list"
  pc_cadence :: "cadence_change list"
  pc_engagements :: "engagement_check list"
  pc_ajoutees :: nat
  pc_retirees :: nat
  pc_modifiees :: nat
  pc_machines_changees :: nat
  pc_delta_charge_h :: rat
  pc_delta_fin_jours :: "int option"
  pc_cadence_modifiee :: bool
  pc_engagements_depasses :: nat
  pc_client_impact :: client_impact

definition cadence_key :: "cadence_echeance \<Rightarrow> string" where
  "cadence_key c = (case ce_affaire_id c of None \<Rightarrow> [] | Some n \<Rightarrow> show_int n) @ ''|'' @ ce_date c"

definition cadence_added :: "string \<Rightarrow> cadence_echeance \<Rightarrow> cadence_change" where
  "cadence_added k c = \<lparr>cc_date = ce_date c, cc_affaire_id = ce_affaire_id c, cc_kind = AJOUTEE, cc_avant = None,
     cc_apres = Some (ce_quantite c)\<rparr>"

definition cadence_removed :: "string \<Rightarrow> cadence_echeance \<Rightarrow> cadence_change" where
  "cadence_removed k c = \<lparr>cc_date = ce_date c, cc_affaire_id = ce_affaire_id c, cc_kind = RETIREE,
     cc_avant = Some (ce_quantite c), cc_apres = None\<rparr>"

definition cadence_modified :: "string \<Rightarrow> cadence_echeance \<Rightarrow> cadence_echeance \<Rightarrow> cadence_change option" where
  "cadence_modified k b c =
     (if same_value (VNum (ce_quantite b)) (VNum (ce_quantite c)) then None
      else Some \<lparr>cc_date = ce_date c, cc_affaire_id = ce_affaire_id c, cc_kind = MODIFIEE, cc_avant = Some (ce_quantite b),
        cc_apres = Some (ce_quantite c)\<rparr>)"

text \<open>The order of the list: by the collation of the date, then by the affaire, none counting as zero.\<close>

definition affaire_rank :: "int option \<Rightarrow> int" where
  "affaire_rank a = (case a of None \<Rightarrow> 0 | Some n \<Rightarrow> n)"

definition cadence_changes :: "planning_env \<Rightarrow> cadence_echeance list \<Rightarrow> cadence_echeance list \<Rightarrow> cadence_change list" where
  "cadence_changes env before after =
     sort_key (\<lambda>c. pe_collation env (cc_date c))
       (sort_key (\<lambda>c. affaire_rank (cc_affaire_id c))
         (keyed_merge cadence_added cadence_modified cadence_removed (keyed cadence_key before) (keyed cadence_key after)))"

definition nouvelle_date :: "planning_payload \<Rightarrow> delivery_engagement \<Rightarrow> string option" where
  "nouvelle_date after e =
     (let dates = sort (map ce_date (filter (\<lambda>c. ce_affaire_id c = Some (de_affaire_id e)) (pp_cadence after)))
      in if dates = [] then pp_date_fin after else Some (last dates))"

definition check_engagement :: "planning_env \<Rightarrow> planning_payload \<Rightarrow> delivery_engagement \<Rightarrow> engagement_check" where
  "check_engagement env after e =
     (let retard = diff_days env (de_delai_client e) (nouvelle_date after e);
          jours = (case retard of None \<Rightarrow> 0 | Some d \<Rightarrow> if 0 < d then d else 0)
      in \<lparr>ec_affaire_id = de_affaire_id e, ec_affaire_numero = de_affaire_numero e, ec_commande_id = de_commande_id e,
           ec_client_id = de_client_id e, ec_delai_client = de_delai_client e, ec_nouvelle_date = nouvelle_date after e,
           ec_depasse = (0 < jours), ec_retard_jours = jours\<rparr>)"

definition client_impact_of :: "bool \<Rightarrow> bool \<Rightarrow> client_impact" where
  "client_impact_of late cadence =
     (if late \<and> cadence then DELAI_ET_CADENCE else if late then DELAI else if cadence then CADENCE else AUCUN)"

definition planned_changes :: "planned_operation \<Rightarrow> planned_operation \<Rightarrow> field_change list" where
  "planned_changes b a = field_changes (planned_fields b) (planned_fields a)"

definition compare_planning_versions :: "planning_env \<Rightarrow> planning_payload option \<Rightarrow> planning_payload \<Rightarrow> planning_comparison" where
  "compare_planning_versions env before after =
     (let header = (case before of None \<Rightarrow> [] | Some b \<Rightarrow> field_changes (plan_header_fields b) (plan_header_fields after));
          ops = phase_changes planned_changes
            (keyed po_phase (case before of None \<Rightarrow> [] | Some b \<Rightarrow> pp_operations b)) (keyed po_phase (pp_operations after));
          cadence = cadence_changes env (case before of None \<Rightarrow> [] | Some b \<Rightarrow> pp_cadence b) (pp_cadence after);
          engagements = map (check_engagement env after) (pp_engagements after);
          late = length (filter ec_depasse engagements)
      in \<lparr>pc_identical = (case before of None \<Rightarrow> False | Some b \<Rightarrow> planning_payloads_identical env b after),
           pc_header = header, pc_operations = ops, pc_cadence = cadence, pc_engagements = engagements,
           pc_ajoutees = count_kind AJOUTEE ops, pc_retirees = count_kind RETIREE ops, pc_modifiees = count_kind MODIFIEE ops,
           pc_machines_changees = length (filter (\<lambda>x. list_ex (\<lambda>c. fst c = ''machineId'') (snd (snd x))) ops),
           pc_delta_charge_h = round4 (pp_charge_totale_h after - (case before of None \<Rightarrow> 0 | Some b \<Rightarrow> pp_charge_totale_h b)),
           pc_delta_fin_jours = (case before of None \<Rightarrow> None | Some b \<Rightarrow> diff_days env (pp_date_fin b) (pp_date_fin after)),
           pc_cadence_modifiee = (cadence \<noteq> []), pc_engagements_depasses = late,
           pc_client_impact = client_impact_of (0 < late) (cadence \<noteq> [])\<rparr>)"

definition requires_ar_recalage :: "planning_comparison \<Rightarrow> bool" where
  "requires_ar_recalage c \<longleftrightarrow> pc_client_impact c \<noteq> AUCUN"

section \<open>Files of the acknowledgements to renew\<close>

datatype ar_motif = DERIVE_TEMPS_USINAGE | MACHINE | MATIERE | QUALITE_REPRISE | SOUS_TRAITANCE | MODIFICATION_TECHNIQUE
  | CAPACITE | PRIORITE | AUTRE

fun motif_name :: "ar_motif \<Rightarrow> string" where
  "motif_name DERIVE_TEMPS_USINAGE = ''DERIVE_TEMPS_USINAGE''"
| "motif_name MACHINE = ''MACHINE''"
| "motif_name MATIERE = ''MATIERE''"
| "motif_name QUALITE_REPRISE = ''QUALITE_REPRISE''"
| "motif_name SOUS_TRAITANCE = ''SOUS_TRAITANCE''"
| "motif_name MODIFICATION_TECHNIQUE = ''MODIFICATION_TECHNIQUE''"
| "motif_name CAPACITE = ''CAPACITE''"
| "motif_name PRIORITE = ''PRIORITE''"
| "motif_name AUTRE = ''AUTRE''"

definition AR_RECALAGE_MOTIFS :: "ar_motif list" where
  "AR_RECALAGE_MOTIFS = [DERIVE_TEMPS_USINAGE, MACHINE, MATIERE, QUALITE_REPRISE, SOUS_TRAITANCE, MODIFICATION_TECHNIQUE,
     CAPACITE, PRIORITE, AUTRE]"

definition ar_motif_of :: "string \<Rightarrow> ar_motif option" where
  "ar_motif_of s = find (\<lambda>m. motif_name m = s) AR_RECALAGE_MOTIFS"

definition validate_ar_recalage_input :: "string \<Rightarrow> string option \<Rightarrow> unit result" where
  "validate_ar_recalage_input motif commentaire =
     (case ar_motif_of motif of
        None \<Rightarrow> Inl (HttpError 422 ''MOTIF_INVALIDE'')
      | Some m \<Rightarrow> if m = AUTRE \<and> js_trim (or_empty commentaire) = [] then Inl (HttpError 422 ''COMMENTAIRE_REQUIS'') else Inr ())"

text \<open>A change of cadence without an affaire touches every affaire the works order delivers.\<close>

definition affected_affaire_ids :: "planning_comparison \<Rightarrow> int list" where
  "affected_affaire_ids c = remdups
     (map ec_affaire_id (filter ec_depasse (pc_engagements c))
      @ concat (map (\<lambda>x. case cc_affaire_id x of Some a \<Rightarrow> [a] | None \<Rightarrow> map ec_affaire_id (pc_engagements c)) (pc_cadence c)))"

datatype ar_decision = NotRequired | Required client_impact "int list"

definition decide_ar_recalage :: "planning_comparison \<Rightarrow> ar_decision" where
  "decide_ar_recalage c =
     (if pc_client_impact c = AUCUN then NotRequired else Required (pc_client_impact c) (sort (affected_affaire_ids c)))"

type_synonym ar_cadence = "(string \<times> rat) list"

record ar_dossier =
  ad_client_id :: "string option"
  ad_client_nom :: "string option"
  ad_commande_id :: "int option"
  ad_commande_numero :: "string option"
  ad_affaire_id :: "int option"
  ad_affaire_numero :: "string option"
  ad_of_id :: nat
  ad_of_numero :: string
  ad_planning_version_id :: "nat option"
  ad_previous_date :: "string option"
  ad_previous_cadence :: "ar_cadence option"
  ad_new_date :: "string option"
  ad_new_cadence :: "ar_cadence option"
  ad_quantite :: "rat option"
  ad_motif :: ar_motif
  ad_commentaire :: "string option"
  ad_statut :: ar_statut
  ad_owner_user_id :: "nat option"

record ar_context =
  ac_of_id :: nat
  ac_of_numero :: string
  ac_planning_version_id :: "nat option"
  ac_motif :: ar_motif
  ac_commentaire :: "string option"
  ac_owner_user_id :: "nat option"
  ac_client_nom :: "string \<Rightarrow> string option"
  ac_commande_numero :: "int \<Rightarrow> string option"
  ac_previous_cadence :: "int \<Rightarrow> ar_cadence option"
  ac_new_cadence :: "int \<Rightarrow> ar_cadence option"
  ac_quantite :: "int \<Rightarrow> rat option"

definition non_blank :: "string option \<Rightarrow> string option" where
  "non_blank v = (if js_trim (or_empty v) = [] then None else Some (js_trim (or_empty v)))"

definition ar_dossier_of :: "ar_context \<Rightarrow> engagement_check \<Rightarrow> ar_dossier" where
  "ar_dossier_of ctx e =
     \<lparr>ad_client_id = ec_client_id e,
      ad_client_nom = (if truthy (ec_client_id e) then ac_client_nom ctx (or_empty (ec_client_id e)) else None),
      ad_commande_id = ec_commande_id e,
      ad_commande_numero = (case ec_commande_id e of None \<Rightarrow> None | Some n \<Rightarrow> if n = 0 then None else ac_commande_numero ctx n),
      ad_affaire_id = Some (ec_affaire_id e), ad_affaire_numero = ec_affaire_numero e,
      ad_of_id = ac_of_id ctx, ad_of_numero = ac_of_numero ctx, ad_planning_version_id = ac_planning_version_id ctx,
      ad_previous_date = ec_delai_client e, ad_previous_cadence = ac_previous_cadence ctx (ec_affaire_id e),
      ad_new_date = ec_nouvelle_date e, ad_new_cadence = ac_new_cadence ctx (ec_affaire_id e),
      ad_quantite = ac_quantite ctx (ec_affaire_id e), ad_motif = ac_motif ctx, ad_commentaire = non_blank (ac_commentaire ctx),
      ad_statut = AR_A_TRAITER, ad_owner_user_id = ac_owner_user_id ctx\<rparr>"

definition build_ar_recalage_dossiers :: "ar_context \<Rightarrow> planning_comparison \<Rightarrow> ar_dossier list result" where
  "build_ar_recalage_dossiers ctx c =
     (case decide_ar_recalage c of
        NotRequired \<Rightarrow> Inr []
      | Required _ _ \<Rightarrow>
          (case validate_ar_recalage_input (motif_name (ac_motif ctx)) (ac_commentaire ctx) of
             Inl _ \<Rightarrow> Inl (JsError ''Error'')
           | Inr _ \<Rightarrow> Inr (sort_key (\<lambda>d. affaire_rank (ad_affaire_id d))
               (map (ar_dossier_of ctx) (filter (\<lambda>e. ec_affaire_id e \<in> set (affected_affaire_ids c)) (pc_engagements c))))))"

section \<open>When the customer is concerned\<close>

text \<open>The specification of a missed engagement: the new date is at least half a day after the promise.\<close>

definition engagement_missed :: "planning_env \<Rightarrow> planning_payload \<Rightarrow> delivery_engagement \<Rightarrow> bool" where
  "engagement_missed env after e \<longleftrightarrow>
     truthy (de_delai_client e) \<and> truthy (nouvelle_date after e)
     \<and> (case (day_instant env (or_empty (de_delai_client e)), day_instant env (or_empty (nouvelle_date after e))) of
          (Some promised, Some planned) \<Rightarrow> MS_PER_DAY \<le> 2 * (planned - promised)
        | _ \<Rightarrow> False)"

lemma half_day: "0 < \<lfloor>of_int d / of_int MS_PER_DAY + (1 / 2 :: rat)\<rfloor> \<longleftrightarrow> MS_PER_DAY \<le> 2 * d"
proof -
  have "0 < \<lfloor>of_int d / of_int MS_PER_DAY + (1 / 2 :: rat)\<rfloor> \<longleftrightarrow> 1 \<le> of_int d / of_int MS_PER_DAY + (1 / 2 :: rat)"
    by (simp add: zero_less_floor)
  also have "\<dots> \<longleftrightarrow> (of_int MS_PER_DAY :: rat) \<le> of_int (2 * d)" by (simp add: MS_PER_DAY_def field_simps)
  finally show ?thesis by (simp only: of_int_le_iff)
qed

lemma check_engagement_depasse: "ec_depasse (check_engagement env after e) \<longleftrightarrow> engagement_missed env after e"
proof -
  let ?p = "day_instant env (or_empty (de_delai_client e))" and ?n = "day_instant env (or_empty (nouvelle_date after e))"
  have "0 < (case diff_days env (de_delai_client e) (nouvelle_date after e) of None \<Rightarrow> 0 | Some d \<Rightarrow> if 0 < d then d else 0)
      \<longleftrightarrow> engagement_missed env after e"
  proof (cases "truthy (de_delai_client e) \<and> truthy (nouvelle_date after e)")
    case True
    show ?thesis
    proof (cases "?p = None \<or> ?n = None")
      case True
      then show ?thesis by (auto simp: diff_days_def engagement_missed_def split: option.splits)
    next
      case False
      then obtain a b where "?p = Some a" "?n = Some b" by auto
      with True show ?thesis by (simp only: diff_days_def engagement_missed_def half_day [symmetric]) simp
    qed
  qed (auto simp: diff_days_def engagement_missed_def)
  then show ?thesis by (simp add: check_engagement_def Let_def)
qed

lemma cadence_key_inj: "cadence_key x = cadence_key y \<Longrightarrow> ce_affaire_id x = ce_affaire_id y \<and> ce_date x = ce_date y"
proof -
  assume e: "cadence_key x = cadence_key y"
  let ?p = "\<lambda>c. case ce_affaire_id c of None \<Rightarrow> [] | Some n \<Rightarrow> show_int n"
  have n: "CHR ''|'' \<notin> set (?p c)" for c
    using show_int_chars [of "CHR ''|''"] by (auto simp: is_digit_def split: option.splits)
  have t: "takeWhile (\<lambda>c. c \<noteq> CHR ''|'') (cadence_key c) = ?p c" for c
    unfolding cadence_key_def using n [of c] by (subst takeWhile_append2) auto
  have p: "?p x = ?p y" using t [of x] t [of y] e by simp
  moreover have "show_int n \<noteq> []" "[] \<noteq> show_int n" for n by (simp_all add: show_int_def) (metis show_nat_nonempty)
  ultimately have "ce_affaire_id x = ce_affaire_id y" by (auto split: option.splits dest: show_int_inj)
  moreover from this have "ce_date x = ce_date y" using e unfolding cadence_key_def by simp
  ultimately show ?thesis by simp
qed

text \<open>Two cadences promise the same: on every affaire and date, the last quantity written is the same.\<close>

definition same_promise :: "cadence_echeance list \<Rightarrow> cadence_echeance list \<Rightarrow> string \<Rightarrow> bool" where
  "same_promise before after k \<longleftrightarrow>
     (case (last_of cadence_key before k, last_of cadence_key after k) of
        (None, None) \<Rightarrow> True
      | (Some b, Some a) \<Rightarrow> \<bar>ce_quantite b - ce_quantite a\<bar> < 1 / 1000000000
      | _ \<Rightarrow> False)"

lemma cadence_unchanged_iff: "cadence_changes env before after = [] \<longleftrightarrow> (\<forall>k. same_promise before after k)"
proof -
  note d = keyed_distinct [of cadence_key before] keyed_distinct [of cadence_key after]
  let ?b = "last_of cadence_key before" and ?a = "last_of cadence_key after"
  have k: "same_promise before after k \<longleftrightarrow> \<not> (\<exists>a. ?a k = Some a \<and> ?b k = None)
      \<and> \<not> (\<exists>a b x. ?a k = Some a \<and> ?b k = Some b \<and> cadence_modified k b a = Some x) \<and> \<not> (\<exists>b. ?b k = Some b \<and> ?a k = None)" for k
    by (cases "?b k"; cases "?a k") (simp_all add: same_promise_def cadence_modified_def)
  have "cadence_changes env before after = [] \<longleftrightarrow> (\<forall>x. x \<notin> set (cadence_changes env before after))" by (auto simp: ex_in_conv)
  also have "\<dots> \<longleftrightarrow> (\<forall>k. same_promise before after k)"
    unfolding k cadence_changes_def set_sort keyed_merge_set [OF d] keyed_map_of by blast
  finally show ?thesis .
qed

text \<open>C25: A new plan is published without a word to the customer exactly when it keeps every engagement and
  promises the same quantities: no delivery planned at least half a day after the acknowledged date, and, for
  every affaire and date, the same quantity as the plan it replaces. Otherwise the comparison requires files
  of renewed acknowledgements.\<close>

theorem plan_published_silently_iff:
  "\<not> requires_ar_recalage (compare_planning_versions env (Some before) after) \<longleftrightarrow>
     list_all (\<lambda>e. \<not> engagement_missed env after e) (pp_engagements after)
     \<and> (\<forall>k. same_promise (pp_cadence before) (pp_cadence after) k)"
proof -
  have "pc_client_impact (compare_planning_versions env (Some before) after) = AUCUN \<longleftrightarrow>
      list_all (\<lambda>e. \<not> ec_depasse e) (map (check_engagement env after) (pp_engagements after))
      \<and> cadence_changes env (pp_cadence before) (pp_cadence after) = []"
    by (simp only: compare_planning_versions_def Let_def client_impact_of_def)
      (simp add: filter_empty_conv list_all_iff)
  then show ?thesis
    by (simp add: requires_ar_recalage_def cadence_unchanged_iff list.pred_map comp_def check_engagement_depasse)
qed

end
