(* ===== verification/Of_Versioning.thy ===== *)
theory Of_Versioning
  imports Complex_Main Planning_Versions Business_Codes
begin

text \<open>
  \<open>services/of-versioning.service.ts\<close> and \<open>repository/of-versioning.repository.ts\<close> of the production module, and
  \<open>shared/notifications/routing.ts\<close>: the drafts of the plan of a works order, their decisions, the files they
  open, and the people told. Each operation is one transaction under the advisory lock of its works
  order: it returns the new tables, or an error that leaves them as they were. Identifiers are numbers,
  a new one never used before; the hour, the user, the works orders and the hash are arguments. The
  partial unique indexes of the plans are not assumed: the invariant shows that the code respects them.
  The unique index on the key of a file is part of the model.
\<close>

section \<open>Who is told\<close>

record routing_rule =
  nr_topic :: string
  nr_role_key :: "string option"
  nr_user_id :: "nat option"
  nr_is_active :: bool

record notification_candidate =
  nc_user_id :: nat
  nc_primary_role :: "string option"
  nc_roles :: "string list"

definition normalize_role_name :: "string \<Rightarrow> string" where
  "normalize_role_name r = js_lower (js_trim (strip_diacritics r))"

definition candidate_roles :: "notification_candidate \<Rightarrow> string list" where
  "candidate_roles c = filter (\<lambda>r. r \<noteq> []) ((case nc_primary_role c of None \<Rightarrow> [] | Some r \<Rightarrow> [r]) @ nc_roles c)"

definition resolve_notification_recipients :: "string \<Rightarrow> routing_rule list \<Rightarrow> notification_candidate list \<Rightarrow> nat list" where
  "resolve_notification_recipients topic rules candidates =
     (let active = filter (\<lambda>r. nr_is_active r \<and> nr_topic r = topic) rules;
          role_keys = map normalize_role_name (List.map_filter nr_role_key active);
          designated = List.map_filter nr_user_id active;
          holders = map nc_user_id (filter (\<lambda>c. list_ex (\<lambda>r. normalize_role_name r \<in> set role_keys) (candidate_roles c)) candidates)
      in sort (remdups (designated @ holders)))"

section \<open>Tables\<close>

record of_header =
  oh_numero :: string
  oh_affaire_id :: "int option"
  oh_commande_id :: "int option"
  oh_commande_numero :: "string option"
  oh_client_id :: "string option"
  oh_client_nom :: "string option"
  oh_quantite_lancee :: rat
  oh_piece_reference :: "string option"
  oh_piece_designation :: "string option"
  oh_piece_indice :: "string option"
  oh_gamme_id :: "string option"
  oh_gamme_code :: "string option"
  oh_gamme_version :: "string option"

record plan_row =
  pv_id :: nat
  pv_of_id :: nat
  pv_revision_id :: "nat option"
  pv_version_rank :: nat
  pv_statut :: planning_statut
  pv_payload :: planning_payload
  pv_payload_sha256 :: string
  pv_base_version_id :: "nat option"
  pv_comparison :: planning_comparison
  pv_client_impact :: client_impact
  pv_source_proposal_id :: "nat option"
  pv_author :: nat
  pv_idempotency_key :: "string option"
  pv_submitted :: "(nat \<times> nat) option"
  pv_decided :: "(nat \<times> nat \<times> string option) option"
  pv_activated_at :: "nat option"
  pv_superseded_at :: "nat option"

record dossier_row =
  dr_id :: nat
  dr_dossier :: ar_dossier
  dr_created_by :: nat
  dr_idempotency_key :: "string option"
  dr_closed :: "(nat \<times> nat) option"

record revision_row =
  rr_id :: nat
  rr_of_id :: nat
  rr_rank :: nat
  rr_code :: string
  rr_statut :: of_revision_statut
  rr_snapshot :: revision_snapshot
  rr_sha256 :: string
  rr_diff :: "revision_diff option"
  rr_motif :: "string option"
  rr_author :: nat
  rr_superseded_at :: "nat option"
  rr_superseded_by :: "nat option"

record operation_row =
  op_id :: nat
  op_of_id :: nat
  op_revision_id :: nat
  op_content :: revision_operation

record visa_row =
  vi_id :: nat
  vi_operation_id :: nat
  vi_user_id :: nat
  vi_initials :: string
  vi_statut :: string
  vi_quantite_bonne :: "rat option"
  vi_quantite_rebut :: "rat option"
  vi_motif_rebut :: "string option"
  vi_controle_user_id :: "nat option"
  vi_controle_initials :: "string option"
  vi_comment :: "string option"

record ov_db =
  ov_revisions :: "revision_row list"
  ov_operations :: "operation_row list"
  ov_visas :: "visa_row list"
  ov_plans :: "plan_row list"
  ov_dossiers :: "dossier_row list"
  ov_audit :: "(string \<times> nat) list"
  ov_next :: nat

record ov_env =
  oe_planning :: planning_env
  oe_header :: "nat \<Rightarrow> of_header option"
  oe_sha256 :: "string \<Rightarrow> string"
  oe_canonical :: "revision_snapshot \<Rightarrow> string"
  oe_now :: nat
  oe_user :: nat
  oe_rules :: "routing_rule list"
  oe_candidates :: "notification_candidate list"

definition read_of_header :: "ov_env \<Rightarrow> nat \<Rightarrow> of_header result" where
  "read_of_header env n = (case oe_header env n of None \<Rightarrow> Inl (HttpError 404 ''OF_NOT_FOUND'') | Some h \<Rightarrow> Inr h)"

definition insert_audit_log :: "string \<Rightarrow> nat \<Rightarrow> ov_db \<Rightarrow> ov_db" where
  "insert_audit_log action entity db = db\<lparr>ov_audit := ov_audit db @ [(action, entity)]\<rparr>"

definition notify_topic :: "ov_env \<Rightarrow> string \<Rightarrow> nat list" where
  "notify_topic env topic =
     resolve_notification_recipients topic (filter (\<lambda>r. nr_topic r = topic \<and> nr_is_active r) (oe_rules env)) (oe_candidates env)"

section \<open>Plans\<close>

definition get_planning_version :: "nat \<Rightarrow> nat \<Rightarrow> plan_row list \<Rightarrow> plan_row option" where
  "get_planning_version n v plans = find (\<lambda>r. pv_id r = v \<and> pv_of_id r = n) plans"

text \<open>The row of highest rank in one of the statuses.\<close>

definition get_planning_by_statut :: "nat \<Rightarrow> planning_statut list \<Rightarrow> plan_row list \<Rightarrow> plan_row option" where
  "get_planning_by_statut n ss plans =
     (case rev (sort_key pv_version_rank (filter (\<lambda>r. pv_of_id r = n \<and> pv_statut r \<in> set ss) plans)) of
        [] \<Rightarrow> None | r # _ \<Rightarrow> Some r)"

definition next_planning_rank :: "nat \<Rightarrow> plan_row list \<Rightarrow> nat" where
  "next_planning_rank n plans = Max (set (0 # map (\<lambda>r. pv_version_rank r + 1) (filter (\<lambda>r. pv_of_id r = n) plans)))"

definition find_planning_by_idempotency_key :: "string \<Rightarrow> plan_row list \<Rightarrow> plan_row option" where
  "find_planning_by_idempotency_key k plans = find (\<lambda>r. pv_idempotency_key r = Some k) plans"

definition stamp_plan :: "ov_env \<Rightarrow> planning_statut \<Rightarrow> string option \<Rightarrow> plan_row \<Rightarrow> plan_row" where
  "stamp_plan env nxt comment r =
     (case nxt of
        PL_SOUMIS \<Rightarrow> r\<lparr>pv_statut := nxt, pv_submitted := Some (oe_now env, oe_user env)\<rparr>
      | PL_VALIDE \<Rightarrow> r\<lparr>pv_statut := nxt, pv_decided := Some (oe_now env, oe_user env, comment)\<rparr>
      | PL_REFUSE \<Rightarrow> r\<lparr>pv_statut := nxt, pv_decided := Some (oe_now env, oe_user env, comment)\<rparr>
      | PL_ACTIF \<Rightarrow> r\<lparr>pv_statut := nxt, pv_activated_at := Some (oe_now env)\<rparr>
      | PL_SUPERSEDE \<Rightarrow> r\<lparr>pv_statut := nxt, pv_superseded_at := Some (oe_now env)\<rparr>
      | PL_BROUILLON \<Rightarrow> r\<lparr>pv_statut := nxt\<rparr>)"

definition transition_planning_version ::
  "ov_env \<Rightarrow> nat \<Rightarrow> nat \<Rightarrow> planning_statut \<Rightarrow> planning_statut \<Rightarrow> string option \<Rightarrow> plan_row list \<Rightarrow> plan_row list result" where
  "transition_planning_version env n v expected nxt comment plans =
     (let hit = (\<lambda>r. pv_id r = v \<and> pv_of_id r = n \<and> pv_statut r = expected)
      in if list_ex hit plans then Inr (map (\<lambda>r. if hit r then stamp_plan env nxt comment r else r) plans)
         else Inl (HttpError 409 ''OF_PLANNING_CONFLICT''))"

definition get_active_revision :: "nat \<Rightarrow> revision_row list \<Rightarrow> revision_row option" where
  "get_active_revision n rows = find (\<lambda>r. rr_of_id r = n \<and> rr_statut r = ACTIVE) rows"

definition create_planning_draft ::
  "ov_env \<Rightarrow> nat \<Rightarrow> planning_payload \<Rightarrow> nat option \<Rightarrow> string option \<Rightarrow> ov_db \<Rightarrow> (ov_db \<times> plan_row \<times> bool) result" where
  "create_planning_draft env n p proposal key db =
     (case Option.bind key (\<lambda>k. find_planning_by_idempotency_key k (ov_plans db)) of
        Some r \<Rightarrow> Inr (db, r, True)
      | None \<Rightarrow>
     (case read_of_header env n of Inl e \<Rightarrow> Inl e | Inr h \<Rightarrow>
     (case get_planning_by_statut n [PL_BROUILLON, PL_SOUMIS] (ov_plans db) of
        Some _ \<Rightarrow> Inl (HttpError 409 ''OF_PLANNING_DRAFT_EXISTS'')
      | None \<Rightarrow>
     (let active = get_planning_by_statut n [PL_ACTIF] (ov_plans db);
          payload = build_planning_payload (oe_planning env) p;
          comparison = compare_planning_versions (oe_planning env) (map_option pv_payload active) payload;
          row = \<lparr>pv_id = ov_next db, pv_of_id = n, pv_revision_id = map_option rr_id (get_active_revision n (ov_revisions db)),
            pv_version_rank = next_planning_rank n (ov_plans db), pv_statut = PL_BROUILLON, pv_payload = payload,
            pv_payload_sha256 = oe_sha256 env (pe_canonical (oe_planning env) payload),
            pv_base_version_id = map_option pv_id active, pv_comparison = comparison,
            pv_client_impact = pc_client_impact comparison, pv_source_proposal_id = proposal, pv_author = oe_user env,
            pv_idempotency_key = key, pv_submitted = None, pv_decided = None, pv_activated_at = None, pv_superseded_at = None\<rparr>
      in Inr (insert_audit_log ''OF_PLANNING_DRAFT_CREATE'' (pv_id row)
                (db\<lparr>ov_plans := ov_plans db @ [row], ov_next := Suc (ov_next db)\<rparr>), row, False)))))"

section \<open>Decisions\<close>

definition insert_ar_dossier :: "ov_env \<Rightarrow> ar_dossier \<Rightarrow> string option \<Rightarrow> ov_db \<Rightarrow> (ov_db \<times> nat) result" where
  "insert_ar_dossier env d key db =
     (if key \<noteq> None \<and> list_ex (\<lambda>r. dr_idempotency_key r = key) (ov_dossiers db) then Inl (JsError ''23505'')
      else Inr (db\<lparr>ov_dossiers := ov_dossiers db @
          [\<lparr>dr_id = ov_next db, dr_dossier = d, dr_created_by = oe_user env, dr_idempotency_key = key, dr_closed = None\<rparr>],
        ov_next := Suc (ov_next db)\<rparr>, ov_next db))"

definition dossier_key :: "nat \<Rightarrow> ar_dossier \<Rightarrow> string" where
  "dossier_key v d = ''ar:'' @ show_nat v @ '':'' @ (case ad_affaire_id d of None \<Rightarrow> ''na'' | Some a \<Rightarrow> show_int a)"

fun insert_dossiers :: "ov_env \<Rightarrow> nat \<Rightarrow> ar_dossier list \<Rightarrow> ov_db \<Rightarrow> (ov_db \<times> nat list) result" where
  "insert_dossiers env v [] db = Inr (db, [])"
| "insert_dossiers env v (d # ds) db =
     (case insert_ar_dossier env d (Some (dossier_key v d)) db of
        Inl e \<Rightarrow> Inl e
      | Inr (db', i) \<Rightarrow> (case insert_dossiers env v ds db' of Inl e \<Rightarrow> Inl e | Inr (db'', is) \<Rightarrow> Inr (db'', i # is)))"

definition validation_context :: "nat \<Rightarrow> of_header \<Rightarrow> nat \<Rightarrow> string option \<Rightarrow> ar_context" where
  "validation_context n h v comment =
     \<lparr>ac_of_id = n, ac_of_numero = oh_numero h, ac_planning_version_id = Some v, ac_motif = MODIFICATION_TECHNIQUE,
      ac_commentaire = comment, ac_owner_user_id = None,
      ac_client_nom = (\<lambda>c. if truthy (oh_client_id h) \<and> oh_client_id h = Some c then oh_client_nom h else None),
      ac_commande_numero = (\<lambda>c. if oh_commande_id h = Some c \<and> c \<noteq> 0 then oh_commande_numero h else None),
      ac_previous_cadence = (\<lambda>_. None), ac_new_cadence = (\<lambda>_. None), ac_quantite = (\<lambda>_. None)\<rparr>"

text \<open>The files a validated version opens, and the people told when it opened one.\<close>

definition open_dossiers :: "ov_env \<Rightarrow> nat \<Rightarrow> of_header \<Rightarrow> plan_row \<Rightarrow> string option \<Rightarrow> ov_db \<Rightarrow> (ov_db \<times> nat list \<times> nat list) result" where
  "open_dossiers env n h r comment db =
     (if \<not> requires_ar_recalage (pv_comparison r) then Inr (db, [], [])
      else case build_ar_recalage_dossiers (validation_context n h (pv_id r) comment) (pv_comparison r) of
        Inl e \<Rightarrow> Inl e
      | Inr ds \<Rightarrow> (case insert_dossiers env (pv_id r) ds db of
          Inl e \<Rightarrow> Inl e
        | Inr (db', is) \<Rightarrow> Inr (db', is, if is = [] then [] else notify_topic env ''AR_RECALAGE'')))"

text \<open>The validated version takes the place of the active one.\<close>

definition apply_version :: "ov_env \<Rightarrow> nat \<Rightarrow> plan_row \<Rightarrow> plan_row list \<Rightarrow> plan_row list result" where
  "apply_version env n r plans =
     (let active = get_planning_by_statut n [PL_ACTIF] plans
      in if map_option pv_id active \<noteq> pv_base_version_id r then Inl (HttpError 409 ''OF_PLANNING_BASE_CHANGED'')
         else case (case active of None \<Rightarrow> Inr plans
                    | Some a \<Rightarrow> transition_planning_version env n (pv_id a) PL_ACTIF PL_SUPERSEDE None plans) of
           Inl e \<Rightarrow> Inl e
         | Inr plans' \<Rightarrow> transition_planning_version env n (pv_id r) PL_VALIDE PL_ACTIF None plans')"

definition planning_action :: "planning_statut \<Rightarrow> string" where
  "planning_action s = ''OF_PLANNING_'' @ (case s of PL_ACTIF \<Rightarrow> ''ACTIF'' | PL_BROUILLON \<Rightarrow> ''BROUILLON'' | PL_SOUMIS \<Rightarrow> ''SOUMIS''
     | PL_VALIDE \<Rightarrow> ''VALIDE'' | PL_REFUSE \<Rightarrow> ''REFUSE'' | PL_SUPERSEDE \<Rightarrow> ''SUPERSEDE'')"

definition transition_planning ::
  "ov_env \<Rightarrow> nat \<Rightarrow> nat \<Rightarrow> planning_statut \<Rightarrow> string option \<Rightarrow> ov_db \<Rightarrow> (ov_db \<times> nat list \<times> nat list) result" where
  "transition_planning env n v nxt comment db =
     (case read_of_header env n of Inl e \<Rightarrow> Inl e | Inr h \<Rightarrow>
     (case get_planning_version n v (ov_plans db) of None \<Rightarrow> Inl (HttpError 404 ''OF_PLANNING_NOT_FOUND'') | Some r \<Rightarrow>
     (case check_planning_transition (pv_statut r) nxt of Inl e \<Rightarrow> Inl e | Inr _ \<Rightarrow>
     (if nxt = PL_REFUSE \<and> js_trim (or_empty comment) = [] then Inl (HttpError 422 ''OF_PLANNING_REFUSAL_COMMENT_REQUIRED'') else
     (case transition_planning_version env n v (pv_statut r) nxt comment (ov_plans db) of Inl e \<Rightarrow> Inl e | Inr plans \<Rightarrow>
     (let submitted = (if nxt = PL_SOUMIS then notify_topic env ''OF_PLANNING_SUBMITTED'' else [])
      in case (if nxt = PL_VALIDE
               then (case apply_version env n r plans of Inl e \<Rightarrow> Inl e
                     | Inr plans' \<Rightarrow> open_dossiers env n h r comment (db\<lparr>ov_plans := plans'\<rparr>))
               else Inr (db\<lparr>ov_plans := plans\<rparr>, [], submitted)) of
           Inl e \<Rightarrow> Inl e
         | Inr (db', is, told) \<Rightarrow> Inr (insert_audit_log (planning_action nxt) v db', is, told)))))))"

text \<open>The requests of the routes: a draft, and the three decisions on a version.\<close>

datatype planning_request =
    Draft nat planning_payload "nat option" "string option"
  | Submit nat nat "string option"
  | Validate nat nat "string option"
  | Refuse nat nat "string option"

fun planning_step :: "ov_env \<Rightarrow> planning_request \<Rightarrow> ov_db \<Rightarrow> ov_db result" where
  "planning_step env (Draft n p proposal key) db =
     (case create_planning_draft env n p proposal key db of Inl e \<Rightarrow> Inl e | Inr (db', _) \<Rightarrow> Inr db')"
| "planning_step env (Submit n v c) db = (case transition_planning env n v PL_SOUMIS c db of Inl e \<Rightarrow> Inl e | Inr (db', _) \<Rightarrow> Inr db')"
| "planning_step env (Validate n v c) db = (case transition_planning env n v PL_VALIDE c db of Inl e \<Rightarrow> Inl e | Inr (db', _) \<Rightarrow> Inr db')"
| "planning_step env (Refuse n v c) db = (case transition_planning env n v PL_REFUSE c db of Inl e \<Rightarrow> Inl e | Inr (db', _) \<Rightarrow> Inr db')"

text \<open>A request that fails leaves the tables as they were.\<close>

fun planning_run :: "planning_env \<Rightarrow> (ov_env \<times> planning_request) list \<Rightarrow> ov_db \<Rightarrow> ov_db" where
  "planning_run pe [] db = db"
| "planning_run pe ((env, q) # qs) db =
     planning_run pe qs (case planning_step (env\<lparr>oe_planning := pe\<rparr>) q db of Inl _ \<Rightarrow> db | Inr db' \<Rightarrow> db')"

section \<open>Looking for a plan\<close>

definition open_plan :: "plan_row \<Rightarrow> bool" where
  "open_plan r \<longleftrightarrow> pv_statut r \<in> {PL_BROUILLON, PL_SOUMIS}"

definition active_plan :: "plan_row \<Rightarrow> bool" where
  "active_plan r \<longleftrightarrow> pv_statut r = PL_ACTIF"

text \<open>At most one row of a works order satisfies a predicate.\<close>

definition single :: "(plan_row \<Rightarrow> bool) \<Rightarrow> plan_row list \<Rightarrow> bool" where
  "single P rows \<longleftrightarrow> (\<forall>r \<in> set rows. \<forall>s \<in> set rows. P r \<longrightarrow> P s \<longrightarrow> pv_of_id r = pv_of_id s \<longrightarrow> r = s)"

lemma get_planning_by_statut_Some:
  assumes "get_planning_by_statut n ss rows = Some r"
  shows "r \<in> set rows" "pv_of_id r = n" "pv_statut r \<in> set ss"
proof -
  let ?l = "sort_key pv_version_rank (filter (\<lambda>r. pv_of_id r = n \<and> pv_statut r \<in> set ss) rows)"
  have "r \<in> set (rev ?l)"
  proof (cases "rev ?l")
    case (Cons x xs)
    then show ?thesis using assms unfolding get_planning_by_statut_def Cons by simp
  qed (use assms in \<open>simp add: get_planning_by_statut_def\<close>)
  then show "r \<in> set rows" "pv_of_id r = n" "pv_statut r \<in> set ss" by simp_all
qed

lemma get_planning_by_statut_None:
  "get_planning_by_statut n ss rows = None \<longleftrightarrow> (\<forall>r \<in> set rows. pv_of_id r = n \<longrightarrow> pv_statut r \<notin> set ss)"
proof -
  let ?l = "sort_key pv_version_rank (filter (\<lambda>r. pv_of_id r = n \<and> pv_statut r \<in> set ss) rows)"
  have "get_planning_by_statut n ss rows = None \<longleftrightarrow> set (rev ?l) = {}"
    unfolding get_planning_by_statut_def by (cases "rev ?l") (simp_all only: list.case list.set, simp_all)
  then show ?thesis by auto
qed

lemma get_active_iff:
  assumes "single active_plan rows"
  shows "get_planning_by_statut n [PL_ACTIF] rows = Some r \<longleftrightarrow> r \<in> set rows \<and> pv_of_id r = n \<and> active_plan r"
proof
  assume "get_planning_by_statut n [PL_ACTIF] rows = Some r"
  from get_planning_by_statut_Some [OF this] show "r \<in> set rows \<and> pv_of_id r = n \<and> active_plan r" by (simp add: active_plan_def)
next
  assume r: "r \<in> set rows \<and> pv_of_id r = n \<and> active_plan r"
  then obtain s where s: "get_planning_by_statut n [PL_ACTIF] rows = Some s"
    using get_planning_by_statut_None [of n "[PL_ACTIF]" rows] by (auto simp: active_plan_def)
  from get_planning_by_statut_Some [OF this] r assms have "s = r" unfolding single_def by (auto simp: active_plan_def)
  with s show "get_planning_by_statut n [PL_ACTIF] rows = Some r" by simp
qed

text \<open>What a list of plans must satisfy: distinct identifiers, one active plan and one open draft per works
  order, nothing left validated, and an open draft compared with the plan that is active now.\<close>

definition draft_current :: "planning_env \<Rightarrow> plan_row list \<Rightarrow> plan_row \<Rightarrow> bool" where
  "draft_current pe rows r \<longleftrightarrow>
     pv_base_version_id r = map_option pv_id (get_planning_by_statut (pv_of_id r) [PL_ACTIF] rows)
     \<and> pv_comparison r = compare_planning_versions pe
         (map_option pv_payload (get_planning_by_statut (pv_of_id r) [PL_ACTIF] rows)) (pv_payload r)"

definition plans_ok :: "planning_env \<Rightarrow> plan_row list \<Rightarrow> bool" where
  "plans_ok pe rows \<longleftrightarrow> distinct (map pv_id rows) \<and> single active_plan rows \<and> single open_plan rows
     \<and> (\<forall>r \<in> set rows. pv_statut r \<noteq> PL_VALIDE) \<and> (\<forall>r \<in> set rows. open_plan r \<longrightarrow> draft_current pe rows r)"

lemma plans_okD:
  assumes "plans_ok pe rows"
  shows "distinct (map pv_id rows)" "single active_plan rows" "single open_plan rows"
    "r \<in> set rows \<Longrightarrow> pv_statut r \<noteq> PL_VALIDE" "r \<in> set rows \<Longrightarrow> open_plan r \<Longrightarrow> draft_current pe rows r"
  using assms by (auto simp: plans_ok_def)

lemma single_length:
  assumes "distinct rows" "single P rows"
  shows "length (filter (\<lambda>r. pv_of_id r = n \<and> P r) rows) \<le> 1"
proof -
  let ?l = "filter (\<lambda>r. pv_of_id r = n \<and> P r) rows"
  have "\<forall>r \<in> set ?l. \<forall>s \<in> set ?l. r = s" using assms(2) unfolding single_def by auto
  moreover have "distinct ?l" using assms(1) by simp
  ultimately have "card (set ?l) \<le> 1" by (intro card_le_Suc0_iff_eq [THEN iffD2, unfolded One_nat_def [symmetric]]) blast+
  then show ?thesis using \<open>distinct ?l\<close> by (simp only: distinct_card)
qed

text \<open>An update that keeps what a row is about and which rows are active, and opens or validates none.\<close>

definition same_subject :: "plan_row \<Rightarrow> plan_row \<Rightarrow> bool" where
  "same_subject r s \<longleftrightarrow> pv_id s = pv_id r \<and> pv_of_id s = pv_of_id r \<and> pv_base_version_id s = pv_base_version_id r
     \<and> pv_comparison s = pv_comparison r \<and> pv_payload s = pv_payload r"

lemma single_map:
  assumes "single P rows" "\<And>r. r \<in> set rows \<Longrightarrow> pv_of_id (f r) = pv_of_id r \<and> (Q (f r) \<longrightarrow> P r)"
  shows "single Q (map f rows)"
  unfolding single_def
proof (intro ballI impI)
  fix x y assume "x \<in> set (map f rows)" "y \<in> set (map f rows)" and q: "Q x" "Q y" "pv_of_id x = pv_of_id y"
  then obtain r s where rs: "r \<in> set rows" "s \<in> set rows" and xy: "x = f r" "y = f s" by auto
  have "P r" "P s" "pv_of_id r = pv_of_id s" using assms(2) [OF rs(1)] assms(2) [OF rs(2)] q unfolding xy by simp_all
  then have "r = s" using assms(1) rs unfolding single_def by blast
  then show "x = y" using xy by simp
qed

lemma active_map:
  assumes "single active_plan rows" "\<And>r. r \<in> set rows \<Longrightarrow> pv_of_id (f r) = pv_of_id r \<and> (active_plan (f r) \<longleftrightarrow> active_plan r)"
  shows "get_planning_by_statut n [PL_ACTIF] (map f rows) = map_option f (get_planning_by_statut n [PL_ACTIF] rows)"
proof (cases "get_planning_by_statut n [PL_ACTIF] rows")
  case None
  then have "get_planning_by_statut n [PL_ACTIF] (map f rows) = None"
    using assms(2) unfolding get_planning_by_statut_None by (auto simp: active_plan_def)
  with None show ?thesis by simp
next
  case (Some a)
  have "single active_plan (map f rows)" by (rule single_map [OF assms(1)]) (use assms(2) in blast)
  moreover have "f a \<in> set (map f rows) \<and> pv_of_id (f a) = n \<and> active_plan (f a)"
    using Some assms(2) by (simp add: get_active_iff [OF assms(1)])
  ultimately show ?thesis using Some by (simp add: get_active_iff)
qed

lemma plans_ok_map:
  assumes ok: "plans_ok pe rows"
    and f: "\<And>r. r \<in> set rows \<Longrightarrow> same_subject r (f r) \<and> (active_plan (f r) \<longleftrightarrow> active_plan r) \<and> (open_plan (f r) \<longrightarrow> open_plan r)
      \<and> pv_statut (f r) \<noteq> PL_VALIDE"
  shows "plans_ok pe (map f rows)"
proof -
  note d = plans_okD [OF ok]
  have id: "map pv_id (map f rows) = map pv_id rows" using f by (simp add: same_subject_def)
  have a: "get_planning_by_statut n [PL_ACTIF] (map f rows) = map_option f (get_planning_by_statut n [PL_ACTIF] rows)" for n
    by (rule active_map [OF d(2)]) (use f in \<open>simp add: same_subject_def\<close>)
  have "draft_current pe (map f rows) (f r)" if r: "r \<in> set rows" "open_plan (f r)" for r
  proof -
    have c: "draft_current pe rows r" using d(5) [OF r(1)] f [OF r(1)] r(2) by blast
    show ?thesis
    proof (cases "get_planning_by_statut (pv_of_id r) [PL_ACTIF] rows")
      case None
      with c f [OF r(1)] show ?thesis by (simp add: draft_current_def a same_subject_def)
    next
      case (Some b)
      then have "b \<in> set rows" by (rule get_planning_by_statut_Some)
      with c Some f [OF r(1)] f [of b] show ?thesis by (simp add: draft_current_def a same_subject_def)
    qed
  qed
  moreover have "single active_plan (map f rows)" by (rule single_map [OF d(2)]) (use f in \<open>auto simp: same_subject_def\<close>)
  moreover have "single open_plan (map f rows)" by (rule single_map [OF d(3)]) (use f in \<open>auto simp: same_subject_def\<close>)
  ultimately show ?thesis using d(1) f unfolding plans_ok_def id by auto
qed

section \<open>Every request keeps the plans in order\<close>

lemma stamp_subject [simp]: "same_subject r (stamp_plan env nxt c r)"
  by (cases nxt) (simp_all add: stamp_plan_def same_subject_def)

lemma stamp_statut [simp]: "pv_statut (stamp_plan env nxt c r) = nxt"
  by (cases nxt) (simp_all add: stamp_plan_def)

lemma same_subject_refl [simp]: "same_subject r r"
  by (simp add: same_subject_def)

lemma transition_row:
  assumes "transition_planning_version env n v s t c rows = Inr rows'"
  shows "rows' = map (\<lambda>r. if pv_id r = v \<and> pv_of_id r = n \<and> pv_statut r = s then stamp_plan env t c r else r) rows"
  using assms by (auto simp: transition_planning_version_def Let_def split: if_splits)

lemma get_version_Some: "get_planning_version n v rows = Some r \<Longrightarrow> r \<in> set rows \<and> pv_id r = v \<and> pv_of_id r = n"
  by (auto simp: get_planning_version_def find_Some_iff)

lemma plan_by_id: "distinct (map pv_id rows) \<Longrightarrow> r \<in> set rows \<Longrightarrow> s \<in> set rows \<Longrightarrow> pv_id r = pv_id s \<Longrightarrow> r = s"
  by (metis distinct_map inj_onD)

text \<open>A draft.\<close>

lemma plans_ok_snoc:
  assumes ok: "plans_ok pe rows" and fresh: "\<forall>r \<in> set rows. pv_id r < pv_id row"
    and st: "pv_statut row = PL_BROUILLON" and none: "get_planning_by_statut (pv_of_id row) [PL_BROUILLON, PL_SOUMIS] rows = None"
    and cur: "draft_current pe rows row"
  shows "plans_ok pe (rows @ [row])"
proof -
  note d = plans_okD [OF ok]
  have notactive: "\<not> active_plan row" using st by (simp add: active_plan_def)
  have act: "single active_plan (rows @ [row])" using d(2) notactive unfolding single_def by auto
  have a: "get_planning_by_statut n [PL_ACTIF] (rows @ [row]) = get_planning_by_statut n [PL_ACTIF] rows" for n
  proof (cases "get_planning_by_statut n [PL_ACTIF] rows")
    case None
    then have "get_planning_by_statut n [PL_ACTIF] (rows @ [row]) = None"
      using st unfolding get_planning_by_statut_None by auto
    with None show ?thesis by simp
  next
    case (Some r)
    then have "r \<in> set (rows @ [row]) \<and> pv_of_id r = n \<and> active_plan r" by (simp add: get_active_iff [OF d(2)])
    with Some show ?thesis by (simp add: get_active_iff [OF act])
  qed
  have "single open_plan (rows @ [row])"
    using d(3) none unfolding single_def get_planning_by_statut_None by (auto simp: open_plan_def)
  moreover have "distinct (map pv_id (rows @ [row]))" using d(1) fresh by auto
  ultimately show ?thesis using act d(4,5) cur st unfolding plans_ok_def draft_current_def a by auto
qed

text \<open>The validation of the submitted draft \<open>r\<close> over the active plan of its works order.\<close>

definition promoted :: "ov_env \<Rightarrow> string option \<Rightarrow> plan_row \<Rightarrow> plan_row \<Rightarrow> plan_row" where
  "promoted env c r x =
     (if pv_id x = pv_id r then stamp_plan env PL_ACTIF None (stamp_plan env PL_VALIDE c x)
      else if pv_of_id x = pv_of_id r \<and> active_plan x then stamp_plan env PL_SUPERSEDE None x else x)"

lemma promoted_subject: "same_subject x (promoted env c r x)"
  by (auto simp: promoted_def same_subject_def stamp_plan_def)

lemma plans_ok_promoted:
  assumes ok: "plans_ok pe rows" and r: "r \<in> set rows" "open_plan r"
  shows "plans_ok pe (map (promoted env c r) rows)"
    "get_planning_by_statut (pv_of_id r) [PL_ACTIF] (map (promoted env c r) rows) = Some (promoted env c r r)"
proof -
  note d = plans_okD [OF ok]
  let ?f = "promoted env c r"
  have sub: "same_subject x (?f x)" for x by (rule promoted_subject)
  have st: "pv_statut (?f x) = (if pv_id x = pv_id r then PL_ACTIF else if pv_of_id x = pv_of_id r \<and> active_plan x then PL_SUPERSEDE else pv_statut x)" for x
    by (simp add: promoted_def)
  have eq: "x = r" if "x \<in> set rows" "pv_id x = pv_id r" for x using plan_by_id [OF d(1) that(1) r(1) that(2)] .
  have actsub: "pv_of_id x = pv_of_id r \<and> x = r \<or> pv_of_id x \<noteq> pv_of_id r \<and> active_plan x" if "x \<in> set rows" "active_plan (?f x)" for x
    using that eq st [of x] by (auto simp: active_plan_def split: if_splits)
  have act: "single active_plan (map ?f rows)"
    unfolding single_def
  proof (intro ballI impI)
    fix x y assume "x \<in> set (map ?f rows)" "y \<in> set (map ?f rows)" and q: "active_plan x" "active_plan y" "pv_of_id x = pv_of_id y"
    then obtain u w where uw: "u \<in> set rows" "w \<in> set rows" and xy: "x = ?f u" "y = ?f w" by auto
    have "pv_of_id u = pv_of_id w" using q(3) sub [of u] sub [of w] unfolding xy same_subject_def by simp
    then have "u = w" using actsub [OF uw(1)] actsub [OF uw(2)] q(1,2) d(2) uw unfolding xy single_def by auto
    then show "x = y" using xy by simp
  qed
  have opn: "open_plan x \<and> pv_of_id x \<noteq> pv_of_id r" if "x \<in> set rows" "open_plan (?f x)" for x
  proof -
    have o: "open_plan x" "pv_id x \<noteq> pv_id r" using that st [of x] by (auto simp: open_plan_def split: if_splits)
    then have "pv_of_id x \<noteq> pv_of_id r" using d(3) that(1) r unfolding single_def by blast
    then show ?thesis using o by simp
  qed
  have a: "get_planning_by_statut n [PL_ACTIF] (map ?f rows) = get_planning_by_statut n [PL_ACTIF] rows" if n: "n \<noteq> pv_of_id r" for n
  proof -
    have same: "?f x = x" if "x \<in> set rows" "pv_of_id x = n" for x using that n eq by (auto simp: promoted_def)
    show ?thesis
    proof (cases "get_planning_by_statut n [PL_ACTIF] rows")
      case None
      have "get_planning_by_statut n [PL_ACTIF] (map ?f rows) = None"
        using None same sub unfolding get_planning_by_statut_None same_subject_def by auto
      then show ?thesis using None by simp
    next
      case (Some b)
      then have b: "b \<in> set rows" "pv_of_id b = n" "active_plan b" by (simp_all add: get_active_iff [OF d(2)])
      then have "b \<in> set (map ?f rows)" using same [OF b(1,2)] by (metis image_eqI set_map)
      then show ?thesis using b Some by (simp add: get_active_iff [OF act])
    qed
  qed
  have "single open_plan (map ?f rows)"
    by (rule single_map [OF d(3)]) (use sub opn in \<open>simp add: same_subject_def\<close>)
  moreover have "distinct (map (pv_id \<circ> ?f) rows)" using d(1) sub by (simp add: same_subject_def comp_def)
  moreover have "pv_statut (?f x) \<noteq> PL_VALIDE" if "x \<in> set rows" for x using st d(4) [OF that] by simp
  moreover have "draft_current pe (map ?f rows) (?f x)" if x: "x \<in> set rows" "open_plan (?f x)" for x
    using opn [OF x] d(5) [OF x(1)] sub [of x] a [of "pv_of_id x"] by (simp add: draft_current_def same_subject_def)
  ultimately show "plans_ok pe (map ?f rows)" using d(1) act unfolding plans_ok_def by auto
  have "?f r \<in> set (map ?f rows) \<and> pv_of_id (?f r) = pv_of_id r \<and> active_plan (?f r)"
    using r(1) sub [of r] st [of r] by (simp add: active_plan_def same_subject_def)
  then show "get_planning_by_statut (pv_of_id r) [PL_ACTIF] (map ?f rows) = Some (?f r)"
    using get_active_iff [OF act] by blast
qed

lemma hit_row:
  "list_ex (\<lambda>r. pv_id r = v \<and> pv_of_id r = n \<and> pv_statut r = s) rows \<Longrightarrow>
   transition_planning_version env n v s t c rows =
     Inr (map (\<lambda>r. if pv_id r = v \<and> pv_of_id r = n \<and> pv_statut r = s then stamp_plan env t c r else r) rows)"
  by (simp add: transition_planning_version_def Let_def)

lemma apply_version_promotes:
  assumes ok: "plans_ok pe rows" and r: "r \<in> set rows" "pv_statut r = PL_SOUMIS"
    and t: "transition_planning_version env (pv_of_id r) (pv_id r) PL_SOUMIS PL_VALIDE c rows = Inr plans"
  shows "apply_version env (pv_of_id r) r plans = Inr (map (promoted env c r) rows)"
proof -
  note d = plans_okD [OF ok]
  let ?n = "pv_of_id r" and ?v = "pv_id r"
  let ?f = "\<lambda>x. if pv_id x = ?v \<and> pv_of_id x = ?n \<and> pv_statut x = PL_SOUMIS then stamp_plan env PL_VALIDE c x else x"
  have opn: "open_plan r" using r(2) by (simp add: open_plan_def)
  have eq: "x = r" if "x \<in> set rows" "pv_id x = ?v" for x using plan_by_id [OF d(1) that(1) r(1) that(2)] .
  have sub: "same_subject x (?f x)" for x by simp
  have plans: "plans = map ?f rows" using transition_row [OF t] .
  have a: "get_planning_by_statut ?n [PL_ACTIF] plans = map_option ?f (get_planning_by_statut ?n [PL_ACTIF] rows)"
    unfolding plans by (rule active_map [OF d(2)]) (use sub in \<open>auto simp: same_subject_def active_plan_def\<close>)
  have base: "pv_base_version_id r = map_option pv_id (get_planning_by_statut ?n [PL_ACTIF] rows)"
    using d(5) [OF r(1) opn] by (simp add: draft_current_def)
  let ?g = "\<lambda>x. if pv_id x = ?v \<and> pv_of_id x = ?n \<and> pv_statut x = PL_VALIDE then stamp_plan env PL_ACTIF None x else x"
  have fr: "?f r \<in> set plans" "pv_id (?f r) = ?v" "pv_of_id (?f r) = ?n" "pv_statut (?f r) = PL_VALIDE"
    using r sub [of r] unfolding plans by (simp_all add: same_subject_def)
  show ?thesis
  proof (cases "get_planning_by_statut ?n [PL_ACTIF] rows")
    case None
    have "list_ex (\<lambda>x. pv_id x = ?v \<and> pv_of_id x = ?n \<and> pv_statut x = PL_VALIDE) plans" using fr unfolding list_ex_iff by blast
    then have "apply_version env ?n r plans = Inr (map ?g plans)"
      using None base by (simp add: apply_version_def Let_def a hit_row)
    also have "map ?g plans = map (promoted env c r) rows"
    proof -
      have "?g (?f x) = promoted env c r x" if x: "x \<in> set rows" for x
      proof (cases "x = r")
        case False
        then have "pv_id x \<noteq> ?v" using eq [OF x] by blast
        moreover have "\<not> (pv_of_id x = ?n \<and> active_plan x)" using None get_active_iff [OF d(2), of ?n x] x by auto
        ultimately show ?thesis by (auto simp: promoted_def)
      qed (use r fr in \<open>simp add: promoted_def\<close>)
      then show ?thesis unfolding plans by simp
    qed
    finally show ?thesis .
  next
    case (Some b)
    then have b: "b \<in> set rows" "pv_of_id b = ?n" "active_plan b" by (simp_all add: get_active_iff [OF d(2)])
    have bv: "pv_id b \<noteq> ?v" using eq [OF b(1)] b(3) r(2) by (auto simp: active_plan_def)
    let ?h = "\<lambda>x. if pv_id x = pv_id b \<and> pv_of_id x = ?n \<and> pv_statut x = PL_ACTIF then stamp_plan env PL_SUPERSEDE None x else x"
    have fb: "?f b = b" using bv by simp
    have "?f b \<in> set plans" unfolding plans set_map using b(1) by (rule imageI)
    then have "b \<in> set plans" unfolding fb .
    then have h1: "list_ex (\<lambda>x. pv_id x = pv_id b \<and> pv_of_id x = ?n \<and> pv_statut x = PL_ACTIF) plans"
      using b unfolding list_ex_iff active_plan_def by blast
    have hf: "?h (?f r) = ?f r" using fr(4) by auto
    have "?h (?f r) \<in> set (map ?h plans)" unfolding set_map using fr(1) by (rule imageI)
    then have "?f r \<in> set (map ?h plans)" unfolding hf .
    then have h2: "list_ex (\<lambda>x. pv_id x = ?v \<and> pv_of_id x = ?n \<and> pv_statut x = PL_VALIDE) (map ?h plans)"
      using fr unfolding list_ex_iff by blast
    have "apply_version env ?n r plans = Inr (map ?g (map ?h plans))"
    proof -
      have a': "get_planning_by_statut ?n [PL_ACTIF] plans = Some b" unfolding a Some option.map fb ..
      have b': "pv_base_version_id r = Some (pv_id b)" using base Some by simp
      show ?thesis
        unfolding apply_version_def Let_def a' b' option.map option.case hit_row [OF h1] sum.case hit_row [OF h2] by simp
    qed
    also have "map ?g (map ?h plans) = map (promoted env c r) rows"
    proof -
      have "?g (?h (?f x)) = promoted env c r x" if x: "x \<in> set rows" for x
      proof (cases "x = r")
        case True
        then show ?thesis using hf fr r by (simp add: promoted_def)
      next
        case False
        then have nv: "pv_id x \<noteq> ?v" using eq [OF x] by blast
        show ?thesis
        proof (cases "x = b")
          case True
          then show ?thesis using b bv by (simp add: promoted_def active_plan_def)
        next
          case False
          then have "pv_id x \<noteq> pv_id b" using plan_by_id [OF d(1) x b(1)] by blast
          moreover have "\<not> (pv_of_id x = ?n \<and> active_plan x)" using Some False x get_active_iff [OF d(2), of ?n x] by auto
          ultimately show ?thesis using nv by (auto simp: promoted_def)
        qed
      qed
      note k = this
      show ?thesis unfolding plans map_map o_def by (rule map_cong [OF refl]) (rule k)
    qed
    finally show ?thesis .
  qed
qed

text \<open>The tables of a works order's plans, with identifiers never given twice.\<close>

definition ov_ok :: "planning_env \<Rightarrow> ov_db \<Rightarrow> bool" where
  "ov_ok pe db \<longleftrightarrow> plans_ok pe (ov_plans db) \<and> (\<forall>r \<in> set (ov_plans db). pv_id r < ov_next db)"

lemma insert_dossiers_frame:
  "insert_dossiers env v ds db = Inr (db', is) \<Longrightarrow> ov_plans db' = ov_plans db \<and> ov_next db \<le> ov_next db'"
proof (induction ds arbitrary: db db' "is")
  case (Cons d ds)
  then obtain db1 i is1 where "insert_ar_dossier env d (Some (dossier_key v d)) db = Inr (db1, i)"
    and "insert_dossiers env v ds db1 = Inr (db', is1)" by (auto split: sum.splits)
  then show ?case using Cons.IH by (fastforce simp: insert_ar_dossier_def split: if_splits)
qed simp

lemma open_dossiers_frame:
  "open_dossiers env n h r c db = Inr (db', is, told) \<Longrightarrow> ov_plans db' = ov_plans db \<and> ov_next db \<le> ov_next db'"
  by (auto simp: open_dossiers_def split: if_splits sum.splits prod.splits dest: insert_dossiers_frame)

text \<open>A decision that goes through: the version it found, the rows it leaves.\<close>

lemma transition_planning_steps:
  assumes t: "transition_planning env n v nxt c db = Inr res"
  obtains h r plans where "read_of_header env n = Inr h" "get_planning_version n v (ov_plans db) = Some r"
    "check_planning_transition (pv_statut r) nxt = Inr ()"
    "transition_planning_version env n v (pv_statut r) nxt c (ov_plans db) = Inr plans"
    "(case (if nxt = PL_VALIDE
               then (case apply_version env n r plans of Inl e \<Rightarrow> Inl e
                     | Inr plans' \<Rightarrow> open_dossiers env n h r c (db\<lparr>ov_plans := plans'\<rparr>))
               else Inr (db\<lparr>ov_plans := plans\<rparr>, [], if nxt = PL_SOUMIS then notify_topic env ''OF_PLANNING_SUBMITTED'' else [])) of
           Inl e \<Rightarrow> Inl e
         | Inr (db', is, told) \<Rightarrow> Inr (insert_audit_log (planning_action nxt) v db', is, told)) = Inr res"
proof -
  obtain h r plans where h: "read_of_header env n = Inr h" and r: "get_planning_version n v (ov_plans db) = Some r"
    and ck: "check_planning_transition (pv_statut r) nxt = Inr ()"
    and tr: "transition_planning_version env n v (pv_statut r) nxt c (ov_plans db) = Inr plans"
    and nb: "\<not> (nxt = PL_REFUSE \<and> js_trim (or_empty c) = [])"
    using t by (auto simp: transition_planning_def split: sum.splits option.splits if_splits)
  show thesis
    using that [OF h r ck tr] t unfolding transition_planning_def Let_def h r sum.case option.case ck tr if_not_P [OF nb] .
qed

lemma transition_planning_cases:
  assumes t: "transition_planning env n v nxt c db = Inr (db', is, told)" and ok: "plans_ok pe (ov_plans db)"
  obtains r where "r \<in> set (ov_plans db)" "pv_id r = v" "pv_of_id r = n" "can_transition_planning_statut (pv_statut r) nxt"
    "ov_next db \<le> ov_next db'"
    "ov_plans db' = (if nxt = PL_VALIDE then map (promoted env c r) (ov_plans db)
       else map (\<lambda>x. if pv_id x = v \<and> pv_of_id x = n \<and> pv_statut x = pv_statut r then stamp_plan env nxt c x else x) (ov_plans db))"
proof -
  obtain h r plans where h: "read_of_header env n = Inr h" and r: "get_planning_version n v (ov_plans db) = Some r"
    and ck: "check_planning_transition (pv_statut r) nxt = Inr ()"
    and tr: "transition_planning_version env n v (pv_statut r) nxt c (ov_plans db) = Inr plans"
    and t': "(case (if nxt = PL_VALIDE
               then (case apply_version env n r plans of Inl e \<Rightarrow> Inl e
                     | Inr plans' \<Rightarrow> open_dossiers env n h r c (db\<lparr>ov_plans := plans'\<rparr>))
               else Inr (db\<lparr>ov_plans := plans\<rparr>, [], if nxt = PL_SOUMIS then notify_topic env ''OF_PLANNING_SUBMITTED'' else [])) of
           Inl e \<Rightarrow> Inl e
         | Inr (db', is, told) \<Rightarrow> Inr (insert_audit_log (planning_action nxt) v db', is, told)) = Inr (db', is, told)"
    by (rule transition_planning_steps [OF t])
  note rr = get_version_Some [OF r]
  have can: "can_transition_planning_statut (pv_statut r) nxt" using ck by (auto simp: check_planning_transition_def split: if_splits)
  show thesis
  proof (cases "nxt = PL_VALIDE")
    case False
    then have "ov_plans db' = plans" "ov_next db' = ov_next db"
      using t' by (auto simp: insert_audit_log_def)
    with False show thesis using that [of r] rr can transition_row [OF tr] by simp
  next
    case True
    have s: "pv_statut r = PL_SOUMIS"
      using can True plans_okD(4) [OF ok, of r] rr by (cases "pv_statut r") (simp_all add: can_transition_planning_statut_def)
    have ap: "apply_version env n r plans = Inr (map (promoted env c r) (ov_plans db))"
      using apply_version_promotes [OF ok _ s, of env c plans] rr tr s True by simp
    obtain db1 where o: "open_dossiers env n h r c (db\<lparr>ov_plans := map (promoted env c r) (ov_plans db)\<rparr>) = Inr (db1, is, told)"
      and db': "db' = insert_audit_log (planning_action nxt) v db1"
      using t' True by (auto simp: ap split: sum.splits)
    from open_dossiers_frame [OF o] db' have "ov_plans db' = map (promoted env c r) (ov_plans db)" "ov_next db \<le> ov_next db'"
      by (simp_all add: insert_audit_log_def)
    with True show thesis using that [of r] rr can by simp
  qed
qed

lemma transition_planning_ok:
  assumes ok: "ov_ok pe db" and t: "transition_planning env n v nxt c db = Inr (db', is, told)"
    and nxt: "nxt \<in> {PL_SOUMIS, PL_VALIDE, PL_REFUSE}"
  shows "ov_ok pe db'"
proof -
  have pok: "plans_ok pe (ov_plans db)" using ok by (simp add: ov_ok_def)
  obtain r where r: "r \<in> set (ov_plans db)" "pv_id r = v" "pv_of_id r = n" and can: "can_transition_planning_statut (pv_statut r) nxt"
    and le: "ov_next db \<le> ov_next db'"
    and pl: "ov_plans db' = (if nxt = PL_VALIDE then map (promoted env c r) (ov_plans db)
       else map (\<lambda>x. if pv_id x = v \<and> pv_of_id x = n \<and> pv_statut x = pv_statut r then stamp_plan env nxt c x else x) (ov_plans db))"
    by (rule transition_planning_cases [OF t pok]) blast
  have nv: "pv_statut x \<noteq> PL_VALIDE" if "x \<in> set (ov_plans db)" for x using plans_okD(4) [OF pok that] .
  have "plans_ok pe (ov_plans db')"
  proof (cases "nxt = PL_VALIDE")
    case True
    then have "open_plan r" using can nv [OF r(1)] by (cases "pv_statut r") (simp_all add: can_transition_planning_statut_def open_plan_def)
    then show ?thesis using plans_ok_promoted(1) [OF pok r(1)] True pl by simp
  next
    case False
    have na: "pv_statut r \<noteq> PL_ACTIF" using can nxt False by (auto simp: can_transition_planning_statut_def)
    have op: "open_plan r" if "nxt = PL_SOUMIS"
      using can that by (cases "pv_statut r") (simp_all add: can_transition_planning_statut_def open_plan_def)
    show ?thesis unfolding pl using False nxt
      by (simp only: if_False) (rule plans_ok_map [OF pok], use nv na op in \<open>auto simp: active_plan_def open_plan_def\<close>)
  qed
  moreover have "pv_id x < ov_next db'" if "x \<in> set (ov_plans db')" for x
  proof -
    have "pv_id (promoted env c r y) = pv_id y" "pv_id (stamp_plan env nxt c y) = pv_id y" for y
      using promoted_subject [of y env c r] stamp_subject [of y env nxt c] by (simp_all add: same_subject_def)
    then have "map pv_id (ov_plans db') = map pv_id (ov_plans db)" unfolding pl by simp
    then have "pv_id x \<in> pv_id ` set (ov_plans db)" using that by (metis image_eqI set_map)
    then show ?thesis using ok le by (auto simp: ov_ok_def)
  qed
  ultimately show ?thesis by (simp add: ov_ok_def)
qed

lemma create_planning_draft_ok:
  assumes ok: "ov_ok pe db" and t: "create_planning_draft env n p proposal key db = Inr (db', r, replayed)" and pe: "oe_planning env = pe"
  shows "ov_ok pe db'"
proof (cases "Option.bind key (\<lambda>k. find_planning_by_idempotency_key k (ov_plans db))")
  case (Some x)
  then show ?thesis using t ok by (simp add: create_planning_draft_def)
next
  case None
  have pok: "plans_ok pe (ov_plans db)" and fr: "\<forall>x \<in> set (ov_plans db). pv_id x < ov_next db" using ok by (simp_all add: ov_ok_def)
  obtain h where h: "read_of_header env n = Inr h" and no: "get_planning_by_statut n [PL_BROUILLON, PL_SOUMIS] (ov_plans db) = None"
    using t None by (auto simp: create_planning_draft_def split: sum.splits option.splits)
  have r: "pv_id r = ov_next db" "pv_of_id r = n" "pv_statut r = PL_BROUILLON" "draft_current pe (ov_plans db) r"
    and db': "ov_plans db' = ov_plans db @ [r]" "ov_next db' = Suc (ov_next db)"
    using t None h no pe by (auto simp: create_planning_draft_def Let_def insert_audit_log_def draft_current_def)
  have "plans_ok pe (ov_plans db @ [r])"
    by (rule plans_ok_snoc [OF pok]) (use fr r no in simp_all)
  then show ?thesis using fr r db' by (auto simp: ov_ok_def less_Suc_eq)
qed

lemma planning_step_ok:
  assumes ok: "ov_ok pe db" and s: "planning_step (env\<lparr>oe_planning := pe\<rparr>) q db = Inr db'"
  shows "ov_ok pe db'"
proof (cases q)
  case (Draft n p proposal key)
  then obtain r b where "create_planning_draft (env\<lparr>oe_planning := pe\<rparr>) n p proposal key db = Inr (db', r, b)"
    using s by (auto split: sum.splits)
  from create_planning_draft_ok [OF ok this] show ?thesis by simp
qed (use s in \<open>auto split: sum.splits intro: transition_planning_ok [OF ok]\<close>)

lemma planning_run_ok: "ov_ok pe db \<Longrightarrow> ov_ok pe (planning_run pe qs db)"
proof (induction qs arbitrary: db)
  case (Cons q qs)
  obtain env x where q: "q = (env, x)" by force
  show ?case
  proof (cases "planning_step (env\<lparr>oe_planning := pe\<rparr>) x db")
    case (Inr db')
    with Cons planning_step_ok [OF Cons.prems Inr] q show ?thesis by simp
  qed (use Cons q in simp)
qed simp

lemma planning_start_ok: "ov_ok pe (db\<lparr>ov_plans := []\<rparr>)"
  by (simp add: ov_ok_def plans_ok_def single_def)


section \<open>What a validation opens\<close>

text \<open>An engagement is concerned by a comparison when its affaire is late, or when a changed delivery names its
  affaire or none.\<close>

definition concerned :: "planning_env \<Rightarrow> planning_comparison \<Rightarrow> planning_payload \<Rightarrow> delivery_engagement \<Rightarrow> bool" where
  "concerned pe cmp p e \<longleftrightarrow>
     list_ex (\<lambda>x. de_affaire_id x = de_affaire_id e \<and> engagement_missed pe p x) (pp_engagements p)
     \<or> list_ex (\<lambda>ch. cc_affaire_id ch = None \<or> cc_affaire_id ch = Some (de_affaire_id e)) (pc_cadence cmp)"

lemma insert_dossiers_rows:
  "insert_dossiers env v ds db = Inr (db', is) \<Longrightarrow>
   \<exists>new. ov_dossiers db' = ov_dossiers db @ new \<and> map dr_dossier new = ds \<and> distinct (map (dossier_key v) ds)
     \<and> list_all (\<lambda>d. \<not> list_ex (\<lambda>r. dr_idempotency_key r = Some (dossier_key v d)) (ov_dossiers db)) ds \<and> length is = length ds"
proof (induction ds arbitrary: db db' "is")
  case (Cons d ds)
  let ?r = "\<lparr>dr_id = ov_next db, dr_dossier = d, dr_created_by = oe_user env, dr_idempotency_key = Some (dossier_key v d), dr_closed = None\<rparr>"
  let ?db = "db\<lparr>ov_dossiers := ov_dossiers db @ [?r], ov_next := Suc (ov_next db)\<rparr>"
  have no: "\<not> list_ex (\<lambda>r. dr_idempotency_key r = Some (dossier_key v d)) (ov_dossiers db)"
    using Cons.prems by (auto simp: insert_ar_dossier_def split: if_splits)
  then obtain is1 where t: "insert_dossiers env v ds ?db = Inr (db', is1)" and i: "is = ov_next db # is1"
    using Cons.prems by (auto simp: insert_ar_dossier_def split: sum.splits)
  from Cons.IH [OF t] obtain new where new: "ov_dossiers db' = ov_dossiers ?db @ new" "map dr_dossier new = ds"
      "distinct (map (dossier_key v) ds)"
      "list_all (\<lambda>d. \<not> list_ex (\<lambda>r. dr_idempotency_key r = Some (dossier_key v d)) (ov_dossiers ?db)) ds" "length is1 = length ds"
    by blast
  have "ov_dossiers db' = ov_dossiers db @ ?r # new" "map dr_dossier (?r # new) = d # ds" using new(1,2) by simp_all
  moreover have "dossier_key v d \<notin> set (map (dossier_key v) ds)" using new(4) by (auto simp: list_all_iff)
  moreover have "list_all (\<lambda>d. \<not> list_ex (\<lambda>r. dr_idempotency_key r = Some (dossier_key v d)) (ov_dossiers db)) (d # ds)"
    using new(4) no by (simp add: list_all_iff)
  ultimately show ?case using new(3,5) i by (intro exI [of _ "?r # new"]) simp
qed simp

lemma sort_map_key: "map f (sort_key f xs) = sort (map f xs)"
proof (induction xs)
  case (Cons x xs)
  have "map f (insort_key f x ys) = insort (f x) (map f ys)" for ys by (induction ys) simp_all
  with Cons show ?case by simp
qed simp

lemma affected_iff:
  assumes cmp: "cmp = compare_planning_versions pe before p" and e: "e \<in> set (pp_engagements p)"
  shows "de_affaire_id e \<in> set (affected_affaire_ids cmp) \<longleftrightarrow> concerned pe cmp p e"
proof -
  have en: "pc_engagements cmp = map (check_engagement pe p) (pp_engagements p)"
    by (simp add: cmp compare_planning_versions_def Let_def)
  have id: "ec_affaire_id (check_engagement pe p x) = de_affaire_id x" for x by (simp add: check_engagement_def Let_def)
  have l: "de_affaire_id e \<in> ec_affaire_id ` set (filter ec_depasse (pc_engagements cmp)) \<longleftrightarrow>
      list_ex (\<lambda>x. de_affaire_id x = de_affaire_id e \<and> engagement_missed pe p x) (pp_engagements p)"
    unfolding en list_ex_iff by (auto simp: id check_engagement_depasse image_iff)
  have all: "de_affaire_id e \<in> ec_affaire_id ` set (pc_engagements cmp)" using e unfolding en by (force simp: id)
  have c: "de_affaire_id e \<in> set (case cc_affaire_id ch of Some a \<Rightarrow> [a] | None \<Rightarrow> map ec_affaire_id (pc_engagements cmp)) \<longleftrightarrow>
      cc_affaire_id ch = None \<or> cc_affaire_id ch = Some (de_affaire_id e)" for ch
    using all by (cases "cc_affaire_id ch") auto
  have "de_affaire_id e \<in> set (concat (map (\<lambda>x. case cc_affaire_id x of Some a \<Rightarrow> [a] | None \<Rightarrow> map ec_affaire_id (pc_engagements cmp)) (pc_cadence cmp)))
      \<longleftrightarrow> list_ex (\<lambda>ch. cc_affaire_id ch = None \<or> cc_affaire_id ch = Some (de_affaire_id e)) (pc_cadence cmp)"
    unfolding list_ex_iff set_concat set_map UN_iff bex_simps(7) by (simp only: c)
  then show ?thesis using l unfolding affected_affaire_ids_def concerned_def set_remdups set_append Un_iff set_map by blast
qed

lemma unconcerned:
  assumes cmp: "cmp = compare_planning_versions pe before p" and no: "\<not> requires_ar_recalage cmp"
  shows "filter (concerned pe cmp p) (pp_engagements p) = []"
proof -
  have "filter ec_depasse (map (check_engagement pe p) (pp_engagements p)) = []" "pc_cadence cmp = []"
    using no by (auto simp: cmp requires_ar_recalage_def compare_planning_versions_def Let_def client_impact_of_def filter_map split: if_splits)
  then have "\<not> engagement_missed pe p x" if "x \<in> set (pp_engagements p)" for x
    using that by (auto simp: filter_empty_conv check_engagement_depasse)
  then show ?thesis using \<open>pc_cadence cmp = []\<close> by (auto simp: filter_empty_conv concerned_def list_ex_iff)
qed

text \<open>The files opened by a comparison, by affaire.\<close>

lemma open_dossiers_affaires:
  assumes t: "open_dossiers env n h r c db = Inr (db', is, told)"
    and cmp: "pv_comparison r = compare_planning_versions pe before (pv_payload r)"
  shows "let opened = map (ad_affaire_id \<circ> dr_dossier) (drop (length (ov_dossiers db)) (ov_dossiers db'))
    in distinct opened \<and> opened =
      map Some (sort (map de_affaire_id (filter (concerned pe (pv_comparison r) (pv_payload r)) (pp_engagements (pv_payload r)))))"
proof (cases "requires_ar_recalage (pv_comparison r)")
  case False
  then have "db' = db" using t by (simp add: open_dossiers_def)
  then show ?thesis using unconcerned [OF cmp False] by simp
next
  case True
  let ?ctx = "validation_context n h (pv_id r) c" and ?cmp = "pv_comparison r" and ?p = "pv_payload r"
  let ?es = "filter (\<lambda>e. ec_affaire_id e \<in> set (affected_affaire_ids ?cmp)) (pc_engagements ?cmp)"
  let ?ds = "sort_key (\<lambda>d. affaire_rank (ad_affaire_id d)) (map (ar_dossier_of ?ctx) ?es)"
  have "ar_motif_of (motif_name MODIFICATION_TECHNIQUE) = Some MODIFICATION_TECHNIQUE" by code_simp
  then have b: "build_ar_recalage_dossiers ?ctx ?cmp = Inr ?ds"
    using True by (simp add: build_ar_recalage_dossiers_def decide_ar_recalage_def requires_ar_recalage_def
        validation_context_def validate_ar_recalage_input_def)
  obtain is1 where i: "insert_dossiers env (pv_id r) ?ds db = Inr (db', is1)"
    using t True by (auto simp: open_dossiers_def b split: sum.splits)
  obtain new where new: "ov_dossiers db' = ov_dossiers db @ new" "map dr_dossier new = ?ds" "distinct (map (dossier_key (pv_id r)) ?ds)"
    using insert_dossiers_rows [OF i] by blast
  have some: "ad_affaire_id d = Some (affaire_rank (ad_affaire_id d))" if "d \<in> set ?ds" for d
    using that by (auto simp: ar_dossier_of_def affaire_rank_def)
  have "map (\<lambda>d. affaire_rank (ad_affaire_id d)) ?ds = sort (map ec_affaire_id ?es)"
    unfolding sort_map_key by (simp add: comp_def ar_dossier_of_def affaire_rank_def)
  moreover have "map ad_affaire_id ?ds = map Some (map (\<lambda>d. affaire_rank (ad_affaire_id d)) ?ds)"
    unfolding map_map comp_def by (rule map_cong [OF refl]) (rule some)
  moreover have "map ec_affaire_id ?es = map de_affaire_id (filter (concerned pe ?cmp ?p) (pp_engagements ?p))"
  proof -
    have en: "pc_engagements ?cmp = map (check_engagement pe ?p) (pp_engagements ?p)" by (simp add: cmp compare_planning_versions_def Let_def)
    have id: "ec_affaire_id (check_engagement pe ?p x) = de_affaire_id x" for x by (simp add: check_engagement_def Let_def)
    have "filter (\<lambda>x. de_affaire_id x \<in> set (affected_affaire_ids ?cmp)) (pp_engagements ?p) = filter (concerned pe ?cmp ?p) (pp_engagements ?p)"
      by (rule filter_cong [OF refl]) (rule affected_iff [OF cmp])
    then show ?thesis by (simp add: en filter_map comp_def id)
  qed
  ultimately have a: "map ad_affaire_id ?ds = map Some (sort (map de_affaire_id (filter (concerned pe ?cmp ?p) (pp_engagements ?p))))" by simp
  have "dossier_key (pv_id r) = (\<lambda>a. ''ar:'' @ show_nat (pv_id r) @ '':'' @ (case a of None \<Rightarrow> ''na'' | Some a \<Rightarrow> show_int a)) \<circ> ad_affaire_id"
    by (rule ext) (simp add: dossier_key_def)
  then have "distinct (map (\<lambda>a. ''ar:'' @ show_nat (pv_id r) @ '':'' @ (case a of None \<Rightarrow> ''na'' | Some a \<Rightarrow> show_int a)) (map ad_affaire_id ?ds))"
    using new(3) by (simp only: map_map)
  then have "distinct (map ad_affaire_id ?ds)" unfolding distinct_map by blast
  moreover have "map (ad_affaire_id \<circ> dr_dossier) (drop (length (ov_dossiers db)) (ov_dossiers db')) = map ad_affaire_id ?ds"
    using new(1,2) by (simp flip: map_map)
  ultimately show ?thesis using a by (simp only: Let_def)
qed

text \<open>The only failures of a validation are a works order that is gone and a file that exists already.\<close>

lemma validation_result:
  assumes ok: "ov_ok pe db" and r: "get_planning_version n v (ov_plans db) = Some r" and s: "pv_statut r = PL_SOUMIS"
  shows "transition_planning env n v PL_VALIDE c db =
    (case read_of_header env n of Inl e \<Rightarrow> Inl e
     | Inr h \<Rightarrow> (case open_dossiers env n h r c (db\<lparr>ov_plans := map (promoted env c r) (ov_plans db)\<rparr>) of
         Inl e \<Rightarrow> Inl e | Inr (db', is, told) \<Rightarrow> Inr (insert_audit_log ''OF_PLANNING_VALIDE'' v db', is, told)))"
proof (cases "read_of_header env n")
  case (Inr h)
  note rr = get_version_Some [OF r]
  have pok: "plans_ok pe (ov_plans db)" using ok by (simp add: ov_ok_def)
  have ck: "check_planning_transition (pv_statut r) PL_VALIDE = Inr ()"
    using s by (simp add: check_planning_transition_def can_transition_planning_statut_def)
  have "list_ex (\<lambda>x. pv_id x = v \<and> pv_of_id x = n \<and> pv_statut x = pv_statut r) (ov_plans db)"
    using rr unfolding list_ex_iff by blast
  then obtain plans where tr: "transition_planning_version env n v (pv_statut r) PL_VALIDE c (ov_plans db) = Inr plans"
    using hit_row by blast
  have ap: "apply_version env n r plans = Inr (map (promoted env c r) (ov_plans db))"
    using apply_version_promotes [OF pok _ s, of env c plans] rr tr s by simp
  have act: "planning_action PL_VALIDE = ''OF_PLANNING_VALIDE''" by (simp add: planning_action_def)
  show ?thesis
    unfolding transition_planning_def Let_def Inr r sum.case option.case ck tr ap act by simp
qed (simp add: transition_planning_def)

lemma open_dossiers_error:
  assumes "open_dossiers env n h r c db = Inl e"
  shows "e = JsError ''23505''"
proof -
  let ?ctx = "validation_context n h (pv_id r) c"
  have m: "ar_motif_of (motif_name MODIFICATION_TECHNIQUE) = Some MODIFICATION_TECHNIQUE" by code_simp
  have b: "\<exists>ds. build_ar_recalage_dossiers ?ctx (pv_comparison r) = Inr ds"
    by (simp add: build_ar_recalage_dossiers_def validation_context_def validate_ar_recalage_input_def m
        del: motif_name.simps split: ar_decision.splits)
  have "insert_dossiers env v ds db = Inl e \<Longrightarrow> e = JsError ''23505''" for v ds db
    by (induction ds arbitrary: db) (auto simp: insert_ar_dossier_def split: sum.splits if_splits)
  with b assms show ?thesis by (auto simp: open_dossiers_def split: if_splits sum.splits)
qed


end
