(* ===== verification/Of_Revision_Store.thy ===== *)
theory Of_Revision_Store
  imports Complex_Main Of_Versioning
begin

text \<open>
  The rest of \<open>services/of-versioning.service.ts\<close> and \<open>repository/of-versioning.repository.ts\<close>: the creation of a
  revision with the trigger that protects the table, the signatures of the phases, and the files of renewed
  acknowledgements opened and followed by hand. The columns of times derived in the database are left
  out; the label of a machine is read from an argument.
\<close>

section \<open>Revisions\<close>

text \<open>\<open>fn_of_revisions_immutable\<close> of \<open>20260729_of_versioning_replanification_ar_370.sql\<close>: what an update may change.\<close>

definition revision_update_allowed :: "revision_row \<Rightarrow> revision_row \<Rightarrow> bool" where
  "revision_update_allowed old new \<longleftrightarrow>
     rr_of_id new = rr_of_id old \<and> rr_rank new = rr_rank old \<and> rr_code new = rr_code old \<and> rr_snapshot new = rr_snapshot old
     \<and> rr_sha256 new = rr_sha256 old \<and> rr_diff new = rr_diff old \<and> rr_motif new = rr_motif old \<and> rr_author new = rr_author old
     \<and> \<not> (rr_statut old = OBSOLETE \<and> rr_statut new \<noteq> OBSOLETE)"

definition update_revisions :: "(revision_row \<Rightarrow> bool) \<Rightarrow> (revision_row \<Rightarrow> revision_row) \<Rightarrow> revision_row list \<Rightarrow> revision_row list result" where
  "update_revisions hit f rows =
     (if list_all (\<lambda>r. revision_update_allowed r (f r)) (filter hit rows)
      then Inr (map (\<lambda>r. if hit r then f r else r) rows) else Inl (JsError ''55000''))"

definition blank_sql :: "string option \<Rightarrow> bool" where
  "blank_sql v \<longleftrightarrow> (case v of None \<Rightarrow> True | Some s \<Rightarrow> list_all (\<lambda>c. c = CHR '' '') s)"

text \<open>The active revision becomes obsolete and the new one takes its place; the table refuses a revision
  after the first without a reason.\<close>

definition insert_revision ::
  "ov_env \<Rightarrow> nat \<Rightarrow> nat \<Rightarrow> string \<Rightarrow> revision_snapshot \<Rightarrow> string \<Rightarrow> string option \<Rightarrow> ov_db \<Rightarrow> (ov_db \<times> revision_row) result" where
  "insert_revision env n rank code snapshot sha motif db =
     (let active = (\<lambda>r. rr_of_id r = n \<and> rr_statut r = ACTIVE)
      in case update_revisions active (\<lambda>r. r\<lparr>rr_statut := OBSOLETE, rr_superseded_at := Some (oe_now env)\<rparr>) (ov_revisions db) of
        Inl e \<Rightarrow> Inl e
      | Inr rows \<Rightarrow>
          if 0 < rank \<and> blank_sql motif then Inl (JsError ''23514'')
          else if list_ex (\<lambda>r. rr_of_id r = n \<and> rr_rank r = rank) rows then Inl (JsError ''23505'')
          else (let row = \<lparr>rr_id = ov_next db, rr_of_id = n, rr_rank = rank, rr_code = code, rr_statut = ACTIVE,
                  rr_snapshot = snapshot, rr_sha256 = sha, rr_diff = None, rr_motif = motif, rr_author = oe_user env,
                  rr_superseded_at = None, rr_superseded_by = None\<rparr>;
                    previous = find active (ov_revisions db)
                in case update_revisions (\<lambda>r. previous \<noteq> None \<and> rr_id r = rr_id (the previous))
                          (\<lambda>r. r\<lparr>rr_superseded_by := Some (rr_id row)\<rparr>) (rows @ [row]) of
                     Inl e \<Rightarrow> Inl e
                   | Inr rows' \<Rightarrow> Inr (db\<lparr>ov_revisions := rows', ov_next := Suc (ov_next db)\<rparr>, row)))"

definition list_operations :: "nat \<Rightarrow> nat \<Rightarrow> ov_db \<Rightarrow> revision_operation list" where
  "list_operations n rev_id db =
     sort_key ro_phase (map op_content (filter (\<lambda>x. op_of_id x = n \<and> op_revision_id x = rev_id) (ov_operations db)))"

fun number_rows :: "nat \<Rightarrow> nat \<Rightarrow> nat \<Rightarrow> revision_operation list \<Rightarrow> operation_row list" where
  "number_rows i n rev_id [] = []"
| "number_rows i n rev_id (x # xs) = \<lparr>op_id = i, op_of_id = n, op_revision_id = rev_id, op_content = x\<rparr> # number_rows (Suc i) n rev_id xs"

definition copy_operations_to_revision :: "nat \<Rightarrow> nat \<Rightarrow> nat \<Rightarrow> ov_db \<Rightarrow> ov_db" where
  "copy_operations_to_revision n from to db =
     (let new = map op_content (filter (\<lambda>x. op_of_id x = n \<and> op_revision_id x = from) (ov_operations db))
      in db\<lparr>ov_operations := ov_operations db @ number_rows (ov_next db) n to new, ov_next := ov_next db + length new\<rparr>)"

text \<open>A change of one phase; an absent field is left as it is.\<close>

record operation_change =
  oc_phase :: int
  oc_designation :: "string option"
  oc_family :: "string option option"
  oc_machine_id :: "string option option"
  oc_programme :: "string option option"
  oc_temps_unitaire :: "rat option"
  oc_preparation :: "rat option"
  oc_quantite_base :: "rat option"
  oc_coefficient :: "rat option"

definition change_empty :: "operation_change \<Rightarrow> bool" where
  "change_empty c \<longleftrightarrow> oc_designation c = None \<and> oc_family c = None \<and> oc_machine_id c = None \<and> oc_programme c = None
     \<and> oc_temps_unitaire c = None \<and> oc_preparation c = None \<and> oc_quantite_base c = None \<and> oc_coefficient c = None"

definition or_keep :: "'a \<Rightarrow> 'a option \<Rightarrow> 'a" where
  "or_keep old new = (case new of None \<Rightarrow> old | Some x \<Rightarrow> x)"

definition change_operation :: "(string \<Rightarrow> string option) \<Rightarrow> operation_change \<Rightarrow> revision_operation \<Rightarrow> revision_operation" where
  "change_operation label c x =
     x\<lparr>ro_designation := or_keep (ro_designation x) (oc_designation c), ro_family := or_keep (ro_family x) (oc_family c),
       ro_machine_id := or_keep (ro_machine_id x) (oc_machine_id c),
       ro_machine_label := Option.bind (or_keep (ro_machine_id x) (oc_machine_id c)) label,
       ro_programme := or_keep (ro_programme x) (oc_programme c),
       ro_temps_unitaire := or_keep (ro_temps_unitaire x) (oc_temps_unitaire c),
       ro_preparation := or_keep (ro_preparation x) (oc_preparation c),
       ro_quantite_base := or_keep (ro_quantite_base x) (oc_quantite_base c),
       ro_coefficient := or_keep (ro_coefficient x) (oc_coefficient c)\<rparr>"

definition update_operation_on_revision :: "(string \<Rightarrow> string option) \<Rightarrow> nat \<Rightarrow> nat \<Rightarrow> operation_change \<Rightarrow> ov_db \<Rightarrow> ov_db result" where
  "update_operation_on_revision label n rev_id c db =
     (let hit = (\<lambda>x. op_of_id x = n \<and> op_revision_id x = rev_id \<and> ro_phase (op_content x) = oc_phase c)
      in if change_empty c then Inr db
         else if \<not> list_ex hit (ov_operations db) then Inl (HttpError 404 ''OF_PHASE_NOT_FOUND'')
         else Inr (db\<lparr>ov_operations :=
           map (\<lambda>x. if hit x then x\<lparr>op_content := change_operation label c (op_content x)\<rparr> else x) (ov_operations db)\<rparr>))"

fun apply_changes :: "(string \<Rightarrow> string option) \<Rightarrow> machine_family list \<Rightarrow> nat \<Rightarrow> nat \<Rightarrow> operation_change list \<Rightarrow> ov_db \<Rightarrow> ov_db result" where
  "apply_changes label fams n rev_id [] db = Inr db"
| "apply_changes label fams n rev_id (c # cs) db =
     (case oc_family c of
        Some (Some f) \<Rightarrow>
          if \<not> list_ex (\<lambda>m. mf_code m = f) fams then Inl (HttpError 422 ''OF_FAMILY_UNKNOWN'')
          else (case update_operation_on_revision label n rev_id c db of Inl e \<Rightarrow> Inl e | Inr db' \<Rightarrow> apply_changes label fams n rev_id cs db')
      | _ \<Rightarrow> (case update_operation_on_revision label n rev_id c db of Inl e \<Rightarrow> Inl e | Inr db' \<Rightarrow> apply_changes label fams n rev_id cs db'))"

definition current_snapshot :: "nat \<Rightarrow> of_header \<Rightarrow> nat option \<Rightarrow> ov_db \<Rightarrow> revision_snapshot" where
  "current_snapshot n h rev_id db =
     build_revision_snapshot \<lparr>rs_of_id = n, rs_of_numero = oh_numero h, rs_piece_reference = oh_piece_reference h,
       rs_piece_designation = oh_piece_designation h, rs_piece_indice = oh_piece_indice h, rs_gamme_id = oh_gamme_id h,
       rs_gamme_code = oh_gamme_code h, rs_gamme_version = oh_gamme_version h, rs_quantite_lancee = oh_quantite_lancee h,
       rs_matiere = None, rs_operations = (case rev_id of None \<Rightarrow> [] | Some i \<Rightarrow> list_operations n i db)\<rparr>"

definition hash_snapshot :: "ov_env \<Rightarrow> revision_snapshot \<Rightarrow> string" where
  "hash_snapshot env s = oe_sha256 env (oe_canonical env s)"

definition create_revision ::
  "ov_env \<Rightarrow> (string \<Rightarrow> string option) \<Rightarrow> machine_family list \<Rightarrow> nat \<Rightarrow> string option \<Rightarrow> operation_change list \<Rightarrow> ov_db
     \<Rightarrow> (ov_db \<times> revision_diff) result" where
  "create_revision env label fams n motif changes db =
     (case read_of_header env n of Inl e \<Rightarrow> Inl e | Inr h \<Rightarrow>
     (let current = get_active_revision n (ov_revisions db); rank = next_revision_rank (map_option rr_rank current);
          provisional = current_snapshot n h (map_option rr_id current) db
      in case format_revision_code (int rank) of Inl e \<Rightarrow> Inl e | Inr code \<Rightarrow>
     (case insert_revision env n rank code provisional (hash_snapshot env provisional) motif db of Inl e \<Rightarrow> Inl e | Inr (db1, created) \<Rightarrow>
     (let db2 = (case current of None \<Rightarrow> db1 | Some r \<Rightarrow> copy_operations_to_revision n (rr_id r) (rr_id created) db1)
      in case apply_changes label fams n (rr_id created) changes db2 of Inl e \<Rightarrow> Inl e | Inr db3 \<Rightarrow>
     (let after = current_snapshot n h (Some (rr_id created)) db3;
          d = diff_revision_snapshots (hash_snapshot env) (map_option rr_snapshot current) after
      in case check_revision_creation rank motif d of Inl e \<Rightarrow> Inl e | Inr _ \<Rightarrow>
     (case update_revisions (\<lambda>r. rr_id r = rr_id created)
             (\<lambda>r. r\<lparr>rr_snapshot := after, rr_sha256 := hash_snapshot env after, rr_diff := Some d\<rparr>) (ov_revisions db3) of
        Inl e \<Rightarrow> Inl e
      | Inr rows \<Rightarrow> Inr (insert_audit_log ''OF_REVISION_CREATE'' (rr_id created) (db3\<lparr>ov_revisions := rows\<rparr>), d)))))))"

text \<open>The row of the new revision is in the table when its content is written again.\<close>

lemma update_revisions_Inr:
  "update_revisions hit f rows = Inr rows' \<Longrightarrow> rows' = map (\<lambda>r. if hit r then f r else r) rows
     \<and> list_all (\<lambda>r. revision_update_allowed r (f r)) (filter hit rows)"
  by (auto simp: update_revisions_def split: if_splits)

lemma insert_revision_row:
  assumes "insert_revision env n rank code s sha motif db = Inr (db1, row)"
  shows "\<exists>r \<in> set (ov_revisions db1). rr_id r = rr_id row \<and> rr_diff r = None"
proof -
  obtain rows rows' hit f where rows': "update_revisions hit f (rows @ [row]) = Inr rows'" and db1: "ov_revisions db1 = rows'"
    and f: "\<And>r. rr_id (f r) = rr_id r \<and> rr_diff (f r) = rr_diff r" and d: "rr_diff row = None"
    using assms by (auto simp: insert_revision_def Let_def split: sum.splits if_splits)
  have "(if hit row then f row else row) \<in> set rows'" using update_revisions_Inr [OF rows'] by simp
  then show ?thesis using f d unfolding db1 by (metis (full_types))
qed

lemma changes_keep_revisions:
  "apply_changes label fams n i cs db = Inr db' \<Longrightarrow> ov_revisions db' = ov_revisions db"
proof (induction cs arbitrary: db)
  case (Cons c cs)
  have "\<exists>db1. update_operation_on_revision label n i c db = Inr db1 \<and> apply_changes label fams n i cs db1 = Inr db'"
    using Cons.prems by (auto split: option.splits if_splits sum.splits)
  then obtain db1 where u: "update_operation_on_revision label n i c db = Inr db1" and a: "apply_changes label fams n i cs db1 = Inr db'"
    by blast
  have "ov_revisions db1 = ov_revisions db" using u by (auto simp: update_operation_on_revision_def Let_def split: if_splits)
  with Cons.IH [OF a] show ?case by simp
qed simp

text \<open>C29: No revision of a works order is ever created. The service inserts the row without differences and then writes
  the final snapshot and the differences into it, and the trigger of the table refuses any update that changes
  them: whatever the works order, the reason and the changes asked for, the request fails and its transaction
  is rolled back.\<close>

theorem revision_creation_always_fails:
  "\<exists>e. create_revision env label fams n motif changes db = Inl e"
proof (rule ccontr)
  assume "\<not> ?thesis"
  then obtain x where x: "create_revision env label fams n motif changes db = Inr x"
    by (cases "create_revision env label fams n motif changes db") auto
  let ?cur = "get_active_revision n (ov_revisions db)"
  obtain h rank code s sha db1 row where i: "insert_revision env n rank code s sha motif db = Inr (db1, row)"
    and a: "\<exists>db3 s' sha' d rows. apply_changes label fams n (rr_id row)
        changes (case ?cur of None \<Rightarrow> db1 | Some r \<Rightarrow> copy_operations_to_revision n (rr_id r) (rr_id row) db1) = Inr db3
      \<and> update_revisions (\<lambda>r. rr_id r = rr_id row) (\<lambda>r. r\<lparr>rr_snapshot := s', rr_sha256 := sha', rr_diff := Some d\<rparr>) (ov_revisions db3) = Inr rows"
    using x by (auto simp: create_revision_def Let_def split: sum.splits prod.splits) blast
  then obtain db3 s' sha' d rows where c: "apply_changes label fams n (rr_id row)
        changes (case ?cur of None \<Rightarrow> db1 | Some r \<Rightarrow> copy_operations_to_revision n (rr_id r) (rr_id row) db1) = Inr db3"
    and u: "update_revisions (\<lambda>r. rr_id r = rr_id row) (\<lambda>r. r\<lparr>rr_snapshot := s', rr_sha256 := sha', rr_diff := Some d\<rparr>) (ov_revisions db3) = Inr rows"
    by blast
  have "ov_revisions db3 = ov_revisions db1"
    using changes_keep_revisions [OF c] by (simp add: copy_operations_to_revision_def Let_def split: option.splits)
  then obtain r where r: "r \<in> set (ov_revisions db3)" "rr_id r = rr_id row" "rr_diff r = None" using insert_revision_row [OF i] by auto
  have "revision_update_allowed r (r\<lparr>rr_snapshot := s', rr_sha256 := sha', rr_diff := Some d\<rparr>)"
    using update_revisions_Inr [OF u] r by (simp add: list_all_iff)
  then show False using r(3) by (simp add: revision_update_allowed_def)
qed

section \<open>Signatures\<close>

record visa_input =
  vn_phase :: int
  vn_statut :: string
  vn_initials :: string
  vn_quantite_bonne :: "rat option"
  vn_quantite_rebut :: "rat option"
  vn_motif_rebut :: "string option"
  vn_controle_initials :: "string option"
  vn_comment :: "string option"

definition create_visa :: "ov_env \<Rightarrow> nat \<Rightarrow> nat \<Rightarrow> visa_input \<Rightarrow> ov_db \<Rightarrow> (ov_db \<times> nat) result" where
  "create_visa env n rev_id v db =
     (case find (\<lambda>r. rr_id r = rev_id \<and> rr_of_id r = n) (ov_revisions db) of
        None \<Rightarrow> Inl (HttpError 404 ''OF_REVISION_NOT_FOUND'')
      | Some r \<Rightarrow>
          if rr_statut r = OBSOLETE then Inl (HttpError 409 ''OF_REVISION_OBSOLETE'')
          else (case find (\<lambda>x. op_of_id x = n \<and> op_revision_id x = rev_id \<and> ro_phase (op_content x) = vn_phase v) (ov_operations db) of
              None \<Rightarrow> Inl (HttpError 404 ''OF_PHASE_NOT_FOUND'')
            | Some x \<Rightarrow>
                Inr (insert_audit_log ''OF_VISA_CREATE'' (ov_next db) (db\<lparr>ov_visas := ov_visas db @
                    [\<lparr>vi_id = ov_next db, vi_operation_id = op_id x, vi_user_id = oe_user env, vi_initials = vn_initials v,
                      vi_statut = vn_statut v, vi_quantite_bonne = vn_quantite_bonne v, vi_quantite_rebut = vn_quantite_rebut v,
                      vi_motif_rebut = vn_motif_rebut v,
                      vi_controle_user_id = (if truthy (vn_controle_initials v) then Some (oe_user env) else None),
                      vi_controle_initials = vn_controle_initials v, vi_comment = vn_comment v\<rparr>],
                  ov_next := Suc (ov_next db)\<rparr>), ov_next db)))"

section \<open>Files opened and followed by hand\<close>

record ar_input =
  ai_affaire_id :: "int option"
  ai_previous_date :: "string option"
  ai_new_date :: "string option"
  ai_previous_cadence :: "ar_cadence option"
  ai_new_cadence :: "ar_cadence option"
  ai_quantite :: "rat option"
  ai_motif :: ar_motif
  ai_commentaire :: "string option"
  ai_owner_user_id :: "nat option"

definition find_ar_by_idempotency_key :: "string \<Rightarrow> dossier_row list \<Rightarrow> dossier_row option" where
  "find_ar_by_idempotency_key k rows = find (\<lambda>r. dr_idempotency_key r = Some k) rows"

definition create_ar_dossier :: "ov_env \<Rightarrow> nat \<Rightarrow> ar_input \<Rightarrow> string option \<Rightarrow> ov_db \<Rightarrow> (ov_db \<times> nat \<times> bool) result" where
  "create_ar_dossier env n a key db =
     (case validate_ar_recalage_input (motif_name (ai_motif a)) (ai_commentaire a) of Inl e \<Rightarrow> Inl e | Inr _ \<Rightarrow>
     (if ai_previous_date a = ai_new_date a \<and> ai_previous_cadence a = ai_new_cadence a
      then Inl (HttpError 422 ''AR_RECALAGE_NO_IMPACT'')
      else case Option.bind key (\<lambda>k. find_ar_by_idempotency_key k (ov_dossiers db)) of
        Some r \<Rightarrow> Inr (db, dr_id r, True)
      | None \<Rightarrow>
     (case read_of_header env n of Inl e \<Rightarrow> Inl e | Inr h \<Rightarrow>
     (case insert_ar_dossier env
         \<lparr>ad_client_id = oh_client_id h, ad_client_nom = oh_client_nom h, ad_commande_id = oh_commande_id h,
          ad_commande_numero = oh_commande_numero h,
          ad_affaire_id = (case ai_affaire_id a of None \<Rightarrow> oh_affaire_id h | Some x \<Rightarrow> Some x), ad_affaire_numero = None,
          ad_of_id = n, ad_of_numero = oh_numero h, ad_planning_version_id = None, ad_previous_date = ai_previous_date a,
          ad_previous_cadence = ai_previous_cadence a, ad_new_date = ai_new_date a, ad_new_cadence = ai_new_cadence a,
          ad_quantite = ai_quantite a, ad_motif = ai_motif a, ad_commentaire = ai_commentaire a, ad_statut = AR_A_TRAITER,
          ad_owner_user_id = ai_owner_user_id a\<rparr> key db of
        Inl e \<Rightarrow> Inl e
      | Inr (db', i) \<Rightarrow> Inr (insert_audit_log ''AR_RECALAGE_CREATE'' i db', i, False)))))"

definition ar_terminal :: "ar_statut \<Rightarrow> bool" where
  "ar_terminal s \<longleftrightarrow> s = AR_RECALE \<or> s = AR_ABANDONNE"

definition stamp_dossier :: "ov_env \<Rightarrow> ar_statut \<Rightarrow> nat option \<Rightarrow> string option \<Rightarrow> dossier_row \<Rightarrow> dossier_row" where
  "stamp_dossier env s owner comment r =
     r\<lparr>dr_dossier := (dr_dossier r)\<lparr>ad_statut := s,
         ad_owner_user_id := (case owner of None \<Rightarrow> ad_owner_user_id (dr_dossier r) | Some u \<Rightarrow> Some u),
         ad_commentaire := (case comment of None \<Rightarrow> ad_commentaire (dr_dossier r) | Some c \<Rightarrow> Some c)\<rparr>,
       dr_closed := (if ar_terminal s then Some (oe_now env, oe_user env) else dr_closed r)\<rparr>"

definition update_ar_dossier ::
  "ov_env \<Rightarrow> nat \<Rightarrow> ar_statut \<Rightarrow> nat option \<Rightarrow> string option \<Rightarrow> ov_db \<Rightarrow> ov_db result" where
  "update_ar_dossier env i s owner comment db =
     (case find (\<lambda>r. dr_id r = i) (ov_dossiers db) of
        None \<Rightarrow> Inl (HttpError 404 ''AR_RECALAGE_NOT_FOUND'')
      | Some r \<Rightarrow>
          if \<not> can_transition_ar_statut (ad_statut (dr_dossier r)) s then Inl (HttpError 422 ''AR_RECALAGE_TRANSITION'')
          else Inr (insert_audit_log ''AR_RECALAGE_UPDATE'' i (db\<lparr>ov_dossiers :=
            map (\<lambda>x. if dr_id x = i \<and> ad_statut (dr_dossier x) = ad_statut (dr_dossier r) then stamp_dossier env s owner comment x else x)
              (ov_dossiers db)\<rparr>)))"

text \<open>The requests on the files, among those on the plans.\<close>

datatype file_request =
    PlanRequest planning_request
  | OpenFile nat ar_input "string option"
  | FollowFile nat ar_statut "nat option" "string option"
  | SignPhase nat nat visa_input

fun file_step :: "ov_env \<Rightarrow> file_request \<Rightarrow> ov_db \<Rightarrow> ov_db result" where
  "file_step env (PlanRequest q) db = planning_step env q db"
| "file_step env (OpenFile n a key) db = (case create_ar_dossier env n a key db of Inl e \<Rightarrow> Inl e | Inr (db', _) \<Rightarrow> Inr db')"
| "file_step env (FollowFile i s owner c) db = update_ar_dossier env i s owner c db"
| "file_step env (SignPhase n i v) db = (case create_visa env n i v db of Inl e \<Rightarrow> Inl e | Inr (db', _) \<Rightarrow> Inr db')"

fun file_run :: "(ov_env \<times> file_request) list \<Rightarrow> ov_db \<Rightarrow> ov_db" where
  "file_run [] db = db"
| "file_run ((env, q) # qs) db = file_run qs (case file_step env q db of Inl _ \<Rightarrow> db | Inr db' \<Rightarrow> db')"

text \<open>How a file may have changed: it is the same file, its status followed the table, and once closed it is
  still closed with the same outcome; the date of closing is there exactly when it is closed.\<close>

definition file_follows :: "dossier_row \<Rightarrow> dossier_row \<Rightarrow> bool" where
  "file_follows r s \<longleftrightarrow> dr_id s = dr_id r \<and> dr_idempotency_key s = dr_idempotency_key r
     \<and> reaches ar_recalage_transitions (ad_statut (dr_dossier r)) (ad_statut (dr_dossier s))"

definition file_dated :: "dossier_row \<Rightarrow> bool" where
  "file_dated r \<longleftrightarrow> (dr_closed r \<noteq> None) = ar_terminal (ad_statut (dr_dossier r))"

text \<open>Later files are the same ones, followed, and then new ones, all dated.\<close>

definition files_extend :: "dossier_row list \<Rightarrow> dossier_row list \<Rightarrow> bool" where
  "files_extend rows rows' \<longleftrightarrow>
     (\<exists>old new. rows' = old @ new \<and> list_all2 file_follows rows old \<and> (list_all file_dated rows \<longrightarrow> list_all file_dated rows'))"

lemma file_follows_refl [simp]: "file_follows r r"
  by (simp add: file_follows_def reaches.here)

lemma file_follows_trans: "file_follows r s \<Longrightarrow> file_follows s t \<Longrightarrow> file_follows r t"
  by (auto simp: file_follows_def intro: reaches_trans)

lemma files_extend_refl [simp]: "files_extend rows rows"
  unfolding files_extend_def by (rule exI [of _ rows], rule exI [of _ "[]"]) (simp add: list.rel_refl)

lemma files_extend_trans:
  assumes "files_extend a b" "files_extend b c"
  shows "files_extend a c"
proof -
  obtain o1 n1 where 1: "b = o1 @ n1" "list_all2 file_follows a o1" "list_all file_dated a \<longrightarrow> list_all file_dated b"
    using assms(1) unfolding files_extend_def by blast
  obtain o2 n2 where 2: "c = o2 @ n2" "list_all2 file_follows b o2" "list_all file_dated b \<longrightarrow> list_all file_dated c"
    using assms(2) unfolding files_extend_def by blast
  obtain u v where uv: "o2 = u @ v" "list_all2 file_follows o1 u" using 2(2) unfolding 1(1) list_all2_append1 by blast
  have "list_all2 file_follows a u" by (rule list_all2_trans [OF file_follows_trans 1(2) uv(2)])
  then show ?thesis using 1(3) 2(1,3) uv(1) unfolding files_extend_def by (intro exI [of _ u] exI [of _ "v @ n2"]) simp
qed

lemma files_extend_new: "list_all file_dated new \<Longrightarrow> files_extend rows (rows @ new)"
  unfolding files_extend_def by (rule exI [of _ rows], rule exI [of _ new]) (simp add: list.rel_refl)

lemma files_extend_map:
  assumes "\<And>r. r \<in> set rows \<Longrightarrow> file_follows r (f r)" "\<And>r. r \<in> set rows \<Longrightarrow> file_dated r \<Longrightarrow> file_dated (f r)"
  shows "files_extend rows (map f rows)"
  unfolding files_extend_def
  by (rule exI [of _ "map f rows"], rule exI [of _ "[]"]) (use assms in \<open>simp add: list_all2_conv_all_nth list_all_iff\<close>)

lemma insert_ar_dossier_extends:
  "insert_ar_dossier env d key db = Inr (db', i) \<Longrightarrow> ad_statut d = AR_A_TRAITER \<Longrightarrow> files_extend (ov_dossiers db) (ov_dossiers db')"
  by (auto simp: insert_ar_dossier_def file_dated_def ar_terminal_def split: if_splits intro!: files_extend_new)

lemma insert_dossiers_extends:
  "insert_dossiers env v ds db = Inr (db', is) \<Longrightarrow> list_all (\<lambda>d. ad_statut d = AR_A_TRAITER) ds \<Longrightarrow> files_extend (ov_dossiers db) (ov_dossiers db')"
proof (induction ds arbitrary: db db' "is")
  case (Cons d ds)
  then obtain db1 i is1 where i: "insert_ar_dossier env d (Some (dossier_key v d)) db = Inr (db1, i)"
    and t: "insert_dossiers env v ds db1 = Inr (db', is1)" by (auto split: sum.splits)
  have "files_extend (ov_dossiers db) (ov_dossiers db1)" using insert_ar_dossier_extends [OF i] Cons.prems(2) by simp
  moreover have "files_extend (ov_dossiers db1) (ov_dossiers db')" using Cons.IH [OF t] Cons.prems(2) by simp
  ultimately show ?case by (rule files_extend_trans)
qed simp

lemma open_dossiers_extends:
  assumes "open_dossiers env n h r c db = Inr (db', is, told)"
  shows "files_extend (ov_dossiers db) (ov_dossiers db')"
proof (cases "requires_ar_recalage (pv_comparison r)")
  case True
  then obtain ds is1 where b: "build_ar_recalage_dossiers (validation_context n h (pv_id r) c) (pv_comparison r) = Inr ds"
    and i: "insert_dossiers env (pv_id r) ds db = Inr (db', is1)"
    using assms by (auto simp: open_dossiers_def split: sum.splits)
  have "list_all (\<lambda>d. ad_statut d = AR_A_TRAITER) ds"
    using b by (auto simp: build_ar_recalage_dossiers_def list_all_iff ar_dossier_of_def split: ar_decision.splits sum.splits)
  with insert_dossiers_extends [OF i] show ?thesis by simp
qed (use assms in \<open>simp add: open_dossiers_def\<close>)

lemma transition_planning_extends:
  assumes "transition_planning env n v nxt c db = Inr (db', is, told)"
  shows "files_extend (ov_dossiers db) (ov_dossiers db')"
proof -
  obtain h r plans where t: "(case (if nxt = PL_VALIDE
               then (case apply_version env n r plans of Inl e \<Rightarrow> Inl e
                     | Inr plans' \<Rightarrow> open_dossiers env n h r c (db\<lparr>ov_plans := plans'\<rparr>))
               else Inr (db\<lparr>ov_plans := plans\<rparr>, [], if nxt = PL_SOUMIS then notify_topic env ''OF_PLANNING_SUBMITTED'' else [])) of
           Inl e \<Rightarrow> Inl e
         | Inr (db', is, told) \<Rightarrow> Inr (insert_audit_log (planning_action nxt) v db', is, told)) = Inr (db', is, told)"
    by (rule transition_planning_steps [OF assms])
  show ?thesis
  proof (cases "nxt = PL_VALIDE")
    case True
    then obtain plans' db1 where "open_dossiers env n h r c (db\<lparr>ov_plans := plans'\<rparr>) = Inr (db1, is, told)"
      and "db' = insert_audit_log (planning_action nxt) v db1" using t by (auto split: sum.splits)
    then show ?thesis using open_dossiers_extends [of env n h r c "db\<lparr>ov_plans := plans'\<rparr>"] by (simp add: insert_audit_log_def)
  next
    case False
    then have "db' = insert_audit_log (planning_action nxt) v (db\<lparr>ov_plans := plans\<rparr>)" using t by simp
    then show ?thesis by (simp add: insert_audit_log_def)
  qed
qed

lemma update_ar_dossier_extends:
  assumes "update_ar_dossier env i s owner c db = Inr db'"
  shows "files_extend (ov_dossiers db) (ov_dossiers db')"
proof -
  obtain r :: dossier_row where can: "can_transition_ar_statut (ad_statut (dr_dossier r)) s"
    and db': "ov_dossiers db' = map (\<lambda>x. if dr_id x = i \<and> ad_statut (dr_dossier x) = ad_statut (dr_dossier r) then stamp_dossier env s owner c x else x)
      (ov_dossiers db)"
  proof (cases "find (\<lambda>r. dr_id r = i) (ov_dossiers db)")
    case None
    then show thesis using assms by (simp add: update_ar_dossier_def)
  next
    case (Some r)
    then show thesis using that [of r] assms by (auto simp: update_ar_dossier_def insert_audit_log_def split: if_splits)
  qed
  have reach: "reaches ar_recalage_transitions (ad_statut (dr_dossier r)) s"
    using can by (auto simp: can_transition_ar_statut_def intro: reaches.intros)
  have dated: "file_dated (stamp_dossier env s owner c x)" if "file_dated x" "ad_statut (dr_dossier x) = ad_statut (dr_dossier r)" for x
    using that can by (cases "ad_statut (dr_dossier r)"; cases s) (simp_all add: file_dated_def stamp_dossier_def ar_terminal_def can_transition_ar_statut_def)
  show ?thesis unfolding db'
    by (rule files_extend_map) (use reach dated in \<open>auto simp: file_follows_def stamp_dossier_def intro: reaches.here\<close>)
qed

lemma file_step_extends:
  assumes "file_step env q db = Inr db'"
  shows "files_extend (ov_dossiers db) (ov_dossiers db')"
proof (cases q)
  case (PlanRequest p)
  have draft: "ov_dossiers db2 = ov_dossiers db" if "create_planning_draft env n pl proposal key db = Inr (db2, r, b)" for n pl proposal key db2 r b
    using that by (auto simp: create_planning_draft_def Let_def insert_audit_log_def split: option.splits sum.splits)
  show ?thesis
    using assms PlanRequest by (cases p) (auto split: sum.splits dest: draft transition_planning_extends)
next
  case (OpenFile n a key)
  then obtain i b where c: "create_ar_dossier env n a key db = Inr (db', i, b)" using assms by (auto split: sum.splits)
  show ?thesis
  proof (cases "Option.bind key (\<lambda>k. find_ar_by_idempotency_key k (ov_dossiers db))")
    case None
    then obtain d db1 j where "insert_ar_dossier env d key db = Inr (db1, j)" "ad_statut d = AR_A_TRAITER" "ov_dossiers db' = ov_dossiers db1"
      using c by (auto simp: create_ar_dossier_def insert_audit_log_def split: sum.splits if_splits)
    then show ?thesis using insert_ar_dossier_extends by metis
  next
    case (Some r)
    then have "db' = db" using c by (auto simp: create_ar_dossier_def split: sum.splits if_splits)
    then show ?thesis by simp
  qed
next
  case (FollowFile i s owner c)
  then show ?thesis using assms update_ar_dossier_extends by simp
next
  case (SignPhase n i v)
  then have "ov_dossiers db' = ov_dossiers db"
    using assms by (auto simp: create_visa_def insert_audit_log_def split: option.splits if_splits)
  then show ?thesis by simp
qed

lemma file_run_extends: "files_extend (ov_dossiers db) (ov_dossiers (file_run qs db))"
proof (induction qs arbitrary: db)
  case (Cons q qs)
  obtain env x where q: "q = (env, x)" by force
  show ?case
  proof (cases "file_step env x db")
    case (Inr db')
    have "files_extend (ov_dossiers db') (ov_dossiers (file_run qs db'))" by (rule Cons.IH)
    with file_step_extends [OF Inr] show ?thesis using Inr q files_extend_trans by fastforce
  qed (use Cons q in simp)
qed simp

lemma file_run_append: "file_run (qs @ qs') db = file_run qs' (file_run qs db)"
proof (induction qs arbitrary: db)
  case (Cons q qs)
  then show ?case by (cases q) simp
qed simp

text \<open>A file closed now is closed for good, with the outcome it has.\<close>

definition file_kept :: "dossier_row \<Rightarrow> dossier_row \<Rightarrow> bool" where
  "file_kept r s \<longleftrightarrow> dr_id s = dr_id r \<and> (if ar_terminal (ad_statut (dr_dossier r)) then ad_statut (dr_dossier s) = ad_statut (dr_dossier r)
     else reaches ar_recalage_transitions (ad_statut (dr_dossier r)) (ad_statut (dr_dossier s)))"

lemma file_follows_kept: "file_follows r s \<Longrightarrow> file_kept r s"
  using ar_file.terminal_absorbing [of "ad_statut (dr_dossier r)" "ad_statut (dr_dossier s)"]
  by (auto simp: file_follows_def file_kept_def ar_terminal_def)

text \<open>C28: Through any requests on the plans, the files of renewed acknowledgements and the signatures, no file disappears
  or is replaced: every file known after some of the requests is still there after the others, in its place; if it was
  closed it keeps its outcome, and otherwise its status went along the transitions. A file carries a date of closing
  exactly when it is closed.\<close>

theorem files_are_followed:
  "let db1 = file_run qs (db\<lparr>ov_dossiers := []\<rparr>); db2 = file_run (qs @ qs') (db\<lparr>ov_dossiers := []\<rparr>)
   in length (ov_dossiers db1) \<le> length (ov_dossiers db2)
     \<and> list_all2 file_kept (ov_dossiers db1) (take (length (ov_dossiers db1)) (ov_dossiers db2))
     \<and> list_all (\<lambda>r. (dr_closed r \<noteq> None) = ar_terminal (ad_statut (dr_dossier r))) (ov_dossiers db2)"
proof -
  let ?db = "db\<lparr>ov_dossiers := []\<rparr>"
  let ?db1 = "file_run qs ?db" and ?db2 = "file_run (qs @ qs') ?db"
  have "files_extend (ov_dossiers ?db1) (ov_dossiers ?db2)" unfolding file_run_append by (rule file_run_extends)
  then obtain old new where o: "ov_dossiers ?db2 = old @ new" "list_all2 file_follows (ov_dossiers ?db1) old" unfolding files_extend_def by blast
  have len: "length (ov_dossiers ?db1) = length old" using o(2) by (rule list_all2_lengthD)
  have "list_all2 file_kept (ov_dossiers ?db1) old" using o(2) by (rule list_all2_mono) (rule file_follows_kept)
  moreover have "list_all file_dated (ov_dossiers ?db2)" using file_run_extends [of ?db "qs @ qs'"] by (auto simp: files_extend_def)
  ultimately show ?thesis using o(1) len by (simp add: Let_def file_dated_def [abs_def])
qed

end
