(* ===== verification/Mfa_Codes.thy ===== *)
theory Mfa_Codes
  imports Complex_Main Decimal_Money "HOL-Library.Word"
begin

unbundle bit_operations_syntax

text \<open>
  \<open>src/module/auth/domain/mfa.ts\<close>: the base 32 text of a secret, the one-time codes and the recovery codes. The
  shifts of JavaScript work on 32 bits and the model keeps them. The keyed hash that turns a secret and a
  counter into 20 bytes, and the random numbers, are arguments.
\<close>

section \<open>Base 32\<close>

definition BASE32_ALPHABET :: string where
  "BASE32_ALPHABET = ''ABCDEFGHIJKLMNOPQRSTUVWXYZ234567''"

fun position :: "char \<Rightarrow> string \<Rightarrow> nat option" where
  "position c [] = None"
| "position c (x # xs) = (if x = c then Some 0 else map_option Suc (position c xs))"

definition base32_char :: "32 word \<Rightarrow> char" where
  "base32_char w = BASE32_ALPHABET ! unat (w AND 31)"

text \<open>The inner loop: a letter for every five bits, the first ones first.\<close>

fun emit_groups :: "32 word \<Rightarrow> nat \<Rightarrow> string" where
  "emit_groups v bits = (if 5 \<le> bits then base32_char (drop_bit (bits - 5) v) # emit_groups v (bits - 5) else [])"

declare emit_groups.simps [simp del]

fun encode_bytes :: "8 word list \<Rightarrow> 32 word \<Rightarrow> nat \<Rightarrow> string" where
  "encode_bytes [] v bits = (if 0 < bits then [base32_char (push_bit (5 - bits) v)] else [])"
| "encode_bytes (b # bs) v bits =
     (let v' = push_bit 8 v OR ucast b in emit_groups v' (bits + 8) @ encode_bytes bs v' ((bits + 8) mod 5))"

definition encode_base32 :: "8 word list \<Rightarrow> string" where
  "encode_base32 bs = encode_bytes bs 0 0"

fun decode_chars :: "string \<Rightarrow> 32 word \<Rightarrow> nat \<Rightarrow> 8 word list result" where
  "decode_chars [] v bits = Inr []"
| "decode_chars (c # cs) v bits =
     (case position c BASE32_ALPHABET of
        None \<Rightarrow> Inl (JsError ''Invalid base32 secret'')
      | Some i \<Rightarrow>
          (let v' = push_bit 5 v OR of_nat i
           in if 8 \<le> bits + 5
              then (case decode_chars cs v' (bits + 5 - 8) of Inl e \<Rightarrow> Inl e | Inr out \<Rightarrow> Inr (ucast (drop_bit (bits + 5 - 8) v') # out))
              else decode_chars cs v' (bits + 5)))"

definition strip_padding :: "string \<Rightarrow> string" where
  "strip_padding s = rev (dropWhile (\<lambda>c. c = CHR ''='') (rev s))"

definition decode_base32 :: "string \<Rightarrow> 8 word list result" where
  "decode_base32 s = decode_chars (filter (\<lambda>c. \<not> js_space c) (strip_padding (js_upper s))) 0 0"

section \<open>One-time codes\<close>

definition TOTP_PERIOD_SECONDS :: nat where
  "TOTP_PERIOD_SECONDS = 30"

definition TOTP_DIGITS :: nat where
  "TOTP_DIGITS = 6"

text \<open>A byte of the digest, zero outside it.\<close>

definition byte_at :: "8 word list \<Rightarrow> nat \<Rightarrow> 32 word" where
  "byte_at digest i = (if i < length digest then ucast (digest ! i) else 0)"

definition truncate_digest :: "8 word list \<Rightarrow> nat" where
  "truncate_digest digest =
     (let off = unat (byte_at digest (length digest - 1) AND 0x0f)
      in unat (push_bit 24 (byte_at digest off AND 0x7f) OR push_bit 16 (byte_at digest (off + 1) AND 0xff)
           OR push_bit 8 (byte_at digest (off + 2) AND 0xff) OR (byte_at digest (off + 3) AND 0xff)))"

definition totp_for_step :: "(8 word list \<Rightarrow> nat \<Rightarrow> 8 word list) \<Rightarrow> string \<Rightarrow> nat \<Rightarrow> string result" where
  "totp_for_step hmac secret step =
     (case decode_base32 secret of Inl e \<Rightarrow> Inl e
      | Inr key \<Rightarrow> Inr (pad_start TOTP_DIGITS (CHR ''0'') (show_nat (truncate_digest (hmac key step) mod 10 ^ TOTP_DIGITS))))"

definition current_step :: "nat \<Rightarrow> nat" where
  "current_step now = now div 1000 div TOTP_PERIOD_SECONDS"

text \<open>The step before, the present one and the next; the first whose code is the one given.\<close>

fun first_match :: "(nat \<Rightarrow> string result) \<Rightarrow> string \<Rightarrow> nat list \<Rightarrow> nat option result" where
  "first_match code_of code [] = Inr None"
| "first_match code_of code (k # ks) =
     (case code_of k of Inl e \<Rightarrow> Inl e | Inr expected \<Rightarrow> if code = expected then Inr (Some k) else first_match code_of code ks)"

definition six_digits :: "string \<Rightarrow> bool" where
  "six_digits s \<longleftrightarrow> length s = 6 \<and> list_all is_digit s"

definition verify_totp :: "(8 word list \<Rightarrow> nat \<Rightarrow> 8 word list) \<Rightarrow> string \<Rightarrow> string \<Rightarrow> nat \<Rightarrow> nat option result" where
  "verify_totp hmac secret given now =
     (let code = filter (\<lambda>c. \<not> js_space c) given
      in if \<not> six_digits code then Inr None
         else first_match (totp_for_step hmac secret) code [current_step now - 1, current_step now, current_step now + 1])"

section \<open>Recovery codes\<close>

definition capital_or_digit :: "char \<Rightarrow> bool" where
  "capital_or_digit c \<longleftrightarrow> c \<in> set ''ABCDEFGHIJKLMNOPQRSTUVWXYZ0123456789''"

definition normalize_recovery_code :: "string \<Rightarrow> string" where
  "normalize_recovery_code code = filter capital_or_digit (js_upper code)"

definition RECOVERY_ALPHABET :: string where
  "RECOVERY_ALPHABET = ''ABCDEFGHJKLMNPQRSTUVWXYZ23456789''"

text \<open>A code from sixteen random indices, in groups of four.\<close>

definition recovery_code :: "(nat \<Rightarrow> nat) \<Rightarrow> string" where
  "recovery_code rnd =
     (let raw = map (\<lambda>i. RECOVERY_ALPHABET ! (rnd i mod 32)) [0..<16]
      in take 4 raw @ ''-'' @ take 4 (drop 4 raw) @ ''-'' @ take 4 (drop 8 raw) @ ''-'' @ drop 12 raw)"

definition generate_recovery_codes :: "(nat \<Rightarrow> nat \<Rightarrow> nat) \<Rightarrow> string list" where
  "generate_recovery_codes rnd = map (\<lambda>k. recovery_code (rnd k)) [0..<10]"

section \<open>The bits of a text\<close>

text \<open>The lowest bits of a word, the highest first.\<close>

definition low_bits :: "nat \<Rightarrow> 'a::len word \<Rightarrow> bool list" where
  "low_bits k w = map (\<lambda>i. bit w (k - 1 - i)) [0..<k]"

definition char_bits :: "char \<Rightarrow> bool list" where
  "char_bits c = low_bits 5 (of_nat (the (position c BASE32_ALPHABET)) :: 32 word)"

definition in_alphabet :: "char \<Rightarrow> bool" where
  "in_alphabet c \<longleftrightarrow> c \<in> set BASE32_ALPHABET"

lemma length_low_bits [simp]: "length (low_bits k w) = k"
  by (simp add: low_bits_def)

lemma nth_low_bits: "i < k \<Longrightarrow> low_bits k w ! i = bit w (k - 1 - i)"
  by (simp add: low_bits_def)

lemma low_bits_append:
  "low_bits (m + n) w = low_bits m (drop_bit n w) @ low_bits n w"
  by (rule nth_equalityI) (auto simp: nth_append nth_low_bits bit_drop_bit_eq add.commute [of m n])

lemma low_bits_push:
  fixes v w :: "32 word"
  assumes mn: "m + n \<le> 32" and w: "\<And>i. n \<le> i \<Longrightarrow> \<not> bit w i"
  shows "low_bits (m + n) (push_bit n v OR w) = low_bits m v @ low_bits n w"
proof (rule nth_equalityI)
  fix i assume "i < length (low_bits (m + n) (push_bit n v OR w))"
  then have i: "i < m + n" by simp
  show "low_bits (m + n) (push_bit n v OR w) ! i = (low_bits m v @ low_bits n w) ! i"
  proof (cases "i < m")
    case True
    then have k: "m + n - 1 - i = n + (m - 1 - i)" by simp
    have "n \<le> n + m - Suc i" "n + m - Suc i < 32" using True mn by auto
    then show ?thesis using True w [of "n + (m - 1 - i)"] i
      unfolding nth_append nth_low_bits [OF i] k by (simp add: nth_low_bits bit_or_iff bit_push_bit_iff)
  next
    case False
    then have k: "m + n - 1 - i = n - 1 - (i - m)" "n - 1 - (i - m) < n" using i by simp_all
    show ?thesis using False k(2) i
      unfolding nth_append nth_low_bits [OF i] k(1) by (simp add: nth_low_bits bit_or_iff bit_push_bit_iff)
  qed
qed simp

lemma low_bits_byte: "low_bits 8 (ucast (b :: 8 word) :: 32 word) = low_bits 8 b"
  by (rule nth_equalityI) (auto simp: nth_low_bits bit_ucast_iff)

lemma byte_high: "8 \<le> i \<Longrightarrow> \<not> bit (ucast (b :: 8 word) :: 32 word) i"
  using bit_imp_le_length [of b i] by (auto simp: bit_ucast_iff)

lemma low_bits_inj: "low_bits 8 (a :: 8 word) = low_bits 8 b \<Longrightarrow> a = b"
proof (rule bit_word_eqI)
  fix n assume e: "low_bits 8 a = low_bits 8 b" and n: "n < LENGTH(8)"
  have "low_bits 8 a ! (7 - n) = low_bits 8 b ! (7 - n)" using e by simp
  then show "bit a n = bit b n" using n by (simp add: nth_low_bits)
qed

lemma position_nth: "distinct s \<Longrightarrow> i < length s \<Longrightarrow> position (s ! i) s = Some i"
  by (induction s arbitrary: i) (auto simp: nth_Cons split: nat.splits)

lemma position_None: "position c s = None \<longleftrightarrow> c \<notin> set s"
  by (induction s) auto

lemma position_less: "position c s = Some i \<Longrightarrow> i < length s"
  by (induction s arbitrary: i) (auto split: if_splits)

lemma alphabet: "distinct BASE32_ALPHABET" "length BASE32_ALPHABET = 32"
  by code_simp+

lemma base32_char_position: "position (base32_char w) BASE32_ALPHABET = Some (unat (w AND 31))"
proof -
  have "w AND 31 \<le> 31" by (rule word_and_le1)
  then have "unat (w AND 31) < 32" by (simp add: word_le_nat_alt)
  then show ?thesis unfolding base32_char_def by (intro position_nth) (simp_all add: alphabet)
qed

lemma base32_char_bits: "char_bits (base32_char w) = low_bits 5 w"
proof -
  have "bit (31 :: 32 word) i" if "i < 5" for i
  proof -
    have "i \<in> {0, 1, 2, 3, 4}" using that by auto
    then show ?thesis by auto
  qed
  then show ?thesis unfolding char_bits_def base32_char_position option.sel
    by (intro nth_equalityI) (auto simp: nth_low_bits bit_and_iff bit_of_nat_iff bit_unsigned_iff)
qed

lemma base32_char_in: "in_alphabet (base32_char w)"
  using base32_char_position [of w] position_None [of "base32_char w" BASE32_ALPHABET] by (auto simp: in_alphabet_def)

lemma emit_groups_bits:
  "concat (map char_bits (emit_groups v bits)) @ low_bits (bits mod 5) v = low_bits bits v \<and> list_all in_alphabet (emit_groups v bits)"
proof (induction bits rule: less_induct)
  case (less bits)
  show ?case
  proof (cases "5 \<le> bits")
    case True
    then have IH: "concat (map char_bits (emit_groups v (bits - 5))) @ low_bits ((bits - 5) mod 5) v = low_bits (bits - 5) v"
      "list_all in_alphabet (emit_groups v (bits - 5))" using less by simp_all
    have "(bits - 5) mod 5 = bits mod 5" using True by (simp add: le_mod_geq)
    then show ?thesis
      using IH True low_bits_append [of 5 "bits - 5" v] emit_groups.simps [of v bits] base32_char_bits base32_char_in by simp
  qed (simp add: emit_groups.simps [of v bits])
qed

text \<open>The letters carry the bits of the bytes, and at most four zeros after them.\<close>

lemma encode_bytes_bits:
  "bits < 5 \<Longrightarrow> \<exists>z < 5. concat (map char_bits (encode_bytes bs v bits)) = low_bits bits v @ concat (map (low_bits 8) bs) @ replicate z False
     \<and> list_all in_alphabet (encode_bytes bs v bits)"
proof (induction bs arbitrary: v bits)
  case Nil
  show ?case
  proof (cases "bits = 0")
    case True
    then show ?thesis by (intro exI [of _ 0]) (simp add: low_bits_def)
  next
    case False
    have "low_bits (bits + (5 - bits)) (push_bit (5 - bits) v OR 0) = low_bits bits v @ low_bits (5 - bits) (0 :: 32 word)"
      by (rule low_bits_push) (use Nil in simp_all)
    then have "low_bits 5 (push_bit (5 - bits) v) = low_bits bits v @ replicate (5 - bits) False"
      using Nil by (simp add: low_bits_def map_replicate_const)
    then show ?thesis using False Nil by (intro exI [of _ "5 - bits"]) (simp add: base32_char_bits base32_char_in)
  qed
next
  case (Cons b bs)
  let ?v = "push_bit 8 v OR ucast b :: 32 word"
  have v: "low_bits (bits + 8) ?v = low_bits bits v @ low_bits 8 b"
    using low_bits_push [of bits 8 "ucast b" v] Cons.prems byte_high by (simp add: low_bits_byte)
  obtain z where z: "z < 5" "concat (map char_bits (encode_bytes bs ?v ((bits + 8) mod 5)))
      = low_bits ((bits + 8) mod 5) ?v @ concat (map (low_bits 8) bs) @ replicate z False"
    "list_all in_alphabet (encode_bytes bs ?v ((bits + 8) mod 5))"
    using Cons.IH [of "(bits + 8) mod 5" ?v] by auto
  have e: "concat (map char_bits (emit_groups ?v (bits + 8))) @ low_bits ((bits + 8) mod 5) ?v = low_bits bits v @ low_bits 8 b"
    "list_all in_alphabet (emit_groups ?v (bits + 8))" using emit_groups_bits [of ?v "bits + 8"] v by simp_all
  have "concat (map char_bits (encode_bytes (b # bs) v bits))
      = (concat (map char_bits (emit_groups ?v (bits + 8))) @ low_bits ((bits + 8) mod 5) ?v) @ concat (map (low_bits 8) bs) @ replicate z False"
    using z(2) by (simp add: Let_def)
  then show ?case using z(1,3) e by (intro exI [of _ z]) (simp add: Let_def)
qed

text \<open>Reading letters keeps their bits, but for less than a byte at the end.\<close>

lemma decode_chars_bits:
  "bits < 8 \<Longrightarrow> list_all in_alphabet cs \<Longrightarrow>
   \<exists>out rest. decode_chars cs v bits = Inr out \<and> length rest < 8 \<and> concat (map (low_bits 8) out) @ rest = low_bits bits v @ concat (map char_bits cs)"
proof (induction cs arbitrary: v bits)
  case (Cons c cs)
  obtain i where i: "position c BASE32_ALPHABET = Some i"
    using Cons.prems(2) position_None [of c BASE32_ALPHABET] by (auto simp: in_alphabet_def)
  then have i32: "i < 32" using position_less alphabet(2) by fastforce
  let ?w = "of_nat i :: 32 word"
  let ?v = "push_bit 5 v OR ?w"
  have high: "\<not> bit ?w k" if "5 \<le> k" for k
  proof -
    have "i < 2 ^ k" using i32 power_increasing [OF that, of "2 :: nat"] by simp
    then have "\<not> bit i k" by (simp add: bit_iff_odd)
    then show ?thesis by (simp add: bit_of_nat_iff)
  qed
  have v: "low_bits (bits + 5) ?v = low_bits bits v @ char_bits c"
    using low_bits_push [of bits 5 ?w v] Cons.prems(1) high i by (simp add: char_bits_def)
  show ?case
  proof (cases "8 \<le> bits + 5")
    case True
    let ?b = "bits + 5 - 8"
    have b8: "?b < 8" using Cons.prems(1) by simp
    obtain out rest where o: "decode_chars cs ?v ?b = Inr out" "length rest < 8"
        "concat (map (low_bits 8) out) @ rest = low_bits ?b ?v @ concat (map char_bits cs)"
      using Cons.IH [of ?b ?v] Cons.prems b8 by (simp only: list.pred_inject) blast
    have "low_bits 8 (ucast (drop_bit ?b ?v) :: 8 word) = low_bits 8 (drop_bit ?b ?v)"
      by (rule nth_equalityI) (auto simp: nth_low_bits bit_ucast_iff)
    moreover have "low_bits (bits + 5) ?v = low_bits 8 (drop_bit ?b ?v) @ low_bits ?b ?v"
    proof -
      have k: "8 + ?b = bits + 5" using True by simp
      show ?thesis using low_bits_append [of 8 ?b ?v] unfolding k .
    qed
    ultimately show ?thesis using o True i v by (intro exI [of _ "ucast (drop_bit ?b ?v) # out"] exI [of _ rest]) (simp add: Let_def)
  next
    case False
    obtain out rest where "decode_chars cs ?v (bits + 5) = Inr out" "length rest < 8"
        "concat (map (low_bits 8) out) @ rest = low_bits (bits + 5) ?v @ concat (map char_bits cs)"
      using Cons.IH [of "bits + 5" ?v] Cons.prems False by auto
    then show ?thesis using False i v by (intro exI [of _ out] exI [of _ rest]) (simp add: Let_def)
  qed
qed (simp add: low_bits_def)

lemma bytes_of_bits:
  "concat (map (low_bits 8) out) @ rest = concat (map (low_bits 8) bs) @ z \<Longrightarrow> length rest < 8 \<Longrightarrow> length z < 8 \<Longrightarrow> out = (bs :: 8 word list)"
proof (induction out arbitrary: bs)
  case Nil
  show ?case
  proof (cases bs)
    case (Cons y ys)
    with Nil.prems(1) have "rest = low_bits 8 y @ concat (map (low_bits 8) ys) @ z" by simp
    then have "8 \<le> length rest" by simp
    with Nil.prems(2) show ?thesis by simp
  qed simp
next
  case (Cons x out)
  show ?case
  proof (cases bs)
    case Nil
    with Cons.prems have "low_bits 8 x @ concat (map (low_bits 8) out) @ rest = z" by simp
    then have "length z = 8 + length (concat (map (low_bits 8) out) @ rest)" by (metis length_append length_low_bits)
    with Cons.prems(3) show ?thesis by simp
  next
    case (Cons y ys)
    with Cons.prems have "low_bits 8 x @ concat (map (low_bits 8) out) @ rest = low_bits 8 y @ concat (map (low_bits 8) ys) @ z" by simp
    then have "low_bits 8 x = low_bits 8 y" "concat (map (low_bits 8) out) @ rest = concat (map (low_bits 8) ys) @ z"
      by (simp_all add: append_eq_append_conv)
    then show ?thesis using Cons low_bits_inj Cons.IH Cons.prems(2,3) by blast
  qed
qed

lemma alphabet_plain: "in_alphabet c \<Longrightarrow> upper_char c = [c] \<and> \<not> js_space c \<and> c \<noteq> CHR ''=''"
proof -
  have "list_all (\<lambda>c. upper_char c = [c] \<and> \<not> js_space c \<and> c \<noteq> CHR ''='') BASE32_ALPHABET" by code_simp
  then show "in_alphabet c \<Longrightarrow> upper_char c = [c] \<and> \<not> js_space c \<and> c \<noteq> CHR ''=''" by (simp add: list_all_iff in_alphabet_def)
qed

lemma alphabet_text:
  assumes "list_all in_alphabet s"
  shows "filter (\<lambda>c. \<not> js_space c) (strip_padding (js_upper s)) = s"
proof -
  have u: "js_upper s = s" using assms by (induction s) (simp_all add: js_upper_def alphabet_plain)
  have "dropWhile (\<lambda>c. c = CHR ''='') (rev s) = rev s"
  proof (cases "rev s")
    case (Cons a l)
    then have "a \<in> set s" by (metis list.set_intros(1) set_rev)
    then have "a \<noteq> CHR ''=''" using assms alphabet_plain by (simp add: list_all_iff)
    then show ?thesis by (simp add: Cons)
  qed simp
  then show ?thesis using assms alphabet_plain by (simp add: u strip_padding_def filter_id_conv list_all_iff)
qed

text \<open>C30: The base 32 text of any bytes reads back to the same bytes, although the shifts of the two loops run on words of 32
  bits that are never masked: what overflows on the left is never looked at again. The text uses only the
  letters A to Z and the digits 2 to 7.\<close>

theorem base32_codec:
  "decode_base32 (encode_base32 bs) = Inr bs \<and> list_all in_alphabet (encode_base32 bs)"
proof -
  obtain z where z: "z < 5" "concat (map char_bits (encode_base32 bs)) = concat (map (low_bits 8) bs) @ replicate z False"
      "list_all in_alphabet (encode_base32 bs)"
    using encode_bytes_bits [of 0 bs 0] by (auto simp: encode_base32_def low_bits_def)
  obtain out rest where o: "decode_chars (encode_base32 bs) 0 0 = Inr out" "length rest < 8"
      "concat (map (low_bits 8) out) @ rest = low_bits 0 (0 :: 32 word) @ concat (map char_bits (encode_base32 bs))"
    using decode_chars_bits [of 0 "encode_base32 bs" 0] z(3) by auto
  have "out = bs" by (rule bytes_of_bits [of out rest bs "replicate z False"]) (use o z in \<open>simp_all add: low_bits_def\<close>)
  then show ?thesis using o(1) z(3) by (simp add: decode_base32_def alphabet_text)
qed

section \<open>The shape of the codes\<close>

lemma totp_six_digits: "totp_for_step hmac secret k = Inr c \<Longrightarrow> six_digits c"
proof -
  assume "totp_for_step hmac secret k = Inr c"
  then obtain n where c: "c = pad_start 6 (CHR ''0'') (show_nat n)" and n: "n < 10 ^ 6"
    by (auto simp: totp_for_step_def TOTP_DIGITS_def split: sum.splits)
  have "length (show_nat n) \<le> 6" using show_nat_length [OF n] by simp
  moreover have "list_all is_digit c" unfolding c by (rule pad_start_digits) (simp add: list_all_iff show_nat_digits)
  ultimately show ?thesis by (simp add: six_digits_def c pad_start_def)
qed

lemma verify_totp_code:
  assumes "verify_totp hmac secret given now = Inr (Some k)"
  shows "six_digits (filter (\<lambda>c. \<not> js_space c) given)" "totp_for_step hmac secret k = Inr (filter (\<lambda>c. \<not> js_space c) given)"
    "k \<in> {current_step now - 1, current_step now, current_step now + 1}"
  using assms by (auto simp: verify_totp_def Let_def split: if_splits sum.splits)

text \<open>A recovery code is sixteen capitals and digits; a text that passes for a one-time code is never one.\<close>

lemma recovery_code_normal: "length (normalize_recovery_code (recovery_code rnd)) = 16"
proof -
  let ?raw = "map (\<lambda>i. RECOVERY_ALPHABET ! (rnd i mod 32)) [0..<16]"
  have a: "list_all (\<lambda>c. upper_char c = [c] \<and> capital_or_digit c) RECOVERY_ALPHABET" "length RECOVERY_ALPHABET = 32" by code_simp+
  have d: "upper_char (CHR ''-'') = ''-''" "\<not> capital_or_digit (CHR ''-'')" by code_simp+
  have raw: "list_all (\<lambda>c. upper_char c = [c] \<and> capital_or_digit c) ?raw"
    using a by (simp add: list_all_iff)
  have n: "normalize_recovery_code s = s" if "list_all (\<lambda>c. upper_char c = [c] \<and> capital_or_digit c) s" for s
    using that by (induction s) (simp_all add: normalize_recovery_code_def js_upper_def)
  have app: "normalize_recovery_code (s @ t) = normalize_recovery_code s @ normalize_recovery_code t" for s t
    by (simp add: normalize_recovery_code_def js_upper_def)
  have dash: "normalize_recovery_code ''-'' = []" by (simp add: normalize_recovery_code_def js_upper_def d)
  have part: "list_all (\<lambda>c. upper_char c = [c] \<and> capital_or_digit c) s" if "set s \<subseteq> set ?raw" for s
    using that raw by (auto simp: list_all_iff)
  have "normalize_recovery_code (recovery_code rnd) = take 4 ?raw @ take 4 (drop 4 ?raw) @ take 4 (drop 8 ?raw) @ drop 12 ?raw"
    unfolding recovery_code_def Let_def app dash append_Nil
    by (simp only: n [OF part [OF set_take_subset]] n [OF part [OF subset_trans [OF set_take_subset set_drop_subset]]] n [OF part [OF set_drop_subset]])
  then show ?thesis by simp
qed

lemma six_digits_normal:
  assumes "six_digits (filter (\<lambda>c. \<not> js_space c) given)"
  shows "length (normalize_recovery_code given) \<le> 6"
proof -
  have d: "list_all (\<lambda>c. upper_char c = [c]) ''0123456789''" by code_simp
  have sp: "filter capital_or_digit (upper_char c) = []" if "js_space c" for c
  proof -
    have "of_char c \<in> {9, 10, 11, 12, 13, 32, 160 :: nat}" using that by (simp add: js_space_def)
    then have "c \<in> {char_of (9 :: nat), char_of (10 :: nat), char_of (11 :: nat), char_of (12 :: nat), char_of (13 :: nat), char_of (32 :: nat), char_of (160 :: nat)}"
      by (metis char_of_char insert_iff singletonD empty_iff)
    moreover have "list_all (\<lambda>c. filter capital_or_digit (upper_char c) = []) (map char_of [9, 10, 11, 12, 13, 32, 160 :: nat])" by code_simp
    ultimately show ?thesis by auto
  qed
  have "length (normalize_recovery_code g) \<le> length (filter (\<lambda>c. \<not> js_space c) g)"
    if "list_all is_digit (filter (\<lambda>c. \<not> js_space c) g)" for g
    using that
  proof (induction g)
    case (Cons c g)
    have "length (filter capital_or_digit (upper_char c)) \<le> 1" if "is_digit c"
    proof -
      have "upper_char c = [c]" using that d unfolding list_all_iff is_digit_def by blast
      then show ?thesis by simp
    qed
    with Cons sp [of c] show ?case by (cases "js_space c") (auto simp: normalize_recovery_code_def js_upper_def)
  qed (simp add: normalize_recovery_code_def js_upper_def)
  from this [of given] assms show ?thesis by (simp add: six_digits_def)
qed

end
