(* ===== verification/Mfa_Service.thy ===== *)
theory Mfa_Service
  imports Complex_Main Mfa_Codes
begin

text \<open>
  \<open>src/module/auth/services/mfa.service.ts\<close> and \<open>domain/mfa-policy.ts\<close>: the second factor of an account, from its
  enrolment to its revocation. Each request is one transaction under the row locks of the code: it returns
  the new tables, an answer and what it tells about the factor, or an error that leaves the tables as
  they were. The hour in milliseconds, the random values, the comparison of passwords and the keyed hashes
  are arguments; a secret is kept in clear, its encryption being a library's. The sessions, the log of
  connections and the audit are left out.
\<close>

section \<open>Policy\<close>

datatype mfa_policy = MP_DISABLED | MP_OPTIONAL | MP_REQUIRED_FOR_ADMINS | MP_REQUIRED_FOR_ALL

fun policy_text :: "mfa_policy \<Rightarrow> string" where
  "policy_text MP_DISABLED = ''disabled''"
| "policy_text MP_OPTIONAL = ''optional''"
| "policy_text MP_REQUIRED_FOR_ADMINS = ''required_for_admins''"
| "policy_text MP_REQUIRED_FOR_ALL = ''required_for_all''"

definition MFA_POLICIES :: "mfa_policy list" where
  "MFA_POLICIES = [MP_DISABLED, MP_OPTIONAL, MP_REQUIRED_FOR_ADMINS, MP_REQUIRED_FOR_ALL]"

definition DEFAULT_MFA_POLICY :: mfa_policy where
  "DEFAULT_MFA_POLICY = MP_REQUIRED_FOR_ADMINS"

definition normalize_mfa_policy :: "string option \<Rightarrow> mfa_policy" where
  "normalize_mfa_policy v =
     (case v of None \<Rightarrow> DEFAULT_MFA_POLICY
      | Some s \<Rightarrow> (case find (\<lambda>p. policy_text p = s) MFA_POLICIES of Some p \<Rightarrow> p | None \<Rightarrow> DEFAULT_MFA_POLICY))"

definition policy_requires_mfa :: "mfa_policy \<Rightarrow> bool \<Rightarrow> bool" where
  "policy_requires_mfa p superadmin =
     (if p = MP_REQUIRED_FOR_ALL then True else if p = MP_REQUIRED_FOR_ADMINS then superadmin else False)"

definition policy_allows_factor_revocation :: "mfa_policy \<Rightarrow> bool \<Rightarrow> bool" where
  "policy_allows_factor_revocation p superadmin \<longleftrightarrow> \<not> policy_requires_mfa p superadmin"

definition account_requires_mfa :: "mfa_policy \<Rightarrow> bool \<Rightarrow> bool \<Rightarrow> bool" where
  "account_requires_mfa p superadmin has_factor \<longleftrightarrow> has_factor \<or> policy_requires_mfa p superadmin"

section \<open>Tables\<close>

definition CHALLENGE_TTL_MS :: nat where "CHALLENGE_TTL_MS = 5 * 60000"
definition ENROLLMENT_TTL_MS :: nat where "ENROLLMENT_TTL_MS = 15 * 60000"
definition LOCK_MS :: nat where "LOCK_MS = 15 * 60000"
definition MAX_ATTEMPTS :: nat where "MAX_ATTEMPTS = 5"

datatype factor_state = FA_PENDING | FA_ACTIVE | FA_REVOKED
datatype challenge_purpose = CP_LOGIN | CP_ENROLL | CP_REPLACE

record factor_row =
  fa_id :: nat
  fa_user :: nat
  fa_state :: factor_state
  fa_secret :: string
  fa_version :: nat
  fa_last_step :: "nat option"
  fa_failed :: nat
  fa_locked :: "nat option"
  fa_pending_expires :: "nat option"
  fa_device :: string

record challenge_row =
  ch_id :: nat
  ch_user :: nat
  ch_factor :: nat
  ch_purpose :: challenge_purpose
  ch_token_hash :: string
  ch_epoch :: nat
  ch_attempts :: nat
  ch_locked :: "nat option"
  ch_expires :: nat
  ch_used :: "nat option"

record recovery_row =
  rc_id :: nat
  rc_factor :: nat
  rc_hash :: string
  rc_used :: "nat option"

record mfa_user =
  mu_id :: nat
  mu_active :: bool
  mu_superadmin :: bool
  mu_epoch :: nat

record mfa_db =
  md_factors :: "factor_row list"
  md_challenges :: "challenge_row list"
  md_recovery :: "recovery_row list"
  md_users :: "mfa_user list"
  md_policy :: "string option"
  md_next :: nat

record mfa_crypto =
  mc_hmac :: "8 word list \<Rightarrow> nat \<Rightarrow> 8 word list"
  mc_token_hash :: "string \<Rightarrow> string"
  mc_recovery_hash :: "string \<Rightarrow> string"
  mc_password_ok :: "nat \<Rightarrow> string \<Rightarrow> bool"

record mfa_env =
  me_now :: nat
  me_secret :: "8 word list"
  me_token :: string
  me_codes :: "nat \<Rightarrow> nat \<Rightarrow> nat"

datatype mfa_method = TOTP | RECOVERY_CODE

datatype mfa_answer =
    Refused nat string
  | NoSecondFactor
  | ChallengeFor challenge_purpose string
  | SessionFor nat nat mfa_method "string list"
  | Completed "string list"

text \<open>What a request tells about a factor: a one-time code accepted for a step, a recovery code consumed, or a wrong code.\<close>

datatype mfa_mark = StepAccepted nat | CodeConsumed nat | WrongCode

type_synonym mfa_event = "nat \<times> nat \<times> mfa_mark"

section \<open>Rows\<close>

definition load_policy :: "mfa_db \<Rightarrow> mfa_policy" where
  "load_policy db = normalize_mfa_policy (md_policy db)"

text \<open>The last row created in a state.\<close>

definition load_factor :: "nat \<Rightarrow> factor_state \<Rightarrow> mfa_db \<Rightarrow> factor_row option" where
  "load_factor u s db = find (\<lambda>f. fa_user f = u \<and> fa_state f = s) (rev (md_factors db))"

definition load_user :: "nat \<Rightarrow> mfa_db \<Rightarrow> mfa_user option" where
  "load_user u db = find (\<lambda>x. mu_id x = u) (md_users db)"

definition update_factors :: "(factor_row \<Rightarrow> bool) \<Rightarrow> (factor_row \<Rightarrow> factor_row) \<Rightarrow> mfa_db \<Rightarrow> mfa_db" where
  "update_factors hit f db = db\<lparr>md_factors := map (\<lambda>x. if hit x then f x else x) (md_factors db)\<rparr>"

definition update_challenges :: "(challenge_row \<Rightarrow> bool) \<Rightarrow> (challenge_row \<Rightarrow> challenge_row) \<Rightarrow> mfa_db \<Rightarrow> mfa_db" where
  "update_challenges hit f db = db\<lparr>md_challenges := map (\<lambda>x. if hit x then f x else x) (md_challenges db)\<rparr>"

definition bump_session_epoch :: "nat \<Rightarrow> mfa_db \<Rightarrow> mfa_db" where
  "bump_session_epoch u db = db\<lparr>md_users := map (\<lambda>x. if mu_id x = u then x\<lparr>mu_epoch := Suc (mu_epoch x)\<rparr> else x) (md_users db)\<rparr>"

definition insert_challenge ::
  "mfa_crypto \<Rightarrow> mfa_env \<Rightarrow> nat \<Rightarrow> nat \<Rightarrow> challenge_purpose \<Rightarrow> nat \<Rightarrow> mfa_db \<Rightarrow> mfa_db result" where
  "insert_challenge cr env u fid purpose epoch db =
     (let ttl = (if purpose = CP_LOGIN then CHALLENGE_TTL_MS else ENROLLMENT_TTL_MS);
          db1 = update_challenges (\<lambda>c. ch_user c = u \<and> ch_purpose c = purpose \<and> ch_used c = None) (\<lambda>c. c\<lparr>ch_used := Some (me_now env)\<rparr>) db;
          h = mc_token_hash cr (me_token env)
      in if list_ex (\<lambda>c. ch_token_hash c = h) (md_challenges db1) then Inl (JsError ''23505'')
         else Inr (db1\<lparr>md_challenges := md_challenges db1 @ [\<lparr>ch_id = md_next db1, ch_user = u, ch_factor = fid, ch_purpose = purpose,
             ch_token_hash = h, ch_epoch = epoch, ch_attempts = 0, ch_locked = None, ch_expires = me_now env + ttl, ch_used = None\<rparr>],
           md_next := Suc (md_next db1)\<rparr>))"

definition DEFAULT_DEVICE_LABEL :: string where
  "DEFAULT_DEVICE_LABEL = ''Application d'authentification''"

definition device_label :: "string option \<Rightarrow> string" where
  "device_label v = (let s = js_trim (or_empty v) in if s = [] then DEFAULT_DEVICE_LABEL else s)"

text \<open>A pending factor still valid is used again; an expired one is revoked and replaced.\<close>

definition create_pending_factor :: "mfa_env \<Rightarrow> nat \<Rightarrow> string option \<Rightarrow> mfa_db \<Rightarrow> mfa_db \<times> nat" where
  "create_pending_factor env u label db =
     (let fresh = (\<lambda>db. (db\<lparr>md_factors := md_factors db @ [\<lparr>fa_id = md_next db, fa_user = u, fa_state = FA_PENDING,
            fa_secret = encode_base32 (me_secret env),
            fa_version = (case load_factor u FA_ACTIVE db of None \<Rightarrow> 1 | Some a \<Rightarrow> fa_version a + 1), fa_last_step = None, fa_failed = 0,
            fa_locked = None, fa_pending_expires = Some (me_now env + ENROLLMENT_TTL_MS), fa_device = device_label label\<rparr>],
          md_next := Suc (md_next db)\<rparr>, md_next db))
      in case load_factor u FA_PENDING db of
           None \<Rightarrow> fresh db
         | Some p \<Rightarrow>
             if (case fa_pending_expires p of None \<Rightarrow> False | Some t \<Rightarrow> me_now env < t)
             then (update_factors (\<lambda>x. fa_id x = fa_id p) (\<lambda>x. x\<lparr>fa_device := device_label label\<rparr>) db, fa_id p)
             else fresh (update_factors (\<lambda>x. fa_id x = fa_id p) (\<lambda>x. x\<lparr>fa_state := FA_REVOKED\<rparr>) db))"

section \<open>Checking a code\<close>

definition challenge_failure :: "nat \<Rightarrow> challenge_row \<Rightarrow> mfa_user \<Rightarrow> factor_row \<Rightarrow> string option" where
  "challenge_failure now c u f =
     (if ch_used c \<noteq> None then Some ''MFA_CHALLENGE_USED''
      else if ch_expires c \<le> now then Some ''MFA_CHALLENGE_EXPIRED''
      else if (case ch_locked c of None \<Rightarrow> False | Some t \<Rightarrow> now < t) then Some ''MFA_LOCKED''
      else if (case fa_locked f of None \<Rightarrow> False | Some t \<Rightarrow> now < t) then Some ''MFA_LOCKED''
      else if \<not> mu_active u then Some ''AUTH_INVALID''
      else if ch_epoch c \<noteq> mu_epoch u then Some ''MFA_CHALLENGE_STALE''
      else if ch_purpose c = CP_LOGIN \<and> fa_state f \<noteq> FA_ACTIVE then Some ''MFA_FACTOR_INVALID''
      else if ch_purpose c \<noteq> CP_LOGIN \<and> (fa_state f \<noteq> FA_PENDING \<or> (case fa_pending_expires f of None \<Rightarrow> True | Some t \<Rightarrow> t \<le> now))
        then Some ''MFA_ENROLLMENT_EXPIRED''
      else None)"

definition fresh_step :: "nat option \<Rightarrow> nat option \<Rightarrow> bool" where
  "fresh_step last_step step = (case step of None \<Rightarrow> False | Some k \<Rightarrow> (case last_step of None \<Rightarrow> True | Some l \<Rightarrow> l < k))"

text \<open>The update of the unused row of the factor with this hash, and whether it touched exactly one.\<close>

definition consume_recovery_code :: "mfa_crypto \<Rightarrow> mfa_env \<Rightarrow> nat \<Rightarrow> string \<Rightarrow> mfa_db \<Rightarrow> mfa_db \<times> nat option" where
  "consume_recovery_code cr env fid code db =
     (let hit = (\<lambda>r. rc_factor r = fid \<and> rc_hash r = mc_recovery_hash cr (normalize_recovery_code code) \<and> rc_used r = None)
      in (db\<lparr>md_recovery := map (\<lambda>r. if hit r then r\<lparr>rc_used := Some (me_now env)\<rparr> else r) (md_recovery db)\<rparr>,
          case filter hit (md_recovery db) of [r] \<Rightarrow> Some (rc_id r) | _ \<Rightarrow> None))"

definition lock_after :: "nat \<Rightarrow> nat \<Rightarrow> nat option \<Rightarrow> nat option" where
  "lock_after now attempts locked = (if MAX_ATTEMPTS \<le> attempts then Some (now + LOCK_MS) else locked)"

definition fail_factor :: "nat \<Rightarrow> nat \<Rightarrow> factor_row \<Rightarrow> factor_row" where
  "fail_factor now attempts f = f\<lparr>fa_failed := Suc (fa_failed f), fa_locked := lock_after now attempts (fa_locked f)\<rparr>"

definition record_failed_attempt :: "mfa_env \<Rightarrow> challenge_row \<Rightarrow> factor_row \<Rightarrow> mfa_db \<Rightarrow> mfa_db" where
  "record_failed_attempt env c f db =
     (let attempts = max (ch_attempts c) (fa_failed f) + 1
      in update_factors (\<lambda>x. fa_id x = fa_id f) (fail_factor (me_now env) attempts)
           (update_challenges (\<lambda>x. ch_id x = ch_id c)
             (\<lambda>x. x\<lparr>ch_attempts := Suc (ch_attempts x), ch_locked := lock_after (me_now env) attempts (ch_locked x)\<rparr>) db))"

definition pass_factor :: "nat option \<Rightarrow> factor_row \<Rightarrow> factor_row" where
  "pass_factor step f =
     f\<lparr>fa_last_step := (case step of None \<Rightarrow> fa_last_step f | Some k \<Rightarrow> Some k), fa_failed := 0, fa_locked := None\<rparr>"

definition insert_recovery_codes :: "mfa_crypto \<Rightarrow> mfa_env \<Rightarrow> nat \<Rightarrow> mfa_db \<Rightarrow> (mfa_db \<times> string list) result" where
  "insert_recovery_codes cr env fid db =
     (let codes = generate_recovery_codes (me_codes env);
          hashes = map (\<lambda>c. mc_recovery_hash cr (normalize_recovery_code c)) codes
      in if \<not> distinct hashes then Inl (JsError ''23505'')
         else Inr (db\<lparr>md_recovery := filter (\<lambda>r. rc_factor r \<noteq> fid) (md_recovery db)
             @ map (\<lambda>(i, h). \<lparr>rc_id = i, rc_factor = fid, rc_hash = h, rc_used = None\<rparr>) (enumerate (md_next db) hashes),
           md_next := md_next db + length hashes\<rparr>, codes))"

section \<open>Requests\<close>

text \<open>After the password: the active factor, an enrolment the policy requires, or nothing.\<close>

definition begin_mfa_after_password ::
  "mfa_crypto \<Rightarrow> mfa_env \<Rightarrow> nat \<Rightarrow> mfa_db \<Rightarrow> (mfa_db \<times> mfa_answer \<times> mfa_event option) result" where
  "begin_mfa_after_password cr env u db =
     (case load_user u db of None \<Rightarrow> Inl (JsError ''Error'') | Some x \<Rightarrow>
     (case load_factor u FA_ACTIVE db of
        Some a \<Rightarrow> (case insert_challenge cr env u (fa_id a) CP_LOGIN (mu_epoch x) db of Inl e \<Rightarrow> Inl e
            | Inr db' \<Rightarrow> Inr (db', ChallengeFor CP_LOGIN (me_token env), None))
      | None \<Rightarrow>
          if \<not> policy_requires_mfa (load_policy db) (mu_superadmin x) then Inr (db, NoSecondFactor, None)
          else (let (db1, fid) = create_pending_factor env u None db
                in case insert_challenge cr env u fid CP_ENROLL (mu_epoch x) db1 of Inl e \<Rightarrow> Inl e
                   | Inr db' \<Rightarrow> Inr (db', ChallengeFor CP_ENROLL (me_token env), None))))"

definition find_challenge :: "string \<Rightarrow> mfa_db \<Rightarrow> (challenge_row \<times> mfa_user \<times> factor_row) option" where
  "find_challenge h db =
     (case find (\<lambda>c. ch_token_hash c = h) (md_challenges db) of None \<Rightarrow> None | Some c \<Rightarrow>
     (case load_user (ch_user c) db of None \<Rightarrow> None | Some u \<Rightarrow>
     (case find (\<lambda>f. fa_id f = ch_factor c) (md_factors db) of None \<Rightarrow> None | Some f \<Rightarrow> Some (c, u, f))))"

text \<open>The verified factor of an enrolment becomes the active one.\<close>

definition activate_factor :: "mfa_crypto \<Rightarrow> mfa_env \<Rightarrow> nat \<Rightarrow> nat \<Rightarrow> nat option \<Rightarrow> mfa_db \<Rightarrow> (mfa_db \<times> string list) result" where
  "activate_factor cr env u fid step db =
     (let db1 = update_factors (\<lambda>x. fa_user x = u \<and> fa_state x = FA_ACTIVE \<and> fa_id x \<noteq> fid) (\<lambda>x. x\<lparr>fa_state := FA_REVOKED\<rparr>) db;
          db2 = update_factors (\<lambda>x. fa_id x = fid)
            (\<lambda>x. x\<lparr>fa_state := FA_ACTIVE, fa_pending_expires := None, fa_last_step := step, fa_failed := 0, fa_locked := None\<rparr>) db1
      in case insert_recovery_codes cr env fid db2 of Inl e \<Rightarrow> Inl e | Inr (db3, codes) \<Rightarrow> Inr (bump_session_epoch u db3, codes))"

definition verify_mfa_challenge ::
  "mfa_crypto \<Rightarrow> mfa_env \<Rightarrow> string \<Rightarrow> string \<Rightarrow> mfa_db \<Rightarrow> (mfa_db \<times> mfa_answer \<times> mfa_event option) result" where
  "verify_mfa_challenge cr env token code db =
     (case find_challenge (mc_token_hash cr token) db of None \<Rightarrow> Inr (db, Refused 400 ''MFA_CHALLENGE_INVALID'', None)
      | Some (c, u, f) \<Rightarrow>
     (case challenge_failure (me_now env) c u f of
        Some e \<Rightarrow> Inr (db, Refused (if e = ''MFA_LOCKED'' then 423 else 400) e, None)
      | None \<Rightarrow>
     (case verify_totp (mc_hmac cr) (fa_secret f) code (me_now env) of Inl e \<Rightarrow> Inl e | Inr step \<Rightarrow>
     (let valid = fresh_step (fa_last_step f) step;
          (db1, used) = (if \<not> valid \<and> ch_purpose c = CP_LOGIN then consume_recovery_code cr env (fa_id f) code db else (db, None))
      in if \<not> valid \<and> used = None
         then Inr (record_failed_attempt env c f db1, Refused 401 ''MFA_CODE_INVALID'', Some (fa_id f, me_now env, WrongCode))
         else (let event = (case used of Some i \<Rightarrow> Some (fa_id f, me_now env, CodeConsumed i)
                            | None \<Rightarrow> map_option (\<lambda>k. (fa_id f, me_now env, StepAccepted k)) step);
                   way = (if used = None then TOTP else RECOVERY_CODE)
               in case (if ch_purpose c = CP_LOGIN then Inr (update_factors (\<lambda>x. fa_id x = fa_id f) (pass_factor step) db1, [])
                        else activate_factor cr env (ch_user c) (fa_id f) step db1) of
                    Inl e \<Rightarrow> Inl e
                  | Inr (db2, codes) \<Rightarrow>
                      Inr (update_challenges (\<lambda>x. ch_id x = ch_id c) (\<lambda>x. x\<lparr>ch_used := Some (me_now env)\<rparr>) db2,
                           SessionFor (ch_user c) (fa_id f) way codes, event))))))"

text \<open>A code for the active factor: a refusal, or the factor and the way it was proved.\<close>

definition verify_active_code ::
  "mfa_crypto \<Rightarrow> mfa_env \<Rightarrow> nat \<Rightarrow> string \<Rightarrow> mfa_db
     \<Rightarrow> (mfa_db \<times> ((nat \<times> string) + (factor_row \<times> mfa_method)) \<times> mfa_event option) result" where
  "verify_active_code cr env u code db =
     (case load_factor u FA_ACTIVE db of None \<Rightarrow> Inr (db, Inl (409, ''MFA_NOT_ENROLLED''), None) | Some f \<Rightarrow>
     (if (case fa_locked f of None \<Rightarrow> False | Some t \<Rightarrow> me_now env < t) then Inr (db, Inl (423, ''MFA_LOCKED''), None)
      else
     (case verify_totp (mc_hmac cr) (fa_secret f) code (me_now env) of Inl e \<Rightarrow> Inl e | Inr step \<Rightarrow>
     (let valid = fresh_step (fa_last_step f) step;
          (db1, used) = (if \<not> valid then consume_recovery_code cr env (fa_id f) code db else (db, None))
      in if \<not> valid \<and> used = None
         then Inr (update_factors (\<lambda>x. fa_id x = fa_id f) (fail_factor (me_now env) (fa_failed f + 1)) db1,
                   Inl (401, ''MFA_CODE_INVALID''), Some (fa_id f, me_now env, WrongCode))
         else Inr (update_factors (\<lambda>x. fa_id x = fa_id f) (pass_factor step) db1,
                   Inr (f, if used = None then TOTP else RECOVERY_CODE),
                   (case used of Some i \<Rightarrow> Some (fa_id f, me_now env, CodeConsumed i)
                    | None \<Rightarrow> map_option (\<lambda>k. (fa_id f, me_now env, StepAccepted k)) step))))))"

definition step_up_mfa :: "mfa_crypto \<Rightarrow> mfa_env \<Rightarrow> nat \<Rightarrow> string \<Rightarrow> mfa_db \<Rightarrow> (mfa_db \<times> mfa_answer \<times> mfa_event option) result" where
  "step_up_mfa cr env u code db =
     (if (case load_user u db of None \<Rightarrow> True | Some x \<Rightarrow> \<not> mu_active x) then Inr (db, Refused 401 ''AUTH_INVALID'', None)
      else case verify_active_code cr env u code db of Inl e \<Rightarrow> Inl e
        | Inr (db', Inl (st, e), ev) \<Rightarrow> Inr (db', Refused st e, ev)
        | Inr (db', Inr (f, way), ev) \<Rightarrow> Inr (db', SessionFor u (fa_id f) way [], ev))"

text \<open>The password, then a code, then the work; an error of the work undoes the whole request.\<close>

definition authenticated_mutation ::
  "mfa_crypto \<Rightarrow> mfa_env \<Rightarrow> nat \<Rightarrow> string \<Rightarrow> string \<Rightarrow> (mfa_user \<Rightarrow> factor_row \<Rightarrow> mfa_db \<Rightarrow> (mfa_db \<times> mfa_answer) result) \<Rightarrow> mfa_db
     \<Rightarrow> (mfa_db \<times> mfa_answer \<times> mfa_event option) result" where
  "authenticated_mutation cr env u password code work db =
     (case load_user u db of None \<Rightarrow> Inr (db, Refused 401 ''AUTH_INVALID'', None) | Some x \<Rightarrow>
     (if \<not> mu_active x \<or> \<not> mc_password_ok cr u password then Inr (db, Refused 401 ''AUTH_INVALID'', None)
      else case verify_active_code cr env u code db of Inl e \<Rightarrow> Inl e
        | Inr (db1, Inl (st, e), ev) \<Rightarrow> Inr (db1, Refused st e, ev)
        | Inr (db1, Inr (f, way), ev) \<Rightarrow>
            (case work x f db1 of Inl e \<Rightarrow> Inl e | Inr (db2, answer) \<Rightarrow> Inr (db2, answer, ev))))"

definition begin_own_enrollment ::
  "mfa_crypto \<Rightarrow> mfa_env \<Rightarrow> nat \<Rightarrow> string \<Rightarrow> string option \<Rightarrow> mfa_db \<Rightarrow> (mfa_db \<times> mfa_answer \<times> mfa_event option) result" where
  "begin_own_enrollment cr env u password label db =
     (case load_user u db of None \<Rightarrow> Inr (db, Refused 401 ''AUTH_INVALID'', None) | Some x \<Rightarrow>
     (if \<not> mu_active x \<or> \<not> mc_password_ok cr u password then Inr (db, Refused 401 ''AUTH_INVALID'', None)
      else if load_policy db = MP_DISABLED then Inr (db, Refused 409 ''MFA_DISABLED'', None)
      else if load_factor u FA_ACTIVE db \<noteq> None then Inr (db, Refused 409 ''MFA_ALREADY_ENROLLED'', None)
      else (let (db1, fid) = create_pending_factor env u label db
            in case insert_challenge cr env u fid CP_ENROLL (mu_epoch x) db1 of Inl e \<Rightarrow> Inl e
               | Inr db' \<Rightarrow> Inr (db', ChallengeFor CP_ENROLL (me_token env), None))))"

definition begin_mfa_replacement ::
  "mfa_crypto \<Rightarrow> mfa_env \<Rightarrow> nat \<Rightarrow> string \<Rightarrow> string \<Rightarrow> string option \<Rightarrow> mfa_db \<Rightarrow> (mfa_db \<times> mfa_answer \<times> mfa_event option) result" where
  "begin_mfa_replacement cr env u password code label =
     authenticated_mutation cr env u password code
       (\<lambda>x f db. let (db1, fid) = create_pending_factor env u label db
          in case insert_challenge cr env u fid CP_REPLACE (mu_epoch x) db1 of Inl e \<Rightarrow> Inl e
             | Inr db' \<Rightarrow> Inr (db', ChallengeFor CP_REPLACE (me_token env)))"

definition regenerate_recovery_codes ::
  "mfa_crypto \<Rightarrow> mfa_env \<Rightarrow> nat \<Rightarrow> string \<Rightarrow> string \<Rightarrow> mfa_db \<Rightarrow> (mfa_db \<times> mfa_answer \<times> mfa_event option) result" where
  "regenerate_recovery_codes cr env u password code =
     authenticated_mutation cr env u password code
       (\<lambda>x f db. case insert_recovery_codes cr env (fa_id f) db of Inl e \<Rightarrow> Inl e | Inr (db', codes) \<Rightarrow> Inr (db', Completed codes))"

definition revoke_own_mfa ::
  "mfa_crypto \<Rightarrow> mfa_env \<Rightarrow> nat \<Rightarrow> string \<Rightarrow> string \<Rightarrow> mfa_db \<Rightarrow> (mfa_db \<times> mfa_answer \<times> mfa_event option) result" where
  "revoke_own_mfa cr env u password code =
     authenticated_mutation cr env u password code
       (\<lambda>x f db. if \<not> policy_allows_factor_revocation (load_policy db) (mu_superadmin x) then Inl (HttpError 409 ''MFA_REQUIRED_BY_POLICY'')
          else Inr (bump_session_epoch u (update_factors (\<lambda>y. fa_id y = fa_id f) (\<lambda>y. y\<lparr>fa_state := FA_REVOKED\<rparr>) db), Completed []))"

definition update_mfa_policy ::
  "mfa_crypto \<Rightarrow> mfa_env \<Rightarrow> nat \<Rightarrow> string \<Rightarrow> string \<Rightarrow> mfa_policy \<Rightarrow> mfa_db \<Rightarrow> (mfa_db \<times> mfa_answer \<times> mfa_event option) result" where
  "update_mfa_policy cr env u password code p =
     authenticated_mutation cr env u password code
       (\<lambda>x f db. Inr (if load_policy db \<noteq> p then db\<lparr>md_policy := Some (policy_text p)\<rparr> else db, Completed []))"

definition DAY_MS :: nat where "DAY_MS = 24 * 3600000"

definition cleanup_expired_mfa_artifacts :: "mfa_env \<Rightarrow> mfa_db \<Rightarrow> mfa_db" where
  "cleanup_expired_mfa_artifacts env db =
     (let challenges = filter (\<lambda>c. \<not> (ch_expires c \<le> me_now env \<or> (case ch_used c of None \<Rightarrow> False | Some t \<Rightarrow> t + DAY_MS \<le> me_now env)))
            (md_challenges db)
      in db\<lparr>md_challenges := challenges,
            md_factors := filter (\<lambda>f. \<not> (fa_state f = FA_PENDING
              \<and> (case fa_pending_expires f of None \<Rightarrow> False | Some t \<Rightarrow> t \<le> me_now env)
              \<and> \<not> list_ex (\<lambda>c. ch_factor c = fa_id f) challenges)) (md_factors db)\<rparr>)"

text \<open>What the account's page shows.\<close>

record mfa_status =
  ms_policy :: mfa_policy
  ms_required :: bool
  ms_policy_required :: bool
  ms_version :: "nat option"
  ms_device :: "string option"
  ms_locked :: "nat option"
  ms_codes_left :: nat
  ms_can_enroll :: bool
  ms_can_revoke :: bool

definition get_mfa_status :: "nat \<Rightarrow> mfa_db \<Rightarrow> mfa_status result" where
  "get_mfa_status u db =
     (case load_user u db of None \<Rightarrow> Inl (HttpError 404 ''USER_NOT_FOUND'') | Some x \<Rightarrow>
     (let f = load_factor u FA_ACTIVE db; p = load_policy db
      in Inr \<lparr>ms_policy = p, ms_required = account_requires_mfa p (mu_superadmin x) (f \<noteq> None),
         ms_policy_required = policy_requires_mfa p (mu_superadmin x), ms_version = map_option fa_version f,
         ms_device = map_option fa_device f, ms_locked = Option.bind f fa_locked,
         ms_codes_left = (case f of None \<Rightarrow> 0 | Some a \<Rightarrow> length (filter (\<lambda>r. rc_factor r = fa_id a \<and> rc_used r = None) (md_recovery db))),
         ms_can_enroll = (f = None \<and> p \<noteq> MP_DISABLED),
         ms_can_revoke = (f \<noteq> None \<and> policy_allows_factor_revocation p (mu_superadmin x))\<rparr>))"

text \<open>The page says that a second factor is required exactly when a login asks for one.\<close>

lemma status_tells_the_login:
  "get_mfa_status u db = Inr s \<Longrightarrow> begin_mfa_after_password cr env u db = Inr (db', answer, ev) \<Longrightarrow> ms_required s \<longleftrightarrow> answer \<noteq> NoSecondFactor"
  by (auto simp: get_mfa_status_def begin_mfa_after_password_def account_requires_mfa_def Let_def split: option.splits if_splits sum.splits prod.splits)

datatype mfa_request =
    AfterPassword nat
  | VerifyChallenge string string
  | StepUp nat string
  | EnrollOwn nat string "string option"
  | ReplaceFactor nat string string "string option"
  | RegenerateCodes nat string string
  | RevokeFactor nat string string
  | UpdatePolicy nat string string mfa_policy
  | CleanUp

fun mfa_step :: "mfa_crypto \<Rightarrow> mfa_env \<Rightarrow> mfa_request \<Rightarrow> mfa_db \<Rightarrow> (mfa_db \<times> mfa_answer \<times> mfa_event option) result" where
  "mfa_step cr env (AfterPassword u) db = begin_mfa_after_password cr env u db"
| "mfa_step cr env (VerifyChallenge token code) db = verify_mfa_challenge cr env token code db"
| "mfa_step cr env (StepUp u code) db = step_up_mfa cr env u code db"
| "mfa_step cr env (EnrollOwn u pw label) db = begin_own_enrollment cr env u pw label db"
| "mfa_step cr env (ReplaceFactor u pw code label) db = begin_mfa_replacement cr env u pw code label db"
| "mfa_step cr env (RegenerateCodes u pw code) db = regenerate_recovery_codes cr env u pw code db"
| "mfa_step cr env (RevokeFactor u pw code) db = revoke_own_mfa cr env u pw code db"
| "mfa_step cr env (UpdatePolicy u pw code p) db = update_mfa_policy cr env u pw code p db"
| "mfa_step cr env CleanUp db = Inr (cleanup_expired_mfa_artifacts env db, Completed [], None)"

text \<open>A history of requests: the tables and what was told about the factors, in order.\<close>

fun mfa_run :: "mfa_crypto \<Rightarrow> (mfa_env \<times> mfa_request) list \<Rightarrow> mfa_db \<Rightarrow> mfa_event list \<Rightarrow> mfa_db \<times> mfa_event list" where
  "mfa_run cr [] db evs = (db, evs)"
| "mfa_run cr ((env, q) # qs) db evs =
     (case mfa_step cr env q db of
        Inl _ \<Rightarrow> mfa_run cr qs db evs
      | Inr (db', _, ev) \<Rightarrow> mfa_run cr qs db' (evs @ (case ev of None \<Rightarrow> [] | Some e \<Rightarrow> [e])))"

end
