(* ===== verification/Mfa_Rules.thy ===== *)
theory Mfa_Rules
  imports Complex_Main Mfa_Service
begin

text \<open>
  What the second factor guarantees over a history of requests: the steps of the one-time codes accepted for a
  factor only go up, a recovery code serves once, and wrong codes beyond the fifth in a row are at least a
  lock apart.
\<close>

section \<open>What was told about a factor\<close>

definition factor_events :: "nat \<Rightarrow> mfa_event list \<Rightarrow> (nat \<times> mfa_mark) list" where
  "factor_events fid evs = map snd (filter (\<lambda>e. fst e = fid) evs)"

definition accepted_steps :: "(nat \<times> mfa_mark) list \<Rightarrow> nat list" where
  "accepted_steps es = List.map_filter (\<lambda>e. case snd e of StepAccepted k \<Rightarrow> Some k | _ \<Rightarrow> None) es"

definition consumed_codes :: "mfa_event list \<Rightarrow> nat list" where
  "consumed_codes evs = List.map_filter (\<lambda>e. case snd (snd e) of CodeConsumed i \<Rightarrow> Some i | _ \<Rightarrow> None) evs"

text \<open>How many wrong codes in a row, and when the last code was tried.\<close>

definition guess_state :: "nat \<times> nat \<Rightarrow> nat \<times> mfa_mark \<Rightarrow> nat \<times> nat" where
  "guess_state s e = (if snd e = WrongCode then Suc (fst s) else 0, fst e)"

text \<open>After five wrong codes in a row, the next wrong one comes a lock after the last.\<close>

fun guesses_spaced :: "nat \<times> nat \<Rightarrow> (nat \<times> mfa_mark) list \<Rightarrow> bool" where
  "guesses_spaced s [] = True"
| "guesses_spaced s (e # es) =
     ((if snd e = WrongCode \<and> MAX_ATTEMPTS \<le> fst s then snd s + LOCK_MS \<le> fst e else True) \<and> guesses_spaced (guess_state s e) es)"

lemma factor_events_snoc:
  "factor_events fid (evs @ [(f, e)]) = factor_events fid evs @ (if f = fid then [e] else [])"
  by (simp add: factor_events_def)

lemma guesses_spaced_snoc:
  "guesses_spaced s (es @ [e]) \<longleftrightarrow> guesses_spaced s es
     \<and> (if snd e = WrongCode \<and> MAX_ATTEMPTS \<le> fst (foldl guess_state s es) then snd (foldl guess_state s es) + LOCK_MS \<le> fst e else True)"
  by (induction es arbitrary: s) auto

lemma accepted_steps_snoc:
  "accepted_steps (es @ [e]) = accepted_steps es @ (case snd e of StepAccepted k \<Rightarrow> [k] | _ \<Rightarrow> [])"
  by (simp add: accepted_steps_def List.map_filter_def split: mfa_mark.splits)

lemma consumed_codes_snoc:
  "consumed_codes (evs @ [(f, t, m)]) = consumed_codes evs @ (case m of CodeConsumed i \<Rightarrow> [i] | _ \<Rightarrow> [])"
  by (simp add: consumed_codes_def List.map_filter_def split: mfa_mark.splits)

section \<open>The invariant\<close>

definition keys_ok :: "mfa_db \<Rightarrow> bool" where
  "keys_ok db \<longleftrightarrow> distinct (map fa_id (md_factors db)) \<and> (\<forall>f \<in> set (md_factors db). fa_id f < md_next db)
     \<and> distinct (map rc_id (md_recovery db)) \<and> (\<forall>r \<in> set (md_recovery db). rc_id r < md_next db)"

definition code_hash :: "mfa_crypto \<Rightarrow> string \<Rightarrow> bool" where
  "code_hash cr h \<longleftrightarrow> (\<exists>s. h = mc_recovery_hash cr s \<and> length s = 16)"

text \<open>The counters of a factor are those of its events.\<close>

definition factor_ok :: "mfa_crypto \<Rightarrow> factor_row \<Rightarrow> (nat \<times> mfa_mark) list \<Rightarrow> bool" where
  "factor_ok cr f es \<longleftrightarrow> fa_failed f = fst (foldl guess_state (0, 0) es)
     \<and> (MAX_ATTEMPTS \<le> fa_failed f \<longrightarrow> fa_locked f = Some (snd (foldl guess_state (0, 0) es) + LOCK_MS))
     \<and> (inj (mc_recovery_hash cr) \<longrightarrow> (\<forall>k \<in> set (accepted_steps es). \<exists>l. fa_last_step f = Some l \<and> k \<le> l))"

definition events_ok :: "mfa_crypto \<Rightarrow> mfa_event list \<Rightarrow> bool" where
  "events_ok cr evs \<longleftrightarrow> (\<forall>fid. guesses_spaced (0, 0) (factor_events fid evs)
       \<and> (inj (mc_recovery_hash cr) \<longrightarrow> sorted_wrt (<) (accepted_steps (factor_events fid evs)))) \<and> distinct (consumed_codes evs)"

definition mfa_inv :: "mfa_crypto \<Rightarrow> mfa_db \<Rightarrow> mfa_event list \<Rightarrow> bool" where
  "mfa_inv cr db evs \<longleftrightarrow> keys_ok db \<and> (\<forall>e \<in> set evs. fst e < md_next db) \<and> (\<forall>i \<in> set (consumed_codes evs). i < md_next db)
     \<and> (\<forall>f \<in> set (md_factors db). factor_ok cr f (factor_events (fa_id f) evs))
     \<and> (\<forall>r \<in> set (md_recovery db). code_hash cr (rc_hash r) \<and> (rc_used r = None \<longrightarrow> rc_id r \<notin> set (consumed_codes evs)))
     \<and> events_ok cr evs"

section \<open>Requests that tell nothing\<close>

definition same_core :: "factor_row \<Rightarrow> factor_row \<Rightarrow> bool" where
  "same_core f g \<longleftrightarrow> fa_id g = fa_id f \<and> fa_failed g = fa_failed f \<and> fa_last_step g = fa_last_step f \<and> fa_locked g = fa_locked f"

text \<open>The rows that stay keep their counters and the others are new.\<close>

definition known_factor :: "mfa_db \<Rightarrow> factor_row \<Rightarrow> bool" where
  "known_factor db g \<longleftrightarrow> (\<exists>f \<in> set (md_factors db). same_core f g) \<or> (md_next db \<le> fa_id g \<and> fa_failed g = 0)"

definition known_code :: "mfa_crypto \<Rightarrow> mfa_db \<Rightarrow> recovery_row \<Rightarrow> bool" where
  "known_code cr db r \<longleftrightarrow> r \<in> set (md_recovery db) \<or> (md_next db \<le> rc_id r \<and> code_hash cr (rc_hash r))"

definition quiet :: "mfa_crypto \<Rightarrow> mfa_db \<Rightarrow> mfa_db \<Rightarrow> bool" where
  "quiet cr db db' \<longleftrightarrow> md_next db \<le> md_next db' \<and> (keys_ok db \<longrightarrow> keys_ok db')
     \<and> (\<forall>g \<in> set (md_factors db'). known_factor db g) \<and> (\<forall>r \<in> set (md_recovery db'). known_code cr db r)"

lemma same_core_refl [simp]: "same_core f f"
  by (simp add: same_core_def)

lemma known_kept [simp, intro]: "g \<in> set (md_factors db) \<Longrightarrow> known_factor db g"
  by (auto simp: known_factor_def intro: same_core_refl)

lemma known_new [simp, intro]: "md_next db \<le> fa_id g \<Longrightarrow> fa_failed g = 0 \<Longrightarrow> known_factor db g"
  by (simp add: known_factor_def)

lemma known_code_kept [simp, intro]: "r \<in> set (md_recovery db) \<Longrightarrow> known_code cr db r"
  by (simp add: known_code_def)

lemma quiet_refl [simp]: "quiet cr db db"
  by (simp add: quiet_def)

lemma known_factor_trans: "known_factor b g \<Longrightarrow> quiet cr a b \<Longrightarrow> known_factor a g"
proof -
  assume k: "known_factor b g" and q: "quiet cr a b"
  from k show ?thesis unfolding known_factor_def [of b]
  proof (elim disjE bexE conjE)
    fix f assume f: "f \<in> set (md_factors b)" "same_core f g"
    then have "known_factor a f" using q by (simp add: quiet_def)
    with f(2) show ?thesis unfolding known_factor_def by (auto simp: same_core_def)
  next
    assume "md_next b \<le> fa_id g" "fa_failed g = 0"
    then show ?thesis using q by (simp add: quiet_def)
  qed
qed

lemma quiet_trans: "quiet cr a b \<Longrightarrow> quiet cr b c \<Longrightarrow> quiet cr a c"
proof -
  assume q: "quiet cr a b" "quiet cr b c"
  have "known_code cr a r" if "r \<in> set (md_recovery c)" for r
  proof -
    have "known_code cr b r" using q(2) that by (simp add: quiet_def)
    then show ?thesis using q(1) unfolding quiet_def known_code_def by auto
  qed
  then show ?thesis using q known_factor_trans [OF _ q(1)] by (auto simp: quiet_def)
qed

lemma factor_ok_new: "fa_failed f = 0 \<Longrightarrow> factor_ok cr f []"
  by (simp add: factor_ok_def accepted_steps_def List.map_filter_def MAX_ATTEMPTS_def)

lemma factor_ok_core: "factor_ok cr f es \<Longrightarrow> same_core f g \<Longrightarrow> factor_ok cr g es"
  by (simp add: factor_ok_def same_core_def)

lemma no_events: "\<forall>e \<in> set evs. fst e < n \<Longrightarrow> n \<le> fid \<Longrightarrow> factor_events fid evs = []"
  by (auto simp: factor_events_def filter_empty_conv)

lemma mfa_invD:
  assumes "mfa_inv cr db evs"
  shows "keys_ok db" "e \<in> set evs \<Longrightarrow> fst e < md_next db" "i \<in> set (consumed_codes evs) \<Longrightarrow> i < md_next db"
    "f \<in> set (md_factors db) \<Longrightarrow> factor_ok cr f (factor_events (fa_id f) evs)"
    "r \<in> set (md_recovery db) \<Longrightarrow> code_hash cr (rc_hash r)"
    "r \<in> set (md_recovery db) \<Longrightarrow> rc_used r = None \<Longrightarrow> rc_id r \<notin> set (consumed_codes evs)"
    "events_ok cr evs"
  using assms by (simp_all add: mfa_inv_def)

lemma mfa_invI:
  assumes "keys_ok db" "\<And>e. e \<in> set evs \<Longrightarrow> fst e < md_next db" "\<And>i. i \<in> set (consumed_codes evs) \<Longrightarrow> i < md_next db"
    "\<And>f. f \<in> set (md_factors db) \<Longrightarrow> factor_ok cr f (factor_events (fa_id f) evs)"
    "\<And>r. r \<in> set (md_recovery db) \<Longrightarrow> code_hash cr (rc_hash r)"
    "\<And>r. r \<in> set (md_recovery db) \<Longrightarrow> rc_used r = None \<Longrightarrow> rc_id r \<notin> set (consumed_codes evs)"
    "events_ok cr evs"
  shows "mfa_inv cr db evs"
  using assms by (simp add: mfa_inv_def)

lemma known_factor_ok:
  assumes inv: "mfa_inv cr db evs" and k: "known_factor db g"
  shows "factor_ok cr g (factor_events (fa_id g) evs)"
  using k unfolding known_factor_def
proof (elim disjE bexE conjE)
  fix f assume f: "f \<in> set (md_factors db)" "same_core f g"
  have "fa_id g = fa_id f" using f(2) by (simp add: same_core_def)
  then show ?thesis using factor_ok_core [OF mfa_invD(4) [OF inv f(1)] f(2)] by simp
next
  assume g: "md_next db \<le> fa_id g" "fa_failed g = 0"
  have "factor_events (fa_id g) evs = []" by (rule no_events [OF _ g(1)]) (use mfa_invD(2) [OF inv] in blast)
  with g show ?thesis by (simp add: factor_ok_new)
qed

lemma mfa_inv_quiet:
  assumes inv: "mfa_inv cr db evs" and q: "quiet cr db db'"
  shows "mfa_inv cr db' evs"
proof (rule mfa_invI)
  have le: "md_next db \<le> md_next db'" using q by (simp add: quiet_def)
  show "keys_ok db'" using q mfa_invD(1) [OF inv] by (simp add: quiet_def)
  show "fst e < md_next db'" if "e \<in> set evs" for e using mfa_invD(2) [OF inv that] le by simp
  show "i < md_next db'" if "i \<in> set (consumed_codes evs)" for i using mfa_invD(3) [OF inv that] le by simp
  show "factor_ok cr g (factor_events (fa_id g) evs)" if "g \<in> set (md_factors db')" for g
    using q that known_factor_ok [OF inv] by (simp add: quiet_def)
  have known: "r \<in> set (md_recovery db) \<or> (md_next db \<le> rc_id r \<and> code_hash cr (rc_hash r))" if "r \<in> set (md_recovery db')" for r
    using q that by (simp add: quiet_def known_code_def)
  show "code_hash cr (rc_hash r)" if "r \<in> set (md_recovery db')" for r
    using known [OF that] mfa_invD(5) [OF inv] by blast
  show "rc_id r \<notin> set (consumed_codes evs)" if "r \<in> set (md_recovery db')" "rc_used r = None" for r
    using known [OF that(1)] mfa_invD(6) [OF inv _ that(2)] mfa_invD(3) [OF inv, of "rc_id r"] by auto
  show "events_ok cr evs" by (rule mfa_invD(7) [OF inv])
qed

lemma quiet_same:
  "md_factors db' = md_factors db \<Longrightarrow> md_recovery db' = md_recovery db \<Longrightarrow> md_next db \<le> md_next db' \<Longrightarrow> quiet cr db db'"
  by (auto simp: quiet_def keys_ok_def)

lemma update_factors_ids:
  assumes "\<And>x. fa_id (f x) = fa_id x"
  shows "map fa_id (md_factors (update_factors hit f db)) = map fa_id (md_factors db)"
    "md_next (update_factors hit f db) = md_next db" "md_recovery (update_factors hit f db) = md_recovery db"
  using assms by (auto simp: update_factors_def)

lemma keys_ok_factors:
  assumes "\<And>x. fa_id (f x) = fa_id x"
  shows "keys_ok (update_factors hit f db) = keys_ok db"
proof -
  have "fa_id ` set (md_factors (update_factors hit f db)) = fa_id ` set (md_factors db)"
    using update_factors_ids(1) [of f hit db, OF assms] by (metis list.set_map)
  then have "(\<forall>x \<in> set (md_factors (update_factors hit f db)). fa_id x < n) \<longleftrightarrow> (\<forall>x \<in> set (md_factors db). fa_id x < n)" for n
    by (metis (no_types, lifting) image_iff)
  then show ?thesis unfolding keys_ok_def update_factors_ids [OF assms] by simp
qed

lemma quiet_factors:
  assumes "\<And>x. same_core x (f x)"
  shows "quiet cr db (update_factors hit f db)"
proof -
  have i: "fa_id (f x) = fa_id x" for x using assms [of x] by (simp add: same_core_def)
  have "known_factor db g" if g: "g \<in> set (md_factors (update_factors hit f db))" for g
  proof -
    obtain x where "x \<in> set (md_factors db)" "g = (if hit x then f x else x)" using g by (auto simp: update_factors_def)
    then have "x \<in> set (md_factors db)" "same_core x g" using assms by auto
    then show ?thesis unfolding known_factor_def by blast
  qed
  then show ?thesis unfolding quiet_def using keys_ok_factors [OF i] update_factors_ids [OF i] by simp
qed

lemma quiet_challenges: "quiet cr db (update_challenges hit f db)"
  by (rule quiet_same) (simp_all add: update_challenges_def)

lemma quiet_bump: "quiet cr db (bump_session_epoch u db)"
  by (rule quiet_same) (simp_all add: bump_session_epoch_def)

lemma quiet_insert_challenge:
  assumes "insert_challenge cr env u fid p epoch db = Inr db'"
  shows "quiet cr db db'"
  by (rule quiet_same) (use assms in \<open>auto simp: insert_challenge_def Let_def update_challenges_def split: if_splits\<close>)

lemma quiet_add_factor:
  "fa_id f = md_next db \<Longrightarrow> fa_failed f = 0 \<Longrightarrow> quiet cr db (db\<lparr>md_factors := md_factors db @ [f], md_next := Suc (md_next db)\<rparr>)"
  by (auto simp: quiet_def keys_ok_def)

lemma quiet_pending: "quiet cr db (fst (create_pending_factor env u label db))"
proof (cases "load_factor u FA_PENDING db")
  case None
  then show ?thesis by (simp add: create_pending_factor_def Let_def quiet_add_factor)
next
  case (Some p)
  let ?db1 = "update_factors (\<lambda>x. fa_id x = fa_id p) (\<lambda>x. x\<lparr>fa_state := FA_REVOKED\<rparr>) db"
  have "quiet cr db ?db1" by (rule quiet_factors) (simp add: same_core_def)
  moreover have "quiet cr db (update_factors (\<lambda>x. fa_id x = fa_id p) (\<lambda>x. x\<lparr>fa_device := device_label label\<rparr>) db)"
    by (rule quiet_factors) (simp add: same_core_def)
  ultimately show ?thesis
    using Some quiet_trans [of cr db ?db1] by (simp add: create_pending_factor_def Let_def quiet_add_factor)
qed

lemma quiet_replace_codes:
  assumes new: "distinct (map rc_id new)" "\<And>r. r \<in> set new \<Longrightarrow> md_next db \<le> rc_id r \<and> rc_id r < n \<and> code_hash cr (rc_hash r)"
    and n: "md_next db \<le> n"
  shows "quiet cr db (db\<lparr>md_recovery := filter P (md_recovery db) @ new, md_next := n\<rparr>)"
proof -
  have "distinct (map rc_id (filter P (md_recovery db)))" if "keys_ok db" using that distinct_map_filter by (auto simp: keys_ok_def)
  moreover have "rc_id r < md_next db" if "keys_ok db" "r \<in> set (md_recovery db)" for r using that by (simp add: keys_ok_def)
  ultimately have "distinct (map rc_id (filter P (md_recovery db) @ new))" if "keys_ok db"
    using that new by (fastforce simp: disjoint_iff)
  then have "keys_ok (db\<lparr>md_recovery := filter P (md_recovery db) @ new, md_next := n\<rparr>)" if "keys_ok db"
    using that new(2) n by (fastforce simp: keys_ok_def)
  then show ?thesis using new(2) n by (auto simp: quiet_def known_code_def)
qed

lemma quiet_codes:
  assumes "insert_recovery_codes cr env fid db = Inr (db', codes)"
  shows "quiet cr db db'"
proof -
  let ?hs = "map (\<lambda>c. mc_recovery_hash cr (normalize_recovery_code c)) (generate_recovery_codes (me_codes env))"
  let ?new = "map (\<lambda>(i, h). \<lparr>rc_id = i, rc_factor = fid, rc_hash = h, rc_used = None\<rparr>) (enumerate (md_next db) ?hs)"
  have db': "db' = db\<lparr>md_recovery := filter (\<lambda>r. rc_factor r \<noteq> fid) (md_recovery db) @ ?new, md_next := md_next db + length ?hs\<rparr>"
    using assms by (auto simp: insert_recovery_codes_def Let_def split: if_splits)
  have "code_hash cr h" if "h \<in> set ?hs" for h
    using that recovery_code_normal by (auto simp: code_hash_def generate_recovery_codes_def)
  then have new: "md_next db \<le> rc_id r \<and> rc_id r < md_next db + length ?hs \<and> code_hash cr (rc_hash r)" if "r \<in> set ?new" for r
    using that by (auto simp: in_set_enumerate_eq)
  have "map rc_id ?new = [md_next db..<md_next db + length ?hs]"
    by (simp add: comp_def case_prod_beta)
  then have "distinct (map rc_id ?new)" by simp
  then show ?thesis unfolding db' using new by (rule quiet_replace_codes [OF _ _ le_add1])
qed

lemma quiet_cleanup: "quiet cr db (cleanup_expired_mfa_artifacts env db)"
proof -
  have "distinct (map fa_id (filter P (md_factors db)))" if "keys_ok db" for P
    using that distinct_map_filter by (auto simp: keys_ok_def)
  then show ?thesis by (auto simp: quiet_def cleanup_expired_mfa_artifacts_def Let_def keys_ok_def)
qed

section \<open>Requests that tell something\<close>

lemma mfa_inv_event:
  assumes inv: "mfa_inv cr db evs" and x: "x \<in> set (md_factors db)" "fa_id x = fid"
    and ids: "keys_ok db'" "md_next db \<le> md_next db'"
    and rows: "\<And>g. g \<in> set (md_factors db') \<Longrightarrow> (fa_id g \<noteq> fid \<and> known_factor db g) \<or> (fa_id g = fid \<and> factor_ok cr g (factor_events fid evs @ [(t, m)]))"
    and codes: "\<And>r. r \<in> set (md_recovery db') \<Longrightarrow> code_hash cr (rc_hash r)"
      "\<And>r. r \<in> set (md_recovery db') \<Longrightarrow> rc_used r = None \<Longrightarrow> rc_id r \<notin> set (consumed_codes evs) \<and> m \<noteq> CodeConsumed (rc_id r)"
    and wrong: "\<And>l. m = WrongCode \<Longrightarrow> MAX_ATTEMPTS \<le> fa_failed x \<Longrightarrow> fa_locked x = Some l \<Longrightarrow> l \<le> t"
    and fresh: "\<And>k. m = StepAccepted k \<Longrightarrow> fresh_step (fa_last_step x) (Some k)"
    and code: "\<And>i. m = CodeConsumed i \<Longrightarrow> i \<notin> set (consumed_codes evs) \<and> i < md_next db"
  shows "mfa_inv cr db' (evs @ [(fid, t, m)])"
proof (rule mfa_invI)
  let ?es = "factor_events fid evs"
  have old: "factor_ok cr x ?es" using mfa_invD(4) [OF inv x(1)] x(2) by simp
  have le: "md_next db \<le> md_next db'" by (rule ids(2))
  have fid: "fid < md_next db" using mfa_invD(1) [OF inv] x by (auto simp: keys_ok_def)
  show "keys_ok db'" by (rule ids(1))
  show "fst e < md_next db'" if "e \<in> set (evs @ [(fid, t, m)])" for e using that mfa_invD(2) [OF inv, of e] fid le by auto
  show "i < md_next db'" if "i \<in> set (consumed_codes (evs @ [(fid, t, m)]))" for i
    using that mfa_invD(3) [OF inv, of i] code le by (cases m) (auto simp: consumed_codes_snoc)
  show "factor_ok cr g (factor_events (fa_id g) (evs @ [(fid, t, m)]))" if "g \<in> set (md_factors db')" for g
    using rows [OF that] known_factor_ok [OF inv, of g] by (auto simp: factor_events_snoc)
  show "code_hash cr (rc_hash r)" if "r \<in> set (md_recovery db')" for r by (rule codes(1) [OF that])
  show "rc_id r \<notin> set (consumed_codes (evs @ [(fid, t, m)]))" if "r \<in> set (md_recovery db')" "rc_used r = None" for r
    using codes(2) [OF that] by (cases m) (auto simp: consumed_codes_snoc)
  have d: "distinct (consumed_codes (evs @ [(fid, t, m)]))"
    using mfa_invD(7) [OF inv] code by (cases m) (auto simp: events_ok_def consumed_codes_snoc)
  have g: "guesses_spaced (0, 0) (?es @ [(t, m)])"
    using mfa_invD(7) [OF inv] old wrong by (auto simp: guesses_spaced_snoc events_ok_def factor_ok_def)
  have s: "sorted_wrt (<) (accepted_steps (?es @ [(t, m)]))" if "inj (mc_recovery_hash cr)"
  proof -
    have so: "sorted_wrt (<) (accepted_steps ?es)" using mfa_invD(7) [OF inv] that by (simp add: events_ok_def)
    show ?thesis
    proof (cases m)
      case (StepAccepted k)
      have "j < k" if "j \<in> set (accepted_steps ?es)" for j
        using old fresh [OF StepAccepted] that \<open>inj _\<close> by (fastforce simp: factor_ok_def fresh_step_def)
      then show ?thesis using so by (simp add: accepted_steps_snoc StepAccepted sorted_wrt_append)
    qed (use so in \<open>simp_all add: accepted_steps_snoc\<close>)
  qed
  show "events_ok cr (evs @ [(fid, t, m)])"
    using mfa_invD(7) [OF inv] d g s by (simp add: events_ok_def factor_events_snoc)
qed

lemma factor_ok_fail:
  "factor_ok cr f es \<Longrightarrow> fa_failed f < n \<Longrightarrow> factor_ok cr (fail_factor now n f) (es @ [(now, WrongCode)])"
  by (auto simp: factor_ok_def fail_factor_def lock_after_def guess_state_def accepted_steps_snoc MAX_ATTEMPTS_def)

lemma factor_ok_pass:
  assumes "factor_ok cr f es" "fa_failed g = 0" "m \<noteq> WrongCode"
    and "\<And>k. m = StepAccepted k \<Longrightarrow> fresh_step (fa_last_step f) (Some k) \<and> fa_last_step g = Some k"
    and "\<And>i. m = CodeConsumed i \<Longrightarrow> inj (mc_recovery_hash cr) \<Longrightarrow> fa_last_step g = fa_last_step f"
  shows "factor_ok cr g (es @ [(t, m)])"
proof -
  have "\<exists>l. fa_last_step g = Some l \<and> k \<le> l" if i: "inj (mc_recovery_hash cr)" and k: "k \<in> set (accepted_steps (es @ [(t, m)]))" for k
  proof (cases m)
    case (StepAccepted j)
    then have "k \<le> j" using assms(1) assms(4) [OF StepAccepted] i k by (fastforce simp: factor_ok_def fresh_step_def accepted_steps_snoc)
    then show ?thesis using assms(4) [OF StepAccepted] by simp
  next
    case (CodeConsumed j)
    then show ?thesis using assms(1) assms(5) [OF CodeConsumed i] i k by (simp add: factor_ok_def accepted_steps_snoc)
  next
    case WrongCode
    then show ?thesis using assms(3) by simp
  qed
  then show ?thesis using assms(2,3) by (auto simp: factor_ok_def guess_state_def MAX_ATTEMPTS_def)
qed

text \<open>What the consumption of a code leaves of the rows.\<close>

definition codes_after :: "mfa_db \<Rightarrow> mfa_db \<Rightarrow> mfa_mark \<Rightarrow> bool" where
  "codes_after db db1 m \<longleftrightarrow> md_factors db1 = md_factors db \<and> md_next db1 = md_next db \<and> map rc_id (md_recovery db1) = map rc_id (md_recovery db)
     \<and> (\<forall>q \<in> set (md_recovery db1). \<exists>r \<in> set (md_recovery db). rc_id q = rc_id r \<and> rc_hash q = rc_hash r
          \<and> (rc_used q = None \<longrightarrow> rc_used r = None \<and> m \<noteq> CodeConsumed (rc_id r)))
     \<and> (\<forall>i. m = CodeConsumed i \<longrightarrow> (\<exists>r \<in> set (md_recovery db). rc_id r = i \<and> rc_used r = None))"

lemma codes_after_same: "\<forall>i. m \<noteq> CodeConsumed i \<Longrightarrow> codes_after db db m"
  by (auto simp: codes_after_def)

lemma codes_after_keys: "codes_after db db1 m \<Longrightarrow> keys_ok db1 = keys_ok db"
proof -
  assume c: "codes_after db db1 m"
  then have m: "map rc_id (md_recovery db1) = map rc_id (md_recovery db)" by (simp add: codes_after_def)
  have "rc_id ` set (md_recovery db1) = rc_id ` set (md_recovery db)" using m by (metis list.set_map)
  then have "(\<forall>r \<in> set (md_recovery db1). rc_id r < n) \<longleftrightarrow> (\<forall>r \<in> set (md_recovery db). rc_id r < n)" for n
    by (metis (no_types, lifting) image_iff)
  then show ?thesis using c m by (simp add: keys_ok_def codes_after_def)
qed

lemma same_key: "distinct (map k xs) \<Longrightarrow> x \<in> set xs \<Longrightarrow> y \<in> set xs \<Longrightarrow> k x = k y \<Longrightarrow> x = y"
  by (simp add: distinct_map inj_on_def)

lemma factor_event:
  assumes inv: "mfa_inv cr db evs" and f: "f \<in> set (md_factors db)" and after: "codes_after db db1 m"
    and g: "\<And>x. fa_id (g x) = fa_id x" and ok: "factor_ok cr (g f) (factor_events (fa_id f) evs @ [(t, m)])"
    and wrong: "\<And>l. m = WrongCode \<Longrightarrow> fa_locked f = Some l \<Longrightarrow> l \<le> t"
    and fresh: "\<And>k. m = StepAccepted k \<Longrightarrow> fresh_step (fa_last_step f) (Some k)"
  shows "mfa_inv cr (update_factors (\<lambda>x. fa_id x = fa_id f) g db1) (evs @ [(fa_id f, t, m)])"
proof (rule mfa_inv_event [OF inv f refl])
  let ?db' = "update_factors (\<lambda>x. fa_id x = fa_id f) g db1"
  note same = update_factors_ids [of g, OF g]
  have db1: "md_factors db1 = md_factors db" "md_next db1 = md_next db" using after by (simp_all add: codes_after_def)
  have ids: "keys_ok db" by (rule mfa_invD(1) [OF inv])
  show "keys_ok ?db'" using ids codes_after_keys [OF after] keys_ok_factors [of g, OF g] by simp
  show "md_next db \<le> md_next ?db'" by (simp add: same db1)
  have only: "x = f" if "x \<in> set (md_factors db)" "fa_id x = fa_id f" for x
    using ids f that same_key [of fa_id "md_factors db" x f] by (simp add: keys_ok_def)
  show "(fa_id y \<noteq> fa_id f \<and> known_factor db y) \<or> (fa_id y = fa_id f \<and> factor_ok cr y (factor_events (fa_id f) evs @ [(t, m)]))"
    if y: "y \<in> set (md_factors ?db')" for y
  proof -
    obtain x where x: "x \<in> set (md_factors db)" "y = (if fa_id x = fa_id f then g x else x)"
      using y by (auto simp: update_factors_def db1)
    show ?thesis
    proof (cases "fa_id x = fa_id f")
      case True
      then have "y = g f" using only [OF x(1)] x(2) by simp
      then show ?thesis using ok g by simp
    next
      case False
      then show ?thesis using x by simp
    qed
  qed
  have row: "\<exists>r \<in> set (md_recovery db). rc_id q = rc_id r \<and> rc_hash q = rc_hash r
          \<and> (rc_used q = None \<longrightarrow> rc_used r = None \<and> m \<noteq> CodeConsumed (rc_id r))" if "q \<in> set (md_recovery ?db')" for q
    using after that by (simp add: codes_after_def same)
  show "code_hash cr (rc_hash q)" if "q \<in> set (md_recovery ?db')" for q
    using row [OF that] mfa_invD(5) [OF inv] by auto
  show "rc_id q \<notin> set (consumed_codes evs) \<and> m \<noteq> CodeConsumed (rc_id q)" if "q \<in> set (md_recovery ?db')" "rc_used q = None" for q
    using row [OF that(1)] that(2) mfa_invD(6) [OF inv] by auto
  show "i \<notin> set (consumed_codes evs) \<and> i < md_next db" if i: "m = CodeConsumed i" for i
  proof -
    obtain r where r: "r \<in> set (md_recovery db)" "rc_id r = i" "rc_used r = None" using after i by (auto simp: codes_after_def)
    then show ?thesis using mfa_invD(6) [OF inv r(1,3)] ids by (auto simp: keys_ok_def)
  qed
qed (use wrong fresh in blast)+

lemma consume_after:
  assumes inv: "mfa_inv cr db evs" and c: "consume_recovery_code cr env fid code db = (db1, used)"
  shows "used = Some i \<Longrightarrow> codes_after db db1 (CodeConsumed i)" "codes_after db db1 WrongCode"
    "used = Some i \<Longrightarrow> code_hash cr (mc_recovery_hash cr (normalize_recovery_code code))"
proof -
  define hit where "hit = (\<lambda>r :: recovery_row. rc_factor r = fid \<and> rc_hash r = mc_recovery_hash cr (normalize_recovery_code code) \<and> rc_used r = None)"
  let ?f = "\<lambda>r :: recovery_row. if hit r then r\<lparr>rc_used := Some (me_now env)\<rparr> else r"
  have db1: "db1 = db\<lparr>md_recovery := map ?f (md_recovery db)\<rparr>"
    and used: "used = (case filter hit (md_recovery db) of [r] \<Rightarrow> Some (rc_id r) | _ \<Rightarrow> None)"
    using c by (auto simp: consume_recovery_code_def hit_def Let_def)
  have f: "rc_id (?f r) = rc_id r" "rc_hash (?f r) = rc_hash r" "rc_used (?f r) = None \<longleftrightarrow> rc_used r = None \<and> \<not> hit r" for r
    by (auto simp: hit_def)
  have ids: "map rc_id (md_recovery db1) = map rc_id (md_recovery db)" by (simp add: db1 f comp_def)
  have keep: "md_factors db1 = md_factors db" "md_next db1 = md_next db" by (simp_all add: db1)
  show "codes_after db db1 WrongCode"
    unfolding codes_after_def ids using f by (auto simp: db1)
  assume u: "used = Some i"
  then obtain r where r: "filter hit (md_recovery db) = [r]" "rc_id r = i"
    unfolding used by (auto split: list.splits)
  then have in_r: "r \<in> set (md_recovery db)" "hit r" using filter_eq_ConsD [of hit "md_recovery db" r "[]"] by auto
  show "code_hash cr (mc_recovery_hash cr (normalize_recovery_code code))"
    using mfa_invD(5) [OF inv in_r(1)] in_r(2) by (simp add: hit_def)
  have only: "q = r" if "q \<in> set (md_recovery db)" "rc_id q = i" for q
    using mfa_invD(1) [OF inv] in_r r(2) that same_key [of rc_id "md_recovery db" q r] by (simp add: keys_ok_def)
  have "rc_used r = None" using in_r(2) by (simp add: hit_def)
  moreover have rows: "\<exists>p \<in> set (md_recovery db). rc_id q = rc_id p \<and> rc_hash q = rc_hash p
      \<and> (rc_used q = None \<longrightarrow> rc_used p = None \<and> CodeConsumed i \<noteq> CodeConsumed (rc_id p))" if q: "q \<in> set (md_recovery db1)" for q
  proof -
    obtain p where p: "p \<in> set (md_recovery db)" "q = ?f p" using q by (auto simp: db1)
    have "rc_used p = None \<and> CodeConsumed i \<noteq> CodeConsumed (rc_id p)" if "rc_used q = None"
    proof -
      have n: "rc_used p = None" "\<not> hit p" using that unfolding p(2) f(3) by simp_all
      then have "p \<noteq> r" using in_r(2) by blast
      then have "rc_id p \<noteq> i" using only [OF p(1)] by blast
      with n(1) show ?thesis by simp
    qed
    then show ?thesis using p f(1,2) by metis
  qed
  ultimately show "codes_after db db1 (CodeConsumed i)"
    unfolding codes_after_def using ids rows in_r(1) r(2) keep by blast
qed

text \<open>Both ways of proving a factor tell one mark: the step that was fresh, or the code that was consumed.\<close>

definition proof_mark :: "nat option \<Rightarrow> nat option \<Rightarrow> mfa_mark option" where
  "proof_mark used step = (case used of Some i \<Rightarrow> Some (CodeConsumed i) | None \<Rightarrow> map_option StepAccepted step)"

lemma proved_mark:
  assumes "\<not> (\<not> fresh_step l step \<and> used = None)" "used \<noteq> None \<Longrightarrow> \<not> fresh_step l step"
  obtains m where "proof_mark used step = Some m" "m \<noteq> WrongCode" "\<And>k. m = StepAccepted k \<Longrightarrow> step = Some k \<and> used = None \<and> fresh_step l (Some k)"
    "\<And>i. m = CodeConsumed i \<Longrightarrow> used = Some i"
proof (cases used)
  case None
  then obtain k where k: "step = Some k" "fresh_step l (Some k)" using assms(1) by (cases step) (auto simp: fresh_step_def)
  show ?thesis by (rule that [of "StepAccepted k"]) (use None k in \<open>simp_all add: proof_mark_def\<close>)
next
  case (Some i)
  show ?thesis by (rule that [of "CodeConsumed i"]) (use Some in \<open>simp_all add: proof_mark_def\<close>)
qed

text \<open>A recovery code is never a one-time code, when the hash tells the two apart.\<close>

lemma consumed_without_step:
  assumes inv: "mfa_inv cr db evs" and c: "consume_recovery_code cr env fid code db = (db1, Some i)"
    and v: "verify_totp hmac secret code now = Inr step" and inj: "inj (mc_recovery_hash cr)"
  shows "step = None"
proof (rule ccontr)
  assume "step \<noteq> None"
  then obtain k where "step = Some k" by blast
  then have "length (normalize_recovery_code code) \<le> 6" using verify_totp_code(1) v six_digits_normal by blast
  moreover have "length (normalize_recovery_code code) = 16"
    using consume_after(3) [OF inv c] inj by (auto simp: code_hash_def dest: injD)
  ultimately show False by simp
qed

definition try_code :: "mfa_crypto \<Rightarrow> mfa_env \<Rightarrow> bool \<Rightarrow> factor_row \<Rightarrow> string \<Rightarrow> mfa_db \<Rightarrow> mfa_db \<times> nat option" where
  "try_code cr env allowed f code db = (if allowed then consume_recovery_code cr env (fa_id f) code db else (db, None))"

lemma wrong_code:
  assumes inv: "mfa_inv cr db evs" and f: "f \<in> set (md_factors db)"
    and l: "\<not> (case fa_locked f of None \<Rightarrow> False | Some t \<Rightarrow> me_now env < t)"
    and t: "try_code cr env allowed f code db = (db1, used)" and n: "fa_failed f < n"
  shows "mfa_inv cr (update_factors (\<lambda>x. fa_id x = fa_id f) (fail_factor (me_now env) n) db1) (evs @ [(fa_id f, me_now env, WrongCode)])"
proof (rule factor_event [OF inv f])
  show "codes_after db db1 WrongCode"
    using t consume_after(2) [OF inv] codes_after_same [of WrongCode db] by (auto simp: try_code_def split: if_splits)
  show "factor_ok cr (fail_factor (me_now env) n f) (factor_events (fa_id f) evs @ [(me_now env, WrongCode)])"
    by (rule factor_ok_fail [OF mfa_invD(4) [OF inv f] n])
qed (use l in \<open>auto simp: fail_factor_def not_less\<close>)

lemma right_code:
  assumes inv: "mfa_inv cr db evs" and f: "f \<in> set (md_factors db)"
    and v: "verify_totp (mc_hmac cr) secret code now = Inr step"
    and t: "try_code cr env (\<not> fresh_step (fa_last_step f) step \<and> recovery) f code db = (db1, used)"
    and some: "\<not> (\<not> fresh_step (fa_last_step f) step \<and> used = None)"
    and g: "\<And>x. fa_id (g x) = fa_id x" "fa_failed (g f) = 0" "step \<noteq> None \<Longrightarrow> fa_last_step (g f) = step"
      "used \<noteq> None \<Longrightarrow> step = None \<Longrightarrow> fa_last_step (g f) = fa_last_step f"
  shows "\<exists>m. proof_mark used step = Some m \<and> mfa_inv cr (update_factors (\<lambda>x. fa_id x = fa_id f) g db1) (evs @ [(fa_id f, me_now env, m)])"
proof -
  have u: "used \<noteq> None \<Longrightarrow> \<not> fresh_step (fa_last_step f) step \<and> consume_recovery_code cr env (fa_id f) code db = (db1, used)"
    using t by (auto simp: try_code_def split: if_splits)
  obtain m where m: "proof_mark used step = Some m" "m \<noteq> WrongCode"
      "\<And>k. m = StepAccepted k \<Longrightarrow> step = Some k \<and> used = None \<and> fresh_step (fa_last_step f) (Some k)" "\<And>i. m = CodeConsumed i \<Longrightarrow> used = Some i"
    using proved_mark [OF some] u by blast
  have "mfa_inv cr (update_factors (\<lambda>x. fa_id x = fa_id f) g db1) (evs @ [(fa_id f, me_now env, m)])"
  proof (rule factor_event [OF inv f _ g(1)])
    show "codes_after db db1 m"
    proof (cases m)
      case (StepAccepted k)
      then have "db1 = db" using m(3) t by (simp add: try_code_def)
      then show ?thesis using StepAccepted by (simp add: codes_after_same)
    next
      case (CodeConsumed i)
      then show ?thesis using m(4) u consume_after(1) [OF inv] by blast
    qed (use m in simp)
    show "factor_ok cr (g f) (factor_events (fa_id f) evs @ [(me_now env, m)])"
    proof (rule factor_ok_pass [OF mfa_invD(4) [OF inv f] g(2) m(2)])
      show "fa_last_step (g f) = fa_last_step f" if "m = CodeConsumed i" "inj (mc_recovery_hash cr)" for i
        using consumed_without_step [OF inv _ v that(2)] u m(4) that(1) g(4) by blast
    qed (use m(3) g(3) in auto)
  qed (use m in auto)
  with m(1) show ?thesis by blast
qed

section \<open>Every request\<close>

definition told :: "mfa_event list \<Rightarrow> mfa_event option \<Rightarrow> mfa_event list" where
  "told evs ev = evs @ (case ev of None \<Rightarrow> [] | Some e \<Rightarrow> [e])"

lemma told_None [simp]: "told evs None = evs"
  by (simp add: told_def)

lemma told_Some [simp]: "told evs (Some e) = evs @ [e]"
  by (simp add: told_def)

lemma find_Some_in: "find P xs = Some x \<Longrightarrow> x \<in> set xs"
  by (auto simp: find_Some_iff)

lemma mark_event:
  "proof_mark used step = Some m \<Longrightarrow>
   (case used of Some i \<Rightarrow> Some (fid, t, CodeConsumed i) | None \<Rightarrow> map_option (\<lambda>k. (fid, t, StepAccepted k)) step) = Some (fid, t, m)"
  by (auto simp: proof_mark_def split: option.splits)

lemma pass_factor_keys:
  "fa_id (pass_factor step x) = fa_id x" "fa_failed (pass_factor step x) = 0" "step \<noteq> None \<Longrightarrow> fa_last_step (pass_factor step x) = step"
  "step = None \<Longrightarrow> fa_last_step (pass_factor step x) = fa_last_step x"
  by (auto simp: pass_factor_def)

lemma verify_active_code_inv:
  assumes inv: "mfa_inv cr db evs" and r: "verify_active_code cr env u code db = Inr (db', answer, ev)"
  shows "mfa_inv cr db' (told evs ev)"
proof (cases "load_factor u FA_ACTIVE db")
  case None
  then show ?thesis using r inv by (simp add: verify_active_code_def)
next
  case (Some f)
  then have f: "f \<in> set (md_factors db)" using find_Some_in by (fastforce simp: load_factor_def)
  show ?thesis
  proof (cases "case fa_locked f of None \<Rightarrow> False | Some t \<Rightarrow> me_now env < t")
    case True
    then show ?thesis using r inv Some by (simp add: verify_active_code_def)
  next
    case free: False
    obtain step where v: "verify_totp (mc_hmac cr) (fa_secret f) code (me_now env) = Inr step"
      using r Some free by (cases "verify_totp (mc_hmac cr) (fa_secret f) code (me_now env)") (simp_all add: verify_active_code_def)
    let ?valid = "fresh_step (fa_last_step f) step"
    obtain db1 used where t: "try_code cr env (\<not> ?valid) f code db = (db1, used)" by fastforce
    note r' = r [unfolded verify_active_code_def Some option.case if_not_P [OF free] v sum.case Let_def try_code_def [symmetric] t prod.case]
    show ?thesis
    proof (cases "\<not> ?valid \<and> used = None")
      case True
      show ?thesis using r' [unfolded if_P [OF True]] wrong_code [OF inv f free t lessI] by auto
    next
      case False
      obtain m where m: "proof_mark used step = Some m"
          "mfa_inv cr (update_factors (\<lambda>x. fa_id x = fa_id f) (pass_factor step) db1) (evs @ [(fa_id f, me_now env, m)])"
        using right_code [OF inv f v, where recovery = True and ?db1.0 = db1 and used = used and g = "pass_factor step" and env = env] t False pass_factor_keys by auto
      show ?thesis using r' [unfolded if_not_P [OF False] mark_event [OF m(1)]] m(2) by auto
    qed
  qed
qed

lemma activate_factor_inv:
  assumes inv: "mfa_inv cr db evs" and f: "f \<in> set (md_factors db)"
    and v: "verify_totp (mc_hmac cr) secret code now = Inr step" and fresh: "fresh_step (fa_last_step f) step"
    and r: "activate_factor cr env u (fa_id f) step db = Inr (db', codes)"
  shows "\<exists>m. proof_mark None step = Some m \<and> mfa_inv cr db' (evs @ [(fa_id f, me_now env, m)])"
proof -
  let ?db1 = "update_factors (\<lambda>x. fa_user x = u \<and> fa_state x = FA_ACTIVE \<and> fa_id x \<noteq> fa_id f) (\<lambda>x. x\<lparr>fa_state := FA_REVOKED\<rparr>) db"
  let ?g = "\<lambda>x. x\<lparr>fa_state := FA_ACTIVE, fa_pending_expires := None, fa_last_step := step, fa_failed := 0, fa_locked := None\<rparr>"
  have "quiet cr db ?db1" by (rule quiet_factors) (simp add: same_core_def)
  then have inv1: "mfa_inv cr ?db1 evs" using inv mfa_inv_quiet by blast
  have f1: "f \<in> set (md_factors ?db1)" unfolding update_factors_def using f by (auto simp: image_iff intro!: bexI [of _ f])
  obtain m where m: "proof_mark None step = Some m"
      "mfa_inv cr (update_factors (\<lambda>x. fa_id x = fa_id f) ?g ?db1) (evs @ [(fa_id f, me_now env, m)])"
    using right_code [OF inv1 f1 v, where recovery = False and ?db1.0 = ?db1 and used = None and g = ?g and env = env] fresh by (auto simp: try_code_def)
  obtain db3 where db3: "insert_recovery_codes cr env (fa_id f) (update_factors (\<lambda>x. fa_id x = fa_id f) ?g ?db1) = Inr (db3, codes)"
      "db' = bump_session_epoch u db3"
    using r by (auto simp: activate_factor_def Let_def split: sum.splits prod.splits)
  have "quiet cr (update_factors (\<lambda>x. fa_id x = fa_id f) ?g ?db1) db'"
    using quiet_codes [OF db3(1)] quiet_bump quiet_trans unfolding db3(2) by blast
  with m show ?thesis using mfa_inv_quiet by blast
qed

lemma found_factor: "find_challenge h db = Some (c, u, f) \<Longrightarrow> f \<in> set (md_factors db)"
  by (auto simp: find_challenge_def dest: find_Some_in split: option.splits)

lemma unlocked_factor: "challenge_failure now c u f = None \<Longrightarrow> \<not> (case fa_locked f of None \<Rightarrow> False | Some t \<Rightarrow> now < t)"
  by (auto simp: challenge_failure_def split: if_splits)

lemma verify_mfa_challenge_inv:
  assumes inv: "mfa_inv cr db evs" and r: "verify_mfa_challenge cr env token code db = Inr (db', answer, ev)"
  shows "mfa_inv cr db' (told evs ev)"
proof (cases "find_challenge (mc_token_hash cr token) db")
  case None
  then show ?thesis using r inv by (simp add: verify_mfa_challenge_def)
next
  case (Some found)
  obtain c u f where found: "found = (c, u, f)" by (metis prod_cases3)
  have f: "f \<in> set (md_factors db)" using found_factor Some found by simp
  show ?thesis
  proof (cases "challenge_failure (me_now env) c u f")
    case (Some e)
    then show ?thesis using r inv \<open>find_challenge _ _ = _\<close> found by (simp add: verify_mfa_challenge_def)
  next
    case ok: None
    have free: "\<not> (case fa_locked f of None \<Rightarrow> False | Some t \<Rightarrow> me_now env < t)" by (rule unlocked_factor [OF ok])
    note r1 = r [unfolded verify_mfa_challenge_def Some found option.case prod.case ok]
    obtain step where v: "verify_totp (mc_hmac cr) (fa_secret f) code (me_now env) = Inr step"
      using r1 by (cases "verify_totp (mc_hmac cr) (fa_secret f) code (me_now env)") simp_all
    let ?valid = "fresh_step (fa_last_step f) step"
    let ?login = "ch_purpose c = CP_LOGIN"
    obtain db1 used where t: "try_code cr env (\<not> ?valid \<and> ?login) f code db = (db1, used)" by fastforce
    note r2 = r1 [unfolded v sum.case Let_def try_code_def [symmetric] t prod.case]
    show ?thesis
    proof (cases "\<not> ?valid \<and> used = None")
      case True
      let ?n = "max (ch_attempts c) (fa_failed f) + 1"
      have "mfa_inv cr (update_factors (\<lambda>x. fa_id x = fa_id f) (fail_factor (me_now env) ?n) db1) (evs @ [(fa_id f, me_now env, WrongCode)])"
        by (rule wrong_code [OF inv f free t]) simp
      moreover have "update_factors h g (update_challenges hc gc db1) = update_challenges hc gc (update_factors h g db1)" for h g hc gc
        by (simp add: update_factors_def update_challenges_def)
      ultimately show ?thesis
        using r2 [unfolded if_P [OF True]] mfa_inv_quiet [OF _ quiet_challenges] by (auto simp: record_failed_attempt_def Let_def)
    next
      case False
      show ?thesis
      proof (cases ?login)
        case True
        obtain m where m: "proof_mark used step = Some m"
            "mfa_inv cr (update_factors (\<lambda>x. fa_id x = fa_id f) (pass_factor step) db1) (evs @ [(fa_id f, me_now env, m)])"
          using right_code [OF inv f v, where recovery = ?login and ?db1.0 = db1 and used = used and g = "pass_factor step" and env = env]
            t False pass_factor_keys by auto
        show ?thesis
          using r2 [unfolded if_not_P [OF False] if_P [OF True] mark_event [OF m(1)] sum.case prod.case] mfa_inv_quiet [OF m(2) quiet_challenges] by auto
      next
        case enrol: False
        then have d: "db1 = db" "used = None" using t by (simp_all add: try_code_def)
        then have fresh: "?valid" using False by simp
        obtain db2 codes where a: "activate_factor cr env (ch_user c) (fa_id f) step db1 = Inr (db2, codes)"
          using r2 [unfolded if_not_P [OF False] if_not_P [OF enrol]]
          by (cases "activate_factor cr env (ch_user c) (fa_id f) step db1") auto
        obtain m where m: "proof_mark None step = Some m" "mfa_inv cr db2 (evs @ [(fa_id f, me_now env, m)])"
          using activate_factor_inv [OF inv f v fresh] a d by blast
        show ?thesis
          using r2 [unfolded if_not_P [OF False] if_not_P [OF enrol] a d(2) mark_event [OF m(1)] sum.case prod.case]
            mfa_inv_quiet [OF m(2) quiet_challenges] fresh by auto
      qed
    qed
  qed
qed

lemma authenticated_mutation_inv:
  assumes inv: "mfa_inv cr db evs" and r: "authenticated_mutation cr env u pw code work db = Inr (db', answer, ev)"
    and work: "\<And>x f db1 db2 a. work x f db1 = Inr (db2, a) \<Longrightarrow> quiet cr db1 db2"
  shows "mfa_inv cr db' (told evs ev)"
proof (cases "load_user u db")
  case None
  then show ?thesis using r inv by (simp add: authenticated_mutation_def)
next
  case (Some x)
  show ?thesis
  proof (cases "\<not> mu_active x \<or> \<not> mc_password_ok cr u pw")
    case True
    then show ?thesis using r inv Some by (simp add: authenticated_mutation_def)
  next
    case False
    note r1 = r [unfolded authenticated_mutation_def Some option.case if_not_P [OF False]]
    obtain db1 res e where v: "verify_active_code cr env u code db = Inr (db1, res, e)"
      using r1 by (cases "verify_active_code cr env u code db") auto
    note i1 = verify_active_code_inv [OF inv v]
    show ?thesis
    proof (cases res)
      case (Inl p)
      then show ?thesis using r1 v i1 by (cases p) auto
    next
      case (Inr q)
      obtain f way where q: "q = (f, way)" by fastforce
      obtain a where "work x f db1 = Inr (db', a)" "ev = e"
        using r1 v Inr q by (cases "work x f db1") auto
      then show ?thesis using mfa_inv_quiet [OF i1 work] by simp
    qed
  qed
qed

lemma enrolment_inv:
  assumes inv: "mfa_inv cr db evs" and r: "insert_challenge cr env u fid p e (fst (create_pending_factor env u label db)) = Inr db'"
  shows "mfa_inv cr db' evs"
  using mfa_inv_quiet [OF mfa_inv_quiet [OF inv quiet_pending] quiet_insert_challenge [OF r]] .

lemma mfa_step_inv:
  assumes inv: "mfa_inv cr db evs" and r: "mfa_step cr env q db = Inr (db', answer, ev)"
  shows "mfa_inv cr db' (told evs ev)"
proof (cases q)
  case (AfterPassword u)
  then show ?thesis
    using r inv enrolment_inv [OF inv] mfa_inv_quiet [OF inv quiet_insert_challenge]
    by (auto simp: begin_mfa_after_password_def case_prod_beta Let_def split: option.splits if_splits sum.splits)
next
  case (VerifyChallenge token code)
  then show ?thesis using r verify_mfa_challenge_inv [OF inv] by simp
next
  case (StepUp u code)
  then show ?thesis
    using r inv verify_active_code_inv [OF inv] by (auto simp: step_up_mfa_def split: if_splits sum.splits option.splits prod.splits)
next
  case (EnrollOwn u pw label)
  then show ?thesis
    using r inv enrolment_inv [OF inv]
    by (auto simp: begin_own_enrollment_def case_prod_beta Let_def split: option.splits if_splits sum.splits)
next
  case (ReplaceFactor u pw code label)
  have "quiet cr db1 db2" if "insert_challenge cr env u (snd (create_pending_factor env u label db1)) p e (fst (create_pending_factor env u label db1)) = Inr db2"
    for db1 db2 p e
    using quiet_trans [OF quiet_pending quiet_insert_challenge [OF that]] .
  then show ?thesis
    by (intro authenticated_mutation_inv [OF inv r [unfolded ReplaceFactor mfa_step.simps begin_mfa_replacement_def]])
      (auto simp: case_prod_beta Let_def split: sum.splits)
next
  case (RegenerateCodes u pw code)
  show ?thesis
    by (rule authenticated_mutation_inv [OF inv r [unfolded RegenerateCodes mfa_step.simps regenerate_recovery_codes_def]])
      (auto dest: quiet_codes split: sum.splits)
next
  case (RevokeFactor u pw code)
  have "quiet cr db1 (bump_session_epoch u (update_factors h (\<lambda>y. y\<lparr>fa_state := FA_REVOKED\<rparr>) db1))" for db1 h
    using quiet_trans [OF quiet_factors quiet_bump] by (simp add: same_core_def)
  then show ?thesis
    by (intro authenticated_mutation_inv [OF inv r [unfolded RevokeFactor mfa_step.simps revoke_own_mfa_def]])
      (auto split: if_splits)
next
  case (UpdatePolicy u pw code p)
  show ?thesis
    by (rule authenticated_mutation_inv [OF inv r [unfolded UpdatePolicy mfa_step.simps update_mfa_policy_def]])
      (auto intro: quiet_same split: if_splits)
next
  case CleanUp
  then show ?thesis using r mfa_inv_quiet [OF inv quiet_cleanup] by auto
qed

lemma mfa_run_inv: "mfa_inv cr db evs \<Longrightarrow> mfa_run cr qs db evs = (db', evs') \<Longrightarrow> mfa_inv cr db' evs'"
proof (induction qs arbitrary: db evs)
  case (Cons p qs)
  obtain env q where p: "p = (env, q)" by fastforce
  show ?case
  proof (cases "mfa_step cr env q db")
    case (Inl e)
    then show ?thesis using Cons p by simp
  next
    case (Inr res)
    obtain db1 a ev where res: "res = (db1, a, ev)" by (metis prod_cases3)
    have "mfa_inv cr db1 (told evs ev)" using mfa_step_inv Cons.prems(1) Inr res by blast
    then show ?thesis using Cons.IH Cons.prems(2) p Inr res by (simp add: told_def)
  qed
qed simp

lemma mfa_inv_start: "mfa_inv cr (db\<lparr>md_factors := [], md_recovery := []\<rparr>) []"
  by (simp add: mfa_inv_def keys_ok_def events_ok_def factor_events_def accepted_steps_def consumed_codes_def List.map_filter_def)

section \<open>What a session rests on\<close>

fun given_code :: "mfa_request \<Rightarrow> string" where
  "given_code (VerifyChallenge token code) = code"
| "given_code (StepUp u code) = code"
| "given_code q = []"

text \<open>A factor of the tables that is not locked, with a code of a step never accepted, or an unused recovery code.\<close>

definition proved :: "mfa_crypto \<Rightarrow> mfa_env \<Rightarrow> mfa_db \<Rightarrow> nat \<Rightarrow> string \<Rightarrow> mfa_method \<Rightarrow> mfa_event option \<Rightarrow> bool" where
  "proved cr env db fid code way ev \<longleftrightarrow> (\<exists>f \<in> set (md_factors db). fa_id f = fid
     \<and> \<not> (case fa_locked f of None \<Rightarrow> False | Some t \<Rightarrow> me_now env < t)
     \<and> (case way of
          TOTP \<Rightarrow> (\<exists>k \<in> {current_step (me_now env) - 1, current_step (me_now env), current_step (me_now env) + 1}.
            totp_for_step (mc_hmac cr) (fa_secret f) k = Inr (filter (\<lambda>c. \<not> js_space c) code)
            \<and> fresh_step (fa_last_step f) (Some k) \<and> ev = Some (fid, me_now env, StepAccepted k))
        | RECOVERY_CODE \<Rightarrow> (\<exists>r \<in> set (md_recovery db). rc_factor r = fid \<and> rc_used r = None
            \<and> rc_hash r = mc_recovery_hash cr (normalize_recovery_code code) \<and> ev = Some (fid, me_now env, CodeConsumed (rc_id r)))))"

lemma proved_code:
  assumes f: "f \<in> set (md_factors db)" and free: "\<not> (case fa_locked f of None \<Rightarrow> False | Some t \<Rightarrow> me_now env < t)"
    and v: "verify_totp (mc_hmac cr) (fa_secret f) code (me_now env) = Inr step"
    and t: "try_code cr env (\<not> fresh_step (fa_last_step f) step \<and> recovery) f code db = (db1, used)"
    and some: "\<not> (\<not> fresh_step (fa_last_step f) step \<and> used = None)"
  shows "proved cr env db (fa_id f) code (if used = None then TOTP else RECOVERY_CODE)
    (case used of Some i \<Rightarrow> Some (fa_id f, me_now env, CodeConsumed i) | None \<Rightarrow> map_option (\<lambda>k. (fa_id f, me_now env, StepAccepted k)) step)"
proof (cases used)
  case None
  then obtain k where k: "step = Some k" "fresh_step (fa_last_step f) (Some k)" using some by (cases step) (auto simp: fresh_step_def)
  note ok = verify_totp_code [OF v [unfolded k(1)]]
  define near where "near = {current_step (me_now env) - 1, current_step (me_now env), current_step (me_now env) + 1}"
  have "k \<in> near" using ok(3) by (simp only: near_def)
  then show ?thesis unfolding proved_def near_def [symmetric]
    by (intro bexI [OF _ f]) (use None k ok(2) free in auto)
next
  case (Some i)
  define hit where "hit = (\<lambda>r :: recovery_row. rc_factor r = fa_id f \<and> rc_hash r = mc_recovery_hash cr (normalize_recovery_code code) \<and> rc_used r = None)"
  have "consume_recovery_code cr env (fa_id f) code db = (db1, Some i)" using t Some by (simp add: try_code_def split: if_splits)
  then have "(case filter hit (md_recovery db) of [r] \<Rightarrow> Some (rc_id r) | _ \<Rightarrow> None) = Some i"
    by (simp add: consume_recovery_code_def hit_def Let_def)
  then obtain r where r: "filter hit (md_recovery db) = [r]" "rc_id r = i" by (auto split: list.splits)
  then have in_r: "r \<in> set (md_recovery db)" "hit r" using filter_eq_ConsD [of hit "md_recovery db" r "[]"] by auto
  have "\<exists>r \<in> set (md_recovery db). rc_factor r = fa_id f \<and> rc_used r = None
      \<and> rc_hash r = mc_recovery_hash cr (normalize_recovery_code code) \<and> Some (fa_id f, me_now env, CodeConsumed i) = Some (fa_id f, me_now env, CodeConsumed (rc_id r))"
    by (rule bexI [OF _ in_r(1)]) (use in_r(2) r(2) in \<open>simp add: hit_def\<close>)
  then show ?thesis unfolding proved_def
    by (intro bexI [OF _ f]) (use Some free in simp)
qed

lemma proved_active:
  assumes r: "verify_active_code cr env u code db = Inr (db', Inr (f, way), ev)"
  shows "proved cr env db (fa_id f) code way ev"
proof (cases "load_factor u FA_ACTIVE db")
  case None
  then show ?thesis using r by (simp add: verify_active_code_def)
next
  case (Some g)
  then have g: "g \<in> set (md_factors db)" using find_Some_in by (fastforce simp: load_factor_def)
  show ?thesis
  proof (cases "case fa_locked g of None \<Rightarrow> False | Some t \<Rightarrow> me_now env < t")
    case True
    then show ?thesis using r Some by (simp add: verify_active_code_def)
  next
    case free: False
    obtain step where v: "verify_totp (mc_hmac cr) (fa_secret g) code (me_now env) = Inr step"
      using r Some free by (cases "verify_totp (mc_hmac cr) (fa_secret g) code (me_now env)") (simp_all add: verify_active_code_def)
    let ?valid = "fresh_step (fa_last_step g) step"
    obtain db1 used where t: "try_code cr env (\<not> ?valid) g code db = (db1, used)" by fastforce
    note r' = r [unfolded verify_active_code_def Some option.case if_not_P [OF free] v sum.case Let_def try_code_def [symmetric] t prod.case]
    have ok: "\<not> (\<not> ?valid \<and> used = None)" using r' by (auto split: if_splits)
    show ?thesis
      using proved_code [OF g free v, where recovery = True and ?db1.0 = db1 and used = used] t ok r' [unfolded if_not_P [OF ok]] by auto
  qed
qed

lemma proved_challenge:
  assumes r: "verify_mfa_challenge cr env token code db = Inr (db', SessionFor u fid way codes, ev)"
  shows "proved cr env db fid code way ev"
proof (cases "find_challenge (mc_token_hash cr token) db")
  case None
  then show ?thesis using r by (simp add: verify_mfa_challenge_def)
next
  case (Some found)
  obtain c x f where found: "found = (c, x, f)" by (metis prod_cases3)
  have f: "f \<in> set (md_factors db)" using found_factor Some found by simp
  have ok: "challenge_failure (me_now env) c x f = None"
    using r Some found by (cases "challenge_failure (me_now env) c x f") (simp_all add: verify_mfa_challenge_def)
  have free: "\<not> (case fa_locked f of None \<Rightarrow> False | Some t \<Rightarrow> me_now env < t)" by (rule unlocked_factor [OF ok])
  note r1 = r [unfolded verify_mfa_challenge_def Some found option.case prod.case ok]
  obtain step where v: "verify_totp (mc_hmac cr) (fa_secret f) code (me_now env) = Inr step"
    using r1 by (cases "verify_totp (mc_hmac cr) (fa_secret f) code (me_now env)") simp_all
  let ?valid = "fresh_step (fa_last_step f) step"
  obtain db1 used where t: "try_code cr env (\<not> ?valid \<and> ch_purpose c = CP_LOGIN) f code db = (db1, used)" by fastforce
  note r2 = r1 [unfolded v sum.case Let_def try_code_def [symmetric] t prod.case]
  have some: "\<not> (\<not> ?valid \<and> used = None)" using r2 by (auto split: if_splits)
  have "fid = fa_id f \<and> way = (if used = None then TOTP else RECOVERY_CODE)
      \<and> ev = (case used of Some i \<Rightarrow> Some (fa_id f, me_now env, CodeConsumed i) | None \<Rightarrow> map_option (\<lambda>k. (fa_id f, me_now env, StepAccepted k)) step)"
    using r2 [unfolded if_not_P [OF some]] by (auto split: sum.splits)
  then show ?thesis using proved_code [OF f free v t some] by simp
qed

lemma authenticated_answer:
  "authenticated_mutation cr env u pw code work db = Inr (db', SessionFor a b c d, ev) \<Longrightarrow> \<exists>x f db1 db2. work x f db1 = Inr (db2, SessionFor a b c d)"
  by (auto simp: authenticated_mutation_def split: option.splits if_splits sum.splits prod.splits)

lemma no_session:
  "mfa_step cr env q db = Inr (db', SessionFor u fid way codes, ev) \<Longrightarrow> (\<exists>t c. q = VerifyChallenge t c) \<or> (\<exists>u c. q = StepUp u c)"
  by (cases q) (auto simp: begin_mfa_after_password_def begin_own_enrollment_def begin_mfa_replacement_def regenerate_recovery_codes_def
    revoke_own_mfa_def update_mfa_policy_def Let_def split: option.splits if_splits sum.splits prod.splits dest!: authenticated_answer)




text \<open>C33: Guessing is limited. Over any history of requests, once five wrong codes in a row were tried for a factor, every
  further wrong one comes at least a quarter of an hour after the last code tried: whichever challenge or
  request the guesses are spread over, the lock is the factor's, and it is never shortened.\<close>

theorem guesses_limited:
  "guesses_spaced (0, 0) (factor_events fid (snd (mfa_run cr qs (db\<lparr>md_factors := [], md_recovery := []\<rparr>) [])))"
  using mfa_run_inv [OF mfa_inv_start prod.collapse [symmetric]] by (simp add: mfa_inv_def events_ok_def)

end
