(* ===== verification/Metrology_Units.thy ===== *)
theory Metrology_Units
  imports Complex_Main Prelude
begin

text \<open>
  \<open>src/module/metrologie/domain/metrology-units.ts\<close>: the closed table of units and the conversion between two units of
  the same dimension. Numbers are exact; the factor of the radian is the decimal the engine prints for
  \<open>180 / Math.PI\<close>. The names every object literal inherits (\<open>constructor\<close>, \<open>__proto__\<close>), which the code would find in
  the table, are left out.
\<close>

section \<open>The table\<close>

datatype dimension = LENGTH_DIM | MASS_DIM | TEMPERATURE_DIM | PRESSURE_DIM | ANGLE_DIM | FORCE_DIM | TIME_DIM

record unit_definition =
  ud_dimension :: dimension
  ud_factor :: rat
  ud_offset :: rat
  ud_canonical :: string

definition MICRO :: string where "MICRO = [char_of (181 :: nat)]"
definition DEGREE :: string where "DEGREE = [char_of (176 :: nat)]"
definition QUOTE :: string where "QUOTE = [char_of (39 :: nat)]"

fun base_unit :: "dimension \<Rightarrow> string" where
  "base_unit LENGTH_DIM = ''mm''"
| "base_unit MASS_DIM = ''g''"
| "base_unit TEMPERATURE_DIM = DEGREE @ ''C''"
| "base_unit PRESSURE_DIM = ''bar''"
| "base_unit ANGLE_DIM = DEGREE"
| "base_unit FORCE_DIM = ''N''"
| "base_unit TIME_DIM = ''s''"

definition unit_of :: "dimension \<Rightarrow> rat \<Rightarrow> string \<Rightarrow> unit_definition" where
  "unit_of d f c = \<lparr>ud_dimension = d, ud_factor = f, ud_offset = 0, ud_canonical = c\<rparr>"

definition RADIAN :: rat where "RADIAN = 5729577951308232 / 10 ^ 14"

definition UNITS :: "(string \<times> unit_definition) list" where
  "UNITS =
    [(''nm'', unit_of LENGTH_DIM (1 / 10 ^ 6) ''nm''),
     (''um'', unit_of LENGTH_DIM (1 / 1000) (MICRO @ ''m'')),
     (MICRO @ ''m'', unit_of LENGTH_DIM (1 / 1000) (MICRO @ ''m'')),
     (''micron'', unit_of LENGTH_DIM (1 / 1000) (MICRO @ ''m'')),
     (''microns'', unit_of LENGTH_DIM (1 / 1000) (MICRO @ ''m'')),
     (''mm'', unit_of LENGTH_DIM 1 ''mm''),
     (''cm'', unit_of LENGTH_DIM 10 ''cm''),
     (''dm'', unit_of LENGTH_DIM 100 ''dm''),
     (''m'', unit_of LENGTH_DIM 1000 ''m''),
     (''in'', unit_of LENGTH_DIM (254 / 10) ''in''),
     (''inch'', unit_of LENGTH_DIM (254 / 10) ''in''),
     (''pouce'', unit_of LENGTH_DIM (254 / 10) ''in''),
     (''mg'', unit_of MASS_DIM (1 / 1000) ''mg''),
     (''g'', unit_of MASS_DIM 1 ''g''),
     (''kg'', unit_of MASS_DIM 1000 ''kg''),
     (''t'', unit_of MASS_DIM (10 ^ 6) ''t''),
     (DEGREE @ ''c'', unit_of TEMPERATURE_DIM 1 (DEGREE @ ''C'')),
     (''c'', unit_of TEMPERATURE_DIM 1 (DEGREE @ ''C'')),
     (''celsius'', unit_of TEMPERATURE_DIM 1 (DEGREE @ ''C'')),
     (''k'', (unit_of TEMPERATURE_DIM 1 ''K'')\<lparr>ud_offset := - 27315 / 100\<rparr>),
     (''kelvin'', (unit_of TEMPERATURE_DIM 1 ''K'')\<lparr>ud_offset := - 27315 / 100\<rparr>),
     (''pa'', unit_of PRESSURE_DIM (1 / 10 ^ 5) ''Pa''),
     (''kpa'', unit_of PRESSURE_DIM (1 / 100) ''kPa''),
     (''mpa'', unit_of PRESSURE_DIM 10 ''MPa''),
     (''mbar'', unit_of PRESSURE_DIM (1 / 1000) ''mbar''),
     (''bar'', unit_of PRESSURE_DIM 1 ''bar''),
     (''psi'', unit_of PRESSURE_DIM (689476 / 10 ^ 7) ''psi''),
     (DEGREE, unit_of ANGLE_DIM 1 DEGREE),
     (''deg'', unit_of ANGLE_DIM 1 DEGREE),
     (''degre'', unit_of ANGLE_DIM 1 DEGREE),
     (''rad'', unit_of ANGLE_DIM RADIAN ''rad''),
     (''arcmin'', unit_of ANGLE_DIM (1 / 60) QUOTE),
     (QUOTE, unit_of ANGLE_DIM (1 / 60) QUOTE),
     (''n'', unit_of FORCE_DIM 1 ''N''),
     (''kn'', unit_of FORCE_DIM 1000 ''kN''),
     (''dan'', unit_of FORCE_DIM 10 ''daN''),
     (''ms'', unit_of TIME_DIM (1 / 1000) ''ms''),
     (''s'', unit_of TIME_DIM 1 ''s''),
     (''min'', unit_of TIME_DIM 60 ''min''),
     (''h'', unit_of TIME_DIM 3600 ''h'')]"

definition normalize_key :: "string \<Rightarrow> string" where
  "normalize_key u =
     (let s = filter (\<lambda>c. \<not> js_space c) (js_lower (js_trim u));
          s1 = (if s = ''degc'' then DEGREE @ ''c'' else s)
      in if s1 \<in> {''degr'', ''degre'', ''degrs'', ''degres''} then ''deg'' else s1)"

definition unit_definition_of :: "string \<Rightarrow> unit_definition option" where
  "unit_definition_of u = map_of UNITS (normalize_key u)"

record resolved_unit =
  ru_input :: string
  ru_canonical :: string
  ru_dimension :: dimension
  ru_base :: string

definition resolve_unit :: "string option \<Rightarrow> resolved_unit option" where
  "resolve_unit u =
     (if \<not> truthy u then None
      else case unit_definition_of (or_empty u) of None \<Rightarrow> None
        | Some d \<Rightarrow> Some \<lparr>ru_input = or_empty u, ru_canonical = ud_canonical d, ru_dimension = ud_dimension d, ru_base = base_unit (ud_dimension d)\<rparr>)"

definition is_known_unit :: "string option \<Rightarrow> bool" where
  "is_known_unit u \<longleftrightarrow> resolve_unit u \<noteq> None"

section \<open>Conversion\<close>

definition to_base :: "unit_definition \<Rightarrow> rat \<Rightarrow> rat" where
  "to_base d v = v * ud_factor d + ud_offset d"

definition to_base_value :: "rat \<Rightarrow> string \<Rightarrow> rat option" where
  "to_base_value v u = map_option (\<lambda>d. to_base d v) (unit_definition_of u)"

datatype conversion_failure = UNKNOWN_SOURCE | UNKNOWN_TARGET | DIMENSION_MISMATCH

definition convert_value :: "rat \<Rightarrow> string \<Rightarrow> string \<Rightarrow> conversion_failure + rat" where
  "convert_value v source target =
     (case unit_definition_of source of None \<Rightarrow> Inl UNKNOWN_SOURCE | Some s \<Rightarrow>
     (case unit_definition_of target of None \<Rightarrow> Inl UNKNOWN_TARGET | Some t \<Rightarrow>
     (if ud_dimension s \<noteq> ud_dimension t then Inl DIMENSION_MISMATCH
      else Inr ((to_base s v - ud_offset t) / ud_factor t))))"

definition same_dimension :: "string option \<Rightarrow> string option \<Rightarrow> bool" where
  "same_dimension l r =
     (case (resolve_unit l, resolve_unit r) of (Some a, Some b) \<Rightarrow> ru_dimension a = ru_dimension b | _ \<Rightarrow> False)"

section \<open>Laws\<close>

lemma factors_positive: "list_all (\<lambda>(k, d). 0 < ud_factor d) UNITS"
  by (simp add: UNITS_def unit_of_def RADIAN_def)

lemma factor_positive: "unit_definition_of u = Some d \<Longrightarrow> 0 < ud_factor d"
  using factors_positive map_of_SomeD [of UNITS "normalize_key u" d] by (fastforce simp: unit_definition_of_def list_all_iff)

lemma convert_value_Inr:
  "convert_value v a b = Inr w \<longleftrightarrow> (\<exists>s t. unit_definition_of a = Some s \<and> unit_definition_of b = Some t
     \<and> ud_dimension s = ud_dimension t \<and> to_base t w = to_base s v)"
proof -
  have "(to_base s v - ud_offset t) / ud_factor t = w \<longleftrightarrow> to_base t w = to_base s v" if "0 < ud_factor t" for s t
    using that by (auto simp: to_base_def field_simps)
  then show ?thesis using factor_positive by (auto simp: convert_value_def split: option.splits if_splits)
qed

lemma to_base_less: "unit_definition_of u = Some d \<Longrightarrow> to_base d x \<le> to_base d y \<longleftrightarrow> x \<le> y"
  using factor_positive [of u d] by (simp add: to_base_def)

lemma to_base_inj: "unit_definition_of u = Some d \<Longrightarrow> to_base d x = to_base d y \<longleftrightarrow> x = y"
  using to_base_less [of u d] by (metis order_antisym order_refl)

lemma same_dimension_iff:
  "same_dimension (Some a) (Some b) \<longleftrightarrow> a \<noteq> [] \<and> b \<noteq> [] \<and> (\<exists>s t. unit_definition_of a = Some s \<and> unit_definition_of b = Some t \<and> ud_dimension s = ud_dimension t)"
  by (auto simp: same_dimension_def resolve_unit_def split: option.splits)

text \<open>Converting a value loses nothing. When a value converts from one unit to another, the result converts back to
  the same value, it converts to any third unit of the dimension as the value itself does, and the order of
  two values is the order of their conversions; units of two dimensions never convert.\<close>

theorem unit_conversion_faithful:
  "case convert_value v a b of
     Inl e \<Rightarrow> convert_value w a b = Inl e
   | Inr x \<Rightarrow> convert_value x b a = Inr v \<and> convert_value x b c = convert_value v a c
       \<and> (case convert_value w a b of Inl _ \<Rightarrow> False | Inr y \<Rightarrow> x \<le> y \<longleftrightarrow> v \<le> w)"
proof (cases "convert_value v a b")
  case (Inl e)
  then show ?thesis by (auto simp: convert_value_def split: option.splits if_splits)
next
  case (Inr x)
  then obtain s t where st: "unit_definition_of a = Some s" "unit_definition_of b = Some t" "ud_dimension s = ud_dimension t" "to_base t x = to_base s v"
    unfolding convert_value_Inr by blast
  have ret: "convert_value x b a = Inr v" using st by (simp add: convert_value_Inr)
  have third: "convert_value x b c = convert_value v a c" using st by (simp add: convert_value_def split: option.splits)
  obtain y where y: "convert_value w a b = Inr y" using st by (simp add: convert_value_def)
  then have "to_base t y = to_base s w" using st by (auto simp: convert_value_Inr)
  then have "x \<le> y \<longleftrightarrow> v \<le> w" using st to_base_less [of b t x y] to_base_less [of a s v w] by simp
  with ret third y Inr show ?thesis by simp
qed

text \<open>An interval is not a value: with an offset its conversion is not a length.\<close>

lemma kelvin_interval: "convert_value 2 ''K'' (DEGREE @ ''C'') = Inr (- 27115 / 100)"
proof -
  have "normalize_key ''K'' = ''k''" "normalize_key (DEGREE @ ''C'') = DEGREE @ ''c''" by code_simp+
  moreover have "map_of UNITS ''k'' = Some ((unit_of TEMPERATURE_DIM 1 ''K'')\<lparr>ud_offset := - 27315 / 100\<rparr>)"
    "map_of UNITS (DEGREE @ ''c'') = Some (unit_of TEMPERATURE_DIM 1 (DEGREE @ ''C''))"
    by (simp_all add: UNITS_def MICRO_def DEGREE_def)
  ultimately show ?thesis by (simp add: convert_value_def unit_definition_of_def to_base_def unit_of_def)
qed

end
