(* ===== verification/Civil_Calendar.thy ===== *)
theory Civil_Calendar
  imports Complex_Main Prelude
begin

text \<open>
  The calendar of \<open>Date.UTC\<close> and of the UTC fields of a date, on days counted from the first of January 1970: the day of a
  year, of a month and of a date, and back.
\<close>

section \<open>Years\<close>

definition leap_year :: "int \<Rightarrow> bool" where
  "leap_year y \<longleftrightarrow> y mod 4 = 0 \<and> (y mod 100 \<noteq> 0 \<or> y mod 400 = 0)"

definition day_from_year :: "int \<Rightarrow> int" where
  "day_from_year y = 365 * (y - 1970) + (y - 1969) div 4 - (y - 1901) div 100 + (y - 1601) div 400"

definition year_length :: "int \<Rightarrow> int" where
  "year_length y = (if leap_year y then 366 else 365)"

text \<open>The year of a day: an estimate that is at most one year off.\<close>

definition year_of :: "int \<Rightarrow> int" where
  "year_of d =
     (let y = 1970 + (400 * d) div 146097
      in if d < day_from_year y then y - 1 else if day_from_year (y + 1) \<le> d then y + 1 else y)"

section \<open>Months\<close>

definition month_length :: "int \<Rightarrow> int \<Rightarrow> int" where
  "month_length y m = (if m = 1 then (if leap_year y then 29 else 28) else if m \<in> {3, 5, 8, 10} then 30 else 31)"

definition month_start :: "int \<Rightarrow> int \<Rightarrow> int" where
  "month_start y m = [0, 31, 59, 90, 120, 151, 181, 212, 243, 273, 304, 334] ! nat m + (if 1 < m \<and> leap_year y then 1 else 0)"

text \<open>The day of a date; a month outside the year counts from another year, as the setters of a date do.\<close>

definition make_day :: "int \<Rightarrow> int \<Rightarrow> int \<Rightarrow> int" where
  "make_day y m dt = (let ym = y + m div 12; mn = m mod 12 in day_from_year ym + month_start ym mn + dt - 1)"

definition month_of :: "int \<Rightarrow> int" where
  "month_of d = (let y = year_of d; k = d - day_from_year y in int (length (filter (\<lambda>m. month_start y m \<le> k) [1..11])))"

definition date_of :: "int \<Rightarrow> int" where
  "date_of d = d - day_from_year (year_of d) - month_start (year_of d) (month_of d) + 1"

definition valid_date :: "int \<Rightarrow> int \<Rightarrow> int \<Rightarrow> bool" where
  "valid_date y m dt \<longleftrightarrow> 0 \<le> m \<and> m \<le> 11 \<and> 1 \<le> dt \<and> dt \<le> month_length y m"

section \<open>Laws\<close>

lemma div_range:
  fixes a :: int
  assumes "0 < n"
  shows "n * (a div n) \<le> a" "a \<le> n * (a div n) + (n - 1)"
  using mult_div_mod_eq [of n a] pos_mod_sign [OF assms, of a] pos_mod_bound [OF assms, of a] by linarith+

lemma div_Suc:
  fixes a :: int
  assumes n: "0 < n"
  shows "(a + 1) div n = a div n + (if n dvd a + 1 then 1 else 0)"
proof (cases "n dvd a + 1")
  case True
  then obtain k where k: "a + 1 = n * k" by (elim dvdE)
  then have "a = n * (k - 1) + (n - 1)" by (simp add: algebra_simps)
  then have "a div n = k - 1" using n by (intro int_div_pos_eq [of _ _ _ "n - 1"]) simp_all
  then show ?thesis using True k n by simp
next
  case False
  have "a mod n + 1 \<noteq> n"
  proof
    assume "a mod n + 1 = n"
    then have "a + 1 = n * (a div n) + n" using mult_div_mod_eq [of n a] by linarith
    then have "a + 1 = n * (a div n + 1)" by (simp add: distrib_left)
    with False show False by simp
  qed
  then have "a mod n + 1 < n" using pos_mod_bound [OF n, of a] by simp
  moreover have "a + 1 = n * (a div n) + (a mod n + 1)" using mult_div_mod_eq [of n a] by simp
  ultimately have "(a + 1) div n = a div n" using pos_mod_sign [OF n, of a] by (intro int_div_pos_eq [of _ _ _ "a mod n + 1"]) simp_all
  then show ?thesis using False by simp
qed

lemma leap_year_dvd: "leap_year y \<longleftrightarrow> 4 dvd y \<and> (\<not> 100 dvd y \<or> 400 dvd y)"
  by (simp add: leap_year_def mod_eq_0_iff_dvd)

lemma day_from_year_Suc: "day_from_year (y + 1) = day_from_year y + year_length y"
proof -
  have s: "n dvd y - k + 1 \<longleftrightarrow> n dvd y" if "n dvd k - 1" for n k :: int
    using that dvd_diff [of n y "k - 1"] dvd_add [of n "y - (k - 1)" "k - 1"] by (auto simp: algebra_simps)
  have "4 dvd y - 1969 + 1 \<longleftrightarrow> 4 dvd y" "100 dvd y - 1901 + 1 \<longleftrightarrow> 100 dvd y" "400 dvd y - 1601 + 1 \<longleftrightarrow> 400 dvd y"
    by (rule s, simp)+
  note dv = this
  have A: "(y - 1969 + 1) div 4 = (y - 1969) div 4 + (if 4 dvd y then 1 else 0)"
    using div_Suc [of 4 "y - 1969"] unfolding dv(1) by simp
  have B: "(y - 1901 + 1) div 100 = (y - 1901) div 100 + (if 100 dvd y then 1 else 0)"
    using div_Suc [of 100 "y - 1901"] unfolding dv(2) by simp
  have C: "(y - 1601 + 1) div 400 = (y - 1601) div 400 + (if 400 dvd y then 1 else 0)"
    using div_Suc [of 400 "y - 1601"] unfolding dv(3) by simp
  have i: "100 dvd y \<Longrightarrow> 4 dvd y" "400 dvd y \<Longrightarrow> 100 dvd y" using dvd_trans [of 4 100 y] dvd_trans [of 100 400 y] by simp_all
  have e: "y + 1 - 1969 = y - 1969 + 1" "y + 1 - 1901 = y - 1901 + 1" "y + 1 - 1601 = y - 1601 + 1" "365 * (y + 1 - 1970) = 365 * (y - 1970) + 365" by simp_all
  define a b c where abc: "a = (y - 1969) div 4" "b = (y - 1901) div 100" "c = (y - 1601) div 400"
  have now: "day_from_year y = 365 * (y - 1970) + a - b + c" unfolding day_from_year_def abc ..
  have next_year: "day_from_year (y + 1) = 365 * (y - 1970) + 365 + (a + (if 4 dvd y then 1 else 0)) - (b + (if 100 dvd y then 1 else 0))
      + (c + (if 400 dvd y then 1 else 0))"
    unfolding day_from_year_def e A B C abc ..
  define p q r where pqr: "p \<longleftrightarrow> 4 dvd y" "q \<longleftrightarrow> 100 dvd y" "r \<longleftrightarrow> 400 dvd y"
  show ?thesis
    using i unfolding now next_year year_length_def leap_year_dvd pqr [symmetric]
    by (cases p; cases q; cases r) simp_all
qed

lemma year_length_pos: "365 \<le> year_length y" "year_length y \<le> 366"
  by (simp_all add: year_length_def)

lemma day_from_year_mono: "y \<le> z \<Longrightarrow> day_from_year y \<le> day_from_year z"
proof (induction z rule: int_ge_induct)
  case (step z)
  then show ?case using day_from_year_Suc [of z] year_length_pos [of z] by simp
qed simp

lemma day_from_year_bounds:
  "146097 * (y - 1970) - 1200 \<le> 400 * day_from_year y" "400 * day_from_year y \<le> 146097 * (y - 1970) + 1200"
proof -
  define a b c where abc: "a = (y - 1969) div 4" "b = (y - 1901) div 100" "c = (y - 1601) div 400"
  have "4 * a \<le> y - 1969" "y - 1969 \<le> 4 * a + 3" "100 * b \<le> y - 1901" "y - 1901 \<le> 100 * b + 99" "400 * c \<le> y - 1601" "y - 1601 \<le> 400 * c + 399"
    unfolding abc using div_range [of 4 "y - 1969"] div_range [of 100 "y - 1901"] div_range [of 400 "y - 1601"] by simp_all
  moreover have "day_from_year y = 365 * (y - 1970) + a - b + c" unfolding day_from_year_def abc ..
  ultimately show "146097 * (y - 1970) - 1200 \<le> 400 * day_from_year y" "400 * day_from_year y \<le> 146097 * (y - 1970) + 1200"
    by simp_all
qed

lemma year_of_spec: "day_from_year (year_of d) \<le> d" "d < day_from_year (year_of d + 1)"
proof -
  define y where "y = 1970 + (400 * d) div 146097"
  have "146097 * (y - 1970) \<le> 400 * d" "400 * d \<le> 146097 * (y - 1970) + 146096"
    unfolding y_def using div_range [of 146097 "400 * d"] by simp_all
  note d = this
  have "day_from_year (y - 1) \<le> d" using d day_from_year_bounds(2) [of "y - 1"] by simp
  moreover have "d < day_from_year (y + 2)" using d day_from_year_bounds(1) [of "y + 2"] by simp
  ultimately show "day_from_year (year_of d) \<le> d" "d < day_from_year (year_of d + 1)"
    by (auto simp: year_of_def y_def [symmetric] Let_def add.commute)
qed

lemma year_of_unique: "day_from_year y \<le> d \<Longrightarrow> d < day_from_year (y + 1) \<Longrightarrow> year_of d = y"
  using year_of_spec [of d] day_from_year_mono [of "y + 1" "year_of d"] day_from_year_mono [of "year_of d + 1" y]
  by (cases "year_of d" y rule: linorder_cases) auto

lemma month_cases: "0 \<le> m \<Longrightarrow> m \<le> 11 \<Longrightarrow> m \<in> {0, 1, 2, 3, 4, 5, 6, 7, 8, 9, 10, 11 :: int}"
  by (simp only: insert_iff empty_iff) presburger

lemma month_start_Suc: "0 \<le> m \<Longrightarrow> m < 11 \<Longrightarrow> month_start y (m + 1) = month_start y m + month_length y m"
  using month_cases [of m] by (auto simp: month_start_def month_length_def)

lemma month_start_ends: "month_start y 0 = 0" "month_start y 11 + month_length y 11 = year_length y"
  by (simp_all add: month_start_def month_length_def year_length_def)

lemma month_length_pos: "28 \<le> month_length y m" "month_length y m \<le> 31"
  by (auto simp: month_length_def)

lemma month_start_mono: "m \<le> n \<Longrightarrow> 0 \<le> m \<Longrightarrow> n \<le> 11 \<Longrightarrow> month_start y m \<le> month_start y n"
proof (induction n rule: int_ge_induct)
  case (step n)
  then show ?case using month_start_Suc [of n y] month_length_pos(1) [of y n] by simp
qed simp

lemma make_day_valid: "0 \<le> m \<Longrightarrow> m \<le> 11 \<Longrightarrow> make_day y m dt = day_from_year y + month_start y m + dt - 1"
  by (simp add: make_day_def)

lemma month_count:
  assumes "valid_date y m dt"
  shows "int (length (filter (\<lambda>n. month_start y n \<le> month_start y m + dt - 1) [1..11])) = m"
proof -
  have m: "0 \<le> m" "m \<le> 11" and dt: "1 \<le> dt" "dt \<le> month_length y m" using assms by (simp_all add: valid_date_def)
  have "month_start y n \<le> month_start y m + dt - 1 \<longleftrightarrow> n \<le> m" if "1 \<le> n" "n \<le> 11" for n
  proof (cases "n \<le> m")
    case True
    then show ?thesis using month_start_mono [of n m y] that m dt by simp
  next
    case False
    then show ?thesis using month_start_mono [of "m + 1" n y] month_start_Suc [of m y] that m dt by simp
  qed
  then have "filter (\<lambda>n. month_start y n \<le> month_start y m + dt - 1) [1..11] = filter (\<lambda>n. n \<le> m) [1..11]"
    by (intro filter_cong) simp_all
  moreover have "int (length (filter (\<lambda>n. n \<le> m) [1..11])) = m"
  proof -
    have "[1..11] = [1, 2, 3, 4, 5, 6, 7, 8, 9, 10, 11 :: int]" by code_simp
    then show ?thesis using month_cases [OF m] by auto
  qed
  ultimately show ?thesis by simp
qed

lemma calendar_of_make_day:
  assumes v: "valid_date y m dt"
  shows "year_of (make_day y m dt) = y" "month_of (make_day y m dt) = m" "date_of (make_day y m dt) = dt"
proof -
  have m: "0 \<le> m" "m \<le> 11" and dt: "1 \<le> dt" "dt \<le> month_length y m" using v by (simp_all add: valid_date_def)
  have d: "make_day y m dt = day_from_year y + month_start y m + dt - 1" by (rule make_day_valid [OF m])
  have "0 \<le> month_start y m" using month_start_mono [of 0 m y] m month_start_ends(1) by simp
  moreover have "month_start y m + month_length y m \<le> year_length y"
  proof (cases "m = 11")
    case False
    then show ?thesis using month_start_Suc [of m y] month_start_mono [of "m + 1" 11 y] month_start_ends(2) [of y] month_length_pos(1) [of y 11] m by simp
  qed (use month_start_ends(2) in simp)
  ultimately show y: "year_of (make_day y m dt) = y" using d dt by (intro year_of_unique) (simp_all add: day_from_year_Suc)
  show mo: "month_of (make_day y m dt) = m"
  proof -
    have k: "make_day y m dt - day_from_year y = month_start y m + dt - 1" by (simp add: d)
    show ?thesis unfolding month_of_def y Let_def k by (rule month_count [OF v])
  qed
  show "date_of (make_day y m dt) = dt" unfolding date_of_def y mo by (simp add: d)
qed

lemma month_exists:
  "0 \<le> n \<Longrightarrow> n \<le> 11 \<Longrightarrow> 0 \<le> k \<Longrightarrow> k < month_start y n + month_length y n \<Longrightarrow> \<exists>m dt. valid_date y m dt \<and> k = month_start y m + dt - 1"
proof (induction n rule: int_ge_induct)
  case base
  then show ?case by (intro exI [of _ 0] exI [of _ "k + 1"]) (simp add: valid_date_def month_start_ends)
next
  case (step n)
  show ?case
  proof (cases "k < month_start y (n + 1)")
    case True
    then show ?thesis using step month_start_Suc [of n y] by simp
  next
    case False
    then show ?thesis using step
      by (intro exI [of _ "n + 1"] exI [of _ "k - month_start y (n + 1) + 1"]) (simp add: valid_date_def)
  qed
qed

lemma date_exists: "\<exists>y m dt. valid_date y m dt \<and> d = make_day y m dt"
proof -
  let ?y = "year_of d"
  have "0 \<le> d - day_from_year ?y" "d - day_from_year ?y < month_start ?y 11 + month_length ?y 11"
    using year_of_spec [of d] by (simp_all add: day_from_year_Suc month_start_ends)
  then obtain m dt where v: "valid_date ?y m dt" "d - day_from_year ?y = month_start ?y m + dt - 1"
    using month_exists [of 11 "d - day_from_year ?y" ?y] by auto
  then have "d = make_day ?y m dt" using make_day_valid [of m ?y dt] by (simp add: valid_date_def)
  with v(1) show ?thesis by blast
qed

lemma calendar_of_day: "valid_date (year_of d) (month_of d) (date_of d)" "make_day (year_of d) (month_of d) (date_of d) = d"
  using date_exists [of d] calendar_of_make_day by auto

section \<open>Order\<close>

lemma make_day_less_month:
  assumes v: "valid_date y m dt" "valid_date z n dn" and l: "12 * y + m < 12 * z + n"
  shows "make_day y m dt < make_day z n dn"
proof -
  have m: "0 \<le> m" "m \<le> 11" "dt \<le> month_length y m" and n: "0 \<le> n" "n \<le> 11" "1 \<le> dn" using v by (simp_all add: valid_date_def)
  have e: "make_day y m dt = day_from_year y + month_start y m + dt - 1" "make_day z n dn = day_from_year z + month_start z n + dn - 1"
    using make_day_valid m n by simp_all
  have "0 \<le> month_start z n" using month_start_mono [of 0 n z] n month_start_ends(1) by simp
  have top: "month_start y m + month_length y m \<le> year_length y"
  proof (cases "m = 11")
    case False
    then show ?thesis using month_start_Suc [of m y] month_start_mono [of "m + 1" 11 y] month_start_ends(2) [of y] month_length_pos(1) [of y 11] m by simp
  qed (use month_start_ends(2) in simp)
  show ?thesis
  proof (cases "y = z")
    case True
    then have "month_start y m + month_length y m \<le> month_start z n"
      using month_start_mono [of "m + 1" n y] month_start_Suc [of m y] m n l by simp
    then show ?thesis using e True m n by simp
  next
    case False
    then have "y + 1 \<le> z" using l m n by linarith
    then have "day_from_year y + year_length y \<le> day_from_year z" using day_from_year_mono [of "y + 1" z] by (simp add: day_from_year_Suc)
    then show ?thesis using e top m n \<open>0 \<le> month_start z n\<close> by linarith
  qed
qed

end
