(* ===== verification/Metrology_Policy.thy ===== *)
theory Metrology_Policy
  imports Complex_Main Auth_Roles
begin

text \<open>
  \<open>src/module/metrologie/domain/metrology-policy.ts\<close>: who may do what with the measuring instruments, the life of an
  instrument, of a plan, of an execution and of an impact file, and the guards of the decisions.
\<close>

section \<open>Capabilities\<close>

datatype metrology_capability =
    MC_read | MC_categories_manage | MC_equipment_write | MC_plan_manage | MC_execution_record | MC_verdict_validate | MC_documents_read
  | MC_documents_write | MC_quarantine_set | MC_repair_manage | MC_equipment_release | MC_impact_read | MC_impact_create | MC_impact_decide
  | MC_settings_manage | MC_audit_read

definition directors :: "string list" where
  "directors = [''admin'', ''administrateur'', ''directeur'']"

definition metrologists :: "string list" where
  "metrologists = [''metrolog'', ''m'' @ e_acute # ''trolog'']"

definition quality_people :: "string list" where
  "quality_people = [''qualit'', ''quality'', ''qse'']"

definition workshop :: "string list" where
  "workshop = [''production'', ''atelier'']"

fun capability_needles :: "metrology_capability \<Rightarrow> string list" where
  "capability_needles MC_read = directors @ metrologists @ quality_people @ workshop @ [''method'']"
| "capability_needles MC_categories_manage = directors @ metrologists @ quality_people"
| "capability_needles MC_equipment_write = directors @ metrologists @ quality_people @ [''method'']"
| "capability_needles MC_plan_manage = directors @ metrologists @ quality_people"
| "capability_needles MC_execution_record = directors @ metrologists @ quality_people @ workshop"
| "capability_needles MC_verdict_validate = directors @ metrologists @ quality_people"
| "capability_needles MC_documents_read = directors @ metrologists @ quality_people @ workshop @ [''method'']"
| "capability_needles MC_documents_write = directors @ metrologists @ quality_people"
| "capability_needles MC_quarantine_set = directors @ metrologists @ quality_people @ workshop"
| "capability_needles MC_repair_manage = directors @ metrologists @ quality_people @ [''method'']"
| "capability_needles MC_equipment_release = directors @ metrologists @ quality_people"
| "capability_needles MC_impact_read = directors @ metrologists @ quality_people @ [''method'']"
| "capability_needles MC_impact_create = directors @ metrologists @ quality_people"
| "capability_needles MC_impact_decide = directors @ quality_people"
| "capability_needles MC_settings_manage = directors"
| "capability_needles MC_audit_read = directors @ metrologists @ quality_people"

definition role_has_metrology_capability :: "bool \<Rightarrow> string option \<Rightarrow> metrology_capability \<Rightarrow> bool" where
  "role_has_metrology_capability granted role c \<longleftrightarrow> granted \<or> needle_match (capability_needles c) role"

lemma capability_needles_ok: "needles_ok (capability_needles c)"
proof -
  have "list_all (\<lambda>n. n \<noteq> [] \<and> trimmed n) (directors @ metrologists @ quality_people @ workshop @ [''method''])" by code_simp
  then have "\<forall>n \<in> set (directors @ metrologists @ quality_people @ workshop @ [''method'']). n \<noteq> [] \<and> trimmed n" by (simp add: list_all_iff)
  moreover have "set (capability_needles c) \<subseteq> set (directors @ metrologists @ quality_people @ workshop @ [''method''])" by (cases c) auto
  ultimately show ?thesis unfolding needles_ok_def by blast
qed

interpretation metrology: capability_policy role_has_metrology_capability
  by unfold_locales (auto simp: role_has_metrology_capability_def needle_match_blank intro: needle_match_widen [OF capability_needles_ok])

section \<open>Instruments\<close>

datatype equipment_state = EQ_DRAFT | EQ_ACTIVE | EQ_QUALIFIED | EQ_SUSPENDED | EQ_QUARANTINE | EQ_OUT_OF_TOLERANCE | EQ_UNDER_REPAIR | EQ_RETIRED

fun equipment_transitions :: "equipment_state \<Rightarrow> equipment_state list" where
  "equipment_transitions EQ_DRAFT = [EQ_ACTIVE, EQ_QUALIFIED, EQ_RETIRED]"
| "equipment_transitions EQ_ACTIVE = [EQ_QUALIFIED, EQ_SUSPENDED, EQ_QUARANTINE, EQ_OUT_OF_TOLERANCE, EQ_UNDER_REPAIR, EQ_RETIRED]"
| "equipment_transitions EQ_QUALIFIED = [EQ_ACTIVE, EQ_SUSPENDED, EQ_QUARANTINE, EQ_OUT_OF_TOLERANCE, EQ_UNDER_REPAIR, EQ_RETIRED]"
| "equipment_transitions EQ_SUSPENDED = [EQ_ACTIVE, EQ_QUALIFIED, EQ_QUARANTINE, EQ_UNDER_REPAIR, EQ_RETIRED]"
| "equipment_transitions EQ_QUARANTINE = [EQ_UNDER_REPAIR, EQ_OUT_OF_TOLERANCE, EQ_QUALIFIED, EQ_RETIRED]"
| "equipment_transitions EQ_OUT_OF_TOLERANCE = [EQ_UNDER_REPAIR, EQ_QUARANTINE, EQ_QUALIFIED, EQ_RETIRED]"
| "equipment_transitions EQ_UNDER_REPAIR = [EQ_QUARANTINE, EQ_QUALIFIED, EQ_RETIRED]"
| "equipment_transitions EQ_RETIRED = []"

definition release_targets :: "equipment_state list" where
  "release_targets = [EQ_ACTIVE, EQ_QUALIFIED]"

definition equipment_state_blocks_usage :: "equipment_state \<Rightarrow> bool" where
  "equipment_state_blocks_usage s \<longleftrightarrow> s \<in> {EQ_DRAFT, EQ_SUSPENDED, EQ_QUARANTINE, EQ_OUT_OF_TOLERANCE, EQ_UNDER_REPAIR, EQ_RETIRED}"

definition assert_equipment_transition :: "equipment_state \<Rightarrow> equipment_state \<Rightarrow> unit result" where
  "assert_equipment_transition s t =
     (if s = t then Inl (HttpError 409 ''METROLOGY_EQUIPMENT_TRANSITION_NOOP'')
      else ensure (t \<in> set (equipment_transitions s)) (HttpError 409 ''METROLOGY_EQUIPMENT_TRANSITION_FORBIDDEN''))"

definition transition_requires_release :: "equipment_state \<Rightarrow> equipment_state \<Rightarrow> bool" where
  "transition_requires_release s t \<longleftrightarrow> t \<in> set release_targets \<and> s \<in> {EQ_QUARANTINE, EQ_OUT_OF_TOLERANCE, EQ_UNDER_REPAIR}"

definition reason_length :: "string option \<Rightarrow> nat" where
  "reason_length v = length (js_trim (or_empty v))"

record release_precondition =
  rp_valid_proof :: bool
  rp_proof :: "nat option"
  rp_repair_required :: bool
  rp_repair_done :: bool
  rp_reason :: "string option"

definition release_missing :: "release_precondition \<Rightarrow> string list" where
  "release_missing pre =
     (if rp_repair_required pre \<and> \<not> rp_repair_done pre then [''repair_or_adjustment''] else [])
     @ (if \<not> rp_valid_proof pre \<or> rp_proof pre = None then [''conforming_proof''] else [])
     @ (if reason_length (rp_reason pre) < 10 then [''reason''] else [])"

definition assert_equipment_release_allowed :: "release_precondition \<Rightarrow> unit result" where
  "assert_equipment_release_allowed pre = ensure (release_missing pre = []) (HttpError 422 ''METROLOGY_RELEASE_INCOMPLETE'')"

section \<open>Plans\<close>

datatype metrology_plan_status = MP_DRAFT | MP_ACTIVE | MP_ARCHIVED

fun metrology_plan_transitions :: "metrology_plan_status \<Rightarrow> metrology_plan_status list" where
  "metrology_plan_transitions MP_DRAFT = [MP_ACTIVE, MP_ARCHIVED]"
| "metrology_plan_transitions MP_ACTIVE = [MP_ARCHIVED]"
| "metrology_plan_transitions MP_ARCHIVED = []"

definition assert_plan_transition :: "metrology_plan_status \<Rightarrow> metrology_plan_status \<Rightarrow> unit result" where
  "assert_plan_transition s t = ensure (t \<in> set (metrology_plan_transitions s)) (HttpError 409 ''METROLOGY_PLAN_TRANSITION_FORBIDDEN'')"

definition assert_plan_content_mutable :: "metrology_plan_status \<Rightarrow> unit result" where
  "assert_plan_content_mutable s = ensure (s = MP_DRAFT) (HttpError 409 ''METROLOGY_PLAN_IMMUTABLE'')"

definition assert_plan_selectable :: "metrology_plan_status \<Rightarrow> unit result" where
  "assert_plan_selectable s = ensure (s = MP_ACTIVE) (HttpError 409 ''METROLOGY_PLAN_NOT_ACTIVE'')"

section \<open>Executions\<close>

datatype metrology_operation = OP_ETALONNAGE | OP_VERIFICATION | OP_AJUSTAGE | OP_REPARATION
datatype metrology_execution_status = EX_DRAFT | EX_IN_PROGRESS | EX_VALIDATED | EX_CANCELLED
datatype metrology_verdict = MV_CONFORME | MV_NON_CONFORME | MV_CONFORME_AVEC_RESTRICTION | MV_INCONCLU
datatype certificat_result = CR_CONFORME | CR_NON_CONFORME | CR_AJUSTAGE

definition verdict_to_legacy :: "metrology_verdict \<Rightarrow> metrology_operation \<Rightarrow> certificat_result" where
  "verdict_to_legacy v o' =
     (if o' = OP_AJUSTAGE \<or> o' = OP_REPARATION then CR_AJUSTAGE
      else case v of MV_CONFORME \<Rightarrow> CR_CONFORME | MV_CONFORME_AVEC_RESTRICTION \<Rightarrow> CR_CONFORME
        | MV_NON_CONFORME \<Rightarrow> CR_NON_CONFORME | MV_INCONCLU \<Rightarrow> CR_NON_CONFORME)"

definition verdict_is_admissible_proof :: "metrology_verdict \<Rightarrow> bool" where
  "verdict_is_admissible_proof v \<longleftrightarrow> v = MV_CONFORME \<or> v = MV_CONFORME_AVEC_RESTRICTION"

definition verdict_triggers_quarantine :: "metrology_verdict \<Rightarrow> bool" where
  "verdict_triggers_quarantine v \<longleftrightarrow> v = MV_NON_CONFORME"

fun metrology_execution_transitions :: "metrology_execution_status \<Rightarrow> metrology_execution_status list" where
  "metrology_execution_transitions EX_DRAFT = [EX_IN_PROGRESS, EX_CANCELLED]"
| "metrology_execution_transitions EX_IN_PROGRESS = [EX_VALIDATED, EX_CANCELLED]"
| "metrology_execution_transitions EX_VALIDATED = []"
| "metrology_execution_transitions EX_CANCELLED = []"

definition assert_metrology_execution_transition :: "metrology_execution_status \<Rightarrow> metrology_execution_status \<Rightarrow> unit result" where
  "assert_metrology_execution_transition s t = ensure (t \<in> set (metrology_execution_transitions s)) (HttpError 409 ''METROLOGY_EXECUTION_TRANSITION_FORBIDDEN'')"

definition assert_execution_mutable :: "metrology_execution_status \<Rightarrow> unit result" where
  "assert_execution_mutable s =
     (if s = EX_VALIDATED then Inl (HttpError 409 ''METROLOGY_EXECUTION_IMMUTABLE'')
      else ensure (s \<noteq> EX_CANCELLED) (HttpError 409 ''METROLOGY_EXECUTION_CANCELLED''))"

record verdict_override =
  vo_computed :: metrology_verdict
  vo_requested :: metrology_verdict
  vo_justification :: "string option"
  vo_evidence :: nat
  vo_require_evidence :: bool

definition assert_manual_verdict_override :: "verdict_override \<Rightarrow> unit result" where
  "assert_manual_verdict_override v =
     (if vo_requested v = vo_computed v then Inr ()
      else if reason_length (vo_justification v) < 20 then Inl (HttpError 422 ''METROLOGY_VERDICT_OVERRIDE_JUSTIFICATION_REQUIRED'')
      else if vo_require_evidence v \<and> vo_evidence v = 0 then Inl (HttpError 422 ''METROLOGY_VERDICT_OVERRIDE_EVIDENCE_REQUIRED'')
      else ensure (\<not> (vo_computed v = MV_NON_CONFORME \<and> vo_requested v = MV_CONFORME)) (HttpError 422 ''METROLOGY_VERDICT_OVERRIDE_FORBIDDEN''))"

section \<open>Separation of duties\<close>

record metrology_separation =
  ms_self_verdict :: bool
  ms_self_release :: bool

definition DEFAULT_METROLOGY_SEPARATION :: metrology_separation where
  "DEFAULT_METROLOGY_SEPARATION = \<lparr>ms_self_verdict = False, ms_self_release = False\<rparr>"

definition assert_verdict_separation :: "metrology_separation \<Rightarrow> nat option \<Rightarrow> nat \<Rightarrow> unit result" where
  "assert_verdict_separation p operator validator =
     (if ms_self_verdict p then Inr ()
      else if operator = None then Inr ()
      else ensure (operator \<noteq> Some validator) (HttpError 403 ''METROLOGY_SEPARATION_OF_DUTIES''))"

definition assert_metrology_release_separation :: "metrology_separation \<Rightarrow> nat option \<Rightarrow> nat \<Rightarrow> unit result" where
  "assert_metrology_release_separation p operator releaser =
     (if ms_self_release p then Inr () else ensure (operator \<noteq> Some releaser) (HttpError 403 ''METROLOGY_SEPARATION_OF_DUTIES''))"

section \<open>Impact files\<close>

datatype impact_decision = ID_PENDING | ID_NO_IMPACT | ID_RECHECK | ID_HOLD_LOT | ID_OPEN_NC | ID_REISSUE_DOCUMENT | ID_INFORM_CUSTOMER
datatype impact_status = IS_OPEN | IS_IN_REVIEW | IS_CLOSED | IS_CANCELLED

definition impact_side_effects :: "impact_decision \<Rightarrow> string list" where
  "impact_side_effects d = []"

definition assert_impact_decision :: "impact_decision \<Rightarrow> string option \<Rightarrow> unit result" where
  "assert_impact_decision d reason =
     (if d = ID_PENDING then Inl (HttpError 422 ''METROLOGY_IMPACT_DECISION_REQUIRED'')
      else ensure (5 \<le> reason_length reason) (HttpError 422 ''METROLOGY_IMPACT_DECISION_REASON_REQUIRED''))"

fun impact_transitions :: "impact_status \<Rightarrow> impact_status list" where
  "impact_transitions IS_OPEN = [IS_IN_REVIEW, IS_CANCELLED]"
| "impact_transitions IS_IN_REVIEW = [IS_CLOSED, IS_OPEN, IS_CANCELLED]"
| "impact_transitions IS_CLOSED = []"
| "impact_transitions IS_CANCELLED = []"

definition assert_impact_transition :: "impact_status \<Rightarrow> impact_status \<Rightarrow> unit result" where
  "assert_impact_transition s t = ensure (t \<in> set (impact_transitions s)) (HttpError 409 ''METROLOGY_IMPACT_TRANSITION_FORBIDDEN'')"

definition assert_impact_closure_allowed :: "nat \<Rightarrow> string option \<Rightarrow> unit result" where
  "assert_impact_closure_allowed pending conclusion =
     ensure (pending = 0 \<and> 20 \<le> reason_length conclusion) (HttpError 422 ''METROLOGY_IMPACT_CLOSURE_INCOMPLETE'')"

section \<open>Idempotency and previews\<close>

definition normalize_metrology_idempotency_key :: "string option \<Rightarrow> string result" where
  "normalize_metrology_idempotency_key v =
     (let s = js_trim (or_empty v)
      in if length s < 8 \<or> 200 < length s then Inl (HttpError 400 ''IDEMPOTENCY_KEY_INVALID'') else Inr s)"

datatype metrology_receipt_decision = RD_NEW | RD_REPLAY | RD_CONFLICT

definition decide_metrology_receipt :: "string option \<Rightarrow> string \<Rightarrow> metrology_receipt_decision" where
  "decide_metrology_receipt existing incoming =
     (if \<not> truthy existing then RD_NEW else if existing = Some incoming then RD_REPLAY else RD_CONFLICT)"

definition assert_preview_fresh :: "string option \<Rightarrow> string \<Rightarrow> unit result" where
  "assert_preview_fresh expected current =
     (let e = js_trim (or_empty expected)
      in if e = [] then Inl (HttpError 422 ''METROLOGY_PREVIEW_REQUIRED'')
         else ensure (e = current) (HttpError 409 ''METROLOGY_PREVIEW_STALE''))"

text \<open>Instants in milliseconds; the reading of a date is an argument.\<close>

definition assert_optimistic_version :: "(string \<Rightarrow> int option) \<Rightarrow> string option \<Rightarrow> int \<Rightarrow> unit result" where
  "assert_optimistic_version parse expected current =
     (let e = js_trim (or_empty expected)
      in if e = [] then Inl (HttpError 422 ''METROLOGY_EXPECTED_VERSION_REQUIRED'')
         else case parse e of None \<Rightarrow> Inl (HttpError 422 ''METROLOGY_EXPECTED_VERSION_INVALID'')
           | Some t \<Rightarrow> ensure (t = current) (HttpError 409 ''METROLOGY_VERSION_CONFLICT''))"

section \<open>Machines\<close>

interpretation instrument: guarded_machine equipment_transitions "\<lambda>s. s = EQ_RETIRED" "\<lambda>s t. is_ok (assert_equipment_transition s t)" False
proof unfold_locales
  fix s t
  show "(s = EQ_RETIRED) = (equipment_transitions s = [])" by (cases s) simp_all
  show "s \<notin> set (equipment_transitions s)" by (cases s) simp_all
  then show "is_ok (assert_equipment_transition s t) = (False \<and> s = t \<or> t \<in> set (equipment_transitions s))"
    by (auto simp: assert_equipment_transition_def)
qed

interpretation metro_execution: guarded_machine metrology_execution_transitions "\<lambda>s. s = EX_VALIDATED \<or> s = EX_CANCELLED" "\<lambda>s t. is_ok (assert_metrology_execution_transition s t)" False
proof unfold_locales
  fix s t
  show "(s = EX_VALIDATED \<or> s = EX_CANCELLED) = (metrology_execution_transitions s = [])" by (cases s) simp_all
  show "s \<notin> set (metrology_execution_transitions s)" by (cases s) simp_all
  show "is_ok (assert_metrology_execution_transition s t) = (False \<and> s = t \<or> t \<in> set (metrology_execution_transitions s))"
    by (simp add: assert_metrology_execution_transition_def)
qed

interpretation metro_impact: guarded_machine impact_transitions "\<lambda>s. s = IS_CLOSED \<or> s = IS_CANCELLED" "\<lambda>s t. is_ok (assert_impact_transition s t)" False
proof unfold_locales
  fix s t
  show "(s = IS_CLOSED \<or> s = IS_CANCELLED) = (impact_transitions s = [])" by (cases s) simp_all
  show "s \<notin> set (impact_transitions s)" by (cases s) simp_all
  show "is_ok (assert_impact_transition s t) = (False \<and> s = t \<or> t \<in> set (impact_transitions s))"
    by (simp add: assert_impact_transition_def)
qed

end
