(* ===== verification/Metrology_Schedule.thy ===== *)
theory Metrology_Schedule
  imports Complex_Main Civil_Calendar Decimal_Money Metrology_Policy
begin

text \<open>
  \<open>src/module/metrologie/domain/metrology-schedule.ts\<close>: the due dates of the instruments. A date is a day counted from the
  first of January 1970. The text of a date is read as the engine of the back end reads it: any day from 1
  to 31, a day the month does not have counting into the next one.
\<close>

section \<open>Dates as text\<close>

definition pad_nat :: "nat \<Rightarrow> int \<Rightarrow> string" where
  "pad_nat k n = pad_start k (CHR ''0'') (show_nat (nat n))"

definition year_text :: "int \<Rightarrow> string" where
  "year_text y = (if 0 \<le> y \<and> y \<le> 9999 then pad_nat 4 y else (if y < 0 then CHR ''-'' else CHR ''+'') # pad_nat 6 \<bar>y\<bar>)"

definition to_iso_date :: "int \<Rightarrow> string" where
  "to_iso_date d = take 10 (year_text (year_of d) @ ''-'' @ pad_nat 2 (month_of d + 1) @ ''-'' @ pad_nat 2 (date_of d))"

definition iso_date_shape :: "string \<Rightarrow> bool" where
  "iso_date_shape s \<longleftrightarrow> length s = 10 \<and> s ! 4 = CHR ''-'' \<and> s ! 7 = CHR ''-'' \<and> list_all is_digit (take 4 s @ take 2 (drop 5 s) @ drop 8 s)"

definition parse_iso_date :: "string option \<Rightarrow> int option" where
  "parse_iso_date v =
     (if \<not> truthy v then None
      else (let raw = take 10 (or_empty v)
            in if \<not> iso_date_shape raw then None
               else (let y = int (read_nat (take 4 raw)); m = int (read_nat (take 2 (drop 5 raw))); dt = int (read_nat (drop 8 raw))
                     in if 1 \<le> m \<and> m \<le> 12 \<and> 1 \<le> dt \<and> dt \<le> 31 then Some (make_day y (m - 1) dt) else None)))"

section \<open>Periods\<close>

datatype periodicity_unit = PU_DAY | PU_WEEK | PU_MONTH | PU_YEAR
datatype schedule_base = LAST_PROOF | FIXED_DATE

text \<open>The same day some months later, or the last day of a shorter month.\<close>

definition add_months_clamped :: "int \<Rightarrow> int \<Rightarrow> int" where
  "add_months_clamped d months =
     (let anchor = make_day (year_of d) (month_of d + months) 1;
          last_day = date_of (make_day (year_of anchor) (month_of anchor + 1) 0)
      in make_day (year_of anchor) (month_of anchor) (min (date_of d) last_day))"

definition add_period :: "int \<Rightarrow> int \<Rightarrow> periodicity_unit \<Rightarrow> int" where
  "add_period d v u =
     (case u of PU_DAY \<Rightarrow> d + v | PU_WEEK \<Rightarrow> d + v * 7 | PU_YEAR \<Rightarrow> add_months_clamped d (v * 12) | PU_MONTH \<Rightarrow> add_months_clamped d v)"

definition days_between :: "int \<Rightarrow> int \<Rightarrow> int" where
  "days_between from until = until - from"

record schedule_plan =
  sp_value :: int
  sp_unit :: periodicity_unit
  sp_base :: schedule_base
  sp_window :: int
  sp_effective :: "string option"

record schedule_input =
  si_plan :: schedule_plan
  si_last_proof :: "string option"
  si_certificate :: "string option"
  si_fallback :: "string option"

datatype schedule_source = SRC_CERTIFICATE | SRC_LAST_PROOF | SRC_EFFECTIVE_FROM | SRC_FALLBACK | SRC_NONE

record schedule_result =
  sr_next :: "string option"
  sr_source :: schedule_source
  sr_base :: "string option"

definition due_from :: "schedule_plan \<Rightarrow> schedule_source \<Rightarrow> int \<Rightarrow> schedule_result" where
  "due_from p src d = \<lparr>sr_next = Some (to_iso_date (add_period d (sp_value p) (sp_unit p))), sr_source = src, sr_base = Some (to_iso_date d)\<rparr>"

definition no_due_date :: schedule_result where
  "no_due_date = \<lparr>sr_next = None, sr_source = SRC_NONE, sr_base = None\<rparr>"

definition compute_next_due_date :: "schedule_input \<Rightarrow> schedule_result" where
  "compute_next_due_date i =
     (let p = si_plan i
      in case parse_iso_date (si_certificate i) of
           Some c \<Rightarrow> \<lparr>sr_next = Some (to_iso_date c), sr_source = SRC_CERTIFICATE, sr_base = None\<rparr>
         | None \<Rightarrow>
             if sp_base p = FIXED_DATE
             then (case parse_iso_date (sp_effective p) of None \<Rightarrow> no_due_date | Some e \<Rightarrow> due_from p SRC_EFFECTIVE_FROM e)
             else (case parse_iso_date (si_last_proof i) of
                     Some d \<Rightarrow> due_from p SRC_LAST_PROOF d
                   | None \<Rightarrow> (case parse_iso_date (si_fallback i) of Some d \<Rightarrow> due_from p SRC_FALLBACK d | None \<Rightarrow> no_due_date)))"

section \<open>What is due\<close>

datatype due_status = DUE_OK | DUE_SOON | DUE_OVERDUE | DUE_UNKNOWN

record due_evaluation =
  du_status :: due_status
  du_next :: "string option"
  du_remaining :: "int option"
  du_overdue :: int

definition evaluate_due :: "string option \<Rightarrow> int \<Rightarrow> int \<Rightarrow> due_evaluation" where
  "evaluate_due next_due window today =
     (case parse_iso_date next_due of
        None \<Rightarrow> \<lparr>du_status = DUE_UNKNOWN, du_next = None, du_remaining = None, du_overdue = 0\<rparr>
      | Some due \<Rightarrow>
          (let remaining = days_between today due
           in if remaining < 0
              then \<lparr>du_status = DUE_OVERDUE, du_next = Some (to_iso_date due), du_remaining = Some remaining, du_overdue = \<bar>remaining\<bar>\<rparr>
              else \<lparr>du_status = (if remaining \<le> max 0 window then DUE_SOON else DUE_OK), du_next = Some (to_iso_date due),
                    du_remaining = Some remaining, du_overdue = 0\<rparr>))"

datatype effective_state = Stored equipment_state | EffectiveDueSoon | EffectiveOverdue

definition derive_effective_state :: "equipment_state \<Rightarrow> due_evaluation \<Rightarrow> effective_state" where
  "derive_effective_state s due =
     (if s \<noteq> EQ_ACTIVE \<and> s \<noteq> EQ_QUALIFIED then Stored s
      else if du_status due = DUE_OVERDUE then EffectiveOverdue
      else if du_status due = DUE_SOON then EffectiveDueSoon
      else Stored s)"

record schedule_override =
  ov_requested :: "string option"
  ov_computed :: "string option"
  ov_reason :: "string option"
  ov_approved_by :: "nat option"
  ov_requested_by :: nat

definition assert_schedule_override_allowed :: "schedule_override \<Rightarrow> unit result" where
  "assert_schedule_override_allowed o' =
     (case parse_iso_date (ov_requested o') of None \<Rightarrow> Inl (HttpError 422 ''METROLOGY_DUE_DATE_INVALID'')
      | Some requested \<Rightarrow>
          if reason_length (ov_reason o') < 20 then Inl (HttpError 422 ''METROLOGY_DUE_OVERRIDE_JUSTIFICATION_REQUIRED'')
          else if ov_approved_by o' = None then Inl (HttpError 422 ''METROLOGY_DUE_OVERRIDE_APPROVAL_REQUIRED'')
          else if ov_approved_by o' = Some (ov_requested_by o') then Inl (HttpError 403 ''METROLOGY_SEPARATION_OF_DUTIES'')
          else (case parse_iso_date (ov_computed o') of None \<Rightarrow> Inr ()
            | Some computed \<Rightarrow> ensure (days_between computed requested \<le> 365) (HttpError 422 ''METROLOGY_DUE_OVERRIDE_TOO_FAR'')))"

section \<open>Adding months\<close>

lemma make_day_months: "make_day y (m + n) dt = make_day (y + (m + n) div 12) ((m + n) mod 12) dt"
  by (simp add: make_day_def)

lemma last_day_of_month:
  assumes "0 \<le> m" "m \<le> 11"
  shows "date_of (make_day y (m + 1) 0) = month_length y m"
proof -
  have "make_day y (m + 1) 0 = make_day y m (month_length y m)"
  proof (cases "m = 11")
    case True
    then show ?thesis using month_start_ends [of "y + 1"] month_start_ends(2) [of y] by (simp add: make_day_def day_from_year_Suc)
  next
    case False
    then show ?thesis using assms month_start_Suc [of m y] by (simp add: make_day_valid)
  qed
  moreover have "valid_date y m (month_length y m)" using assms month_length_pos(1) [of y m] by (simp add: valid_date_def)
  ultimately show ?thesis using calendar_of_make_day(3) by metis
qed

lemma add_months_clamped_parts:
  fixes d n :: int
  defines "y \<equiv> year_of d + (month_of d + n) div 12" and "m \<equiv> (month_of d + n) mod 12"
  shows "add_months_clamped d n = make_day y m (min (date_of d) (month_length y m))" "valid_date y m (min (date_of d) (month_length y m))"
proof -
  have m: "0 \<le> m" "m \<le> 11" unfolding m_def using pos_mod_bound [of 12 "month_of d + n"] by simp_all
  have one: "valid_date y m 1" using m month_length_pos(1) [of y m] by (simp add: valid_date_def)
  have anchor: "make_day (year_of d) (month_of d + n) 1 = make_day y m 1" unfolding y_def m_def by (rule make_day_months)
  have "1 \<le> date_of d" using calendar_of_day(1) [of d] by (simp add: valid_date_def)
  then show "valid_date y m (min (date_of d) (month_length y m))" using m month_length_pos(1) [of y m] by (simp add: valid_date_def)
  show "add_months_clamped d n = make_day y m (min (date_of d) (month_length y m))"
    unfolding add_months_clamped_def anchor Let_def calendar_of_make_day [OF one] last_day_of_month [OF m] ..
qed

lemma add_months_month:
  "12 * year_of (add_months_clamped d n) + month_of (add_months_clamped d n) = 12 * year_of d + month_of d + n"
  "date_of (add_months_clamped d n) = min (date_of d) (month_length (year_of (add_months_clamped d n)) (month_of (add_months_clamped d n)))"
proof -
  define y m where ym: "y = year_of d + (month_of d + n) div 12" "m = (month_of d + n) mod 12"
  note parts = add_months_clamped_parts [of d n, folded ym]
  have c: "year_of (add_months_clamped d n) = y" "month_of (add_months_clamped d n) = m"
      "date_of (add_months_clamped d n) = min (date_of d) (month_length y m)"
    using calendar_of_make_day [OF parts(2)] by (simp_all add: parts(1))
  then show "date_of (add_months_clamped d n) = min (date_of d) (month_length (year_of (add_months_clamped d n)) (month_of (add_months_clamped d n)))"
    by simp
  show "12 * year_of (add_months_clamped d n) + month_of (add_months_clamped d n) = 12 * year_of d + month_of d + n"
    unfolding c unfolding ym using mult_div_mod_eq [of 12 "month_of d + n"] by (simp add: algebra_simps)
qed

lemma add_months_later: "0 < n \<Longrightarrow> d < add_months_clamped d n"
  using make_day_less_month [OF calendar_of_day(1) [of d] calendar_of_day(1) [of "add_months_clamped d n"]]
    add_months_month(1) [of d n] calendar_of_day(2) [of d] calendar_of_day(2) [of "add_months_clamped d n"] by simp

lemma add_period_later: "0 < v \<Longrightarrow> d < add_period d v u"
  using add_months_later by (cases u) (simp_all add: add_period_def)


section \<open>Reading what was printed\<close>

lemma pad_nat_text:
  assumes "0 \<le> n" "n < 10 ^ k" "0 < k"
  shows "length (pad_nat k n) = k" "list_all is_digit (pad_nat k n)" "read_nat (pad_nat k n) = nat n"
proof -
  have "length (show_nat (nat n)) \<le> k" using assms by (intro show_nat_length) (simp_all add: nat_less_iff)
  then show "length (pad_nat k n) = k" by (simp add: pad_nat_def pad_start_def)
  show "list_all is_digit (pad_nat k n)" unfolding pad_nat_def by (rule pad_start_digits) (simp add: list_all_iff show_nat_digits)
  show "read_nat (pad_nat k n) = nat n" by (simp add: pad_nat_def pad_start_def read_nat_append)
qed

lemma parse_to_iso_date:
  assumes "0 \<le> year_of d" "year_of d \<le> 9999"
  shows "parse_iso_date (Some (to_iso_date d)) = Some d"
proof -
  have v: "0 \<le> month_of d" "month_of d \<le> 11" "1 \<le> date_of d" "date_of d \<le> 31"
    using calendar_of_day(1) [of d] month_length_pos(2) [of "year_of d" "month_of d"] by (simp_all add: valid_date_def)
  note y = pad_nat_text [of "year_of d" 4, simplified, OF assms(1)] and m = pad_nat_text [of "month_of d + 1" 2, simplified]
    and dt = pad_nat_text [of "date_of d" 2, simplified]
  obtain Y M D where t: "pad_nat 4 (year_of d) = Y" "pad_nat 2 (month_of d + 1) = M" "pad_nat 2 (date_of d) = D" by simp
  have Y: "length Y = 4" "list_all is_digit Y" "int (read_nat Y) = year_of d" using y assms unfolding t by auto
  have M: "length M = 2" "list_all is_digit M" "int (read_nat M) = month_of d + 1" using m v unfolding t by auto
  have D: "length D = 2" "list_all is_digit D" "int (read_nat D) = date_of d" using dt v unfolding t by auto
  have s: "to_iso_date d = Y @ ''-'' @ M @ ''-'' @ D" using assms Y M D by (simp add: to_iso_date_def year_text_def t)
  let ?s = "Y @ ''-'' @ M @ ''-'' @ D"
  have parts: "length ?s = 10" "take 10 ?s = ?s" "take 4 ?s = Y" "take 2 (drop 5 ?s) = M" "drop 8 ?s = D" "?s ! 4 = CHR ''-''" "?s ! 7 = CHR ''-''"
    using Y(1) M(1) D(1) by (simp_all add: nth_append)
  have "iso_date_shape ?s" unfolding iso_date_shape_def parts using Y(2) M(2) D(2) by simp
  moreover have "truthy (Some ?s)" using parts(1) by auto
  ultimately show ?thesis
    unfolding s parse_iso_date_def or_empty_simps parts Let_def
    using Y(3) M(3) D(3) v calendar_of_day(2) [of d] by simp
qed

section \<open>What is due, by date\<close>

lemma due_status_by_date:
  assumes "0 \<le> year_of due" "year_of due \<le> 9999"
  shows "du_status (evaluate_due (Some (to_iso_date due)) window today) =
    (if due < today then DUE_OVERDUE else if due - max 0 window \<le> today then DUE_SOON else DUE_OK)"
  unfolding evaluate_due_def parse_to_iso_date [OF assms] by (auto simp: days_between_def Let_def)

end
