(* ===== verification/Metrology_Eligibility.thy ===== *)
theory Metrology_Eligibility
  imports Complex_Main Metrology_Units Metrology_Schedule
begin

text \<open>
  \<open>src/module/metrologie/domain/metrology-eligibility.ts\<close>: whether an instrument may be used for a measure, and why. The
  messages and the details of the reasons are left out; the date of the use is a day.
\<close>

record metrology_instrument =
  in_id :: nat
  in_code :: "string option"
  in_designation :: "string option"
  in_category :: "string option"
  in_subcategory :: "string option"
  in_legacy_category :: "string option"
  in_state :: equipment_state
  in_criticality :: "string option"
  in_deleted :: bool
  in_unit :: "string option"
  in_min :: "rat option"
  in_max :: "rat option"
  in_resolution :: "rat option"
  in_mpe :: "rat option"
  in_uncertainty :: "rat option"
  in_methods :: "string list"
  in_restrictions :: "string option"
  in_needs_certificate :: bool
  in_plan_id :: "nat option"
  in_plan_version :: "nat option"
  in_strategy :: "string option"
  in_window :: "int option"
  in_next_due :: "string option"
  in_proof_id :: "nat option"
  in_proof_date :: "string option"
  in_proof_verdict :: "string option"
  in_valid_certificate :: bool
  in_certificate_id :: "nat option"

record usage_requirement =
  ur_key :: string
  ur_requires_instrument :: bool
  ur_category :: "string option"
  ur_method :: "string option"
  ur_unit :: "string option"
  ur_nominal :: "rat option"
  ur_min :: "rat option"
  ur_max :: "rat option"
  ur_needs_certificate :: bool

datatype eligibility_code =
    EC_OK | INSTRUMENT_REQUIRED | INSTRUMENT_UNKNOWN | INSTRUMENT_DELETED | INSTRUMENT_RETIRED | INSTRUMENT_QUARANTINE
  | INSTRUMENT_OUT_OF_TOLERANCE | INSTRUMENT_UNDER_REPAIR | INSTRUMENT_NOT_QUALIFIED | INSTRUMENT_OUT_OF_SCOPE
  | INSTRUMENT_METHOD_MISMATCH | INSTRUMENT_UNIT_MISMATCH | INSTRUMENT_UNIT_UNKNOWN | INSTRUMENT_RANGE_MISMATCH
  | INSTRUMENT_RESOLUTION_INSUFFICIENT | INSTRUMENT_UNCERTAINTY_EXCESSIVE | INSTRUMENT_CERTIFICATE_MISSING
  | INSTRUMENT_OVERDUE_CRITICAL | INSTRUMENT_OVERDUE | INSTRUMENT_DUE_SOON | INSTRUMENT_RESTRICTED | OPERATOR_NOT_ALLOWED

datatype eligibility_severity = ES_OK | ES_WARNING | ES_BLOCKING

type_synonym eligibility_reason = "eligibility_code \<times> eligibility_severity"

record eligibility =
  el_eligible :: bool
  el_severity :: eligibility_severity
  el_code :: eligibility_code
  el_reasons :: "eligibility_reason list"
  el_due :: due_evaluation

fun state_blocking_code :: "equipment_state \<Rightarrow> eligibility_code option" where
  "state_blocking_code EQ_QUARANTINE = Some INSTRUMENT_QUARANTINE"
| "state_blocking_code EQ_OUT_OF_TOLERANCE = Some INSTRUMENT_OUT_OF_TOLERANCE"
| "state_blocking_code EQ_UNDER_REPAIR = Some INSTRUMENT_UNDER_REPAIR"
| "state_blocking_code EQ_RETIRED = Some INSTRUMENT_RETIRED"
| "state_blocking_code EQ_DRAFT = Some INSTRUMENT_NOT_QUALIFIED"
| "state_blocking_code EQ_SUSPENDED = Some INSTRUMENT_NOT_QUALIFIED"
| "state_blocking_code EQ_ACTIVE = None"
| "state_blocking_code EQ_QUALIFIED = None"

definition state_reasons :: "metrology_instrument \<Rightarrow> eligibility_reason list" where
  "state_reasons i =
     (case state_blocking_code (in_state i) of
        None \<Rightarrow> [] | Some c \<Rightarrow> if equipment_state_blocks_usage (in_state i) then [(c, ES_BLOCKING)] else [])"

definition folded :: "string \<Rightarrow> string" where
  "folded s = js_lower (js_trim s)"

definition category_candidates :: "metrology_instrument \<Rightarrow> string list" where
  "category_candidates i =
     map folded (concat (map (\<lambda>v. if truthy v then [or_empty v] else []) [in_category i, in_subcategory i, in_legacy_category i]))"

definition scope_reasons :: "usage_requirement \<Rightarrow> metrology_instrument \<Rightarrow> eligibility_reason list" where
  "scope_reasons q i =
     (if truthy (ur_category q) \<and> folded (or_empty (ur_category q)) \<notin> set (category_candidates i)
      then [(INSTRUMENT_OUT_OF_SCOPE, ES_BLOCKING)] else [])"

definition method_reasons :: "usage_requirement \<Rightarrow> metrology_instrument \<Rightarrow> eligibility_reason list" where
  "method_reasons q i =
     (if truthy (ur_method q) \<and> in_methods i \<noteq> [] \<and> folded (or_empty (ur_method q)) \<notin> set (map folded (in_methods i))
      then [(INSTRUMENT_METHOD_MISMATCH, ES_BLOCKING)] else [])"

definition range_targets :: "usage_requirement \<Rightarrow> rat list" where
  "range_targets q = concat (map (\<lambda>v. case v of None \<Rightarrow> [] | Some x \<Rightarrow> [x]) [ur_nominal q, ur_min q, ur_max q])"

definition out_of_range :: "metrology_instrument \<Rightarrow> rat \<Rightarrow> bool" where
  "out_of_range i x \<longleftrightarrow> (case in_min i of None \<Rightarrow> False | Some l \<Rightarrow> x < l) \<or> (case in_max i of None \<Rightarrow> False | Some h \<Rightarrow> h < x)"

definition range_reasons :: "usage_requirement \<Rightarrow> metrology_instrument \<Rightarrow> eligibility_reason list" where
  "range_reasons q i =
     (if range_targets q = [] then []
      else if in_min i = None \<and> in_max i = None then []
      else if \<not> truthy (ur_unit q) \<or> \<not> truthy (in_unit i) then [(INSTRUMENT_UNIT_UNKNOWN, ES_WARNING)]
      else if resolve_unit (ur_unit q) = None \<or> resolve_unit (in_unit i) = None then [(INSTRUMENT_UNIT_UNKNOWN, ES_WARNING)]
      else if \<not> same_dimension (ur_unit q) (in_unit i) then [(INSTRUMENT_UNIT_MISMATCH, ES_BLOCKING)]
      else (let conversions = concat (map (\<lambda>t. case convert_value t (or_empty (ur_unit q)) (or_empty (in_unit i)) of Inl _ \<Rightarrow> [] | Inr x \<Rightarrow> [x]) (range_targets q))
            in if conversions = [] then []
               else if list_ex (out_of_range i) conversions then [(INSTRUMENT_RANGE_MISMATCH, ES_BLOCKING)] else []))"

text \<open>A resolution of at most a tenth of the interval of tolerance, an uncertainty of at most a third.\<close>

definition capability_reasons :: "usage_requirement \<Rightarrow> metrology_instrument \<Rightarrow> eligibility_reason list" where
  "capability_reasons q i =
     (case (ur_min q, ur_max q) of
        (Some lo, Some hi) \<Rightarrow>
          if \<not> truthy (ur_unit q) \<or> \<not> truthy (in_unit i) then []
          else if \<not> same_dimension (ur_unit q) (in_unit i) then []
          else (let span = \<bar>hi - lo\<bar>
                in if span \<le> 0 then []
                   else (case convert_value span (or_empty (ur_unit q)) (or_empty (in_unit i)) of
                           Inl _ \<Rightarrow> []
                         | Inr tolerance \<Rightarrow>
                             if tolerance \<le> 0 then []
                             else (case in_resolution i of None \<Rightarrow> []
                                   | Some r \<Rightarrow> if tolerance / 10 < r then [(INSTRUMENT_RESOLUTION_INSUFFICIENT, ES_WARNING)] else [])
                               @ (case (case in_uncertainty i of Some u \<Rightarrow> Some u | None \<Rightarrow> in_mpe i) of None \<Rightarrow> []
                                  | Some u \<Rightarrow> if tolerance / 3 < u then [(INSTRUMENT_UNCERTAINTY_EXCESSIVE, ES_WARNING)] else [])))
      | _ \<Rightarrow> [])"

definition certificate_reasons :: "usage_requirement \<Rightarrow> metrology_instrument \<Rightarrow> eligibility_reason list" where
  "certificate_reasons q i =
     (if (ur_needs_certificate q \<or> in_needs_certificate i) \<and> \<not> in_valid_certificate i then [(INSTRUMENT_CERTIFICATE_MISSING, ES_BLOCKING)] else [])"

definition critical_instrument :: "metrology_instrument \<Rightarrow> bool" where
  "critical_instrument i \<longleftrightarrow> js_upper (or_empty (in_criticality i)) = ''CRITIQUE''"

definition schedule_reasons :: "bool \<Rightarrow> metrology_instrument \<Rightarrow> due_evaluation \<Rightarrow> eligibility_reason list" where
  "schedule_reasons block_critical i due =
     (if du_status due = DUE_SOON then [(INSTRUMENT_DUE_SOON, ES_WARNING)]
      else if du_status due \<noteq> DUE_OVERDUE then []
      else (let critical = critical_instrument i;
                strategy = (case in_strategy i of None \<Rightarrow> ''WARN'' | Some s \<Rightarrow> s);
                blocking = (strategy = ''BLOCK'' \<or> (critical \<and> block_critical))
            in if strategy = ''NONE'' \<and> \<not> (critical \<and> block_critical) then [(INSTRUMENT_OVERDUE, ES_WARNING)]
               else [(if critical then INSTRUMENT_OVERDUE_CRITICAL else INSTRUMENT_OVERDUE, if blocking then ES_BLOCKING else ES_WARNING)]))"

definition restriction_reasons :: "metrology_instrument \<Rightarrow> eligibility_reason list" where
  "restriction_reasons i = (if js_trim (or_empty (in_restrictions i)) \<noteq> [] then [(INSTRUMENT_RESTRICTED, ES_WARNING)] else [])"

definition decide_eligibility :: "eligibility_reason list \<Rightarrow> due_evaluation \<Rightarrow> eligibility" where
  "decide_eligibility rs due =
     (case find (\<lambda>r. snd r = ES_BLOCKING) rs of
        Some r \<Rightarrow> \<lparr>el_eligible = False, el_severity = ES_BLOCKING, el_code = fst r, el_reasons = rs, el_due = due\<rparr>
      | None \<Rightarrow>
          (case find (\<lambda>r. snd r = ES_WARNING) rs of
             Some r \<Rightarrow> \<lparr>el_eligible = True, el_severity = ES_WARNING, el_code = fst r, el_reasons = rs, el_due = due\<rparr>
           | None \<Rightarrow> \<lparr>el_eligible = True, el_severity = ES_OK, el_code = EC_OK, el_reasons = rs, el_due = due\<rparr>))"

definition empty_due :: due_evaluation where
  "empty_due = \<lparr>du_status = DUE_UNKNOWN, du_next = None, du_remaining = None, du_overdue = 0\<rparr>"

definition evaluate_instrument_eligibility ::
  "usage_requirement \<Rightarrow> metrology_instrument option \<Rightarrow> int \<Rightarrow> bool \<Rightarrow> bool option \<Rightarrow> eligibility" where
  "evaluate_instrument_eligibility q instrument today block_critical may_record =
     (if \<not> ur_requires_instrument q
      then \<lparr>el_eligible = True, el_severity = ES_OK, el_code = EC_OK, el_reasons = [], el_due = empty_due\<rparr>
      else if may_record = Some False then decide_eligibility [(OPERATOR_NOT_ALLOWED, ES_BLOCKING)] empty_due
      else case instrument of
        None \<Rightarrow> decide_eligibility [(INSTRUMENT_REQUIRED, ES_BLOCKING)] empty_due
      | Some i \<Rightarrow>
          if in_deleted i then decide_eligibility [(INSTRUMENT_DELETED, ES_BLOCKING)] empty_due
          else (let due = evaluate_due (in_next_due i) (case in_window i of None \<Rightarrow> 30 | Some w \<Rightarrow> w) today
                in decide_eligibility
                     (state_reasons i @ scope_reasons q i @ method_reasons q i @ range_reasons q i @ capability_reasons q i
                      @ certificate_reasons q i @ schedule_reasons block_critical i due @ restriction_reasons i) due))"

section \<open>When an instrument may be used\<close>

definition blocking :: "eligibility_reason list \<Rightarrow> bool" where
  "blocking rs \<longleftrightarrow> list_ex (\<lambda>r. snd r = ES_BLOCKING) rs"

lemma blocking_append [simp]: "blocking (a @ b) \<longleftrightarrow> blocking a \<or> blocking b"
  by (simp add: blocking_def)

lemma blocking_list [simp]: "\<not> blocking []" "blocking (r # rs) \<longleftrightarrow> snd r = ES_BLOCKING \<or> blocking rs"
  by (simp_all add: blocking_def)

lemma decided: "el_eligible (decide_eligibility rs due) \<longleftrightarrow> \<not> blocking rs"
  by (auto simp: decide_eligibility_def blocking_def list_ex_iff find_None_iff dest!: find_Some_iff [THEN iffD1] split: option.splits)

definition range_fits :: "usage_requirement \<Rightarrow> metrology_instrument \<Rightarrow> bool" where
  "range_fits q i \<longleftrightarrow> list_all (\<lambda>t. case convert_value t (or_empty (ur_unit q)) (or_empty (in_unit i)) of Inl _ \<Rightarrow> False | Inr x \<Rightarrow> \<not> out_of_range i x) (range_targets q)"

definition range_checked :: "usage_requirement \<Rightarrow> metrology_instrument \<Rightarrow> bool" where
  "range_checked q i \<longleftrightarrow> (in_min i \<noteq> None \<or> in_max i \<noteq> None) \<and> is_known_unit (ur_unit q) \<and> is_known_unit (in_unit i)"

definition overdue_blocks :: "bool \<Rightarrow> metrology_instrument \<Rightarrow> bool" where
  "overdue_blocks block_critical i \<longleftrightarrow> in_strategy i = Some ''BLOCK'' \<or> (block_critical \<and> critical_instrument i)"

definition usable_instrument :: "usage_requirement \<Rightarrow> int \<Rightarrow> bool \<Rightarrow> metrology_instrument \<Rightarrow> bool" where
  "usable_instrument q today block_critical i \<longleftrightarrow> \<not> in_deleted i \<and> in_state i \<in> {EQ_ACTIVE, EQ_QUALIFIED}
     \<and> (if truthy (ur_category q) then folded (or_empty (ur_category q)) \<in> set (category_candidates i) else True)
     \<and> (if truthy (ur_method q) \<and> in_methods i \<noteq> [] then folded (or_empty (ur_method q)) \<in> set (map folded (in_methods i)) else True)
     \<and> (if range_checked q i then range_fits q i else True)
     \<and> (if ur_needs_certificate q \<or> in_needs_certificate i then in_valid_certificate i else True)
     \<and> \<not> ((case parse_iso_date (in_next_due i) of None \<Rightarrow> False | Some d \<Rightarrow> d < today) \<and> overdue_blocks block_critical i)"

lemma blocking_state: "blocking (state_reasons i) \<longleftrightarrow> in_state i \<notin> {EQ_ACTIVE, EQ_QUALIFIED}"
  by (cases "in_state i") (simp_all add: state_reasons_def equipment_state_blocks_usage_def)

lemma known_unit_truthy: "is_known_unit u \<Longrightarrow> truthy u"
  by (auto simp: is_known_unit_def resolve_unit_def split: if_splits)

lemma known_units:
  "is_known_unit a \<Longrightarrow> is_known_unit b \<Longrightarrow> same_dimension a b \<longleftrightarrow> (\<exists>x. convert_value t (or_empty a) (or_empty b) = Inr x)"
  by (auto simp: is_known_unit_def resolve_unit_def same_dimension_def convert_value_def split: if_splits option.splits)

lemma blocking_range: "blocking (range_reasons q i) \<longleftrightarrow> range_checked q i \<and> \<not> range_fits q i"
proof (cases "range_checked q i")
  case False
  then show ?thesis by (auto simp: range_reasons_def range_checked_def is_known_unit_def)
next
  case True
  then have k: "is_known_unit (ur_unit q)" "is_known_unit (in_unit i)" "\<not> (in_min i = None \<and> in_max i = None)" by (auto simp: range_checked_def)
  note t = known_unit_truthy [OF k(1)] known_unit_truthy [OF k(2)]
  let ?cv = "\<lambda>t. convert_value t (or_empty (ur_unit q)) (or_empty (in_unit i))"
  show ?thesis
  proof (cases "range_targets q = []")
    case True
    then show ?thesis by (simp add: range_reasons_def range_fits_def)
  next
    case targets: False
    show ?thesis
    proof (cases "same_dimension (ur_unit q) (in_unit i)")
      case True
      have "\<exists>x. ?cv t = Inr x" for t using known_units [OF k(1,2)] True by blast
      then obtain f where f: "\<And>t. ?cv t = Inr (f t)" by metis
      then have "blocking (range_reasons q i) \<longleftrightarrow> list_ex (out_of_range i) (map f (range_targets q))"
        using k t targets True by (auto simp: range_reasons_def is_known_unit_def concat_map_singleton)
      also have "\<dots> \<longleftrightarrow> \<not> range_fits q i" by (auto simp: range_fits_def f list_ex_iff list_all_iff)
      finally show ?thesis using \<open>range_checked q i\<close> by simp
    next
      case False
      obtain t0 ts where "range_targets q = t0 # ts" using targets by (cases "range_targets q") auto
      moreover have "\<exists>e. ?cv t0 = Inl e" using known_units [OF k(1,2), of t0] False by (cases "?cv t0") auto
      ultimately have "\<not> range_fits q i" by (auto simp: range_fits_def)
      then show ?thesis using k t targets False \<open>range_checked q i\<close> by (auto simp: range_reasons_def is_known_unit_def)
    qed
  qed
qed

lemma not_blocking_capability: "\<not> blocking (capability_reasons q i)"
  by (auto simp: capability_reasons_def Let_def split: option.splits sum.splits)

lemma blocking_schedule: "blocking (schedule_reasons b i due) \<longleftrightarrow> du_status due = DUE_OVERDUE \<and> overdue_blocks b i"
  by (auto simp: schedule_reasons_def overdue_blocks_def Let_def split: option.splits)

lemma overdue_iff: "du_status (evaluate_due v w today) = DUE_OVERDUE \<longleftrightarrow> (case parse_iso_date v of None \<Rightarrow> False | Some d \<Rightarrow> d < today)"
  by (auto simp: evaluate_due_def days_between_def Let_def split: option.splits)

text \<open>C39: An instrument may be used exactly when nothing speaks against it: a measure that asks for no instrument needs none;
  otherwise the operator is allowed to record, and the instrument is named, in the register, in service, of
  the category asked for, declared for the method when it declares any, wide enough for every value of the
  characteristic once converted, covered by a certificate where one is asked for, and not past its due date
  unless neither its plan nor the setting for critical instruments blocks. Resolution, uncertainty, restrictions,
  unknown units and a near due date are told and never block.\<close>

theorem instrument_usable_iff:
  "el_eligible (evaluate_instrument_eligibility q instrument today block_critical may_record) \<longleftrightarrow>
     (if ur_requires_instrument q
      then may_record \<noteq> Some False \<and> (case instrument of None \<Rightarrow> False | Some i \<Rightarrow> usable_instrument q today block_critical i)
      else True)"
proof (cases "ur_requires_instrument q \<and> may_record \<noteq> Some False")
  case True
  show ?thesis
  proof (cases instrument)
    case (Some i)
    have r: "blocking (scope_reasons q i) \<longleftrightarrow> truthy (ur_category q) \<and> folded (or_empty (ur_category q)) \<notin> set (category_candidates i)"
      "blocking (method_reasons q i) \<longleftrightarrow> truthy (ur_method q) \<and> in_methods i \<noteq> [] \<and> folded (or_empty (ur_method q)) \<notin> set (map folded (in_methods i))"
      "blocking (certificate_reasons q i) \<longleftrightarrow> (ur_needs_certificate q \<or> in_needs_certificate i) \<and> \<not> in_valid_certificate i"
      "\<not> blocking (restriction_reasons i)"
      by (simp_all add: scope_reasons_def method_reasons_def certificate_reasons_def restriction_reasons_def)
    show ?thesis using True Some
      by (simp add: evaluate_instrument_eligibility_def Let_def decided blocking_state r blocking_range not_blocking_capability
        blocking_schedule overdue_iff usable_instrument_def)
  qed (use True in \<open>simp add: evaluate_instrument_eligibility_def decided\<close>)
qed (auto simp: evaluate_instrument_eligibility_def decided)

section \<open>The snapshot kept with a measure\<close>

record instrument_snapshot =
  sn_instrument :: nat
  sn_code :: "string option"
  sn_designation :: "string option"
  sn_category :: "string option"
  sn_state :: equipment_state
  sn_criticality :: "string option"
  sn_eligibility_code :: eligibility_code
  sn_eligibility_severity :: eligibility_severity
  sn_eligible :: bool
  sn_plan_id :: "nat option"
  sn_plan_version :: "nat option"
  sn_next_due :: "string option"
  sn_days_overdue :: int
  sn_proof_id :: "nat option"
  sn_proof_date :: "string option"
  sn_proof_verdict :: "string option"
  sn_certificate :: "nat option"
  sn_unit :: "string option"
  sn_min :: "rat option"
  sn_max :: "rat option"
  sn_resolution :: "rat option"
  sn_mpe :: "rat option"
  sn_uncertainty :: "rat option"
  sn_used_at :: int
  sn_reasons :: "eligibility_reason list"

definition build_instrument_snapshot :: "metrology_instrument \<Rightarrow> eligibility \<Rightarrow> int \<Rightarrow> instrument_snapshot" where
  "build_instrument_snapshot i e at' =
     \<lparr>sn_instrument = in_id i, sn_code = in_code i, sn_designation = in_designation i,
      sn_category = (case in_category i of None \<Rightarrow> in_legacy_category i | Some c \<Rightarrow> Some c), sn_state = in_state i,
      sn_criticality = in_criticality i, sn_eligibility_code = el_code e, sn_eligibility_severity = el_severity e,
      sn_eligible = el_eligible e, sn_plan_id = in_plan_id i, sn_plan_version = in_plan_version i, sn_next_due = in_next_due i,
      sn_days_overdue = du_overdue (el_due e), sn_proof_id = in_proof_id i, sn_proof_date = in_proof_date i,
      sn_proof_verdict = in_proof_verdict i, sn_certificate = in_certificate_id i, sn_unit = in_unit i, sn_min = in_min i,
      sn_max = in_max i, sn_resolution = in_resolution i, sn_mpe = in_mpe i, sn_uncertainty = in_uncertainty i, sn_used_at = at',
      sn_reasons = el_reasons e\<rparr>"

text \<open>A tolerance of two kelvins read on an instrument in degrees: neither rule is checked, however coarse the instrument.\<close>

lemma kelvin_tolerance_unchecked:
  assumes "ur_unit q = Some ''K''" "in_unit i = Some (DEGREE @ ''C'')" "ur_min q = Some 290" "ur_max q = Some 292"
  shows "capability_reasons q i = []"
  using assms kelvin_interval by (simp add: capability_reasons_def Let_def)

end
