(* ===== verification/Metrology_Verdict.thy ===== *)
theory Metrology_Verdict
  imports Complex_Main Metrology_Units Metrology_Policy
begin

text \<open>
  \<open>src/module/metrologie/domain/metrology-verdict.ts\<close>: the verdict of a point of measure and of an execution. The texts of the
  reasons and of the explanation are left out; values are finite and exact.
\<close>

record measurement_input =
  mi_point :: string
  mi_sample :: nat
  mi_nominal :: "rat option"
  mi_min :: "rat option"
  mi_max :: "rat option"
  mi_measured :: "rat option"
  mi_unit :: "string option"
  mi_uncertainty :: "rat option"

record plan_criteria =
  pc_min :: "rat option"
  pc_max :: "rat option"
  pc_unit :: "string option"
  pc_min_points :: "rat option"

datatype point_verdict = PV_CONFORME | PV_NON_CONFORME | PV_INCONCLU

record measurement_verdict =
  mv_point :: string
  mv_sample :: nat
  mv_verdict :: point_verdict
  mv_gap :: "rat option"

text \<open>To a millionth, halves upwards.\<close>

definition round6 :: "rat \<Rightarrow> rat" where
  "round6 v = of_int \<lfloor>v * 1000000 + 1 / 2\<rfloor> / 1000000"

text \<open>The bounds of the point, else those of the plan in the unit of the point; nothing when the units differ in kind.\<close>

definition converted :: "rat option \<Rightarrow> string \<Rightarrow> string \<Rightarrow> (conversion_failure + rat) option" where
  "converted v from target = map_option (\<lambda>x. convert_value x from target) v"

definition conversion_failed :: "(conversion_failure + rat) option \<Rightarrow> bool" where
  "conversion_failed c = (case c of Some (Inl _) \<Rightarrow> True | _ \<Rightarrow> False)"

definition rounded :: "(conversion_failure + rat) option \<Rightarrow> rat option" where
  "rounded c = (case c of Some (Inr x) \<Rightarrow> Some (round6 x) | _ \<Rightarrow> None)"

definition resolve_bounds :: "measurement_input \<Rightarrow> plan_criteria \<Rightarrow> (rat option \<times> rat option) option" where
  "resolve_bounds m c =
     (if mi_min m \<noteq> None \<or> mi_max m \<noteq> None then Some (mi_min m, mi_max m)
      else if pc_min c = None \<and> pc_max c = None then Some (None, None)
      else if \<not> truthy (pc_unit c) \<or> \<not> truthy (mi_unit m)
           \<or> js_lower (js_trim (or_empty (pc_unit c))) = js_lower (js_trim (or_empty (mi_unit m)))
      then Some (pc_min c, pc_max c)
      else if \<not> same_dimension (pc_unit c) (mi_unit m) then None
      else (let lo = converted (pc_min c) (or_empty (pc_unit c)) (or_empty (mi_unit m));
                hi = converted (pc_max c) (or_empty (pc_unit c)) (or_empty (mi_unit m))
            in if conversion_failed lo \<or> conversion_failed hi then None else Some (rounded lo, rounded hi)))"

definition evaluate_measurement :: "measurement_input \<Rightarrow> plan_criteria \<Rightarrow> measurement_verdict" where
  "evaluate_measurement m c =
     (let v = (\<lambda>r gap. \<lparr>mv_point = mi_point m, mv_sample = mi_sample m, mv_verdict = r, mv_gap = gap\<rparr>)
      in case mi_measured m of None \<Rightarrow> v PV_INCONCLU None
         | Some x \<Rightarrow>
            (case resolve_bounds m c of None \<Rightarrow> v PV_INCONCLU None
             | Some (lo, hi) \<Rightarrow>
                (let gap = map_option (\<lambda>n. round6 (x - n)) (mi_nominal m)
                 in if lo = None \<and> hi = None then v PV_INCONCLU gap
                    else if (case lo of None \<Rightarrow> False | Some l \<Rightarrow> x < l) then v PV_NON_CONFORME gap
                    else if (case hi of None \<Rightarrow> False | Some h \<Rightarrow> h < x) then v PV_NON_CONFORME gap
                    else v PV_CONFORME gap)))"

record verdict_counts =
  vc_total :: nat
  vc_conforme :: nat
  vc_non_conforme :: nat
  vc_inconclu :: nat

record verdict_computation =
  vx_verdict :: metrology_verdict
  vx_points :: "measurement_verdict list"
  vx_counts :: verdict_counts

definition count_verdict :: "point_verdict \<Rightarrow> measurement_verdict list \<Rightarrow> nat" where
  "count_verdict v ps = length (filter (\<lambda>p. mv_verdict p = v) ps)"

definition compute_execution_verdict :: "measurement_input list \<Rightarrow> plan_criteria \<Rightarrow> verdict_computation" where
  "compute_execution_verdict ms c =
     (let points = map (\<lambda>m. evaluate_measurement m c) ms;
          counts = \<lparr>vc_total = length points, vc_conforme = count_verdict PV_CONFORME points,
            vc_non_conforme = count_verdict PV_NON_CONFORME points, vc_inconclu = count_verdict PV_INCONCLU points\<rparr>;
          out = (\<lambda>v. \<lparr>vx_verdict = v, vx_points = points, vx_counts = counts\<rparr>)
      in if points = [] then out MV_INCONCLU
         else if (case pc_min_points c of None \<Rightarrow> False | Some k \<Rightarrow> of_nat (length points) < k) then out MV_INCONCLU
         else if 0 < vc_non_conforme counts then out MV_NON_CONFORME
         else if 0 < vc_inconclu counts then out MV_INCONCLU
         else out MV_CONFORME)"

section \<open>What a verdict says\<close>

text \<open>The limits as they are written: the point's own, or the plan's converted exactly.\<close>

definition exact_limit :: "measurement_input \<Rightarrow> plan_criteria \<Rightarrow> rat option \<Rightarrow> rat option \<Rightarrow> rat option" where
  "exact_limit m c own plan =
     (if mi_min m \<noteq> None \<or> mi_max m \<noteq> None then own
      else if \<not> truthy (pc_unit c) \<or> \<not> truthy (mi_unit m)
           \<or> js_lower (js_trim (or_empty (pc_unit c))) = js_lower (js_trim (or_empty (mi_unit m))) then plan
      else (case plan of None \<Rightarrow> None
            | Some v \<Rightarrow> (case convert_value v (or_empty (pc_unit c)) (or_empty (mi_unit m)) of Inl _ \<Rightarrow> None | Inr x \<Rightarrow> Some x)))"

definition inside_limits :: "rat \<Rightarrow> measurement_input \<Rightarrow> plan_criteria \<Rightarrow> bool" where
  "inside_limits slack m c \<longleftrightarrow> (case mi_measured m of None \<Rightarrow> False | Some x \<Rightarrow>
     (case exact_limit m c (mi_min m) (pc_min c) of None \<Rightarrow> True | Some l \<Rightarrow> l - slack \<le> x)
     \<and> (case exact_limit m c (mi_max m) (pc_max c) of None \<Rightarrow> True | Some h \<Rightarrow> x \<le> h + slack)
     \<and> (exact_limit m c (mi_min m) (pc_min c) \<noteq> None \<or> exact_limit m c (mi_max m) (pc_max c) \<noteq> None))"

lemma round6_near: "v - 1 / 2000000 \<le> round6 v" "round6 v \<le> v + 1 / 2000000"
proof -
  define f where "f = \<lfloor>v * 1000000 + 1 / 2\<rfloor>"
  have "of_int f \<le> v * 1000000 + 1 / 2" "v * 1000000 + 1 / 2 < of_int f + 1" unfolding f_def by linarith+
  then show "v - 1 / 2000000 \<le> round6 v" "round6 v \<le> v + 1 / 2000000" unfolding round6_def f_def [symmetric] by (simp_all add: field_simps)
qed

text \<open>The bounds used are the limits written, to half a millionth.\<close>

definition near_limit :: "rat option \<Rightarrow> rat option \<Rightarrow> bool" where
  "near_limit used exact \<longleftrightarrow> (case (used, exact) of (None, None) \<Rightarrow> True
     | (Some u, Some e) \<Rightarrow> e - 1 / 2000000 \<le> u \<and> u \<le> e + 1 / 2000000 | _ \<Rightarrow> False)"

lemma near_limit_simps [simp]:
  "near_limit None e \<longleftrightarrow> e = None" "near_limit (Some u) e \<longleftrightarrow> (\<exists>x. e = Some x \<and> x - 1 / 2000000 \<le> u \<and> u \<le> x + 1 / 2000000)"
  by (auto simp: near_limit_def split: option.splits)

lemma near_limit_same [simp]: "near_limit l l"
  by (cases l) simp_all

lemma resolved_near:
  assumes "resolve_bounds m c = Some (lo, hi)"
  shows "near_limit lo (exact_limit m c (mi_min m) (pc_min c)) \<and> near_limit hi (exact_limit m c (mi_max m) (pc_max c))"
proof (cases "mi_min m \<noteq> None \<or> mi_max m \<noteq> None")
  case True
  then show ?thesis using assms by (simp add: resolve_bounds_def exact_limit_def)
next
  case own: False
  show ?thesis
  proof (cases "\<not> truthy (pc_unit c) \<or> \<not> truthy (mi_unit m) \<or> js_lower (js_trim (or_empty (pc_unit c))) = js_lower (js_trim (or_empty (mi_unit m)))")
    case True
    then show ?thesis using assms own by (auto simp: resolve_bounds_def exact_limit_def split: if_splits)
  next
    case unit: False
    let ?cv = "\<lambda>v. converted v (or_empty (pc_unit c)) (or_empty (mi_unit m))"
    have e: "exact_limit m c own_limit plan = (case ?cv plan of Some (Inr x) \<Rightarrow> Some x | _ \<Rightarrow> None)" if "own_limit = None" for own_limit plan
      using own unit by (auto simp: exact_limit_def converted_def split: option.splits sum.splits)
    show ?thesis
    proof (cases "pc_min c = None \<and> pc_max c = None")
      case True
      then show ?thesis using assms own e by (simp add: resolve_bounds_def converted_def)
    next
      case False
      have r: "lo = rounded (?cv (pc_min c))" "hi = rounded (?cv (pc_max c))" "\<not> conversion_failed (?cv (pc_min c))" "\<not> conversion_failed (?cv (pc_max c))"
        using assms own unit False unfolding resolve_bounds_def Let_def by (simp_all split: if_splits)
      have "near_limit (rounded v) (case v of Some (Inr x) \<Rightarrow> Some x | _ \<Rightarrow> None)" for v
        using round6_near by (auto simp: rounded_def split: option.splits sum.splits)
      then show ?thesis using own by (simp add: r(1,2) e)
    qed
  qed
qed

lemma conforme_within: "mv_verdict (evaluate_measurement m c) = PV_CONFORME \<Longrightarrow> inside_limits (1 / 2000000) m c"
proof -
  assume v: "mv_verdict (evaluate_measurement m c) = PV_CONFORME"
  obtain x where x: "mi_measured m = Some x" using v by (cases "mi_measured m") (simp_all add: evaluate_measurement_def)
  obtain lo hi where b: "resolve_bounds m c = Some (lo, hi)" using v x by (cases "resolve_bounds m c") (auto simp: evaluate_measurement_def)
  have "lo \<noteq> None \<or> hi \<noteq> None" "case lo of None \<Rightarrow> True | Some l \<Rightarrow> l \<le> x" "case hi of None \<Rightarrow> True | Some h \<Rightarrow> x \<le> h"
    using v x b by (auto simp: evaluate_measurement_def Let_def not_less split: if_splits option.splits)
  then show ?thesis using resolved_near [OF b] x by (auto simp: inside_limits_def near_limit_def split: option.splits)
qed

lemma non_conforme_outside: "mv_verdict (evaluate_measurement m c) = PV_NON_CONFORME \<Longrightarrow> \<not> inside_limits (- 1 / 2000000) m c"
proof -
  assume v: "mv_verdict (evaluate_measurement m c) = PV_NON_CONFORME"
  obtain x where x: "mi_measured m = Some x" using v by (cases "mi_measured m") (simp_all add: evaluate_measurement_def)
  obtain lo hi where b: "resolve_bounds m c = Some (lo, hi)" using v x by (cases "resolve_bounds m c") (auto simp: evaluate_measurement_def)
  have "(case lo of None \<Rightarrow> False | Some l \<Rightarrow> x < l) \<or> (case hi of None \<Rightarrow> False | Some h \<Rightarrow> h < x)"
    using v x b by (auto simp: evaluate_measurement_def Let_def split: if_splits option.splits)
  then show ?thesis using resolved_near [OF b] x by (auto simp: inside_limits_def near_limit_def split: option.splits)
qed

lemma count_verdict_pos: "0 < count_verdict v ps \<longleftrightarrow> list_ex (\<lambda>p. mv_verdict p = v) ps"
  by (auto simp: count_verdict_def list_ex_iff filter_empty_conv)

definition enough_points :: "measurement_input list \<Rightarrow> plan_criteria \<Rightarrow> bool" where
  "enough_points ms c \<longleftrightarrow> ms \<noteq> [] \<and> (case pc_min_points c of None \<Rightarrow> True | Some k \<Rightarrow> k \<le> of_nat (length ms))"

lemma execution_verdict:
  "vx_verdict (compute_execution_verdict ms c) =
     (if \<not> enough_points ms c then MV_INCONCLU
      else if list_ex (\<lambda>m. mv_verdict (evaluate_measurement m c) = PV_NON_CONFORME) ms then MV_NON_CONFORME
      else if list_ex (\<lambda>m. mv_verdict (evaluate_measurement m c) = PV_INCONCLU) ms then MV_INCONCLU
      else MV_CONFORME)"
  by (auto simp: compute_execution_verdict_def Let_def enough_points_def count_verdict_pos list_ex_iff not_le split: option.splits)

text \<open>C38: A verdict says what the measurements say. An execution is found conform only with all the points its procedure
  asks for, every one of them measured and inside its limits, those of the plan being converted to the unit of
  the point and trusted to half a millionth of that unit; it is found not conform only when the points are all
  there and one of them is not inside its limits drawn in by half a millionth; a restriction is never computed.\<close>

theorem verdict_says_what_was_measured:
  "case vx_verdict (compute_execution_verdict ms c) of
     MV_CONFORME \<Rightarrow> enough_points ms c \<and> list_all (\<lambda>m. inside_limits (1 / 2000000) m c) ms
   | MV_NON_CONFORME \<Rightarrow> enough_points ms c \<and> list_ex (\<lambda>m. \<not> inside_limits (- 1 / 2000000) m c) ms
   | MV_CONFORME_AVEC_RESTRICTION \<Rightarrow> False
   | MV_INCONCLU \<Rightarrow> (if enough_points ms c then list_ex (\<lambda>m. mv_verdict (evaluate_measurement m c) = PV_INCONCLU) ms else True)"
proof -
  have all: "list_all (\<lambda>m. inside_limits (1 / 2000000) m c) ms"
    if "\<not> list_ex (\<lambda>m. mv_verdict (evaluate_measurement m c) = PV_NON_CONFORME) ms" "\<not> list_ex (\<lambda>m. mv_verdict (evaluate_measurement m c) = PV_INCONCLU) ms"
    unfolding list_all_iff
  proof
    fix m assume "m \<in> set ms"
    then have "mv_verdict (evaluate_measurement m c) = PV_CONFORME"
      using that by (cases "mv_verdict (evaluate_measurement m c)") (auto simp: list_ex_iff)
    then show "inside_limits (1 / 2000000) m c" by (rule conforme_within)
  qed
  have some: "list_ex (\<lambda>m. \<not> inside_limits (- 1 / 2000000) m c) ms" if "list_ex (\<lambda>m. mv_verdict (evaluate_measurement m c) = PV_NON_CONFORME) ms"
    using that non_conforme_outside unfolding list_ex_iff by blast
  show ?thesis unfolding execution_verdict using all some by simp
qed

end
