(* ===== verification/Metrology_Service.thy ===== *)
theory Metrology_Service
  imports Complex_Main Metrology_Verdict Metrology_Schedule
begin

text \<open>
  The requests on the measuring instruments: \<open>src/module/metrologie/repository/metrology-execution.repository.ts\<close>,
  \<open>metrology-registry.repository.ts\<close> (states and plans), \<open>metrology-impact.repository.ts\<close>,
  \<open>metrology-shared.repository.ts\<close> (idempotency), \<open>domain/metrology-impact.ts\<close> and the trigger that protects the
  measurements. A request is one transaction: it returns the new tables or an error that leaves them as they
  were. Instants are milliseconds and dates their text. The reading of a date, the hashes, the number of valid
  certificates of an execution and the uses of an instrument in a window are arguments. The journal, the
  audit and the codes are left out, and so are the refusals of a request by its schema (a plan is for a calibration or
  a verification, a list of measurements is not empty, a period is positive).
\<close>

section \<open>The window of an impact analysis\<close>

definition MS_IN_DAY :: int where "MS_IN_DAY = 24 * 60 * 60 * 1000"
definition MAX_WINDOW_DAYS :: int where "MAX_WINDOW_DAYS = 1826"
definition IMPACT_ITEM_HARD_LIMIT :: nat where "IMPACT_ITEM_HARD_LIMIT = 2000"

datatype impact_source = LAST_CONFORME_PROOF | APPROVED_WINDOW | EQUIPMENT_CREATION

record impact_window =
  iw_from :: int
  iw_to :: int
  iw_source :: impact_source
  iw_span :: int

definition span_days :: "int \<Rightarrow> int \<Rightarrow> int" where
  "span_days from until = max 0 (- ((from - until) div MS_IN_DAY))"

definition bounded_window :: "int \<Rightarrow> int \<Rightarrow> impact_source \<Rightarrow> impact_window result" where
  "bounded_window from until src =
     (let span = span_days from until
      in if MAX_WINDOW_DAYS < span then Inl (HttpError 422 ''METROLOGY_IMPACT_WINDOW_TOO_WIDE'')
         else Inr \<lparr>iw_from = from, iw_to = until, iw_source = src, iw_span = span\<rparr>)"

definition compute_impact_window :: "int \<Rightarrow> int option \<Rightarrow> int \<Rightarrow> (int \<times> int \<times> string option) option \<Rightarrow> impact_window result" where
  "compute_impact_window event proof_at created approved =
     (case approved of
        Some (from, until, reason) \<Rightarrow>
          if until < from then Inl (HttpError 422 ''METROLOGY_IMPACT_WINDOW_INVALID'')
          else if reason_length reason < 20 then Inl (HttpError 422 ''METROLOGY_IMPACT_WINDOW_JUSTIFICATION_REQUIRED'')
          else bounded_window from until APPROVED_WINDOW
      | None \<Rightarrow>
          (case proof_at of
             Some p \<Rightarrow> if p \<le> event then bounded_window p event LAST_CONFORME_PROOF
                       else bounded_window (if created \<le> event then created else event) event EQUIPMENT_CREATION
           | None \<Rightarrow> bounded_window (if created \<le> event then created else event) event EQUIPMENT_CREATION))"

datatype impact_priority = IP_LOW | IP_NORMAL | IP_HIGH | IP_CRITICAL

record impact_volumes =
  iv_controls :: nat
  iv_work_orders :: nat
  iv_lots :: nat
  iv_deliveries :: nat
  iv_truncated :: bool

definition suggest_impact_priority :: "impact_volumes \<Rightarrow> string option \<Rightarrow> impact_priority" where
  "suggest_impact_priority v criticality =
     (let critical = (js_upper (or_empty criticality) = ''CRITIQUE'')
      in if 0 < iv_deliveries v then (if critical then IP_CRITICAL else IP_HIGH)
         else if critical \<and> 0 < iv_controls v then IP_HIGH
         else if iv_controls v = 0 then IP_LOW
         else if 50 < iv_controls v \<or> 10 < iv_lots v then IP_HIGH
         else IP_NORMAL)"

record usage_row =
  us_control :: nat
  us_characteristic :: "string option"
  us_of :: "nat option"
  us_lot :: "nat option"
  us_bl :: "nat option"

definition present :: "nat option list \<Rightarrow> nat list" where
  "present xs = remdups (concat (map (\<lambda>v. case v of None \<Rightarrow> [] | Some x \<Rightarrow> [x]) xs))"

definition compute_volumes :: "usage_row list \<Rightarrow> nat \<Rightarrow> impact_volumes" where
  "compute_volumes rows n =
     \<lparr>iv_controls = length (remdups (map us_control rows)), iv_work_orders = length (present (map us_of rows)),
      iv_lots = length (present (map us_lot rows)), iv_deliveries = length (present (map us_bl rows)), iv_truncated = length rows < n\<rparr>"

section \<open>Tables\<close>

record equipment_row =
  eq_id :: nat
  eq_state :: equipment_state
  eq_deleted :: bool
  eq_criticality :: "string option"
  eq_created :: int
  eq_commissioned :: "string option"
  eq_last_proof :: "nat option"
  eq_last_proof_at :: "int option"
  eq_reason :: "string option"
  eq_quarantine :: "(string option \<times> int) option"
  eq_updated :: int

record metrology_plan_row =
  mp_id :: nat
  mp_equipment :: nat
  mp_version :: nat
  mp_status :: metrology_plan_status
  mp_operation :: metrology_operation
  mp_criteria :: plan_criteria
  mp_schedule :: schedule_plan
  mp_needs_certificate :: bool
  mp_proof :: "nat option"
  mp_proof_date :: "string option"
  mp_next_due :: "string option"
  mp_updated :: int

datatype execution_decision = REMISE_EN_SERVICE | QUARANTAINE | AJUSTAGE_REQUIS | REPARATION_REQUISE | RETRAIT

record execution_row =
  ex_id :: nat
  ex_equipment :: nat
  ex_plan :: "nat option"
  ex_operation :: metrology_operation
  ex_status :: metrology_execution_status
  ex_operator :: "nat option"
  ex_started :: int
  ex_ended :: "int option"
  ex_computed :: "metrology_verdict option"
  ex_verdict :: "metrology_verdict option"
  ex_decision :: "execution_decision option"
  ex_next_due :: "string option"
  ex_updated :: int

record measurement_row =
  me_execution :: nat
  me_input :: measurement_input
  me_revision :: nat
  me_verdict :: "point_verdict option"
  me_gap :: "rat option"

record dossier_impact =
  im_id :: nat
  im_equipment :: nat
  im_execution :: "nat option"
  im_status :: impact_status
  im_window :: impact_window
  im_priority :: impact_priority
  im_volumes :: impact_volumes
  im_updated :: int

record impact_item =
  ii_id :: nat
  ii_dossier :: nat
  ii_usage :: usage_row
  ii_decision :: impact_decision

datatype legacy_status = LS_EN_COURS | LS_HORS_TOLERANCE

record legacy_plan =
  lp_equipment :: nat
  lp_months :: int
  lp_last_done :: "string option"
  lp_next_due :: "string option"
  lp_status :: legacy_status

record metrology_db =
  mb_equipment :: "equipment_row list"
  mb_plans :: "metrology_plan_row list"
  mb_executions :: "execution_row list"
  mb_measurements :: "measurement_row list"
  mb_dossiers :: "dossier_impact list"
  mb_items :: "impact_item list"
  mb_legacy :: "legacy_plan list"
  mb_receipts :: "(nat \<times> string \<times> string) list"
  mb_next :: nat

record preview =
  pr_execution :: nat
  pr_computation :: verdict_computation
  pr_schedule :: schedule_result

record metrology_env =
  mt_now :: int
  mt_actor :: nat
  mt_role :: "string option"
  mt_granted :: bool
  mt_parse :: "string \<Rightarrow> int option"
  mt_evidence :: "nat \<Rightarrow> nat"
  mt_usages :: "nat \<Rightarrow> int \<Rightarrow> int \<Rightarrow> usage_row list"
  mt_preview_hash :: "preview \<Rightarrow> string"

definition date_text :: "int \<Rightarrow> string" where
  "date_text t = to_iso_date (t div MS_IN_DAY)"

section \<open>Rows\<close>

definition find_equipment :: "nat \<Rightarrow> metrology_db \<Rightarrow> equipment_row option" where
  "find_equipment e db = find (\<lambda>r. eq_id r = e) (mb_equipment db)"

definition lock_equipment :: "nat \<Rightarrow> metrology_db \<Rightarrow> equipment_row result" where
  "lock_equipment e db =
     (case find (\<lambda>r. eq_id r = e \<and> \<not> eq_deleted r) (mb_equipment db) of None \<Rightarrow> Inl (HttpError 404 ''NOT_FOUND'') | Some r \<Rightarrow> Inr r)"

definition lock_execution :: "nat \<Rightarrow> metrology_db \<Rightarrow> execution_row result" where
  "lock_execution x db = (case find (\<lambda>r. ex_id r = x) (mb_executions db) of None \<Rightarrow> Inl (HttpError 404 ''NOT_FOUND'') | Some r \<Rightarrow> Inr r)"

definition load_plan_context :: "nat \<Rightarrow> nat \<Rightarrow> metrology_db \<Rightarrow> metrology_plan_row result" where
  "load_plan_context p e db =
     (case find (\<lambda>r. mp_id r = p \<and> mp_equipment r = e) (mb_plans db) of None \<Rightarrow> Inl (HttpError 404 ''NOT_FOUND'') | Some r \<Rightarrow> Inr r)"

definition load_measurements :: "nat \<Rightarrow> metrology_db \<Rightarrow> measurement_input list" where
  "load_measurements x db = map me_input (filter (\<lambda>m. me_execution m = x) (mb_measurements db))"

definition update_equipment :: "nat \<Rightarrow> (equipment_row \<Rightarrow> equipment_row) \<Rightarrow> metrology_db \<Rightarrow> metrology_db" where
  "update_equipment e f db = db\<lparr>mb_equipment := map (\<lambda>r. if eq_id r = e then f r else r) (mb_equipment db)\<rparr>"

definition update_plans :: "(metrology_plan_row \<Rightarrow> bool) \<Rightarrow> (metrology_plan_row \<Rightarrow> metrology_plan_row) \<Rightarrow> metrology_db \<Rightarrow> metrology_db" where
  "update_plans hit f db = db\<lparr>mb_plans := map (\<lambda>r. if hit r then f r else r) (mb_plans db)\<rparr>"

definition update_execution :: "nat \<Rightarrow> (execution_row \<Rightarrow> execution_row) \<Rightarrow> metrology_db \<Rightarrow> metrology_db" where
  "update_execution x f db = db\<lparr>mb_executions := map (\<lambda>r. if ex_id r = x then f r else r) (mb_executions db)\<rparr>"

definition months_from_periodicity :: "int \<Rightarrow> periodicity_unit \<Rightarrow> int" where
  "months_from_periodicity v u =
     (case u of PU_DAY \<Rightarrow> max 1 \<lfloor>of_int v / 30 + 1 / 2 :: rat\<rfloor> | PU_WEEK \<Rightarrow> max 1 \<lfloor>of_int (v * 7) / 30 + 1 / 2 :: rat\<rfloor>
      | PU_YEAR \<Rightarrow> max 1 (v * 12) | PU_MONTH \<Rightarrow> max 1 v)"

definition sync_legacy_plan :: "nat \<Rightarrow> int \<Rightarrow> string option \<Rightarrow> string option \<Rightarrow> legacy_status \<Rightarrow> metrology_db \<Rightarrow> metrology_db" where
  "sync_legacy_plan e months last_done next_due status db =
     (if list_ex (\<lambda>r. lp_equipment r = e) (mb_legacy db)
      then db\<lparr>mb_legacy := map (\<lambda>r. if lp_equipment r = e
             then r\<lparr>lp_months := months, lp_last_done := (case last_done of None \<Rightarrow> lp_last_done r | Some d \<Rightarrow> Some d),
                    lp_next_due := next_due, lp_status := status\<rparr> else r) (mb_legacy db)\<rparr>
      else db\<lparr>mb_legacy := mb_legacy db @ [\<lparr>lp_equipment = e, lp_months = months, lp_last_done = last_done, lp_next_due = next_due, lp_status = status\<rparr>]\<rparr>)"

definition check_version :: "metrology_env \<Rightarrow> string option \<Rightarrow> int \<Rightarrow> unit result" where
  "check_version env expected current = assert_optimistic_version (mt_parse env) expected current"

section \<open>Executions\<close>

record execution_input =
  xi_operation :: metrology_operation
  xi_plan :: "nat option"
  xi_started :: "int option"
  xi_operator :: "nat option"

text \<open>The table asks for a plan, except for an adjustment or a repair.\<close>

definition create_execution :: "metrology_env \<Rightarrow> nat \<Rightarrow> execution_input \<Rightarrow> metrology_db \<Rightarrow> metrology_db result" where
  "create_execution env e x db =
     bind_result (lock_equipment e db) (\<lambda>r.
       if eq_state r = EQ_RETIRED then Inl (HttpError 409 ''METROLOGY_EQUIPMENT_RETIRED'')
       else bind_result
         (case xi_plan x of None \<Rightarrow> Inr ()
          | Some p \<Rightarrow> bind_result (load_plan_context p e db) (\<lambda>plan.
              bind_result (assert_plan_selectable (mp_status plan)) (\<lambda>_.
                ensure (mp_operation plan = xi_operation x \<or> xi_operation x = OP_AJUSTAGE \<or> xi_operation x = OP_REPARATION)
                  (HttpError 422 ''METROLOGY_PLAN_OPERATION_MISMATCH''))))
         (\<lambda>_. if xi_plan x = None \<and> \<not> (xi_operation x = OP_AJUSTAGE \<or> xi_operation x = OP_REPARATION) then Inl (JsError ''23514'')
              else Inr (db\<lparr>mb_executions := mb_executions db @ [\<lparr>ex_id = mb_next db, ex_equipment = e, ex_plan = xi_plan x,
                  ex_operation = xi_operation x, ex_status = EX_IN_PROGRESS,
                  ex_operator = (case xi_operator x of None \<Rightarrow> Some (mt_actor env) | Some u \<Rightarrow> Some u),
                  ex_started = (case xi_started x of None \<Rightarrow> mt_now env | Some t \<Rightarrow> t), ex_ended = None, ex_computed = None, ex_verdict = None,
                  ex_decision = None, ex_next_due = None, ex_updated = mt_now env\<rparr>], mb_next := Suc (mb_next db)\<rparr>)))"

text \<open>The trigger on the updates of a measurement.\<close>

definition measurement_update_allowed :: "metrology_db \<Rightarrow> measurement_row \<Rightarrow> measurement_row \<Rightarrow> bool" where
  "measurement_update_allowed db old new \<longleftrightarrow>
     \<not> list_ex (\<lambda>x. ex_id x = me_execution new \<and> ex_status x = EX_VALIDATED) (mb_executions db) \<and> me_revision old < me_revision new"

definition update_measurements ::
  "(measurement_row \<Rightarrow> bool) \<Rightarrow> (measurement_row \<Rightarrow> measurement_row) \<Rightarrow> metrology_db \<Rightarrow> metrology_db result" where
  "update_measurements hit f db =
     (if list_all (\<lambda>r. if hit r then measurement_update_allowed db r (f r) else True) (mb_measurements db)
      then Inr (db\<lparr>mb_measurements := map (\<lambda>r. if hit r then f r else r) (mb_measurements db)\<rparr>)
      else Inl (JsError ''P0001''))"

definition same_point :: "nat \<Rightarrow> string \<Rightarrow> nat \<Rightarrow> measurement_row \<Rightarrow> bool" where
  "same_point x point sample r \<longleftrightarrow> me_execution r = x \<and> mi_point (me_input r) = point \<and> mi_sample (me_input r) = sample"

definition record_measurement :: "nat \<Rightarrow> measurement_input \<times> string option \<Rightarrow> metrology_db \<Rightarrow> metrology_db result" where
  "record_measurement x m db =
     (let hit = same_point x (mi_point (fst m)) (mi_sample (fst m))
      in if list_ex hit (mb_measurements db)
         then (if \<not> truthy (snd m) then Inl (HttpError 422 ''METROLOGY_MEASUREMENT_REVISION_REASON_REQUIRED'')
               else update_measurements hit (\<lambda>r. r\<lparr>me_input := fst m, me_revision := Suc (me_revision r)\<rparr>) db)
         else Inr (db\<lparr>mb_measurements := mb_measurements db @
             [\<lparr>me_execution = x, me_input = fst m, me_revision = 1, me_verdict = None, me_gap = None\<rparr>]\<rparr>))"

fun record_all :: "nat \<Rightarrow> (measurement_input \<times> string option) list \<Rightarrow> metrology_db \<Rightarrow> metrology_db result" where
  "record_all x [] db = Inr db"
| "record_all x (m # ms) db = bind_result (record_measurement x m db) (record_all x ms)"

definition no_criteria :: plan_criteria where
  "no_criteria = \<lparr>pc_min = None, pc_max = None, pc_unit = None, pc_min_points = None\<rparr>"

fun store_verdicts :: "nat \<Rightarrow> measurement_verdict list \<Rightarrow> metrology_db \<Rightarrow> metrology_db result" where
  "store_verdicts x [] db = Inr db"
| "store_verdicts x (p # ps) db =
     bind_result (update_measurements (same_point x (mv_point p) (mv_sample p)) (\<lambda>r. r\<lparr>me_verdict := Some (mv_verdict p), me_gap := mv_gap p\<rparr>) db)
       (store_verdicts x ps)"

definition plan_of :: "nat option \<Rightarrow> nat \<Rightarrow> metrology_db \<Rightarrow> metrology_plan_row option result" where
  "plan_of p e db = (case p of None \<Rightarrow> Inr None | Some i \<Rightarrow> bind_result (load_plan_context i e db) (\<lambda>r. Inr (Some r)))"

definition criteria_of :: "metrology_plan_row option \<Rightarrow> plan_criteria" where
  "criteria_of p = (case p of None \<Rightarrow> no_criteria | Some r \<Rightarrow> mp_criteria r)"

definition refresh_measurement_verdicts :: "execution_row \<Rightarrow> metrology_db \<Rightarrow> metrology_db result" where
  "refresh_measurement_verdicts x db =
     bind_result (plan_of (ex_plan x) (ex_equipment x) db) (\<lambda>plan.
       store_verdicts (ex_id x) (vx_points (compute_execution_verdict (load_measurements (ex_id x) db) (criteria_of plan))) db)"

definition record_measurements :: "metrology_env \<Rightarrow> nat \<Rightarrow> string option \<Rightarrow> (measurement_input \<times> string option) list \<Rightarrow> metrology_db \<Rightarrow> metrology_db result" where
  "record_measurements env x expected ms db =
     bind_result (lock_execution x db) (\<lambda>r.
     bind_result (check_version env expected (ex_updated r)) (\<lambda>_.
     bind_result (assert_execution_mutable (ex_status r)) (\<lambda>_.
     bind_result (record_all x ms db) (\<lambda>db1.
     bind_result (refresh_measurement_verdicts r db1) (\<lambda>db2.
       Inr (update_execution x (\<lambda>y. y\<lparr>ex_updated := mt_now env\<rparr>) db2))))))"

definition preview_verdict :: "metrology_env \<Rightarrow> nat \<Rightarrow> metrology_db \<Rightarrow> preview result" where
  "preview_verdict env x db =
     bind_result (lock_execution x db) (\<lambda>r.
     case find_equipment (ex_equipment r) db of None \<Rightarrow> Inl (HttpError 404 ''NOT_FOUND'') | Some e \<Rightarrow>
     bind_result (plan_of (ex_plan r) (ex_equipment r) db) (\<lambda>plan.
       (let c = compute_execution_verdict (load_measurements x db) (criteria_of plan)
        in Inr \<lparr>pr_execution = x, pr_computation = c,
             pr_schedule = (case plan of None \<Rightarrow> no_due_date
               | Some p \<Rightarrow> compute_next_due_date \<lparr>si_plan = mp_schedule p,
                   si_last_proof = (if verdict_is_admissible_proof (vx_verdict c) then Some (date_text (mt_now env)) else None), si_certificate = None,
                   si_fallback = (case eq_commissioned e of None \<Rightarrow> Some (date_text (eq_created e)) | Some d \<Rightarrow> Some d)\<rparr>)\<rparr>)))"

section \<open>Impact files\<close>

fun number_items :: "nat \<Rightarrow> nat \<Rightarrow> usage_row list \<Rightarrow> impact_item list" where
  "number_items n d [] = []"
| "number_items n d (u # us) = \<lparr>ii_id = n, ii_dossier = d, ii_usage = u, ii_decision = ID_PENDING\<rparr> # number_items (Suc n) d us"

text \<open>One item for each control and characteristic.\<close>

definition distinct_usages :: "usage_row list \<Rightarrow> usage_row list" where
  "distinct_usages us = foldl (\<lambda>acc u. if list_ex (\<lambda>v. us_control v = us_control u \<and> us_characteristic v = us_characteristic u
       \<and> us_characteristic u \<noteq> None) acc then acc else acc @ [u]) [] us"

definition insert_impact_dossier ::
  "metrology_env \<Rightarrow> nat \<Rightarrow> nat option \<Rightarrow> equipment_row \<Rightarrow> impact_window \<Rightarrow> metrology_db \<Rightarrow> metrology_db" where
  "insert_impact_dossier env e execution r w db =
     (let found = mt_usages env e (iw_from w) (iw_to w); rows = take IMPACT_ITEM_HARD_LIMIT found;
          v = compute_volumes rows (length found); d = mb_next db; kept = distinct_usages rows
      in db\<lparr>mb_dossiers := mb_dossiers db @ [\<lparr>im_id = d, im_equipment = e, im_execution = execution, im_status = IS_OPEN,
            im_window = w, im_priority = suggest_impact_priority v (eq_criticality r), im_volumes = v, im_updated = mt_now env\<rparr>],
          mb_items := mb_items db @ number_items (Suc d) d kept, mb_next := Suc d + length kept\<rparr>)"

definition open_impact_dossier ::
  "metrology_env \<Rightarrow> nat \<Rightarrow> nat option \<Rightarrow> (int \<times> int \<times> string option) option \<Rightarrow> metrology_db \<Rightarrow> metrology_db result" where
  "open_impact_dossier env e execution approved db =
     (if execution \<noteq> None \<and> list_ex (\<lambda>d. im_execution d = execution \<and> im_status d \<noteq> IS_CANCELLED) (mb_dossiers db) then Inr db
      else case find_equipment e db of None \<Rightarrow> Inl (HttpError 404 ''NOT_FOUND'') | Some r \<Rightarrow>
        (let event = (case execution of None \<Rightarrow> mt_now env
               | Some x \<Rightarrow> (case find (\<lambda>y. ex_id y = x) (mb_executions db) of None \<Rightarrow> mt_now env
                   | Some y \<Rightarrow> (case ex_ended y of None \<Rightarrow> ex_started y | Some t \<Rightarrow> t)))
         in bind_result (compute_impact_window event (eq_last_proof_at r) (eq_created r) approved)
              (\<lambda>w. Inr (insert_impact_dossier env e execution r w db))))"

definition decide_impact_item :: "nat \<Rightarrow> nat \<Rightarrow> impact_decision \<Rightarrow> string option \<Rightarrow> metrology_db \<Rightarrow> metrology_db result" where
  "decide_impact_item d i decision reason db =
     bind_result (assert_impact_decision decision reason) (\<lambda>_.
       case (find (\<lambda>x. ii_id x = i \<and> ii_dossier x = d) (mb_items db), find (\<lambda>x. im_id x = d) (mb_dossiers db)) of
         (Some item, Some file) \<Rightarrow>
           if im_status file = IS_CLOSED \<or> im_status file = IS_CANCELLED then Inl (HttpError 409 ''METROLOGY_IMPACT_CLOSED'')
           else if ii_decision item \<noteq> ID_PENDING then Inl (HttpError 409 ''METROLOGY_IMPACT_ALREADY_DECIDED'')
           else Inr (db\<lparr>mb_items := map (\<lambda>x. if ii_id x = i then x\<lparr>ii_decision := decision\<rparr> else x) (mb_items db)\<rparr>)
       | _ \<Rightarrow> Inl (HttpError 404 ''NOT_FOUND''))"

definition pending_items :: "nat \<Rightarrow> metrology_db \<Rightarrow> nat" where
  "pending_items d db = length (filter (\<lambda>x. ii_dossier x = d \<and> ii_decision x = ID_PENDING) (mb_items db))"

definition transition_impact :: "metrology_env \<Rightarrow> nat \<Rightarrow> string option \<Rightarrow> impact_status \<Rightarrow> string option \<Rightarrow> metrology_db \<Rightarrow> metrology_db result" where
  "transition_impact env d expected target conclusion db =
     (case find (\<lambda>x. im_id x = d) (mb_dossiers db) of None \<Rightarrow> Inl (HttpError 404 ''NOT_FOUND'') | Some file \<Rightarrow>
       bind_result (check_version env expected (im_updated file)) (\<lambda>_.
       bind_result (assert_impact_transition (im_status file) target) (\<lambda>_.
       bind_result (if target = IS_CLOSED then assert_impact_closure_allowed (pending_items d db) conclusion else Inr ()) (\<lambda>_.
         Inr (db\<lparr>mb_dossiers := map (\<lambda>x. if im_id x = d then x\<lparr>im_status := target, im_updated := mt_now env\<rparr> else x) (mb_dossiers db)\<rparr>)))))"

section \<open>The verdict\<close>

record validation_input =
  vi_preview_hash :: string
  vi_verdict :: metrology_verdict
  vi_justification :: "string option"
  vi_decision :: execution_decision
  vi_reason :: string
  vi_ended :: "int option"
  vi_override_date :: "string option"
  vi_override_reason :: "string option"
  vi_override_approver :: "nat option"

text \<open>The due date: computed, or the exception asked for.\<close>

definition retained_due_date :: "metrology_env \<Rightarrow> validation_input \<Rightarrow> preview \<Rightarrow> string option result" where
  "retained_due_date env v p =
     (if \<not> truthy (vi_override_date v) then Inr (sr_next (pr_schedule p))
      else bind_result (assert_schedule_override_allowed \<lparr>ov_requested = vi_override_date v, ov_computed = sr_next (pr_schedule p),
               ov_reason = vi_override_reason v, ov_approved_by = vi_override_approver v, ov_requested_by = mt_actor env\<rparr>)
             (\<lambda>_. Inr (vi_override_date v)))"

text \<open>What a conforming proof writes: the plan and its mirror, the instrument, and its state only from service.\<close>

definition keep_proof ::
  "metrology_env \<Rightarrow> validation_input \<Rightarrow> execution_row \<Rightarrow> equipment_row \<Rightarrow> metrology_plan_row option \<Rightarrow> string option \<Rightarrow> metrology_db \<Rightarrow> metrology_db" where
  "keep_proof env v x e plan due db =
     (let ended = (case vi_ended v of None \<Rightarrow> mt_now env | Some t \<Rightarrow> t); proof_date = date_text ended;
          db1 = (case plan of None \<Rightarrow> db
            | Some p \<Rightarrow> sync_legacy_plan (ex_equipment x) (months_from_periodicity (sp_value (mp_schedule p)) (sp_unit (mp_schedule p))) (Some proof_date) due LS_EN_COURS
                (update_plans (\<lambda>r. mp_id r = mp_id p) (\<lambda>r. r\<lparr>mp_proof := Some (ex_id x), mp_proof_date := Some proof_date, mp_next_due := due, mp_updated := mt_now env\<rparr>) db));
          db2 = update_equipment (ex_equipment x) (\<lambda>r. r\<lparr>eq_last_proof := Some (ex_id x), eq_last_proof_at := Some ended, eq_updated := mt_now env\<rparr>) db1
      in if vi_decision v = REMISE_EN_SERVICE \<and> eq_state e = EQ_ACTIVE
         then update_equipment (ex_equipment x) (\<lambda>r. r\<lparr>eq_state := EQ_QUALIFIED, eq_reason := Some (vi_reason v), eq_updated := mt_now env\<rparr>) db2
         else db2)"

text \<open>What a verdict of non conformity writes.\<close>

definition condemn ::
  "metrology_env \<Rightarrow> validation_input \<Rightarrow> execution_row \<Rightarrow> metrology_plan_row option \<Rightarrow> metrology_db \<Rightarrow> metrology_db result" where
  "condemn env v x plan db =
     (let db1 = update_equipment (ex_equipment x) (\<lambda>r. r\<lparr>eq_state := EQ_OUT_OF_TOLERANCE, eq_reason := Some (vi_reason v),
            eq_quarantine := Some (Some (vi_reason v), mt_now env), eq_updated := mt_now env\<rparr>) db;
          db2 = (case plan of None \<Rightarrow> db1
            | Some p \<Rightarrow> sync_legacy_plan (ex_equipment x) (months_from_periodicity (sp_value (mp_schedule p)) (sp_unit (mp_schedule p))) None None LS_HORS_TOLERANCE db1)
      in open_impact_dossier env (ex_equipment x) (Some (ex_id x)) None db2)"

definition validate_execution :: "metrology_env \<Rightarrow> nat \<Rightarrow> string option \<Rightarrow> validation_input \<Rightarrow> metrology_db \<Rightarrow> metrology_db result" where
  "validate_execution env x expected v db =
     bind_result (lock_execution x db) (\<lambda>r.
     bind_result (check_version env expected (ex_updated r)) (\<lambda>_.
     bind_result (assert_metrology_execution_transition (ex_status r) EX_VALIDATED) (\<lambda>_.
     case find_equipment (ex_equipment r) db of None \<Rightarrow> Inl (HttpError 404 ''NOT_FOUND'') | Some e \<Rightarrow>
     bind_result (plan_of (ex_plan r) (ex_equipment r) db) (\<lambda>plan.
     bind_result (assert_verdict_separation DEFAULT_METROLOGY_SEPARATION (ex_operator r) (mt_actor env)) (\<lambda>_.
     bind_result (preview_verdict env x db) (\<lambda>p.
     bind_result (ensure (mt_preview_hash env p = vi_preview_hash v) (HttpError 409 ''METROLOGY_PREVIEW_STALE'')) (\<lambda>_.
     bind_result (assert_manual_verdict_override \<lparr>vo_computed = vx_verdict (pr_computation p), vo_requested = vi_verdict v,
         vo_justification = vi_justification v, vo_evidence = mt_evidence env x, vo_require_evidence = True\<rparr>) (\<lambda>_.
     bind_result (ensure (\<not> ((case plan of None \<Rightarrow> False | Some q \<Rightarrow> mp_needs_certificate q) \<and> verdict_is_admissible_proof (vi_verdict v)
         \<and> mt_evidence env x = 0)) (HttpError 422 ''METROLOGY_CERTIFICATE_REQUIRED'')) (\<lambda>_.
     bind_result (retained_due_date env v p) (\<lambda>due.
     (let ended = (case vi_ended v of None \<Rightarrow> mt_now env | Some t \<Rightarrow> t);
          db1 = update_execution x (\<lambda>y. y\<lparr>ex_status := EX_VALIDATED, ex_ended := Some ended, ex_computed := Some (vx_verdict (pr_computation p)),
            ex_verdict := Some (vi_verdict v), ex_decision := Some (vi_decision v), ex_next_due := due, ex_updated := mt_now env\<rparr>) db
      in if ended < ex_started r then Inl (JsError ''23514'')
         else if verdict_is_admissible_proof (vi_verdict v) then Inr (keep_proof env v r e plan due db1)
         else if verdict_triggers_quarantine (vi_verdict v) then condemn env v r plan db1
         else Inr db1)))))))))))"

definition cancel_execution :: "metrology_env \<Rightarrow> nat \<Rightarrow> string option \<Rightarrow> metrology_db \<Rightarrow> metrology_db result" where
  "cancel_execution env x expected db =
     bind_result (lock_execution x db) (\<lambda>r.
     bind_result (check_version env expected (ex_updated r)) (\<lambda>_.
     bind_result (assert_metrology_execution_transition (ex_status r) EX_CANCELLED) (\<lambda>_.
       Inr (update_execution x (\<lambda>y. y\<lparr>ex_status := EX_CANCELLED, ex_updated := mt_now env\<rparr>) db))))"

section \<open>Instruments\<close>

record release_proof =
  lr_execution :: "nat option"
  lr_repair_done :: bool

definition conforming_execution :: "nat \<Rightarrow> execution_row \<Rightarrow> bool" where
  "conforming_execution e x \<longleftrightarrow> ex_equipment x = e \<and> ex_status x = EX_VALIDATED
     \<and> (case ex_verdict x of None \<Rightarrow> False | Some v \<Rightarrow> verdict_is_admissible_proof v)"

definition repair_execution :: "nat \<Rightarrow> execution_row \<Rightarrow> bool" where
  "repair_execution e x \<longleftrightarrow> ex_equipment x = e \<and> ex_status x = EX_VALIDATED \<and> (ex_operation x = OP_AJUSTAGE \<or> ex_operation x = OP_REPARATION)"

fun latest_execution :: "execution_row option \<Rightarrow> execution_row list \<Rightarrow> execution_row option" where
  "latest_execution best [] = best"
| "latest_execution best (x # xs) =
     latest_execution (case best of None \<Rightarrow> Some x
       | Some b \<Rightarrow> (case (ex_ended b, ex_ended x) of (Some s, Some t) \<Rightarrow> if s < t then Some x else best | (None, Some t) \<Rightarrow> Some x | _ \<Rightarrow> best)) xs"

definition load_release_proof :: "nat \<Rightarrow> nat option \<Rightarrow> metrology_db \<Rightarrow> release_proof" where
  "load_release_proof e wanted db =
     \<lparr>lr_execution = map_option ex_id (latest_execution None
        (filter (\<lambda>x. conforming_execution e x \<and> (case wanted of None \<Rightarrow> True | Some i \<Rightarrow> ex_id x = i)) (mb_executions db))),
      lr_repair_done = list_ex (repair_execution e) (mb_executions db)\<rparr>"

definition transition_equipment ::
  "metrology_env \<Rightarrow> nat \<Rightarrow> string option \<Rightarrow> equipment_state \<Rightarrow> string \<Rightarrow> nat option \<Rightarrow> metrology_db \<Rightarrow> metrology_db result" where
  "transition_equipment env e expected target reason proof db =
     bind_result (lock_equipment e db) (\<lambda>r.
     bind_result (check_version env expected (eq_updated r)) (\<lambda>_.
     bind_result (assert_equipment_transition (eq_state r) target) (\<lambda>_.
     bind_result
       (if transition_requires_release (eq_state r) target
        then (if \<not> role_has_metrology_capability (mt_granted env) (mt_role env) MC_equipment_release then Inl (HttpError 403 ''METROLOGY_CAPABILITY_REQUIRED'')
              else (let p = load_release_proof e proof db
                    in assert_equipment_release_allowed \<lparr>rp_valid_proof = (lr_execution p \<noteq> None), rp_proof = lr_execution p,
                         rp_repair_required = (eq_state r = EQ_UNDER_REPAIR \<or> eq_state r = EQ_OUT_OF_TOLERANCE), rp_repair_done = lr_repair_done p,
                         rp_reason = Some reason\<rparr>))
        else Inr ())
       (\<lambda>_. Inr (update_equipment e (\<lambda>y. y\<lparr>eq_state := target, eq_reason := Some reason,
          eq_quarantine := (if target \<in> {EQ_QUARANTINE, EQ_OUT_OF_TOLERANCE} then eq_quarantine y else None), eq_updated := mt_now env\<rparr>) db)))))"

definition quarantine_equipment :: "metrology_env \<Rightarrow> nat \<Rightarrow> string option \<Rightarrow> string \<Rightarrow> bool \<Rightarrow> metrology_db \<Rightarrow> metrology_db result" where
  "quarantine_equipment env e expected reason analyse db =
     bind_result (lock_equipment e db) (\<lambda>r.
     bind_result (check_version env expected (eq_updated r)) (\<lambda>_.
     bind_result (if eq_state r \<noteq> EQ_QUARANTINE then assert_equipment_transition (eq_state r) EQ_QUARANTINE else Inr ()) (\<lambda>_.
       (let db1 = update_equipment e (\<lambda>y. y\<lparr>eq_state := EQ_QUARANTINE, eq_reason := Some reason, eq_quarantine := Some (Some reason, mt_now env),
              eq_updated := mt_now env\<rparr>) db
        in if analyse then open_impact_dossier env e None None db1 else Inr db1))))"

section \<open>Plans\<close>

record plan_input =
  pi_operation :: metrology_operation
  pi_criteria :: plan_criteria
  pi_schedule :: schedule_plan
  pi_needs_certificate :: bool

definition next_plan_version :: "nat \<Rightarrow> metrology_operation \<Rightarrow> metrology_db \<Rightarrow> nat" where
  "next_plan_version e o' db = Suc (foldr max (map mp_version (filter (\<lambda>r. mp_equipment r = e \<and> mp_operation r = o') (mb_plans db))) 0)"

definition insert_plan :: "metrology_env \<Rightarrow> nat \<Rightarrow> plan_input \<Rightarrow> metrology_db \<Rightarrow> metrology_db" where
  "insert_plan env e b db =
     db\<lparr>mb_plans := mb_plans db @ [\<lparr>mp_id = mb_next db, mp_equipment = e, mp_version = next_plan_version e (pi_operation b) db, mp_status = MP_DRAFT,
          mp_operation = pi_operation b, mp_criteria = pi_criteria b, mp_schedule = pi_schedule b, mp_needs_certificate = pi_needs_certificate b,
          mp_proof = None, mp_proof_date = None, mp_next_due = None, mp_updated = mt_now env\<rparr>], mb_next := Suc (mb_next db)\<rparr>"

definition create_plan_version :: "metrology_env \<Rightarrow> nat \<Rightarrow> plan_input \<Rightarrow> metrology_db \<Rightarrow> metrology_db result" where
  "create_plan_version env e b db = bind_result (lock_equipment e db) (\<lambda>_. Inr (insert_plan env e b db))"

text \<open>The version of a plan is unique for an instrument and an operation: editing a draft may break it, and is then refused.\<close>

definition plan_versions_unique :: "metrology_plan_row list \<Rightarrow> bool" where
  "plan_versions_unique ps \<longleftrightarrow> distinct (map (\<lambda>r. (mp_equipment r, mp_operation r, mp_version r)) ps)"

definition revise_plan_version :: "metrology_env \<Rightarrow> nat \<Rightarrow> nat \<Rightarrow> string option \<Rightarrow> plan_input \<Rightarrow> metrology_db \<Rightarrow> metrology_db result" where
  "revise_plan_version env e p expected b db =
     bind_result (lock_equipment e db) (\<lambda>_.
     bind_result (load_plan_context p e db) (\<lambda>r.
     bind_result (check_version env expected (mp_updated r)) (\<lambda>_.
       if mp_status r = MP_DRAFT
       then (let db1 = update_plans (\<lambda>y. mp_id y = p) (\<lambda>y. y\<lparr>mp_operation := pi_operation b, mp_criteria := pi_criteria b, mp_schedule := pi_schedule b,
               mp_needs_certificate := pi_needs_certificate b, mp_updated := mt_now env\<rparr>) db
             in if plan_versions_unique (mb_plans db1) then Inr db1 else Inl (JsError ''23505''))
       else Inr (insert_plan env e b db))))"

text \<open>Activating archives the active plan of the same operation and dates the next operation from the last conforming one.\<close>

definition activate_plan :: "metrology_env \<Rightarrow> nat \<Rightarrow> nat \<Rightarrow> equipment_row \<Rightarrow> metrology_plan_row \<Rightarrow> metrology_db \<Rightarrow> metrology_db" where
  "activate_plan env e p eqr r db =
     (let db1 = update_plans (\<lambda>y. mp_equipment y = e \<and> mp_operation y = mp_operation r \<and> mp_status y = MP_ACTIVE)
            (\<lambda>y. y\<lparr>mp_status := MP_ARCHIVED, mp_updated := mt_now env\<rparr>) db;
          proof_date = Option.bind (latest_execution None (filter (conforming_execution e) (mb_executions db))) (\<lambda>x. map_option date_text (ex_ended x));
          due = sr_next (compute_next_due_date \<lparr>si_plan = mp_schedule r, si_last_proof = proof_date, si_certificate = None,
                  si_fallback = Some (date_text (eq_created eqr))\<rparr>)
      in sync_legacy_plan e (months_from_periodicity (sp_value (mp_schedule r)) (sp_unit (mp_schedule r))) proof_date due LS_EN_COURS
           (update_plans (\<lambda>y. mp_id y = p) (\<lambda>y. y\<lparr>mp_status := MP_ACTIVE, mp_proof_date := proof_date, mp_next_due := due, mp_updated := mt_now env\<rparr>) db1))"

definition transition_plan_version :: "metrology_env \<Rightarrow> nat \<Rightarrow> nat \<Rightarrow> string option \<Rightarrow> metrology_plan_status \<Rightarrow> metrology_db \<Rightarrow> metrology_db result" where
  "transition_plan_version env e p expected target db =
     bind_result (lock_equipment e db) (\<lambda>eqr.
     bind_result (load_plan_context p e db) (\<lambda>r.
     bind_result (check_version env expected (mp_updated r)) (\<lambda>_.
     bind_result (assert_plan_transition (mp_status r) target) (\<lambda>_.
       if target = MP_ACTIVE then Inr (activate_plan env e p eqr r db)
       else Inr (update_plans (\<lambda>y. mp_id y = p) (\<lambda>y. y\<lparr>mp_status := MP_ARCHIVED, mp_updated := mt_now env\<rparr>) db)))))"

section \<open>Requests\<close>

datatype metrology_request =
    CreateExecution nat execution_input
  | RecordMeasurements nat "string option" "(measurement_input \<times> string option) list"
  | ValidateExecution nat "string option" validation_input
  | CancelExecution nat "string option"
  | TransitionEquipment nat "string option" equipment_state string "nat option"
  | QuarantineEquipment nat "string option" string bool
  | CreatePlan nat plan_input
  | RevisePlan nat nat "string option" plan_input
  | TransitionPlan nat nat "string option" metrology_plan_status
  | CreateImpact nat "nat option" "(int \<times> int \<times> string option) option"
  | DecideImpactItem nat nat impact_decision "string option"
  | TransitionImpact nat "string option" impact_status "string option"

fun metrology_command :: "metrology_env \<Rightarrow> metrology_request \<Rightarrow> metrology_db \<Rightarrow> metrology_db result" where
  "metrology_command env (CreateExecution e b) db = create_execution env e b db"
| "metrology_command env (RecordMeasurements x v ms) db = record_measurements env x v ms db"
| "metrology_command env (ValidateExecution x v b) db = validate_execution env x v b db"
| "metrology_command env (CancelExecution x v) db = cancel_execution env x v db"
| "metrology_command env (TransitionEquipment e v t reason p) db = transition_equipment env e v t reason p db"
| "metrology_command env (QuarantineEquipment e v reason a) db = quarantine_equipment env e v reason a db"
| "metrology_command env (CreatePlan e b) db = create_plan_version env e b db"
| "metrology_command env (RevisePlan e p v b) db = revise_plan_version env e p v b db"
| "metrology_command env (TransitionPlan e p v t) db = transition_plan_version env e p v t db"
| "metrology_command env (CreateImpact e x w) db = open_impact_dossier env e x w db"
| "metrology_command env (DecideImpactItem d i dec reason) db = decide_impact_item d i dec reason db"
| "metrology_command env (TransitionImpact d v t c) db = transition_impact env d v t c db"

text \<open>A command under its idempotency key: new, done before, or the key of another command.\<close>

definition acquire_idempotency :: "nat \<Rightarrow> string option \<Rightarrow> string \<Rightarrow> metrology_db \<Rightarrow> (string \<times> bool) result" where
  "acquire_idempotency actor raw h db =
     bind_result (normalize_metrology_idempotency_key raw) (\<lambda>key.
       case decide_metrology_receipt (map_option (snd \<circ> snd) (find (\<lambda>r. fst r = actor \<and> fst (snd r) = key) (mb_receipts db))) h of
         RD_CONFLICT \<Rightarrow> Inl (HttpError 409 ''IDEMPOTENCY_KEY_REUSED'') | RD_REPLAY \<Rightarrow> Inr (key, True) | RD_NEW \<Rightarrow> Inr (key, False))"

definition save_receipt :: "nat \<Rightarrow> string \<Rightarrow> string \<Rightarrow> metrology_db \<Rightarrow> metrology_db" where
  "save_receipt actor key h db = db\<lparr>mb_receipts := mb_receipts db @ [(actor, key, h)]\<rparr>"

definition metrology_step ::
  "(metrology_request \<Rightarrow> string) \<Rightarrow> metrology_env \<Rightarrow> string option \<Rightarrow> metrology_request \<Rightarrow> metrology_db \<Rightarrow> metrology_db result" where
  "metrology_step request_hash env key q db =
     bind_result (acquire_idempotency (mt_actor env) key (request_hash q) db) (\<lambda>claim.
       if snd claim then Inr db
       else bind_result (metrology_command env q db) (\<lambda>db1. Inr (save_receipt (mt_actor env) (fst claim) (request_hash q) db1)))"

fun metrology_run ::
  "(metrology_request \<Rightarrow> string) \<Rightarrow> (metrology_env \<times> string option \<times> metrology_request) list \<Rightarrow> metrology_db \<Rightarrow> metrology_db" where
  "metrology_run request_hash [] db = db"
| "metrology_run request_hash ((env, key, q) # qs) db =
     metrology_run request_hash qs (case metrology_step request_hash env key q db of Inl _ \<Rightarrow> db | Inr db1 \<Rightarrow> db1)"

end
