(* ===== verification/Metrology_Rules.thy ===== *)
theory Metrology_Rules
  imports Complex_Main Metrology_Service
begin

text \<open>
  What the requests on the measuring instruments promise: no measurement is ever kept, an instrument taken out of
  service comes back on proof only, a condemnation comes with an analysis of what the instrument measured, and
  validated executions and active plans are what they are said to be.
\<close>

section \<open>Sequences of transactions\<close>

text \<open>A failed transaction leaves the tables as they were.\<close>

fun run_all :: "('q \<Rightarrow> 's \<Rightarrow> 's result) \<Rightarrow> 'q list \<Rightarrow> 's \<Rightarrow> 's" where
  "run_all step [] s = s"
| "run_all step (q # qs) s = run_all step qs (case step q s of Inl _ \<Rightarrow> s | Inr t \<Rightarrow> t)"

lemma run_all_append: "run_all step (qs @ rs) s = run_all step rs (run_all step qs s)"
  by (induction qs arbitrary: s) simp_all

locale transactional =
  fixes step :: "'q \<Rightarrow> 's \<Rightarrow> 's result" and inv :: "'s \<Rightarrow> bool" and rel :: "'s \<Rightarrow> 's \<Rightarrow> bool" and ok :: "'q \<Rightarrow> bool"
  assumes step_inv: "inv s \<Longrightarrow> step q s = Inr t \<Longrightarrow> inv t"
    and step_rel: "inv s \<Longrightarrow> ok q \<Longrightarrow> step q s = Inr t \<Longrightarrow> rel s t"
    and rel_refl: "rel s s"
    and rel_trans: "rel s t \<Longrightarrow> rel t u \<Longrightarrow> rel s u"
begin

lemma one_inv: "inv s \<Longrightarrow> inv (case step q s of Inl _ \<Rightarrow> s | Inr t \<Rightarrow> t)"
  using step_inv by (cases "step q s") simp_all

lemma one_rel: "inv s \<Longrightarrow> ok q \<Longrightarrow> rel s (case step q s of Inl _ \<Rightarrow> s | Inr t \<Rightarrow> t)"
  using step_rel rel_refl by (cases "step q s") simp_all

lemma run_inv: "inv s \<Longrightarrow> inv (run_all step qs s)"
  by (induction qs arbitrary: s) (simp_all add: one_inv)

lemma run_rel: "inv s \<Longrightarrow> list_all ok qs \<Longrightarrow> rel s (run_all step qs s)"
proof (induction qs arbitrary: s)
  case (Cons q qs)
  then have "rel s (case step q s of Inl _ \<Rightarrow> s | Inr t \<Rightarrow> t)" "rel (case step q s of Inl _ \<Rightarrow> s | Inr t \<Rightarrow> t) (run_all step (q # qs) s)"
    using one_rel one_inv by simp_all
  then show ?case by (rule rel_trans)
qed (simp add: rel_refl)

end

section \<open>The measurements\<close>

lemma record_measurement_adds:
  assumes "record_measurement x m db = Inr db1"
  shows "list_ex (\<lambda>r. me_execution r = x) (mb_measurements db1)"
proof (cases "list_ex (same_point x (mi_point (fst m)) (mi_sample (fst m))) (mb_measurements db)")
  case True
  then have "db1 = db\<lparr>mb_measurements := map (\<lambda>r. if same_point x (mi_point (fst m)) (mi_sample (fst m)) r
      then r\<lparr>me_input := fst m, me_revision := Suc (me_revision r)\<rparr> else r) (mb_measurements db)\<rparr>"
    using assms by (simp add: record_measurement_def Let_def update_measurements_def split: if_splits)
  moreover have "list_ex (\<lambda>r. me_execution r = x) (map (\<lambda>r. if h r then r\<lparr>me_input := i, me_revision := Suc (me_revision r)\<rparr> else r) rows)
      = list_ex (\<lambda>r. me_execution r = x) rows" for h i and rows :: "measurement_row list"
    by (induction rows) simp_all
  moreover have "list_ex (\<lambda>r. me_execution r = x) (mb_measurements db)" using True by (auto simp: list_ex_iff same_point_def)
  ultimately show ?thesis by simp
next
  case False
  then show ?thesis using assms by (auto simp: record_measurement_def Let_def)
qed

lemma record_measurement_keeps:
  assumes "record_measurement x m db = Inr db1" "list_ex (\<lambda>r. me_execution r = x) (mb_measurements db)"
  shows "list_ex (\<lambda>r. me_execution r = x) (mb_measurements db1)"
  using record_measurement_adds [OF assms(1)] .

lemma record_all_adds:
  "record_all x ms db = Inr db1 \<Longrightarrow> ms \<noteq> [] \<or> list_ex (\<lambda>r. me_execution r = x) (mb_measurements db)
     \<Longrightarrow> list_ex (\<lambda>r. me_execution r = x) (mb_measurements db1)"
proof (induction ms arbitrary: db)
  case (Cons m ms)
  then show ?case using record_measurement_adds by fastforce
qed simp

lemma store_verdicts_refused:
  assumes "r \<in> set (mb_measurements db)" "me_execution r = x" "mv_point p = mi_point (me_input r)" "mv_sample p = mi_sample (me_input r)"
  shows "store_verdicts x (p # ps) db = Inl (JsError ''P0001'')"
proof -
  have "\<not> list_all (\<lambda>y. if same_point x (mv_point p) (mv_sample p) y
      then measurement_update_allowed db y (y\<lparr>me_verdict := Some (mv_verdict p), me_gap := mv_gap p\<rparr>) else True) (mb_measurements db)"
    using assms by (auto simp: list_all_iff same_point_def measurement_update_allowed_def)
  then show ?thesis by (simp add: update_measurements_def)
qed

lemma refresh_refused:
  assumes "list_ex (\<lambda>m. me_execution m = ex_id r) (mb_measurements db)"
  shows "\<not> is_ok (refresh_measurement_verdicts r db)"
proof -
  obtain m ms where l: "filter (\<lambda>m. me_execution m = ex_id r) (mb_measurements db) = m # ms"
    using assms by (cases "filter (\<lambda>m. me_execution m = ex_id r) (mb_measurements db)") (auto simp: list_ex_iff filter_empty_conv)
  then have m: "m \<in> set (mb_measurements db)" "me_execution m = ex_id r" using filter_eq_ConsD [OF l] by auto
  have "vx_points (compute_execution_verdict (load_measurements (ex_id r) db) c) =
      evaluate_measurement (me_input m) c # map (\<lambda>m. evaluate_measurement m c) (map me_input ms)" for c
    by (simp add: compute_execution_verdict_def Let_def load_measurements_def l)
  moreover have "mv_point (evaluate_measurement i c) = mi_point i" "mv_sample (evaluate_measurement i c) = mi_sample i" for i c
    by (simp_all add: evaluate_measurement_def Let_def split: option.splits)
  ultimately show ?thesis using store_verdicts_refused [OF m]
    by (cases "plan_of (ex_plan r) (ex_equipment r) db") (simp_all add: refresh_measurement_verdicts_def)
qed

lemma locked_execution: "lock_execution x db = Inr r \<Longrightarrow> r \<in> set (mb_executions db) \<and> ex_id r = x"
  by (auto simp: lock_execution_def find_Some_iff split: option.splits)

lemma record_measurements_effect:
  assumes "record_measurements env x v ms db = Inr db1"
  shows "ms = []" "\<exists>r. lock_execution x db = Inr r \<and> ex_status r \<noteq> EX_VALIDATED"
    "db1 = update_execution x (\<lambda>y. y\<lparr>ex_updated := mt_now env\<rparr>) db"
proof -
  obtain r dba dbb where r: "lock_execution x db = Inr r" "assert_execution_mutable (ex_status r) = Inr ()" "record_all x ms db = Inr dba"
      "refresh_measurement_verdicts r dba = Inr dbb" "db1 = update_execution x (\<lambda>y. y\<lparr>ex_updated := mt_now env\<rparr>) dbb"
    using assms by (auto simp: record_measurements_def)
  have none: "\<not> list_ex (\<lambda>m. me_execution m = x) (mb_measurements dba)"
    using refresh_refused [of r dba] locked_execution [OF r(1)] r(4) by auto
  then show ms: "ms = []" using record_all_adds [OF r(3)] by blast
  then have "dba = db" using r(3) by simp
  moreover have "dbb = dba"
  proof -
    have "load_measurements (ex_id r) dba = []" using none locked_execution [OF r(1)]
      by (auto simp: load_measurements_def list_ex_iff filter_empty_conv)
    then show ?thesis using r(4) by (auto simp: refresh_measurement_verdicts_def compute_execution_verdict_def Let_def)
  qed
  ultimately show "db1 = update_execution x (\<lambda>y. y\<lparr>ex_updated := mt_now env\<rparr>) db" using r(5) by simp
  show "\<exists>r. lock_execution x db = Inr r \<and> ex_status r \<noteq> EX_VALIDATED" using r(1,2) by (auto simp: assert_execution_mutable_def split: if_splits)
qed

section \<open>What a request writes\<close>

lemma update_equipment_frame [simp]:
  "mb_executions (update_equipment e f db) = mb_executions db" "mb_plans (update_equipment e f db) = mb_plans db"
  "mb_measurements (update_equipment e f db) = mb_measurements db" "mb_dossiers (update_equipment e f db) = mb_dossiers db"
  "mb_next (update_equipment e f db) = mb_next db" "mb_items (update_equipment e f db) = mb_items db"
  "mb_equipment (update_equipment e f db) = map (\<lambda>r. if eq_id r = e then f r else r) (mb_equipment db)"
  by (simp_all add: update_equipment_def)

lemma update_plans_frame [simp]:
  "mb_executions (update_plans h g db) = mb_executions db" "mb_equipment (update_plans h g db) = mb_equipment db"
  "mb_measurements (update_plans h g db) = mb_measurements db" "mb_dossiers (update_plans h g db) = mb_dossiers db"
  "mb_next (update_plans h g db) = mb_next db" "mb_items (update_plans h g db) = mb_items db"
  "mb_plans (update_plans h g db) = map (\<lambda>r. if h r then g r else r) (mb_plans db)"
  by (simp_all add: update_plans_def)

lemma update_execution_frame [simp]:
  "mb_plans (update_execution x f' db) = mb_plans db" "mb_equipment (update_execution x f' db) = mb_equipment db"
  "mb_measurements (update_execution x f' db) = mb_measurements db" "mb_dossiers (update_execution x f' db) = mb_dossiers db"
  "mb_next (update_execution x f' db) = mb_next db" "mb_items (update_execution x f' db) = mb_items db"
  "mb_executions (update_execution x f' db) = map (\<lambda>r. if ex_id r = x then f' r else r) (mb_executions db)"
  by (simp_all add: update_execution_def)

lemma sync_legacy_frame [simp]:
  "mb_plans (sync_legacy_plan e m l n st db) = mb_plans db" "mb_equipment (sync_legacy_plan e m l n st db) = mb_equipment db"
  "mb_measurements (sync_legacy_plan e m l n st db) = mb_measurements db" "mb_dossiers (sync_legacy_plan e m l n st db) = mb_dossiers db"
  "mb_next (sync_legacy_plan e m l n st db) = mb_next db" "mb_executions (sync_legacy_plan e m l n st db) = mb_executions db"
  "mb_items (sync_legacy_plan e m l n st db) = mb_items db"
  by (simp_all add: sync_legacy_plan_def)

text \<open>The window of a file is no longer than allowed.\<close>

definition dossier_bounded :: "dossier_impact \<Rightarrow> bool" where
  "dossier_bounded d \<longleftrightarrow> iw_from (im_window d) \<le> iw_to (im_window d)
     \<and> iw_to (im_window d) - iw_from (im_window d) \<le> MAX_WINDOW_DAYS * MS_IN_DAY"

definition has_dossier :: "dossier_impact list \<Rightarrow> nat \<Rightarrow> bool" where
  "has_dossier ds x \<longleftrightarrow> list_ex (\<lambda>d. im_execution d = Some x) ds"

lemma bounded_window_ok:
  assumes "bounded_window from until src = Inr w" "from \<le> until"
  shows "iw_from w \<le> iw_to w \<and> iw_to w - iw_from w \<le> MAX_WINDOW_DAYS * MS_IN_DAY"
proof -
  have w: "iw_from w = from" "iw_to w = until" "span_days from until \<le> MAX_WINDOW_DAYS"
    using assms(1) by (auto simp: bounded_window_def Let_def split: if_splits)
  have "- ((from - until) div MS_IN_DAY) \<le> MAX_WINDOW_DAYS" using w(3) by (simp add: span_days_def)
  then have "until - from \<le> MAX_WINDOW_DAYS * MS_IN_DAY" by (simp add: MS_IN_DAY_def MAX_WINDOW_DAYS_def)
  then show ?thesis using assms(2) w by simp
qed

lemma impact_window_ok:
  assumes "compute_impact_window event proof_at created approved = Inr w"
  shows "iw_from w \<le> iw_to w \<and> iw_to w - iw_from w \<le> MAX_WINDOW_DAYS * MS_IN_DAY"
proof -
  have "\<exists>a b src. bounded_window a b src = Inr w \<and> a \<le> b"
  proof (cases approved)
    case (Some p)
    obtain a b r where "p = (a, b, r)" by (cases p)
    then have "bounded_window a b APPROVED_WINDOW = Inr w \<and> a \<le> b"
      using assms Some by (simp add: compute_impact_window_def not_less split: if_splits)
    then show ?thesis by blast
  next
    case None
    let ?start = "if created \<le> event then created else event"
    have "bounded_window ?start event EQUIPMENT_CREATION = Inr w \<or> (\<exists>p \<le> event. bounded_window p event LAST_CONFORME_PROOF = Inr w)"
      using assms None by (cases proof_at) (auto simp: compute_impact_window_def split: if_splits)
    moreover have "?start \<le> event" by simp
    ultimately show ?thesis by blast
  qed
  then obtain a b src where "bounded_window a b src = Inr w" "a \<le> b" by blast
  then show ?thesis by (rule bounded_window_ok)
qed

lemma open_impact_effect:
  assumes "open_impact_dossier env e execution approved db = Inr db1"
  shows "mb_equipment db1 = mb_equipment db" "mb_executions db1 = mb_executions db" "mb_plans db1 = mb_plans db"
    "mb_measurements db1 = mb_measurements db" "mb_next db \<le> mb_next db1"
    "\<exists>ds. mb_dossiers db1 = mb_dossiers db @ ds \<and> list_all dossier_bounded ds"
    "case execution of None \<Rightarrow> True | Some x \<Rightarrow> has_dossier (mb_dossiers db1) x"
proof -
  consider (old) "execution \<noteq> None" "list_ex (\<lambda>d. im_execution d = execution \<and> im_status d \<noteq> IS_CANCELLED) (mb_dossiers db)" "db1 = db"
    | (new) d items n where "db1 = db\<lparr>mb_dossiers := mb_dossiers db @ [d], mb_items := items, mb_next := n\<rparr>" "mb_next db \<le> n"
        "im_execution d = execution" "dossier_bounded d"
  proof (cases "execution \<noteq> None \<and> list_ex (\<lambda>d. im_execution d = execution \<and> im_status d \<noteq> IS_CANCELLED) (mb_dossiers db)")
    case True
    then have "Inr db = (Inr db1 :: metrology_db result)" using assms unfolding open_impact_dossier_def if_P [OF True] by simp
    then show thesis using True old by blast
  next
    case False
    then obtain r where r: "find_equipment e db = Some r"
      using assms unfolding open_impact_dossier_def if_not_P [OF False] by (cases "find_equipment e db") simp_all
    obtain w event where w: "compute_impact_window event (eq_last_proof_at r) (eq_created r) approved = Inr w"
        "insert_impact_dossier env e execution r w db = db1"
      using assms unfolding open_impact_dossier_def if_not_P [OF False] r option.case Let_def by auto
    define us where "us = take IMPACT_ITEM_HARD_LIMIT (mt_usages env e (iw_from w) (iw_to w))"
    define d where "d = \<lparr>im_id = mb_next db, im_equipment = e, im_execution = execution, im_status = IS_OPEN, im_window = w,
      im_priority = suggest_impact_priority (compute_volumes us (length (mt_usages env e (iw_from w) (iw_to w)))) (eq_criticality r),
      im_volumes = compute_volumes us (length (mt_usages env e (iw_from w) (iw_to w))), im_updated = mt_now env\<rparr>"
    show thesis
    proof (rule new)
      show "db1 = db\<lparr>mb_dossiers := mb_dossiers db @ [d], mb_items := mb_items db @ number_items (Suc (mb_next db)) (mb_next db) (distinct_usages us),
          mb_next := Suc (mb_next db) + length (distinct_usages us)\<rparr>"
        unfolding w(2) [symmetric] insert_impact_dossier_def Let_def us_def d_def ..
      show "im_execution d = execution" "dossier_bounded d" using impact_window_ok [OF w(1)] by (simp_all add: d_def dossier_bounded_def)
    qed simp
  qed
  then show "mb_equipment db1 = mb_equipment db" "mb_executions db1 = mb_executions db" "mb_plans db1 = mb_plans db"
    "mb_measurements db1 = mb_measurements db" "mb_next db \<le> mb_next db1"
    "\<exists>ds. mb_dossiers db1 = mb_dossiers db @ ds \<and> list_all dossier_bounded ds"
    "case execution of None \<Rightarrow> True | Some x \<Rightarrow> has_dossier (mb_dossiers db1) x"
    by (cases; force simp: has_dossier_def list_ex_iff split: option.split)+
qed

definition mark_validated :: "metrology_env \<Rightarrow> validation_input \<Rightarrow> preview \<Rightarrow> string option \<Rightarrow> execution_row \<Rightarrow> execution_row" where
  "mark_validated env v p due y =
     y\<lparr>ex_status := EX_VALIDATED, ex_ended := Some (case vi_ended v of None \<Rightarrow> mt_now env | Some t \<Rightarrow> t),
       ex_computed := Some (vx_verdict (pr_computation p)), ex_verdict := Some (vi_verdict v), ex_decision := Some (vi_decision v),
       ex_next_due := due, ex_updated := mt_now env\<rparr>"

lemma validate_effect:
  assumes "validate_execution env x expected v db = Inr db1"
  obtains r e plan p due where "lock_execution x db = Inr r" "ex_status r = EX_IN_PROGRESS" "find_equipment (ex_equipment r) db = Some e"
    "plan_of (ex_plan r) (ex_equipment r) db = Inr plan" "preview_verdict env x db = Inr p"
    "assert_manual_verdict_override \<lparr>vo_computed = vx_verdict (pr_computation p), vo_requested = vi_verdict v,
         vo_justification = vi_justification v, vo_evidence = mt_evidence env x, vo_require_evidence = True\<rparr> = Inr ()"
    "ex_operator r \<noteq> Some (mt_actor env)"
    "(if verdict_is_admissible_proof (vi_verdict v) then Inr (keep_proof env v r e plan due (update_execution x (mark_validated env v p due) db))
      else if verdict_triggers_quarantine (vi_verdict v) then condemn env v r plan (update_execution x (mark_validated env v p due) db)
      else Inr (update_execution x (mark_validated env v p due) db)) = Inr db1"
proof -
  obtain r where r: "lock_execution x db = Inr r" "assert_metrology_execution_transition (ex_status r) EX_VALIDATED = Inr ()"
    using assms unfolding validate_execution_def by auto
  then obtain e where e: "find_equipment (ex_equipment r) db = Some e"
    using assms unfolding validate_execution_def by (cases "find_equipment (ex_equipment r) db") auto
  have "bind_result (lock_execution x db) (\<lambda>r. f r) = f r" for f :: "execution_row \<Rightarrow> metrology_db result" by (simp add: r(1))
  note body = assms [unfolded validate_execution_def this e option.case]
  obtain plan p due where p: "plan_of (ex_plan r) (ex_equipment r) db = Inr plan" "preview_verdict env x db = Inr p"
      "assert_verdict_separation DEFAULT_METROLOGY_SEPARATION (ex_operator r) (mt_actor env) = Inr ()"
      "assert_manual_verdict_override \<lparr>vo_computed = vx_verdict (pr_computation p), vo_requested = vi_verdict v,
         vo_justification = vi_justification v, vo_evidence = mt_evidence env x, vo_require_evidence = True\<rparr> = Inr ()"
    and final: "(let ended = (case vi_ended v of None \<Rightarrow> mt_now env | Some t \<Rightarrow> t); db0 = update_execution x (mark_validated env v p due) db
       in if ended < ex_started r then Inl (JsError ''23514'')
         else if verdict_is_admissible_proof (vi_verdict v) then Inr (keep_proof env v r e plan due db0)
         else if verdict_triggers_quarantine (vi_verdict v) then condemn env v r plan db0
         else Inr db0) = Inr db1"
    using body unfolding mark_validated_def Let_def by (auto simp del: bind_result_Inr_iff simp: bind_result_Inr_iff [where y = db1])
  have "ex_status r = EX_IN_PROGRESS" using r(2) by (cases "ex_status r") (simp_all add: assert_metrology_execution_transition_def)
  moreover have "ex_operator r \<noteq> Some (mt_actor env)"
    using p(3) by (auto simp: assert_verdict_separation_def DEFAULT_METROLOGY_SEPARATION_def split: if_splits)
  moreover have "(if verdict_is_admissible_proof (vi_verdict v) then Inr (keep_proof env v r e plan due (update_execution x (mark_validated env v p due) db))
      else if verdict_triggers_quarantine (vi_verdict v) then condemn env v r plan (update_execution x (mark_validated env v p due) db)
      else Inr (update_execution x (mark_validated env v p due) db)) = Inr db1"
    using final unfolding Let_def by (simp split: if_splits)
  ultimately show thesis using that r(1) e p(1,2,4) by blast
qed

section \<open>The state of an instrument\<close>

definition out_of_service :: "equipment_state \<Rightarrow> bool" where
  "out_of_service s \<longleftrightarrow> s \<in> {EQ_QUARANTINE, EQ_OUT_OF_TOLERANCE, EQ_UNDER_REPAIR, EQ_RETIRED}"

lemma out_of_service_simps [simp]:
  "out_of_service EQ_QUARANTINE" "out_of_service EQ_OUT_OF_TOLERANCE" "out_of_service EQ_UNDER_REPAIR" "out_of_service EQ_RETIRED"
  "\<not> out_of_service EQ_DRAFT" "\<not> out_of_service EQ_ACTIVE" "\<not> out_of_service EQ_QUALIFIED" "\<not> out_of_service EQ_SUSPENDED"
  by (simp_all add: out_of_service_def)

definition may_release :: "metrology_env \<Rightarrow> bool" where
  "may_release env \<longleftrightarrow> role_has_metrology_capability (mt_granted env) (mt_role env) MC_equipment_release"

text \<open>A request that puts an instrument back to service: who asks, why, and on what.\<close>

definition proven_release :: "metrology_env \<Rightarrow> metrology_request \<Rightarrow> metrology_db \<Rightarrow> equipment_row \<Rightarrow> bool" where
  "proven_release env q db r \<longleftrightarrow>
     (case q of TransitionEquipment e _ target reason _ \<Rightarrow>
        e = eq_id r \<and> target = EQ_QUALIFIED \<and> may_release env \<and> 10 \<le> reason_length (Some reason) \<and> eq_state r \<noteq> EQ_RETIRED
        \<and> list_ex (conforming_execution e) (mb_executions db)
        \<and> (eq_state r = EQ_QUARANTINE \<or> list_ex (repair_execution e) (mb_executions db))
      | _ \<Rightarrow> False)"

definition moved :: "metrology_env \<Rightarrow> metrology_request \<Rightarrow> metrology_db \<Rightarrow> equipment_row \<Rightarrow> equipment_row \<Rightarrow> bool" where
  "moved env q db r r' \<longleftrightarrow> eq_id r' = eq_id r
     \<and> (if out_of_service (eq_state r) \<and> \<not> out_of_service (eq_state r') then proven_release env q db r else True)"

lemma moved_refl [simp]: "moved env q db r r"
  by (simp add: moved_def)

lemma moved_same [simp]: "list_all2 (moved env q db) rs rs"
  by (simp add: list_all2_refl)

lemma moved_one:
  assumes "\<And>r. r \<in> set rs \<Longrightarrow> eq_id r = e \<Longrightarrow> moved env q db r (f r)"
  shows "list_all2 (moved env q db) rs (map (\<lambda>r. if eq_id r = e then f r else r) rs)"
  using assms by (induction rs) simp_all

lemma moved_two:
  assumes "\<And>r. r \<in> set rs \<Longrightarrow> eq_id r = e \<Longrightarrow> moved env q db r (g (f r))" "\<And>r. eq_id (f r) = eq_id r"
  shows "list_all2 (moved env q db) rs (map (\<lambda>r. if eq_id r = e then g r else r) (map (\<lambda>r. if eq_id r = e then f r else r) rs))"
  using assms by (induction rs) simp_all

lemma locked_equipment:
  assumes "lock_equipment e db = Inr r" "distinct (map eq_id (mb_equipment db))" "s \<in> set (mb_equipment db)" "eq_id s = e"
  shows "s = r"
proof -
  have "r \<in> set (mb_equipment db)" "eq_id r = e" using assms(1) by (auto simp: lock_equipment_def find_Some_iff split: option.splits)
  then show ?thesis using assms(2-4) by (metis distinct_map inj_onD)
qed

lemma found_equipment:
  assumes "find_equipment e db = Some r" "distinct (map eq_id (mb_equipment db))" "s \<in> set (mb_equipment db)" "eq_id s = e"
  shows "s = r"
proof -
  have "r \<in> set (mb_equipment db)" "eq_id r = e" using assms(1) by (auto simp: find_equipment_def find_Some_iff)
  then show ?thesis using assms(2-4) by (metis distinct_map inj_onD)
qed

lemma latest_execution_None: "latest_execution best xs = None \<Longrightarrow> best = None \<and> xs = []"
proof (induction xs arbitrary: best)
  case (Cons x xs)
  let ?c = "case best of None \<Rightarrow> Some x
       | Some b \<Rightarrow> (case (ex_ended b, ex_ended x) of (Some s, Some t) \<Rightarrow> if s < t then Some x else best | (None, Some t) \<Rightarrow> Some x | _ \<Rightarrow> best)"
  have "?c = Some x \<or> ?c = best \<and> best \<noteq> None"
  proof (cases best)
    case (Some b)
    then show ?thesis by (cases "ex_ended b"; cases "ex_ended x") simp_all
  qed simp
  moreover have "?c = None" using Cons.IH [of ?c] Cons.prems by (simp only: latest_execution.simps)
  ultimately show ?case by auto
qed simp

lemma release_proof_found: "lr_execution (load_release_proof e w db) \<noteq> None \<Longrightarrow> list_ex (conforming_execution e) (mb_executions db)"
proof (rule ccontr)
  assume "\<not> list_ex (conforming_execution e) (mb_executions db)"
  then have "filter (\<lambda>x. conforming_execution e x \<and> (case w of None \<Rightarrow> True | Some i \<Rightarrow> ex_id x = i)) (mb_executions db) = []"
    by (auto simp: filter_empty_conv list_ex_iff)
  moreover assume "lr_execution (load_release_proof e w db) \<noteq> None"
  ultimately show False by (simp add: load_release_proof_def)
qed

lemma leaving_service_targets:
  "assert_equipment_transition s t = Inr () \<Longrightarrow> out_of_service s \<Longrightarrow> \<not> out_of_service t \<Longrightarrow>
     t = EQ_QUALIFIED \<and> s \<noteq> EQ_RETIRED \<and> transition_requires_release s t"
  by (cases s; cases t) (simp_all add: assert_equipment_transition_def transition_requires_release_def release_targets_def)

lemma transition_moved:
  assumes "transition_equipment env e v t reason proof_id db = Inr db1" "distinct (map eq_id (mb_equipment db))"
  shows "list_all2 (moved env (TransitionEquipment e v t reason proof_id) db) (mb_equipment db) (mb_equipment db1)"
proof -
  obtain r where r: "lock_equipment e db = Inr r" "assert_equipment_transition (eq_state r) t = Inr ()"
    and rel: "(if transition_requires_release (eq_state r) t
        then (if \<not> role_has_metrology_capability (mt_granted env) (mt_role env) MC_equipment_release then Inl (HttpError 403 ''METROLOGY_CAPABILITY_REQUIRED'')
              else (let p = load_release_proof e proof_id db
                    in assert_equipment_release_allowed \<lparr>rp_valid_proof = (lr_execution p \<noteq> None), rp_proof = lr_execution p,
                         rp_repair_required = (eq_state r = EQ_UNDER_REPAIR \<or> eq_state r = EQ_OUT_OF_TOLERANCE), rp_repair_done = lr_repair_done p,
                         rp_reason = Some reason\<rparr>))
        else Inr ()) = Inr ()"
    and db1: "db1 = update_equipment e (\<lambda>y. y\<lparr>eq_state := t, eq_reason := Some reason,
          eq_quarantine := (if t \<in> {EQ_QUARANTINE, EQ_OUT_OF_TOLERANCE} then eq_quarantine y else None), eq_updated := mt_now env\<rparr>) db"
    using assms(1) unfolding transition_equipment_def by auto
  show ?thesis unfolding db1 update_equipment_frame
  proof (rule moved_one)
    fix s assume s: "s \<in> set (mb_equipment db)" "eq_id s = e"
    have sr: "s = r" by (rule locked_equipment [OF r(1) assms(2) s])
    have "proven_release env (TransitionEquipment e v t reason proof_id) db r" if out: "out_of_service (eq_state r)" "\<not> out_of_service t"
    proof -
      note l = leaving_service_targets [OF r(2) out]
      have ok: "may_release env" "release_missing \<lparr>rp_valid_proof = (lr_execution (load_release_proof e proof_id db) \<noteq> None),
          rp_proof = lr_execution (load_release_proof e proof_id db),
          rp_repair_required = (eq_state r = EQ_UNDER_REPAIR \<or> eq_state r = EQ_OUT_OF_TOLERANCE),
          rp_repair_done = lr_repair_done (load_release_proof e proof_id db), rp_reason = Some reason\<rparr> = []"
        using rel l by (auto simp: may_release_def Let_def assert_equipment_release_allowed_def split: if_splits)
      then have m: "lr_execution (load_release_proof e proof_id db) \<noteq> None" "10 \<le> reason_length (Some reason)"
          "eq_state r = EQ_UNDER_REPAIR \<or> eq_state r = EQ_OUT_OF_TOLERANCE \<Longrightarrow> lr_repair_done (load_release_proof e proof_id db)"
        by (auto simp: release_missing_def split: if_splits)
      have "eq_state r = EQ_QUARANTINE \<or> eq_state r = EQ_UNDER_REPAIR \<or> eq_state r = EQ_OUT_OF_TOLERANCE"
        using out(1) l by (cases "eq_state r") simp_all
      then show ?thesis using l ok(1) m(2,3) release_proof_found [OF m(1)] s(2) sr
        by (auto simp: proven_release_def load_release_proof_def)
    qed
    then show "moved env (TransitionEquipment e v t reason proof_id) db s (s\<lparr>eq_state := t, eq_reason := Some reason,
          eq_quarantine := (if t \<in> {EQ_QUARANTINE, EQ_OUT_OF_TOLERANCE} then eq_quarantine s else None), eq_updated := mt_now env\<rparr>)"
      unfolding sr by (simp add: moved_def)
  qed
qed

lemma quarantine_moved:
  assumes "quarantine_equipment env e v reason a db = Inr db1"
  shows "list_all2 (moved env q db) (mb_equipment db) (mb_equipment db1)"
proof -
  have eqs: "mb_equipment db1 = map (\<lambda>r. if eq_id r = e then r\<lparr>eq_state := EQ_QUARANTINE, eq_reason := Some reason,
      eq_quarantine := Some (Some reason, mt_now env), eq_updated := mt_now env\<rparr> else r) (mb_equipment db)"
    using assms open_impact_effect(1) unfolding quarantine_equipment_def by (fastforce simp: Let_def split: if_splits)
  show ?thesis unfolding eqs by (rule moved_one) (simp add: moved_def)
qed

lemma keep_proof_moved:
  assumes "find_equipment (ex_equipment x) db = Some e" "distinct (map eq_id (mb_equipment db))" "mb_equipment db0 = mb_equipment db"
  shows "list_all2 (moved env q db) (mb_equipment db) (mb_equipment (keep_proof env v x e plan due db0))"
proof -
  define f where "f = (\<lambda>r. r\<lparr>eq_last_proof := Some (ex_id x), eq_last_proof_at := Some (case vi_ended v of None \<Rightarrow> mt_now env | Some t \<Rightarrow> t), eq_updated := mt_now env\<rparr> :: equipment_row)"
  define g where "g = (\<lambda>r. r\<lparr>eq_state := EQ_QUALIFIED, eq_reason := Some (vi_reason v), eq_updated := mt_now env\<rparr> :: equipment_row)"
  have f: "eq_id (f r) = eq_id r" "eq_state (f r) = eq_state r" for r by (simp_all add: f_def)
  have g: "eq_id (g r) = eq_id r" "eq_state (g r) = EQ_QUALIFIED" for r by (simp_all add: g_def)
  have "mb_equipment (keep_proof env v x e plan due db0) =
      (if vi_decision v = REMISE_EN_SERVICE \<and> eq_state e = EQ_ACTIVE
       then map (\<lambda>r. if eq_id r = ex_equipment x then g r else r) (map (\<lambda>r. if eq_id r = ex_equipment x then f r else r) (mb_equipment db))
       else map (\<lambda>r. if eq_id r = ex_equipment x then f r else r) (mb_equipment db))"
    unfolding f_def g_def using assms(3) by (cases plan) (simp_all add: keep_proof_def Let_def)
  moreover have "list_all2 (moved env q db) (mb_equipment db) (map (\<lambda>r. if eq_id r = ex_equipment x then f r else r) (mb_equipment db))"
    by (rule moved_one) (simp add: moved_def f)
  moreover have "list_all2 (moved env q db) (mb_equipment db)
      (map (\<lambda>r. if eq_id r = ex_equipment x then g r else r) (map (\<lambda>r. if eq_id r = ex_equipment x then f r else r) (mb_equipment db)))" if "eq_state e = EQ_ACTIVE"
  proof (rule moved_two)
    fix r assume "r \<in> set (mb_equipment db)" "eq_id r = ex_equipment x"
    then have "r = e" by (rule found_equipment [OF assms(1,2)])
    then show "moved env q db r (g (f r))" using that by (simp add: moved_def f g)
  qed (rule f)
  ultimately show ?thesis by simp
qed

lemma condemn_effect:
  assumes "condemn env v x plan db0 = Inr db1"
  shows "list_all2 (moved env q db) (mb_equipment db0) (mb_equipment db1)" "mb_executions db1 = mb_executions db0"
    "mb_plans db1 = mb_plans db0" "mb_measurements db1 = mb_measurements db0" "mb_next db0 \<le> mb_next db1"
    "\<exists>ds. mb_dossiers db1 = mb_dossiers db0 @ ds \<and> list_all dossier_bounded ds" "has_dossier (mb_dossiers db1) (ex_id x)"
proof -
  define dba where "dba = (case plan of
      None \<Rightarrow> update_equipment (ex_equipment x) (\<lambda>r. r\<lparr>eq_state := EQ_OUT_OF_TOLERANCE, eq_reason := Some (vi_reason v),
            eq_quarantine := Some (Some (vi_reason v), mt_now env), eq_updated := mt_now env\<rparr>) db0
    | Some p \<Rightarrow> sync_legacy_plan (ex_equipment x) (months_from_periodicity (sp_value (mp_schedule p)) (sp_unit (mp_schedule p))) None None LS_HORS_TOLERANCE
        (update_equipment (ex_equipment x) (\<lambda>r. r\<lparr>eq_state := EQ_OUT_OF_TOLERANCE, eq_reason := Some (vi_reason v),
            eq_quarantine := Some (Some (vi_reason v), mt_now env), eq_updated := mt_now env\<rparr>) db0))"
  have a: "open_impact_dossier env (ex_equipment x) (Some (ex_id x)) None dba = Inr db1"
    using assms by (simp add: condemn_def Let_def dba_def)
  have same: "mb_executions dba = mb_executions db0" "mb_plans dba = mb_plans db0" "mb_measurements dba = mb_measurements db0"
      "mb_next dba = mb_next db0" "mb_dossiers dba = mb_dossiers db0"
      "mb_equipment dba = map (\<lambda>r. if eq_id r = ex_equipment x then r\<lparr>eq_state := EQ_OUT_OF_TOLERANCE, eq_reason := Some (vi_reason v),
            eq_quarantine := Some (Some (vi_reason v), mt_now env), eq_updated := mt_now env\<rparr> else r) (mb_equipment db0)"
    unfolding dba_def by (cases plan; simp)+
  note o' = open_impact_effect [OF a]
  show "mb_executions db1 = mb_executions db0" "mb_plans db1 = mb_plans db0" "mb_measurements db1 = mb_measurements db0" "mb_next db0 \<le> mb_next db1"
    "\<exists>ds. mb_dossiers db1 = mb_dossiers db0 @ ds \<and> list_all dossier_bounded ds" "has_dossier (mb_dossiers db1) (ex_id x)"
    using o' same by simp_all
  show "list_all2 (moved env q db) (mb_equipment db0) (mb_equipment db1)"
    unfolding o'(1) same(6) by (rule moved_one) (simp add: moved_def)
qed

lemma validate_moved:
  assumes "validate_execution env x ver v db = Inr db1" "distinct (map eq_id (mb_equipment db))"
  shows "list_all2 (moved env q db) (mb_equipment db) (mb_equipment db1)"
proof -
  obtain r e plan p due where r: "find_equipment (ex_equipment r) db = Some e"
    "(if verdict_is_admissible_proof (vi_verdict v) then Inr (keep_proof env v r e plan due (update_execution x (mark_validated env v p due) db))
      else if verdict_triggers_quarantine (vi_verdict v) then condemn env v r plan (update_execution x (mark_validated env v p due) db)
      else Inr (update_execution x (mark_validated env v p due) db)) = Inr db1"
    by (rule validate_effect [OF assms(1)])
  show ?thesis
  proof (cases "verdict_is_admissible_proof (vi_verdict v)")
    case True
    then show ?thesis using r keep_proof_moved [OF r(1) assms(2)] by auto
  next
    case False
    then show ?thesis using r(2) condemn_effect(1) by (fastforce split: if_splits)
  qed
qed

section \<open>Executions and files\<close>

definition analysed :: "metrology_db \<Rightarrow> bool" where
  "analysed db \<longleftrightarrow> list_all (\<lambda>x. if ex_verdict x = Some MV_NON_CONFORME then has_dossier (mb_dossiers db) (ex_id x) else True) (mb_executions db)"

definition executions_ok :: "metrology_db \<Rightarrow> bool" where
  "executions_ok db \<longleftrightarrow> distinct (map ex_id (mb_executions db)) \<and> list_all (\<lambda>x. ex_id x < mb_next db) (mb_executions db)"

definition dossiers_grow :: "metrology_db \<Rightarrow> metrology_db \<Rightarrow> bool" where
  "dossiers_grow db db1 \<longleftrightarrow> mb_next db \<le> mb_next db1 \<and> (\<forall>x. has_dossier (mb_dossiers db) x \<longrightarrow> has_dossier (mb_dossiers db1) x)
     \<and> (list_all dossier_bounded (mb_dossiers db) \<longrightarrow> list_all dossier_bounded (mb_dossiers db1))
     \<and> (mb_measurements db = [] \<longrightarrow> mb_measurements db1 = [])"

inductive execution_change :: "metrology_db \<Rightarrow> metrology_db \<Rightarrow> bool" where
  same: "mb_executions db1 = mb_executions db \<Longrightarrow> execution_change db db1"
| new: "mb_executions db1 = mb_executions db @ [x] \<Longrightarrow> ex_id x = mb_next db \<Longrightarrow> ex_verdict x = None \<Longrightarrow> mb_next db < mb_next db1
    \<Longrightarrow> execution_change db db1"
| upd: "lock_execution x db = Inr r \<Longrightarrow> ex_status r \<noteq> EX_VALIDATED \<Longrightarrow> (\<And>y. ex_id (f y) = ex_id y)
    \<Longrightarrow> (\<And>y. ex_verdict (f y) = Some MV_NON_CONFORME \<Longrightarrow> ex_verdict y = Some MV_NON_CONFORME \<or> has_dossier (mb_dossiers db1) x)
    \<Longrightarrow> mb_executions db1 = map (\<lambda>y. if ex_id y = x then f y else y) (mb_executions db) \<Longrightarrow> execution_change db db1"

lemma dossiers_same [simp]:
  "mb_dossiers db1 = mb_dossiers db \<Longrightarrow> mb_measurements db1 = mb_measurements db \<Longrightarrow> mb_next db \<le> mb_next db1 \<Longrightarrow> dossiers_grow db db1"
  by (simp add: dossiers_grow_def)

lemma has_dossier_append [simp]: "has_dossier (ds @ es) x \<longleftrightarrow> has_dossier ds x \<or> has_dossier es x"
  by (simp add: has_dossier_def)

lemma dossiers_added:
  "mb_dossiers db1 = mb_dossiers db @ ds \<Longrightarrow> list_all dossier_bounded ds \<Longrightarrow> mb_measurements db1 = mb_measurements db
     \<Longrightarrow> mb_next db \<le> mb_next db1 \<Longrightarrow> dossiers_grow db db1"
  by (simp add: dossiers_grow_def)

lemma open_impact_grows: "open_impact_dossier env e x w db = Inr db1 \<Longrightarrow> dossiers_grow db db1"
  using open_impact_effect(4-6) dossiers_added by metis

lemma keep_proof_frame:
  "mb_executions (keep_proof env v x e plan due db) = mb_executions db" "mb_dossiers (keep_proof env v x e plan due db) = mb_dossiers db"
  "mb_measurements (keep_proof env v x e plan due db) = mb_measurements db" "mb_next (keep_proof env v x e plan due db) = mb_next db"
  by (cases plan; simp add: keep_proof_def Let_def)+

lemma mark_validated_simps [simp]:
  "ex_id (mark_validated env v p due y) = ex_id y" "ex_verdict (mark_validated env v p due y) = Some (vi_verdict v)"
  by (simp_all add: mark_validated_def)

lemma validate_execution_change:
  assumes "validate_execution env x ver v db = Inr db1"
  shows "dossiers_grow db db1 \<and> execution_change db db1"
proof -
  obtain r e plan p due where r: "lock_execution x db = Inr r" "ex_status r = EX_IN_PROGRESS"
    and f: "(if verdict_is_admissible_proof (vi_verdict v) then Inr (keep_proof env v r e plan due (update_execution x (mark_validated env v p due) db))
      else if verdict_triggers_quarantine (vi_verdict v) then condemn env v r plan (update_execution x (mark_validated env v p due) db)
      else Inr (update_execution x (mark_validated env v p due) db)) = Inr db1"
    by (rule validate_effect [OF assms(1)])
  let ?db0 = "update_execution x (mark_validated env v p due) db"
  have x: "ex_id r = x" using locked_execution [OF r(1)] by simp
  have "dossiers_grow db db1 \<and> mb_executions db1 = mb_executions ?db0 \<and> (vi_verdict v = MV_NON_CONFORME \<longrightarrow> has_dossier (mb_dossiers db1) x)"
  proof (cases "verdict_is_admissible_proof (vi_verdict v)")
    case True
    then have "db1 = keep_proof env v r e plan due ?db0" using f by simp
    moreover have "vi_verdict v \<noteq> MV_NON_CONFORME" using True by (auto simp: verdict_is_admissible_proof_def)
    ultimately show ?thesis by (simp add: keep_proof_frame)
  next
    case False
    note f1 = f [unfolded if_not_P [OF False]]
    show ?thesis
    proof (cases "vi_verdict v = MV_NON_CONFORME")
      case True
      then have "condemn env v r plan ?db0 = Inr db1" using f1 by (simp add: verdict_triggers_quarantine_def)
      note c = condemn_effect(2-7) [OF this]
      obtain ds where "mb_dossiers db1 = mb_dossiers db @ ds" "list_all dossier_bounded ds" using c(5) by auto
      then show ?thesis using dossiers_added [of db1 db ds] c x by simp
    next
      case False
      then have "db1 = ?db0" using f1 by (simp add: verdict_triggers_quarantine_def)
      then show ?thesis using False by simp
    qed
  qed
  then show ?thesis using r by (auto intro: upd [of x db r "mark_validated env v p due" db1])
qed

lemma activate_plan_frame:
  "mb_equipment (activate_plan env e p eqr r db) = mb_equipment db" "mb_executions (activate_plan env e p eqr r db) = mb_executions db"
  "mb_dossiers (activate_plan env e p eqr r db) = mb_dossiers db" "mb_measurements (activate_plan env e p eqr r db) = mb_measurements db"
  "mb_next (activate_plan env e p eqr r db) = mb_next db"
  by (simp_all add: activate_plan_def Let_def)

lemma other_execution_change:
  assumes "metrology_command env q db = Inr db1" "case q of ValidateExecution _ _ _ \<Rightarrow> False | _ \<Rightarrow> True"
  shows "dossiers_grow db db1 \<and> execution_change db db1"
proof (cases q)
  case (CreateExecution e b)
  then have "create_execution env e b db = Inr db1" using assms(1) by simp
  then obtain x where "db1 = db\<lparr>mb_executions := mb_executions db @ [x], mb_next := Suc (mb_next db)\<rparr>" "ex_id x = mb_next db" "ex_verdict x = None"
    unfolding create_execution_def by (auto split: if_splits)
  then show ?thesis by (auto intro: new)
next
  case (RecordMeasurements x v ms)
  then have r: "record_measurements env x v ms db = Inr db1" using assms(1) by simp
  obtain r where "lock_execution x db = Inr r" "ex_status r \<noteq> EX_VALIDATED" using record_measurements_effect(2) [OF r] by blast
  then show ?thesis unfolding record_measurements_effect(3) [OF r]
    by (auto intro!: upd [of x db r "\<lambda>y. y\<lparr>ex_updated := mt_now env\<rparr>"])
next
  case (CancelExecution x v)
  then obtain r where r: "lock_execution x db = Inr r" "assert_metrology_execution_transition (ex_status r) EX_CANCELLED = Inr ()"
      "db1 = update_execution x (\<lambda>y. y\<lparr>ex_status := EX_CANCELLED, ex_updated := mt_now env\<rparr>) db"
    using assms(1) by (auto simp: cancel_execution_def)
  then have "ex_status r \<noteq> EX_VALIDATED" by (auto simp: assert_metrology_execution_transition_def)
  then show ?thesis unfolding r(3) using r(1)
    by (auto intro!: upd [of x db r "\<lambda>y. y\<lparr>ex_status := EX_CANCELLED, ex_updated := mt_now env\<rparr>"])
next
  case (TransitionEquipment e v t reason p)
  then show ?thesis using assms(1) by (auto simp: transition_equipment_def intro: same)
next
  case (QuarantineEquipment e v reason a)
  then have "\<exists>f. (if a then open_impact_dossier env e None None (update_equipment e f db) else Inr (update_equipment e f db)) = Inr db1"
    using assms(1) by (auto simp: quarantine_equipment_def Let_def)
  then obtain f where f: "(if a then open_impact_dossier env e None None (update_equipment e f db) else Inr (update_equipment e f db)) = Inr db1" ..
  show ?thesis
  proof (cases a)
    case True
    then have o': "open_impact_dossier env e None None (update_equipment e f db) = Inr db1" using f by simp
    have "dossiers_grow db db1" using open_impact_grows [OF o'] by (simp add: dossiers_grow_def)
    then show ?thesis using open_impact_effect(2) [OF o'] by (simp add: same)
  qed (use f in \<open>auto intro: same\<close>)
next
  case (CreatePlan e b)
  then show ?thesis using assms(1) by (auto simp: create_plan_version_def insert_plan_def intro: same)
next
  case (RevisePlan e p v b)
  then show ?thesis using assms(1) by (auto simp: revise_plan_version_def insert_plan_def Let_def split: if_splits intro: same)
next
  case (TransitionPlan e p v t)
  then obtain eqr r where l: "lock_equipment e db = Inr eqr" "load_plan_context p e db = Inr r"
    and r: "(if t = MP_ACTIVE then Inr (activate_plan env e p eqr r db)
       else Inr (update_plans (\<lambda>y. mp_id y = p) (\<lambda>y. y\<lparr>mp_status := MP_ARCHIVED, mp_updated := mt_now env\<rparr>) db)) = (Inr db1 :: metrology_db result)"
    using assms(1) by (auto simp: transition_plan_version_def)
  then show ?thesis by (cases "t = MP_ACTIVE") (auto simp: activate_plan_frame intro: same)
next
  case (CreateImpact e x w)
  then have o': "open_impact_dossier env e x w db = Inr db1" using assms(1) by simp
  then show ?thesis using open_impact_grows [OF o'] open_impact_effect(2) [OF o'] by (simp add: same)
next
  case (DecideImpactItem d i dec reason)
  then show ?thesis using assms(1) by (auto simp: decide_impact_item_def split: option.splits if_splits intro: same)
next
  case (TransitionImpact d v t c)
  then obtain f where f: "db1 = db\<lparr>mb_dossiers := map (\<lambda>x. if im_id x = d then f x else x) (mb_dossiers db)\<rparr>"
      "\<And>x. im_execution (f x) = im_execution x" "\<And>x. im_window (f x) = im_window x"
    using assms(1) by (auto simp: transition_impact_def split: option.splits)
  have "has_dossier (map (\<lambda>x. if im_id x = d then f x else x) ds) y = has_dossier ds y"
    "list_all dossier_bounded (map (\<lambda>x. if im_id x = d then f x else x) ds) = list_all dossier_bounded ds" for ds y
    by (induction ds) (simp_all add: has_dossier_def dossier_bounded_def f(2,3))
  then show ?thesis unfolding f(1) by (simp add: dossiers_grow_def same)
qed (use assms(2) in simp)

lemma command_execution_change: "metrology_command env q db = Inr db1 \<Longrightarrow> dossiers_grow db db1 \<and> execution_change db db1"
proof (cases "case q of ValidateExecution _ _ _ \<Rightarrow> False | _ \<Rightarrow> True")
  case False
  assume "metrology_command env q db = Inr db1"
  then show ?thesis using False validate_execution_change by (cases q) simp_all
qed (rule other_execution_change)

lemma executions_kept:
  assumes "dossiers_grow db db1 \<and> execution_change db db1" "executions_ok db" "analysed db"
  shows "executions_ok db1 \<and> analysed db1 \<and> set (filter (\<lambda>x. ex_status x = EX_VALIDATED) (mb_executions db)) \<subseteq> set (mb_executions db1)"
proof -
  have g: "mb_next db \<le> mb_next db1" "\<And>x. has_dossier (mb_dossiers db) x \<Longrightarrow> has_dossier (mb_dossiers db1) x"
    using assms(1) by (auto simp: dossiers_grow_def)
  have a: "has_dossier (mb_dossiers db1) (ex_id x)" if "x \<in> set (mb_executions db)" "ex_verdict x = Some MV_NON_CONFORME" for x
    using that assms(3) g(2) by (auto simp: analysed_def list_all_iff split: if_splits)
  have n: "ex_id x < mb_next db" "ex_id x < mb_next db1" if "x \<in> set (mb_executions db)" for x
    using that assms(2) g(1) by (auto simp: executions_ok_def list_all_iff)
  have "execution_change db db1" using assms(1) by simp
  then show ?thesis
  proof (cases rule: execution_change.cases)
    case same
    then show ?thesis using assms(2) a n by (auto simp: executions_ok_def analysed_def list_all_iff)
  next
    case (new x)
    then show ?thesis using assms(2) a n by (auto simp: executions_ok_def analysed_def list_all_iff dest: n(1))
  next
    case (upd x r f)
    have id: "map ex_id (mb_executions db1) = map ex_id (mb_executions db)" using upd(3,5) by simp
    have r: "r \<in> set (mb_executions db)" "ex_id r = x" using locked_execution [OF upd(1)] by simp_all
    have "y = r" if "y \<in> set (mb_executions db)" "ex_id y = x" for y
      using that r assms(2) by (metis distinct_map inj_onD executions_ok_def)
    then have v: "set (filter (\<lambda>x. ex_status x = EX_VALIDATED) (mb_executions db)) \<subseteq> set (mb_executions db1)"
      using upd(2,5) by force
    have "executions_ok db1" using assms(2) n(2) upd(3) unfolding executions_ok_def id unfolding upd(5) by (auto simp: list_all_iff)
    moreover have "analysed db1" unfolding analysed_def list_all_iff
    proof
      fix y assume "y \<in> set (mb_executions db1)"
      then obtain y0 where y0: "y0 \<in> set (mb_executions db)" "y = (if ex_id y0 = x then f y0 else y0)" using upd(5) by auto
      show "if ex_verdict y = Some MV_NON_CONFORME then has_dossier (mb_dossiers db1) (ex_id y) else True"
        using a [OF y0(1)] upd(3,4) y0(2) by (auto split: if_splits)
    qed
    ultimately show ?thesis using v by simp
  qed
qed

section \<open>Plans\<close>

definition plan_key :: "metrology_plan_row \<Rightarrow> nat \<times> metrology_operation" where
  "plan_key r = (mp_equipment r, mp_operation r)"

definition active_keys :: "metrology_plan_row list \<Rightarrow> (nat \<times> metrology_operation) list" where
  "active_keys ps = map plan_key (filter (\<lambda>r. mp_status r = MP_ACTIVE) ps)"

definition metrology_plans_ok :: "metrology_db \<Rightarrow> bool" where
  "metrology_plans_ok db \<longleftrightarrow> distinct (map mp_id (mb_plans db)) \<and> list_all (\<lambda>r. mp_id r < mb_next db) (mb_plans db) \<and> distinct (active_keys (mb_plans db))"

lemma one_active_iff:
  assumes "distinct (map mp_id ps)"
  shows "distinct (active_keys ps) \<longleftrightarrow>
    (\<forall>r \<in> set ps. \<forall>s \<in> set ps. mp_status r = MP_ACTIVE \<and> mp_status s = MP_ACTIVE \<and> plan_key r = plan_key s \<longrightarrow> r = s)"
  using assms by (auto simp: active_keys_def distinct_map inj_on_def)

inductive plan_change :: "metrology_db \<Rightarrow> metrology_db \<Rightarrow> bool" where
  plan_same: "mb_plans db1 = mb_plans db \<Longrightarrow> mb_next db \<le> mb_next db1 \<Longrightarrow> plan_change db db1"
| plan_new: "mb_plans db1 = mb_plans db @ [r] \<Longrightarrow> mp_id r = mb_next db \<Longrightarrow> mp_status r = MP_DRAFT \<Longrightarrow> mb_next db < mb_next db1 \<Longrightarrow> plan_change db db1"
| plan_map: "mb_plans db1 = map f (mb_plans db) \<Longrightarrow> mb_next db \<le> mb_next db1 \<Longrightarrow> (\<And>r. mp_id (f r) = mp_id r)
    \<Longrightarrow> (\<And>r. r \<in> set (mb_plans db) \<Longrightarrow> mp_status (f r) = MP_ACTIVE \<Longrightarrow> mp_status r = MP_ACTIVE \<and> plan_key (f r) = plan_key r)
    \<Longrightarrow> plan_change db db1"
| plan_activated: "mb_plans db1 = map f (mb_plans db) \<Longrightarrow> mb_next db \<le> mb_next db1 \<Longrightarrow> (\<And>r. mp_id (f r) = mp_id r)
    \<Longrightarrow> (\<And>r. r \<in> set (mb_plans db) \<Longrightarrow> mp_status (f r) = MP_ACTIVE
          \<Longrightarrow> (mp_id r = p \<and> plan_key (f r) = k) \<or> (mp_status r = MP_ACTIVE \<and> plan_key (f r) = plan_key r \<and> plan_key r \<noteq> k))
    \<Longrightarrow> plan_change db db1"

lemma plans_mapped:
  assumes "metrology_plans_ok db" "mb_plans db1 = map f (mb_plans db)" "mb_next db \<le> mb_next db1" "\<And>r. mp_id (f r) = mp_id r"
    and act: "\<And>r. r \<in> set (mb_plans db) \<Longrightarrow> mp_status (f r) = MP_ACTIVE
          \<Longrightarrow> (mp_id r = p \<and> plan_key (f r) = k) \<or> (mp_status r = MP_ACTIVE \<and> plan_key (f r) = plan_key r \<and> plan_key r \<noteq> k)"
  shows "metrology_plans_ok db1"
proof -
  have ids: "map mp_id (map f (mb_plans db)) = map mp_id (mb_plans db)" using assms(4) by simp
  have d: "distinct (map mp_id (mb_plans db))" "list_all (\<lambda>r. mp_id r < mb_next db) (mb_plans db)" "distinct (active_keys (mb_plans db))"
    using assms(1) by (auto simp: metrology_plans_ok_def)
  have u: "r = s" if "r \<in> set (mb_plans db)" "s \<in> set (mb_plans db)" "mp_id r = mp_id s" for r s
    using that d(1) by (metis distinct_map inj_onD)
  have one: "r = s" if "r \<in> set (mb_plans db)" "s \<in> set (mb_plans db)" "mp_status r = MP_ACTIVE" "mp_status s = MP_ACTIVE" "plan_key r = plan_key s" for r s
    using that d(3) one_active_iff [OF d(1)] by blast
  have "distinct (active_keys (map f (mb_plans db)))"
    unfolding one_active_iff [of "map f (mb_plans db)", unfolded ids, OF d(1)]
  proof (intro ballI impI)
    fix a b assume ab: "a \<in> set (map f (mb_plans db))" "b \<in> set (map f (mb_plans db))"
      "mp_status a = MP_ACTIVE \<and> mp_status b = MP_ACTIVE \<and> plan_key a = plan_key b"
    obtain r s where rs: "r \<in> set (mb_plans db)" "s \<in> set (mb_plans db)" "a = f r" "b = f s" using ab by auto
    have st: "mp_status (f r) = MP_ACTIVE" "mp_status (f s) = MP_ACTIVE" "plan_key (f r) = plan_key (f s)" using ab(3) rs(3,4) by simp_all
    have "r = s" using act [OF rs(1) st(1)] act [OF rs(2) st(2)] st(3) u [OF rs(1,2)] one [OF rs(1,2)] by metis
    then show "a = b" by (simp add: rs(3,4))
  qed
  moreover have "list_all (\<lambda>r. mp_id r < mb_next db1) (map f (mb_plans db))" using d(2) assms(3,4) by (fastforce simp: list_all_iff)
  ultimately show ?thesis using d(1) unfolding metrology_plans_ok_def assms(2) ids by simp
qed

lemma plans_kept:
  assumes "plan_change db db1" "metrology_plans_ok db"
  shows "metrology_plans_ok db1"
  using assms(1)
proof cases
  case plan_same
  then show ?thesis using assms(2) by (auto simp: metrology_plans_ok_def list_all_iff)
next
  case (plan_new r)
  then show ?thesis using assms(2) by (force simp: metrology_plans_ok_def list_all_iff active_keys_def)
next
  case (plan_map f)
  have one: "r = s" if "r \<in> set (mb_plans db)" "s \<in> set (mb_plans db)" "mp_status r = MP_ACTIVE" "mp_status s = MP_ACTIVE" "plan_key r = plan_key s" for r s
    using that assms(2) one_active_iff [of "mb_plans db"] by (auto simp: metrology_plans_ok_def)
  have ids: "map mp_id (map f (mb_plans db)) = map mp_id (mb_plans db)" using plan_map(3) by simp
  have d: "distinct (map mp_id (mb_plans db))" using assms(2) by (simp add: metrology_plans_ok_def)
  have "distinct (active_keys (map f (mb_plans db)))"
    unfolding one_active_iff [of "map f (mb_plans db)", unfolded ids, OF d]
  proof (intro ballI impI)
    fix a b assume ab: "a \<in> set (map f (mb_plans db))" "b \<in> set (map f (mb_plans db))"
      "mp_status a = MP_ACTIVE \<and> mp_status b = MP_ACTIVE \<and> plan_key a = plan_key b"
    obtain r s where rs: "r \<in> set (mb_plans db)" "s \<in> set (mb_plans db)" "a = f r" "b = f s" using ab by auto
    show "a = b" using plan_map(4) [OF rs(1)] plan_map(4) [OF rs(2)] ab(3) rs one [OF rs(1,2)] by auto
  qed
  moreover have "list_all (\<lambda>r. mp_id r < mb_next db1) (map f (mb_plans db))"
    using assms(2) plan_map(2,3) by (fastforce simp: metrology_plans_ok_def list_all_iff)
  ultimately show ?thesis using d unfolding metrology_plans_ok_def plan_map(1) ids by simp
next
  case (plan_activated f p k)
  show ?thesis by (rule plans_mapped [OF assms(2) plan_activated])
qed

lemma plan_found: "load_plan_context p e db = Inr r \<Longrightarrow> r \<in> set (mb_plans db) \<and> mp_id r = p \<and> mp_equipment r = e"
  by (auto simp: load_plan_context_def find_Some_iff split: option.splits)

lemma plan_unique: "metrology_plans_ok db \<Longrightarrow> r \<in> set (mb_plans db) \<Longrightarrow> s \<in> set (mb_plans db) \<Longrightarrow> mp_id r = mp_id s \<Longrightarrow> r = s"
  by (metis distinct_map inj_onD metrology_plans_ok_def)

lemma insert_plan_change: "plan_change db (insert_plan env e b db)"
  by (rule plan_new) (simp add: insert_plan_def)+

lemma revise_plan_change:
  assumes "revise_plan_version env e p v b db = Inr db1" "metrology_plans_ok db"
  shows "plan_change db db1"
proof -
  define g where "g = (\<lambda>y. y\<lparr>mp_operation := pi_operation b, mp_criteria := pi_criteria b, mp_schedule := pi_schedule b,
               mp_needs_certificate := pi_needs_certificate b, mp_updated := mt_now env\<rparr> :: metrology_plan_row)"
  obtain r where r: "load_plan_context p e db = Inr r"
    and c: "(if mp_status r = MP_DRAFT
       then (let db1 = update_plans (\<lambda>y. mp_id y = p) g db in if plan_versions_unique (mb_plans db1) then Inr db1 else Inl (JsError ''23505''))
       else Inr (insert_plan env e b db)) = Inr db1"
    using assms(1) unfolding g_def by (auto simp: revise_plan_version_def)
  have g: "mp_id (g y) = mp_id y" "mp_status (g y) = mp_status y" for y by (simp_all add: g_def)
  show ?thesis
  proof (cases "mp_status r = MP_DRAFT")
    case True
    then have db1: "db1 = update_plans (\<lambda>y. mp_id y = p) g db" using c by (simp add: Let_def split: if_splits)
    show ?thesis
    proof (rule plan_map)
      show "mb_plans db1 = map (\<lambda>y. if mp_id y = p then g y else y) (mb_plans db)" "mb_next db \<le> mb_next db1" by (simp_all add: db1)
      show "mp_id (if mp_id y = p then g y else y) = mp_id y" for y by (simp add: g)
      fix y assume y: "y \<in> set (mb_plans db)" "mp_status (if mp_id y = p then g y else y) = MP_ACTIVE"
      have "mp_id y \<noteq> p" using plan_unique [OF assms(2) y(1)] plan_found [OF r] y(2) True g by (auto split: if_splits)
      then show "mp_status y = MP_ACTIVE \<and> plan_key (if mp_id y = p then g y else y) = plan_key y" using y(2) by simp
    qed
  next
    case False
    then show ?thesis using c insert_plan_change by auto
  qed
qed

lemma transition_plan_change:
  assumes "transition_plan_version env e p v t db = Inr db1" "metrology_plans_ok db"
  shows "plan_change db db1"
proof -
  obtain eqr r where r: "load_plan_context p e db = Inr r"
    and c: "(if t = MP_ACTIVE then Inr (activate_plan env e p eqr r db)
       else Inr (update_plans (\<lambda>y. mp_id y = p) (\<lambda>y. y\<lparr>mp_status := MP_ARCHIVED, mp_updated := mt_now env\<rparr>) db)) = (Inr db1 :: metrology_db result)"
    using assms(1) by (auto simp: transition_plan_version_def)
  note f = plan_found [OF r]
  show ?thesis
  proof (cases "t = MP_ACTIVE")
    case True
    then have db1: "db1 = activate_plan env e p eqr r db" using c by simp
    let ?date = "Option.bind (latest_execution None (filter (conforming_execution e) (mb_executions db))) (\<lambda>x. map_option date_text (ex_ended x))"
    define g where "g = (\<lambda>y. y\<lparr>mp_status := MP_ACTIVE, mp_proof_date := ?date,
        mp_next_due := sr_next (compute_next_due_date \<lparr>si_plan = mp_schedule r, si_last_proof = ?date, si_certificate = None,
                  si_fallback = Some (date_text (eq_created eqr))\<rparr>), mp_updated := mt_now env\<rparr> :: metrology_plan_row)"
    define h where "h = (\<lambda>y. y\<lparr>mp_status := MP_ARCHIVED, mp_updated := mt_now env\<rparr> :: metrology_plan_row)"
    have gh1: "mb_plans db1 = map (\<lambda>y. if mp_id y = p then g y else y)
          (map (\<lambda>y. if mp_equipment y = e \<and> mp_operation y = mp_operation r \<and> mp_status y = MP_ACTIVE then h y else y) (mb_plans db))"
      unfolding db1 activate_plan_def Let_def sync_legacy_frame update_plans_frame g_def h_def ..
    have gh: "mp_id (g y) = mp_id y" "mp_id (h y) = mp_id y" "plan_key (g y) = plan_key y" "plan_key (h y) = plan_key y"
        "mp_status (h y) = MP_ARCHIVED" for y by (simp_all add: g_def h_def plan_key_def)
    let ?f = "(\<lambda>y. if mp_id y = p then g y else y) \<circ> (\<lambda>y. if mp_equipment y = e \<and> mp_operation y = mp_operation r \<and> mp_status y = MP_ACTIVE then h y else y)"
    show ?thesis
    proof (rule plan_activated [where f = ?f and p = p and k = "plan_key r"])
      show "mb_plans db1 = map ?f (mb_plans db)" unfolding gh1 by simp
      show "mb_next db \<le> mb_next db1" by (simp add: db1 activate_plan_frame)
      show "mp_id (?f y) = mp_id y" for y by (simp add: gh)
      fix y assume y: "y \<in> set (mb_plans db)" "mp_status (?f y) = MP_ACTIVE"
      show "mp_id y = p \<and> plan_key (?f y) = plan_key r \<or> mp_status y = MP_ACTIVE \<and> plan_key (?f y) = plan_key y \<and> plan_key y \<noteq> plan_key r"
      proof (cases "mp_id y = p")
        case True
        then have "y = r" using plan_unique [OF assms(2) y(1)] f by simp
        then show ?thesis using True by (simp add: gh)
      next
        case False
        then have "\<not> (mp_equipment y = e \<and> mp_operation y = mp_operation r \<and> mp_status y = MP_ACTIVE)" using y(2) by (auto simp: gh)
        then show ?thesis using False y(2) f by (auto simp: plan_key_def)
      qed
    qed
  next
    case False
    then have "db1 = update_plans (\<lambda>y. mp_id y = p) (\<lambda>y. y\<lparr>mp_status := MP_ARCHIVED, mp_updated := mt_now env\<rparr>) db" using c by simp
    then show ?thesis by (intro plan_map [where f = "\<lambda>y. if mp_id y = p then y\<lparr>mp_status := MP_ARCHIVED, mp_updated := mt_now env\<rparr> else y"]) (simp_all split: if_splits)
  qed
qed

lemma keep_proof_plans:
  "\<exists>f. mb_plans (keep_proof env v x e plan due db) = map f (mb_plans db) \<and> (\<forall>r. mp_id (f r) = mp_id r \<and> mp_status (f r) = mp_status r \<and> plan_key (f r) = plan_key r)"
proof (cases plan)
  case None
  then have "mb_plans (keep_proof env v x e plan due db) = map (\<lambda>r. r) (mb_plans db)" by (simp add: keep_proof_def Let_def)
  then show ?thesis by (intro exI [of _ "\<lambda>r. r"]) simp
next
  case (Some p)
  define g where "g = (\<lambda>r. r\<lparr>mp_proof := Some (ex_id x), mp_proof_date := Some (date_text (case vi_ended v of None \<Rightarrow> mt_now env | Some t \<Rightarrow> t)),
      mp_next_due := due, mp_updated := mt_now env\<rparr> :: metrology_plan_row)"
  have "mb_plans (keep_proof env v x e plan due db) = map (\<lambda>r. if mp_id r = mp_id p then g r else r) (mb_plans db)"
    using Some by (simp add: keep_proof_def Let_def g_def)
  moreover have "mp_id (g r) = mp_id r \<and> mp_status (g r) = mp_status r \<and> plan_key (g r) = plan_key r" for r by (simp add: g_def plan_key_def)
  ultimately show ?thesis by (intro exI [of _ "\<lambda>r. if mp_id r = mp_id p then g r else r"]) simp
qed

lemma validate_plan_change:
  assumes "validate_execution env x ver v db = Inr db1"
  shows "plan_change db db1"
proof -
  obtain r e plan p due where
    f: "(if verdict_is_admissible_proof (vi_verdict v) then Inr (keep_proof env v r e plan due (update_execution x (mark_validated env v p due) db))
      else if verdict_triggers_quarantine (vi_verdict v) then condemn env v r plan (update_execution x (mark_validated env v p due) db)
      else Inr (update_execution x (mark_validated env v p due) db)) = Inr db1"
    by (rule validate_effect [OF assms(1)])
  let ?db0 = "update_execution x (mark_validated env v p due) db"
  show ?thesis
  proof (cases "verdict_is_admissible_proof (vi_verdict v)")
    case True
    then have db1: "db1 = keep_proof env v r e plan due ?db0" using f by simp
    obtain g where "mb_plans db1 = map g (mb_plans db)" "\<And>r. mp_id (g r) = mp_id r" "\<And>r. mp_status (g r) = mp_status r" "\<And>r. plan_key (g r) = plan_key r"
      using keep_proof_plans [of env v r e plan due ?db0] db1 by auto
    then show ?thesis by (intro plan_map [of db1 g db]) (simp_all add: db1 keep_proof_frame)
  next
    case False
    note f1 = f [unfolded if_not_P [OF False]]
    show ?thesis
    proof (cases "verdict_triggers_quarantine (vi_verdict v)")
      case True
      then have "condemn env v r plan ?db0 = Inr db1" using f1 by simp
      then show ?thesis using condemn_effect(3,5) [of env v r plan ?db0 db1] by (simp add: plan_same)
    next
      case False
      then have "db1 = ?db0" using f1 by simp
      then show ?thesis by (simp add: plan_same)
    qed
  qed
qed

lemma command_plan_change:
  assumes "metrology_command env q db = Inr db1" "metrology_plans_ok db"
  shows "plan_change db db1"
proof (cases q)
  case (CreateExecution e b)
  then show ?thesis using assms(1) by (auto simp: create_execution_def split: if_splits intro: plan_same)
next
  case (RecordMeasurements x v ms)
  then have r: "record_measurements env x v ms db = Inr db1" using assms(1) by simp
  show ?thesis unfolding record_measurements_effect(3) [OF r] by (simp add: plan_same)
next
  case (ValidateExecution x v b)
  then show ?thesis using assms(1) validate_plan_change by simp
next
  case (CancelExecution x v)
  then show ?thesis using assms(1) by (auto simp: cancel_execution_def intro: plan_same)
next
  case (TransitionEquipment e v t reason p)
  then show ?thesis using assms(1) by (auto simp: transition_equipment_def intro: plan_same)
next
  case (QuarantineEquipment e v reason a)
  then have "\<exists>f. (if a then open_impact_dossier env e None None (update_equipment e f db) else Inr (update_equipment e f db)) = Inr db1"
    using assms(1) by (auto simp: quarantine_equipment_def Let_def)
  then obtain f where f: "(if a then open_impact_dossier env e None None (update_equipment e f db) else Inr (update_equipment e f db)) = Inr db1" ..
  show ?thesis
  proof (cases a)
    case True
    then have o': "open_impact_dossier env e None None (update_equipment e f db) = Inr db1" using f by simp
    show ?thesis using open_impact_effect(3,5) [OF o'] by (simp add: plan_same)
  qed (use f in \<open>auto intro: plan_same\<close>)
next
  case (CreatePlan e b)
  then have "db1 = insert_plan env e b db" using assms(1) by (auto simp: create_plan_version_def)
  then show ?thesis using insert_plan_change by simp
next
  case (RevisePlan e p v b)
  then show ?thesis using assms revise_plan_change by simp
next
  case (TransitionPlan e p v t)
  then show ?thesis using assms transition_plan_change by simp
next
  case (CreateImpact e x w)
  then show ?thesis using assms(1) open_impact_effect(3,5) by (simp add: plan_same)
next
  case (DecideImpactItem d i dec reason)
  then show ?thesis using assms(1) by (auto simp: decide_impact_item_def split: option.splits if_splits intro: plan_same)
next
  case (TransitionImpact d v t c)
  then show ?thesis using assms(1) by (auto simp: transition_impact_def split: option.splits intro: plan_same)
qed

lemma command_moved:
  assumes "metrology_command env q db = Inr db1" "distinct (map eq_id (mb_equipment db))"
  shows "list_all2 (moved env q db) (mb_equipment db) (mb_equipment db1)"
proof (cases q)
  case (CreateExecution e b)
  then show ?thesis using assms(1) by (auto simp: create_execution_def split: if_splits)
next
  case (RecordMeasurements x v ms)
  then have r: "record_measurements env x v ms db = Inr db1" using assms(1) by simp
  show ?thesis unfolding record_measurements_effect(3) [OF r] by simp
next
  case (ValidateExecution x v b)
  then show ?thesis using assms validate_moved by simp
next
  case (CancelExecution x v)
  then show ?thesis using assms(1) by (auto simp: cancel_execution_def)
next
  case (TransitionEquipment e v t reason p)
  then show ?thesis using assms transition_moved by simp
next
  case (QuarantineEquipment e v reason a)
  then show ?thesis using assms(1) quarantine_moved by simp
next
  case (CreatePlan e b)
  then show ?thesis using assms(1) by (auto simp: create_plan_version_def insert_plan_def)
next
  case (RevisePlan e p v b)
  then have "mb_equipment db1 = mb_equipment db"
    using assms(1) by (auto simp: revise_plan_version_def insert_plan_def Let_def split: if_splits)
  then show ?thesis by simp
next
  case (TransitionPlan e p v t)
  then have "mb_equipment db1 = mb_equipment db"
    using assms(1) by (auto simp: transition_plan_version_def activate_plan_frame split: if_splits)
  then show ?thesis by simp
next
  case (CreateImpact e x w)
  then show ?thesis using assms(1) open_impact_effect(1) by simp
next
  case (DecideImpactItem d i dec reason)
  then show ?thesis using assms(1) by (auto simp: decide_impact_item_def split: option.splits if_splits)
next
  case (TransitionImpact d v t c)
  then show ?thesis using assms(1) by (auto simp: transition_impact_def split: option.splits)
qed

section \<open>Runs\<close>

lemma save_receipt_frame [simp]:
  "mb_equipment (save_receipt a k h db) = mb_equipment db" "mb_executions (save_receipt a k h db) = mb_executions db"
  "mb_plans (save_receipt a k h db) = mb_plans db" "mb_measurements (save_receipt a k h db) = mb_measurements db"
  "mb_dossiers (save_receipt a k h db) = mb_dossiers db" "mb_next (save_receipt a k h db) = mb_next db"
  by (simp_all add: save_receipt_def)

lemma metrology_step_cases:
  assumes "metrology_step h env key q db = Inr db1"
  obtains "db1 = db" | db0 a k rh where "metrology_command env q db = Inr db0" "db1 = save_receipt a k rh db0"
  using assms by (auto simp: metrology_step_def split: if_splits)

definition metrology_inv :: "metrology_db \<Rightarrow> bool" where
  "metrology_inv db \<longleftrightarrow> distinct (map eq_id (mb_equipment db)) \<and> executions_ok db \<and> analysed db \<and> metrology_plans_ok db \<and> list_all dossier_bounded (mb_dossiers db)"

definition kept_out :: "metrology_db \<Rightarrow> metrology_db \<Rightarrow> bool" where
  "kept_out db db1 \<longleftrightarrow> list_all2 (\<lambda>r r'. eq_id r' = eq_id r \<and> (if out_of_service (eq_state r) then out_of_service (eq_state r') else True))
     (mb_equipment db) (mb_equipment db1)"

definition validated_kept :: "metrology_db \<Rightarrow> metrology_db \<Rightarrow> bool" where
  "validated_kept db db1 \<longleftrightarrow> set (filter (\<lambda>x. ex_status x = EX_VALIDATED) (mb_executions db)) \<subseteq> set (mb_executions db1)"

definition serve :: "(metrology_request \<Rightarrow> string) \<Rightarrow> metrology_env \<times> string option \<times> metrology_request \<Rightarrow> metrology_db \<Rightarrow> metrology_db result" where
  "serve h r db = metrology_step h (fst r) (fst (snd r)) (snd (snd r)) db"

lemma metrology_run_all: "metrology_run h qs db = run_all (serve h) qs db"
proof (induction qs arbitrary: db)
  case (Cons r qs)
  then show ?case by (cases r) (simp add: serve_def)
qed simp

lemma moved_ids: "list_all2 (moved env q db) rs rs' \<Longrightarrow> map eq_id rs' = map eq_id rs"
  by (induction rule: list_all2_induct) (simp_all add: moved_def)

lemma command_inv:
  assumes "metrology_command env q db = Inr db1" "metrology_inv db"
  shows "metrology_inv db1 \<and> validated_kept db db1"
proof -
  have i: "distinct (map eq_id (mb_equipment db))" "executions_ok db" "analysed db" "metrology_plans_ok db" "list_all dossier_bounded (mb_dossiers db)"
    using assms(2) by (simp_all add: metrology_inv_def)
  note x = command_execution_change [OF assms(1)]
  have "list_all dossier_bounded (mb_dossiers db1)" using x i(5) by (simp add: dossiers_grow_def)
  then show ?thesis using executions_kept [OF x i(2,3)] plans_kept [OF command_plan_change [OF assms(1) i(4)] i(4)]
      moved_ids [OF command_moved [OF assms(1) i(1)]] i(1) by (simp add: metrology_inv_def validated_kept_def)
qed

lemma save_receipt_inv [simp]: "metrology_inv (save_receipt a k h db) = metrology_inv db"
  by (simp add: metrology_inv_def executions_ok_def analysed_def metrology_plans_ok_def)

lemma kept_out_refl: "kept_out db db"
  by (simp add: kept_out_def list_all2_refl)

lemma step_inv_ok: "metrology_inv db \<Longrightarrow> serve h r db = Inr db1 \<Longrightarrow> metrology_inv db1 \<and> validated_kept db db1"
  unfolding serve_def by (erule metrology_step_cases) (auto simp: validated_kept_def dest!: command_inv)

lemma step_moved:
  assumes "distinct (map eq_id (mb_equipment db))" "metrology_step h env key q db = Inr db1"
  shows "list_all2 (moved env q db) (mb_equipment db) (mb_equipment db1)"
  using assms(2) by (rule metrology_step_cases) (use command_moved [OF _ assms(1)] in auto)

lemma moved_kept_out: "\<not> may_release env \<Longrightarrow> moved env q db r r' \<Longrightarrow> out_of_service (eq_state r) \<Longrightarrow> out_of_service (eq_state r')"
  by (auto simp: moved_def proven_release_def split: if_splits metrology_request.splits)

lemma step_kept_out: "metrology_inv db \<Longrightarrow> \<not> may_release (fst r) \<Longrightarrow> serve h r db = Inr db1 \<Longrightarrow> kept_out db db1"
  unfolding kept_out_def serve_def metrology_inv_def
  by (rule list_all2_mono [OF step_moved]) (auto dest: moved_kept_out simp: moved_def)

lemma kept_out_trans:
  assumes "kept_out a b" "kept_out b c"
  shows "kept_out a c"
  using assms unfolding kept_out_def by (rule list_all2_trans [rotated]) (auto split: if_splits)

interpretation registry: transactional "serve h" metrology_inv kept_out "\<lambda>r. \<not> may_release (fst r)" for h
  by unfold_locales (use step_inv_ok step_kept_out kept_out_refl kept_out_trans in blast)+

interpretation archive: transactional "serve h" metrology_inv validated_kept "\<lambda>r. True" for h
proof unfold_locales
  fix a b c assume "validated_kept a b" "validated_kept b c"
  then show "validated_kept a c" by (auto simp: validated_kept_def)
qed (use step_inv_ok in \<open>auto simp: validated_kept_def\<close>)

lemma step_unmeasured: "mb_measurements db = [] \<Longrightarrow> serve h r db = Inr db1 \<Longrightarrow> mb_measurements db1 = []"
  unfolding serve_def by (erule metrology_step_cases) (auto dest!: command_execution_change simp: dossiers_grow_def)

interpretation unmeasured: transactional "serve h" "\<lambda>db. mb_measurements db = []" "\<lambda>a b. True" "\<lambda>r. True" for h
  by unfold_locales (use step_unmeasured in blast)+

section \<open>The register from its start\<close>

text \<open>Instruments as they were registered, each under its own number; no plan, execution, measurement or file yet.\<close>

definition fresh_register :: "equipment_row list \<Rightarrow> metrology_db" where
  "fresh_register es = \<lparr>mb_equipment = map (\<lambda>(i, r). r\<lparr>eq_id := i\<rparr>) (enumerate 1 es), mb_plans = [], mb_executions = [], mb_measurements = [],
     mb_dossiers = [], mb_items = [], mb_legacy = [], mb_receipts = [], mb_next = Suc (length es)\<rparr>"

definition register_after :: "(metrology_request \<Rightarrow> string) \<Rightarrow> (metrology_env \<times> string option \<times> metrology_request) list \<Rightarrow> equipment_row list \<Rightarrow> metrology_db" where
  "register_after h qs es = metrology_run h qs (fresh_register es)"

lemma fresh_register_inv: "metrology_inv (fresh_register es)"
proof -
  have "map (eq_id \<circ> (\<lambda>(i, r). r\<lparr>eq_id := i\<rparr>)) (enumerate n es) = map fst (enumerate n es)" for n by (induction es arbitrary: n) simp_all
  then show ?thesis by (simp add: metrology_inv_def fresh_register_def executions_ok_def analysed_def metrology_plans_ok_def active_keys_def)
qed

lemma register_inv: "metrology_inv (register_after h qs es)"
  unfolding register_after_def metrology_run_all by (rule registry.run_inv [OF fresh_register_inv])

lemma register_unmeasured: "mb_measurements (register_after h qs es) = []"
  unfolding register_after_def metrology_run_all by (rule unmeasured.run_inv) (simp add: fresh_register_def)

text \<open>A condemnation fails when what is to be analysed is longer than allowed: here for an instrument with no proof.\<close>

lemma old_window_refused:
  assumes "MAX_WINDOW_DAYS * MS_IN_DAY < event - created"
  shows "compute_impact_window event None created None = Inl (HttpError 422 ''METROLOGY_IMPACT_WINDOW_TOO_WIDE'')"
proof -
  have "created \<le> event" using assms by (simp add: MAX_WINDOW_DAYS_def MS_IN_DAY_def)
  moreover have "MAX_WINDOW_DAYS < span_days created event"
    using assms by (simp add: span_days_def MAX_WINDOW_DAYS_def MS_IN_DAY_def)
  ultimately show ?thesis by (simp add: compute_impact_window_def bounded_window_def)
qed

lemma preview_computation:
  assumes "preview_verdict env x db = Inr p"
  shows "\<exists>c. pr_computation p = compute_execution_verdict (load_measurements x db) c"
proof -
  obtain r where r: "lock_execution x db = Inr r" using assms unfolding preview_verdict_def by auto
  obtain e where e: "find_equipment (ex_equipment r) db = Some e"
    using assms r unfolding preview_verdict_def by (cases "find_equipment (ex_equipment r) db") auto
  obtain plan where "plan_of (ex_plan r) (ex_equipment r) db = Inr plan" using assms r e unfolding preview_verdict_def by auto
  then have "pr_computation p = compute_execution_verdict (load_measurements x db) (criteria_of plan)"
    using assms r e unfolding preview_verdict_def Let_def by auto
  then show ?thesis ..
qed

text \<open>C35: No measurement is ever kept. Recording one point of measure or more fails whatever the state of the register,
  since the refreshed verdicts are written without raising the revision that the table demands; so from the
  start of a register no sequence of requests leaves a measurement in it, and the verdict computed for any
  execution is that nothing can be concluded: a conforming verdict is always an override.\<close>

theorem measurements_never_recorded:
  "(case ms of [] \<Rightarrow> True | _ \<Rightarrow> \<not> is_ok (record_measurements env x v ms db))
   \<and> mb_measurements (register_after h qs es) = []
   \<and> (case preview_verdict env x (register_after h qs es) of Inl _ \<Rightarrow> True | Inr p \<Rightarrow> vx_verdict (pr_computation p) = MV_INCONCLU)"
proof (intro conjI)
  show "case ms of [] \<Rightarrow> True | _ \<Rightarrow> \<not> is_ok (record_measurements env x v ms db)"
    using record_measurements_effect(1) [of env x v ms db]
    by (cases ms; cases "record_measurements env x v ms db") auto
  show "mb_measurements (register_after h qs es) = []" by (rule register_unmeasured)
  have "load_measurements x (register_after h qs es) = []" by (simp add: load_measurements_def register_unmeasured)
  then show "case preview_verdict env x (register_after h qs es) of Inl _ \<Rightarrow> True | Inr p \<Rightarrow> vx_verdict (pr_computation p) = MV_INCONCLU"
    using preview_computation [of env x "register_after h qs es"] by (force simp: execution_verdict enough_points_def split: sum.split)
qed


text \<open>C36: No instrument is condemned without looking at what it measured. In a register reached by any requests, every
  execution whose verdict is not conform has its impact file, and the window of that file starts no later than it
  ends and spans at most 1826 days.\<close>

theorem condemnations_analysed:
  "list_all (\<lambda>x. if ex_verdict x = Some MV_NON_CONFORME
     then list_ex (\<lambda>d. im_execution d = Some (ex_id x) \<and> dossier_bounded d) (mb_dossiers (register_after h qs es)) else True)
   (mb_executions (register_after h qs es))"
proof -
  have "analysed (register_after h qs es)" "list_all dossier_bounded (mb_dossiers (register_after h qs es))"
    using register_inv by (simp_all add: metrology_inv_def)
  then show ?thesis by (auto simp: analysed_def has_dossier_def list_all_iff list_ex_iff)
qed

text \<open>C37: A validated execution is final, and an operation of an instrument follows one plan. Every validated execution of a
  register reached by any requests is there, unchanged, after any further requests; and at no point do two
  active plans share an instrument and an operation.\<close>

theorem validated_executions_final:
  "set (filter (\<lambda>x. ex_status x = EX_VALIDATED) (mb_executions (register_after h qs es))) \<subseteq> set (mb_executions (register_after h (qs @ rs) es))
   \<and> distinct (map (\<lambda>r. (mp_equipment r, mp_operation r)) (filter (\<lambda>r. mp_status r = MP_ACTIVE) (mb_plans (register_after h qs es))))"
proof
  have "validated_kept (register_after h qs es) (run_all (serve h) rs (register_after h qs es))"
    by (rule archive.run_rel [OF register_inv]) (simp add: list_all_iff)
  then show "set (filter (\<lambda>x. ex_status x = EX_VALIDATED) (mb_executions (register_after h qs es))) \<subseteq> set (mb_executions (register_after h (qs @ rs) es))"
    by (simp add: register_after_def metrology_run_all run_all_append validated_kept_def)
  have "distinct (active_keys (mb_plans (register_after h qs es)))" using register_inv by (simp add: metrology_inv_def metrology_plans_ok_def)
  then show "distinct (map (\<lambda>r. (mp_equipment r, mp_operation r)) (filter (\<lambda>r. mp_status r = MP_ACTIVE) (mb_plans (register_after h qs es))))"
    by (simp add: active_keys_def plan_key_def [abs_def])
qed

section \<open>An example\<close>

text \<open>An adjusted instrument, put in quarantine after a fall and back to service on that adjustment.\<close>

definition sample_metrology_env :: "nat \<Rightarrow> metrology_env" where
  "sample_metrology_env u = \<lparr>mt_now = 0, mt_actor = u, mt_role = Some ''Responsable qualite'', mt_granted = False, mt_parse = (\<lambda>_. Some 0), mt_evidence = (\<lambda>_. 1),
     mt_usages = (\<lambda>_ _ _. []), mt_preview_hash = (\<lambda>_. ''h'')\<rparr>"

definition sample_requests :: "(metrology_env \<times> string option \<times> metrology_request) list" where
  "sample_requests =
     [(sample_metrology_env 1, Some ''key-0000000001'', CreateExecution 1 \<lparr>xi_operation = OP_AJUSTAGE, xi_plan = None, xi_started = None, xi_operator = None\<rparr>),
      (sample_metrology_env 2, Some ''key-0000000002'', ValidateExecution 2 (Some ''v'') \<lparr>vi_preview_hash = ''h'', vi_verdict = MV_CONFORME,
         vi_justification = Some ''read on the certificate of the laboratory'', vi_decision = REMISE_EN_SERVICE, vi_reason = ''adjusted'',
         vi_ended = None, vi_override_date = None, vi_override_reason = None, vi_override_approver = None\<rparr>),
      (sample_metrology_env 2, Some ''key-0000000003'', QuarantineEquipment 1 (Some ''v'') ''dropped'' False),
      (sample_metrology_env 2, Some ''key-0000000004'', TransitionEquipment 1 (Some ''v'') EQ_QUALIFIED ''checked again after the fall'' None)]"

definition sample_instrument :: equipment_row where
  "sample_instrument = \<lparr>eq_id = 0, eq_state = EQ_ACTIVE, eq_deleted = False, eq_criticality = None, eq_created = 0, eq_commissioned = None,
     eq_last_proof = None, eq_last_proof_at = None, eq_reason = None, eq_quarantine = None, eq_updated = 0\<rparr>"

definition sample_hash :: "metrology_request \<Rightarrow> string" where
  "sample_hash _ = ''r''"

lemma release_happens:
  "map eq_state (mb_equipment (register_after sample_hash (take 3 sample_requests) [sample_instrument])) = [EQ_QUARANTINE]
   \<and> map eq_state (mb_equipment (register_after sample_hash sample_requests [sample_instrument])) = [EQ_QUALIFIED]"
  by code_simp

end
