(* ===== verification/Spec2Isabelle.thy ===== *)
theory Spec2Isabelle
  imports Finance_Policy Order_Lifecycles Production_Execution Station_Worklist Trace_Invariants Quality_Release
    Access_Rules Realtime_Transaction Lock_Events Margin_Rules Code_Rules Of_Structure Delivery_Gate Presence Order_Workflow Replenishment Of_Revision_Store
    Mfa_Rules Metrology_Eligibility Metrology_Rules
begin

text \<open>
  A model of the decisions of the CERP back end, a TypeScript server (Express over PostgreSQL) for a machining
  workshop. Paths below are those of the repository, under \<open>src/\<close>; the domain folders hold the rules, the
  services and the repositories apply them to the tables, the controllers and routes expose them.

  Conventions.
  \<^item> Strings are lists of Latin-1 code units; numbers are exact (\<open>int\<close>, \<open>nat\<close>, \<open>rat\<close>), with the rounding of the
    source written out; 32-bit operators are on words (\<open>Mfa_Codes\<close>). \<open>null\<close> and \<open>undefined\<close> are \<open>None\<close>. What the
    64-bit format of numbers would round further is not modelled.
  \<^item> A thrown error is the left of \<open>failure + 'a\<close> (\<open>Prelude\<close>): \<open>HttpError\<close> with its status and code, \<open>JsError\<close> for the
    rest, the errors of the database by their code. Messages, details and labels are left out.
  \<^item> A transaction is a function from the tables to the new tables or an error that leaves them; the tables are
    records of lists. A history of requests is a run over such functions (\<open>run_all\<close>, \<open>mfa_run\<close>, \<open>metrology_run\<close>, ...).
    Where the code lets other transactions in between, their steps are explicit (\<open>Access_Cache\<close>, \<open>Realtime_Log\<close>,
    \<open>Realtime_Replay\<close>, \<open>Realtime_Delivery\<close>).
  \<^item> Hashes, clocks, random values, the collation, \<open>Date.parse\<close>, the keyed digest and the answers of repositories that are
    not modelled are arguments.

  The library.
  \<^item> \<open>Prelude\<close>: results, guards, option strings, trimming, insertion-ordered maps; \<open>Js_Number\<close>: numbers with \<open>NaN\<close>;
    \<open>Canonical_Json\<close>: the canonical text of a payload and its injectivity; \<open>Civil_Calendar\<close>: years, months and days.
  \<^item> \<open>Interfaces\<close>: the locales several components provide (status machines with and without a guard or a rank,
    policies of capabilities, codecs of names, versioned stores); each is interpreted on the definitions of the
    components, and \<open>transactional\<close> in \<open>Metrology_Rules\<close> carries invariants and relations along a run.

  The components, each with its rules in the theory of the same line.
  \<^item> Money and invoices: \<open>Decimal_Money\<close> (\<open>facturation/domain/decimal-money.ts\<close>), \<open>Finance_Policy\<close>
    (\<open>finance-policy.ts\<close>): totals balance to the cent; the settlement statuses.
  \<^item> Roles and access: \<open>Auth_Roles\<close> (\<open>auth/domain/roles.ts\<close>), \<open>Module_Catalog\<close>, \<open>Access_Tower\<close>, \<open>Access_Cache\<close>,
    \<open>Access_Rules\<close> (\<open>access-control\<close>): the cached profile is a reading of the tables at one moment, found in at most
    ten reads; which requests the gate of the router refuses; what no restriction can do.
  \<^item> Second factor: \<open>Mfa_Codes\<close>, \<open>Mfa_Service\<close>, \<open>Mfa_Rules\<close> (\<open>auth/domain/mfa.ts\<close>, \<open>mfa-policy.ts\<close>,
    \<open>auth/services/mfa.service.ts\<close>): no session without a proof, no code used twice, wrong codes limited.
  \<^item> Production: \<open>Order_Lifecycles\<close> (three status machines), \<open>Production_Execution\<close> (time entries and declared
    quantities), \<open>Station\<close>, \<open>Station_Worklist\<close> (\<open>station.ts\<close>, the operator's tablet), \<open>Of_Generation\<close>, \<open>Of_Structure\<close>
    (\<open>of-generation.ts\<close>: one order for each occurrence of a piece of the bill of materials, refused below fifty levels),
    \<open>Of_Revision\<close>, \<open>Planning_Versions\<close>, \<open>Of_Versioning\<close>, \<open>Of_Revision_Store\<close> (revisions, plans and renewed
    acknowledgements, with the trigger that protects revisions).
  \<^item> Sales and purchases: \<open>Order_Workflow\<close> (\<open>commande-client/workflow\<close>), \<open>Replenishment\<close>
    (\<open>replenishment-calculation.ts\<close>, \<open>stock-availability.ts\<close>), \<open>Margin_Engine\<close>, \<open>Margin_Rules\<close> (\<open>margin-engine.ts\<close>),
    \<open>Business_Codes\<close>, \<open>Code_Rules\<close> (\<open>shared/codes\<close>).
  \<^item> Quality: \<open>Quality_Release\<close> (\<open>quality-release.ts\<close>: ledger of quantities, derogations), \<open>Delivery_Gate\<close>
    (\<open>quality-release-gate.ts\<close>), \<open>Trace_Model\<close>, \<open>Trace_Graph\<close>, \<open>Trace_Invariants\<close> (\<open>traceability/domain\<close>: an expansion
    is sound, and complete unless it reports a limit).
  \<^item> Metrology: \<open>Metrology_Units\<close>, \<open>Metrology_Policy\<close>, \<open>Metrology_Schedule\<close>, \<open>Metrology_Verdict\<close>,
    \<open>Metrology_Eligibility\<close> (\<open>metrologie/domain\<close>); \<open>Metrology_Service\<close>, the requests of \<open>metrologie/repository\<close> on one
    record of tables, with the trigger that protects measurements; \<open>Metrology_Rules\<close>: release on proof only, final
    executions, one active plan, an analysis for every condemnation, and the recording of measurements that always
    fails.
  \<^item> Real time: \<open>Realtime_Rooms\<close>, \<open>Realtime_Contract\<close>, \<open>Realtime_Log\<close>, \<open>Realtime_Outbox\<close>, \<open>Realtime_Replay\<close>,
    \<open>Realtime_Delivery\<close>, \<open>Realtime_Transaction\<close> (\<open>shared/realtime\<close>): well-formed subscriptions and events, the
    outbox publishes in order, a replay leaves no hole, a lost acknowledgement gives no false answer; \<open>Entity_Locks\<close>,
    \<open>Lock_Events\<close> (\<open>locks\<close>): exclusive locks whose events tell the table; \<open>Presence\<close> (chat presence).

  Components meet where the code calls across them: the guards of \<open>Metrology_Service\<close> are those of
  \<open>Metrology_Policy\<close>, its verdicts and due dates those of \<open>Metrology_Verdict\<close> and \<open>Metrology_Schedule\<close>; the locks write to the
  outbox of \<open>Realtime_Outbox\<close>; the gate of \<open>Access_Tower\<close> resolves paths in \<open>Module_Catalog\<close>; the capabilities of
  every module rest on \<open>Auth_Roles\<close>; \<open>Of_Versioning\<close> compares plans with \<open>Planning_Versions\<close>.

  Bounds and fuel. The walk to the ancestors of \<open>Trace_Graph\<close> stops after 64 steps as in the source (findings name what
  that misses); a profile is read at most ten times; the bill of materials is followed for fifty levels,
  beyond which the generation is shown to be refused; a window of analysis spans at most 1826 days and
  an impact file holds at most 2000 items. Every other recursion is structural or ends by a measure.

  Not modelled. The repositories and SQL of stock, invoicing, deliveries, quality, technical pieces, project office and
  document management, mostly long queries and screens; controllers, routes and request schemas, which pass values on
  (the bodies a request may have are taken as already parsed); the generated inventory of routes; PDF, e-mail and
  spreadsheet work, uploads, the providers of electronic invoices, sockets, logging and start-up, which are input and
  output; rule folders not reached (surface finishes, tools, gammes, planning, methods, quotes, travel times, customer
  portal, import assistant, accounting export, stock intelligence).
\<close>

end
